(* ===== verification/Prelude.thy ===== *)
theory Prelude
  imports Main "HOL-Library.Word"
begin

text \<open>
  Shared vocabulary of the development: the machine types of the Rust code, the outcome of a
  fallible Rust computation, byte slices, and the big- and little-endian integer encodings that
  every wire format of the repository uses.

  Conventions.
  \<^item> \<open>u8\<close>, \<open>u16\<close>, \<open>u32\<close>, \<open>u64\<close>, \<open>u128\<close> are words of that width. The
    workspace sets no \<^verbatim>\<open>overflow-checks\<close>, so plain \<open>+\<close> and \<open>-\<close> of the
    release build wrap around, as \<open>+\<close> and \<open>-\<close> on words do.
  \<^item> \<open>usize\<close> is the 64-bit size type. Lengths and offsets are \<open>nat\<close>; where an
    attacker-chosen length enters a sum, the sum is written with \<open>usize_add\<close>, which wraps.
  \<^item> A function returning \<^verbatim>\<open>Result<T, E>\<close> has type \<open>('t, 'e) result\<close>. The
    third constructor \<open>Panic\<close> is a Rust panic (a slice or an index out of range, a failed
    \<^verbatim>\<open>expect\<close>): the absence of panics is then a theorem and not an assumption.
\<close>

named_theorems res_simps \<open>rules that move a success or an error through the result monad\<close>
named_theorems wire_simps \<open>lengths and inverses of the fixed-width byte encodings\<close>

section \<open>Machine types\<close>

type_synonym u8 = "8 word"
type_synonym u16 = "16 word"
type_synonym u32 = "32 word"
type_synonym u64 = "64 word"
type_synonym u128 = "128 word"

type_synonym bytes = "u8 list"

lemma unat_lt2p: "unat x < 2 ^ LENGTH('a)"
  for x :: "'a::len word"
  by (rule unsigned_less)

lemma unat_minus_one: "unat (- 1 :: 'a::len word) = 2 ^ LENGTH('a) - 1"
  by (simp add: unsigned_minus_1_eq_mask mask_eq_exp_minus_1)

lemma unat_u64_less [simp]: "unat (x :: u64) < 18446744073709551616"
  using unat_lt2p [of x] by simp

lemma unat_u64_not_ge [simp]: "\<not> 18446744073709551616 \<le> unat (x :: u64)"
  using unat_u64_less [of x] by linarith

text \<open>\<^verbatim>\<open>u64::checked_add\<close>, \<^verbatim>\<open>saturating_add\<close>,
  \<^verbatim>\<open>saturating_sub\<close> and the wrapping sum of two sizes.\<close>

definition checked_add :: "'a::len word \<Rightarrow> 'a word \<Rightarrow> 'a word option" where
  "checked_add a b = (if unat a + unat b < 2 ^ LENGTH('a) then Some (a + b) else None)"

definition checked_mul :: "'a::len word \<Rightarrow> 'a word \<Rightarrow> 'a word option" where
  "checked_mul a b = (if unat a * unat b < 2 ^ LENGTH('a) then Some (a * b) else None)"

definition saturating_add :: "'a::len word \<Rightarrow> 'a word \<Rightarrow> 'a word" where
  "saturating_add a b = (case checked_add a b of Some c \<Rightarrow> c | None \<Rightarrow> - 1)"

definition saturating_sub :: "'a::len word \<Rightarrow> 'a word \<Rightarrow> 'a word" where
  "saturating_sub a b = (if b \<le> a then a - b else 0)"

definition usize_add :: "nat \<Rightarrow> nat \<Rightarrow> nat" where
  "usize_add a b = (a + b) mod 2 ^ 64"

lemma checked_add_eq_Some_iff:
  "checked_add a b = Some c \<longleftrightarrow> unat c = unat a + unat b"
  for a b c :: "'a::len word"
proof
  assume "checked_add a b = Some c"
  then show "unat c = unat a + unat b"
    by (auto simp: checked_add_def unat_word_ariths split: if_splits)
next
  assume eq: "unat c = unat a + unat b"
  moreover have "unat c < 2 ^ LENGTH('a)" by (rule unat_lt2p)
  ultimately have "unat a + unat b < 2 ^ LENGTH('a)" by simp
  moreover from this have "c = a + b"
    using eq by (simp add: word_unat_eq_iff unat_word_ariths)
  ultimately show "checked_add a b = Some c"
    by (simp add: checked_add_def)
qed

lemma checked_add_eq_None_iff:
  "checked_add a b = None \<longleftrightarrow> 2 ^ LENGTH('a) \<le> unat a + unat b"
  for a b :: "'a::len word"
  by (simp add: checked_add_def not_less)

lemma checked_mul_eq_Some_iff:
  "checked_mul a b = Some c \<longleftrightarrow> unat c = unat a * unat b"
  for a b c :: "'a::len word"
proof
  assume "checked_mul a b = Some c"
  then show "unat c = unat a * unat b"
    by (auto simp: checked_mul_def unat_word_ariths split: if_splits)
next
  assume eq: "unat c = unat a * unat b"
  moreover have "unat c < 2 ^ LENGTH('a)" by (rule unat_lt2p)
  ultimately have "unat a * unat b < 2 ^ LENGTH('a)" by simp
  moreover from this have "c = a * b"
    using eq by (simp add: word_unat_eq_iff unat_word_ariths)
  ultimately show "checked_mul a b = Some c"
    by (simp add: checked_mul_def)
qed

lemma unat_saturating_add:
  "unat (saturating_add a b) = min (unat a + unat b) (2 ^ LENGTH('a) - 1)"
  for a b :: "'a::len word"
  by (auto simp: saturating_add_def checked_add_def unat_minus_one unat_word_ariths min_def)

lemma unat_saturating_sub:
  "unat (saturating_sub a b) = unat a - unat b"
  for a b :: "'a::len word"
  by (simp add: saturating_sub_def unat_sub word_le_nat_alt)

lemma unat_add_no_overflow:
  "unat a + unat b < 2 ^ LENGTH('a) \<Longrightarrow> unat (a + b) = unat a + unat b"
  for a b :: "'a::len word"
  by (simp add: unat_word_ariths)

lemma usize_add_exact: "a + b < 2 ^ 64 \<Longrightarrow> usize_add a b = a + b"
  by (simp add: usize_add_def)

text \<open>A sum of sizes that did not fall below its first operand did not wrap.\<close>

lemma usize_add_no_wrap:
  assumes "b < 2 ^ 64" "a \<le> usize_add a b"
  shows "usize_add a b = a + b"
proof (cases "a + b < 2 ^ 64")
  case False
  then have "(a + b) mod 2 ^ 64 \<le> a + b - 2 ^ 64"
    by (metis le_mod_geq mod_less_eq_dividend not_less)
  also have "\<dots> < a" using False assms(1) by linarith
  finally show ?thesis using assms(2) by (simp add: usize_add_def)
qed (rule usize_add_exact)

section \<open>Related lists\<close>

lemma list_all2_right: "list_all2 P xs ys \<Longrightarrow> y \<in> set ys \<Longrightarrow> \<exists>x \<in> set xs. P x y"
  by (induction rule: list_all2_induct) auto

lemma list_all2_left: "list_all2 P xs ys \<Longrightarrow> x \<in> set xs \<Longrightarrow> \<exists>y \<in> set ys. P x y"
  by (induction rule: list_all2_induct) auto

section \<open>Outcomes of fallible code\<close>

datatype ('t, 'e) result = Ok 't | Err 'e | Panic

text \<open>The \<open>?\<close> operator: an error or a panic ends the function.\<close>

fun res_bind :: "('s, 'e) result \<Rightarrow> ('s \<Rightarrow> ('t, 'e) result) \<Rightarrow> ('t, 'e) result" where
  "res_bind (Ok x) f = f x"
| "res_bind (Err e) f = Err e"
| "res_bind Panic f = Panic"

fun map_err :: "('e \<Rightarrow> 'f) \<Rightarrow> ('t, 'e) result \<Rightarrow> ('t, 'f) result" where
  "map_err g (Ok x) = Ok x"
| "map_err g (Err e) = Err (g e)"
| "map_err g Panic = Panic"

fun is_ok :: "('t, 'e) result \<Rightarrow> bool" where
  "is_ok (Ok _) = True"
| "is_ok _ = False"

definition ok_or :: "'t option \<Rightarrow> 'e \<Rightarrow> ('t, 'e) result" where
  "ok_or x e = (case x of Some v \<Rightarrow> Ok v | None \<Rightarrow> Err e)"

lemma res_bind_eq_Ok_iff [res_simps]:
  "res_bind m f = Ok y \<longleftrightarrow> (\<exists>x. m = Ok x \<and> f x = Ok y)"
  by (cases m) auto

lemma res_bind_eq_Err_iff [res_simps]:
  "res_bind m f = Err e \<longleftrightarrow> m = Err e \<or> (\<exists>x. m = Ok x \<and> f x = Err e)"
  by (cases m) auto

lemma res_bind_eq_Panic_iff [res_simps]:
  "res_bind m f = Panic \<longleftrightarrow> m = Panic \<or> (\<exists>x. m = Ok x \<and> f x = Panic)"
  by (cases m) auto

lemma map_err_eq_Ok_iff [res_simps]: "map_err g m = Ok y \<longleftrightarrow> m = Ok y"
  by (cases m) auto

lemma map_err_eq_Err_iff [res_simps]: "map_err g m = Err e \<longleftrightarrow> (\<exists>e'. m = Err e' \<and> e = g e')"
  by (cases m) auto

lemma map_err_eq_Panic_iff [res_simps]: "map_err g m = Panic \<longleftrightarrow> m = Panic"
  by (cases m) auto

lemma ok_or_eq_Ok_iff [res_simps]: "ok_or x e = Ok y \<longleftrightarrow> x = Some y"
  by (cases x) (auto simp: ok_or_def)

lemma ok_or_eq_Err_iff [res_simps]: "ok_or x e = Err e' \<longleftrightarrow> x = None \<and> e' = e"
  by (cases x) (auto simp: ok_or_def)

lemma ok_or_not_Panic [res_simps, simp]: "ok_or x e \<noteq> Panic"
  by (cases x) (auto simp: ok_or_def)

lemma ok_or_simps [simp]: "ok_or (Some v) e = Ok v" "ok_or None e = Err e"
  by (simp_all add: ok_or_def)

lemma is_ok_iff: "is_ok m \<longleftrightarrow> (\<exists>x. m = Ok x)"
  by (cases m) auto

lemma res_bind_cong [fundef_cong]:
  "m = m' \<Longrightarrow> (\<And>x. m' = Ok x \<Longrightarrow> f x = f' x) \<Longrightarrow> res_bind m f = res_bind m' f'"
  by (cases m') auto

text \<open>\<^verbatim>\<open>data[a..b]\<close>, which panics when the range is not inside the slice.\<close>

definition slice_of :: "'a list \<Rightarrow> nat \<Rightarrow> nat \<Rightarrow> ('a list, 'e) result" where
  "slice_of xs a b = (if a \<le> b \<and> b \<le> length xs then Ok (take (b - a) (drop a xs)) else Panic)"

lemma slice_of_eq_Ok_iff [res_simps]:
  "slice_of xs a b = Ok ys \<longleftrightarrow> a \<le> b \<and> b \<le> length xs \<and> ys = take (b - a) (drop a xs)"
  by (auto simp: slice_of_def)

lemma slice_of_not_Err [simp]: "slice_of xs a b \<noteq> Err e"
  by (simp add: slice_of_def)

section \<open>Fixed-width integers on the wire\<close>

text \<open>\<open>be_encode n x\<close> is the \<open>n\<close>-byte big-endian form of \<open>x\<close>
  (\<^verbatim>\<open>to_be_bytes\<close>), \<open>be_decode\<close> its reading (\<^verbatim>\<open>from_be_bytes\<close>).\<close>

fun be_encode :: "nat \<Rightarrow> nat \<Rightarrow> bytes" where
  "be_encode 0 x = []"
| "be_encode (Suc n) x = be_encode n (x div 256) @ [of_nat x]"

definition be_decode :: "bytes \<Rightarrow> nat" where
  "be_decode bs = foldl (\<lambda>a b. a * 256 + unat b) 0 bs"

lemma length_be_encode [simp, wire_simps]: "length (be_encode n x) = n"
  by (induction n arbitrary: x) auto

lemma be_decode_Nil [simp]: "be_decode [] = 0"
  by (simp add: be_decode_def)

lemma be_decode_snoc [simp]: "be_decode (bs @ [b]) = be_decode bs * 256 + unat b"
  by (simp add: be_decode_def)

lemma be_decode_less: "be_decode bs < 256 ^ length bs"
proof (induction bs rule: rev_induct)
  case (snoc b bs)
  have "unat b < 256" using unat_lt2p [of b] by simp
  moreover have "be_decode bs * 256 + 256 \<le> 256 ^ length bs * 256"
    using snoc by (metis Suc_leI add.commute mult.commute mult_Suc_right mult_le_mono2)
  ultimately show ?case by simp
qed simp

lemma unat_of_nat_byte: "unat (of_nat x :: u8) = x mod 256"
  by (simp add: unat_of_nat)

lemma be_decode_encode_mod: "be_decode (be_encode n x) = x mod 256 ^ n"
proof (induction n arbitrary: x)
  case (Suc n)
  have "x mod 256 ^ Suc n = (x div 256 mod 256 ^ n) * 256 + x mod 256"
    by (simp add: mod_mult2_eq mult.commute)
  then show ?case using Suc by (simp add: unat_of_nat_byte)
qed simp

lemma be_decode_encode [wire_simps]: "x < 256 ^ n \<Longrightarrow> be_decode (be_encode n x) = x"
  by (simp add: be_decode_encode_mod)

lemma be_encode_decode [wire_simps]: "be_encode (length bs) (be_decode bs) = bs"
proof (induction bs rule: rev_induct)
  case (snoc b bs)
  have b: "unat b < 256" using unat_lt2p [of b] by simp
  then have "(be_decode bs * 256 + unat b) div 256 = be_decode bs" by simp
  moreover have "(of_nat (be_decode bs * 256 + unat b) :: u8) = b"
  proof (rule word_unat_eq_iff [THEN iffD2])
    show "unat (of_nat (be_decode bs * 256 + unat b) :: u8) = unat b"
      by (simp only: unat_of_nat_byte mod_mult_self3 b mod_less)
  qed
  ultimately show ?case using snoc by simp
qed simp

lemma be_encode_inject:
  "x < 256 ^ n \<Longrightarrow> y < 256 ^ n \<Longrightarrow> be_encode n x = be_encode n y \<longleftrightarrow> x = y"
  by (metis be_decode_encode)

definition u16_be :: "u16 \<Rightarrow> bytes" where "u16_be w = be_encode 2 (unat w)"
definition u32_be :: "u32 \<Rightarrow> bytes" where "u32_be w = be_encode 4 (unat w)"
definition u64_be :: "u64 \<Rightarrow> bytes" where "u64_be w = be_encode 8 (unat w)"
definition u32_le :: "u32 \<Rightarrow> bytes" where "u32_le w = rev (u32_be w)"
definition u16_le :: "u16 \<Rightarrow> bytes" where "u16_le w = rev (u16_be w)"

definition be_u16 :: "bytes \<Rightarrow> u16" where "be_u16 bs = of_nat (be_decode bs)"
definition be_u32 :: "bytes \<Rightarrow> u32" where "be_u32 bs = of_nat (be_decode bs)"
definition be_u64 :: "bytes \<Rightarrow> u64" where "be_u64 bs = of_nat (be_decode bs)"

lemma length_int_be [simp, wire_simps]:
  "length (u16_be a) = 2" "length (u32_be b) = 4" "length (u64_be c) = 8"
  "length (u32_le b) = 4" "length (u16_le a) = 2"
  by (simp_all add: u16_be_def u32_be_def u64_be_def u32_le_def u16_le_def)

lemma be_u16_be [simp, wire_simps]: "be_u16 (u16_be w) = w"
  using unat_lt2p [of w] by (simp add: be_u16_def u16_be_def be_decode_encode)

lemma be_u32_be [simp, wire_simps]: "be_u32 (u32_be w) = w"
  using unat_lt2p [of w] by (simp add: be_u32_def u32_be_def be_decode_encode)

lemma be_u64_be [simp, wire_simps]: "be_u64 (u64_be w) = w"
  using unat_lt2p [of w] by (simp add: be_u64_def u64_be_def be_decode_encode)

lemma u16_be_inject [simp]: "u16_be a = u16_be b \<longleftrightarrow> a = b"
  by (metis be_u16_be)

lemma u32_be_inject [simp]: "u32_be a = u32_be b \<longleftrightarrow> a = b"
  by (metis be_u32_be)

lemma u64_be_inject [simp]: "u64_be a = u64_be b \<longleftrightarrow> a = b"
  by (metis be_u64_be)

lemma u32_le_inject [simp]: "u32_le a = u32_le b \<longleftrightarrow> a = b"
  by (simp add: u32_le_def)

lemma u64_be_be [wire_simps]: "length bs = 8 \<Longrightarrow> u64_be (be_u64 bs) = bs"
  using be_decode_less [of bs] be_encode_decode [of bs]
  by (simp add: be_u64_def u64_be_def unat_of_nat)

lemma u32_be_be [wire_simps]: "length bs = 4 \<Longrightarrow> u32_be (be_u32 bs) = bs"
  using be_decode_less [of bs] be_encode_decode [of bs]
  by (simp add: be_u32_def u32_be_def unat_of_nat)

lemma u16_be_be [wire_simps]: "length bs = 2 \<Longrightarrow> u16_be (be_u16 bs) = bs"
  using be_decode_less [of bs] be_encode_decode [of bs]
  by (simp add: be_u16_def u16_be_def unat_of_nat)

section \<open>Lists\<close>

lemma append_eq_append_conv_length:
  "length xs = length ys \<Longrightarrow> xs @ us = ys @ vs \<longleftrightarrow> xs = ys \<and> us = vs"
  by (rule append_eq_append_conv) simp

lemma take_drop_append_exact [simp]:
  "n = length xs \<Longrightarrow> take n (xs @ ys) = xs"
  "n = length xs \<Longrightarrow> drop n (xs @ ys) = ys"
  by simp_all

lemma drop_split: "drop n xs = take k (drop n xs) @ drop (n + k) xs"
  by (metis append_take_drop_id drop_drop add.commute)

definition zeros :: "nat \<Rightarrow> bytes" where
  "zeros n = replicate n 0"

lemma length_zeros [simp, wire_simps]: "length (zeros n) = n"
  by (simp add: zeros_def)

end
