(* ===== verification/Bigsize.thy ===== *)
theory Bigsize
  imports Prelude
begin

text \<open>
  Lightning BigSize varints and length-prefixed bytes:
  \<^verbatim>\<open>tap-primitives/src/encoding/bigsize.rs\<close> and the inline var-bytes helpers of
  \<^verbatim>\<open>encoding/tlv.rs\<close>. The locale \<open>prefix_codec\<close> states what every client of a
  self-delimiting codec relies on (decoding an encoding followed by anything gives the value back;
  what decodes is an encoding); its consequences are proved once, and it is interpreted on BigSize
  and on the (bounded) var-bytes codec.
\<close>

section \<open>Errors of the TLV layer\<close>

text \<open>The payload of \<open>DecodingError\<close> keeps the fixed part of the Rust message; the numbers
  that \<^verbatim>\<open>format!\<close> interpolates are dropped.\<close>

datatype TlvError =
    UnexpectedEof
  | NonCanonicalBigSize
  | TypeNotSorted u64 u64
  | DuplicateType u64
  | UnknownRequiredType u64
  | ValueTooLarge u64 u64
  | DecodingError string

section \<open>BigSize\<close>

definition encode_bigsize :: "u64 \<Rightarrow> bytes" where
  "encode_bigsize val =
     (if val \<le> 0xFC then [ucast val]
      else if val \<le> 0xFFFF then 0xFD # u16_be (ucast val)
      else if val \<le> 0xFFFFFFFF then 0xFE # u32_be (ucast val)
      else 0xFF # u64_be val)"

definition decode_bigsize :: "bytes \<Rightarrow> (u64 \<times> nat, TlvError) result" where
  "decode_bigsize data =
     (if data = [] then Err UnexpectedEof
      else if data ! 0 \<le> 0xFC then Ok (ucast (data ! 0), 1)
      else if data ! 0 = 0xFD then
        (if length data < 3 then Err UnexpectedEof
         else let val = ucast (be_u16 [data ! 1, data ! 2])
              in if val < 0xFD then Err NonCanonicalBigSize else Ok (val, 3))
      else if data ! 0 = 0xFE then
        (if length data < 5 then Err UnexpectedEof
         else let val = ucast (be_u32 (take 4 (drop 1 data)))
              in if val < 0x10000 then Err NonCanonicalBigSize else Ok (val, 5))
      else
        (if length data < 9 then Err UnexpectedEof
         else let val = be_u64 (take 8 (drop 1 data))
              in if val < 0x100000000 then Err NonCanonicalBigSize else Ok (val, 9)))"

definition bigsize_len :: "u64 \<Rightarrow> nat" where
  "bigsize_len val =
     (if val \<le> 0xFC then 1 else if val \<le> 0xFFFF then 3
      else if val \<le> 0xFFFFFFFF then 5 else 9)"

lemma length_encode_bigsize [simp]: "length (encode_bigsize val) = bigsize_len val"
  by (simp add: encode_bigsize_def bigsize_len_def)

lemma bigsize_len_le: "bigsize_len val \<le> 9"
  by (simp add: bigsize_len_def)

lemma bigsize_len_pos [simp]: "0 < bigsize_len val"
  by (simp add: bigsize_len_def)

lemma encode_bigsize_not_Nil [simp]: "encode_bigsize val \<noteq> []"
  using bigsize_len_pos [of val] length_encode_bigsize [of val] by (metis length_greater_0_conv)

lemma unat_ucast_mod: "unat (ucast x :: 'b::len word) = unat x mod 2 ^ LENGTH('b)"
  for x :: "'a::len word"
  by (simp add: unsigned_ucast_eq take_bit_eq_mod)

lemma ucast_ucast_u64:
  fixes val :: u64
  shows "val \<le> 0xFF \<Longrightarrow> (ucast (ucast val :: u8) :: u64) = val"
    and "val \<le> 0xFFFF \<Longrightarrow> (ucast (ucast val :: u16) :: u64) = val"
    and "val \<le> 0xFFFFFFFF \<Longrightarrow> (ucast (ucast val :: u32) :: u64) = val"
  by (simp_all add: word_unat_eq_iff unat_ucast_mod word_le_nat_alt)

lemma ucast_le_0xFC: "val \<le> 0xFC \<Longrightarrow> (ucast val :: u8) \<le> 0xFC"
  for val :: u64
  by (simp add: word_le_nat_alt unat_ucast_mod)

lemma list_of_length_2: "length xs = 2 \<Longrightarrow> [xs ! 0, xs ! 1] = xs"
  by (auto simp: numeral_2_eq_2 length_Suc_conv)

text \<open>The round trip, with arbitrary bytes following the encoding.\<close>

lemma decode_encode_bigsize:
  "decode_bigsize (encode_bigsize val @ rest) = Ok (val, bigsize_len val)"
proof -
  consider (a) "val \<le> 0xFC" | (b) "0xFC < val" "val \<le> 0xFFFF"
    | (c) "0xFFFF < val" "val \<le> 0xFFFFFFFF" | (d) "0xFFFFFFFF < val"
    by force
  then show ?thesis
  proof cases
    case a
    then have "val \<le> 0xFF" by (simp add: word_le_nat_alt)
    with a show ?thesis
      by (simp add: encode_bigsize_def decode_bigsize_def bigsize_len_def ucast_le_0xFC
          ucast_ucast_u64)
  next
    case b
    have "[(u16_be (ucast val) @ rest) ! 0, (u16_be (ucast val) @ rest) ! Suc 0]
        = u16_be (ucast val)"
      using list_of_length_2 [of "u16_be (ucast val)"] by (simp add: nth_append)
    with b show ?thesis
      by (simp add: encode_bigsize_def decode_bigsize_def bigsize_len_def not_le
          ucast_ucast_u64 word_le_nat_alt word_less_nat_alt)
  next
    case c
    then show ?thesis
      by (simp add: encode_bigsize_def decode_bigsize_def bigsize_len_def not_le
          ucast_ucast_u64 word_le_nat_alt word_less_nat_alt)
  next
    case d
    then show ?thesis
      by (simp add: encode_bigsize_def decode_bigsize_def bigsize_len_def not_le
          word_le_nat_alt word_less_nat_alt)
  qed
qed

lemma decode_bigsize_not_Panic [simp]: "decode_bigsize data \<noteq> Panic"
  by (simp add: decode_bigsize_def Let_def)

text \<open>Only the shortest form of a value is accepted: whatever decodes is an encoding.\<close>

lemma decode_bigsize_canonical:
  assumes "decode_bigsize data = Ok (val, n)"
  shows "n = bigsize_len val \<and> n \<le> length data \<and> take n data = encode_bigsize val"
proof -
  obtain b bs where data: "data = b # bs"
    using assms by (cases data) (simp_all add: decode_bigsize_def)
  consider (a) "b \<le> 0xFC" | (b) "b = 0xFD" | (c) "b = 0xFE" | (d) "b = 0xFF"
  proof -
    have "unat b \<le> 0xFC \<or> unat b = 0xFD \<or> unat b = 0xFE \<or> unat b = 0xFF"
      using unat_lt2p [of b] by auto
    then show thesis
      using that by (auto simp: word_le_nat_alt word_unat_eq_iff)
  qed
  then show ?thesis
  proof cases
    case a
    have "val = ucast b" "n = 1"
      using a assms data by (simp_all add: decode_bigsize_def)
    moreover have "unat (ucast b :: u64) = unat b"
      using unat_lt2p [of b] by (simp add: unat_ucast_mod)
    ultimately show ?thesis
      using a data unat_lt2p [of b]
      by (simp add: encode_bigsize_def bigsize_len_def word_le_nat_alt word_unat_eq_iff unat_ucast_mod)
  next
    case b
    then have len: "2 \<le> length bs" and v: "val = ucast (be_u16 [bs ! 0, bs ! Suc 0])" "n = 3"
      and ge: "\<not> val < 0xFD"
      using assms data by (auto simp: decode_bigsize_def Let_def split: if_splits)
    have two: "[bs ! 0, bs ! Suc 0] = take 2 bs"
      using list_of_length_2 [of "take 2 bs"] len by simp
    have u: "unat val = unat (be_u16 (take 2 bs))"
      using unat_lt2p [of "be_u16 (take 2 bs)"] by (simp add: v two unat_ucast_mod)
    have "val \<le> 0xFFFF"
      using u unat_lt2p [of "be_u16 (take 2 bs)"] by (simp add: word_le_nat_alt)
    moreover have "(ucast val :: u16) = be_u16 (take 2 bs)"
      using u unat_lt2p [of "be_u16 (take 2 bs)"] by (simp add: word_unat_eq_iff unat_ucast_mod)
    moreover have "u16_be (be_u16 (take 2 bs)) = take 2 bs"
      using len by (intro u16_be_be) simp
    ultimately show ?thesis
      using v ge len data b
      by (simp add: encode_bigsize_def bigsize_len_def word_le_nat_alt word_less_nat_alt)
  next
    case c
    then have len: "4 \<le> length bs" and v: "val = ucast (be_u32 (take 4 bs))" "n = 5"
      and ge: "\<not> val < 0x10000"
      using assms data by (auto simp: decode_bigsize_def Let_def split: if_splits)
    have u: "unat val = unat (be_u32 (take 4 bs))"
      using unat_lt2p [of "be_u32 (take 4 bs)"] by (simp add: v unat_ucast_mod)
    have "val \<le> 0xFFFFFFFF"
      using u unat_lt2p [of "be_u32 (take 4 bs)"] by (simp add: word_le_nat_alt)
    moreover have "(ucast val :: u32) = be_u32 (take 4 bs)"
      using u unat_lt2p [of "be_u32 (take 4 bs)"] by (simp add: word_unat_eq_iff unat_ucast_mod)
    moreover have "u32_be (be_u32 (take 4 bs)) = take 4 bs"
      using len by (intro u32_be_be) simp
    ultimately show ?thesis
      using v ge len data c
      by (simp add: encode_bigsize_def bigsize_len_def word_le_nat_alt word_less_nat_alt)
  next
    case d
    then have len: "8 \<le> length bs" and v: "val = be_u64 (take 8 bs)" "n = 9"
      and ge: "\<not> val < 0x100000000"
      using assms data by (auto simp: decode_bigsize_def Let_def split: if_splits)
    moreover have "u64_be (be_u64 (take 8 bs)) = take 8 bs"
      using len by (intro u64_be_be) simp
    ultimately show ?thesis
      using data d
      by (simp add: encode_bigsize_def bigsize_len_def word_le_nat_alt word_less_nat_alt)
  qed
qed

lemma decode_bigsize_bounds:
  "decode_bigsize data = Ok (val, n) \<Longrightarrow> 0 < n \<and> n \<le> length data"
  using decode_bigsize_canonical by fastforce

section \<open>Self-delimiting codecs\<close>

text \<open>\<open>decode_items dec n data offset\<close> is the \<^verbatim>\<open>for _ in 0..count\<close> loop shared by the
  decoders of the repository: it reads \<open>n\<close> items one after another and returns them with the
  final offset.\<close>

fun decode_items ::
  "(bytes \<Rightarrow> ('a \<times> nat, 'e) result) \<Rightarrow> nat \<Rightarrow> bytes \<Rightarrow> nat \<Rightarrow> ('a list \<times> nat, 'e) result" where
  "decode_items dec 0 data offset = Ok ([], offset)"
| "decode_items dec (Suc n) data offset =
     res_bind (dec (drop offset data)) (\<lambda>(x, consumed).
       res_bind (decode_items dec n data (offset + consumed)) (\<lambda>(xs, off).
         Ok (x # xs, off)))"

locale prefix_codec =
  fixes enc :: "'a \<Rightarrow> bytes"
    and dec :: "bytes \<Rightarrow> ('a \<times> nat, 'e) result"
    and valid :: "'a \<Rightarrow> bool"
  assumes dec_enc: "valid x \<Longrightarrow> dec (enc x @ rest) = Ok (x, length (enc x))"
    and enc_dec: "dec data = Ok (x, n) \<Longrightarrow>
      n = length (enc x) \<and> n \<le> length data \<and> take n data = enc x"
begin

lemma prefix_free:
  assumes "valid x" "valid y" "enc x @ r = enc y @ s"
  shows "x = y \<and> r = s"
proof -
  have "dec (enc x @ r) = dec (enc y @ s)" using assms(3) by simp
  then have "x = y" using assms(1,2) by (simp add: dec_enc)
  with assms(3) show ?thesis by simp
qed

lemma enc_inject: "valid x \<Longrightarrow> valid y \<Longrightarrow> enc x = enc y \<longleftrightarrow> x = y"
  using prefix_free [of x y "[]" "[]"] by auto

lemma decode_items_encode:
  assumes "list_all valid xs"
  shows "decode_items dec (length xs) (pre @ concat (map enc xs) @ rest) (length pre)
    = Ok (xs, length pre + length (concat (map enc xs)))"
  using assms
proof (induction xs arbitrary: pre)
  case (Cons x xs)
  have "decode_items dec (length xs) ((pre @ enc x) @ concat (map enc xs) @ rest)
      (length (pre @ enc x))
    = Ok (xs, length (pre @ enc x) + length (concat (map enc xs)))"
    using Cons.prems by (intro Cons.IH) simp
  with Cons.prems show ?case by (simp add: dec_enc add.assoc)
qed simp

lemma decode_items_canonical:
  assumes "decode_items dec n data offset = Ok (xs, off)" "offset \<le> length data"
  shows "length xs = n \<and> off = offset + length (concat (map enc xs)) \<and> off \<le> length data
    \<and> take (off - offset) (drop offset data) = concat (map enc xs)"
  using assms
proof (induction n arbitrary: offset xs)
  case (Suc n)
  from Suc.prems(1) obtain x k xs' where
    x: "dec (drop offset data) = Ok (x, k)"
    and r: "decode_items dec n data (offset + k) = Ok (xs', off)" and xs: "xs = x # xs'"
    by (auto simp: res_simps)
  note e = enc_dec [OF x]
  then have "offset + k \<le> length data" using Suc.prems(2) by auto
  note IH = Suc.IH [OF r this]
  have "take (k + m) (drop offset data) = take k (drop offset data) @ take m (drop (offset + k) data)"
    for m by (simp add: take_add add.commute)
  with e IH xs show ?case by (auto simp: add.assoc)
qed simp

end

interpretation bigsize: prefix_codec encode_bigsize decode_bigsize "\<lambda>_. True"
  using decode_encode_bigsize decode_bigsize_canonical by unfold_locales simp_all

section \<open>Length-prefixed bytes\<close>

definition encode_var_bytes :: "bytes \<Rightarrow> bytes" where
  "encode_var_bytes data = encode_bigsize (of_nat (length data)) @ data"

definition decode_var_bytes :: "bytes \<Rightarrow> (bytes \<times> nat, TlvError) result" where
  "decode_var_bytes data =
     res_bind (decode_bigsize data) (\<lambda>(len, consumed).
       let len = unat len; start = consumed
       in if length data < usize_add start len then Err UnexpectedEof
          else res_bind (slice_of data start (usize_add start len)) (\<lambda>out.
            Ok (out, usize_add start len)))"

text \<open>A Rust \<^verbatim>\<open>Vec<u8>\<close> holds at most \<^verbatim>\<open>isize::MAX\<close> bytes.\<close>

definition vec_bounded :: "bytes \<Rightarrow> bool" where
  "vec_bounded bs \<longleftrightarrow> length bs < 2 ^ 63"

lemma bigsize_len_le_9 [simp]: "bigsize_len v \<le> 9"
  by (simp add: bigsize_len_def)

lemma decode_encode_var_bytes:
  assumes "vec_bounded bs"
  shows "decode_var_bytes (encode_var_bytes bs @ rest)
    = Ok (bs, length (encode_var_bytes bs))"
proof -
  let ?v = "of_nat (length bs) :: u64"
  have u: "unat ?v = length bs"
    using assms by (simp add: vec_bounded_def unat_of_nat)
  have "length bs < 9223372036854775808" using assms by (simp add: vec_bounded_def)
  with bigsize_len_le_9 [of ?v] have "bigsize_len ?v + length bs < 18446744073709551616"
    by linarith
  then have "usize_add (bigsize_len ?v) (length bs) = bigsize_len ?v + length bs"
    by (simp add: usize_add_exact)
  then show ?thesis
    using decode_encode_bigsize [of ?v "bs @ rest"]
    by (simp add: decode_var_bytes_def encode_var_bytes_def u slice_of_def Let_def)
qed

lemma decode_var_bytes_canonical:
  assumes "decode_var_bytes data = Ok (bs, n)"
  shows "n = length (encode_var_bytes bs) \<and> n \<le> length data \<and> take n data = encode_var_bytes bs"
proof -
  from assms obtain len k where d: "decode_bigsize data = Ok (len, k)"
    and le: "k \<le> usize_add k (unat len)" "usize_add k (unat len) \<le> length data"
    and bs: "bs = take (usize_add k (unat len) - k) (drop k data)"
    and n: "n = usize_add k (unat len)"
    by (auto simp: decode_var_bytes_def Let_def res_simps split: if_splits)
  note c = decode_bigsize_canonical [OF d]
  have no_wrap: "usize_add k (unat len) = k + unat len"
    using le(1) by (intro usize_add_no_wrap) simp_all
  have "of_nat (length bs) = len"
    using le bs no_wrap by simp
  moreover have "take (k + unat len) data = take k data @ take (unat len) (drop k data)"
    by (simp add: take_add)
  ultimately show ?thesis
    using c le bs n no_wrap by (auto simp: encode_var_bytes_def)
qed

interpretation var_bytes: prefix_codec encode_var_bytes decode_var_bytes vec_bounded
  using decode_encode_var_bytes decode_var_bytes_canonical by unfold_locales

end
