(* ===== verification/Tlv.thy ===== *)
theory Tlv
  imports Bigsize
begin

text \<open>
  TLV streams: \<^verbatim>\<open>tap-primitives/src/encoding/tlv.rs\<close>. A stream is a list of records in
  the order they were pushed; encoding sorts them by type, decoding accepts only strictly
  ascending types. The lemmas show that decoding is the exact inverse of encoding, in both
  directions, and that it neither panics nor loops.
\<close>

section \<open>Records\<close>

record TlvRecord =
  type_num :: u64
  tlv_value :: bytes

definition tlv_new :: "u64 \<Rightarrow> bytes \<Rightarrow> TlvRecord" where
  "tlv_new t v = \<lparr>type_num = t, tlv_value = v\<rparr>"

definition tlv_u8 :: "u64 \<Rightarrow> u8 \<Rightarrow> TlvRecord" where
  "tlv_u8 t v = tlv_new t [v]"

definition tlv_u16 :: "u64 \<Rightarrow> u16 \<Rightarrow> TlvRecord" where
  "tlv_u16 t v = tlv_new t (u16_be v)"

definition tlv_u32 :: "u64 \<Rightarrow> u32 \<Rightarrow> TlvRecord" where
  "tlv_u32 t v = tlv_new t (u32_be v)"

definition tlv_u64 :: "u64 \<Rightarrow> u64 \<Rightarrow> TlvRecord" where
  "tlv_u64 t v = tlv_new t (u64_be v)"

definition tlv_varint :: "u64 \<Rightarrow> u64 \<Rightarrow> TlvRecord" where
  "tlv_varint t v = tlv_new t (encode_bigsize v)"

definition tlv_bytes :: "u64 \<Rightarrow> bytes \<Rightarrow> TlvRecord" where
  "tlv_bytes t v = tlv_new t v"

definition as_u8 :: "TlvRecord \<Rightarrow> (u8, TlvError) result" where
  "as_u8 r = (if length (tlv_value r) \<noteq> 1 then Err (DecodingError ''expected 1 byte for u8'')
              else Ok (tlv_value r ! 0))"

definition as_u16 :: "TlvRecord \<Rightarrow> (u16, TlvError) result" where
  "as_u16 r = (if length (tlv_value r) \<noteq> 2 then Err (DecodingError ''expected 2 bytes for u16'')
               else Ok (be_u16 (tlv_value r)))"

definition as_u32 :: "TlvRecord \<Rightarrow> (u32, TlvError) result" where
  "as_u32 r = (if length (tlv_value r) \<noteq> 4 then Err (DecodingError ''expected 4 bytes for u32'')
               else Ok (be_u32 (tlv_value r)))"

definition as_u64 :: "TlvRecord \<Rightarrow> (u64, TlvError) result" where
  "as_u64 r = (if length (tlv_value r) \<noteq> 8 then Err (DecodingError ''expected 8 bytes for u64'')
               else Ok (be_u64 (tlv_value r)))"

definition as_varint :: "TlvRecord \<Rightarrow> (u64, TlvError) result" where
  "as_varint r = res_bind (decode_bigsize (tlv_value r)) (\<lambda>(v, _). Ok v)"

definition is_odd :: "TlvRecord \<Rightarrow> bool" where
  "is_odd r \<longleftrightarrow> type_num r mod 2 = 1"

lemmas tlv_record_defs =
  tlv_new_def tlv_u8_def tlv_u16_def tlv_u32_def tlv_u64_def tlv_varint_def tlv_bytes_def

lemma tlv_new_fields [simp]: "type_num (tlv_new t v) = t" "tlv_value (tlv_new t v) = v"
  by (simp_all add: tlv_new_def)

lemma type_num_tlv [simp]:
  "type_num (tlv_u8 t a) = t" "type_num (tlv_u16 t b) = t" "type_num (tlv_u32 t c) = t"
  "type_num (tlv_u64 t d) = t" "type_num (tlv_varint t d) = t" "type_num (tlv_bytes t v) = t"
  by (simp_all add: tlv_record_defs)

lemma as_tlv [simp]:
  "as_u8 (tlv_u8 t a) = Ok a" "as_u16 (tlv_u16 t b) = Ok b" "as_u32 (tlv_u32 t c) = Ok c"
  "as_u64 (tlv_u64 t d) = Ok d" "as_varint (tlv_varint t d) = Ok d"
  using decode_encode_bigsize [of d "[]"]
  by (simp_all add: tlv_record_defs as_u8_def as_u16_def as_u32_def as_u64_def as_varint_def)

section \<open>Streams\<close>

type_synonym TlvStream = "TlvRecord list"

definition MAX_TLV_VALUE_LENGTH :: u64 where
  "MAX_TLV_VALUE_LENGTH = 4000000"

definition MAX_PROOF_TLV_VALUE_LENGTH :: u64 where
  "MAX_PROOF_TLV_VALUE_LENGTH = 128 * 1024 * 1024"

definition tlv_push :: "TlvStream \<Rightarrow> TlvRecord \<Rightarrow> TlvStream" where
  "tlv_push s r = s @ [r]"

definition tlv_push_if :: "TlvStream \<Rightarrow> TlvRecord \<Rightarrow> bool \<Rightarrow> TlvStream" where
  "tlv_push_if s r c = (if c then s @ [r] else s)"

definition tlv_get :: "TlvStream \<Rightarrow> u64 \<Rightarrow> TlvRecord option" where
  "tlv_get s t = List.find (\<lambda>r. type_num r = t) s"

definition encode_record :: "TlvRecord \<Rightarrow> bytes" where
  "encode_record r =
     encode_bigsize (type_num r) @ encode_bigsize (of_nat (length (tlv_value r))) @ tlv_value r"

definition tlv_encode :: "TlvStream \<Rightarrow> bytes" where
  "tlv_encode s = concat (map encode_record (sort_key type_num s))"

text \<open>One pass of the decoding loop: the record at \<open>offset\<close> and the offset behind it.\<close>

definition decode_record :: "bytes \<Rightarrow> u64 \<Rightarrow> nat \<Rightarrow> u64 option \<Rightarrow> (TlvRecord \<times> nat, TlvError) result"
  where
  "decode_record data max_value_len offset last_type =
     res_bind (decode_bigsize (drop offset data)) (\<lambda>(type_n, consumed).
       let offset = offset + consumed in
       res_bind (decode_bigsize (drop offset data)) (\<lambda>(len, consumed).
         let offset = offset + consumed in
         if max_value_len < len then Err (ValueTooLarge type_n len)
         else if length data < usize_add offset (unat len) then Err UnexpectedEof
         else res_bind (slice_of data offset (usize_add offset (unat len))) (\<lambda>v.
           let rec = (\<lparr>type_num = type_n, tlv_value = v\<rparr>, usize_add offset (unat len)) in
           (case last_type of
              Some prev \<Rightarrow> if type_n \<le> prev then Err (TypeNotSorted prev type_n) else Ok rec
            | None \<Rightarrow> Ok rec))))"

lemma decode_record_advances:
  assumes "decode_record data lim offset prev_t = Ok (r, off)" "offset < length data"
  shows "offset < off \<and> off \<le> length data"
proof -
  from assms(1) obtain t c1 len c2 where
    d1: "decode_bigsize (drop offset data) = Ok (t, c1)" and
    d2: "decode_bigsize (drop (offset + c1) data) = Ok (len, c2)" and
    le: "offset + c1 + c2 \<le> usize_add (offset + c1 + c2) (unat len)" and
    off: "off = usize_add (offset + c1 + c2) (unat len)" "off \<le> length data"
    by (auto simp: decode_record_def Let_def res_simps split: if_splits option.splits)
  from decode_bigsize_bounds [OF d1] have "0 < c1" by simp
  with le off show ?thesis by simp
qed

function decode_tlv_loop ::
  "bytes \<Rightarrow> u64 \<Rightarrow> nat \<Rightarrow> u64 option \<Rightarrow> TlvStream \<Rightarrow> (TlvStream, TlvError) result" where
  "decode_tlv_loop data lim offset last_type stream =
     (if offset < length data then
        (case decode_record data lim offset last_type of
           Ok (r, off) \<Rightarrow> decode_tlv_loop data lim off (Some (type_num r)) (tlv_push stream r)
         | Err e \<Rightarrow> Err e
         | Panic \<Rightarrow> Panic)
      else Ok stream)"
  by pat_completeness auto
termination
  by (relation "measure (\<lambda>(data, lim, offset, prev_t, s). length data - offset)")
    (auto dest!: decode_record_advances)

declare decode_tlv_loop.simps [simp del]

definition decode_with_limit :: "bytes \<Rightarrow> u64 \<Rightarrow> (TlvStream, TlvError) result" where
  "decode_with_limit data max_value_len = decode_tlv_loop data max_value_len 0 None []"

definition tlv_decode :: "bytes \<Rightarrow> (TlvStream, TlvError) result" where
  "tlv_decode data = decode_with_limit data MAX_TLV_VALUE_LENGTH"

section \<open>Decoding is the inverse of encoding\<close>

definition ascending :: "TlvStream \<Rightarrow> bool" where
  "ascending s \<longleftrightarrow> sorted_wrt (<) (map type_num s)"

definition above :: "u64 option \<Rightarrow> u64 \<Rightarrow> bool" where
  "above last_type t \<longleftrightarrow> (case last_type of Some prev \<Rightarrow> prev < t | None \<Rightarrow> True)"

definition values_bounded :: "u64 \<Rightarrow> TlvStream \<Rightarrow> bool" where
  "values_bounded lim s \<longleftrightarrow> (\<forall>r \<in> set s. length (tlv_value r) \<le> unat lim)"

lemma sort_key_ascending: "ascending s \<Longrightarrow> sort_key type_num s = s"
  by (rule sort_key_id_if_sorted) (simp add: ascending_def strict_sorted_imp_sorted)

lemma decode_record_canonical:
  assumes "decode_record data lim offset prev_t = Ok (r, off)" "offset \<le> length data"
  shows "off = offset + length (encode_record r) \<and> off \<le> length data
    \<and> drop offset data = encode_record r @ drop off data
    \<and> length (tlv_value r) \<le> unat lim \<and> above prev_t (type_num r)"
proof -
  from assms(1) obtain t c1 len c2 where
    d1: "decode_bigsize (drop offset data) = Ok (t, c1)" and
    d2: "decode_bigsize (drop (offset + c1) data) = Ok (len, c2)" and
    le: "offset + c1 + c2 \<le> usize_add (offset + c1 + c2) (unat len)" and
    off: "off = usize_add (offset + c1 + c2) (unat len)" "off \<le> length data" and
    lim: "\<not> lim < len" and ab: "above prev_t t" and
    r: "r = \<lparr>type_num = t, tlv_value = take (off - (offset + c1 + c2)) (drop (offset + c1 + c2) data)\<rparr>"
    by (auto simp: decode_record_def Let_def res_simps above_def split: if_splits option.splits)
  have nw: "off = offset + c1 + c2 + unat len"
    using le off by (simp add: usize_add_no_wrap)
  then have len: "length (tlv_value r) = unat len" using r off by simp
  then have fields: "type_num r = t" "of_nat (length (tlv_value r)) = len" using r by simp_all
  have c1: "take c1 (drop offset data) = encode_bigsize t" "c1 = bigsize_len t"
    and c2: "take c2 (drop (offset + c1) data) = encode_bigsize len" "c2 = bigsize_len len"
    using decode_bigsize_canonical [OF d1] decode_bigsize_canonical [OF d2] by blast+
  have "drop offset data = encode_bigsize t @ drop (offset + c1) data"
    using c1(1) by (metis drop_split)
  also have "drop (offset + c1) data = encode_bigsize len @ drop (offset + c1 + c2) data"
    using c2(1) by (metis drop_split)
  also have "drop (offset + c1 + c2) data = tlv_value r @ drop off data"
    using r nw by (metis TlvRecord.select_convs(2) add_diff_cancel_left' drop_split)
  finally have bytes: "drop offset data = encode_record r @ drop off data"
    using fields by (simp add: encode_record_def)
  have "off = offset + length (encode_record r)"
    using nw len c1(2) c2(2) r by (simp add: encode_record_def)
  moreover have "length (tlv_value r) \<le> unat lim"
    using len lim by (simp add: word_less_nat_alt)
  moreover have "above prev_t (type_num r)"
    using ab r by simp
  ultimately show ?thesis
    using off(2) bytes by blast
qed

lemma decode_tlv_loop_canonical:
  assumes "decode_tlv_loop data lim offset prev_t s = Ok s'" "offset \<le> length data"
  shows "\<exists>rs. s' = s @ rs \<and> drop offset data = concat (map encode_record rs)
    \<and> ascending rs \<and> (\<forall>r \<in> set rs. above prev_t (type_num r)) \<and> values_bounded lim rs"
  using assms
proof (induction data lim offset prev_t s rule: decode_tlv_loop.induct)
  case (1 data lim offset prev_t s)
  show ?case
  proof (cases "offset < length data")
    case True
    with 1(2) obtain r off where r: "decode_record data lim offset prev_t = Ok (r, off)"
      and rest: "decode_tlv_loop data lim off (Some (type_num r)) (tlv_push s r) = Ok s'"
      by (subst (asm) decode_tlv_loop.simps) (auto split: result.splits)
    note c = decode_record_canonical [OF r 1(3)]
    from 1(1) [OF True r refl rest] c obtain rs where rs: "s' = tlv_push s r @ rs"
      "drop off data = concat (map encode_record rs)" "ascending rs" "values_bounded lim rs"
      "\<forall>q \<in> set rs. above (Some (type_num r)) (type_num q)"
      by auto
    then have "\<forall>q \<in> set rs. above prev_t (type_num q)"
      using c by (auto simp: above_def split: option.splits)
    with rs c show ?thesis
      by (intro exI [of _ "r # rs"])
        (auto simp: tlv_push_def ascending_def above_def values_bounded_def)
  next
    case False
    with 1(2,3) show ?thesis
      by (subst (asm) decode_tlv_loop.simps)
        (auto simp: ascending_def values_bounded_def intro!: exI [of _ "[]"])
  qed
qed

lemma decode_record_encode:
  assumes "length (tlv_value r) \<le> unat lim" "above prev_t (type_num r)"
    and "length pre + length (encode_record r) < 2 ^ 64"
  shows "decode_record (pre @ encode_record r @ rest) lim (length pre) prev_t
    = Ok (r, length pre + length (encode_record r))"
proof -
  let ?v = "tlv_value r" and ?t = "type_num r"
  let ?l = "of_nat (length ?v) :: u64"
  have u: "unat ?l = length ?v"
    using assms(1) unat_u64_less [of lim] by (simp add: unat_of_nat del: unat_u64_less)
  have d1: "decode_bigsize (encode_bigsize ?t @ encode_bigsize ?l @ ?v @ rest)
      = Ok (?t, bigsize_len ?t)"
    by (rule decode_encode_bigsize)
  have d2: "decode_bigsize (encode_bigsize ?l @ ?v @ rest) = Ok (?l, bigsize_len ?l)"
    by (rule decode_encode_bigsize)
  have a: "usize_add (length pre + bigsize_len ?t + bigsize_len ?l) (length ?v)
      = length pre + bigsize_len ?t + bigsize_len ?l + length ?v"
    using assms(3) by (intro usize_add_exact) (simp add: encode_record_def add.assoc)
  have lim: "\<not> lim < ?l" using assms(1) u by (simp add: word_less_nat_alt)
  have "(case prev_t of None \<Rightarrow> Ok x | Some prev \<Rightarrow> if ?t \<le> prev then e prev else Ok x) = Ok x"
    for x :: "TlvRecord \<times> nat" and e :: "u64 \<Rightarrow> (TlvRecord \<times> nat, TlvError) result"
    using assms(2) by (auto simp: above_def split: option.splits)
  then show ?thesis
    using d1 d2 a lim
    by (simp add: decode_record_def encode_record_def Let_def u slice_of_def)
qed

lemma decode_tlv_loop_encode:
  assumes "ascending rs" "values_bounded lim rs" "\<forall>r \<in> set rs. above prev_t (type_num r)"
    and "length pre + length (concat (map encode_record rs)) < 2 ^ 64"
  shows "decode_tlv_loop (pre @ concat (map encode_record rs)) lim (length pre) prev_t s
    = Ok (s @ rs)"
  using assms
proof (induction rs arbitrary: pre prev_t s)
  case Nil
  then show ?case by (subst decode_tlv_loop.simps) simp
next
  case (Cons r rs)
  have d: "decode_record (pre @ encode_record r @ concat (map encode_record rs)) lim (length pre) prev_t
      = Ok (r, length pre + length (encode_record r))"
    using Cons.prems by (intro decode_record_encode) (auto simp: values_bounded_def)
  have "decode_tlv_loop ((pre @ encode_record r) @ concat (map encode_record rs)) lim
      (length (pre @ encode_record r)) (Some (type_num r)) (tlv_push s r) = Ok (tlv_push s r @ rs)"
    using Cons.prems
    by (intro Cons.IH) (auto simp: ascending_def values_bounded_def above_def)
  moreover have "0 < length (encode_record r)"
    by (simp add: encode_record_def)
  ultimately show ?case
    using d by (subst decode_tlv_loop.simps) (simp add: tlv_push_def)
qed

lemma decode_record_no_panic:
  assumes "unat lim < 2 ^ 63" "length data < 2 ^ 63" "offset \<le> length data"
  shows "decode_record data lim offset prev_t \<noteq> Panic"
proof
  assume "decode_record data lim offset prev_t = Panic"
  then obtain t c1 len c2 where
    d1: "decode_bigsize (drop offset data) = Ok (t, c1)" and
    d2: "decode_bigsize (drop (offset + c1) data) = Ok (len, c2)" and
    lim: "\<not> lim < len" and
    p: "slice_of data (offset + c1 + c2) (usize_add (offset + c1 + c2) (unat len)) = (Panic :: (u8 list, TlvError) result)"
      "\<not> length data < usize_add (offset + c1 + c2) (unat len)"
    by (auto simp: decode_record_def Let_def res_simps split: if_splits option.splits)
  have "offset + c1 + c2 \<le> length data"
    using decode_bigsize_bounds [OF d1] decode_bigsize_bounds [OF d2] assms(3) by auto
  then have "usize_add (offset + c1 + c2) (unat len) = offset + c1 + c2 + unat len"
    using assms(1,2) lim by (intro usize_add_exact) (simp add: word_less_nat_alt)
  with p show False by (simp add: slice_of_def)
qed

lemma decode_tlv_loop_no_panic:
  assumes "unat lim < 2 ^ 63" "length data < 2 ^ 63" "offset \<le> length data"
  shows "decode_tlv_loop data lim offset prev_t s \<noteq> Panic"
  using assms
proof (induction data lim offset prev_t s rule: decode_tlv_loop.induct)
  case (1 data lim offset prev_t s)
  show ?case
  proof (cases "offset < length data")
    case True
    show ?thesis
    proof (cases "decode_record data lim offset prev_t")
      case (Ok x)
      then obtain r off where x: "decode_record data lim offset prev_t = Ok (r, off)"
        by (cases x) simp
      with decode_record_advances [OF x True] 1 True show ?thesis
        by (subst decode_tlv_loop.simps) simp
    next
      case Panic
      with decode_record_no_panic [OF 1(2-4)] show ?thesis by simp
    qed (subst decode_tlv_loop.simps, simp add: True)
  qed (subst decode_tlv_loop.simps, simp)
qed

section \<open>Streams of optional records\<close>

text \<open>Most messages push a fixed sequence of records, some of them only when a field is set. A list of
  slots gives for each type the value or its absence; decoding such a stream and looking a
  type up gives the slot back.\<close>

definition push_opt :: "TlvStream \<Rightarrow> u64 \<Rightarrow> bytes option \<Rightarrow> TlvStream" where
  "push_opt s t v = (case v of Some x \<Rightarrow> tlv_push s (tlv_bytes t x) | None \<Rightarrow> s)"

fun of_slots :: "(u64 \<times> bytes option) list \<Rightarrow> TlvStream" where
  "of_slots [] = []"
| "of_slots ((t, v) # slots) = (case v of Some x \<Rightarrow> tlv_new t x # of_slots slots | None \<Rightarrow> of_slots slots)"

definition slot_get :: "(u64 \<times> bytes option) list \<Rightarrow> u64 \<Rightarrow> bytes option" where
  "slot_get xs t = (case map_of xs t of Some v \<Rightarrow> v | None \<Rightarrow> None)"

lemma tlv_get_simps [simp]:
  "tlv_get [] t = None"
  "tlv_get (r # s) t = (if type_num r = t then Some r else tlv_get s t)"
  by (simp_all add: tlv_get_def)

lemma of_slots_append [simp]: "of_slots (xs @ ys) = of_slots xs @ of_slots ys"
  by (induction xs rule: of_slots.induct) (simp_all split: option.splits)

lemma push_of_slots [simp]:
  "tlv_push (of_slots xs) (tlv_u8 t a) = of_slots (xs @ [(t, Some [a])])"
  "tlv_push (of_slots xs) (tlv_u32 t c) = of_slots (xs @ [(t, Some (u32_be c))])"
  "tlv_push (of_slots xs) (tlv_u64 t d) = of_slots (xs @ [(t, Some (u64_be d))])"
  "tlv_push (of_slots xs) (tlv_varint t d) = of_slots (xs @ [(t, Some (encode_bigsize d))])"
  "tlv_push (of_slots xs) (tlv_bytes t v) = of_slots (xs @ [(t, Some v)])"
  "push_opt (of_slots xs) t w = of_slots (xs @ [(t, w)])"
  by (simp_all add: tlv_push_def tlv_record_defs push_opt_def split: option.splits)

lemma push_Nil:
  "tlv_push [] r = tlv_push (of_slots []) r"
  by simp

lemma type_num_of_slots: "r \<in> set (of_slots xs) \<Longrightarrow> (type_num r, Some (tlv_value r)) \<in> set xs"
  by (induction xs rule: of_slots.induct) (auto simp: tlv_new_def split: option.splits)

lemma ascending_of_slots: "sorted_wrt (<) (map fst xs) \<Longrightarrow> ascending (of_slots xs)"
proof (induction xs rule: of_slots.induct)
  case (2 t v xs)
  have "t < type_num r" if "r \<in> set (of_slots xs)" for r
    using type_num_of_slots [OF that] 2(3) by force
  with 2 show ?case by (auto simp: ascending_def tlv_new_def split: option.splits)
qed (simp add: ascending_def)

lemma tlv_get_of_slots:
  "distinct (map fst xs) \<Longrightarrow>
    tlv_get (of_slots xs) t = map_option (tlv_new t) (slot_get xs t)"
proof (induction xs rule: of_slots.induct)
  case (2 t' v xs)
  then have IH: "tlv_get (of_slots xs) t = map_option (tlv_new t) (slot_get xs t)"
    by (cases v) simp_all
  have "map_of xs t = None" if "t = t'"
    using 2(3) that by (simp add: map_of_eq_None_iff)
  with IH show ?case by (cases v) (simp_all add: slot_get_def)
qed (simp add: slot_get_def)

lemma length_encode_record: "length (encode_record r) \<le> 18 + length (tlv_value r)"
  using bigsize_len_le [of "type_num r"] bigsize_len_le [of "of_nat (length (tlv_value r))"]
  unfolding encode_record_def length_append length_encode_bigsize by linarith

lemma length_value_le: "r \<in> set s \<Longrightarrow> length (tlv_value r) \<le> length (tlv_encode s)"
proof -
  assume r: "r \<in> set s"
  have "length (tlv_value r) \<le> length (encode_record r)" by (simp add: encode_record_def)
  also have "\<dots> \<le> sum_list (map (\<lambda>r. length (encode_record r)) (sort_key type_num s))"
    using r by (intro member_le_sum_list) auto
  finally show ?thesis by (simp add: tlv_encode_def length_concat comp_def)
qed

lemma decode_encode_ascending:
  assumes "ascending s" "values_bounded lim s" "length (tlv_encode s) < 2 ^ 64"
  shows "decode_with_limit (tlv_encode s) lim = Ok s"
  using decode_tlv_loop_encode [of s lim None "[]" "[]"] assms
  by (simp add: decode_with_limit_def tlv_encode_def sort_key_ascending above_def)

fun slot_size :: "bytes option \<Rightarrow> nat" where
  "slot_size None = 0"
| "slot_size (Some x) = 18 + length x"

definition slot_bytes :: "(u64 \<times> bytes option) list \<Rightarrow> nat" where
  "slot_bytes xs = sum_list (map (\<lambda>x. slot_size (snd x)) xs)"

lemma slot_size_le: "(\<And>x. v = Some x \<Longrightarrow> length x \<le> n) \<Longrightarrow> slot_size v \<le> 18 + n"
  by (cases v) auto

lemma length_encode_of_slots:
  assumes "sorted_wrt (<) (map fst xs)"
  shows "length (tlv_encode (of_slots xs)) \<le> slot_bytes xs"
proof -
  have "length (concat (map encode_record (of_slots xs))) \<le> slot_bytes xs"
  proof (induction xs rule: of_slots.induct)
    case (2 t v xs)
    then show ?case
      using length_encode_record [of "tlv_new t (the v)"]
      by (auto simp: slot_bytes_def tlv_new_def split: option.splits)
  qed simp
  then show ?thesis
    using sort_key_ascending [OF ascending_of_slots [OF assms]] by (simp add: tlv_encode_def)
qed

lemma decode_of_slots:
  assumes "sorted_wrt (<) (map fst xs)" "slot_bytes xs < 2 ^ 64"
    and "\<forall>(t, v) \<in> set xs. case v of Some x \<Rightarrow> length x \<le> unat lim | None \<Rightarrow> True"
  shows "decode_with_limit (tlv_encode (of_slots xs)) lim = Ok (of_slots xs)"
proof (rule decode_encode_ascending)
  show "ascending (of_slots xs)" using assms(1) by (rule ascending_of_slots)
  show "values_bounded lim (of_slots xs)"
    using assms(3) type_num_of_slots by (fastforce simp: values_bounded_def)
  show "length (tlv_encode (of_slots xs)) < 2 ^ 64"
    using length_encode_of_slots [OF assms(1)] assms(2) by simp
qed

section \<open>Properties\<close>

lemma slot_value_le: "(t, Some x) \<in> set xs \<Longrightarrow> length x \<le> slot_bytes xs"
  by (induction xs) (auto simp: slot_bytes_def)

lemma tlv_decode_of_slots:
  assumes "sorted_wrt (<) (map fst xs)" "slot_bytes xs \<le> 4000000"
  shows "tlv_decode (tlv_encode (of_slots xs)) = Ok (of_slots xs)"
  unfolding tlv_decode_def
proof (rule decode_of_slots [OF assms(1)])
  have "length x \<le> 4000000" if "(t, Some x) \<in> set xs" for t x
    using slot_value_le [OF that] assms(2) by simp
  then show "\<forall>(t, v) \<in> set xs. case v of Some x \<Rightarrow> length x \<le> unat MAX_TLV_VALUE_LENGTH | None \<Rightarrow> True"
    by (auto simp: MAX_TLV_VALUE_LENGTH_def split: option.splits)
qed (use assms(2) in simp)

lemma ascending_sort_key: "distinct (map type_num s) \<Longrightarrow> ascending (sort_key type_num s)"
  unfolding ascending_def
  by (simp add: strict_sorted_iff distinct_map inj_on_def)

lemma distinct_iff_ascending: "ascending s \<Longrightarrow> distinct (map type_num s)"
  by (simp add: ascending_def strict_sorted_iff)

text \<open>A BigSize varint decodes to value \<open>val\<close> and length \<open>n\<close> exactly when the input starts with
  the (shortest) encoding of \<open>val\<close> and \<open>n\<close> is the length \<open>bigsize_len\<close> of that encoding. So decoding
  inverts encoding, no value has a second accepted encoding, and trailing bytes are left alone.\<close>

theorem bigsize_decode_iff:
  "decode_bigsize data = Ok (val, n) \<longleftrightarrow>
     (\<exists>rest. data = encode_bigsize val @ rest) \<and> n = bigsize_len val"
proof
  assume "decode_bigsize data = Ok (val, n)"
  from decode_bigsize_canonical [OF this] have "data = encode_bigsize val @ drop n data"
    and "n = bigsize_len val"
    by (metis append_take_drop_id)+
  then show "(\<exists>rest. data = encode_bigsize val @ rest) \<and> n = bigsize_len val" by blast
qed (auto simp: decode_encode_bigsize)

text \<open>Decoding a TLV stream inverts encoding it. For records of pairwise different types whose
  values respect the size limit, encoding in any push order and decoding again gives the records
  back, sorted by type.\<close>

theorem tlv_roundtrip:
  assumes "distinct (map type_num s)" "values_bounded lim s" "length (tlv_encode s) < 2 ^ 64"
  shows "decode_with_limit (tlv_encode s) lim = Ok (sort_key type_num s)"
  using decode_tlv_loop_encode [of "sort_key type_num s" lim None "[]" "[]"] assms
  by (simp add: decode_with_limit_def tlv_encode_def ascending_sort_key values_bounded_def
      above_def)

theorem tlv_roundtrip_witness:
  "decode_with_limit (tlv_encode [tlv_u8 4 7, tlv_u8 2 9]) MAX_TLV_VALUE_LENGTH
    = Ok [tlv_u8 2 9, tlv_u8 4 7]"
  using tlv_roundtrip [of "[tlv_u8 4 7, tlv_u8 2 9]" MAX_TLV_VALUE_LENGTH]
  by (simp add: values_bounded_def MAX_TLV_VALUE_LENGTH_def tlv_record_defs tlv_encode_def
      encode_record_def encode_bigsize_def sort_key_def)

text \<open>A byte string has at most one meaning as a TLV stream, and only in canonical form. Whatever
  decodes has strictly ascending types (so no duplicates), respects the value limit, and
  re-encodes to exactly the same bytes.\<close>

theorem tlv_canonical:
  assumes "decode_with_limit data lim = Ok s"
  shows "tlv_encode s = data \<and> sorted_wrt (<) (map type_num s) \<and> values_bounded lim s"
proof -
  from decode_tlv_loop_canonical [of data lim 0 None "[]" s] assms
  have "data = concat (map encode_record s)" "ascending s" "values_bounded lim s"
    by (auto simp: decode_with_limit_def)
  then show ?thesis
    by (simp add: tlv_encode_def sort_key_ascending ascending_def [symmetric])
qed

theorem tlv_canonical_witness:
  "tlv_encode [tlv_u8 2 9] = [2, 1, 9]"
proof -
  have "decode_with_limit [2, 1, 9] 100 = Ok [tlv_u8 2 9]"
    by (simp add: decode_with_limit_def decode_tlv_loop.simps decode_record_def decode_bigsize_def
        usize_add_def slice_of_def tlv_push_def tlv_record_defs)
  from tlv_canonical [OF this] show ?thesis by simp
qed

text \<open>Decoding a TLV stream held in memory never panics, with any limit below 2^63 bytes (the code
  uses 4,000,000 and 128 MiB): hostile lengths end in an error.\<close>

theorem tlv_decode_no_panic:
  assumes "unat lim < 2 ^ 63" "length data < 2 ^ 63"
  shows "decode_with_limit data lim \<noteq> Panic"
  using decode_tlv_loop_no_panic [of lim data 0 None "[]"] assms
  by (simp add: decode_with_limit_def)

theorem tlv_decode_no_panic_witness:
  "decode_with_limit [0, 0xFF, 0xFF, 0xFF, 0xFF, 0xFF, 0xFF, 0xFF, 0xFF, 0xFF] 100 \<noteq> Panic"
  by (rule tlv_decode_no_panic) simp_all

text \<open>The inline var-bytes reader has no such guard. On an input held in memory it panics exactly
  when the length prefix is so large that adding the prefix size wraps the 64-bit size type and
  the wrapped end still lies inside the input; otherwise it returns bytes or an error. Nine bytes
  \<open>FF\<close> are enough.\<close>

theorem decode_var_bytes_panic_iff:
  assumes "length data < 2 ^ 63"
  shows "decode_var_bytes data = Panic \<longleftrightarrow>
    (\<exists>len k. decode_bigsize data = Ok (len, k) \<and> 2 ^ 64 \<le> k + unat len)"
proof -
  have "decode_var_bytes data = Panic \<longleftrightarrow> 2 ^ 64 \<le> k + unat len"
    if d: "decode_bigsize data = Ok (len, k)" for len k
  proof (cases "k + unat len < 2 ^ 64")
    case True
    with d show ?thesis
      by (simp add: decode_var_bytes_def usize_add_exact slice_of_def Let_def)
  next
    case False
    have k: "0 < k" "k \<le> length data" "k \<le> 9"
      using decode_bigsize_bounds [OF d] decode_bigsize_canonical [OF d] by auto
    from False have "usize_add k (unat len) = k + unat len - 2 ^ 64"
      using k(3) unat_u64_less [of len] by (simp add: usize_add_def le_mod_geq del: unat_u64_less)
    then have "usize_add k (unat len) < k"
      using False unat_u64_less [of len] by (simp del: unat_u64_less)
    with d k False show ?thesis
      by (simp add: decode_var_bytes_def slice_of_def Let_def)
  qed
  moreover have "decode_var_bytes data \<noteq> Panic" if "decode_bigsize data = Err e" for e
    using that by (simp add: decode_var_bytes_def)
  ultimately show ?thesis
    by (cases "decode_bigsize data") (auto simp: decode_var_bytes_def)
qed

theorem decode_var_bytes_panic_iff_witness:
  "decode_var_bytes [0xFF, 0xFF, 0xFF, 0xFF, 0xFF, 0xFF, 0xFF, 0xFF, 0xFF] = Panic"
proof -
  have "decode_bigsize [0xFF, 0xFF, 0xFF, 0xFF, 0xFF, 0xFF, 0xFF, 0xFF, 0xFF]
      = Ok (0xFFFFFFFFFFFFFFFF, 9)"
    by (simp add: decode_bigsize_def be_u64_def be_decode_def)
  then show ?thesis
    using decode_var_bytes_panic_iff [of "[0xFF, 0xFF, 0xFF, 0xFF, 0xFF, 0xFF, 0xFF, 0xFF, 0xFF]"]
    by auto
qed

end
