(* ===== verification/Mssmt_Node.thy ===== *)
theory Mssmt_Node
  imports Prelude
begin

text \<open>
  Nodes of the Merkle-sum sparse Merkle tree: \<^verbatim>\<open>tap-primitives/src/mssmt/node.rs\<close>.

  SHA-256 comes from the \<^verbatim>\<open>bitcoin_hashes\<close> crate and is the parameter \<open>sha\<close> of every
  definition that hashes. \<open>sha_32\<close> says what its documentation does (a digest has 32 bytes);
  collision resistance is never assumed outright: a theorem that needs it either names the finite
  set of inputs on which \<open>sha\<close> must not collide, or shows the colliding inputs.

  The \<^verbatim>\<open>OnceLock\<close> caches of hash and sum are not modelled: they hold the value the
  node's other fields determine.
\<close>

type_synonym hash_fun = "bytes \<Rightarrow> bytes"
type_synonym NodeHash = bytes

definition sha_32 :: "hash_fun \<Rightarrow> bool" where
  "sha_32 sha \<longleftrightarrow> (\<forall>x. length (sha x) = 32)"

lemma sha_32_length [simp, wire_simps]: "sha_32 sha \<Longrightarrow> length (sha x) = 32"
  by (simp add: sha_32_def)

definition HASH_SIZE :: nat where "HASH_SIZE = 32"
definition MAX_TREE_LEVELS :: nat where "MAX_TREE_LEVELS = HASH_SIZE * 8"
definition LAST_BIT_INDEX :: nat where "LAST_BIT_INDEX = MAX_TREE_LEVELS - 1"

lemma tree_levels [simp]:
  "HASH_SIZE = 32" "MAX_TREE_LEVELS = 256" "LAST_BIT_INDEX = 255"
  by (simp_all add: HASH_SIZE_def MAX_TREE_LEVELS_def LAST_BIT_INDEX_def)

text \<open>Bit \<open>idx\<close> of a key, bit 0 being the least significant bit of byte 0. The callers pass
  \<^verbatim>\<open>i as u8\<close>, hence the reduction modulo 256.\<close>

definition bit_index :: "nat \<Rightarrow> bytes \<Rightarrow> bool" where
  "bit_index idx key = bit (key ! (idx mod 256 div 8)) (idx mod 256 mod 8)"

section \<open>Nodes\<close>

record LeafNode =
  leaf_value :: bytes
  leaf_sum :: u64

record ComputedNode =
  comp_hash :: NodeHash
  comp_sum :: u64

record CompactedLeafNode =
  cl_leaf :: LeafNode
  cl_key :: bytes
  cl_hash :: NodeHash

datatype Node =
    Leaf LeafNode
  | Branch Node Node
  | Compacted CompactedLeafNode
  | Computed ComputedNode

type_synonym BranchNode = "Node \<times> Node"

definition leaf_new :: "bytes \<Rightarrow> u64 \<Rightarrow> LeafNode" where
  "leaf_new v s = \<lparr>leaf_value = v, leaf_sum = s\<rparr>"

definition leaf_empty :: LeafNode where
  "leaf_empty = leaf_new [] 0"

definition leaf_is_empty :: "LeafNode \<Rightarrow> bool" where
  "leaf_is_empty l \<longleftrightarrow> leaf_value l = [] \<and> leaf_sum l = 0"

definition leaf_preimage :: "LeafNode \<Rightarrow> bytes" where
  "leaf_preimage l = leaf_value l @ u64_be (leaf_sum l)"

definition leaf_hash :: "hash_fun \<Rightarrow> LeafNode \<Rightarrow> NodeHash" where
  "leaf_hash sha l = sha (leaf_preimage l)"

definition branch_preimage :: "NodeHash \<Rightarrow> NodeHash \<Rightarrow> u64 \<Rightarrow> bytes" where
  "branch_preimage lh rh s = lh @ rh @ u64_be s"

definition computed :: "NodeHash \<Rightarrow> u64 \<Rightarrow> Node" where
  "computed h s = Computed \<lparr>comp_hash = h, comp_sum = s\<rparr>"

fun node_sum :: "Node \<Rightarrow> u64" where
  "node_sum (Leaf l) = leaf_sum l"
| "node_sum (Branch l r) = node_sum l + node_sum r"
| "node_sum (Compacted c) = leaf_sum (cl_leaf c)"
| "node_sum (Computed c) = comp_sum c"

fun node_hash :: "hash_fun \<Rightarrow> Node \<Rightarrow> NodeHash" where
  "node_hash sha (Leaf l) = leaf_hash sha l"
| "node_hash sha (Branch l r) =
     sha (branch_preimage (node_hash sha l) (node_hash sha r) (node_sum l + node_sum r))"
| "node_hash sha (Compacted c) = cl_hash c"
| "node_hash sha (Computed c) = comp_hash c"

definition branch_hash :: "hash_fun \<Rightarrow> BranchNode \<Rightarrow> NodeHash" where
  "branch_hash sha b = node_hash sha (Branch (fst b) (snd b))"

definition branch_sum :: "BranchNode \<Rightarrow> u64" where
  "branch_sum b = node_sum (Branch (fst b) (snd b))"

definition is_equal_node :: "hash_fun \<Rightarrow> Node \<Rightarrow> Node \<Rightarrow> bool" where
  "is_equal_node sha a b \<longleftrightarrow> node_hash sha a = node_hash sha b \<and> node_sum a = node_sum b"

fun is_empty_leaf :: "Node \<Rightarrow> bool" where
  "is_empty_leaf (Leaf l) = leaf_is_empty l"
| "is_empty_leaf _ = False"

fun as_branch :: "Node \<Rightarrow> BranchNode option" where
  "as_branch (Branch l r) = Some (l, r)"
| "as_branch _ = None"

fun as_leaf :: "Node \<Rightarrow> LeafNode option" where
  "as_leaf (Leaf l) = Some l"
| "as_leaf _ = None"

lemma node_computed [simp]:
  "node_hash sha (computed h s) = h" "node_sum (computed h s) = s"
  by (simp_all add: computed_def)

lemma branch_hash_Pair [simp]: "branch_hash sha (l, r) = node_hash sha (Branch l r)"
  by (simp add: branch_hash_def)

lemma branch_sum_Pair [simp]: "branch_sum (l, r) = node_sum l + node_sum r"
  by (simp add: branch_sum_def)

lemma leaf_empty_simps [simp]:
  "leaf_value leaf_empty = []" "leaf_sum leaf_empty = 0" "leaf_is_empty leaf_empty"
  by (simp_all add: leaf_empty_def leaf_new_def leaf_is_empty_def)

lemma leaf_is_empty_iff: "leaf_is_empty l \<longleftrightarrow> l = leaf_empty"
  by (cases l) (auto simp: leaf_is_empty_def leaf_empty_def leaf_new_def)

lemma leaf_preimage_inject: "leaf_preimage l = leaf_preimage l' \<longleftrightarrow> l = l'"
proof
  assume "leaf_preimage l = leaf_preimage l'"
  then have "leaf_value l @ u64_be (leaf_sum l) = leaf_value l' @ u64_be (leaf_sum l')"
    by (simp add: leaf_preimage_def)
  then have "leaf_value l = leaf_value l'" "leaf_sum l = leaf_sum l'"
    by (simp_all add: append_eq_append_conv)
  then show "l = l'" by (cases l; cases l') simp
qed simp

lemma length_leaf_preimage [simp]: "length (leaf_preimage l) = length (leaf_value l) + 8"
  by (simp add: leaf_preimage_def)

lemma branch_preimage_inject:
  assumes "length lh = 32" "length lh' = 32" "length rh = 32" "length rh' = 32"
  shows "branch_preimage lh rh s = branch_preimage lh' rh' s' \<longleftrightarrow> lh = lh' \<and> rh = rh' \<and> s = s'"
  using assms by (auto simp: branch_preimage_def append_eq_append_conv_length)

lemma length_branch_preimage [simp]:
  "length (branch_preimage lh rh s) = length lh + length rh + 8"
  by (simp add: branch_preimage_def)

section \<open>The empty tree\<close>

text \<open>\<open>empty_up sha d\<close> is the empty node \<open>d\<close> levels above the leaves; \<open>empty_tree sha i\<close> is
  entry \<open>i\<close> of the precomputed table (0 the root, 256 the empty leaf). As in the code, the
  children of an empty branch are stored as computed nodes.\<close>

fun empty_up :: "hash_fun \<Rightarrow> nat \<Rightarrow> Node" where
  "empty_up sha 0 = Leaf leaf_empty"
| "empty_up sha (Suc d) =
     (let child = computed (node_hash sha (empty_up sha d)) (node_sum (empty_up sha d))
      in Branch child child)"

definition empty_tree :: "hash_fun \<Rightarrow> nat \<Rightarrow> Node" where
  "empty_tree sha i = empty_up sha (MAX_TREE_LEVELS - i)"

definition empty_tree_root_hash :: "hash_fun \<Rightarrow> NodeHash" where
  "empty_tree_root_hash sha = node_hash sha (empty_tree sha 0)"

definition empty_hash :: "hash_fun \<Rightarrow> nat \<Rightarrow> NodeHash" where
  "empty_hash sha d = node_hash sha (empty_up sha d)"

lemma node_sum_empty_up [simp]: "node_sum (empty_up sha d) = 0"
  by (induction d) (simp_all add: Let_def)

lemma node_hash_empty_up [simp]: "node_hash sha (empty_up sha d) = empty_hash sha d"
  by (simp add: empty_hash_def)

lemma empty_hash_simps:
  "empty_hash sha 0 = leaf_hash sha leaf_empty"
  "empty_hash sha (Suc d) =
     sha (branch_preimage (empty_hash sha d) (empty_hash sha d) 0)"
  by (simp_all add: empty_hash_def Let_def del: node_hash_empty_up)

lemma length_leaf_hash [simp]: "sha_32 sha \<Longrightarrow> length (leaf_hash sha l) = 32"
  by (simp add: leaf_hash_def)

lemma length_empty_hash [simp]: "sha_32 sha \<Longrightarrow> length (empty_hash sha d) = 32"
  by (cases d) (simp_all add: empty_hash_simps)

section \<open>Compacted leaves\<close>

text \<open>\<open>compact_up sha key i n (h, s)\<close> folds the \<open>n\<close> levels \<open>i + n - 1, \<dots>, i\<close> above a node with
  hash \<open>h\<close> and sum \<open>s\<close>, every sibling being empty: the loop
  \<^verbatim>\<open>for i in (height..=LAST_BIT_INDEX).rev()\<close>.\<close>

fun compact_up :: "hash_fun \<Rightarrow> bytes \<Rightarrow> nat \<Rightarrow> nat \<Rightarrow> NodeHash \<times> u64 \<Rightarrow> NodeHash \<times> u64" where
  "compact_up sha key i 0 cur = cur"
| "compact_up sha key i (Suc n) cur =
     (let level = i + n;
          sib = empty_tree sha (level + 1);
          (h, s) = cur;
          (lh, rh, ls, rs) =
            (if \<not> bit_index level key then (h, node_hash sha sib, s, node_sum sib)
             else (node_hash sha sib, h, node_sum sib, s));
          sum = ls + rs
      in compact_up sha key i n (sha (branch_preimage lh rh sum), sum))"

definition compute_compacted_hash :: "hash_fun \<Rightarrow> nat \<Rightarrow> bytes \<Rightarrow> LeafNode \<Rightarrow> NodeHash" where
  "compute_compacted_hash sha height key leaf =
     fst (compact_up sha key height (MAX_TREE_LEVELS - height) (leaf_hash sha leaf, leaf_sum leaf))"

definition compacted_new :: "hash_fun \<Rightarrow> nat \<Rightarrow> bytes \<Rightarrow> LeafNode \<Rightarrow> CompactedLeafNode" where
  "compacted_new sha height key leaf =
     \<lparr>cl_leaf = leaf, cl_key = key, cl_hash = compute_compacted_hash sha height key leaf\<rparr>"

fun extract_up :: "hash_fun \<Rightarrow> bytes \<Rightarrow> nat \<Rightarrow> nat \<Rightarrow> Node \<Rightarrow> Node" where
  "extract_up sha key i 0 cur = cur"
| "extract_up sha key i (Suc n) cur =
     (let level = i + n; sib = empty_tree sha (level + 1)
      in extract_up sha key i n
           (if \<not> bit_index level key then Branch cur sib else Branch sib cur))"

definition cl_extract :: "hash_fun \<Rightarrow> CompactedLeafNode \<Rightarrow> nat \<Rightarrow> Node" where
  "cl_extract sha c height =
     extract_up sha (cl_key c) height (MAX_TREE_LEVELS - height) (Leaf (cl_leaf c))"

lemma compact_up_extract_up:
  "compact_up sha key i n (node_hash sha cur, node_sum cur)
    = (node_hash sha (extract_up sha key i n cur), node_sum (extract_up sha key i n cur))"
proof (induction n arbitrary: cur)
  case (Suc n)
  let ?sib = "empty_tree sha (Suc (i + n))"
  show ?case
    using Suc.IH [of "Branch cur ?sib"] Suc.IH [of "Branch ?sib cur"] by (simp add: Let_def)
qed simp

text \<open>The hash a compacted leaf carries is that of the subtree it stands for.\<close>

lemma node_hash_cl_extract:
  "node_hash sha (cl_extract sha (compacted_new sha height key leaf) height)
    = cl_hash (compacted_new sha height key leaf)"
  using compact_up_extract_up [of sha key height _ "Leaf leaf"]
  by (simp add: cl_extract_def compacted_new_def compute_compacted_hash_def)

end
