(* ===== verification/Mssmt_Store.thy ===== *)
theory Mssmt_Store
  imports Mssmt_Node
begin

text \<open>
  The in-memory tree store: \<^verbatim>\<open>tap-primitives/src/mssmt/store.rs\<close>. Nodes are kept in hash
  maps keyed by their hash; a stored branch keeps only the hashes and sums of its children
  (\<^verbatim>\<open>shallow_branch\<close>). The generic store traits are instantiated at
  \<^verbatim>\<open>DefaultStore\<close>, the store every tree of the protocol crates is built on.
\<close>

datatype StoreError = NodeNotFound | StoreOther string

record DefaultStore =
  branches :: "NodeHash \<rightharpoonup> BranchNode"
  leaves :: "NodeHash \<rightharpoonup> LeafNode"
  compacted_leaves :: "NodeHash \<rightharpoonup> CompactedLeafNode"
  store_root :: "BranchNode option"

definition store_new :: DefaultStore where
  "store_new = \<lparr>branches = Map.empty, leaves = Map.empty, compacted_leaves = Map.empty,
     store_root = None\<rparr>"

definition shallow_branch :: "hash_fun \<Rightarrow> BranchNode \<Rightarrow> BranchNode" where
  "shallow_branch sha b =
     (computed (node_hash sha (fst b)) (node_sum (fst b)),
      computed (node_hash sha (snd b)) (node_sum (snd b)))"

definition get_node :: "hash_fun \<Rightarrow> DefaultStore \<Rightarrow> nat \<Rightarrow> NodeHash \<Rightarrow> Node" where
  "get_node sha s height hash =
     (if hash = node_hash sha (empty_tree sha height) then empty_tree sha height
      else case branches s hash of
        Some b \<Rightarrow> Branch (fst b) (snd b)
      | None \<Rightarrow> (case compacted_leaves s hash of
          Some cl \<Rightarrow> Compacted cl
        | None \<Rightarrow> (case leaves s hash of
            Some l \<Rightarrow> Leaf l
          | None \<Rightarrow> empty_tree sha height)))"

text \<open>Indexing the 257 entries of the empty tree at 257 panics.\<close>

definition get_children ::
  "hash_fun \<Rightarrow> DefaultStore \<Rightarrow> nat \<Rightarrow> NodeHash \<Rightarrow> (Node \<times> Node, StoreError) result" where
  "get_children sha s height hash =
     (if MAX_TREE_LEVELS < height then Panic
      else if hash = node_hash sha (empty_tree sha height) then
        (if height = MAX_TREE_LEVELS then Panic
         else Ok (empty_tree sha (height + 1), empty_tree sha (height + 1)))
      else
        (let node = get_node sha s height hash in
         if node_hash sha node = node_hash sha (empty_tree sha height) then Err NodeNotFound
         else case node of
           Branch l r \<Rightarrow>
             if height = MAX_TREE_LEVELS then Panic
             else Ok (get_node sha s (height + 1) (node_hash sha l),
                      get_node sha s (height + 1) (node_hash sha r))
         | _ \<Rightarrow> Err NodeNotFound))"

definition root_node :: "hash_fun \<Rightarrow> DefaultStore \<Rightarrow> Node" where
  "root_node sha s =
     (case store_root s of Some b \<Rightarrow> Branch (fst b) (snd b) | None \<Rightarrow> empty_tree sha 0)"

definition update_root :: "hash_fun \<Rightarrow> BranchNode \<Rightarrow> DefaultStore \<Rightarrow> DefaultStore" where
  "update_root sha b s = s\<lparr>store_root := Some (shallow_branch sha b)\<rparr>"

definition insert_branch :: "hash_fun \<Rightarrow> BranchNode \<Rightarrow> DefaultStore \<Rightarrow> DefaultStore" where
  "insert_branch sha b s = s\<lparr>branches := (branches s)(branch_hash sha b \<mapsto> shallow_branch sha b)\<rparr>"

definition insert_leaf :: "hash_fun \<Rightarrow> LeafNode \<Rightarrow> DefaultStore \<Rightarrow> DefaultStore" where
  "insert_leaf sha l s = s\<lparr>leaves := (leaves s)(leaf_hash sha l \<mapsto> l)\<rparr>"

definition insert_compacted_leaf :: "CompactedLeafNode \<Rightarrow> DefaultStore \<Rightarrow> DefaultStore" where
  "insert_compacted_leaf c s =
     s\<lparr>compacted_leaves := (compacted_leaves s)(cl_hash c \<mapsto> c)\<rparr>"

definition delete_branch :: "NodeHash \<Rightarrow> DefaultStore \<Rightarrow> DefaultStore" where
  "delete_branch h s = s\<lparr>branches := (branches s)(h := None)\<rparr>"

definition delete_leaf :: "NodeHash \<Rightarrow> DefaultStore \<Rightarrow> DefaultStore" where
  "delete_leaf h s = s\<lparr>leaves := (leaves s)(h := None)\<rparr>"

definition delete_compacted_leaf :: "NodeHash \<Rightarrow> DefaultStore \<Rightarrow> DefaultStore" where
  "delete_compacted_leaf h s = s\<lparr>compacted_leaves := (compacted_leaves s)(h := None)\<rparr>"

definition delete_root :: "DefaultStore \<Rightarrow> DefaultStore" where
  "delete_root s = s\<lparr>store_root := None\<rparr>"

definition delete_all_nodes :: "DefaultStore \<Rightarrow> DefaultStore" where
  "delete_all_nodes s =
     s\<lparr>branches := Map.empty, leaves := Map.empty, compacted_leaves := Map.empty,
       store_root := None\<rparr>"

lemmas store_update_defs =
  update_root_def insert_branch_def insert_leaf_def insert_compacted_leaf_def delete_branch_def
  delete_leaf_def delete_compacted_leaf_def delete_root_def delete_all_nodes_def

lemma shallow_branch_hash [simp]: "branch_hash sha (shallow_branch sha b) = branch_hash sha b"
  by (simp add: shallow_branch_def branch_hash_def)

lemma shallow_branch_sum [simp]: "branch_sum (shallow_branch sha b) = branch_sum b"
  by (simp add: shallow_branch_def branch_sum_def)

section \<open>Copying a tree\<close>

function copy_node ::
  "hash_fun \<Rightarrow> DefaultStore \<Rightarrow> nat \<Rightarrow> Node \<Rightarrow> DefaultStore \<Rightarrow> (DefaultStore, StoreError) result" where
  "copy_node sha src height node target =
     (if MAX_TREE_LEVELS < height then Panic
      else if node_hash sha node = node_hash sha (empty_tree sha height) then Ok target
      else case node of
        Branch l r \<Rightarrow>
          (let target = insert_branch sha (l, r) target in
           res_bind (get_children sha src height (node_hash sha node)) (\<lambda>(left, right).
             res_bind (copy_node sha src (height + 1) left target) (\<lambda>target.
               copy_node sha src (height + 1) right target)))
      | Leaf leaf \<Rightarrow> Ok (if leaf_is_empty leaf then target else insert_leaf sha leaf target)
      | Compacted c \<Rightarrow> Ok (insert_compacted_leaf c target)
      | Computed _ \<Rightarrow> Err (StoreOther ''cannot copy computed node''))"
  by pat_completeness auto
termination
  by (relation "measure (\<lambda>(sha, src, height, node, target). 257 - height)") auto

declare copy_node.simps [simp del]

definition copy_tree_store ::
  "hash_fun \<Rightarrow> DefaultStore \<Rightarrow> DefaultStore \<Rightarrow> (DefaultStore, StoreError) result" where
  "copy_tree_store sha source target =
     (let root = root_node sha source in
      if node_hash sha root = node_hash sha (empty_tree sha 0) then Ok target
      else res_bind (copy_node sha source 0 root target) (\<lambda>target.
        Ok (case root of Branch l r \<Rightarrow> update_root sha (l, r) target | _ \<Rightarrow> target)))"

end
