(* ===== verification/Mssmt_Tree.thy ===== *)
theory Mssmt_Tree
  imports Mssmt_Store
begin

text \<open>
  The full (uncompacted) tree: \<^verbatim>\<open>tap-primitives/src/mssmt/tree.rs\<close>. A
  \<^verbatim>\<open>FullTree\<close> is its store. The closures passed to \<^verbatim>\<open>walk_down\<close> and
  \<^verbatim>\<open>walk_up\<close> become, for the walk down, the list of their arguments level by level, and
  for the walk up the store they update.
\<close>

datatype TreeError = TreeStore StoreError | IntegerOverflow u64 u64

definition check_sum_overflow_u64 :: "u64 \<Rightarrow> u64 \<Rightarrow> (unit, TreeError) result" where
  "check_sum_overflow_u64 a b =
     (if checked_add a b = None then Err (IntegerOverflow a b) else Ok ())"

definition step_order :: "nat \<Rightarrow> bytes \<Rightarrow> 'a \<Rightarrow> 'a \<Rightarrow> 'a \<times> 'a" where
  "step_order height key left right =
     (if \<not> bit_index height key then (left, right) else (right, left))"

section \<open>Walking down\<close>

text \<open>\<open>walk_down_from\<close> runs \<open>n\<close> levels from level \<open>i\<close>; each entry of the trace is what the closure
  receives at that level: the next node, its sibling and the current node.\<close>

type_synonym trace = "(Node \<times> Node \<times> Node) list"

fun walk_down_from ::
  "hash_fun \<Rightarrow> DefaultStore \<Rightarrow> bytes \<Rightarrow> nat \<Rightarrow> nat \<Rightarrow> Node \<Rightarrow> (Node \<times> trace, TreeError) result" where
  "walk_down_from sha s key i 0 current = Ok (current, [])"
| "walk_down_from sha s key i (Suc n) current =
     res_bind (map_err TreeStore (get_children sha s i (node_hash sha current))) (\<lambda>(left, right).
       let (next, sibling) = step_order i key left right in
       res_bind (walk_down_from sha s key (i + 1) n next) (\<lambda>(final, trace).
         Ok (final, (next, sibling, current) # trace)))"

fun leaf_or_empty :: "Node \<Rightarrow> LeafNode" where
  "leaf_or_empty (Leaf l) = l"
| "leaf_or_empty _ = leaf_empty"

definition walk_down ::
  "hash_fun \<Rightarrow> DefaultStore \<Rightarrow> bytes \<Rightarrow> (LeafNode \<times> trace, TreeError) result" where
  "walk_down sha s key =
     res_bind (walk_down_from sha s key 0 MAX_TREE_LEVELS (root_node sha s)) (\<lambda>(final, trace).
       Ok (leaf_or_empty final, trace))"

definition trace_sibling :: "Node \<times> Node \<times> Node \<Rightarrow> Node" where
  "trace_sibling e = fst (snd e)"

definition trace_parent :: "Node \<times> Node \<times> Node \<Rightarrow> Node" where
  "trace_parent e = snd (snd e)"

lemma trace_entry [simp]:
  "trace_sibling (n, sib, par) = sib" "trace_parent (n, sib, par) = par"
  by (simp_all add: trace_sibling_def trace_parent_def)

section \<open>Walking up\<close>

text \<open>The body of the closure that \<^verbatim>\<open>insert_inner\<close> passes to \<^verbatim>\<open>walk_up\<close>.\<close>

definition replace_branch ::
  "hash_fun \<Rightarrow> nat \<Rightarrow> NodeHash \<Rightarrow> BranchNode \<Rightarrow> DefaultStore \<Rightarrow> DefaultStore" where
  "replace_branch sha i prev_parent parent s =
     (let s = (if prev_parent \<noteq> node_hash sha (empty_tree sha i) then delete_branch prev_parent s
               else s)
      in if branch_hash sha parent \<noteq> node_hash sha (empty_tree sha i)
         then insert_branch sha parent s else s)"

text \<open>\<open>walk_up_insert sha key i current siblings prev_parents s\<close> handles levels \<open>i - 1, \<dots>, 0\<close>; the lists
  start at the deepest of these levels.\<close>

fun walk_up_insert ::
  "hash_fun \<Rightarrow> bytes \<Rightarrow> nat \<Rightarrow> Node \<Rightarrow> Node list \<Rightarrow> NodeHash list \<Rightarrow> DefaultStore \<Rightarrow>
     Node \<times> DefaultStore" where
  "walk_up_insert sha key (Suc i) current (sibling # siblings) (prev # prevs) s =
     (let (l, r) = step_order i key current sibling
      in walk_up_insert sha key i (Branch l r) siblings prevs (replace_branch sha i prev (l, r) s))"
| "walk_up_insert sha key i current siblings prevs s = (current, s)"

section \<open>The tree operations\<close>

definition full_tree_new :: DefaultStore where
  "full_tree_new = store_new"

definition tree_root :: "hash_fun \<Rightarrow> DefaultStore \<Rightarrow> BranchNode" where
  "tree_root sha s =
     (case as_branch (root_node sha s) of
        Some b \<Rightarrow> b
      | None \<Rightarrow> the (as_branch (empty_tree sha 0)))"

definition insert_inner ::
  "hash_fun \<Rightarrow> bytes \<Rightarrow> LeafNode \<Rightarrow> DefaultStore \<Rightarrow> (BranchNode \<times> DefaultStore, TreeError) result" where
  "insert_inner sha key leaf s =
     res_bind (walk_down sha s key) (\<lambda>(_, trace).
       let prev_parents = map (\<lambda>e. node_hash sha (trace_parent e)) (rev trace);
           siblings = map trace_sibling (rev trace);
           (root, s') = walk_up_insert sha key MAX_TREE_LEVELS (Leaf leaf) siblings prev_parents s
       in (case as_branch root of Some b \<Rightarrow> Ok (b, s') | None \<Rightarrow> Panic))"

definition tree_insert ::
  "hash_fun \<Rightarrow> bytes \<Rightarrow> LeafNode \<Rightarrow> DefaultStore \<Rightarrow> (DefaultStore, TreeError) result" where
  "tree_insert sha key leaf s =
     res_bind (check_sum_overflow_u64 (branch_sum (tree_root sha s)) (leaf_sum leaf)) (\<lambda>_.
       res_bind (insert_inner sha key leaf s) (\<lambda>(root, s).
         let s = update_root sha root s
         in Ok (if leaf_is_empty leaf then delete_leaf key s else insert_leaf sha leaf s)))"

definition tree_delete ::
  "hash_fun \<Rightarrow> bytes \<Rightarrow> DefaultStore \<Rightarrow> (DefaultStore, TreeError) result" where
  "tree_delete sha key s =
     res_bind (insert_inner sha key leaf_empty s) (\<lambda>(root, s).
       Ok (delete_leaf key (update_root sha root s)))"

definition tree_get :: "hash_fun \<Rightarrow> bytes \<Rightarrow> DefaultStore \<Rightarrow> (LeafNode, TreeError) result" where
  "tree_get sha key s = res_bind (walk_down sha s key) (\<lambda>(leaf, _). Ok leaf)"

text \<open>A proof is its 256 sibling nodes, deepest level first.\<close>

definition tree_merkle_proof ::
  "hash_fun \<Rightarrow> bytes \<Rightarrow> DefaultStore \<Rightarrow> (Node list, TreeError) result" where
  "tree_merkle_proof sha key s =
     res_bind (walk_down sha s key) (\<lambda>(_, trace). Ok (map trace_sibling (rev trace)))"

end
