(* ===== verification/Mssmt_Proof.thy ===== *)
theory Mssmt_Proof
  imports Mssmt_Tree
begin

unbundle bit_operations_syntax

text \<open>
  Merkle proofs of the tree: \<^verbatim>\<open>tap-primitives/src/mssmt/proof.rs\<close> and
  \<^verbatim>\<open>verify_merkle_proof\<close> of \<^verbatim>\<open>tree.rs\<close>. A proof is the list of its 256
  sibling nodes, deepest level first; \<^verbatim>\<open>Proof::new\<close> asserts the length.
\<close>

type_synonym MerkleProof = "Node list"

definition proof_new :: "Node list \<Rightarrow> (MerkleProof, 'e) result" where
  "proof_new nodes = (if length nodes = MAX_TREE_LEVELS then Ok nodes else Panic)"

section \<open>The root of a proof\<close>

text \<open>\<open>proof_up key i current siblings\<close> folds levels \<open>i - 1, \<dots>, 0\<close>.\<close>

fun proof_up :: "bytes \<Rightarrow> nat \<Rightarrow> Node \<Rightarrow> Node list \<Rightarrow> Node" where
  "proof_up key (Suc i) current (sibling # siblings) =
     (let (l, r) = step_order i key current sibling in proof_up key i (Branch l r) siblings)"
| "proof_up key i current siblings = current"

text \<open>The last match of \<^verbatim>\<open>Proof::root\<close> is \<^verbatim>\<open>unreachable!\<close> on anything but a branch
  (\<open>proof_root_branch\<close> below).\<close>

definition proof_root :: "bytes \<Rightarrow> Node \<Rightarrow> MerkleProof \<Rightarrow> BranchNode" where
  "proof_root key leaf nodes =
     (case proof_up key MAX_TREE_LEVELS leaf nodes of Branch l r \<Rightarrow> (l, r) | n \<Rightarrow> (n, n))"

definition verify_merkle_proof :: "hash_fun \<Rightarrow> bytes \<Rightarrow> LeafNode \<Rightarrow> MerkleProof \<Rightarrow> Node \<Rightarrow> bool" where
  "verify_merkle_proof sha key leaf proof root =
     (let (l, r) = proof_root key (Leaf leaf) proof in is_equal_node sha (Branch l r) root)"

lemma proof_up_branch:
  "length siblings = i \<Longrightarrow> 0 < i \<Longrightarrow> \<exists>l r. proof_up key i cur siblings = Branch l r"
proof (induction i arbitrary: cur siblings)
  case (Suc i)
  then obtain sib sibs where s: "siblings = sib # sibs" "length sibs = i"
    by (cases siblings) auto
  show ?case
  proof (cases "i = 0")
    case False
    with Suc.IH s show ?thesis by (simp add: step_order_def split: if_splits) 
  qed (simp add: s step_order_def)
qed simp

lemma proof_root_branch:
  assumes "length proof = 256"
  shows "proof_up key 256 leaf proof = Branch (fst (proof_root key leaf proof)) (snd (proof_root key leaf proof))"
  using proof_up_branch [OF assms, of key leaf] by (auto simp: proof_root_def)

lemma verify_merkle_proof_iff:
  assumes "length proof = 256"
  shows "verify_merkle_proof sha key leaf proof root \<longleftrightarrow>
    node_hash sha (proof_up key 256 (Leaf leaf) proof) = node_hash sha root
    \<and> node_sum (proof_up key 256 (Leaf leaf) proof) = node_sum root"
  by (simp add: verify_merkle_proof_def is_equal_node_def proof_root_branch [OF assms]
      split: prod.splits)

section \<open>Binding\<close>

text \<open>The byte strings hashed while a proof is checked, from the leaf upwards.\<close>

fun up_preimages :: "hash_fun \<Rightarrow> bytes \<Rightarrow> nat \<Rightarrow> Node \<Rightarrow> Node list \<Rightarrow> bytes list" where
  "up_preimages sha key (Suc i) current (sibling # siblings) =
     (let (l, r) = step_order i key current sibling
      in branch_preimage (node_hash sha l) (node_hash sha r) (node_sum l + node_sum r)
         # up_preimages sha key i (Branch l r) siblings)"
| "up_preimages sha key i current siblings = []"

definition proof_preimages :: "hash_fun \<Rightarrow> bytes \<Rightarrow> LeafNode \<Rightarrow> MerkleProof \<Rightarrow> bytes list" where
  "proof_preimages sha key leaf proof =
     leaf_preimage leaf # up_preimages sha key 256 (Leaf leaf) proof"

definition collision :: "hash_fun \<Rightarrow> bytes list \<Rightarrow> bytes list \<Rightarrow> bool" where
  "collision sha xs ys \<longleftrightarrow> (\<exists>x \<in> set xs. \<exists>y \<in> set ys. x \<noteq> y \<and> sha x = sha y)"

definition wf_siblings :: "hash_fun \<Rightarrow> Node list \<Rightarrow> bool" where
  "wf_siblings sha nodes \<longleftrightarrow> (\<forall>n \<in> set nodes. length (node_hash sha n) = 32)"

lemma collision_Cons:
  "collision sha xs ys \<Longrightarrow> collision sha (x # xs) (y # ys)"
  by (auto simp: collision_def)

lemma collision_hd: "x \<noteq> y \<Longrightarrow> sha x = sha y \<Longrightarrow> collision sha (x # xs) (y # ys)"
  by (auto simp: collision_def)

lemma proof_up_binding:
  assumes "sha_32 sha" "wf_siblings sha s1" "wf_siblings sha s2"
    and "length (node_hash sha c1) = 32" "length (node_hash sha c2) = 32"
    and "length s1 = i" "length s2 = i"
    and "node_hash sha (proof_up key i c1 s1) = node_hash sha (proof_up key i c2 s2)"
  shows "node_hash sha c1 = node_hash sha c2
    \<or> collision sha (up_preimages sha key i c1 s1) (up_preimages sha key i c2 s2)"
  using assms
proof (induction i arbitrary: c1 c2 s1 s2)
  case (Suc i)
  obtain a as where s1: "s1 = a # as" using Suc.prems by (cases s1) auto
  obtain b bs where s2: "s2 = b # bs" using Suc.prems by (cases s2) auto
  obtain l1 r1 l2 r2 where so: "step_order i key c1 a = (l1, r1)" "step_order i key c2 b = (l2, r2)"
    by fastforce
  let ?x = "branch_preimage (node_hash sha l1) (node_hash sha r1) (node_sum l1 + node_sum r1)"
  let ?y = "branch_preimage (node_hash sha l2) (node_hash sha r2) (node_sum l2 + node_sum r2)"
  have lens: "length (node_hash sha l1) = 32" "length (node_hash sha r1) = 32"
    "length (node_hash sha l2) = 32" "length (node_hash sha r2) = 32"
    using Suc.prems s1 s2 so by (auto simp: wf_siblings_def step_order_def split: if_splits)
  have "node_hash sha (Branch l1 r1) = node_hash sha (Branch l2 r2)
    \<or> collision sha (up_preimages sha key i (Branch l1 r1) as) (up_preimages sha key i (Branch l2 r2) bs)"
    using Suc.prems s1 s2 so by (intro Suc.IH) (auto simp: wf_siblings_def)
  moreover have "node_hash sha c1 = node_hash sha c2 \<or> ?x \<noteq> ?y"
    using so lens by (auto simp: branch_preimage_inject step_order_def split: if_splits)
  ultimately show ?case
    using s1 s2 so by (auto intro: collision_hd collision_Cons)
qed simp

lemma collision_mono:
  "collision sha xs ys \<Longrightarrow> set xs \<subseteq> set xs' \<Longrightarrow> set ys \<subseteq> set ys' \<Longrightarrow> collision sha xs' ys'"
  by (auto simp: collision_def)

text \<open>Two leaves that lead to one root hash are equal or exhibit a collision.\<close>

lemma leaf_binding:
  assumes "sha_32 sha" "length p1 = 256" "length p2 = 256" "wf_siblings sha p1" "wf_siblings sha p2"
    and "node_hash sha (proof_up key 256 (Leaf l1) p1) = node_hash sha (proof_up key 256 (Leaf l2) p2)"
  shows "l1 = l2 \<or> collision sha (proof_preimages sha key l1 p1) (proof_preimages sha key l2 p2)"
proof -
  have "leaf_hash sha l1 = leaf_hash sha l2
    \<or> collision sha (up_preimages sha key 256 (Leaf l1) p1) (up_preimages sha key 256 (Leaf l2) p2)"
    using proof_up_binding [OF assms(1,4,5), of "Leaf l1" "Leaf l2" 256 key] assms by simp
  then show ?thesis
    unfolding proof_preimages_def leaf_hash_def
    by (metis collision_Cons collision_hd leaf_preimage_inject)
qed

section \<open>Sums along a proof\<close>

definition sums_of :: "Node list \<Rightarrow> nat" where
  "sums_of nodes = (\<Sum>n\<leftarrow>nodes. unat (node_sum n))"

lemma sums_of_simps [simp]: "sums_of [] = 0" "sums_of (n # ns) = unat (node_sum n) + sums_of ns"
  by (simp_all add: sums_of_def)

lemma proof_up_sum:
  assumes "length s = i" "unat (node_sum c) + sums_of s < 2 ^ 64"
  shows "unat (node_sum (proof_up key i c s))
    = unat (node_sum c) + sums_of s"
  using assms
proof (induction i arbitrary: c s)
  case (Suc i)
  then obtain a as where s: "s = a # as" by (cases s) auto
  have lt: "unat (node_sum c) + unat (node_sum a) < 2 ^ LENGTH(64)"
    using Suc.prems s by simp
  have e: "unat (node_sum c + node_sum a) = unat (node_sum c) + unat (node_sum a)"
    using unat_add_no_overflow [OF lt] .
  have "unat (node_sum (proof_up key i (Branch l r) as))
      = unat (node_sum c) + unat (node_sum a) + sums_of as"
    if "step_order i key c a = (l, r)" for l r
  proof -
    have "node_sum l + node_sum r = node_sum c + node_sum a"
      using that by (auto simp: step_order_def add.commute split: if_splits)
    then show ?thesis
      using Suc.IH [of as "Branch l r"] Suc.prems s e by simp
  qed
  with s show ?case by (simp split: prod.splits)
qed simp

section \<open>Compressed proofs\<close>

record CompressedProof =
  proof_bits :: "bool list"
  proof_nodes :: "ComputedNode list"

definition compress :: "hash_fun \<Rightarrow> MerkleProof \<Rightarrow> CompressedProof" where
  "compress sha nodes =
     (let tagged = zip [0..<length nodes] nodes;
          is_empty = (\<lambda>(i, node). is_equal_node sha node (empty_tree sha (MAX_TREE_LEVELS - i)))
      in \<lparr>proof_bits = map is_empty tagged,
          proof_nodes = map (\<lambda>(_, node). \<lparr>comp_hash = node_hash sha node, comp_sum = node_sum node\<rparr>)
            (filter (\<lambda>e. \<not> is_empty e) tagged)\<rparr>)"

text \<open>\<open>decompress_from sha i bits nodes\<close> is the loop from index \<open>i\<close>; \<open>nodes\<close> are those not used yet.\<close>

fun decompress_from ::
  "hash_fun \<Rightarrow> nat \<Rightarrow> bool list \<Rightarrow> ComputedNode list \<Rightarrow> (Node list, string) result" where
  "decompress_from sha i [] nodes =
     (if nodes = [] then Ok [] else Err ''compressed proof has unused nodes'')"
| "decompress_from sha i (b # bits) nodes =
     (if b then
        res_bind (decompress_from sha (i + 1) bits nodes) (\<lambda>ns.
          Ok (empty_tree sha (MAX_TREE_LEVELS - i) # ns))
      else case nodes of
        [] \<Rightarrow> Err ''compressed proof has too few nodes''
      | cn # rest \<Rightarrow>
          res_bind (decompress_from sha (i + 1) bits rest) (\<lambda>ns. Ok (Computed cn # ns)))"

definition decompress :: "hash_fun \<Rightarrow> CompressedProof \<Rightarrow> (MerkleProof, string) result" where
  "decompress sha c =
     res_bind (decompress_from sha 0 (proof_bits c) (proof_nodes c)) proof_new"

fun pack_bits_loop :: "nat list \<Rightarrow> bool list \<Rightarrow> bytes \<Rightarrow> bytes" where
  "pack_bits_loop [] bits packed = packed"
| "pack_bits_loop (i # is) bits packed =
     pack_bits_loop is bits
       (if bits ! i then packed[i div 8 := packed ! (i div 8) OR push_bit (i mod 8) 1] else packed)"

definition pack_bits :: "bool list \<Rightarrow> bytes" where
  "pack_bits bits = pack_bits_loop [0..<MAX_TREE_LEVELS] bits (zeros 32)"

definition unpack_bits :: "bytes \<Rightarrow> bool list" where
  "unpack_bits packed = map (\<lambda>i. bit (packed ! (i div 8)) (i mod 8)) [0..<MAX_TREE_LEVELS]"

definition encode_computed :: "ComputedNode \<Rightarrow> bytes" where
  "encode_computed n = comp_hash n @ u64_be (comp_sum n)"

definition compressed_encode :: "CompressedProof \<Rightarrow> bytes" where
  "compressed_encode c =
     u16_be (of_nat (length (proof_nodes c))) @ concat (map encode_computed (proof_nodes c))
     @ pack_bits (proof_bits c)"

fun decode_computed_nodes :: "nat \<Rightarrow> bytes \<Rightarrow> nat \<Rightarrow> ComputedNode list" where
  "decode_computed_nodes 0 data offset = []"
| "decode_computed_nodes (Suc n) data offset =
     \<lparr>comp_hash = take HASH_SIZE (drop offset data),
      comp_sum = be_u64 (take 8 (drop (offset + HASH_SIZE) data))\<rparr>
     # decode_computed_nodes n data (offset + HASH_SIZE + 8)"

definition compressed_decode :: "bytes \<Rightarrow> (CompressedProof, string) result" where
  "compressed_decode data =
     (if length data < 2 then Err ''compressed proof too short''
      else let num_nodes = unat (be_u16 [data ! 0, data ! 1]);
               expected_len = 2 + num_nodes * 40 + 32
           in if length data < expected_len then Err ''compressed proof too short''
              else Ok \<lparr>proof_bits = unpack_bits (take 32 (drop (2 + num_nodes * 40) data)),
                       proof_nodes = decode_computed_nodes num_nodes data 2\<rparr>)"

subsection \<open>Compression keeps every hash and sum\<close>

definition same_nodes :: "hash_fun \<Rightarrow> Node list \<Rightarrow> Node list \<Rightarrow> bool" where
  "same_nodes sha = list_all2 (is_equal_node sha)"

lemma decompress_from_compress:
  "\<exists>ns. decompress_from sha i
      (map (\<lambda>(i, n). is_equal_node sha n (empty_tree sha (256 - i))) (zip [i..<i + length p] p))
      (map (\<lambda>(_, n). \<lparr>comp_hash = node_hash sha n, comp_sum = node_sum n\<rparr>)
        (filter (\<lambda>e. \<not> (case e of (i, n) \<Rightarrow> is_equal_node sha n (empty_tree sha (256 - i))))
          (zip [i..<i + length p] p))) = Ok ns
    \<and> same_nodes sha p ns"
proof (induction p arbitrary: i)
  case Nil
  then show ?case by (simp add: same_nodes_def)
next
  case (Cons n p)
  have "[i..<i + length (n # p)] = i # [Suc i..<Suc i + length p]"
    by (simp add: upt_rec)
  with Cons.IH [of "Suc i"] show ?case
    by (auto simp: same_nodes_def is_equal_node_def)
qed

lemma decompress_compress:
  assumes "length p = 256"
  shows "\<exists>q. decompress sha (compress sha p) = Ok q \<and> same_nodes sha p q \<and> length q = 256"
proof -
  obtain ns where "decompress_from sha 0 (proof_bits (compress sha p)) (proof_nodes (compress sha p)) = Ok ns"
    and same: "same_nodes sha p ns"
    using decompress_from_compress [of sha 0 p] by (auto simp: compress_def Let_def)
  moreover have "length ns = 256"
    using same assms by (auto simp: same_nodes_def dest: list_all2_lengthD)
  ultimately show ?thesis by (simp add: decompress_def proof_new_def)
qed

lemma proof_up_same:
  assumes "same_nodes sha s t" "is_equal_node sha c d"
  shows "is_equal_node sha (proof_up key i c s) (proof_up key i d t)"
  using assms
proof (induction key i c s arbitrary: d t rule: proof_up.induct)
  case (1 key i c a as)
  then obtain b bs where t: "t = b # bs" "is_equal_node sha a b" "same_nodes sha as bs"
    by (auto simp: same_nodes_def list_all2_Cons1)
  obtain l r l' r' where so: "step_order i key c a = (l, r)" "step_order i key d b = (l', r')"
    by fastforce
  then have "is_equal_node sha (Branch l r) (Branch l' r')"
    using 1 t by (auto simp: step_order_def is_equal_node_def split: if_splits)
  with 1 t so show ?case by simp
qed (auto simp: same_nodes_def is_equal_node_def list_all2_Cons2)

subsection \<open>The byte form of a compressed proof\<close>

definition wf_compressed :: "CompressedProof \<Rightarrow> bool" where
  "wf_compressed c \<longleftrightarrow> length (proof_bits c) = 256 \<and> length (proof_nodes c) < 2 ^ 16
     \<and> (\<forall>n \<in> set (proof_nodes c). length (comp_hash n) = 32)"

lemma length_pack_bits_loop [simp]: "length (pack_bits_loop is bits packed) = length packed"
  by (induction "is" bits packed rule: pack_bits_loop.induct) simp_all

lemma length_pack_bits [simp]: "length (pack_bits bits) = 32"
  by (simp add: pack_bits_def)

lemma bit_pack_bits_loop:
  assumes "\<forall>i \<in> set is. i < 8 * length packed" "j < 8 * length packed"
  shows "bit (pack_bits_loop is bits packed ! (j div 8)) (j mod 8) \<longleftrightarrow>
    (j \<in> set is \<and> bits ! j) \<or> bit (packed ! (j div 8)) (j mod 8)"
  using assms
proof (induction "is" arbitrary: packed)
  case (Cons i "is")
  let ?p = "if bits ! i then packed[i div 8 := packed ! (i div 8) OR push_bit (i mod 8) 1] else packed"
  have "bit (?p ! (j div 8)) (j mod 8) \<longleftrightarrow> (i = j \<and> bits ! i) \<or> bit (packed ! (j div 8)) (j mod 8)"
  proof (cases "i div 8 = j div 8")
    case True
    have "bit (push_bit (i mod 8) 1 :: u8) (j mod 8) \<longleftrightarrow> i mod 8 = j mod 8"
      by (auto simp: bit_exp_iff)
    moreover have "i = j \<longleftrightarrow> i mod 8 = j mod 8"
      using True by (metis div_mult_mod_eq)
    ultimately show ?thesis
      using True Cons.prems by (auto simp: bit_or_iff)
  next
    case False
    then show ?thesis by auto
  qed
  moreover have "length ?p = length packed" by simp
  ultimately show ?case
    using Cons.IH [of ?p] Cons.prems by auto
qed simp

lemma unpack_pack_bits: "length bits = 256 \<Longrightarrow> unpack_bits (pack_bits bits) = bits"
proof (rule nth_equalityI)
  fix i assume l: "length bits = 256" and "i < length (unpack_bits (pack_bits bits))"
  then have i: "i < 256" by (simp add: unpack_bits_def)
  have "bit (zeros 32 ! (i div 8)) (i mod 8) = False"
    using i by (simp add: zeros_def)
  then show "unpack_bits (pack_bits bits) ! i = bits ! i"
    using i bit_pack_bits_loop [of "[0..<256]" "zeros 32" i bits]
    by (simp add: unpack_bits_def pack_bits_def)
qed (simp add: unpack_bits_def)

lemma decode_computed_nodes_encode:
  assumes "\<forall>n \<in> set ns. length (comp_hash n) = 32"
  shows "decode_computed_nodes (length ns) (pre @ concat (map encode_computed ns) @ rest) (length pre) = ns"
  using assms
proof (induction ns arbitrary: pre)
  case (Cons n ns)
  have "decode_computed_nodes (length ns) ((pre @ encode_computed n) @ concat (map encode_computed ns) @ rest)
      (length (pre @ encode_computed n)) = ns"
    using Cons by (intro Cons.IH) auto
  with Cons.prems show ?case
    by (simp add: encode_computed_def [of n] add.commute add.left_commute)
qed simp

lemma length_concat_encode_computed:
  "\<forall>n \<in> set ns. length (comp_hash n) = 32 \<Longrightarrow> length (concat (map encode_computed ns)) = length ns * 40"
  by (induction ns) (simp_all add: encode_computed_def)

lemma compressed_decode_encode:
  assumes "wf_compressed c"
  shows "compressed_decode (compressed_encode c @ rest) = Ok c"
proof -
  let ?n = "length (proof_nodes c)"
  let ?data = "u16_be (of_nat ?n) @ concat (map encode_computed (proof_nodes c)) @ pack_bits (proof_bits c) @ rest"
  have nodes: "\<forall>n \<in> set (proof_nodes c). length (comp_hash n) = 32" and n: "?n < 2 ^ 16"
    using assms by (simp_all add: wf_compressed_def)
  have "[?data ! 0, ?data ! 1] = u16_be (of_nat ?n)"
    by (simp add: nth_append u16_be_def numeral_2_eq_2)
  then have num: "unat (be_u16 [?data ! 0, ?data ! 1]) = ?n"
    using n by (simp add: unat_of_nat)
  have len: "length (concat (map encode_computed (proof_nodes c))) = ?n * 40"
    by (rule length_concat_encode_computed [OF nodes])
  have "drop (2 + ?n * 40) ?data = pack_bits (proof_bits c) @ rest"
    using len by simp
  moreover have "decode_computed_nodes ?n ?data 2 = proof_nodes c"
    using decode_computed_nodes_encode [OF nodes, of "u16_be (of_nat ?n)"] by simp
  moreover have "unpack_bits (pack_bits (proof_bits c)) = proof_bits c"
    using assms by (intro unpack_pack_bits) (simp add: wf_compressed_def)
  ultimately show ?thesis
    using num len by (simp add: compressed_decode_def compressed_encode_def Let_def)
qed

lemma wf_compress:
  assumes "length p = 256" "wf_siblings sha p"
  shows "wf_compressed (compress sha p)"
proof -
  let ?z = "zip [0..<length p] p"
  have "length (filter P ?z) < 2 ^ 16" for P
    using length_filter_le [of P ?z] assms(1) by simp
  then show ?thesis
    using assms by (auto simp: wf_compressed_def compress_def Let_def wf_siblings_def
        dest!: set_zip_rightD)
qed

section \<open>Properties\<close>

lemma node_sum_proof_up_zero:
  assumes "\<forall>n \<in> set s. node_sum n = 0" "length s = i"
  shows "node_sum (proof_up key i c s) = node_sum c"
  using assms
proof (induction i arbitrary: c s)
  case (Suc i)
  then obtain a as where "s = a # as" by (cases s) auto
  with Suc show ?case by (auto simp: step_order_def)
qed simp

lemma verify_constant_hash:
  assumes "length proof = 256" "\<forall>n \<in> set proof. node_sum n = 0"
  shows "verify_merkle_proof (\<lambda>_. zeros 32) key leaf proof (computed (zeros 32) (leaf_sum leaf))"
  using proof_up_branch [OF assms(1), of key "Leaf leaf"] node_sum_proof_up_zero [OF assms(2,1)]
  by (auto simp: verify_merkle_proof_iff assms)

text \<open>Every root sum can be reached, by a sibling that makes up the difference modulo 2^64.\<close>

lemma any_root_sum:
  "\<exists>proof hash. length proof = 256 \<and> (\<forall>n \<in> set proof. length (node_hash sha n) = 32)
     \<and> verify_merkle_proof sha key leaf proof (computed hash target_sum)"
proof -
  define pf where
    "pf = computed (zeros 32) (target_sum - leaf_sum leaf) # replicate 255 (computed (zeros 32) 0)"
  have len: "length pf = 256" by (simp add: pf_def)
  obtain l r where lr: "step_order 255 key (Leaf leaf) (computed (zeros 32) (target_sum - leaf_sum leaf)) = (l, r)"
    by fastforce
  then have "node_sum (Branch l r) = target_sum"
    by (auto simp: step_order_def split: if_splits)
  moreover have "proof_up key 256 (Leaf leaf) pf
      = proof_up key 255 (Branch l r) (replicate 255 (computed (zeros 32) 0))"
    using lr by (simp add: pf_def numeral_eq_Suc)
  ultimately have "node_sum (proof_up key 256 (Leaf leaf) pf) = target_sum"
    using node_sum_proof_up_zero [of "replicate 255 (computed (zeros 32) 0)" 255 key "Branch l r"] by simp
  then have "verify_merkle_proof sha key leaf pf
      (computed (node_hash sha (proof_up key 256 (Leaf leaf) pf)) target_sum)"
    using len by (simp add: verify_merkle_proof_iff)
  then show ?thesis
    using len by (intro exI [of _ pf]) (auto simp: pf_def)
qed

text \<open>C25: a Merkle proof binds. If two leaves are accepted for the same key under the same root (by
  any two proofs with 32-byte sibling hashes), then they are the same leaf, value and sum, or
  two different byte strings hashed by the two checks have the same SHA-256 digest. In particular
  a key cannot be proven included and excluded without breaking the hash.\<close>

theorem merkle_proof_binding:
  assumes "sha_32 sha" "length p1 = 256" "length p2 = 256" "wf_siblings sha p1" "wf_siblings sha p2"
    and "verify_merkle_proof sha key l1 p1 root" "verify_merkle_proof sha key l2 p2 root"
  shows "l1 = l2 \<or> collision sha (proof_preimages sha key l1 p1) (proof_preimages sha key l2 p2)"
  using assms by (intro leaf_binding) (simp_all add: verify_merkle_proof_iff)

theorem merkle_proof_binding_witness:
  "collision (\<lambda>_. zeros 32)
     (proof_preimages (\<lambda>_. zeros 32) (zeros 32) (leaf_new [1] 5) (replicate 256 (computed (zeros 32) 0)))
     (proof_preimages (\<lambda>_. zeros 32) (zeros 32) (leaf_new [2] 5) (replicate 256 (computed (zeros 32) 0)))"
proof -
  let ?p = "replicate 256 (computed (zeros 32) 0)"
  have v: "verify_merkle_proof (\<lambda>_. zeros 32) (zeros 32) (leaf_new b 5) ?p (computed (zeros 32) 5)" for b
    using verify_constant_hash [of ?p "zeros 32" "leaf_new b 5"] by (simp add: leaf_new_def)
  have "leaf_new [1] 5 = leaf_new [2] 5 \<or> collision (\<lambda>_. zeros 32)
     (proof_preimages (\<lambda>_. zeros 32) (zeros 32) (leaf_new [1] 5) ?p)
     (proof_preimages (\<lambda>_. zeros 32) (zeros 32) (leaf_new [2] 5) ?p)"
    by (rule merkle_proof_binding [OF _ _ _ _ _ v v]) (simp_all add: sha_32_def wf_siblings_def)
  then show ?thesis by (simp add: leaf_new_def)
qed

text \<open>As long as the exact sum of the leaf and its siblings fits 64 bits, the root a proof computes
  carries exactly that sum; in particular the leaf's sum never exceeds the root's.\<close>

theorem merkle_proof_sum:
  assumes "length proof = 256" "unat (leaf_sum leaf) + sums_of proof < 2 ^ 64"
    and "verify_merkle_proof sha key leaf proof root"
  shows "unat (node_sum root) = unat (leaf_sum leaf) + sums_of proof"
  using proof_up_sum [OF assms(1), of "Leaf leaf" key] assms
  by (simp add: verify_merkle_proof_iff)

theorem merkle_proof_sum_witness:
  "unat (node_sum (computed (zeros 32) 5)) =
     unat (leaf_sum (leaf_new [1] 5)) + sums_of (replicate 256 (computed (zeros 32) 0))"
proof -
  have "sums_of (replicate n (computed (zeros 32) 0)) = 0" for n
    by (induction n) simp_all
  then show ?thesis
    using verify_constant_hash [of "replicate 256 (computed (zeros 32) 0)" "zeros 32" "leaf_new [1] 5"]
    by (intro merkle_proof_sum [where sha = "\<lambda>_. zeros 32" and key = "zeros 32"])
      (simp_all add: leaf_new_def)
qed

text \<open>The check itself does not establish that bound. The sums along a proof are added modulo 2^64,
  and nothing rejects a wrap: whatever the hash function, the key and the leaf, there is a proof
  of 256 well-formed siblings and a root with any chosen sum under which the leaf verifies. So a
  leaf of a huge amount can be proven into a tree whose root sum is small.\<close>

theorem merkle_proof_sum_wraps:
  "\<exists>proof hash. length proof = 256 \<and> (\<forall>n \<in> set proof. length (node_hash sha n) = 32)
     \<and> verify_merkle_proof sha key leaf proof (computed hash target_sum)"
  by (rule any_root_sum)

theorem merkle_proof_sum_wraps_witness:
  "\<exists>proof hash. length proof = 256
     \<and> verify_merkle_proof (\<lambda>_. zeros 32) (zeros 32) (leaf_new [1] 1000000) proof (computed hash 5)"
  using merkle_proof_sum_wraps by blast

text \<open>Compression, the wire form and decompression keep a proof. A proof sent as the bytes of its
  compressed form (possibly followed by more bytes) is decoded and decompressed to a proof that
  has the same hash and sum at every level, and so gives the same root for every key and leaf.\<close>

theorem compressed_proof_roundtrip:
  assumes "length p = 256" "\<forall>n \<in> set p. length (node_hash sha n) = 32"
  shows "\<exists>q. res_bind (compressed_decode (compressed_encode (compress sha p) @ rest)) (decompress sha) = Ok q
    \<and> list_all2 (is_equal_node sha) p q
    \<and> (\<forall>key leaf root. verify_merkle_proof sha key leaf q root = verify_merkle_proof sha key leaf p root)"
proof -
  have "wf_siblings sha p" using assms(2) by (simp add: wf_siblings_def)
  then have dec: "compressed_decode (compressed_encode (compress sha p) @ rest) = Ok (compress sha p)"
    using assms(1) by (intro compressed_decode_encode wf_compress)
  obtain q where q: "decompress sha (compress sha p) = Ok q" "same_nodes sha p q" "length q = 256"
    using decompress_compress [OF assms(1)] by blast
  have "verify_merkle_proof sha key leaf q root = verify_merkle_proof sha key leaf p root"
    for key leaf root
    using proof_up_same [OF q(2), of "Leaf leaf" "Leaf leaf" key 256] q(3) assms(1)
    by (simp add: verify_merkle_proof_iff is_equal_node_def)
  with dec q show ?thesis by (auto simp: same_nodes_def)
qed

theorem compressed_proof_roundtrip_witness:
  "\<exists>q. res_bind (compressed_decode (compressed_encode (compress (\<lambda>_. zeros 32)
          (replicate 256 (computed (zeros 32) 3))) @ [7])) (decompress (\<lambda>_. zeros 32)) = Ok q
    \<and> list_all2 (is_equal_node (\<lambda>_. zeros 32)) (replicate 256 (computed (zeros 32) 3)) q"
  using compressed_proof_roundtrip [of "replicate 256 (computed (zeros 32) 3)" "\<lambda>_. zeros 32" "[7]"]
  by auto

end
