(* ===== verification/Asset.thy ===== *)
theory Asset
  imports Tlv Mssmt_Proof
begin

text \<open>
  The asset data model and its wire encoding: \<^verbatim>\<open>tap-primitives/src/asset/\<close>
  (\<^verbatim>\<open>types.rs\<close>, \<^verbatim>\<open>witness.rs\<close>, \<^verbatim>\<open>genesis.rs\<close>,
  \<^verbatim>\<open>script_key.rs\<close>, \<^verbatim>\<open>mod.rs\<close>) and the encoders of
  \<^verbatim>\<open>tap-primitives/src/encoding/asset.rs\<close>. Byte arrays are byte lists whose lengths are stated in
  \<open>wf_genesis\<close> and similar predicates; a tag is its UTF-8 bytes. Keys are never interpreted as curve points here.
\<close>

section \<open>Types\<close>

type_synonym AssetId = bytes
type_synonym SerializedKey = bytes

datatype AssetVersion = AssetV0 | AssetV1 | UnknownVersion u8
datatype AssetType = Normal | Collectible | UnknownType u8
datatype EncodeType = EncodeNormal | EncodeSegwit

datatype AssetError =
    ErrUnknownVersion u8
  | ErrUnknownType u8
  | ErrUnknownScriptVersion u16
  | ErrUnknownGroupKeyVersion u8
  | TagTooLong nat
  | ErrInvalidKey string
  | EncodingError string
  | InvalidAltLeaf string
  | DuplicateAltLeafKey bytes

definition asset_version_from_u8 :: "u8 \<Rightarrow> AssetVersion" where
  "asset_version_from_u8 v = (if v = 0 then AssetV0 else if v = 1 then AssetV1 else UnknownVersion v)"

fun asset_version_to_u8 :: "AssetVersion \<Rightarrow> u8" where
  "asset_version_to_u8 AssetV0 = 0"
| "asset_version_to_u8 AssetV1 = 1"
| "asset_version_to_u8 (UnknownVersion v) = v"

definition asset_type_from_u8 :: "u8 \<Rightarrow> AssetType" where
  "asset_type_from_u8 v = (if v = 0 then Normal else if v = 1 then Collectible else UnknownType v)"

fun asset_type_to_u8 :: "AssetType \<Rightarrow> u8" where
  "asset_type_to_u8 Normal = 0"
| "asset_type_to_u8 Collectible = 1"
| "asset_type_to_u8 (UnknownType v) = v"

text \<open>The documented invariant of the open enums: \<open>Unknown\<close> never holds 0 or 1.\<close>

definition wf_asset_type :: "AssetType \<Rightarrow> bool" where
  "wf_asset_type t \<longleftrightarrow> asset_type_from_u8 (asset_type_to_u8 t) = t"

definition schnorr_bytes :: "SerializedKey \<Rightarrow> bytes" where
  "schnorr_bytes key = drop 1 key"

definition MAX_ASSET_NAME_LENGTH :: nat where "MAX_ASSET_NAME_LENGTH = 64"

definition NUMS_KEY :: SerializedKey where
  "NUMS_KEY =
     [0x02, 0x7c, 0x79, 0xb9, 0xb2, 0x6e, 0x46, 0x38, 0x95, 0xee, 0xf5, 0x67,
      0x9d, 0x85, 0x58, 0x94, 0x2c, 0x86, 0xc4, 0xad, 0x22, 0x33, 0xad, 0xef,
      0x01, 0xbc, 0x3e, 0x6d, 0x54, 0x0b, 0x36, 0x53, 0xfe]"

record OutPoint =
  op_txid :: bytes
  op_vout :: u32

record PrevId =
  prev_out_point :: OutPoint
  prev_asset_id :: AssetId
  prev_script_key :: SerializedKey

definition PREV_ID_ZERO :: PrevId where
  "PREV_ID_ZERO = \<lparr>prev_out_point = \<lparr>op_txid = zeros 32, op_vout = 0\<rparr>,
     prev_asset_id = zeros 32, prev_script_key = zeros 33\<rparr>"

definition prev_id_preimage :: "PrevId \<Rightarrow> bytes" where
  "prev_id_preimage p = op_txid (prev_out_point p) @ u32_le (op_vout (prev_out_point p))
     @ prev_asset_id p @ schnorr_bytes (prev_script_key p)"

definition prev_id_hash :: "hash_fun \<Rightarrow> PrevId \<Rightarrow> bytes" where
  "prev_id_hash sha p = sha (prev_id_preimage p)"

definition prev_id_is_zero :: "PrevId \<Rightarrow> bool" where
  "prev_id_is_zero p \<longleftrightarrow> p = PREV_ID_ZERO"

record SplitCommitmentWitness =
  sc_proof :: MerkleProof
  sc_root_asset :: bytes

record Witness =
  w_prev_id :: "PrevId option"
  tx_witness :: "bytes list"
  split_commitment :: "SplitCommitmentWitness option"

definition witness_zero_prev :: "Witness \<Rightarrow> bool" where
  "witness_zero_prev w \<longleftrightarrow> (case w_prev_id w of Some p \<Rightarrow> prev_id_is_zero p | None \<Rightarrow> False)"

definition is_genesis :: "Witness \<Rightarrow> bool" where
  "is_genesis w \<longleftrightarrow> witness_zero_prev w \<and> tx_witness w = [] \<and> split_commitment w = None"

definition is_genesis_for_group :: "Witness \<Rightarrow> bool" where
  "is_genesis_for_group w \<longleftrightarrow> witness_zero_prev w \<and> tx_witness w \<noteq> [] \<and> split_commitment w = None"

definition is_split_commitment :: "Witness \<Rightarrow> bool" where
  "is_split_commitment w \<longleftrightarrow> split_commitment w \<noteq> None"

section \<open>Genesis\<close>

record Genesis =
  first_prev_out :: OutPoint
  tag :: bytes
  meta_hash :: bytes
  g_output_index :: u32
  g_asset_type :: AssetType

definition tag_hash :: "hash_fun \<Rightarrow> Genesis \<Rightarrow> bytes" where
  "tag_hash sha g = sha (tag g)"

definition genesis_preimage :: "hash_fun \<Rightarrow> Genesis \<Rightarrow> bytes" where
  "genesis_preimage sha g = op_txid (first_prev_out g) @ u32_le (op_vout (first_prev_out g))
     @ tag_hash sha g @ meta_hash g @ u32_be (g_output_index g) @ [asset_type_to_u8 (g_asset_type g)]"

definition genesis_id :: "hash_fun \<Rightarrow> Genesis \<Rightarrow> AssetId" where
  "genesis_id sha g = sha (genesis_preimage sha g)"

definition genesis_empty :: Genesis where
  "genesis_empty = \<lparr>first_prev_out = \<lparr>op_txid = zeros 32, op_vout = 0\<rparr>, tag = [], meta_hash = zeros 32,
     g_output_index = 0, g_asset_type = Normal\<rparr>"

definition genesis_is_empty :: "Genesis \<Rightarrow> bool" where
  "genesis_is_empty g \<longleftrightarrow> g = genesis_empty"

definition genesis_validate :: "Genesis \<Rightarrow> (unit, AssetError) result" where
  "genesis_validate g =
     (if MAX_ASSET_NAME_LENGTH < length (tag g) then Err (TagTooLong (length (tag g))) else Ok ())"

definition wf_genesis :: "Genesis \<Rightarrow> bool" where
  "wf_genesis g \<longleftrightarrow> length (op_txid (first_prev_out g)) = 32 \<and> length (meta_hash g) = 32
     \<and> wf_asset_type (g_asset_type g)"

section \<open>Assets\<close>

datatype ScriptKeyType =
    KeyUnknown | Bip86 | ScriptPathExternal | Burn | Tombstone | ScriptPathChannel | UniquePedersen

record TweakedScriptKey =
  tsk_raw_key :: SerializedKey
  tsk_tweak :: bytes
  tsk_key_type :: ScriptKeyType

record ScriptKey =
  sk_pub_key :: SerializedKey
  sk_tweaked :: "TweakedScriptKey option"

definition script_key_from_pub_key :: "SerializedKey \<Rightarrow> ScriptKey" where
  "script_key_from_pub_key k = \<lparr>sk_pub_key = k, sk_tweaked = None\<rparr>"

definition is_nums :: "ScriptKey \<Rightarrow> bool" where
  "is_nums k \<longleftrightarrow> sk_pub_key k = NUMS_KEY"

record GroupKey =
  gk_version :: u8
  gk_raw_key :: SerializedKey
  group_pub_key :: SerializedKey
  gk_tapscript_root :: bytes
  gk_witness :: "bytes list"

record Asset =
  a_version :: AssetVersion
  genesis :: Genesis
  amount :: u64
  a_lock_time :: u64
  relative_lock_time :: u64
  prev_witnesses :: "Witness list"
  split_commitment_root :: "(NodeHash \<times> u64) option"
  script_version :: u16
  script_key :: ScriptKey
  group_key :: "GroupKey option"
  unknown_odd_types :: "(u64 \<times> bytes) list"

definition asset_id :: "hash_fun \<Rightarrow> Asset \<Rightarrow> AssetId" where
  "asset_id sha a = genesis_id sha (genesis a)"

definition has_genesis_witness :: "Asset \<Rightarrow> bool" where
  "has_genesis_witness a \<longleftrightarrow> length (prev_witnesses a) = 1 \<and> is_genesis (prev_witnesses a ! 0)"

definition has_genesis_witness_for_group :: "Asset \<Rightarrow> bool" where
  "has_genesis_witness_for_group a \<longleftrightarrow> length (prev_witnesses a) = 1
     \<and> is_genesis_for_group (prev_witnesses a ! 0) \<and> group_key a \<noteq> None"

definition is_genesis_asset :: "Asset \<Rightarrow> bool" where
  "is_genesis_asset a \<longleftrightarrow> has_genesis_witness a \<or> has_genesis_witness_for_group a"

definition needs_genesis_witness_for_group :: "Asset \<Rightarrow> bool" where
  "needs_genesis_witness_for_group a \<longleftrightarrow> has_genesis_witness a \<and> group_key a \<noteq> None"

definition has_split_commitment_witness :: "Asset \<Rightarrow> bool" where
  "has_split_commitment_witness a \<longleftrightarrow> length (prev_witnesses a) = 1
     \<and> is_split_commitment (prev_witnesses a ! 0)"

definition is_transfer_root :: "Asset \<Rightarrow> bool" where
  "is_transfer_root a \<longleftrightarrow> \<not> is_genesis_asset a \<and> \<not> has_split_commitment_witness a"

definition is_unspendable :: "Asset \<Rightarrow> bool" where
  "is_unspendable a \<longleftrightarrow> is_nums (script_key a) \<and> amount a = 0"

definition is_tombstone :: "Asset \<Rightarrow> bool" where
  "is_tombstone a \<longleftrightarrow> amount a = 0 \<and> is_nums (script_key a)"

definition primary_prev_id :: "Asset \<Rightarrow> PrevId option" where
  "primary_prev_id a = (case prev_witnesses a of w # _ \<Rightarrow> w_prev_id w | [] \<Rightarrow> None)"

definition new_genesis :: "Genesis \<Rightarrow> u64 \<Rightarrow> ScriptKey \<Rightarrow> Asset" where
  "new_genesis g amt key =
     \<lparr>a_version = AssetV0, genesis = g, amount = amt, a_lock_time = 0, relative_lock_time = 0,
      prev_witnesses = [\<lparr>w_prev_id = Some PREV_ID_ZERO, tx_witness = [], split_commitment = None\<rparr>],
      split_commitment_root = None, script_version = 0, script_key = key, group_key = None,
      unknown_odd_types = []\<rparr>"

definition new_alt_leaf :: "ScriptKey \<Rightarrow> u16 \<Rightarrow> Asset" where
  "new_alt_leaf key ver =
     \<lparr>a_version = AssetV0, genesis = genesis_empty, amount = 0, a_lock_time = 0, relative_lock_time = 0,
      prev_witnesses = [], split_commitment_root = None, script_version = ver, script_key = key,
      group_key = None, unknown_odd_types = []\<rparr>"

definition asset_commitment_key :: "hash_fun \<Rightarrow> Asset \<Rightarrow> bytes" where
  "asset_commitment_key sha a =
     sha ((if group_key a \<noteq> None then asset_id sha a else []) @ schnorr_bytes (sk_pub_key (script_key a)))"

definition validate_alt_leaf :: "Asset \<Rightarrow> (unit, AssetError) result" where
  "validate_alt_leaf a =
     (if a_version a \<noteq> AssetV0 then Err (InvalidAltLeaf ''alt leaf version must be 0'')
      else if \<not> genesis_is_empty (genesis a) then
        Err (InvalidAltLeaf ''alt leaf genesis must be the empty genesis'')
      else if amount a \<noteq> 0 then Err (InvalidAltLeaf ''alt leaf amount must be 0'')
      else if a_lock_time a \<noteq> 0 then Err (InvalidAltLeaf ''alt leaf lock time must be 0'')
      else if relative_lock_time a \<noteq> 0 then
        Err (InvalidAltLeaf ''alt leaf relative lock time must be 0'')
      else if split_commitment_root a \<noteq> None then
        Err (InvalidAltLeaf ''alt leaf split commitment root must be empty'')
      else if group_key a \<noteq> None then Err (InvalidAltLeaf ''alt leaf group key must be empty'')
      else Ok ())"

definition is_alt_leaf :: "Asset \<Rightarrow> bool" where
  "is_alt_leaf a \<longleftrightarrow> group_key a = None \<and> genesis_is_empty (genesis a)"

definition copy_spend_template :: "Asset \<Rightarrow> Asset" where
  "copy_spend_template a = a\<lparr>split_commitment_root := None, relative_lock_time := 0, a_lock_time := 0\<rparr>"

text \<open>The set of keys seen so far is a list; inserting a key that is present fails.\<close>

fun add_leaf_keys_verify_unique ::
  "hash_fun \<Rightarrow> bytes list \<Rightarrow> Asset list \<Rightarrow> (bytes list, AssetError) result" where
  "add_leaf_keys_verify_unique sha keys [] = Ok keys"
| "add_leaf_keys_verify_unique sha keys (alt # alts) =
     res_bind (validate_alt_leaf alt) (\<lambda>_.
       let k = asset_commitment_key sha alt in
       if k \<in> set keys then Err (DuplicateAltLeafKey k)
       else add_leaf_keys_verify_unique sha (k # keys) alts)"

definition valid_alt_leaves :: "hash_fun \<Rightarrow> Asset list \<Rightarrow> (unit, AssetError) result" where
  "valid_alt_leaves sha alts = res_bind (add_leaf_keys_verify_unique sha [] alts) (\<lambda>_. Ok ())"

section \<open>Wire encoding\<close>

definition encode_genesis :: "Genesis \<Rightarrow> bytes" where
  "encode_genesis g = op_txid (first_prev_out g) @ u32_be (op_vout (first_prev_out g))
     @ encode_var_bytes (tag g) @ meta_hash g @ u32_be (g_output_index g)
     @ [asset_type_to_u8 (g_asset_type g)]"

definition encode_tx_witness :: "bytes list \<Rightarrow> bytes" where
  "encode_tx_witness w = encode_bigsize (of_nat (length w)) @ concat (map encode_var_bytes w)"

definition encode_prev_id :: "PrevId \<Rightarrow> bytes" where
  "encode_prev_id p = op_txid (prev_out_point p) @ u32_be (op_vout (prev_out_point p))
     @ prev_asset_id p @ prev_script_key p"

definition encode_split_commitment :: "hash_fun \<Rightarrow> SplitCommitmentWitness \<Rightarrow> bytes" where
  "encode_split_commitment sha s =
     encode_var_bytes (compressed_encode (compress sha (sc_proof s))) @ encode_var_bytes (sc_root_asset s)"

definition encode_witness :: "hash_fun \<Rightarrow> Witness \<Rightarrow> EncodeType \<Rightarrow> bytes" where
  "encode_witness sha w enc =
     (let s = push_opt [] 1 (map_option encode_prev_id (w_prev_id w));
          s = tlv_push_if s (tlv_bytes 3 (encode_tx_witness (tx_witness w)))
                (tx_witness w \<noteq> [] \<and> enc = EncodeNormal);
          s = push_opt s 5 (map_option (encode_split_commitment sha) (split_commitment w))
      in tlv_encode s)"

definition encode_prev_witnesses :: "hash_fun \<Rightarrow> Witness list \<Rightarrow> EncodeType \<Rightarrow> bytes" where
  "encode_prev_witnesses sha ws enc =
     encode_bigsize (of_nat (length ws))
     @ concat (map (\<lambda>w. encode_var_bytes (encode_witness sha w enc)) ws)"

definition encode_asset :: "hash_fun \<Rightarrow> Asset \<Rightarrow> EncodeType \<Rightarrow> bytes" where
  "encode_asset sha a enc =
     (let s = tlv_push [] (tlv_u8 0 (asset_version_to_u8 (a_version a)));
          s = tlv_push s (tlv_bytes 2 (encode_genesis (genesis a)));
          s = tlv_push s (tlv_u8 4 (asset_type_to_u8 (g_asset_type (genesis a))));
          s = tlv_push s (tlv_varint 6 (amount a));
          s = tlv_push_if s (tlv_varint 7 (a_lock_time a)) (0 < a_lock_time a);
          s = tlv_push_if s (tlv_varint 9 (relative_lock_time a)) (0 < relative_lock_time a);
          s = tlv_push_if s (tlv_bytes 11 (encode_prev_witnesses sha (prev_witnesses a) enc))
                (prev_witnesses a \<noteq> []);
          s = push_opt s 13 (map_option (\<lambda>(h, sum). h @ u64_be sum) (split_commitment_root a));
          s = tlv_push s (tlv_u16 14 (script_version a));
          s = tlv_push s (tlv_bytes 16 (sk_pub_key (script_key a)));
          s = push_opt s 17 (map_option group_pub_key (group_key a));
          s = foldl (\<lambda>s (t, v). tlv_push s (tlv_bytes t v)) s (unknown_odd_types a)
      in tlv_encode s)"

definition encode_asset_leaf :: "hash_fun \<Rightarrow> Asset \<Rightarrow> (bytes, AssetError) result" where
  "encode_asset_leaf sha a =
     (case a_version a of
        AssetV0 \<Rightarrow> Ok (encode_asset sha a EncodeNormal)
      | AssetV1 \<Rightarrow> Ok (encode_asset sha a EncodeSegwit)
      | UnknownVersion v \<Rightarrow> Err (ErrUnknownVersion v))"

definition asset_to_leaf :: "hash_fun \<Rightarrow> Asset \<Rightarrow> (LeafNode, AssetError) result" where
  "asset_to_leaf sha a =
     res_bind (encode_asset_leaf sha a) (\<lambda>encoded. Ok (leaf_new encoded (amount a)))"

definition encode_alt_leaf :: "hash_fun \<Rightarrow> Asset \<Rightarrow> bytes" where
  "encode_alt_leaf sha a =
     (let s = tlv_push_if [] (tlv_bytes 11 (encode_prev_witnesses sha (prev_witnesses a) EncodeNormal))
                (prev_witnesses a \<noteq> []);
          s = tlv_push s (tlv_u16 14 (script_version a));
          s = tlv_push s (tlv_bytes 16 (sk_pub_key (script_key a)));
          s = foldl (\<lambda>s (t, v). tlv_push s (tlv_bytes t v)) s (unknown_odd_types a)
      in tlv_encode s)"

section \<open>Lemmas\<close>

lemma asset_type_to_u8_inject:
  "wf_asset_type s \<Longrightarrow> wf_asset_type t \<Longrightarrow> asset_type_to_u8 s = asset_type_to_u8 t \<longleftrightarrow> s = t"
  by (metis wf_asset_type_def)

lemma genesis_preimage_inject:
  assumes "sha_32 sha" "wf_genesis g" "wf_genesis h" "genesis_preimage sha g = genesis_preimage sha h"
  shows "first_prev_out g = first_prev_out h \<and> tag_hash sha g = tag_hash sha h \<and> meta_hash g = meta_hash h
    \<and> g_output_index g = g_output_index h \<and> g_asset_type g = g_asset_type h"
proof -
  have "op_txid (first_prev_out g) = op_txid (first_prev_out h)"
    "op_vout (first_prev_out g) = op_vout (first_prev_out h)"
    "tag_hash sha g = tag_hash sha h" "meta_hash g = meta_hash h"
    "g_output_index g = g_output_index h"
    "asset_type_to_u8 (g_asset_type g) = asset_type_to_u8 (g_asset_type h)"
    using assms unfolding genesis_preimage_def wf_genesis_def tag_hash_def
    by (simp_all add: append_eq_append_conv_length)
  then show ?thesis
    using assms(2,3) asset_type_to_u8_inject unfolding wf_genesis_def by auto
qed

lemma foldl_push: "foldl (\<lambda>s (t, v). tlv_push s (tlv_bytes t v)) s xs = s @ map (\<lambda>(t, v). tlv_bytes t v) xs"
  by (induction xs arbitrary: s) (auto simp: tlv_push_def)

text \<open>The genesis record makes every asset encoding longer than the 64 bytes that could be mistaken for the
  children of a branch.\<close>

lemma pushed_stays:
  "r \<in> set s \<Longrightarrow> r \<in> set (tlv_push s q)" "r \<in> set (tlv_push s r)"
  "r \<in> set s \<Longrightarrow> r \<in> set (tlv_push_if s q c)" "r \<in> set s \<Longrightarrow> r \<in> set (push_opt s t v)"
  "r \<in> set s \<Longrightarrow> r \<in> set (foldl (\<lambda>s (t, v). tlv_push s (tlv_bytes t v)) s xs)"
  unfolding foldl_push by (simp_all add: tlv_push_def tlv_push_if_def push_opt_def split: option.splits)

lemma length_encode_asset:
  assumes "length (op_txid (first_prev_out (genesis a))) = 32" "length (meta_hash (genesis a)) = 32"
  shows "64 < length (encode_asset sha a enc)"
proof -
  have "length (tlv_value (tlv_bytes 2 (encode_genesis (genesis a)))) \<le> length (encode_asset sha a enc)"
    unfolding encode_asset_def Let_def by (rule length_value_le) (intro pushed_stays)
  moreover have "73 \<le> length (encode_genesis (genesis a))"
    using assms by (simp add: encode_genesis_def)
  ultimately show ?thesis by (simp add: tlv_record_defs)
qed

lemma asset_leaf_sized:
  assumes "wf_genesis (genesis a)" "asset_to_leaf sha a = Ok l"
  shows "64 < length (leaf_value l)"
  using assms length_encode_asset [of a sha]
  by (auto simp: asset_to_leaf_def encode_asset_leaf_def leaf_new_def wf_genesis_def res_simps
      split: AssetVersion.splits)

lemma add_leaf_keys_Ok_iff:
  "(\<exists>ks. add_leaf_keys_verify_unique sha keys alts = Ok ks) \<longleftrightarrow>
     (\<forall>a \<in> set alts. validate_alt_leaf a = Ok ()) \<and> distinct (map (asset_commitment_key sha) alts)
     \<and> set (map (asset_commitment_key sha) alts) \<inter> set keys = {}"
proof (induction alts arbitrary: keys)
  case (Cons a alts)
  then show ?case by (cases "validate_alt_leaf a") (auto simp: Let_def)
qed simp

section \<open>Properties\<close>

text \<open>An asset ID commits to the whole genesis. Two well-formed geneses (fixed-length hashes) with the same ID
  are equal in every field, tag included, or they exhibit two different inputs with the same SHA-256 hash.\<close>

theorem genesis_id_binding:
  assumes "sha_32 sha" "wf_genesis g" "wf_genesis h" "genesis_id sha g = genesis_id sha h"
  shows "g = h \<or> collision sha [genesis_preimage sha g, tag g] [genesis_preimage sha h, tag h]"
proof (cases "genesis_preimage sha g = genesis_preimage sha h \<and> tag g = tag h")
  case True
  then show ?thesis using genesis_preimage_inject [OF assms(1-3)] by (cases g; cases h) auto
next
  case False
  show ?thesis
  proof (cases "genesis_preimage sha g = genesis_preimage sha h")
    case True
    then have "tag g \<noteq> tag h" "sha (tag g) = sha (tag h)"
      using False genesis_preimage_inject [OF assms(1-3)] by (auto simp: tag_hash_def)
    then show ?thesis by (auto simp: collision_def)
  next
    case pre: False
    then show ?thesis using assms(4) by (auto simp: collision_def genesis_id_def)
  qed
qed

theorem genesis_id_binding_witness:
  "collision (\<lambda>_. zeros 32) [genesis_preimage (\<lambda>_. zeros 32) genesis_empty, []]
     [genesis_preimage (\<lambda>_. zeros 32) (genesis_empty\<lparr>tag := [1]\<rparr>), [1]]"
  using genesis_id_binding [of "\<lambda>_. zeros 32" genesis_empty "genesis_empty\<lparr>tag := [1]\<rparr>"]
  by (simp add: sha_32_def wf_genesis_def genesis_empty_def wf_asset_type_def asset_type_from_u8_def
      genesis_id_def)

text \<open>the check on a set of alternative leaves accepts exactly the lists in which every asset satisfies the
  alt-leaf rules (version 0, empty genesis, nothing but a script) and no two share a commitment key, so that
  they cannot overwrite each other in the commitment tree.\<close>

theorem valid_alt_leaves_iff:
  "valid_alt_leaves sha alts = Ok () \<longleftrightarrow>
     (\<forall>a \<in> set alts. a_version a = AssetV0 \<and> genesis a = genesis_empty \<and> amount a = 0 \<and> a_lock_time a = 0
        \<and> relative_lock_time a = 0 \<and> split_commitment_root a = None \<and> group_key a = None)
     \<and> distinct (map (asset_commitment_key sha) alts)"
proof -
  have "valid_alt_leaves sha alts = Ok () \<longleftrightarrow> (\<exists>ks. add_leaf_keys_verify_unique sha [] alts = Ok ks)"
    by (auto simp: valid_alt_leaves_def res_simps)
  moreover have "validate_alt_leaf a = Ok () \<longleftrightarrow> a_version a = AssetV0 \<and> genesis a = genesis_empty \<and> amount a = 0
      \<and> a_lock_time a = 0 \<and> relative_lock_time a = 0 \<and> split_commitment_root a = None \<and> group_key a = None" for a
    by (cases "split_commitment_root a") (auto simp: validate_alt_leaf_def genesis_is_empty_def)
  ultimately show ?thesis by (simp add: add_leaf_keys_Ok_iff)
qed

theorem valid_alt_leaves_iff_witness:
  "valid_alt_leaves (\<lambda>x. x) [new_alt_leaf (script_key_from_pub_key [2, 5]) 0,
      new_alt_leaf (script_key_from_pub_key [2, 6]) 0] = Ok ()"
  unfolding valid_alt_leaves_iff
  by (simp add: new_alt_leaf_def script_key_from_pub_key_def asset_commitment_key_def schnorr_bytes_def)

end
