(* ===== verification/Mssmt_Spec.thy ===== *)
theory Mssmt_Spec
  imports Mssmt_Proof
begin

text \<open>
  What a Merkle-sum sparse Merkle tree promises, without any store: a total map \<open>f\<close> from 256-bit
  paths to leaves (the empty leaf where nothing is stored) and, for every prefix of a path, the node
  that the whole subtree below it hashes to. The stores and trees of the code are related to this
  specification in \<open>Mssmt_Refine\<close>.
\<close>

type_synonym path = "bool list"
type_synonym content = "path \<Rightarrow> LeafNode"

definition key_bits :: "bytes \<Rightarrow> path" where
  "key_bits key = map (\<lambda>i. bit_index i key) [0..<256]"

text \<open>The subtree of height \<open>d\<close> below the prefix \<open>p\<close>.\<close>

fun spec_node :: "content \<Rightarrow> nat \<Rightarrow> path \<Rightarrow> Node" where
  "spec_node f 0 p = Leaf (f p)"
| "spec_node f (Suc d) p = Branch (spec_node f d (p @ [False])) (spec_node f d (p @ [True]))"

definition node_at :: "content \<Rightarrow> path \<Rightarrow> Node" where
  "node_at f p = spec_node f (256 - length p) p"

definition no_content :: content where
  "no_content = (\<lambda>_. leaf_empty)"

definition occupied :: "content \<Rightarrow> path \<Rightarrow> bool" where
  "occupied f p \<longleftrightarrow> (\<exists>r. length r = 256 - length p \<and> f (p @ r) \<noteq> leaf_empty)"

text \<open>The exact sum of the leaves below a prefix.\<close>

fun spec_total :: "content \<Rightarrow> nat \<Rightarrow> path \<Rightarrow> nat" where
  "spec_total f 0 p = unat (leaf_sum (f p))"
| "spec_total f (Suc d) p = spec_total f d (p @ [False]) + spec_total f d (p @ [True])"

section \<open>Keys and paths\<close>

lemma length_key_bits [simp]: "length (key_bits key) = 256"
  by (simp add: key_bits_def)

lemma nth_key_bits [simp]: "i < 256 \<Longrightarrow> key_bits key ! i = bit_index i key"
  by (simp add: key_bits_def)

lemma key_bits_inject:
  assumes "length a = 32" "length b = 32" "key_bits a = key_bits b"
  shows "a = b"
proof (rule nth_equalityI)
  fix i assume i: "i < length a"
  have "bit (a ! i) n = bit (b ! i) n" if "n < 8" for n
  proof -
    have "key_bits a ! (8 * i + n) = key_bits b ! (8 * i + n)" using assms by simp
    moreover have "8 * i + n < 256" using i assms that by simp
    ultimately show ?thesis using that by (simp add: bit_index_def)
  qed
  then show "a ! i = b ! i" by (auto intro: bit_word_eqI)
qed (use assms in simp)

lemma take_Suc_key_bits:
  "i < 256 \<Longrightarrow> take (Suc i) (key_bits key) = take i (key_bits key) @ [bit_index i key]"
  by (simp add: take_Suc_conv_app_nth)

lemma node_at_Branch:
  "length p < 256 \<Longrightarrow> node_at f p = Branch (node_at f (p @ [False])) (node_at f (p @ [True]))"
proof -
  assume "length p < 256"
  then have "256 - length p = Suc (255 - length p)" by simp
  then show ?thesis by (simp add: node_at_def)
qed

lemma node_at_Leaf: "length p = 256 \<Longrightarrow> node_at f p = Leaf (f p)"
  by (simp add: node_at_def)

lemma node_at_step:
  assumes "i < 256"
  shows "(let (l, r) = step_order i key (node_at f (take i (key_bits key) @ [bit_index i key]))
      (node_at f (take i (key_bits key) @ [\<not> bit_index i key])) in Branch l r)
    = node_at f (take i (key_bits key))"
  using assms by (auto simp: step_order_def node_at_Branch [of "take i (key_bits key)"])

section \<open>Subtrees\<close>

lemma spec_node_cong:
  "(\<And>r. length r = d \<Longrightarrow> f (p @ r) = g (q @ r)) \<Longrightarrow> spec_node f d p = spec_node g d q"
proof (induction d arbitrary: p q)
  case (Suc d)
  have "spec_node f d (p @ [b]) = spec_node g d (q @ [b])" for b
    using Suc.prems [of "b # _"] by (intro Suc.IH) simp
  then show ?case by simp
qed (metis append_Nil2 list.size(3) spec_node.simps(1))

lemma spec_node_eqD:
  "spec_node f d p = spec_node g e q \<Longrightarrow> d = e \<and> (\<forall>r. length r = d \<longrightarrow> f (p @ r) = g (q @ r))"
proof (induction d arbitrary: p e q)
  case 0 then show ?case by (cases e) simp_all
next
  case (Suc d)
  then obtain e' where e: "e = Suc e'" by (cases e) simp_all
  have sub: "d = e' \<and> (\<forall>r. length r = d \<longrightarrow> f ((p @ [b]) @ r) = g ((q @ [b]) @ r))" for b
    using Suc.prems e by (intro Suc.IH) (cases b; simp)
  have "f (p @ r) = g (q @ r)" if "length r = Suc d" for r
    using sub [of "hd r"] that by (cases r) auto
  with sub e show ?case by simp
qed

lemma node_at_eqD:
  assumes "node_at f p = node_at g q" "length p \<le> 256" "length q \<le> 256"
  shows "length p = length q \<and> (\<forall>r. length r = 256 - length p \<longrightarrow> f (p @ r) = g (q @ r))"
  using spec_node_eqD [OF assms(1) [unfolded node_at_def]] assms(2,3) by auto

lemma node_at_upd_off:
  assumes "length p \<le> 256" "p \<noteq> take (length p) k"
  shows "node_at (f(k := l)) p = node_at f p"
  unfolding node_at_def using assms by (intro spec_node_cong) auto

lemma node_at_sibling:
  assumes "i < 256" "length k = 256"
  shows "node_at (f(k := l)) (take i k @ [\<not> k ! i]) = node_at f (take i k @ [\<not> k ! i])"
  using assms by (intro node_at_upd_off) (auto simp: take_Suc_conv_app_nth)

lemma occupied_upd_off:
  "length p \<le> 256 \<Longrightarrow> p \<noteq> take (length p) k \<Longrightarrow> occupied (f(k := l)) p = occupied f p"
  by (auto simp: occupied_def)

lemma node_hash_empty_tree: "node_hash sha (empty_tree sha i) = empty_hash sha (256 - i)"
  by (simp add: empty_tree_def)

lemma node_sum_empty_tree [simp]: "node_sum (empty_tree sha i) = 0"
  by (simp add: empty_tree_def)

lemma spec_node_no_content:
  "node_hash sha (spec_node no_content d p) = empty_hash sha d"
  "node_sum (spec_node no_content d p) = 0"
  by (induction d arbitrary: p) (simp_all add: no_content_def empty_hash_simps)

lemma not_occupied_node_at:
  "\<not> occupied f p \<Longrightarrow> node_at f p = node_at no_content p"
  unfolding node_at_def by (intro spec_node_cong) (auto simp: occupied_def no_content_def)

lemma occupied_snoc: "occupied f (p @ [b]) \<Longrightarrow> length p < 256 \<Longrightarrow> occupied f p"
  unfolding occupied_def by (metis append.assoc append_Cons append_Nil diff_Suc_eq_diff_pred
      Suc_diff_Suc diff_Suc_1 length_Cons length_append_singleton)

section \<open>Distinct subtrees have distinct hashes\<close>

text \<open>The byte strings hashed to obtain a node.\<close>

fun node_preimages :: "hash_fun \<Rightarrow> Node \<Rightarrow> bytes set" where
  "node_preimages sha (Leaf l) = {leaf_preimage l}"
| "node_preimages sha (Branch l r) =
     insert (branch_preimage (node_hash sha l) (node_hash sha r) (node_sum l + node_sum r))
       (node_preimages sha l \<union> node_preimages sha r)"
| "node_preimages sha _ = {}"

definition tree_preimages :: "hash_fun \<Rightarrow> content \<Rightarrow> bytes set" where
  "tree_preimages sha f = node_preimages sha (node_at f [])"

text \<open>A leaf whose value has 64 bytes could be taken for a branch: nothing separates the two
  domains. The values the protocol stores are longer or shorter.\<close>

definition leaf_sized :: "content \<Rightarrow> bool" where
  "leaf_sized f \<longleftrightarrow> (\<forall>p. length (leaf_value (f p)) \<noteq> 64)"

fun plain_node :: "Node \<Rightarrow> bool" where
  "plain_node (Leaf l) \<longleftrightarrow> length (leaf_value l) \<noteq> 64"
| "plain_node (Branch l r) \<longleftrightarrow> plain_node l \<and> plain_node r"
| "plain_node _ \<longleftrightarrow> False"

lemma plain_spec_node: "leaf_sized f \<Longrightarrow> plain_node (spec_node f d p)"
  by (induction d arbitrary: p) (simp_all add: leaf_sized_def)

lemma length_plain_hash: "sha_32 sha \<Longrightarrow> plain_node n \<Longrightarrow> length (node_hash sha n) = 32"
  by (cases n) simp_all

lemma plain_hash_inject:
  assumes "sha_32 sha" "inj_on sha S"
    and "plain_node a" "plain_node b" "node_preimages sha a \<subseteq> S" "node_preimages sha b \<subseteq> S"
    and "node_hash sha a = node_hash sha b"
  shows "a = b"
  using assms(3-)
proof (induction a arbitrary: b)
  case (Leaf l)
  then show ?case
  proof (cases b)
    case (Leaf l')
    with Leaf.prems assms(2) show ?thesis
      by (auto simp: leaf_hash_def leaf_preimage_inject dest: inj_onD)
  next
    case (Branch bl br)
    with Leaf.prems assms(2) have
      "leaf_preimage l = branch_preimage (node_hash sha bl) (node_hash sha br) (node_sum bl + node_sum br)"
      by (auto simp: leaf_hash_def dest: inj_onD)
    then have "length (leaf_preimage l) = 72"
      using Leaf.prems Branch assms(1) by (simp add: length_plain_hash)
    with Leaf.prems show ?thesis by simp
  qed simp_all
next
  case (Branch l r)
  then show ?case
  proof (cases b)
    case (Leaf l')
    with Branch.prems assms(2) have
      "leaf_preimage l' = branch_preimage (node_hash sha l) (node_hash sha r) (node_sum l + node_sum r)"
      by (auto simp: leaf_hash_def dest: inj_onD)
    then have "length (leaf_preimage l') = 72"
      using Branch.prems Leaf assms(1) by (simp add: length_plain_hash)
    with Branch.prems Leaf show ?thesis by simp
  next
    case b: (Branch bl br)
    with Branch.prems assms(2) have
      "branch_preimage (node_hash sha l) (node_hash sha r) (node_sum l + node_sum r)
        = branch_preimage (node_hash sha bl) (node_hash sha br) (node_sum bl + node_sum br)"
      by (auto dest: inj_onD)
    then have "node_hash sha l = node_hash sha bl \<and> node_hash sha r = node_hash sha br"
      using Branch.prems b assms(1) by (simp add: branch_preimage_inject length_plain_hash)
    then have "l = bl" "r = br"
      using Branch.prems b by (auto intro!: Branch.IH)
    with b show ?thesis by simp
  qed simp_all
qed simp_all

lemma node_at_preimages:
  "length p \<le> 256 \<Longrightarrow> node_preimages sha (node_at f p) \<subseteq> tree_preimages sha f"
proof (induction p rule: rev_induct)
  case (snoc b p)
  then have "node_preimages sha (node_at f (p @ [b])) \<subseteq> node_preimages sha (node_at f p)"
    by (cases b) (auto simp: node_at_Branch [of p])
  with snoc show ?case by auto
qed (simp add: tree_preimages_def)

text \<open>\<open>separated sha S f g\<close>: the hash function does not collide on \<open>S\<close>, which holds all that is hashed
  in the trees of \<open>f\<close> and \<open>g\<close> and in the empty tree.\<close>

definition separated :: "hash_fun \<Rightarrow> bytes set \<Rightarrow> content \<Rightarrow> bool" where
  "separated sha S f \<longleftrightarrow> sha_32 sha \<and> inj_on sha S \<and> tree_preimages sha f \<subseteq> S
     \<and> tree_preimages sha no_content \<subseteq> S \<and> leaf_sized f"

lemma leaf_sized_no_content [simp]: "leaf_sized no_content"
  by (simp add: leaf_sized_def no_content_def)

lemma separated_no_content: "separated sha S f \<Longrightarrow> separated sha S no_content"
  by (simp add: separated_def)

lemma node_at_hash_inject:
  assumes "separated sha S f" "separated sha S g" "length p \<le> 256" "length q \<le> 256"
    and "node_hash sha (node_at f p) = node_hash sha (node_at g q)"
  shows "node_at f p = node_at g q"
proof (rule plain_hash_inject [of sha S])
  show "plain_node (node_at f p)" "plain_node (node_at g q)"
    using assms by (simp_all add: separated_def node_at_def plain_spec_node)
  show "node_preimages sha (node_at f p) \<subseteq> S" "node_preimages sha (node_at g q) \<subseteq> S"
    using assms node_at_preimages by (fastforce simp: separated_def)+
qed (use assms in \<open>simp_all add: separated_def\<close>)

lemma occupied_iff_hash:
  assumes "separated sha S f" "length p \<le> 256"
  shows "occupied f p \<longleftrightarrow> node_hash sha (node_at f p) \<noteq> empty_hash sha (256 - length p)"
proof
  assume occ: "occupied f p"
  show "node_hash sha (node_at f p) \<noteq> empty_hash sha (256 - length p)"
  proof
    assume "node_hash sha (node_at f p) = empty_hash sha (256 - length p)"
    then have "node_hash sha (node_at f p) = node_hash sha (node_at no_content p)"
      by (simp add: node_at_def spec_node_no_content)
    then have "node_at f p = node_at no_content p"
      using assms by (intro node_at_hash_inject [OF assms(1) separated_no_content]) auto
    from node_at_eqD [OF this assms(2) assms(2)] occ show False
      by (auto simp: occupied_def no_content_def)
  qed
next
  assume "node_hash sha (node_at f p) \<noteq> empty_hash sha (256 - length p)"
  then show "occupied f p"
    using not_occupied_node_at [of f p]
    by (cases "occupied f p") (auto simp: node_at_def spec_node_no_content)
qed

section \<open>Sums\<close>

lemma node_sum_spec_node: "node_sum (spec_node f d p) = of_nat (spec_total f d p)"
  by (induction d arbitrary: p) simp_all

lemma spec_total_cong:
  "(\<And>r. length r = d \<Longrightarrow> f (p @ r) = g (p @ r)) \<Longrightarrow> spec_total f d p = spec_total g d p"
proof (induction d arbitrary: p)
  case (Suc d)
  have "spec_total f d (p @ [b]) = spec_total g d (p @ [b])" for b
    using Suc.prems [of "b # _"] by (intro Suc.IH) simp
  then show ?case by simp
qed (metis append_Nil2 list.size(3) spec_total.simps(1))

lemma paths_Suc:
  "{r :: path. length r = Suc d} = (#) False ` {r. length r = d} \<union> (#) True ` {r. length r = d}"
  by (auto simp: length_Suc_conv image_iff)

lemma finite_paths: "finite {r :: path. length r = d}"
  using finite_lists_length_eq [of "UNIV :: bool set" d] by simp

lemma spec_total_sum: "spec_total f d p = (\<Sum>r \<in> {r. length r = d}. unat (leaf_sum (f (p @ r))))"
proof (induction d arbitrary: p)
  case (Suc d)
  have "(\<Sum>r \<in> (#) b ` {r. length r = d}. unat (leaf_sum (f (p @ r)))) = spec_total f d (p @ [b])" for b
    by (subst sum.reindex) (simp_all add: Suc.IH)
  moreover have "(\<Sum>r \<in> {r. length r = Suc d}. unat (leaf_sum (f (p @ r))))
      = (\<Sum>r \<in> (#) False ` {r. length r = d}. unat (leaf_sum (f (p @ r))))
      + (\<Sum>r \<in> (#) True ` {r. length r = d}. unat (leaf_sum (f (p @ r))))"
    unfolding paths_Suc by (rule sum.union_disjoint) (auto simp: finite_paths)
  ultimately show ?case by simp
qed simp

definition content_total :: "content \<Rightarrow> nat" where
  "content_total f = (\<Sum>p \<in> {p. length p = 256}. unat (leaf_sum (f p)))"

lemma node_sum_root: "node_sum (node_at f []) = of_nat (content_total f)"
  by (simp add: node_at_def node_sum_spec_node spec_total_sum content_total_def)

lemma content_total_upd:
  "length k = 256 \<Longrightarrow> content_total (f(k := l)) + unat (leaf_sum (f k)) = content_total f + unat (leaf_sum l)"
proof -
  assume k: "length k = 256"
  let ?P = "{p :: path. length p = 256}"
  have "content_total g = unat (leaf_sum (g k)) + (\<Sum>p \<in> ?P - {k}. unat (leaf_sum (g p)))" for g
    unfolding content_total_def using k by (intro sum.remove) (auto simp: finite_paths)
  moreover have "(\<Sum>p \<in> ?P - {k}. unat (leaf_sum ((f(k := l)) p))) = (\<Sum>p \<in> ?P - {k}. unat (leaf_sum (f p)))"
    by (intro sum.cong) auto
  ultimately show ?thesis by simp
qed

end
