(* ===== verification/Mssmt_Interface.thy ===== *)
theory Mssmt_Interface
  imports Mssmt_Spec
begin

text \<open>
  What the protocol code relies on when it keeps leaves in a tree (\<^verbatim>\<open>FullTree\<close>,
  \<^verbatim>\<open>CompactedTree\<close>): the locale \<open>sum_tree\<close> lists the operations and the laws a tree
  over a store promises, and its lemmas are what follows for any sequence of operations.
\<close>

datatype tree_op = OpInsert bytes LeafNode | OpDelete bytes

fun op_key :: "tree_op \<Rightarrow> bytes" where
  "op_key (OpInsert key _) = key"
| "op_key (OpDelete key) = key"

fun op_leaf :: "tree_op \<Rightarrow> LeafNode" where
  "op_leaf (OpInsert _ leaf) = leaf"
| "op_leaf (OpDelete _) = leaf_empty"

text \<open>A sequence of operations on a tree whose \<open>insert\<close> and \<open>delete\<close> are given, and on contents.\<close>

fun run_ops ::
  "(bytes \<Rightarrow> LeafNode \<Rightarrow> 's \<Rightarrow> ('s, TreeError) result) \<Rightarrow> (bytes \<Rightarrow> 's \<Rightarrow> ('s, TreeError) result) \<Rightarrow>
     tree_op list \<Rightarrow> 's \<Rightarrow> ('s, TreeError) result" where
  "run_ops ins del [] s = Ok s"
| "run_ops ins del (OpInsert key leaf # ops) s = res_bind (ins key leaf s) (run_ops ins del ops)"
| "run_ops ins del (OpDelete key # ops) s = res_bind (del key s) (run_ops ins del ops)"

fun apply_ops :: "tree_op list \<Rightarrow> content \<Rightarrow> content" where
  "apply_ops [] f = f"
| "apply_ops (op # ops) f = apply_ops ops (f(key_bits (op_key op) := op_leaf op))"

text \<open>Every step is admissible and no sum overflows.\<close>

fun admissible_ops ::
  "(content \<Rightarrow> bytes \<Rightarrow> LeafNode \<Rightarrow> bool) \<Rightarrow> tree_op list \<Rightarrow> content \<Rightarrow> bool" where
  "admissible_ops adm [] f \<longleftrightarrow> True"
| "admissible_ops adm (op # ops) f \<longleftrightarrow>
     adm f (op_key op) (op_leaf op) \<and> content_total f + unat (leaf_sum (op_leaf op)) < 2 ^ 64
     \<and> admissible_ops adm ops (f(key_bits (op_key op) := op_leaf op))"

fun steps_admissible ::
  "(content \<Rightarrow> bytes \<Rightarrow> LeafNode \<Rightarrow> bool) \<Rightarrow> tree_op list \<Rightarrow> content \<Rightarrow> bool" where
  "steps_admissible adm [] f \<longleftrightarrow> True"
| "steps_admissible adm (op # ops) f \<longleftrightarrow>
     adm f (op_key op) (op_leaf op) \<and> steps_admissible adm ops (f(key_bits (op_key op) := op_leaf op))"

lemma apply_ops_append: "apply_ops (xs @ ys) f = apply_ops ys (apply_ops xs f)"
  by (induction xs arbitrary: f) simp_all

lemma admissible_ops_mono:
  "admissible_ops adm ops f \<Longrightarrow> (\<And>f key leaf. adm f key leaf \<Longrightarrow> adm' f key leaf) \<Longrightarrow> admissible_ops adm' ops f"
  by (induction ops arbitrary: f) (auto split: tree_op.splits)

locale sum_tree =
  fixes inv :: "'s \<Rightarrow> content \<Rightarrow> bool"
    and adm :: "content \<Rightarrow> bytes \<Rightarrow> LeafNode \<Rightarrow> bool"
    and sha :: hash_fun
    and get :: "bytes \<Rightarrow> 's \<Rightarrow> (LeafNode, TreeError) result"
    and ins :: "bytes \<Rightarrow> LeafNode \<Rightarrow> 's \<Rightarrow> ('s, TreeError) result"
    and del :: "bytes \<Rightarrow> 's \<Rightarrow> ('s, TreeError) result"
    and prove :: "bytes \<Rightarrow> 's \<Rightarrow> (MerkleProof, TreeError) result"
    and root :: "'s \<Rightarrow> BranchNode"
  assumes get_law: "inv s f \<Longrightarrow> get key s = Ok (f (key_bits key))"
    and ins_law: "inv s f \<Longrightarrow> adm f key leaf \<Longrightarrow> content_total f + unat (leaf_sum leaf) < 2 ^ 64 \<Longrightarrow>
      \<exists>s'. ins key leaf s = Ok s' \<and> inv s' (f(key_bits key := leaf))"
    and ins_overflow_law: "inv s f \<Longrightarrow> 2 ^ 64 \<le> content_total f + unat (leaf_sum leaf) \<Longrightarrow>
      ins key leaf s = Err (IntegerOverflow (branch_sum (root s)) (leaf_sum leaf))"
    and del_law: "inv s f \<Longrightarrow> adm f key leaf_empty \<Longrightarrow>
      \<exists>s'. del key s = Ok s' \<and> inv s' (f(key_bits key := leaf_empty))"
    and prove_law: "inv s f \<Longrightarrow>
      \<exists>p. prove key s = Ok p \<and> length p = 256
        \<and> verify_merkle_proof sha key (f (key_bits key)) p (Branch (fst (root s)) (snd (root s)))"
    and root_law: "inv s f \<Longrightarrow>
      is_equal_node sha (Branch (fst (root s)) (snd (root s))) (node_at f [])"
    and total_law: "inv s f \<Longrightarrow> content_total f < 2 ^ 64"
begin

lemma run_ops_inv:
  "inv s f \<Longrightarrow> admissible_ops adm ops f \<Longrightarrow>
    \<exists>s'. run_ops ins del ops s = Ok s' \<and> inv s' (apply_ops ops f)"
proof (induction ops arbitrary: s f)
  case (Cons op ops)
  let ?f = "f(key_bits (op_key op) := op_leaf op)"
  have "\<exists>s'. run_ops ins del [op] s = Ok s' \<and> inv s' ?f"
    using Cons.prems ins_law del_law by (cases op) fastforce+
  then obtain s' where s': "run_ops ins del [op] s = Ok s'" "inv s' ?f" by blast
  moreover have "run_ops ins del (op # ops) s = res_bind (run_ops ins del [op] s) (run_ops ins del ops)"
  proof (cases op)
    case (OpInsert key leaf)
    then show ?thesis by (cases "ins key leaf s") simp_all
  next
    case (OpDelete key)
    then show ?thesis by (cases "del key s") simp_all
  qed
  moreover have "admissible_ops adm ops ?f" using Cons.prems(2) by (simp del: fun_upd_apply)
  from Cons.IH [OF s'(2) this] obtain s'' where
    "run_ops ins del ops s' = Ok s''" "inv s'' (apply_ops ops ?f)" by blast
  ultimately show ?case by (simp del: fun_upd_apply)
qed simp

text \<open>Success of a sequence of operations implies that no sum overflowed.\<close>

lemma run_ops_success:
  "inv s f \<Longrightarrow> steps_admissible adm ops f \<Longrightarrow> run_ops ins del ops s = Ok s' \<Longrightarrow> inv s' (apply_ops ops f)"
proof (induction ops arbitrary: s f)
  case (Cons op ops)
  let ?f = "f(key_bits (op_key op) := op_leaf op)"
  have adm: "adm f (op_key op) (op_leaf op)" "steps_admissible adm ops ?f"
    using Cons.prems(2) by (simp_all del: fun_upd_apply)
  obtain t where t: "run_ops ins del ops t = Ok s'" "inv t ?f"
  proof (cases op)
    case (OpInsert key leaf)
    with Cons.prems(3) obtain u where u: "ins key leaf s = Ok u" "run_ops ins del ops u = Ok s'"
      by (auto simp: res_simps)
    have "content_total f + unat (leaf_sum leaf) < 2 ^ 64"
      using ins_overflow_law [OF Cons.prems(1), of leaf key] u(1) by (cases "2 ^ 64 \<le> content_total f + unat (leaf_sum leaf)") auto
    with ins_law [OF Cons.prems(1)] adm(1) OpInsert u that show ?thesis by fastforce
  next
    case (OpDelete key)
    with Cons.prems(3) obtain u where u: "del key s = Ok u" "run_ops ins del ops u = Ok s'"
      by (auto simp: res_simps)
    with del_law [OF Cons.prems(1)] adm(1) OpDelete that show ?thesis by fastforce
  qed
  from Cons.IH [OF t(2) adm(2) t(1)] show ?case by (simp del: fun_upd_apply)
qed simp

lemma root_sum: "inv s f \<Longrightarrow> unat (branch_sum (root s)) = content_total f"
  using root_law [of s f] total_law [of s f]
  by (simp add: branch_sum_def is_equal_node_def node_sum_root unat_of_nat)

lemma root_unique:
  assumes "inv s f" "inv s' f"
  shows "branch_hash sha (root s) = branch_hash sha (root s') \<and> branch_sum (root s) = branch_sum (root s')"
  using root_law [OF assms(1)] root_law [OF assms(2)]
  by (simp add: branch_hash_def branch_sum_def is_equal_node_def del: node_hash.simps node_sum.simps)

text \<open>The content that a sequence of operations leaves is what every read, every proof and the
  root report.\<close>

lemma run_ops_correct:
  assumes "inv s f" "admissible_ops adm ops f"
  shows "\<exists>s'. run_ops ins del ops s = Ok s'
    \<and> (\<forall>key. get key s' = Ok (apply_ops ops f (key_bits key)))
    \<and> (\<forall>key. \<exists>p. prove key s' = Ok p \<and> length p = 256 \<and>
         verify_merkle_proof sha key (apply_ops ops f (key_bits key)) p
           (Branch (fst (root s')) (snd (root s'))))
    \<and> unat (branch_sum (root s')) = content_total (apply_ops ops f)"
  using run_ops_inv [OF assms] get_law prove_law root_sum by meson

lemma history_independent:
  assumes "inv s f" "admissible_ops adm ops f" "admissible_ops adm ops' f"
    and "apply_ops ops f = apply_ops ops' f"
  shows "\<exists>a b. run_ops ins del ops s = Ok a \<and> run_ops ins del ops' s = Ok b
    \<and> branch_hash sha (root a) = branch_hash sha (root b) \<and> branch_sum (root a) = branch_sum (root b)"
  using run_ops_inv [OF assms(1,2)] run_ops_inv [OF assms(1,3)] root_unique assms(4) by metis

lemma overflow_rejected:
  assumes "inv s f" "admissible_ops adm ops f"
    and "2 ^ 64 \<le> content_total (apply_ops ops f) + unat (leaf_sum leaf)"
  shows "\<exists>s'. run_ops ins del ops s = Ok s'
    \<and> ins key leaf s' = Err (IntegerOverflow (branch_sum (root s')) (leaf_sum leaf))"
  using run_ops_inv [OF assms(1,2)] ins_overflow_law [OF _ assms(3)] by meson

end

end
