(* ===== verification/Mssmt_Refine.thy ===== *)
theory Mssmt_Refine
  imports Mssmt_Interface
begin

text \<open>
  The full tree over its hash-keyed store implements the specification of \<open>Mssmt_Spec\<close>.

  \<open>represents sha s f\<close> relates a store to a content: the branches map holds exactly the occupied
  inner nodes of the content's tree, the leaves map at least its leaves, and the root is that of
  the tree. Reading follows from it; an insertion or deletion keeps it.
\<close>

definition branch_at :: "hash_fun \<Rightarrow> content \<Rightarrow> path \<Rightarrow> BranchNode" where
  "branch_at sha f p = shallow_branch sha (node_at f (p @ [False]), node_at f (p @ [True]))"

text \<open>The part of the relation about branches, for any family of nodes: used with the
  family that a half-finished walk up has reached.\<close>

definition branches_hold ::
  "hash_fun \<Rightarrow> (NodeHash \<rightharpoonup> BranchNode) \<Rightarrow> (path \<Rightarrow> content) \<Rightarrow> bool" where
  "branches_hold sha bs fam \<longleftrightarrow>
     (\<forall>p. length p < 256 \<longrightarrow> occupied (fam p) p \<longrightarrow>
        bs (node_hash sha (node_at (fam p) p)) = Some (branch_at sha (fam p) p))
     \<and> (\<forall>h \<in> dom bs. \<exists>p. length p < 256 \<and> occupied (fam p) p \<and> h = node_hash sha (node_at (fam p) p))"

definition leaves_hold :: "hash_fun \<Rightarrow> (NodeHash \<rightharpoonup> LeafNode) \<Rightarrow> content \<Rightarrow> bool" where
  "leaves_hold sha ls f \<longleftrightarrow>
     (\<forall>p. length p = 256 \<longrightarrow> f p \<noteq> leaf_empty \<longrightarrow> ls (leaf_hash sha (f p)) = Some (f p))"

definition root_holds :: "hash_fun \<Rightarrow> BranchNode option \<Rightarrow> content \<Rightarrow> bool" where
  "root_holds sha r f \<longleftrightarrow>
     (case r of None \<Rightarrow> \<not> occupied f [] | Some b \<Rightarrow> is_equal_node sha (Branch (fst b) (snd b)) (node_at f []))"

text \<open>The two children of the root, whose hashes the commitments of the protocol read.\<close>

definition kids_equal :: "hash_fun \<Rightarrow> BranchNode \<Rightarrow> content \<Rightarrow> bool" where
  "kids_equal sha b f \<longleftrightarrow>
     is_equal_node sha (fst b) (node_at f [False]) \<and> is_equal_node sha (snd b) (node_at f [True])"

definition represents :: "hash_fun \<Rightarrow> DefaultStore \<Rightarrow> content \<Rightarrow> bool" where
  "represents sha s f \<longleftrightarrow> branches_hold sha (branches s) (\<lambda>_. f) \<and> leaves_hold sha (leaves s) f
     \<and> compacted_leaves s = Map.empty \<and> root_holds sha (store_root s) f
     \<and> pred_option (\<lambda>b. kids_equal sha b f) (store_root s)"

section \<open>Reading\<close>

lemma represents_new: "represents sha store_new no_content"
  by (auto simp: represents_def store_new_def branches_hold_def leaves_hold_def root_holds_def
      occupied_def no_content_def)

lemma branch_at_node [simp]:
  "branch_hash sha (branch_at sha f p)
    = node_hash sha (Branch (node_at f (p @ [False])) (node_at f (p @ [True])))"
  "branch_sum (branch_at sha f p) = node_sum (node_at f (p @ [False])) + node_sum (node_at f (p @ [True]))"
  "node_hash sha (fst (branch_at sha f p)) = node_hash sha (node_at f (p @ [False]))"
  "node_hash sha (snd (branch_at sha f p)) = node_hash sha (node_at f (p @ [True]))"
  "node_sum (fst (branch_at sha f p)) = node_sum (node_at f (p @ [False]))"
  "node_sum (snd (branch_at sha f p)) = node_sum (node_at f (p @ [True]))"
  by (simp_all add: branch_at_def branch_sum_def shallow_branch_def branch_hash_def)

lemma root_node_represents:
  assumes "represents sha s f"
  shows "is_equal_node sha (root_node sha s) (node_at f [])"
proof (cases "store_root s")
  case None
  then have "node_at f [] = node_at no_content []"
    using assms by (intro not_occupied_node_at) (simp add: represents_def root_holds_def)
  with None show ?thesis
    by (simp add: root_node_def is_equal_node_def node_at_def spec_node_no_content node_hash_empty_tree)
next
  case (Some b)
  with assms show ?thesis by (simp add: represents_def root_holds_def root_node_def)
qed

lemma unoccupied_node:
  assumes "separated sha S f" "length p \<le> 256" "\<not> occupied f p"
  shows "get_node sha s (length p) (node_hash sha (node_at f p)) = empty_tree sha (length p)"
  using assms not_occupied_node_at [OF assms(3)]
  by (simp add: get_node_def node_hash_empty_tree node_at_def spec_node_no_content)

lemma get_node_branch:
  assumes "represents sha s f" "separated sha S f" "length p < 256" "occupied f p"
  shows "get_node sha s (length p) (node_hash sha (node_at f p))
    = Branch (fst (branch_at sha f p)) (snd (branch_at sha f p))"
proof -
  have "node_hash sha (node_at f p) \<noteq> empty_hash sha (256 - length p)"
    using occupied_iff_hash [OF assms(2), of p] assms by simp
  moreover have "branches s (node_hash sha (node_at f p)) = Some (branch_at sha f p)"
    using assms by (simp add: represents_def branches_hold_def)
  ultimately show ?thesis by (simp add: get_node_def node_hash_empty_tree)
qed

lemma get_node_leaf:
  assumes "represents sha s f" "separated sha S f" "length p = 256" "occupied f p"
  shows "get_node sha s (length p) (node_hash sha (node_at f p)) = Leaf (f p)"
proof -
  have "node_hash sha (node_at f p) \<noteq> empty_hash sha (256 - length p)"
    using occupied_iff_hash [OF assms(2), of p] assms by simp
  moreover have "branches s (node_hash sha (node_at f p)) = None"
  proof (rule ccontr)
    assume "branches s (node_hash sha (node_at f p)) \<noteq> None"
    then obtain q where "length q < 256" "node_hash sha (node_at f p) = node_hash sha (node_at f q)"
      using assms(1) by (fastforce simp: represents_def branches_hold_def)
    then show False
      using node_at_eqD [OF node_at_hash_inject [OF assms(2,2)], of p q] assms(3) by auto
  qed
  moreover have "leaves s (leaf_hash sha (f p)) = Some (f p)"
    using assms by (auto simp: represents_def leaves_hold_def occupied_def)
  ultimately show ?thesis
    using assms(1,3) by (simp add: get_node_def node_hash_empty_tree represents_def node_at_Leaf)
qed

text \<open>What the store returns for the hash of a node of the tree is that node.\<close>

lemma get_node_at:
  assumes "represents sha s f" "separated sha S f" "length p \<le> 256"
  shows "is_equal_node sha (get_node sha s (length p) (node_hash sha (node_at f p))) (node_at f p)"
proof (cases "occupied f p")
  case True
  show ?thesis
  proof (cases "length p = 256")
    case False
    then have "length p < 256" using assms(3) by simp
    with True show ?thesis
      unfolding get_node_branch [OF assms(1,2) \<open>length p < 256\<close> True]
      by (simp add: is_equal_node_def node_at_Branch [of p])
  next
    case True
    then show ?thesis
      unfolding get_node_leaf [OF assms(1,2) True \<open>occupied f p\<close>]
      by (simp add: is_equal_node_def node_at_Leaf)
  qed
next
  case False
  then show ?thesis
    unfolding unoccupied_node [OF assms(2,3) False]
    by (simp add: not_occupied_node_at is_equal_node_def node_hash_empty_tree)
      (simp add: node_at_def spec_node_no_content)
qed

lemma get_node_final:
  assumes "represents sha s f" "separated sha S f" "length p = 256"
  shows "leaf_or_empty (get_node sha s 256 (node_hash sha (node_at f p))) = f p"
proof (cases "occupied f p")
  case True
  then show ?thesis using get_node_leaf [OF assms True] assms(3) by simp
next
  case False
  then have "f p = leaf_empty" using assms(3) by (simp add: occupied_def)
  then show ?thesis
    using unoccupied_node [OF assms(2) _ False, of s] assms(3) by (simp add: empty_tree_def)
qed

lemma get_children_at:
  assumes "represents sha s f" "separated sha S f" "length p < 256"
  shows "get_children sha s (length p) (node_hash sha (node_at f p))
    = Ok (get_node sha s (length p + 1) (node_hash sha (node_at f (p @ [False]))),
          get_node sha s (length p + 1) (node_hash sha (node_at f (p @ [True]))))"
proof (cases "occupied f p")
  case True
  then have "node_hash sha (node_at f p) \<noteq> empty_hash sha (256 - length p)"
    using occupied_iff_hash [OF assms(2), of p] assms(3) by simp
  then show ?thesis
    using get_node_branch [OF assms True] assms(3)
    by (simp add: get_children_def node_hash_empty_tree node_at_Branch [of p])
next
  case False
  then have kids: "\<not> occupied f (p @ [b])" for b
    using occupied_snoc [of f p b] assms(3) by blast
  from False have "node_hash sha (node_at f p) = empty_hash sha (256 - length p)"
    using occupied_iff_hash [OF assms(2), of p] assms(3) by simp
  with kids [THEN unoccupied_node [OF assms(2), rotated], of False s]
    kids [THEN unoccupied_node [OF assms(2), rotated], of True s] assms(3)
  show ?thesis by (simp add: get_children_def node_hash_empty_tree)
qed

section \<open>Walking down\<close>

text \<open>The sibling the store returns at level \<open>j\<close> of a key.\<close>

definition sibling_at :: "hash_fun \<Rightarrow> DefaultStore \<Rightarrow> content \<Rightarrow> bytes \<Rightarrow> nat \<Rightarrow> Node" where
  "sibling_at sha s f key j =
     get_node sha s (j + 1) (node_hash sha (node_at f (take j (key_bits key) @ [\<not> bit_index j key])))"

lemma walk_down_from_at:
  assumes "represents sha s f" "separated sha S f" "i + n = 256"
    and "node_hash sha cur = node_hash sha (node_at f (take i (key_bits key)))"
  shows "\<exists>final trace. walk_down_from sha s key i n cur = Ok (final, trace)
    \<and> map trace_sibling trace = map (sibling_at sha s f key) [i..<256]
    \<and> map (\<lambda>e. node_hash sha (trace_parent e)) trace
        = map (\<lambda>j. node_hash sha (node_at f (take j (key_bits key)))) [i..<256]
    \<and> (0 < n \<longrightarrow> final = get_node sha s 256 (node_hash sha (node_at f (key_bits key))))"
  using assms(3,4)
proof (induction n arbitrary: i cur)
  case (Suc n)
  let ?p = "take i (key_bits key)"
  let ?next = "get_node sha s (i + 1) (node_hash sha (node_at f (take (i + 1) (key_bits key))))"
  from Suc.prems have i: "i < 256" by simp
  then have len: "length ?p = i" by simp
  have kids: "get_children sha s i (node_hash sha cur)
      = Ok (get_node sha s (i + 1) (node_hash sha (node_at f (?p @ [False]))),
            get_node sha s (i + 1) (node_hash sha (node_at f (?p @ [True]))))"
    using get_children_at [OF assms(1,2), of ?p] i len Suc.prems(2) by simp
  have "node_hash sha ?next = node_hash sha (node_at f (take (i + 1) (key_bits key)))"
    using get_node_at [OF assms(1,2), of "take (i + 1) (key_bits key)"] i
    by (simp add: is_equal_node_def)
  then obtain final trace where rec:
    "walk_down_from sha s key (i + 1) n ?next = Ok (final, trace)"
    "map trace_sibling trace = map (sibling_at sha s f key) [i + 1..<256]"
    "map (\<lambda>e. node_hash sha (trace_parent e)) trace
        = map (\<lambda>j. node_hash sha (node_at f (take j (key_bits key)))) [i + 1..<256]"
    "0 < n \<longrightarrow> final = get_node sha s 256 (node_hash sha (node_at f (key_bits key)))"
    using Suc.IH [of "i + 1" ?next] Suc.prems(1) by auto
  have order: "step_order i key (get_node sha s (i + 1) (node_hash sha (node_at f (?p @ [False]))))
      (get_node sha s (i + 1) (node_hash sha (node_at f (?p @ [True])))) = (?next, sibling_at sha s f key i)"
    using i by (simp add: step_order_def sibling_at_def take_Suc_key_bits)
  have "n = 0 \<Longrightarrow> final = ?next" using rec(1) by auto
  then have final: "final = get_node sha s 256 (node_hash sha (node_at f (key_bits key)))"
    using rec(4) Suc.prems(1) by (cases "n = 0") auto
  have upt: "[i..<256] = i # [i + 1..<256]" using i by (simp add: upt_rec)
  show ?case
    using kids order rec(1-3) final Suc.prems(2) by (simp add: upt)
qed simp

lemma walk_down_at:
  assumes "represents sha s f" "separated sha S f"
  obtains trace where "walk_down sha s key = Ok (f (key_bits key), trace)"
    and "map trace_sibling trace = map (sibling_at sha s f key) [0..<256]"
    and "map (\<lambda>e. node_hash sha (trace_parent e)) trace
        = map (\<lambda>j. node_hash sha (node_at f (take j (key_bits key)))) [0..<256]"
proof -
  have "node_hash sha (root_node sha s) = node_hash sha (node_at f (take 0 (key_bits key)))"
    using root_node_represents [OF assms(1)] by (simp add: is_equal_node_def)
  from walk_down_from_at [OF assms _ this, of 256] that show ?thesis
    using get_node_final [OF assms, of "key_bits key"] by (auto simp: walk_down_def)
qed

section \<open>Walking up\<close>

text \<open>No leaf is stored under two keys. The store keeps one entry per hash, so two equal subtrees
  share their branches, and replacing one would remove those of the other.\<close>

definition distinct_leaves :: "content \<Rightarrow> bool" where
  "distinct_leaves f \<longleftrightarrow>
     (\<forall>p q. length p = 256 \<longrightarrow> length q = 256 \<longrightarrow> f p = f q \<longrightarrow> f p \<noteq> leaf_empty \<longrightarrow> p = q)"

text \<open>When the walk up has handled level \<open>i\<close>, the new content is stored on the key's path
  from that level down, and the old one above.\<close>

definition half_done :: "content \<Rightarrow> content \<Rightarrow> path \<Rightarrow> nat \<Rightarrow> path \<Rightarrow> content" where
  "half_done f g k i p = (if p = take (length p) k \<and> i \<le> length p then g else f)"

lemma distinct_subtrees:
  assumes "distinct_leaves f" "occupied f q" "length p = length q" "length p \<le> 256"
    and "node_at f p = node_at f q"
  shows "p = q"
proof -
  obtain r where r: "length r = 256 - length q" "f (q @ r) \<noteq> leaf_empty"
    using assms(2) by (auto simp: occupied_def)
  moreover have "f (p @ r) = f (q @ r)"
    using node_at_eqD [OF assms(5)] assms(3,4) r by auto
  moreover have "length (p @ r) = 256" "length (q @ r) = 256"
    using r assms(3,4) by simp_all
  ultimately have "q @ r = p @ r"
    using assms(1) unfolding distinct_leaves_def by metis
  then show ?thesis by simp
qed

lemma branches_replace_branch:
  assumes "separated sha S f" "separated sha S g" "length p < 256"
    and "is_equal_node sha l (node_at g (p @ [False]))" "is_equal_node sha r (node_at g (p @ [True]))"
  shows "branches (replace_branch sha (length p) (node_hash sha (node_at f p)) (l, r) s) =
    (let bs = (if occupied f p then (branches s)(node_hash sha (node_at f p) := None) else branches s)
     in if occupied g p then bs(node_hash sha (node_at g p) \<mapsto> branch_at sha g p) else bs)"
proof -
  have h: "node_hash sha (Branch l r) = node_hash sha (node_at g p)"
    using assms(3-5) by (simp add: is_equal_node_def node_at_Branch [of p])
  have b: "shallow_branch sha (l, r) = branch_at sha g p"
    using assms(4,5) by (simp add: is_equal_node_def branch_at_def shallow_branch_def)
  show ?thesis
    using occupied_iff_hash [OF assms(1), of p] occupied_iff_hash [OF assms(2), of p] assms(3) b
    unfolding replace_branch_def branch_hash_Pair h
    by (simp add: Let_def node_hash_empty_tree insert_branch_def delete_branch_def h [simplified])
qed

lemma branch_at_cong:
  "node_at f p = node_at g q \<Longrightarrow> length p < 256 \<Longrightarrow> length q < 256 \<Longrightarrow> branch_at sha f p = branch_at sha g q"
  using node_at_Branch [of p f] node_at_Branch [of q g] by (simp add: branch_at_def)

lemma branches_hold_cong:
  "(\<And>p. length p < 256 \<Longrightarrow> fam p = fam' p) \<Longrightarrow> branches_hold sha bs fam = branches_hold sha bs fam'"
  unfolding branches_hold_def by (metis (no_types, lifting))

lemma half_done_inject:
  assumes "separated sha S f" "separated sha S g" "separated sha S h"
    and "length p < 256" "length q < 256"
    and "node_hash sha (node_at (half_done f g k i p) p) = node_hash sha (node_at h q)"
  shows "length p = length q \<and> node_at (half_done f g k i p) p = node_at h q"
proof -
  have "separated sha S (half_done f g k i p)" using assms(1,2) by (simp add: half_done_def)
  then have eq: "node_at (half_done f g k i p) p = node_at h q"
    using assms(3-6) by (intro node_at_hash_inject) auto
  with node_at_eqD [OF eq] assms(4,5) show ?thesis by simp
qed

lemma branches_hold_step:
  assumes sep: "separated sha S f" "separated sha S g" and dist: "distinct_leaves f"
    and k: "length k = 256" "i < 256"
    and l: "is_equal_node sha l (node_at g (take i k @ [False]))"
    and r: "is_equal_node sha r (node_at g (take i k @ [True]))"
    and hold: "branches_hold sha (branches s) (half_done f g k (Suc i))"
  shows "branches_hold sha
    (branches (replace_branch sha i (node_hash sha (node_at f (take i k))) (l, r) s)) (half_done f g k i)"
proof -
  let ?p = "take i k"
  let ?old = "node_hash sha (node_at f ?p)" and ?new = "node_hash sha (node_at g ?p)"
  let ?bs = "branches (replace_branch sha i ?old (l, r) s)"
  have len: "length ?p = i" using k by simp
  then have lt: "length ?p < 256" using k by simp
  have bs: "?bs = (let bs = (if occupied f ?p then (branches s)(?old := None) else branches s)
     in if occupied g ?p then bs(?new \<mapsto> branch_at sha g ?p) else bs)"
    using branches_replace_branch [OF sep, of ?p l r s] l r k len by simp
  have at: "half_done f g k i ?p = g" "half_done f g k (Suc i) ?p = f"
    using len by (simp_all add: half_done_def)
  have off: "half_done f g k i p = half_done f g k (Suc i) p" if "p \<noteq> ?p" for p
    using that by (auto simp: half_done_def not_less_eq_eq le_antisym)
  have kept: "?bs (node_hash sha (node_at (half_done f g k i p) p)) = Some (branch_at sha (half_done f g k i p) p)"
    if p: "length p < 256" "occupied (half_done f g k i p) p" "p \<noteq> ?p" for p
  proof -
    let ?h = "half_done f g k i p"
    have stored: "branches s (node_hash sha (node_at ?h p)) = Some (branch_at sha ?h p)"
      using hold p off [OF p(3)] by (simp add: branches_hold_def)
    have "branch_at sha ?h p = branch_at sha g ?p" if "node_hash sha (node_at ?h p) = ?new"
    proof (rule branch_at_cong)
      show "node_at ?h p = node_at g ?p"
        using half_done_inject [OF sep sep(2) p(1) lt that] by blast
    qed (use p(1) k(2) len in simp_all)
    moreover have "node_hash sha (node_at ?h p) \<noteq> ?old" if "occupied f ?p"
    proof
      assume hash: "node_hash sha (node_at ?h p) = ?old"
      have eq: "length p = i" "node_at ?h p = node_at f ?p"
        using half_done_inject [OF sep sep(1) p(1) lt hash] len by simp_all
      then have "?h = f" using p(3) by (simp add: half_done_def)
      with eq have "p = ?p" using distinct_subtrees [OF dist that, of p] len k(2) by simp
      with p(3) show False ..
    qed
    ultimately show ?thesis using stored by (auto simp: bs Let_def)
  qed
  have "\<exists>p. length p < 256 \<and> occupied (half_done f g k i p) p \<and> h = node_hash sha (node_at (half_done f g k i p) p)"
    if "h \<in> dom ?bs" for h
  proof (cases "occupied g ?p \<and> h = ?new")
    case True
    then show ?thesis using at len k(2) by (intro exI [of _ ?p]) simp
  next
    case False
    with that have "h \<in> dom (branches s)" "\<not> (occupied f ?p \<and> h = ?old)"
      by (auto simp: bs Let_def split: if_splits)
    then obtain p where p: "length p < 256" "occupied (half_done f g k (Suc i) p) p"
      "h = node_hash sha (node_at (half_done f g k (Suc i) p) p)"
      using hold unfolding branches_hold_def by blast
    with \<open>\<not> (occupied f ?p \<and> h = ?old)\<close> at(2) have "p \<noteq> ?p" by auto
    with p off show ?thesis by (intro exI [of _ p]) simp
  qed
  moreover have "?bs (node_hash sha (node_at (half_done f g k i p) p)) = Some (branch_at sha (half_done f g k i p) p)"
    if "length p < 256" "occupied (half_done f g k i p) p" for p
  proof (cases "p = ?p")
    case True
    then have "half_done f g k i p = g" "occupied g ?p" using at(1) that(2) by auto
    with True show ?thesis by (simp add: bs Let_def)
  qed (use kept that in blast)
  ultimately show ?thesis
    unfolding branches_hold_def by blast
qed

lemma replace_branch_other [simp]:
  "leaves (replace_branch sha i h b s) = leaves s"
  "compacted_leaves (replace_branch sha i h b s) = compacted_leaves s"
  "store_root (replace_branch sha i h b s) = store_root s"
  by (simp_all add: replace_branch_def Let_def insert_branch_def delete_branch_def)

lemma step_order_children:
  assumes "i < 256" "is_equal_node sha cur (node_at g (take i (key_bits key) @ [bit_index i key]))"
    and "is_equal_node sha sib (node_at g (take i (key_bits key) @ [\<not> bit_index i key]))"
    and "step_order i key cur sib = (l, r)"
  shows "is_equal_node sha l (node_at g (take i (key_bits key) @ [False]))"
    and "is_equal_node sha r (node_at g (take i (key_bits key) @ [True]))"
    and "is_equal_node sha (Branch l r) (node_at g (take i (key_bits key)))"
proof -
  show l: "is_equal_node sha l (node_at g (take i (key_bits key) @ [False]))"
    and r: "is_equal_node sha r (node_at g (take i (key_bits key) @ [True]))"
    using assms(2-4) by (auto simp: step_order_def split: if_splits)
  have "length (take i (key_bits key)) < 256" using assms(1) by simp
  from l r show "is_equal_node sha (Branch l r) (node_at g (take i (key_bits key)))"
    unfolding node_at_Branch [OF \<open>length (take i (key_bits key)) < 256\<close>] by (simp add: is_equal_node_def)
qed

lemma walk_up_insert_at:
  assumes sep: "separated sha S f" "separated sha S g" and dist: "distinct_leaves f"
    and g: "g = f(key_bits key := leaf)"
    and sib: "\<And>j. j < 256 \<Longrightarrow>
      is_equal_node sha (sib j) (node_at f (take j (key_bits key) @ [\<not> bit_index j key]))"
  shows "i \<le> 256 \<Longrightarrow> is_equal_node sha cur (node_at g (take i (key_bits key))) \<Longrightarrow>
    branches_hold sha (branches s) (half_done f g (key_bits key) i) \<Longrightarrow>
    \<exists>root s'. walk_up_insert sha key i cur (map sib (rev [0..<i]))
        (map (\<lambda>j. node_hash sha (node_at f (take j (key_bits key)))) (rev [0..<i])) s = (root, s')
      \<and> is_equal_node sha root (node_at g []) \<and> (0 < i \<longrightarrow> (\<exists>l r. root = Branch l r \<and> kids_equal sha (l, r) g))
      \<and> branches_hold sha (branches s') (\<lambda>_. g) \<and> leaves s' = leaves s
      \<and> compacted_leaves s' = compacted_leaves s"
proof (induction i arbitrary: cur s)
  case 0
  have fam: "half_done f g (key_bits key) 0 p = g" if "p = take (length p) (key_bits key)" for p
    using that by (simp add: half_done_def)
  have "branches_hold sha (branches s) (\<lambda>_. g)"
  proof -
    have "node_at (half_done f g (key_bits key) 0 p) p = node_at g p
        \<and> occupied (half_done f g (key_bits key) 0 p) p = occupied g p" if "length p < 256" for p
      using that node_at_upd_off [of p "key_bits key" f leaf] occupied_upd_off [of p "key_bits key" f leaf]
      by (auto simp: half_done_def g)
    moreover from this have "branch_at sha (half_done f g (key_bits key) 0 p) p = branch_at sha g p"
      if "length p < 256" for p
      using that by (intro branch_at_cong) auto
    ultimately show ?thesis
      using "0.prems"(3) unfolding branches_hold_def by (metis (no_types, lifting))
  qed
  with 0 show ?case by simp
next
  case (Suc i)
  let ?k = "key_bits key" and ?old = "node_hash sha (node_at f (take i (key_bits key)))"
  from Suc.prems have i: "i < 256" by simp
  obtain l r where lr: "step_order i key cur (sib i) = (l, r)" by fastforce
  have "is_equal_node sha (sib i) (node_at g (take i ?k @ [\<not> bit_index i key]))"
    using sib [OF i] node_at_sibling [of i ?k f leaf] i by (simp add: g)
  note kids = step_order_children [OF i _ this lr]
  have cur: "is_equal_node sha cur (node_at g (take i ?k @ [bit_index i key]))"
    using Suc.prems(2) i by (simp add: take_Suc_key_bits)
  have "branches_hold sha (branches (replace_branch sha i ?old (l, r) s)) (half_done f g ?k i)"
    using kids [OF cur] Suc.prems(3) i by (intro branches_hold_step [OF sep dist]) auto
  from Suc.IH [OF _ kids(3) [OF cur] this] i obtain root s' where
    "walk_up_insert sha key i (Branch l r) (map sib (rev [0..<i]))
        (map (\<lambda>j. node_hash sha (node_at f (take j ?k))) (rev [0..<i])) (replace_branch sha i ?old (l, r) s) = (root, s')"
    "is_equal_node sha root (node_at g [])" "0 < i \<longrightarrow> (\<exists>l r. root = Branch l r \<and> kids_equal sha (l, r) g)"
    "branches_hold sha (branches s') (\<lambda>_. g)" "leaves s' = leaves s" "compacted_leaves s' = compacted_leaves s"
    by auto
  moreover from this have "\<exists>l r. root = Branch l r \<and> kids_equal sha (l, r) g"
    using kids(1,2) [OF cur] by (cases i) (auto simp: kids_equal_def)
  ultimately show ?case using lr by simp
qed

section \<open>The operations\<close>

lemma sibling_at_equal:
  assumes "represents sha s f" "separated sha S f" "j < 256"
  shows "is_equal_node sha (sibling_at sha s f key j)
    (node_at f (take j (key_bits key) @ [\<not> bit_index j key]))"
  using get_node_at [OF assms(1,2), of "take j (key_bits key) @ [\<not> bit_index j key]"] assms(3)
  by (simp add: sibling_at_def)

lemma insert_inner_at:
  assumes rep: "represents sha s f" and sep: "separated sha S f" "separated sha S (f(key_bits key := leaf))"
    and dist: "distinct_leaves f"
  obtains b s' where "insert_inner sha key leaf s = Ok (b, s')"
    and "is_equal_node sha (Branch (fst b) (snd b)) (node_at (f(key_bits key := leaf)) [])"
    and "kids_equal sha b (f(key_bits key := leaf))"
    and "branches_hold sha (branches s') (\<lambda>_. f(key_bits key := leaf))"
    and "leaves s' = leaves s" "compacted_leaves s' = Map.empty"
proof -
  let ?g = "f(key_bits key := leaf)"
  obtain trace where trace: "walk_down sha s key = Ok (f (key_bits key), trace)"
    and sibs: "map trace_sibling trace = map (sibling_at sha s f key) [0..<256]"
    and prevs: "map (\<lambda>e. node_hash sha (trace_parent e)) trace
        = map (\<lambda>j. node_hash sha (node_at f (take j (key_bits key)))) [0..<256]"
    by (rule walk_down_at [OF rep sep(1)])
  have hold: "branches_hold sha (branches s) (half_done f ?g (key_bits key) 256)"
    using rep branches_hold_cong [of "half_done f ?g (key_bits key) 256" "\<lambda>_. f"]
    by (simp add: represents_def half_done_def)
  have "is_equal_node sha (Leaf leaf) (node_at ?g (take 256 (key_bits key)))"
    by (simp add: node_at_Leaf is_equal_node_def)
  from walk_up_insert_at [OF sep dist refl sibling_at_equal [OF rep sep(1)] order_refl this hold]
  obtain l r s' where
    "walk_up_insert sha key 256 (Leaf leaf) (rev (map trace_sibling trace))
       (rev (map (\<lambda>e. node_hash sha (trace_parent e)) trace)) s = (Branch l r, s')"
    "is_equal_node sha (Branch l r) (node_at ?g [])" "kids_equal sha (l, r) ?g"
    "branches_hold sha (branches s') (\<lambda>_. ?g)"
    "leaves s' = leaves s" "compacted_leaves s' = compacted_leaves s"
    unfolding sibs prevs rev_map by auto
  with that [of "(l, r)" s'] trace rep show ?thesis
    by (simp add: insert_inner_def rev_map represents_def)
qed

lemma root_holds_update_root:
  "is_equal_node sha (Branch (fst b) (snd b)) (node_at f []) \<Longrightarrow>
    root_holds sha (store_root (update_root sha b s)) f"
  by (auto simp: root_holds_def update_root_def is_equal_node_def shallow_branch_def)

lemma kids_equal_shallow: "kids_equal sha b f \<Longrightarrow> kids_equal sha (shallow_branch sha b) f"
  by (simp add: kids_equal_def shallow_branch_def is_equal_node_def)

lemma leaves_hold_insert:
  assumes "leaves_hold sha ls f" "separated sha S (f(k := leaf))" "length k = 256"
  shows "leaves_hold sha (ls(leaf_hash sha leaf \<mapsto> leaf)) (f(k := leaf))"
proof -
  have "(f(k := leaf)) p = leaf" if "length p = 256" "leaf_hash sha ((f(k := leaf)) p) = leaf_hash sha leaf" for p
    using node_at_hash_inject [OF assms(2,2), of p k] that assms(3) by (simp add: node_at_Leaf)
  then show ?thesis
    using assms(1) by (fastforce simp: leaves_hold_def)
qed

lemma leaves_hold_delete:
  assumes "leaves_hold sha ls f" "length k = 256"
    and "\<And>p. length p = 256 \<Longrightarrow> p \<noteq> k \<Longrightarrow> f p \<noteq> leaf_empty \<Longrightarrow> leaf_hash sha (f p) \<noteq> h"
  shows "leaves_hold sha (ls(h := None)) (f(k := leaf_empty))"
  using assms by (auto simp: leaves_hold_def)

text \<open>Storing \<open>leaf\<close> (the empty leaf for a deletion) under \<open>key\<close> is admissible when the hash function still
  separates the trees, no leaf is stored twice, and, for a deletion, the key is not by
  chance the hash of another leaf (the code deletes the leaf entry under the key itself).\<close>

definition admissible :: "hash_fun \<Rightarrow> bytes set \<Rightarrow> content \<Rightarrow> bytes \<Rightarrow> LeafNode \<Rightarrow> bool" where
  "admissible sha S f key leaf \<longleftrightarrow>
     separated sha S (f(key_bits key := leaf)) \<and> distinct_leaves (f(key_bits key := leaf))
     \<and> (leaf = leaf_empty \<longrightarrow> (\<forall>p. length p = 256 \<longrightarrow> p \<noteq> key_bits key \<longrightarrow> f p \<noteq> leaf_empty \<longrightarrow>
           leaf_hash sha (f p) \<noteq> key))"

definition full_inv :: "hash_fun \<Rightarrow> bytes set \<Rightarrow> DefaultStore \<Rightarrow> content \<Rightarrow> bool" where
  "full_inv sha S s f \<longleftrightarrow>
     represents sha s f \<and> separated sha S f \<and> distinct_leaves f \<and> content_total f < 2 ^ 64"

lemma admissibleD:
  "admissible sha S f key leaf \<Longrightarrow> separated sha S (f(key_bits key := leaf))"
  "admissible sha S f key leaf \<Longrightarrow> distinct_leaves (f(key_bits key := leaf))"
  unfolding admissible_def by blast+

lemma full_invD:
  "full_inv sha S s f \<Longrightarrow> represents sha s f"
  "full_inv sha S s f \<Longrightarrow> separated sha S f"
  "full_inv sha S s f \<Longrightarrow> distinct_leaves f"
  "full_inv sha S s f \<Longrightarrow> content_total f < 2 ^ 64"
  by (simp_all add: full_inv_def)

lemma tree_get_at: "full_inv sha S s f \<Longrightarrow> tree_get sha key s = Ok (f (key_bits key))"
  by (rule walk_down_at [of sha s f S key]) (simp_all add: full_invD tree_get_def)

lemma root_node_branch: "\<exists>l r. root_node sha s = Branch l r"
proof (cases "store_root s")
  case None
  have "empty_tree sha 0 = empty_up sha (Suc 255)" by (simp add: empty_tree_def)
  with None show ?thesis unfolding root_node_def empty_up.simps by (simp add: Let_def)
qed (simp add: root_node_def)

lemma tree_root_node: "Branch (fst (tree_root sha s)) (snd (tree_root sha s)) = root_node sha s"
  using root_node_branch [of sha s] by (auto simp: tree_root_def)

lemma tree_root_at:
  "full_inv sha S s f \<Longrightarrow>
    is_equal_node sha (Branch (fst (tree_root sha s)) (snd (tree_root sha s))) (node_at f [])"
  unfolding tree_root_node by (simp add: full_inv_def root_node_represents)

lemma tree_root_kids: "full_inv sha S s f \<Longrightarrow> kids_equal sha (tree_root sha s) f"
proof (cases "store_root s")
  case None
  assume inv: "full_inv sha S s f"
  have "empty_tree sha 0 = empty_up sha (Suc 255)" by (simp add: empty_tree_def)
  then have root: "tree_root sha s = (computed (empty_hash sha 255) 0, computed (empty_hash sha 255) 0)"
    using None by (simp only: tree_root_def root_node_def option.case empty_up.simps Let_def
        as_branch.simps node_hash_empty_up node_sum_empty_up)
  have "\<not> occupied f []" using inv None by (simp add: full_inv_def represents_def root_holds_def)
  then have "\<not> occupied f [b]" for b using occupied_snoc [of f "[]" b] by auto
  then show ?thesis
    using not_occupied_node_at [of f "[False]"] not_occupied_node_at [of f "[True]"]
    by (simp add: kids_equal_def root is_equal_node_def)
      (simp add: node_at_def spec_node_no_content)
qed (simp add: full_inv_def represents_def tree_root_def root_node_def)

lemma tree_root_sum: "full_inv sha S s f \<Longrightarrow> unat (branch_sum (tree_root sha s)) = content_total f"
  using tree_root_at [of sha S s f]
  by (simp add: full_inv_def branch_sum_def is_equal_node_def node_sum_root unat_of_nat)

lemma tree_delete_at:
  assumes inv: "full_inv sha S s f" and adm: "admissible sha S f key leaf_empty"
  shows "\<exists>s'. tree_delete sha key s = Ok s' \<and> full_inv sha S s' (f(key_bits key := leaf_empty))"
proof -
  let ?g = "f(key_bits key := leaf_empty)"
  obtain b s' where ins: "insert_inner sha key leaf_empty s = Ok (b, s')"
    and root: "is_equal_node sha (Branch (fst b) (snd b)) (node_at ?g [])" "kids_equal sha b ?g"
    and s': "branches_hold sha (branches s') (\<lambda>_. ?g)" "leaves s' = leaves s" "compacted_leaves s' = Map.empty"
    by (rule insert_inner_at [OF full_invD(1,2) [OF inv] admissibleD(1) [OF adm] full_invD(3) [OF inv]])
  have "leaves_hold sha ((leaves s)(key := None)) ?g"
    using full_invD(1) [OF inv] adm
    by (intro leaves_hold_delete) (simp_all add: represents_def admissible_def)
  then have "represents sha (delete_leaf key (update_root sha b s')) ?g"
    using s' root_holds_update_root [OF root(1), of s'] kids_equal_shallow [OF root(2)]
    by (simp add: represents_def delete_leaf_def update_root_def)
  moreover have "content_total ?g < 2 ^ 64"
    using content_total_upd [of "key_bits key" f leaf_empty] inv by (simp add: full_inv_def)
  ultimately show ?thesis
    using adm ins by (simp add: tree_delete_def full_inv_def admissible_def)
qed

lemma tree_insert_at:
  assumes inv: "full_inv sha S s f" and adm: "admissible sha S f key leaf"
    and fits: "content_total f + unat (leaf_sum leaf) < 2 ^ 64"
  shows "\<exists>s'. tree_insert sha key leaf s = Ok s' \<and> full_inv sha S s' (f(key_bits key := leaf))"
proof -
  let ?g = "f(key_bits key := leaf)"
  have sum_ok: "check_sum_overflow_u64 (branch_sum (tree_root sha s)) (leaf_sum leaf) = Ok ()"
    using tree_root_sum [OF inv] fits by (simp add: check_sum_overflow_u64_def checked_add_eq_None_iff)
  show ?thesis
  proof (cases "leaf_is_empty leaf")
    case True
    then have "leaf = leaf_empty" by (simp add: leaf_is_empty_iff)
    then have "tree_insert sha key leaf s = tree_delete sha key s"
      using sum_ok by (simp add: tree_insert_def tree_delete_def)
    then show ?thesis using tree_delete_at [OF inv] adm \<open>leaf = leaf_empty\<close> by simp
  next
    case False
    obtain b s' where ins: "insert_inner sha key leaf s = Ok (b, s')"
      and root: "is_equal_node sha (Branch (fst b) (snd b)) (node_at ?g [])" "kids_equal sha b ?g"
      and s': "branches_hold sha (branches s') (\<lambda>_. ?g)" "leaves s' = leaves s" "compacted_leaves s' = Map.empty"
      by (rule insert_inner_at [OF full_invD(1,2) [OF inv] admissibleD(1) [OF adm] full_invD(3) [OF inv]])
    have "leaves_hold sha ((leaves s)(leaf_hash sha leaf \<mapsto> leaf)) ?g"
      using full_invD(1) [OF inv] adm
      by (intro leaves_hold_insert [of _ _ _ S]) (simp_all add: represents_def admissible_def)
    then have "represents sha (insert_leaf sha leaf (update_root sha b s')) ?g"
      using s' root_holds_update_root [OF root(1), of s'] kids_equal_shallow [OF root(2)]
      by (simp add: represents_def insert_leaf_def update_root_def)
    moreover have "content_total ?g < 2 ^ 64"
      using content_total_upd [of "key_bits key" f leaf] fits by simp
    ultimately show ?thesis
      using adm ins False sum_ok by (simp add: tree_insert_def full_inv_def admissible_def)
  qed
qed

lemma tree_insert_overflow:
  assumes "full_inv sha S s f" "2 ^ 64 \<le> content_total f + unat (leaf_sum leaf)"
  shows "tree_insert sha key leaf s = Err (IntegerOverflow (branch_sum (tree_root sha s)) (leaf_sum leaf))"
  using tree_root_sum [OF assms(1)] assms(2)
  by (simp add: tree_insert_def check_sum_overflow_u64_def checked_add_eq_None_iff)

lemma proof_up_at:
  assumes "\<And>j. j < 256 \<Longrightarrow>
      is_equal_node sha (sib j) (node_at f (take j (key_bits key) @ [\<not> bit_index j key]))"
  shows "i \<le> 256 \<Longrightarrow> is_equal_node sha cur (node_at f (take i (key_bits key))) \<Longrightarrow>
    is_equal_node sha (proof_up key i cur (map sib (rev [0..<i]))) (node_at f [])"
proof (induction i arbitrary: cur)
  case (Suc i)
  obtain l r where lr: "step_order i key cur (sib i) = (l, r)" by fastforce
  from Suc.prems have "is_equal_node sha (Branch l r) (node_at f (take i (key_bits key)))"
    using step_order_children(3) [OF _ _ assms lr] by (simp add: take_Suc_key_bits)
  with Suc.IH [of "Branch l r"] Suc.prems lr show ?case by simp
qed simp

lemma proof_up_kids:
  assumes "\<And>j. j < 256 \<Longrightarrow>
      is_equal_node sha (sib j) (node_at f (take j (key_bits key) @ [\<not> bit_index j key]))"
  shows "i \<le> 256 \<Longrightarrow> 0 < i \<Longrightarrow> is_equal_node sha cur (node_at f (take i (key_bits key))) \<Longrightarrow>
    \<exists>l r. proof_up key i cur (map sib (rev [0..<i])) = Branch l r \<and> kids_equal sha (l, r) f"
proof (induction i arbitrary: cur)
  case (Suc i)
  obtain l r where lr: "step_order i key cur (sib i) = (l, r)" by fastforce
  from Suc.prems have i: "i < 256" and cur: "is_equal_node sha cur (node_at f (take i (key_bits key) @ [bit_index i key]))"
    by (simp_all add: take_Suc_key_bits)
  note kids = step_order_children [OF i cur assms [OF i] lr]
  show ?case
  proof (cases "i = 0")
    case False
    with Suc.IH [OF _ _ kids(3)] i lr show ?thesis by simp
  qed (use lr kids(1,2) in \<open>simp add: kids_equal_def\<close>)
qed simp

text \<open>The proof of a key leads from the key's leaf to a root whose two children are those of the tree.\<close>

lemma tree_merkle_proof_kids:
  assumes "full_inv sha S s f"
  shows "\<exists>p. tree_merkle_proof sha key s = Ok p \<and> length p = 256
    \<and> kids_equal sha (proof_root key (Leaf (f (key_bits key))) p) f"
proof -
  have rep: "represents sha s f" "separated sha S f" using assms by (simp_all add: full_inv_def)
  obtain trace where trace: "walk_down sha s key = Ok (f (key_bits key), trace)"
    and sibs: "map trace_sibling trace = map (sibling_at sha s f key) [0..<256]"
    by (rule walk_down_at [OF rep])
  let ?p = "map (sibling_at sha s f key) (rev [0..<256])"
  have "map trace_sibling (rev trace) = ?p" using sibs by (metis rev_map)
  moreover have "is_equal_node sha (Leaf (f (key_bits key))) (node_at f (take 256 (key_bits key)))"
    by (simp add: is_equal_node_def node_at_Leaf)
  then obtain l r where "proof_up key 256 (Leaf (f (key_bits key))) ?p = Branch l r" "kids_equal sha (l, r) f"
    using proof_up_kids [OF sibling_at_equal [OF rep] order_refl] by (metis zero_less_numeral)
  then have "kids_equal sha (proof_root key (Leaf (f (key_bits key))) ?p) f"
    by (simp add: proof_root_def)
  ultimately show ?thesis using trace by (simp add: tree_merkle_proof_def)
qed

lemma kids_equal_node:
  "kids_equal sha b f \<Longrightarrow> is_equal_node sha (Branch (fst b) (snd b)) (node_at f [])"
  by (simp add: kids_equal_def is_equal_node_def node_at_Branch [of "[]"])

lemma tree_merkle_proof_at:
  assumes "full_inv sha S s f"
  shows "\<exists>p. tree_merkle_proof sha key s = Ok p \<and> length p = 256
    \<and> verify_merkle_proof sha key (f (key_bits key)) p
        (Branch (fst (tree_root sha s)) (snd (tree_root sha s)))"
proof -
  obtain p where p: "tree_merkle_proof sha key s = Ok p" "length p = 256"
    "kids_equal sha (proof_root key (Leaf (f (key_bits key))) p) f"
    using tree_merkle_proof_kids [OF assms] by blast
  then have "verify_merkle_proof sha key (f (key_bits key)) p (node_at f [])"
    using kids_equal_node [OF p(3)] by (auto simp only: verify_merkle_proof_def Let_def split: prod.splits) simp
  with p(1,2) tree_root_at [OF assms] show ?thesis
    unfolding verify_merkle_proof_def is_equal_node_def by auto
qed

interpretation full: sum_tree "full_inv sha S" "admissible sha S" sha "tree_get sha" "tree_insert sha"
  "tree_delete sha" "tree_merkle_proof sha" "tree_root sha" for sha S
  by unfold_locales
    (fact tree_get_at tree_insert_at tree_insert_overflow tree_delete_at tree_merkle_proof_at
      tree_root_at full_invD(4))+

lemma full_inv_new: "separated sha S no_content \<Longrightarrow> full_inv sha S full_tree_new no_content"
  using represents_new [of sha]
  by (simp add: full_inv_def full_tree_new_def distinct_leaves_def content_total_def no_content_def)

section \<open>A hash function that separates a one-leaf tree\<close>

text \<open>\<open>demo_hash\<close> records the height of a node and whether a non-empty leaf is below it. It satisfies the
  hypotheses of the refinement for every tree with at most one leaf.\<close>

definition demo_digest :: "nat \<Rightarrow> bool \<Rightarrow> bytes" where
  "demo_digest d b = u16_be (of_nat d) @ (if b then 1 else 0) # zeros 29"

definition demo_hash :: hash_fun where
  "demo_hash x =
     (if length x = 72
      then demo_digest (unat (be_u16 (take 2 x)) + 1) (x ! 2 = 1 \<or> x ! 34 = 1)
      else demo_digest 0 (x \<noteq> leaf_preimage leaf_empty))"

lemma sha_32_demo_hash: "sha_32 demo_hash"
  by (simp add: sha_32_def demo_hash_def demo_digest_def)

lemma demo_digest_inject: "d < 65536 \<Longrightarrow> e < 65536 \<Longrightarrow> demo_digest d a = demo_digest e b \<longleftrightarrow> d = e \<and> a = b"
  by (auto simp: demo_digest_def append_eq_append_conv_length word_unat_eq_iff unat_of_nat
      split: if_splits)

lemma demo_hash_branch:
  assumes "d < 65535"
  shows "demo_hash (branch_preimage (demo_digest d a) (demo_digest d b) s) = demo_digest (d + 1) (a \<or> b)"
  using assms
  by (simp add: demo_hash_def branch_preimage_def demo_digest_def nth_append unat_of_nat)

text \<open>Contents with at most one leaf, under \<open>k\<close>.\<close>

definition single :: "path \<Rightarrow> content \<Rightarrow> bool" where
  "single k f \<longleftrightarrow> length k = 256 \<and> leaf_sized f \<and> (\<forall>p. p \<noteq> k \<longrightarrow> f p = leaf_empty)"

lemma occupied_children:
  "length p < 256 \<Longrightarrow> occupied f p \<longleftrightarrow> occupied f (p @ [False]) \<or> occupied f (p @ [True])"
proof
  assume len: "length p < 256" and "occupied f p"
  then obtain r where r: "length r = 256 - length p" "f (p @ r) \<noteq> leaf_empty" by (auto simp: occupied_def)
  with len obtain b r' where "r = b # r'" by (cases r) auto
  with r show "occupied f (p @ [False]) \<or> occupied f (p @ [True])"
    unfolding occupied_def by (cases b) (auto intro!: exI [of _ r'])
qed (auto intro: occupied_snoc)

lemma demo_hash_node:
  assumes "leaf_sized f" "length p \<le> 256"
  shows "node_hash demo_hash (node_at f p) = demo_digest (256 - length p) (occupied f p)"
  using assms(2)
proof (induction "256 - length p" arbitrary: p)
  case 0
  then have "length p = 256" by simp
  with assms(1) show ?case
    by (simp add: node_at_Leaf leaf_hash_def demo_hash_def leaf_sized_def leaf_preimage_inject occupied_def)
next
  case (Suc d)
  then have len: "length p < 256" and d: "255 - length p = d" by simp_all
  have "node_hash demo_hash (node_at f (p @ [b])) = demo_digest d (occupied f (p @ [b]))" for b
    using Suc(1) [of "p @ [b]"] len d by simp
  then have "node_hash demo_hash (node_at f p) = demo_digest (d + 1) (occupied f p)"
    using len d by (simp add: node_at_Branch demo_hash_branch occupied_children [of p])
  with Suc(2) show ?case by simp
qed

text \<open>The string hashed for a node, and all strings hashed for a tree.\<close>

fun own_preimage :: "hash_fun \<Rightarrow> Node \<Rightarrow> bytes" where
  "own_preimage sha (Branch l r) = branch_preimage (node_hash sha l) (node_hash sha r) (node_sum l + node_sum r)"
| "own_preimage sha (Leaf l) = leaf_preimage l"
| "own_preimage sha _ = []"

lemma node_preimages_cover:
  "length p + d = 256 \<Longrightarrow> node_preimages sha (spec_node f d p)
    \<subseteq> {own_preimage sha (node_at f q) | q. length q \<le> 256}"
proof (induction d arbitrary: p)
  case 0
  then show ?case by (auto simp: node_at_def intro!: exI [of _ p])
next
  case (Suc d)
  then have sub: "node_preimages sha (spec_node f d (p @ [b]))
      \<subseteq> {own_preimage sha (node_at f q) | q. length q \<le> 256}" for b
    by simp
  have "256 - length p = Suc d" using Suc.prems by simp
  then have "spec_node f (Suc d) p = node_at f p" by (simp only: node_at_def)
  then have "own_preimage sha (spec_node f (Suc d) p)
      \<in> {own_preimage sha (node_at f q) | q. length q \<le> 256}"
    using Suc.prems by (intro CollectI exI [of _ p]) simp
  with sub [of False] sub [of True] show ?case by auto
qed

lemma tree_preimages_cover:
  "x \<in> tree_preimages sha f \<Longrightarrow> \<exists>q. length q \<le> 256 \<and> x = own_preimage sha (node_at f q)"
  using node_preimages_cover [of "[]" 256 sha f] unfolding tree_preimages_def node_at_def by auto

lemma sha_own_preimage:
  "length p \<le> 256 \<Longrightarrow> sha (own_preimage sha (node_at f p)) = node_hash sha (node_at f p)"
  unfolding node_at_def by (cases "256 - length p") (simp_all add: leaf_hash_def)

lemma single_node_eq:
  assumes "single k f" "single k g" "f = g \<or> g = no_content \<or> f = no_content"
    and "length p = length q" "occupied f p \<longleftrightarrow> occupied g q"
  shows "node_at f p = node_at g q"
proof (cases "occupied f p")
  case True
  obtain r where r: "f (p @ r) \<noteq> leaf_empty" using True by (auto simp: occupied_def)
  obtain r' where r': "g (q @ r') \<noteq> leaf_empty" using True assms(5) by (auto simp: occupied_def)
  have "k = p @ r" "k = q @ r'" using assms(1,2) r r' by (auto simp: single_def)
  then have "p = q" using assms(4) by (metis append_eq_append_conv)
  moreover have "f = g" using assms(3) r r' by (auto simp: no_content_def)
  ultimately show ?thesis by simp
next
  case False
  then have "node_at f p = node_at no_content p" "node_at g q = node_at no_content q"
    using assms(5) by (simp_all add: not_occupied_node_at)
  moreover have "node_at no_content p = node_at no_content q"
    unfolding node_at_def using assms(4) by (auto intro: spec_node_cong simp: no_content_def)
  ultimately show ?thesis by simp
qed

lemma single_no_content: "length k = 256 \<Longrightarrow> single k no_content"
  by (simp add: single_def) (simp add: no_content_def)

lemma demo_hash_separated:
  assumes "single k f"
  shows "separated demo_hash (tree_preimages demo_hash f \<union> tree_preimages demo_hash no_content) f"
proof -
  let ?S = "tree_preimages demo_hash f \<union> tree_preimages demo_hash no_content"
  have k: "single k no_content" using assms by (intro single_no_content) (simp add: single_def)
  have cover: "\<exists>g p. g \<in> {f, no_content} \<and> length p \<le> 256 \<and> x = own_preimage demo_hash (node_at g p)
      \<and> demo_hash x = demo_digest (256 - length p) (occupied g p)" if "x \<in> ?S" for x
  proof -
    from that obtain g where g: "g \<in> {f, no_content}" "x \<in> tree_preimages demo_hash g"
      by (elim UnE) auto
    from tree_preimages_cover [OF g(2)] obtain p
      where p: "length p \<le> 256" "x = own_preimage demo_hash (node_at g p)"
      by (elim exE conjE)
    moreover have "leaf_sized g" using g(1) assms k unfolding single_def by auto
    ultimately have "demo_hash x = demo_digest (256 - length p) (occupied g p)"
      using demo_hash_node [of g p] sha_own_preimage [of p demo_hash g] by simp
    with g(1) p show ?thesis by (intro exI conjI)
  qed
  have "inj_on demo_hash ?S"
  proof (rule inj_onI)
    fix x y assume x: "x \<in> ?S" and y: "y \<in> ?S" and eq: "demo_hash x = demo_hash y"
    from cover [OF x] obtain g p where g: "g \<in> {f, no_content}" "length p \<le> 256"
      "x = own_preimage demo_hash (node_at g p)" "demo_hash x = demo_digest (256 - length p) (occupied g p)"
      by (elim exE conjE)
    from cover [OF y] obtain h q where h: "h \<in> {f, no_content}" "length q \<le> 256"
      "y = own_preimage demo_hash (node_at h q)" "demo_hash y = demo_digest (256 - length q) (occupied h q)"
      by (elim exE conjE)
    have "256 - length p = 256 - length q \<and> occupied g p = occupied h q"
      using demo_digest_inject [of "256 - length p" "256 - length q" "occupied g p" "occupied h q"]
        eq [unfolded g(4) h(4)] by simp
    moreover from this have "length p = length q" using g(2) h(2) by linarith
    moreover have "single k g" "single k h" using g(1) h(1) assms k by blast+
    moreover have "g = h \<or> h = no_content \<or> g = no_content" using g(1) h(1) by blast
    ultimately have "node_at g p = node_at h q" using single_node_eq by blast
    with g(3) h(3) show "x = y" by simp
  qed
  moreover have "leaf_sized f" using assms unfolding single_def by (elim conjE)
  ultimately show ?thesis
    unfolding separated_def by (intro conjI sha_32_demo_hash Un_upper1 Un_upper2)
qed

lemma single_upd: "length (leaf_value l) \<noteq> 64 \<Longrightarrow> length k = 256 \<Longrightarrow> single k (no_content(k := l))"
  by (simp add: single_def leaf_sized_def no_content_def)

lemma distinct_leaves_single: "single k f \<Longrightarrow> distinct_leaves f"
  unfolding single_def distinct_leaves_def by metis

text \<open>Everything a tree with the one leaf \<open>l\<close> hashes; such a tree can be built with \<open>demo_hash\<close>.\<close>

definition single_set :: "bytes \<Rightarrow> LeafNode \<Rightarrow> bytes set" where
  "single_set key l = tree_preimages demo_hash (no_content(key_bits key := l)) \<union> tree_preimages demo_hash no_content"

lemma content_total_no_content: "content_total no_content = 0"
  by (simp add: content_total_def no_content_def)

lemma demo_single_leaf:
  assumes "length (leaf_value l) \<noteq> 64" "l \<noteq> leaf_empty"
  shows "separated demo_hash (single_set key l) (no_content(key_bits key := l))"
    and "separated demo_hash (single_set key l) no_content"
    and "admissible demo_hash (single_set key l) no_content key l"
    and "\<exists>s. tree_insert demo_hash key l full_tree_new = Ok s"
proof -
  have single: "single (key_bits key) (no_content(key_bits key := l))"
    using assms(1) by (intro single_upd) simp_all
  then show sep: "separated demo_hash (single_set key l) (no_content(key_bits key := l))"
    unfolding single_set_def by (rule demo_hash_separated)
  then show empty: "separated demo_hash (single_set key l) no_content" by (rule separated_no_content)
  from sep distinct_leaves_single [OF single] assms(2)
  show adm: "admissible demo_hash (single_set key l) no_content key l" unfolding admissible_def by blast
  have "content_total no_content + unat (leaf_sum l) < 2 ^ 64"
    using unat_lt2p [of "leaf_sum l"] by (simp add: content_total_no_content del: unat_u64_less)
  with tree_insert_at [OF full_inv_new [OF empty] adm]
  show "\<exists>s. tree_insert demo_hash key l full_tree_new = Ok s" by blast
qed

definition demo_key :: bytes where "demo_key = zeros 32"
definition demo_leaf :: LeafNode where "demo_leaf = leaf_new [1, 2, 3] 1000"
definition demo_set :: "bytes set" where
  "demo_set = single_set demo_key demo_leaf"

lemma demo_leaf_facts: "length (leaf_value demo_leaf) \<noteq> 64" "demo_leaf \<noteq> leaf_empty"
  by (simp_all add: demo_leaf_def leaf_empty_def leaf_new_def)

lemma demo_separated: "separated demo_hash demo_set (no_content(key_bits demo_key := demo_leaf))"
  unfolding demo_set_def by (rule demo_single_leaf(1) [OF demo_leaf_facts])

lemma demo_admissible:
  "admissible demo_hash demo_set no_content demo_key demo_leaf"
  "admissible demo_hash demo_set (no_content(key_bits demo_key := demo_leaf)) demo_key leaf_empty"
proof -
  show "admissible demo_hash demo_set no_content demo_key demo_leaf"
    unfolding demo_set_def by (rule demo_single_leaf(3) [OF demo_leaf_facts])
  have "(no_content(key_bits demo_key := demo_leaf))(key_bits demo_key := leaf_empty) = no_content"
    by (simp add: fun_eq_iff) (simp add: no_content_def)
  moreover have "distinct_leaves no_content" by (simp add: distinct_leaves_def no_content_def)
  ultimately show
    "admissible demo_hash demo_set (no_content(key_bits demo_key := demo_leaf)) demo_key leaf_empty"
    using separated_no_content [OF demo_separated]
    by (auto simp: admissible_def) (simp add: no_content_def)
qed

lemma demo_total: "content_total (no_content(key_bits demo_key := demo_leaf)) = 1000"
  using content_total_upd [of "key_bits demo_key" no_content demo_leaf] content_total_no_content
  by (simp add: demo_leaf_def leaf_new_def no_content_def)

lemma demo_ops:
  "admissible_ops (admissible demo_hash demo_set) [OpInsert demo_key demo_leaf] no_content"
  "admissible_ops (admissible demo_hash demo_set) [OpInsert demo_key demo_leaf, OpDelete demo_key] no_content"
  using demo_admissible demo_total content_total_no_content
  by (simp_all add: demo_leaf_def leaf_new_def del: fun_upd_apply)

section \<open>Properties\<close>

text \<open>C2: the full tree implements the map specification. From an empty store, any sequence of
  insertions and deletions whose trees the hash function separates, that never stores
  one leaf under two keys and never overflows the sum, runs without error, and afterwards every lookup
  returns the leaf last stored (the empty leaf for an absent or deleted key), every generated
  Merkle proof verifies against the root, for absent keys as for present ones, and the root carries
  the exact sum of all leaves.\<close>

theorem full_tree_refines:
  assumes "separated sha S no_content" "admissible_ops (admissible sha S) ops no_content"
  shows "\<exists>s. run_ops (tree_insert sha) (tree_delete sha) ops full_tree_new = Ok s
    \<and> (\<forall>key. tree_get sha key s = Ok (apply_ops ops no_content (key_bits key)))
    \<and> (\<forall>key. \<exists>p. tree_merkle_proof sha key s = Ok p \<and> length p = 256 \<and>
         verify_merkle_proof sha key (apply_ops ops no_content (key_bits key)) p
           (Branch (fst (tree_root sha s)) (snd (tree_root sha s))))
    \<and> unat (branch_sum (tree_root sha s)) = content_total (apply_ops ops no_content)"
  by (rule full.run_ops_correct [OF full_inv_new [OF assms(1)] assms(2)])

theorem full_tree_refines_witness:
  "\<exists>s. run_ops (tree_insert demo_hash) (tree_delete demo_hash) [OpInsert demo_key demo_leaf] full_tree_new = Ok s
    \<and> tree_get demo_hash demo_key s = Ok demo_leaf \<and> branch_sum (tree_root demo_hash s) = 1000"
proof -
  from full_tree_refines [OF separated_no_content [OF demo_separated] demo_ops(1)] obtain s where
    "run_ops (tree_insert demo_hash) (tree_delete demo_hash) [OpInsert demo_key demo_leaf] full_tree_new = Ok s"
    "tree_get demo_hash demo_key s = Ok demo_leaf" "unat (branch_sum (tree_root demo_hash s)) = 1000"
    using demo_total by auto
  moreover from this(3) have "branch_sum (tree_root demo_hash s) = 1000"
    by (simp add: word_unat_eq_iff)
  ultimately show ?thesis by blast
qed

text \<open>The root of a full tree depends on its content alone. Two admissible sequences of
  insertions and deletions that leave the same leaves under the same keys, in whatever order and
  through whatever intermediate leaves, end with the same root hash and root sum.\<close>

theorem full_tree_history_independent:
  assumes "separated sha S no_content"
    and "admissible_ops (admissible sha S) ops no_content" "admissible_ops (admissible sha S) ops' no_content"
    and "apply_ops ops no_content = apply_ops ops' no_content"
  shows "\<exists>a b. run_ops (tree_insert sha) (tree_delete sha) ops full_tree_new = Ok a
    \<and> run_ops (tree_insert sha) (tree_delete sha) ops' full_tree_new = Ok b
    \<and> branch_hash sha (tree_root sha a) = branch_hash sha (tree_root sha b)
    \<and> branch_sum (tree_root sha a) = branch_sum (tree_root sha b)"
  by (rule full.history_independent [OF full_inv_new [OF assms(1)] assms(2-4)])

theorem full_tree_history_independent_witness:
  "\<exists>a. run_ops (tree_insert demo_hash) (tree_delete demo_hash)
      [OpInsert demo_key demo_leaf, OpDelete demo_key] full_tree_new = Ok a
    \<and> branch_hash demo_hash (tree_root demo_hash a) = branch_hash demo_hash (tree_root demo_hash full_tree_new)"
proof -
  have "apply_ops [OpInsert demo_key demo_leaf, OpDelete demo_key] no_content = apply_ops [] no_content"
    by (simp add: fun_eq_iff) (simp add: no_content_def)
  from full_tree_history_independent
    [OF separated_no_content [OF demo_separated] demo_ops(2) _ this]
  show ?thesis by auto
qed

text \<open>An insertion that could take the sum of the tree past 64 bits is refused. After any admissible
  sequence of operations, inserting a leaf whose amount and the current total exceed the
  largest 64-bit number returns the overflow error with the two operands.\<close>

theorem full_tree_overflow_rejected:
  assumes "separated sha S no_content" "admissible_ops (admissible sha S) ops no_content"
    and "2 ^ 64 \<le> content_total (apply_ops ops no_content) + unat (leaf_sum leaf)"
  shows "\<exists>s. run_ops (tree_insert sha) (tree_delete sha) ops full_tree_new = Ok s
    \<and> tree_insert sha key leaf s = Err (IntegerOverflow (branch_sum (tree_root sha s)) (leaf_sum leaf))"
  by (rule full.overflow_rejected [OF full_inv_new [OF assms(1)] assms(2,3)])

theorem full_tree_overflow_rejected_witness:
  "\<exists>s. run_ops (tree_insert demo_hash) (tree_delete demo_hash) [OpInsert demo_key demo_leaf] full_tree_new = Ok s
    \<and> tree_insert demo_hash [7] (leaf_new [9] (- 1)) s
        = Err (IntegerOverflow (branch_sum (tree_root demo_hash s)) (- 1))"
proof -
  have "2 ^ 64 \<le> content_total (apply_ops [OpInsert demo_key demo_leaf] no_content)
      + unat (leaf_sum (leaf_new [9] (- 1)))"
    using demo_total by (simp add: leaf_new_def unat_minus_one)
  from full_tree_overflow_rejected [OF separated_no_content [OF demo_separated] demo_ops(1) this]
  show ?thesis by (simp add: leaf_new_def)
qed

end
