(* ===== verification/Btree.thy ===== *)
theory Btree
  imports Prelude "HOL-Library.List_Lexorder"
begin

text \<open>
  Rust's \<^verbatim>\<open>BTreeMap\<close> as the code uses it: an association list in strictly ascending order of its
  keys, so that iterating over the map is reading the list. Byte arrays compare lexicographically, as the
  library's order on lists does.
\<close>

fun btree_insert :: "'k::linorder \<Rightarrow> 'v \<Rightarrow> ('k \<times> 'v) list \<Rightarrow> ('k \<times> 'v) list" where
  "btree_insert k v [] = [(k, v)]"
| "btree_insert k v ((k', v') # kvs) =
     (if k < k' then (k, v) # (k', v') # kvs
      else if k = k' then (k, v) # kvs
      else (k', v') # btree_insert k v kvs)"

definition btree_remove :: "'k \<Rightarrow> ('k \<times> 'v) list \<Rightarrow> ('k \<times> 'v) list" where
  "btree_remove k kvs = filter (\<lambda>(k', _). k' \<noteq> k) kvs"

definition btree_keys :: "('k \<times> 'v) list \<Rightarrow> 'k list" where
  "btree_keys kvs = map fst kvs"

definition btree_values :: "('k \<times> 'v) list \<Rightarrow> 'v list" where
  "btree_values kvs = map snd kvs"

definition btree_sorted :: "('k::linorder \<times> 'v) list \<Rightarrow> bool" where
  "btree_sorted kvs \<longleftrightarrow> sorted_wrt (<) (map fst kvs)"

lemma btree_insert_keys: "fst ` set (btree_insert k v kvs) = insert k (fst ` set kvs)"
  by (induction k v kvs rule: btree_insert.induct) auto

lemma btree_sorted_insert: "btree_sorted kvs \<Longrightarrow> btree_sorted (btree_insert k v kvs)"
  unfolding btree_sorted_def
proof (induction k v kvs rule: btree_insert.induct)
  case (2 k v k' v' kvs)
  have "fst ` set (btree_insert k v kvs) = insert k (fst ` set kvs)" by (rule btree_insert_keys)
  with 2 show ?case by (fastforce simp: image_iff)
qed simp

lemma btree_sorted_remove: "btree_sorted kvs \<Longrightarrow> btree_sorted (btree_remove k kvs)"
  by (induction kvs) (auto simp: btree_sorted_def btree_remove_def)

lemma btree_sorted_distinct: "btree_sorted kvs \<Longrightarrow> distinct (map fst kvs)"
  by (simp add: btree_sorted_def strict_sorted_iff)

lemma map_of_btree_insert [simp]: "btree_sorted kvs \<Longrightarrow> map_of (btree_insert k v kvs) = (map_of kvs)(k \<mapsto> v)"
proof (induction k v kvs rule: btree_insert.induct)
  case (2 k v k' v' kvs)
  then show ?case by (auto simp: btree_sorted_def fun_eq_iff)
qed simp

lemma map_of_btree_remove [simp]: "map_of (btree_remove k kvs) = (map_of kvs)(k := None)"
  by (induction kvs) (auto simp: btree_remove_def)

lemma set_btree_values: "btree_sorted kvs \<Longrightarrow> set (btree_values kvs) = ran (map_of kvs)"
  by (simp add: btree_values_def ran_distinct [OF btree_sorted_distinct])

lemma btree_sorted_Nil [simp]: "btree_sorted []"
  by (simp add: btree_sorted_def)

end
