(* ===== verification/Tapscript.thy ===== *)
theory Tapscript
  imports Btree Mssmt_Proof
begin

text \<open>
  Tapscript leaves, branches and trees: \<^verbatim>\<open>tap-primitives/src/crypto/tapscript.rs\<close>. SHA-256 is the
  parameter \<open>sha\<close>; an x-only internal key is its 32 serialised bytes. The tweak of the internal key is a call into
  the secp256k1 crate and is not modelled.
\<close>

definition ascii :: "string \<Rightarrow> bytes" where
  "ascii s = map (\<lambda>c. of_char c) s"

definition u64_le :: "u64 \<Rightarrow> bytes" where "u64_le w = rev (u64_be w)"

definition encode_compact_size :: "nat \<Rightarrow> bytes" where
  "encode_compact_size n =
     (if n < 253 then [of_nat n]
      else if n \<le> 0xFFFF then 253 # u16_le (of_nat n)
      else if n \<le> 0xFFFFFFFF then 254 # u32_le (of_nat n)
      else 255 # u64_le (of_nat n))"

definition tap_leaf_hash :: "hash_fun \<Rightarrow> u8 \<Rightarrow> bytes \<Rightarrow> bytes" where
  "tap_leaf_hash sha leaf_version script =
     (let tag_hash = sha (ascii ''TapLeaf'')
      in sha (tag_hash @ tag_hash @ [leaf_version] @ encode_compact_size (length script) @ script))"

definition tap_branch_hash :: "hash_fun \<Rightarrow> bytes \<Rightarrow> bytes \<Rightarrow> bytes" where
  "tap_branch_hash sha a b =
     (let tag_hash = sha (ascii ''TapBranch'')
      in sha (tag_hash @ tag_hash @ (if a \<le> b then a @ b else b @ a)))"

section \<open>Trees of leaves\<close>

record TapscriptLeaf =
  tsl_version :: u8
  tsl_script :: bytes

type_synonym TapscriptTree = "TapscriptLeaf list"

definition TAPSCRIPT_VERSION :: u8 where "TAPSCRIPT_VERSION = 0xC0"

definition tapscript_leaf_new :: "bytes \<Rightarrow> TapscriptLeaf" where
  "tapscript_leaf_new script = \<lparr>tsl_version = TAPSCRIPT_VERSION, tsl_script = script\<rparr>"

definition tapscript_leaf_hash :: "hash_fun \<Rightarrow> TapscriptLeaf \<Rightarrow> bytes" where
  "tapscript_leaf_hash sha l = tap_leaf_hash sha (tsl_version l) (tsl_script l)"

definition tapscript_single :: "TapscriptLeaf \<Rightarrow> TapscriptTree" where
  "tapscript_single leaf = [leaf]"

definition tapscript_two_leaves :: "TapscriptLeaf \<Rightarrow> TapscriptLeaf \<Rightarrow> TapscriptTree" where
  "tapscript_two_leaves a b = [a, b]"

text \<open>One round of \<^verbatim>\<open>for chunk in hashes.chunks(2)\<close>: pairs are combined, a last odd hash is kept.\<close>

fun branch_chunks :: "hash_fun \<Rightarrow> bytes list \<Rightarrow> bytes list" where
  "branch_chunks sha (a # b # hs) = tap_branch_hash sha a b # branch_chunks sha hs"
| "branch_chunks sha hs = hs"

lemma length_branch_chunks [simp]: "length (branch_chunks sha hs) = (length hs + 1) div 2"
  by (induction sha hs rule: branch_chunks.induct) auto

text \<open>\<^verbatim>\<open>while hashes.len() > 1\<close>.\<close>

function chunks_root :: "hash_fun \<Rightarrow> bytes list \<Rightarrow> bytes list" where
  "chunks_root sha hs = (if 1 < length hs then chunks_root sha (branch_chunks sha hs) else hs)"
  by pat_completeness auto
termination by (relation "measure (length \<circ> snd)") auto

definition tapscript_merkle_root :: "hash_fun \<Rightarrow> TapscriptTree \<Rightarrow> bytes" where
  "tapscript_merkle_root sha lvs =
     (case lvs of
        [] \<Rightarrow> zeros 32
      | [l] \<Rightarrow> tapscript_leaf_hash sha l
      | [a, b] \<Rightarrow> tap_branch_hash sha (tapscript_leaf_hash sha a) (tapscript_leaf_hash sha b)
      | _ \<Rightarrow> chunks_root sha (map (tapscript_leaf_hash sha) lvs) ! 0)"

text \<open>The loop of \<^verbatim>\<open>merkle_proof_path\<close>; an odd last node is promoted without a sibling.\<close>

function proof_path :: "hash_fun \<Rightarrow> bytes list \<Rightarrow> nat \<Rightarrow> bytes list" where
  "proof_path sha hs idx =
     (if 1 < length hs then
        if even idx then
          if idx + 1 < length hs then hs ! (idx + 1) # proof_path sha (branch_chunks sha hs) (idx div 2)
          else proof_path sha (branch_chunks sha hs) (idx div 2)
        else hs ! (idx - 1) # proof_path sha (branch_chunks sha hs) (idx div 2)
      else [])"
  by pat_completeness auto
termination by (relation "measure (\<lambda>(_, hs, _). length hs)") auto

definition merkle_proof_path :: "hash_fun \<Rightarrow> TapscriptTree \<Rightarrow> nat \<Rightarrow> bytes list" where
  "merkle_proof_path sha lvs i = proof_path sha (map (tapscript_leaf_hash sha) lvs) i"

unbundle bit_operations_syntax

definition control_block :: "hash_fun \<Rightarrow> TapscriptTree \<Rightarrow> bytes \<Rightarrow> nat \<Rightarrow> bool \<Rightarrow> bytes option" where
  "control_block sha lvs internal_key leaf_index output_key_parity_even =
     (if length lvs \<le> leaf_index then None
      else
        let parity_bit = (if output_key_parity_even then 0 else 1);
            first_byte = tsl_version (lvs ! leaf_index) OR parity_bit;
            cb = first_byte # internal_key;
            cb = (if length lvs = 2 then cb @ tapscript_leaf_hash sha (lvs ! (1 - leaf_index)) else cb);
            cb = (if 2 < length lvs then cb @ concat (merkle_proof_path sha lvs leaf_index) else cb)
        in Some cb)"

definition is_script_path_witness :: "bytes list \<Rightarrow> bool" where
  "is_script_path_witness wit =
     (if length wit < 2 then False
      else let control = wit ! (length wit - 1) in
        if length control < 33 then False
        else if and (control ! 0) 0xFE \<noteq> 0xC0 then False
        else let remaining = length control - 1 in
          if remaining < 32 then False else (remaining - 32) mod 32 = 0)"

definition extract_script_path :: "bytes list \<Rightarrow> (bytes \<times> bytes) option" where
  "extract_script_path witness =
     (if length witness < 2 then None
      else Some (witness ! (length witness - 2), witness ! (length witness - 1)))"

declare chunks_root.simps [simp del] proof_path.simps [simp del]

section \<open>Lemmas\<close>

lemma tap_branch_hash_commute: "tap_branch_hash sha a b = tap_branch_hash sha b a"
  by (auto simp: tap_branch_hash_def)

lemma length_tap_hashes [simp]:
  "sha_32 sha \<Longrightarrow> length (tap_leaf_hash sha v s) = 32" "sha_32 sha \<Longrightarrow> length (tap_branch_hash sha a b) = 32"
  by (simp_all add: tap_leaf_hash_def tap_branch_hash_def Let_def)

text \<open>What a taproot verifier computes from a leaf and a path (BIP-341): fold the branch hash upwards.\<close>

definition path_root :: "hash_fun \<Rightarrow> bytes \<Rightarrow> bytes list \<Rightarrow> bytes" where
  "path_root sha leaf path = foldl (tap_branch_hash sha) leaf path"

lemma branch_chunks_nth:
  "idx < length hs \<Longrightarrow> branch_chunks sha hs ! (idx div 2)
    = (if even idx then if idx + 1 < length hs then tap_branch_hash sha (hs ! idx) (hs ! (idx + 1)) else hs ! idx
       else tap_branch_hash sha (hs ! idx) (hs ! (idx - 1)))"
proof (induction sha hs arbitrary: idx rule: branch_chunks.induct)
  case (1 sha a b hs)
  consider "idx = 0" | "idx = 1" | j where "idx = j + 2" by (metis One_nat_def add_2_eq_Suc' old.nat.exhaust)
  then show ?case
  proof cases
    case 2
    then show ?thesis by (simp add: tap_branch_hash_commute)
  next
    case (3 j)
    with "1.prems" have "j < length hs" by simp
    from "1.IH" [OF this] 3 show ?thesis by (auto elim!: oddE)
  qed simp
qed (auto simp: less_Suc_eq)

lemma path_root_proof_path:
  "idx < length hs \<Longrightarrow> path_root sha (hs ! idx) (proof_path sha hs idx) = chunks_root sha hs ! 0"
proof (induction sha hs idx rule: proof_path.induct)
  case (1 sha hs idx)
  show ?case
  proof (cases "1 < length hs")
    case True
    let ?up = "branch_chunks sha hs"
    have lt: "idx div 2 < length ?up" using "1.prems" by simp
    have "path_root sha (?up ! (idx div 2)) (proof_path sha ?up (idx div 2)) = chunks_root sha ?up ! 0"
      using "1.IH"(1,2) [OF True _ _ lt] "1.IH"(3) [OF True _ lt]
      by (cases "even idx"; cases "idx + 1 < length hs") auto
    with True branch_chunks_nth [OF "1.prems", of sha] show ?thesis
      by (cases "even idx"; cases "idx + 1 < length hs")
        (simp_all add: proof_path.simps [of sha hs] chunks_root.simps [of sha hs] path_root_def)
  next
    case False
    with "1.prems" have "idx = 0" by linarith
    with False show ?thesis
      by (simp add: proof_path.simps [of sha hs] chunks_root.simps [of sha hs] path_root_def)
  qed
qed

lemma chunks_root_short:
  "chunks_root sha [h] = [h]" "chunks_root sha [a, b] = [tap_branch_hash sha a b]"
  by (simp_all add: chunks_root.simps)

lemma tapscript_merkle_root_chunks:
  "lvs \<noteq> [] \<Longrightarrow> tapscript_merkle_root sha lvs = chunks_root sha (map (tapscript_leaf_hash sha) lvs) ! 0"
  by (auto simp: tapscript_merkle_root_def chunks_root_short split: list.splits)

lemma length_hash_entries:
  "\<forall>h \<in> set hs. length h = 32 \<Longrightarrow> sha_32 sha \<Longrightarrow> \<forall>h \<in> set (branch_chunks sha hs). length h = 32"
  by (induction sha hs rule: branch_chunks.induct) auto

lemma length_proof_path_entries:
  "\<forall>h \<in> set hs. length h = 32 \<Longrightarrow> sha_32 sha \<Longrightarrow> idx < length hs \<Longrightarrow>
    \<forall>h \<in> set (proof_path sha hs idx). length h = 32"
proof (induction sha hs idx rule: proof_path.induct)
  case (1 sha hs idx)
  show ?case
  proof (cases "1 < length hs")
    case True
    have lt: "idx div 2 < length (branch_chunks sha hs)" using "1.prems" by simp
    have "\<forall>h \<in> set (proof_path sha (branch_chunks sha hs) (idx div 2)). length h = 32"
      using "1.IH"(1,2) [OF True _ _ length_hash_entries [OF "1.prems"(1,2)] "1.prems"(2) lt]
        "1.IH"(3) [OF True _ length_hash_entries [OF "1.prems"(1,2)] "1.prems"(2) lt]
      by (cases "even idx"; cases "idx + 1 < length hs") auto
    with True "1.prems"(1,3) show ?thesis by (auto simp: proof_path.simps [of sha hs])
  qed (simp add: proof_path.simps [of sha hs])
qed

text \<open>The path that follows the internal key in a control block.\<close>

fun split_path :: "nat \<Rightarrow> bytes \<Rightarrow> bytes list" where
  "split_path 0 bs = []"
| "split_path (Suc n) bs = take 32 bs # split_path n (drop 32 bs)"

definition control_path :: "bytes \<Rightarrow> bytes list" where
  "control_path cb = split_path ((length cb - 33) div 32) (drop 33 cb)"

lemma split_path_concat:
  "\<forall>h \<in> set hs. length h = 32 \<Longrightarrow> split_path (length hs) (concat hs) = hs \<and> length (concat hs) = 32 * length hs"
  by (induction hs) auto

lemma proof_path_two:
  "proof_path sha [a, b] 0 = [b]" "proof_path sha [a, b] (Suc 0) = [a]" "proof_path sha [a] 0 = []"
  by (simp_all add: proof_path.simps)

lemma control_block_eq:
  assumes "i < length lvs"
  shows "control_block sha lvs key i even_parity
    = Some (((tsl_version (lvs ! i)) OR (if even_parity then 0 else 1)) # key @ concat (merkle_proof_path sha lvs i))"
proof -
  consider (one) l where "lvs = [l]" | (two) a b where "lvs = [a, b]" | (more) "2 < length lvs"
    using assms by (cases lvs rule: list.exhaust; cases "tl lvs" rule: list.exhaust; cases "tl (tl lvs)") auto
  then show ?thesis
  proof cases
    case two
    then have "i = 0 \<or> i = 1" using assms by auto
    with two show ?thesis by (auto simp: control_block_def merkle_proof_path_def proof_path_two)
  qed (use assms in \<open>auto simp: control_block_def merkle_proof_path_def proof_path_two\<close>)
qed

section \<open>Properties\<close>

text \<open>A control block opens its tree. For every leaf of a tapscript tree of any size the control block exists,
  carries the internal key and the leaf version with the parity bit, and the path that follows the key leads
  from the leaf's hash to the Merkle root of the tree; with a tapscript leaf it is recognised as a script-path
  witness.\<close>

theorem control_block_opens_tree:
  assumes "sha_32 sha" "i < length lvs" "length key = 32"
  shows "\<exists>cb. control_block sha lvs key i even_parity = Some cb
    \<and> take 32 (drop 1 cb) = key
    \<and> path_root sha (tapscript_leaf_hash sha (lvs ! i)) (control_path cb) = tapscript_merkle_root sha lvs
    \<and> (tsl_version (lvs ! i) = TAPSCRIPT_VERSION \<longrightarrow> is_script_path_witness [tsl_script (lvs ! i), cb])"
proof -
  let ?path = "merkle_proof_path sha lvs i" and ?b = "tsl_version (lvs ! i) OR (if even_parity then 0 else 1)"
  have len: "\<forall>h \<in> set ?path. length h = 32"
    using assms(1,2) unfolding merkle_proof_path_def
    by (intro length_proof_path_entries) (auto simp: tapscript_leaf_hash_def)
  note parts = split_path_concat [OF len]
  have "control_path (?b # key @ concat ?path) = ?path"
    using parts assms(3) by (simp add: control_path_def)
  moreover have "path_root sha (tapscript_leaf_hash sha (lvs ! i)) ?path = tapscript_merkle_root sha lvs"
    using path_root_proof_path [of i "map (tapscript_leaf_hash sha) lvs" sha] assms(2)
    by (subst tapscript_merkle_root_chunks) (auto simp: merkle_proof_path_def)
  moreover have "tsl_version (lvs ! i) = TAPSCRIPT_VERSION \<Longrightarrow> is_script_path_witness [tsl_script (lvs ! i), ?b # key @ concat ?path]"
    using parts assms(3) by (simp add: is_script_path_witness_def TAPSCRIPT_VERSION_def)
  ultimately show ?thesis
    using control_block_eq [OF assms(2), of sha key even_parity] assms(3) by simp
qed

theorem control_block_opens_tree_witness:
  "\<exists>cb. control_block (\<lambda>_. zeros 32) (map tapscript_leaf_new [[1], [2], [3]]) (zeros 32) 2 False = Some cb
    \<and> is_script_path_witness [[3], cb]"
  using control_block_opens_tree [of "\<lambda>_. zeros 32" 2 "map tapscript_leaf_new [[1], [2], [3]]" "zeros 32" False]
  by (auto simp: sha_32_def tapscript_leaf_new_def)

end
