(* ===== verification/Vm.thy ===== *)
theory Vm
  imports Asset Mssmt_Refine Tapscript
begin

text \<open>
  The state-transition rules: \<^verbatim>\<open>tap-primitives/src/vm/mod.rs\<close> with the virtual
  transaction of \<^verbatim>\<open>crypto/virtual_tx.rs\<close> and the split locators of
  \<^verbatim>\<open>commitment/split.rs\<close>.

  What the code takes from other crates is a parameter: the record \<open>BtcLib\<close> holds the validity of an
  x-only public key and the BIP-341 key-spend signature hash of the \<^verbatim>\<open>bitcoin\<close> crate, the record
  \<open>WitnessValidator\<close> the trait by which signatures and scripts are checked. The
  bitcoin transaction types are records of the fields the code sets. An \<open>InputSet\<close> is an
  association list with distinct keys.
\<close>

section \<open>Virtual transactions\<close>

record TxIn =
  previous_output :: OutPoint
  tx_sequence :: u32
  txin_witness :: "bytes list"

record TxOut =
  out_value :: u64
  script_pubkey :: bytes

text \<open>Version 2, one input and one output.\<close>

record VirtualTx =
  vtx_version :: nat
  vtx_lock_time :: u32
  vtx_input :: TxIn
  vtx_output :: TxOut

datatype VirtualTxError =
    MissingInput string
  | InputMismatch
  | VtTreeError TreeError
  | SighashError string
  | InvalidKey string
  | InvalidLeaf AssetError

type_synonym InputSet = "(PrevId \<times> Asset) list"
type_synonym SigHashType = u8

record BtcLib =
  x_only_valid :: "bytes \<Rightarrow> bool"
  key_spend_sighash :: "VirtualTx \<Rightarrow> TxOut \<Rightarrow> SigHashType \<Rightarrow> (bytes, string) result"

definition virtual_tx_in_prevout :: "hash_fun \<Rightarrow> NodeHash \<Rightarrow> u64 \<Rightarrow> OutPoint" where
  "virtual_tx_in_prevout sha root_hash root_sum =
     \<lparr>op_txid = sha (root_hash @ u64_be root_sum), op_vout = 0\<rparr>"

text \<open>The loop over the witnesses: the tree of the inputs and the set of inputs referenced.\<close>

fun insert_inputs ::
  "hash_fun \<Rightarrow> InputSet \<Rightarrow> Witness list \<Rightarrow> DefaultStore \<Rightarrow> PrevId list \<Rightarrow>
     (DefaultStore \<times> PrevId list, VirtualTxError) result" where
  "insert_inputs sha prev_assets [] tree consumed = Ok (tree, consumed)"
| "insert_inputs sha prev_assets (w # ws) tree consumed =
     res_bind (ok_or (w_prev_id w) (MissingInput ''witness has no prev_id'')) (\<lambda>prev_id.
     res_bind (ok_or (map_of prev_assets prev_id) (MissingInput ''prev_id not in input set'')) (\<lambda>prev_asset.
     res_bind (map_err InvalidLeaf (asset_to_leaf sha prev_asset)) (\<lambda>leaf.
     res_bind (map_err VtTreeError (tree_insert sha (prev_id_hash sha prev_id) leaf tree)) (\<lambda>tree.
     insert_inputs sha prev_assets ws tree (List.insert prev_id consumed)))))"

definition input_of_tree :: "hash_fun \<Rightarrow> DefaultStore \<Rightarrow> TxIn \<times> NodeHash \<times> u64" where
  "input_of_tree sha tree =
     (let root = tree_root sha tree;
          root_hash = branch_hash sha root;
          root_sum = branch_sum root
      in (\<lparr>previous_output = virtual_tx_in_prevout sha root_hash root_sum, tx_sequence = 0,
           txin_witness = []\<rparr>, root_hash, root_sum))"

definition virtual_tx_in ::
  "hash_fun \<Rightarrow> Asset \<Rightarrow> InputSet \<Rightarrow> (TxIn \<times> NodeHash \<times> u64, VirtualTxError) result" where
  "virtual_tx_in sha new_asset prev_assets =
     res_bind (insert_inputs sha prev_assets (prev_witnesses new_asset) full_tree_new []) (\<lambda>(tree, consumed).
       if length consumed \<noteq> length prev_assets then Err InputMismatch
       else Ok (input_of_tree sha tree))"

definition virtual_genesis_tx_in ::
  "hash_fun \<Rightarrow> Asset \<Rightarrow> (TxIn \<times> NodeHash \<times> u64, VirtualTxError) result" where
  "virtual_genesis_tx_in sha new_asset =
     (let copy = (if has_genesis_witness_for_group new_asset
                  then new_asset\<lparr>prev_witnesses :=
                    [(prev_witnesses new_asset ! 0)\<lparr>tx_witness := []\<rparr>]\<rparr>
                  else new_asset) in
      res_bind (map_err InvalidLeaf (asset_to_leaf sha copy)) (\<lambda>leaf.
      res_bind (map_err VtTreeError (tree_insert sha (prev_id_hash sha PREV_ID_ZERO) leaf full_tree_new)) (\<lambda>tree.
      Ok (input_of_tree sha tree))))"

definition compute_taproot_script :: "bytes \<Rightarrow> bytes" where
  "compute_taproot_script key_bytes = [0x51, 0x20] @ key_bytes"

definition virtual_tx_out :: "hash_fun \<Rightarrow> Asset \<Rightarrow> (TxOut, VirtualTxError) result" where
  "virtual_tx_out sha tx_asset =
     (case split_commitment_root tx_asset of
        Some (root_hash, root_sum) \<Rightarrow>
          Ok \<lparr>out_value = root_sum, script_pubkey = compute_taproot_script root_hash\<rparr>
      | None \<Rightarrow>
          (let group_key_bytes = (case group_key tx_asset of
                 Some gk \<Rightarrow> schnorr_bytes (group_pub_key gk) | None \<Rightarrow> zeros 32);
               key = sha (group_key_bytes @ asset_id sha tx_asset
                 @ schnorr_bytes (sk_pub_key (script_key tx_asset)));
               copy = tx_asset\<lparr>prev_witnesses :=
                 map (\<lambda>w. w\<lparr>tx_witness := []\<rparr>) (prev_witnesses tx_asset)\<rparr> in
           res_bind (map_err InvalidLeaf (asset_to_leaf sha copy)) (\<lambda>leaf.
           res_bind (map_err VtTreeError (tree_insert sha key leaf full_tree_new)) (\<lambda>tree.
           Ok \<lparr>out_value = amount tx_asset,
               script_pubkey = compute_taproot_script (branch_hash sha (tree_root sha tree))\<rparr>))))"

definition virtual_tx ::
  "hash_fun \<Rightarrow> Asset \<Rightarrow> InputSet \<Rightarrow> (VirtualTx \<times> NodeHash \<times> u64, VirtualTxError) result" where
  "virtual_tx sha new_asset prev_assets =
     res_bind (if needs_genesis_witness_for_group new_asset \<or> has_genesis_witness_for_group new_asset
               then virtual_genesis_tx_in sha new_asset
               else virtual_tx_in sha new_asset prev_assets) (\<lambda>(txin, root_hash, root_sum).
     res_bind (virtual_tx_out sha new_asset) (\<lambda>txout.
     Ok (\<lparr>vtx_version = 2, vtx_lock_time = 0, vtx_input = txin, vtx_output = txout\<rparr>,
         root_hash, root_sum)))"

definition virtual_tx_with_input :: "VirtualTx \<Rightarrow> u64 \<Rightarrow> u64 \<Rightarrow> u32 \<Rightarrow> bytes list \<Rightarrow> VirtualTx" where
  "virtual_tx_with_input base_tx lock rel_lock idx wit =
     base_tx\<lparr>vtx_lock_time := ucast lock,
       vtx_input := (vtx_input base_tx)\<lparr>previous_output := (previous_output (vtx_input base_tx))\<lparr>op_vout := idx\<rparr>,
         tx_sequence := ucast rel_lock, txin_witness := wit\<rparr>\<rparr>"

definition input_prev_out :: "BtcLib \<Rightarrow> Asset \<Rightarrow> (TxOut, VirtualTxError) result" where
  "input_prev_out lib input_asset =
     (let x_only = schnorr_bytes (sk_pub_key (script_key input_asset)) in
      if x_only_valid lib x_only
      then Ok \<lparr>out_value = amount input_asset, script_pubkey = compute_taproot_script x_only\<rparr>
      else Err (InvalidKey ''malformed public key''))"

definition input_genesis_prev_out :: "BtcLib \<Rightarrow> Asset \<Rightarrow> (TxOut, VirtualTxError) result" where
  "input_genesis_prev_out lib input_asset =
     res_bind (ok_or (group_key input_asset) (InvalidKey ''genesis input has no group key'')) (\<lambda>gk.
       let x_only = schnorr_bytes (group_pub_key gk) in
       if x_only_valid lib x_only
       then Ok \<lparr>out_value = amount input_asset, script_pubkey = compute_taproot_script x_only\<rparr>
       else Err (InvalidKey ''malformed public key''))"

definition input_group_genesis_key_spend_sighash ::
  "BtcLib \<Rightarrow> VirtualTx \<Rightarrow> Asset \<Rightarrow> SigHashType \<Rightarrow> (bytes, VirtualTxError) result" where
  "input_group_genesis_key_spend_sighash lib base_tx new_asset ht =
     (let tx = virtual_tx_with_input base_tx (a_lock_time new_asset) (relative_lock_time new_asset) 0 [] in
      res_bind (input_genesis_prev_out lib new_asset) (\<lambda>prev_out.
        map_err SighashError (key_spend_sighash lib tx prev_out ht)))"

definition input_key_spend_sighash ::
  "BtcLib \<Rightarrow> VirtualTx \<Rightarrow> Asset \<Rightarrow> Asset \<Rightarrow> u32 \<Rightarrow> SigHashType \<Rightarrow> (bytes, VirtualTxError) result" where
  "input_key_spend_sighash lib base_tx input_asset new_asset idx ht =
     (let tx = virtual_tx_with_input base_tx (a_lock_time new_asset) (relative_lock_time new_asset) idx [] in
      res_bind (input_prev_out lib input_asset) (\<lambda>prev_out.
        map_err SighashError (key_spend_sighash lib tx prev_out ht)))"

section \<open>Witness stacks\<close>

text \<open>\<open>taproot_witness_sig_hash_type\<close> (\<^verbatim>\<open>crypto/schnorr.rs\<close>) and
  \<open>is_script_path_witness\<close> (\<^verbatim>\<open>crypto/tapscript.rs\<close>).\<close>

definition taproot_witness_sig_hash_type :: "bytes \<Rightarrow> (SigHashType, string) result" where
  "taproot_witness_sig_hash_type sig =
     (if length sig = 64 then Ok 0
      else if length sig = 65 \<and> sig ! 64 \<noteq> 0 then
        (if sig ! 64 \<in> {0x01, 0x02, 0x03, 0x81, 0x82, 0x83} then Ok (sig ! 64)
         else Err ''invalid taproot sighash type'')
      else Err ''invalid sig len'')"

definition witness_sig_hash_type :: "bytes list \<Rightarrow> SigHashType" where
  "witness_sig_hash_type wit =
     (case wit of sig # _ \<Rightarrow> (case taproot_witness_sig_hash_type sig of Ok t \<Rightarrow> t | _ \<Rightarrow> 0) | [] \<Rightarrow> 0)"

section \<open>Splits\<close>

record SplitLocator =
  loc_output_index :: u32
  loc_asset_id :: AssetId
  loc_script_key :: SerializedKey
  loc_amount :: u64

definition locator_hash :: "hash_fun \<Rightarrow> SplitLocator \<Rightarrow> bytes" where
  "locator_hash sha l = sha (u32_be (loc_output_index l) @ loc_asset_id l @ schnorr_bytes (loc_script_key l))"

record SplitAsset =
  sa_asset :: Asset
  sa_output_index :: u32

datatype SplitError = SplitInvalidProof string

definition validate_split_locators ::
  "SplitLocator \<Rightarrow> SplitLocator list \<Rightarrow> AssetType \<Rightarrow> (unit, SplitError) result" where
  "validate_split_locators root_locator external_locators asset_type =
     (if loc_amount root_locator = 0 \<and> loc_script_key root_locator \<noteq> NUMS_KEY then
        Err (SplitInvalidProof ''zero-amount root must use NUMS key'')
      else if loc_amount root_locator \<noteq> 0 \<and> loc_script_key root_locator = NUMS_KEY then
        Err (SplitInvalidProof ''non-zero root must not use NUMS key'')
      else if \<exists>loc \<in> set external_locators. loc_amount loc = 0 then
        Err (SplitInvalidProof ''external split locator has zero amount'')
      else if asset_type = Collectible \<and> loc_amount root_locator \<noteq> 0 then
        Err (SplitInvalidProof ''collectible root must have zero amount'')
      else if asset_type = Collectible \<and> length external_locators \<noteq> 1 then
        Err (SplitInvalidProof ''collectible must have exactly one external locator'')
      else if external_locators = [] then
        Err (SplitInvalidProof ''at least one external locator required'')
      else Ok ())"

section \<open>The engine\<close>

datatype VmError =
    InvalidGenesisStateTransition
  | NoInputs
  | AmountMismatch u64 u64
  | InvalidSplitAssetType
  | NoSplitCommitment
  | InvalidSplitCommitmentWitness
  | InvalidSplitCommitmentProof
  | InvalidRootAsset
  | InvalidTransferWitness "VirtualTxError + string"
  | ScriptKeyMismatch
  | IdMismatch
  | TypeMismatch
  | InvalidScriptVersion
  | WitnessValidationFailed string

record WitnessValidator =
  validate_witness :: "bytes \<Rightarrow> Witness \<Rightarrow> Asset \<Rightarrow> (unit, VmError) result"
  validate_script_spend :: "VirtualTx \<Rightarrow> TxOut \<Rightarrow> Witness \<Rightarrow> Asset \<Rightarrow> (unit, VmError) result"

definition matches_prev_genesis ::
  "hash_fun \<Rightarrow> PrevId \<Rightarrow> GroupKey option \<Rightarrow> bytes \<Rightarrow> Asset \<Rightarrow> bool" where
  "matches_prev_genesis sha prev_id gk t prev_asset =
     (if prev_asset_id prev_id = genesis_id sha (genesis prev_asset) then True
      else case (gk, group_key prev_asset) of
        (Some g, Some prev_g) \<Rightarrow> group_pub_key g = group_pub_key prev_g \<and> t = tag (genesis prev_asset)
      | _ \<Rightarrow> False)"

definition matches_asset_params :: "hash_fun \<Rightarrow> Asset \<Rightarrow> Asset \<Rightarrow> PrevId \<Rightarrow> (unit, VmError) result" where
  "matches_asset_params sha new_asset prev_asset prev_id =
     (if prev_script_key prev_id \<noteq> sk_pub_key (script_key prev_asset) then Err ScriptKeyMismatch
      else if \<not> matches_prev_genesis sha prev_id (group_key new_asset) (tag (genesis new_asset)) prev_asset
      then Err IdMismatch
      else if g_asset_type (genesis new_asset) \<noteq> g_asset_type (genesis prev_asset) then Err TypeMismatch
      else Ok ())"

text \<open>The leaf of a split output: split commitment stripped, lock times taken from the root asset.\<close>

definition split_leaf_asset :: "Asset \<Rightarrow> Asset \<Rightarrow> Asset" where
  "split_leaf_asset new_asset split =
     split\<lparr>prev_witnesses := (prev_witnesses split)[0 := (prev_witnesses split ! 0)\<lparr>split_commitment := None\<rparr>],
       a_lock_time := a_lock_time new_asset, relative_lock_time := relative_lock_time new_asset\<rparr>"

definition split_locator :: "hash_fun \<Rightarrow> SplitAsset \<Rightarrow> SplitLocator" where
  "split_locator sha split_asset =
     \<lparr>loc_output_index = sa_output_index split_asset,
      loc_asset_id = genesis_id sha (genesis (sa_asset split_asset)),
      loc_script_key = sk_pub_key (script_key (sa_asset split_asset)),
      loc_amount = amount (sa_asset split_asset)\<rparr>"

definition validate_split ::
  "hash_fun \<Rightarrow> Asset \<Rightarrow> InputSet \<Rightarrow> SplitAsset \<Rightarrow> (unit, VmError) result" where
  "validate_split sha new_asset prev_assets split_asset =
     (let split = sa_asset split_asset in
      if g_asset_type (genesis new_asset) \<noteq> g_asset_type (genesis split) then Err InvalidSplitAssetType
      else case split_commitment_root new_asset of
        None \<Rightarrow> Err NoSplitCommitment
      | Some (root_hash, root_sum) \<Rightarrow>
          if \<not> has_split_commitment_witness split then Err InvalidSplitCommitmentWitness
          else res_bind (ok_or (primary_prev_id new_asset) NoInputs) (\<lambda>root_prev_id.
            res_bind (ok_or (map_of prev_assets root_prev_id) NoInputs) (\<lambda>prev_asset.
            res_bind (matches_asset_params sha split prev_asset root_prev_id) (\<lambda>_.
              if amount new_asset = 0 \<and> \<not> is_unspendable new_asset then Err InvalidRootAsset
              else if amount split = 0 \<and> \<not> is_unspendable split then Err InvalidRootAsset
              else res_bind (ok_or (split_commitment (prev_witnesses split ! 0)) InvalidSplitCommitmentWitness)
                (\<lambda>split_com.
                  res_bind (map_err (\<lambda>e. InvalidTransferWitness (Inl (InvalidLeaf e)))
                    (asset_to_leaf sha (split_leaf_asset new_asset split))) (\<lambda>split_leaf.
                  if \<not> verify_merkle_proof sha (locator_hash sha (split_locator sha split_asset)) split_leaf
                         (sc_proof split_com) (computed root_hash root_sum)
                  then Err InvalidSplitCommitmentProof
                  else Ok ()))))))"

definition validate_group_genesis_witness ::
  "hash_fun \<Rightarrow> BtcLib \<Rightarrow> WitnessValidator \<Rightarrow> Asset \<Rightarrow> (unit, VmError) result" where
  "validate_group_genesis_witness sha lib val new_asset =
     (let w = prev_witnesses new_asset ! 0 in
      res_bind (ok_or (group_key new_asset) InvalidGenesisStateTransition) (\<lambda>gk.
        if is_script_path_witness (tx_witness w)
        then Err (WitnessValidationFailed ''script-path group witnesses are not supported'')
        else res_bind (map_err (\<lambda>e. InvalidTransferWitness (Inl e)) (virtual_tx sha new_asset [])) (\<lambda>(base_tx, _, _).
          res_bind (map_err (\<lambda>_. WitnessValidationFailed ''sighash'')
              (input_group_genesis_key_spend_sighash lib base_tx new_asset (witness_sig_hash_type (tx_witness w))))
            (\<lambda>sighash.
              validate_witness val sighash w
                (new_asset\<lparr>script_key := script_key_from_pub_key (group_pub_key gk)\<rparr>)))))"

text \<open>The body of the loop over the witnesses, at position \<open>idx\<close>.\<close>

definition validate_input ::
  "hash_fun \<Rightarrow> BtcLib \<Rightarrow> WitnessValidator \<Rightarrow> Asset \<Rightarrow> InputSet \<Rightarrow> VirtualTx \<Rightarrow> nat \<Rightarrow> Witness \<Rightarrow>
     (unit, VmError) result" where
  "validate_input sha lib val new_asset prev_assets base_tx idx w =
     res_bind (ok_or (w_prev_id w) NoInputs) (\<lambda>prev_id.
     res_bind (ok_or (map_of prev_assets prev_id) NoInputs) (\<lambda>prev_asset.
     res_bind (matches_asset_params sha new_asset prev_asset prev_id) (\<lambda>_.
       if script_version prev_asset \<noteq> 0 then Err InvalidScriptVersion
       else if is_script_path_witness (tx_witness w) then
         (let tx = virtual_tx_with_input base_tx (a_lock_time new_asset) (relative_lock_time new_asset)
                (of_nat idx) (tx_witness w) in
          res_bind (map_err (\<lambda>_. WitnessValidationFailed ''prev out'') (input_prev_out lib prev_asset)) (\<lambda>prev_out.
            validate_script_spend val tx prev_out w prev_asset))
       else
         res_bind (map_err (\<lambda>_. WitnessValidationFailed ''sighash'')
             (input_key_spend_sighash lib base_tx prev_asset new_asset (of_nat idx)
               (witness_sig_hash_type (tx_witness w)))) (\<lambda>sighash.
           validate_witness val sighash w prev_asset))))"

fun validate_inputs ::
  "hash_fun \<Rightarrow> BtcLib \<Rightarrow> WitnessValidator \<Rightarrow> Asset \<Rightarrow> InputSet \<Rightarrow> VirtualTx \<Rightarrow> nat \<Rightarrow> Witness list \<Rightarrow>
     (unit, VmError) result" where
  "validate_inputs sha lib val new_asset prev_assets base_tx idx [] = Ok ()"
| "validate_inputs sha lib val new_asset prev_assets base_tx idx (w # ws) =
     res_bind (validate_input sha lib val new_asset prev_assets base_tx idx w) (\<lambda>_.
       validate_inputs sha lib val new_asset prev_assets base_tx (idx + 1) ws)"

definition validate_state_transition ::
  "hash_fun \<Rightarrow> BtcLib \<Rightarrow> WitnessValidator \<Rightarrow> Asset \<Rightarrow> InputSet \<Rightarrow> (unit, VmError) result" where
  "validate_state_transition sha lib val new_asset prev_assets =
     (if prev_witnesses new_asset = [] then Err NoInputs
      else if g_asset_type (genesis new_asset) = Collectible \<and> 1 < length (prev_witnesses new_asset)
      then Err (InvalidTransferWitness (Inr ''collectible has more than one prev input''))
      else res_bind (map_err (\<lambda>e. InvalidTransferWitness (Inl e)) (virtual_tx sha new_asset prev_assets))
        (\<lambda>(base_tx, _, input_root_sum).
          let out = out_value (vtx_output base_tx) in
          if input_root_sum \<noteq> out then Err (AmountMismatch input_root_sum out)
          else validate_inputs sha lib val new_asset prev_assets base_tx 0 (prev_witnesses new_asset)))"

fun validate_splits ::
  "hash_fun \<Rightarrow> Asset \<Rightarrow> InputSet \<Rightarrow> SplitAsset list \<Rightarrow> (unit, VmError) result" where
  "validate_splits sha new_asset prev_assets [] = Ok ()"
| "validate_splits sha new_asset prev_assets (s # ss) =
     res_bind (validate_split sha new_asset prev_assets s) (\<lambda>_. validate_splits sha new_asset prev_assets ss)"

definition vm_execute ::
  "hash_fun \<Rightarrow> BtcLib \<Rightarrow> WitnessValidator \<Rightarrow> Asset \<Rightarrow> SplitAsset list \<Rightarrow> InputSet \<Rightarrow> (unit, VmError) result" where
  "vm_execute sha lib val new_asset split_assets prev_assets =
     (if has_genesis_witness new_asset then
        (if split_assets \<noteq> [] \<or> prev_assets \<noteq> [] then Err InvalidGenesisStateTransition
         else if group_key new_asset \<noteq> None then Err InvalidGenesisStateTransition
         else Ok ())
      else if has_genesis_witness_for_group new_asset then
        (if split_assets \<noteq> [] \<or> prev_assets \<noteq> [] then Err InvalidGenesisStateTransition
         else validate_group_genesis_witness sha lib val new_asset)
      else res_bind (validate_splits sha new_asset prev_assets split_assets) (\<lambda>_.
        validate_state_transition sha lib val new_asset prev_assets))"

section \<open>The input tree\<close>

definition input_leaf :: "hash_fun \<Rightarrow> InputSet \<Rightarrow> PrevId \<Rightarrow> LeafNode" where
  "input_leaf sha prevs p = (case asset_to_leaf sha (the (map_of prevs p)) of Ok l \<Rightarrow> l | _ \<Rightarrow> leaf_empty)"

definition input_ops :: "hash_fun \<Rightarrow> InputSet \<Rightarrow> PrevId list \<Rightarrow> tree_op list" where
  "input_ops sha prevs = map (\<lambda>p. OpInsert (prev_id_hash sha p) (input_leaf sha prevs p))"

definition referenced :: "Witness list \<Rightarrow> PrevId list" where
  "referenced ws = map (\<lambda>w. the (w_prev_id w)) ws"

lemma asset_to_leaf_sum: "asset_to_leaf sha a = Ok l \<Longrightarrow> leaf_sum l = amount a"
  by (auto simp: asset_to_leaf_def leaf_new_def res_simps)

lemma split_leaf_sum: "asset_to_leaf sha (split_leaf_asset a s) = Ok l \<Longrightarrow> leaf_sum l = amount s"
  by (drule asset_to_leaf_sum) (simp add: split_leaf_asset_def)

lemma insert_inputs_ops:
  "insert_inputs sha prevs ws tree consumed = Ok (tree', consumed') \<Longrightarrow>
    run_ops (tree_insert sha) (tree_delete sha) (input_ops sha prevs (referenced ws)) tree = Ok tree'
    \<and> set consumed' = set (referenced ws) \<union> set consumed \<and> (distinct consumed \<longrightarrow> distinct consumed')
    \<and> (\<forall>p \<in> set (referenced ws). \<exists>a. map_of prevs p = Some a \<and> leaf_sum (input_leaf sha prevs p) = amount a)"
proof (induction ws arbitrary: tree consumed)
  case (Cons w ws)
  from Cons.prems obtain p a leaf mid where step: "w_prev_id w = Some p" "map_of prevs p = Some a"
    "asset_to_leaf sha a = Ok leaf" "tree_insert sha (prev_id_hash sha p) leaf tree = Ok mid"
    and rest: "insert_inputs sha prevs ws mid (List.insert p consumed) = Ok (tree', consumed')"
    by (auto simp: res_simps)
  have "input_leaf sha prevs p = leaf" using step by (simp add: input_leaf_def)
  with Cons.IH [OF rest] step asset_to_leaf_sum [OF step(3)] show ?case
    by (auto simp: input_ops_def referenced_def distinct_insert)
qed (simp add: input_ops_def referenced_def)

text \<open>Inserting leaves under pairwise different keys, possibly some of them twice, gives a content whose total is
  the sum over the different keys.\<close>

lemma insert_all_content:
  fixes lf :: "'p \<Rightarrow> LeafNode" and key :: "'p \<Rightarrow> bytes"
  assumes "inj_on kb A" "set ps \<subseteq> A" "\<And>p. p \<in> A \<Longrightarrow> length (kb p) = 256"
    and "\<And>p. key_bits (key p) = kb p"
  defines "f \<equiv> apply_ops (map (\<lambda>p. OpInsert (key p) (lf p)) ps) no_content"
  shows "(\<forall>p \<in> set ps. f (kb p) = lf p) \<and> (\<forall>q. q \<notin> kb ` set ps \<longrightarrow> f q = leaf_empty)
    \<and> content_total f = (\<Sum>p \<in> set ps. unat (leaf_sum (lf p)))"
  using assms(2) unfolding f_def
proof (induction ps rule: rev_induct)
  case Nil
  then show ?case by (simp add: no_content_def content_total_def)
next
  case (snoc p ps)
  define g where "g = apply_ops (map (\<lambda>p. OpInsert (key p) (lf p)) ps) no_content"
  have IH: "\<forall>p \<in> set ps. g (kb p) = lf p" "\<forall>q. q \<notin> kb ` set ps \<longrightarrow> g q = leaf_empty"
    "content_total g = (\<Sum>p \<in> set ps. unat (leaf_sum (lf p)))"
    using snoc unfolding g_def by simp_all
  have step: "apply_ops (map (\<lambda>p. OpInsert (key p) (lf p)) (ps @ [p])) no_content = g(kb p := lf p)"
    by (simp add: apply_ops_append assms(4) g_def)
  show ?case
  proof (cases "p \<in> set ps")
    case True
    then have "lf p = g (kb p)" using IH(1) by simp
    then have "g(kb p := lf p) = g" by (simp only: fun_upd_triv)
    with True IH show ?thesis unfolding step by (simp add: insert_absorb)
  next
    case False
    have inj: "kb q \<noteq> kb p" if "q \<in> set ps" for q
    proof
      assume "kb q = kb p"
      then have "q = p" using that snoc.prems assms(1) unfolding inj_on_def by auto
      with that False show False by simp
    qed
    then have "kb p \<notin> kb ` set ps" by (metis imageE)
    then have "g (kb p) = leaf_empty" using IH(2) by simp
    then have "content_total (g(kb p := lf p)) = content_total g + unat (leaf_sum (lf p))"
      using content_total_upd [of "kb p" g "lf p"] assms(3) [of p] snoc.prems by (simp del: fun_upd_apply)
    then have total: "content_total (g(kb p := lf p)) = (\<Sum>q \<in> set (ps @ [p]). unat (leaf_sum (lf q)))"
      using False IH(3) by simp
    have "\<forall>q \<in> set (ps @ [p]). (g(kb p := lf p)) (kb q) = lf q" using IH(1) inj by auto
    moreover have "\<forall>q. q \<notin> kb ` set (ps @ [p]) \<longrightarrow> (g(kb p := lf p)) q = leaf_empty" using IH(2) by auto
    ultimately show ?thesis unfolding step using total by blast
  qed
qed

text \<open>What the separation of hashes has to cover for the inputs of a transition.\<close>

definition inputs_separated :: "hash_fun \<Rightarrow> bytes set \<Rightarrow> Asset \<Rightarrow> InputSet \<Rightarrow> bool" where
  "inputs_separated sha S new_asset prevs \<longleftrightarrow>
     separated sha S no_content
     \<and> steps_admissible (admissible sha S) (input_ops sha prevs (referenced (prev_witnesses new_asset))) no_content
     \<and> inj_on (prev_id_hash sha) (fst ` set prevs)"

text \<open>Every supplied input is named by a witness.\<close>

lemma inputs_referenced:
  assumes "distinct (map fst prevs)" "virtual_tx_in sha new_asset prevs = Ok (txin, root_hash, root_sum)"
  shows "set (referenced (prev_witnesses new_asset)) = fst ` set prevs"
proof -
  let ?ps = "referenced (prev_witnesses new_asset)"
  from assms(2) obtain tree consumed where ins:
    "insert_inputs sha prevs (prev_witnesses new_asset) full_tree_new [] = Ok (tree, consumed)"
    and len: "length consumed = length prevs"
    by (auto simp: virtual_tx_in_def input_of_tree_def Let_def res_simps split: if_splits)
  note ops = insert_inputs_ops [OF ins]
  have "set ?ps \<subseteq> fst ` set prevs" using ops by (force dest: map_of_SomeD)
  moreover have "card (set ?ps) = length prevs"
    using ops len by (metis distinct.simps(1) distinct_card empty_set sup_bot.right_neutral)
  moreover have "card (fst ` set prevs) = length prevs"
    using assms(1) by (metis distinct_card length_map list.set_map)
  ultimately show ?thesis by (simp add: card_subset_eq)
qed

lemma input_root_sum:
  assumes sep: "inputs_separated sha S new_asset prevs" and dist: "distinct (map fst prevs)"
    and tx: "virtual_tx_in sha new_asset prevs = Ok (txin, root_hash, root_sum)"
  shows "unat root_sum = (\<Sum>(p, a) \<leftarrow> prevs. unat (amount a))"
proof -
  let ?ps = "referenced (prev_witnesses new_asset)"
  have sha: "sha_32 sha" and sepn: "separated sha S no_content"
    using sep by (auto simp: inputs_separated_def separated_def)
  from tx obtain tree consumed where ins:
    "insert_inputs sha prevs (prev_witnesses new_asset) full_tree_new [] = Ok (tree, consumed)"
    and sum: "root_sum = branch_sum (tree_root sha tree)"
    by (auto simp: virtual_tx_in_def input_of_tree_def Let_def res_simps split: if_splits)
  note ops = insert_inputs_ops [OF ins] and all = inputs_referenced [OF dist tx]
  have sub: "set ?ps \<subseteq> fst ` set prevs" using all by simp
  have inv: "full_inv sha S tree (apply_ops (input_ops sha prevs ?ps) no_content)"
    using full.run_ops_success [OF full_inv_new [OF sepn]] sep ops by (auto simp: inputs_separated_def)
  have "inj_on (\<lambda>p. key_bits (prev_id_hash sha p)) (fst ` set prevs)"
  proof (rule inj_onI)
    fix p q assume pq: "p \<in> fst ` set prevs" "q \<in> fst ` set prevs"
      and "key_bits (prev_id_hash sha p) = key_bits (prev_id_hash sha q)"
    then have "prev_id_hash sha p = prev_id_hash sha q"
      using sha by (intro key_bits_inject) (simp_all add: prev_id_hash_def)
    with pq sep show "p = q" unfolding inputs_separated_def by (blast dest: inj_onD)
  qed
  from insert_all_content [OF this sub, of "prev_id_hash sha" "input_leaf sha prevs"]
  have "content_total (apply_ops (input_ops sha prevs ?ps) no_content)
      = (\<Sum>p \<in> set ?ps. unat (leaf_sum (input_leaf sha prevs p)))"
    by (simp add: input_ops_def)
  also have "\<dots> = (\<Sum>p \<in> set ?ps. unat (amount (the (map_of prevs p))))"
    using ops by (intro sum.cong) auto
  also have "\<dots> = (\<Sum>p \<in> fst ` set prevs. unat (amount (the (map_of prevs p))))" by (simp only: all)
  also have "\<dots> = (\<Sum>x \<in> set prevs. unat (amount (snd x)))"
    using dist by (subst sum.reindex) (auto simp: distinct_map intro!: sum.cong)
  also have "\<dots> = (\<Sum>(p, a) \<leftarrow> prevs. unat (amount a))"
    using dist by (simp add: sum_list_distinct_conv_sum_set distinct_map split_def)
  finally show ?thesis using tree_root_sum [OF inv] sum by simp
qed

section \<open>Acceptance\<close>

text \<open>What one accepted input has been checked for.\<close>

definition input_checked ::
  "hash_fun \<Rightarrow> BtcLib \<Rightarrow> WitnessValidator \<Rightarrow> Asset \<Rightarrow> InputSet \<Rightarrow> VirtualTx \<Rightarrow> nat \<Rightarrow> Witness \<Rightarrow> bool" where
  "input_checked sha lib val new_asset prev_assets base_tx idx w \<longleftrightarrow>
     (\<exists>p a. w_prev_id w = Some p \<and> map_of prev_assets p = Some a
        \<and> prev_script_key p = sk_pub_key (script_key a)
        \<and> matches_prev_genesis sha p (group_key new_asset) (tag (genesis new_asset)) a
        \<and> g_asset_type (genesis new_asset) = g_asset_type (genesis a)
        \<and> script_version a = 0
        \<and> (if is_script_path_witness (tx_witness w)
           then \<exists>out. input_prev_out lib a = Ok out
             \<and> validate_script_spend val
                 (virtual_tx_with_input base_tx (a_lock_time new_asset) (relative_lock_time new_asset)
                   (of_nat idx) (tx_witness w)) out w a = Ok ()
           else \<exists>sighash. input_key_spend_sighash lib base_tx a new_asset (of_nat idx)
                 (witness_sig_hash_type (tx_witness w)) = Ok sighash
             \<and> validate_witness val sighash w a = Ok ()))"

lemma matches_asset_params_Ok:
  "matches_asset_params sha new_asset a p = Ok () \<longleftrightarrow>
     prev_script_key p = sk_pub_key (script_key a)
     \<and> matches_prev_genesis sha p (group_key new_asset) (tag (genesis new_asset)) a
     \<and> g_asset_type (genesis new_asset) = g_asset_type (genesis a)"
  by (simp add: matches_asset_params_def)

lemma validate_input_Ok:
  "validate_input sha lib val new_asset prevs base_tx idx w = Ok () \<longleftrightarrow>
     input_checked sha lib val new_asset prevs base_tx idx w"
  by (auto simp: validate_input_def input_checked_def res_simps matches_asset_params_Ok Let_def)

lemma validate_inputs_Ok:
  "validate_inputs sha lib val new_asset prevs base_tx idx ws = Ok () \<longleftrightarrow>
     (\<forall>i < length ws. input_checked sha lib val new_asset prevs base_tx (idx + i) (ws ! i))"
proof (induction ws arbitrary: idx)
  case (Cons w ws)
  then show ?case by (auto simp: res_simps validate_input_Ok All_less_Suc2)
qed simp

lemma validate_splits_Ok:
  "validate_splits sha new_asset prevs ss = Ok () \<longleftrightarrow> (\<forall>s \<in> set ss. validate_split sha new_asset prevs s = Ok ())"
  by (induction ss) (auto simp: res_simps)

lemma state_transition_Ok:
  "validate_state_transition sha lib val new_asset prevs = Ok () \<longleftrightarrow>
     prev_witnesses new_asset \<noteq> []
     \<and> (g_asset_type (genesis new_asset) = Collectible \<longrightarrow> length (prev_witnesses new_asset) = 1)
     \<and> (\<exists>base_tx h. virtual_tx sha new_asset prevs = Ok (base_tx, h, out_value (vtx_output base_tx))
          \<and> (\<forall>i < length (prev_witnesses new_asset).
               input_checked sha lib val new_asset prevs base_tx i (prev_witnesses new_asset ! i)))"
  by (cases "prev_witnesses new_asset")
    (auto simp: validate_state_transition_def res_simps validate_inputs_Ok validate_input_Ok All_less_Suc2 Let_def
      split: if_splits)

lemma execute_transfer_Ok:
  assumes "\<not> is_genesis_asset new_asset"
  shows "vm_execute sha lib val new_asset splits prevs = Ok () \<longleftrightarrow>
    (\<forall>s \<in> set splits. validate_split sha new_asset prevs s = Ok ())
    \<and> validate_state_transition sha lib val new_asset prevs = Ok ()"
  using assms by (simp add: vm_execute_def is_genesis_asset_def res_simps validate_splits_Ok)

lemma virtual_tx_transfer:
  assumes "\<not> is_genesis_asset new_asset"
  shows "virtual_tx sha new_asset prevs = Ok (tx, h, s) \<longleftrightarrow>
    (\<exists>txin. virtual_tx_in sha new_asset prevs = Ok (txin, h, s) \<and> virtual_tx_out sha new_asset = Ok (vtx_output tx)
       \<and> tx = \<lparr>vtx_version = 2, vtx_lock_time = 0, vtx_input = txin, vtx_output = vtx_output tx\<rparr>)"
  using assms by (auto simp: virtual_tx_def is_genesis_asset_def needs_genesis_witness_for_group_def res_simps)

lemma virtual_tx_out_value:
  "virtual_tx_out sha a = Ok out \<Longrightarrow>
    out_value out = (case split_commitment_root a of None \<Rightarrow> amount a | Some (_, s) \<Rightarrow> s)"
  by (auto simp: virtual_tx_out_def Let_def res_simps split: option.splits)

lemma execute_spends_all:
  assumes "vm_execute sha lib val new_asset splits prevs = Ok ()" "\<not> is_genesis_asset new_asset"
    and "distinct (map fst prevs)" "(p, a) \<in> set prevs"
  shows "\<exists>base_tx i. i < length (prev_witnesses new_asset) \<and> w_prev_id (prev_witnesses new_asset ! i) = Some p
    \<and> input_checked sha lib val new_asset prevs base_tx i (prev_witnesses new_asset ! i)"
proof -
  obtain base_tx h s where tx: "virtual_tx sha new_asset prevs = Ok (base_tx, h, s)"
    and checked: "\<forall>i < length (prev_witnesses new_asset).
      input_checked sha lib val new_asset prevs base_tx i (prev_witnesses new_asset ! i)"
    using assms(1) unfolding execute_transfer_Ok [OF assms(2)] state_transition_Ok by blast
  then obtain txin where "virtual_tx_in sha new_asset prevs = Ok (txin, h, s)"
    using virtual_tx_transfer [OF assms(2)] by blast
  from inputs_referenced [OF assms(3) this] assms(4) have "p \<in> set (referenced (prev_witnesses new_asset))" by force
  then obtain i where "i < length (prev_witnesses new_asset)" "the (w_prev_id (prev_witnesses new_asset ! i)) = p"
    by (auto simp: referenced_def in_set_conv_nth)
  moreover from this(1) checked obtain q where "w_prev_id (prev_witnesses new_asset ! i) = Some q"
    unfolding input_checked_def by blast
  ultimately show ?thesis using checked by auto
qed

lemma execute_conserves:
  assumes "vm_execute sha lib val new_asset splits prevs = Ok ()" "\<not> is_genesis_asset new_asset"
    and "inputs_separated sha S new_asset prevs" "distinct (map fst prevs)"
  shows "(\<Sum>(p, a) \<leftarrow> prevs. unat (amount a))
    = unat (case split_commitment_root new_asset of None \<Rightarrow> amount new_asset | Some (_, s) \<Rightarrow> s)"
proof -
  obtain tx h where "virtual_tx sha new_asset prevs = Ok (tx, h, out_value (vtx_output tx))"
    using assms(1) unfolding execute_transfer_Ok [OF assms(2)] state_transition_Ok by blast
  then obtain txin where "virtual_tx_in sha new_asset prevs = Ok (txin, h, out_value (vtx_output tx))"
    and out: "virtual_tx_out sha new_asset = Ok (vtx_output tx)"
    unfolding virtual_tx_transfer [OF assms(2)] by (elim exE conjE)
  from input_root_sum [OF assms(3,4) this(1)] virtual_tx_out_value [OF out] show ?thesis by simp
qed

text \<open>The stack of a witness is not part of the virtual transaction of a transfer.\<close>

lemma virtual_tx_stacks:
  assumes "map (\<lambda>w. w\<lparr>tx_witness := []\<rparr>) ws = map (\<lambda>w. w\<lparr>tx_witness := []\<rparr>) ws'"
    and "\<not> is_genesis_asset (a\<lparr>prev_witnesses := ws\<rparr>)" "\<not> is_genesis_asset (a\<lparr>prev_witnesses := ws'\<rparr>)"
  shows "virtual_tx sha (a\<lparr>prev_witnesses := ws\<rparr>) prevs = virtual_tx sha (a\<lparr>prev_witnesses := ws'\<rparr>) prevs"
proof -
  have "insert_inputs sha prevs ws tree consumed = insert_inputs sha prevs ws' tree consumed" for tree consumed
    using assms(1)
  proof (induction ws arbitrary: ws' tree consumed)
    case (Cons w ws)
    then obtain v vs where "ws' = v # vs" "w_prev_id w = w_prev_id v"
      "map (\<lambda>w. w\<lparr>tx_witness := []\<rparr>) ws = map (\<lambda>w. w\<lparr>tx_witness := []\<rparr>) vs"
      by (cases ws') (auto dest: arg_cong [where f = w_prev_id])
    with Cons.IH [of vs] show ?case by simp
  qed simp
  moreover have "virtual_tx_out sha (a\<lparr>prev_witnesses := ws\<rparr>) = virtual_tx_out sha (a\<lparr>prev_witnesses := ws'\<rparr>)"
    using assms(1) by (simp add: virtual_tx_out_def asset_id_def Let_def split: option.split)
  ultimately show ?thesis using assms(2,3)
    by (simp add: virtual_tx_def virtual_tx_in_def is_genesis_asset_def needs_genesis_witness_for_group_def)
qed

text \<open>The transfer of one input, and what its acceptance comes down to.\<close>

lemma single_input_tree:
  assumes "separated sha S no_content" "admissible sha S no_content (prev_id_hash sha p) leaf"
    and "prev_witnesses new_asset = [w]" "w_prev_id w = Some p" "asset_to_leaf sha a = Ok leaf"
  shows "\<exists>txin h. virtual_tx_in sha new_asset [(p, a)] = Ok (txin, h, amount a)"
proof -
  have "content_total no_content + unat (leaf_sum leaf) < 2 ^ 64"
    using unat_lt2p [of "leaf_sum leaf"] by (simp add: content_total_no_content del: unat_u64_less)
  then have adm: "admissible_ops (admissible sha S) [OpInsert (prev_id_hash sha p) leaf] no_content"
    using assms(2) by (simp del: fun_upd_apply)
  from full.run_ops_inv [OF full_inv_new [OF assms(1)] adm]
  obtain s where s: "tree_insert sha (prev_id_hash sha p) leaf full_tree_new = Ok s"
    and inv: "full_inv sha S s (no_content(key_bits (prev_id_hash sha p) := leaf))"
    by (auto simp: res_simps simp del: fun_upd_apply)
  have "sha_32 sha" using assms(1) by (simp add: separated_def)
  moreover have "unat (leaf_sum (no_content (key_bits (prev_id_hash sha p)))) = 0" by (simp add: no_content_def)
  ultimately have "content_total (no_content(key_bits (prev_id_hash sha p) := leaf)) = unat (leaf_sum leaf)"
    using content_total_upd [of "key_bits (prev_id_hash sha p)" no_content leaf]
    by (simp add: content_total_no_content prev_id_hash_def del: fun_upd_apply)
  then have "branch_sum (tree_root sha s) = amount a"
    using full.root_sum [OF inv] asset_to_leaf_sum [OF assms(5)] by (simp add: word_unat_eq_iff)
  with s assms(3-5) show ?thesis by (simp add: virtual_tx_in_def input_of_tree_def Let_def)
qed

lemma transfer_of_one_input:
  assumes "separated sha S no_content" "admissible sha S no_content (prev_id_hash sha p) leaf"
    and "prev_witnesses new_asset = [w]" "w_prev_id w = Some p" "p \<noteq> PREV_ID_ZERO" "asset_to_leaf sha a = Ok leaf"
    and "virtual_tx_out sha new_asset = Ok out"
  shows "validate_state_transition sha lib val new_asset [(p, a)] = Ok () \<longleftrightarrow>
     out_value out = amount a \<and> (\<exists>base_tx h. virtual_tx sha new_asset [(p, a)] = Ok (base_tx, h, amount a)
        \<and> input_checked sha lib val new_asset [(p, a)] base_tx 0 w)"
proof -
  have "\<not> is_genesis_asset new_asset"
    using assms(3-5) by (simp add: is_genesis_asset_def has_genesis_witness_def has_genesis_witness_for_group_def
        is_genesis_def is_genesis_for_group_def witness_zero_prev_def prev_id_is_zero_def)
  with single_input_tree [OF assms(1-4,6)] assms(7) obtain tx h where
    "virtual_tx sha new_asset [(p, a)] = Ok (tx, h, amount a)" "vtx_output tx = out"
    by (fastforce simp: virtual_tx_def is_genesis_asset_def needs_genesis_witness_for_group_def)
  with assms(3) show ?thesis by (auto simp: state_transition_Ok)
qed

text \<open>An owner who can sign: every signature hash has a 64-byte signature that the validator accepts.\<close>

definition owner_can_sign :: "BtcLib \<Rightarrow> WitnessValidator \<Rightarrow> Asset \<Rightarrow> bool" where
  "owner_can_sign lib val a \<longleftrightarrow> x_only_valid lib (schnorr_bytes (sk_pub_key (script_key a)))
     \<and> (\<forall>tx out ht. \<exists>m. key_spend_sighash lib tx out ht = Ok m)
     \<and> (\<forall>m. \<exists>sig. length sig = 64 \<and> (\<forall>w. tx_witness w = [sig] \<longrightarrow> validate_witness val m w a = Ok ()))"

definition spendable_input :: "hash_fun \<Rightarrow> PrevId \<Rightarrow> Asset \<Rightarrow> bool" where
  "spendable_input sha p a \<longleftrightarrow> p \<noteq> PREV_ID_ZERO \<and> prev_script_key p = sk_pub_key (script_key a)
     \<and> prev_asset_id p = genesis_id sha (genesis a) \<and> script_version a = 0"

lemma owner_input_checked:
  assumes "owner_can_sign lib val a" "spendable_input sha p a"
    and "g_asset_type (genesis new_asset) = g_asset_type (genesis a)"
  shows "\<exists>sig. \<forall>w. w_prev_id w = Some p \<longrightarrow> tx_witness w = [sig] \<longrightarrow>
    (\<forall>ws. input_checked sha lib val (new_asset\<lparr>prev_witnesses := ws\<rparr>) [(p, a)] base_tx 0 w)"
proof -
  obtain m where m: "input_key_spend_sighash lib base_tx a new_asset 0 0 = Ok m"
  proof -
    have "\<exists>m. input_key_spend_sighash lib base_tx a new_asset 0 0 = Ok m"
      using assms(1) unfolding owner_can_sign_def input_key_spend_sighash_def input_prev_out_def Let_def
      by (auto simp: res_simps)
    then show ?thesis using that by blast
  qed
  then have m': "input_key_spend_sighash lib base_tx a (new_asset\<lparr>prev_witnesses := ws\<rparr>) 0 0 = Ok m" for ws
    by (simp add: input_key_spend_sighash_def)
  obtain sig where "length sig = 64" "\<forall>w. tx_witness w = [sig] \<longrightarrow> validate_witness val m w a = Ok ()"
    using assms(1) unfolding owner_can_sign_def by blast
  with m' assms(2,3) show ?thesis
    by (intro exI [of _ sig]) (simp add: input_checked_def spendable_input_def matches_prev_genesis_def
        is_script_path_witness_def witness_sig_hash_type_def taproot_witness_sig_hash_type_def)
qed

text \<open>The spend of one input into a root that carries a split commitment; the signature comes last.\<close>

definition signed_root :: "PrevId \<Rightarrow> Asset \<Rightarrow> bytes list \<Rightarrow> Asset" where
  "signed_root p new_asset wit =
     new_asset\<lparr>prev_witnesses := [\<lparr>w_prev_id = Some p, tx_witness = wit, split_commitment = None\<rparr>]\<rparr>"

lemma root_transfer:
  assumes "separated sha S no_content" "admissible sha S no_content (prev_id_hash sha p) leaf"
    and "asset_to_leaf sha a = Ok leaf" "p \<noteq> PREV_ID_ZERO" "split_commitment_root new_asset = Some (h, amount a)"
  shows "\<not> is_genesis_asset (signed_root p new_asset wit)
    \<and> (\<exists>base_tx. \<forall>wit. validate_state_transition sha lib val (signed_root p new_asset wit) [(p, a)] = Ok () \<longleftrightarrow>
         input_checked sha lib val (signed_root p new_asset wit) [(p, a)] base_tx 0
           \<lparr>w_prev_id = Some p, tx_witness = wit, split_commitment = None\<rparr>)"
proof -
  let ?w = "\<lambda>wit. \<lparr>w_prev_id = Some p, tx_witness = wit, split_commitment = None\<rparr>"
  have ws: "prev_witnesses (signed_root p new_asset wit) = [?w wit]" for wit by (simp add: signed_root_def)
  have gen: "\<not> is_genesis_asset (signed_root p new_asset wit)" for wit
    using assms(4) by (simp add: ws is_genesis_asset_def has_genesis_witness_def has_genesis_witness_for_group_def
        is_genesis_def is_genesis_for_group_def witness_zero_prev_def prev_id_is_zero_def)
  obtain txin hash where txin: "virtual_tx_in sha (signed_root p new_asset []) [(p, a)] = Ok (txin, hash, amount a)"
    using single_input_tree [OF assms(1,2) ws [of "[]"] _ assms(3)] by auto
  have same: "virtual_tx_in sha (signed_root p new_asset wit) [(p, a)]
      = virtual_tx_in sha (signed_root p new_asset []) [(p, a)]" for wit
    by (simp add: virtual_tx_in_def ws)
  let ?out = "\<lparr>out_value = amount a, script_pubkey = compute_taproot_script h\<rparr>"
  have out: "virtual_tx_out sha (signed_root p new_asset wit) = Ok ?out" for wit
    using assms(5) by (simp add: virtual_tx_out_def signed_root_def)
  have tx: "virtual_tx sha (signed_root p new_asset wit) [(p, a)]
      = Ok (\<lparr>vtx_version = 2, vtx_lock_time = 0, vtx_input = txin, vtx_output = ?out\<rparr>, hash, amount a)" for wit
    using txin unfolding virtual_tx_transfer [OF gen] same [of wit] by (simp add: out)
  have "\<forall>wit. validate_state_transition sha lib val (signed_root p new_asset wit) [(p, a)] = Ok () \<longleftrightarrow>
         input_checked sha lib val (signed_root p new_asset wit) [(p, a)]
           \<lparr>vtx_version = 2, vtx_lock_time = 0, vtx_input = txin, vtx_output = ?out\<rparr> 0 (?w wit)"
    by (simp add: state_transition_Ok ws tx)
  with gen show ?thesis by blast
qed

lemma owner_transfer:
  assumes "separated sha S no_content" "admissible sha S no_content (prev_id_hash sha p) leaf"
    and "asset_to_leaf sha a = Ok leaf" "owner_can_sign lib val a" "spendable_input sha p a"
    and "g_asset_type (genesis new_asset) = g_asset_type (genesis a)" "split_commitment_root new_asset = Some (h, amount a)"
  shows "\<exists>wit. validate_state_transition sha lib val (signed_root p new_asset wit) [(p, a)] = Ok ()
    \<and> \<not> is_genesis_asset (signed_root p new_asset wit)"
proof -
  have p: "p \<noteq> PREV_ID_ZERO" using assms(5) by (simp add: spendable_input_def)
  obtain base_tx where tx: "\<forall>wit. validate_state_transition sha lib val (signed_root p new_asset wit) [(p, a)] = Ok () \<longleftrightarrow>
      input_checked sha lib val (signed_root p new_asset wit) [(p, a)] base_tx 0
        \<lparr>w_prev_id = Some p, tx_witness = wit, split_commitment = None\<rparr>"
    using root_transfer [OF assms(1-3) p assms(7)] by blast
  obtain sig where "\<forall>w. w_prev_id w = Some p \<longrightarrow> tx_witness w = [sig] \<longrightarrow>
      (\<forall>ws. input_checked sha lib val (new_asset\<lparr>prev_witnesses := ws\<rparr>) [(p, a)] base_tx 0 w)"
    using owner_input_checked [OF assms(4-6)] by blast
  then have "validate_state_transition sha lib val (signed_root p new_asset [sig]) [(p, a)] = Ok ()"
    using tx by (simp add: signed_root_def)
  with root_transfer [OF assms(1-3) p assms(7)] show ?thesis by blast
qed

lemma asset_to_leaf_Ok:
  "a_version b = a_version a \<Longrightarrow> asset_to_leaf sha a = Ok l \<Longrightarrow> \<exists>l'. asset_to_leaf sha b = Ok l'"
  by (auto simp: asset_to_leaf_def encode_asset_leaf_def res_simps split: AssetVersion.splits)

text \<open>The split output of any amount that an owner can make up.\<close>

definition forged_split :: "PrevId \<Rightarrow> Asset \<Rightarrow> u64 \<Rightarrow> MerkleProof \<Rightarrow> SplitAsset" where
  "forged_split p a m pf = \<lparr>sa_asset = a\<lparr>amount := m, prev_witnesses := [\<lparr>w_prev_id = Some PREV_ID_ZERO,
      tx_witness = [], split_commitment = Some \<lparr>sc_proof = pf, sc_root_asset = []\<rparr>\<rparr>]\<rparr>, sa_output_index = 1\<rparr>"

definition forged_root :: "Asset \<Rightarrow> bytes \<Rightarrow> Asset" where
  "forged_root a h = a\<lparr>amount := 1, split_commitment_root := Some (h, amount a)\<rparr>"

lemma forged_split_accepted:
  assumes "separated sha S no_content" "admissible sha S no_content (prev_id_hash sha p) leaf"
    and "asset_to_leaf sha a = Ok leaf" "owner_can_sign lib val a" "spendable_input sha p a" "m \<noteq> 0"
  shows "\<exists>h pf wit. vm_execute sha lib val (signed_root p (forged_root a h) wit) [forged_split p a m pf] [(p, a)] = Ok ()
    \<and> \<not> is_genesis_asset (signed_root p (forged_root a h) wit)"
proof -
  let ?r = "\<lambda>h wit. signed_root p (forged_root a h) wit"
  have same: "split_leaf_asset (?r h wit) (sa_asset (forged_split p a m pf))
      = split_leaf_asset (?r [] []) (sa_asset (forged_split p a m []))"
    "split_locator sha (forged_split p a m pf) = split_locator sha (forged_split p a m [])" for h pf wit
    by (simp_all add: split_leaf_asset_def split_locator_def forged_root_def forged_split_def signed_root_def)
  obtain sl where sl: "asset_to_leaf sha (split_leaf_asset (?r [] []) (sa_asset (forged_split p a m []))) = Ok sl"
    using asset_to_leaf_Ok [OF _ assms(3)] by (force simp: split_leaf_asset_def forged_split_def)
  obtain pf h where pf: "verify_merkle_proof sha (locator_hash sha (split_locator sha (forged_split p a m []))) sl pf
      (computed h (amount a))"
    using any_root_sum by blast
  obtain wit where trans: "validate_state_transition sha lib val (?r h wit) [(p, a)] = Ok ()"
    "\<not> is_genesis_asset (?r h wit)"
    using owner_transfer [OF assms(1-5), of "forged_root a h" h] by (auto simp: forged_root_def)
  have "matches_asset_params sha (sa_asset (forged_split p a m pf)) a p = Ok ()"
    using assms(5) by (simp add: matches_asset_params_Ok forged_split_def spendable_input_def matches_prev_genesis_def)
  moreover have "split_commitment_root (?r h wit) = Some (h, amount a)"
    "primary_prev_id (?r h wit) = Some p" "amount (?r h wit) = 1"
    "g_asset_type (genesis (?r h wit)) = g_asset_type (genesis a)"
    by (simp_all add: forged_root_def signed_root_def primary_prev_id_def)
  moreover have "g_asset_type (genesis (sa_asset (forged_split p a m pf))) = g_asset_type (genesis a)"
    "has_split_commitment_witness (sa_asset (forged_split p a m pf))" "amount (sa_asset (forged_split p a m pf)) = m"
    "split_commitment (prev_witnesses (sa_asset (forged_split p a m pf)) ! 0) = Some \<lparr>sc_proof = pf, sc_root_asset = []\<rparr>"
    by (simp_all add: forged_split_def has_split_commitment_witness_def is_split_commitment_def)
  ultimately have "validate_split sha (?r h wit) [(p, a)] (forged_split p a m pf) = Ok ()"
    using sl pf assms(6) by (simp add: validate_split_def Let_def same(1) [of h wit pf] same(2) [of pf])
  with trans have "vm_execute sha lib val (?r h wit) [forged_split p a m pf] [(p, a)] = Ok ()"
    by (simp add: execute_transfer_Ok)
  with trans show ?thesis by blast
qed

text \<open>A concrete coin, its owner and its transfer.\<close>

definition demo_genesis :: Genesis where
  "demo_genesis = genesis_empty\<lparr>tag := [0x54]\<rparr>"

definition demo_coin :: Asset where
  "demo_coin = new_genesis demo_genesis 1000 (script_key_from_pub_key (replicate 33 2))"

definition demo_prev :: PrevId where
  "demo_prev = \<lparr>prev_out_point = \<lparr>op_txid = replicate 32 1, op_vout = 0\<rparr>,
     prev_asset_id = genesis_id demo_hash demo_genesis, prev_script_key = replicate 33 2\<rparr>"

definition demo_next :: Asset where
  "demo_next = signed_root demo_prev (demo_coin\<lparr>split_commitment_root := Some (zeros 32, 1000)\<rparr>) []"

definition demo_lib :: BtcLib where
  "demo_lib = \<lparr>x_only_valid = (\<lambda>_. True), key_spend_sighash = (\<lambda>_ _ _. Ok (zeros 32))\<rparr>"

definition demo_val :: WitnessValidator where
  "demo_val = \<lparr>validate_witness = (\<lambda>_ _ _. Ok ()), validate_script_spend = (\<lambda>_ _ _ _. Ok ())\<rparr>"

definition demo_coin_leaf :: LeafNode where
  "demo_coin_leaf = leaf_new (encode_asset demo_hash demo_coin EncodeNormal) 1000"

definition demo_coin_set :: "bytes set" where
  "demo_coin_set = single_set (prev_id_hash demo_hash demo_prev) demo_coin_leaf"

lemma demo_coin_facts:
  "asset_to_leaf demo_hash demo_coin = Ok demo_coin_leaf" "owner_can_sign demo_lib demo_val demo_coin"
  "spendable_input demo_hash demo_prev demo_coin"
  "separated demo_hash demo_coin_set no_content"
  "admissible demo_hash demo_coin_set no_content (prev_id_hash demo_hash demo_prev) demo_coin_leaf"
proof -
  show leaf: "asset_to_leaf demo_hash demo_coin = Ok demo_coin_leaf"
    by (simp add: asset_to_leaf_def encode_asset_leaf_def demo_coin_leaf_def demo_coin_def new_genesis_def)
  show "owner_can_sign demo_lib demo_val demo_coin"
    by (simp add: owner_can_sign_def demo_lib_def demo_val_def exI [of _ "zeros 64"])
  show "spendable_input demo_hash demo_prev demo_coin"
    by (simp add: spendable_input_def demo_prev_def demo_coin_def new_genesis_def script_key_from_pub_key_def
        PREV_ID_ZERO_def zeros_def)
  have "wf_genesis (genesis demo_coin)"
    by (simp add: demo_coin_def new_genesis_def wf_genesis_def demo_genesis_def genesis_empty_def wf_asset_type_def asset_type_from_u8_def)
  then have "length (leaf_value demo_coin_leaf) \<noteq> 64" using asset_leaf_sized [OF _ leaf] by simp
  moreover have "demo_coin_leaf \<noteq> leaf_empty" by (simp add: demo_coin_leaf_def leaf_empty_def leaf_new_def)
  ultimately show "separated demo_hash demo_coin_set no_content"
    "admissible demo_hash demo_coin_set no_content (prev_id_hash demo_hash demo_prev) demo_coin_leaf"
    unfolding demo_coin_set_def by (rule demo_single_leaf)+
qed

lemma demo_transfer:
  "vm_execute demo_hash demo_lib demo_val demo_next [] [(demo_prev, demo_coin)] = Ok ()"
  "\<not> is_genesis_asset demo_next"
  "inputs_separated demo_hash demo_coin_set demo_next [(demo_prev, demo_coin)]"
proof -
  have nx: "prev_witnesses demo_next = [\<lparr>w_prev_id = Some demo_prev, tx_witness = [], split_commitment = None\<rparr>]"
    "split_commitment_root demo_next = Some (zeros 32, 1000)" "genesis demo_next = genesis demo_coin"
    by (simp_all add: demo_next_def signed_root_def)
  let ?r = "demo_coin\<lparr>split_commitment_root := Some (zeros 32, 1000)\<rparr>"
  have "split_commitment_root ?r = Some (zeros 32, amount demo_coin)" by (simp add: demo_coin_def new_genesis_def)
  from root_transfer [OF demo_coin_facts(4,5,1) _ this] demo_coin_facts(3)
  obtain base_tx where gen: "\<not> is_genesis_asset demo_next"
    and val: "validate_state_transition demo_hash demo_lib demo_val demo_next [(demo_prev, demo_coin)] = Ok () \<longleftrightarrow>
      input_checked demo_hash demo_lib demo_val demo_next [(demo_prev, demo_coin)] base_tx 0
        \<lparr>w_prev_id = Some demo_prev, tx_witness = [], split_commitment = None\<rparr>"
    unfolding demo_next_def spendable_input_def by blast
  have "validate_state_transition demo_hash demo_lib demo_val demo_next [(demo_prev, demo_coin)] = Ok ()"
    unfolding val using demo_coin_facts(3)
    by (simp add: input_checked_def nx spendable_input_def matches_prev_genesis_def is_script_path_witness_def
        input_key_spend_sighash_def input_prev_out_def demo_lib_def demo_val_def Let_def res_simps)
  with gen show "vm_execute demo_hash demo_lib demo_val demo_next [] [(demo_prev, demo_coin)] = Ok ()"
    and "\<not> is_genesis_asset demo_next"
    by (simp_all add: execute_transfer_Ok)
  have "input_leaf demo_hash [(demo_prev, demo_coin)] demo_prev = demo_coin_leaf"
    using demo_coin_facts(1) by (simp add: input_leaf_def)
  then show "inputs_separated demo_hash demo_coin_set demo_next [(demo_prev, demo_coin)]"
    using demo_coin_facts(4,5)
    by (simp add: inputs_separated_def nx referenced_def input_ops_def del: fun_upd_apply)
qed

text \<open>A coin issued under a group key.\<close>

definition demo_group :: GroupKey where
  "demo_group = \<lparr>gk_version = 0, gk_raw_key = replicate 33 3, group_pub_key = replicate 33 3, gk_tapscript_root = [],
     gk_witness = []\<rparr>"

definition demo_group_coin :: Asset where
  "demo_group_coin = demo_coin\<lparr>group_key := Some demo_group,
     prev_witnesses := [\<lparr>w_prev_id = Some PREV_ID_ZERO, tx_witness = [zeros 64], split_commitment = None\<rparr>]\<rparr>"

lemma demo_insert_empty:
  assumes "wf_genesis (genesis a)" "asset_to_leaf demo_hash a = Ok l" "leaf_sum l \<noteq> 0"
  shows "\<exists>s. tree_insert demo_hash key l full_tree_new = Ok s"
  using asset_leaf_sized [OF assms(1,2)] assms(3) by (intro demo_single_leaf) auto

lemma demo_group_genesis:
  "vm_execute demo_hash demo_lib demo_val demo_group_coin [] [] = Ok ()" "is_genesis_asset demo_group_coin"
proof -
  let ?c = "demo_group_coin\<lparr>prev_witnesses := [\<lparr>w_prev_id = Some PREV_ID_ZERO, tx_witness = [], split_commitment = None\<rparr>]\<rparr>"
  have wf: "wf_genesis (genesis ?c)"
    by (simp add: demo_group_coin_def demo_coin_def new_genesis_def wf_genesis_def demo_genesis_def genesis_empty_def wf_asset_type_def
        asset_type_from_u8_def)
  obtain l where l: "asset_to_leaf demo_hash ?c = Ok l"
    using asset_to_leaf_Ok [OF _ demo_coin_facts(1), of ?c] by (auto simp: demo_group_coin_def)
  then have sum: "leaf_sum l \<noteq> 0"
    using asset_to_leaf_sum [OF l] by (simp add: demo_group_coin_def demo_coin_def new_genesis_def)
  have ins: "\<exists>s. tree_insert demo_hash (demo_hash x) l full_tree_new = Ok s" for x
    by (rule demo_insert_empty [OF wf l sum])
  have w: "prev_witnesses demo_group_coin = [\<lparr>w_prev_id = Some PREV_ID_ZERO, tx_witness = [zeros 64], split_commitment = None\<rparr>]"
    "group_key demo_group_coin = Some demo_group" "split_commitment_root demo_group_coin = None"
    by (simp_all add: demo_group_coin_def demo_coin_def new_genesis_def)
  have gen: "\<not> has_genesis_witness demo_group_coin" "has_genesis_witness_for_group demo_group_coin"
    by (simp_all add: has_genesis_witness_def has_genesis_witness_for_group_def is_genesis_def is_genesis_for_group_def
        witness_zero_prev_def prev_id_is_zero_def w)
  then show "is_genesis_asset demo_group_coin" by (simp add: is_genesis_asset_def)
  have "\<exists>r. virtual_genesis_tx_in demo_hash demo_group_coin = Ok r"
    using ins [of "prev_id_preimage PREV_ID_ZERO"] gen l
    by (auto simp: virtual_genesis_tx_in_def Let_def w prev_id_hash_def input_of_tree_def)
  moreover have "\<exists>r. virtual_tx_out demo_hash demo_group_coin = Ok r"
    using l by (simp add: virtual_tx_out_def Let_def w res_simps ins)
  ultimately have "\<exists>r. virtual_tx demo_hash demo_group_coin [] = Ok r"
    using gen by (fastforce simp: virtual_tx_def)
  with gen show "vm_execute demo_hash demo_lib demo_val demo_group_coin [] [] = Ok ()"
    by (fastforce simp: vm_execute_def validate_group_genesis_witness_def w is_script_path_witness_def Let_def
        input_group_genesis_key_spend_sighash_def input_genesis_prev_out_def demo_lib_def demo_val_def)
qed

section \<open>Properties\<close>

text \<open>C1: transfers conserve value. When the engine accepts a transition that is not a genesis, the amounts of
  all the spent assets add up, as unbounded numbers, to the value committed to by the new asset: the
  sum of its split commitment root if it has one and its own amount otherwise. (Assumed: an input map has one
  asset per key, and SHA-256 has no collision among the preimages of the input tree.)\<close>

theorem vm_accept_conserves:
  assumes "vm_execute sha lib val new_asset splits prevs = Ok ()" "\<not> is_genesis_asset new_asset"
    and "inputs_separated sha S new_asset prevs" "distinct (map fst prevs)"
  shows "(\<Sum>(p, a) \<leftarrow> prevs. unat (amount a))
    = unat (case split_commitment_root new_asset of None \<Rightarrow> amount new_asset | Some (_, s) \<Rightarrow> s)"
  by (rule execute_conserves [OF assms])

theorem vm_accept_conserves_witness:
  "vm_execute demo_hash demo_lib demo_val demo_next [] [(demo_prev, demo_coin)] = Ok ()
    \<and> unat (amount demo_coin) = 1000 \<and> split_commitment_root demo_next = Some (zeros 32, 1000)
    \<and> (\<Sum>(p, a) \<leftarrow> [(demo_prev, demo_coin)]. unat (amount a)) = unat (1000 :: u64)"
  using vm_accept_conserves [OF demo_transfer] demo_transfer(1)
  by (simp add: demo_coin_def demo_next_def signed_root_def new_genesis_def)

text \<open>C23: every input is authorised. When the engine accepts a transition that is not a genesis, the new asset has at
  least one witness (exactly one if it is a collectible), and every witness names a supplied
  input with the script key it commits to, the same asset type, a matching asset ID or the same group key and
  tag, and script version 0, and was accepted by the signature validator on the signature hash computed for its
  own position, or by the script validator.\<close>

theorem vm_accept_inputs:
  assumes "vm_execute sha lib val new_asset splits prevs = Ok ()" "\<not> is_genesis_asset new_asset"
  shows "prev_witnesses new_asset \<noteq> []
    \<and> (g_asset_type (genesis new_asset) = Collectible \<longrightarrow> length (prev_witnesses new_asset) = 1)
    \<and> (\<exists>base_tx root. virtual_tx sha new_asset prevs = Ok (base_tx, root)
         \<and> (\<forall>i < length (prev_witnesses new_asset).
              input_checked sha lib val new_asset prevs base_tx i (prev_witnesses new_asset ! i)))"
  using assms(1) unfolding execute_transfer_Ok [OF assms(2)] state_transition_Ok by blast

theorem vm_accept_inputs_witness:
  "\<exists>base_tx root. virtual_tx demo_hash demo_next [(demo_prev, demo_coin)] = Ok (base_tx, root)
    \<and> input_checked demo_hash demo_lib demo_val demo_next [(demo_prev, demo_coin)] base_tx 0 (prev_witnesses demo_next ! 0)"
proof -
  have "length (prev_witnesses demo_next) = 1" by (simp add: demo_next_def signed_root_def)
  with vm_accept_inputs [OF demo_transfer(1,2)] show ?thesis by auto
qed

text \<open>C24: every split is proven. Each split asset that the engine accepts has the type of the new asset, exactly one witness
  and that with a split commitment, is unspendable when its amount is zero (the new asset too), and its
  leaf, without the split commitment and with the lock times of the new asset, is in the tree under the
  split commitment root at the key of its output index, asset ID and script key.\<close>

theorem vm_splits_proven:
  assumes "vm_execute sha lib val new_asset splits prevs = Ok ()" "\<not> is_genesis_asset new_asset"
    and "s \<in> set splits"
  shows "\<exists>root_hash root_sum com leaf. split_commitment_root new_asset = Some (root_hash, root_sum)
    \<and> g_asset_type (genesis new_asset) = g_asset_type (genesis (sa_asset s))
    \<and> length (prev_witnesses (sa_asset s)) = 1
    \<and> split_commitment (prev_witnesses (sa_asset s) ! 0) = Some com
    \<and> (amount (sa_asset s) = 0 \<longrightarrow> is_unspendable (sa_asset s))
    \<and> (amount new_asset = 0 \<longrightarrow> is_unspendable new_asset)
    \<and> asset_to_leaf sha (split_leaf_asset new_asset (sa_asset s)) = Ok leaf
    \<and> leaf_sum leaf = amount (sa_asset s)
    \<and> verify_merkle_proof sha (locator_hash sha (split_locator sha s)) leaf (sc_proof com)
         (computed root_hash root_sum)"
proof -
  have "validate_split sha new_asset prevs s = Ok ()"
    using assms by (simp add: execute_transfer_Ok)
  then show ?thesis
    by (auto simp: validate_split_def Let_def res_simps has_split_commitment_witness_def is_split_commitment_def
        split: if_splits option.splits dest: split_leaf_sum)
qed

theorem vm_splits_proven_witness:
  "\<exists>h pf wit (com :: SplitCommitmentWitness) leaf. vm_execute demo_hash demo_lib demo_val (signed_root demo_prev (forged_root demo_coin h) wit)
      [forged_split demo_prev demo_coin 400 pf] [(demo_prev, demo_coin)] = Ok ()
    \<and> leaf_sum leaf = 400
    \<and> verify_merkle_proof demo_hash (locator_hash demo_hash (split_locator demo_hash (forged_split demo_prev demo_coin 400 pf)))
         leaf (sc_proof com) (computed h 1000)"
proof -
  obtain h pf wit where ok: "vm_execute demo_hash demo_lib demo_val (signed_root demo_prev (forged_root demo_coin h) wit)
      [forged_split demo_prev demo_coin 400 pf] [(demo_prev, demo_coin)] = Ok ()"
    and gen: "\<not> is_genesis_asset (signed_root demo_prev (forged_root demo_coin h) wit)"
    using forged_split_accepted [OF demo_coin_facts(4,5,1,2,3), of 400] by auto
  have root: "split_commitment_root (signed_root demo_prev (forged_root demo_coin h) wit) = Some (h, 1000)"
    "amount (sa_asset (forged_split demo_prev demo_coin 400 pf)) = 400"
    by (simp_all add: signed_root_def forged_root_def forged_split_def demo_coin_def new_genesis_def)
  from vm_splits_proven [OF ok gen list.set_intros(1)] obtain rh rs leaf and com :: SplitCommitmentWitness
    where r: "split_commitment_root (signed_root demo_prev (forged_root demo_coin h) wit) = Some (rh, rs)"
    and sum: "leaf_sum leaf = amount (sa_asset (forged_split demo_prev demo_coin 400 pf))"
    and ver: "verify_merkle_proof demo_hash (locator_hash demo_hash (split_locator demo_hash (forged_split demo_prev demo_coin 400 pf)))
       leaf (sc_proof com) (computed rh rs)"
    by (elim exE conjE)
  have "rh = h" "rs = 1000" using r root(1) by simp_all
  with ok sum root(2) ver show ?thesis by (intro exI conjI) simp_all
qed

text \<open>A genesis consumes nothing and a group has to sign. When the engine accepts a genesis asset there are no inputs and
  no splits, and if the asset is in a group, the signature validator accepted its witness for the group
  key, on the signature hash of the virtual transaction that spends the group key with the asset's amount; script-path witnesses
  are refused.\<close>

theorem vm_genesis_rules:
  assumes "vm_execute sha lib val a splits prevs = Ok ()" "is_genesis_asset a"
  shows "splits = [] \<and> prevs = [] \<and> (\<forall>gk. group_key a = Some gk \<longrightarrow>
      \<not> is_script_path_witness (tx_witness (prev_witnesses a ! 0))
      \<and> x_only_valid lib (schnorr_bytes (group_pub_key gk))
      \<and> (\<exists>base_tx root msg. virtual_tx sha a [] = Ok (base_tx, root)
           \<and> key_spend_sighash lib (virtual_tx_with_input base_tx (a_lock_time a) (relative_lock_time a) 0 [])
               \<lparr>out_value = amount a, script_pubkey = compute_taproot_script (schnorr_bytes (group_pub_key gk))\<rparr>
               (witness_sig_hash_type (tx_witness (prev_witnesses a ! 0))) = Ok msg
           \<and> validate_witness val msg (prev_witnesses a ! 0)
               (a\<lparr>script_key := script_key_from_pub_key (group_pub_key gk)\<rparr>) = Ok ()))"
proof (cases "has_genesis_witness a")
  case True
  with assms(1) show ?thesis by (simp add: vm_execute_def split: if_splits)
next
  case False
  with assms(2) have "has_genesis_witness_for_group a" by (simp add: is_genesis_asset_def)
  with False assms(1) have "splits = []" "prevs = []" "validate_group_genesis_witness sha lib val a = Ok ()"
    by (simp_all add: vm_execute_def split: if_splits)
  then show ?thesis
    by (auto simp: validate_group_genesis_witness_def input_group_genesis_key_spend_sighash_def
        input_genesis_prev_out_def Let_def res_simps split: if_splits)
qed

theorem vm_genesis_rules_witness:
  "vm_execute demo_hash demo_lib demo_val demo_group_coin [] [] = Ok ()
    \<and> \<not> is_script_path_witness (tx_witness (prev_witnesses demo_group_coin ! 0))
    \<and> (\<exists>base_tx root. virtual_tx demo_hash demo_group_coin [] = Ok (base_tx, root))"
proof -
  have "group_key demo_group_coin = Some demo_group" by (simp add: demo_group_coin_def)
  with vm_genesis_rules [OF demo_group_genesis] demo_group_genesis(1) show ?thesis by blast
qed

text \<open>C35: the split rules alone do not bound what the outputs hold. An owner of one asset, whatever its amount, can present a
  root asset and a split of any non-zero amount (larger than the asset that is spent, if desired) that
  the engine accepts in one transition: the Merkle sums of the split proof wrap around modulo 2^64 and
  nothing rejects the wrap. The conservation check only compares the inputs with the sum written into the split root.\<close>

theorem vm_split_any_amount:
  assumes "separated sha S no_content" "admissible sha S no_content (prev_id_hash sha p) leaf"
    and "asset_to_leaf sha a = Ok leaf" "owner_can_sign lib val a" "spendable_input sha p a" "m \<noteq> 0"
  shows "\<exists>new_asset s. vm_execute sha lib val new_asset [s] [(p, a)] = Ok () \<and> \<not> is_genesis_asset new_asset
    \<and> amount (sa_asset s) = m \<and> genesis (sa_asset s) = genesis a"
proof -
  obtain h pf wit where
    "vm_execute sha lib val (signed_root p (forged_root a h) wit) [forged_split p a m pf] [(p, a)] = Ok ()"
    "\<not> is_genesis_asset (signed_root p (forged_root a h) wit)"
    using forged_split_accepted [OF assms] by (elim exE conjE)
  moreover have "amount (sa_asset (forged_split p a m pf)) = m" "genesis (sa_asset (forged_split p a m pf)) = genesis a"
    by (simp_all add: forged_split_def)
  ultimately show ?thesis by blast
qed

theorem vm_split_any_amount_witness:
  "\<exists>new_asset s. vm_execute demo_hash demo_lib demo_val new_asset [s] [(demo_prev, demo_coin)] = Ok ()
    \<and> amount demo_coin = 1000 \<and> amount (sa_asset s) = 1000000"
  using vm_split_any_amount [OF demo_coin_facts(4,5,1,2,3), of 1000000]
  by (auto simp: demo_coin_def new_genesis_def)

text \<open>C36: a transfer may change which asset is held, and how much of it. From one asset that its owner can sign for, the engine
  accepts a transition without splits to an asset with any genesis of the same type and any amount. The rule on the
  previous identifier compares the identifier in the witness with the spent asset, never the genesis of the new
  asset; and the amount of a root asset that carries a split commitment is compared with nothing, only the sum
  written into the commitment root is.\<close>

theorem vm_root_any_asset:
  assumes "separated sha S no_content" "admissible sha S no_content (prev_id_hash sha p) leaf"
    and "asset_to_leaf sha a = Ok leaf" "owner_can_sign lib val a" "spendable_input sha p a"
    and "g_asset_type g = g_asset_type (genesis a)"
  shows "\<exists>new_asset. vm_execute sha lib val new_asset [] [(p, a)] = Ok () \<and> \<not> is_genesis_asset new_asset
    \<and> genesis new_asset = g \<and> amount new_asset = m"
proof -
  let ?n = "a\<lparr>genesis := g, amount := m, split_commitment_root := Some (zeros 32, amount a)\<rparr>"
  obtain wit where "validate_state_transition sha lib val (signed_root p ?n wit) [(p, a)] = Ok ()"
    "\<not> is_genesis_asset (signed_root p ?n wit)"
    using owner_transfer [OF assms(1-5), of ?n "zeros 32"] assms(6) by auto
  then show ?thesis
    by (intro exI [of _ "signed_root p ?n wit"]) (simp add: execute_transfer_Ok, simp add: signed_root_def)
qed

theorem vm_root_any_asset_witness:
  "\<exists>new_asset. vm_execute demo_hash demo_lib demo_val new_asset [] [(demo_prev, demo_coin)] = Ok ()
    \<and> \<not> is_genesis_asset new_asset \<and> genesis new_asset = genesis_empty\<lparr>tag := [0x58]\<rparr> \<and> amount new_asset = 1000000"
  using vm_root_any_asset [OF demo_coin_facts(4,5,1,2,3), of "genesis_empty\<lparr>tag := [0x58]\<rparr>" 1000000]
  by (simp add: demo_coin_def new_genesis_def demo_genesis_def)

end
