(* ===== verification/Codec.thy ===== *)
theory Codec
  imports Tlv Btree
begin

text \<open>
  What the decoders of assets and proofs share: fixed-size reads, lists preceded by their count, and the loop
  over the records of a TLV stream that fills the fields of a structure. The locale \<open>strict_decoder\<close> is the contract
  of such a loop (known types set fields, unknown odd types are kept, unknown even types are refused); its
  lemmas give the round trip of a structure from that of its fields. \<open>utf8_valid\<close> is the check of
  \<^verbatim>\<open>String::from_utf8\<close>.
\<close>

fun map_ok :: "('s \<Rightarrow> 't) \<Rightarrow> ('s, 'e) result \<Rightarrow> ('t, 'e) result" where
  "map_ok f (Ok x) = Ok (f x)"
| "map_ok f (Err e) = Err e"
| "map_ok f Panic = Panic"

lemma res_bind_map_ok [simp]: "res_bind (map_ok f m) g = res_bind m (\<lambda>x. g (f x))"
  by (cases m) simp_all

lemma map_ok_swap: "(\<And>x. f x = f' (g x)) \<Longrightarrow> map_ok f m = map_ok f' (map_ok g m)"
  by (cases m) simp_all

lemma map_err_id [simp]: "map_err (\<lambda>e. e) m = m"
  by (cases m) simp_all

lemma res_bind_assoc: "res_bind (res_bind m f) g = res_bind m (\<lambda>x. res_bind (f x) g)"
  by (cases m) simp_all

section \<open>Fixed-size reads\<close>

definition read_n :: "bytes \<Rightarrow> nat \<Rightarrow> nat \<Rightarrow> (bytes \<times> nat, TlvError) result" where
  "read_n data offset len =
     (if length data < offset + len then Err UnexpectedEof else Ok (take len (drop offset data), offset + len))"

lemma read_n_at:
  "length v = len \<Longrightarrow> length pre = offset \<Longrightarrow> read_n (pre @ v @ rest) offset len = Ok (v, offset + len)"
  by (auto simp: read_n_def)

section \<open>UTF-8\<close>

definition utf8_cont :: "u8 \<Rightarrow> bool" where
  "utf8_cont b \<longleftrightarrow> 0x80 \<le> b \<and> b \<le> 0xBF"

fun utf8_valid :: "bytes \<Rightarrow> bool" where
  "utf8_valid [] \<longleftrightarrow> True"
| "utf8_valid (a # bs) \<longleftrightarrow>
     (if a \<le> 0x7F then utf8_valid bs
      else if 0xC2 \<le> a \<and> a \<le> 0xDF then
        (case bs of b # rest \<Rightarrow> utf8_cont b \<and> utf8_valid rest | _ \<Rightarrow> False)
      else if 0xE0 \<le> a \<and> a \<le> 0xEF then
        (case bs of b # c # rest \<Rightarrow>
           (if a = 0xE0 then 0xA0 \<le> b \<and> b \<le> 0xBF
            else if a = 0xED then 0x80 \<le> b \<and> b \<le> 0x9F else utf8_cont b)
           \<and> utf8_cont c \<and> utf8_valid rest
         | _ \<Rightarrow> False)
      else if 0xF0 \<le> a \<and> a \<le> 0xF4 then
        (case bs of b # c # d # rest \<Rightarrow>
           (if a = 0xF0 then 0x90 \<le> b \<and> b \<le> 0xBF
            else if a = 0xF4 then 0x80 \<le> b \<and> b \<le> 0x8F else utf8_cont b)
           \<and> utf8_cont c \<and> utf8_cont d \<and> utf8_valid rest
         | _ \<Rightarrow> False)
      else False)"

section \<open>Counted lists\<close>

text \<open>\<^verbatim>\<open>for _ in 0..count\<close> over inline var-bytes items; \<open>err\<close> converts the errors of the reader.\<close>

fun decode_var_items ::
  "(bytes \<Rightarrow> ('a, 'e) result) \<Rightarrow> (TlvError \<Rightarrow> 'e) \<Rightarrow> nat \<Rightarrow> bytes \<Rightarrow> nat \<Rightarrow> 'a list \<Rightarrow>
     ('a list \<times> nat, 'e) result" where
  "decode_var_items dec err 0 data offset acc = Ok (acc, offset)"
| "decode_var_items dec err (Suc n) data offset acc =
     res_bind (map_err err (decode_var_bytes (drop offset data))) (\<lambda>(item, consumed).
       res_bind (dec item) (\<lambda>x. decode_var_items dec err n data (offset + consumed) (acc @ [x])))"

definition decode_counted ::
  "(bytes \<Rightarrow> ('a, 'e) result) \<Rightarrow> (TlvError \<Rightarrow> 'e) \<Rightarrow> (u64 \<Rightarrow> bool) \<Rightarrow> 'e \<Rightarrow> 'e \<Rightarrow> bytes \<Rightarrow> ('a list, 'e) result" where
  "decode_counted dec err too_many many_err trail_err data =
     res_bind (map_err err (decode_bigsize data)) (\<lambda>(count, offset).
       if too_many count then Err many_err
       else res_bind (decode_var_items dec err (unat count) data offset []) (\<lambda>(xs, offset).
         if offset \<noteq> length data then Err trail_err else Ok xs))"

definition encode_counted :: "('a \<Rightarrow> bytes) \<Rightarrow> 'a list \<Rightarrow> bytes" where
  "encode_counted enc xs = encode_bigsize (of_nat (length xs)) @ concat (map (\<lambda>x. encode_var_bytes (enc x)) xs)"

lemma decode_var_items_encode:
  assumes "\<forall>x \<in> set xs. vec_bounded (enc x) \<and> dec (enc x) = Ok x"
  shows "decode_var_items dec err (length xs) (pre @ concat (map (\<lambda>x. encode_var_bytes (enc x)) xs) @ rest) (length pre) acc
    = Ok (acc @ xs, length pre + length (concat (map (\<lambda>x. encode_var_bytes (enc x)) xs)))"
  using assms
proof (induction xs arbitrary: pre acc)
  case (Cons x xs)
  let ?e = "encode_var_bytes (enc x)" and ?es = "concat (map (\<lambda>x. encode_var_bytes (enc x)) xs)"
  have "decode_var_bytes (?e @ ?es @ rest) = Ok (enc x, length ?e)"
    using Cons.prems by (intro decode_encode_var_bytes) simp
  moreover have "decode_var_items dec err (length xs) ((pre @ ?e) @ ?es @ rest) (length (pre @ ?e)) (acc @ [x])
      = Ok ((acc @ [x]) @ xs, length (pre @ ?e) + length ?es)"
    using Cons.prems by (intro Cons.IH) simp
  ultimately show ?case using Cons.prems by simp
qed simp

lemma length_item_le: "x \<in> set xs \<Longrightarrow> length (enc x) \<le> length (encode_counted enc xs)"
proof -
  assume x: "x \<in> set xs"
  have "length (enc x) \<le> length (encode_var_bytes (enc x))" by (simp add: encode_var_bytes_def)
  also have "\<dots> \<le> sum_list (map (\<lambda>x. length (encode_var_bytes (enc x))) xs)"
    using x by (intro member_le_sum_list) auto
  finally show ?thesis by (simp add: encode_counted_def length_concat comp_def)
qed

lemma decode_counted_encode:
  assumes "\<forall>x \<in> set xs. dec (enc x) = Ok x" "\<not> too_many (of_nat (length xs))" "length xs < 2 ^ 64"
    and "vec_bounded (encode_counted enc xs)"
  shows "decode_counted dec err too_many many_err trail_err (encode_counted enc xs) = Ok xs"
proof -
  let ?n = "of_nat (length xs) :: u64" and ?es = "concat (map (\<lambda>x. encode_var_bytes (enc x)) xs)"
  have n: "unat ?n = length xs" using assms(3) by (simp add: unat_of_nat)
  have d: "decode_bigsize (encode_bigsize ?n @ ?es) = Ok (?n, bigsize_len ?n)"
    by (rule decode_encode_bigsize)
  have "\<forall>x \<in> set xs. vec_bounded (enc x) \<and> dec (enc x) = Ok x"
    using assms(1,4) length_item_le [of _ xs enc] by (force simp: vec_bounded_def)
  from decode_var_items_encode [OF this, of err "encode_bigsize ?n" "[]" "[]"] d n assms(2)
  show ?thesis by (simp add: decode_counted_def encode_counted_def)
qed

text \<open>The items are strictly shorter than the list they stand in.\<close>

lemma decode_var_bytes_length:
  "decode_var_bytes data = Ok (item, consumed) \<Longrightarrow> length item < consumed \<and> consumed \<le> length data"
  using decode_var_bytes_canonical [of data item consumed] by (auto simp: encode_var_bytes_def bigsize_len_def)

lemma decode_var_items_cong:
  "(\<And>x. length x < length data \<Longrightarrow> dec x = dec' x) \<Longrightarrow>
    decode_var_items dec err n data offset acc = decode_var_items dec' err n data offset acc"
proof (induction n arbitrary: offset acc)
  case (Suc n)
  have "dec item = dec' item" if "decode_var_bytes (drop offset data) = Ok (item, consumed)" for item consumed
    using decode_var_bytes_length [OF that] Suc.prems by auto
  then show ?case
    using Suc.IH [OF Suc.prems]
    by (cases "decode_var_bytes (drop offset data)") (auto intro!: res_bind_cong)
qed simp

lemma decode_counted_cong:
  "(\<And>x. length x < length data \<Longrightarrow> dec x = dec' x) \<Longrightarrow>
    decode_counted dec err tm me te data = decode_counted dec' err tm me te data"
  by (cases "decode_bigsize data") (auto simp: decode_counted_def intro!: res_bind_cong decode_var_items_cong)

lemma decode_var_items_prefix:
  assumes "decode_var_items dec err n data offset acc = Ok (xs, off)"
  shows "\<exists>ys. xs = acc @ ys \<and> length ys = n \<and> (\<forall>y \<in> set ys. \<exists>item. length item < length data \<and> dec item = Ok y)"
  using assms
proof (induction n arbitrary: offset acc)
  case (Suc n)
  then obtain item consumed x where i: "decode_var_bytes (drop offset data) = Ok (item, consumed)" "dec item = Ok x"
    and rec: "decode_var_items dec err n data (offset + consumed) (acc @ [x]) = Ok (xs, off)"
    by (auto simp: res_simps)
  have "length item < length data" using decode_var_bytes_length [OF i(1)] by auto
  moreover obtain ys where "xs = (acc @ [x]) @ ys" "length ys = n"
    "\<forall>y \<in> set ys. \<exists>item. length item < length data \<and> dec item = Ok y"
    using Suc.IH [OF rec] by blast
  ultimately show ?case using i(2) by (intro exI [of _ "x # ys"]) auto
qed simp

lemma decode_counted_items:
  "decode_counted dec err tm me te data = Ok xs \<Longrightarrow>
    \<forall>x \<in> set xs. \<exists>item. length item < length data \<and> dec item = Ok x"
  by (auto simp: decode_counted_def res_simps split: if_splits dest!: decode_var_items_prefix)

section \<open>The loop over records\<close>

fun fold_records :: "(TlvRecord \<Rightarrow> 'a \<Rightarrow> ('a, 'e) result) \<Rightarrow> TlvStream \<Rightarrow> 'a \<Rightarrow> ('a, 'e) result" where
  "fold_records field [] a = Ok a"
| "fold_records field (r # rs) a = res_bind (field r a) (fold_records field rs)"

lemma fold_records_append:
  "fold_records field (rs @ ss) a = res_bind (fold_records field rs a) (fold_records field ss)"
proof (induction rs arbitrary: a)
  case (Cons r rs)
  then show ?case by (cases "field r a") simp_all
qed simp

lemma fold_records_cong:
  "(\<And>r a. r \<in> set rs \<Longrightarrow> field r a = field' r a) \<Longrightarrow> fold_records field rs a = fold_records field' rs a"
  by (induction rs arbitrary: a) (auto intro!: res_bind_cong)

lemma value_shorter:
  assumes "decode_with_limit data lim = Ok s" "r \<in> set s"
  shows "length (tlv_value r) < length data"
proof -
  have "data = concat (map encode_record s)"
    using decode_tlv_loop_canonical [of data lim 0 None "[]" s] assms(1) by (auto simp: decode_with_limit_def)
  moreover have "length (encode_record r) \<le> sum_list (map (\<lambda>r. length (encode_record r)) s)"
    using assms(2) by (intro member_le_sum_list) auto
  moreover have "length (tlv_value r) < length (encode_record r)"
    by (simp add: encode_record_def bigsize_len_def)
  ultimately show ?thesis by (simp add: length_concat comp_def)
qed

text \<open>Records of types without a field, pushed after the known ones.\<close>

definition odd_records :: "(u64 \<times> bytes) list \<Rightarrow> TlvStream" where
  "odd_records us = map (\<lambda>(t, v). tlv_bytes t v) us"

definition wf_odd_types :: "(u64 \<Rightarrow> bool) \<Rightarrow> (u64 \<times> bytes) list \<Rightarrow> bool" where
  "wf_odd_types known us \<longleftrightarrow> btree_sorted us \<and> (\<forall>(t, v) \<in> set us. t mod 2 \<noteq> 0 \<and> \<not> known t)"

lemma btree_insert_greater:
  "\<forall>(k', v') \<in> set kvs. k' < k \<Longrightarrow> btree_insert k v kvs = kvs @ [(k, v)]"
  by (induction k v kvs rule: btree_insert.induct) auto

locale strict_decoder =
  fixes field :: "TlvRecord \<Rightarrow> 'a \<Rightarrow> ('a, 'e) result"
    and add :: "u64 \<Rightarrow> bytes \<Rightarrow> 'a \<Rightarrow> 'a"
    and known :: "u64 \<Rightarrow> bool"
  assumes field_unknown: "\<not> known (type_num r) \<Longrightarrow> type_num r mod 2 \<noteq> 0 \<Longrightarrow>
      field r a = Ok (add (type_num r) (tlv_value r) a)"
    and field_even: "\<not> known (type_num r) \<Longrightarrow> type_num r mod 2 = 0 \<Longrightarrow> \<exists>e. field r a = Err e"
    and field_known: "known (type_num r) \<Longrightarrow> field r (add t v a) = map_ok (add t v) (field r a)"
begin

lemma fold_known_add:
  "\<forall>r \<in> set rs. known (type_num r) \<Longrightarrow>
    fold_records field rs (add t v a) = map_ok (add t v) (fold_records field rs a)"
proof (induction rs arbitrary: a)
  case (Cons r rs)
  then show ?case by (cases "field r a") (simp_all add: field_known)
qed simp

text \<open>Unknown records may stand anywhere between the known ones: they are added last.\<close>

lemma fold_interleaved:
  "\<forall>r \<in> set rs. known (type_num r) \<or> type_num r mod 2 \<noteq> 0 \<Longrightarrow>
    fold_records field rs a
      = res_bind (fold_records field (filter (\<lambda>r. known (type_num r)) rs) a)
          (fold_records field (filter (\<lambda>r. \<not> known (type_num r)) rs))"
proof (induction rs arbitrary: a)
  case (Cons r rs)
  show ?case
  proof (cases "known (type_num r)")
    case True
    with Cons show ?thesis by (cases "field r a") simp_all
  next
    case False
    let ?add = "add (type_num r) (tlv_value r)" and ?ks = "filter (\<lambda>r. known (type_num r)) rs"
    have r: "field r b = Ok (?add b)" for b using False Cons.prems field_unknown by simp
    have "fold_records field rs (?add a) = res_bind (fold_records field ?ks (?add a))
        (fold_records field (filter (\<lambda>r. \<not> known (type_num r)) rs))"
      using Cons.IH [of "?add a"] Cons.prems by simp
    then show ?thesis using False r by (simp add: fold_known_add)
  qed
qed simp

lemma fold_odd:
  assumes "\<forall>(t, v) \<in> set us. t mod 2 \<noteq> 0 \<and> \<not> known t"
  shows "fold_records field (odd_records us) a = Ok (fold (\<lambda>(t, v). add t v) us a)"
  using assms
  by (induction us arbitrary: a) (auto simp: odd_records_def field_unknown tlv_bytes_def tlv_new_def)

lemma decode_encode_stream:
  assumes asc: "ascending ks" and known: "\<forall>r \<in> set ks. known (type_num r)" and us: "wf_odd_types known us"
    and size: "length (tlv_encode (ks @ odd_records us)) \<le> unat lim"
  shows "res_bind (map_err conv (decode_with_limit (tlv_encode (ks @ odd_records us)) lim)) (\<lambda>s. fold_records field s a)
    = map_ok (\<lambda>b. fold (\<lambda>(t, v). add t v) us b) (fold_records field ks a)"
proof -
  let ?s = "ks @ odd_records us" and ?z = "sort_key type_num (ks @ odd_records us)"
  have types: "map type_num (odd_records us) = map fst us"
    by (auto simp: odd_records_def comp_def)
  have odd: "\<forall>(t, v) \<in> set us. t mod 2 \<noteq> 0 \<and> \<not> known t" and sorted: "sorted_wrt (<) (map fst us)"
    using us by (auto simp: wf_odd_types_def btree_sorted_def)
  have unknown: "\<not> known (type_num r) \<and> type_num r mod 2 \<noteq> 0" if "r \<in> set (odd_records us)" for r
    using that odd by (auto simp: odd_records_def)
  have "distinct (map type_num (odd_records us))" using sorted types by (simp add: strict_sorted_iff)
  moreover have "set (map type_num ks) \<inter> set (map type_num (odd_records us)) = {}"
  proof (rule ccontr)
    assume "\<not> ?thesis"
    then obtain r r' where "r \<in> set ks" "r' \<in> set (odd_records us)" "type_num r = type_num r'" by auto
    with known unknown [of r'] show False by auto
  qed
  ultimately have "distinct (map type_num ?s)"
    using distinct_iff_ascending [OF asc] by (simp only: map_append distinct_append)
  then have z: "ascending ?z" by (rule ascending_sort_key)
  have "values_bounded lim ?z"
    using size length_value_le [of _ ?s] by (force simp: values_bounded_def)
  moreover have "tlv_encode ?z = tlv_encode ?s" by (simp add: tlv_encode_def sort_key_ascending [OF z])
  moreover have "length (tlv_encode ?s) < 2 ^ 64"
    using size unat_lt2p [of lim] by (simp del: unat_u64_less)
  ultimately have dec: "decode_with_limit (tlv_encode ?s) lim = Ok ?z"
    using decode_encode_ascending [OF z] by metis
  have "filter (\<lambda>r. known (type_num r)) ?z = ks"
    using known unknown sort_key_ascending [OF asc]
    by (simp add: filter_sort filter_True filter_False)
  moreover have "filter (\<lambda>r. \<not> known (type_num r)) ?z = odd_records us"
  proof -
    have "ascending (odd_records us)" using sorted types by (simp add: ascending_def)
    then show ?thesis
      using known unknown sort_key_ascending by (simp add: filter_sort filter_True filter_False)
  qed
  moreover have "\<forall>r \<in> set ?z. known (type_num r) \<or> type_num r mod 2 \<noteq> 0"
    using known unknown by auto
  ultimately have "fold_records field ?z a = res_bind (fold_records field ks a) (fold_records field (odd_records us))"
    using fold_interleaved [of ?z a] by simp
  then show ?thesis
    using dec fold_odd [OF odd] by (cases "fold_records field ks a") simp_all
qed

end

text \<open>Inserting the unknown types one after the other into an empty map gives their list.\<close>

lemma fold_btree_insert:
  "btree_sorted (pre @ us) \<Longrightarrow> fold (\<lambda>(t, v) m. btree_insert t v m) us pre = pre @ us"
proof (induction us arbitrary: pre)
  case (Cons u us)
  obtain t v where u: "u = (t, v)" by (cases u)
  have "btree_insert t v pre = pre @ [(t, v)]"
    using Cons.prems u by (intro btree_insert_greater) (auto simp: btree_sorted_def sorted_wrt_append)
  with Cons.IH [of "pre @ [u]"] Cons.prems u show ?case by simp
qed simp

section \<open>Streams of slots\<close>

lemma tlv_push_of_slots:
  "tlv_push (of_slots xs) (tlv_u16 t b) = of_slots (xs @ [(t, Some (u16_be b))])"
  "tlv_push_if (of_slots xs) (tlv_bytes t v) c = of_slots (xs @ [(t, if c then Some v else None)])"
  "tlv_push_if (of_slots xs) (tlv_varint t d) c = of_slots (xs @ [(t, if c then Some (encode_bigsize d) else None)])"
  by (simp_all add: tlv_push_def tlv_push_if_def tlv_record_defs)

lemma push_odd_records: "foldl (\<lambda>s (t, v). tlv_push s (tlv_bytes t v)) s us = s @ odd_records us"
  by (induction us arbitrary: s) (auto simp: tlv_push_def odd_records_def)

text \<open>One slot of a stream: the field it sets, whether the slot is filled or not.\<close>

lemma fold_slot:
  "(case v of Some x \<Rightarrow> field (tlv_new t x) a = Ok b | None \<Rightarrow> a = b) \<Longrightarrow>
    fold_records field (of_slots ((t, v) # xs)) a = fold_records field (of_slots xs) b"
  by (cases v) simp_all

lemma known_of_slots: "\<forall>t \<in> fst ` set xs. known t \<Longrightarrow> \<forall>r \<in> set (of_slots xs). known (type_num r)"
  using type_num_of_slots by force

lemma tlv_decode_ascending:
  assumes "ascending s" "length (tlv_encode s) \<le> unat lim"
  shows "decode_with_limit (tlv_encode s) lim = Ok s"
proof (rule decode_encode_ascending [OF assms(1)])
  show "values_bounded lim s"
    using length_value_le [of _ s] assms(2) by (force simp: values_bounded_def)
  show "length (tlv_encode s) < 2 ^ 64" using assms(2) unat_lt2p [of lim] by (simp del: unat_u64_less)
qed

lemma slot_length:
  assumes "(t, Some x) \<in> set xs" "length (tlv_encode (of_slots xs @ ys)) \<le> n"
  shows "length x \<le> n"
proof -
  have "tlv_new t x \<in> set (of_slots xs)"
    using assms(1) by (induction xs rule: of_slots.induct) (auto split: option.splits)
  then show ?thesis using length_value_le [of "tlv_new t x" "of_slots xs @ ys"] assms(2) by simp
qed

text \<open>The common case: the unknown records go into a map of the structure, and the other fields do not depend on it.\<close>

locale record_decoder =
  fixes field :: "TlvRecord \<Rightarrow> 'a \<Rightarrow> ('a, 'e) result"
    and get :: "'a \<Rightarrow> (u64 \<times> bytes) list"
    and put :: "(u64 \<times> bytes) list \<Rightarrow> 'a \<Rightarrow> 'a"
    and known :: "u64 \<Rightarrow> bool"
  assumes get_put: "get (put us a) = us" and put_put: "put us (put vs a) = put us a" and put_get: "put (get a) a = a"
    and unknown_odd: "\<not> known (type_num r) \<Longrightarrow> type_num r mod 2 \<noteq> 0 \<Longrightarrow>
      field r a = Ok (put (btree_insert (type_num r) (tlv_value r) (get a)) a)"
    and unknown_even: "\<not> known (type_num r) \<Longrightarrow> type_num r mod 2 = 0 \<Longrightarrow> \<exists>e. field r a = Err e"
    and known_put: "known (type_num r) \<Longrightarrow> field r (put us a) = map_ok (put us) (field r a)"

sublocale record_decoder \<subseteq> strict_decoder field "\<lambda>t v a. put (btree_insert t v (get a)) a" known
proof unfold_locales
  fix r :: TlvRecord and t v and a :: 'a
  assume k: "known (type_num r)"
  have "field r a = map_ok (put (get a)) (field r a)" using known_put [OF k, of "get a" a] by (simp add: put_get)
  then have "get b = get a" if "field r a = Ok b" for b
    using that get_put [of "get a" b] by simp
  then show "field r (put (btree_insert t v (get a)) a)
      = map_ok (\<lambda>a. put (btree_insert t v (get a)) a) (field r a)"
    unfolding known_put [OF k] by (cases "field r a") simp_all
qed (use unknown_odd unknown_even in auto)

context record_decoder
begin

lemma fold_put:
  "fold (\<lambda>(t, v) a. put (btree_insert t v (get a)) a) us a
    = put (fold (\<lambda>(t, v) m. btree_insert t v m) us (get a)) a"
  by (induction us arbitrary: a) (auto simp: put_get put_put get_put)

text \<open>The round trip of a structure, from that of its fields.\<close>

lemma decode_encode_slots:
  assumes "sorted_wrt (<) (map fst xs)" "\<forall>t \<in> fst ` set xs. known t" "wf_odd_types known us"
    and "length (tlv_encode (of_slots xs @ odd_records us)) \<le> unat lim"
    and "fold_records field (of_slots xs) a = Ok b" "get b = []"
  shows "res_bind (map_err conv (decode_with_limit (tlv_encode (of_slots xs @ odd_records us)) lim))
      (\<lambda>s. fold_records field s a) = Ok (put us b)"
proof -
  have "fold (\<lambda>(t, v) m. btree_insert t v m) us [] = us"
    using fold_btree_insert [of "[]" us] assms(3) by (simp add: wf_odd_types_def)
  then show ?thesis
    using decode_encode_stream [OF ascending_of_slots [OF assms(1)] known_of_slots [OF assms(2)] assms(3,4), of conv a]
      assms(5,6) by (simp add: fold_put)
qed

end

end
