(* ===== verification/Asset_Codec.thy ===== *)
theory Asset_Codec
  imports Asset Codec
begin

text \<open>
  The decoders of \<^verbatim>\<open>tap-primitives/src/encoding/asset.rs\<close>. \<open>on_curve\<close> stands for
  \<^verbatim>\<open>PublicKey::from_slice\<close> of the secp256k1 crate. \<^verbatim>\<open>decode_asset\<close> calls itself, through the witnesses,
  on the root asset of a split commitment; the functions in between take the recursive call as the argument \<open>dec\<close>,
  and the call is always on a shorter string.
\<close>

definition validate_on_curve :: "(SerializedKey \<Rightarrow> bool) \<Rightarrow> SerializedKey \<Rightarrow> bool" where
  "validate_on_curve on_curve key \<longleftrightarrow> key = zeros 33 \<or> on_curve key"

definition MAX_DECODE_ITEMS :: u64 where "MAX_DECODE_ITEMS = 0xFFFF"
definition PREV_ID_ENCODED_SIZE :: nat where "PREV_ID_ENCODED_SIZE = 101"

definition decode_genesis :: "bytes \<Rightarrow> (Genesis, TlvError) result" where
  "decode_genesis data =
     res_bind (read_n data 0 32) (\<lambda>(txid, offset).
     res_bind (read_n data offset 4) (\<lambda>(vout, offset).
     res_bind (decode_var_bytes (drop offset data)) (\<lambda>(tag_bytes, consumed).
       if MAX_ASSET_NAME_LENGTH < length tag_bytes then Err (DecodingError ''asset tag too long'')
       else if \<not> utf8_valid tag_bytes then Err (DecodingError ''invalid tag'')
       else
         res_bind (read_n data (offset + consumed) 32) (\<lambda>(meta, offset).
         res_bind (read_n data offset 4) (\<lambda>(index, offset).
         res_bind (read_n data offset 1) (\<lambda>(ty, offset).
           if offset \<noteq> length data then Err (DecodingError ''trailing bytes after genesis'')
           else Ok \<lparr>first_prev_out = \<lparr>op_txid = txid, op_vout = be_u32 vout\<rparr>, tag = tag_bytes,
                   meta_hash = meta, g_output_index = be_u32 index,
                   g_asset_type = asset_type_from_u8 (ty ! 0)\<rparr>))))))"

definition decode_tx_witness :: "bytes \<Rightarrow> (bytes list, TlvError) result" where
  "decode_tx_witness data =
     decode_counted Ok (\<lambda>e. e) (\<lambda>count. MAX_DECODE_ITEMS < count) (DecodingError ''too many witness elements'')
       (DecodingError ''trailing bytes after tx witness'') data"

definition decode_prev_id :: "(SerializedKey \<Rightarrow> bool) \<Rightarrow> bytes \<Rightarrow> (PrevId, TlvError) result" where
  "decode_prev_id on_curve data =
     (if length data \<noteq> PREV_ID_ENCODED_SIZE then Err (DecodingError ''invalid PrevID length'')
      else
        let key = take 33 (drop 68 data) in
        if \<not> validate_on_curve on_curve key then Err (DecodingError ''prev ID script key'')
        else Ok \<lparr>prev_out_point = \<lparr>op_txid = take 32 data, op_vout = be_u32 (take 4 (drop 32 data))\<rparr>,
                 prev_asset_id = take 32 (drop 36 data), prev_script_key = key\<rparr>)"

definition decode_split_commitment ::
  "hash_fun \<Rightarrow> (bytes \<Rightarrow> (Asset, TlvError) result) \<Rightarrow> bytes \<Rightarrow> (SplitCommitmentWitness, TlvError) result" where
  "decode_split_commitment sha dec data =
     res_bind (decode_var_bytes data) (\<lambda>(proof_bytes, offset).
     res_bind (map_err DecodingError (res_bind (compressed_decode proof_bytes) (decompress sha))) (\<lambda>p.
     res_bind (decode_var_bytes (drop offset data)) (\<lambda>(root_asset, consumed).
       if offset + consumed \<noteq> length data then Err (DecodingError ''trailing bytes after split commitment'')
       else res_bind (dec root_asset) (\<lambda>_. Ok \<lparr>sc_proof = p, sc_root_asset = root_asset\<rparr>))))"

definition witness_field ::
  "hash_fun \<Rightarrow> (SerializedKey \<Rightarrow> bool) \<Rightarrow> (bytes \<Rightarrow> (Asset, TlvError) result) \<Rightarrow> TlvRecord \<Rightarrow> Witness \<Rightarrow>
     (Witness, TlvError) result" where
  "witness_field sha on_curve dec r w =
     (let t = type_num r; v = tlv_value r in
      if t = 1 then map_ok (\<lambda>p. w\<lparr>w_prev_id := Some p\<rparr>) (decode_prev_id on_curve v)
      else if t = 3 then map_ok (\<lambda>x. w\<lparr>tx_witness := x\<rparr>) (decode_tx_witness v)
      else if t = 5 then map_ok (\<lambda>s. w\<lparr>split_commitment := Some s\<rparr>) (decode_split_commitment sha dec v)
      else if t mod 2 = 0 then Err (UnknownRequiredType t)
      else Ok w)"

definition witness_default :: Witness where
  "witness_default = \<lparr>w_prev_id = None, tx_witness = [], split_commitment = None\<rparr>"

definition decode_witness ::
  "hash_fun \<Rightarrow> (SerializedKey \<Rightarrow> bool) \<Rightarrow> (bytes \<Rightarrow> (Asset, TlvError) result) \<Rightarrow> bytes \<Rightarrow> (Witness, TlvError) result" where
  "decode_witness sha on_curve dec data =
     res_bind (tlv_decode data) (\<lambda>s. fold_records (witness_field sha on_curve dec) s witness_default)"

definition decode_prev_witnesses ::
  "hash_fun \<Rightarrow> (SerializedKey \<Rightarrow> bool) \<Rightarrow> (bytes \<Rightarrow> (Asset, TlvError) result) \<Rightarrow> bytes \<Rightarrow>
     (Witness list, TlvError) result" where
  "decode_prev_witnesses sha on_curve dec data =
     decode_counted (decode_witness sha on_curve dec) (\<lambda>e. e) (\<lambda>count. MAX_DECODE_ITEMS < count)
       (DecodingError ''too many witnesses'') (DecodingError ''trailing bytes after witnesses'') data"

definition decode_split_commitment_root :: "bytes \<Rightarrow> (NodeHash \<times> u64, TlvError) result" where
  "decode_split_commitment_root data =
     (if length data \<noteq> 40 then Err (DecodingError ''invalid split commitment root length'')
      else Ok (take 32 data, be_u64 (drop 32 data)))"

definition expect_len :: "TlvRecord \<Rightarrow> nat \<Rightarrow> (unit, TlvError) result" where
  "expect_len r n = (if length (tlv_value r) \<noteq> n then Err (DecodingError ''invalid length'') else Ok ())"

definition decode_varint_record :: "TlvRecord \<Rightarrow> (u64, TlvError) result" where
  "decode_varint_record r =
     res_bind (decode_bigsize (tlv_value r)) (\<lambda>(val, consumed).
       if consumed \<noteq> length (tlv_value r) then Err (DecodingError ''trailing bytes after varint'') else Ok val)"

definition asset_default :: Asset where
  "asset_default =
     \<lparr>a_version = AssetV0, genesis = genesis_empty, amount = 0, a_lock_time = 0, relative_lock_time = 0,
      prev_witnesses = [], split_commitment_root = None, script_version = 0,
      script_key = script_key_from_pub_key (zeros 33), group_key = None, unknown_odd_types = []\<rparr>"

text \<open>The wire record carries only the group public key.\<close>

definition bare_group_key :: "SerializedKey \<Rightarrow> GroupKey" where
  "bare_group_key key = \<lparr>gk_version = 0, gk_raw_key = key, group_pub_key = key, gk_tapscript_root = [], gk_witness = []\<rparr>"

definition asset_field ::
  "hash_fun \<Rightarrow> (SerializedKey \<Rightarrow> bool) \<Rightarrow> (bytes \<Rightarrow> (Asset, TlvError) result) \<Rightarrow> TlvRecord \<Rightarrow> Asset \<Rightarrow>
     (Asset, TlvError) result" where
  "asset_field sha on_curve dec r a =
     (let t = type_num r; v = tlv_value r in
      if t = 0 then res_bind (expect_len r 1) (\<lambda>_. Ok (a\<lparr>a_version := asset_version_from_u8 (v ! 0)\<rparr>))
      else if t = 2 then map_ok (\<lambda>g. a\<lparr>genesis := g\<rparr>) (decode_genesis v)
      else if t = 4 then
        res_bind (expect_len r 1) (\<lambda>_. Ok (a\<lparr>genesis := (genesis a)\<lparr>g_asset_type := asset_type_from_u8 (v ! 0)\<rparr>\<rparr>))
      else if t = 6 then map_ok (\<lambda>x. a\<lparr>amount := x\<rparr>) (decode_varint_record r)
      else if t = 7 then map_ok (\<lambda>x. a\<lparr>a_lock_time := x\<rparr>) (decode_varint_record r)
      else if t = 9 then map_ok (\<lambda>x. a\<lparr>relative_lock_time := x\<rparr>) (decode_varint_record r)
      else if t = 11 then map_ok (\<lambda>x. a\<lparr>prev_witnesses := x\<rparr>) (decode_prev_witnesses sha on_curve dec v)
      else if t = 13 then map_ok (\<lambda>x. a\<lparr>split_commitment_root := Some x\<rparr>) (decode_split_commitment_root v)
      else if t = 14 then res_bind (expect_len r 2) (\<lambda>_. Ok (a\<lparr>script_version := be_u16 v\<rparr>))
      else if t = 16 then
        res_bind (expect_len r 33) (\<lambda>_.
          if \<not> validate_on_curve on_curve v then Err (DecodingError ''script key'')
          else Ok (a\<lparr>script_key := script_key_from_pub_key v\<rparr>))
      else if t = 17 then
        res_bind (expect_len r 33) (\<lambda>_.
          if \<not> validate_on_curve on_curve v then Err (DecodingError ''group key'')
          else Ok (a\<lparr>group_key := Some (bare_group_key v)\<rparr>))
      else if t mod 2 = 0 then Err (UnknownRequiredType t)
      else Ok (a\<lparr>unknown_odd_types := btree_insert t v (unknown_odd_types a)\<rparr>))"

definition decode_asset_with ::
  "hash_fun \<Rightarrow> (SerializedKey \<Rightarrow> bool) \<Rightarrow> (bytes \<Rightarrow> (Asset, TlvError) result) \<Rightarrow> bytes \<Rightarrow> (Asset, TlvError) result" where
  "decode_asset_with sha on_curve dec data =
     res_bind (tlv_decode data) (\<lambda>s. fold_records (asset_field sha on_curve dec) s asset_default)"

section \<open>The recursion ends\<close>

lemma decode_split_commitment_cong:
  assumes "\<And>x. length x < length data \<Longrightarrow> dec x = dec' x"
  shows "decode_split_commitment sha dec data = decode_split_commitment sha dec' data"
proof -
  have "dec root = dec' root" if "decode_var_bytes (drop offset data) = Ok (root, consumed)" for root offset consumed
    using decode_var_bytes_length [OF that] assms by auto
  then show ?thesis
    unfolding decode_split_commitment_def
    by (intro res_bind_cong refl) (auto intro!: res_bind_cong)
qed

lemma witness_field_cong:
  "(\<And>x. length x < length (tlv_value r) \<Longrightarrow> dec x = dec' x) \<Longrightarrow>
    witness_field sha on_curve dec r w = witness_field sha on_curve dec' r w"
  using decode_split_commitment_cong [of "tlv_value r" dec dec' sha] by (simp add: witness_field_def Let_def)

lemma decode_witness_cong:
  assumes "\<And>x. length x < length data \<Longrightarrow> dec x = dec' x"
  shows "decode_witness sha on_curve dec data = decode_witness sha on_curve dec' data"
  unfolding decode_witness_def tlv_decode_def
  using value_shorter assms
  by (intro res_bind_cong refl fold_records_cong witness_field_cong) (meson less_trans)

lemma decode_prev_witnesses_cong:
  assumes "\<And>x. length x < length data \<Longrightarrow> dec x = dec' x"
  shows "decode_prev_witnesses sha on_curve dec data = decode_prev_witnesses sha on_curve dec' data"
  unfolding decode_prev_witnesses_def
  by (intro decode_counted_cong decode_witness_cong assms) simp

lemma decode_asset_with_cong [fundef_cong]:
  assumes "sha = sha'" "on_curve = on_curve'" "data = data'"
    and "\<And>x. length x < length data' \<Longrightarrow> dec x = dec' x"
  shows "decode_asset_with sha on_curve dec data = decode_asset_with sha' on_curve' dec' data'"
proof -
  have "asset_field sha on_curve dec r a = asset_field sha on_curve dec' r a"
    if "length (tlv_value r) < length data'" for r a
    using decode_prev_witnesses_cong [of "tlv_value r" dec dec' sha on_curve] that assms(4)
    by (simp add: asset_field_def Let_def)
  then show ?thesis
    unfolding decode_asset_with_def tlv_decode_def assms(1-3)
    by (auto intro!: res_bind_cong fold_records_cong dest: value_shorter simp: assms(1,2))
qed

function decode_asset :: "hash_fun \<Rightarrow> (SerializedKey \<Rightarrow> bool) \<Rightarrow> bytes \<Rightarrow> (Asset, TlvError) result" where
  "decode_asset sha on_curve data = decode_asset_with sha on_curve (decode_asset sha on_curve) data"
  by pat_completeness auto
termination by (relation "measure (\<lambda>(_, _, data). length data)") auto

declare decode_asset.simps [simp del]

section \<open>Decoding inverts encoding\<close>

definition wf_prev_id :: "(SerializedKey \<Rightarrow> bool) \<Rightarrow> PrevId \<Rightarrow> bool" where
  "wf_prev_id on_curve p \<longleftrightarrow> length (op_txid (prev_out_point p)) = 32 \<and> length (prev_asset_id p) = 32
     \<and> length (prev_script_key p) = 33 \<and> validate_on_curve on_curve (prev_script_key p)"

text \<open>A Merkle proof keeps its exact nodes on the wire when it is already in the form decompression gives.\<close>

definition wire_proof :: "hash_fun \<Rightarrow> MerkleProof \<Rightarrow> bool" where
  "wire_proof sha p \<longleftrightarrow> length p = 256 \<and> wf_siblings sha p \<and> decompress sha (compress sha p) = Ok p"

definition wf_split :: "hash_fun \<Rightarrow> (bytes \<Rightarrow> (Asset, TlvError) result) \<Rightarrow> SplitCommitmentWitness \<Rightarrow> bool" where
  "wf_split sha dec s \<longleftrightarrow> wire_proof sha (sc_proof s) \<and> is_ok (dec (sc_root_asset s))"

definition wf_witness ::
  "hash_fun \<Rightarrow> (SerializedKey \<Rightarrow> bool) \<Rightarrow> (bytes \<Rightarrow> (Asset, TlvError) result) \<Rightarrow> Witness \<Rightarrow> bool" where
  "wf_witness sha on_curve dec w \<longleftrightarrow> pred_option (wf_prev_id on_curve) (w_prev_id w)
     \<and> length (tx_witness w) \<le> 65535 \<and> pred_option (wf_split sha dec) (split_commitment w)"

lemma decode_genesis_encode:
  assumes "wf_genesis g" "length (tag g) \<le> 64" "utf8_valid (tag g)"
  shows "decode_genesis (encode_genesis g) = Ok g"
proof -
  let ?t = "encode_var_bytes (tag g)"
  let ?a = "op_txid (first_prev_out g)" and ?b = "u32_be (op_vout (first_prev_out g))"
  let ?m = "meta_hash g" and ?i = "u32_be (g_output_index g)" and ?y = "[asset_type_to_u8 (g_asset_type g)]"
  have len: "length ?a = 32" "length ?m = 32" using assms(1) by (simp_all add: wf_genesis_def)
  have "vec_bounded (tag g)" using assms(2) by (simp add: vec_bounded_def)
  then have t: "decode_var_bytes (?t @ ?m @ ?i @ ?y) = Ok (tag g, length ?t)" by (rule decode_encode_var_bytes)
  have "read_n (encode_genesis g) 0 32 = Ok (?a, 32)" "read_n (encode_genesis g) 32 4 = Ok (?b, 36)"
    "read_n (encode_genesis g) (36 + length ?t) 32 = Ok (?m, 68 + length ?t)"
    "read_n (encode_genesis g) (68 + length ?t) 4 = Ok (?i, 72 + length ?t)"
    "read_n (encode_genesis g) (72 + length ?t) 1 = Ok (?y, 73 + length ?t)"
    using len by (simp_all add: encode_genesis_def read_n_def)
  moreover have "drop 36 (encode_genesis g) = ?t @ ?m @ ?i @ ?y" using len by (simp add: encode_genesis_def)
  ultimately show ?thesis
    using t len assms
    by (cases g) (simp add: decode_genesis_def encode_genesis_def MAX_ASSET_NAME_LENGTH_def wf_genesis_def
        wf_asset_type_def)
qed

lemma encode_tx_witness_counted: "encode_tx_witness w = encode_counted (\<lambda>x. x) w"
  by (simp add: encode_tx_witness_def encode_counted_def)

lemma encode_prev_witnesses_counted:
  "encode_prev_witnesses sha ws enc = encode_counted (\<lambda>w. encode_witness sha w enc) ws"
  by (simp add: encode_prev_witnesses_def encode_counted_def)

lemma not_too_many: "length xs \<le> 65535 \<Longrightarrow> \<not> MAX_DECODE_ITEMS < (of_nat (length xs) :: u64)"
  by (simp add: MAX_DECODE_ITEMS_def word_less_nat_alt unat_of_nat)

lemma decode_tx_witness_encode:
  "length w \<le> 65535 \<Longrightarrow> vec_bounded (encode_tx_witness w) \<Longrightarrow> decode_tx_witness (encode_tx_witness w) = Ok w"
  unfolding decode_tx_witness_def encode_tx_witness_counted
  by (rule decode_counted_encode) (simp_all add: not_too_many)

lemma decode_prev_id_encode: "wf_prev_id on_curve p \<Longrightarrow> decode_prev_id on_curve (encode_prev_id p) = Ok p"
  by (cases p) (auto simp: decode_prev_id_def encode_prev_id_def wf_prev_id_def PREV_ID_ENCODED_SIZE_def Let_def)

lemma vec_bounded_mono: "vec_bounded xs \<Longrightarrow> length ys \<le> length xs \<Longrightarrow> vec_bounded ys"
  by (simp add: vec_bounded_def)

lemma compressed_wire:
  assumes "wire_proof sha p"
  shows "res_bind (compressed_decode (compressed_encode (compress sha p))) (decompress sha) = Ok p"
  using compressed_decode_encode [OF wf_compress, of p sha "[]"] assms by (simp add: wire_proof_def)

lemma decode_split_commitment_encode:
  assumes "wf_split sha dec s" "vec_bounded (encode_split_commitment sha s)"
  shows "decode_split_commitment sha dec (encode_split_commitment sha s) = Ok s"
proof -
  let ?p = "compressed_encode (compress sha (sc_proof s))" and ?r = "sc_root_asset s"
  have "vec_bounded ?p" "vec_bounded ?r"
    using assms(2) by (auto simp: encode_split_commitment_def encode_var_bytes_def elim!: vec_bounded_mono)
  then have "decode_var_bytes (encode_var_bytes ?p @ encode_var_bytes ?r) = Ok (?p, length (encode_var_bytes ?p))"
    "decode_var_bytes (encode_var_bytes ?r) = Ok (?r, length (encode_var_bytes ?r))"
    using decode_encode_var_bytes [of ?p] decode_encode_var_bytes [of ?r "[]"] by simp_all
  then show ?thesis
    using assms(1) compressed_wire [of sha "sc_proof s"]
    by (cases s) (auto simp: decode_split_commitment_def encode_split_commitment_def wf_split_def is_ok_iff)
qed

definition witness_slots :: "hash_fun \<Rightarrow> Witness \<Rightarrow> (u64 \<times> bytes option) list" where
  "witness_slots sha w =
     [(1, map_option encode_prev_id (w_prev_id w)),
      (3, if tx_witness w \<noteq> [] then Some (encode_tx_witness (tx_witness w)) else None),
      (5, map_option (encode_split_commitment sha) (split_commitment w))]"

lemma encode_witness_slots: "encode_witness sha w EncodeNormal = tlv_encode (of_slots (witness_slots sha w))"
  by (auto simp: encode_witness_def witness_slots_def Let_def push_opt_def tlv_push_if_def tlv_push_def
      tlv_record_defs split: option.splits)

lemma decode_witness_encode:
  assumes "wf_witness sha on_curve dec w" "length (encode_witness sha w EncodeNormal) \<le> 4000000"
  shows "decode_witness sha on_curve dec (encode_witness sha w EncodeNormal) = Ok w"
proof -
  let ?f = "fold_records (witness_field sha on_curve dec)"
  have small: "vec_bounded x" if "(t, Some x) \<in> set (witness_slots sha w)" for t x
    using slot_length [OF that, of "[]" 4000000] assms(2) by (simp add: encode_witness_slots vec_bounded_def)
  have "tlv_decode (encode_witness sha w EncodeNormal) = Ok (of_slots (witness_slots sha w))"
    unfolding tlv_decode_def encode_witness_slots using assms(2)
    by (intro tlv_decode_ascending ascending_of_slots)
      (simp_all add: encode_witness_slots witness_slots_def MAX_TLV_VALUE_LENGTH_def)
  moreover have "\<And>p. w_prev_id w = Some p \<Longrightarrow> decode_prev_id on_curve (encode_prev_id p) = Ok p"
    using assms(1) by (auto simp: wf_witness_def decode_prev_id_encode)
  moreover have "tx_witness w \<noteq> [] \<Longrightarrow> decode_tx_witness (encode_tx_witness (tx_witness w)) = Ok (tx_witness w)"
    using assms(1) small [of 3] by (intro decode_tx_witness_encode) (auto simp: wf_witness_def witness_slots_def)
  moreover have "\<And>c. split_commitment w = Some c \<Longrightarrow>
      decode_split_commitment sha dec (encode_split_commitment sha c) = Ok c"
    using assms(1) small [of 5] by (intro decode_split_commitment_encode) (auto simp: wf_witness_def witness_slots_def)
  ultimately show ?thesis
    by (cases "w_prev_id w"; cases "tx_witness w = []"; cases "split_commitment w"; cases w)
      (simp_all add: decode_witness_def witness_slots_def witness_field_def witness_default_def)
qed

definition asset_known :: "u64 \<Rightarrow> bool" where
  "asset_known t \<longleftrightarrow> t \<in> {0, 2, 4, 6, 7, 9, 11, 13, 14, 16, 17}"

interpretation asset_dec: strict_decoder "asset_field sha on_curve dec"
  "\<lambda>t v a. a\<lparr>unknown_odd_types := btree_insert t v (unknown_odd_types a)\<rparr>" asset_known
  for sha on_curve dec
proof unfold_locales
  fix r :: TlvRecord and t v and a :: Asset
  assume k: "asset_known (type_num r)"
  have ok: "map_ok f m = map_ok f' (map_ok g m)" if "\<And>x. f x = f' (g x)" for f f' g and m :: "('s, TlvError) result"
    using that by (cases m) simp_all
  from k consider "type_num r = 0" | "type_num r = 2" | "type_num r = 4" | "type_num r = 6" | "type_num r = 7"
    | "type_num r = 9" | "type_num r = 11" | "type_num r = 13" | "type_num r = 14" | "type_num r = 16" | "type_num r = 17"
    unfolding asset_known_def by blast
  then show "asset_field sha on_curve dec r (a\<lparr>unknown_odd_types := btree_insert t v (unknown_odd_types a)\<rparr>)
    = map_ok (\<lambda>a. a\<lparr>unknown_odd_types := btree_insert t v (unknown_odd_types a)\<rparr>) (asset_field sha on_curve dec r a)"
    by cases (auto simp: asset_field_def expect_len_def Let_def intro!: ok)
qed (auto simp: asset_field_def asset_known_def)

definition wf_asset :: "hash_fun \<Rightarrow> (SerializedKey \<Rightarrow> bool) \<Rightarrow> Asset \<Rightarrow> bool" where
  "wf_asset sha on_curve a \<longleftrightarrow>
     asset_version_from_u8 (asset_version_to_u8 (a_version a)) = a_version a
     \<and> wf_genesis (genesis a) \<and> length (tag (genesis a)) \<le> 64 \<and> utf8_valid (tag (genesis a))
     \<and> length (prev_witnesses a) \<le> 65535
     \<and> (\<forall>w \<in> set (prev_witnesses a). wf_witness sha on_curve (decode_asset sha on_curve) w)
     \<and> pred_option (\<lambda>(h, s). length h = 32) (split_commitment_root a)
     \<and> length (sk_pub_key (script_key a)) = 33 \<and> validate_on_curve on_curve (sk_pub_key (script_key a))
     \<and> sk_tweaked (script_key a) = None
     \<and> pred_option (\<lambda>g. g = bare_group_key (group_pub_key g) \<and> length (group_pub_key g) = 33
          \<and> validate_on_curve on_curve (group_pub_key g)) (group_key a)
     \<and> wf_odd_types asset_known (unknown_odd_types a)"

definition asset_slots :: "hash_fun \<Rightarrow> Asset \<Rightarrow> (u64 \<times> bytes option) list" where
  "asset_slots sha a =
     [(0, Some [asset_version_to_u8 (a_version a)]),
      (2, Some (encode_genesis (genesis a))),
      (4, Some [asset_type_to_u8 (g_asset_type (genesis a))]),
      (6, Some (encode_bigsize (amount a))),
      (7, if 0 < a_lock_time a then Some (encode_bigsize (a_lock_time a)) else None),
      (9, if 0 < relative_lock_time a then Some (encode_bigsize (relative_lock_time a)) else None),
      (11, if prev_witnesses a \<noteq> [] then Some (encode_prev_witnesses sha (prev_witnesses a) EncodeNormal) else None),
      (13, map_option (\<lambda>(h, sum). h @ u64_be sum) (split_commitment_root a)),
      (14, Some (u16_be (script_version a))),
      (16, Some (sk_pub_key (script_key a))),
      (17, map_option group_pub_key (group_key a))]"

lemma encode_asset_slots:
  "encode_asset sha a EncodeNormal = tlv_encode (of_slots (asset_slots sha a) @ odd_records (unknown_odd_types a))"
  unfolding encode_asset_def asset_slots_def Let_def push_odd_records
  by (simp add: push_opt_def tlv_push_if_def tlv_push_def tlv_record_defs split: option.splits)

text \<open>The field each slot of an encoded asset sets.\<close>

lemma decode_varint_encode: "decode_varint_record (tlv_new t (encode_bigsize d)) = Ok d"
  using decode_encode_bigsize [of d "[]"] by (simp add: decode_varint_record_def)

lemma asset_slot_fields:
  fixes a :: Asset
  assumes "wf_asset sha on_curve a" "length (encode_asset sha a EncodeNormal) \<le> 4000000"
  defines "field \<equiv> asset_field sha on_curve (decode_asset sha on_curve)"
  shows "field (tlv_new 2 (encode_genesis (genesis a))) b = Ok (b\<lparr>genesis := genesis a\<rparr>)"
    and "prev_witnesses a \<noteq> [] \<Longrightarrow>
      field (tlv_new 11 (encode_prev_witnesses sha (prev_witnesses a) EncodeNormal)) b
        = Ok (b\<lparr>prev_witnesses := prev_witnesses a\<rparr>)"
proof -
  show "field (tlv_new 2 (encode_genesis (genesis a))) b = Ok (b\<lparr>genesis := genesis a\<rparr>)"
    using assms(1) by (simp add: field_def asset_field_def wf_asset_def decode_genesis_encode)
next
  assume ws: "prev_witnesses a \<noteq> []"
  let ?e = "encode_prev_witnesses sha (prev_witnesses a) EncodeNormal"
  have "(11, Some ?e) \<in> set (asset_slots sha a)" using ws by (simp add: asset_slots_def)
  from slot_length [OF this] have len: "length ?e \<le> 4000000"
    using assms(2) by (simp add: encode_asset_slots)
  have dec: "\<forall>w \<in> set (prev_witnesses a).
      decode_witness sha on_curve (decode_asset sha on_curve) (encode_witness sha w EncodeNormal) = Ok w"
  proof
    fix w assume w: "w \<in> set (prev_witnesses a)"
    have "length (encode_witness sha w EncodeNormal) \<le> 4000000"
      using length_item_le [OF w, of "\<lambda>w. encode_witness sha w EncodeNormal"] len
      by (simp add: encode_prev_witnesses_counted)
    then show "decode_witness sha on_curve (decode_asset sha on_curve) (encode_witness sha w EncodeNormal) = Ok w"
      using assms(1) w by (intro decode_witness_encode) (simp_all add: wf_asset_def)
  qed
  have "length (prev_witnesses a) \<le> 65535" using assms(1) by (simp add: wf_asset_def)
  then have "decode_prev_witnesses sha on_curve (decode_asset sha on_curve) ?e = Ok (prev_witnesses a)"
    unfolding decode_prev_witnesses_def encode_prev_witnesses_counted using dec len
    by (intro decode_counted_encode) (simp_all add: not_too_many vec_bounded_def encode_prev_witnesses_counted)
  then show "field (tlv_new 11 ?e) b = Ok (b\<lparr>prev_witnesses := prev_witnesses a\<rparr>)"
    by (simp add: field_def asset_field_def)
qed

lemma fold_asset_slots:
  assumes "wf_asset sha on_curve a" "length (encode_asset sha a EncodeNormal) \<le> 4000000"
  shows "fold_records (asset_field sha on_curve (decode_asset sha on_curve)) (of_slots (asset_slots sha a)) asset_default
    = Ok (a\<lparr>unknown_odd_types := []\<rparr>)"
proof -
  let ?field = "asset_field sha on_curve (decode_asset sha on_curve)"
  let ?f = "fold_records ?field"
  note fields = asset_slot_fields [OF assms]
  have simple: "?field (tlv_new 0 [asset_version_to_u8 (a_version a)]) b = Ok (b\<lparr>a_version := a_version a\<rparr>)"
    "?field (tlv_new 4 [asset_type_to_u8 (g_asset_type (genesis a))]) b
      = Ok (b\<lparr>genesis := (genesis b)\<lparr>g_asset_type := g_asset_type (genesis a)\<rparr>\<rparr>)"
    "?field (tlv_new 6 (encode_bigsize d)) b = Ok (b\<lparr>amount := d\<rparr>)"
    "?field (tlv_new 7 (encode_bigsize d)) b = Ok (b\<lparr>a_lock_time := d\<rparr>)"
    "?field (tlv_new 9 (encode_bigsize d)) b = Ok (b\<lparr>relative_lock_time := d\<rparr>)"
    "?field (tlv_new 14 (u16_be sv)) b = Ok (b\<lparr>script_version := sv\<rparr>)"
    "?field (tlv_new 16 (sk_pub_key (script_key a))) b = Ok (b\<lparr>script_key := script_key a\<rparr>)" for b d sv
    using assms(1)
    by (simp_all add: asset_field_def expect_len_def wf_asset_def wf_genesis_def wf_asset_type_def decode_varint_encode
        script_key_from_pub_key_def)
  have split: "?field (tlv_new 13 (h @ u64_be s)) b = Ok (b\<lparr>split_commitment_root := Some (h, s)\<rparr>)"
    if "split_commitment_root a = Some (h, s)" for h s b
    using assms(1) that by (simp add: asset_field_def wf_asset_def decode_split_commitment_root_def)
  have group: "?field (tlv_new 17 (group_pub_key g)) b = Ok (b\<lparr>group_key := Some g\<rparr>)"
    if "group_key a = Some g" for g b
    using assms(1) that by (simp add: asset_field_def expect_len_def wf_asset_def)
  have lock: "?f (of_slots ((7, if 0 < a_lock_time a then Some (encode_bigsize (a_lock_time a)) else None) # xs)) b
      = ?f (of_slots xs) (b\<lparr>a_lock_time := a_lock_time a\<rparr>)" if "a_lock_time b = 0" for b xs
    using that by (intro fold_slot) (auto simp: simple word_neq_0_conv [symmetric])
  have rel: "?f (of_slots ((9, if 0 < relative_lock_time a then Some (encode_bigsize (relative_lock_time a)) else None) # xs)) b
      = ?f (of_slots xs) (b\<lparr>relative_lock_time := relative_lock_time a\<rparr>)" if "relative_lock_time b = 0" for b xs
    using that by (intro fold_slot) (auto simp: simple word_neq_0_conv [symmetric])
  have wits: "?f (of_slots ((11, if prev_witnesses a \<noteq> []
        then Some (encode_prev_witnesses sha (prev_witnesses a) EncodeNormal) else None) # xs)) b
      = ?f (of_slots xs) (b\<lparr>prev_witnesses := prev_witnesses a\<rparr>)" if "prev_witnesses b = []" for b xs
    using that by (intro fold_slot) (auto simp: fields)
  have root: "?f (of_slots ((13, map_option (\<lambda>(h, sum). h @ u64_be sum) (split_commitment_root a)) # xs)) b
      = ?f (of_slots xs) (b\<lparr>split_commitment_root := split_commitment_root a\<rparr>)" if "split_commitment_root b = None" for b xs
    using that by (intro fold_slot) (auto simp: split split: option.splits)
  have group: "?f (of_slots ((17, map_option group_pub_key (group_key a)) # xs)) b
      = ?f (of_slots xs) (b\<lparr>group_key := group_key a\<rparr>)" if "group_key b = None" for b xs
    using that by (intro fold_slot) (auto simp: group split: option.splits)
  have some: "?f (of_slots ((t, Some x) # xs)) b = res_bind (?field (tlv_new t x) b) (?f (of_slots xs))" for t x xs b
    by simp
  have "?f (of_slots (asset_slots sha a)) asset_default
      = Ok \<lparr>a_version = a_version a, genesis = genesis a, amount = amount a, a_lock_time = a_lock_time a,
            relative_lock_time = relative_lock_time a, prev_witnesses = prev_witnesses a,
            split_commitment_root = split_commitment_root a, script_version = script_version a,
            script_key = script_key a, group_key = group_key a, unknown_odd_types = []\<rparr>"
    unfolding asset_slots_def
    by (simp add: some lock rel wits root group simple fields asset_default_def del: of_slots.simps(2) split del: if_split)
  then show ?thesis by simp
qed

lemma fold_unknown:
  "fold (\<lambda>(t, v) a. a\<lparr>unknown_odd_types := btree_insert t v (unknown_odd_types a)\<rparr>) us a
    = a\<lparr>unknown_odd_types := fold (\<lambda>(t, v) m. btree_insert t v m) us (unknown_odd_types a)\<rparr>"
  for a :: Asset
  by (induction us arbitrary: a) auto

lemma decode_asset_stream:
  assumes "ascending ks" "\<forall>r \<in> set ks. asset_known (type_num r)" "wf_odd_types asset_known us"
    and "length (tlv_encode (ks @ odd_records us)) \<le> 4000000"
    and "fold_records (asset_field sha on_curve (decode_asset sha on_curve)) ks asset_default = Ok (a\<lparr>unknown_odd_types := []\<rparr>)"
  shows "decode_asset sha on_curve (tlv_encode (ks @ odd_records us)) = Ok (a\<lparr>unknown_odd_types := us\<rparr>)"
proof -
  have "res_bind (map_err (\<lambda>e. e) (decode_with_limit (tlv_encode (ks @ odd_records us)) MAX_TLV_VALUE_LENGTH))
      (\<lambda>s. fold_records (asset_field sha on_curve (decode_asset sha on_curve)) s asset_default)
    = map_ok (\<lambda>b. fold (\<lambda>(t, v) a. a\<lparr>unknown_odd_types := btree_insert t v (unknown_odd_types a)\<rparr>) us b)
        (fold_records (asset_field sha on_curve (decode_asset sha on_curve)) ks asset_default)"
    using assms(1-4) by (intro asset_dec.decode_encode_stream) (simp_all add: MAX_TLV_VALUE_LENGTH_def)
  moreover have "fold (\<lambda>(t, v) m. btree_insert t v m) us [] = us"
    using fold_btree_insert [of "[]" us] assms(3) by (simp add: wf_odd_types_def)
  ultimately show ?thesis
    using assms(5) by (simp add: decode_asset.simps decode_asset_with_def tlv_decode_def fold_unknown)
qed

lemma asset_codec:
  assumes "wf_asset sha on_curve a" "length (encode_asset sha a EncodeNormal) \<le> 4000000"
  shows "decode_asset sha on_curve (encode_asset sha a EncodeNormal) = Ok a"
proof -
  have "decode_asset sha on_curve (tlv_encode (of_slots (asset_slots sha a) @ odd_records (unknown_odd_types a)))
      = Ok (a\<lparr>unknown_odd_types := unknown_odd_types a\<rparr>)"
  proof (rule decode_asset_stream)
    show "ascending (of_slots (asset_slots sha a))"
      by (rule ascending_of_slots) (simp add: asset_slots_def)
    show "\<forall>r \<in> set (of_slots (asset_slots sha a)). asset_known (type_num r)"
      by (rule known_of_slots) (simp add: asset_slots_def asset_known_def)
    show "wf_odd_types asset_known (unknown_odd_types a)" using assms(1) by (simp add: wf_asset_def)
  qed (use assms fold_asset_slots [OF assms] in \<open>simp_all add: encode_asset_slots\<close>)
  then show ?thesis by (simp add: encode_asset_slots)
qed

section \<open>Properties\<close>

text \<open>C31: an asset survives the wire. Encoding a well-formed asset and decoding the bytes gives the same asset back: every
  field, every witness with its split commitment, and unknown odd records wherever their types sort among the known
  ones. (Well-formed: fixed-size fields have their sizes, keys parse, the tag is UTF-8 of at most 64 bytes, Merkle
  proofs are in the form decompression yields, and group key and script key carry only what the wire carries.)\<close>

theorem asset_roundtrip:
  assumes "wf_asset sha on_curve a" "length (encode_asset sha a EncodeNormal) \<le> 4000000"
  shows "decode_asset sha on_curve (encode_asset sha a EncodeNormal) = Ok a"
  by (rule asset_codec [OF assms])

definition demo_wire_asset :: Asset where
  "demo_wire_asset = (new_genesis genesis_empty 7 (script_key_from_pub_key (zeros 33)))
     \<lparr>a_lock_time := 5, unknown_odd_types := [(15, [1, 2]), (99, [])]\<rparr>"

theorem asset_roundtrip_witness:
  "decode_asset (\<lambda>_. zeros 32) (\<lambda>_. True) (encode_asset (\<lambda>_. zeros 32) demo_wire_asset EncodeNormal)
    = Ok demo_wire_asset"
proof (rule asset_roundtrip)
  show "wf_asset (\<lambda>_. zeros 32) (\<lambda>_. True) demo_wire_asset"
    by (simp add: wf_asset_def demo_wire_asset_def new_genesis_def asset_version_from_u8_def wf_genesis_def
        genesis_empty_def wf_asset_type_def asset_type_from_u8_def wf_witness_def wf_prev_id_def PREV_ID_ZERO_def
        validate_on_curve_def script_key_from_pub_key_def wf_odd_types_def btree_sorted_def asset_known_def)
  show "length (encode_asset (\<lambda>_. zeros 32) demo_wire_asset EncodeNormal) \<le> 4000000"
    by (simp add: demo_wire_asset_def new_genesis_def encode_asset_def Let_def tlv_push_def tlv_push_if_def push_opt_def
        tlv_record_defs tlv_encode_def sort_key_def encode_record_def bigsize_len_def genesis_empty_def encode_genesis_def
        encode_var_bytes_def encode_prev_witnesses_def encode_witness_def PREV_ID_ZERO_def encode_prev_id_def
        script_key_from_pub_key_def)
qed

end
