(* ===== verification/Commitment.thy ===== *)
theory Commitment
  imports Asset Mssmt_Refine Tapscript
begin

text \<open>
  The two-level commitment of the protocol: \<^verbatim>\<open>tap-primitives/src/commitment/\<close>
  (\<^verbatim>\<open>asset_commitment.rs\<close>, \<^verbatim>\<open>tap_commitment.rs\<close>, \<^verbatim>\<open>tree.rs\<close>,
  \<^verbatim>\<open>proof.rs\<close>). Assets of one group lie in an inner sum tree whose root becomes a leaf of the outer
  tree, whose root goes into a tapscript leaf. The trees are those of \<open>Mssmt_Tree\<close>. Error messages that
  embed another error carry that error itself; numbers inside messages are left out. Methods that change
  \<^verbatim>\<open>&mut self\<close> and can fail afterwards return the outcome and the state.
\<close>

section \<open>Asset commitments\<close>

datatype CommitmentError =
    CeEmptyAssetList
  | CeTreeError TreeError
  | CeDuplicateTapKey bytes
  | CeMismatchedTapKey
  | CeMismatchedAssetType
  | CeInvalidProof string
  | CeInvalidAltLeaf AssetError
  | CeDuplicateAltLeafKey bytes
  | CeUnknownAssetVersion AssetError

definition asset_commitment_key_of :: "hash_fun \<Rightarrow> AssetId \<Rightarrow> SerializedKey \<Rightarrow> bool \<Rightarrow> bytes" where
  "asset_commitment_key_of sha aid key has_group_key =
     sha ((if has_group_key then aid else []) @ schnorr_bytes key)"

definition tap_commitment_key :: "hash_fun \<Rightarrow> AssetId \<Rightarrow> SerializedKey option \<Rightarrow> bytes" where
  "tap_commitment_key sha aid group_key_opt =
     (case group_key_opt of Some gpk \<Rightarrow> sha (schnorr_bytes gpk) | None \<Rightarrow> aid)"

record AssetCommitment =
  ac_version :: AssetVersion
  ac_tap_key :: bytes
  ac_asset_type :: AssetType
  ac_tree_root :: BranchNode

definition asset_leaf :: "hash_fun \<Rightarrow> Asset \<Rightarrow> (LeafNode, CommitmentError) result" where
  "asset_leaf sha a = map_err CeUnknownAssetVersion (asset_to_leaf sha a)"

text \<open>The two keys as the constructors compute them from an asset.\<close>

definition tap_key_of :: "hash_fun \<Rightarrow> Asset \<Rightarrow> bytes" where
  "tap_key_of sha a = tap_commitment_key sha (genesis_id sha (genesis a)) (map_option group_pub_key (group_key a))"

definition leaf_key_of :: "hash_fun \<Rightarrow> Asset \<Rightarrow> bytes" where
  "leaf_key_of sha a =
     asset_commitment_key_of sha (genesis_id sha (genesis a)) (sk_pub_key (script_key a)) (group_key a \<noteq> None)"

definition max_asset_version :: "AssetVersion \<Rightarrow> AssetVersion \<Rightarrow> AssetVersion" where
  "max_asset_version v w = (if asset_version_to_u8 v < asset_version_to_u8 w then w else v)"

fun ac_new_loop ::
  "hash_fun \<Rightarrow> Asset list \<Rightarrow> DefaultStore \<Rightarrow> AssetVersion \<Rightarrow>
     (DefaultStore \<times> AssetVersion, CommitmentError) result" where
  "ac_new_loop sha [] tree ver = Ok (tree, ver)"
| "ac_new_loop sha (a # as) tree ver =
     res_bind (asset_leaf sha a) (\<lambda>leaf.
       res_bind (map_err CeTreeError (tree_insert sha (leaf_key_of sha a) leaf tree)) (\<lambda>tree.
         ac_new_loop sha as tree (max_asset_version ver (a_version a))))"

definition asset_commitment_new :: "hash_fun \<Rightarrow> Asset list \<Rightarrow> (AssetCommitment, CommitmentError) result" where
  "asset_commitment_new sha assets =
     (case assets of
        [] \<Rightarrow> Err CeEmptyAssetList
      | first # _ \<Rightarrow>
          res_bind (ac_new_loop sha assets full_tree_new (a_version first)) (\<lambda>(tree, ver).
            Ok \<lparr>ac_version = ver, ac_tap_key = tap_key_of sha first,
                ac_asset_type = g_asset_type (genesis first), ac_tree_root = tree_root sha tree\<rparr>))"

definition asset_commitment_from_root ::
  "AssetVersion \<Rightarrow> bytes \<Rightarrow> AssetType \<Rightarrow> BranchNode \<Rightarrow> AssetCommitment" where
  "asset_commitment_from_root ver tap_key ty root =
     \<lparr>ac_version = ver, ac_tap_key = tap_key, ac_asset_type = ty, ac_tree_root = root\<rparr>"

text \<open>What is hashed for the root of an asset commitment, and the 41-byte leaf of the outer tree.
  \<^verbatim>\<open>build_asset_commitment_leaf\<close> of \<^verbatim>\<open>proof.rs\<close> repeats the computation for a root derived from
  a proof.\<close>

definition commitment_preimage :: "hash_fun \<Rightarrow> bytes \<Rightarrow> BranchNode \<Rightarrow> bytes" where
  "commitment_preimage sha tap_key root =
     tap_key @ node_hash sha (fst root) @ node_hash sha (snd root) @ u64_be (branch_sum root)"

definition asset_commitment_root :: "hash_fun \<Rightarrow> AssetCommitment \<Rightarrow> bytes" where
  "asset_commitment_root sha c = sha (commitment_preimage sha (ac_tap_key c) (ac_tree_root c))"

definition tap_commitment_leaf :: "hash_fun \<Rightarrow> AssetCommitment \<Rightarrow> LeafNode" where
  "tap_commitment_leaf sha c =
     (let root = asset_commitment_root sha c; sum = branch_sum (ac_tree_root c)
      in leaf_new ([asset_version_to_u8 (ac_version c)] @ root @ u64_be sum) sum)"

definition build_asset_commitment_leaf :: "hash_fun \<Rightarrow> AssetVersion \<Rightarrow> bytes \<Rightarrow> BranchNode \<Rightarrow> LeafNode" where
  "build_asset_commitment_leaf sha ver tap_key inner_root =
     (let sum = branch_sum inner_root; root_hash = sha (commitment_preimage sha tap_key inner_root)
      in leaf_new ([asset_version_to_u8 ver] @ root_hash @ u64_be sum) sum)"

section \<open>Tap commitments\<close>

datatype TapCommitmentVersion = TapV0 | TapV1 | TapV2

fun tcv_to_u8 :: "TapCommitmentVersion \<Rightarrow> u8" where
  "tcv_to_u8 TapV0 = 0"
| "tcv_to_u8 TapV1 = 1"
| "tcv_to_u8 TapV2 = 2"

definition tcv_from_u8 :: "u8 \<Rightarrow> (TapCommitmentVersion, CommitmentError) result" where
  "tcv_from_u8 v =
     (if v = 0 then Ok TapV0 else if v = 1 then Ok TapV1 else if v = 2 then Ok TapV2
      else Err (CeInvalidProof ''unknown tap commitment version''))"

definition TAPROOT_ASSETS_MARKER :: "hash_fun \<Rightarrow> bytes" where
  "TAPROOT_ASSETS_MARKER sha = sha (ascii ''taproot-assets'')"

definition TAPROOT_ASSETS_V2_TAG :: "hash_fun \<Rightarrow> bytes" where
  "TAPROOT_ASSETS_V2_TAG sha = sha (ascii ''taproot-assets:194243'')"

record TapCommitment =
  tc_version :: TapCommitmentVersion
  tc_tree_root :: BranchNode

fun tc_new_loop ::
  "hash_fun \<Rightarrow> AssetCommitment list \<Rightarrow> DefaultStore \<Rightarrow> (DefaultStore, CommitmentError) result" where
  "tc_new_loop sha [] tree = Ok tree"
| "tc_new_loop sha (ac # acs) tree =
     res_bind (map_err CeTreeError (tree_insert sha (ac_tap_key ac) (tap_commitment_leaf sha ac) tree))
       (tc_new_loop sha acs)"

definition tap_commitment_new ::
  "hash_fun \<Rightarrow> TapCommitmentVersion \<Rightarrow> AssetCommitment list \<Rightarrow> (TapCommitment, CommitmentError) result" where
  "tap_commitment_new sha ver commitments =
     res_bind (tc_new_loop sha commitments full_tree_new) (\<lambda>tree.
       Ok \<lparr>tc_version = ver, tc_tree_root = tree_root sha tree\<rparr>)"

text \<open>\<^verbatim>\<open>.max().unwrap_or(0)\<close> over the versions of the commitments.\<close>

definition max_version :: "AssetVersion list \<Rightarrow> u8" where
  "max_version vs = foldl (\<lambda>m v. max m (asset_version_to_u8 v)) 0 vs"

definition tap_version_for ::
  "TapCommitmentVersion option \<Rightarrow> AssetVersion list \<Rightarrow> (TapCommitmentVersion, CommitmentError) result" where
  "tap_version_for ver vs = (case ver of Some v \<Rightarrow> Ok v | None \<Rightarrow> tcv_from_u8 (max_version vs))"

definition from_asset_commitments ::
  "hash_fun \<Rightarrow> TapCommitmentVersion option \<Rightarrow> AssetCommitment list \<Rightarrow> (TapCommitment, CommitmentError) result" where
  "from_asset_commitments sha ver commitments =
     res_bind (tap_version_for ver (map ac_version commitments)) (\<lambda>v. tap_commitment_new sha v commitments)"

definition tap_commitment_from_root :: "TapCommitmentVersion \<Rightarrow> BranchNode \<Rightarrow> TapCommitment" where
  "tap_commitment_from_root ver root = \<lparr>tc_version = ver, tc_tree_root = root\<rparr>"

definition tap_leaf :: "hash_fun \<Rightarrow> TapCommitment \<Rightarrow> bytes" where
  "tap_leaf sha c =
     (let root_hash = branch_hash sha (tc_tree_root c); root_sum = branch_sum (tc_tree_root c)
      in case tc_version c of
           TapV2 \<Rightarrow> TAPROOT_ASSETS_V2_TAG sha @ [tcv_to_u8 (tc_version c)] @ root_hash @ u64_be root_sum
         | _ \<Rightarrow> [tcv_to_u8 (tc_version c)] @ TAPROOT_ASSETS_MARKER sha @ root_hash @ u64_be root_sum)"

definition tc_root_hash :: "hash_fun \<Rightarrow> TapCommitment \<Rightarrow> NodeHash" where
  "tc_root_hash sha c = branch_hash sha (tc_tree_root c)"

definition tc_root_sum :: "TapCommitment \<Rightarrow> u64" where
  "tc_root_sum c = branch_sum (tc_tree_root c)"

definition tapscript_root :: "hash_fun \<Rightarrow> TapCommitment \<Rightarrow> bytes option \<Rightarrow> bytes" where
  "tapscript_root sha c sibling =
     (let leaf_hash = tap_leaf_hash sha 0xc0 (tap_leaf sha c)
      in case sibling of None \<Rightarrow> leaf_hash | Some s \<Rightarrow> tap_branch_hash sha leaf_hash s)"

definition downgrade :: "TapCommitment \<Rightarrow> TapCommitment" where
  "downgrade c = c\<lparr>tc_version := TapV0\<rparr>"

definition is_tap_commitment_script :: "hash_fun \<Rightarrow> bytes \<Rightarrow> bool" where
  "is_tap_commitment_script sha script =
     (if length script \<noteq> 73 then False
      else if script ! 0 = 0 \<or> script ! 0 = 1 then take 32 (drop 1 script) = TAPROOT_ASSETS_MARKER sha
      else take 32 script = TAPROOT_ASSETS_V2_TAG sha)"

definition is_similar_tap_commitment_version ::
  "TapCommitmentVersion option \<Rightarrow> TapCommitmentVersion option \<Rightarrow> bool" where
  "is_similar_tap_commitment_version a b =
     (case (a, b) of
        (None, None) \<Rightarrow> True
      | (None, Some v) \<Rightarrow> v \<in> {TapV0, TapV1}
      | (Some v, None) \<Rightarrow> v \<in> {TapV0, TapV1}
      | (Some a, Some b) \<Rightarrow>
          if a = TapV2 then b = TapV2 else a \<in> {TapV0, TapV1} \<and> b \<in> {TapV0, TapV1})"

section \<open>Trees that retain their content\<close>

record AssetCommitmentTree =
  act_commitment :: AssetCommitment
  act_tree :: DefaultStore
  act_assets :: "(bytes \<times> Asset) list"

fun act_new_loop ::
  "hash_fun \<Rightarrow> bytes \<Rightarrow> AssetType \<Rightarrow> Asset list \<Rightarrow> DefaultStore \<Rightarrow> (bytes \<times> Asset) list \<Rightarrow> AssetVersion \<Rightarrow>
     (DefaultStore \<times> (bytes \<times> Asset) list \<times> AssetVersion, CommitmentError) result" where
  "act_new_loop sha tap_key ty [] tree am ver = Ok (tree, am, ver)"
| "act_new_loop sha tap_key ty (a # as) tree am ver =
     (if tap_key_of sha a \<noteq> tap_key then Err CeMismatchedTapKey
      else if g_asset_type (genesis a) \<noteq> ty then Err CeMismatchedAssetType
      else res_bind (asset_leaf sha a) (\<lambda>leaf.
        res_bind (map_err CeTreeError (tree_insert sha (leaf_key_of sha a) leaf tree)) (\<lambda>tree.
          act_new_loop sha tap_key ty as tree (btree_insert (leaf_key_of sha a) a am)
            (max_asset_version ver (a_version a)))))"

definition act_new :: "hash_fun \<Rightarrow> Asset list \<Rightarrow> (AssetCommitmentTree, CommitmentError) result" where
  "act_new sha assets =
     (case assets of
        [] \<Rightarrow> Err CeEmptyAssetList
      | first # _ \<Rightarrow>
          let tap_key = tap_key_of sha first; ty = g_asset_type (genesis first) in
          res_bind (act_new_loop sha tap_key ty assets full_tree_new [] (a_version first)) (\<lambda>(tree, am, ver).
            Ok \<lparr>act_commitment = asset_commitment_from_root ver tap_key ty (tree_root sha tree),
                act_tree = tree, act_assets = am\<rparr>))"

definition act_upsert ::
  "hash_fun \<Rightarrow> Asset \<Rightarrow> AssetCommitmentTree \<Rightarrow> (AssetCommitmentTree, CommitmentError) result" where
  "act_upsert sha a t =
     (let c = act_commitment t in
      if g_asset_type (genesis a) \<noteq> ac_asset_type c then Err CeMismatchedAssetType
      else if tap_key_of sha a \<noteq> ac_tap_key c then Err CeMismatchedTapKey
      else
        let key = leaf_key_of sha a in
        res_bind (asset_leaf sha a) (\<lambda>leaf.
          res_bind (map_err CeTreeError (tree_insert sha key leaf (act_tree t))) (\<lambda>tree.
            Ok \<lparr>act_commitment = asset_commitment_from_root (max_asset_version (ac_version c) (a_version a))
                   (ac_tap_key c) (ac_asset_type c) (tree_root sha tree),
                act_tree = tree, act_assets = btree_insert key a (act_assets t)\<rparr>)))"

definition act_asset_proof ::
  "hash_fun \<Rightarrow> bytes \<Rightarrow> AssetCommitmentTree \<Rightarrow> (Asset option \<times> MerkleProof, CommitmentError) result" where
  "act_asset_proof sha key t =
     res_bind (map_err CeTreeError (tree_merkle_proof sha key (act_tree t))) (\<lambda>p.
       Ok (map_of (act_assets t) key, p))"

record TapCommitmentTree =
  tct_commitment :: TapCommitment
  tct_tree :: DefaultStore
  asset_commitments :: "(bytes \<times> AssetCommitmentTree) list"

fun tct_new_loop ::
  "hash_fun \<Rightarrow> AssetCommitmentTree list \<Rightarrow> DefaultStore \<Rightarrow> (bytes \<times> AssetCommitmentTree) list \<Rightarrow>
     (DefaultStore \<times> (bytes \<times> AssetCommitmentTree) list, CommitmentError) result" where
  "tct_new_loop sha [] tree cm = Ok (tree, cm)"
| "tct_new_loop sha (ac # acs) tree cm =
     (let key = ac_tap_key (act_commitment ac) in
      if map_of cm key \<noteq> None then Err (CeDuplicateTapKey key)
      else res_bind (map_err CeTreeError (tree_insert sha key (tap_commitment_leaf sha (act_commitment ac)) tree))
        (\<lambda>tree. tct_new_loop sha acs tree (btree_insert key ac cm)))"

definition tct_new ::
  "hash_fun \<Rightarrow> TapCommitmentVersion \<Rightarrow> AssetCommitmentTree list \<Rightarrow> (TapCommitmentTree, CommitmentError) result" where
  "tct_new sha ver commitments =
     res_bind (tct_new_loop sha commitments full_tree_new []) (\<lambda>(tree, cm).
       Ok \<lparr>tct_commitment = tap_commitment_from_root ver (tree_root sha tree), tct_tree = tree,
           asset_commitments = cm\<rparr>)"

definition from_asset_commitment_trees ::
  "hash_fun \<Rightarrow> TapCommitmentVersion option \<Rightarrow> AssetCommitmentTree list \<Rightarrow>
     (TapCommitmentTree, CommitmentError) result" where
  "from_asset_commitment_trees sha ver commitments =
     res_bind (tap_version_for ver (map (ac_version \<circ> act_commitment) commitments)) (\<lambda>v.
       tct_new sha v commitments)"

text \<open>A failed re-derivation of the version leaves the updated tree and map behind.\<close>

definition tct_upsert ::
  "hash_fun \<Rightarrow> AssetCommitmentTree \<Rightarrow> TapCommitmentTree \<Rightarrow> (unit, CommitmentError) result \<times> TapCommitmentTree" where
  "tct_upsert sha ac t =
     (let key = ac_tap_key (act_commitment ac);
          changed =
            (if branch_hash sha (ac_tree_root (act_commitment ac)) = empty_tree_root_hash sha
             then map_err CeTreeError (tree_delete sha key (tct_tree t))
             else map_err CeTreeError (tree_insert sha key (tap_commitment_leaf sha (act_commitment ac)) (tct_tree t)))
      in case changed of
           Err e \<Rightarrow> (Err e, t)
         | Panic \<Rightarrow> (Panic, t)
         | Ok tree \<Rightarrow>
             let cm = (if branch_hash sha (ac_tree_root (act_commitment ac)) = empty_tree_root_hash sha
                       then btree_remove key (asset_commitments t)
                       else btree_insert key ac (asset_commitments t));
                 t = t\<lparr>tct_tree := tree, asset_commitments := cm\<rparr>;
                 ver = (case tc_version (tct_commitment t) of
                          TapV2 \<Rightarrow> Ok TapV2
                        | _ \<Rightarrow> tcv_from_u8 (max_version (map (ac_version \<circ> act_commitment) (btree_values cm))))
             in case ver of
                  Ok v \<Rightarrow> (Ok (), t\<lparr>tct_commitment := tap_commitment_from_root v (tree_root sha tree)\<rparr>)
                | Err e \<Rightarrow> (Err e, t)
                | Panic \<Rightarrow> (Panic, t))"

section \<open>Alternative leaves\<close>

definition EMPTY_GENESIS_ID :: "hash_fun \<Rightarrow> AssetId" where
  "EMPTY_GENESIS_ID sha = genesis_id sha genesis_empty"

fun alt_error :: "AssetError \<Rightarrow> CommitmentError" where
  "alt_error (DuplicateAltLeafKey key) = CeDuplicateAltLeafKey key"
| "alt_error e = CeInvalidAltLeaf e"

fun upsert_all ::
  "hash_fun \<Rightarrow> Asset list \<Rightarrow> AssetCommitmentTree \<Rightarrow> (AssetCommitmentTree, CommitmentError) result" where
  "upsert_all sha [] t = Ok t"
| "upsert_all sha (a # as) t = res_bind (act_upsert sha a t) (upsert_all sha as)"

definition alt_commitment_for ::
  "hash_fun \<Rightarrow> Asset list \<Rightarrow> bytes list \<Rightarrow> TapCommitmentTree \<Rightarrow> (AssetCommitmentTree, CommitmentError) result" where
  "alt_commitment_for sha alts new_leaf_keys t =
     (case map_of (asset_commitments t) (EMPTY_GENESIS_ID sha) of
        Some existing \<Rightarrow>
          (case filter (\<lambda>k. k \<in> set new_leaf_keys) (btree_keys (act_assets existing)) of
             k # _ \<Rightarrow> Err (CeDuplicateAltLeafKey k)
           | [] \<Rightarrow> Ok existing)
      | None \<Rightarrow> act_new sha [hd alts])"

definition merge_alt_leaves ::
  "hash_fun \<Rightarrow> Asset list \<Rightarrow> TapCommitmentTree \<Rightarrow> (unit, CommitmentError) result \<times> TapCommitmentTree" where
  "merge_alt_leaves sha alts t =
     (if alts = [] then (Ok (), t)
      else
        let merged =
          res_bind (map_err alt_error (add_leaf_keys_verify_unique sha [] alts)) (\<lambda>new_leaf_keys.
            res_bind (alt_commitment_for sha alts new_leaf_keys t) (\<lambda>ac. upsert_all sha alts ac))
        in case merged of
             Ok ac \<Rightarrow> tct_upsert sha ac t
           | Err e \<Rightarrow> (Err e, t)
           | Panic \<Rightarrow> (Panic, t))"

definition fetch_alt_leaves :: "hash_fun \<Rightarrow> TapCommitmentTree \<Rightarrow> Asset list" where
  "fetch_alt_leaves sha t =
     (case map_of (asset_commitments t) (EMPTY_GENESIS_ID sha) of
        Some ac \<Rightarrow> btree_values (act_assets ac)
      | None \<Rightarrow> [])"

definition trim_alt_leaves ::
  "hash_fun \<Rightarrow> TapCommitmentTree \<Rightarrow> (TapCommitmentTree \<times> Asset list, CommitmentError) result" where
  "trim_alt_leaves sha t =
     (let remaining = map snd (filter (\<lambda>(k, _). k \<noteq> EMPTY_GENESIS_ID sha) (asset_commitments t))
      in res_bind (tct_new sha (tc_version (tct_commitment t)) remaining) (\<lambda>trimmed.
           Ok (trimmed, fetch_alt_leaves sha t)))"

section \<open>Sibling preimages\<close>

record TapscriptPreimage =
  sibling_type :: u8
  sibling_preimage :: bytes

definition preimage_is_empty :: "TapscriptPreimage \<Rightarrow> bool" where
  "preimage_is_empty p \<longleftrightarrow> sibling_preimage p = []"

definition preimage_encode :: "TapscriptPreimage \<Rightarrow> bytes" where
  "preimage_encode p = [sibling_type p] @ sibling_preimage p"

definition preimage_decode :: "bytes \<Rightarrow> (TapscriptPreimage, CommitmentError) result" where
  "preimage_decode data =
     (case data of
        [] \<Rightarrow> Err (CeInvalidProof ''empty tapscript preimage'')
      | b # bs \<Rightarrow> Ok \<lparr>sibling_type = b, sibling_preimage = bs\<rparr>)"

text \<open>The sum of prefix and announced length is a plain \<open>+\<close> on \<open>usize\<close>.\<close>

definition read_var_bytes :: "bytes \<Rightarrow> (bytes \<times> nat, CommitmentError) result" where
  "read_var_bytes data =
     (let err = CeInvalidProof ''invalid var bytes'';
          le = (\<lambda>k. be_decode (rev (take k (drop 1 data)))) in
      if data = [] then Err err
      else
        res_bind
          (if data ! 0 < 253 then Ok (unat (data ! 0), 1)
           else if data ! 0 = 253 then if length data < 3 then Err err else Ok (le 2, 3)
           else if data ! 0 = 254 then if length data < 5 then Err err else Ok (le 4, 5)
           else if length data < 9 then Err err else Ok (le 8, 9))
          (\<lambda>(len, prefix).
             if length data < usize_add prefix len then Err err
             else res_bind (slice_of data prefix (usize_add prefix len)) (\<lambda>payload.
               Ok (payload, usize_add prefix len))))"

definition tap_hash :: "hash_fun \<Rightarrow> TapscriptPreimage \<Rightarrow> (bytes, CommitmentError) result" where
  "tap_hash sha p =
     (if preimage_is_empty p then Err (CeInvalidProof ''empty tapscript preimage'')
      else if sibling_type p = 0 then
        let raw = sibling_preimage p in
        if length raw < 2 then Err (CeInvalidProof ''invalid tapscript preimage length'')
        else res_bind (read_var_bytes (drop 1 raw)) (\<lambda>(script, consumed).
          if 1 + consumed \<noteq> length raw then Err (CeInvalidProof ''trailing bytes in leaf preimage'')
          else if is_tap_commitment_script sha script then
            Err (CeInvalidProof ''preimage is a Taproot Asset commitment'')
          else Ok (tap_leaf_hash sha (raw ! 0) script))
      else if sibling_type p = 1 then
        if length (sibling_preimage p) \<noteq> 64 then Err (CeInvalidProof ''invalid tapscript preimage length'')
        else Ok (tap_branch_hash sha (take 32 (sibling_preimage p)) (drop 32 (sibling_preimage p)))
      else Err (CeInvalidProof ''invalid tapscript preimage type''))"

section \<open>Commitment proofs\<close>

record AssetProof =
  ap_proof :: MerkleProof
  ap_version :: AssetVersion
  ap_tap_key :: bytes
  ap_unknown_odd_types :: "(u64 \<times> bytes) list"

record TaprootAssetProof =
  tp_proof :: MerkleProof
  tp_version :: TapCommitmentVersion
  tp_unknown_odd_types :: "(u64 \<times> bytes) list"

datatype CommitmentProof = CommitmentProof
  (cp_asset_proof: "AssetProof option")
  (cp_taproot_asset_proof: TaprootAssetProof)
  (cp_tap_sibling_preimage: "TapscriptPreimage option")
  (cp_stxo_proofs: "(SerializedKey \<times> CommitmentProof) list")
  (cp_unknown_odd_types: "(u64 \<times> bytes) list")

definition tct_merkle_proof ::
  "hash_fun \<Rightarrow> bytes \<Rightarrow> TapCommitmentTree \<Rightarrow> (MerkleProof, CommitmentError) result" where
  "tct_merkle_proof sha key t = map_err CeTreeError (tree_merkle_proof sha key (tct_tree t))"

definition tct_proof ::
  "hash_fun \<Rightarrow> bytes \<Rightarrow> bytes \<Rightarrow> TapCommitmentTree \<Rightarrow> (Asset option \<times> CommitmentProof, CommitmentError) result" where
  "tct_proof sha tap_key asset_key t =
     res_bind (tct_merkle_proof sha tap_key t) (\<lambda>outer.
       let tp = \<lparr>tp_proof = outer, tp_version = tc_version (tct_commitment t), tp_unknown_odd_types = []\<rparr> in
       case map_of (asset_commitments t) tap_key of
         None \<Rightarrow> Ok (None, CommitmentProof None tp None [] [])
       | Some ac \<Rightarrow>
           res_bind (act_asset_proof sha asset_key ac) (\<lambda>(asset, inner).
             Ok (asset, CommitmentProof
               (Some \<lparr>ap_proof = inner, ap_version = ac_version (act_commitment ac),
                      ap_tap_key = ac_tap_key (act_commitment ac), ap_unknown_odd_types = []\<rparr>)
               tp None [] [])))"

definition derive_by_asset_inclusion ::
  "hash_fun \<Rightarrow> CommitmentProof \<Rightarrow> bytes \<Rightarrow> LeafNode \<Rightarrow> bytes \<Rightarrow> (BranchNode, CommitmentError) result" where
  "derive_by_asset_inclusion sha p asset_key leaf tap_key =
     res_bind (ok_or (cp_asset_proof p) (CeInvalidProof ''asset proof required for inclusion'')) (\<lambda>ap.
       let inner_root = proof_root asset_key (Leaf leaf) (ap_proof ap);
           ac_leaf = build_asset_commitment_leaf sha (ap_version ap) tap_key inner_root
       in Ok (proof_root tap_key (Leaf ac_leaf) (tp_proof (cp_taproot_asset_proof p))))"

definition derive_by_asset_exclusion ::
  "hash_fun \<Rightarrow> CommitmentProof \<Rightarrow> bytes \<Rightarrow> bytes \<Rightarrow> (BranchNode, CommitmentError) result" where
  "derive_by_asset_exclusion sha p asset_key tap_key =
     res_bind (ok_or (cp_asset_proof p) (CeInvalidProof ''asset proof required for exclusion'')) (\<lambda>ap.
       let inner_root = proof_root asset_key (Leaf leaf_empty) (ap_proof ap);
           ac_leaf = build_asset_commitment_leaf sha (ap_version ap) tap_key inner_root
       in Ok (proof_root tap_key (Leaf ac_leaf) (tp_proof (cp_taproot_asset_proof p))))"

definition derive_by_commitment_exclusion ::
  "CommitmentProof \<Rightarrow> bytes \<Rightarrow> (BranchNode, CommitmentError) result" where
  "derive_by_commitment_exclusion p tap_key =
     (if cp_asset_proof p \<noteq> None
      then Err (CeInvalidProof ''asset proof must be None for commitment exclusion'')
      else Ok (proof_root tap_key (Leaf leaf_empty) (tp_proof (cp_taproot_asset_proof p))))"

end
