(* ===== verification/Keys.thy ===== *)
theory Keys
  imports Vm Asset_Codec Commitment
begin

text \<open>
  Key derivations around the secp256k1 crate: \<^verbatim>\<open>tap-primitives/src/crypto/keys.rs\<close>, \<^verbatim>\<open>pedersen.rs\<close>,
  the output keys of \<^verbatim>\<open>tapscript.rs\<close>, the signature validator of \<^verbatim>\<open>schnorr.rs\<close>, burn keys
  (\<^verbatim>\<open>asset/burn.rs\<close>) and the markers of spent assets (\<^verbatim>\<open>asset/mod.rs\<close>).

  The record \<open>Secp\<close> holds the operations of the external crates. Points and scalars are represented by
  their serialisations: 33 bytes for a public key, 32 for an x-only key or a scalar. An operation that the
  crate can refuse returns an option. \<open>btc\<close> is the part the virtual machine uses.
\<close>

record ExtendedKey =
  xk_depth :: u8
  xk_public_key :: bytes
  xk_chain_code :: bytes

record Secp =
  btc :: BtcLib
  pub_key_valid :: "bytes \<Rightarrow> bool"
  scalar_valid :: "bytes \<Rightarrow> bool"
  x_add_tweak :: "bytes \<Rightarrow> bytes \<Rightarrow> (bytes \<times> bool) option"
  add_exp_tweak :: "bytes \<Rightarrow> bytes \<Rightarrow> bytes option"
  mul_tweak :: "bytes \<Rightarrow> bytes \<Rightarrow> bytes option"
  combine_keys :: "bytes \<Rightarrow> bytes \<Rightarrow> bytes option"
  secret_key_point :: "bytes \<Rightarrow> bytes option"
  ckd_pub :: "ExtendedKey \<Rightarrow> u32 \<Rightarrow> ExtendedKey option"
  schnorr_verifies :: "bytes \<Rightarrow> bytes \<Rightarrow> bytes \<Rightarrow> bool"
  script_verifies :: "(VirtualTx \<Rightarrow> TxOut \<Rightarrow> bool) option"

section \<open>Taproot tweaks\<close>

datatype KeyError = KeInvalidPublicKey string | KeTweakFailed string

definition full_key :: "bytes \<times> bool \<Rightarrow> bytes" where
  "full_key p = (if snd p then 0x03 else 0x02) # fst p"

definition compute_tap_tweak :: "hash_fun \<Rightarrow> bytes \<Rightarrow> bytes option \<Rightarrow> bytes" where
  "compute_tap_tweak sha internal_key merkle_root =
     (let tag_hash = sha (ascii ''TapTweak'')
      in sha (tag_hash @ tag_hash @ internal_key @ (case merkle_root of Some root \<Rightarrow> root | None \<Rightarrow> [])))"

definition tweak_pub_key ::
  "hash_fun \<Rightarrow> Secp \<Rightarrow> bytes \<Rightarrow> bytes option \<Rightarrow> (bytes \<times> bool, KeyError) result" where
  "tweak_pub_key sha lib internal_key merkle_root =
     (let tweak = compute_tap_tweak sha internal_key merkle_root in
      if \<not> scalar_valid lib tweak then Err (KeTweakFailed ''scalar'')
      else ok_or (x_add_tweak lib internal_key tweak) (KeTweakFailed ''tweak''))"

definition compute_taproot_output_key ::
  "hash_fun \<Rightarrow> Secp \<Rightarrow> bytes \<Rightarrow> bytes option \<Rightarrow> (bytes, KeyError) result" where
  "compute_taproot_output_key sha lib internal_key merkle_root =
     map_ok fst (tweak_pub_key sha lib internal_key merkle_root)"

text \<open>The script key of a raw key with an empty script tree; the \<^verbatim>\<open>expect\<close> calls are panics.\<close>

definition script_key_bip86 :: "hash_fun \<Rightarrow> Secp \<Rightarrow> SerializedKey \<Rightarrow> (ScriptKey, 'e) result" where
  "script_key_bip86 sha lib raw_key =
     (let x_only = drop 1 raw_key in
      if \<not> x_only_valid (btc lib) x_only then Panic
      else case tweak_pub_key sha lib x_only None of
        Ok (tweaked, _) \<Rightarrow> Ok \<lparr>sk_pub_key = 0x02 # tweaked, sk_tweaked = Some \<lparr>tsk_raw_key = raw_key,
          tsk_tweak = [], tsk_key_type = Bip86\<rparr>\<rparr>
      | _ \<Rightarrow> Panic)"

text \<open>\<^verbatim>\<open>x_only_public_key\<close> drops the parity byte of the raw key.\<close>

definition compute_group_key :: "hash_fun \<Rightarrow> Secp \<Rightarrow> bytes \<Rightarrow> AssetId \<Rightarrow> (bytes, KeyError) result" where
  "compute_group_key sha lib raw_key aid =
     res_bind (tweak_pub_key sha lib (drop 1 raw_key) (Some aid)) (\<lambda>(tweaked_x, parity).
       let full = full_key (tweaked_x, parity) in
       if pub_key_valid lib full then Ok full else Err (KeInvalidPublicKey ''key''))"

definition verify_group_key :: "hash_fun \<Rightarrow> Secp \<Rightarrow> bytes \<Rightarrow> bytes \<Rightarrow> AssetId \<Rightarrow> (bool, KeyError) result" where
  "verify_group_key sha lib gpk raw_key aid =
     map_ok (\<lambda>expected. gpk = expected) (compute_group_key sha lib raw_key aid)"

definition taproot_output_key :: "hash_fun \<Rightarrow> Secp \<Rightarrow> SerializedKey \<Rightarrow> bytes \<Rightarrow> (bytes, string) result" where
  "taproot_output_key sha lib internal_key merkle_root =
     (let x_only = schnorr_bytes internal_key in
      if \<not> x_only_valid (btc lib) x_only then Err ''invalid internal key''
      else
        let tag_hash = sha (ascii ''TapTweak'');
            tweak = sha (tag_hash @ tag_hash @ x_only @ merkle_root) in
        if \<not> scalar_valid lib tweak then Err ''invalid tap tweak''
        else map_ok fst (ok_or (x_add_tweak lib x_only tweak) ''tweak failed''))"

definition create_tap_output_script ::
  "hash_fun \<Rightarrow> Secp \<Rightarrow> SerializedKey \<Rightarrow> TapCommitment \<Rightarrow> bytes option \<Rightarrow> (bytes \<times> bytes, string) result" where
  "create_tap_output_script sha lib internal_key tap_commitment sibling_script =
     (let sibling_hash = map_option (tap_leaf_hash sha 0xc0) sibling_script;
          root = tapscript_root sha tap_commitment sibling_hash in
      res_bind (taproot_output_key sha lib internal_key root) (\<lambda>output_key.
        Ok ([0x51, 0x20] @ output_key, output_key)))"

section \<open>Scalars modulo the group order\<close>

definition CURVE_ORDER_N :: bytes where
  "CURVE_ORDER_N =
     [0xFF, 0xFF, 0xFF, 0xFF, 0xFF, 0xFF, 0xFF, 0xFF, 0xFF, 0xFF, 0xFF, 0xFF, 0xFF, 0xFF, 0xFF, 0xFE,
      0xBA, 0xAE, 0xDC, 0xE6, 0xAF, 0x48, 0xA0, 0x3B, 0xBF, 0xD2, 0x5E, 0x8C, 0xD0, 0x36, 0x41, 0x41]"

text \<open>The loops run from the last byte to the first. The intermediate \<open>u16\<close> (and \<open>i16\<close>) values stay below
  512 (and within -256 and 255), so they are written over the naturals (integers).\<close>

fun sub_loop :: "bytes \<Rightarrow> bytes \<Rightarrow> bytes \<times> nat" where
  "sub_loop (a # as) (b # bs) =
     (let (out, borrow) = sub_loop as bs;
          lhs = unat a;
          rhs = unat b + borrow
      in if rhs \<le> lhs then (of_nat (lhs - rhs) # out, 0) else (of_nat (lhs + 256 - rhs) # out, 1))"
| "sub_loop _ _ = ([], 0)"

definition reduce_mod_n :: "bytes \<Rightarrow> bytes" where
  "reduce_mod_n bs = (if bs < CURVE_ORDER_N then bs else fst (sub_loop bs CURVE_ORDER_N))"

fun diff_loop :: "bytes \<Rightarrow> bytes \<Rightarrow> bytes \<times> int" where
  "diff_loop (a # as) (b # bs) =
     (let (out, borrow) = diff_loop as bs;
          diff = uint a - uint b - borrow
      in if diff < 0 then (of_int (diff + 256) # out, 1) else (of_int diff # out, 0))"
| "diff_loop _ _ = ([], 0)"

definition pedersen_reduce_mod_n :: "bytes \<Rightarrow> bytes" where
  "pedersen_reduce_mod_n bs = (if bs < CURVE_ORDER_N then bs else fst (diff_loop bs CURVE_ORDER_N))"

section \<open>Pedersen commitments\<close>

datatype CryptoError =
    InvalidScalar string | CrInvalidPublicKey string | PointAtInfinity | DerivationFailed string

definition TAPROOT_NUMS_BYTES :: bytes where
  "TAPROOT_NUMS_BYTES =
     [0x02, 0xdc, 0xa0, 0x94, 0x75, 0x11, 0x09, 0xd0, 0xbd, 0x05, 0x5d, 0x03, 0x56, 0x58, 0x74, 0xe8,
      0x27, 0x6d, 0xd5, 0x3e, 0x92, 0x6b, 0x44, 0xe3, 0xbd, 0x1b, 0xb6, 0xbf, 0x4b, 0xc1, 0x30, 0xa2, 0x79]"

definition taproot_nums_key :: "Secp \<Rightarrow> (bytes, CryptoError) result" where
  "taproot_nums_key lib =
     (if pub_key_valid lib TAPROOT_NUMS_BYTES then Ok TAPROOT_NUMS_BYTES else Err (CrInvalidPublicKey ''nums''))"

record Opening =
  op_msg :: bytes
  op_mask :: "bytes option"
  op_nums :: "bytes option"

definition new_commitment :: "Secp \<Rightarrow> Opening \<Rightarrow> (bytes, CryptoError) result" where
  "new_commitment lib op =
     res_bind (case op_nums op of Some nums \<Rightarrow> Ok nums | None \<Rightarrow> taproot_nums_key lib) (\<lambda>nums.
     let msg_scalar = pedersen_reduce_mod_n (op_msg op) in
     res_bind (if msg_scalar = zeros 32 then Ok None
               else map_ok Some (ok_or (secret_key_point lib msg_scalar) (InvalidScalar ''message''))) (\<lambda>msg_point.
     res_bind (case op_mask op of
         None \<Rightarrow> Ok (Some nums)
       | Some blind \<Rightarrow>
           let r = pedersen_reduce_mod_n blind in
           if r = zeros 32 then Ok None
           else if \<not> scalar_valid lib r then Err (InvalidScalar ''mask'')
           else map_ok Some (ok_or (mul_tweak lib nums r) (InvalidScalar ''mask''))) (\<lambda>blinding_point.
     case (msg_point, blinding_point) of
       (Some m, Some b) \<Rightarrow> ok_or (combine_keys lib m b) PointAtInfinity
     | (Some m, None) \<Rightarrow> Ok m
     | (None, Some b) \<Rightarrow> Ok b
     | (None, None) \<Rightarrow> Err PointAtInfinity)))"

definition verify_commitment :: "Secp \<Rightarrow> bytes \<Rightarrow> Opening \<Rightarrow> (bool, CryptoError) result" where
  "verify_commitment lib commitment op = map_ok (\<lambda>expected. commitment = expected) (new_commitment lib op)"

definition nums_xpub :: "Secp \<Rightarrow> bytes \<Rightarrow> (ExtendedKey \<times> bytes, CryptoError) result" where
  "nums_xpub lib nums_key =
     (let chain_code = drop 1 nums_key;
          extended = \<lparr>xk_depth = 3, xk_public_key = nums_key, xk_chain_code = chain_code\<rparr> in
      res_bind (ok_or (ckd_pub lib extended 0) (DerivationFailed ''change'')) (\<lambda>change_branch.
      res_bind (ok_or (ckd_pub lib change_branch 0) (DerivationFailed ''index'')) (\<lambda>index_branch.
      Ok (extended, xk_public_key index_branch))))"

definition tweaked_nums_key :: "Secp \<Rightarrow> bytes \<Rightarrow> (ExtendedKey \<times> bytes, CryptoError) result" where
  "tweaked_nums_key lib msg =
     res_bind (new_commitment lib \<lparr>op_msg = msg, op_mask = None, op_nums = None\<rparr>) (nums_xpub lib)"

section \<open>The Schnorr validator\<close>

text \<open>\<open>script_verifies lib\<close> is the script interpreter of the \<^verbatim>\<open>consensus-validation\<close> feature, absent without it.
  A signature of 64 bytes always parses.\<close>

definition schnorr_validate_witness :: "Secp \<Rightarrow> bytes \<Rightarrow> Witness \<Rightarrow> Asset \<Rightarrow> (unit, VmError) result" where
  "schnorr_validate_witness lib sighash w prev_asset =
     (if script_version prev_asset \<noteq> 0 then Err InvalidScriptVersion
      else if tx_witness w = [] then Err (InvalidTransferWitness (Inr ''empty witness stack''))
      else
        let sig_bytes = tx_witness w ! 0 in
        res_bind (map_err (\<lambda>_. WitnessValidationFailed ''invalid Schnorr signature'')
          (taproot_witness_sig_hash_type sig_bytes)) (\<lambda>_.
        let x_only = schnorr_bytes (sk_pub_key (script_key prev_asset)) in
        if \<not> x_only_valid (btc lib) x_only then Err (WitnessValidationFailed ''invalid script key'')
        else if schnorr_verifies lib (take 64 sig_bytes) sighash x_only then Ok ()
        else Err (WitnessValidationFailed ''Schnorr signature verification failed'')))"

definition schnorr_validate_script_spend ::
  "Secp \<Rightarrow> VirtualTx \<Rightarrow> TxOut \<Rightarrow> Witness \<Rightarrow> Asset \<Rightarrow> (unit, VmError) result" where
  "schnorr_validate_script_spend lib tx prev_out w prev_asset =
     (if script_version prev_asset \<noteq> 0 then Err InvalidScriptVersion
      else case script_verifies lib of
        None \<Rightarrow> Err (WitnessValidationFailed ''script-path spend validation requires the consensus-validation feature'')
      | Some verify \<Rightarrow>
          if verify tx prev_out then Ok () else Err (WitnessValidationFailed ''tapscript execution failed''))"

definition schnorr_validator :: "Secp \<Rightarrow> WitnessValidator" where
  "schnorr_validator lib =
     \<lparr>validate_witness = schnorr_validate_witness lib, validate_script_spend = schnorr_validate_script_spend lib\<rparr>"

section \<open>Burn keys and spent assets\<close>

text \<open>The \<^verbatim>\<open>expect\<close> calls of the derivation are panics.\<close>

definition derive_burn_key :: "hash_fun \<Rightarrow> Secp \<Rightarrow> PrevId \<Rightarrow> (SerializedKey, 'e) result" where
  "derive_burn_key sha lib first_prev_id =
     (let msg = op_txid (prev_out_point first_prev_id) @ u32_le (op_vout (prev_out_point first_prev_id))
            @ prev_asset_id first_prev_id @ schnorr_bytes (prev_script_key first_prev_id);
          nums_x = drop 1 NUMS_KEY;
          tag_hash = sha (ascii ''TapTweak'');
          tweak = sha (tag_hash @ tag_hash @ nums_x @ msg) in
      if \<not> pub_key_valid lib NUMS_KEY \<or> \<not> scalar_valid lib tweak then Panic
      else case x_add_tweak lib nums_x tweak of
        None \<Rightarrow> Panic
      | Some (tweaked_x, _) \<Rightarrow> Ok (0x02 # tweaked_x))"

definition is_burn_key :: "hash_fun \<Rightarrow> Secp \<Rightarrow> SerializedKey \<Rightarrow> Witness \<Rightarrow> (bool, 'e) result" where
  "is_burn_key sha lib key w =
     (case (case split_commitment w of
              Some split \<Rightarrow>
                (case decode_asset sha (pub_key_valid lib) (sc_root_asset split) of
                   Ok root_asset \<Rightarrow> Ok (primary_prev_id root_asset) | Err _ \<Rightarrow> Ok None | Panic \<Rightarrow> Panic)
            | None \<Rightarrow> Ok (w_prev_id w)) of
        Ok (Some prev_id) \<Rightarrow> map_ok (\<lambda>burn_key. key = burn_key) (derive_burn_key sha lib prev_id)
      | Ok None \<Rightarrow> Ok False
      | Err e \<Rightarrow> Err e
      | Panic \<Rightarrow> Panic)"

definition is_burn :: "hash_fun \<Rightarrow> Secp \<Rightarrow> Asset \<Rightarrow> (bool, 'e) result" where
  "is_burn sha lib a =
     (if prev_witnesses a = [] then Ok False
      else is_burn_key sha lib (sk_pub_key (script_key a)) (prev_witnesses a ! 0))"

definition make_spent_asset :: "hash_fun \<Rightarrow> Secp \<Rightarrow> Witness \<Rightarrow> (Asset, AssetError) result" where
  "make_spent_asset sha lib w =
     res_bind (ok_or (w_prev_id w) (EncodingError ''witness has no prevID'')) (\<lambda>prev_id.
     res_bind (derive_burn_key sha lib prev_id) (\<lambda>key.
       Ok (new_alt_leaf (script_key_from_pub_key key) 0)))"

fun map_res :: "('a \<Rightarrow> ('b, 'e) result) \<Rightarrow> 'a list \<Rightarrow> ('b list, 'e) result" where
  "map_res f [] = Ok []"
| "map_res f (x # xs) = res_bind (f x) (\<lambda>y. res_bind (map_res f xs) (\<lambda>ys. Ok (y # ys)))"

definition collect_stxo :: "hash_fun \<Rightarrow> Secp \<Rightarrow> Asset \<Rightarrow> (Asset list, AssetError) result" where
  "collect_stxo sha lib out_asset =
     (if \<not> is_transfer_root out_asset then Ok []
      else if prev_witnesses out_asset = [] then Err (EncodingError ''asset has no witnesses'')
      else map_res (make_spent_asset sha lib) (prev_witnesses out_asset))"

lemma map_res_Ok: "map_res f xs = Ok ys \<longleftrightarrow> list_all2 (\<lambda>x y. f x = Ok y) xs ys"
  by (induction xs arbitrary: ys) (auto simp: res_simps list_all2_Cons1)

lemma map_res_total:
  assumes "\<And>x. x \<in> set xs \<Longrightarrow> \<exists>y. f x = Ok y"
  shows "\<exists>ys. map_res f xs = Ok ys"
  using assms by (induction xs) fastforce+

section \<open>Reduction modulo the order\<close>

lemma be_decode_Cons: "be_decode (b # bs) = unat b * 256 ^ length bs + be_decode bs"
proof (induction bs rule: rev_induct)
  case (snoc c bs)
  have "be_decode (b # bs @ [c]) = be_decode (b # bs) * 256 + unat c"
    using be_decode_snoc [of "b # bs" c] by simp
  with snoc show ?case by (simp add: algebra_simps)
next
  case Nil
  show ?case using be_decode_snoc [of "[]" b] by simp
qed

lemma bytes_less_iff: "length as = length bs \<Longrightarrow> as < bs \<longleftrightarrow> be_decode as < be_decode bs"
proof (induction as bs rule: list_induct2)
  case (Cons a as b bs)
  have "be_decode as < 256 ^ length bs" "be_decode bs < 256 ^ length bs"
    using be_decode_less [of as] be_decode_less [of bs] Cons.hyps by simp_all
  then have "unat a < unat b \<Longrightarrow> be_decode (a # as) < be_decode (b # bs)"
    "unat b < unat a \<Longrightarrow> be_decode (b # bs) < be_decode (a # as)"
    using Cons.hyps mult_le_mono1 [of "Suc (unat a)" "unat b" "256 ^ length bs"]
      mult_le_mono1 [of "Suc (unat b)" "unat a" "256 ^ length bs"]
    by (simp_all add: be_decode_Cons)
  then show ?case
    using Cons by (cases "unat a" "unat b" rule: linorder_cases)
      (auto simp: be_decode_Cons word_less_nat_alt word_unat_eq_iff)
qed simp

lemma unat_u8_lt: "unat (b :: u8) < 256"
  using unat_lt2p [of b] by simp

lemma sub_loop_spec:
  "length as = length bs \<Longrightarrow> sub_loop as bs = (out, borrow) \<Longrightarrow>
    length out = length bs \<and> borrow \<le> 1 \<and> be_decode as + borrow * 256 ^ length bs = be_decode bs + be_decode out"
proof (induction as bs arbitrary: out borrow rule: list_induct2)
  case (Cons a as b bs)
  obtain o' c where rec: "sub_loop as bs = (o', c)" by (cases "sub_loop as bs")
  have IH: "length o' = length bs" "c \<le> 1"
    "be_decode as + c * 256 ^ length bs = be_decode bs + be_decode o'"
    using Cons.IH [OF rec] by simp_all
  have byte: "unat (of_nat k :: u8) = k" if "k < 256" for k using that by (simp add: unat_of_nat)
  let ?p = "256 ^ length bs :: nat"
  show ?case
  proof (cases "unat b + c \<le> unat a")
    case True
    then obtain k where k: "unat a = unat b + c + k" using le_Suc_ex by blast
    with True have "out = of_nat k # o'" "borrow = 0" using Cons.prems rec by simp_all
    then show ?thesis
      using IH k byte [of k] unat_u8_lt [of a] Cons.hyps by (simp add: be_decode_Cons add_mult_distrib)
  next
    case False
    obtain k where k: "unat a + 256 = unat b + c + k"
      using unat_u8_lt [of b] IH(2) le_Suc_ex [of "unat b + c" "unat a + 256"] by auto
    with False have "out = of_nat k # o'" "borrow = 1" using Cons.prems rec by simp_all
    moreover have "unat a * ?p + 256 * ?p = unat b * ?p + c * ?p + k * ?p" using k by (metis add_mult_distrib)
    moreover have "unat (of_nat k :: u8) = k" using k False by (intro byte) linarith
    ultimately show ?thesis
      using IH Cons.hyps by (simp add: be_decode_Cons)
  qed
qed simp

lemma diff_loop_sub_loop: "length as = length bs \<Longrightarrow> diff_loop as bs = map_prod (\<lambda>x. x) int (sub_loop as bs)"
proof (induction as bs rule: list_induct2)
  case (Cons a as b bs)
  obtain o' c where rec: "sub_loop as bs = (o', c)" by (cases "sub_loop as bs")
  have c: "c \<le> 1" using sub_loop_spec [OF Cons.hyps rec] by simp
  let ?d = "uint a - uint b - int c"
  have u: "uint a = int (unat a)" "uint b = int (unat b)" by simp_all
  show ?case
  proof (cases "unat b + c \<le> unat a")
    case True
    then have d: "?d = int (unat a - (unat b + c))" unfolding u by (simp only: of_nat_diff of_nat_add)
    then have "diff_loop (a # as) (b # bs) = (of_int ?d # o', 0)"
      using Cons.IH rec by simp
    with True d rec show ?thesis by (simp only: sub_loop.simps Let_def prod.case if_True map_prod_simp of_int_of_nat_eq semiring_1_class.of_nat_0)
  next
    case False
    then have d: "?d + 256 = int (unat a + 256 - (unat b + c))" "?d < 0"
      unfolding u using unat_u8_lt [of b] c by linarith+
    then have "diff_loop (a # as) (b # bs) = (of_int (?d + 256) # o', 1)"
      using Cons.IH rec by (simp only: diff_loop.simps map_prod_simp Let_def prod.case if_True)
    with False d rec show ?thesis by (simp only: sub_loop.simps Let_def prod.case if_False map_prod_simp of_int_of_nat_eq semiring_1_class.of_nat_1)
  qed
qed simp

definition group_order :: nat where
  "group_order = be_decode CURVE_ORDER_N"

lemma group_order_value:
  "group_order = 115792089237316195423570985008687907852837564279074904382605163141518161494337"
  by (simp add: group_order_def CURVE_ORDER_N_def be_decode_Cons)

section \<open>Properties\<close>

text \<open>Scalars are reduced modulo the order of the curve. Both reductions in the code (the ownership challenge's,
  with an unsigned borrow, and the Pedersen commitment's, with signed differences) give, for any 32 bytes, the 32-byte
  big-endian form of the value modulo the group order; the single conditional subtraction is enough.\<close>

theorem reduce_mod_n_exact:
  assumes "length bs = 32"
  shows "reduce_mod_n bs = be_encode 32 (be_decode bs mod group_order)
    \<and> pedersen_reduce_mod_n bs = reduce_mod_n bs"
proof -
  have len: "length CURVE_ORDER_N = 32" by (simp add: CURVE_ORDER_N_def)
  have less: "bs < CURVE_ORDER_N \<longleftrightarrow> be_decode bs < group_order"
    using bytes_less_iff assms len by (simp add: group_order_def)
  obtain out borrow where loop: "sub_loop bs CURVE_ORDER_N = (out, borrow)" by (cases "sub_loop bs CURVE_ORDER_N")
  have spec: "length out = 32" "borrow \<le> 1" "be_decode bs + borrow * 256 ^ 32 = group_order + be_decode out"
    using sub_loop_spec [OF _ loop] assms len by (simp_all add: group_order_def)
  have bound: "be_decode bs < 256 ^ 32" "be_decode out < 256 ^ 32"
    using be_decode_less [of bs] be_decode_less [of out] assms spec(1) by simp_all
  have "out = be_encode 32 (be_decode bs mod group_order)" if "group_order \<le> be_decode bs"
  proof -
    have "be_decode out = be_decode bs - group_order"
      using spec bound that by (cases "borrow = 0") (auto simp: group_order_value)
    moreover have "be_decode bs mod group_order = be_decode bs - group_order"
      using bound(1) that by (simp add: le_mod_geq group_order_value)
    ultimately show ?thesis using be_encode_decode [of out] spec(1) by simp
  qed
  moreover have "be_encode 32 (be_decode bs) = bs" using be_encode_decode [of bs] assms by simp
  ultimately show ?thesis
    using less loop diff_loop_sub_loop [of bs CURVE_ORDER_N] assms len
    by (auto simp: reduce_mod_n_def pedersen_reduce_mod_n_def)
qed

theorem reduce_mod_n_exact_witness:
  "reduce_mod_n (replicate 32 255) = be_encode 32 (be_decode (replicate 32 255) mod group_order)"
  using reduce_mod_n_exact [of "replicate 32 255"] by simp

end
