(* ===== verification/Group_Key.thy ===== *)
theory Group_Key
  imports Keys
begin

text \<open>
  Group keys and their reveals: \<^verbatim>\<open>tap-primitives/src/asset/group_key.rs\<close>. A V1 reveal commits to the genesis asset
  through a non-spendable leaf of the tapscript tree that tweaks the internal key.
\<close>

section \<open>Reveals\<close>

record GroupKeyRevealV0 =
  v0_raw_key :: SerializedKey
  v0_tapscript_root :: bytes

record GroupKeyRevealTapscript =
  gt_version :: u8
  gt_root :: bytes
  custom_subtree_root :: "bytes option"

record GroupKeyRevealV1 =
  v1_version :: u8
  v1_internal_key :: SerializedKey
  v1_tapscript :: GroupKeyRevealTapscript

datatype GroupKeyReveal = RevealV0 GroupKeyRevealV0 | RevealV1 GroupKeyRevealV1

fun reveal_raw_key :: "GroupKeyReveal \<Rightarrow> SerializedKey" where
  "reveal_raw_key (RevealV0 v) = v0_raw_key v"
| "reveal_raw_key (RevealV1 v) = v1_internal_key v"

fun reveal_tapscript_root :: "GroupKeyReveal \<Rightarrow> bytes" where
  "reveal_tapscript_root (RevealV0 v) = v0_tapscript_root v"
| "reveal_tapscript_root (RevealV1 v) = gt_root (v1_tapscript v)"

section \<open>Non-spendable leaves\<close>

definition OP_RETURN_VERSION :: u8 where "OP_RETURN_VERSION = 1"
definition PEDERSEN_VERSION :: u8 where "PEDERSEN_VERSION = 2"
definition TAPSCRIPT_LEAF_VERSION :: u8 where "TAPSCRIPT_LEAF_VERSION = 0xc0"

definition add_data_minimal_push :: "bytes \<Rightarrow> bytes \<Rightarrow> bytes" where
  "add_data_minimal_push script data =
     (let n = length data in
      if n = 0 then script @ [0x00]
      else if n = 1 \<and> data ! 0 = 0x00 then script @ [0x00]
      else if n = 1 \<and> 1 \<le> data ! 0 \<and> data ! 0 \<le> 16 then script @ [0x50 + data ! 0]
      else if n = 1 \<and> data ! 0 = 0x81 then script @ [0x4f]
      else if n \<le> 75 then script @ [of_nat n] @ data
      else if n \<le> 0xff then script @ [0x4c, of_nat n] @ data
      else if n \<le> 0xffff then script @ [0x4d] @ u16_le (of_nat n) @ data
      else script @ [0x4e] @ u32_le (of_nat n) @ data)"

definition new_non_spendable_script_leaf ::
  "Secp \<Rightarrow> u8 \<Rightarrow> bytes \<Rightarrow> (u8 \<times> bytes, AssetError) result" where
  "new_non_spendable_script_leaf lib version data =
     res_bind
       (if version = OP_RETURN_VERSION then
          Ok (if data \<noteq> [] then add_data_minimal_push [0x6a] data else [0x6a])
        else if version = PEDERSEN_VERSION then
          if 32 < length data then Err (EncodingError ''data too large'')
          else
            let msg = data @ zeros (32 - length data) in
            res_bind (map_err (\<lambda>_. EncodingError ''failed to derive tweaked NUMS key'') (tweaked_nums_key lib msg))
              (\<lambda>(_, commit_point). Ok ([0x20] @ take 32 (drop 1 commit_point) @ [0xac]))
        else Err (EncodingError ''unknown version''))
       (\<lambda>script. Ok (TAPSCRIPT_LEAF_VERSION, script))"

definition new_group_key_tapscript_root ::
  "hash_fun \<Rightarrow> Secp \<Rightarrow> u8 \<Rightarrow> AssetId \<Rightarrow> bytes option \<Rightarrow> (GroupKeyRevealTapscript \<times> bytes, AssetError) result" where
  "new_group_key_tapscript_root sha lib version genesis_asset_id custom_root =
     res_bind (new_non_spendable_script_leaf lib version []) (\<lambda>(empty_leaf_version, empty_leaf_script).
     let empty_leaf_hash = tap_leaf_hash sha empty_leaf_version empty_leaf_script in
     res_bind (new_non_spendable_script_leaf lib version genesis_asset_id) (\<lambda>(id_leaf_version, id_leaf_script).
     let asset_id_leaf_hash = tap_leaf_hash sha id_leaf_version id_leaf_script;
         root_hash = (case custom_root of
             None \<Rightarrow> asset_id_leaf_hash
           | Some custom \<Rightarrow> tap_branch_hash sha asset_id_leaf_hash (tap_branch_hash sha empty_leaf_hash custom))
     in Ok (\<lparr>gt_version = version, gt_root = root_hash, custom_subtree_root = custom_root\<rparr>,
            empty_leaf_hash @ asset_id_leaf_hash)))"

definition tapscript_validate ::
  "hash_fun \<Rightarrow> Secp \<Rightarrow> GroupKeyRevealTapscript \<Rightarrow> AssetId \<Rightarrow> (unit, AssetError) result" where
  "tapscript_validate sha lib t aid =
     res_bind (new_group_key_tapscript_root sha lib (gt_version t) aid (custom_subtree_root t)) (\<lambda>(tapscript, _).
       if gt_root t \<noteq> gt_root tapscript then Err (EncodingError ''failed to derive tapscript root'') else Ok ())"

section \<open>Group public keys\<close>

definition group_full_taproot_output_key ::
  "hash_fun \<Rightarrow> Secp \<Rightarrow> SerializedKey \<Rightarrow> bytes \<Rightarrow> (bytes, AssetError) result" where
  "group_full_taproot_output_key sha lib internal_key merkle_root =
     (let x_only = schnorr_bytes internal_key in
      if \<not> x_only_valid (btc lib) x_only then Err (ErrInvalidKey ''invalid internal key'')
      else map_ok full_key (map_err (\<lambda>_. ErrInvalidKey ''tweak'') (tweak_pub_key sha lib x_only (Some merkle_root))))"

definition group_pub_key_v1 ::
  "hash_fun \<Rightarrow> Secp \<Rightarrow> SerializedKey \<Rightarrow> GroupKeyRevealTapscript \<Rightarrow> AssetId \<Rightarrow> (bytes, AssetError) result" where
  "group_pub_key_v1 sha lib internal_key t aid =
     res_bind (map_err (\<lambda>_. EncodingError ''group key reveal tapscript tree invalid'') (tapscript_validate sha lib t aid))
       (\<lambda>_. if length (gt_root t) \<noteq> 32 then Err (EncodingError ''group key reveal tapscript root invalid'')
            else group_full_taproot_output_key sha lib internal_key (gt_root t))"

definition reveal_v1_new ::
  "hash_fun \<Rightarrow> Secp \<Rightarrow> u8 \<Rightarrow> SerializedKey \<Rightarrow> AssetId \<Rightarrow> bytes option \<Rightarrow> (GroupKeyRevealV1, AssetError) result" where
  "reveal_v1_new sha lib version internal_key genesis_asset_id custom_root =
     res_bind (new_group_key_tapscript_root sha lib version genesis_asset_id custom_root) (\<lambda>(tapscript, _).
       Ok \<lparr>v1_version = version, v1_internal_key = internal_key, v1_tapscript = tapscript\<rparr>)"

definition reveal_v1_group_pub_key ::
  "hash_fun \<Rightarrow> Secp \<Rightarrow> GroupKeyRevealV1 \<Rightarrow> AssetId \<Rightarrow> (bytes, AssetError) result" where
  "reveal_v1_group_pub_key sha lib v aid = group_pub_key_v1 sha lib (v1_internal_key v) (v1_tapscript v) aid"

definition reveal_v1_validate ::
  "hash_fun \<Rightarrow> Secp \<Rightarrow> GroupKeyRevealV1 \<Rightarrow> AssetId \<Rightarrow> SerializedKey \<Rightarrow> (unit, AssetError) result" where
  "reveal_v1_validate sha lib v aid claimed_group_key =
     res_bind (reveal_v1_group_pub_key sha lib v aid) (\<lambda>derived.
       if derived \<noteq> claimed_group_key then Err (ErrInvalidKey ''group key reveal doesn't match group key'')
       else Ok ())"

section \<open>External keys\<close>

record ExternalKey =
  ek_xpub :: ExtendedKey
  derivation_path :: "u32 list"

definition HARDENED_KEY_START :: u32 where "HARDENED_KEY_START = 0x80000000"
definition BIP86_PURPOSE :: u32 where "BIP86_PURPOSE = 86 + HARDENED_KEY_START"

definition external_key_validate :: "ExternalKey \<Rightarrow> (unit, AssetError) result" where
  "external_key_validate k =
     (if xk_depth (ek_xpub k) \<noteq> 3 then Err (ErrInvalidKey ''xpub must be derived at depth 3'')
      else if length (derivation_path k) \<noteq> 5 then Err (ErrInvalidKey ''derivation path must have exactly 5 components'')
      else if derivation_path k ! 0 \<noteq> BIP86_PURPOSE then
        Err (ErrInvalidKey ''xpub must be derived from BIP-0086 (Taproot) derivation path'')
      else Ok ())"

text \<open>A child number of the normal range lies below the hardened offset.\<close>

definition external_key_pub_key :: "Secp \<Rightarrow> ExternalKey \<Rightarrow> (bytes, AssetError) result" where
  "external_key_pub_key lib k =
     (let derive = (\<lambda>xpub idx.
            if HARDENED_KEY_START \<le> idx then Err (ErrInvalidKey ''cannot derive hardened child from xpub'')
            else ok_or (ckd_pub lib xpub idx) (ErrInvalidKey ''derivation failed'')) in
      res_bind (external_key_validate k) (\<lambda>_.
      res_bind (derive (ek_xpub k) (derivation_path k ! 3)) (\<lambda>change_key.
      res_bind (derive change_key (derivation_path k ! 4)) (\<lambda>index_key.
        Ok (xk_public_key index_key)))))"

definition new_group_key_v1_from_external ::
  "hash_fun \<Rightarrow> Secp \<Rightarrow> u8 \<Rightarrow> ExternalKey \<Rightarrow> AssetId \<Rightarrow> bytes option \<Rightarrow> (bytes \<times> bytes, AssetError) result" where
  "new_group_key_v1_from_external sha lib version external_key aid custom_root =
     res_bind (map_err (\<lambda>_. ErrInvalidKey ''cannot derive group internal key'') (external_key_pub_key lib external_key))
       (\<lambda>internal_key.
     res_bind (map_err (\<lambda>_. EncodingError ''cannot derive group key reveal tapscript root'')
         (new_group_key_tapscript_root sha lib version aid custom_root)) (\<lambda>(tapscript, _).
     res_bind (map_err (\<lambda>_. ErrInvalidKey ''cannot derive group public key'')
         (group_pub_key_v1 sha lib internal_key tapscript aid)) (\<lambda>gpk.
       if length (gt_root tapscript) \<noteq> 32 then Err (EncodingError ''group key reveal tapscript root invalid'')
       else Ok (gpk, gt_root tapscript))))"

section \<open>Unique script keys\<close>

text \<open>The only derivation method is the Pedersen one.\<close>

datatype ScriptKeyDerivationMethod = DeriveUniquePedersen

definition derive_unique_script_key ::
  "hash_fun \<Rightarrow> Secp \<Rightarrow> SerializedKey \<Rightarrow> AssetId \<Rightarrow> ScriptKeyDerivationMethod \<Rightarrow> (ScriptKey, AssetError) result" where
  "derive_unique_script_key sha lib internal_key aid method =
     (case method of DeriveUniquePedersen \<Rightarrow>
        res_bind (map_err (\<lambda>_. EncodingError ''unable to create non-spendable leaf'')
            (new_non_spendable_script_leaf lib PEDERSEN_VERSION aid)) (\<lambda>(leaf_version, leaf_script).
          let root_hash = tap_leaf_hash sha leaf_version leaf_script in
          res_bind (map_err ErrInvalidKey (taproot_output_key sha lib internal_key root_hash)) (\<lambda>output_x_only.
            Ok \<lparr>sk_pub_key = 0x02 # output_x_only, sk_tweaked = Some \<lparr>tsk_raw_key = internal_key,
              tsk_tweak = root_hash, tsk_key_type = UniquePedersen\<rparr>\<rparr>)))"

end
