(* ===== verification/Proof_File.thy ===== *)
theory Proof_File
  imports Bigsize Mssmt_Proof
begin

text \<open>
  Proof files (\<^verbatim>\<open>tap-primitives/src/proof/file.rs\<close>), the hash-chained sequences of
  transition proofs, and proofs of inclusion of a transaction in a block
  (\<^verbatim>\<open>tap-primitives/src/proof/tx_merkle.rs\<close>, checked;
  \<^verbatim>\<open>tap-onchain/src/proof/merkle.rs\<close>, built). Double SHA-256 is the parameter \<open>sha256d\<close>.
  The individual proofs are opaque bytes here, as they are for the file.
\<close>

section \<open>Files\<close>

datatype ProofError =
    FileTooShort
  | InvalidMagic
  | InvalidProofHash
  | TooManyProofs nat
  | ProofTooLarge nat
  | EmptyFile
  | UnknownTransitionVersion u32
  | InvalidMetaType u8
  | MetaTooLarge nat
  | InvalidDecimalDisplay u32
  | InvalidMetaReveal string
  | ProofDecodingError string
  | GenesisMismatch
  | GenesisPrevOutMismatch
  | MetaHashMismatch
  | InvalidTxMerkleProof
  | InvalidInclusionProof ProofError
  | InvalidExclusionProof string
  | VerificationFailed string
  | HashMismatch
  | OutputIndexInvalid
  | ClaimedOutputScriptMismatch

record HashedProof =
  proof_bytes :: bytes
  proof_hash :: bytes

record ProofFile =
  file_version :: u32
  proofs :: "HashedProof list"

definition FILE_MAGIC_BYTES :: bytes where "FILE_MAGIC_BYTES = [0x54, 0x41, 0x50, 0x46]"
definition FILE_VERSION_V0 :: u32 where "FILE_VERSION_V0 = 0"
definition FILE_MAX_NUM_PROOFS :: nat where "FILE_MAX_NUM_PROOFS = 420000"
definition FILE_MAX_PROOF_SIZE_BYTES :: nat where "FILE_MAX_PROOF_SIZE_BYTES = 128 * 1024 * 1024"

definition compute_proof_hash :: "hash_fun \<Rightarrow> bytes \<Rightarrow> bytes \<Rightarrow> bytes" where
  "compute_proof_hash sha prev_hash bs = sha (prev_hash @ bs)"

definition file_new :: ProofFile where
  "file_new = \<lparr>file_version = FILE_VERSION_V0, proofs = []\<rparr>"

definition last_proof :: "ProofFile \<Rightarrow> HashedProof option" where
  "last_proof f = (if proofs f = [] then None else Some (last (proofs f)))"

definition append_proof :: "hash_fun \<Rightarrow> bytes \<Rightarrow> ProofFile \<Rightarrow> ProofFile" where
  "append_proof sha bs f =
     (let prev_hash = (case last_proof f of Some p \<Rightarrow> proof_hash p | None \<Rightarrow> zeros 32)
      in f\<lparr>proofs := proofs f @ [\<lparr>proof_bytes = bs, proof_hash = compute_proof_hash sha prev_hash bs\<rparr>]\<rparr>)"

definition num_proofs :: "ProofFile \<Rightarrow> nat" where
  "num_proofs f = length (proofs f)"

definition encode_hashed_proof :: "HashedProof \<Rightarrow> bytes" where
  "encode_hashed_proof p =
     encode_bigsize (of_nat (length (proof_bytes p))) @ proof_bytes p @ proof_hash p"

definition file_encode :: "ProofFile \<Rightarrow> bytes" where
  "file_encode f =
     FILE_MAGIC_BYTES @ u32_be (file_version f) @ encode_bigsize (of_nat (length (proofs f)))
     @ concat (map encode_hashed_proof (proofs f))"

text \<open>The loop over the announced number of proofs. The offset never leaves the data: it moves only past
  bytes whose presence was checked (\<open>decode_bigsize\<close> consumes at most what is there).\<close>

primrec decode_proofs ::
  "hash_fun \<Rightarrow> bytes \<Rightarrow> nat \<Rightarrow> nat \<Rightarrow> bytes \<Rightarrow> (HashedProof list, ProofError) result" where
  "decode_proofs sha data 0 offset prev_hash = Ok []"
| "decode_proofs sha data (Suc n) offset prev_hash =
     res_bind (map_err (\<lambda>_. FileTooShort) (decode_bigsize (drop offset data))) (\<lambda>(len, bytes_read).
       let offset = offset + bytes_read; proof_len = unat len in
       if FILE_MAX_PROOF_SIZE_BYTES < proof_len then Err (ProofTooLarge proof_len)
       else if length data < offset + proof_len + 32 then Err FileTooShort
       else
         let bs = take proof_len (drop offset data);
             offset = offset + proof_len;
             hash = take 32 (drop offset data);
             offset = offset + 32
         in if hash \<noteq> compute_proof_hash sha prev_hash bs then Err InvalidProofHash
            else res_bind (decode_proofs sha data n offset hash) (\<lambda>ps.
              Ok (\<lparr>proof_bytes = bs, proof_hash = hash\<rparr> # ps)))"

definition file_decode :: "hash_fun \<Rightarrow> bytes \<Rightarrow> (ProofFile, ProofError) result" where
  "file_decode sha data =
     (if length data < 4 then Err FileTooShort
      else if take 4 data \<noteq> FILE_MAGIC_BYTES then Err InvalidMagic
      else if length data < 8 then Err FileTooShort
      else
        let version = be_u32 (take 4 (drop 4 data)) in
        res_bind (map_err (\<lambda>_. FileTooShort) (decode_bigsize (drop 8 data))) (\<lambda>(count, bytes_read).
          if FILE_MAX_NUM_PROOFS < unat count then Err (TooManyProofs (unat count))
          else res_bind (decode_proofs sha data (unat count) (8 + bytes_read) (zeros 32)) (\<lambda>ps.
            Ok \<lparr>file_version = version, proofs = ps\<rparr>)))"

fun verify_chain_from :: "hash_fun \<Rightarrow> bytes \<Rightarrow> HashedProof list \<Rightarrow> bool" where
  "verify_chain_from sha prev_hash [] = True"
| "verify_chain_from sha prev_hash (p # ps) =
     (if proof_hash p \<noteq> compute_proof_hash sha prev_hash (proof_bytes p) then False
      else verify_chain_from sha (proof_hash p) ps)"

definition verify_hash_chain :: "hash_fun \<Rightarrow> ProofFile \<Rightarrow> bool" where
  "verify_hash_chain sha f = verify_chain_from sha (zeros 32) (proofs f)"

section \<open>Lemmas on files\<close>

lemma verify_chain_snoc:
  "verify_chain_from sha prev (ps @ [p]) \<longleftrightarrow> verify_chain_from sha prev ps
    \<and> proof_hash p = compute_proof_hash sha (if ps = [] then prev else proof_hash (last ps)) (proof_bytes p)"
  by (induction ps arbitrary: prev) auto

lemma append_proof_chain: "verify_hash_chain sha f \<Longrightarrow> verify_hash_chain sha (append_proof sha bs f)"
  by (simp add: verify_hash_chain_def append_proof_def Let_def verify_chain_snoc last_proof_def)

definition small_proofs :: "HashedProof list \<Rightarrow> bool" where
  "small_proofs ps \<longleftrightarrow> (\<forall>p \<in> set ps. length (proof_bytes p) \<le> FILE_MAX_PROOF_SIZE_BYTES)"

lemma decode_proofs_encode:
  assumes "sha_32 sha" "verify_chain_from sha prev ps" "small_proofs ps"
  shows "decode_proofs sha (pre @ concat (map encode_hashed_proof ps) @ rest) (length ps) (length pre) prev
    = Ok ps"
  using assms(2,3)
proof (induction ps arbitrary: pre prev)
  case (Cons p ps)
  let ?l = "of_nat (length (proof_bytes p)) :: u64"
  define tail where "tail = concat (map encode_hashed_proof ps) @ rest"
  have len: "unat ?l = length (proof_bytes p)"
    using Cons.prems(2) by (simp add: small_proofs_def FILE_MAX_PROOF_SIZE_BYTES_def unat_of_nat)
  have hash: "proof_hash p = compute_proof_hash sha prev (proof_bytes p)"
    using Cons.prems(1) by (simp split: if_splits)
  then have hlen: "length (proof_hash p) = 32" using assms(1) by (simp add: compute_proof_hash_def)
  have d: "decode_bigsize (encode_bigsize ?l @ proof_bytes p @ proof_hash p @ tail) = Ok (?l, bigsize_len ?l)"
    by (rule decode_encode_bigsize)
  have IH: "decode_proofs sha ((pre @ encode_hashed_proof p) @ tail)
      (length ps) (length (pre @ encode_hashed_proof p)) (proof_hash p) = Ok ps"
    unfolding tail_def using Cons.prems by (intro Cons.IH) (auto simp: small_proofs_def split: if_splits)
  have eq: "length (pre @ encode_hashed_proof p)
      = length pre + bigsize_len ?l + length (proof_bytes p) + 32"
    using hlen by (simp add: encode_hashed_proof_def)
  have "decode_proofs sha (pre @ encode_hashed_proof p @ tail) (Suc (length ps)) (length pre) prev = Ok (p # ps)"
    using d IH hash Cons.prems(2) len hlen unfolding eq
    by (simp add: encode_hashed_proof_def Let_def small_proofs_def)
  then show ?case by (simp add: tail_def)
qed simp

lemma decode_proofs_sound:
  assumes "decode_proofs sha data n offset prev = Ok ps" "offset \<le> length data"
  shows "length ps = n \<and> verify_chain_from sha prev ps \<and> small_proofs ps
    \<and> (\<exists>rest. drop offset data = concat (map encode_hashed_proof ps) @ rest)"
  using assms
proof (induction n arbitrary: offset prev ps)
  case (Suc n)
  from Suc.prems(1) obtain len k qs where
    d: "decode_bigsize (drop offset data) = Ok (len, k)" and
    small: "unat len \<le> FILE_MAX_PROOF_SIZE_BYTES" and
    room: "offset + k + unat len + 32 \<le> length data" and
    hash: "take 32 (drop (offset + k + unat len) data)
      = compute_proof_hash sha prev (take (unat len) (drop (offset + k) data))" and
    rec: "decode_proofs sha data n (offset + k + unat len + 32) (take 32 (drop (offset + k + unat len) data)) = Ok qs" and
    ps: "ps = \<lparr>proof_bytes = take (unat len) (drop (offset + k) data),
               proof_hash = take 32 (drop (offset + k + unat len) data)\<rparr> # qs"
    by (auto simp: Let_def res_simps not_less split: if_splits)
  from Suc.IH [OF rec room] obtain rest where rest:
    "drop (offset + k + unat len + 32) data = concat (map encode_hashed_proof qs) @ rest"
    and IH: "length qs = n" "small_proofs qs"
      "verify_chain_from sha (take 32 (drop (offset + k + unat len) data)) qs"
    by blast
  have canon: "take k (drop offset data) = encode_bigsize len" using decode_bigsize_canonical [OF d] by blast
  have "drop offset data = encode_bigsize len @ drop (offset + k) data"
    using canon by (metis drop_split)
  also have "drop (offset + k) data = take (unat len) (drop (offset + k) data) @ drop (offset + k + unat len) data"
    by (rule drop_split)
  also have "drop (offset + k + unat len) data = take 32 (drop (offset + k + unat len) data)
      @ drop (offset + k + unat len + 32) data"
    by (rule drop_split)
  finally have "drop offset data = encode_hashed_proof (hd ps) @ concat (map encode_hashed_proof qs) @ rest"
    using room ps rest by (simp add: encode_hashed_proof_def)
  then show ?case
    using IH ps hash small room by (auto simp: small_proofs_def)
qed (simp add: small_proofs_def)

section \<open>The chain binds the proofs\<close>

fun chain_hash :: "hash_fun \<Rightarrow> bytes list \<Rightarrow> bytes" where
  "chain_hash sha [] = zeros 32"
| "chain_hash sha (b # bs) = sha (chain_hash sha bs @ b)"

fun chain_preimages :: "hash_fun \<Rightarrow> bytes list \<Rightarrow> bytes list" where
  "chain_preimages sha [] = []"
| "chain_preimages sha (b # bs) = (chain_hash sha bs @ b) # chain_preimages sha bs"

text \<open>The lists are newest first, as the hash is computed.\<close>

lemma last_hash_chain:
  "verify_chain_from sha (zeros 32) ps \<Longrightarrow> ps \<noteq> [] \<Longrightarrow>
    proof_hash (last ps) = chain_hash sha (rev (map proof_bytes ps))"
proof (induction ps rule: rev_induct)
  case (snoc p ps)
  then show ?case
    by (cases "ps = []") (auto simp: verify_chain_snoc compute_proof_hash_def split: if_splits)
qed simp

lemma length_chain_hash: "sha_32 sha \<Longrightarrow> length (chain_hash sha bs) = 32"
  by (cases bs) simp_all

lemma chain_hash_binding:
  assumes "sha_32 sha" "chain_hash sha bs = chain_hash sha cs"
  shows "bs = cs \<or> collision sha (chain_preimages sha bs) (chain_preimages sha cs)
    \<or> (\<exists>x \<in> set (chain_preimages sha bs @ chain_preimages sha cs). sha x = zeros 32)"
  using assms(2)
proof (induction bs arbitrary: cs)
  case Nil
  then show ?case by (cases cs) auto
next
  case (Cons b bs)
  show ?case
  proof (cases cs)
    case Nil
    with Cons.prems show ?thesis by auto
  next
    case cs: (Cons c cs')
    show ?thesis
    proof (cases "chain_hash sha bs @ b = chain_hash sha cs' @ c")
      case True
      then have "b = c" "chain_hash sha bs = chain_hash sha cs'"
        using length_chain_hash [OF assms(1)] by (simp_all add: append_eq_append_conv_length)
      with Cons.IH [of cs'] cs show ?thesis by (auto intro: collision_Cons)
    next
      case False
      with Cons.prems cs show ?thesis by (auto intro: collision_hd)
    qed
  qed
qed

section \<open>Transactions in blocks\<close>

record TxMerkleProof =
  tm_nodes :: "bytes list"
  tm_bits :: "bool list"

fun tx_merkle_up :: "hash_fun \<Rightarrow> bytes \<Rightarrow> bytes list \<Rightarrow> bool list \<Rightarrow> bytes" where
  "tx_merkle_up sha256d current (sibling # nodes) (is_left # bits) =
     tx_merkle_up sha256d
       (if is_left then sha256d (current @ sibling) else sha256d (sibling @ current)) nodes bits"
| "tx_merkle_up sha256d current nodes bits = current"

definition tx_merkle_verify :: "hash_fun \<Rightarrow> TxMerkleProof \<Rightarrow> bytes \<Rightarrow> bytes \<Rightarrow> bool" where
  "tx_merkle_verify sha256d p tx_hash merkle_root =
     (if length (tm_nodes p) \<noteq> length (tm_bits p) then False
      else tx_merkle_up sha256d tx_hash (tm_nodes p) (tm_bits p) = merkle_root)"

text \<open>One level of the tree: the last entry of an odd level is duplicated, then pairs are hashed.\<close>

definition pad_level :: "bytes list \<Rightarrow> bytes list" where
  "pad_level level = (if length level mod 2 \<noteq> 0 then level @ [last level] else level)"

fun hash_pairs :: "hash_fun \<Rightarrow> bytes list \<Rightarrow> bytes list" where
  "hash_pairs sha256d (a # b # level) = sha256d (a @ b) # hash_pairs sha256d level"
| "hash_pairs sha256d level = []"

lemma length_hash_pairs [simp]: "length (hash_pairs sha256d level) = length level div 2"
  by (induction sha256d level rule: hash_pairs.induct) simp_all

lemma length_pad_level: "length (pad_level level) = 2 * ((length level + 1) div 2)"
  unfolding pad_level_def by (auto, presburger+)

lemma level_shrinks: "1 < length level \<Longrightarrow> length (hash_pairs sha256d (pad_level level)) < length level"
  by (simp add: length_pad_level)

function merkle_loop :: "hash_fun \<Rightarrow> bytes list \<Rightarrow> nat \<Rightarrow> bytes list \<times> bool list" where
  "merkle_loop sha256d level index =
     (if 1 < length level then
        let level = pad_level level;
            sibling_index = (if index mod 2 = 0 then index + 1 else index - 1);
            (nodes, bits) = merkle_loop sha256d (hash_pairs sha256d level) (index div 2)
        in (level ! sibling_index # nodes, (index mod 2 = 0) # bits)
      else ([], []))"
  by pat_completeness auto
termination
  by (relation "measure (\<lambda>(sha256d, level, index). length level)") (use level_shrinks in auto)

declare merkle_loop.simps [simp del]

definition build_tx_merkle_proof :: "hash_fun \<Rightarrow> bytes list \<Rightarrow> nat \<Rightarrow> TxMerkleProof option" where
  "build_tx_merkle_proof sha256d tx_hashes tx_index =
     (if tx_hashes = [] \<or> length tx_hashes \<le> tx_index then None
      else if length tx_hashes = 1 then Some \<lparr>tm_nodes = [], tm_bits = []\<rparr>
      else let (nodes, bits) = merkle_loop sha256d tx_hashes tx_index
           in Some \<lparr>tm_nodes = nodes, tm_bits = bits\<rparr>)"

function root_loop :: "hash_fun \<Rightarrow> bytes list \<Rightarrow> bytes list" where
  "root_loop sha256d level =
     (if 1 < length level then root_loop sha256d (hash_pairs sha256d (pad_level level)) else level)"
  by pat_completeness auto
termination
  by (relation "measure (\<lambda>(sha256d, level). length level)") (use level_shrinks in auto)

declare root_loop.simps [simp del]

definition compute_merkle_root :: "hash_fun \<Rightarrow> bytes list \<Rightarrow> bytes" where
  "compute_merkle_root sha256d tx_hashes =
     (if tx_hashes = [] then zeros 32
      else if length tx_hashes = 1 then tx_hashes ! 0
      else root_loop sha256d tx_hashes ! 0)"

lemma nth_hash_pairs:
  "i < length level div 2 \<Longrightarrow> hash_pairs sha256d level ! i = sha256d (level ! (2 * i) @ level ! (2 * i + 1))"
proof (induction sha256d level arbitrary: i rule: hash_pairs.induct)
  case (1 sha256d a b level)
  then show ?case by (cases i) simp_all
qed simp_all

lemma nth_pad_level: "i < length level \<Longrightarrow> pad_level level ! i = level ! i"
  by (simp add: pad_level_def nth_append)

text \<open>Climbing from a leaf with the recorded siblings ends at the root of the level.\<close>

lemma merkle_loop_correct:
  assumes "index < length level" "merkle_loop sha256d level index = (nodes, bits)"
  shows "length nodes = length bits \<and> tx_merkle_up sha256d (level ! index) nodes bits = root_loop sha256d level ! 0"
  using assms
proof (induction sha256d level index arbitrary: nodes bits rule: merkle_loop.induct)
  case (1 sha256d level index)
  show ?case
  proof (cases "1 < length level")
    case True
    define padded where "padded = pad_level level"
    define sib where "sib = (if index mod 2 = 0 then index + 1 else index - 1)"
    obtain ns bs where rec: "merkle_loop sha256d (hash_pairs sha256d padded) (index div 2) = (ns, bs)"
      by fastforce
    have nb: "nodes = padded ! sib # ns" "bits = (index mod 2 = 0) # bs"
      using 1(3) True rec by (auto simp: merkle_loop.simps [of _ level] Let_def padded_def sib_def)
    have len: "length padded div 2 = (length level + 1) div 2" by (simp add: padded_def length_pad_level)
    have lt: "index div 2 < length padded div 2"
      unfolding len using 1(2) by presburger
    have "hash_pairs sha256d padded ! (index div 2)
        = sha256d (padded ! (2 * (index div 2)) @ padded ! (2 * (index div 2) + 1))"
      by (rule nth_hash_pairs [OF lt])
    also have "\<dots> = (if index mod 2 = 0 then sha256d (padded ! index @ padded ! sib)
        else sha256d (padded ! sib @ padded ! index))"
      unfolding sib_def by (cases "index mod 2 = 0") (simp_all add: minus_mod_eq_mult_div [symmetric] Suc_diff_le)
    also have "padded ! index = level ! index" using 1(2) by (simp add: padded_def nth_pad_level)
    finally have step: "hash_pairs sha256d padded ! (index div 2)
        = (if index mod 2 = 0 then sha256d (level ! index @ padded ! sib)
           else sha256d (padded ! sib @ level ! index))" .
    have "length ns = length bs \<and> tx_merkle_up sha256d (hash_pairs sha256d padded ! (index div 2)) ns bs
        = root_loop sha256d (hash_pairs sha256d padded) ! 0"
      using 1(1) [OF True padded_def sib_def _ rec] lt rec by simp
    then show ?thesis
      using nb step True root_loop.simps [of sha256d level, folded padded_def]
      by (simp add: if_distrib cong: if_cong)
  next
    case False
    then have "index = 0" using 1(2) by simp
    with False 1(3) show ?thesis
      by (simp add: merkle_loop.simps [of _ level] root_loop.simps [of _ level])
  qed
qed

lemma file_decode_encode:
  assumes "sha_32 sha" "verify_hash_chain sha f" "num_proofs f \<le> FILE_MAX_NUM_PROOFS"
    and "\<forall>p \<in> set (proofs f). length (proof_bytes p) \<le> FILE_MAX_PROOF_SIZE_BYTES"
  shows "file_decode sha (file_encode f @ rest) = Ok f"
proof -
  let ?n = "of_nat (length (proofs f)) :: u64"
  let ?pre = "FILE_MAGIC_BYTES @ u32_be (file_version f) @ encode_bigsize ?n"
  have n: "unat ?n = length (proofs f)"
    using assms(3) by (simp add: num_proofs_def FILE_MAX_NUM_PROOFS_def unat_of_nat)
  have "decode_proofs sha (?pre @ concat (map encode_hashed_proof (proofs f)) @ rest) (length (proofs f))
      (length ?pre) (zeros 32) = Ok (proofs f)"
    using assms by (intro decode_proofs_encode) (simp_all add: verify_hash_chain_def small_proofs_def)
  moreover have "decode_bigsize (encode_bigsize ?n @ concat (map encode_hashed_proof (proofs f)) @ rest)
      = Ok (?n, bigsize_len ?n)"
    by (rule decode_encode_bigsize)
  ultimately show ?thesis
    using assms(3) n
    by (simp add: file_decode_def file_encode_def FILE_MAGIC_BYTES_def num_proofs_def)
qed

section \<open>Properties\<close>

text \<open>Decoding a proof file inverts encoding it: a file whose hash chain is intact, with at most 420,000 proofs of at
  most 128 MiB each, is read back unchanged, also when other bytes follow it.\<close>

theorem proof_file_roundtrip:
  assumes "sha_32 sha" "verify_hash_chain sha f" "num_proofs f \<le> FILE_MAX_NUM_PROOFS"
    and "\<forall>p \<in> set (proofs f). length (proof_bytes p) \<le> FILE_MAX_PROOF_SIZE_BYTES"
  shows "file_decode sha (file_encode f @ rest) = Ok f"
  by (rule file_decode_encode [OF assms])

theorem proof_file_roundtrip_witness:
  "file_decode (\<lambda>_. zeros 32) (file_encode (append_proof (\<lambda>_. zeros 32) [1, 2]
      (append_proof (\<lambda>_. zeros 32) [9] file_new)) @ [5])
    = Ok (append_proof (\<lambda>_. zeros 32) [1, 2] (append_proof (\<lambda>_. zeros 32) [9] file_new))"
  by (rule proof_file_roundtrip)
    (simp_all add: append_proof_def file_new_def last_proof_def Let_def verify_hash_chain_def sha_32_def
      compute_proof_hash_def num_proofs_def FILE_MAX_NUM_PROOFS_def FILE_MAX_PROOF_SIZE_BYTES_def)

text \<open>Whatever decodes as a proof file is the encoding of that file, followed by the unread rest, and its
  hash chain is intact; appending a proof keeps it intact.\<close>

theorem proof_file_decode_sound:
  assumes "file_decode sha data = Ok f"
  shows "verify_hash_chain sha f \<and> verify_hash_chain sha (append_proof sha bs f)
    \<and> num_proofs f \<le> FILE_MAX_NUM_PROOFS \<and> (\<exists>rest. data = file_encode f @ rest)"
proof -
  from assms obtain count k where
    magic: "4 \<le> length data" "take 4 data = FILE_MAGIC_BYTES" "8 \<le> length data" and
    d: "decode_bigsize (drop 8 data) = Ok (count, k)" and
    cnt: "unat count \<le> FILE_MAX_NUM_PROOFS" and
    rec: "decode_proofs sha data (unat count) (8 + k) (zeros 32) = Ok (proofs f)" and
    ver: "file_version f = be_u32 (take 4 (drop 4 data))"
    by (auto simp: file_decode_def Let_def res_simps not_less split: if_splits)
  have k: "8 + k \<le> length data" using decode_bigsize_bounds [OF d] magic(3) by (simp add: le_diff_conv2)
  from decode_proofs_sound [OF rec k] obtain rest where
    p: "length (proofs f) = unat count" "verify_chain_from sha (zeros 32) (proofs f)"
    and rest: "drop (8 + k) data = concat (map encode_hashed_proof (proofs f)) @ rest" by blast
  have canon: "take k (drop 8 data) = encode_bigsize count" using decode_bigsize_canonical [OF d] by blast
  have "data = take 4 data @ drop 4 data" by simp
  also have "drop 4 data = take 4 (drop 4 data) @ drop 8 data" using drop_split [of 4 data 4] by simp
  also have "take 4 (drop 4 data) = u32_be (file_version f)"
    using magic(3) by (simp add: ver u32_be_be)
  also have "drop 8 data = encode_bigsize count @ drop (8 + k) data" using canon by (metis drop_split)
  finally have "data = file_encode f @ rest"
    using magic(2) rest p(1) by (simp add: file_encode_def)
  moreover have "verify_hash_chain sha f" using p(2) by (simp add: verify_hash_chain_def)
  ultimately show ?thesis
    using append_proof_chain cnt p(1) by (auto simp: num_proofs_def)
qed

theorem proof_file_decode_sound_witness:
  "\<exists>rest. file_encode file_new @ [7] = file_encode file_new @ rest"
proof -
  have "file_decode (\<lambda>_. zeros 32) (file_encode file_new @ [7]) = Ok file_new"
    by (simp add: file_decode_def file_encode_def file_new_def FILE_MAGIC_BYTES_def FILE_VERSION_V0_def
        encode_bigsize_def decode_bigsize_def FILE_MAX_NUM_PROOFS_def)
  from proof_file_decode_sound [OF this] show ?thesis by blast
qed

text \<open>C22: the last hash of a file commits to its whole history. If two files with intact chains end in the same hash,
  they contain the same proofs in the same order, or the files exhibit two different inputs with the same SHA-256
  hash, or an input whose hash is all zeros (the hash that starts every chain).\<close>

theorem proof_file_last_hash_binding:
  assumes "sha_32 sha" "verify_hash_chain sha f" "verify_hash_chain sha g"
    and "last_proof f = Some p" "last_proof g = Some q" "proof_hash p = proof_hash q"
  shows "map proof_bytes (proofs f) = map proof_bytes (proofs g)
    \<or> collision sha (chain_preimages sha (rev (map proof_bytes (proofs f))))
        (chain_preimages sha (rev (map proof_bytes (proofs g))))
    \<or> (\<exists>x \<in> set (chain_preimages sha (rev (map proof_bytes (proofs f)))
          @ chain_preimages sha (rev (map proof_bytes (proofs g)))). sha x = zeros 32)"
proof -
  have "chain_hash sha (rev (map proof_bytes (proofs f))) = chain_hash sha (rev (map proof_bytes (proofs g)))"
    using assms(2-6) last_hash_chain [of sha "proofs f"] last_hash_chain [of sha "proofs g"]
    by (auto simp: verify_hash_chain_def last_proof_def split: if_splits)
  from chain_hash_binding [OF assms(1) this] show ?thesis by simp
qed

theorem proof_file_last_hash_binding_witness:
  "collision (\<lambda>_. 1 # zeros 31) (chain_preimages (\<lambda>_. 1 # zeros 31) [[9]])
     (chain_preimages (\<lambda>_. 1 # zeros 31) [[8]])"
proof -
  let ?h = "\<lambda>_ :: bytes. 1 # zeros 31"
  let ?f = "append_proof ?h [9] file_new" and ?g = "append_proof ?h [8] file_new"
  have bytes: "map proof_bytes (proofs ?f) = [[9]]" "map proof_bytes (proofs ?g) = [[8]]"
    by (simp_all add: append_proof_def file_new_def Let_def)
  have "map proof_bytes (proofs ?f) = map proof_bytes (proofs ?g)
    \<or> collision ?h (chain_preimages ?h (rev (map proof_bytes (proofs ?f))))
        (chain_preimages ?h (rev (map proof_bytes (proofs ?g))))
    \<or> (\<exists>x \<in> set (chain_preimages ?h (rev (map proof_bytes (proofs ?f)))
          @ chain_preimages ?h (rev (map proof_bytes (proofs ?g)))). ?h x = zeros 32)"
    by (rule proof_file_last_hash_binding [where p = "last (proofs ?f)" and q = "last (proofs ?g)"])
      (simp_all add: append_proof_def file_new_def last_proof_def Let_def verify_hash_chain_def sha_32_def
        compute_proof_hash_def)
  moreover have "hd (1 # zeros 31) \<noteq> hd (zeros 32)" by (simp add: zeros_def hd_replicate)
  then have "1 # zeros 31 \<noteq> zeros 32" by metis
  ultimately show ?thesis unfolding bytes by simp
qed

lemma built_proof_verifies:
  assumes "i < length txs"
  shows "\<exists>p. build_tx_merkle_proof sha256d txs i = Some p
    \<and> tx_merkle_verify sha256d p (txs ! i) (compute_merkle_root sha256d txs)"
proof (cases "length txs = 1")
  case True
  with assms show ?thesis
    by (auto simp: build_tx_merkle_proof_def tx_merkle_verify_def compute_merkle_root_def)
next
  case False
  obtain nodes bits where m: "merkle_loop sha256d txs i = (nodes, bits)" by fastforce
  from merkle_loop_correct [OF assms m] m False assms show ?thesis
    by (auto simp: build_tx_merkle_proof_def tx_merkle_verify_def compute_merkle_root_def)
qed

text \<open>A Merkle proof built for a transaction of a block verifies against the block's root. For every position inside a
  non-empty list of transaction hashes, of any length, the proof exists, and checking it with the transaction's hash
  succeeds for the computed Merkle root.\<close>

theorem built_tx_merkle_proof_verifies:
  assumes "i < length txs"
  shows "\<exists>p. build_tx_merkle_proof sha256d txs i = Some p
    \<and> tx_merkle_verify sha256d p (txs ! i) (compute_merkle_root sha256d txs)"
  using assms by (rule built_proof_verifies)

theorem built_tx_merkle_proof_verifies_witness:
  "\<exists>p. build_tx_merkle_proof rev [[1], [2], [3]] 2 = Some p
    \<and> tx_merkle_verify rev p [3] (compute_merkle_root rev [[1], [2], [3]])"
  using built_tx_merkle_proof_verifies [of 2 "[[1], [2], [3]]" rev] by simp

end
