(* ===== verification/Proof_Types.thy ===== *)
theory Proof_Types
  imports Group_Key Proof_File
begin

text \<open>
  The data of a transition proof (\<^verbatim>\<open>tap-primitives/src/proof/types.rs\<close>) and metadata reveals
  (\<^verbatim>\<open>proof/meta.rs\<close>). A bitcoin transaction is a record of its fields; its serialisation and
  identifier are operations of the bitcoin crate, in the record \<open>TxLib\<close>, together with the JSON parser and the
  character classification the checks use. Strings are their UTF-8 bytes.
\<close>

section \<open>Proofs\<close>

datatype TransitionVersion = TransitionV0 | TransitionV1

fun transition_version_to_u32 :: "TransitionVersion \<Rightarrow> u32" where
  "transition_version_to_u32 TransitionV0 = 0"
| "transition_version_to_u32 TransitionV1 = 1"

definition transition_version_from_u32 :: "u32 \<Rightarrow> (TransitionVersion, ProofError) result" where
  "transition_version_from_u32 v =
     (if v = 0 then Ok TransitionV0 else if v = 1 then Ok TransitionV1 else Err (UnknownTransitionVersion v))"

type_synonym BlockHeader = bytes

definition header_merkle_root :: "BlockHeader \<Rightarrow> bytes" where
  "header_merkle_root h = take 32 (drop 36 h)"

definition block_hash :: "hash_fun \<Rightarrow> BlockHeader \<Rightarrow> bytes" where
  "block_hash sha h = sha (sha h)"

record TapscriptProof =
  tap_preimage_1 :: "TapscriptPreimage option"
  tap_preimage_2 :: "TapscriptPreimage option"
  bip86 :: bool
  ts_unknown_odd_types :: "(u64 \<times> bytes) list"

record TaprootProof =
  tr_output_index :: u32
  tr_internal_key :: SerializedKey
  tr_commitment_proof :: "CommitmentProof option"
  tr_tapscript_proof :: "TapscriptProof option"
  tr_unknown_odd_types :: "(u64 \<times> bytes) list"

record AnchorTxIn = TxIn +
  script_sig :: bytes

record AnchorTx =
  atx_version :: u32
  atx_lock_time :: u32
  atx_input :: "AnchorTxIn list"
  atx_output :: "TxOut list"

definition anchor_tx_default :: AnchorTx where
  "anchor_tx_default = \<lparr>atx_version = 0, atx_lock_time = 0, atx_input = [], atx_output = []\<rparr>"

text \<open>The general categories of Unicode characters, as the crate \<^verbatim>\<open>unicode-general-category\<close> names them; those the code never mentions (control, format, separators and so on) are \<open>OtherCategory\<close>.\<close>

datatype GeneralCategory = UppercaseLetter | LowercaseLetter | TitlecaseLetter | ModifierLetter | OtherLetter
  | NonspacingMark | SpacingMark | EnclosingMark | DecimalNumber | LetterNumber | OtherNumber
  | ConnectorPunctuation | DashPunctuation | OpenPunctuation | ClosePunctuation | InitialPunctuation
  | FinalPunctuation | OtherPunctuation | MathSymbol | CurrencySymbol | ModifierSymbol | OtherSymbol
  | OtherCategory

record TxLib =
  tx_deserialize :: "bytes \<Rightarrow> AnchorTx option"
  tx_serialize :: "AnchorTx \<Rightarrow> bytes"
  compute_txid :: "AnchorTx \<Rightarrow> bytes"
  json_valid :: "bytes \<Rightarrow> bool"
  get_general_category :: "nat \<Rightarrow> GeneralCategory"

definition anchor_tx_from_bytes :: "TxLib \<Rightarrow> bytes \<Rightarrow> (AnchorTx, ProofError) result" where
  "anchor_tx_from_bytes txl bs = ok_or (tx_deserialize txl bs) (ProofDecodingError ''invalid anchor transaction'')"

section \<open>Metadata\<close>

datatype MetaType = Opaque | Json

fun meta_type_to_u8 :: "MetaType \<Rightarrow> u8" where
  "meta_type_to_u8 Opaque = 0"
| "meta_type_to_u8 Json = 1"

definition meta_type_from_u8 :: "u8 \<Rightarrow> (MetaType, ProofError) result" where
  "meta_type_from_u8 v = (if v = 0 then Ok Opaque else if v = 1 then Ok Json else Err (InvalidMetaType v))"

definition META_DATA_MAX_SIZE_BYTES :: nat where "META_DATA_MAX_SIZE_BYTES = 1024 * 1024"
definition MAX_DEC_DISPLAY :: u32 where "MAX_DEC_DISPLAY = 12"
definition MAX_NUM_CANONICAL_UNIVERSE_URLS :: nat where "MAX_NUM_CANONICAL_UNIVERSE_URLS = 16"
definition MAX_CANONICAL_UNIVERSE_URL_LENGTH :: nat where "MAX_CANONICAL_UNIVERSE_URL_LENGTH = 255"

record MetaReveal =
  meta_type :: MetaType
  meta_data :: bytes
  decimal_display :: "u32 option"
  universe_commitments :: bool
  canonical_universes :: "bytes list option"
  delegation_key :: "SerializedKey option"
  mr_unknown_odd_types :: "(u64 \<times> bytes) list"

definition meta_default :: MetaReveal where
  "meta_default = \<lparr>meta_type = Opaque, meta_data = [], decimal_display = None, universe_commitments = False,
     canonical_universes = None, delegation_key = None, mr_unknown_odd_types = []\<rparr>"

definition meta_new_opaque :: "bytes \<Rightarrow> MetaReveal" where
  "meta_new_opaque data = meta_default\<lparr>meta_data := data\<rparr>"

definition encode_urls :: "bytes list \<Rightarrow> bytes" where
  "encode_urls urls =
     (if urls \<noteq> [] then encode_bigsize (of_nat (length urls))
        @ concat (map (\<lambda>url. encode_bigsize (of_nat (length url)) @ url) urls)
      else [])"

definition meta_encode :: "MetaReveal \<Rightarrow> bytes" where
  "meta_encode m =
     (let s = tlv_push [] (tlv_u8 0 (meta_type_to_u8 (meta_type m)));
          s = tlv_push s (tlv_bytes 2 (meta_data m));
          s = push_opt s 5 (map_option u32_be (decimal_display m));
          s = (if universe_commitments m then tlv_push s (tlv_u8 7 1) else s);
          s = push_opt s 9 (map_option encode_urls (canonical_universes m));
          s = push_opt s 11 (delegation_key m);
          s = foldl (\<lambda>s (t, v). tlv_push s (tlv_bytes t v)) s (mr_unknown_odd_types m)
      in tlv_encode s)"

definition meta_reveal_hash :: "hash_fun \<Rightarrow> MetaReveal \<Rightarrow> bytes" where
  "meta_reveal_hash sha m = sha (meta_encode m)"

text \<open>The loop of \<^verbatim>\<open>decode_canonical_universes\<close>; the offset stays within the value.\<close>

fun decode_urls_loop :: "nat \<Rightarrow> bytes \<Rightarrow> nat \<Rightarrow> bytes list \<Rightarrow> (bytes list, ProofError) result" where
  "decode_urls_loop 0 val offset urls = Ok urls"
| "decode_urls_loop (Suc n) val offset urls =
     res_bind (map_err (\<lambda>_. InvalidMetaReveal ''length'') (decode_bigsize (drop offset val))) (\<lambda>(len, consumed).
       let offset = offset + consumed; len = unat len in
       if MAX_CANONICAL_UNIVERSE_URL_LENGTH < len then Err (InvalidMetaReveal ''canonical universe URL too long'')
       else if length val < offset + len then Err (InvalidMetaReveal ''truncated canonical universe URL'')
       else
         let url = take len (drop offset val) in
         if \<not> utf8_valid url then Err (InvalidMetaReveal ''utf8'')
         else decode_urls_loop n val (offset + len) (urls @ [url]))"

definition decode_canonical_universes :: "bytes \<Rightarrow> (bytes list option, ProofError) result" where
  "decode_canonical_universes val =
     (if val = [] then Ok None
      else res_bind (map_err (\<lambda>_. InvalidMetaReveal ''count'') (decode_bigsize val)) (\<lambda>(count, offset).
        if MAX_NUM_CANONICAL_UNIVERSE_URLS < unat count then
          Err (InvalidMetaReveal ''too many canonical universe URLs'')
        else map_ok Some (decode_urls_loop (unat count) val offset [])))"

text \<open>The accumulator of the record loop carries \<^verbatim>\<open>have_type\<close> and \<^verbatim>\<open>have_data\<close> beside the reveal.\<close>

definition meta_field ::
  "(SerializedKey \<Rightarrow> bool) \<Rightarrow> TlvRecord \<Rightarrow> MetaReveal \<times> bool \<times> bool \<Rightarrow> (MetaReveal \<times> bool \<times> bool, ProofError) result" where
  "meta_field on_curve r acc =
     (let t = type_num r; v = tlv_value r; (m, have_type, have_data) = acc in
      if t = 0 then
        if length v \<noteq> 1 then Err (InvalidMetaReveal ''meta type must be 1 byte'')
        else map_ok (\<lambda>ty. (m\<lparr>meta_type := ty\<rparr>, True, have_data)) (meta_type_from_u8 (v ! 0))
      else if t = 2 then
        if META_DATA_MAX_SIZE_BYTES < length v then Err (MetaTooLarge (length v))
        else Ok (m\<lparr>meta_data := v\<rparr>, have_type, True)
      else if t = 5 then
        if v = [] then Ok (m\<lparr>decimal_display := None\<rparr>, have_type, have_data)
        else if length v = 4 then Ok (m\<lparr>decimal_display := Some (be_u32 v)\<rparr>, have_type, have_data)
        else Err (InvalidMetaReveal ''decimal display must be 4 bytes'')
      else if t = 7 then
        if length v \<noteq> 1 then Err (InvalidMetaReveal ''universe commitments must be 1 byte'')
        else Ok (m\<lparr>universe_commitments := (v ! 0 = 1)\<rparr>, have_type, have_data)
      else if t = 9 then
        map_ok (\<lambda>urls. (m\<lparr>canonical_universes := urls\<rparr>, have_type, have_data)) (decode_canonical_universes v)
      else if t = 11 then
        if v = [] then Ok (m\<lparr>delegation_key := None\<rparr>, have_type, have_data)
        else if length v = 33 then
          if \<not> validate_on_curve on_curve v then Err (InvalidMetaReveal ''delegation key'')
          else Ok (m\<lparr>delegation_key := Some v\<rparr>, have_type, have_data)
        else Err (InvalidMetaReveal ''delegation key must be 33 bytes'')
      else if t mod 2 = 0 then Err (InvalidMetaReveal ''unknown even TLV type'')
      else Ok (m\<lparr>mr_unknown_odd_types := btree_insert t v (mr_unknown_odd_types m)\<rparr>, have_type, have_data))"

definition meta_decode :: "(SerializedKey \<Rightarrow> bool) \<Rightarrow> bytes \<Rightarrow> (MetaReveal, ProofError) result" where
  "meta_decode on_curve data =
     res_bind (map_err (\<lambda>_. InvalidMetaReveal ''tlv'') (tlv_decode data)) (\<lambda>s.
     res_bind (fold_records (meta_field on_curve) s (meta_default, False, False)) (\<lambda>(m, have_type, have_data).
       if \<not> have_type \<or> \<not> have_data then Err (InvalidMetaReveal ''missing required meta reveal records'')
       else Ok m))"

text \<open>\<^verbatim>\<open>url.contains("://")\<close>.\<close>

fun contains_bytes :: "bytes \<Rightarrow> bytes \<Rightarrow> bool" where
  "contains_bytes pat [] = (pat = [])"
| "contains_bytes pat (b # bs) = (take (length pat) (b # bs) = pat \<or> contains_bytes pat bs)"

definition meta_validate :: "TxLib \<Rightarrow> MetaReveal \<Rightarrow> (unit, ProofError) result" where
  "meta_validate txl m =
     (if meta_data m = [] then Err (InvalidMetaReveal ''meta data missing'')
      else if META_DATA_MAX_SIZE_BYTES < length (meta_data m) then Err (MetaTooLarge (length (meta_data m)))
      else if meta_type m = Json \<and> \<not> json_valid txl (meta_data m) then Err (InvalidMetaReveal ''invalid JSON'')
      else
        res_bind (case decimal_display m of
            Some dd \<Rightarrow> if MAX_DEC_DISPLAY < dd then Err (InvalidDecimalDisplay dd) else Ok ()
          | None \<Rightarrow> Ok ()) (\<lambda>_.
        res_bind (case canonical_universes m of
            Some urls \<Rightarrow>
              if urls = [] then Err (InvalidMetaReveal ''canonical universes must not be empty'')
              else if MAX_NUM_CANONICAL_UNIVERSE_URLS < length urls then
                Err (InvalidMetaReveal ''too many canonical universe URLs'')
              else if \<exists>url \<in> set urls. url = [] \<or> MAX_CANONICAL_UNIVERSE_URL_LENGTH < length url
                        \<or> \<not> contains_bytes (ascii ''://'') url then
                Err (InvalidMetaReveal ''invalid canonical universe URL'')
              else Ok ()
          | None \<Rightarrow> Ok ()) (\<lambda>_.
        if universe_commitments m \<and> delegation_key m = None then
          Err (InvalidMetaReveal ''universe commitments require a delegation key'')
        else Ok ())))"

section \<open>The proof\<close>

record TransitionProof =
  version :: TransitionVersion
  prev_out :: OutPoint
  block_header :: BlockHeader
  block_height :: u32
  anchor_tx :: AnchorTx
  tx_merkle_proof :: TxMerkleProof
  asset :: Asset
  inclusion_proof :: TaprootProof
  exclusion_proofs :: "TaprootProof list"
  split_root_proof :: "TaprootProof option"
  meta_reveal :: "MetaReveal option"
  additional_inputs :: "ProofFile list"
  challenge_witness :: "bytes list option"
  genesis_reveal :: "Genesis option"
  group_key_reveal :: "GroupKeyReveal option"
  alt_leaves :: "Asset list"
  pr_unknown_odd_types :: "(u64 \<times> bytes) list"

definition proof_out_point :: "TxLib \<Rightarrow> TransitionProof \<Rightarrow> OutPoint" where
  "proof_out_point txl p = \<lparr>op_txid = compute_txid txl (anchor_tx p), op_vout = tr_output_index (inclusion_proof p)\<rparr>"

definition is_version_v1 :: "TransitionProof \<Rightarrow> bool" where
  "is_version_v1 p \<longleftrightarrow> version p = TransitionV1"

record AssetSnapshot =
  snap_asset :: Asset
  snap_out_point :: OutPoint
  anchor_block_hash :: bytes
  anchor_block_height :: u32
  snap_anchor_tx :: AnchorTx
  snap_output_index :: u32
  snap_internal_key :: SerializedKey
  script_root :: "TapCommitment option"
  tapscript_sibling :: "TapscriptPreimage option"
  split_asset :: bool
  snap_meta_reveal :: "MetaReveal option"

end
