(* ===== verification/Proof_Codec.thy ===== *)
theory Proof_Codec
  imports Proof_Types
begin

text \<open>
  The wire form of transition proofs: \<^verbatim>\<open>tap-primitives/src/proof/encode.rs\<close> and \<^verbatim>\<open>decode.rs\<close>. The
  records of a stream fill the fields of the structure they belong to (\<open>fold_records\<close>); where the code
  collects fields in local variables before it builds the structure, the accumulator is a record of these variables.
\<close>

unbundle bit_operations_syntax

section \<open>Encoding\<close>

definition PROOF_MAGIC_BYTES :: bytes where "PROOF_MAGIC_BYTES = [0x54, 0x41, 0x50, 0x50]"

definition push_unknown :: "(u64 \<times> bytes) list \<Rightarrow> TlvStream \<Rightarrow> TlvStream" where
  "push_unknown us s = foldl (\<lambda>s (t, v). tlv_push s (tlv_bytes t v)) s us"

definition encode_tx_merkle_proof :: "TxMerkleProof \<Rightarrow> bytes" where
  "encode_tx_merkle_proof p =
     encode_bigsize (of_nat (length (tm_nodes p))) @ concat (tm_nodes p)
     @ pack_bits_loop [0..<length (tm_bits p)] (tm_bits p) (zeros ((length (tm_bits p) + 7) div 8))"

fun encode_group_key_reveal :: "GroupKeyReveal \<Rightarrow> bytes" where
  "encode_group_key_reveal (RevealV0 v0) = v0_raw_key v0 @ v0_tapscript_root v0"
| "encode_group_key_reveal (RevealV1 v1) =
     (let s = tlv_push [] (tlv_u8 0 (v1_version v1));
          s = tlv_push s (tlv_bytes 2 (v1_internal_key v1));
          s = tlv_push s (tlv_bytes 4 (gt_root (v1_tapscript v1)));
          s = push_opt s 7 (custom_subtree_root (v1_tapscript v1))
      in tlv_encode s)"

definition encode_asset_proof :: "hash_fun \<Rightarrow> AssetProof \<Rightarrow> bytes" where
  "encode_asset_proof sha ap =
     (let s = tlv_push [] (tlv_u8 0 (asset_version_to_u8 (ap_version ap)));
          s = tlv_push s (tlv_bytes 2 (ap_tap_key ap));
          s = tlv_push s (tlv_bytes 4 (compressed_encode (compress sha (ap_proof ap))))
      in tlv_encode s)"

definition encode_taproot_asset_proof :: "hash_fun \<Rightarrow> TaprootAssetProof \<Rightarrow> bytes" where
  "encode_taproot_asset_proof sha tp =
     (let s = tlv_push [] (tlv_u8 0 (tcv_to_u8 (tp_version tp)));
          s = tlv_push s (tlv_bytes 2 (compressed_encode (compress sha (tp_proof tp))))
      in tlv_encode s)"

fun encode_commitment_proof :: "hash_fun \<Rightarrow> CommitmentProof \<Rightarrow> bytes" where
  "encode_commitment_proof sha (CommitmentProof ap tp sibling stxo unknown) =
     (let s = push_opt [] 1 (map_option (encode_asset_proof sha) ap);
          s = tlv_push s (tlv_bytes 2 (encode_taproot_asset_proof sha tp));
          s = push_opt s 5 (map_option preimage_encode sibling);
          s = (if stxo \<noteq> [] then
                 tlv_push s (tlv_bytes 7 (encode_bigsize (of_nat (length stxo))
                   @ concat (map (\<lambda>(key, p). key @ encode_var_bytes (encode_commitment_proof sha p)) stxo)))
               else s);
          s = push_unknown unknown s
      in tlv_encode s)"

definition non_empty_preimage :: "TapscriptPreimage option \<Rightarrow> bytes option" where
  "non_empty_preimage p =
     (case p of Some x \<Rightarrow> if preimage_is_empty x then None else Some (preimage_encode x) | None \<Rightarrow> None)"

definition encode_tapscript_proof :: "TapscriptProof \<Rightarrow> bytes" where
  "encode_tapscript_proof ts =
     (let s = push_opt [] 1 (non_empty_preimage (tap_preimage_1 ts));
          s = push_opt s 3 (non_empty_preimage (tap_preimage_2 ts));
          s = tlv_push s (tlv_u8 4 (if bip86 ts then 1 else 0));
          s = push_unknown (ts_unknown_odd_types ts) s
      in tlv_encode s)"

definition encode_taproot_proof :: "hash_fun \<Rightarrow> TaprootProof \<Rightarrow> bytes" where
  "encode_taproot_proof sha tp =
     (let s = tlv_push [] (tlv_u32 0 (tr_output_index tp));
          s = tlv_push s (tlv_bytes 2 (tr_internal_key tp));
          s = push_opt s 3 (map_option (encode_commitment_proof sha) (tr_commitment_proof tp));
          s = (if tr_commitment_proof tp = None
               then push_opt s 5 (map_option encode_tapscript_proof (tr_tapscript_proof tp)) else s);
          s = push_unknown (tr_unknown_odd_types tp) s
      in tlv_encode s)"

definition encode_bip86_exclusion_proof :: "u32 \<Rightarrow> SerializedKey \<Rightarrow> bytes" where
  "encode_bip86_exclusion_proof output_index internal_key =
     (let s = tlv_push [] (tlv_u32 0 output_index);
          s = tlv_push s (tlv_bytes 2 internal_key);
          s = tlv_push s (tlv_bytes 5 (tlv_encode (tlv_push [] (tlv_u8 4 1))))
      in tlv_encode s)"

definition encode_proof :: "hash_fun \<Rightarrow> TxLib \<Rightarrow> TransitionProof \<Rightarrow> bytes" where
  "encode_proof sha txl p =
     (let s = tlv_push [] (tlv_u32 0 (transition_version_to_u32 (version p)));
          s = tlv_push s (tlv_bytes 2 (op_txid (prev_out p) @ u32_be (op_vout (prev_out p))));
          s = tlv_push s (tlv_bytes 4 (block_header p));
          s = tlv_push s (tlv_bytes 6 (tx_serialize txl (anchor_tx p)));
          s = tlv_push s (tlv_bytes 8 (encode_tx_merkle_proof (tx_merkle_proof p)));
          s = tlv_push s (tlv_bytes 10 (encode_asset sha (asset p) EncodeNormal));
          s = tlv_push s (tlv_bytes 12 (encode_taproot_proof sha (inclusion_proof p)));
          s = (if exclusion_proofs p \<noteq> [] then
                 tlv_push s (tlv_bytes 13 (encode_counted (encode_taproot_proof sha) (exclusion_proofs p))) else s);
          s = push_opt s 15 (map_option (encode_taproot_proof sha) (split_root_proof p));
          s = push_opt s 17 (map_option meta_encode (meta_reveal p));
          s = (if additional_inputs p \<noteq> [] then
                 tlv_push s (tlv_bytes 19 (encode_counted file_encode (additional_inputs p))) else s);
          s = push_opt s 21 (map_option encode_tx_witness (challenge_witness p));
          s = tlv_push s (tlv_u32 22 (block_height p));
          s = push_opt s 23 (map_option encode_genesis (genesis_reveal p));
          s = push_opt s 25 (map_option encode_group_key_reveal (group_key_reveal p));
          s = (if alt_leaves p \<noteq> [] then
                 tlv_push s (tlv_bytes 27 (encode_counted (encode_alt_leaf sha) (alt_leaves p))) else s);
          s = push_unknown (pr_unknown_odd_types p) s
      in PROOF_MAGIC_BYTES @ tlv_encode s)"

section \<open>Decoding\<close>

definition MAX_NESTED_RECORD_SIZE :: u64 where "MAX_NESTED_RECORD_SIZE = 65535"

fun tlv_error_text :: "TlvError \<Rightarrow> string" where
  "tlv_error_text UnexpectedEof = ''unexpected end of data''"
| "tlv_error_text NonCanonicalBigSize = ''non-canonical BigSize encoding''"
| "tlv_error_text (TypeNotSorted _ _) = ''TLV types not sorted''"
| "tlv_error_text (DuplicateType _) = ''duplicate TLV type''"
| "tlv_error_text (UnknownRequiredType _) = ''unknown required (even) TLV type''"
| "tlv_error_text (ValueTooLarge _ _) = ''TLV value too large''"
| "tlv_error_text (DecodingError msg) = ''TLV decoding error: '' @ msg"

definition from_tlv :: "TlvError \<Rightarrow> ProofError" where
  "from_tlv e = ProofDecodingError (tlv_error_text e)"

definition proof_expect_len :: "TlvRecord \<Rightarrow> nat \<Rightarrow> (unit, ProofError) result" where
  "proof_expect_len r n = (if length (tlv_value r) \<noteq> n then Err (ProofDecodingError ''invalid length'') else Ok ())"

definition decode_out_point :: "bytes \<Rightarrow> (OutPoint, ProofError) result" where
  "decode_out_point v =
     (if length v \<noteq> 36 then Err (ProofDecodingError ''invalid outpoint length'')
      else Ok \<lparr>op_txid = take 32 v, op_vout = be_u32 (take 4 (drop 32 v))\<rparr>)"

definition MERKLE_PROOF_MAX_NODES :: nat where "MERKLE_PROOF_MAX_NODES = 15"

fun decode_merkle_nodes :: "nat \<Rightarrow> bytes \<Rightarrow> nat \<Rightarrow> bytes list \<Rightarrow> (bytes list \<times> nat, ProofError) result" where
  "decode_merkle_nodes 0 data offset nodes = Ok (nodes, offset)"
| "decode_merkle_nodes (Suc n) data offset nodes =
     (if length data < offset + 32 then Err (ProofDecodingError ''truncated merkle proof node'')
      else decode_merkle_nodes n data (offset + 32) (nodes @ [take 32 (drop offset data)]))"

definition decode_tx_merkle_proof :: "bytes \<Rightarrow> (TxMerkleProof, ProofError) result" where
  "decode_tx_merkle_proof data =
     res_bind (map_err from_tlv (decode_bigsize data)) (\<lambda>(count, offset).
       if MERKLE_PROOF_MAX_NODES < unat count then Err (ProofDecodingError ''too many merkle proof nodes'')
       else
         let count = unat count in
         res_bind (decode_merkle_nodes count data offset []) (\<lambda>(nodes, offset).
           let packed_len = (count + 7) div 8 in
           if offset + packed_len \<noteq> length data then Err (ProofDecodingError ''invalid merkle proof bits length'')
           else
             let packed = drop offset data in
             Ok \<lparr>tm_nodes = nodes,
                 tm_bits = map (\<lambda>i. drop_bit (i mod 8) (packed ! (i div 8)) AND 1 = 1) [0..<count]\<rparr>))"

record RevealAcc =
  ra_version :: u8
  ra_internal_key :: "SerializedKey option"
  ra_root :: bytes
  ra_custom :: "bytes option"

definition reveal_field :: "TlvRecord \<Rightarrow> RevealAcc \<Rightarrow> (RevealAcc, ProofError) result" where
  "reveal_field r acc =
     (let t = type_num r; v = tlv_value r in
      if t = 0 then res_bind (proof_expect_len r 1) (\<lambda>_. Ok (acc\<lparr>ra_version := v ! 0\<rparr>))
      else if t = 2 then res_bind (proof_expect_len r 33) (\<lambda>_. Ok (acc\<lparr>ra_internal_key := Some v\<rparr>))
      else if t = 4 then res_bind (proof_expect_len r 32) (\<lambda>_. Ok (acc\<lparr>ra_root := v\<rparr>))
      else if t = 7 then
        res_bind (proof_expect_len r 32) (\<lambda>_. Ok (if v \<noteq> zeros 32 then acc\<lparr>ra_custom := Some v\<rparr> else acc))
      else Ok acc)"

definition decode_group_key_reveal :: "(SerializedKey \<Rightarrow> bool) \<Rightarrow> bytes \<Rightarrow> (GroupKeyReveal, ProofError) result" where
  "decode_group_key_reveal on_curve data =
     (if length data \<le> 33 + 32 then
        if length data < 33 then Err (ProofDecodingError ''group key reveal too short'')
        else if \<not> validate_on_curve on_curve (take 33 data) then
          Err (ProofDecodingError ''group key reveal raw key'')
        else Ok (RevealV0 \<lparr>v0_raw_key = take 33 data, v0_tapscript_root = drop 33 data\<rparr>)
      else
        res_bind (map_err from_tlv (decode_with_limit data MAX_NESTED_RECORD_SIZE)) (\<lambda>s.
        res_bind (fold_records reveal_field s
            \<lparr>ra_version = 0, ra_internal_key = None, ra_root = [], ra_custom = None\<rparr>) (\<lambda>acc.
        res_bind (ok_or (ra_internal_key acc) (ProofDecodingError ''group key reveal missing internal key'')) (\<lambda>key.
          Ok (RevealV1 \<lparr>v1_version = ra_version acc, v1_internal_key = key,
            v1_tapscript = \<lparr>gt_version = ra_version acc, gt_root = ra_root acc,
                            custom_subtree_root = ra_custom acc\<rparr>\<rparr>)))))"

definition decode_tree_proof :: "hash_fun \<Rightarrow> bytes \<Rightarrow> (MerkleProof, ProofError) result" where
  "decode_tree_proof sha v = map_err ProofDecodingError (res_bind (compressed_decode v) (decompress sha))"

record AssetProofAcc =
  aa_version :: AssetVersion
  aa_tap_key :: bytes
  aa_proof :: "MerkleProof option"
  aa_unknown :: "(u64 \<times> bytes) list"

definition asset_proof_field :: "hash_fun \<Rightarrow> TlvRecord \<Rightarrow> AssetProofAcc \<Rightarrow> (AssetProofAcc, ProofError) result" where
  "asset_proof_field sha r acc =
     (let t = type_num r; v = tlv_value r in
      if t = 0 then res_bind (proof_expect_len r 1) (\<lambda>_. Ok (acc\<lparr>aa_version := asset_version_from_u8 (v ! 0)\<rparr>))
      else if t = 2 then res_bind (proof_expect_len r 32) (\<lambda>_. Ok (acc\<lparr>aa_tap_key := v\<rparr>))
      else if t = 4 then map_ok (\<lambda>p. acc\<lparr>aa_proof := Some p\<rparr>) (decode_tree_proof sha v)
      else if t mod 2 = 0 then Err (ProofDecodingError ''unknown even TLV type in asset proof'')
      else Ok (acc\<lparr>aa_unknown := btree_insert t v (aa_unknown acc)\<rparr>))"

definition decode_asset_proof :: "hash_fun \<Rightarrow> bytes \<Rightarrow> (AssetProof, ProofError) result" where
  "decode_asset_proof sha data =
     res_bind (map_err from_tlv (decode_with_limit data MAX_NESTED_RECORD_SIZE)) (\<lambda>s.
     res_bind (fold_records (asset_proof_field sha) s
         \<lparr>aa_version = AssetV0, aa_tap_key = zeros 32, aa_proof = None, aa_unknown = []\<rparr>) (\<lambda>acc.
     res_bind (ok_or (aa_proof acc) (ProofDecodingError ''asset proof missing tree proof'')) (\<lambda>p.
       Ok \<lparr>ap_proof = p, ap_version = aa_version acc, ap_tap_key = aa_tap_key acc,
           ap_unknown_odd_types = aa_unknown acc\<rparr>)))"

record TapProofAcc =
  ta_version :: TapCommitmentVersion
  ta_proof :: "MerkleProof option"
  ta_unknown :: "(u64 \<times> bytes) list"

definition tap_proof_field :: "hash_fun \<Rightarrow> TlvRecord \<Rightarrow> TapProofAcc \<Rightarrow> (TapProofAcc, ProofError) result" where
  "tap_proof_field sha r acc =
     (let t = type_num r; v = tlv_value r in
      if t = 0 then
        res_bind (proof_expect_len r 1) (\<lambda>_.
          map_ok (\<lambda>ver. acc\<lparr>ta_version := ver\<rparr>) (map_err (\<lambda>_. ProofDecodingError ''version'') (tcv_from_u8 (v ! 0))))
      else if t = 2 then map_ok (\<lambda>p. acc\<lparr>ta_proof := Some p\<rparr>) (decode_tree_proof sha v)
      else if t mod 2 = 0 then Err (ProofDecodingError ''unknown even TLV type in taproot asset proof'')
      else Ok (acc\<lparr>ta_unknown := btree_insert t v (ta_unknown acc)\<rparr>))"

definition decode_taproot_asset_proof :: "hash_fun \<Rightarrow> bytes \<Rightarrow> (TaprootAssetProof, ProofError) result" where
  "decode_taproot_asset_proof sha data =
     res_bind (map_err from_tlv (decode_with_limit data MAX_NESTED_RECORD_SIZE)) (\<lambda>s.
     res_bind (fold_records (tap_proof_field sha) s \<lparr>ta_version = TapV0, ta_proof = None, ta_unknown = []\<rparr>) (\<lambda>acc.
     res_bind (ok_or (ta_proof acc) (ProofDecodingError ''taproot asset proof missing tree proof'')) (\<lambda>p.
       Ok \<lparr>tp_proof = p, tp_version = ta_version acc, tp_unknown_odd_types = ta_unknown acc\<rparr>)))"

record CommitmentAcc =
  ca_asset_proof :: "AssetProof option"
  ca_tap_proof :: "TaprootAssetProof option"
  ca_sibling :: "TapscriptPreimage option"
  ca_stxo :: "(SerializedKey \<times> CommitmentProof) list"
  ca_unknown :: "(u64 \<times> bytes) list"

definition decode_preimage :: "bytes \<Rightarrow> (TapscriptPreimage, ProofError) result" where
  "decode_preimage v = map_err (\<lambda>_. ProofDecodingError ''tapscript preimage'') (preimage_decode v)"

text \<open>\<open>stxo_dec\<close> is the decoder of the STXO record, \<open>None\<close> when \<^verbatim>\<open>with_extensions\<close> is false.\<close>

definition commitment_field ::
  "hash_fun \<Rightarrow> (bytes \<Rightarrow> ((SerializedKey \<times> CommitmentProof) list, ProofError) result) option \<Rightarrow> TlvRecord \<Rightarrow>
     CommitmentAcc \<Rightarrow> (CommitmentAcc, ProofError) result" where
  "commitment_field sha stxo_dec r acc =
     (let t = type_num r; v = tlv_value r in
      if t = 1 then map_ok (\<lambda>p. acc\<lparr>ca_asset_proof := Some p\<rparr>) (decode_asset_proof sha v)
      else if t = 2 then map_ok (\<lambda>p. acc\<lparr>ca_tap_proof := Some p\<rparr>) (decode_taproot_asset_proof sha v)
      else if t = 5 \<and> stxo_dec \<noteq> None then map_ok (\<lambda>p. acc\<lparr>ca_sibling := Some p\<rparr>) (decode_preimage v)
      else if t = 7 \<and> stxo_dec \<noteq> None then map_ok (\<lambda>ps. acc\<lparr>ca_stxo := ps\<rparr>) (the stxo_dec v)
      else if t mod 2 = 0 then Err (ProofDecodingError ''unknown even TLV type in commitment proof'')
      else Ok (acc\<lparr>ca_unknown := btree_insert t v (ca_unknown acc)\<rparr>))"

definition commitment_acc_default :: CommitmentAcc where
  "commitment_acc_default =
     \<lparr>ca_asset_proof = None, ca_tap_proof = None, ca_sibling = None, ca_stxo = [], ca_unknown = []\<rparr>"

definition decode_commitment_proof_inner ::
  "hash_fun \<Rightarrow> (bytes \<Rightarrow> ((SerializedKey \<times> CommitmentProof) list, ProofError) result) option \<Rightarrow> bytes \<Rightarrow>
     (CommitmentProof, ProofError) result" where
  "decode_commitment_proof_inner sha stxo_dec data =
     res_bind (map_err from_tlv (decode_with_limit data MAX_NESTED_RECORD_SIZE)) (\<lambda>s.
     res_bind (fold_records (commitment_field sha stxo_dec) s commitment_acc_default) (\<lambda>acc.
     res_bind (ok_or (ca_tap_proof acc) (ProofDecodingError ''commitment proof missing taproot asset proof'')) (\<lambda>tp.
       Ok (CommitmentProof (ca_asset_proof acc) tp (ca_sibling acc) (ca_stxo acc) (ca_unknown acc)))))"

definition decode_commitment_proof_pair :: "hash_fun \<Rightarrow> bytes \<Rightarrow> (CommitmentProof, ProofError) result" where
  "decode_commitment_proof_pair sha = decode_commitment_proof_inner sha None"

fun decode_stxo_loop ::
  "hash_fun \<Rightarrow> nat \<Rightarrow> bytes \<Rightarrow> nat \<Rightarrow> (SerializedKey \<times> CommitmentProof) list \<Rightarrow>
     ((SerializedKey \<times> CommitmentProof) list \<times> nat, ProofError) result" where
  "decode_stxo_loop sha 0 data offset ps = Ok (ps, offset)"
| "decode_stxo_loop sha (Suc n) data offset ps =
     (if length data < offset + 33 then Err (ProofDecodingError ''truncated STXO proof key'')
      else
        let key = take 33 (drop offset data); offset = offset + 33 in
        res_bind (map_err from_tlv (decode_var_bytes (drop offset data))) (\<lambda>(bs, consumed).
        res_bind (decode_commitment_proof_pair sha bs) (\<lambda>p.
          decode_stxo_loop sha n data (offset + consumed) (btree_insert key p ps))))"

definition decode_stxo_proofs ::
  "hash_fun \<Rightarrow> bytes \<Rightarrow> ((SerializedKey \<times> CommitmentProof) list, ProofError) result" where
  "decode_stxo_proofs sha data =
     res_bind (map_err from_tlv (decode_bigsize data)) (\<lambda>(count, offset).
     res_bind (decode_stxo_loop sha (unat count) data offset []) (\<lambda>(ps, offset).
       if offset \<noteq> length data then Err (ProofDecodingError ''trailing bytes after STXO proofs'') else Ok ps))"

definition decode_commitment_proof :: "hash_fun \<Rightarrow> bytes \<Rightarrow> (CommitmentProof, ProofError) result" where
  "decode_commitment_proof sha = decode_commitment_proof_inner sha (Some (decode_stxo_proofs sha))"

definition tapscript_field :: "TlvRecord \<Rightarrow> TapscriptProof \<Rightarrow> (TapscriptProof, ProofError) result" where
  "tapscript_field r ts =
     (let t = type_num r; v = tlv_value r in
      if t = 1 then map_ok (\<lambda>p. ts\<lparr>tap_preimage_1 := Some p\<rparr>) (decode_preimage v)
      else if t = 3 then map_ok (\<lambda>p. ts\<lparr>tap_preimage_2 := Some p\<rparr>) (decode_preimage v)
      else if t = 4 then res_bind (proof_expect_len r 1) (\<lambda>_. Ok (ts\<lparr>bip86 := (v ! 0 = 1)\<rparr>))
      else if t mod 2 = 0 then Err (ProofDecodingError ''unknown even TLV type in tapscript proof'')
      else Ok (ts\<lparr>ts_unknown_odd_types := btree_insert t v (ts_unknown_odd_types ts)\<rparr>))"

definition decode_tapscript_proof :: "bytes \<Rightarrow> (TapscriptProof, ProofError) result" where
  "decode_tapscript_proof data =
     res_bind (map_err from_tlv (decode_with_limit data MAX_NESTED_RECORD_SIZE)) (\<lambda>s.
       fold_records tapscript_field s
         \<lparr>tap_preimage_1 = None, tap_preimage_2 = None, bip86 = False, ts_unknown_odd_types = []\<rparr>)"

definition default_taproot_proof :: TaprootProof where
  "default_taproot_proof = \<lparr>tr_output_index = 0, tr_internal_key = zeros 33, tr_commitment_proof = None,
     tr_tapscript_proof = None, tr_unknown_odd_types = []\<rparr>"

definition taproot_field ::
  "hash_fun \<Rightarrow> (SerializedKey \<Rightarrow> bool) \<Rightarrow> TlvRecord \<Rightarrow> TaprootProof \<Rightarrow> (TaprootProof, ProofError) result" where
  "taproot_field sha on_curve r p =
     (let t = type_num r; v = tlv_value r in
      if t = 0 then res_bind (proof_expect_len r 4) (\<lambda>_. Ok (p\<lparr>tr_output_index := be_u32 v\<rparr>))
      else if t = 2 then
        res_bind (proof_expect_len r 33) (\<lambda>_.
          if \<not> validate_on_curve on_curve v then Err (ProofDecodingError ''internal key'')
          else Ok (p\<lparr>tr_internal_key := v\<rparr>))
      else if t = 3 then map_ok (\<lambda>c. p\<lparr>tr_commitment_proof := Some c\<rparr>) (decode_commitment_proof sha v)
      else if t = 5 then map_ok (\<lambda>ts. p\<lparr>tr_tapscript_proof := Some ts\<rparr>) (decode_tapscript_proof v)
      else if t mod 2 = 0 then Err (ProofDecodingError ''unknown even TLV type in taproot proof'')
      else Ok (p\<lparr>tr_unknown_odd_types := btree_insert t v (tr_unknown_odd_types p)\<rparr>))"

definition decode_taproot_proof ::
  "hash_fun \<Rightarrow> (SerializedKey \<Rightarrow> bool) \<Rightarrow> bytes \<Rightarrow> (TaprootProof, ProofError) result" where
  "decode_taproot_proof sha on_curve data =
     res_bind (map_err from_tlv (decode_with_limit data MAX_NESTED_RECORD_SIZE)) (\<lambda>s.
       fold_records (taproot_field sha on_curve) s default_taproot_proof)"

definition decode_exclusion_proofs ::
  "hash_fun \<Rightarrow> (SerializedKey \<Rightarrow> bool) \<Rightarrow> bytes \<Rightarrow> (TaprootProof list, ProofError) result" where
  "decode_exclusion_proofs sha on_curve data =
     decode_counted (decode_taproot_proof sha on_curve) from_tlv (\<lambda>_. False) EmptyFile
       (ProofDecodingError ''trailing bytes after exclusion proofs'') data"

definition decode_additional_inputs :: "hash_fun \<Rightarrow> bytes \<Rightarrow> (ProofFile list, ProofError) result" where
  "decode_additional_inputs sha data =
     decode_counted (file_decode sha) from_tlv (\<lambda>count. 0xFFFF < count)
       (ProofDecodingError ''too many additional inputs'')
       (ProofDecodingError ''trailing bytes after additional inputs'') data"

text \<open>\<open>keys\<close> is the set of script keys seen, as a list.\<close>

fun decode_alt_loop ::
  "hash_fun \<Rightarrow> (SerializedKey \<Rightarrow> bool) \<Rightarrow> nat \<Rightarrow> bytes \<Rightarrow> nat \<Rightarrow> SerializedKey list \<Rightarrow> Asset list \<Rightarrow>
     (Asset list \<times> nat, ProofError) result" where
  "decode_alt_loop sha on_curve 0 data offset keys alts = Ok (alts, offset)"
| "decode_alt_loop sha on_curve (Suc n) data offset keys alts =
     res_bind (map_err from_tlv (decode_var_bytes (drop offset data))) (\<lambda>(bs, consumed).
     res_bind (map_err from_tlv (decode_asset sha on_curve bs)) (\<lambda>alt.
       if sk_pub_key (script_key alt) \<in> set keys then Err (ProofDecodingError ''duplicate alt leaf script key'')
       else decode_alt_loop sha on_curve n data (offset + consumed) (sk_pub_key (script_key alt) # keys) (alts @ [alt])))"

definition MIN_ALT_LEAF_SIZE :: nat where "MIN_ALT_LEAF_SIZE = 40"

definition decode_alt_leaves :: "hash_fun \<Rightarrow> (SerializedKey \<Rightarrow> bool) \<Rightarrow> bytes \<Rightarrow> (Asset list, ProofError) result" where
  "decode_alt_leaves sha on_curve data =
     res_bind (map_err from_tlv (decode_bigsize data)) (\<lambda>(count, offset).
       if length data div MIN_ALT_LEAF_SIZE < unat count then Err (ProofDecodingError ''too many alt leaves'')
       else res_bind (decode_alt_loop sha on_curve (unat count) data offset [] []) (\<lambda>(alts, offset).
         if offset \<noteq> length data then Err (ProofDecodingError ''trailing bytes after alt leaves'') else Ok alts))"

definition proof_default :: TransitionProof where
  "proof_default = \<lparr>version = TransitionV0, prev_out = \<lparr>op_txid = zeros 32, op_vout = 0\<rparr>, block_header = zeros 80,
     block_height = 0, anchor_tx = anchor_tx_default, tx_merkle_proof = \<lparr>tm_nodes = [], tm_bits = []\<rparr>,
     asset = asset_default, inclusion_proof = default_taproot_proof, exclusion_proofs = [], split_root_proof = None,
     meta_reveal = None, additional_inputs = [], challenge_witness = None, genesis_reveal = None,
     group_key_reveal = None, alt_leaves = [], pr_unknown_odd_types = []\<rparr>"

definition proof_field ::
  "hash_fun \<Rightarrow> (SerializedKey \<Rightarrow> bool) \<Rightarrow> TxLib \<Rightarrow> TlvRecord \<Rightarrow> TransitionProof \<Rightarrow>
     (TransitionProof, ProofError) result" where
  "proof_field sha on_curve txl r p =
     (let t = type_num r; v = tlv_value r in
      if t = 0 then
        res_bind (proof_expect_len r 4) (\<lambda>_.
          map_ok (\<lambda>ver. p\<lparr>version := ver\<rparr>) (transition_version_from_u32 (be_u32 v)))
      else if t = 2 then map_ok (\<lambda>x. p\<lparr>prev_out := x\<rparr>) (decode_out_point v)
      else if t = 4 then res_bind (proof_expect_len r 80) (\<lambda>_. Ok (p\<lparr>block_header := v\<rparr>))
      else if t = 6 then map_ok (\<lambda>x. p\<lparr>anchor_tx := x\<rparr>) (anchor_tx_from_bytes txl v)
      else if t = 8 then map_ok (\<lambda>x. p\<lparr>tx_merkle_proof := x\<rparr>) (decode_tx_merkle_proof v)
      else if t = 10 then map_ok (\<lambda>x. p\<lparr>asset := x\<rparr>) (map_err from_tlv (decode_asset sha on_curve v))
      else if t = 12 then map_ok (\<lambda>x. p\<lparr>inclusion_proof := x\<rparr>) (decode_taproot_proof sha on_curve v)
      else if t = 13 then map_ok (\<lambda>x. p\<lparr>exclusion_proofs := x\<rparr>) (decode_exclusion_proofs sha on_curve v)
      else if t = 15 then map_ok (\<lambda>x. p\<lparr>split_root_proof := Some x\<rparr>) (decode_taproot_proof sha on_curve v)
      else if t = 17 then map_ok (\<lambda>x. p\<lparr>meta_reveal := Some x\<rparr>) (meta_decode on_curve v)
      else if t = 19 then map_ok (\<lambda>x. p\<lparr>additional_inputs := x\<rparr>) (decode_additional_inputs sha v)
      else if t = 21 then map_ok (\<lambda>x. p\<lparr>challenge_witness := Some x\<rparr>) (map_err from_tlv (decode_tx_witness v))
      else if t = 22 then res_bind (proof_expect_len r 4) (\<lambda>_. Ok (p\<lparr>block_height := be_u32 v\<rparr>))
      else if t = 23 then map_ok (\<lambda>x. p\<lparr>genesis_reveal := Some x\<rparr>) (map_err from_tlv (decode_genesis v))
      else if t = 25 then map_ok (\<lambda>x. p\<lparr>group_key_reveal := Some x\<rparr>) (decode_group_key_reveal on_curve v)
      else if t = 27 then map_ok (\<lambda>x. p\<lparr>alt_leaves := x\<rparr>) (decode_alt_leaves sha on_curve v)
      else if t mod 2 = 0 then Err (ProofDecodingError ''unknown even TLV type'')
      else Ok (p\<lparr>pr_unknown_odd_types := btree_insert t v (pr_unknown_odd_types p)\<rparr>))"

definition decode_proof ::
  "hash_fun \<Rightarrow> (SerializedKey \<Rightarrow> bool) \<Rightarrow> TxLib \<Rightarrow> bytes \<Rightarrow> (TransitionProof, ProofError) result" where
  "decode_proof sha on_curve txl data =
     (if length data < 4 then Err FileTooShort
      else if take 4 data \<noteq> PROOF_MAGIC_BYTES then Err InvalidMagic
      else res_bind (map_err from_tlv (decode_with_limit (drop 4 data) MAX_PROOF_TLV_VALUE_LENGTH)) (\<lambda>s.
        fold_records (proof_field sha on_curve txl) s proof_default))"

end
