(* ===== verification/Proof_Verify.thy ===== *)
theory Proof_Verify
  imports Proof_Codec
begin

text \<open>
  Verification of transition proofs and proof files: \<^verbatim>\<open>tap-primitives/src/proof/verify.rs\<close> and the
  ownership proofs of \<^verbatim>\<open>proof/ownership.rs\<close>. The traits that connect the verifier to a node (headers, groups, chain data, ignored assets)
  are the functions of the record \<open>VerifierCtx\<close>. Hash sets are lists without repetition, hash maps association
  lists. An error that wraps another keeps its literal text.
\<close>

record Env =
  sha256 :: hash_fun
  secp :: Secp
  txlib :: TxLib

record VerifierCtx =
  verify_header :: "BlockHeader \<Rightarrow> u32 \<Rightarrow> (unit, ProofError) result"
  verify_tx_merkle :: "bytes \<Rightarrow> TxMerkleProof \<Rightarrow> bytes \<Rightarrow> (unit, ProofError) result"
  verify_known_group :: "SerializedKey \<Rightarrow> (unit, ProofError) result"
  current_height :: "(u32, ProofError) result"
  tx_block_height :: "bytes \<Rightarrow> (u32, ProofError) result"
  mean_block_timestamp :: "u32 \<Rightarrow> (u64, ProofError) result"
  ignore_checker :: "(PrevId \<Rightarrow> (bool, ProofError) result) option"

record VerificationOptions =
  challenge_bytes :: "bytes option"
  skip_chain_verification :: bool
  skip_time_lock_validation :: bool

definition options_default :: VerificationOptions where
  "options_default =
     \<lparr>challenge_bytes = None, skip_chain_verification = False, skip_time_lock_validation = False\<rparr>"

text \<open>\<^verbatim>\<open>DefaultMerkleVerifier\<close>.\<close>

definition default_merkle_verifier ::
  "hash_fun \<Rightarrow> bytes \<Rightarrow> TxMerkleProof \<Rightarrow> bytes \<Rightarrow> (unit, ProofError) result" where
  "default_merkle_verifier sha tx_hash p root =
     (if tx_merkle_verify (\<lambda>x. sha (sha x)) p tx_hash root then Ok () else Err InvalidTxMerkleProof)"

definition ctx_new ::
  "(BlockHeader \<Rightarrow> u32 \<Rightarrow> (unit, ProofError) result) \<Rightarrow>
   (bytes \<Rightarrow> TxMerkleProof \<Rightarrow> bytes \<Rightarrow> (unit, ProofError) result) \<Rightarrow>
   (SerializedKey \<Rightarrow> (unit, ProofError) result) \<Rightarrow> u32 \<Rightarrow> VerifierCtx" where
  "ctx_new hv mv gv height =
     \<lparr>verify_header = hv, verify_tx_merkle = mv, verify_known_group = gv, current_height = Ok height,
      tx_block_height = (\<lambda>_. Err (VerificationFailed ''chain lookup does not support tx height lookups'')),
      mean_block_timestamp = (\<lambda>_. Err (VerificationFailed ''chain lookup does not support block timestamps'')),
      ignore_checker = None\<rparr>"

section \<open>Helpers\<close>

definition tx_spends_prev_out :: "AnchorTx \<Rightarrow> OutPoint \<Rightarrow> bool" where
  "tx_spends_prev_out tx op \<longleftrightarrow> (\<exists>txin \<in> set (atx_input tx). previous_output txin = op)"

definition is_pay_to_taproot :: "bytes \<Rightarrow> bool" where
  "is_pay_to_taproot script \<longleftrightarrow> length script = 34 \<and> script ! 0 = 0x51 \<and> script ! 1 = 0x20"

definition extract_taproot_key :: "AnchorTx \<Rightarrow> u32 \<Rightarrow> (bytes, ProofError) result" where
  "extract_taproot_key tx idx =
     (if length (atx_output tx) \<le> unat idx then Err (VerificationFailed ''invalid output index'')
      else
        let script = script_pubkey (atx_output tx ! unat idx) in
        if \<not> is_pay_to_taproot script then Err (VerificationFailed ''output is not a P2TR script'')
        else Ok (take 32 (drop 2 script)))"

text \<open>The characters of a UTF-8 string, and the Unicode white space that \<^verbatim>\<open>trim\<close> removes.\<close>

fun utf8_chars :: "bytes \<Rightarrow> nat list" where
  "utf8_chars [] = []"
| "utf8_chars (a # bs) =
     (if a < 0x80 then unat a # utf8_chars bs
      else case bs of
        b # bs1 \<Rightarrow>
          if a < 0xE0 then ((unat a mod 32) * 64 + unat b mod 64) # utf8_chars bs1
          else (case bs1 of
            c # bs2 \<Rightarrow>
              if a < 0xF0 then (((unat a mod 16) * 64 + unat b mod 64) * 64 + unat c mod 64) # utf8_chars bs2
              else (case bs2 of
                d # bs3 \<Rightarrow> ((((unat a mod 8) * 64 + unat b mod 64) * 64 + unat c mod 64) * 64 + unat d mod 64)
                  # utf8_chars bs3
              | [] \<Rightarrow> [])
          | [] \<Rightarrow> [])
      | [] \<Rightarrow> [])"

definition is_whitespace :: "nat \<Rightarrow> bool" where
  "is_whitespace c \<longleftrightarrow> (9 \<le> c \<and> c \<le> 13) \<or> c = 32 \<or> c = 0x85 \<or> c = 0xA0 \<or> c = 0x1680
     \<or> (0x2000 \<le> c \<and> c \<le> 0x200A) \<or> c = 0x2028 \<or> c = 0x2029 \<or> c = 0x202F \<or> c = 0x205F \<or> c = 0x3000"

definition is_go_print :: "TxLib \<Rightarrow> nat \<Rightarrow> bool" where
  "is_go_print txl c \<longleftrightarrow> c = 32 \<or> get_general_category txl c \<in>
     {UppercaseLetter, LowercaseLetter, TitlecaseLetter, ModifierLetter, OtherLetter,
      NonspacingMark, SpacingMark, EnclosingMark, DecimalNumber, LetterNumber, OtherNumber,
      ConnectorPunctuation, DashPunctuation, OpenPunctuation, ClosePunctuation, InitialPunctuation,
      FinalPunctuation, OtherPunctuation, MathSymbol, CurrencySymbol, ModifierSymbol, OtherSymbol}"

definition validate_asset_name :: "TxLib \<Rightarrow> bytes \<Rightarrow> (unit, ProofError) result" where
  "validate_asset_name txl name =
     (if name = [] then Err (VerificationFailed ''asset name cannot be empty'')
      else if MAX_ASSET_NAME_LENGTH < length name then Err (VerificationFailed ''asset name cannot exceed bytes'')
      else if \<not> list_all (is_go_print txl) (utf8_chars name) then
        Err (VerificationFailed ''asset name cannot contain unprintable character'')
      else if list_all is_whitespace (utf8_chars name) then
        Err (VerificationFailed ''asset name cannot contain only spaces'')
      else Ok ())"

definition opt_preimage_is_empty :: "TapscriptPreimage option \<Rightarrow> bool" where
  "opt_preimage_is_empty p = (case p of None \<Rightarrow> True | Some p \<Rightarrow> preimage_is_empty p)"

definition sibling_hash :: "hash_fun \<Rightarrow> TapscriptPreimage option \<Rightarrow> (bytes option, ProofError) result" where
  "sibling_hash sha preimage =
     (case preimage of
        None \<Rightarrow> Ok None
      | Some p \<Rightarrow> map_ok Some (map_err (\<lambda>_. VerificationFailed ''sibling'') (tap_hash sha p)))"

section \<open>Taproot proofs\<close>

definition derive_commitment_keys ::
  "Env \<Rightarrow> BranchNode \<Rightarrow> TapCommitmentVersion \<Rightarrow> SerializedKey \<Rightarrow> TapscriptPreimage option \<Rightarrow>
     ((bytes \<times> TapCommitment) list, ProofError) result" where
  "derive_commitment_keys env root ver internal_key preimage =
     res_bind (sibling_hash (sha256 env) preimage) (\<lambda>sibling.
     let commitment = tap_commitment_from_root ver root in
     res_bind (map_err VerificationFailed (taproot_output_key (sha256 env) (secp env) internal_key
         (tapscript_root (sha256 env) commitment sibling))) (\<lambda>key.
     let downgraded = downgrade commitment in
     res_bind (map_err VerificationFailed (taproot_output_key (sha256 env) (secp env) internal_key
         (tapscript_root (sha256 env) downgraded sibling))) (\<lambda>downgraded_key.
     Ok [(key, commitment), (downgraded_key, downgraded)])))"

definition commitment_proof_of :: "TaprootProof \<Rightarrow> (CommitmentProof, ProofError) result" where
  "commitment_proof_of tp =
     (case (tr_commitment_proof tp, tr_tapscript_proof tp) of
        (Some cp, None) \<Rightarrow> Ok cp
      | _ \<Rightarrow> Err (VerificationFailed ''invalid Taproot Asset commitment proof''))"

text \<open>The asset as it was committed to: without the split commitment.\<close>

definition without_split_commitment :: "Asset \<Rightarrow> Asset" where
  "without_split_commitment a =
     (if has_split_commitment_witness a
      then a\<lparr>prev_witnesses := (prev_witnesses a)[0 := (prev_witnesses a ! 0)\<lparr>split_commitment := None\<rparr>]\<rparr> else a)"

definition keys_by_asset_inclusion ::
  "Env \<Rightarrow> TaprootProof \<Rightarrow> Asset \<Rightarrow> ((bytes \<times> TapCommitment) list, ProofError) result" where
  "keys_by_asset_inclusion env tp a =
     res_bind (commitment_proof_of tp) (\<lambda>cp.
     let a = without_split_commitment a in
     res_bind (ok_or (cp_asset_proof cp) (VerificationFailed ''missing asset proof'')) (\<lambda>ap.
     let ack = leaf_key_of (sha256 env) a in
     res_bind (map_err (\<lambda>_. VerificationFailed ''leaf'') (asset_leaf (sha256 env) a)) (\<lambda>leaf.
     res_bind (map_err (\<lambda>_. VerificationFailed ''proof'')
         (derive_by_asset_inclusion (sha256 env) cp ack leaf (ap_tap_key ap))) (\<lambda>root.
     derive_commitment_keys env root (tp_version (cp_taproot_asset_proof cp)) (tr_internal_key tp)
       (cp_tap_sibling_preimage cp)))))"

definition keys_by_asset_exclusion ::
  "Env \<Rightarrow> TaprootProof \<Rightarrow> bytes \<Rightarrow> bytes \<Rightarrow> ((bytes \<times> TapCommitment) list, ProofError) result" where
  "keys_by_asset_exclusion env tp ack tck =
     res_bind (commitment_proof_of tp) (\<lambda>cp.
     res_bind (map_err (\<lambda>_. VerificationFailed ''proof'')
         (case cp_asset_proof cp of
            None \<Rightarrow> derive_by_commitment_exclusion cp tck
          | Some ap \<Rightarrow> derive_by_asset_exclusion (sha256 env) cp ack (ap_tap_key ap))) (\<lambda>root.
     derive_commitment_keys env root (tp_version (cp_taproot_asset_proof cp)) (tr_internal_key tp)
       (cp_tap_sibling_preimage cp)))"

text \<open>\<^verbatim>\<open>expect("non-empty preimage")\<close> cannot fail: the hash of a present preimage is present.\<close>

definition preimage_hash :: "hash_fun \<Rightarrow> TapscriptPreimage option \<Rightarrow> (bytes, ProofError) result" where
  "preimage_hash sha p =
     res_bind (sibling_hash sha p) (\<lambda>h. case h of Some x \<Rightarrow> Ok x | None \<Rightarrow> Panic)"

definition key_by_tapscript_proof :: "Env \<Rightarrow> TaprootProof \<Rightarrow> (bytes, ProofError) result" where
  "key_by_tapscript_proof env tp =
     res_bind (case (tr_commitment_proof tp, tr_tapscript_proof tp) of
         (None, Some ts) \<Rightarrow> Ok ts | _ \<Rightarrow> Err (VerificationFailed ''invalid tapscript proof'')) (\<lambda>ts.
     let p1_empty = opt_preimage_is_empty (tap_preimage_1 ts);
         p2_empty = opt_preimage_is_empty (tap_preimage_2 ts);
         p1_type = map_option sibling_type (tap_preimage_1 ts);
         p2_type = map_option sibling_type (tap_preimage_2 ts) in
     res_bind
       (if \<not> p1_empty \<and> \<not> p2_empty then
          if (p1_type, p2_type) \<notin> {(Some 0, Some 0), (Some 1, Some 1), (Some 0, Some 1)} then
            Err (VerificationFailed ''invalid tapscript pre-images'')
          else
            res_bind (preimage_hash (sha256 env) (tap_preimage_1 ts)) (\<lambda>h1.
            res_bind (preimage_hash (sha256 env) (tap_preimage_2 ts)) (\<lambda>h2.
              Ok (tap_branch_hash (sha256 env) h1 h2)))
        else if \<not> p1_empty \<and> p2_empty \<and> p1_type = Some 0 then preimage_hash (sha256 env) (tap_preimage_1 ts)
        else if bip86 ts then Ok []
        else Err (VerificationFailed ''invalid tapscript pre-images''))
       (\<lambda>root. map_err VerificationFailed (taproot_output_key (sha256 env) (secp env) (tr_internal_key tp) root)))"

text \<open>\<^verbatim>\<open>for ... in derived_keys.into_iter().rev()\<close>.\<close>

definition match_derived :: "bytes \<Rightarrow> (bytes \<times> TapCommitment) list \<Rightarrow> (TapCommitment option, ProofError) result" where
  "match_derived expected keys =
     (case find (\<lambda>(k, _). k = expected) (rev keys) of
        Some (_, c) \<Rightarrow> Ok (Some c)
      | None \<Rightarrow> Err (VerificationFailed ''invalid taproot proof: derived key mismatch''))"

definition verify_taproot_proof ::
  "Env \<Rightarrow> AnchorTx \<Rightarrow> TaprootProof \<Rightarrow> Asset \<Rightarrow> bool \<Rightarrow> (TapCommitment option, ProofError) result" where
  "verify_taproot_proof env anchor tp a inclusion =
     res_bind (extract_taproot_key anchor (tr_output_index tp)) (\<lambda>expected_key.
       if inclusion then res_bind (keys_by_asset_inclusion env tp a) (match_derived expected_key)
       else if tr_commitment_proof tp \<noteq> None then
         res_bind (keys_by_asset_exclusion env tp (leaf_key_of (sha256 env) a) (tap_key_of (sha256 env) a))
           (match_derived expected_key)
       else if tr_tapscript_proof tp \<noteq> None then
         res_bind (key_by_tapscript_proof env tp) (\<lambda>derived_key.
           if derived_key = expected_key then Ok None else match_derived expected_key [])
       else match_derived expected_key [])"

section \<open>Proofs of spent assets\<close>

definition make_stxo_proof :: "TaprootProof \<Rightarrow> CommitmentProof \<Rightarrow> (TaprootProof, ProofError) result" where
  "make_stxo_proof base stxo =
     res_bind (ok_or (tr_commitment_proof base) (VerificationFailed ''missing commitment proof'')) (\<lambda>base_cp.
       Ok (base\<lparr>tr_commitment_proof := Some (CommitmentProof (cp_asset_proof stxo) (cp_taproot_asset_proof stxo)
         (cp_tap_sibling_preimage base_cp) [] (cp_unknown_odd_types stxo))\<rparr>))"

type_synonym P2trOutputsStxos = "(u32 \<times> SerializedKey list) list"

definition mark_verified :: "u32 \<Rightarrow> SerializedKey \<Rightarrow> P2trOutputsStxos \<Rightarrow> P2trOutputsStxos" where
  "mark_verified out_idx key outputs =
     (case map_of outputs out_idx of
        None \<Rightarrow> outputs
      | Some keys \<Rightarrow>
          let keys = removeAll key keys in
          if keys = [] then filter (\<lambda>(i, _). i \<noteq> out_idx) outputs
          else map (\<lambda>(i, ks). if i = out_idx then (i, keys) else (i, ks)) outputs)"

fun verify_stxo_loop ::
  "Env \<Rightarrow> AnchorTx \<Rightarrow> TaprootProof \<Rightarrow> (SerializedKey \<rightharpoonup> Asset) \<Rightarrow> bool \<Rightarrow>
     (SerializedKey \<times> CommitmentProof) list \<Rightarrow> P2trOutputsStxos \<Rightarrow> (P2trOutputsStxos, ProofError) result" where
  "verify_stxo_loop env anchor base asset_map inclusion [] outputs = Ok outputs"
| "verify_stxo_loop env anchor base asset_map inclusion ((key, stxo_proof) # rest) outputs =
     res_bind (ok_or (asset_map key) (VerificationFailed ''missing STXO asset for key'')) (\<lambda>stxo_asset.
     res_bind (make_stxo_proof base stxo_proof) (\<lambda>combined.
     res_bind (map_err (\<lambda>_. VerificationFailed ''error verifying STXO proof'')
         (verify_taproot_proof env anchor combined stxo_asset inclusion)) (\<lambda>_.
     verify_stxo_loop env anchor base asset_map inclusion rest
       (mark_verified (tr_output_index combined) key outputs))))"

definition verify_stxo_proof_set ::
  "Env \<Rightarrow> AnchorTx \<Rightarrow> TaprootProof \<Rightarrow> (SerializedKey \<rightharpoonup> Asset) \<Rightarrow> bool \<Rightarrow> P2trOutputsStxos \<Rightarrow>
     (P2trOutputsStxos, ProofError) result" where
  "verify_stxo_proof_set env anchor base asset_map inclusion outputs =
     res_bind (ok_or (tr_commitment_proof base) (VerificationFailed ''missing commitment proof'')) (\<lambda>cp.
       verify_stxo_loop env anchor base asset_map inclusion (cp_stxo_proofs cp) outputs)"

text \<open>The map of the expected markers, by script key; a later entry replaces an earlier one.\<close>

definition stxo_asset_map :: "Env \<Rightarrow> Asset \<Rightarrow> ((SerializedKey \<times> Asset) list, ProofError) result" where
  "stxo_asset_map env out_asset =
     map_ok (\<lambda>as. rev (map (\<lambda>a. (sk_pub_key (script_key a), a)) as))
       (map_err (\<lambda>_. VerificationFailed ''stxo'') (collect_stxo (sha256 env) (secp env) out_asset))"

definition has_stxo_proofs :: "TaprootProof \<Rightarrow> bool" where
  "has_stxo_proofs tp = (case tr_commitment_proof tp of Some cp \<Rightarrow> cp_stxo_proofs cp \<noteq> [] | None \<Rightarrow> False)"

section \<open>The parts of a proof\<close>

definition verify_inclusion_proof :: "Env \<Rightarrow> TransitionProof \<Rightarrow> (TapCommitment, ProofError) result" where
  "verify_inclusion_proof env p =
     res_bind (map_err (\<lambda>_. VerificationFailed ''error verifying v0 inclusion proof'')
         (verify_taproot_proof env (anchor_tx p) (inclusion_proof p) (asset p) True)) (\<lambda>c.
     res_bind (ok_or c (VerificationFailed ''inclusion proof has no commitment'')) (\<lambda>v0_commitment.
     let need_stxo_proofs = is_version_v1 p \<and> is_transfer_root (asset p);
         has_stxo = has_stxo_proofs (inclusion_proof p) in
     if need_stxo_proofs \<and> \<not> has_stxo then Err (VerificationFailed ''missing STXO input proofs'')
     else if \<not> is_transfer_root (asset p) \<or> \<not> has_stxo then Ok v0_commitment
     else
       res_bind (stxo_asset_map env (asset p)) (\<lambda>asset_map.
       res_bind (map_err (\<lambda>_. VerificationFailed ''error verifying v1 inclusion proof'')
           (verify_stxo_proof_set env (anchor_tx p) (inclusion_proof p) (map_of asset_map) True
             [(tr_output_index (inclusion_proof p), remdups (map fst asset_map))])) (\<lambda>outputs.
       if outputs \<noteq> [] then Err (VerificationFailed ''missing STXO input proof: missing inclusion proof'')
       else Ok v0_commitment))))"

definition split_root_asset :: "Env \<Rightarrow> TransitionProof \<Rightarrow> (Asset, ProofError) result" where
  "split_root_asset env p =
     (case prev_witnesses (asset p) of
        [] \<Rightarrow> Err (VerificationFailed ''asset has no witnesses'')
      | w # _ \<Rightarrow>
          res_bind (ok_or (split_commitment w) (VerificationFailed ''asset has no split commitment'')) (\<lambda>split.
            map_err (\<lambda>_. VerificationFailed ''invalid root asset'')
              (decode_asset (sha256 env) (pub_key_valid (secp env)) (sc_root_asset split))))"

definition verify_split_root_proof :: "Env \<Rightarrow> TransitionProof \<Rightarrow> (unit, ProofError) result" where
  "verify_split_root_proof env p =
     res_bind (split_root_asset env p) (\<lambda>root_asset.
     res_bind (ok_or (split_root_proof p) (VerificationFailed ''missing split root proof'')) (\<lambda>srp.
     res_bind (verify_taproot_proof env (anchor_tx p) srp root_asset True) (\<lambda>_. Ok ())))"

definition assert_version_consistency ::
  "(u32 \<times> TapCommitmentVersion) list \<Rightarrow> (TapCommitmentVersion option, ProofError) result" where
  "assert_version_consistency versions =
     (case versions of
        [] \<Rightarrow> Err (VerificationFailed ''no commitment versions'')
      | (_, first) # _ \<Rightarrow>
          if list_all (\<lambda>(_, v). is_similar_tap_commitment_version (Some first) (Some v)) versions
          then Ok (Some first) else Err (VerificationFailed ''mixed anchor commitment versions''))"

definition other_p2tr_outputs :: "TransitionProof \<Rightarrow> u32 list" where
  "other_p2tr_outputs p =
     remdups (map of_nat (filter (\<lambda>i. (of_nat i :: u32) \<noteq> tr_output_index (inclusion_proof p)
         \<and> is_pay_to_taproot (script_pubkey (atx_output (anchor_tx p) ! i))) [0..<length (atx_output (anchor_tx p))]))"

fun verify_v0_loop ::
  "Env \<Rightarrow> TransitionProof \<Rightarrow> TaprootProof list \<Rightarrow> u32 list \<Rightarrow> (u32 \<times> TapCommitmentVersion) list \<Rightarrow>
     (u32 list \<times> (u32 \<times> TapCommitmentVersion) list, ProofError) result" where
  "verify_v0_loop env p [] outputs versions = Ok (outputs, versions)"
| "verify_v0_loop env p (ep # eps) outputs versions =
     res_bind (map_err (\<lambda>_. VerificationFailed ''error verifying exclusion proof'')
         (verify_taproot_proof env (anchor_tx p) ep (asset p) False)) (\<lambda>derived.
     verify_v0_loop env p eps (removeAll (tr_output_index ep) outputs)
       (case derived of Some c \<Rightarrow> versions @ [(tr_output_index ep, tc_version c)] | None \<Rightarrow> versions))"

definition verify_v0_exclusion_proofs ::
  "Env \<Rightarrow> TransitionProof \<Rightarrow> u32 list \<Rightarrow> ((u32 \<times> TapCommitmentVersion) list, ProofError) result" where
  "verify_v0_exclusion_proofs env p outputs =
     res_bind (verify_v0_loop env p (exclusion_proofs p) outputs []) (\<lambda>(outputs, versions).
       if outputs \<noteq> [] then Err (InvalidExclusionProof ''missing exclusion proofs for outputs'') else Ok versions)"

fun verify_v1_loop ::
  "Env \<Rightarrow> TransitionProof \<Rightarrow> (SerializedKey \<rightharpoonup> Asset) \<Rightarrow> TaprootProof list \<Rightarrow> P2trOutputsStxos \<Rightarrow>
     (P2trOutputsStxos, ProofError) result" where
  "verify_v1_loop env p asset_map [] outputs = Ok outputs"
| "verify_v1_loop env p asset_map (ep # eps) outputs =
     res_bind
       (if tr_tapscript_proof ep \<noteq> None then Ok (filter (\<lambda>(i, _). i \<noteq> tr_output_index ep) outputs)
        else verify_stxo_proof_set env (anchor_tx p) ep asset_map False outputs)
       (verify_v1_loop env p asset_map eps)"

definition verify_v1_exclusion_proofs :: "Env \<Rightarrow> TransitionProof \<Rightarrow> u32 list \<Rightarrow> (unit, ProofError) result" where
  "verify_v1_exclusion_proofs env p outputs =
     res_bind (stxo_asset_map env (asset p)) (\<lambda>asset_map.
     res_bind (verify_v1_loop env p (map_of asset_map) (exclusion_proofs p)
         (map (\<lambda>i. (i, remdups (map fst asset_map))) outputs)) (\<lambda>outputs.
       if outputs \<noteq> [] then Err (VerificationFailed ''missing STXO exclusion proofs'') else Ok ()))"

definition verify_exclusion_proofs ::
  "Env \<Rightarrow> TransitionProof \<Rightarrow> (TapCommitmentVersion option, ProofError) result" where
  "verify_exclusion_proofs env p =
     (let outputs = other_p2tr_outputs p in
      if outputs = [] then Ok None
      else res_bind (verify_v0_exclusion_proofs env p outputs) (\<lambda>versions.
        if versions = [] then Ok None
        else
          let need_stxo_proofs = is_version_v1 p \<and> is_transfer_root (asset p);
              has_stxo = (case exclusion_proofs p of ep # _ \<Rightarrow> has_stxo_proofs ep | [] \<Rightarrow> False) in
          if need_stxo_proofs \<and> \<not> has_stxo then Err (VerificationFailed ''missing STXO exclusion proofs'')
          else if \<not> is_transfer_root (asset p) \<or> \<not> has_stxo then assert_version_consistency versions
          else res_bind (map_err (\<lambda>_. VerificationFailed ''error verifying v1 exclusion proof'')
              (verify_v1_exclusion_proofs env p outputs)) (\<lambda>_.
            assert_version_consistency versions)))"

definition verify_proofs :: "Env \<Rightarrow> TransitionProof \<Rightarrow> (TapCommitment, ProofError) result" where
  "verify_proofs env p =
     res_bind (map_err InvalidInclusionProof (verify_inclusion_proof env p)) (\<lambda>tap_commitment.
     res_bind (if has_split_commitment_witness (asset p) then
         if split_root_proof p = None then Err (VerificationFailed ''missing split root proof'')
         else verify_split_root_proof env p
       else Ok ()) (\<lambda>_.
     res_bind (verify_exclusion_proofs env p) (\<lambda>exclusion_version.
       case exclusion_version of
         None \<Rightarrow> Ok tap_commitment
       | Some v \<Rightarrow>
           if \<not> is_similar_tap_commitment_version (Some (tc_version tap_commitment)) (Some v)
           then Err (VerificationFailed ''mixed commitment versions'') else Ok tap_commitment)))"

section \<open>Reveals\<close>

definition verify_genesis_reveal :: "Env \<Rightarrow> TransitionProof \<Rightarrow> (unit, ProofError) result" where
  "verify_genesis_reveal env p =
     res_bind (ok_or (genesis_reveal p) (VerificationFailed ''genesis reveal required'')) (\<lambda>reveal.
       if first_prev_out reveal \<noteq> prev_out p then Err GenesisPrevOutMismatch
       else if meta_reveal p = None \<and> meta_hash reveal \<noteq> zeros 32 then
         Err (VerificationFailed ''genesis meta reveal required'')
       else
         let proof_meta = (case meta_reveal p of Some m \<Rightarrow> meta_reveal_hash (sha256 env) m | None \<Rightarrow> zeros 32) in
         if meta_hash reveal \<noteq> proof_meta then Err MetaHashMismatch
         else if g_output_index reveal \<noteq> tr_output_index (inclusion_proof p) then
           Err (VerificationFailed ''genesis reveal output index mismatch'')
         else if genesis_id (sha256 env) reveal \<noteq> asset_id (sha256 env) (asset p) then Err GenesisMismatch
         else Ok ())"

definition full_taproot_output_key ::
  "hash_fun \<Rightarrow> Secp \<Rightarrow> SerializedKey \<Rightarrow> bytes \<Rightarrow> (bytes, ProofError) result" where
  "full_taproot_output_key sha lib internal_key merkle_root =
     (let x_only = schnorr_bytes internal_key in
      if \<not> x_only_valid (btc lib) x_only then Err (VerificationFailed ''invalid internal key'')
      else
        let tag_hash = sha (ascii ''TapTweak'');
            tweak = sha (tag_hash @ tag_hash @ x_only @ merkle_root) in
        if \<not> scalar_valid lib tweak then Err (VerificationFailed ''invalid tap tweak'')
        else map_ok full_key (ok_or (x_add_tweak lib x_only tweak) (VerificationFailed ''tweak failed'')))"

definition revealed_group_key :: "Env \<Rightarrow> GroupKeyReveal \<Rightarrow> AssetId \<Rightarrow> (bytes, ProofError) result" where
  "revealed_group_key env reveal aid =
     (case reveal of
        RevealV0 v0 \<Rightarrow>
          if \<not> pub_key_valid (secp env) (v0_raw_key v0) then
            Err (VerificationFailed ''group reveal raw key invalid'')
          else if \<not> scalar_valid (secp env) aid then Err (VerificationFailed ''invalid genesis tweak'')
          else
            res_bind (ok_or (add_exp_tweak (secp env) (v0_raw_key v0) aid)
                (VerificationFailed ''group key tweak failed'')) (\<lambda>internal.
              if length (v0_tapscript_root v0) \<notin> {0, 32} then
                Err (VerificationFailed ''tapscript tweaks must be 32 bytes'')
              else full_taproot_output_key (sha256 env) (secp env) internal (v0_tapscript_root v0))
      | RevealV1 v1 \<Rightarrow>
          map_err (\<lambda>_. VerificationFailed ''group key reveal invalid'')
            (reveal_v1_group_pub_key (sha256 env) (secp env) v1 aid))"

definition verify_group_key_reveal :: "Env \<Rightarrow> TransitionProof \<Rightarrow> (unit, ProofError) result" where
  "verify_group_key_reveal env p =
     res_bind (ok_or (group_key (asset p)) (VerificationFailed ''group key required'')) (\<lambda>gk.
     res_bind (ok_or (group_key_reveal p) (VerificationFailed ''group key reveal required'')) (\<lambda>reveal.
     res_bind (revealed_group_key env reveal (asset_id (sha256 env) (asset p))) (\<lambda>revealed_key.
       if revealed_key \<noteq> group_pub_key gk then
         Err (VerificationFailed ''group key reveal doesn't match group key'')
       else Ok ())))"

definition verify_genesis_group_key :: "VerifierCtx \<Rightarrow> TransitionProof \<Rightarrow> (unit, ProofError) result" where
  "verify_genesis_group_key ctx p =
     res_bind (ok_or (group_key (asset p)) (VerificationFailed ''group key required'')) (\<lambda>gk.
       map_err (\<lambda>_. VerificationFailed ''group key not known'') (verify_known_group ctx (group_pub_key gk)))"

section \<open>Time locks\<close>

definition LOCK_TIME_THRESHOLD :: u64 where "LOCK_TIME_THRESHOLD = 500000000"
definition SEQUENCE_LOCK_TIME_DISABLED :: u64 where "SEQUENCE_LOCK_TIME_DISABLED = push_bit 31 1"
definition SEQUENCE_LOCK_TIME_IS_SECONDS :: u64 where "SEQUENCE_LOCK_TIME_IS_SECONDS = push_bit 22 1"
definition SEQUENCE_LOCK_TIME_MASK :: u64 where "SEQUENCE_LOCK_TIME_MASK = 0x0000ffff"

fun check_relative_locks ::
  "VerifierCtx \<Rightarrow> u32 \<Rightarrow> u64 \<Rightarrow> Witness list \<Rightarrow> (unit, ProofError) result" where
  "check_relative_locks ctx height sequence [] = Ok ()"
| "check_relative_locks ctx height sequence (w # ws) =
     (case w_prev_id w of
        None \<Rightarrow> check_relative_locks ctx height sequence ws
      | Some prev_id \<Rightarrow>
          let relative_lock = sequence AND SEQUENCE_LOCK_TIME_MASK in
          res_bind (tx_block_height ctx (op_txid (prev_out_point prev_id))) (\<lambda>input_height.
          res_bind
            (if sequence AND SEQUENCE_LOCK_TIME_IS_SECONDS = SEQUENCE_LOCK_TIME_IS_SECONDS then
               let prev_height = saturating_sub input_height 1 in
               res_bind (mean_block_timestamp ctx prev_height) (\<lambda>in_median.
               res_bind (mean_block_timestamp ctx height) (\<lambda>block_median.
                 let lock_seconds = saturating_sub (push_bit 9 relative_lock) 1 in
                 if block_median < saturating_add in_median lock_seconds then
                   Err (VerificationFailed ''unfinalized asset: relative time lock not met'')
                 else Ok ()))
             else
               let min_height = saturating_add (ucast input_height) relative_lock in
               if (ucast height :: u64) < min_height then Err (VerificationFailed ''unfinalized asset: block_height'')
               else Ok ())
            (\<lambda>_. check_relative_locks ctx height sequence ws)))"

definition check_time_locks :: "VerifierCtx \<Rightarrow> Asset \<Rightarrow> u32 \<Rightarrow> (unit, ProofError) result" where
  "check_time_locks ctx new_asset height =
     res_bind (if height \<noteq> 0 then Ok height else current_height ctx) (\<lambda>height.
     res_bind
       (if a_lock_time new_asset \<noteq> 0 then
          if LOCK_TIME_THRESHOLD < a_lock_time new_asset then
            res_bind (mean_block_timestamp ctx height) (\<lambda>mean_time.
              if mean_time < a_lock_time new_asset then Err (VerificationFailed ''unfinalized asset: block_time'')
              else Ok ())
          else if (ucast height :: u64) < a_lock_time new_asset then
            Err (VerificationFailed ''unfinalized asset: block_height'')
          else Ok ()
        else Ok ())
       (\<lambda>_.
        if relative_lock_time new_asset \<noteq> 0 then
          let sequence = relative_lock_time new_asset in
          if sequence AND SEQUENCE_LOCK_TIME_DISABLED = SEQUENCE_LOCK_TIME_DISABLED then Ok ()
          else check_relative_locks ctx height sequence (prev_witnesses new_asset)
        else Ok ()))"

definition asset_uses_time_lock :: "Asset \<Rightarrow> bool" where
  "asset_uses_time_lock a =
     (if a_lock_time a \<noteq> 0 then True
      else if relative_lock_time a = 0 then False
      else relative_lock_time a AND SEQUENCE_LOCK_TIME_DISABLED \<noteq> SEQUENCE_LOCK_TIME_DISABLED)"

section \<open>Ownership proofs\<close>

definition gen_challenge_nums :: "Secp \<Rightarrow> bytes option \<Rightarrow> (ScriptKey, ProofError) result" where
  "gen_challenge_nums lib challenge =
     (case challenge of
        None \<Rightarrow> Ok (script_key_from_pub_key NUMS_KEY)
      | Some cb \<Rightarrow>
          if \<not> pub_key_valid lib NUMS_KEY then Err (VerificationFailed ''invalid NUMS key'')
          else
            let reduced = reduce_mod_n cb in
            if reduced = zeros 32 then Ok (script_key_from_pub_key NUMS_KEY)
            else if \<not> scalar_valid lib reduced then Err (VerificationFailed ''invalid challenge scalar'')
            else map_ok script_key_from_pub_key
              (ok_or (add_exp_tweak lib NUMS_KEY reduced) (VerificationFailed ''challenge tweak failed'')))"

definition create_ownership_proof_asset ::
  "hash_fun \<Rightarrow> Secp \<Rightarrow> Asset \<Rightarrow> bytes option \<Rightarrow> (PrevId \<times> Asset, ProofError) result" where
  "create_ownership_proof_asset sha lib owned challenge =
     (let prev_id = \<lparr>prev_out_point = \<lparr>op_txid = zeros 32, op_vout = 0\<rparr>, prev_asset_id = asset_id sha owned,
            prev_script_key = sk_pub_key (script_key owned)\<rparr> in
      res_bind (gen_challenge_nums lib challenge) (\<lambda>key.
        Ok (prev_id, (copy_spend_template owned)\<lparr>script_key := key,
          prev_witnesses := [\<lparr>w_prev_id = Some prev_id, tx_witness = [], split_commitment = None\<rparr>]\<rparr>)))"

definition verify_challenge_witness :: "Env \<Rightarrow> TransitionProof \<Rightarrow> bytes option \<Rightarrow> (bool, ProofError) result" where
  "verify_challenge_witness env p challenge =
     res_bind (ok_or (challenge_witness p) (VerificationFailed ''missing challenge witness'')) (\<lambda>wit.
     res_bind (create_ownership_proof_asset (sha256 env) (secp env) (asset p) challenge) (\<lambda>(prev_id, proof_asset).
     let proof_asset = proof_asset\<lparr>prev_witnesses :=
           (prev_witnesses proof_asset)[0 := (prev_witnesses proof_asset ! 0)\<lparr>tx_witness := wit\<rparr>]\<rparr> in
     res_bind (map_err (\<lambda>_. VerificationFailed ''challenge witness invalid'')
         (vm_execute (sha256 env) (btc (secp env)) (schnorr_validator (secp env)) proof_asset []
           [(prev_id, asset p)])) (\<lambda>_.
     Ok (has_split_commitment_witness (asset p)))))"

definition prove_ownership ::
  "Env \<Rightarrow> (bytes \<Rightarrow> (bytes, string) result) \<Rightarrow> TransitionProof \<Rightarrow> bytes option \<Rightarrow>
     (TransitionProof, ProofError) result" where
  "prove_ownership env sign p challenge =
     (let owned = asset p in
      res_bind (create_ownership_proof_asset (sha256 env) (secp env) owned challenge) (\<lambda>(prev_id, proof_asset).
      res_bind (map_err (\<lambda>_. VerificationFailed ''virtual tx'')
          (virtual_tx (sha256 env) proof_asset [(prev_id, owned)])) (\<lambda>(base_tx, _, _).
      res_bind (map_err (\<lambda>_. VerificationFailed ''sighash'')
          (input_key_spend_sighash (btc (secp env)) base_tx owned proof_asset 0 0)) (\<lambda>sighash.
      res_bind (map_err VerificationFailed (sign sighash)) (\<lambda>signature.
      Ok (p\<lparr>challenge_witness := Some [signature]\<rparr>))))))"

section \<open>Verification\<close>

definition asset_point :: "Env \<Rightarrow> TransitionProof \<Rightarrow> PrevId" where
  "asset_point env p =
     \<lparr>prev_out_point = proof_out_point (txlib env) p, prev_asset_id = asset_id (sha256 env) (asset p),
      prev_script_key = sk_pub_key (script_key (asset p))\<rparr>"

definition verify_reveals :: "Env \<Rightarrow> VerifierCtx \<Rightarrow> TransitionProof \<Rightarrow> (unit, ProofError) result" where
  "verify_reveals env ctx p =
     (let is_gen = is_genesis_asset (asset p);
          has_group_key = (group_key (asset p) \<noteq> None);
          has_group_key_reveal = (group_key_reveal p \<noteq> None) in
      res_bind
        (if \<not> is_gen \<and> genesis_reveal p \<noteq> None then Err (VerificationFailed ''non genesis asset has genesis reveal'')
         else if \<not> is_gen \<and> meta_reveal p \<noteq> None then Err (VerificationFailed ''non genesis asset has meta reveal'')
         else if is_gen \<and> genesis_reveal p = None then Err (VerificationFailed ''genesis reveal required'')
         else if is_gen then verify_genesis_reveal env p
         else Ok ()) (\<lambda>_.
      res_bind
        (if \<not> is_gen \<and> has_group_key_reveal then Err (VerificationFailed ''non genesis asset has group key reveal'')
         else if is_gen \<and> \<not> has_group_key \<and> has_group_key_reveal then
           Err (VerificationFailed ''group key required'')
         else if is_gen \<and> has_group_key \<and> \<not> has_group_key_reveal then verify_genesis_group_key ctx p
         else if is_gen \<and> has_group_key \<and> has_group_key_reveal then verify_group_key_reveal env p
         else Ok ()) (\<lambda>_.
      if \<not> is_gen \<and> has_group_key then verify_genesis_group_key ctx p else Ok ())))"

definition verify_integrity ::
  "Env \<Rightarrow> VerifierCtx \<Rightarrow> VerificationOptions \<Rightarrow> TransitionProof \<Rightarrow> (TapCommitment, ProofError) result" where
  "verify_integrity env ctx opts p =
     res_bind (validate_asset_name (txlib env) (tag (genesis (asset p)))) (\<lambda>_.
     res_bind (case ignore_checker ctx of
         None \<Rightarrow> Ok ()
       | Some is_ignored \<Rightarrow>
           res_bind (is_ignored (asset_point env p)) (\<lambda>ignored.
             if ignored then Err (VerificationFailed ''invalid proof: asset point is ignored'') else Ok ())) (\<lambda>_.
     if \<not> tx_spends_prev_out (anchor_tx p) (prev_out p) then
       Err (VerificationFailed ''invalid taproot proof: doesn't spend prev output'')
     else
       res_bind (if skip_chain_verification opts then Ok ()
         else
           res_bind (verify_header ctx (block_header p) (block_height p)) (\<lambda>_.
             verify_tx_merkle ctx (compute_txid (txlib env) (anchor_tx p)) (tx_merkle_proof p)
               (header_merkle_root (block_header p)))) (\<lambda>_.
       res_bind (verify_proofs env p) (\<lambda>tap_commitment.
       res_bind (verify_reveals env ctx p) (\<lambda>_. Ok tap_commitment)))))"

definition input_insert :: "PrevId \<Rightarrow> Asset \<Rightarrow> InputSet \<Rightarrow> InputSet" where
  "input_insert k a inputs = (k, a) # filter (\<lambda>(k', _). k' \<noteq> k) inputs"

definition snapshot_prev_id :: "Env \<Rightarrow> OutPoint \<Rightarrow> AssetSnapshot \<Rightarrow> PrevId" where
  "snapshot_prev_id env op s =
     \<lparr>prev_out_point = op, prev_asset_id = genesis_id (sha256 env) (genesis (snap_asset s)),
      prev_script_key = sk_pub_key (script_key (snap_asset s))\<rparr>"

text \<open>\<open>verify_file\<close> is the verification of an input file, a recursive call in the code.\<close>

fun gather_inputs ::
  "Env \<Rightarrow> (ProofFile \<Rightarrow> (AssetSnapshot, ProofError) result) \<Rightarrow> ProofFile list \<Rightarrow> InputSet \<Rightarrow>
     (InputSet, ProofError) result" where
  "gather_inputs env verify_file [] inputs = Ok inputs"
| "gather_inputs env verify_file (f # fs) inputs =
     res_bind (map_err (\<lambda>_. VerificationFailed ''inputs invalid'') (verify_file f)) (\<lambda>s.
       gather_inputs env verify_file fs (input_insert (snapshot_prev_id env (snap_out_point s) s) (snap_asset s) inputs))"

definition verify_asset_state_transition ::
  "Env \<Rightarrow> VerifierCtx \<Rightarrow> VerificationOptions \<Rightarrow> (ProofFile \<Rightarrow> (AssetSnapshot, ProofError) result) \<Rightarrow>
     AssetSnapshot option \<Rightarrow> TransitionProof \<Rightarrow> (bool, ProofError) result" where
  "verify_asset_state_transition env ctx opts verify_file prev p =
     res_bind (if has_split_commitment_witness (asset p) then
         map_ok (\<lambda>root. ([\<lparr>sa_asset = asset p, sa_output_index = tr_output_index (inclusion_proof p)\<rparr>], root))
           (split_root_asset env p)
       else Ok ([], asset p)) (\<lambda>(split_assets, new_asset).
     let prev_assets = (case prev of
           None \<Rightarrow> [] | Some s \<Rightarrow> input_insert (snapshot_prev_id env (prev_out p) s) (snap_asset s) []) in
     res_bind (gather_inputs env verify_file (additional_inputs p) prev_assets) (\<lambda>prev_assets.
     res_bind (if \<not> skip_time_lock_validation opts \<and> asset_uses_time_lock new_asset
         then check_time_locks ctx new_asset (block_height p) else Ok ()) (\<lambda>_.
     res_bind (map_err (\<lambda>_. VerificationFailed ''state transition'')
         (vm_execute (sha256 env) (btc (secp env)) (schnorr_validator (secp env)) new_asset split_assets prev_assets))
       (\<lambda>_. Ok (split_assets \<noteq> [])))))"

definition snapshot_of :: "Env \<Rightarrow> TransitionProof \<Rightarrow> TapCommitment \<Rightarrow> bool \<Rightarrow> AssetSnapshot" where
  "snapshot_of env p tap_commitment split =
     \<lparr>snap_asset = asset p, snap_out_point = proof_out_point (txlib env) p,
      anchor_block_hash = block_hash (sha256 env) (block_header p), anchor_block_height = block_height p,
      snap_anchor_tx = anchor_tx p, snap_output_index = tr_output_index (inclusion_proof p),
      snap_internal_key = tr_internal_key (inclusion_proof p), script_root = Some tap_commitment,
      tapscript_sibling = (case tr_commitment_proof (inclusion_proof p) of
          Some cp \<Rightarrow> cp_tap_sibling_preimage cp | None \<Rightarrow> None),
      split_asset = split, snap_meta_reveal = meta_reveal p\<rparr>"

definition verify_proof_with ::
  "Env \<Rightarrow> VerifierCtx \<Rightarrow> VerificationOptions \<Rightarrow> (ProofFile \<Rightarrow> (AssetSnapshot, ProofError) result) \<Rightarrow>
     AssetSnapshot option \<Rightarrow> TransitionProof \<Rightarrow> (AssetSnapshot, ProofError) result" where
  "verify_proof_with env ctx opts verify_file prev p =
     res_bind (verify_integrity env ctx opts p) (\<lambda>tap_commitment.
     res_bind (case prev of
         None \<Rightarrow> Ok ()
       | Some s \<Rightarrow> if prev_out p \<noteq> snap_out_point s then
             Err (VerificationFailed ''invalid taproot proof: prev output mismatch'') else Ok ()) (\<lambda>_.
     res_bind (if prev = None \<and> challenge_witness p \<noteq> None then
         verify_challenge_witness env p (challenge_bytes opts)
       else verify_asset_state_transition env ctx opts verify_file prev p) (\<lambda>split.
     Ok (snapshot_of env p tap_commitment split))))"

fun verify_chain_with ::
  "Env \<Rightarrow> VerifierCtx \<Rightarrow> VerificationOptions \<Rightarrow> (ProofFile \<Rightarrow> (AssetSnapshot, ProofError) result) \<Rightarrow>
     HashedProof list \<Rightarrow> AssetSnapshot option \<Rightarrow> (AssetSnapshot option, ProofError) result" where
  "verify_chain_with env ctx opts verify_file [] prev = Ok prev"
| "verify_chain_with env ctx opts verify_file (h # hs) prev =
     res_bind (decode_proof (sha256 env) (pub_key_valid (secp env)) (txlib env) (proof_bytes h)) (\<lambda>decoded.
     res_bind (verify_proof_with env ctx opts verify_file prev decoded) (\<lambda>result.
     verify_chain_with env ctx opts verify_file hs (Some result)))"

definition verify_file_with ::
  "Env \<Rightarrow> VerifierCtx \<Rightarrow> VerificationOptions \<Rightarrow> (ProofFile \<Rightarrow> (AssetSnapshot, ProofError) result) \<Rightarrow>
     ProofFile \<Rightarrow> (AssetSnapshot, ProofError) result" where
  "verify_file_with env ctx opts verify_file f =
     (if file_version f \<noteq> FILE_VERSION_V0 then Err (VerificationFailed ''unknown proof file version'')
      else if proofs f = [] then Err EmptyFile
      else res_bind (verify_chain_with env ctx opts verify_file (proofs f) None) (\<lambda>prev. ok_or prev EmptyFile))"

section \<open>The recursion through input files ends\<close>

definition file_weight :: "ProofFile \<Rightarrow> nat" where
  "file_weight f = foldr (\<lambda>h n. max (length (proof_bytes h)) n) (proofs f) 0"

lemma file_weight_le: "\<forall>h \<in> set (proofs f). length (proof_bytes h) \<le> n \<Longrightarrow> file_weight f \<le> n"
proof -
  have "\<forall>h \<in> set hs. length (proof_bytes h) \<le> n \<Longrightarrow> foldr (\<lambda>h n. max (length (proof_bytes h)) n) hs 0 \<le> n" for hs
    by (induction hs) auto
  then show "\<forall>h \<in> set (proofs f). length (proof_bytes h) \<le> n \<Longrightarrow> ?thesis" by (simp add: file_weight_def)
qed

lemma le_file_weight: "h \<in> set (proofs f) \<Longrightarrow> length (proof_bytes h) \<le> file_weight f"
proof -
  have "h \<in> set hs \<Longrightarrow> length (proof_bytes h) \<le> foldr (\<lambda>h n. max (length (proof_bytes h)) n) hs 0" for hs
    by (induction hs) auto
  then show "h \<in> set (proofs f) \<Longrightarrow> ?thesis" by (simp add: file_weight_def)
qed

lemma file_decode_shorter:
  assumes "file_decode sha data = Ok f" "h \<in> set (proofs f)"
  shows "length (proof_bytes h) < length data"
proof -
  from assms(1) obtain count k where b: "decode_bigsize (drop 8 data) = Ok (count, k)"
    and ps: "decode_proofs sha data (unat count) (8 + k) (zeros 32) = Ok (proofs f)" and "8 \<le> length data"
    by (auto simp: file_decode_def Let_def res_simps split: if_splits)
  then have "8 + k \<le> length data" using decode_bigsize_canonical [OF b] by auto
  from decode_proofs_sound [OF ps this] obtain rest where
    "drop (8 + k) data = concat (map encode_hashed_proof (proofs f)) @ rest" by blast
  moreover have "length (encode_hashed_proof h) \<le> sum_list (map (\<lambda>h. length (encode_hashed_proof h)) (proofs f))"
    using assms(2) by (intro member_le_sum_list) auto
  moreover have "length (proof_bytes h) < length (encode_hashed_proof h)"
    by (simp add: encode_hashed_proof_def bigsize_len_def)
  ultimately have "length (proof_bytes h) < length (drop (8 + k) data)" by (simp add: length_concat comp_def)
  then show ?thesis by simp
qed

lemma fold_records_invariant:
  assumes "\<And>r a b. r \<in> set rs \<Longrightarrow> field r a = Ok b \<Longrightarrow> P a \<Longrightarrow> P b"
  shows "fold_records field rs a = Ok b \<Longrightarrow> P a \<Longrightarrow> P b"
  using assms by (induction rs arbitrary: a) (auto simp: res_simps)

lemma map_ok_eq_Ok_iff [res_simps]: "map_ok f m = Ok y \<longleftrightarrow> (\<exists>x. m = Ok x \<and> y = f x)"
  by (cases m) auto

lemma decode_proof_inputs:
  assumes "decode_proof sha on_curve txl data = Ok p" "f \<in> set (additional_inputs p)"
  shows "\<exists>bs. length bs < length data \<and> file_decode sha bs = Ok f"
proof -
  let ?P = "\<lambda>q :: TransitionProof. \<forall>f \<in> set (additional_inputs q). \<exists>bs. length bs < length data \<and> file_decode sha bs = Ok f"
  from assms(1) obtain s where s: "decode_with_limit (drop 4 data) MAX_PROOF_TLV_VALUE_LENGTH = Ok s"
    and fold: "fold_records (proof_field sha on_curve txl) s proof_default = Ok p"
    by (auto simp: decode_proof_def res_simps split: if_splits)
  have "?P p"
  proof (rule fold_records_invariant [OF _ fold])
    fix r and a b :: TransitionProof
    assume r: "r \<in> set s" "proof_field sha on_curve txl r a = Ok b" "?P a"
    have v: "length (tlv_value r) < length data" using value_shorter [OF s r(1)] by simp
    show "?P b"
    proof (cases "type_num r = 19")
      case True
      then have "decode_additional_inputs sha (tlv_value r) = Ok (additional_inputs b)"
        using r(2) by (auto simp: proof_field_def res_simps)
      then show ?thesis
        using v decode_counted_items unfolding decode_additional_inputs_def by (meson less_trans)
    next
      case False
      then have "additional_inputs b = additional_inputs a"
        using r(2) by (auto simp: proof_field_def Let_def res_simps split: if_splits)
      with r(3) show ?thesis by simp
    qed
  qed (simp add: proof_default_def)
  with assms(2) show ?thesis by blast
qed

lemma decoded_input_lighter:
  assumes "decode_proof sha on_curve txl (proof_bytes h) = Ok p" "g \<in> set (additional_inputs p)" "h \<in> set (proofs f)"
  shows "file_weight g < file_weight f"
proof -
  obtain bs where bs: "length bs < length (proof_bytes h)" "file_decode sha bs = Ok g"
    using decode_proof_inputs [OF assms(1,2)] by blast
  have "file_weight g \<le> length bs" using file_decode_shorter [OF bs(2)] by (intro file_weight_le) force
  with bs(1) le_file_weight [OF assms(3)] show ?thesis by linarith
qed

lemma gather_inputs_cong:
  "(\<And>g. g \<in> set fs \<Longrightarrow> rec g = rec' g) \<Longrightarrow> gather_inputs env rec fs inputs = gather_inputs env rec' fs inputs"
  by (induction fs arbitrary: inputs) (auto intro!: res_bind_cong)

lemma verify_proof_with_cong:
  assumes "\<And>g. g \<in> set (additional_inputs p) \<Longrightarrow> rec g = rec' g"
  shows "verify_proof_with env ctx opts rec prev p = verify_proof_with env ctx opts rec' prev p"
  unfolding verify_proof_with_def verify_asset_state_transition_def Let_def
  using gather_inputs_cong [of "additional_inputs p" rec rec', OF assms]
  by (auto intro!: res_bind_cong)

lemma verify_chain_with_cong:
  assumes "\<And>h p g. h \<in> set hs \<Longrightarrow> decode_proof (sha256 env) (pub_key_valid (secp env)) (txlib env) (proof_bytes h) = Ok p \<Longrightarrow>
    g \<in> set (additional_inputs p) \<Longrightarrow> rec g = rec' g"
  shows "verify_chain_with env ctx opts rec hs prev = verify_chain_with env ctx opts rec' hs prev"
  using assms
proof (induction hs arbitrary: prev)
  case (Cons h hs)
  have "verify_proof_with env ctx opts rec prev p = verify_proof_with env ctx opts rec' prev p"
    if "decode_proof (sha256 env) (pub_key_valid (secp env)) (txlib env) (proof_bytes h) = Ok p" for p
    using Cons.prems [OF _ that] by (intro verify_proof_with_cong) simp
  moreover have "verify_chain_with env ctx opts rec hs q = verify_chain_with env ctx opts rec' hs q" for q
    using Cons.prems by (intro Cons.IH) auto
  ultimately show ?case by (auto intro!: res_bind_cong)
qed simp

lemma verify_file_with_cong [fundef_cong]:
  assumes "env = env'" "ctx = ctx'" "opts = opts'" "f = f'" "\<And>g. file_weight g < file_weight f' \<Longrightarrow> rec g = rec' g"
  shows "verify_file_with env ctx opts rec f = verify_file_with env' ctx' opts' rec' f'"
proof -
  have "verify_chain_with env ctx opts rec (proofs f) None = verify_chain_with env ctx opts rec' (proofs f) None"
    using assms(4,5) by (intro verify_chain_with_cong) (auto intro: decoded_input_lighter)
  with assms(1-4) show ?thesis by (simp add: verify_file_with_def)
qed

function verify_file ::
  "Env \<Rightarrow> VerifierCtx \<Rightarrow> VerificationOptions \<Rightarrow> ProofFile \<Rightarrow> (AssetSnapshot, ProofError) result" where
  "verify_file env ctx opts f = verify_file_with env ctx opts (verify_file env ctx options_default) f"
  by pat_completeness auto
termination by (relation "measure (\<lambda>(_, _, _, f). file_weight f)") simp_all

declare verify_file.simps [simp del]

definition verify_proof ::
  "Env \<Rightarrow> VerifierCtx \<Rightarrow> VerificationOptions \<Rightarrow> AssetSnapshot option \<Rightarrow> TransitionProof \<Rightarrow>
     (AssetSnapshot, ProofError) result" where
  "verify_proof env ctx opts prev p =
     verify_proof_with env ctx opts (verify_file env ctx options_default) prev p"

section \<open>Structural checks\<close>

definition verify_proof_structure :: "hash_fun \<Rightarrow> TxLib \<Rightarrow> TransitionProof \<Rightarrow> (unit, ProofError) result" where
  "verify_proof_structure sha txl p =
     (if is_genesis_asset (asset p) then
        (case genesis_reveal p of
           None \<Rightarrow> Ok ()
         | Some reveal \<Rightarrow>
             if genesis_id sha reveal \<noteq> genesis_id sha (genesis (asset p)) then Err GenesisMismatch
             else if first_prev_out reveal \<noteq> prev_out p then Err GenesisPrevOutMismatch
             else (case meta_reveal p of
               None \<Rightarrow> Ok ()
             | Some m \<Rightarrow>
                 res_bind (meta_validate txl m) (\<lambda>_.
                   if meta_reveal_hash sha m \<noteq> meta_hash reveal then Err MetaHashMismatch else Ok ())))
      else Ok ())"

definition verify_file_structure :: "hash_fun \<Rightarrow> ProofFile \<Rightarrow> (unit, ProofError) result" where
  "verify_file_structure sha f =
     (if \<not> verify_hash_chain sha f then Err InvalidProofHash
      else if proofs f = [] then Err EmptyFile else Ok ())"

end
