(* ===== verification/Commitment_Refine.thy ===== *)
theory Commitment_Refine
  imports Commitment
begin

text \<open>
  What the commitment trees guarantee. A commitment tree that was built and updated by the operations of
  \<open>Commitment\<close> holds exactly the leaves of its maps, so the proofs it hands out lead back to its root;
  and whatever two proofs lead to one root, they agree on the leaf or break the hash function.
\<close>

section \<open>Trees built by the operations\<close>

definition leaf_or_none :: "hash_fun \<Rightarrow> Asset \<Rightarrow> LeafNode" where
  "leaf_or_none sha a = (case asset_leaf sha a of Ok l \<Rightarrow> l | _ \<Rightarrow> leaf_empty)"

definition asset_ops :: "hash_fun \<Rightarrow> Asset list \<Rightarrow> tree_op list" where
  "asset_ops sha assets = map (\<lambda>a. OpInsert (leaf_key_of sha a) (leaf_or_none sha a)) assets"

definition outer_leaf :: "hash_fun \<Rightarrow> AssetCommitmentTree \<Rightarrow> LeafNode" where
  "outer_leaf sha ac =
     (if branch_hash sha (ac_tree_root (act_commitment ac)) = empty_tree_root_hash sha then leaf_empty
      else tap_commitment_leaf sha (act_commitment ac))"

definition commitment_ops :: "hash_fun \<Rightarrow> AssetCommitmentTree list \<Rightarrow> tree_op list" where
  "commitment_ops sha acs =
     map (\<lambda>ac. OpInsert (ac_tap_key (act_commitment ac)) (tap_commitment_leaf sha (act_commitment ac))) acs"

text \<open>\<open>act_reach sha S t f\<close>: the tree \<open>t\<close> was built by \<open>act_new\<close> and updates by \<open>act_upsert\<close>, and the insertions put
  the content \<open>f\<close> in its sum tree; each insertion is admissible in the sense of \<open>Mssmt_Refine\<close>. \<open>tct_reach\<close> is the
  same for the outer tree.\<close>

inductive act_reach :: "hash_fun \<Rightarrow> bytes set \<Rightarrow> AssetCommitmentTree \<Rightarrow> content \<Rightarrow> bool" for sha S where
  act_reach_new: "act_new sha assets = Ok t \<Longrightarrow> separated sha S no_content \<Longrightarrow>
    steps_admissible (admissible sha S) (asset_ops sha assets) no_content \<Longrightarrow>
    act_reach sha S t (apply_ops (asset_ops sha assets) no_content)"
| act_reach_upsert: "act_reach sha S t f \<Longrightarrow> act_upsert sha a t = Ok t' \<Longrightarrow>
    admissible sha S f (leaf_key_of sha a) (leaf_or_none sha a) \<Longrightarrow>
    act_reach sha S t' (f(key_bits (leaf_key_of sha a) := leaf_or_none sha a))"

inductive tct_reach :: "hash_fun \<Rightarrow> bytes set \<Rightarrow> TapCommitmentTree \<Rightarrow> content \<Rightarrow> bool" for sha S where
  tct_reach_new: "tct_new sha ver acs = Ok t \<Longrightarrow> (\<forall>ac \<in> set acs. \<exists>S f. act_reach sha S ac f) \<Longrightarrow>
    separated sha S no_content \<Longrightarrow> steps_admissible (admissible sha S) (commitment_ops sha acs) no_content \<Longrightarrow>
    tct_reach sha S t (apply_ops (commitment_ops sha acs) no_content)"
| tct_reach_upsert: "tct_reach sha S t g \<Longrightarrow> tct_upsert sha ac t = (Ok (), t') \<Longrightarrow> act_reach sha S' ac f \<Longrightarrow>
    admissible sha S g (ac_tap_key (act_commitment ac)) (outer_leaf sha ac) \<Longrightarrow>
    tct_reach sha S t' (g(key_bits (ac_tap_key (act_commitment ac)) := outer_leaf sha ac))"

section \<open>Content and maps\<close>

text \<open>\<open>content_of m f\<close>: the content \<open>f\<close> holds the leaves of the map \<open>m\<close> under its 32-byte keys and nothing else.\<close>

definition content_of :: "(bytes \<rightharpoonup> LeafNode) \<Rightarrow> content \<Rightarrow> bool" where
  "content_of m f \<longleftrightarrow> (\<forall>k. length k = 32 \<longrightarrow> f (key_bits k) = (case m k of Some l \<Rightarrow> l | None \<Rightarrow> leaf_empty))"

lemma content_of_empty: "content_of Map.empty no_content"
  by (simp add: content_of_def no_content_def)

lemma content_of_upd:
  "content_of m f \<Longrightarrow> length k = 32 \<Longrightarrow> content_of (m(k \<mapsto> l)) (f(key_bits k := l))"
  by (auto simp: content_of_def dest: key_bits_inject)

lemma content_of_remove:
  "content_of m f \<Longrightarrow> length k = 32 \<Longrightarrow> content_of (m(k := None)) (f(key_bits k := leaf_empty))"
  by (auto simp: content_of_def dest: key_bits_inject)

lemma tree_insert_success:
  assumes "full_inv sha S s f" "admissible sha S f key leaf" "tree_insert sha key leaf s = Ok s'"
  shows "full_inv sha S s' (f(key_bits key := leaf))"
  using full.run_ops_success [OF assms(1), of "[OpInsert key leaf]" s'] assms(2,3)
  by (simp del: fun_upd_apply)

lemma tree_delete_success:
  assumes "full_inv sha S s f" "admissible sha S f key leaf_empty" "tree_delete sha key s = Ok s'"
  shows "full_inv sha S s' (f(key_bits key := leaf_empty))"
  using full.run_ops_success [OF assms(1), of "[OpDelete key]" s'] assms(2,3)
  by (simp del: fun_upd_apply)

lemma separated_sha_32: "separated sha S f \<Longrightarrow> sha_32 sha"
  by (simp add: separated_def)

lemma length_keys [simp]:
  "sha_32 sha \<Longrightarrow> length (leaf_key_of sha a) = 32" "sha_32 sha \<Longrightarrow> length (tap_key_of sha a) = 32"
  "sha_32 sha \<Longrightarrow> length (genesis_id sha g) = 32"
  by (simp_all add: leaf_key_of_def tap_key_of_def asset_commitment_key_of_def tap_commitment_key_def genesis_id_def
      split: option.splits)

lemma leaf_or_none_Ok [simp]: "asset_leaf sha a = Ok l \<Longrightarrow> leaf_or_none sha a = l"
  by (simp add: leaf_or_none_def)

section \<open>The inner tree\<close>

text \<open>The assets of a commitment lie under their own keys and share the tap key and the type.\<close>

definition asset_entries :: "hash_fun \<Rightarrow> bytes \<Rightarrow> AssetType \<Rightarrow> (bytes \<times> Asset) list \<Rightarrow> bool" where
  "asset_entries sha tap_key ty am \<longleftrightarrow> btree_sorted am
     \<and> (\<forall>k a. map_of am k = Some a \<longrightarrow> k = leaf_key_of sha a \<and> tap_key_of sha a = tap_key
          \<and> g_asset_type (genesis a) = ty \<and> (\<exists>l. asset_leaf sha a = Ok l))"

definition leaf_map :: "hash_fun \<Rightarrow> (bytes \<times> Asset) list \<Rightarrow> bytes \<rightharpoonup> LeafNode" where
  "leaf_map sha am k = map_option (leaf_or_none sha) (map_of am k)"

definition act_inv :: "hash_fun \<Rightarrow> bytes set \<Rightarrow> AssetCommitmentTree \<Rightarrow> content \<Rightarrow> bool" where
  "act_inv sha S t f \<longleftrightarrow> full_inv sha S (act_tree t) f
     \<and> ac_tree_root (act_commitment t) = tree_root sha (act_tree t)
     \<and> content_of (leaf_map sha (act_assets t)) f
     \<and> asset_entries sha (ac_tap_key (act_commitment t)) (ac_asset_type (act_commitment t)) (act_assets t)
     \<and> length (ac_tap_key (act_commitment t)) = 32"

lemma leaf_map_insert:
  "btree_sorted am \<Longrightarrow> leaf_map sha (btree_insert (leaf_key_of sha a) a am)
    = (leaf_map sha am)(leaf_key_of sha a \<mapsto> leaf_or_none sha a)"
  by (simp add: fun_eq_iff leaf_map_def)

lemma asset_entries_insert:
  "asset_entries sha tk ty am \<Longrightarrow> tap_key_of sha a = tk \<Longrightarrow> g_asset_type (genesis a) = ty \<Longrightarrow>
    asset_leaf sha a = Ok l \<Longrightarrow> asset_entries sha tk ty (btree_insert (leaf_key_of sha a) a am)"
  by (auto simp: asset_entries_def btree_sorted_insert)

lemma content_of_insert:
  assumes "content_of (leaf_map sha am) f" "btree_sorted am" "sha_32 sha"
  shows "content_of (leaf_map sha (btree_insert (leaf_key_of sha a) a am))
    (f(key_bits (leaf_key_of sha a) := leaf_or_none sha a))"
  unfolding leaf_map_insert [OF assms(2)] using content_of_upd [OF assms(1)] assms(3) by simp

lemma act_new_loop_inv:
  assumes "act_new_loop sha tk ty assets tree am ver = Ok (tree', am', ver')"
    and "full_inv sha S tree f" "steps_admissible (admissible sha S) (asset_ops sha assets) f"
    and "content_of (leaf_map sha am) f" "asset_entries sha tk ty am"
  shows "full_inv sha S tree' (apply_ops (asset_ops sha assets) f)
    \<and> content_of (leaf_map sha am') (apply_ops (asset_ops sha assets) f)
    \<and> asset_entries sha tk ty am'"
  using assms
proof (induction assets arbitrary: tree am ver f)
  case (Cons a assets)
  let ?f = "f(key_bits (leaf_key_of sha a) := leaf_or_none sha a)"
  from Cons.prems(1) obtain leaf tree1 where a: "tap_key_of sha a = tk" "g_asset_type (genesis a) = ty"
    "asset_leaf sha a = Ok leaf" "tree_insert sha (leaf_key_of sha a) leaf tree = Ok tree1"
    and rec: "act_new_loop sha tk ty assets tree1 (btree_insert (leaf_key_of sha a) a am)
      (max_asset_version ver (a_version a)) = Ok (tree', am', ver')"
    by (auto simp: res_simps split: if_splits)
  have adm: "admissible sha S f (leaf_key_of sha a) (leaf_or_none sha a)"
    "steps_admissible (admissible sha S) (asset_ops sha assets) ?f"
    using Cons.prems(3) by (simp_all add: asset_ops_def del: fun_upd_apply)
  have sha: "sha_32 sha" using full_invD(2) [OF Cons.prems(2)] by (rule separated_sha_32)
  have "full_inv sha S tree1 ?f"
    using tree_insert_success [OF Cons.prems(2) adm(1)] a(3,4) by simp
  moreover have "content_of (leaf_map sha (btree_insert (leaf_key_of sha a) a am)) ?f"
    using Cons.prems(5) by (intro content_of_insert [OF Cons.prems(4) _ sha]) (simp add: asset_entries_def)
  moreover have "asset_entries sha tk ty (btree_insert (leaf_key_of sha a) a am)"
    using Cons.prems(5) a by (intro asset_entries_insert)
  ultimately show ?case
    using Cons.IH [OF rec _ adm(2)] by (simp add: asset_ops_def del: fun_upd_apply)
qed (simp add: asset_ops_def)

lemma act_upsert_inv:
  assumes "act_inv sha S t f" "act_upsert sha a t = Ok t'"
    and "admissible sha S f (leaf_key_of sha a) (leaf_or_none sha a)"
  shows "act_inv sha S t' (f(key_bits (leaf_key_of sha a) := leaf_or_none sha a))"
proof -
  from assms(2) obtain leaf tree where
    a: "g_asset_type (genesis a) = ac_asset_type (act_commitment t)" "tap_key_of sha a = ac_tap_key (act_commitment t)"
      "asset_leaf sha a = Ok leaf" "tree_insert sha (leaf_key_of sha a) leaf (act_tree t) = Ok tree"
    and t': "t' = \<lparr>act_commitment = asset_commitment_from_root
        (max_asset_version (ac_version (act_commitment t)) (a_version a)) (ac_tap_key (act_commitment t))
        (ac_asset_type (act_commitment t)) (tree_root sha tree),
      act_tree = tree, act_assets = btree_insert (leaf_key_of sha a) a (act_assets t)\<rparr>"
    by (auto simp: act_upsert_def Let_def res_simps split: if_splits)
  have inv: "full_inv sha S (act_tree t) f" using assms(1) by (simp add: act_inv_def)
  have sha: "sha_32 sha" using full_invD(2) [OF inv] by (rule separated_sha_32)
  have "full_inv sha S tree (f(key_bits (leaf_key_of sha a) := leaf_or_none sha a))"
    using tree_insert_success [OF inv assms(3)] a(3,4) by simp
  moreover have "content_of (leaf_map sha (btree_insert (leaf_key_of sha a) a (act_assets t)))
    (f(key_bits (leaf_key_of sha a) := leaf_or_none sha a))"
    using assms(1) sha by (intro content_of_insert) (simp_all add: act_inv_def asset_entries_def)
  moreover have "asset_entries sha (ac_tap_key (act_commitment t)) (ac_asset_type (act_commitment t))
      (btree_insert (leaf_key_of sha a) a (act_assets t))"
    using assms(1) a by (intro asset_entries_insert) (simp_all add: act_inv_def)
  ultimately show ?thesis
    using assms(1) by (simp add: act_inv_def t' asset_commitment_from_root_def del: fun_upd_apply)
qed

lemma full_inv_empty: "separated sha S no_content \<Longrightarrow> full_inv sha S full_tree_new no_content"
  by (rule full_inv_new)

lemma act_reach_inv: "act_reach sha S t f \<Longrightarrow> act_inv sha S t f"
proof (induction rule: act_reach.induct)
  case (act_reach_new assets t)
  then obtain first rest where assets: "assets = first # rest" by (cases assets) (auto simp: act_new_def)
  let ?tk = "tap_key_of sha first" and ?ty = "g_asset_type (genesis first)"
  from act_reach_new(1) obtain tree am ver where
    loop: "act_new_loop sha ?tk ?ty assets full_tree_new [] (a_version first) = Ok (tree, am, ver)"
    and t: "t = \<lparr>act_commitment = asset_commitment_from_root ver ?tk ?ty (tree_root sha tree),
      act_tree = tree, act_assets = am\<rparr>"
    unfolding act_new_def assets by (auto simp: Let_def res_simps)
  have "full_inv sha S tree (apply_ops (asset_ops sha assets) no_content)
    \<and> content_of (leaf_map sha am) (apply_ops (asset_ops sha assets) no_content)
    \<and> asset_entries sha ?tk ?ty am"
    using content_of_empty
    by (intro act_new_loop_inv [OF loop full_inv_empty [OF act_reach_new(2)] act_reach_new(3)])
      (simp_all add: asset_entries_def leaf_map_def [abs_def])
  then show ?case
    using separated_sha_32 [OF act_reach_new(2)]
    by (simp add: act_inv_def t asset_commitment_from_root_def)
next
  case (act_reach_upsert t f a t')
  then show ?case by (intro act_upsert_inv)
qed

section \<open>The outer tree\<close>

definition outer_map :: "hash_fun \<Rightarrow> (bytes \<times> AssetCommitmentTree) list \<Rightarrow> bytes \<rightharpoonup> LeafNode" where
  "outer_map sha cm k = map_option (\<lambda>ac. tap_commitment_leaf sha (act_commitment ac)) (map_of cm k)"

definition commitment_entries :: "hash_fun \<Rightarrow> (bytes \<times> AssetCommitmentTree) list \<Rightarrow> bool" where
  "commitment_entries sha cm \<longleftrightarrow> btree_sorted cm
     \<and> (\<forall>k ac. map_of cm k = Some ac \<longrightarrow> k = ac_tap_key (act_commitment ac) \<and> (\<exists>S f. act_inv sha S ac f))"

definition tct_inv :: "hash_fun \<Rightarrow> bytes set \<Rightarrow> TapCommitmentTree \<Rightarrow> content \<Rightarrow> bool" where
  "tct_inv sha S t g \<longleftrightarrow> full_inv sha S (tct_tree t) g
     \<and> tc_tree_root (tct_commitment t) = tree_root sha (tct_tree t)
     \<and> content_of (outer_map sha (asset_commitments t)) g \<and> commitment_entries sha (asset_commitments t)"

lemma outer_map_insert:
  "btree_sorted cm \<Longrightarrow> outer_map sha (btree_insert k ac cm)
    = (outer_map sha cm)(k \<mapsto> tap_commitment_leaf sha (act_commitment ac))"
  by (simp add: fun_eq_iff outer_map_def)

lemma outer_map_remove: "outer_map sha (btree_remove k cm) = (outer_map sha cm)(k := None)"
  by (simp add: fun_eq_iff outer_map_def)

lemma commitment_entries_insert:
  "commitment_entries sha cm \<Longrightarrow> act_inv sha S ac f \<Longrightarrow>
    commitment_entries sha (btree_insert (ac_tap_key (act_commitment ac)) ac cm)"
  by (auto simp: commitment_entries_def btree_sorted_insert)

lemma commitment_entries_remove: "commitment_entries sha cm \<Longrightarrow> commitment_entries sha (btree_remove k cm)"
  by (auto simp: commitment_entries_def btree_sorted_remove split: if_splits)

lemma tct_new_loop_inv:
  assumes "tct_new_loop sha acs tree cm = Ok (tree', cm')"
    and "\<forall>ac \<in> set acs. \<exists>S f. act_inv sha S ac f"
    and "full_inv sha S tree g" "steps_admissible (admissible sha S) (commitment_ops sha acs) g"
    and "content_of (outer_map sha cm) g" "commitment_entries sha cm"
  shows "full_inv sha S tree' (apply_ops (commitment_ops sha acs) g)
    \<and> content_of (outer_map sha cm') (apply_ops (commitment_ops sha acs) g) \<and> commitment_entries sha cm'"
  using assms
proof (induction acs arbitrary: tree cm g)
  case (Cons ac acs)
  let ?k = "ac_tap_key (act_commitment ac)" and ?l = "tap_commitment_leaf sha (act_commitment ac)"
  from Cons.prems(1) obtain tree1 where ins: "tree_insert sha ?k ?l tree = Ok tree1"
    and rec: "tct_new_loop sha acs tree1 (btree_insert ?k ac cm) = Ok (tree', cm')"
    by (auto simp: Let_def res_simps split: if_splits)
  obtain S' f where ac: "act_inv sha S' ac f" using Cons.prems(2) by auto
  have adm: "admissible sha S g ?k ?l" "steps_admissible (admissible sha S) (commitment_ops sha acs) (g(key_bits ?k := ?l))"
    using Cons.prems(4) by (simp_all add: commitment_ops_def del: fun_upd_apply)
  have "content_of (outer_map sha (btree_insert ?k ac cm)) (g(key_bits ?k := ?l))"
    using Cons.prems(5,6) ac
    by (subst outer_map_insert) (auto simp: commitment_entries_def act_inv_def intro: content_of_upd)
  moreover note tree_insert_success [OF Cons.prems(3) adm(1) ins] commitment_entries_insert [OF Cons.prems(6) ac]
  ultimately show ?case
    using Cons.IH [OF rec _ _ adm(2)] Cons.prems(2) by (simp add: commitment_ops_def del: fun_upd_apply)
qed (simp add: commitment_ops_def)

lemma tct_upsert_inv:
  assumes inv: "tct_inv sha S t g" and ok: "tct_upsert sha ac t = (Ok (), t')" and ac: "act_inv sha S' ac f"
    and adm: "admissible sha S g (ac_tap_key (act_commitment ac)) (outer_leaf sha ac)"
  shows "tct_inv sha S t' (g(key_bits (ac_tap_key (act_commitment ac)) := outer_leaf sha ac))"
proof -
  let ?k = "ac_tap_key (act_commitment ac)" and ?l = "outer_leaf sha ac"
  let ?empty = "branch_hash sha (ac_tree_root (act_commitment ac)) = empty_tree_root_hash sha"
  let ?cm = "if ?empty then btree_remove ?k (asset_commitments t) else btree_insert ?k ac (asset_commitments t)"
  from ok obtain tree v where
    tree: "(if ?empty then tree_delete sha ?k (tct_tree t) else tree_insert sha ?k ?l (tct_tree t)) = Ok tree"
    and t': "t' = t\<lparr>tct_tree := tree, asset_commitments := ?cm,
        tct_commitment := tap_commitment_from_root v (tree_root sha tree)\<rparr>"
    by (cases ?empty) (auto simp: tct_upsert_def outer_leaf_def Let_def res_simps split: result.splits)
  have full: "full_inv sha S (tct_tree t) g" and cm: "commitment_entries sha (asset_commitments t)"
    and cont: "content_of (outer_map sha (asset_commitments t)) g"
    using inv by (simp_all add: tct_inv_def)
  have k: "length ?k = 32" using ac by (simp add: act_inv_def)
  have "full_inv sha S tree (g(key_bits ?k := ?l))"
    using tree tree_delete_success [OF full] tree_insert_success [OF full] adm
    by (cases ?empty) (auto simp: outer_leaf_def simp del: fun_upd_apply)
  moreover have "content_of (outer_map sha ?cm) (g(key_bits ?k := ?l))"
    using cm content_of_upd [OF cont k] content_of_remove [OF cont k]
    by (cases ?empty) (auto simp: outer_map_insert outer_map_remove outer_leaf_def commitment_entries_def
        simp del: fun_upd_apply)
  moreover have "commitment_entries sha ?cm"
    using commitment_entries_insert [OF cm ac] commitment_entries_remove [OF cm] by simp
  ultimately show ?thesis
    by (simp add: tct_inv_def t' tap_commitment_from_root_def del: fun_upd_apply)
qed

lemma tct_reach_inv: "tct_reach sha S t g \<Longrightarrow> tct_inv sha S t g"
proof (induction rule: tct_reach.induct)
  case (tct_reach_new ver acs t)
  obtain tree cm where loop: "tct_new_loop sha acs full_tree_new [] = Ok (tree, cm)"
    and t: "t = \<lparr>tct_commitment = tap_commitment_from_root ver (tree_root sha tree), tct_tree = tree,
      asset_commitments = cm\<rparr>"
    using tct_reach_new(1) by (auto simp: tct_new_def res_simps)
  have acs: "\<forall>ac \<in> set acs. \<exists>S f. act_inv sha S ac f"
    using tct_reach_new(2) by (blast intro: act_reach_inv)
  have "full_inv sha S tree (apply_ops (commitment_ops sha acs) no_content)
    \<and> content_of (outer_map sha cm) (apply_ops (commitment_ops sha acs) no_content) \<and> commitment_entries sha cm"
    using content_of_empty
    by (intro tct_new_loop_inv [OF loop acs full_inv_empty [OF tct_reach_new(3)] tct_reach_new(4)])
      (simp_all add: commitment_entries_def outer_map_def [abs_def])
  then show ?case by (simp add: tct_inv_def t tap_commitment_from_root_def)
next
  case (tct_reach_upsert t g ac t' S' f)
  then show ?case by (intro tct_upsert_inv act_reach_inv)
qed

section \<open>Proofs lead back to the root\<close>

lemma kids_equal_leaf:
  assumes "kids_equal sha b f" "kids_equal sha b' f"
  shows "commitment_preimage sha k b = commitment_preimage sha k b'" "branch_sum b = branch_sum b'"
    "branch_hash sha b = branch_hash sha b'"
  using assms by (cases b; cases b'; simp add: kids_equal_def is_equal_node_def commitment_preimage_def)+

lemma build_leaf_eq:
  assumes "act_inv sha S ac f" "kids_equal sha b f"
  shows "build_asset_commitment_leaf sha (ac_version (act_commitment ac)) (ac_tap_key (act_commitment ac)) b
    = tap_commitment_leaf sha (act_commitment ac)"
proof -
  have "kids_equal sha (ac_tree_root (act_commitment ac)) f"
    using assms(1) tree_root_kids [of sha S "act_tree ac" f] by (simp add: act_inv_def)
  from kids_equal_leaf [OF assms(2) this] show ?thesis
    by (simp add: build_asset_commitment_leaf_def tap_commitment_leaf_def asset_commitment_root_def)
qed

lemma tap_leaf_cong:
  assumes "tct_inv sha S t g" "kids_equal sha b g"
  shows "tap_leaf sha (tap_commitment_from_root (tc_version (tct_commitment t)) b) = tap_leaf sha (tct_commitment t)"
proof -
  have "kids_equal sha (tc_tree_root (tct_commitment t)) g"
    using assms(1) tree_root_kids [of sha S "tct_tree t" g] by (simp add: tct_inv_def)
  from kids_equal_leaf [OF assms(2) this] show ?thesis
    by (simp add: tap_leaf_def tap_commitment_from_root_def Let_def split: TapCommitmentVersion.splits)
qed

lemma act_asset_proof_at:
  assumes "act_inv sha S ac f" "length ak = 32"
  obtains p where "act_asset_proof sha ak ac = Ok (map_of (act_assets ac) ak, p)"
    and "kids_equal sha (proof_root ak (Leaf (case map_of (act_assets ac) ak of
           Some a \<Rightarrow> leaf_or_none sha a | None \<Rightarrow> leaf_empty)) p) f"
proof -
  have full: "full_inv sha S (act_tree ac) f" and cont: "content_of (leaf_map sha (act_assets ac)) f"
    using assms(1) by (simp_all add: act_inv_def)
  obtain p where "tree_merkle_proof sha ak (act_tree ac) = Ok p" "kids_equal sha (proof_root ak (Leaf (f (key_bits ak))) p) f"
    using tree_merkle_proof_kids [OF full] by blast
  with cont assms(2) that show ?thesis
    by (cases "map_of (act_assets ac) ak") (auto simp: act_asset_proof_def content_of_def leaf_map_def)
qed

lemma tct_merkle_proof_at:
  assumes "tct_inv sha S t g" "length tk = 32"
  obtains p where "tct_merkle_proof sha tk t = Ok p"
    and "kids_equal sha (proof_root tk (Leaf (case map_of (asset_commitments t) tk of
           Some ac \<Rightarrow> tap_commitment_leaf sha (act_commitment ac) | None \<Rightarrow> leaf_empty)) p) g"
proof -
  have full: "full_inv sha S (tct_tree t) g" and cont: "content_of (outer_map sha (asset_commitments t)) g"
    using assms(1) by (simp_all add: tct_inv_def)
  obtain p where "tree_merkle_proof sha tk (tct_tree t) = Ok p" "kids_equal sha (proof_root tk (Leaf (g (key_bits tk))) p) g"
    using tree_merkle_proof_kids [OF full] by blast
  with cont assms(2) that show ?thesis
    by (cases "map_of (asset_commitments t) tk") (auto simp: tct_merkle_proof_def content_of_def outer_map_def)
qed

section \<open>Two proofs for one root\<close>

definition wf_commitment_proof :: "hash_fun \<Rightarrow> CommitmentProof \<Rightarrow> bool" where
  "wf_commitment_proof sha p \<longleftrightarrow>
     length (tp_proof (cp_taproot_asset_proof p)) = 256 \<and> wf_siblings sha (tp_proof (cp_taproot_asset_proof p))
     \<and> pred_option (\<lambda>ap. length (ap_proof ap) = 256 \<and> wf_siblings sha (ap_proof ap)) (cp_asset_proof p)"

text \<open>The leaf that a proof claims to lie under the two keys: \<open>Some l\<close> for an inclusion of \<open>l\<close>, \<open>None\<close> for
  an exclusion of either kind.\<close>

definition proves ::
  "hash_fun \<Rightarrow> CommitmentProof \<Rightarrow> bytes \<Rightarrow> bytes \<Rightarrow> LeafNode option \<Rightarrow> BranchNode \<Rightarrow> bool" where
  "proves sha p tk ak claim root \<longleftrightarrow>
     (case claim of
        Some l \<Rightarrow> derive_by_asset_inclusion sha p ak l tk = Ok root
      | None \<Rightarrow> derive_by_asset_exclusion sha p ak tk = Ok root \<or> derive_by_commitment_exclusion p tk = Ok root)"

definition claimed_leaf :: "LeafNode option \<Rightarrow> LeafNode" where
  "claimed_leaf claim = (case claim of Some l \<Rightarrow> l | None \<Rightarrow> leaf_empty)"

text \<open>Everything hashed while a commitment proof is evaluated.\<close>

definition derivation_preimages :: "hash_fun \<Rightarrow> CommitmentProof \<Rightarrow> bytes \<Rightarrow> bytes \<Rightarrow> LeafNode \<Rightarrow> bytes list" where
  "derivation_preimages sha p tk ak l =
     (case cp_asset_proof p of
        None \<Rightarrow> proof_preimages sha tk leaf_empty (tp_proof (cp_taproot_asset_proof p))
      | Some ap \<Rightarrow>
          let inner = proof_root ak (Leaf l) (ap_proof ap);
              ac_leaf = build_asset_commitment_leaf sha (ap_version ap) tk inner
          in proof_preimages sha ak l (ap_proof ap) @ commitment_preimage sha tk inner
             # proof_preimages sha tk ac_leaf (tp_proof (cp_taproot_asset_proof p)))"

lemma branch_hash_proof_root:
  "length p = 256 \<Longrightarrow> branch_hash sha (proof_root key leaf p) = node_hash sha (proof_up key 256 leaf p)"
  by (simp add: branch_hash_def proof_root_branch)

text \<open>The leaf a derivation puts under the tap key of the outer tree.\<close>

definition derived_outer_leaf :: "hash_fun \<Rightarrow> CommitmentProof \<Rightarrow> bytes \<Rightarrow> bytes \<Rightarrow> LeafNode \<Rightarrow> LeafNode" where
  "derived_outer_leaf sha p tk ak l =
     (case cp_asset_proof p of
        None \<Rightarrow> leaf_empty
      | Some ap \<Rightarrow> build_asset_commitment_leaf sha (ap_version ap) tk (proof_root ak (Leaf l) (ap_proof ap)))"

lemma proves_root:
  assumes "proves sha p tk ak claim root"
  shows "root = proof_root tk (Leaf (derived_outer_leaf sha p tk ak (claimed_leaf claim))) (tp_proof (cp_taproot_asset_proof p))
    \<and> (cp_asset_proof p = None \<longrightarrow> claim = None)"
  using assms
  by (cases "cp_asset_proof p"; cases claim)
    (auto simp: proves_def derived_outer_leaf_def claimed_leaf_def derive_by_asset_inclusion_def
      derive_by_asset_exclusion_def derive_by_commitment_exclusion_def Let_def)

lemma build_leaf_value:
  "length (leaf_value (build_asset_commitment_leaf sha v tk b)) = 9 + length (sha (commitment_preimage sha tk b))"
  by (simp add: build_asset_commitment_leaf_def leaf_new_def Let_def)

lemma build_leaf_eqD:
  assumes "sha_32 sha" "build_asset_commitment_leaf sha v tk b = build_asset_commitment_leaf sha w tk c"
  shows "sha (commitment_preimage sha tk b) = sha (commitment_preimage sha tk c) \<and> branch_sum b = branch_sum c"
  using assms by (simp add: build_asset_commitment_leaf_def leaf_new_def Let_def)

lemma commitment_preimage_eqD:
  assumes "commitment_preimage sha tk b = commitment_preimage sha tk c" "branch_sum b = branch_sum c"
  shows "branch_hash sha b = branch_hash sha c"
  using assms by (cases b; cases c) (simp add: commitment_preimage_def branch_preimage_def, metis append.assoc)

lemma inner_binding:
  assumes "sha_32 sha" "length p = 256" "length q = 256" "wf_siblings sha p" "wf_siblings sha q"
    and "build_asset_commitment_leaf sha v tk (proof_root ak (Leaf l) p)
      = build_asset_commitment_leaf sha w tk (proof_root ak (Leaf m) q)"
  shows "l = m \<or> collision sha (proof_preimages sha ak l p @ [commitment_preimage sha tk (proof_root ak (Leaf l) p)])
    (proof_preimages sha ak m q @ [commitment_preimage sha tk (proof_root ak (Leaf m) q)])"
proof (cases "commitment_preimage sha tk (proof_root ak (Leaf l) p) = commitment_preimage sha tk (proof_root ak (Leaf m) q)")
  case True
  then have "node_hash sha (proof_up ak 256 (Leaf l) p) = node_hash sha (proof_up ak 256 (Leaf m) q)"
    using commitment_preimage_eqD [OF True] build_leaf_eqD [OF assms(1,6)] assms(2,3)
    by (simp add: branch_hash_proof_root)
  from leaf_binding [OF assms(1-5) this] show ?thesis by (auto intro: collision_mono)
next
  case False
  with build_leaf_eqD [OF assms(1,6)] show ?thesis by (auto simp: collision_def)
qed

lemma claims_bind:
  assumes "sha_32 sha" "wf_commitment_proof sha p" "wf_commitment_proof sha q"
    and "proves sha p tk ak c r" "proves sha q tk ak d r'" "branch_hash sha r = branch_hash sha r'"
  shows "claimed_leaf c = claimed_leaf d
    \<or> collision sha (derivation_preimages sha p tk ak (claimed_leaf c)) (derivation_preimages sha q tk ak (claimed_leaf d))"
proof -
  let ?po = "tp_proof (cp_taproot_asset_proof p)" and ?qo = "tp_proof (cp_taproot_asset_proof q)"
  let ?l = "derived_outer_leaf sha p tk ak (claimed_leaf c)" and ?m = "derived_outer_leaf sha q tk ak (claimed_leaf d)"
  have wf: "length ?po = 256" "length ?qo = 256" "wf_siblings sha ?po" "wf_siblings sha ?qo"
    using assms(2,3) by (simp_all add: wf_commitment_proof_def)
  have "node_hash sha (proof_up tk 256 (Leaf ?l) ?po) = node_hash sha (proof_up tk 256 (Leaf ?m) ?qo)"
    using proves_root [OF assms(4)] proves_root [OF assms(5)] assms(6) wf by (simp add: branch_hash_proof_root)
  from leaf_binding [OF assms(1) wf this]
  have outer: "?l = ?m \<or> collision sha (proof_preimages sha tk ?l ?po) (proof_preimages sha tk ?m ?qo)" .
  have sub: "set (proof_preimages sha tk ?l ?po) \<subseteq> set (derivation_preimages sha p tk ak (claimed_leaf c))"
    "set (proof_preimages sha tk ?m ?qo) \<subseteq> set (derivation_preimages sha q tk ak (claimed_leaf d))"
    by (auto simp: derivation_preimages_def derived_outer_leaf_def Let_def split: option.splits)
  show ?thesis
  proof (cases "?l = ?m")
    case False
    with outer sub show ?thesis by (auto intro: collision_mono)
  next
    case True
    have built: "build_asset_commitment_leaf sha v tk b \<noteq> leaf_empty" for v b
      using build_leaf_value [of sha v tk b] by auto
    consider "cp_asset_proof p = None" "cp_asset_proof q = None"
      | a b where "cp_asset_proof p = Some a" "cp_asset_proof q = Some b"
      using True built built [symmetric]
      by (cases "cp_asset_proof p"; cases "cp_asset_proof q") (auto simp: derived_outer_leaf_def)
    then show ?thesis
    proof cases
      case 1
      then show ?thesis using proves_root [OF assms(4)] proves_root [OF assms(5)] by simp
    next
      case (2 a b)
      let ?bp = "commitment_preimage sha tk (proof_root ak (Leaf (claimed_leaf c)) (ap_proof a))"
      let ?bq = "commitment_preimage sha tk (proof_root ak (Leaf (claimed_leaf d)) (ap_proof b))"
      have "claimed_leaf c = claimed_leaf d \<or> collision sha (proof_preimages sha ak (claimed_leaf c) (ap_proof a) @ [?bp])
          (proof_preimages sha ak (claimed_leaf d) (ap_proof b) @ [?bq])"
        using 2 True assms(1-3)
        by (intro inner_binding) (auto simp: wf_commitment_proof_def derived_outer_leaf_def)
      then show ?thesis
        using 2 by (auto simp: derivation_preimages_def Let_def intro: collision_mono)
    qed
  qed
qed

section \<open>Sibling preimages\<close>

lemma length_tap_leaf: "sha_32 sha \<Longrightarrow> length (tap_leaf sha c) = 73"
  by (cases "tc_version c")
    (simp_all add: tap_leaf_def Let_def TAPROOT_ASSETS_MARKER_def TAPROOT_ASSETS_V2_TAG_def branch_hash_def)

lemma tap_leaf_is_commitment_script:
  assumes "sha_32 sha" "TAPROOT_ASSETS_V2_TAG sha ! 0 \<notin> {0, 1}"
  shows "is_tap_commitment_script sha (tap_leaf sha c)"
proof -
  have tags: "length (TAPROOT_ASSETS_V2_TAG sha) = 32" "length (TAPROOT_ASSETS_MARKER sha) = 32"
    using assms(1) by (simp_all add: TAPROOT_ASSETS_V2_TAG_def TAPROOT_ASSETS_MARKER_def)
  then show ?thesis
    using assms(2) length_tap_leaf [OF assms(1), of c]
    by (cases "tc_version c") (simp_all add: is_tap_commitment_script_def, simp_all add: tap_leaf_def Let_def nth_append)
qed

lemma tap_hash_Ok_iff:
  "tap_hash sha p = Ok h \<longleftrightarrow>
     (sibling_type p = 0 \<and> (\<exists>v raw script. sibling_preimage p = v # raw \<and> raw \<noteq> []
        \<and> read_var_bytes raw = Ok (script, length raw) \<and> \<not> is_tap_commitment_script sha script
        \<and> h = tap_leaf_hash sha v script))
     \<or> (sibling_type p = 1 \<and> length (sibling_preimage p) = 64
        \<and> h = tap_branch_hash sha (take 32 (sibling_preimage p)) (drop 32 (sibling_preimage p)))"
proof (cases "sibling_preimage p")
  case (Cons v raw)
  then show ?thesis
    by (cases raw) (auto simp: tap_hash_def preimage_is_empty_def Let_def res_simps split: if_splits)
qed (simp add: tap_hash_def preimage_is_empty_def)

section \<open>A commitment to one asset\<close>

definition demo_token :: Asset where
  "demo_token = new_genesis genesis_empty 1000 (script_key_from_pub_key NUMS_KEY)"

definition demo_token_leaf :: LeafNode where
  "demo_token_leaf = leaf_new (encode_asset demo_hash demo_token EncodeNormal) 1000"

lemma demo_token_facts:
  "asset_leaf demo_hash demo_token = Ok demo_token_leaf"
  "length (leaf_value demo_token_leaf) \<noteq> 64" "demo_token_leaf \<noteq> leaf_empty"
proof -
  have to_leaf: "asset_to_leaf demo_hash demo_token = Ok demo_token_leaf"
    by (simp add: asset_to_leaf_def encode_asset_leaf_def demo_token_leaf_def demo_token_def new_genesis_def)
  then show "asset_leaf demo_hash demo_token = Ok demo_token_leaf" by (simp add: asset_leaf_def)
  have "wf_genesis (genesis demo_token)"
    by (simp add: demo_token_def new_genesis_def wf_genesis_def genesis_empty_def wf_asset_type_def asset_type_from_u8_def)
  from asset_leaf_sized [OF this to_leaf] show "length (leaf_value demo_token_leaf) \<noteq> 64" by simp
  show "demo_token_leaf \<noteq> leaf_empty" by (simp add: demo_token_leaf_def leaf_empty_def leaf_new_def)
qed

lemma one_asset_tree:
  assumes "asset_leaf demo_hash a = Ok leaf" "wf_genesis (genesis a)"
  obtains ac S f where "act_new demo_hash [a] = Ok ac" "act_reach demo_hash S ac f"
    "act_assets ac = [(leaf_key_of demo_hash a, a)]" "ac_tap_key (act_commitment ac) = tap_key_of demo_hash a"
proof -
  let ?k = "leaf_key_of demo_hash a" and ?S = "single_set (leaf_key_of demo_hash a) leaf"
  have "asset_to_leaf demo_hash a = Ok leaf" using assms(1) by (auto simp: asset_leaf_def res_simps)
  from asset_leaf_sized [OF assms(2) this] have "length (leaf_value leaf) \<noteq> 64" "leaf \<noteq> leaf_empty"
    by (auto simp: leaf_empty_def leaf_new_def)
  note single = demo_single_leaf [OF this, of ?k]
  obtain s where s: "tree_insert demo_hash ?k leaf full_tree_new = Ok s" using single(4) by blast
  let ?ac = "\<lparr>act_commitment = asset_commitment_from_root (max_asset_version (a_version a) (a_version a))
      (tap_key_of demo_hash a) (g_asset_type (genesis a)) (tree_root demo_hash s),
      act_tree = s, act_assets = [(?k, a)]\<rparr>"
  have new: "act_new demo_hash [a] = Ok ?ac"
    by (simp add: act_new_def assms(1) s)
  moreover have "steps_admissible (admissible demo_hash ?S) (asset_ops demo_hash [a]) no_content"
    using single(3) by (simp add: asset_ops_def assms(1))
  then have "act_reach demo_hash ?S ?ac (apply_ops (asset_ops demo_hash [a]) no_content)"
    by (rule act_reach_new [OF new single(2)])
  ultimately show ?thesis by (rule that) (simp_all add: asset_commitment_from_root_def)
qed

lemma tap_commitment_leaf_sized:
  assumes "sha_32 sha"
  shows "length (leaf_value (tap_commitment_leaf sha c)) = 41"
  using assms by (simp add: tap_commitment_leaf_def Let_def leaf_new_def asset_commitment_root_def)

lemma one_asset_commitment:
  assumes "asset_leaf demo_hash a = Ok leaf" "wf_genesis (genesis a)"
  obtains ac t S g where "act_new demo_hash [a] = Ok ac" "tct_new demo_hash ver [ac] = Ok t" "tct_reach demo_hash S t g"
    "asset_commitments t = [(tap_key_of demo_hash a, ac)]" "act_assets ac = [(leaf_key_of demo_hash a, a)]"
proof -
  obtain ac S f where ac: "act_new demo_hash [a] = Ok ac" "act_reach demo_hash S ac f"
    "act_assets ac = [(leaf_key_of demo_hash a, a)]" "ac_tap_key (act_commitment ac) = tap_key_of demo_hash a"
    by (rule one_asset_tree [OF assms])
  let ?k = "tap_key_of demo_hash a" and ?l = "tap_commitment_leaf demo_hash (act_commitment ac)"
  have l: "length (leaf_value ?l) = 41" by (rule tap_commitment_leaf_sized [OF sha_32_demo_hash])
  then have "length (leaf_value ?l) \<noteq> 64" "?l \<noteq> leaf_empty" by auto
  note single = demo_single_leaf [OF this, of ?k]
  obtain s where s: "tree_insert demo_hash ?k ?l full_tree_new = Ok s" using single(4) by blast
  let ?t = "\<lparr>tct_commitment = tap_commitment_from_root ver (tree_root demo_hash s), tct_tree = s,
    asset_commitments = [(?k, ac)]\<rparr>"
  have new: "tct_new demo_hash ver [ac] = Ok ?t"
    by (simp add: tct_new_def Let_def ac(4) s)
  have "steps_admissible (admissible demo_hash (single_set ?k ?l)) (commitment_ops demo_hash [ac]) no_content"
    using single(3) by (simp add: commitment_ops_def ac(4))
  from tct_reach_new [OF new _ single(2) this] ac(2)
  have "tct_reach demo_hash (single_set ?k ?l) ?t (apply_ops (commitment_ops demo_hash [ac]) no_content)" by auto
  then show ?thesis by (rule that [OF ac(1) new]) (simp_all add: ac(3))
qed

lemma demo_tap_tree:
  obtains t S g ac where "tct_reach demo_hash S t g"
    "asset_commitments t = [(tap_key_of demo_hash demo_token, ac)]"
    "act_assets ac = [(leaf_key_of demo_hash demo_token, demo_token)]"
proof -
  have "wf_genesis (genesis demo_token)"
    by (simp add: demo_token_def new_genesis_def wf_genesis_def genesis_empty_def wf_asset_type_def asset_type_from_u8_def)
  then show ?thesis by (rule one_asset_commitment [OF demo_token_facts(1)]) (rule that)
qed

lemma tct_proof_derives:
  assumes "tct_reach sha S t g" "length tk = 32" "length ak = 32"
  shows "\<exists>asset p root. tct_proof sha tk ak t = Ok (asset, p)
    \<and> (case map_of (asset_commitments t) tk of
         None \<Rightarrow> asset = None \<and> derive_by_commitment_exclusion p tk = Ok root \<and> cp_asset_proof p = None
       | Some ac \<Rightarrow> (\<exists>ap. cp_asset_proof p = Some ap \<and> ap_tap_key ap = tk) \<and>
           (case map_of (act_assets ac) ak of
              None \<Rightarrow> asset = None \<and> derive_by_asset_exclusion sha p ak tk = Ok root
            | Some a \<Rightarrow> asset = Some a
                \<and> (\<exists>leaf. asset_leaf sha a = Ok leaf \<and> derive_by_asset_inclusion sha p ak leaf tk = Ok root)))
    \<and> tp_version (cp_taproot_asset_proof p) = tc_version (tct_commitment t) \<and> cp_tap_sibling_preimage p = None
    \<and> tap_leaf sha (tap_commitment_from_root (tc_version (tct_commitment t)) root) = tap_leaf sha (tct_commitment t)"
proof -
  have inv: "tct_inv sha S t g" using assms(1) by (rule tct_reach_inv)
  obtain po where po: "tct_merkle_proof sha tk t = Ok po"
    "kids_equal sha (proof_root tk (Leaf (case map_of (asset_commitments t) tk of
           Some ac \<Rightarrow> tap_commitment_leaf sha (act_commitment ac) | None \<Rightarrow> leaf_empty)) po) g"
    by (rule tct_merkle_proof_at [OF inv assms(2)])
  note root = tap_leaf_cong [OF inv po(2)]
  show ?thesis
  proof (cases "map_of (asset_commitments t) tk")
    case None
    with po(1) root show ?thesis
      by (simp add: tct_proof_def derive_by_commitment_exclusion_def del: split_paired_Ex)
  next
    case (Some ac)
    have entries: "commitment_entries sha (asset_commitments t)" using inv by (simp add: tct_inv_def)
    with Some have tk: "ac_tap_key (act_commitment ac) = tk"
      unfolding commitment_entries_def by blast
    from entries Some obtain S' f where ac: "act_inv sha S' ac f"
      unfolding commitment_entries_def by blast
    obtain pi where pi: "act_asset_proof sha ak ac = Ok (map_of (act_assets ac) ak, pi)"
      "kids_equal sha (proof_root ak (Leaf (case map_of (act_assets ac) ak of
           Some a \<Rightarrow> leaf_or_none sha a | None \<Rightarrow> leaf_empty)) pi) f"
      by (rule act_asset_proof_at [OF ac assms(3)])
    note leaf = build_leaf_eq [OF ac pi(2), unfolded tk]
    show ?thesis
    proof (cases "map_of (act_assets ac) ak")
      case None
      with Some po(1) pi(1) root leaf tk show ?thesis
        by (simp add: tct_proof_def derive_by_asset_exclusion_def del: split_paired_Ex)
    next
      case asset: (Some a)
      then obtain l where "asset_leaf sha a = Ok l"
        using ac by (auto simp: act_inv_def asset_entries_def)
      with asset Some po(1) pi(1) root leaf tk show ?thesis
        by (simp add: tct_proof_def derive_by_asset_inclusion_def del: split_paired_Ex)
    qed
  qed
qed

section \<open>Properties\<close>

text \<open>C19: the proofs of a commitment tree are complete. Whatever insertions and updates built the tree, for
  any tap key and asset key it produces a proof, and the proof derives a root with the tree's own tapscript leaf:
  by commitment exclusion when no asset commitment lies under the tap key, by asset exclusion when the commitment
  is there without the asset, and by asset inclusion with the asset's leaf when the asset is committed.\<close>

theorem commitment_proof_complete:
  assumes "tct_reach sha S t g" "length tk = 32" "length ak = 32"
  shows "\<exists>asset p root. tct_proof sha tk ak t = Ok (asset, p)
    \<and> (case map_of (asset_commitments t) tk of
         None \<Rightarrow> asset = None \<and> derive_by_commitment_exclusion p tk = Ok root
       | Some ac \<Rightarrow>
           (case map_of (act_assets ac) ak of
              None \<Rightarrow> asset = None \<and> derive_by_asset_exclusion sha p ak tk = Ok root
            | Some a \<Rightarrow> asset = Some a
                \<and> (\<exists>leaf. asset_leaf sha a = Ok leaf \<and> derive_by_asset_inclusion sha p ak leaf tk = Ok root)))
    \<and> tap_leaf sha (tap_commitment_from_root (tc_version (tct_commitment t)) root) = tap_leaf sha (tct_commitment t)"
  using tct_proof_derives [OF assms] by (fastforce split: option.splits del: exE)

theorem commitment_proof_complete_witness:
  "\<exists>t p root. asset_commitments t \<noteq> []
    \<and> tct_proof demo_hash (tap_key_of demo_hash demo_token) (leaf_key_of demo_hash demo_token) t = Ok (Some demo_token, p)
    \<and> derive_by_asset_inclusion demo_hash p (leaf_key_of demo_hash demo_token) demo_token_leaf
        (tap_key_of demo_hash demo_token) = Ok root"
proof -
  obtain t S g ac where t: "tct_reach demo_hash S t g"
    "asset_commitments t = [(tap_key_of demo_hash demo_token, ac)]"
    "act_assets ac = [(leaf_key_of demo_hash demo_token, demo_token)]"
    by (rule demo_tap_tree)
  have len: "length (tap_key_of demo_hash demo_token) = 32" "length (leaf_key_of demo_hash demo_token) = 32"
    by (simp_all add: sha_32_demo_hash)
  from commitment_proof_complete [OF t(1) len] obtain p root where
    "tct_proof demo_hash (tap_key_of demo_hash demo_token) (leaf_key_of demo_hash demo_token) t = Ok (Some demo_token, p)"
    "derive_by_asset_inclusion demo_hash p (leaf_key_of demo_hash demo_token) demo_token_leaf
        (tap_key_of demo_hash demo_token) = Ok root"
    by (auto simp: t(2,3) demo_token_facts(1))
  with t(2) show ?thesis by (intro exI conjI) auto
qed

text \<open>C20: commitment proofs bind. If two well-formed proofs derive the same root for the same tap key and asset key,
  they agree on the leaf under the keys: two inclusions are of the same leaf, and an asset that one proof includes
  (its leaf is never the empty leaf) cannot be excluded by another, neither from its asset commitment nor with
  the whole commitment; otherwise two different strings hashed by the two derivations have the same digest.\<close>

theorem commitment_proof_binding:
  assumes "sha_32 sha" "wf_commitment_proof sha p" "wf_commitment_proof sha q"
    and "proves sha p tk ak c r" "proves sha q tk ak d r'" "branch_hash sha r = branch_hash sha r'"
  shows "claimed_leaf c = claimed_leaf d
    \<or> collision sha (derivation_preimages sha p tk ak (claimed_leaf c)) (derivation_preimages sha q tk ak (claimed_leaf d))"
  by (rule claims_bind [OF assms])

theorem commitment_proof_binding_witness:
  "\<exists>p. wf_commitment_proof (\<lambda>_. zeros 32) p
    \<and> collision (\<lambda>_. zeros 32) (derivation_preimages (\<lambda>_. zeros 32) p (zeros 32) (zeros 32) demo_leaf)
        (derivation_preimages (\<lambda>_. zeros 32) p (zeros 32) (zeros 32) leaf_empty)"
proof -
  let ?h = "\<lambda>_ :: bytes. zeros 32" and ?sibs = "replicate 256 (computed (zeros 32) 0)"
  let ?p = "CommitmentProof (Some \<lparr>ap_proof = ?sibs, ap_version = AssetV0, ap_tap_key = zeros 32, ap_unknown_odd_types = []\<rparr>)
    \<lparr>tp_proof = ?sibs, tp_version = TapV0, tp_unknown_odd_types = []\<rparr> None [] []"
  have sha: "sha_32 ?h" by (simp add: sha_32_def)
  have wf: "wf_commitment_proof ?h ?p" by (simp add: wf_commitment_proof_def wf_siblings_def)
  have hash: "branch_hash ?h b = zeros 32" for b by (cases b) simp
  obtain r where r: "proves ?h ?p (zeros 32) (zeros 32) (Some demo_leaf) r"
    by (simp add: proves_def derive_by_asset_inclusion_def Let_def del: split_paired_Ex split_paired_All)
  obtain r' where r': "proves ?h ?p (zeros 32) (zeros 32) None r'"
    by (simp add: proves_def derive_by_asset_exclusion_def derive_by_commitment_exclusion_def Let_def
        del: split_paired_Ex split_paired_All)
  have "branch_hash ?h r = branch_hash ?h r'" by (simp only: hash)
  from commitment_proof_binding [OF sha wf wf r r' this] demo_leaf_facts(2) wf show ?thesis
    by (auto simp: claimed_leaf_def)
qed

text \<open>The sibling next to a commitment is never a second commitment. Whenever a sibling preimage has a tap hash, it
  is the branch hash of two 32-byte children, or the leaf hash of a script that differs from the tapscript
  leaf of every tap commitment of every version. (The first byte of the version-2 tag, the SHA-256 digest of a fixed
  string, is neither 0 nor 1.)\<close>

theorem sibling_is_no_commitment:
  assumes "sha_32 sha" "TAPROOT_ASSETS_V2_TAG sha ! 0 \<notin> {0, 1}" "tap_hash sha p = Ok h"
  shows "(\<exists>a b. length a = 32 \<and> length b = 32 \<and> sibling_preimage p = a @ b \<and> h = tap_branch_hash sha a b)
    \<or> (\<exists>v script. h = tap_leaf_hash sha v script \<and> (\<forall>c. script \<noteq> tap_leaf sha c))"
  using assms(3) tap_leaf_is_commitment_script [OF assms(1,2)] unfolding tap_hash_Ok_iff
proof (elim disjE)
  assume "sibling_type p = 1 \<and> length (sibling_preimage p) = 64
    \<and> h = tap_branch_hash sha (take 32 (sibling_preimage p)) (drop 32 (sibling_preimage p))"
  then show ?thesis
    by (intro disjI1 exI [of _ "take 32 (sibling_preimage p)"] exI [of _ "drop 32 (sibling_preimage p)"]) simp
qed blast

theorem sibling_is_no_commitment_witness:
  "\<exists>v script. tap_leaf_hash (\<lambda>_. replicate 32 7) 0xc0 [1, 2] = tap_leaf_hash (\<lambda>_. replicate 32 7) v script
     \<and> (\<forall>c. script \<noteq> tap_leaf (\<lambda>_. replicate 32 7) c)"
proof -
  have "tap_hash (\<lambda>_. replicate 32 7) \<lparr>sibling_type = 0, sibling_preimage = [0xc0, 2, 1, 2]\<rparr>
    = Ok (tap_leaf_hash (\<lambda>_. replicate 32 7) 0xc0 [1, 2])"
    by (simp add: tap_hash_def preimage_is_empty_def read_var_bytes_def Let_def usize_add_def slice_of_def
        is_tap_commitment_script_def)
  from sibling_is_no_commitment [OF _ _ this] show ?thesis
    by (auto simp: sha_32_def TAPROOT_ASSETS_V2_TAG_def append_eq_conv_conj dest: arg_cong [of _ _ length])
qed

text \<open>C26: a commitment tree is well-formed however it was built. In every reachable tree the recorded root is the root of
  the sum tree, the maps are in strictly ascending key order, every asset commitment lies under its own tap key, and
  within it every asset lies under its own asset key, has that tap key and the commitment's asset type and
  a version that can be encoded.\<close>

theorem commitment_tree_well_formed:
  assumes "tct_reach sha S t g" "map_of (asset_commitments t) k = Some ac" "map_of (act_assets ac) j = Some a"
  shows "tc_tree_root (tct_commitment t) = tree_root sha (tct_tree t)
    \<and> ac_tree_root (act_commitment ac) = tree_root sha (act_tree ac)
    \<and> btree_sorted (asset_commitments t) \<and> btree_sorted (act_assets ac)
    \<and> k = ac_tap_key (act_commitment ac) \<and> k = tap_key_of sha a \<and> j = leaf_key_of sha a
    \<and> g_asset_type (genesis a) = ac_asset_type (act_commitment ac) \<and> a_version a \<in> {AssetV0, AssetV1}"
proof -
  have inv: "tct_inv sha S t g" using assms(1) by (rule tct_reach_inv)
  then obtain S' f where ac: "act_inv sha S' ac f" "k = ac_tap_key (act_commitment ac)"
    using assms(2) unfolding tct_inv_def commitment_entries_def by blast
  obtain l where "asset_leaf sha a = Ok l" using ac(1) assms(3) by (auto simp: act_inv_def asset_entries_def)
  then have "a_version a \<in> {AssetV0, AssetV1}"
    by (cases "a_version a") (auto simp: asset_leaf_def asset_to_leaf_def encode_asset_leaf_def)
  with inv ac assms(3) show ?thesis
    by (auto simp: tct_inv_def commitment_entries_def act_inv_def asset_entries_def)
qed

theorem commitment_tree_well_formed_witness:
  "\<exists>(t :: TapCommitmentTree) ac. map_of (asset_commitments t) (tap_key_of demo_hash demo_token) = Some ac
    \<and> tc_tree_root (tct_commitment t) = tree_root demo_hash (tct_tree t)"
proof -
  obtain t S g ac where t: "tct_reach demo_hash S t g"
    "asset_commitments t = [(tap_key_of demo_hash demo_token, ac)]"
    "act_assets ac = [(leaf_key_of demo_hash demo_token, demo_token)]"
    by (rule demo_tap_tree)
  then have "map_of (asset_commitments t) (tap_key_of demo_hash demo_token) = Some ac"
    "map_of (act_assets ac) (leaf_key_of demo_hash demo_token) = Some demo_token" by simp_all
  from commitment_tree_well_formed [OF t(1) this] this(1) show ?thesis by blast
qed

end
