(* ===== verification/Proof_Sound.thy ===== *)
theory Proof_Sound
  imports Proof_Verify Commitment_Refine
begin

text \<open>
  What an accepted proof, and an accepted file, establish. The lemmas take the verifier apart into the facts it
  has checked; the properties put them together for the outputs of the anchor transaction, for the chain of transitions, for the
  genesis and for the time locks.
\<close>

section \<open>Outputs\<close>

text \<open>The output at an index is a taproot output whose key tweaks the internal key with a tapscript tree holding
  the commitment \<open>c\<close> (beside the sibling, if there is one).\<close>

definition output_holds :: "Env \<Rightarrow> AnchorTx \<Rightarrow> TaprootProof \<Rightarrow> TapscriptPreimage option \<Rightarrow> TapCommitment \<Rightarrow> bool" where
  "output_holds env anchor tp preimage c \<longleftrightarrow>
     (\<exists>sibling key. sibling_hash (sha256 env) preimage = Ok sibling
        \<and> taproot_output_key (sha256 env) (secp env) (tr_internal_key tp) (tapscript_root (sha256 env) c sibling) = Ok key
        \<and> unat (tr_output_index tp) < length (atx_output anchor)
        \<and> is_pay_to_taproot (script_pubkey (atx_output anchor ! unat (tr_output_index tp)))
        \<and> drop 2 (script_pubkey (atx_output anchor ! unat (tr_output_index tp))) = key)"

definition output_commits :: "Env \<Rightarrow> AnchorTx \<Rightarrow> TaprootProof \<Rightarrow> Asset \<Rightarrow> TapCommitment \<Rightarrow> bool" where
  "output_commits env anchor tp a c \<longleftrightarrow>
     (\<exists>cp ap leaf. tr_commitment_proof tp = Some cp \<and> cp_asset_proof cp = Some ap
        \<and> asset_leaf (sha256 env) (without_split_commitment a) = Ok leaf
        \<and> derive_by_asset_inclusion (sha256 env) cp (leaf_key_of (sha256 env) (without_split_commitment a)) leaf
            (ap_tap_key ap) = Ok (tc_tree_root c)
        \<and> tc_version c \<in> {tp_version (cp_taproot_asset_proof cp), TapV0}
        \<and> output_holds env anchor tp (cp_tap_sibling_preimage cp) c)"

lemma extract_taproot_key_Ok:
  "extract_taproot_key tx idx = Ok key \<longleftrightarrow>
     unat idx < length (atx_output tx) \<and> is_pay_to_taproot (script_pubkey (atx_output tx ! unat idx))
     \<and> drop 2 (script_pubkey (atx_output tx ! unat idx)) = key"
  by (auto simp: extract_taproot_key_def Let_def is_pay_to_taproot_def)

lemma find_SomeD: "find P xs = Some x \<Longrightarrow> x \<in> set xs \<and> P x"
  by (induction xs) (auto split: if_splits)

lemma match_derived_Ok:
  "match_derived expected keys = Ok r \<Longrightarrow> \<exists>c. r = Some c \<and> (expected, c) \<in> set keys"
  by (auto simp: match_derived_def split: option.splits dest!: find_SomeD)

lemma derive_commitment_keys_Ok:
  assumes "derive_commitment_keys env root ver ik preimage = Ok keys" "(key, c) \<in> set keys"
  shows "tc_tree_root c = root \<and> tc_version c \<in> {ver, TapV0}
    \<and> (\<exists>sibling. sibling_hash (sha256 env) preimage = Ok sibling
         \<and> taproot_output_key (sha256 env) (secp env) ik (tapscript_root (sha256 env) c sibling) = Ok key)"
  using assms
  by (auto simp: derive_commitment_keys_def Let_def res_simps tap_commitment_from_root_def downgrade_def)

lemma commitment_proof_of_Ok:
  "commitment_proof_of tp = Ok cp \<longleftrightarrow> tr_commitment_proof tp = Some cp \<and> tr_tapscript_proof tp = None"
  by (auto simp: commitment_proof_of_def split: option.splits)

lemma verified_inclusion:
  assumes "verify_taproot_proof env anchor tp a True = Ok r"
  shows "\<exists>c. r = Some c \<and> output_commits env anchor tp a c"
proof -
  from assms obtain expected keys where ex: "extract_taproot_key anchor (tr_output_index tp) = Ok expected"
    and ks: "keys_by_asset_inclusion env tp a = Ok keys" and m: "match_derived expected keys = Ok r"
    by (auto simp: verify_taproot_proof_def res_simps)
  obtain c where c: "r = Some c" "(expected, c) \<in> set keys" using match_derived_Ok [OF m] by blast
  from ks obtain cp ap leaf root where cp: "tr_commitment_proof tp = Some cp" "cp_asset_proof cp = Some ap"
    "asset_leaf (sha256 env) (without_split_commitment a) = Ok leaf"
    "derive_by_asset_inclusion (sha256 env) cp (leaf_key_of (sha256 env) (without_split_commitment a)) leaf (ap_tap_key ap)
      = Ok root"
    and dk: "derive_commitment_keys env root (tp_version (cp_taproot_asset_proof cp)) (tr_internal_key tp)
      (cp_tap_sibling_preimage cp) = Ok keys"
    by (auto simp: keys_by_asset_inclusion_def Let_def res_simps commitment_proof_of_Ok)
  note d = derive_commitment_keys_Ok [OF dk c(2)]
  have "output_holds env anchor tp (cp_tap_sibling_preimage cp) c"
    using d ex unfolding output_holds_def extract_taproot_key_Ok by blast
  with c(1) cp d show ?thesis unfolding output_commits_def by blast
qed

lemma verify_v0_loop_Ok:
  assumes "verify_v0_loop env p eps outputs versions = Ok (rest, versions')"
  shows "(\<forall>ep \<in> set eps. \<exists>r. verify_taproot_proof env (anchor_tx p) ep (asset p) False = Ok r)
    \<and> set rest = set outputs - tr_output_index ` set eps"
  using assms
proof (induction eps arbitrary: outputs versions)
  case (Cons ep eps)
  then obtain r where r: "verify_taproot_proof env (anchor_tx p) ep (asset p) False = Ok r"
    and rec: "verify_v0_loop env p eps (removeAll (tr_output_index ep) outputs)
      (case r of Some c \<Rightarrow> versions @ [(tr_output_index ep, tc_version c)] | None \<Rightarrow> versions) = Ok (rest, versions')"
    by (auto simp: res_simps)
  from Cons.IH [OF rec] r show ?case by auto
qed simp

lemma verified_exclusions:
  assumes "verify_exclusion_proofs env p = Ok v" "i \<in> set (other_p2tr_outputs p)"
  shows "\<exists>ep \<in> set (exclusion_proofs p). tr_output_index ep = i
    \<and> (\<exists>r. verify_taproot_proof env (anchor_tx p) ep (asset p) False = Ok r)"
proof -
  have "other_p2tr_outputs p \<noteq> []" using assms(2) by auto
  with assms(1) obtain versions where "verify_v0_exclusion_proofs env p (other_p2tr_outputs p) = Ok versions"
    by (auto simp: verify_exclusion_proofs_def Let_def res_simps)
  then have "verify_v0_loop env p (exclusion_proofs p) (other_p2tr_outputs p) [] = Ok ([], versions)"
    by (auto simp: verify_v0_exclusion_proofs_def res_simps split: if_splits)
  from verify_v0_loop_Ok [OF this] assms(2) show ?thesis by auto
qed

lemma verify_proofs_Ok:
  assumes "verify_proofs env p = Ok c"
  shows "output_commits env (anchor_tx p) (inclusion_proof p) (asset p) c
    \<and> (\<exists>v. verify_exclusion_proofs env p = Ok v)
    \<and> (has_split_commitment_witness (asset p) \<longrightarrow> (\<exists>root_asset srp c'. split_root_asset env p = Ok root_asset
        \<and> split_root_proof p = Some srp \<and> output_commits env (anchor_tx p) srp root_asset c'))"
proof -
  from assms obtain v where incl: "verify_inclusion_proof env p = Ok c" and ex: "verify_exclusion_proofs env p = Ok v"
    and split: "has_split_commitment_witness (asset p) \<Longrightarrow> verify_split_root_proof env p = Ok ()"
    by (auto simp: verify_proofs_def res_simps split: if_splits option.splits)
  from incl have "verify_taproot_proof env (anchor_tx p) (inclusion_proof p) (asset p) True = Ok (Some c)"
    by (auto simp: verify_inclusion_proof_def Let_def res_simps split: if_splits)
  moreover have "\<exists>root_asset srp c'. split_root_asset env p = Ok root_asset \<and> split_root_proof p = Some srp
      \<and> output_commits env (anchor_tx p) srp root_asset c'" if "has_split_commitment_witness (asset p)"
    using split [OF that] unfolding verify_split_root_proof_def
    by (auto simp: res_simps dest!: verified_inclusion)
  ultimately show ?thesis using verified_inclusion ex by blast
qed

lemma verify_integrity_Ok:
  "verify_integrity env ctx opts p = Ok c \<longleftrightarrow>
     validate_asset_name (txlib env) (tag (genesis (asset p))) = Ok ()
     \<and> pred_option (\<lambda>is_ignored. is_ignored (asset_point env p) = Ok False) (ignore_checker ctx)
     \<and> tx_spends_prev_out (anchor_tx p) (prev_out p)
     \<and> (skip_chain_verification opts \<or> verify_header ctx (block_header p) (block_height p) = Ok ()
          \<and> verify_tx_merkle ctx (compute_txid (txlib env) (anchor_tx p)) (tx_merkle_proof p)
              (header_merkle_root (block_header p)) = Ok ())
     \<and> verify_proofs env p = Ok c \<and> verify_reveals env ctx p = Ok ()"
  by (cases "ignore_checker ctx") (auto simp: verify_integrity_def res_simps split: if_splits)

section \<open>Chains of proofs\<close>

lemma chain_snapshots:
  assumes "verify_chain_with env ctx opts rec hs prev = Ok r"
  shows "\<exists>ps ss. length ps = length hs \<and> length ss = length hs
    \<and> (\<forall>i < length hs. decode_proof (sha256 env) (pub_key_valid (secp env)) (txlib env) (proof_bytes (hs ! i)) = Ok (ps ! i)
         \<and> verify_proof_with env ctx opts rec (if i = 0 then prev else Some (ss ! (i - 1))) (ps ! i) = Ok (ss ! i))
    \<and> r = (if hs = [] then prev else Some (last ss))"
  using assms
proof (induction hs arbitrary: prev)
  case (Cons h hs)
  then obtain p s where p: "decode_proof (sha256 env) (pub_key_valid (secp env)) (txlib env) (proof_bytes h) = Ok p"
    "verify_proof_with env ctx opts rec prev p = Ok s" and rec: "verify_chain_with env ctx opts rec hs (Some s) = Ok r"
    by (auto simp: res_simps)
  from Cons.IH [OF rec] obtain ps ss where IH: "length ps = length hs" "length ss = length hs"
    "\<forall>i < length hs. decode_proof (sha256 env) (pub_key_valid (secp env)) (txlib env) (proof_bytes (hs ! i)) = Ok (ps ! i)
       \<and> verify_proof_with env ctx opts rec (if i = 0 then Some s else Some (ss ! (i - 1))) (ps ! i) = Ok (ss ! i)"
    "r = (if hs = [] then Some s else Some (last ss))" by blast
  have "\<forall>i < Suc (length hs). decode_proof (sha256 env) (pub_key_valid (secp env)) (txlib env) (proof_bytes ((h # hs) ! i))
        = Ok ((p # ps) ! i)
      \<and> verify_proof_with env ctx opts rec (if i = 0 then prev else Some ((s # ss) ! (i - 1))) ((p # ps) ! i)
        = Ok ((s # ss) ! i)"
  proof -
    have "(if i = 0 then Some s else Some (ss ! (i - 1))) = Some ((s # ss) ! i)" for i by (cases i) simp_all
    then show ?thesis unfolding All_less_Suc2 using IH(3) p by simp
  qed
  moreover have "r = Some (last (s # ss))" using IH(2,4) by (cases hs) auto
  ultimately show ?case using IH(1,2) by (intro exI [of _ "p # ps"] exI [of _ "s # ss"]) simp
qed simp

text \<open>The asset the engine runs on: the asset of the proof, or the root asset of its split commitment.\<close>

definition transition_target :: "Env \<Rightarrow> TransitionProof \<Rightarrow> (SplitAsset list \<times> Asset, ProofError) result" where
  "transition_target env p =
     (if has_split_commitment_witness (asset p)
      then map_ok (\<lambda>root. ([\<lparr>sa_asset = asset p, sa_output_index = tr_output_index (inclusion_proof p)\<rparr>], root))
             (split_root_asset env p)
      else Ok ([], asset p))"

definition previous_input :: "Env \<Rightarrow> AssetSnapshot option \<Rightarrow> TransitionProof \<Rightarrow> InputSet" where
  "previous_input env prev p =
     (case prev of None \<Rightarrow> [] | Some s \<Rightarrow> input_insert (snapshot_prev_id env (prev_out p) s) (snap_asset s) [])"

definition transition_inputs ::
  "Env \<Rightarrow> VerifierCtx \<Rightarrow> AssetSnapshot option \<Rightarrow> TransitionProof \<Rightarrow> (InputSet, ProofError) result" where
  "transition_inputs env ctx prev p =
     gather_inputs env (verify_file env ctx options_default) (additional_inputs p) (previous_input env prev p)"

definition accepted_transition :: "Env \<Rightarrow> VerifierCtx \<Rightarrow> AssetSnapshot option \<Rightarrow> TransitionProof \<Rightarrow> bool" where
  "accepted_transition env ctx prev p \<longleftrightarrow>
     (\<exists>splits new_asset inputs. transition_target env p = Ok (splits, new_asset)
        \<and> transition_inputs env ctx prev p = Ok inputs
        \<and> vm_execute (sha256 env) (btc (secp env)) (schnorr_validator (secp env)) new_asset splits inputs = Ok ())"

lemma transition_Ok:
  "verify_asset_state_transition env ctx opts (verify_file env ctx options_default) prev p = Ok b \<Longrightarrow>
    accepted_transition env ctx prev p"
  unfolding verify_asset_state_transition_def accepted_transition_def transition_target_def transition_inputs_def
    previous_input_def
  by (auto simp: res_simps Let_def)

lemma verify_proof_Ok:
  assumes "verify_proof env ctx opts prev p = Ok s"
  shows "\<exists>c split. verify_integrity env ctx opts p = Ok c \<and> s = snapshot_of env p c split
    \<and> (\<forall>q. prev = Some q \<longrightarrow> prev_out p = snap_out_point q)
    \<and> (prev = None \<and> challenge_witness p \<noteq> None \<and> verify_challenge_witness env p (challenge_bytes opts) = Ok split
       \<or> accepted_transition env ctx prev p)"
proof -
  from assms obtain c split where "verify_integrity env ctx opts p = Ok c" "s = snapshot_of env p c split"
    "\<forall>q. prev = Some q \<longrightarrow> prev_out p = snap_out_point q"
    "if prev = None \<and> challenge_witness p \<noteq> None then verify_challenge_witness env p (challenge_bytes opts) = Ok split
     else verify_asset_state_transition env ctx opts (verify_file env ctx options_default) prev p = Ok split"
    by (cases prev) (auto simp: verify_proof_def verify_proof_with_def res_simps split: if_splits)
  then show ?thesis by (cases "prev = None \<and> challenge_witness p \<noteq> None") (auto dest: transition_Ok)
qed

lemma map_fst_input_insert: "map fst (input_insert k a inputs) = k # filter (\<lambda>k'. k' \<noteq> k) (map fst inputs)"
  unfolding input_insert_def by (induction inputs) auto

lemma gather_inputs_distinct:
  "gather_inputs env rec fs inputs = Ok inputs' \<Longrightarrow> distinct (map fst inputs) \<Longrightarrow> distinct (map fst inputs')"
proof (induction fs arbitrary: inputs)
  case (Cons f fs)
  have "distinct (map fst (input_insert k a inputs))" for k a
    using Cons.prems(2) by (simp add: map_fst_input_insert)
  with Cons show ?case by (auto simp: res_simps)
qed simp

text \<open>Every gathered input was there before or is the asset of an input file that verified.\<close>

lemma gather_inputs_origin:
  "gather_inputs env rec fs inputs = Ok inputs' \<Longrightarrow> (k, a) \<in> set inputs' \<Longrightarrow> (k, a) \<in> set inputs
    \<or> (\<exists>f \<in> set fs. \<exists>s. rec f = Ok s \<and> k = snapshot_prev_id env (snap_out_point s) s \<and> a = snap_asset s)"
  by (induction fs arbitrary: inputs) (fastforce simp: res_simps input_insert_def)+

lemma gather_inputs_keeps_keys:
  "gather_inputs env rec fs inputs = Ok inputs' \<Longrightarrow> fst ` set inputs \<subseteq> fst ` set inputs'"
proof (induction fs arbitrary: inputs)
  case (Cons f fs)
  have sub: "fst ` set inputs \<subseteq> fst ` set (input_insert k a inputs)" for k a
    using arg_cong [OF map_fst_input_insert [of k a inputs], of set] by auto
  from Cons.prems obtain k a where "gather_inputs env rec fs (input_insert k a inputs) = Ok inputs'"
    by (auto simp: res_simps)
  from Cons.IH [OF this] sub [of k a] show ?case by blast
qed simp

lemma transition_inputs_facts:
  assumes "transition_inputs env ctx prev p = Ok inputs"
  shows "distinct (map fst inputs)"
    and "\<And>q. prev = Some q \<Longrightarrow> snapshot_prev_id env (prev_out p) q \<in> fst ` set inputs"
proof -
  have "distinct (map fst (previous_input env prev p))"
    by (cases prev) (simp_all add: previous_input_def input_insert_def)
  then show "distinct (map fst inputs)" using gather_inputs_distinct assms unfolding transition_inputs_def by blast
  show "snapshot_prev_id env (prev_out p) q \<in> fst ` set inputs" if "prev = Some q" for q
    using gather_inputs_keeps_keys assms that
    unfolding transition_inputs_def previous_input_def input_insert_def by fastforce
qed

lemma transition_inputs_origin:
  assumes "transition_inputs env ctx (Some prev) p = Ok inputs" "(q, a) \<in> set inputs"
  shows "q = snapshot_prev_id env (prev_out p) prev \<and> a = snap_asset prev
    \<or> (\<exists>f \<in> set (additional_inputs p). \<exists>s. verify_file env ctx options_default f = Ok s
         \<and> q = snapshot_prev_id env (snap_out_point s) s \<and> a = snap_asset s)"
  using gather_inputs_origin [OF assms(1) [unfolded transition_inputs_def] assms(2)]
  by (auto simp: previous_input_def input_insert_def)

lemma execute_with_inputs:
  assumes "vm_execute sha lib val a splits inputs = Ok ()" "inputs \<noteq> []"
  shows "\<not> is_genesis_asset a"
  using assms by (auto simp: vm_execute_def is_genesis_asset_def split: if_splits)

end
