(* ===== verification/Proof_Roundtrip.thy ===== *)
theory Proof_Roundtrip
  imports Proof_Codec
begin

text \<open>
  The decoders of transition proofs invert the encoders. Each structure has a well-formedness predicate (the sizes
  that the Rust types fix, the limits the decoder enforces, keys that parse, Merkle proofs in the form that decompression
  gives), its stream written as a list of slots, and a lemma that the loop over the slots rebuilds it. The record
  loops are instances of the locale \<open>record_decoder\<close>, which handles the unknown odd types.
\<close>

unbundle bit_operations_syntax

section \<open>Merkle proofs of transactions\<close>

definition wf_tx_merkle :: "TxMerkleProof \<Rightarrow> bool" where
  "wf_tx_merkle p \<longleftrightarrow> length (tm_bits p) = length (tm_nodes p) \<and> length (tm_nodes p) \<le> MERKLE_PROOF_MAX_NODES
     \<and> (\<forall>n \<in> set (tm_nodes p). length n = 32)"

lemma decode_merkle_nodes_encode:
  assumes "\<forall>n \<in> set ns. length n = 32"
  shows "decode_merkle_nodes (length ns) (pre @ concat ns @ rest) (length pre) acc
    = Ok (acc @ ns, length pre + 32 * length ns)"
  using assms
proof (induction ns arbitrary: pre acc)
  case (Cons n ns)
  have "decode_merkle_nodes (length ns) ((pre @ n) @ concat ns @ rest) (length (pre @ n)) (acc @ [n])
      = Ok ((acc @ [n]) @ ns, length (pre @ n) + 32 * length ns)"
    using Cons by (intro Cons.IH) simp
  with Cons.prems show ?case by simp
qed simp

lemma test_bit: "drop_bit n (b :: u8) AND 1 = 1 \<longleftrightarrow> bit b n"
  by (metis and_one_eq bit_iff_odd_drop_bit odd_iff_mod_2_eq_one)

lemma unpack_packed:
  "map (\<lambda>i. drop_bit (i mod 8) (pack_bits_loop [0..<length bits] bits (zeros ((length bits + 7) div 8)) ! (i div 8)) AND 1 = 1)
     [0..<length bits] = bits"
proof (rule nth_equalityI)
  fix i assume "i < length (map (\<lambda>i. drop_bit (i mod 8) (pack_bits_loop [0..<length bits] bits
    (zeros ((length bits + 7) div 8)) ! (i div 8)) AND 1 = (1 :: u8)) [0..<length bits])"
  then have i: "i < length bits" by simp
  have "\<forall>k \<in> set [0..<length bits]. k < 8 * length (zeros ((length bits + 7) div 8))" by auto
  moreover have "\<not> bit (zeros ((length bits + 7) div 8) ! (i div 8)) (i mod 8)"
    using i by (simp add: zeros_def)
  ultimately show "map (\<lambda>i. drop_bit (i mod 8) (pack_bits_loop [0..<length bits] bits
      (zeros ((length bits + 7) div 8)) ! (i div 8)) AND 1 = 1) [0..<length bits] ! i = bits ! i"
    using i bit_pack_bits_loop [of "[0..<length bits]" "zeros ((length bits + 7) div 8)" i bits]
    by (auto simp: test_bit)
qed simp

lemma decode_tx_merkle_encode:
  assumes "wf_tx_merkle p"
  shows "decode_tx_merkle_proof (encode_tx_merkle_proof p) = Ok p"
proof -
  let ?n = "of_nat (length (tm_nodes p)) :: u64"
  let ?bits = "pack_bits_loop [0..<length (tm_bits p)] (tm_bits p) (zeros ((length (tm_bits p) + 7) div 8))"
  have len: "length (tm_bits p) = length (tm_nodes p)" "length (tm_nodes p) \<le> 15" "\<forall>n \<in> set (tm_nodes p). length n = 32"
    using assms by (simp_all add: wf_tx_merkle_def MERKLE_PROOF_MAX_NODES_def)
  have n: "unat ?n = length (tm_nodes p)" using len(2) by (simp add: unat_of_nat)
  have "decode_bigsize (encode_tx_merkle_proof p) = Ok (?n, bigsize_len ?n)"
    unfolding encode_tx_merkle_proof_def by (rule decode_encode_bigsize)
  moreover have "decode_merkle_nodes (length (tm_nodes p)) (encode_tx_merkle_proof p) (bigsize_len ?n) []
      = Ok (tm_nodes p, bigsize_len ?n + 32 * length (tm_nodes p))"
    using decode_merkle_nodes_encode [OF len(3), of "encode_bigsize ?n" ?bits "[]"]
    by (simp add: encode_tx_merkle_proof_def)
  moreover have nodes: "length (concat (tm_nodes p)) = 32 * length (tm_nodes p)"
    using len(3) by (simp add: length_concat sum_list_triv comp_def cong: map_cong)
  moreover have "drop (bigsize_len ?n + 32 * length (tm_nodes p)) (encode_tx_merkle_proof p) = ?bits"
    using nodes by (simp add: encode_tx_merkle_proof_def)
  ultimately show ?thesis
    using len n unpack_packed [of "tm_bits p"]
    by (cases p) (simp add: decode_tx_merkle_proof_def encode_tx_merkle_proof_def MERKLE_PROOF_MAX_NODES_def Let_def)
qed

section \<open>Small structures\<close>

lemma decode_out_point_encode:
  "length (op_txid op) = 32 \<Longrightarrow> decode_out_point (op_txid op @ u32_be (op_vout op)) = Ok op"
  by (cases op) (simp add: decode_out_point_def)

lemma decode_preimage_encode: "decode_preimage (preimage_encode p) = Ok p"
  by (cases p) (simp add: decode_preimage_def preimage_encode_def preimage_decode_def)

lemma decode_tree_proof_encode:
  "wire_proof sha p \<Longrightarrow> decode_tree_proof sha (compressed_encode (compress sha p)) = Ok p"
  using compressed_wire [of sha p] by (simp add: decode_tree_proof_def)

lemma proof_expect_len_Ok [simp]: "length v = n \<Longrightarrow> proof_expect_len (tlv_new t v) n = Ok ()"
  by (simp add: proof_expect_len_def)

definition wf_reveal :: "(SerializedKey \<Rightarrow> bool) \<Rightarrow> GroupKeyReveal \<Rightarrow> bool" where
  "wf_reveal on_curve g \<longleftrightarrow>
     (case g of
        RevealV0 v0 \<Rightarrow> length (v0_raw_key v0) = 33 \<and> validate_on_curve on_curve (v0_raw_key v0)
          \<and> length (v0_tapscript_root v0) \<le> 32
      | RevealV1 v1 \<Rightarrow> length (v1_internal_key v1) = 33 \<and> gt_version (v1_tapscript v1) = v1_version v1
          \<and> length (gt_root (v1_tapscript v1)) = 32
          \<and> pred_option (\<lambda>r. length r = 32 \<and> r \<noteq> zeros 32) (custom_subtree_root (v1_tapscript v1)))"

definition reveal_slots :: "GroupKeyRevealV1 \<Rightarrow> (u64 \<times> bytes option) list" where
  "reveal_slots v1 =
     [(0, Some [v1_version v1]), (2, Some (v1_internal_key v1)), (4, Some (gt_root (v1_tapscript v1))),
      (7, custom_subtree_root (v1_tapscript v1))]"

lemma encode_reveal_slots: "encode_group_key_reveal (RevealV1 v1) = tlv_encode (of_slots (reveal_slots v1))"
  by (simp add: Let_def reveal_slots_def push_opt_def tlv_push_def tlv_record_defs split: option.splits)

lemma decode_reveal_encode:
  assumes "wf_reveal on_curve g"
  shows "decode_group_key_reveal on_curve (encode_group_key_reveal g) = Ok g"
proof (cases g)
  case (RevealV0 v0)
  with assms show ?thesis
    by (cases v0) (auto simp: wf_reveal_def decode_group_key_reveal_def)
next
  case (RevealV1 v1)
  let ?t = "v1_tapscript v1"
  have wf: "length (v1_internal_key v1) = 33" "gt_version ?t = v1_version v1" "length (gt_root ?t) = 32"
    "pred_option (\<lambda>r. length r = 32 \<and> r \<noteq> zeros 32) (custom_subtree_root ?t)"
    using assms RevealV1 by (simp_all add: wf_reveal_def)
  have sorted: "sorted_wrt (<) (map fst (reveal_slots v1))" by (simp add: reveal_slots_def)
  have small: "slot_bytes (reveal_slots v1) \<le> 300"
    using wf by (cases "custom_subtree_root ?t") (simp_all add: slot_bytes_def reveal_slots_def)
  have "decode_with_limit (tlv_encode (of_slots (reveal_slots v1))) MAX_NESTED_RECORD_SIZE = Ok (of_slots (reveal_slots v1))"
    using small wf length_encode_of_slots [OF sorted]
    by (intro tlv_decode_ascending ascending_of_slots sorted) (simp add: MAX_NESTED_RECORD_SIZE_def)
  moreover have "65 < length (tlv_encode (of_slots (reveal_slots v1)))"
  proof -
    have "length (tlv_encode (of_slots (reveal_slots v1))) = length (concat (map encode_record (of_slots (reveal_slots v1))))"
      using sort_key_ascending [OF ascending_of_slots [OF sorted]] by (simp add: tlv_encode_def)
    then show ?thesis
      using wf by (simp add: reveal_slots_def encode_record_def)
  qed
  moreover have "fold_records reveal_field (of_slots (reveal_slots v1))
      \<lparr>ra_version = 0, ra_internal_key = None, ra_root = [], ra_custom = None\<rparr>
    = Ok \<lparr>ra_version = v1_version v1, ra_internal_key = Some (v1_internal_key v1), ra_root = gt_root ?t,
          ra_custom = custom_subtree_root ?t\<rparr>"
    using wf by (cases "custom_subtree_root ?t") (simp_all add: reveal_slots_def reveal_field_def)
  ultimately show ?thesis
    using wf RevealV1 by (cases v1; cases ?t) (simp add: decode_group_key_reveal_def encode_reveal_slots del: encode_group_key_reveal.simps)
qed

section \<open>Commitment proofs\<close>

definition wf_asset_proof :: "hash_fun \<Rightarrow> AssetProof \<Rightarrow> bool" where
  "wf_asset_proof sha ap \<longleftrightarrow> asset_version_from_u8 (asset_version_to_u8 (ap_version ap)) = ap_version ap
     \<and> length (ap_tap_key ap) = 32 \<and> wire_proof sha (ap_proof ap) \<and> ap_unknown_odd_types ap = []"

definition wf_taproot_asset_proof :: "hash_fun \<Rightarrow> TaprootAssetProof \<Rightarrow> bool" where
  "wf_taproot_asset_proof sha tp \<longleftrightarrow> wire_proof sha (tp_proof tp) \<and> tp_unknown_odd_types tp = []"

lemma decode_asset_proof_encode:
  assumes "wf_asset_proof sha ap" "length (encode_asset_proof sha ap) \<le> 65535"
  shows "decode_asset_proof sha (encode_asset_proof sha ap) = Ok ap"
proof -
  let ?xs = "[(0, Some [asset_version_to_u8 (ap_version ap)]), (2, Some (ap_tap_key ap)),
    (4, Some (compressed_encode (compress sha (ap_proof ap))))]"
  have enc: "encode_asset_proof sha ap = tlv_encode (of_slots ?xs)"
    by (simp add: encode_asset_proof_def Let_def tlv_push_def tlv_record_defs)
  have "decode_with_limit (tlv_encode (of_slots ?xs)) MAX_NESTED_RECORD_SIZE = Ok (of_slots ?xs)"
    using assms(2) by (intro tlv_decode_ascending ascending_of_slots) (simp_all add: enc MAX_NESTED_RECORD_SIZE_def)
  then show ?thesis
    using assms(1) unfolding enc
    by (cases ap) (simp add: decode_asset_proof_def asset_proof_field_def wf_asset_proof_def decode_tree_proof_encode)
qed

lemma decode_taproot_asset_proof_encode:
  assumes "wf_taproot_asset_proof sha tp" "length (encode_taproot_asset_proof sha tp) \<le> 65535"
  shows "decode_taproot_asset_proof sha (encode_taproot_asset_proof sha tp) = Ok tp"
proof -
  let ?xs = "[(0, Some [tcv_to_u8 (tp_version tp)]), (2, Some (compressed_encode (compress sha (tp_proof tp))))]"
  have enc: "encode_taproot_asset_proof sha tp = tlv_encode (of_slots ?xs)"
    by (simp add: encode_taproot_asset_proof_def Let_def tlv_push_def tlv_record_defs)
  have "decode_with_limit (tlv_encode (of_slots ?xs)) MAX_NESTED_RECORD_SIZE = Ok (of_slots ?xs)"
    using assms(2) by (intro tlv_decode_ascending ascending_of_slots) (simp_all add: enc MAX_NESTED_RECORD_SIZE_def)
  moreover have "tcv_from_u8 (tcv_to_u8 v) = Ok v" for v by (cases v) (simp_all add: tcv_from_u8_def)
  ultimately show ?thesis
    using assms(1) unfolding enc
    by (cases tp) (simp add: decode_taproot_asset_proof_def tap_proof_field_def wf_taproot_asset_proof_def
        decode_tree_proof_encode)
qed

definition commitment_known :: "bool \<Rightarrow> u64 \<Rightarrow> bool" where
  "commitment_known with_extensions t \<longleftrightarrow> t = 1 \<or> t = 2 \<or> with_extensions \<and> (t = 5 \<or> t = 7)"

interpretation commitment_dec: record_decoder "commitment_field sha dec" ca_unknown "\<lambda>us a. a\<lparr>ca_unknown := us\<rparr>"
  "commitment_known (dec \<noteq> None)" for sha dec
proof unfold_locales
  fix r :: TlvRecord and us and a :: CommitmentAcc
  assume "commitment_known (dec \<noteq> None) (type_num r)"
  then consider "type_num r = 1" | "type_num r = 2" | "type_num r = 5" "dec \<noteq> None" | "type_num r = 7" "dec \<noteq> None"
    by (auto simp: commitment_known_def)
  then show "commitment_field sha dec r (a\<lparr>ca_unknown := us\<rparr>)
      = map_ok (\<lambda>a. a\<lparr>ca_unknown := us\<rparr>) (commitment_field sha dec r a)"
    by cases (auto simp: commitment_field_def intro!: map_ok_swap)
qed (auto simp: commitment_field_def commitment_known_def Let_def)

definition encode_stxo :: "hash_fun \<Rightarrow> (SerializedKey \<times> CommitmentProof) list \<Rightarrow> bytes" where
  "encode_stxo sha ps = concat (map (\<lambda>(key, p). key @ encode_var_bytes (encode_commitment_proof sha p)) ps)"

definition pair_slots :: "hash_fun \<Rightarrow> CommitmentProof \<Rightarrow> (u64 \<times> bytes option) list" where
  "pair_slots sha cp =
     [(1, map_option (encode_asset_proof sha) (cp_asset_proof cp)),
      (2, Some (encode_taproot_asset_proof sha (cp_taproot_asset_proof cp)))]"

definition extension_slots :: "hash_fun \<Rightarrow> CommitmentProof \<Rightarrow> (u64 \<times> bytes option) list" where
  "extension_slots sha cp =
     [(5, map_option preimage_encode (cp_tap_sibling_preimage cp)),
      (7, if cp_stxo_proofs cp \<noteq> []
          then Some (encode_bigsize (of_nat (length (cp_stxo_proofs cp))) @ encode_stxo sha (cp_stxo_proofs cp)) else None)]"

lemma encode_commitment_slots:
  "encode_commitment_proof sha cp
    = tlv_encode (of_slots (pair_slots sha cp @ extension_slots sha cp) @ odd_records (cp_unknown_odd_types cp))"
proof (cases cp)
  case (CommitmentProof ap tp sib stxo unknown)
  then show ?thesis
    unfolding pair_slots_def extension_slots_def encode_stxo_def push_unknown_def
    by (simp only: encode_commitment_proof.simps Let_def push_unknown_def push_odd_records)
      (simp add: push_opt_def tlv_push_def tlv_record_defs split: option.splits)
qed

definition wf_pair :: "hash_fun \<Rightarrow> CommitmentProof \<Rightarrow> bool" where
  "wf_pair sha cp \<longleftrightarrow> pred_option (wf_asset_proof sha) (cp_asset_proof cp)
     \<and> wf_taproot_asset_proof sha (cp_taproot_asset_proof cp)"

definition wf_stxo_entry :: "hash_fun \<Rightarrow> SerializedKey \<times> CommitmentProof \<Rightarrow> bool" where
  "wf_stxo_entry sha e \<longleftrightarrow> length (fst e) = 33 \<and> wf_pair sha (snd e)
     \<and> cp_tap_sibling_preimage (snd e) = None \<and> cp_stxo_proofs (snd e) = []
     \<and> wf_odd_types (commitment_known False) (cp_unknown_odd_types (snd e))"

definition wf_wire_commitment_proof :: "hash_fun \<Rightarrow> CommitmentProof \<Rightarrow> bool" where
  "wf_wire_commitment_proof sha cp \<longleftrightarrow> wf_pair sha cp
     \<and> btree_sorted (cp_stxo_proofs cp) \<and> (\<forall>e \<in> set (cp_stxo_proofs cp). wf_stxo_entry sha e)
     \<and> wf_odd_types (commitment_known True) (cp_unknown_odd_types cp)"

lemma fold_pair_slots:
  assumes "wf_pair sha cp" "length (tlv_encode (of_slots (pair_slots sha cp @ xs) @ ys)) \<le> 65535"
  shows "fold_records (commitment_field sha dec) (of_slots (pair_slots sha cp)) commitment_acc_default
    = Ok (commitment_acc_default\<lparr>ca_asset_proof := cp_asset_proof cp, ca_tap_proof := Some (cp_taproot_asset_proof cp)\<rparr>)"
proof -
  have small: "length x \<le> 65535" if "(t, Some x) \<in> set (pair_slots sha cp)" for t x
    using slot_length [of t x "pair_slots sha cp @ xs" ys] that assms(2) by simp
  have "decode_taproot_asset_proof sha (encode_taproot_asset_proof sha (cp_taproot_asset_proof cp))
      = Ok (cp_taproot_asset_proof cp)"
    using assms(1) small [of 2] by (intro decode_taproot_asset_proof_encode) (auto simp: wf_pair_def pair_slots_def)
  moreover have "decode_asset_proof sha (encode_asset_proof sha ap) = Ok ap" if "cp_asset_proof cp = Some ap" for ap
    using assms(1) small [of 1] that by (intro decode_asset_proof_encode) (auto simp: wf_pair_def pair_slots_def)
  ultimately show ?thesis
    by (cases "cp_asset_proof cp") (simp_all add: pair_slots_def commitment_field_def commitment_acc_default_def)
qed

lemma decode_pair_encode:
  assumes "wf_stxo_entry sha (key, cp)" "length (encode_commitment_proof sha cp) \<le> 65535"
  shows "decode_commitment_proof_pair sha (encode_commitment_proof sha cp) = Ok cp"
proof -
  have wf: "wf_pair sha cp" "cp_tap_sibling_preimage cp = None" "cp_stxo_proofs cp = []"
    "wf_odd_types (commitment_known False) (cp_unknown_odd_types cp)"
    using assms(1) by (simp_all add: wf_stxo_entry_def commitment_known_def)
  have enc: "encode_commitment_proof sha cp = tlv_encode (of_slots (pair_slots sha cp) @ odd_records (cp_unknown_odd_types cp))"
    using wf(2,3) by (simp add: encode_commitment_slots extension_slots_def)
  have "res_bind (map_err from_tlv (decode_with_limit (encode_commitment_proof sha cp) MAX_NESTED_RECORD_SIZE))
      (\<lambda>s. fold_records (commitment_field sha None) s commitment_acc_default)
    = Ok (commitment_acc_default\<lparr>ca_asset_proof := cp_asset_proof cp, ca_tap_proof := Some (cp_taproot_asset_proof cp),
        ca_unknown := cp_unknown_odd_types cp\<rparr>)"
    unfolding enc using assms(2) wf(4)
    by (subst commitment_dec.decode_encode_slots [OF _ _ _ _ fold_pair_slots [OF wf(1), of "[]"]])
      (simp_all add: pair_slots_def commitment_known_def MAX_NESTED_RECORD_SIZE_def enc commitment_acc_default_def)
  then show ?thesis
    using wf by (cases cp) (simp add: decode_commitment_proof_pair_def decode_commitment_proof_inner_def
        commitment_acc_default_def res_bind_assoc [symmetric])
qed

lemma stxo_entry_length:
  "(key, p) \<in> set ps \<Longrightarrow> length (encode_commitment_proof sha p) \<le> length (encode_stxo sha ps)"
proof -
  assume "(key, p) \<in> set ps"
  then have "length (key @ encode_var_bytes (encode_commitment_proof sha p))
      \<le> sum_list (map (length \<circ> (\<lambda>(key, p). key @ encode_var_bytes (encode_commitment_proof sha p))) ps)"
    by (intro member_le_sum_list) (force, simp)
  then show ?thesis by (simp add: encode_stxo_def length_concat encode_var_bytes_def)
qed

lemma decode_stxo_loop_encode:
  assumes "\<forall>e \<in> set ps. wf_stxo_entry sha e" "length (encode_stxo sha ps) \<le> 65535" "btree_sorted (acc @ ps)"
  shows "decode_stxo_loop sha (length ps) (pre @ encode_stxo sha ps) (length pre) acc
    = Ok (acc @ ps, length pre + length (encode_stxo sha ps))"
  using assms
proof (induction ps arbitrary: pre acc)
  case (Cons e ps)
  obtain key p where e: "e = (key, p)" by (cases e)
  let ?c = "encode_commitment_proof sha p"
  have len: "length key = 33" "length ?c \<le> 65535" "length (encode_stxo sha ps) \<le> 65535"
    using Cons.prems stxo_entry_length [of key p "e # ps" sha] e by (auto simp: wf_stxo_entry_def encode_stxo_def)
  have dec: "decode_var_bytes (encode_var_bytes ?c @ encode_stxo sha ps) = Ok (?c, length (encode_var_bytes ?c))"
    using len(2) by (intro decode_encode_var_bytes) (simp add: vec_bounded_def)
  have pair: "decode_commitment_proof_pair sha ?c = Ok p"
    using Cons.prems(1) e len(2) decode_pair_encode by auto
  have ins: "btree_insert key p acc = acc @ [e]"
    using Cons.prems(3) e by (auto intro!: btree_insert_greater simp: btree_sorted_def sorted_wrt_append)
  have "decode_stxo_loop sha (length ps) ((pre @ key @ encode_var_bytes ?c) @ encode_stxo sha ps)
      (length (pre @ key @ encode_var_bytes ?c)) (acc @ [e])
    = Ok ((acc @ [e]) @ ps, length (pre @ key @ encode_var_bytes ?c) + length (encode_stxo sha ps))"
    using Cons.prems len(3) by (intro Cons.IH) auto
  moreover have "encode_stxo sha (e # ps) = key @ encode_var_bytes ?c @ encode_stxo sha ps"
    by (simp add: e encode_stxo_def)
  ultimately show ?case using len(1) dec pair ins by (simp add: Let_def add.assoc)
qed (simp add: encode_stxo_def)

lemma decode_stxo_encode:
  assumes "\<forall>e \<in> set ps. wf_stxo_entry sha e" "length (encode_stxo sha ps) \<le> 65535" "btree_sorted ps"
  shows "decode_stxo_proofs sha (encode_bigsize (of_nat (length ps)) @ encode_stxo sha ps) = Ok ps"
proof -
  let ?n = "of_nat (length ps) :: u64"
  have "length ps \<le> length (encode_stxo sha ps)"
  proof -
    have "length ps \<le> sum_list (map (length \<circ> (\<lambda>(key, p). key @ encode_var_bytes (encode_commitment_proof sha p))) ps)"
      using assms(1) by (induction ps) (auto simp: wf_stxo_entry_def)
    then show ?thesis by (simp add: encode_stxo_def length_concat)
  qed
  then have n: "unat ?n = length ps" using assms(2) by (simp add: unat_of_nat)
  have "decode_bigsize (encode_bigsize ?n @ encode_stxo sha ps) = Ok (?n, bigsize_len ?n)"
    by (rule decode_encode_bigsize)
  then show ?thesis
    using decode_stxo_loop_encode [OF assms(1,2), of "[]" "encode_bigsize ?n"] assms(3) n
    by (simp add: decode_stxo_proofs_def)
qed

lemma decode_commitment_encode:
  assumes "wf_wire_commitment_proof sha cp" "length (encode_commitment_proof sha cp) \<le> 65535"
  shows "decode_commitment_proof sha (encode_commitment_proof sha cp) = Ok cp"
proof -
  let ?dec = "Some (decode_stxo_proofs sha)"
  let ?xs = "pair_slots sha cp @ extension_slots sha cp"
  have wf: "wf_pair sha cp" "btree_sorted (cp_stxo_proofs cp)" "\<forall>e \<in> set (cp_stxo_proofs cp). wf_stxo_entry sha e"
    "wf_odd_types (commitment_known True) (cp_unknown_odd_types cp)"
    using assms(1) by (simp_all add: wf_wire_commitment_proof_def)
  note enc = encode_commitment_slots [of sha cp]
  have "length (encode_bigsize (of_nat (length (cp_stxo_proofs cp))) @ encode_stxo sha (cp_stxo_proofs cp)) \<le> 65535"
    if "cp_stxo_proofs cp \<noteq> []"
  proof (rule slot_length)
    show "(7, Some (encode_bigsize (of_nat (length (cp_stxo_proofs cp))) @ encode_stxo sha (cp_stxo_proofs cp))) \<in> set ?xs"
      using that by (simp add: extension_slots_def)
  qed (use assms(2) enc in simp)
  then have stxo: "cp_stxo_proofs cp \<noteq> [] \<Longrightarrow> decode_stxo_proofs sha (encode_bigsize (of_nat (length (cp_stxo_proofs cp)))
      @ encode_stxo sha (cp_stxo_proofs cp)) = Ok (cp_stxo_proofs cp)"
    using wf by (intro decode_stxo_encode) auto
  have "fold_records (commitment_field sha ?dec) (of_slots ?xs) commitment_acc_default
      = Ok (commitment_acc_default\<lparr>ca_asset_proof := cp_asset_proof cp, ca_tap_proof := Some (cp_taproot_asset_proof cp),
          ca_sibling := cp_tap_sibling_preimage cp, ca_stxo := cp_stxo_proofs cp\<rparr>)"
    using fold_pair_slots [OF wf(1), of "extension_slots sha cp" "odd_records (cp_unknown_odd_types cp)" ?dec] assms(2) stxo
    unfolding enc
    by (cases "cp_tap_sibling_preimage cp"; cases "cp_stxo_proofs cp = []")
      (simp_all add: fold_records_append extension_slots_def commitment_field_def commitment_acc_default_def
        decode_preimage_encode)
  from commitment_dec.decode_encode_slots [OF _ _ _ _ this, of "cp_unknown_odd_types cp" MAX_NESTED_RECORD_SIZE from_tlv]
  have "res_bind (map_err from_tlv (decode_with_limit (encode_commitment_proof sha cp) MAX_NESTED_RECORD_SIZE))
      (\<lambda>s. fold_records (commitment_field sha ?dec) s commitment_acc_default)
    = Ok (commitment_acc_default\<lparr>ca_asset_proof := cp_asset_proof cp, ca_tap_proof := Some (cp_taproot_asset_proof cp),
        ca_sibling := cp_tap_sibling_preimage cp, ca_stxo := cp_stxo_proofs cp, ca_unknown := cp_unknown_odd_types cp\<rparr>)"
    unfolding enc using assms(2) wf(4)
    by (simp add: pair_slots_def extension_slots_def commitment_known_def MAX_NESTED_RECORD_SIZE_def enc commitment_acc_default_def)
  then show ?thesis
    by (cases cp) (simp add: decode_commitment_proof_def decode_commitment_proof_inner_def
        commitment_acc_default_def res_bind_assoc [symmetric])
qed

section \<open>Taproot proofs\<close>

interpretation tapscript_dec: record_decoder tapscript_field ts_unknown_odd_types "\<lambda>us a. a\<lparr>ts_unknown_odd_types := us\<rparr>"
  "\<lambda>t. t \<in> {1, 3, 4}"
proof unfold_locales
  fix r :: TlvRecord and us and a :: TapscriptProof
  assume "type_num r \<in> {1, 3, 4}"
  then consider "type_num r = 1" | "type_num r = 3" | "type_num r = 4" by blast
  then show "tapscript_field r (a\<lparr>ts_unknown_odd_types := us\<rparr>)
      = map_ok (\<lambda>a. a\<lparr>ts_unknown_odd_types := us\<rparr>) (tapscript_field r a)"
    by cases (auto simp: tapscript_field_def proof_expect_len_def intro!: map_ok_swap)
qed (auto simp: tapscript_field_def Let_def)

definition wf_tapscript_proof :: "TapscriptProof \<Rightarrow> bool" where
  "wf_tapscript_proof ts \<longleftrightarrow> pred_option (\<lambda>p. \<not> preimage_is_empty p) (tap_preimage_1 ts)
     \<and> pred_option (\<lambda>p. \<not> preimage_is_empty p) (tap_preimage_2 ts)
     \<and> wf_odd_types (\<lambda>t. t \<in> {1, 3, 4}) (ts_unknown_odd_types ts)"

lemma decode_tapscript_encode:
  assumes "wf_tapscript_proof ts" "length (encode_tapscript_proof ts) \<le> 65535"
  shows "decode_tapscript_proof (encode_tapscript_proof ts) = Ok ts"
proof -
  let ?xs = "[(1, non_empty_preimage (tap_preimage_1 ts)), (3, non_empty_preimage (tap_preimage_2 ts)),
    (4, Some [if bip86 ts then 1 else 0])]"
  have enc: "encode_tapscript_proof ts = tlv_encode (of_slots ?xs @ odd_records (ts_unknown_odd_types ts))"
    unfolding encode_tapscript_proof_def push_unknown_def push_odd_records Let_def
    by (simp add: push_opt_def tlv_push_def tlv_record_defs split: option.splits)
  have "fold_records tapscript_field (of_slots ?xs)
      \<lparr>tap_preimage_1 = None, tap_preimage_2 = None, bip86 = False, ts_unknown_odd_types = []\<rparr>
    = Ok (ts\<lparr>ts_unknown_odd_types := []\<rparr>)"
    using assms(1)
    by (cases "tap_preimage_1 ts"; cases "tap_preimage_2 ts"; cases ts)
      (simp_all add: non_empty_preimage_def tapscript_field_def decode_preimage_encode wf_tapscript_proof_def)
  from tapscript_dec.decode_encode_slots [OF _ _ _ _ this, of "ts_unknown_odd_types ts" MAX_NESTED_RECORD_SIZE from_tlv]
  show ?thesis
    using assms unfolding enc decode_tapscript_proof_def wf_tapscript_proof_def
    by (cases ts) (simp add: MAX_NESTED_RECORD_SIZE_def)
qed

interpretation taproot_dec: record_decoder "taproot_field sha on_curve" tr_unknown_odd_types
  "\<lambda>us a. a\<lparr>tr_unknown_odd_types := us\<rparr>" "\<lambda>t. t \<in> {0, 2, 3, 5}" for sha on_curve
proof unfold_locales
  fix r :: TlvRecord and us and a :: TaprootProof
  assume "type_num r \<in> {0, 2, 3, 5}"
  then consider "type_num r = 0" | "type_num r = 2" | "type_num r = 3" | "type_num r = 5" by blast
  then show "taproot_field sha on_curve r (a\<lparr>tr_unknown_odd_types := us\<rparr>)
      = map_ok (\<lambda>a. a\<lparr>tr_unknown_odd_types := us\<rparr>) (taproot_field sha on_curve r a)"
    by cases (auto simp: taproot_field_def proof_expect_len_def Let_def intro!: map_ok_swap)
qed (auto simp: taproot_field_def Let_def)

definition wf_taproot_proof :: "hash_fun \<Rightarrow> (SerializedKey \<Rightarrow> bool) \<Rightarrow> TaprootProof \<Rightarrow> bool" where
  "wf_taproot_proof sha on_curve p \<longleftrightarrow> length (tr_internal_key p) = 33 \<and> validate_on_curve on_curve (tr_internal_key p)
     \<and> pred_option (wf_wire_commitment_proof sha) (tr_commitment_proof p)
     \<and> pred_option wf_tapscript_proof (tr_tapscript_proof p)
     \<and> (tr_commitment_proof p = None \<or> tr_tapscript_proof p = None)
     \<and> wf_odd_types (\<lambda>t. t \<in> {0, 2, 3, 5}) (tr_unknown_odd_types p)
     \<and> length (encode_taproot_proof sha p) \<le> 65535"

lemma decode_taproot_encode:
  assumes "wf_taproot_proof sha on_curve p"
  shows "decode_taproot_proof sha on_curve (encode_taproot_proof sha p) = Ok p"
proof -
  let ?xs = "[(0, Some (u32_be (tr_output_index p))), (2, Some (tr_internal_key p)),
    (3, map_option (encode_commitment_proof sha) (tr_commitment_proof p)),
    (5, if tr_commitment_proof p = None then map_option encode_tapscript_proof (tr_tapscript_proof p) else None)]"
  have enc: "encode_taproot_proof sha p = tlv_encode (of_slots ?xs @ odd_records (tr_unknown_odd_types p))"
    unfolding encode_taproot_proof_def push_unknown_def push_odd_records Let_def
    by (simp add: push_opt_def tlv_push_def tlv_record_defs split: option.splits)
  have small: "length x \<le> 65535" if "(t, Some x) \<in> set ?xs" for t :: u64 and x
    using slot_length [OF that] assms unfolding wf_taproot_proof_def enc by blast
  have cp: "decode_commitment_proof sha (encode_commitment_proof sha c) = Ok c" if "tr_commitment_proof p = Some c" for c
    using assms that small [of 3] by (intro decode_commitment_encode) (auto simp: wf_taproot_proof_def)
  have ts: "decode_tapscript_proof (encode_tapscript_proof ts) = Ok ts"
    if "tr_tapscript_proof p = Some ts" "tr_commitment_proof p = None" for ts
    using assms that small [of 5] by (intro decode_tapscript_encode) (auto simp: wf_taproot_proof_def)
  have "fold_records (taproot_field sha on_curve) (of_slots ?xs) default_taproot_proof
      = Ok (p\<lparr>tr_unknown_odd_types := []\<rparr>)"
    using assms cp ts
    by (cases "tr_commitment_proof p"; cases "tr_tapscript_proof p"; cases p)
      (simp_all add: taproot_field_def default_taproot_proof_def wf_taproot_proof_def)
  from taproot_dec.decode_encode_slots [OF _ _ _ _ this, of "tr_unknown_odd_types p" MAX_NESTED_RECORD_SIZE from_tlv]
  show ?thesis
    using assms unfolding enc decode_taproot_proof_def wf_taproot_proof_def
    by (cases p) (simp add: MAX_NESTED_RECORD_SIZE_def)
qed

section \<open>Metadata\<close>

definition wf_urls :: "bytes list \<Rightarrow> bool" where
  "wf_urls urls \<longleftrightarrow> urls \<noteq> [] \<and> length urls \<le> MAX_NUM_CANONICAL_UNIVERSE_URLS
     \<and> (\<forall>url \<in> set urls. length url \<le> MAX_CANONICAL_UNIVERSE_URL_LENGTH \<and> utf8_valid url)"

lemma decode_urls_loop_encode:
  assumes "\<forall>url \<in> set urls. length url \<le> 255 \<and> utf8_valid url"
  shows "decode_urls_loop (length urls) (pre @ concat (map (\<lambda>url. encode_bigsize (of_nat (length url)) @ url) urls))
    (length pre) acc = Ok (acc @ urls)"
  using assms
proof (induction urls arbitrary: pre acc)
  case (Cons url urls)
  let ?n = "of_nat (length url) :: u64" and ?rest = "concat (map (\<lambda>url. encode_bigsize (of_nat (length url)) @ url) urls)"
  have n: "unat ?n = length url" using Cons.prems by (simp add: unat_of_nat)
  have dec: "decode_bigsize (encode_bigsize ?n @ url @ ?rest) = Ok (?n, bigsize_len ?n)" by (rule decode_encode_bigsize)
  have "decode_urls_loop (length urls) ((pre @ encode_bigsize ?n @ url) @ ?rest) (length (pre @ encode_bigsize ?n @ url))
      (acc @ [url]) = Ok ((acc @ [url]) @ urls)"
    using Cons.prems by (intro Cons.IH) simp
  then show ?case
    using Cons.prems n dec by (simp add: MAX_CANONICAL_UNIVERSE_URL_LENGTH_def add.assoc)
qed simp

lemma decode_urls_encode:
  assumes "wf_urls urls"
  shows "decode_canonical_universes (encode_urls urls) = Ok (Some urls)"
proof -
  let ?n = "of_nat (length urls) :: u64" and ?es = "concat (map (\<lambda>url. encode_bigsize (of_nat (length url)) @ url) urls)"
  have n: "unat ?n = length urls"
    using assms by (simp add: wf_urls_def MAX_NUM_CANONICAL_UNIVERSE_URLS_def unat_of_nat)
  have "decode_bigsize (encode_bigsize ?n @ ?es) = Ok (?n, bigsize_len ?n)" by (rule decode_encode_bigsize)
  moreover have "encode_bigsize ?n \<noteq> []" by (metis length_greater_0_conv length_encode_bigsize bigsize_len_def zero_less_numeral zero_less_one)
  ultimately show ?thesis
    using assms n decode_urls_loop_encode [of urls "encode_bigsize ?n" "[]"]
    by (simp add: decode_canonical_universes_def encode_urls_def wf_urls_def MAX_CANONICAL_UNIVERSE_URL_LENGTH_def)
qed

definition meta_known :: "u64 \<Rightarrow> bool" where "meta_known t \<longleftrightarrow> t \<in> {0, 2, 5, 7, 9, 11}"

interpretation meta_dec: record_decoder "meta_field on_curve" "\<lambda>(m, _). mr_unknown_odd_types m"
  "\<lambda>us (m, flags). (m\<lparr>mr_unknown_odd_types := us\<rparr>, flags)" meta_known for on_curve
proof unfold_locales
  fix r :: TlvRecord and us and a :: "MetaReveal \<times> bool \<times> bool"
  assume "meta_known (type_num r)"
  then consider "type_num r = 0" | "type_num r = 2" | "type_num r = 5" | "type_num r = 7" | "type_num r = 9" | "type_num r = 11"
    by (auto simp: meta_known_def)
  then show "meta_field on_curve r (case a of (m, flags) \<Rightarrow> (m\<lparr>mr_unknown_odd_types := us\<rparr>, flags))
      = map_ok (\<lambda>(m, flags). (m\<lparr>mr_unknown_odd_types := us\<rparr>, flags)) (meta_field on_curve r a)"
    by cases (auto simp: meta_field_def Let_def split: prod.splits intro!: map_ok_swap)
qed (auto simp: meta_field_def meta_known_def Let_def split: prod.splits)

definition wf_meta :: "(SerializedKey \<Rightarrow> bool) \<Rightarrow> MetaReveal \<Rightarrow> bool" where
  "wf_meta on_curve m \<longleftrightarrow> length (meta_data m) \<le> META_DATA_MAX_SIZE_BYTES
     \<and> pred_option wf_urls (canonical_universes m)
     \<and> pred_option (\<lambda>k. length k = 33 \<and> validate_on_curve on_curve k) (delegation_key m)
     \<and> wf_odd_types meta_known (mr_unknown_odd_types m) \<and> length (meta_encode m) \<le> 4000000"

lemma decode_meta_encode:
  assumes "wf_meta on_curve m"
  shows "meta_decode on_curve (meta_encode m) = Ok m"
proof -
  let ?xs = "[(0, Some [meta_type_to_u8 (meta_type m)]), (2, Some (meta_data m)), (5, map_option u32_be (decimal_display m)),
    (7, if universe_commitments m then Some [1] else None), (9, map_option encode_urls (canonical_universes m)),
    (11, delegation_key m)]"
  have enc: "meta_encode m = tlv_encode (of_slots ?xs @ odd_records (mr_unknown_odd_types m))"
    unfolding meta_encode_def push_odd_records Let_def
    by (simp add: push_opt_def tlv_push_def tlv_record_defs split: option.splits)
  have ty: "meta_type_from_u8 (meta_type_to_u8 x) = Ok x" for x by (cases x) (simp_all add: meta_type_from_u8_def)
  have "length (u32_be d) \<noteq> 0" for d by simp
  then have "u32_be d \<noteq> []" for d unfolding length_0_conv .
  then have "fold_records (meta_field on_curve) (of_slots ?xs) (meta_default, False, False)
      = Ok (m\<lparr>mr_unknown_odd_types := []\<rparr>, True, True)"
    using assms
    by (cases "decimal_display m"; cases "universe_commitments m"; cases "canonical_universes m"; cases "delegation_key m"; cases m)
      (auto simp: meta_field_def meta_default_def wf_meta_def ty decode_urls_encode)
  from meta_dec.decode_encode_slots [OF _ _ _ _ this, of "mr_unknown_odd_types m" MAX_TLV_VALUE_LENGTH "\<lambda>_. InvalidMetaReveal ''tlv''"]
  have "res_bind (map_err (\<lambda>_. InvalidMetaReveal ''tlv'') (decode_with_limit (meta_encode m) MAX_TLV_VALUE_LENGTH))
      (\<lambda>s. fold_records (meta_field on_curve) s (meta_default, False, False)) = Ok (m, True, True)"
    using assms unfolding enc wf_meta_def by (cases m) (simp add: MAX_TLV_VALUE_LENGTH_def meta_known_def)
  then show ?thesis by (simp add: meta_decode_def tlv_decode_def res_bind_assoc [symmetric])
qed

section \<open>Alternative leaves and input files\<close>

definition wf_alt_asset :: "hash_fun \<Rightarrow> (SerializedKey \<Rightarrow> bool) \<Rightarrow> Asset \<Rightarrow> bool" where
  "wf_alt_asset sha on_curve a \<longleftrightarrow> wf_asset sha on_curve a \<and> validate_alt_leaf a = Ok ()
     \<and> length (encode_asset sha a EncodeNormal) \<le> 4000000"

lemma encode_alt_leaf_slots:
  "encode_alt_leaf sha a = tlv_encode (of_slots
     [(11, if prev_witnesses a \<noteq> [] then Some (encode_prev_witnesses sha (prev_witnesses a) EncodeNormal) else None),
      (14, Some (u16_be (script_version a))), (16, Some (sk_pub_key (script_key a)))] @ odd_records (unknown_odd_types a))"
  unfolding encode_alt_leaf_def push_odd_records Let_def
  by (simp add: tlv_push_if_def tlv_push_def tlv_record_defs)

lemma decode_alt_leaf_encode:
  assumes "wf_alt_asset sha on_curve a" "length (encode_alt_leaf sha a) \<le> 4000000"
  shows "decode_asset sha on_curve (encode_alt_leaf sha a) = Ok a"
proof -
  let ?xs = "[(11, if prev_witnesses a \<noteq> [] then Some (encode_prev_witnesses sha (prev_witnesses a) EncodeNormal) else None),
      (14, Some (u16_be (script_version a))), (16, Some (sk_pub_key (script_key a)))]"
  let ?field = "asset_field sha on_curve (decode_asset sha on_curve)"
  have wf: "wf_asset sha on_curve a" "length (encode_asset sha a EncodeNormal) \<le> 4000000" "validate_alt_leaf a = Ok ()"
    using assms(1) by (simp_all add: wf_alt_asset_def)
  have alt: "a_version a = AssetV0" "genesis a = genesis_empty" "amount a = 0" "a_lock_time a = 0" "relative_lock_time a = 0"
    "split_commitment_root a = None" "group_key a = None"
    using wf(3) by (auto simp: validate_alt_leaf_def genesis_is_empty_def simp del: not_None_eq split: if_splits)
  have fields: "?field (tlv_new 14 (u16_be sv)) b = Ok (b\<lparr>script_version := sv\<rparr>)"
    "?field (tlv_new 16 (sk_pub_key (script_key a))) b = Ok (b\<lparr>script_key := script_key a\<rparr>)" for sv b
    using wf(1) by (simp_all add: asset_field_def expect_len_def wf_asset_def script_key_from_pub_key_def)
  have "fold_records ?field (of_slots ?xs) asset_default = Ok (a\<lparr>unknown_odd_types := []\<rparr>)"
    using asset_slot_fields(2) [OF wf(1,2)] alt fields
    by (cases "prev_witnesses a = []"; cases a) (simp_all add: asset_default_def)
  then have "decode_asset sha on_curve (tlv_encode (of_slots ?xs @ odd_records (unknown_odd_types a)))
      = Ok (a\<lparr>unknown_odd_types := unknown_odd_types a\<rparr>)"
    using wf(1) assms(2)
    by (intro decode_asset_stream ascending_of_slots known_of_slots)
      (simp_all add: asset_known_def wf_asset_def encode_alt_leaf_slots)
  then show ?thesis by (simp add: encode_alt_leaf_slots)
qed

lemma sum_list_sort_key: "sum_list (map f (sort_key k xs)) = (sum_list (map f xs) :: nat)"
proof -
  have insort: "sum_list (map f (insort_key k x ys)) = f x + sum_list (map f ys)" for x ys
    by (induction ys) auto
  show ?thesis by (induction xs) (simp_all add: insort)
qed

lemma length_encode_alt_leaf:
  assumes "wf_alt_asset sha on_curve a"
  shows "39 \<le> length (encode_alt_leaf sha a)"
proof -
  let ?xs = "[(11, if prev_witnesses a \<noteq> [] then Some (encode_prev_witnesses sha (prev_witnesses a) EncodeNormal) else None),
      (14, Some (u16_be (script_version a))), (16, Some (sk_pub_key (script_key a)))]"
  have "length (sk_pub_key (script_key a)) = 33" using assms by (simp add: wf_alt_asset_def wf_asset_def)
  then have "39 \<le> length (concat (map encode_record (of_slots ?xs @ odd_records (unknown_odd_types a))))"
    by (simp add: encode_record_def bigsize_len_def)
  also have "\<dots> = length (encode_alt_leaf sha a)"
    unfolding encode_alt_leaf_slots tlv_encode_def length_concat map_map comp_def by (simp only: sum_list_sort_key)
  finally show ?thesis .
qed

lemma decode_alt_loop_encode:
  assumes "\<forall>a \<in> set as. wf_alt_asset sha on_curve a \<and> length (encode_alt_leaf sha a) \<le> 4000000"
    and "distinct (map (\<lambda>a. sk_pub_key (script_key a)) as)"
    and "\<forall>a \<in> set as. sk_pub_key (script_key a) \<notin> set keys"
  shows "decode_alt_loop sha on_curve (length as) (pre @ concat (map (\<lambda>a. encode_var_bytes (encode_alt_leaf sha a)) as))
      (length pre) keys acc
    = Ok (acc @ as, length pre + length (concat (map (\<lambda>a. encode_var_bytes (encode_alt_leaf sha a)) as)))"
  using assms
proof (induction as arbitrary: pre keys acc)
  case (Cons a as)
  let ?e = "encode_var_bytes (encode_alt_leaf sha a)" and ?es = "concat (map (\<lambda>a. encode_var_bytes (encode_alt_leaf sha a)) as)"
  have "decode_var_bytes (?e @ ?es) = Ok (encode_alt_leaf sha a, length ?e)"
    using Cons.prems by (intro decode_encode_var_bytes) (simp add: vec_bounded_def)
  moreover have "decode_asset sha on_curve (encode_alt_leaf sha a) = Ok a"
    using Cons.prems by (intro decode_alt_leaf_encode) auto
  moreover have "decode_alt_loop sha on_curve (length as) ((pre @ ?e) @ ?es) (length (pre @ ?e))
      (sk_pub_key (script_key a) # keys) (acc @ [a]) = Ok ((acc @ [a]) @ as, length (pre @ ?e) + length ?es)"
    using Cons.prems by (intro Cons.IH) (auto simp: rev_image_eqI)
  ultimately show ?case using Cons.prems by simp
qed simp

lemma decode_alt_leaves_encode:
  assumes "\<forall>a \<in> set as. wf_alt_asset sha on_curve a \<and> length (encode_alt_leaf sha a) \<le> 4000000"
    and "distinct (map (\<lambda>a. sk_pub_key (script_key a)) as)" "length as < 2 ^ 64"
  shows "decode_alt_leaves sha on_curve (encode_counted (encode_alt_leaf sha) as) = Ok as"
proof -
  let ?n = "of_nat (length as) :: u64" and ?es = "concat (map (\<lambda>a. encode_var_bytes (encode_alt_leaf sha a)) as)"
  have n: "unat ?n = length as" using assms(3) by (simp add: unat_of_nat)
  have "40 * length as \<le> length ?es"
    using assms(1)
  proof (induction as)
    case (Cons a as)
    have "40 \<le> length (encode_var_bytes (encode_alt_leaf sha a))"
      using length_encode_alt_leaf [of sha on_curve a] Cons.prems by (simp add: encode_var_bytes_def bigsize_len_def)
    with Cons show ?case by simp
  qed simp
  then have "length as \<le> length (encode_counted (encode_alt_leaf sha) as) div 40"
    by (simp add: encode_counted_def)
  moreover have "decode_bigsize (encode_bigsize ?n @ ?es) = Ok (?n, bigsize_len ?n)" by (rule decode_encode_bigsize)
  ultimately show ?thesis
    using decode_alt_loop_encode [OF assms(1,2), of "[]" "encode_bigsize ?n" "[]"] n
    by (simp add: decode_alt_leaves_def encode_counted_def MIN_ALT_LEAF_SIZE_def)
qed

definition wf_file :: "hash_fun \<Rightarrow> ProofFile \<Rightarrow> bool" where
  "wf_file sha f \<longleftrightarrow> verify_hash_chain sha f \<and> num_proofs f \<le> FILE_MAX_NUM_PROOFS
     \<and> (\<forall>p \<in> set (proofs f). length (proof_bytes p) \<le> FILE_MAX_PROOF_SIZE_BYTES)"

lemma decode_inputs_encode:
  assumes "sha_32 sha" "\<forall>f \<in> set fs. wf_file sha f" "length fs \<le> 65535" "vec_bounded (encode_counted file_encode fs)"
  shows "decode_additional_inputs sha (encode_counted file_encode fs) = Ok fs"
  unfolding decode_additional_inputs_def
proof (rule decode_counted_encode)
  show "\<forall>f \<in> set fs. file_decode sha (file_encode f) = Ok f"
    using assms(1,2) file_decode_encode [of sha _ "[]"] by (auto simp: wf_file_def)
qed (use assms in \<open>simp_all add: word_less_nat_alt unat_of_nat\<close>)

section \<open>Transition proofs\<close>

definition proof_known :: "u64 \<Rightarrow> bool" where
  "proof_known t \<longleftrightarrow> t \<in> {0, 2, 4, 6, 8, 10, 12, 13, 15, 17, 19, 21, 22, 23, 25, 27}"

interpretation proof_dec: record_decoder "proof_field sha on_curve txl" pr_unknown_odd_types
  "\<lambda>us a. a\<lparr>pr_unknown_odd_types := us\<rparr>" proof_known for sha on_curve txl
proof unfold_locales
  fix r :: TlvRecord and us and a :: TransitionProof
  assume "proof_known (type_num r)"
  then consider "type_num r = 0" | "type_num r = 2" | "type_num r = 4" | "type_num r = 6" | "type_num r = 8"
    | "type_num r = 10" | "type_num r = 12" | "type_num r = 13" | "type_num r = 15" | "type_num r = 17" | "type_num r = 19"
    | "type_num r = 21" | "type_num r = 22" | "type_num r = 23" | "type_num r = 25" | "type_num r = 27"
    unfolding proof_known_def by blast
  then show "proof_field sha on_curve txl r (a\<lparr>pr_unknown_odd_types := us\<rparr>)
      = map_ok (\<lambda>a. a\<lparr>pr_unknown_odd_types := us\<rparr>) (proof_field sha on_curve txl r a)"
    by cases (auto simp: proof_field_def proof_expect_len_def Let_def intro!: map_ok_swap)
qed (auto simp: proof_field_def proof_known_def Let_def)

text \<open>The bitcoin crate reads back the transaction that it has written.\<close>

definition wf_proof :: "hash_fun \<Rightarrow> (SerializedKey \<Rightarrow> bool) \<Rightarrow> TxLib \<Rightarrow> TransitionProof \<Rightarrow> bool" where
  "wf_proof sha on_curve txl p \<longleftrightarrow> length (op_txid (prev_out p)) = 32 \<and> length (block_header p) = 80
     \<and> tx_deserialize txl (tx_serialize txl (anchor_tx p)) = Some (anchor_tx p)
     \<and> wf_tx_merkle (tx_merkle_proof p)
     \<and> wf_asset sha on_curve (asset p) \<and> length (encode_asset sha (asset p) EncodeNormal) \<le> 4000000
     \<and> wf_taproot_proof sha on_curve (inclusion_proof p)
     \<and> (\<forall>e \<in> set (exclusion_proofs p). wf_taproot_proof sha on_curve e)
     \<and> pred_option (wf_taproot_proof sha on_curve) (split_root_proof p)
     \<and> pred_option (wf_meta on_curve) (meta_reveal p)
     \<and> (\<forall>f \<in> set (additional_inputs p). wf_file sha f) \<and> length (additional_inputs p) \<le> 65535
     \<and> pred_option (\<lambda>w. length w \<le> 65535) (challenge_witness p)
     \<and> pred_option (\<lambda>g. wf_genesis g \<and> length (tag g) \<le> 64 \<and> utf8_valid (tag g)) (genesis_reveal p)
     \<and> pred_option (wf_reveal on_curve) (group_key_reveal p)
     \<and> (\<forall>a \<in> set (alt_leaves p). wf_alt_asset sha on_curve a \<and> length (encode_alt_leaf sha a) \<le> 4000000)
     \<and> distinct (map (\<lambda>a. sk_pub_key (script_key a)) (alt_leaves p))
     \<and> wf_odd_types proof_known (pr_unknown_odd_types p)"

definition proof_slots :: "hash_fun \<Rightarrow> TxLib \<Rightarrow> TransitionProof \<Rightarrow> (u64 \<times> bytes option) list" where
  "proof_slots sha txl p =
     [(0, Some (u32_be (transition_version_to_u32 (version p)))),
      (2, Some (op_txid (prev_out p) @ u32_be (op_vout (prev_out p)))),
      (4, Some (block_header p)),
      (6, Some (tx_serialize txl (anchor_tx p))),
      (8, Some (encode_tx_merkle_proof (tx_merkle_proof p))),
      (10, Some (encode_asset sha (asset p) EncodeNormal)),
      (12, Some (encode_taproot_proof sha (inclusion_proof p))),
      (13, if exclusion_proofs p \<noteq> [] then Some (encode_counted (encode_taproot_proof sha) (exclusion_proofs p)) else None),
      (15, map_option (encode_taproot_proof sha) (split_root_proof p)),
      (17, map_option meta_encode (meta_reveal p)),
      (19, if additional_inputs p \<noteq> [] then Some (encode_counted file_encode (additional_inputs p)) else None),
      (21, map_option encode_tx_witness (challenge_witness p)),
      (22, Some (u32_be (block_height p))),
      (23, map_option encode_genesis (genesis_reveal p)),
      (25, map_option encode_group_key_reveal (group_key_reveal p)),
      (27, if alt_leaves p \<noteq> [] then Some (encode_counted (encode_alt_leaf sha) (alt_leaves p)) else None)]"

lemma encode_proof_slots:
  "encode_proof sha txl p
    = PROOF_MAGIC_BYTES @ tlv_encode (of_slots (proof_slots sha txl p) @ odd_records (pr_unknown_odd_types p))"
  unfolding encode_proof_def proof_slots_def push_unknown_def push_odd_records Let_def
  by (simp add: push_opt_def tlv_push_def tlv_record_defs split: option.splits)

text \<open>The field each slot sets.\<close>

lemma proof_required_fields:
  assumes "wf_proof sha on_curve txl p"
  defines "field \<equiv> proof_field sha on_curve txl"
  shows "field (tlv_new 0 (u32_be (transition_version_to_u32 (version p)))) b = Ok (b\<lparr>version := version p\<rparr>)"
    and "field (tlv_new 2 (op_txid (prev_out p) @ u32_be (op_vout (prev_out p)))) b = Ok (b\<lparr>prev_out := prev_out p\<rparr>)"
    and "field (tlv_new 4 (block_header p)) b = Ok (b\<lparr>block_header := block_header p\<rparr>)"
    and "field (tlv_new 6 (tx_serialize txl (anchor_tx p))) b = Ok (b\<lparr>anchor_tx := anchor_tx p\<rparr>)"
    and "field (tlv_new 8 (encode_tx_merkle_proof (tx_merkle_proof p))) b = Ok (b\<lparr>tx_merkle_proof := tx_merkle_proof p\<rparr>)"
    and "field (tlv_new 10 (encode_asset sha (asset p) EncodeNormal)) b = Ok (b\<lparr>asset := asset p\<rparr>)"
    and "field (tlv_new 12 (encode_taproot_proof sha (inclusion_proof p))) b = Ok (b\<lparr>inclusion_proof := inclusion_proof p\<rparr>)"
    and "field (tlv_new 22 (u32_be (block_height p))) b = Ok (b\<lparr>block_height := block_height p\<rparr>)"
  using assms(1) unfolding field_def
  by (simp_all add: proof_field_def wf_proof_def decode_out_point_encode anchor_tx_from_bytes_def
      decode_tx_merkle_encode asset_codec decode_taproot_encode transition_version_from_u32_def)
    (cases "version p", simp_all)

lemma proof_optional_fields:
  assumes "wf_proof sha on_curve txl p" "sha_32 sha" "length (encode_proof sha txl p) \<le> 128 * 1024 * 1024"
  defines "field \<equiv> proof_field sha on_curve txl"
  shows "exclusion_proofs p \<noteq> [] \<Longrightarrow> field (tlv_new 13 (encode_counted (encode_taproot_proof sha) (exclusion_proofs p))) b
      = Ok (b\<lparr>exclusion_proofs := exclusion_proofs p\<rparr>)"
    and "additional_inputs p \<noteq> [] \<Longrightarrow> field (tlv_new 19 (encode_counted file_encode (additional_inputs p))) b
      = Ok (b\<lparr>additional_inputs := additional_inputs p\<rparr>)"
    and "alt_leaves p \<noteq> [] \<Longrightarrow> field (tlv_new 27 (encode_counted (encode_alt_leaf sha) (alt_leaves p))) b
      = Ok (b\<lparr>alt_leaves := alt_leaves p\<rparr>)"
    and "challenge_witness p = Some w \<Longrightarrow> field (tlv_new 21 (encode_tx_witness w)) b = Ok (b\<lparr>challenge_witness := Some w\<rparr>)"
proof -
  have small: "length x \<le> 128 * 1024 * 1024" if "(t, Some x) \<in> set (proof_slots sha txl p)" for t x
    using slot_length [OF that, of "odd_records (pr_unknown_odd_types p)"] assms(3) by (simp add: encode_proof_slots)
  have count: "length xs < 2 ^ 64 \<and> vec_bounded (encode_counted enc xs)"
    if "(t, Some (encode_counted enc xs)) \<in> set (proof_slots sha txl p)" for t and enc :: "'s \<Rightarrow> bytes" and xs
  proof -
    have "length xs \<le> sum_list (map (\<lambda>x. length (encode_var_bytes (enc x))) xs)"
      by (induction xs) (auto simp: encode_var_bytes_def bigsize_len_def)
    then have "length xs \<le> length (encode_counted enc xs)" by (simp add: encode_counted_def length_concat comp_def)
    with small [OF that] show ?thesis by (simp add: vec_bounded_def)
  qed
  show "exclusion_proofs p \<noteq> [] \<Longrightarrow> field (tlv_new 13 (encode_counted (encode_taproot_proof sha) (exclusion_proofs p))) b
      = Ok (b\<lparr>exclusion_proofs := exclusion_proofs p\<rparr>)"
    using count [of 13 "encode_taproot_proof sha" "exclusion_proofs p"] assms(1)
      decode_counted_encode [of "exclusion_proofs p" "decode_taproot_proof sha on_curve" "encode_taproot_proof sha" "\<lambda>_. False"]
    by (simp add: field_def proof_field_def proof_slots_def decode_exclusion_proofs_def wf_proof_def decode_taproot_encode)
  show "additional_inputs p \<noteq> [] \<Longrightarrow> field (tlv_new 19 (encode_counted file_encode (additional_inputs p))) b
      = Ok (b\<lparr>additional_inputs := additional_inputs p\<rparr>)"
    using count [of 19 file_encode "additional_inputs p"] assms(1,2)
    by (simp add: field_def proof_field_def proof_slots_def decode_inputs_encode wf_proof_def)
  show "alt_leaves p \<noteq> [] \<Longrightarrow> field (tlv_new 27 (encode_counted (encode_alt_leaf sha) (alt_leaves p))) b
      = Ok (b\<lparr>alt_leaves := alt_leaves p\<rparr>)"
    using count [of 27 "encode_alt_leaf sha" "alt_leaves p"] assms(1)
    by (simp add: field_def proof_field_def proof_slots_def decode_alt_leaves_encode wf_proof_def)
  show "challenge_witness p = Some w \<Longrightarrow> field (tlv_new 21 (encode_tx_witness w)) b = Ok (b\<lparr>challenge_witness := Some w\<rparr>)"
    using small [of 21 "encode_tx_witness w"] assms(1)
    by (simp add: field_def proof_field_def proof_slots_def wf_proof_def decode_tx_witness_encode vec_bounded_def)
qed

lemma fold_proof_slots:
  assumes "wf_proof sha on_curve txl p" "sha_32 sha" "length (encode_proof sha txl p) \<le> 128 * 1024 * 1024"
  shows "fold_records (proof_field sha on_curve txl) (of_slots (proof_slots sha txl p)) proof_default
    = Ok (p\<lparr>pr_unknown_odd_types := []\<rparr>)"
proof -
  let ?field = "proof_field sha on_curve txl"
  let ?f = "fold_records ?field"
  have some: "?f (of_slots ((t, Some x) # xs)) b = res_bind (?field (tlv_new t x) b) (?f (of_slots xs))" for t x xs b by simp
  have lists: "exclusion_proofs b = [] \<Longrightarrow> ?f (of_slots ((13, if exclusion_proofs p \<noteq> []
        then Some (encode_counted (encode_taproot_proof sha) (exclusion_proofs p)) else None) # xs)) b
      = ?f (of_slots xs) (b\<lparr>exclusion_proofs := exclusion_proofs p\<rparr>)"
    "additional_inputs b = [] \<Longrightarrow> ?f (of_slots ((19, if additional_inputs p \<noteq> []
        then Some (encode_counted file_encode (additional_inputs p)) else None) # xs)) b
      = ?f (of_slots xs) (b\<lparr>additional_inputs := additional_inputs p\<rparr>)"
    "alt_leaves b = [] \<Longrightarrow> ?f (of_slots ((27, if alt_leaves p \<noteq> []
        then Some (encode_counted (encode_alt_leaf sha) (alt_leaves p)) else None) # xs)) b
      = ?f (of_slots xs) (b\<lparr>alt_leaves := alt_leaves p\<rparr>)" for b xs
    by (rule fold_slot; auto simp: proof_optional_fields(1-3) [OF assms])+
  have options: "split_root_proof b = None \<Longrightarrow> ?f (of_slots ((15, map_option (encode_taproot_proof sha) (split_root_proof p)) # xs)) b
      = ?f (of_slots xs) (b\<lparr>split_root_proof := split_root_proof p\<rparr>)"
    "meta_reveal b = None \<Longrightarrow> ?f (of_slots ((17, map_option meta_encode (meta_reveal p)) # xs)) b
      = ?f (of_slots xs) (b\<lparr>meta_reveal := meta_reveal p\<rparr>)"
    "challenge_witness b = None \<Longrightarrow> ?f (of_slots ((21, map_option encode_tx_witness (challenge_witness p)) # xs)) b
      = ?f (of_slots xs) (b\<lparr>challenge_witness := challenge_witness p\<rparr>)"
    "genesis_reveal b = None \<Longrightarrow> ?f (of_slots ((23, map_option encode_genesis (genesis_reveal p)) # xs)) b
      = ?f (of_slots xs) (b\<lparr>genesis_reveal := genesis_reveal p\<rparr>)"
    "group_key_reveal b = None \<Longrightarrow> ?f (of_slots ((25, map_option encode_group_key_reveal (group_key_reveal p)) # xs)) b
      = ?f (of_slots xs) (b\<lparr>group_key_reveal := group_key_reveal p\<rparr>)" for b xs
    by (rule fold_slot; use assms(1) proof_optional_fields(4) [OF assms] in \<open>auto simp: proof_field_def wf_proof_def
        decode_taproot_encode decode_meta_encode decode_genesis_encode decode_reveal_encode split: option.splits\<close>)+
  have "?f (of_slots (proof_slots sha txl p)) proof_default
      = Ok \<lparr>version = version p, prev_out = prev_out p, block_header = block_header p, block_height = block_height p,
          anchor_tx = anchor_tx p, tx_merkle_proof = tx_merkle_proof p, asset = asset p, inclusion_proof = inclusion_proof p,
          exclusion_proofs = exclusion_proofs p, split_root_proof = split_root_proof p, meta_reveal = meta_reveal p,
          additional_inputs = additional_inputs p, challenge_witness = challenge_witness p, genesis_reveal = genesis_reveal p,
          group_key_reveal = group_key_reveal p, alt_leaves = alt_leaves p, pr_unknown_odd_types = []\<rparr>"
    unfolding proof_slots_def
    by (simp add: some lists options proof_required_fields [OF assms(1)] proof_default_def del: of_slots.simps(2) split del: if_split)
  then show ?thesis by simp
qed

lemma proof_codec:
  assumes "wf_proof sha on_curve txl p" "sha_32 sha" "length (encode_proof sha txl p) \<le> 128 * 1024 * 1024"
  shows "decode_proof sha on_curve txl (encode_proof sha txl p) = Ok p"
proof -
  let ?s = "tlv_encode (of_slots (proof_slots sha txl p) @ odd_records (pr_unknown_odd_types p))"
  have "res_bind (map_err from_tlv (decode_with_limit ?s MAX_PROOF_TLV_VALUE_LENGTH))
      (\<lambda>s. fold_records (proof_field sha on_curve txl) s proof_default) = Ok (p\<lparr>pr_unknown_odd_types := pr_unknown_odd_types p\<rparr>)"
    using assms
    by (subst proof_dec.decode_encode_slots [OF _ _ _ _ fold_proof_slots [OF assms]])
      (simp_all add: proof_slots_def proof_known_def wf_proof_def MAX_PROOF_TLV_VALUE_LENGTH_def encode_proof_slots)
  then show ?thesis by (simp add: decode_proof_def encode_proof_slots PROOF_MAGIC_BYTES_def)
qed

end
