(* ===== verification/Proof_Complete.thy ===== *)
theory Proof_Complete
  imports Proof_Sound Proof_Roundtrip
begin

text \<open>
  What honest participants obtain from the verifier: proofs taken from a commitment tree verify against the output that was
  created for it, and a transition proof assembled from its parts is accepted. A small world built from the parameters (a
  curve whose tweaks are their own x-coordinates and a bitcoin crate without inputs) shows that all the
  hypotheses can hold at once.
\<close>

section \<open>Outputs made for a commitment\<close>

definition pays_to :: "AnchorTx \<Rightarrow> u32 \<Rightarrow> bytes \<Rightarrow> bool" where
  "pays_to anchor idx key \<longleftrightarrow> unat idx < length (atx_output anchor) \<and> length key = 32
     \<and> script_pubkey (atx_output anchor ! unat idx) = [0x51, 0x20] @ key"

lemma pays_to_extract: "pays_to anchor idx key \<Longrightarrow> extract_taproot_key anchor idx = Ok key"
  by (simp add: pays_to_def extract_taproot_key_Ok is_pay_to_taproot_def)

text \<open>The internal key can be tweaked with any root. The curve operation fails for one root in about 2^128.\<close>

definition tweakable :: "hash_fun \<Rightarrow> Secp \<Rightarrow> SerializedKey \<Rightarrow> bool" where
  "tweakable sha lib ik \<longleftrightarrow> (\<forall>root. \<exists>key. taproot_output_key sha lib ik root = Ok key)"

text \<open>The commitment that the verifier reads off an output: the one derived, or its downgrade if the output key is that of the
  downgraded commitment too.\<close>

definition commitment_read ::
  "Env \<Rightarrow> SerializedKey \<Rightarrow> bytes option \<Rightarrow> bytes \<Rightarrow> TapCommitment \<Rightarrow> TapCommitment \<Rightarrow> bool" where
  "commitment_read env ik sibling key committed c \<longleftrightarrow> c = committed
     \<or> c = downgrade committed
       \<and> taproot_output_key (sha256 env) (secp env) ik (tapscript_root (sha256 env) (downgrade committed) sibling) = Ok key"

lemma derived_keys_match:
  assumes "tweakable (sha256 env) (secp env) ik" "sibling_hash (sha256 env) preimage = Ok sibling"
    and "taproot_output_key (sha256 env) (secp env) ik
           (tapscript_root (sha256 env) (tap_commitment_from_root ver root) sibling) = Ok key"
  shows "\<exists>keys c. derive_commitment_keys env root ver ik preimage = Ok keys \<and> match_derived key keys = Ok (Some c)
    \<and> commitment_read env ik sibling key (tap_commitment_from_root ver root) c"
proof -
  let ?c = "tap_commitment_from_root ver root"
  obtain key' where key': "taproot_output_key (sha256 env) (secp env) ik (tapscript_root (sha256 env) (downgrade ?c) sibling) = Ok key'"
    using assms(1) unfolding tweakable_def by blast
  then have "derive_commitment_keys env root ver ik preimage = Ok [(key, ?c), (key', downgrade ?c)]"
    using assms(2,3) by (simp add: derive_commitment_keys_def Let_def)
  moreover have "\<exists>c. match_derived key [(key, ?c), (key', downgrade ?c)] = Ok (Some c) \<and> commitment_read env ik sibling key ?c c"
    using key' by (auto simp: match_derived_def commitment_read_def)
  ultimately show ?thesis by blast
qed

lemma inclusion_read:
  assumes "tweakable (sha256 env) (secp env) (tr_internal_key tp)" "pays_to anchor (tr_output_index tp) key"
    and "tr_commitment_proof tp = Some cp" "tr_tapscript_proof tp = None" "cp_asset_proof cp = Some ap"
    and "asset_leaf (sha256 env) (without_split_commitment a) = Ok leaf"
    and "derive_by_asset_inclusion (sha256 env) cp (leaf_key_of (sha256 env) (without_split_commitment a)) leaf
           (ap_tap_key ap) = Ok root"
    and "sibling_hash (sha256 env) (cp_tap_sibling_preimage cp) = Ok sibling"
    and "taproot_output_key (sha256 env) (secp env) (tr_internal_key tp) (tapscript_root (sha256 env)
           (tap_commitment_from_root (tp_version (cp_taproot_asset_proof cp)) root) sibling) = Ok key"
  shows "\<exists>c. verify_taproot_proof env anchor tp a True = Ok (Some c) \<and> commitment_read env (tr_internal_key tp) sibling key
    (tap_commitment_from_root (tp_version (cp_taproot_asset_proof cp)) root) c"
  using derived_keys_match [OF assms(1,8,9)] assms(3-7)
  by (auto simp: verify_taproot_proof_def keys_by_asset_inclusion_def commitment_proof_of_def Let_def
      pays_to_extract [OF assms(2)])

lemma exclusion_read:
  assumes "tweakable (sha256 env) (secp env) (tr_internal_key tp)" "pays_to anchor (tr_output_index tp) key"
    and "tr_commitment_proof tp = Some cp" "tr_tapscript_proof tp = None"
    and "(case cp_asset_proof cp of
            None \<Rightarrow> derive_by_commitment_exclusion cp (tap_key_of (sha256 env) a)
          | Some ap \<Rightarrow> derive_by_asset_exclusion (sha256 env) cp (leaf_key_of (sha256 env) a) (ap_tap_key ap)) = Ok root"
    and "sibling_hash (sha256 env) (cp_tap_sibling_preimage cp) = Ok sibling"
    and "taproot_output_key (sha256 env) (secp env) (tr_internal_key tp) (tapscript_root (sha256 env)
           (tap_commitment_from_root (tp_version (cp_taproot_asset_proof cp)) root) sibling) = Ok key"
  shows "\<exists>c. verify_taproot_proof env anchor tp a False = Ok (Some c) \<and> commitment_read env (tr_internal_key tp) sibling key
    (tap_commitment_from_root (tp_version (cp_taproot_asset_proof cp)) root) c"
  using derived_keys_match [OF assms(1,6,7)] assms(3-5)
  by (auto simp: verify_taproot_proof_def keys_by_asset_exclusion_def commitment_proof_of_def Let_def
      pays_to_extract [OF assms(2)])

lemma without_split_keys [simp]:
  "leaf_key_of sha (without_split_commitment a) = leaf_key_of sha a"
  "tap_key_of sha (without_split_commitment a) = tap_key_of sha a"
  by (simp_all add: without_split_commitment_def leaf_key_of_def tap_key_of_def)

lemma tapscript_root_cong: "tap_leaf sha c = tap_leaf sha d \<Longrightarrow> tapscript_root sha c s = tapscript_root sha d s"
  by (simp add: tapscript_root_def)

text \<open>The taproot proof for an output, from a commitment proof and the preimage of the sibling.\<close>

definition output_proof :: "u32 \<Rightarrow> SerializedKey \<Rightarrow> TapscriptPreimage option \<Rightarrow> CommitmentProof \<Rightarrow> TaprootProof" where
  "output_proof idx ik preimage cp =
     \<lparr>tr_output_index = idx, tr_internal_key = ik,
      tr_commitment_proof = Some (CommitmentProof (cp_asset_proof cp) (cp_taproot_asset_proof cp) preimage [] []),
      tr_tapscript_proof = None, tr_unknown_odd_types = []\<rparr>"

lemma output_proof_simps [simp]:
  "tr_output_index (output_proof idx ik preimage cp) = idx" "tr_internal_key (output_proof idx ik preimage cp) = ik"
  "tr_tapscript_proof (output_proof idx ik preimage cp) = None"
  "tr_commitment_proof (output_proof idx ik preimage cp)
     = Some (CommitmentProof (cp_asset_proof cp) (cp_taproot_asset_proof cp) preimage [] [])"
  by (simp_all add: output_proof_def)

lemma derive_same_proof:
  "derive_by_asset_inclusion sha (CommitmentProof (cp_asset_proof cp) (cp_taproot_asset_proof cp) s x u)
     = derive_by_asset_inclusion sha cp"
  "derive_by_asset_exclusion sha (CommitmentProof (cp_asset_proof cp) (cp_taproot_asset_proof cp) s x u)
     = derive_by_asset_exclusion sha cp"
  "derive_by_commitment_exclusion (CommitmentProof (cp_asset_proof cp) (cp_taproot_asset_proof cp) s x u)
     = derive_by_commitment_exclusion cp"
  by (simp_all add: fun_eq_iff derive_by_asset_inclusion_def derive_by_asset_exclusion_def
      derive_by_commitment_exclusion_def)

section \<open>Proofs taken from a commitment tree\<close>

text \<open>The key of an output made for a version 2 commitment is not also that of the downgraded commitment.\<close>

definition version_readable :: "Env \<Rightarrow> SerializedKey \<Rightarrow> bytes option \<Rightarrow> bytes \<Rightarrow> TapCommitment \<Rightarrow> bool" where
  "version_readable env ik sibling key c \<longleftrightarrow> tc_version c = TapV2 \<longrightarrow>
     taproot_output_key (sha256 env) (secp env) ik (tapscript_root (sha256 env) (downgrade c) sibling) \<noteq> Ok key"

lemma commitment_read_version:
  assumes "sha_32 (sha256 env)" "commitment_read env ik sibling key (tap_commitment_from_root (tc_version c) root) c'"
    and "tap_leaf (sha256 env) (tap_commitment_from_root (tc_version c) root) = tap_leaf (sha256 env) c"
    and "version_readable env ik sibling key c"
  shows "is_similar_tap_commitment_version (Some (tc_version c')) (Some (tc_version c))"
proof -
  have "branch_hash (sha256 env) root = branch_hash (sha256 env) (tc_tree_root c) \<and> branch_sum root = branch_sum (tc_tree_root c)"
    using assms(1,3) by (cases "tc_version c") (auto simp: tap_leaf_def tap_commitment_from_root_def Let_def branch_hash_def sha_32_def)
  then have "tap_leaf (sha256 env) (downgrade (tap_commitment_from_root (tc_version c) root)) = tap_leaf (sha256 env) (downgrade c)"
    by (simp add: tap_leaf_def tap_commitment_from_root_def downgrade_def)
  from tapscript_root_cong [OF this, of sibling] assms(2,4) show ?thesis
    by (cases "tc_version c") (auto simp: commitment_read_def version_readable_def is_similar_tap_commitment_version_def
        tap_commitment_from_root_def downgrade_def)
qed

lemma anchored_proofs_read:
  fixes env :: Env and t :: TapCommitmentTree
  assumes "tct_reach (sha256 env) S t g" "tweakable (sha256 env) (secp env) ik"
    and "create_tap_output_script (sha256 env) (secp env) ik (tct_commitment t) sibling_script = Ok (script, key)"
    and "sibling_hash (sha256 env) preimage = Ok (map_option (tap_leaf_hash (sha256 env) 0xc0) sibling_script)"
    and "unat idx < length (atx_output anchor)" "script_pubkey (atx_output anchor ! unat idx) = script" "length key = 32"
  shows "\<exists>stored cp c. tct_proof (sha256 env) (tap_key_of (sha256 env) a) (leaf_key_of (sha256 env) a) t = Ok (stored, cp)
    \<and> (case stored of
         Some b \<Rightarrow> b = without_split_commitment a \<longrightarrow>
           verify_taproot_proof env anchor (output_proof idx ik preimage cp) a True = Ok (Some c)
       | None \<Rightarrow> verify_taproot_proof env anchor (output_proof idx ik preimage cp) a False = Ok (Some c))
    \<and> (version_readable env ik (map_option (tap_leaf_hash (sha256 env) 0xc0) sibling_script) key (tct_commitment t) \<longrightarrow>
         is_similar_tap_commitment_version (Some (tc_version c)) (Some (tc_version (tct_commitment t))))"
proof -
  have sha: "sha_32 (sha256 env)" using tct_reach_inv [OF assms(1)] unfolding tct_inv_def
    by (auto simp: full_inv_def dest: separated_sha_32)
  let ?tk = "tap_key_of (sha256 env) a" and ?ak = "leaf_key_of (sha256 env) a" and ?ver = "tc_version (tct_commitment t)"
  let ?sib = "map_option (tap_leaf_hash (sha256 env) 0xc0) sibling_script"
  from tct_proof_derives [OF assms(1), of ?tk ?ak] sha obtain stored cp root where cp:
    "tct_proof (sha256 env) ?tk ?ak t = Ok (stored, cp)"
    "case map_of (asset_commitments t) ?tk of
       None \<Rightarrow> stored = None \<and> derive_by_commitment_exclusion cp ?tk = Ok root \<and> cp_asset_proof cp = None
     | Some ac \<Rightarrow> (\<exists>ap. cp_asset_proof cp = Some ap \<and> ap_tap_key ap = ?tk) \<and>
         (case map_of (act_assets ac) ?ak of
            None \<Rightarrow> stored = None \<and> derive_by_asset_exclusion (sha256 env) cp ?ak ?tk = Ok root
          | Some a \<Rightarrow> stored = Some a
              \<and> (\<exists>leaf. asset_leaf (sha256 env) a = Ok leaf \<and> derive_by_asset_inclusion (sha256 env) cp ?ak leaf ?tk = Ok root))"
    "tp_version (cp_taproot_asset_proof cp) = ?ver"
    "tap_leaf (sha256 env) (tap_commitment_from_root ?ver root) = tap_leaf (sha256 env) (tct_commitment t)"
    by auto
  have key: "taproot_output_key (sha256 env) (secp env) ik (tapscript_root (sha256 env) (tap_commitment_from_root ?ver root) ?sib) = Ok key"
    using assms(3) tapscript_root_cong [OF cp(4)] by (simp add: create_tap_output_script_def Let_def res_simps)
  have pays: "pays_to anchor idx key"
    using assms(3,5-7) by (auto simp: pays_to_def create_tap_output_script_def Let_def res_simps)
  let ?cp = "CommitmentProof (cp_asset_proof cp) (cp_taproot_asset_proof cp) preimage [] []"
  let ?tp = "output_proof idx ik preimage cp"
  have "\<exists>c. (case stored of
         Some b \<Rightarrow> b = without_split_commitment a \<longrightarrow> verify_taproot_proof env anchor ?tp a True = Ok (Some c)
       | None \<Rightarrow> verify_taproot_proof env anchor ?tp a False = Ok (Some c))
     \<and> commitment_read env ik ?sib key (tap_commitment_from_root ?ver root) c"
  proof (cases stored)
    case None
    from None cp(2) have "(case cp_asset_proof cp of
        None \<Rightarrow> derive_by_commitment_exclusion ?cp ?tk
      | Some ap \<Rightarrow> derive_by_asset_exclusion (sha256 env) ?cp ?ak (ap_tap_key ap)) = Ok root"
      unfolding derive_same_proof by (auto split: option.splits)
    with None show ?thesis
      using exclusion_read [of env ?tp anchor key _ a root ?sib] assms(2,4) key pays by (simp add: cp(3))
  next
    case (Some b)
    show ?thesis
    proof (cases "b = without_split_commitment a")
      case True
      with Some cp(2) obtain ap leaf where "cp_asset_proof cp = Some ap" "ap_tap_key ap = ?tk"
        "asset_leaf (sha256 env) (without_split_commitment a) = Ok leaf"
        "derive_by_asset_inclusion (sha256 env) ?cp ?ak leaf ?tk = Ok root"
        unfolding derive_same_proof by (auto split: option.splits)
      then show ?thesis
        using inclusion_read [of env ?tp anchor key _ ap a leaf root ?sib] Some True assms(2,4) key pays by (simp add: cp(3))
    qed (auto simp: Some commitment_read_def)
  qed
  with cp(1) commitment_read_version [OF sha _ cp(4), of ik ?sib key] show ?thesis by blast
qed

lemma anchored_proofs:
  fixes env :: Env and t :: TapCommitmentTree
  assumes "tct_reach (sha256 env) S t g" "tweakable (sha256 env) (secp env) ik"
    and "create_tap_output_script (sha256 env) (secp env) ik (tct_commitment t) sibling_script = Ok (script, key)"
    and "sibling_hash (sha256 env) preimage = Ok (map_option (tap_leaf_hash (sha256 env) 0xc0) sibling_script)"
    and "unat idx < length (atx_output anchor)" "script_pubkey (atx_output anchor ! unat idx) = script" "length key = 32"
  shows "\<exists>stored cp c. tct_proof (sha256 env) (tap_key_of (sha256 env) a) (leaf_key_of (sha256 env) a) t = Ok (stored, cp)
    \<and> (case stored of
         Some b \<Rightarrow> b = without_split_commitment a \<longrightarrow>
           verify_taproot_proof env anchor (output_proof idx ik preimage cp) a True = Ok (Some c)
       | None \<Rightarrow> verify_taproot_proof env anchor (output_proof idx ik preimage cp) a False = Ok (Some c))"
  using anchored_proofs_read [OF assms] by blast

lemma tct_proof_shape:
  "tct_proof sha tk ak t = Ok (stored, cp) \<Longrightarrow> CommitmentProof (cp_asset_proof cp) (cp_taproot_asset_proof cp) None [] [] = cp"
  by (auto simp: tct_proof_def Let_def res_simps split: option.splits)

section \<open>A small world\<close>

definition demo_secp :: Secp where
  "demo_secp =
     \<lparr>btc = demo_lib, pub_key_valid = (\<lambda>_. True), scalar_valid = (\<lambda>_. True), x_add_tweak = (\<lambda>_ t. Some (t, False)),
      add_exp_tweak = (\<lambda>k _. Some k), mul_tweak = (\<lambda>k _. Some k), combine_keys = (\<lambda>k _. Some k),
      secret_key_point = (\<lambda>_. Some NUMS_KEY), ckd_pub = (\<lambda>k _. Some k), schnorr_verifies = (\<lambda>_ _ _. True),
      script_verifies = None\<rparr>"

text \<open>A bitcoin crate that knows one transaction.\<close>

definition demo_txlib :: "AnchorTx \<Rightarrow> TxLib" where
  "demo_txlib tx =
     \<lparr>tx_deserialize = (\<lambda>_. Some tx), tx_serialize = (\<lambda>_. []), compute_txid = (\<lambda>_. replicate 32 1), json_valid = (\<lambda>_. False),
      get_general_category = (\<lambda>_. UppercaseLetter)\<rparr>"

definition demo_env :: "AnchorTx \<Rightarrow> Env" where
  "demo_env tx = \<lparr>sha256 = demo_hash, secp = demo_secp, txlib = demo_txlib tx\<rparr>"

lemma demo_env_simps [simp]:
  "sha256 (demo_env tx) = demo_hash" "secp (demo_env tx) = demo_secp" "txlib (demo_env tx) = demo_txlib tx"
  by (simp_all add: demo_env_def)

lemma demo_output_key:
  "\<exists>key. taproot_output_key demo_hash demo_secp ik root = Ok key \<and> length key = 32"
  using sha_32_demo_hash
  by (simp add: taproot_output_key_def demo_secp_def demo_lib_def Let_def sha_32_def)

lemma demo_tweakable: "tweakable demo_hash demo_secp ik"
  unfolding tweakable_def using demo_output_key by blast

definition demo_ctx :: VerifierCtx where
  "demo_ctx = ctx_new (\<lambda>_ _. Ok ()) (\<lambda>_ _ _. Ok ()) (\<lambda>_. Ok ()) 1"

definition empty_siblings :: "hash_fun \<Rightarrow> MerkleProof" where
  "empty_siblings sha = map (\<lambda>i. empty_tree sha (256 - i)) [0..<256]"

lemma compress_empty_siblings: "compress sha (empty_siblings sha) = \<lparr>proof_bits = replicate 256 True, proof_nodes = []\<rparr>"
proof -
  have z: "zip [0..<256] (empty_siblings sha) = map (\<lambda>i. (i, empty_tree sha (256 - i))) [0..<256]"
    by (simp add: empty_siblings_def zip_map2 zip_same_conv_map)
  have "length (empty_siblings sha) = 256" by (simp add: empty_siblings_def)
  then show ?thesis
    by (simp add: compress_def Let_def z filter_map comp_def is_equal_node_def map_replicate_const)
qed

lemma decompress_from_empty:
  "decompress_from sha i (replicate n True) [] = Ok (map (\<lambda>i. empty_tree sha (256 - i)) [i..<i + n])"
proof (induction n arbitrary: i)
  case (Suc n)
  have "[i..<i + Suc n] = i # [Suc i..<Suc i + n]" by (simp add: upt_rec)
  with Suc [of "Suc i"] show ?case by simp
qed simp

lemma wire_empty_siblings:
  assumes "sha_32 sha"
  shows "wire_proof sha (empty_siblings sha)" "length (compressed_encode (compress sha (empty_siblings sha))) = 34"
proof -
  have "decompress_from sha 0 (replicate 256 True) [] = Ok (empty_siblings sha)"
    using decompress_from_empty [of sha 0 256] by (simp add: empty_siblings_def)
  moreover have "length (empty_siblings sha) = 256" by (simp add: empty_siblings_def)
  ultimately have "decompress sha (compress sha (empty_siblings sha)) = Ok (empty_siblings sha)"
    by (simp add: decompress_def compress_empty_siblings proof_new_def)
  moreover have "wf_siblings sha (empty_siblings sha)"
    using assms by (auto simp: wf_siblings_def empty_siblings_def empty_tree_def)
  ultimately show "wire_proof sha (empty_siblings sha)" by (simp add: wire_proof_def empty_siblings_def)
  show "length (compressed_encode (compress sha (empty_siblings sha))) = 34"
    by (simp add: compress_empty_siblings compressed_encode_def)
qed

definition demo_commitment_proof :: CommitmentProof where
  "demo_commitment_proof = CommitmentProof
     (Some \<lparr>ap_proof = empty_siblings demo_hash, ap_version = AssetV0, ap_tap_key = zeros 32, ap_unknown_odd_types = []\<rparr>)
     \<lparr>tp_proof = empty_siblings demo_hash, tp_version = TapV2, tp_unknown_odd_types = []\<rparr> None [] []"

text \<open>The proof of an asset that spends an outpoint and goes to the only output of the anchor transaction.\<close>

definition demo_proof :: "Asset \<Rightarrow> Genesis option \<Rightarrow> OutPoint \<Rightarrow> bytes \<Rightarrow> TransitionProof" where
  "demo_proof a reveal op key = proof_default\<lparr>prev_out := op, asset := a, genesis_reveal := reveal,
     anchor_tx := anchor_tx_default\<lparr>
       atx_input := [\<lparr>previous_output = op, tx_sequence = 0, txin_witness = [], script_sig = []\<rparr>],
       atx_output := [\<lparr>out_value = 1000, script_pubkey = [0x51, 0x20] @ key\<rparr>]\<rparr>,
     inclusion_proof := output_proof 0 NUMS_KEY None demo_commitment_proof\<rparr>"

lemma demo_proof_simps [simp]:
  "asset (demo_proof a reveal op key) = a" "prev_out (demo_proof a reveal op key) = op" "version (demo_proof a reveal op key) = TransitionV0"
  "inclusion_proof (demo_proof a reveal op key) = output_proof 0 NUMS_KEY None demo_commitment_proof"
  "exclusion_proofs (demo_proof a reveal op key) = []" "additional_inputs (demo_proof a reveal op key) = []"
  "challenge_witness (demo_proof a reveal op key) = None" "genesis_reveal (demo_proof a reveal op key) = reveal"
  "meta_reveal (demo_proof a reveal op key) = None" "group_key_reveal (demo_proof a reveal op key) = None"
  by (simp_all add: demo_proof_def proof_default_def)

lemma demo_inclusion:
  assumes "asset_leaf demo_hash (without_split_commitment a) = Ok leaf"
  shows "\<exists>key. length key = 32 \<and> (\<forall>tx. \<exists>c. verify_taproot_proof (demo_env tx) (anchor_tx (demo_proof a reveal op key))
    (output_proof 0 NUMS_KEY None demo_commitment_proof) a True = Ok (Some c))"
proof -
  let ?cp = "CommitmentProof (cp_asset_proof demo_commitment_proof) (cp_taproot_asset_proof demo_commitment_proof) None [] []"
  obtain ap where ap: "cp_asset_proof demo_commitment_proof = Some ap" by (simp add: demo_commitment_proof_def)
  obtain root where root: "derive_by_asset_inclusion demo_hash ?cp (leaf_key_of demo_hash a) leaf (ap_tap_key ap) = Ok root"
    by (simp add: derive_by_asset_inclusion_def ap)
  obtain key where key: "taproot_output_key demo_hash demo_secp NUMS_KEY (tapscript_root demo_hash
      (tap_commitment_from_root (tp_version (cp_taproot_asset_proof demo_commitment_proof)) root) None) = Ok key"
    "length key = 32" using demo_output_key by blast
  have "pays_to (anchor_tx (demo_proof a reveal op key)) 0 key"
    using key(2) by (simp add: pays_to_def demo_proof_def)
  then have "\<exists>c. verify_taproot_proof (demo_env tx) (anchor_tx (demo_proof a reveal op key))
      (output_proof 0 NUMS_KEY None demo_commitment_proof) a True = Ok (Some c)" for tx
    using inclusion_read [of "demo_env tx" "output_proof 0 NUMS_KEY None demo_commitment_proof" _ key ?cp ap a leaf root None]
      demo_tweakable assms root key ap by (auto simp: sibling_hash_def)
  with key(2) show ?thesis by blast
qed

lemma demo_integrity:
  assumes "asset_leaf demo_hash a = Ok leaf" "\<not> has_split_commitment_witness a" "tag (genesis a) = [0x54]"
    and "\<And>tx key. verify_reveals (demo_env tx) demo_ctx (demo_proof a reveal op key) = Ok ()"
  shows "\<exists>key. length key = 32 \<and> (\<forall>tx. \<exists>c. verify_integrity (demo_env tx) demo_ctx options_default (demo_proof a reveal op key) = Ok c)"
proof -
  have "asset_leaf demo_hash (without_split_commitment a) = Ok leaf"
    using assms(1,2) by (simp add: without_split_commitment_def)
  from demo_inclusion [OF this] obtain key where len: "length key = 32" and incl: "\<And>tx. \<exists>c. verify_taproot_proof (demo_env tx)
      (anchor_tx (demo_proof a reveal op key)) (output_proof 0 NUMS_KEY None demo_commitment_proof) a True = Ok (Some c)" by blast
  have "\<exists>c. verify_integrity (demo_env tx) demo_ctx options_default (demo_proof a reveal op key) = Ok c" for tx
  proof -
    obtain c where c: "verify_taproot_proof (demo_env tx) (anchor_tx (demo_proof a reveal op key))
        (output_proof 0 NUMS_KEY None demo_commitment_proof) a True = Ok (Some c)" using incl by blast
    have "has_stxo_proofs (output_proof 0 NUMS_KEY None demo_commitment_proof) = False"
      by (simp add: has_stxo_proofs_def)
    with c have "verify_inclusion_proof (demo_env tx) (demo_proof a reveal op key) = Ok c"
      by (simp add: verify_inclusion_proof_def is_version_v1_def)
    moreover have "other_p2tr_outputs (demo_proof a reveal op key) = []"
      by (simp add: other_p2tr_outputs_def demo_proof_def)
    ultimately have "verify_proofs (demo_env tx) (demo_proof a reveal op key) = Ok c"
      using assms(2) by (simp add: verify_proofs_def verify_exclusion_proofs_def)
    moreover have "tx_spends_prev_out (anchor_tx (demo_proof a reveal op key)) op"
      by (simp add: tx_spends_prev_out_def demo_proof_def)
    moreover have "validate_asset_name (demo_txlib tx) [0x54] = Ok ()"
      by (simp add: validate_asset_name_def MAX_ASSET_NAME_LENGTH_def is_go_print_def demo_txlib_def is_whitespace_def)
    ultimately show ?thesis
      using assms(3,4) by (intro exI) (auto simp: verify_integrity_Ok demo_ctx_def ctx_new_def)
  qed
  with len show ?thesis by blast
qed

definition demo_snapshot :: AssetSnapshot where
  "demo_snapshot = (snapshot_of (demo_env anchor_tx_default) (demo_proof demo_coin None (prev_out_point demo_prev) (zeros 32))
      (tap_commitment_from_root TapV2 (tree_root demo_hash full_tree_new)) False)\<lparr>snap_out_point := prev_out_point demo_prev\<rparr>"

lemma demo_owner: "owner_can_sign demo_lib (schnorr_validator demo_secp) demo_coin"
  by (simp add: owner_can_sign_def demo_lib_def demo_secp_def schnorr_validator_def schnorr_validate_witness_def Let_def
      taproot_witness_sig_hash_type_def demo_coin_def new_genesis_def exI [of _ "zeros 64"])

text \<open>A verified transfer of the coin by its owner.\<close>

lemma demo_snapshot_simps [simp]: "snap_asset demo_snapshot = demo_coin" "snap_out_point demo_snapshot = prev_out_point demo_prev"
  by (simp_all add: demo_snapshot_def snapshot_of_def)

lemma demo_prev_id: "snapshot_prev_id (demo_env tx) (prev_out_point demo_prev) demo_snapshot = demo_prev"
  by (simp add: snapshot_prev_id_def demo_prev_def demo_coin_def new_genesis_def script_key_from_pub_key_def)

lemma demo_verified_transfer:
  obtains new_asset key s where
    "verify_proof (demo_env tx) demo_ctx options_default (Some demo_snapshot) (demo_proof new_asset None (prev_out_point demo_prev) key) = Ok s"
    "transition_target (demo_env tx) (demo_proof new_asset None (prev_out_point demo_prev) key) = Ok ([], new_asset)"
    "transition_inputs (demo_env tx) demo_ctx (Some demo_snapshot) (demo_proof new_asset None (prev_out_point demo_prev) key)
       = Ok [(demo_prev, demo_coin)]"
    "inputs_separated demo_hash demo_coin_set new_asset [(demo_prev, demo_coin)]"
    "split_commitment_root new_asset = Some (zeros 32, 1000)"
proof -
  let ?r = "demo_coin\<lparr>split_commitment_root := Some (zeros 32, 1000)\<rparr>" and ?op = "prev_out_point demo_prev"
  have amt: "split_commitment_root ?r = Some (zeros 32, amount demo_coin)" "g_asset_type (genesis ?r) = g_asset_type (genesis demo_coin)"
    by (simp_all add: demo_coin_def new_genesis_def)
  from owner_transfer [OF demo_coin_facts(4,5,1) demo_owner demo_coin_facts(3) amt(2,1)] obtain wit where
    val: "validate_state_transition demo_hash demo_lib (schnorr_validator demo_secp) (signed_root demo_prev ?r wit)
      [(demo_prev, demo_coin)] = Ok ()" and gen: "\<not> is_genesis_asset (signed_root demo_prev ?r wit)" by blast
  define n where "n = signed_root demo_prev ?r wit"
  have n: "\<not> has_split_commitment_witness n" "group_key n = None" "tag (genesis n) = [0x54]" "a_lock_time n = 0"
    "relative_lock_time n = 0" "a_version n = a_version demo_coin" "split_commitment_root n = Some (zeros 32, 1000)"
    "prev_witnesses n = [\<lparr>w_prev_id = Some demo_prev, tx_witness = wit, split_commitment = None\<rparr>]"
    by (simp_all add: n_def signed_root_def has_split_commitment_witness_def is_split_commitment_def demo_coin_def
        new_genesis_def demo_genesis_def)
  obtain leaf where "asset_leaf demo_hash n = Ok leaf"
    using asset_to_leaf_Ok [OF n(6) demo_coin_facts(1)] by (auto simp: asset_leaf_def)
  moreover have "verify_reveals (demo_env tx) demo_ctx (demo_proof n None ?op key) = Ok ()" for tx key
    using n(2) gen by (simp add: verify_reveals_def n_def)
  ultimately obtain key c where
    int: "verify_integrity (demo_env tx) demo_ctx options_default (demo_proof n None ?op key) = Ok c"
    using demo_integrity [OF _ n(1,3)] by metis
  have vm: "vm_execute demo_hash demo_lib (schnorr_validator demo_secp) n [] [(demo_prev, demo_coin)] = Ok ()"
    using val gen by (simp add: n_def execute_transfer_Ok)
  have "btc demo_secp = demo_lib" by (simp add: demo_secp_def)
  then have "verify_asset_state_transition (demo_env tx) demo_ctx options_default (verify_file (demo_env tx) demo_ctx options_default)
      (Some demo_snapshot) (demo_proof n None ?op key) = Ok False"
    using vm by (simp add: verify_asset_state_transition_def n input_insert_def demo_prev_id asset_uses_time_lock_def)
  then have ver: "verify_proof (demo_env tx) demo_ctx options_default (Some demo_snapshot) (demo_proof n None ?op key)
      = Ok (snapshot_of (demo_env tx) (demo_proof n None ?op key) c False)"
    using int by (simp add: verify_proof_def verify_proof_with_def)
  have "input_leaf demo_hash [(demo_prev, demo_coin)] demo_prev = demo_coin_leaf"
    using demo_coin_facts(1) by (simp add: input_leaf_def)
  then have "inputs_separated demo_hash demo_coin_set n [(demo_prev, demo_coin)]"
    using demo_coin_facts(4,5)
    by (simp add: inputs_separated_def n referenced_def input_ops_def del: fun_upd_apply)
  with ver n show ?thesis
    by (intro that) (simp_all add: transition_target_def transition_inputs_def previous_input_def input_insert_def demo_prev_id)
qed

text \<open>The file that issues the coin.\<close>

lemma length_slots:
  "sorted_wrt (<) (map fst xs) \<Longrightarrow> slot_bytes xs \<le> n \<Longrightarrow> length (tlv_encode (of_slots xs)) \<le> n"
  using length_encode_of_slots by (rule le_trans)

lemma demo_commitment_length: "length (encode_commitment_proof demo_hash demo_commitment_proof) \<le> 1000"
proof -
  note len = wire_empty_siblings(2) [OF sha_32_demo_hash]
  have "length (encode_asset_proof demo_hash ap) \<le> 200" if "cp_asset_proof demo_commitment_proof = Some ap" for ap
    using that len length_slots [of "[(0, Some [asset_version_to_u8 (ap_version ap)]), (2, Some (ap_tap_key ap)),
      (4, Some (compressed_encode (compress demo_hash (ap_proof ap))))]" 200]
    by (auto simp: encode_asset_proof_def Let_def tlv_push_def tlv_record_defs demo_commitment_proof_def slot_bytes_def)
  moreover have "length (encode_taproot_asset_proof demo_hash (cp_taproot_asset_proof demo_commitment_proof)) \<le> 200"
    using len length_slots [of "[(0, Some [2]), (2, Some (compressed_encode (compress demo_hash (empty_siblings demo_hash))))]" 200]
    by (simp add: encode_taproot_asset_proof_def Let_def tlv_push_def tlv_record_defs demo_commitment_proof_def slot_bytes_def)
  moreover obtain ap where "cp_asset_proof demo_commitment_proof = Some ap" by (simp add: demo_commitment_proof_def)
  moreover have "extension_slots demo_hash demo_commitment_proof = [(5, None), (7, None)]" "cp_unknown_odd_types demo_commitment_proof = []"
    by (simp_all add: extension_slots_def demo_commitment_proof_def)
  ultimately show ?thesis
    unfolding encode_commitment_slots
    using length_slots [of "pair_slots demo_hash demo_commitment_proof @ [(5, None), (7, None)]" 1000]
    by (simp add: pair_slots_def slot_bytes_def odd_records_def)
qed

lemma demo_output_proof_wire:
  "wf_taproot_proof demo_hash (\<lambda>_. True) (output_proof 0 NUMS_KEY None demo_commitment_proof)"
  "length (encode_taproot_proof demo_hash (output_proof 0 NUMS_KEY None demo_commitment_proof)) \<le> 2000"
proof -
  let ?tp = "output_proof 0 NUMS_KEY None demo_commitment_proof"
  have cp: "tr_commitment_proof ?tp = Some demo_commitment_proof" by (simp add: demo_commitment_proof_def)
  have unknown: "tr_unknown_odd_types ?tp = []" by (simp add: output_proof_def)
  have key: "length NUMS_KEY = 33" by (simp add: NUMS_KEY_def)
  show len: "length (encode_taproot_proof demo_hash ?tp) \<le> 2000"
    using length_slots [of "[(0, Some (u32_be 0)), (2, Some NUMS_KEY), (3, Some (encode_commitment_proof demo_hash demo_commitment_proof))]" 2000]
      demo_commitment_length key
    by (simp add: encode_taproot_proof_def Let_def cp unknown push_unknown_def push_opt_def tlv_push_def tlv_record_defs slot_bytes_def
        del: output_proof_simps(4))
  have "wf_wire_commitment_proof demo_hash demo_commitment_proof"
    using wire_empty_siblings(1) [OF sha_32_demo_hash]
    by (simp add: wf_wire_commitment_proof_def wf_pair_def wf_asset_proof_def wf_taproot_asset_proof_def demo_commitment_proof_def
        asset_version_from_u8_def btree_sorted_def wf_odd_types_def)
  with len key cp unknown show "wf_taproot_proof demo_hash (\<lambda>_. True) ?tp"
    by (simp add: wf_taproot_proof_def validate_on_curve_def wf_odd_types_def btree_sorted_def del: output_proof_simps(4))
qed

lemma demo_coin_wire: "wf_asset demo_hash (\<lambda>_. True) demo_coin" "length (encode_asset demo_hash demo_coin EncodeNormal) \<le> 2000"
proof -
  show "wf_asset demo_hash (\<lambda>_. True) demo_coin"
    by (simp add: wf_asset_def demo_coin_def new_genesis_def asset_version_from_u8_def wf_genesis_def demo_genesis_def
        genesis_empty_def wf_asset_type_def asset_type_from_u8_def wf_witness_def wf_prev_id_def PREV_ID_ZERO_def
        validate_on_curve_def script_key_from_pub_key_def wf_odd_types_def btree_sorted_def)
  show "length (encode_asset demo_hash demo_coin EncodeNormal) \<le> 2000"
    by (simp add: demo_coin_def new_genesis_def encode_asset_def Let_def tlv_push_def tlv_push_if_def push_opt_def
        tlv_record_defs tlv_encode_def sort_key_def encode_record_def bigsize_len_def demo_genesis_def genesis_empty_def
        encode_genesis_def encode_var_bytes_def encode_prev_witnesses_def encode_witness_def PREV_ID_ZERO_def encode_prev_id_def
        script_key_from_pub_key_def)
qed

lemma demo_issuance:
  obtains key where "\<forall>tx. \<exists>c. verify_integrity (demo_env tx) demo_ctx options_default
      (demo_proof demo_coin (Some demo_genesis) (first_prev_out demo_genesis) key) = Ok c" "length key = 32"
proof -
  have gen: "is_genesis_asset demo_coin" "group_key demo_coin = None" "\<not> has_split_commitment_witness demo_coin"
    "tag (genesis demo_coin) = [0x54]" "genesis demo_coin = demo_genesis"
    by (simp_all add: is_genesis_asset_def has_genesis_witness_def is_genesis_def demo_coin_def new_genesis_def
        prev_id_is_zero_def witness_zero_prev_def has_split_commitment_witness_def is_split_commitment_def demo_genesis_def)
  have "verify_reveals (demo_env tx) demo_ctx (demo_proof demo_coin (Some demo_genesis) (first_prev_out demo_genesis) key) = Ok ()"
    for tx key
    using gen by (simp add: verify_reveals_def verify_genesis_reveal_def asset_id_def)
      (simp add: demo_genesis_def genesis_empty_def)
  from demo_integrity [OF _ gen(3,4) this] demo_coin_facts(1) show ?thesis
    by (auto simp: asset_leaf_def intro: that)
qed

lemma demo_proof_wire:
  assumes "length key = 32"
  defines "p \<equiv> demo_proof demo_coin (Some demo_genesis) (first_prev_out demo_genesis) key"
  shows "wf_proof demo_hash (\<lambda>_. True) (demo_txlib (anchor_tx p)) p"
    and "length (encode_proof demo_hash (demo_txlib (anchor_tx p)) p) \<le> 10000"
proof -
  let ?tx = "anchor_tx p"
  have f: "version p = TransitionV0" "prev_out p = \<lparr>op_txid = zeros 32, op_vout = 0\<rparr>" "block_header p = zeros 80"
    "tx_merkle_proof p = \<lparr>tm_nodes = [], tm_bits = []\<rparr>" "asset p = demo_coin" "split_root_proof p = None"
    "inclusion_proof p = output_proof 0 NUMS_KEY None demo_commitment_proof" "exclusion_proofs p = []" "meta_reveal p = None"
    "additional_inputs p = []" "challenge_witness p = None" "genesis_reveal p = Some demo_genesis" "group_key_reveal p = None"
    "alt_leaves p = []" "pr_unknown_odd_types p = []" "block_height p = 0"
    by (simp_all add: p_def demo_proof_def proof_default_def demo_genesis_def genesis_empty_def)
  have g: "wf_genesis demo_genesis" "length (tag demo_genesis) \<le> 64" "utf8_valid (tag demo_genesis)"
    "length (encode_genesis demo_genesis) \<le> 200"
    by (simp_all add: wf_genesis_def demo_genesis_def genesis_empty_def wf_asset_type_def asset_type_from_u8_def
        encode_genesis_def encode_var_bytes_def bigsize_len_def)
  show "wf_proof demo_hash (\<lambda>_. True) (demo_txlib ?tx) p"
    using demo_coin_wire demo_output_proof_wire g
    by (simp add: wf_proof_def f wf_tx_merkle_def wf_odd_types_def btree_sorted_def demo_txlib_def)
  have "slot_bytes (proof_slots demo_hash (demo_txlib ?tx) p) \<le> 9000"
    using demo_coin_wire(2) demo_output_proof_wire(2) g(4)
    by (simp add: proof_slots_def f slot_bytes_def demo_txlib_def encode_tx_merkle_proof_def bigsize_len_def)
  then have "length (tlv_encode (of_slots (proof_slots demo_hash (demo_txlib ?tx) p))) \<le> 9000"
    by (intro length_slots) (simp add: proof_slots_def)
  then show "length (encode_proof demo_hash (demo_txlib ?tx) p) \<le> 10000"
    by (simp add: encode_proof_slots f odd_records_def PROOF_MAGIC_BYTES_def)
qed

lemma demo_file:
  obtains tx p s where
    "verify_file (demo_env tx) demo_ctx options_default (append_proof demo_hash (encode_proof demo_hash (demo_txlib tx) p) file_new) = Ok s"
    "wf_proof demo_hash (\<lambda>_. True) (demo_txlib tx) p" "length (encode_proof demo_hash (demo_txlib tx) p) \<le> 10000"
    "asset p = demo_coin" "is_genesis_asset (asset p)"
proof -
  obtain key where key: "\<forall>tx. \<exists>c. verify_integrity (demo_env tx) demo_ctx options_default
      (demo_proof demo_coin (Some demo_genesis) (first_prev_out demo_genesis) key) = Ok c" "length key = 32"
    by (rule demo_issuance)
  define p where "p = demo_proof demo_coin (Some demo_genesis) (first_prev_out demo_genesis) key"
  define tx where "tx = anchor_tx p"
  note wire = demo_proof_wire [OF key(2), folded p_def tx_def]
  obtain c where c: "verify_integrity (demo_env tx) demo_ctx options_default p = Ok c" using key(1) unfolding p_def by blast
  have gen: "has_genesis_witness demo_coin" "group_key demo_coin = None" "\<not> has_split_commitment_witness demo_coin"
    "a_lock_time demo_coin = 0" "relative_lock_time demo_coin = 0"
    by (simp_all add: has_genesis_witness_def is_genesis_def demo_coin_def new_genesis_def
        prev_id_is_zero_def witness_zero_prev_def has_split_commitment_witness_def is_split_commitment_def)
  have p: "asset p = demo_coin" "additional_inputs p = []" "challenge_witness p = None" by (simp_all add: p_def)
  have "vm_execute demo_hash demo_lib (schnorr_validator demo_secp) demo_coin [] [] = Ok ()"
    using gen by (simp add: vm_execute_def)
  moreover have "btc demo_secp = demo_lib" by (simp add: demo_secp_def)
  ultimately have "verify_proof_with (demo_env tx) demo_ctx options_default (verify_file (demo_env tx) demo_ctx options_default) None p
      = Ok (snapshot_of (demo_env tx) p c False)"
    using c gen p by (simp add: verify_proof_with_def verify_asset_state_transition_def asset_uses_time_lock_def)
  moreover have "decode_proof demo_hash (pub_key_valid demo_secp) (demo_txlib tx) (encode_proof demo_hash (demo_txlib tx) p) = Ok p"
    using proof_codec [OF wire(1) sha_32_demo_hash] wire(2) by (simp add: demo_secp_def)
  ultimately have "verify_file (demo_env tx) demo_ctx options_default
      (append_proof demo_hash (encode_proof demo_hash (demo_txlib tx) p) file_new) = Ok (snapshot_of (demo_env tx) p c False)"
    by (subst verify_file.simps) (simp add: verify_file_with_def append_proof_def file_new_def Let_def)
  moreover have "is_genesis_asset (asset p)" using p(1) gen(1) unfolding is_genesis_asset_def by simp
  ultimately show ?thesis using wire p(1) by (intro that [of tx p]) simp_all
qed

end
