(* ===== verification/Proof_Properties.thy ===== *)
theory Proof_Properties
  imports Proof_Complete
begin

text \<open>
  The properties of proof verification: what an accepted proof and an accepted file establish, what honest
  participants can rely on, and what the verifier does not establish.
\<close>

section \<open>Links of the chain\<close>

text \<open>What is established for one proof of a file, given the snapshot before it.\<close>

definition chain_link ::
  "Env \<Rightarrow> VerifierCtx \<Rightarrow> HashedProof \<Rightarrow> AssetSnapshot option \<Rightarrow> TransitionProof \<Rightarrow> AssetSnapshot \<Rightarrow> bool" where
  "chain_link env ctx h prev p s \<longleftrightarrow>
     decode_proof (sha256 env) (pub_key_valid (secp env)) (txlib env) (proof_bytes h) = Ok p
     \<and> snap_asset s = asset p \<and> snap_out_point s = proof_out_point (txlib env) p
     \<and> tx_spends_prev_out (anchor_tx p) (prev_out p)
     \<and> (\<exists>c. script_root s = Some c \<and> output_commits env (anchor_tx p) (inclusion_proof p) (asset p) c)
     \<and> (\<forall>j \<in> set (other_p2tr_outputs p). \<exists>ep \<in> set (exclusion_proofs p). tr_output_index ep = j
          \<and> (\<exists>r. verify_taproot_proof env (anchor_tx p) ep (asset p) False = Ok r))
     \<and> (case prev of
          None \<Rightarrow> challenge_witness p = None \<longrightarrow> accepted_transition env ctx None p
        | Some q \<Rightarrow> prev_out p = snap_out_point q \<and> accepted_transition env ctx prev p)"

lemma chain_link_Ok:
  assumes "decode_proof (sha256 env) (pub_key_valid (secp env)) (txlib env) (proof_bytes h) = Ok p"
    and "verify_proof env ctx opts prev p = Ok s"
  shows "chain_link env ctx h prev p s"
proof -
  from verify_proof_Ok [OF assms(2)] obtain c split where int: "verify_integrity env ctx opts p = Ok c"
    and snap: "s = snapshot_of env p c split" and out: "\<forall>q. prev = Some q \<longrightarrow> prev_out p = snap_out_point q"
    and trans: "prev = None \<and> challenge_witness p \<noteq> None \<or> accepted_transition env ctx prev p" by auto
  have spends: "tx_spends_prev_out (anchor_tx p) (prev_out p)" and proofs: "verify_proofs env p = Ok c"
    using int unfolding verify_integrity_Ok by blast+
  from verify_proofs_Ok [OF proofs] verified_exclusions [of env p] assms(1) spends snap out trans
  show ?thesis by (cases prev) (auto simp: chain_link_def snapshot_of_def)
qed

section \<open>Two leaves under one root\<close>

lemma proof_up_snoc:
  "length s = i \<Longrightarrow> proof_up key (Suc i) c (s @ [n])
    = (let (l, r) = step_order 0 key (proof_up key (Suc i) c s) n in Branch l r)"
proof (induction i arbitrary: c s)
  case (Suc i)
  then obtain x xs where s: "s = x # xs" "length xs = i" by (cases s) auto
  obtain l r where "step_order (Suc i) key c x = (l, r)" by (cases "step_order (Suc i) key c x")
  with Suc.IH [OF s(2), of "Branch l r"] s(1) show ?case by simp
qed (simp add: step_order_def)

lemma proof_up_hash:
  assumes "sha_32 sha" "s \<noteq> []" "length s \<le> i"
  shows "length (node_hash sha (proof_up key i c s)) = 32"
proof -
  have branch: "\<exists>l r. proof_up key i (Branch a b) s = Branch l r" if "length s \<le> i" for a b s i
    using that
  proof (induction s arbitrary: i a b)
    case (Cons x s)
    then obtain j where "i = Suc j" "length s \<le> j" by (cases i) auto
    with Cons.IH show ?case by (simp add: step_order_def)
  qed simp
  from assms(2,3) obtain x xs j where s: "s = x # xs" "i = Suc j" "length xs \<le> j" by (cases s; cases i) auto
  obtain a b where "step_order j key c x = (a, b)" by (cases "step_order j key c x")
  then obtain l r where "proof_up key i c s = Branch l r" using branch [OF s(3), of a b] s(1,2) by auto
  then show ?thesis using assms(1) by simp
qed

text \<open>Leaves under two keys that part at the first bit have proofs for one root.\<close>

lemma two_leaf_root:
  assumes "sha_32 sha" "bit_index 0 k1 \<noteq> bit_index 0 k2"
  obtains p1 p2 where "length p1 = 256" "length p2 = 256" "wf_siblings sha p1" "wf_siblings sha p2"
    "proof_root k1 (Leaf l1) p1 = proof_root k2 (Leaf l2) p2"
proof -
  define s where "s = replicate 255 (computed (zeros 32) 0)"
  have s: "length s = 255" "s \<noteq> []" "wf_siblings sha s" by (simp_all add: s_def wf_siblings_def)
  define n1 n2 where "n1 = proof_up k1 256 (Leaf l1) s" and "n2 = proof_up k2 256 (Leaf l2) s"
  have "length (node_hash sha n1) = 32" "length (node_hash sha n2) = 32"
    unfolding n1_def n2_def using s by (simp_all add: proof_up_hash [OF assms(1)])
  then have wf: "wf_siblings sha (s @ [n2])" "wf_siblings sha (s @ [n1])" using s(3) by (auto simp: wf_siblings_def)
  have "proof_up k1 256 (Leaf l1) (s @ [n2]) = proof_up k2 256 (Leaf l2) (s @ [n1])"
    using proof_up_snoc [OF s(1), of k1 "Leaf l1" n2] proof_up_snoc [OF s(1), of k2 "Leaf l2" n1] assms(2)
    by (auto simp: n1_def n2_def step_order_def)
  with wf s(1) show ?thesis by (intro that [of "s @ [n2]" "s @ [n1]"]) (simp_all add: proof_root_def)
qed

section \<open>Ownership\<close>

definition ownership_prev_id :: "hash_fun \<Rightarrow> Asset \<Rightarrow> PrevId" where
  "ownership_prev_id sha a = \<lparr>prev_out_point = \<lparr>op_txid = zeros 32, op_vout = 0\<rparr>, prev_asset_id = asset_id sha a,
     prev_script_key = sk_pub_key (script_key a)\<rparr>"

text \<open>A signer for the script key of an asset: its signatures have 64 bytes and verify.\<close>

definition signs_for :: "Secp \<Rightarrow> (bytes \<Rightarrow> (bytes, string) result) \<Rightarrow> Asset \<Rightarrow> bool" where
  "signs_for lib sign a \<longleftrightarrow> (\<forall>m s. sign m = Ok s \<longrightarrow> length s = 64
     \<and> schnorr_verifies lib s m (schnorr_bytes (sk_pub_key (script_key a))))"

lemma demo_leaf_sized:
  assumes "genesis a = demo_genesis" "amount a = 1000" "asset_to_leaf demo_hash a = Ok l"
  shows "length (leaf_value l) \<noteq> 64" "l \<noteq> leaf_empty"
proof -
  have "wf_genesis (genesis a)"
    by (simp add: assms wf_genesis_def demo_genesis_def genesis_empty_def wf_asset_type_def asset_type_from_u8_def)
  then show "length (leaf_value l) \<noteq> 64" using asset_leaf_sized [OF _ assms(3)] by simp
  show "l \<noteq> leaf_empty" using asset_to_leaf_sum [OF assms(3)] assms(2) by (auto simp: leaf_empty_def leaf_new_def)
qed

section \<open>Properties\<close>

text \<open>C4: what is anchored can be proven. Take a commitment tree built by any sequence of insertions and updates, and an
  output that \<^verbatim>\<open>create_tap_output_script\<close> made for its commitment and an internal key. For every asset the tree hands
  out a commitment proof; put into a taproot proof for that output, it verifies as an inclusion proof when the asset is in the
  tree (stored without its split commitment) and as an exclusion proof when nothing lies under the keys of the asset.
  (Assumed: the internal key can be tweaked, the output key has 32 bytes, and the sibling preimage, if there is
  one, hashes to the sibling the output was made with.)\<close>

theorem anchored_proofs_verify:
  fixes env :: Env and t :: TapCommitmentTree
  assumes "tct_reach (sha256 env) S t g" "tweakable (sha256 env) (secp env) ik"
    and "create_tap_output_script (sha256 env) (secp env) ik (tct_commitment t) sibling_script = Ok (script, key)"
    and "sibling_hash (sha256 env) preimage = Ok (map_option (tap_leaf_hash (sha256 env) 0xc0) sibling_script)"
    and "unat idx < length (atx_output anchor)" "script_pubkey (atx_output anchor ! unat idx) = script" "length key = 32"
  shows "\<exists>stored cp c. tct_proof (sha256 env) (tap_key_of (sha256 env) a) (leaf_key_of (sha256 env) a) t = Ok (stored, cp)
    \<and> (case stored of
         Some b \<Rightarrow> b = without_split_commitment a \<longrightarrow>
           verify_taproot_proof env anchor (output_proof idx ik preimage cp) a True = Ok (Some c)
       | None \<Rightarrow> verify_taproot_proof env anchor (output_proof idx ik preimage cp) a False = Ok (Some c))"
  by (rule anchored_proofs [OF assms])

theorem anchored_proofs_verify_witness:
  "\<exists>t anchor cp c. asset_commitments t \<noteq> []
    \<and> tct_proof demo_hash (tap_key_of demo_hash demo_token) (leaf_key_of demo_hash demo_token) t = Ok (Some demo_token, cp)
    \<and> verify_taproot_proof (demo_env anchor_tx_default) anchor (output_proof 0 NUMS_KEY None cp) demo_token True = Ok (Some c)"
proof -
  obtain t S g ac where t: "tct_reach demo_hash S t g"
    "asset_commitments t = [(tap_key_of demo_hash demo_token, ac)]"
    "act_assets ac = [(leaf_key_of demo_hash demo_token, demo_token)]"
    by (rule demo_tap_tree)
  obtain key where key: "taproot_output_key demo_hash demo_secp NUMS_KEY (tapscript_root demo_hash (tct_commitment t) None) = Ok key"
    "length key = 32" using demo_output_key by blast
  let ?script = "[0x51, 0x20] @ key"
  let ?anchor = "anchor_tx_default\<lparr>atx_output := [\<lparr>out_value = 1000, script_pubkey = ?script\<rparr>]\<rparr>"
  have "create_tap_output_script demo_hash demo_secp NUMS_KEY (tct_commitment t) None = Ok (?script, key)"
    using key(1) by (simp add: create_tap_output_script_def)
  with anchored_proofs_verify [of "demo_env anchor_tx_default" S t g NUMS_KEY None ?script key None 0 ?anchor demo_token] t(1) demo_tweakable key(2)
  obtain stored cp c where p: "tct_proof demo_hash (tap_key_of demo_hash demo_token) (leaf_key_of demo_hash demo_token) t = Ok (stored, cp)"
    "case stored of Some b \<Rightarrow> b = without_split_commitment demo_token \<longrightarrow>
         verify_taproot_proof (demo_env anchor_tx_default) ?anchor (output_proof 0 NUMS_KEY None cp) demo_token True = Ok (Some c)
     | None \<Rightarrow> verify_taproot_proof (demo_env anchor_tx_default) ?anchor (output_proof 0 NUMS_KEY None cp) demo_token False = Ok (Some c)"
    by (auto simp: sibling_hash_def)
  have "stored = Some demo_token"
    using tct_proof_derives [OF t(1), of "tap_key_of demo_hash demo_token" "leaf_key_of demo_hash demo_token"] p(1) t(2,3)
    by (auto simp: sha_32_demo_hash)
  moreover have "without_split_commitment demo_token = demo_token"
    by (simp add: without_split_commitment_def has_split_commitment_witness_def is_split_commitment_def demo_token_def
        new_genesis_def)
  ultimately show ?thesis using p t(2) by (intro exI [of _ t] exI [of _ ?anchor] exI) auto
qed

text \<open>C3: verified transfers conserve value. When a proof is accepted after a previous one, it spends the outpoint of the
  previous snapshot, and the asset it runs the engine on (its own, or the root asset of its split) is not a genesis. Every input
  is the asset of the previous proof or of an additional input file that verifies by itself; the identifier of the previous
  asset is among the inputs, with the previous asset itself unless an additional file ends in an asset of the same identifier (a later
  insertion replaces an earlier one). Every input is named by a witness that the Schnorr validator accepted, and the amounts of all
  inputs, those of the additional input files included, add up to the value the asset commits to: the sum of its split
  commitment root if it has one and its amount otherwise. (Assumed: SHA-256 has no collision among the preimages of the input tree.)\<close>

theorem verified_transfer_conserves:
  assumes "verify_proof env ctx opts (Some prev) p = Ok s"
    and "transition_target env p = Ok (splits, new_asset)" "transition_inputs env ctx (Some prev) p = Ok inputs"
    and "inputs_separated (sha256 env) S new_asset inputs"
  shows "prev_out p = snap_out_point prev \<and> \<not> is_genesis_asset new_asset
    \<and> snapshot_prev_id env (prev_out p) prev \<in> fst ` set inputs
    \<and> (\<forall>(q, a) \<in> set inputs. q = snapshot_prev_id env (prev_out p) prev \<and> a = snap_asset prev
         \<or> (\<exists>f \<in> set (additional_inputs p). \<exists>s'. verify_file env ctx options_default f = Ok s'
              \<and> q = snapshot_prev_id env (snap_out_point s') s' \<and> a = snap_asset s'))
    \<and> ((snapshot_prev_id env (prev_out p) prev, snap_asset prev) \<in> set inputs
        \<or> (\<exists>f \<in> set (additional_inputs p). \<exists>s'. verify_file env ctx options_default f = Ok s'
              \<and> snapshot_prev_id env (snap_out_point s') s' = snapshot_prev_id env (prev_out p) prev
              \<and> (snapshot_prev_id env (prev_out p) prev, snap_asset s') \<in> set inputs))
    \<and> (\<forall>(q, a) \<in> set inputs. \<exists>base_tx i. i < length (prev_witnesses new_asset)
         \<and> w_prev_id (prev_witnesses new_asset ! i) = Some q
         \<and> input_checked (sha256 env) (btc (secp env)) (schnorr_validator (secp env)) new_asset inputs base_tx i
             (prev_witnesses new_asset ! i))
    \<and> (\<Sum>(q, a) \<leftarrow> inputs. unat (amount a))
        = unat (case split_commitment_root new_asset of None \<Rightarrow> amount new_asset | Some (_, v) \<Rightarrow> v)"
proof -
  from verify_proof_Ok [OF assms(1)] have out: "prev_out p = snap_out_point prev"
    and vm: "vm_execute (sha256 env) (btc (secp env)) (schnorr_validator (secp env)) new_asset splits inputs = Ok ()"
    using assms(2,3) by (auto simp: accepted_transition_def)
  note facts = transition_inputs_facts [OF assms(3)]
  have key: "snapshot_prev_id env (prev_out p) prev \<in> fst ` set inputs" by (rule facts(2)) simp
  then have "inputs \<noteq> []" by auto
  note gen = execute_with_inputs [OF vm this]
  let ?file = "\<lambda>q a. \<exists>f \<in> set (additional_inputs p). \<exists>s'. verify_file env ctx options_default f = Ok s'
    \<and> q = snapshot_prev_id env (snap_out_point s') s' \<and> a = snap_asset s'"
  have origin: "\<forall>(q, a) \<in> set inputs. q = snapshot_prev_id env (prev_out p) prev \<and> a = snap_asset prev \<or> ?file q a"
    using transition_inputs_origin [OF assms(3)] by blast
  from key obtain a where a: "(snapshot_prev_id env (prev_out p) prev, a) \<in> set inputs" by force
  then have "a = snap_asset prev \<or> ?file (snapshot_prev_id env (prev_out p) prev) a" using transition_inputs_origin [OF assms(3)] by blast
  then have "(snapshot_prev_id env (prev_out p) prev, snap_asset prev) \<in> set inputs
      \<or> (\<exists>f \<in> set (additional_inputs p). \<exists>s'. verify_file env ctx options_default f = Ok s'
          \<and> snapshot_prev_id env (snap_out_point s') s' = snapshot_prev_id env (prev_out p) prev
          \<and> (snapshot_prev_id env (prev_out p) prev, snap_asset s') \<in> set inputs)" using a by metis
  then show ?thesis
    using out gen key origin execute_spends_all [OF vm gen facts(1)] execute_conserves [OF vm gen assms(4) facts(1)] by fastforce
qed

theorem verified_transfer_conserves_witness:
  "\<exists>p s new_asset. verify_proof (demo_env anchor_tx_default) demo_ctx options_default (Some demo_snapshot) p = Ok s
    \<and> transition_target (demo_env anchor_tx_default) p = Ok ([], new_asset) \<and> split_commitment_root new_asset = Some (zeros 32, 1000)
    \<and> transition_inputs (demo_env anchor_tx_default) demo_ctx (Some demo_snapshot) p = Ok [(demo_prev, demo_coin)]
    \<and> \<not> is_genesis_asset new_asset
    \<and> (\<Sum>(q, a) \<leftarrow> [(demo_prev, demo_coin)]. unat (amount a)) = unat (1000 :: u64)"
proof -
  obtain n key s where p: "verify_proof (demo_env anchor_tx_default) demo_ctx options_default (Some demo_snapshot)
      (demo_proof n None (prev_out_point demo_prev) key) = Ok s"
    "transition_target (demo_env anchor_tx_default) (demo_proof n None (prev_out_point demo_prev) key) = Ok ([], n)"
    "transition_inputs (demo_env anchor_tx_default) demo_ctx (Some demo_snapshot) (demo_proof n None (prev_out_point demo_prev) key)
       = Ok [(demo_prev, demo_coin)]"
    and sep: "inputs_separated demo_hash demo_coin_set n [(demo_prev, demo_coin)]"
    and root: "split_commitment_root n = Some (zeros 32, 1000)" by (rule demo_verified_transfer)
  from verified_transfer_conserves [OF p] sep have "\<not> is_genesis_asset n"
    "(\<Sum>(q, a) \<leftarrow> [(demo_prev, demo_coin)]. unat (amount a))
      = unat (case split_commitment_root n of None \<Rightarrow> amount n | Some (_, v) \<Rightarrow> v)"
    by auto
  with p root show ?thesis by (intro exI conjI) auto
qed

text \<open>C5: a verified file is a chain. Every proof of a verified file decodes; its anchor transaction spends the outpoint it
  names; the output it names is a taproot output whose key commits, beside the sibling if there is one, to a
  Taproot Asset commitment that contains the asset; every other taproot output of the transaction has an exclusion proof that
  verifies; a proof after the first spends the outpoint of the snapshot before it, and its state transition is
  accepted by the engine on that snapshot's asset; the first proof has an accepted transition without a previous asset
  unless it carries a challenge witness. The result is the snapshot of the last proof.\<close>

theorem verified_file_chain:
  assumes "verify_file env ctx opts f = Ok s"
  shows "\<exists>ps ss. length ps = length (proofs f) \<and> length ss = length ps \<and> ps \<noteq> [] \<and> s = last ss
    \<and> (\<forall>i < length ps. chain_link env ctx (proofs f ! i) (if i = 0 then None else Some (ss ! (i - 1))) (ps ! i) (ss ! i))"
proof -
  let ?rec = "verify_file env ctx options_default"
  from assms have ne: "proofs f \<noteq> []" and chain: "verify_chain_with env ctx opts ?rec (proofs f) None = Ok (Some s)"
    by (subst (asm) verify_file.simps, auto simp: verify_file_with_def res_simps split: if_splits)+
  from chain_snapshots [OF chain] obtain ps ss where len: "length ps = length (proofs f)" "length ss = length (proofs f)"
    and step: "\<And>i. i < length (proofs f) \<Longrightarrow>
        decode_proof (sha256 env) (pub_key_valid (secp env)) (txlib env) (proof_bytes (proofs f ! i)) = Ok (ps ! i)
      \<and> verify_proof_with env ctx opts ?rec (if i = 0 then None else Some (ss ! (i - 1))) (ps ! i) = Ok (ss ! i)"
    and s: "s = last ss" using ne by auto
  have "chain_link env ctx (proofs f ! i) (if i = 0 then None else Some (ss ! (i - 1))) (ps ! i) (ss ! i)"
    if "i < length ps" for i
    using step [of i] that len(1) by (intro chain_link_Ok [where opts = opts]) (auto simp only: verify_proof_def)
  with len ne s show ?thesis by (intro exI [of _ ps] exI [of _ ss]) auto
qed

theorem verified_file_chain_witness:
  "\<exists>tx f s p c. verify_file (demo_env tx) demo_ctx options_default f = Ok s \<and> length (proofs f) = 1
    \<and> asset p = demo_coin \<and> decode_proof demo_hash (\<lambda>_. True) (demo_txlib tx) (proof_bytes (proofs f ! 0)) = Ok p
    \<and> output_commits (demo_env tx) (anchor_tx p) (inclusion_proof p) demo_coin c"
proof -
  obtain tx p s where f: "verify_file (demo_env tx) demo_ctx options_default
      (append_proof demo_hash (encode_proof demo_hash (demo_txlib tx) p) file_new) = Ok s"
    and p: "wf_proof demo_hash (\<lambda>_. True) (demo_txlib tx) p" "length (encode_proof demo_hash (demo_txlib tx) p) \<le> 10000"
      "asset p = demo_coin" by (rule demo_file)
  let ?f = "append_proof demo_hash (encode_proof demo_hash (demo_txlib tx) p) file_new"
  have one: "length (proofs ?f) = 1" "proof_bytes (proofs ?f ! 0) = encode_proof demo_hash (demo_txlib tx) p"
    by (simp_all add: append_proof_def file_new_def Let_def)
  have dec: "decode_proof demo_hash (\<lambda>_. True) (demo_txlib tx) (proof_bytes (proofs ?f ! 0)) = Ok p"
    unfolding one(2) using proof_codec [OF p(1) sha_32_demo_hash] p(2) by simp
  have "pub_key_valid demo_secp = (\<lambda>_. True)" by (simp add: demo_secp_def)
  with verified_file_chain [OF f] dec one(1) obtain c where
    "output_commits (demo_env tx) (anchor_tx p) (inclusion_proof p) (asset p) c" by (fastforce simp: chain_link_def)
  with f one(1) dec p(3) show ?thesis by (intro exI conjI) auto
qed

text \<open>C29: a transition proof survives the wire. Encoding a well-formed proof and decoding the bytes gives the same proof: the
  asset with its witnesses, the inclusion, exclusion and split root proofs with their commitment and tapscript proofs, the
  markers of spent assets, metadata, additional input files, challenge witness, reveals, alternative leaves, and unknown odd
  records wherever their types sort. (Well-formed: fixed-size fields have their sizes, keys parse, the limits of the decoder are
  kept, the bitcoin crate reads back the transaction it wrote, and nested asset and taproot asset proofs have no unknown types.)\<close>

theorem proof_roundtrip:
  assumes "wf_proof sha on_curve txl p" "sha_32 sha" "length (encode_proof sha txl p) \<le> 128 * 1024 * 1024"
  shows "decode_proof sha on_curve txl (encode_proof sha txl p) = Ok p"
  by (rule proof_codec [OF assms])

theorem proof_roundtrip_witness:
  "\<exists>tx p. asset p = demo_coin \<and> decode_proof demo_hash (\<lambda>_. True) (demo_txlib tx) (encode_proof demo_hash (demo_txlib tx) p) = Ok p"
proof -
  obtain tx p s where "verify_file (demo_env tx) demo_ctx options_default
      (append_proof demo_hash (encode_proof demo_hash (demo_txlib tx) p) file_new) = Ok s"
    and p: "wf_proof demo_hash (\<lambda>_. True) (demo_txlib tx) p" "length (encode_proof demo_hash (demo_txlib tx) p) \<le> 10000"
      "asset p = demo_coin" by (rule demo_file)
  from proof_roundtrip [OF p(1) sha_32_demo_hash] p(2,3) show ?thesis by (intro exI [of _ tx] exI [of _ p]) simp
qed

text \<open>C30: an exclusion proof does not show that the asset is absent. For every asset that has a leaf and every internal key
  that can be tweaked there are a transaction and two taproot proofs for one of its outputs, with well-formed commitment
  proofs of full depth, such that the first verifies that the asset is in the output and the second verifies that it is not. The
  exclusion is derived under the tap key that the proof itself carries, which is never compared with that of the asset: absence from
  any other asset commitment in the same output passes as absence from the output.\<close>

theorem excluded_though_included:
  assumes "sha_32 (sha256 env)" "tweakable (sha256 env) (secp env) ik"
    and "\<forall>root key. taproot_output_key (sha256 env) (secp env) ik root = Ok key \<longrightarrow> length key = 32"
    and "asset_leaf (sha256 env) (without_split_commitment a) = Ok leaf"
  shows "\<exists>anchor incl excl cp cp' ap c c'. tr_output_index incl = tr_output_index excl
    \<and> tr_commitment_proof incl = Some cp \<and> wf_commitment_proof (sha256 env) cp
    \<and> cp_asset_proof cp = Some ap \<and> ap_tap_key ap = tap_key_of (sha256 env) a
    \<and> tr_commitment_proof excl = Some cp' \<and> wf_commitment_proof (sha256 env) cp'
    \<and> verify_taproot_proof env anchor incl a True = Ok (Some c)
    \<and> verify_taproot_proof env anchor excl a False = Ok (Some c')"
proof -
  let ?sha = "sha256 env" and ?k1 = "tap_key_of (sha256 env) a" and ?ak = "leaf_key_of (sha256 env) a"
  let ?sibs = "replicate 256 (computed (zeros 32) 0)"
  let ?k2 = "?k1[0 := NOT (?k1 ! 0)]"
  let ?ac = "\<lambda>k l. build_asset_commitment_leaf ?sha AssetV0 k (proof_root ?ak (Leaf l) ?sibs)"
  have "length ?k1 = 32" using assms(1) by simp
  then have "bit_index 0 ?k1 \<noteq> bit_index 0 ?k2" by (simp add: bit_index_def bit_not_iff)
  from two_leaf_root [OF assms(1) this] obtain p1 p2 where p: "length p1 = 256" "length p2 = 256" "wf_siblings ?sha p1"
    "wf_siblings ?sha p2" and root: "proof_root ?k1 (Leaf (?ac ?k1 leaf)) p1 = proof_root ?k2 (Leaf (?ac ?k2 leaf_empty)) p2"
    by metis
  define cp where "cp = (\<lambda>k p. CommitmentProof (Some \<lparr>ap_proof = ?sibs, ap_version = AssetV0, ap_tap_key = k, ap_unknown_odd_types = []\<rparr>)
      \<lparr>tp_proof = p, tp_version = TapV2, tp_unknown_odd_types = []\<rparr> None [] [])"
  let ?root = "proof_root ?k1 (Leaf (?ac ?k1 leaf)) p1"
  obtain key where key: "taproot_output_key ?sha (secp env) ik (tapscript_root ?sha (tap_commitment_from_root TapV2 ?root) None) = Ok key"
    using assms(2) unfolding tweakable_def by blast
  let ?anchor = "anchor_tx_default\<lparr>atx_output := [\<lparr>out_value = 1000, script_pubkey = [0x51, 0x20] @ key\<rparr>]\<rparr>"
  have pays: "pays_to ?anchor 0 key" using key assms(3) by (simp add: pays_to_def)
  have d: "derive_by_asset_inclusion ?sha (cp ?k1 p1) ?ak leaf ?k1 = Ok ?root"
    "derive_by_asset_exclusion ?sha (cp ?k2 p2) ?ak ?k2 = Ok ?root"
    using root by (simp_all add: cp_def derive_by_asset_inclusion_def derive_by_asset_exclusion_def)
  have out: "tr_commitment_proof (output_proof 0 ik None (cp k p)) = Some (cp k p)" for k p by (simp add: cp_def)
  have parts: "cp_asset_proof (cp k p) = Some \<lparr>ap_proof = ?sibs, ap_version = AssetV0, ap_tap_key = k, ap_unknown_odd_types = []\<rparr>"
    "tp_version (cp_taproot_asset_proof (cp k p)) = TapV2" "cp_tap_sibling_preimage (cp k p) = None" for k p
    by (simp_all add: cp_def)
  have "\<exists>c. verify_taproot_proof env ?anchor (output_proof 0 ik None (cp ?k1 p1)) a True = Ok (Some c)"
    using inclusion_read [OF _ _ out, of env _ _ ?anchor key _ a leaf ?root None] assms(2,4) pays d(1) key
    by (auto simp: parts sibling_hash_def)
  moreover have "\<exists>c. verify_taproot_proof env ?anchor (output_proof 0 ik None (cp ?k2 p2)) a False = Ok (Some c)"
    using exclusion_read [OF _ _ out, of env _ _ ?anchor key a ?root None] assms(2) pays d(2) key
    by (auto simp: parts sibling_hash_def)
  moreover have "wf_commitment_proof ?sha (cp ?k1 p1)" "wf_commitment_proof ?sha (cp ?k2 p2)"
    using p by (simp_all add: wf_commitment_proof_def cp_def wf_siblings_def)
  ultimately show ?thesis
    using out [of ?k1 p1] out [of ?k2 p2] parts(1) [of ?k1 p1]
    by - (rule exI [of _ ?anchor], rule exI [of _ "output_proof 0 ik None (cp ?k1 p1)"],
        rule exI [of _ "output_proof 0 ik None (cp ?k2 p2)"], simp del: output_proof_simps(4))
qed

theorem excluded_though_included_witness:
  "\<exists>anchor incl excl c c'. tr_output_index incl = tr_output_index excl
    \<and> verify_taproot_proof (demo_env anchor_tx_default) anchor incl demo_coin True = Ok (Some c)
    \<and> verify_taproot_proof (demo_env anchor_tx_default) anchor excl demo_coin False = Ok (Some c')"
proof -
  have "without_split_commitment demo_coin = demo_coin"
    by (simp add: without_split_commitment_def has_split_commitment_witness_def is_split_commitment_def demo_coin_def new_genesis_def)
  then have leaf: "asset_leaf demo_hash (without_split_commitment demo_coin) = Ok demo_coin_leaf"
    using demo_coin_facts(1) by (simp add: asset_leaf_def)
  have "\<forall>root key. taproot_output_key demo_hash demo_secp NUMS_KEY root = Ok key \<longrightarrow> length key = 32"
    using demo_output_key by (metis result.inject(1))
  with excluded_though_included [of "demo_env anchor_tx_default" NUMS_KEY demo_coin demo_coin_leaf] leaf sha_32_demo_hash demo_tweakable
  show ?thesis by (simp only: demo_env_simps) blast
qed

text \<open>A transfer of one input to one output with a signature for the key path is accepted. The unsigned asset has one witness
  without a stack.\<close>

lemma key_spend_accepted:
  assumes n: "prev_witnesses n = [\<lparr>w_prev_id = Some pid, tx_witness = [], split_commitment = None\<rparr>]"
      "split_commitment_root n = None" "genesis n = genesis a" "amount n = amount a" "pid \<noteq> PREV_ID_ZERO"
    and pid: "prev_script_key pid = sk_pub_key (script_key a)" "prev_asset_id pid = genesis_id sha (genesis a)" "script_version a = 0"
    and tx: "virtual_tx sha n [(pid, a)] = Ok (tx, h, v)" "input_key_spend_sighash (btc lib) tx a n 0 0 = Ok m"
    and sig: "length sig = 64" "schnorr_verifies lib sig m (schnorr_bytes (sk_pub_key (script_key a)))"
    and sep: "asset_to_leaf sha a = Ok leaf" "separated sha S no_content" "admissible sha S no_content (prev_id_hash sha pid) leaf"
  shows "vm_execute sha (btc lib) (schnorr_validator lib)
    (n\<lparr>prev_witnesses := [\<lparr>w_prev_id = Some pid, tx_witness = [sig], split_commitment = None\<rparr>]\<rparr>) [] [(pid, a)] = Ok ()"
proof -
  let ?w = "\<lambda>wit. \<lparr>w_prev_id = Some pid, tx_witness = wit, split_commitment = None\<rparr>"
  let ?n = "\<lambda>wit. n\<lparr>prev_witnesses := [?w wit]\<rparr>"
  have nn: "?n [] = n" using n(1) by simp
  have gen: "\<not> is_genesis_asset (?n wit)" for wit
    using n(5) by (simp add: is_genesis_asset_def has_genesis_witness_def has_genesis_witness_for_group_def
        is_genesis_def is_genesis_for_group_def witness_zero_prev_def prev_id_is_zero_def)
  have "virtual_tx sha (?n [sig]) [(pid, a)] = virtual_tx sha (?n []) [(pid, a)]"
    by (rule virtual_tx_stacks) (use gen in simp_all)
  then have tx': "virtual_tx sha (?n [sig]) [(pid, a)] = Ok (tx, h, v)" using tx(1) nn by simp
  have out: "virtual_tx_out sha (?n [sig]) = Ok (vtx_output tx)"
    using tx' unfolding virtual_tx_transfer [OF gen] by blast
  have val: "out_value (vtx_output tx) = amount a" using virtual_tx_out_value [OF out] n by simp
  have "v = amount a" using single_input_tree [OF sep(2,3) _ _ sep(1), of "?n [sig]"] tx'
    unfolding virtual_tx_transfer [OF gen] by auto
  moreover have "input_checked sha (btc lib) (schnorr_validator lib) (?n [sig]) [(pid, a)] tx 0 (?w [sig])"
    using tx(2) sig pid n(3)
    by (auto simp: input_checked_def matches_prev_genesis_def is_script_path_witness_def witness_sig_hash_type_def
        taproot_witness_sig_hash_type_def input_key_spend_sighash_def input_prev_out_def schnorr_validator_def
        schnorr_validate_witness_def Let_def res_simps split: if_splits)
  ultimately have "validate_state_transition sha (btc lib) (schnorr_validator lib) (?n [sig]) [(pid, a)] = Ok ()"
    using tx' val by (subst transfer_of_one_input [OF sep(2,3) _ _ n(5) sep(1) out]) auto
  then show ?thesis using gen by (simp add: execute_transfer_Ok)
qed

text \<open>C27: an owner can answer a challenge. When \<^verbatim>\<open>prove_ownership\<close> succeeds with a signer for the script key of the
  asset (its signatures have 64 bytes and verify), the challenge witness it puts into the proof is accepted for the same challenge: the
  engine accepts the spend of the asset to the challenge key. (Assumed: script version 0, a script key that is not all zeros, and no
  collision of SHA-256 among the preimages of the one-leaf input tree.)\<close>

theorem ownership_proof_verifies:
  assumes "prove_ownership env sign p challenge = Ok q" "signs_for (secp env) sign (asset p)"
    and "script_version (asset p) = 0" "sk_pub_key (script_key (asset p)) \<noteq> zeros 33"
    and "asset_to_leaf (sha256 env) (asset p) = Ok leaf" "separated (sha256 env) S no_content"
    and "admissible (sha256 env) S no_content (prev_id_hash (sha256 env) (ownership_prev_id (sha256 env) (asset p))) leaf"
  shows "verify_challenge_witness env q challenge = Ok (has_split_commitment_witness (asset p))"
proof -
  let ?sha = "sha256 env" and ?a = "asset p" and ?id = "ownership_prev_id (sha256 env) (asset p)"
  let ?w = "\<lambda>wit. \<lparr>w_prev_id = Some ?id, tx_witness = wit, split_commitment = None\<rparr>"
  from assms(1) obtain key tx h v m sig where
    key: "gen_challenge_nums (secp env) challenge = Ok key"
    and tx: "virtual_tx ?sha ((copy_spend_template ?a)\<lparr>script_key := key, prev_witnesses := [?w []]\<rparr>) [(?id, ?a)] = Ok (tx, h, v)"
    and m: "input_key_spend_sighash (btc (secp env)) tx ?a ((copy_spend_template ?a)\<lparr>script_key := key, prev_witnesses := [?w []]\<rparr>) 0 0 = Ok m"
    and sig: "sign m = Ok sig" "q = p\<lparr>challenge_witness := Some [sig]\<rparr>"
    by (auto simp: prove_ownership_def create_ownership_proof_asset_def ownership_prev_id_def Let_def res_simps)
  let ?n = "\<lambda>wit. (copy_spend_template ?a)\<lparr>script_key := key, prev_witnesses := [?w wit]\<rparr>"
  have id: "?id \<noteq> PREV_ID_ZERO" using assms(4) by (simp add: ownership_prev_id_def PREV_ID_ZERO_def)
  have "vm_execute ?sha (btc (secp env)) (schnorr_validator (secp env)) (?n []\<lparr>prev_witnesses := [?w [sig]]\<rparr>) [] [(?id, ?a)] = Ok ()"
    by (rule key_spend_accepted [OF _ _ _ _ id _ _ assms(3) tx m _ _ assms(5-7)])
      (use assms(2) sig(1) in \<open>simp_all add: copy_spend_template_def ownership_prev_id_def asset_id_def signs_for_def\<close>)
  with key sig(2) show ?thesis
    by (simp add: verify_challenge_witness_def create_ownership_proof_asset_def ownership_prev_id_def Let_def)
qed

theorem ownership_proof_verifies_witness:
  "\<exists>p q. asset p = demo_coin \<and> challenge_witness p = None
    \<and> prove_ownership (demo_env anchor_tx_default) (\<lambda>_. Ok (zeros 64)) p (Some (replicate 32 7)) = Ok q
    \<and> verify_challenge_witness (demo_env anchor_tx_default) q (Some (replicate 32 7)) = Ok False"
proof -
  let ?env = "demo_env anchor_tx_default" and ?p = "demo_proof demo_coin None (prev_out_point demo_prev) (zeros 32)"
  let ?id = "ownership_prev_id demo_hash demo_coin" and ?c = "Some (replicate 32 7)"
  let ?S = "single_set (prev_id_hash demo_hash ?id) demo_coin_leaf"
  have gen: "genesis demo_coin = demo_genesis" "amount demo_coin = 1000" by (simp_all add: demo_coin_def new_genesis_def)
  note sized = demo_leaf_sized [OF gen demo_coin_facts(1)]
  have sep: "separated demo_hash ?S no_content"
    "admissible demo_hash ?S no_content (prev_id_hash demo_hash ?id) demo_coin_leaf"
    using demo_single_leaf sized by blast+
  obtain key where key: "gen_challenge_nums demo_secp ?c = Ok key"
    by (simp add: gen_challenge_nums_def demo_secp_def Let_def)
  let ?w = "\<lparr>w_prev_id = Some ?id, tx_witness = [], split_commitment = None\<rparr>"
  let ?n = "(copy_spend_template demo_coin)\<lparr>script_key := key, prev_witnesses := [?w]\<rparr>"
  have n: "genesis ?n = demo_genesis" "amount ?n = 1000" "a_version ?n = a_version demo_coin" "split_commitment_root ?n = None"
    by (simp_all add: gen copy_spend_template_def)
  then obtain l where l: "asset_to_leaf demo_hash ?n = Ok l" using asset_to_leaf_Ok [OF _ demo_coin_facts(1)] by blast
  have "\<exists>s. tree_insert demo_hash k l full_tree_new = Ok s" for k
    using demo_single_leaf(4) demo_leaf_sized [OF n(1,2) l] by blast
  then have out: "\<exists>out. virtual_tx_out demo_hash ?n = Ok out"
    using l n(4) by (auto simp: virtual_tx_out_def Let_def res_simps)
  have id: "?id \<noteq> PREV_ID_ZERO"
    by (simp add: ownership_prev_id_def PREV_ID_ZERO_def demo_coin_def new_genesis_def script_key_from_pub_key_def zeros_def)
  then have "\<not> is_genesis_asset ?n"
    by (simp add: is_genesis_asset_def has_genesis_witness_def has_genesis_witness_for_group_def
        is_genesis_def is_genesis_for_group_def witness_zero_prev_def prev_id_is_zero_def)
  then have "\<exists>tx h v. virtual_tx demo_hash ?n [(?id, demo_coin)] = Ok (tx, h, v)"
    using single_input_tree [OF sep _ _ demo_coin_facts(1), of ?n ?w] out
    by (auto simp: virtual_tx_def is_genesis_asset_def needs_genesis_witness_for_group_def)
  then obtain q where q: "prove_ownership ?env (\<lambda>_. Ok (zeros 64)) ?p ?c = Ok q"
    using key by (fastforce simp: prove_ownership_def create_ownership_proof_asset_def ownership_prev_id_def Let_def res_simps
        input_key_spend_sighash_def input_prev_out_def demo_secp_def demo_lib_def)
  have "signs_for demo_secp (\<lambda>_. Ok (zeros 64)) demo_coin" by (simp add: signs_for_def demo_secp_def)
  moreover have "script_version demo_coin = 0" "sk_pub_key (script_key demo_coin) \<noteq> zeros 33" "\<not> has_split_commitment_witness demo_coin"
    by (simp_all add: demo_coin_def new_genesis_def script_key_from_pub_key_def zeros_def has_split_commitment_witness_def
        is_split_commitment_def)
  ultimately have "verify_challenge_witness ?env q ?c = Ok False"
    using ownership_proof_verifies [of ?env _ ?p ?c q demo_coin_leaf ?S] q sep demo_coin_facts(1) by simp
  with q show ?thesis by (intro exI [of _ ?p] exI [of _ q]) simp
qed

text \<open>C28: the verification of a file ends, and its recursion is bounded by the size of the file. Cut the recursion through
  additional input files off at any depth above the length of the longest proof of the file, and let whatever one likes happen at the
  cut: the result is that of the full verification. A file nested in a proof is strictly smaller than the proof, so a
  depth beyond that length is never reached.\<close>

theorem verification_depth_bounded:
  assumes "file_weight f < n"
  shows "((\<lambda>verify. verify_file_with env ctx options_default verify) ^^ n) at_cut f = verify_file env ctx options_default f"
  using assms
proof (induction n arbitrary: f)
  case (Suc n)
  then have "((\<lambda>verify. verify_file_with env ctx options_default verify) ^^ n) at_cut g = verify_file env ctx options_default g"
    if "file_weight g < file_weight f" for g using that by simp
  then have "verify_file_with env ctx options_default (((\<lambda>verify. verify_file_with env ctx options_default verify) ^^ n) at_cut) f
      = verify_file_with env ctx options_default (verify_file env ctx options_default) f"
    by (intro verify_file_with_cong) simp_all
  then show ?case by (simp add: verify_file.simps [of env ctx _ f])
qed simp

theorem verification_depth_bounded_witness:
  "\<exists>f. length (proofs f) = 1 \<and> verify_file (demo_env anchor_tx_default) demo_ctx options_default f
     = ((\<lambda>verify. verify_file_with (demo_env anchor_tx_default) demo_ctx options_default verify) ^^ 3) (\<lambda>_. Panic) f"
proof -
  let ?f = "append_proof demo_hash [1, 2] file_new"
  have "file_weight ?f = 2" by (simp add: file_weight_def append_proof_def file_new_def Let_def)
  with verification_depth_bounded [of ?f 3 "demo_env anchor_tx_default" demo_ctx "\<lambda>_. Panic"] show ?thesis
    by (intro exI [of _ ?f]) (simp add: append_proof_def file_new_def Let_def)
qed

end
