(* ===== verification/Mint.thy ===== *)
theory Mint
  imports Proof_Complete "HOL-Library.AList" "HOL-Library.Multiset"
begin

text \<open>
  The minting pipeline: seedlings, batches and the planter (\<^verbatim>\<open>tap-onchain/src/mint/\<close>), the genesis transaction
  template (\<^verbatim>\<open>psbt/genesis.rs\<close>) and genesis proofs (\<^verbatim>\<open>proof/generate.rs\<close>).

  Operations of the planter take the planter and return it updated, together with their result, so that what a
  failed operation leaves behind is visible. The key ring of the wallet is a function, and so is the iteration order of a
  hash map, which Rust leaves open.
\<close>

section \<open>Seedlings\<close>

datatype ChainError =
    BroadcastFailed string | FeeEstimationFailed string | KeyDerivationFailed string | SigningFailed string
  | PsbtFailed string | ConfirmationFailed string | ChainOther string

record KeyDescriptor =
  kd_family :: u16
  kd_index :: u32
  kd_pub_key :: SerializedKey

record TxConfirmation =
  conf_block_hash :: bytes
  conf_block_height :: u32
  conf_tx_index :: u32
  conf_tx :: bytes
  conf_block_header :: bytes
  conf_block_tx_hashes :: "bytes list"

datatype BatchState =
    Pending | Frozen | Committed | Broadcast | Confirmed | Finalized | SeedlingCancelled | SproutCancelled

datatype MintError =
    InvalidSeedling string
  | BatchNotPending BatchState
  | DuplicateSeedling bytes
  | NoPendingBatch
  | EmptyBatch
  | MintChain ChainError
  | MintCommitmentError CommitmentError
  | CannotCancel BatchState

record Seedling =
  sd_asset_version :: AssetVersion
  sd_asset_type :: AssetType
  sd_asset_name :: bytes
  sd_meta :: "MetaReveal option"
  sd_amount :: u64
  sd_enable_emission :: bool
  sd_script_key :: "ScriptKey option"
  sd_group_anchor :: "bytes option"

definition new_normal :: "bytes \<Rightarrow> u64 \<Rightarrow> Seedling" where
  "new_normal name amt =
     \<lparr>sd_asset_version = AssetV0, sd_asset_type = Normal, sd_asset_name = name, sd_meta = None, sd_amount = amt,
      sd_enable_emission = False, sd_script_key = None, sd_group_anchor = None\<rparr>"

definition new_collectible :: "bytes \<Rightarrow> Seedling" where
  "new_collectible name =
     \<lparr>sd_asset_version = AssetV0, sd_asset_type = Collectible, sd_asset_name = name, sd_meta = None, sd_amount = 1,
      sd_enable_emission = False, sd_script_key = None, sd_group_anchor = None\<rparr>"

definition seedling_validate :: "TxLib \<Rightarrow> Seedling \<Rightarrow> (unit, MintError) result" where
  "seedling_validate txl s =
     (if sd_asset_name s = [] then Err (InvalidSeedling ''asset name cannot be empty'')
      else if MAX_ASSET_NAME_LENGTH < length (sd_asset_name s) then Err (InvalidSeedling ''asset name too long'')
      else if sd_amount s = 0 then Err (InvalidSeedling ''amount must be > 0'')
      else if sd_asset_type s = Collectible \<and> sd_amount s \<noteq> 1 then Err (InvalidSeedling ''collectible amount must be 1'')
      else case sd_meta s of
        Some m \<Rightarrow> map_err (\<lambda>_. InvalidSeedling ''invalid metadata'') (meta_validate txl m)
      | None \<Rightarrow> Ok ())"

section \<open>Batches\<close>

definition is_terminal :: "BatchState \<Rightarrow> bool" where
  "is_terminal s = (s \<in> {Finalized, SeedlingCancelled, SproutCancelled})"

definition can_add_seedlings :: "BatchState \<Rightarrow> bool" where
  "can_add_seedlings s = (s = Pending)"

definition can_cancel :: "BatchState \<Rightarrow> bool" where
  "can_cancel s = (s \<in> {Pending, Frozen, Committed})"

record MintingBatch =
  b_state :: BatchState
  batch_key :: KeyDescriptor
  seedlings :: "(bytes \<times> Seedling) list"
  genesis_psbt :: "bytes option"
  root_asset_commitment :: "TapCommitmentTree option"
  sprouted_assets :: "Asset list"
  signed_tx :: "bytes option"
  genesis_outpoint :: "OutPoint option"
  confirmation :: "TxConfirmation option"
  mint_output_index :: "u32 option"
  height_hint :: u32

definition batch_new :: "KeyDescriptor \<Rightarrow> MintingBatch" where
  "batch_new key =
     \<lparr>b_state = Pending, batch_key = key, seedlings = [], genesis_psbt = None, root_asset_commitment = None,
      sprouted_assets = [], signed_tx = None, genesis_outpoint = None, confirmation = None, mint_output_index = None,
      height_hint = 0\<rparr>"

definition add_seedling :: "TxLib \<Rightarrow> Seedling \<Rightarrow> MintingBatch \<Rightarrow> (MintingBatch, MintError) result" where
  "add_seedling txl s b =
     (if \<not> can_add_seedlings (b_state b) then Err (BatchNotPending (b_state b))
      else res_bind (seedling_validate txl s) (\<lambda>_.
        if map_of (seedlings b) (sd_asset_name s) \<noteq> None then Err (DuplicateSeedling (sd_asset_name s))
        else Ok (b\<lparr>seedlings := AList.update (sd_asset_name s) s (seedlings b)\<rparr>)))"

definition num_seedlings :: "MintingBatch \<Rightarrow> nat" where
  "num_seedlings b = length (seedlings b)"

text \<open>The sum of \<^verbatim>\<open>u64\<close> amounts wraps in a release build.\<close>

definition total_amount :: "MintingBatch \<Rightarrow> u64" where
  "total_amount b = (\<Sum>(_, s) \<leftarrow> seedlings b. sd_amount s)"

section \<open>The planter\<close>

definition TAPROOT_ASSETS_KEY_FAMILY :: u16 where "TAPROOT_ASSETS_KEY_FAMILY = 212"

type_synonym KeyRing = "u16 \<Rightarrow> (KeyDescriptor, ChainError) result"
type_synonym hm_order = "(bytes \<times> Seedling) list \<Rightarrow> (bytes \<times> Seedling) list"

record Planter =
  pending_batch :: "MintingBatch option"

definition planter_new :: Planter where
  "planter_new = \<lparr>pending_batch = None\<rparr>"

text \<open>A new batch stays behind when adding the seedling to it fails.\<close>

definition queue_seedling :: "TxLib \<Rightarrow> KeyRing \<Rightarrow> Seedling \<Rightarrow> Planter \<Rightarrow> (unit, MintError) result \<times> Planter" where
  "queue_seedling txl derive_next_key s p =
     (case seedling_validate txl s of
        Ok _ \<Rightarrow>
          (case (case pending_batch p of
                   Some b \<Rightarrow> Ok b
                 | None \<Rightarrow> map_ok batch_new (map_err MintChain (derive_next_key TAPROOT_ASSETS_KEY_FAMILY))) of
             Ok b \<Rightarrow>
               (case add_seedling txl s b of
                  Ok b' \<Rightarrow> (Ok (), p\<lparr>pending_batch := Some b'\<rparr>)
                | Err e \<Rightarrow> (Err e, p\<lparr>pending_batch := Some b\<rparr>)
                | Panic \<Rightarrow> (Panic, p\<lparr>pending_batch := Some b\<rparr>))
           | Err e \<Rightarrow> (Err e, p)
           | Panic \<Rightarrow> (Panic, p))
      | Err e \<Rightarrow> (Err e, p)
      | Panic \<Rightarrow> (Panic, p))"

definition on_batch ::
  "Planter \<Rightarrow> (MintingBatch \<Rightarrow> (MintingBatch, MintError) result) \<Rightarrow> (unit, MintError) result \<times> Planter" where
  "on_batch p f =
     (case pending_batch p of
        None \<Rightarrow> (Err NoPendingBatch, p)
      | Some b \<Rightarrow>
          (case f b of
             Ok b' \<Rightarrow> (Ok (), p\<lparr>pending_batch := Some b'\<rparr>)
           | Err e \<Rightarrow> (Err e, p)
           | Panic \<Rightarrow> (Panic, p)))"

definition set_seedling_script_key :: "bytes \<Rightarrow> ScriptKey \<Rightarrow> Planter \<Rightarrow> (unit, MintError) result \<times> Planter" where
  "set_seedling_script_key name key p = on_batch p (\<lambda>b.
     case map_of (seedlings b) name of
       None \<Rightarrow> Err (InvalidSeedling ''unknown seedling'')
     | Some s \<Rightarrow> Ok (b\<lparr>seedlings := AList.update name (s\<lparr>sd_script_key := Some key\<rparr>) (seedlings b)\<rparr>))"

definition freeze_batch :: "Planter \<Rightarrow> (unit, MintError) result \<times> Planter" where
  "freeze_batch p = on_batch p (\<lambda>b. if seedlings b = [] then Err EmptyBatch else Ok (b\<lparr>b_state := Frozen\<rparr>))"

definition build_commitment :: "hash_fun \<Rightarrow> Asset list \<Rightarrow> (TapCommitmentTree, MintError) result" where
  "build_commitment sha assets =
     res_bind (map_res (\<lambda>a. map_err MintCommitmentError (act_new sha [a])) assets) (\<lambda>acs.
       map_err MintCommitmentError (tct_new sha TapV2 acs))"

text \<open>The asset of a seedling; its tag is the key it is stored under.\<close>

definition sprout_genesis :: "hash_fun \<Rightarrow> OutPoint \<Rightarrow> u32 \<Rightarrow> bytes \<times> Seedling \<Rightarrow> Genesis" where
  "sprout_genesis sha genesis_point tap_output_index = (\<lambda>(name, s).
     \<lparr>first_prev_out = genesis_point, tag = name,
      meta_hash = (case sd_meta s of Some m \<Rightarrow> meta_reveal_hash sha m | None \<Rightarrow> zeros 32),
      g_output_index = tap_output_index, g_asset_type = sd_asset_type s\<rparr>)"

definition sprout_asset ::
  "hash_fun \<Rightarrow> Secp \<Rightarrow> KeyDescriptor \<Rightarrow> OutPoint \<Rightarrow> u32 \<Rightarrow> bytes \<times> Seedling \<Rightarrow> (Asset, MintError) result" where
  "sprout_asset sha lib bkey genesis_point tap_output_index entry =
     res_bind (case sd_script_key (snd entry) of Some k \<Rightarrow> Ok k | None \<Rightarrow> script_key_bip86 sha lib (kd_pub_key bkey)) (\<lambda>key.
       Ok (new_genesis (sprout_genesis sha genesis_point tap_output_index entry) (sd_amount (snd entry)) key))"

definition sprout ::
  "hash_fun \<Rightarrow> Secp \<Rightarrow> hm_order \<Rightarrow> OutPoint \<Rightarrow> u32 \<Rightarrow> MintingBatch \<Rightarrow> (MintingBatch, MintError) result" where
  "sprout sha lib iter genesis_point tap_output_index b =
     res_bind (map_res (sprout_asset sha lib (batch_key b) genesis_point tap_output_index) (iter (seedlings b))) (\<lambda>assets.
     res_bind (build_commitment sha assets) (\<lambda>commitment.
       Ok (b\<lparr>root_asset_commitment := Some commitment, sprouted_assets := assets,
             genesis_outpoint := Some genesis_point, mint_output_index := Some tap_output_index\<rparr>)))"

definition commit_batch ::
  "hash_fun \<Rightarrow> Secp \<Rightarrow> hm_order \<Rightarrow> OutPoint \<Rightarrow> u32 \<Rightarrow> Planter \<Rightarrow> (unit, MintError) result \<times> Planter" where
  "commit_batch sha lib iter genesis_point tap_output_index p = on_batch p (\<lambda>b.
     if b_state b \<noteq> Frozen then Err (BatchNotPending (b_state b))
     else map_ok (\<lambda>b. b\<lparr>b_state := Committed\<rparr>) (sprout sha lib iter genesis_point tap_output_index b))"

definition recommit_batch ::
  "hash_fun \<Rightarrow> Secp \<Rightarrow> hm_order \<Rightarrow> OutPoint \<Rightarrow> u32 \<Rightarrow> Planter \<Rightarrow> (unit, MintError) result \<times> Planter" where
  "recommit_batch sha lib iter genesis_point tap_output_index p = on_batch p (\<lambda>b.
     if b_state b \<noteq> Committed then Err (BatchNotPending (b_state b))
     else sprout sha lib iter genesis_point tap_output_index b)"

text \<open>The function \<open>f\<close> changes the assets in place, so what it did stays when it or the rebuild fails.\<close>

definition update_sprouted_assets ::
  "hash_fun \<Rightarrow> (Asset list \<Rightarrow> (unit, MintError) result \<times> Asset list) \<Rightarrow> Planter \<Rightarrow>
     (unit, MintError) result \<times> Planter" where
  "update_sprouted_assets sha f p =
     (case pending_batch p of
        None \<Rightarrow> (Err NoPendingBatch, p)
      | Some b \<Rightarrow>
          if b_state b \<noteq> Committed then (Err (BatchNotPending (b_state b)), p)
          else
            let (r, assets) = f (sprouted_assets b); b = b\<lparr>sprouted_assets := assets\<rparr> in
            (case res_bind r (\<lambda>_. build_commitment sha assets) of
               Ok c \<Rightarrow> (Ok (), p\<lparr>pending_batch := Some (b\<lparr>root_asset_commitment := Some c\<rparr>)\<rparr>)
             | Err e \<Rightarrow> (Err e, p\<lparr>pending_batch := Some b\<rparr>)
             | Panic \<Rightarrow> (Panic, p\<lparr>pending_batch := Some b\<rparr>)))"

definition cancel_batch :: "Planter \<Rightarrow> (unit, MintError) result \<times> Planter" where
  "cancel_batch p = on_batch p (\<lambda>b.
     if \<not> can_cancel (b_state b) then Err (CannotCancel (b_state b))
     else Ok (b\<lparr>b_state := (if b_state b = Committed then SproutCancelled else SeedlingCancelled)\<rparr>))"

definition take_batch :: "Planter \<Rightarrow> MintingBatch option \<times> Planter" where
  "take_batch p = (pending_batch p, p\<lparr>pending_batch := None\<rparr>)"

section \<open>The genesis transaction\<close>

text \<open>An x-only key is its 32 bytes; the wrapper of \<^verbatim>\<open>psbt/commitment.rs\<close> extends it to a compressed key with even parity.\<close>

datatype PsbtError = TaprootBuildError string | PsbtInvalidKey string | PsbtInvalidScript string

definition psbt_tap_output_script ::
  "hash_fun \<Rightarrow> Secp \<Rightarrow> bytes \<Rightarrow> TapCommitment \<Rightarrow> bytes option \<Rightarrow> (bytes \<times> bytes, PsbtError) result" where
  "psbt_tap_output_script sha lib internal_key tap_commitment sibling_script =
     res_bind (map_err TaprootBuildError
         (create_tap_output_script sha lib (0x02 # internal_key) tap_commitment sibling_script)) (\<lambda>(script, output_key).
       if x_only_valid (btc lib) output_key then Ok (script, output_key) else Err (PsbtInvalidKey ''malformed public key''))"

definition verify_tap_output ::
  "hash_fun \<Rightarrow> Secp \<Rightarrow> bytes \<Rightarrow> bytes \<Rightarrow> TapCommitment \<Rightarrow> (bool, PsbtError) result" where
  "verify_tap_output sha lib script internal_key tap_commitment =
     map_ok (\<lambda>(expected_script, _). script = expected_script)
       (psbt_tap_output_script sha lib internal_key tap_commitment None)"

record GenesisTemplate =
  gt_tx :: AnchorTx
  gt_tap_output_index :: u32
  gt_output_key :: bytes

definition SEQUENCE_ENABLE_RBF :: u32 where "SEQUENCE_ENABLE_RBF = 0xFFFFFFFD"

definition unsigned_input :: "OutPoint \<Rightarrow> AnchorTxIn" where
  "unsigned_input op = \<lparr>previous_output = op, tx_sequence = SEQUENCE_ENABLE_RBF, txin_witness = [], script_sig = []\<rparr>"

definition create_genesis_template ::
  "hash_fun \<Rightarrow> Secp \<Rightarrow> bytes \<Rightarrow> TapCommitment \<Rightarrow> u64 \<Rightarrow> (GenesisTemplate, PsbtError) result" where
  "create_genesis_template sha lib internal_key tap_commitment output_value =
     map_ok (\<lambda>(script, output_key).
         \<lparr>gt_tx = \<lparr>atx_version = 2, atx_lock_time = 0, atx_input = [],
            atx_output = [\<lparr>out_value = output_value, script_pubkey = script\<rparr>]\<rparr>,
          gt_tap_output_index = 0, gt_output_key = output_key\<rparr>)
       (psbt_tap_output_script sha lib internal_key tap_commitment None)"

definition create_genesis_with_input ::
  "hash_fun \<Rightarrow> Secp \<Rightarrow> bytes \<Rightarrow> TapCommitment \<Rightarrow> OutPoint \<Rightarrow> u64 \<Rightarrow> (GenesisTemplate, PsbtError) result" where
  "create_genesis_with_input sha lib internal_key tap_commitment funding_outpoint output_value =
     map_ok (\<lambda>(script, output_key).
         \<lparr>gt_tx = \<lparr>atx_version = 2, atx_lock_time = 0, atx_input = [unsigned_input funding_outpoint],
            atx_output = [\<lparr>out_value = output_value, script_pubkey = script\<rparr>]\<rparr>,
          gt_tap_output_index = 0, gt_output_key = output_key\<rparr>)
       (psbt_tap_output_script sha lib internal_key tap_commitment None)"

section \<open>Genesis proofs\<close>

datatype GenError = GenTree CommitmentError | GenProof ProofError | GenAsset AssetError | GenFailed string

definition derive_inclusion_proof ::
  "hash_fun \<Rightarrow> TapCommitmentTree \<Rightarrow> Asset \<Rightarrow> (CommitmentProof, GenError) result" where
  "derive_inclusion_proof sha commitment a =
     res_bind (map_err GenTree (tct_proof sha (tap_key_of sha a) (leaf_key_of sha a) commitment)) (\<lambda>(committed, p).
       if committed = None then Err (GenFailed ''asset not committed to in the anchor output commitment'') else Ok p)"

record GenesisProofParams =
  gp_anchor_tx_bytes :: bytes
  gp_block_header :: bytes
  gp_block_height :: u32
  gp_tx_index :: nat
  gp_block_tx_hashes :: "bytes list"
  gp_prev_out :: OutPoint
  gp_asset :: Asset
  gp_tap_output_index :: u32
  gp_internal_key :: SerializedKey
  gp_commitment :: "TapCommitmentTree option"
  gp_commitment_proof :: "CommitmentProof option"
  gp_exclusion_proofs :: "TaprootProof list"
  gp_genesis_reveal :: Genesis
  gp_meta_reveal :: "MetaReveal option"
  gp_group_key_reveal :: "GroupKeyReveal option"

text \<open>The commitment proof of the parameters, or one derived from their tree.\<close>

definition inclusion_from ::
  "hash_fun \<Rightarrow> CommitmentProof option \<Rightarrow> TapCommitmentTree option \<Rightarrow> Asset \<Rightarrow> (CommitmentProof option, GenError) result" where
  "inclusion_from sha given tree a =
     (case given of
        Some p \<Rightarrow> Ok (Some p)
      | None \<Rightarrow> (case tree of Some t \<Rightarrow> map_ok Some (derive_inclusion_proof sha t a) | None \<Rightarrow> Ok None))"

definition generate_genesis_proof :: "Env \<Rightarrow> GenesisProofParams \<Rightarrow> (TransitionProof, GenError) result" where
  "generate_genesis_proof env g =
     res_bind (ok_or (build_tx_merkle_proof (\<lambda>x. sha256 env (sha256 env x)) (gp_block_tx_hashes g) (gp_tx_index g))
         (GenFailed ''failed to build tx merkle proof'')) (\<lambda>merkle.
     res_bind (inclusion_from (sha256 env) (gp_commitment_proof g) (gp_commitment g) (gp_asset g)) (\<lambda>cp.
     res_bind (map_err GenProof (anchor_tx_from_bytes (txlib env) (gp_anchor_tx_bytes g))) (\<lambda>tx.
       Ok \<lparr>version = TransitionV0, prev_out = gp_prev_out g, block_header = gp_block_header g,
           block_height = gp_block_height g, anchor_tx = tx, tx_merkle_proof = merkle, asset = gp_asset g,
           inclusion_proof = \<lparr>tr_output_index = gp_tap_output_index g, tr_internal_key = gp_internal_key g,
             tr_commitment_proof = cp, tr_tapscript_proof = None, tr_unknown_odd_types = []\<rparr>,
           exclusion_proofs = gp_exclusion_proofs g, split_root_proof = None, meta_reveal = gp_meta_reveal g,
           additional_inputs = [], challenge_witness = None, genesis_reveal = Some (gp_genesis_reveal g),
           group_key_reveal = gp_group_key_reveal g, alt_leaves = [], pr_unknown_odd_types = []\<rparr>)))"

section \<open>Sprouts and their commitment\<close>

lemma act_new_single:
  assumes "act_new sha [a] = Ok ac"
  shows "ac_tap_key (act_commitment ac) = tap_key_of sha a" "map_of (act_assets ac) (leaf_key_of sha a) = Some a"
    "act_assets ac = [(leaf_key_of sha a, a)]"
  using assms by (auto simp: act_new_def Let_def asset_commitment_from_root_def res_simps)

lemma tct_new_loop_lookup:
  "tct_new_loop sha acs tree cm = Ok (tree', cm') \<Longrightarrow> btree_sorted cm \<Longrightarrow>
    map_of cm \<subseteq>\<^sub>m map_of cm' \<and> (\<forall>ac \<in> set acs. map_of cm' (ac_tap_key (act_commitment ac)) = Some ac)"
proof (induction acs arbitrary: tree cm)
  case (Cons ac acs)
  let ?k = "ac_tap_key (act_commitment ac)"
  from Cons.prems(1) obtain t where t: "tct_new_loop sha acs t (btree_insert ?k ac cm) = Ok (tree', cm')"
    and new: "map_of cm ?k = None" by (auto simp: Let_def res_simps split: if_splits)
  from Cons.IH [OF t btree_sorted_insert [OF Cons.prems(2)]] Cons.prems(2)
  have sub: "(map_of cm)(?k \<mapsto> ac) \<subseteq>\<^sub>m map_of cm'"
    and rest: "\<forall>ac \<in> set acs. map_of cm' (ac_tap_key (act_commitment ac)) = Some ac" by (simp_all del: fun_upd_apply)
  have "map_of cm \<subseteq>\<^sub>m (map_of cm)(?k \<mapsto> ac)" using new by (auto simp: map_le_def)
  moreover have "map_of cm' ?k = Some ac" using sub by (auto simp: map_le_def)
  ultimately show ?case using sub rest by (auto intro: map_le_trans)
qed simp

lemma build_commitment_lookup:
  assumes "build_commitment sha assets = Ok t" "a \<in> set assets"
  shows "\<exists>ac. map_of (asset_commitments t) (tap_key_of sha a) = Some ac
    \<and> map_of (act_assets ac) (leaf_key_of sha a) = Some a"
proof -
  from assms(1) obtain acs tree cm where acs: "list_all2 (\<lambda>a ac. act_new sha [a] = Ok ac) assets acs"
    and loop: "tct_new_loop sha acs full_tree_new [] = Ok (tree, cm)" "asset_commitments t = cm"
    by (auto simp: build_commitment_def map_res_Ok tct_new_def res_simps)
  from acs assms(2) obtain ac where "ac \<in> set acs" "act_new sha [a] = Ok ac"
    by (metis (mono_tags, lifting) in_set_conv_nth list_all2_conv_all_nth)
  with tct_new_loop_lookup [OF loop(1)] loop(2) act_new_single [of sha a ac] show ?thesis
    by (metis btree_sorted_Nil)
qed


lemma sprout_Ok:
  assumes "sprout sha lib iter gp idx b = Ok b'"
  shows "root_asset_commitment b' \<noteq> None" "build_commitment sha (sprouted_assets b') = Ok (the (root_asset_commitment b'))"
    "list_all2 (\<lambda>e a. \<exists>key. a = new_genesis (sprout_genesis sha gp idx e) (sd_amount (snd e)) key) (iter (seedlings b)) (sprouted_assets b')"
    "seedlings b' = seedlings b" "b_state b' = b_state b" "genesis_outpoint b' = Some gp" "mint_output_index b' = Some idx"
proof -
  from assms obtain assets c where a: "list_all2 (\<lambda>e a. sprout_asset sha lib (batch_key b) gp idx e = Ok a) (iter (seedlings b)) assets"
    and c: "build_commitment sha assets = Ok c"
    and b': "b' = b\<lparr>root_asset_commitment := Some c, sprouted_assets := assets, genesis_outpoint := Some gp, mint_output_index := Some idx\<rparr>"
    by (auto simp: sprout_def map_res_Ok res_simps)
  have "list_all2 (\<lambda>e a. \<exists>key. a = new_genesis (sprout_genesis sha gp idx e) (sd_amount (snd e)) key) (iter (seedlings b)) assets"
    using a by (rule list_all2_mono) (auto simp: sprout_asset_def res_simps)
  with b' c show "root_asset_commitment b' \<noteq> None" "build_commitment sha (sprouted_assets b') = Ok (the (root_asset_commitment b'))"
    "list_all2 (\<lambda>e a. \<exists>key. a = new_genesis (sprout_genesis sha gp idx e) (sd_amount (snd e)) key) (iter (seedlings b)) (sprouted_assets b')"
    "seedlings b' = seedlings b" "b_state b' = b_state b" "genesis_outpoint b' = Some gp" "mint_output_index b' = Some idx"
    by simp_all
qed

lemma new_genesis_simps [simp]:
  "has_genesis_witness (new_genesis g n k)" "is_genesis_asset (new_genesis g n k)" "\<not> has_split_commitment_witness (new_genesis g n k)"
  "\<not> is_transfer_root (new_genesis g n k)"
  "group_key (new_genesis g n k) = None" "a_lock_time (new_genesis g n k) = 0" "relative_lock_time (new_genesis g n k) = 0"
  "genesis (new_genesis g n k) = g" "amount (new_genesis g n k) = n" "without_split_commitment (new_genesis g n k) = new_genesis g n k"
  by (simp_all add: new_genesis_def has_genesis_witness_def is_genesis_asset_def is_genesis_def witness_zero_prev_def prev_id_is_zero_def
      has_split_commitment_witness_def is_split_commitment_def is_transfer_root_def without_split_commitment_def)

text \<open>The genesis proof of an asset whose anchor output was made for its commitment.\<close>

lemma genesis_proof_verifies:
  fixes env :: Env and g :: GenesisProofParams
  assumes "tct_reach (sha256 env) S t c" "tweakable (sha256 env) (secp env) (gp_internal_key g)"
    and "create_tap_output_script (sha256 env) (secp env) (gp_internal_key g) (tct_commitment t) None = Ok (script, key)"
    and "length key = 32" "gp_commitment g = Some t" "gp_commitment_proof g = None" "gp_exclusion_proofs g = []"
    and "gp_asset g = new_genesis gen n k" "map_of (asset_commitments t) (tap_key_of (sha256 env) (gp_asset g)) = Some ac"
    "map_of (act_assets ac) (leaf_key_of (sha256 env) (gp_asset g)) = Some (gp_asset g)"
    and "tx_deserialize (txlib env) (gp_anchor_tx_bytes g) = Some tx" "unat (gp_tap_output_index g) < length (atx_output tx)"
    "script_pubkey (atx_output tx ! unat (gp_tap_output_index g)) = script"
    and "\<forall>i < length (atx_output tx). i \<noteq> unat (gp_tap_output_index g) \<longrightarrow> \<not> is_pay_to_taproot (script_pubkey (atx_output tx ! i))"
    and "\<exists>txin \<in> set (atx_input tx). previous_output txin = gp_prev_out g"
    and "gp_tx_index g < length (gp_block_tx_hashes g)" "gp_block_tx_hashes g ! gp_tx_index g = compute_txid (txlib env) tx"
    and "header_merkle_root (gp_block_header g) = compute_merkle_root (\<lambda>x. sha256 env (sha256 env x)) (gp_block_tx_hashes g)"
    and "verify_header ctx (gp_block_header g) (gp_block_height g) = Ok ()" "verify_tx_merkle ctx = default_merkle_verifier (sha256 env)"
    and "ignore_checker ctx = None" "validate_asset_name (txlib env) (tag gen) = Ok ()"
    and "gp_genesis_reveal g = gen" "first_prev_out gen = gp_prev_out g" "g_output_index gen = gp_tap_output_index g"
    and "meta_hash gen = (case gp_meta_reveal g of Some m \<Rightarrow> meta_reveal_hash (sha256 env) m | None \<Rightarrow> zeros 32)"
    and "gp_group_key_reveal g = None"
  shows "\<exists>p s. generate_genesis_proof env g = Ok p \<and> verify_proof env ctx options_default None p = Ok s \<and> snap_asset s = gp_asset g"
proof -
  let ?sha = "sha256 env" and ?a = "gp_asset g" and ?i = "gp_tap_output_index g"
  from anchored_proofs [OF assms(1-3), of None ?i tx ?a] assms(4,8,12,13) obtain stored cp c where
    cp: "tct_proof ?sha (tap_key_of ?sha ?a) (leaf_key_of ?sha ?a) t = Ok (stored, cp)"
    and ver: "case stored of Some b \<Rightarrow> b = without_split_commitment ?a \<longrightarrow>
           verify_taproot_proof env tx (output_proof ?i (gp_internal_key g) None cp) ?a True = Ok (Some c)
       | None \<Rightarrow> verify_taproot_proof env tx (output_proof ?i (gp_internal_key g) None cp) ?a False = Ok (Some c)"
    by (auto simp: sibling_hash_def)
  have "stored = Some ?a"
    using cp assms(9,10) by (auto simp: tct_proof_def act_asset_proof_def Let_def res_simps)
  moreover have "without_split_commitment ?a = ?a" using assms(8) by simp
  ultimately have incl: "verify_taproot_proof env tx (output_proof ?i (gp_internal_key g) None cp) ?a True = Ok (Some c)"
    using ver by simp
  have out: "\<lparr>tr_output_index = ?i, tr_internal_key = gp_internal_key g, tr_commitment_proof = Some cp, tr_tapscript_proof = None,
      tr_unknown_odd_types = []\<rparr> = output_proof ?i (gp_internal_key g) None cp"
    using tct_proof_shape [OF cp] by (simp add: output_proof_def)
  obtain m where m: "build_tx_merkle_proof (\<lambda>x. ?sha (?sha x)) (gp_block_tx_hashes g) (gp_tx_index g) = Some m"
    "tx_merkle_verify (\<lambda>x. ?sha (?sha x)) m (compute_txid (txlib env) tx) (header_merkle_root (gp_block_header g))"
    using built_proof_verifies [OF assms(16), of "\<lambda>x. ?sha (?sha x)"] assms(17,18) by auto
  define p where "p = \<lparr>version = TransitionV0, prev_out = gp_prev_out g, block_header = gp_block_header g,
           block_height = gp_block_height g, anchor_tx = tx, tx_merkle_proof = m, asset = ?a,
           inclusion_proof = output_proof ?i (gp_internal_key g) None cp,
           exclusion_proofs = [], split_root_proof = None, meta_reveal = gp_meta_reveal g,
           additional_inputs = [], challenge_witness = None, genesis_reveal = Some gen,
           group_key_reveal = None, alt_leaves = [], pr_unknown_odd_types = []\<rparr>"
  have gen: "generate_genesis_proof env g = Ok p"
    using m(1) cp \<open>stored = Some ?a\<close> assms(5-7,11,23,27)
    by (simp add: generate_genesis_proof_def inclusion_from_def derive_inclusion_proof_def anchor_tx_from_bytes_def p_def out)
  have f: "version p = TransitionV0" "anchor_tx p = tx" "asset p = ?a" "inclusion_proof p = output_proof ?i (gp_internal_key g) None cp"
    "exclusion_proofs p = []" "meta_reveal p = gp_meta_reveal g" "genesis_reveal p = Some gen" "group_key_reveal p = None"
    "prev_out p = gp_prev_out g" "block_header p = gp_block_header g" "block_height p = gp_block_height g" "tx_merkle_proof p = m"
    "challenge_witness p = None" "additional_inputs p = []"
    by (simp_all add: p_def)
  have "verify_inclusion_proof env p = Ok c"
    using incl assms(8) by (simp add: verify_inclusion_proof_def is_version_v1_def f)
  moreover have "other_p2tr_outputs p = []"
    using assms(14) by (auto simp: other_p2tr_outputs_def f filter_empty_conv)
  ultimately have "verify_proofs env p = Ok c"
    using assms(8) by (simp add: verify_proofs_def verify_exclusion_proofs_def f)
  moreover have "verify_reveals env ctx p = Ok ()"
    using assms(8,24-26) by (auto simp: verify_reveals_def verify_genesis_reveal_def f asset_id_def split: option.splits)
  ultimately have int: "verify_integrity env ctx options_default p = Ok c"
    using assms(8,15,19-22) m(2)
    by (simp add: verify_integrity_Ok f tx_spends_prev_out_def default_merkle_verifier_def)
  have "vm_execute ?sha (btc (secp env)) (schnorr_validator (secp env)) ?a [] [] = Ok ()"
    using assms(8) by (simp add: vm_execute_def)
  then have "verify_proof env ctx options_default None p = Ok (snapshot_of env p c False)"
    using int assms(8) by (simp add: verify_proof_def verify_proof_with_def verify_asset_state_transition_def asset_uses_time_lock_def f)
  with gen f(3) show ?thesis by (intro exI [of _ p] exI [of _ "snapshot_of env p c False"]) (simp add: snapshot_of_def)
qed

text \<open>The genesis transaction of a batch is confirmed: it decodes, has the output of the template at the index of the parameters and no
  other taproot output, spends the genesis outpoint and lies in a block whose header the verifier accepts.\<close>

definition mint_confirmed :: "Env \<Rightarrow> VerifierCtx \<Rightarrow> GenesisTemplate \<Rightarrow> AnchorTx \<Rightarrow> GenesisProofParams \<Rightarrow> bool" where
  "mint_confirmed env ctx tmpl tx g \<longleftrightarrow>
     tx_deserialize (txlib env) (gp_anchor_tx_bytes g) = Some tx
     \<and> unat (gp_tap_output_index g) < length (atx_output tx)
     \<and> atx_output tx ! unat (gp_tap_output_index g) = atx_output (gt_tx tmpl) ! unat (gt_tap_output_index tmpl)
     \<and> (\<forall>i < length (atx_output tx). i \<noteq> unat (gp_tap_output_index g) \<longrightarrow> \<not> is_pay_to_taproot (script_pubkey (atx_output tx ! i)))
     \<and> (\<exists>txin \<in> set (atx_input tx). previous_output txin = gp_prev_out g)
     \<and> gp_tx_index g < length (gp_block_tx_hashes g) \<and> gp_block_tx_hashes g ! gp_tx_index g = compute_txid (txlib env) tx
     \<and> header_merkle_root (gp_block_header g) = compute_merkle_root (\<lambda>x. sha256 env (sha256 env x)) (gp_block_tx_hashes g)
     \<and> verify_header ctx (gp_block_header g) (gp_block_height g) = Ok ()
     \<and> verify_tx_merkle ctx = default_merkle_verifier (sha256 env) \<and> ignore_checker ctx = None"

text \<open>The parameters for the proof of one asset of a batch.\<close>

definition mint_params :: "GenesisProofParams \<Rightarrow> MintingBatch \<Rightarrow> bytes \<Rightarrow> Seedling \<Rightarrow> Asset \<Rightarrow> bool" where
  "mint_params g b ik s a \<longleftrightarrow>
     gp_asset g = a \<and> gp_genesis_reveal g = genesis a \<and> gp_meta_reveal g = sd_meta s \<and> gp_group_key_reveal g = None
     \<and> gp_commitment g = root_asset_commitment b \<and> gp_commitment_proof g = None \<and> gp_exclusion_proofs g = []
     \<and> gp_internal_key g = 0x02 # ik \<and> genesis_outpoint b = Some (gp_prev_out g)
     \<and> mint_output_index b = Some (gp_tap_output_index g)"

definition demo_point :: OutPoint where
  "demo_point = \<lparr>op_txid = replicate 32 3, op_vout = 0\<rparr>"

definition demo_batch :: MintingBatch where
  "demo_batch = (batch_new \<lparr>kd_family = 212, kd_index = 0, kd_pub_key = NUMS_KEY\<rparr>)
     \<lparr>b_state := Frozen, seedlings := [([0x54], new_normal [0x54] 1000)]\<rparr>"

lemma demo_mint:
  obtains p' b t S c where "commit_batch demo_hash demo_secp id demo_point 0 \<lparr>pending_batch = Some demo_batch\<rparr> = (Ok (), p')"
    "pending_batch p' = Some b" "seedlings b = seedlings demo_batch" "root_asset_commitment b = Some t" "tct_reach demo_hash S t c"
    "genesis_outpoint b = Some demo_point" "mint_output_index b = Some 0"
proof -
  let ?e = "([0x54], new_normal [0x54] 1000)"
  obtain k where k: "script_key_bip86 demo_hash demo_secp NUMS_KEY = (Ok k :: (ScriptKey, MintError) result)"
    by (simp add: script_key_bip86_def tweak_pub_key_def demo_secp_def demo_lib_def Let_def)
  define a where "a = new_genesis (sprout_genesis demo_hash demo_point 0 ?e) 1000 k"
  have a: "sprout_asset demo_hash demo_secp (batch_key demo_batch) demo_point 0 ?e = Ok a"
    using k by (simp add: sprout_asset_def new_normal_def demo_batch_def batch_new_def a_def)
  have wf: "wf_genesis (genesis a)"
    by (simp add: a_def sprout_genesis_def new_normal_def wf_genesis_def demo_point_def wf_asset_type_def asset_type_from_u8_def)
  obtain leaf where leaf: "asset_leaf demo_hash a = Ok leaf"
    by (simp add: asset_leaf_def asset_to_leaf_def encode_asset_leaf_def a_def new_genesis_def)
  obtain ac t S c where t: "act_new demo_hash [a] = Ok ac" "tct_new demo_hash TapV2 [ac] = Ok t" "tct_reach demo_hash S t c"
    using one_asset_commitment [OF leaf wf] by metis
  then have "build_commitment demo_hash [a] = Ok t" by (simp add: build_commitment_def)
  with a t(3) show ?thesis
    by (intro that [OF _ _ _ _ t(3)]) (auto simp: commit_batch_def on_batch_def sprout_def demo_batch_def batch_new_def)
qed

section \<open>The planter as a state machine\<close>

text \<open>One call of the planter, with any arguments, key ring and iteration order.\<close>

inductive planter_step :: "hash_fun \<Rightarrow> Secp \<Rightarrow> TxLib \<Rightarrow> Planter \<Rightarrow> Planter \<Rightarrow> bool" for sha lib txl where
  step_queue: "queue_seedling txl ring s p = (r, p') \<Longrightarrow> planter_step sha lib txl p p'"
| step_script_key: "set_seedling_script_key name key p = (r, p') \<Longrightarrow> planter_step sha lib txl p p'"
| step_freeze: "freeze_batch p = (r, p') \<Longrightarrow> planter_step sha lib txl p p'"
| step_commit: "\<forall>xs. mset (iter xs) = mset xs \<Longrightarrow> commit_batch sha lib iter gp idx p = (r, p') \<Longrightarrow> planter_step sha lib txl p p'"
| step_recommit: "\<forall>xs. mset (iter xs) = mset xs \<Longrightarrow> recommit_batch sha lib iter gp idx p = (r, p') \<Longrightarrow> planter_step sha lib txl p p'"
| step_update: "update_sprouted_assets sha f p = (r, p') \<Longrightarrow> planter_step sha lib txl p p'"
| step_cancel: "cancel_batch p = (r, p') \<Longrightarrow> planter_step sha lib txl p p'"
| step_take: "take_batch p = (b, p') \<Longrightarrow> planter_step sha lib txl p p'"

definition batch_inv :: "TxLib \<Rightarrow> MintingBatch \<Rightarrow> bool" where
  "batch_inv txl b \<longleftrightarrow> distinct (map fst (seedlings b))
     \<and> (\<forall>(name, s) \<in> set (seedlings b). sd_asset_name s = name \<and> seedling_validate txl s = Ok ())
     \<and> (b_state b \<in> {Frozen, Committed, SproutCancelled} \<longrightarrow> seedlings b \<noteq> [])
     \<and> (b_state b \<in> {Committed, SproutCancelled} \<longrightarrow> root_asset_commitment b \<noteq> None)
     \<and> (b_state b = Pending \<longrightarrow> root_asset_commitment b = None)
     \<and> (genesis_outpoint b = None \<longleftrightarrow> root_asset_commitment b = None) \<and> (mint_output_index b = None \<longleftrightarrow> root_asset_commitment b = None)
     \<and> (root_asset_commitment b = None \<longrightarrow> sprouted_assets b = [])
     \<and> b_state b \<notin> {Broadcast, Confirmed, Finalized}"

definition planter_inv :: "TxLib \<Rightarrow> Planter \<Rightarrow> bool" where
  "planter_inv txl p \<longleftrightarrow> pred_option (batch_inv txl) (pending_batch p)"

lemma seedling_validate_script_key [simp]: "seedling_validate txl (s\<lparr>sd_script_key := k\<rparr>) = seedling_validate txl s"
  by (simp add: seedling_validate_def)

lemma on_batch_inv:
  assumes "on_batch p f = (r, p')" "planter_inv txl p" "\<And>b b'. batch_inv txl b \<Longrightarrow> f b = Ok b' \<Longrightarrow> batch_inv txl b'"
  shows "planter_inv txl p'"
  using assms by (auto simp: on_batch_def planter_inv_def split: option.splits result.splits)

lemma update_entries:
  "(\<forall>(name, s) \<in> set xs. P name s) \<Longrightarrow> P k v \<Longrightarrow> \<forall>(name, s) \<in> set (AList.update k v xs). P name s"
  by (induction xs) auto

lemma add_seedling_inv:
  assumes "batch_inv txl b" "add_seedling txl s b = Ok b'"
  shows "batch_inv txl b'"
proof -
  from assms(2) have b': "b' = b\<lparr>seedlings := AList.update (sd_asset_name s) s (seedlings b)\<rparr>" "b_state b = Pending"
    "seedling_validate txl s = Ok ()" by (auto simp: add_seedling_def can_add_seedlings_def res_simps split: if_splits)
  have "\<forall>(name, s) \<in> set (AList.update (sd_asset_name s) s (seedlings b)). sd_asset_name s = name \<and> seedling_validate txl s = Ok ()"
    using assms(1) b'(3) by (intro update_entries) (auto simp: batch_inv_def)
  with assms(1) b' show ?thesis by (simp add: batch_inv_def distinct_update)
qed

lemma sprout_inv:
  assumes "batch_inv txl b" "sprout sha lib iter gp idx b = Ok b'" "b_state b \<in> {Frozen, Committed}"
  shows "batch_inv txl (b'\<lparr>b_state := Committed\<rparr>)"
  using assms sprout_Ok [OF assms(2)] by (auto simp: batch_inv_def)

lemma queue_seedling_inv:
  assumes "queue_seedling txl ring s p = (r, p')" "planter_inv txl p"
  shows "planter_inv txl p'"
proof -
  let ?b = "case pending_batch p of Some b \<Rightarrow> Ok b
    | None \<Rightarrow> map_ok batch_new (map_err MintChain (ring TAPROOT_ASSETS_KEY_FAMILY))"
  have b: "batch_inv txl b" if "?b = Ok b" for b
    using that assms(2)
    by (cases "pending_batch p") (auto simp: planter_inv_def batch_inv_def batch_new_def res_simps)
  have "p' = p \<or> (\<exists>b b'. ?b = Ok b \<and> p' = p\<lparr>pending_batch := Some b'\<rparr> \<and> (b' = b \<or> add_seedling txl s b = Ok b'))"
    using assms(1) unfolding queue_seedling_def
    by (cases "seedling_validate txl s"; cases ?b; cases "add_seedling txl s (case ?b of Ok b \<Rightarrow> b)") auto
  with assms(2) b add_seedling_inv [of txl] show ?thesis by (auto simp: planter_inv_def)
qed

lemma set_script_key_inv:
  assumes "set_seedling_script_key name key p = (r, p')" "planter_inv txl p"
  shows "planter_inv txl p'"
proof (rule on_batch_inv [OF assms(1) [unfolded set_seedling_script_key_def] assms(2)])
  fix b b' assume inv: "batch_inv txl b"
    and b': "(case map_of (seedlings b) name of None \<Rightarrow> Err (InvalidSeedling ''unknown seedling'')
      | Some s \<Rightarrow> Ok (b\<lparr>seedlings := AList.update name (s\<lparr>sd_script_key := Some key\<rparr>) (seedlings b)\<rparr>)) = Ok b'"
  then obtain s where s: "map_of (seedlings b) name = Some s"
    "b' = b\<lparr>seedlings := AList.update name (s\<lparr>sd_script_key := Some key\<rparr>) (seedlings b)\<rparr>" by (auto split: option.splits)
  from inv map_of_SomeD [OF s(1)] have "sd_asset_name s = name" "seedling_validate txl s = Ok ()" by (auto simp: batch_inv_def)
  then have "\<forall>(name, s) \<in> set (AList.update name (s\<lparr>sd_script_key := Some key\<rparr>) (seedlings b)).
      sd_asset_name s = name \<and> seedling_validate txl s = Ok ()"
    using inv by (intro update_entries) (auto simp: batch_inv_def)
  with inv s show "batch_inv txl b'" by (auto simp: batch_inv_def distinct_update)
qed

lemma freeze_inv: "freeze_batch p = (r, p') \<Longrightarrow> planter_inv txl p \<Longrightarrow> planter_inv txl p'"
  unfolding freeze_batch_def by (erule on_batch_inv, assumption) (auto simp: batch_inv_def split: if_splits)

lemma cancel_inv: "cancel_batch p = (r, p') \<Longrightarrow> planter_inv txl p \<Longrightarrow> planter_inv txl p'"
  unfolding cancel_batch_def
proof (erule on_batch_inv, assumption)
  fix b b' assume inv: "batch_inv txl b" and "(if \<not> can_cancel (b_state b) then Err (CannotCancel (b_state b))
      else Ok (b\<lparr>b_state := (if b_state b = Committed then SproutCancelled else SeedlingCancelled)\<rparr>)) = Ok b'"
  then consider "b_state b = Committed" "b' = b\<lparr>b_state := SproutCancelled\<rparr>" | "b' = b\<lparr>b_state := SeedlingCancelled\<rparr>"
    by (metis (full_types) result.distinct(1) result.inject(1))
  then show "batch_inv txl b'" using inv by cases (simp_all add: batch_inv_def)
qed

lemma commit_inv: "commit_batch sha lib iter gp idx p = (r, p') \<Longrightarrow> planter_inv txl p \<Longrightarrow> planter_inv txl p'"
  unfolding commit_batch_def
proof (erule on_batch_inv, assumption)
  fix b b' assume "batch_inv txl b"
    and "(if b_state b \<noteq> Frozen then Err (BatchNotPending (b_state b))
      else map_ok (\<lambda>b. b\<lparr>b_state := Committed\<rparr>) (sprout sha lib iter gp idx b)) = Ok b'"
  then obtain b1 where "batch_inv txl b" "sprout sha lib iter gp idx b = Ok b1" "b_state b = Frozen" "b' = b1\<lparr>b_state := Committed\<rparr>"
    by (auto simp: res_simps split: if_splits)
  with sprout_inv [of txl b sha lib iter gp idx b1] show "batch_inv txl b'" by simp
qed

lemma recommit_inv: "recommit_batch sha lib iter gp idx p = (r, p') \<Longrightarrow> planter_inv txl p \<Longrightarrow> planter_inv txl p'"
  unfolding recommit_batch_def
proof (erule on_batch_inv, assumption)
  fix b b' assume "batch_inv txl b"
    "(if b_state b \<noteq> Committed then Err (BatchNotPending (b_state b)) else sprout sha lib iter gp idx b) = Ok b'"
  then have "batch_inv txl b" "sprout sha lib iter gp idx b = Ok b'" "b_state b = Committed" by (auto split: if_splits)
  with sprout_inv [of txl b sha lib iter gp idx b'] sprout_Ok(5) [of sha lib iter gp idx b b']
  show "batch_inv txl b'" by (simp add: batch_inv_def)
qed

lemma update_inv: "update_sprouted_assets sha f p = (r, p') \<Longrightarrow> planter_inv txl p \<Longrightarrow> planter_inv txl p'"
  by (auto simp: update_sprouted_assets_def planter_inv_def batch_inv_def Let_def split_beta
      split: option.splits if_splits result.splits)

lemma take_inv: "take_batch p = (b, p') \<Longrightarrow> planter_inv txl p'"
  by (auto simp: take_batch_def planter_inv_def)

lemma planter_step_inv: "planter_step sha lib txl p p' \<Longrightarrow> planter_inv txl p \<Longrightarrow> planter_inv txl p'"
  by (induction rule: planter_step.induct)
    (erule (1) queue_seedling_inv set_script_key_inv freeze_inv commit_inv recommit_inv update_inv cancel_inv | erule take_inv)+

lemma reachable_inv: "(planter_step sha lib txl)\<^sup>*\<^sup>* p p' \<Longrightarrow> planter_inv txl p \<Longrightarrow> planter_inv txl p'"
  by (induction rule: rtranclp_induct) (auto intro: planter_step_inv)

section \<open>Properties\<close>

text \<open>C8: what is minted can be proven. When \<^verbatim>\<open>commit_batch\<close> succeeds, every seedling of the batch, in whatever order the hash map
  yields them, has an asset with its name, amount and type. Take the genesis template made for the commitment of the batch, let the
  wallet fund it so that the commitment output ends up at the index the batch was committed for and the genesis outpoint is spent, and let the
  transaction be mined in a block that the verifier accepts: the genesis proof generated for the asset exists and passes the full verification
  of a first proof. (Assumed: no collision of SHA-256 among the preimages of the commitment trees, a key that can be tweaked, no other
  taproot output in the transaction, no ignore checker, and a name that is printable, which the planter does not check.)\<close>

theorem minted_asset_verifies:
  fixes env :: Env and g :: GenesisProofParams
  assumes "commit_batch (sha256 env) (secp env) iter gp idx p = (Ok (), p')" "pending_batch p' = Some b" "i < length (iter (seedlings b))"
    and "root_asset_commitment b = Some t" "tct_reach (sha256 env) S t c"
    and "create_genesis_template (sha256 env) (secp env) ik (tct_commitment t) value = Ok tmpl"
    and "tweakable (sha256 env) (secp env) (0x02 # ik)" "length (gt_output_key tmpl) = 32"
    and "mint_params g b ik (snd (iter (seedlings b) ! i)) (sprouted_assets b ! i)" "mint_confirmed env ctx tmpl tx g"
    and "validate_asset_name (txlib env) (fst (iter (seedlings b) ! i)) = Ok ()"
  shows "\<exists>q s. generate_genesis_proof env g = Ok q \<and> verify_proof env ctx options_default None q = Ok s
    \<and> snap_asset s = sprouted_assets b ! i \<and> tag (genesis (snap_asset s)) = fst (iter (seedlings b) ! i)
    \<and> amount (snap_asset s) = sd_amount (snd (iter (seedlings b) ! i))
    \<and> g_asset_type (genesis (snap_asset s)) = sd_asset_type (snd (iter (seedlings b) ! i))"
proof -
  let ?sha = "sha256 env" and ?e = "iter (seedlings b) ! i" and ?a = "sprouted_assets b ! i"
  from assms(1,2) obtain b0 b1 where b: "sprout ?sha (secp env) iter gp idx b0 = Ok b1" "b = b1\<lparr>b_state := Committed\<rparr>"
    by (auto simp: commit_batch_def on_batch_def res_simps split: option.splits result.splits if_splits)
  note s = sprout_Ok [OF b(1)]
  have seeds: "seedlings b = seedlings b0" "sprouted_assets b = sprouted_assets b1" "root_asset_commitment b1 = Some t"
    "genesis_outpoint b = Some gp" "mint_output_index b = Some idx"
    using b(2) s assms(4) by simp_all
  from s(3) assms(3) seeds obtain k where a: "?a = new_genesis (sprout_genesis ?sha gp idx ?e) (sd_amount (snd ?e)) k"
    and len: "i < length (sprouted_assets b)" by (auto simp: list_all2_conv_all_nth)
  from build_commitment_lookup [of ?sha "sprouted_assets b1" t ?a] s(2) seeds(2,3) len obtain ac where
    ac: "map_of (asset_commitments t) (tap_key_of ?sha ?a) = Some ac" "map_of (act_assets ac) (leaf_key_of ?sha ?a) = Some ?a" by auto
  from assms(6) obtain script key where scr: "create_tap_output_script ?sha (secp env) (0x02 # ik) (tct_commitment t) None = Ok (script, key)"
    and tmpl: "gt_output_key tmpl = key" "atx_output (gt_tx tmpl) = [\<lparr>out_value = value, script_pubkey = script\<rparr>]" "gt_tap_output_index tmpl = 0"
    by (auto simp: create_genesis_template_def psbt_tap_output_script_def res_simps split: if_splits)
  have gen: "sprout_genesis ?sha gp idx ?e = \<lparr>first_prev_out = gp, tag = fst ?e,
      meta_hash = (case sd_meta (snd ?e) of Some m \<Rightarrow> meta_reveal_hash ?sha m | None \<Rightarrow> zeros 32),
      g_output_index = idx, g_asset_type = sd_asset_type (snd ?e)\<rparr>"
    by (simp add: sprout_genesis_def split_beta)
  note g = assms(9) [unfolded mint_params_def] and conf = assms(10) [unfolded mint_confirmed_def]
  have "\<exists>q s. generate_genesis_proof env g = Ok q \<and> verify_proof env ctx options_default None q = Ok s \<and> snap_asset s = gp_asset g"
    by (rule genesis_proof_verifies [OF assms(5), where script = script and key = key and tx = tx and ac = ac and
          gen = "sprout_genesis ?sha gp idx ?e" and n = "sd_amount (snd ?e)" and k = k])
      (use g conf assms(4,7,8,11) scr tmpl ac a gen seeds in simp_all)
  with g a gen show ?thesis by fastforce
qed

theorem minted_asset_verifies_witness:
  "\<exists>tx ctx p' b g q s. commit_batch demo_hash demo_secp id demo_point 0 \<lparr>pending_batch = Some demo_batch\<rparr> = (Ok (), p')
    \<and> pending_batch p' = Some b \<and> generate_genesis_proof (demo_env tx) g = Ok q
    \<and> verify_proof (demo_env tx) ctx options_default None q = Ok s
    \<and> snap_asset s = sprouted_assets b ! 0 \<and> tag (genesis (snap_asset s)) = [0x54] \<and> amount (snap_asset s) = 1000"
proof -
  obtain p' b t S c where mint: "commit_batch demo_hash demo_secp id demo_point 0 \<lparr>pending_batch = Some demo_batch\<rparr> = (Ok (), p')"
    "pending_batch p' = Some b" and sd: "seedlings b = seedlings demo_batch" and t: "root_asset_commitment b = Some t" "tct_reach demo_hash S t c"
    and b: "genesis_outpoint b = Some demo_point" "mint_output_index b = Some 0" by (rule demo_mint)
  have sd': "seedlings b = [([0x54], new_normal [0x54] 1000)]" using sd by (simp add: demo_batch_def)
  let ?ik = "drop 1 NUMS_KEY" and ?ctx = "ctx_new (\<lambda>_ _. Ok ()) (default_merkle_verifier demo_hash) (\<lambda>_. Ok ()) 1"
  obtain key where key: "taproot_output_key demo_hash demo_secp (0x02 # ?ik) (tapscript_root demo_hash (tct_commitment t) None) = Ok key"
    "length key = 32" using demo_output_key by blast
  let ?tmpl = "\<lparr>gt_tx = \<lparr>atx_version = 2, atx_lock_time = 0, atx_input = [],
    atx_output = [\<lparr>out_value = 1000, script_pubkey = [0x51, 0x20] @ key\<rparr>]\<rparr>, gt_tap_output_index = 0, gt_output_key = key\<rparr>"
  have tmpl: "create_genesis_template demo_hash demo_secp ?ik (tct_commitment t) 1000 = Ok ?tmpl"
    using key(1) by (simp add: create_genesis_template_def psbt_tap_output_script_def create_tap_output_script_def demo_secp_def demo_lib_def)
  define tx where "tx = (gt_tx ?tmpl)\<lparr>atx_input := [unsigned_input demo_point]\<rparr>"
  define g where "g = \<lparr>gp_anchor_tx_bytes = [], gp_block_header = zeros 36 @ replicate 32 1 @ zeros 12, gp_block_height = 7,
    gp_tx_index = 0, gp_block_tx_hashes = [replicate 32 1], gp_prev_out = demo_point, gp_asset = sprouted_assets b ! 0,
    gp_tap_output_index = 0, gp_internal_key = 0x02 # ?ik, gp_commitment = Some t, gp_commitment_proof = None,
    gp_exclusion_proofs = [], gp_genesis_reveal = genesis (sprouted_assets b ! 0), gp_meta_reveal = None, gp_group_key_reveal = None\<rparr>"
  have "mint_params g b ?ik (new_normal [0x54] 1000) (sprouted_assets b ! 0)"
    using t(1) b by (simp add: mint_params_def g_def new_normal_def)
  moreover have "mint_confirmed (demo_env tx) ?ctx ?tmpl tx g"
    by (simp add: mint_confirmed_def g_def tx_def demo_txlib_def unsigned_input_def ctx_new_def header_merkle_root_def
        compute_merkle_root_def root_loop.simps)
  moreover have "validate_asset_name (demo_txlib tx) [0x54] = Ok ()"
    by (simp add: validate_asset_name_def MAX_ASSET_NAME_LENGTH_def is_go_print_def demo_txlib_def is_whitespace_def)
  ultimately have "\<exists>q s. generate_genesis_proof (demo_env tx) g = Ok q \<and> verify_proof (demo_env tx) ?ctx options_default None q = Ok s
      \<and> snap_asset s = sprouted_assets b ! 0 \<and> tag (genesis (snap_asset s)) = [0x54] \<and> amount (snap_asset s) = 1000"
    using minted_asset_verifies [of "demo_env tx" id demo_point 0 "\<lparr>pending_batch = Some demo_batch\<rparr>" p' b 0 t S c ?ik 1000 ?tmpl g ?ctx tx]
      mint sd' t tmpl key(2) demo_tweakable by (auto simp: new_normal_def)
  with mint show ?thesis by blast
qed

text \<open>C17: batches stay well-formed. In every state that calls of the planter can reach, with any arguments, results of the key ring and
  iteration orders, the pending batch has its seedlings under their own names, all valid and no name twice; a frozen or committed batch has
  seedlings; commitment, genesis outpoint and output index are present or absent together, and without them there are no sprouted
  assets; they are absent in a batch that is pending and present in one that is committed or was cancelled after the commitment (a
  frozen batch may have been committed before, see the revival of cancelled batches below); and the states after signing are never
  entered by the planter.\<close>

theorem planter_invariant:
  assumes "(planter_step sha lib txl)\<^sup>*\<^sup>* planter_new p" "pending_batch p = Some b"
  shows "distinct (map fst (seedlings b))
    \<and> (\<forall>(name, s) \<in> set (seedlings b). sd_asset_name s = name \<and> seedling_validate txl s = Ok ())
    \<and> (b_state b \<in> {Frozen, Committed, SproutCancelled} \<longrightarrow> seedlings b \<noteq> [])
    \<and> (genesis_outpoint b = None \<longleftrightarrow> root_asset_commitment b = None) \<and> (mint_output_index b = None \<longleftrightarrow> root_asset_commitment b = None)
    \<and> (root_asset_commitment b = None \<longrightarrow> sprouted_assets b = [])
    \<and> (b_state b = Pending \<longrightarrow> root_asset_commitment b = None)
    \<and> (b_state b \<in> {Committed, SproutCancelled} \<longrightarrow> root_asset_commitment b \<noteq> None)
    \<and> b_state b \<notin> {Broadcast, Confirmed, Finalized}"
  using reachable_inv [OF assms(1)] assms(2) by (simp add: planter_inv_def planter_new_def batch_inv_def)

theorem planter_invariant_witness:
  "\<exists>p b. (planter_step demo_hash demo_secp (demo_txlib anchor_tx_default))\<^sup>*\<^sup>* planter_new p \<and> pending_batch p = Some b
    \<and> b_state b = Frozen \<and> seedlings b \<noteq> []"
proof -
  let ?b = "demo_batch\<lparr>b_state := Pending\<rparr>" and ?step = "planter_step demo_hash demo_secp (demo_txlib anchor_tx_default)"
  have "queue_seedling (demo_txlib anchor_tx_default) (\<lambda>_. Ok \<lparr>kd_family = 212, kd_index = 0, kd_pub_key = NUMS_KEY\<rparr>)
      (new_normal [0x54] 1000) planter_new = (Ok (), \<lparr>pending_batch = Some ?b\<rparr>)"
    by (simp add: queue_seedling_def planter_new_def add_seedling_def can_add_seedlings_def seedling_validate_def new_normal_def
        MAX_ASSET_NAME_LENGTH_def batch_new_def demo_batch_def)
  then have "?step planter_new \<lparr>pending_batch = Some ?b\<rparr>" by (rule step_queue)
  moreover have "freeze_batch \<lparr>pending_batch = Some ?b\<rparr> = (Ok (), \<lparr>pending_batch = Some demo_batch\<rparr>)"
    by (simp add: freeze_batch_def on_batch_def demo_batch_def batch_new_def)
  then have "?step \<lparr>pending_batch = Some ?b\<rparr> \<lparr>pending_batch = Some demo_batch\<rparr>" by (rule step_freeze)
  ultimately have "?step\<^sup>*\<^sup>* planter_new \<lparr>pending_batch = Some demo_batch\<rparr>" by simp
  moreover from planter_invariant [OF this, of demo_batch] have "seedlings demo_batch \<noteq> []"
    by (simp add: demo_batch_def)
  ultimately show ?thesis by (intro exI [of _ "\<lparr>pending_batch = Some demo_batch\<rparr>"] exI [of _ demo_batch])
    (simp add: demo_batch_def)
qed

text \<open>Cancellation is not final. Cancelling a batch with seedlings puts it into a state that the code calls terminal, yet
  \<^verbatim>\<open>freeze_batch\<close> looks at the seedlings only: it takes the cancelled batch back to the frozen state, from where it is
  committed like any other.\<close>

theorem cancelled_batch_revived:
  assumes "cancel_batch p = (Ok (), p')" "pending_batch p = Some b" "seedlings b \<noteq> []"
  shows "\<exists>b' p''. pending_batch p' = Some b' \<and> is_terminal (b_state b') \<and> freeze_batch p' = (Ok (), p'')
    \<and> pending_batch p'' = Some (b\<lparr>b_state := Frozen\<rparr>)
    \<and> (\<forall>b1. sprout sha lib iter gp idx (b\<lparr>b_state := Frozen\<rparr>) = Ok b1 \<longrightarrow>
         commit_batch sha lib iter gp idx p'' = (Ok (), p\<lparr>pending_batch := Some (b1\<lparr>b_state := Committed\<rparr>)\<rparr>))"
  using assms
  by (cases p) (auto simp: cancel_batch_def freeze_batch_def commit_batch_def on_batch_def can_cancel_def is_terminal_def split: if_splits)

theorem cancelled_batch_revived_witness:
  "\<exists>p p' p'' p3 b b3. cancel_batch p = (Ok (), p') \<and> pending_batch p' = Some b \<and> is_terminal (b_state b)
    \<and> freeze_batch p' = (Ok (), p'') \<and> commit_batch demo_hash demo_secp id demo_point 0 p'' = (Ok (), p3)
    \<and> pending_batch p3 = Some b3 \<and> b_state b3 = Committed"
proof -
  let ?p = "\<lparr>pending_batch = Some demo_batch\<rparr>"
  obtain p' b t S c where "commit_batch demo_hash demo_secp id demo_point 0 ?p = (Ok (), p')" by (rule demo_mint)
  then obtain b1 where b1: "sprout demo_hash demo_secp id demo_point 0 demo_batch = Ok b1"
    by (auto simp: commit_batch_def on_batch_def demo_batch_def res_simps split: result.splits)
  have frozen: "demo_batch\<lparr>b_state := Frozen\<rparr> = demo_batch" by (simp add: demo_batch_def)
  have "cancel_batch ?p = (Ok (), \<lparr>pending_batch = Some (demo_batch\<lparr>b_state := SeedlingCancelled\<rparr>)\<rparr>)"
    by (simp add: cancel_batch_def on_batch_def can_cancel_def demo_batch_def)
  moreover have "seedlings demo_batch \<noteq> []" by (simp add: demo_batch_def)
  ultimately show ?thesis
    using cancelled_batch_revived [of ?p _ demo_batch demo_hash demo_secp id demo_point 0] b1 unfolding frozen
    by (fastforce simp del: split_paired_Ex)
qed

end
