(* ===== verification/Send.thy ===== *)
theory Send
  imports Mint
begin

text \<open>
  Asset transfers (\<^verbatim>\<open>tap-onchain/src/send/\<close> and \<^verbatim>\<open>psbt/transfer.rs\<close>): allocations, the preparation of outputs with
  their split commitment, burns, signing of the virtual transaction, split proofs, re-anchored passive assets, and
  the anchor transaction template. The signer is a function from signature hashes and script keys to signatures.

  The sums of \<^verbatim>\<open>u64\<close> amounts wrap, as in a release build.
\<close>

section \<open>Inputs and outputs\<close>

text \<open>Where the source turns an error of another module into text, the model keeps the error: \<open>SendAltLeafError\<close> and
  \<open>SendTemplateError\<close> are the \<^verbatim>\<open>CommitmentError\<close> of the source with other causes.\<close>

datatype SplitCause = SplitLeaf CommitmentError | SplitTree TreeError | SplitText string

datatype SendError =
    InsufficientFunds u64 u64
  | InvalidCollectibleTransfer
  | ZeroAmountOutput
  | SendNoOutputs
  | SendNoInputs
  | SendChain ChainError
  | SendCommitmentError CommitmentError
  | SendAltLeafError AssetError
  | SplitError SplitCause
  | InvalidState string
  | BurnError string
  | UnknownScriptKey SerializedKey
  | SendTemplateError PsbtError

record TransferOutput =
  to_output_index :: u32
  to_amount :: u64
  to_script_key :: ScriptKey
  to_asset_version :: AssetVersion
  to_interactive :: bool

record SelectedInput =
  si_prev_id :: PrevId
  si_anchor_point :: OutPoint
  si_amount :: u64
  si_asset_type :: AssetType
  si_script_key :: ScriptKey

definition input_total :: "SelectedInput list \<Rightarrow> u64" where
  "input_total inputs = sum_list (map si_amount inputs)"

definition output_total :: "TransferOutput list \<Rightarrow> u64" where
  "output_total outputs = sum_list (map to_amount outputs)"

definition validate_allocations ::
  "SelectedInput list \<Rightarrow> TransferOutput list \<Rightarrow> AssetType \<Rightarrow> (unit, SendError) result" where
  "validate_allocations inputs outputs ty =
     (let input_sum = input_total inputs; output_sum = output_total outputs in
      if input_sum < output_sum then Err (InsufficientFunds input_sum output_sum)
      else if ty = Collectible \<and> (input_sum \<noteq> 1 \<or> output_sum \<noteq> 1) then Err InvalidCollectibleTransfer
      else if ty = Collectible \<and> length outputs \<noteq> 1 then Err InvalidCollectibleTransfer
      else if \<exists>out \<in> set outputs. to_amount out = 0 then Err ZeroAmountOutput
      else Ok ())"

section \<open>Prepared transfers\<close>

record PreparedTransfer =
  pt_root_asset :: Asset
  recipient_assets :: "SplitAsset list"
  change_commitment :: TapCommitmentTree
  output_commitments :: "TapCommitmentTree list"
  is_split :: bool
  passive_assets :: "Asset list"

definition root_spend_template :: "Asset \<Rightarrow> Asset" where
  "root_spend_template a =
     a\<lparr>split_commitment_root := None,
       prev_witnesses := [\<lparr>w_prev_id = Some PREV_ID_ZERO, tx_witness = [], split_commitment = None\<rparr>]\<rparr>"

definition unsigned_witness :: "SelectedInput \<Rightarrow> Witness" where
  "unsigned_witness i = \<lparr>w_prev_id = Some (si_prev_id i), tx_witness = [], split_commitment = None\<rparr>"

text \<open>The asset literal that every builder fills in, with the fields they share.\<close>

definition transfer_asset :: "AssetVersion \<Rightarrow> Genesis \<Rightarrow> u64 \<Rightarrow> Witness list \<Rightarrow> ScriptKey \<Rightarrow> Asset" where
  "transfer_asset ver g amt ws key =
     \<lparr>a_version = ver, genesis = g, amount = amt, a_lock_time = 0, relative_lock_time = 0, prev_witnesses = ws,
      split_commitment_root = None, script_version = 0, script_key = key, group_key = None, unknown_odd_types = []\<rparr>"

definition prepare_full_send ::
  "hash_fun \<Rightarrow> SelectedInput list \<Rightarrow> TransferOutput list \<Rightarrow> Genesis \<Rightarrow> TapCommitmentVersion option \<Rightarrow>
     (PreparedTransfer, SendError) result" where
  "prepare_full_send sha inputs outputs g ver =
     (let out = outputs ! 0;
          new_asset = transfer_asset (to_asset_version out) g (to_amount out) (map unsigned_witness inputs) (to_script_key out) in
      res_bind (map_err SendCommitmentError (act_new sha [new_asset])) (\<lambda>ac.
      res_bind (map_err SendCommitmentError (from_asset_commitment_trees sha ver [ac])) (\<lambda>tc.
        Ok \<lparr>pt_root_asset = new_asset, recipient_assets = [], change_commitment = tc, output_commitments = [tc],
            is_split = False, passive_assets = []\<rparr>)))"

text \<open>The locator of a split output, and the loop that inserts the splits; \<open>leaf_of\<close> is the asset that is hashed.\<close>

definition locator_of :: "AssetId \<Rightarrow> SplitAsset \<Rightarrow> SplitLocator" where
  "locator_of aid split =
     \<lparr>loc_output_index = sa_output_index split, loc_asset_id = aid,
      loc_script_key = sk_pub_key (script_key (sa_asset split)), loc_amount = amount (sa_asset split)\<rparr>"

definition root_locator :: "AssetId \<Rightarrow> Asset \<Rightarrow> SplitLocator" where
  "root_locator aid root =
     \<lparr>loc_output_index = 0, loc_asset_id = aid, loc_script_key = sk_pub_key (script_key root), loc_amount = amount root\<rparr>"

fun insert_splits ::
  "hash_fun \<Rightarrow> AssetId \<Rightarrow> (Asset \<Rightarrow> Asset) \<Rightarrow> SplitAsset list \<Rightarrow> DefaultStore \<Rightarrow> (DefaultStore, SendError) result" where
  "insert_splits sha aid leaf_of [] tree = Ok tree"
| "insert_splits sha aid leaf_of (s # ss) tree =
     res_bind (map_err (SplitError \<circ> SplitLeaf) (asset_leaf sha (leaf_of (sa_asset s)))) (\<lambda>leaf.
     res_bind (map_err (SplitError \<circ> SplitTree) (tree_insert sha (locator_hash sha (locator_of aid s)) leaf tree))
       (insert_splits sha aid leaf_of ss))"

definition split_tree ::
  "hash_fun \<Rightarrow> AssetId \<Rightarrow> (Asset \<Rightarrow> Asset) \<Rightarrow> Asset \<Rightarrow> SplitAsset list \<Rightarrow> (DefaultStore, SendError) result" where
  "split_tree sha aid leaf_of root splits =
     res_bind (map_err (SplitError \<circ> SplitLeaf) (asset_leaf sha (root_spend_template root))) (\<lambda>root_leaf.
     res_bind (map_err (SplitError \<circ> SplitTree)
         (tree_insert sha (locator_hash sha (root_locator aid root)) root_leaf full_tree_new))
       (insert_splits sha aid leaf_of splits))"

definition split_of :: "Genesis \<Rightarrow> TransferOutput \<Rightarrow> SplitAsset" where
  "split_of g out =
     \<lparr>sa_asset = transfer_asset (to_asset_version out) g (to_amount out)
        [\<lparr>w_prev_id = Some PREV_ID_ZERO, tx_witness = [], split_commitment = None\<rparr>] (to_script_key out),
      sa_output_index = to_output_index out\<rparr>"

definition output_commitment ::
  "hash_fun \<Rightarrow> TapCommitmentVersion option \<Rightarrow> Asset \<Rightarrow> (TapCommitmentTree, SendError) result" where
  "output_commitment sha ver a =
     map_err SendCommitmentError (res_bind (act_new sha [a]) (\<lambda>ac. from_asset_commitment_trees sha ver [ac]))"

definition prepare_split_outputs ::
  "hash_fun \<Rightarrow> SelectedInput list \<Rightarrow> TransferOutput list \<Rightarrow> Genesis \<Rightarrow> u64 \<Rightarrow> TapCommitmentVersion option \<Rightarrow>
     (PreparedTransfer, SendError) result" where
  "prepare_split_outputs sha inputs outputs g change_amount ver =
     (let aid = genesis_id sha g;
          root_script_key = (if change_amount = 0 then script_key_from_pub_key NUMS_KEY else si_script_key (inputs ! 0));
          root = transfer_asset AssetV0 g change_amount (map unsigned_witness inputs) root_script_key;
          splits = map (split_of g) outputs in
      res_bind (split_tree sha aid (\<lambda>a. a) root splits) (\<lambda>tree.
      let tree_root = tree_root sha tree;
          root = root\<lparr>split_commitment_root := Some (branch_hash sha tree_root, branch_sum tree_root)\<rparr> in
      res_bind (output_commitment sha ver root) (\<lambda>change_tc.
      res_bind (map_res (\<lambda>s. output_commitment sha ver (sa_asset s)) splits) (\<lambda>tcs.
        Ok \<lparr>pt_root_asset = root, recipient_assets = splits, change_commitment = change_tc, output_commitments = tcs,
            is_split = True, passive_assets = []\<rparr>))))"

definition prepare_outputs_inner ::
  "hash_fun \<Rightarrow> SelectedInput list \<Rightarrow> TransferOutput list \<Rightarrow> Genesis \<Rightarrow> TapCommitmentVersion option \<Rightarrow> bool \<Rightarrow>
     (PreparedTransfer, SendError) result" where
  "prepare_outputs_inner sha inputs outputs g ver force_split =
     (if inputs = [] then Err SendNoInputs
      else if outputs = [] then Err SendNoOutputs
      else
        let input_sum = input_total inputs; output_sum = output_total outputs in
        if input_sum < output_sum then Err (InsufficientFunds input_sum output_sum)
        else
          let change_amount = input_sum - output_sum in
          if 0 < change_amount \<or> 1 < length outputs \<or> force_split
          then prepare_split_outputs sha inputs outputs g change_amount ver
          else prepare_full_send sha inputs outputs g ver)"

fun pays_burn_key :: "hash_fun \<Rightarrow> Secp \<Rightarrow> TransferOutput \<Rightarrow> SelectedInput list \<Rightarrow> (bool, SendError) result" where
  "pays_burn_key sha lib out [] = Ok False"
| "pays_burn_key sha lib out (i # is) =
     res_bind (derive_burn_key sha lib (si_prev_id i)) (\<lambda>burn_key.
       if schnorr_bytes (sk_pub_key (to_script_key out)) = schnorr_bytes burn_key then Ok True
       else pays_burn_key sha lib out is)"

fun check_no_burn :: "hash_fun \<Rightarrow> Secp \<Rightarrow> SelectedInput list \<Rightarrow> TransferOutput list \<Rightarrow> (unit, SendError) result" where
  "check_no_burn sha lib inputs [] = Ok ()"
| "check_no_burn sha lib inputs (out # outs) =
     res_bind (pays_burn_key sha lib out inputs) (\<lambda>is_burn.
       if is_burn then Err (BurnError ''cannot send to a burn key; use prepare_burn instead'')
       else check_no_burn sha lib inputs outs)"

definition prepare_outputs_forced ::
  "hash_fun \<Rightarrow> Secp \<Rightarrow> SelectedInput list \<Rightarrow> TransferOutput list \<Rightarrow> Genesis \<Rightarrow> TapCommitmentVersion option \<Rightarrow> bool \<Rightarrow>
     (PreparedTransfer, SendError) result" where
  "prepare_outputs_forced sha lib inputs outputs g ver force_split =
     res_bind (check_no_burn sha lib inputs outputs) (\<lambda>_.
       prepare_outputs_inner sha inputs outputs g ver force_split)"

definition prepare_outputs_with_version ::
  "hash_fun \<Rightarrow> Secp \<Rightarrow> SelectedInput list \<Rightarrow> TransferOutput list \<Rightarrow> Genesis \<Rightarrow> TapCommitmentVersion option \<Rightarrow>
     (PreparedTransfer, SendError) result" where
  "prepare_outputs_with_version sha lib inputs outputs g ver = prepare_outputs_forced sha lib inputs outputs g ver False"

definition prepare_outputs ::
  "hash_fun \<Rightarrow> Secp \<Rightarrow> SelectedInput list \<Rightarrow> TransferOutput list \<Rightarrow> Genesis \<Rightarrow> (PreparedTransfer, SendError) result" where
  "prepare_outputs sha lib inputs outputs g = prepare_outputs_with_version sha lib inputs outputs g None"

section \<open>Burns\<close>

record BurnParams =
  bp_asset_id :: AssetId
  bp_group_key :: "SerializedKey option"
  bp_amount :: u64
  bp_note :: "bytes option"

definition prepare_burn ::
  "hash_fun \<Rightarrow> Secp \<Rightarrow> SelectedInput list \<Rightarrow> BurnParams \<Rightarrow> Genesis \<Rightarrow> (PreparedTransfer, SendError) result" where
  "prepare_burn sha lib inputs params g =
     (if bp_amount params = 0 then Err (BurnError ''burn amount must be greater than zero'')
      else if inputs = [] then Err SendNoInputs
      else if input_total inputs < bp_amount params then Err (BurnError ''burn amount exceeds total input amount'')
      else if bp_asset_id params \<noteq> genesis_id sha g then Err (BurnError ''burn asset ID does not match genesis'')
      else res_bind (derive_burn_key sha lib (si_prev_id (inputs ! 0))) (\<lambda>burn_key.
        prepare_outputs_inner sha inputs
          [\<lparr>to_output_index = 0, to_amount = bp_amount params, to_script_key = script_key_from_pub_key burn_key,
            to_asset_version = AssetV0, to_interactive = True\<rparr>] g (Some TapV2) False))"

section \<open>Signing\<close>

type_synonym VirtualSigner = "bytes \<Rightarrow> ScriptKey \<Rightarrow> (bytes, SendError) result"

definition sign_input ::
  "BtcLib \<Rightarrow> VirtualSigner \<Rightarrow> VirtualTx \<Rightarrow> InputSet \<Rightarrow> Asset \<Rightarrow> nat \<Rightarrow> Witness \<Rightarrow> (bytes, SendError) result" where
  "sign_input lib sign base_tx prev_assets root idx w =
     res_bind (ok_or (w_prev_id w) (InvalidState ''witness has no prev_id'')) (\<lambda>prev_id.
     res_bind (ok_or (map_of prev_assets prev_id) (InvalidState ''prev_id not found in input set'')) (\<lambda>prev_asset.
     res_bind (map_err (\<lambda>_. InvalidState ''sighash'')
         (input_key_spend_sighash lib base_tx prev_asset root (of_nat idx) 0)) (\<lambda>sighash.
       sign sighash (script_key prev_asset))))"

fun sign_inputs ::
  "BtcLib \<Rightarrow> VirtualSigner \<Rightarrow> VirtualTx \<Rightarrow> InputSet \<Rightarrow> Asset \<Rightarrow> nat \<Rightarrow> Witness list \<Rightarrow>
     (bytes list, SendError) result" where
  "sign_inputs lib sign base_tx prev_assets root idx [] = Ok []"
| "sign_inputs lib sign base_tx prev_assets root idx (w # ws) =
     res_bind (sign_input lib sign base_tx prev_assets root idx w) (\<lambda>sig.
     res_bind (sign_inputs lib sign base_tx prev_assets root (idx + 1) ws) (\<lambda>sigs. Ok (sig # sigs)))"

definition sign_transfer ::
  "hash_fun \<Rightarrow> BtcLib \<Rightarrow> VirtualSigner \<Rightarrow> InputSet \<Rightarrow> PreparedTransfer \<Rightarrow> (PreparedTransfer, SendError) result" where
  "sign_transfer sha lib sign prev_assets pt =
     res_bind (map_err (\<lambda>_. InvalidState ''virtual tx'') (virtual_tx sha (pt_root_asset pt) prev_assets)) (\<lambda>(base_tx, _, _).
     res_bind (sign_inputs lib sign base_tx prev_assets (pt_root_asset pt) 0 (prev_witnesses (pt_root_asset pt))) (\<lambda>sigs.
       Ok (pt\<lparr>pt_root_asset := (pt_root_asset pt)\<lparr>prev_witnesses :=
         map2 (\<lambda>w sig. w\<lparr>tx_witness := [sig]\<rparr>) (prev_witnesses (pt_root_asset pt)) sigs\<rparr>\<rparr>)))"

definition sign_passive_transition ::
  "hash_fun \<Rightarrow> BtcLib \<Rightarrow> VirtualSigner \<Rightarrow> PrevId \<Rightarrow> Asset \<Rightarrow> Genesis \<Rightarrow> u64 \<Rightarrow> AssetVersion \<Rightarrow> ScriptKey \<Rightarrow>
     (Asset, SendError) result" where
  "sign_passive_transition sha lib sign prev_id prev_asset g amt ver key =
     (let w = \<lparr>w_prev_id = Some prev_id, tx_witness = [], split_commitment = None\<rparr>;
          new_asset = transfer_asset ver g amt [w] key;
          prev_assets = [(prev_id, prev_asset)] in
      res_bind (map_err (\<lambda>_. InvalidState ''passive virtual tx'') (virtual_tx sha new_asset prev_assets)) (\<lambda>(base_tx, _, _).
      res_bind (map_err (\<lambda>_. InvalidState ''passive sighash'')
          (input_key_spend_sighash lib base_tx prev_asset new_asset 0 0)) (\<lambda>sighash.
      res_bind (sign sighash (script_key prev_asset)) (\<lambda>sig.
        Ok (new_asset\<lparr>prev_witnesses := [w\<lparr>tx_witness := [sig]\<rparr>]\<rparr>)))))"

section \<open>Split proofs\<close>

definition drop_split_witness :: "Asset \<Rightarrow> Asset" where
  "drop_split_witness a =
     (case prev_witnesses a of
        [] \<Rightarrow> a
      | w # ws \<Rightarrow> a\<lparr>prev_witnesses := w\<lparr>split_commitment := None\<rparr> # ws\<rparr>)"

definition set_split_witness :: "SplitCommitmentWitness \<Rightarrow> Asset \<Rightarrow> Asset" where
  "set_split_witness sc a =
     (case prev_witnesses a of
        [] \<Rightarrow> a
      | w # ws \<Rightarrow> a\<lparr>prev_witnesses := w\<lparr>split_commitment := Some sc\<rparr> # ws\<rparr>)"

definition populate_split ::
  "hash_fun \<Rightarrow> DefaultStore \<Rightarrow> AssetId \<Rightarrow> bytes \<Rightarrow> SplitAsset \<Rightarrow> (SplitAsset, SendError) result" where
  "populate_split sha tree aid root_bytes split =
     res_bind (map_err (SplitError \<circ> SplitTree) (tree_merkle_proof sha (locator_hash sha (locator_of aid split)) tree)) (\<lambda>p.
       Ok (split\<lparr>sa_asset := set_split_witness \<lparr>sc_proof = p, sc_root_asset = root_bytes\<rparr> (sa_asset split)\<rparr>))"

definition populate_split_proofs :: "hash_fun \<Rightarrow> PreparedTransfer \<Rightarrow> (PreparedTransfer, SendError) result" where
  "populate_split_proofs sha pt =
     (if \<not> is_split pt then Ok pt
      else
        let root = pt_root_asset pt; aid = genesis_id sha (genesis root) in
        res_bind (split_tree sha aid drop_split_witness root (recipient_assets pt)) (\<lambda>tree.
        let tree_root = tree_root sha tree in
        case split_commitment_root root of
          None \<Rightarrow> Err (SplitError (SplitText ''root asset has no split commitment root''))
        | Some (h, s) \<Rightarrow>
            if h \<noteq> branch_hash sha tree_root \<or> s \<noteq> branch_sum tree_root then
              Err (SplitError (SplitText ''rebuilt split tree does not match the committed split commitment root''))
            else
              res_bind (map_res (populate_split sha tree aid (encode_asset sha root EncodeNormal)) (recipient_assets pt))
                (\<lambda>splits. Ok (pt\<lparr>recipient_assets := splits\<rparr>))))"

section \<open>The commitment of the change output\<close>

definition run_tree ::
  "(unit, CommitmentError) result \<times> TapCommitmentTree \<Rightarrow> (TapCommitmentTree, SendError) result" where
  "run_tree rt = map_err SendCommitmentError (map_ok (\<lambda>_. snd rt) (fst rt))"

definition single_commitment ::
  "hash_fun \<Rightarrow> TapCommitmentVersion \<Rightarrow> Asset \<Rightarrow> (TapCommitmentTree, SendError) result" where
  "single_commitment sha ver a = map_err SendCommitmentError (res_bind (act_new sha [a]) (\<lambda>ac. tct_new sha ver [ac]))"

definition merge_stxo ::
  "hash_fun \<Rightarrow> Secp \<Rightarrow> Asset list \<Rightarrow> TapCommitmentTree \<Rightarrow> (TapCommitmentTree, SendError) result" where
  "merge_stxo sha lib roots tc =
     res_bind (map_err SendAltLeafError (map_res (collect_stxo sha lib) roots)) (\<lambda>leaves.
       run_tree (merge_alt_leaves sha (concat leaves) tc))"

fun merge_passive ::
  "hash_fun \<Rightarrow> Asset list \<Rightarrow> TapCommitmentTree \<Rightarrow> (TapCommitmentTree, SendError) result" where
  "merge_passive sha [] tc = Ok tc"
| "merge_passive sha (a # as) tc =
     res_bind (map_err SendCommitmentError (act_new sha [a])) (\<lambda>ac.
     res_bind (run_tree (tct_upsert sha ac tc)) (merge_passive sha as))"

definition rebuild_root_commitment_with_options ::
  "hash_fun \<Rightarrow> Secp \<Rightarrow> bool \<Rightarrow> PreparedTransfer \<Rightarrow> (PreparedTransfer, SendError) result" where
  "rebuild_root_commitment_with_options sha lib no_stxo_proofs pt =
     (let ver = tc_version (tct_commitment (change_commitment pt)); root = pt_root_asset pt in
      res_bind (single_commitment sha ver root) (\<lambda>tc.
      res_bind (if no_stxo_proofs then Ok tc else merge_stxo sha lib (root # passive_assets pt) tc) (\<lambda>tc.
      res_bind (merge_passive sha (passive_assets pt) tc) (\<lambda>tc.
      if is_split pt then Ok (pt\<lparr>change_commitment := tc\<rparr>)
      else
        res_bind (single_commitment sha ver root) (\<lambda>recipient_tc.
        res_bind (if no_stxo_proofs then Ok recipient_tc else merge_stxo sha lib [root] recipient_tc) (\<lambda>recipient_tc.
          Ok (pt\<lparr>output_commitments := (case output_commitments pt of [] \<Rightarrow> [] | _ # tcs \<Rightarrow> recipient_tc # tcs),
                 change_commitment := tc\<rparr>)))))))"

definition rebuild_root_commitment ::
  "hash_fun \<Rightarrow> Secp \<Rightarrow> PreparedTransfer \<Rightarrow> (PreparedTransfer, SendError) result" where
  "rebuild_root_commitment sha lib pt = rebuild_root_commitment_with_options sha lib False pt"

section \<open>The anchor transaction\<close>

record TransferOutputInfo =
  ti_output_index :: u32
  ti_output_key :: bytes
  ti_commitment :: TapCommitment

record TransferTemplate =
  tt_tx :: AnchorTx
  tap_outputs :: "TransferOutputInfo list"

record OutputDescriptor =
  od_internal_key :: bytes
  od_commitment :: TapCommitment
  od_value :: u64
  od_sibling_script :: "bytes option"

fun template_outputs ::
  "hash_fun \<Rightarrow> Secp \<Rightarrow> nat \<Rightarrow> OutputDescriptor list \<Rightarrow> (TxOut list \<times> TransferOutputInfo list, PsbtError) result" where
  "template_outputs sha lib idx [] = Ok ([], [])"
| "template_outputs sha lib idx (d # ds) =
     res_bind (psbt_tap_output_script sha lib (od_internal_key d) (od_commitment d) (od_sibling_script d)) (\<lambda>(script, output_key).
     res_bind (template_outputs sha lib (idx + 1) ds) (\<lambda>(outs, infos).
       Ok (\<lparr>out_value = od_value d, script_pubkey = script\<rparr> # outs,
           \<lparr>ti_output_index = of_nat idx, ti_output_key = output_key, ti_commitment = od_commitment d\<rparr> # infos)))"

definition create_transfer_template ::
  "hash_fun \<Rightarrow> Secp \<Rightarrow> OutPoint list \<Rightarrow> OutputDescriptor list \<Rightarrow> (TransferTemplate, PsbtError) result" where
  "create_transfer_template sha lib inputs outputs =
     res_bind (template_outputs sha lib 0 outputs) (\<lambda>(outs, infos).
       Ok \<lparr>tt_tx = \<lparr>atx_version = 2, atx_lock_time = 0, atx_input = map unsigned_input inputs, atx_output = outs\<rparr>,
           tap_outputs = infos\<rparr>)"

section \<open>The executor\<close>

record TransferResult =
  tr_prepared :: PreparedTransfer
  tr_template :: TransferTemplate

record TransferOptions =
  opt_commitment_version :: "TapCommitmentVersion option"
  opt_no_stxo_proofs :: bool
  opt_passive_assets :: "Asset list"

text \<open>The internal key of a recipient is clamped to the last key provided.\<close>

definition output_descriptors :: "bytes list \<Rightarrow> PreparedTransfer \<Rightarrow> OutputDescriptor list" where
  "output_descriptors internal_keys pt =
     (if is_split pt
      then [\<lparr>od_internal_key = internal_keys ! 0, od_commitment = tct_commitment (change_commitment pt), od_value = 330,
             od_sibling_script = None\<rparr>]
      else [])
     @ map (\<lambda>(i, c). \<lparr>od_internal_key = internal_keys ! min (i + 1) (length internal_keys - 1),
         od_commitment = tct_commitment c, od_value = 330, od_sibling_script = None\<rparr>)
       (enumerate 0 (output_commitments pt))"

definition execute_transfer_with_options ::
  "hash_fun \<Rightarrow> Secp \<Rightarrow> SelectedInput list \<Rightarrow> TransferOutput list \<Rightarrow> Genesis \<Rightarrow> InputSet \<Rightarrow> VirtualSigner \<Rightarrow> bytes list \<Rightarrow>
     TransferOptions \<Rightarrow> (TransferResult, SendError) result" where
  "execute_transfer_with_options sha lib inputs outputs g prev_assets sign internal_keys opts =
     (let force_split = (opt_passive_assets opts \<noteq> []) in
      res_bind (prepare_outputs_forced sha lib inputs outputs g (opt_commitment_version opts) force_split) (\<lambda>pt.
      let pt = pt\<lparr>passive_assets := opt_passive_assets opts\<rparr> in
      res_bind (sign_transfer sha (btc lib) sign prev_assets pt) (\<lambda>pt.
      res_bind (if is_split pt then populate_split_proofs sha pt else Ok pt) (\<lambda>pt.
      res_bind (rebuild_root_commitment_with_options sha lib (opt_no_stxo_proofs opts) pt) (\<lambda>pt.
      if internal_keys = [] then Err (InvalidState ''no internal keys provided'')
      else
        res_bind (map_err SendTemplateError
            (create_transfer_template sha lib (map si_anchor_point inputs) (output_descriptors internal_keys pt))) (\<lambda>tmpl.
          Ok \<lparr>tr_prepared = pt, tr_template = tmpl\<rparr>))))))"

definition execute_transfer_with_version ::
  "hash_fun \<Rightarrow> Secp \<Rightarrow> SelectedInput list \<Rightarrow> TransferOutput list \<Rightarrow> Genesis \<Rightarrow> InputSet \<Rightarrow> VirtualSigner \<Rightarrow> bytes list \<Rightarrow>
     TapCommitmentVersion option \<Rightarrow> (TransferResult, SendError) result" where
  "execute_transfer_with_version sha lib inputs outputs g prev_assets sign internal_keys ver =
     execute_transfer_with_options sha lib inputs outputs g prev_assets sign internal_keys
       \<lparr>opt_commitment_version = ver, opt_no_stxo_proofs = False, opt_passive_assets = []\<rparr>"

definition execute_transfer ::
  "hash_fun \<Rightarrow> Secp \<Rightarrow> SelectedInput list \<Rightarrow> TransferOutput list \<Rightarrow> Genesis \<Rightarrow> InputSet \<Rightarrow> VirtualSigner \<Rightarrow> bytes list \<Rightarrow>
     (TransferResult, SendError) result" where
  "execute_transfer sha lib inputs outputs g prev_assets sign internal_keys =
     execute_transfer_with_version sha lib inputs outputs g prev_assets sign internal_keys None"

end
