(* ===== verification/Suffix.thy ===== *)
theory Suffix
  imports Send
begin

text \<open>
  Proofs of transfers (\<^verbatim>\<open>tap-onchain/src/proof/exclusion.rs\<close>, \<^verbatim>\<open>suffix.rs\<close> and
  \<^verbatim>\<open>transition.rs\<close>): the exclusion proofs of the other outputs of an anchor transaction, the proof suffix of a
  transfer with its split root proof and its proofs of spent assets, and the chain data filled in after confirmation.
\<close>

section \<open>Exclusion proofs\<close>

record AnchorOutputInfo =
  ao_output_index :: u32
  ao_internal_key :: SerializedKey
  ao_commitment :: "TapCommitmentTree option"
  ao_tapscript_sibling :: "TapscriptPreimage option"

definition set_sibling :: "TapscriptPreimage option \<Rightarrow> CommitmentProof \<Rightarrow> CommitmentProof" where
  "set_sibling sibling cp =
     CommitmentProof (cp_asset_proof cp) (cp_taproot_asset_proof cp) sibling (cp_stxo_proofs cp) (cp_unknown_odd_types cp)"

definition set_stxo :: "(SerializedKey \<times> CommitmentProof) list \<Rightarrow> CommitmentProof \<Rightarrow> CommitmentProof" where
  "set_stxo stxo cp =
     CommitmentProof (cp_asset_proof cp) (cp_taproot_asset_proof cp) (cp_tap_sibling_preimage cp) stxo (cp_unknown_odd_types cp)"

definition exclusion_proof :: "hash_fun \<Rightarrow> bytes \<Rightarrow> bytes \<Rightarrow> AnchorOutputInfo \<Rightarrow> (TaprootProof, GenError) result" where
  "exclusion_proof sha tck ack out =
     (case ao_commitment out of
        Some tap_tree \<Rightarrow>
          res_bind (map_err GenTree (tct_proof sha tck ack tap_tree)) (\<lambda>(found, cp).
            if found \<noteq> None then Err (GenFailed ''asset is committed to in output; cannot create exclusion proof'')
            else Ok \<lparr>tr_output_index = ao_output_index out, tr_internal_key = ao_internal_key out,
                     tr_commitment_proof = Some (set_sibling (ao_tapscript_sibling out) cp), tr_tapscript_proof = None,
                     tr_unknown_odd_types = []\<rparr>)
      | None \<Rightarrow>
          Ok \<lparr>tr_output_index = ao_output_index out, tr_internal_key = ao_internal_key out, tr_commitment_proof = None,
              tr_tapscript_proof = Some \<lparr>tap_preimage_1 = None, tap_preimage_2 = None, bip86 = True, ts_unknown_odd_types = []\<rparr>,
              tr_unknown_odd_types = []\<rparr>)"

definition generate_exclusion_proofs ::
  "hash_fun \<Rightarrow> Asset \<Rightarrow> u32 \<Rightarrow> AnchorOutputInfo list \<Rightarrow> (TaprootProof list, GenError) result" where
  "generate_exclusion_proofs sha a inclusion_output_index other_outputs =
     map_res (exclusion_proof sha (tap_key_of sha a) (leaf_key_of sha a))
       (filter (\<lambda>out. ao_output_index out \<noteq> inclusion_output_index) other_outputs)"

section \<open>Proof suffixes\<close>

record OutputProofInfo =
  oi_asset :: Asset
  oi_anchor_output_index :: u32
  oi_internal_key :: SerializedKey
  oi_commitment :: TapCommitmentTree
  oi_tapscript_sibling :: "TapscriptPreimage option"

record Bip86Output =
  bo_output_index :: u32
  bo_internal_key :: SerializedKey

record ProofSuffixOptions =
  pso_transition_version :: TransitionVersion
  pso_no_stxo_proofs :: bool

definition suffix_options_default :: ProofSuffixOptions where
  "suffix_options_default = \<lparr>pso_transition_version = TransitionV0, pso_no_stxo_proofs = False\<rparr>"

text \<open>The proofs of the spent-asset markers, keyed by their script keys.\<close>

fun stxo_inclusion_proofs ::
  "hash_fun \<Rightarrow> TapCommitmentTree \<Rightarrow> Asset list \<Rightarrow> (SerializedKey \<times> CommitmentProof) list \<Rightarrow>
     ((SerializedKey \<times> CommitmentProof) list, GenError) result" where
  "stxo_inclusion_proofs sha tree [] acc = Ok acc"
| "stxo_inclusion_proofs sha tree (a # as) acc =
     res_bind (map_err GenTree (tct_proof sha (EMPTY_GENESIS_ID sha) (asset_commitment_key sha a) tree)) (\<lambda>(found, cp).
       if found = None then Err (GenFailed ''STXO asset not committed to in output'')
       else if cp_asset_proof cp = None then Err (GenFailed ''missing asset proof in STXO inclusion'')
       else stxo_inclusion_proofs sha tree as (btree_insert (sk_pub_key (script_key a)) cp acc))"

fun stxo_exclusion_proofs ::
  "hash_fun \<Rightarrow> TapCommitmentTree \<Rightarrow> Asset list \<Rightarrow> (SerializedKey \<times> CommitmentProof) list \<Rightarrow>
     ((SerializedKey \<times> CommitmentProof) list, GenError) result" where
  "stxo_exclusion_proofs sha tree [] acc = Ok acc"
| "stxo_exclusion_proofs sha tree (a # as) acc =
     res_bind (map_err GenTree (tct_proof sha (EMPTY_GENESIS_ID sha) (asset_commitment_key sha a) tree)) (\<lambda>(found, cp).
       if found \<noteq> None then Err (GenFailed ''STXO asset committed to in output; cannot create exclusion proof'')
       else stxo_exclusion_proofs sha tree as (btree_insert (sk_pub_key (script_key a)) cp acc))"

definition add_stxo_exclusion ::
  "hash_fun \<Rightarrow> Asset list \<Rightarrow> AnchorOutputInfo list \<Rightarrow> TaprootProof \<Rightarrow> (TaprootProof, GenError) result" where
  "add_stxo_exclusion sha stxo_assets other_outputs ep =
     (case tr_commitment_proof ep of
        None \<Rightarrow> Ok ep
      | Some cp \<Rightarrow>
          res_bind (ok_or (Option.bind (find (\<lambda>out. ao_output_index out = tr_output_index ep) other_outputs) ao_commitment)
              (GenFailed ''no commitment tree for excluded output'')) (\<lambda>out_tree.
          res_bind (stxo_exclusion_proofs sha out_tree stxo_assets []) (\<lambda>stxo.
            Ok (ep\<lparr>tr_commitment_proof := Some (set_stxo stxo cp)\<rparr>))))"

definition add_stxo_proofs ::
  "hash_fun \<Rightarrow> Secp \<Rightarrow> OutputProofInfo \<Rightarrow> AnchorOutputInfo list \<Rightarrow> CommitmentProof \<Rightarrow> TaprootProof list \<Rightarrow>
     (CommitmentProof \<times> TaprootProof list, GenError) result" where
  "add_stxo_proofs sha lib target other_outputs inclusion_cp exclusions =
     res_bind (ok_or (map_of (asset_commitments (oi_commitment target)) (EMPTY_GENESIS_ID sha))
         (GenFailed ''no alt leaves for transfer root asset'')) (\<lambda>alt_commitment.
     if prev_witnesses (oi_asset target) = [] then Err (GenFailed ''no prev witnesses for transfer root asset'')
     else if length (act_assets alt_commitment) < length (prev_witnesses (oi_asset target)) then
       Err (GenFailed ''not enough alt leaves for transfer root asset'')
     else
       res_bind (map_err GenAsset (collect_stxo sha lib (oi_asset target))) (\<lambda>stxo_assets.
       res_bind (stxo_inclusion_proofs sha (oi_commitment target) stxo_assets []) (\<lambda>stxo.
       if length stxo \<noteq> length (prev_witnesses (oi_asset target)) then
         Err (GenFailed ''stxo inclusion proof count mismatch'')
       else
         res_bind (map_res (add_stxo_exclusion sha stxo_assets other_outputs) exclusions) (\<lambda>exclusions.
           Ok (set_stxo stxo inclusion_cp, exclusions)))))"

definition create_split_root_proof ::
  "hash_fun \<Rightarrow> OutputProofInfo \<Rightarrow> OutputProofInfo list \<Rightarrow> (TaprootProof, GenError) result" where
  "create_split_root_proof sha target asset_outputs =
     res_bind (ok_or (find (\<lambda>out. split_commitment_root (oi_asset out) \<noteq> None) asset_outputs)
         (GenFailed ''no split root output found'')) (\<lambda>root_output.
     let root_asset = oi_asset root_output in
     res_bind (map_err GenTree (tct_proof sha (tap_key_of sha root_asset) (leaf_key_of sha root_asset)
         (oi_commitment root_output))) (\<lambda>(committed, cp).
     res_bind (ok_or committed (GenFailed ''no asset commitment found for split root'')) (\<lambda>committed_root.
     res_bind (ok_or (case prev_witnesses (oi_asset target) of
           [] \<Rightarrow> None | w # _ \<Rightarrow> map_option sc_root_asset (split_commitment w))
         (GenFailed ''split asset has no split commitment'')) (\<lambda>witness_root.
     if encode_asset sha committed_root EncodeNormal \<noteq> witness_root then
       Err (GenFailed ''root asset mismatch: the split witness root asset differs from the committed root asset'')
     else
       Ok \<lparr>tr_output_index = oi_anchor_output_index root_output, tr_internal_key = oi_internal_key root_output,
           tr_commitment_proof = Some (set_sibling (oi_tapscript_sibling root_output) cp), tr_tapscript_proof = None,
           tr_unknown_odd_types = []\<rparr>))))"

definition other_asset_output :: "OutputProofInfo \<Rightarrow> AnchorOutputInfo" where
  "other_asset_output out =
     \<lparr>ao_output_index = oi_anchor_output_index out, ao_internal_key = oi_internal_key out,
      ao_commitment = Some (oi_commitment out), ao_tapscript_sibling = oi_tapscript_sibling out\<rparr>"

definition other_bip86_output :: "Bip86Output \<Rightarrow> AnchorOutputInfo" where
  "other_bip86_output out =
     \<lparr>ao_output_index = bo_output_index out, ao_internal_key = bo_internal_key out, ao_commitment = None,
      ao_tapscript_sibling = None\<rparr>"

definition other_outputs :: "OutputProofInfo list \<Rightarrow> nat \<Rightarrow> Bip86Output list \<Rightarrow> AnchorOutputInfo list" where
  "other_outputs asset_outputs out_index bip86_outputs =
     map (other_asset_output \<circ> snd) (filter (\<lambda>(i, _). i \<noteq> out_index) (enumerate 0 asset_outputs))
     @ map other_bip86_output bip86_outputs"

definition create_proof_suffix_with_options ::
  "Env \<Rightarrow> AnchorTx \<Rightarrow> OutPoint \<Rightarrow> OutputProofInfo list \<Rightarrow> nat \<Rightarrow> Bip86Output list \<Rightarrow> ProofSuffixOptions \<Rightarrow>
     (TransitionProof, GenError) result" where
  "create_proof_suffix_with_options env tx prev asset_outputs out_index bip86_outputs opts =
     (if length asset_outputs \<le> out_index then Err (GenFailed ''no asset output at index'')
      else
        let sha = sha256 env; target = asset_outputs ! out_index; a = oi_asset target in
        res_bind (map_err GenTree (tct_proof sha (tap_key_of sha a) (leaf_key_of sha a) (oi_commitment target))) (\<lambda>(committed, cp).
        if committed = None then Err (GenFailed ''asset not committed to in output'')
        else
          let cp = set_sibling (oi_tapscript_sibling target) cp in
          res_bind (if has_split_commitment_witness a
              then map_ok Some (create_split_root_proof sha target asset_outputs) else Ok None) (\<lambda>split_root.
          let others = other_outputs asset_outputs out_index bip86_outputs in
          res_bind (generate_exclusion_proofs sha a (oi_anchor_output_index target) others) (\<lambda>exclusions.
          res_bind (if is_transfer_root a \<and> \<not> pso_no_stxo_proofs opts
              then add_stxo_proofs sha (secp env) target others cp exclusions else Ok (cp, exclusions)) (\<lambda>(cp, exclusions).
          res_bind (ok_or (build_tx_merkle_proof (\<lambda>x. sha (sha x)) [compute_txid (txlib env) tx] 0)
              (GenFailed ''failed to build tx merkle proof'')) (\<lambda>merkle.
          Ok \<lparr>version = pso_transition_version opts, prev_out = prev, block_header = zeros 80, block_height = 0,
              anchor_tx = tx, tx_merkle_proof = merkle, asset = a,
              inclusion_proof = \<lparr>tr_output_index = oi_anchor_output_index target, tr_internal_key = oi_internal_key target,
                tr_commitment_proof = Some cp, tr_tapscript_proof = None, tr_unknown_odd_types = []\<rparr>,
              exclusion_proofs = exclusions, split_root_proof = split_root, meta_reveal = None,
              additional_inputs = [], challenge_witness = None, genesis_reveal = None, group_key_reveal = None,
              alt_leaves = fetch_alt_leaves sha (oi_commitment target), pr_unknown_odd_types = []\<rparr>))))))"

definition create_proof_suffix ::
  "Env \<Rightarrow> AnchorTx \<Rightarrow> OutPoint \<Rightarrow> OutputProofInfo list \<Rightarrow> nat \<Rightarrow> Bip86Output list \<Rightarrow> (TransitionProof, GenError) result" where
  "create_proof_suffix env tx prev asset_outputs out_index bip86_outputs =
     create_proof_suffix_with_options env tx prev asset_outputs out_index bip86_outputs suffix_options_default"

section \<open>Chain data\<close>

record BaseProofParams =
  bp_block_header :: bytes
  bp_block_height :: u32
  bp_anchor_tx_bytes :: bytes
  bp_tx_index :: nat
  bp_block_tx_hashes :: "bytes list"
  bp_output_index :: u32
  bp_internal_key :: SerializedKey

text \<open>The anchor transaction is parsed after header and height are written; a failure leaves those two updated.\<close>

definition update_proof_chain_data ::
  "Env \<Rightarrow> BaseProofParams \<Rightarrow> TransitionProof \<Rightarrow> (unit, GenError) result \<times> TransitionProof" where
  "update_proof_chain_data env base p =
     (case build_tx_merkle_proof (\<lambda>x. sha256 env (sha256 env x)) (bp_block_tx_hashes base) (bp_tx_index base) of
        None \<Rightarrow> (Err (GenFailed ''failed to build tx merkle proof''), p)
      | Some merkle \<Rightarrow>
          let p = p\<lparr>block_header := bp_block_header base, block_height := bp_block_height base\<rparr> in
          case map_err GenProof (anchor_tx_from_bytes (txlib env) (bp_anchor_tx_bytes base)) of
            Err e \<Rightarrow> (Err e, p)
          | Panic \<Rightarrow> (Panic, p)
          | Ok tx \<Rightarrow> (Ok (), p\<lparr>anchor_tx := tx, tx_merkle_proof := merkle\<rparr>))"

section \<open>Transition proofs\<close>

record TransitionProofParams =
  tpp_base :: BaseProofParams
  tpp_prev_out :: OutPoint
  new_asset :: Asset
  tpp_commitment :: "TapCommitmentTree option"
  tpp_commitment_proof :: "CommitmentProof option"
  tpp_exclusion_proofs :: "TaprootProof list"
  tpp_split_root_proof :: "TaprootProof option"
  tpp_additional_inputs :: "ProofFile list"

definition generate_transition_proof :: "Env \<Rightarrow> TransitionProofParams \<Rightarrow> (TransitionProof, GenError) result" where
  "generate_transition_proof env t =
     (let base = tpp_base t in
      res_bind (ok_or (build_tx_merkle_proof (\<lambda>x. sha256 env (sha256 env x)) (bp_block_tx_hashes base) (bp_tx_index base))
          (GenFailed ''failed to build tx merkle proof'')) (\<lambda>merkle.
      res_bind (inclusion_from (sha256 env) (tpp_commitment_proof t) (tpp_commitment t) (new_asset t)) (\<lambda>cp.
      res_bind (map_err GenProof (anchor_tx_from_bytes (txlib env) (bp_anchor_tx_bytes base))) (\<lambda>tx.
        Ok \<lparr>version = TransitionV0, prev_out = tpp_prev_out t, block_header = bp_block_header base,
            block_height = bp_block_height base, anchor_tx = tx, tx_merkle_proof = merkle, asset = new_asset t,
            inclusion_proof = \<lparr>tr_output_index = bp_output_index base, tr_internal_key = bp_internal_key base,
              tr_commitment_proof = cp, tr_tapscript_proof = None, tr_unknown_odd_types = []\<rparr>,
            exclusion_proofs = tpp_exclusion_proofs t, split_root_proof = tpp_split_root_proof t, meta_reveal = None,
            additional_inputs = tpp_additional_inputs t, challenge_witness = None, genesis_reveal = None,
            group_key_reveal = None, alt_leaves = [], pr_unknown_odd_types = []\<rparr>))))"

definition append_transition :: "Env \<Rightarrow> TransitionProofParams \<Rightarrow> ProofFile \<Rightarrow> (ProofFile, GenError) result" where
  "append_transition env t f =
     map_ok (\<lambda>p. append_proof (sha256 env) (encode_proof (sha256 env) (txlib env) p) f) (generate_transition_proof env t)"

end
