(* ===== verification/Pair_Hash.thy ===== *)
theory Pair_Hash
  imports Mssmt_Refine
begin

text \<open>
  A second small hash function, which records the height of a node and its sum. It separates the nodes of a tree with two leaves whose
  sums differ, and so shows that the hypotheses on trees can be met by a transfer that splits an asset.
\<close>

definition pair_digest :: "nat \<Rightarrow> u64 \<Rightarrow> bytes" where
  "pair_digest d s = u16_be (of_nat d) @ u64_be s @ zeros 22"

definition pair_hash :: hash_fun where
  "pair_hash x =
     (if length x = 72 then pair_digest (unat (be_u16 (take 2 x)) + 1) (be_u64 (drop 64 x))
      else pair_digest 0 (be_u64 (drop (length x - 8) x)))"

lemma sha_32_pair_hash: "sha_32 pair_hash"
  by (simp add: sha_32_def pair_hash_def pair_digest_def)

lemma pair_digest_inject: "d < 65536 \<Longrightarrow> e < 65536 \<Longrightarrow> pair_digest d a = pair_digest e b \<longleftrightarrow> d = e \<and> a = b"
  by (auto simp: pair_digest_def append_eq_append_conv_length word_unat_eq_iff unat_of_nat)

lemma pair_hash_branch:
  assumes "d < 65535"
  shows "pair_hash (branch_preimage (pair_digest d a) (pair_digest d b) s) = pair_digest (d + 1) s"
  using assms by (simp add: pair_hash_def branch_preimage_def pair_digest_def unat_of_nat)

lemma pair_hash_node:
  assumes "leaf_sized f" "length p \<le> 256"
  shows "node_hash pair_hash (node_at f p) = pair_digest (256 - length p) (node_sum (node_at f p))"
  using assms(2)
proof (induction "256 - length p" arbitrary: p)
  case 0
  then have "length p = 256" by simp
  with assms(1) show ?case
    by (simp add: node_at_Leaf leaf_hash_def pair_hash_def leaf_sized_def leaf_preimage_def)
next
  case (Suc d)
  then have len: "length p < 256" and d: "255 - length p = d" by simp_all
  have "node_hash pair_hash (node_at f (p @ [b])) = pair_digest d (node_sum (node_at f (p @ [b])))" for b
    using Suc(1) [of "p @ [b]"] len d by simp
  then have "node_hash pair_hash (node_at f p) = pair_digest (d + 1) (node_sum (node_at f p))"
    using len d by (simp add: node_at_Branch pair_hash_branch)
  with Suc(2) show ?case by simp
qed

text \<open>The sum of a node of a tree with leaves under \<open>k\<close> and \<open>k'\<close>.\<close>

definition share :: "path \<Rightarrow> path \<Rightarrow> u64 \<Rightarrow> u64" where
  "share p k s = (if take (length p) k = p then s else 0)"

lemma share_children: "length p < length k \<Longrightarrow> share p k s = share (p @ [False]) k s + share (p @ [True]) k s"
  by (cases "k ! length p") (auto simp: share_def take_Suc_conv_app_nth)

definition pair_content :: "path \<Rightarrow> LeafNode \<Rightarrow> path \<Rightarrow> LeafNode \<Rightarrow> content" where
  "pair_content k l k' l' = no_content(k := l, k' := l')"

lemma pair_node_sum:
  assumes "length k = 256" "length k' = 256" "k \<noteq> k'" "length p \<le> 256"
  shows "node_sum (node_at (pair_content k l k' l') p) = share p k (leaf_sum l) + share p k' (leaf_sum l')"
  using assms(4)
proof (induction "256 - length p" arbitrary: p)
  case 0
  then have "length p = 256" by simp
  with assms(1-3) show ?case
    by (auto simp: node_at_Leaf pair_content_def no_content_def share_def leaf_empty_def leaf_new_def)
next
  case (Suc d)
  then have len: "length p < 256" by simp
  have "node_sum (node_at (pair_content k l k' l') (p @ [b])) = share (p @ [b]) k (leaf_sum l) + share (p @ [b]) k' (leaf_sum l')" for b
    using Suc(1) [of "p @ [b]"] Suc(2) len by simp
  then show ?case using len assms(1,2) share_children [of p k] share_children [of p k'] by (simp add: node_at_Branch)
qed

text \<open>Only the leaves below a node matter for it.\<close>

definition below :: "path \<Rightarrow> path \<Rightarrow> LeafNode \<Rightarrow> LeafNode" where
  "below p k l = (if take (length p) k = p then l else leaf_empty)"

lemma pair_node_below:
  assumes "length p \<le> 256" "length k = 256" "length k' = 256"
  shows "node_at (pair_content k l k' l') p = node_at (pair_content k (below p k l) k' (below p k' l')) p"
  unfolding node_at_def
proof (rule spec_node_cong)
  fix r :: path assume "length r = 256 - length p"
  have "k = p @ r \<Longrightarrow> take (length p) k = p" "k' = p @ r \<Longrightarrow> take (length p) k' = p" by simp_all
  then show "pair_content k l k' l' (p @ r) = pair_content k (below p k l) k' (below p k' l') (p @ r)"
    by (auto simp: pair_content_def no_content_def below_def)
qed

lemma pair_no_content: "pair_content k leaf_empty k' leaf_empty = no_content"
  by (simp add: pair_content_def no_content_def fun_eq_iff)

lemma no_content_nodes: "length p = length q \<Longrightarrow> node_at no_content p = node_at no_content q"
  unfolding node_at_def by (auto intro: spec_node_cong simp: no_content_def)

lemma leaf_empty_sum [simp]: "leaf_sum leaf_empty = 0"
  by (simp add: leaf_empty_def leaf_new_def)

text \<open>Two leaves whose sums tell which of them are below a node. The second one may be the empty leaf.\<close>

definition pair_ok :: "LeafNode \<Rightarrow> LeafNode \<Rightarrow> bool" where
  "pair_ok l l' \<longleftrightarrow> length (leaf_value l) \<noteq> 64 \<and> length (leaf_value l') \<noteq> 64
     \<and> (\<forall>m \<in> {leaf_empty, l}. \<forall>m' \<in> {leaf_empty, l'}. \<forall>n \<in> {leaf_empty, l}. \<forall>n' \<in> {leaf_empty, l'}.
          leaf_sum m + leaf_sum m' = leaf_sum n + leaf_sum n' \<longrightarrow> m = n \<and> m' = n')"

lemma pair_node_eq:
  assumes ok: "pair_ok l l'" and keys: "length k = 256" "length k' = 256" "k \<noteq> k'"
    and mem: "m \<in> {leaf_empty, l}" "m' \<in> {leaf_empty, l'}" "n \<in> {leaf_empty, l}" "n' \<in> {leaf_empty, l'}"
    and len: "length p = length q" "length p \<le> 256"
    and sum: "node_sum (node_at (pair_content k m k' m') p) = node_sum (node_at (pair_content k n k' n') q)"
  shows "node_at (pair_content k m k' m') p = node_at (pair_content k n k' n') q"
proof -
  have share: "share p k (leaf_sum m) = leaf_sum (below p k m)" for p k m by (simp add: share_def below_def)
  have below: "below p k m \<in> {leaf_empty, l}" if "m \<in> {leaf_empty, l}" for p k m l using that by (simp add: below_def)
  have "leaf_sum (below p k m) + leaf_sum (below p k' m') = leaf_sum (below q k n) + leaf_sum (below q k' n')"
    using sum len by (simp add: pair_node_sum [OF keys] share)
  then have eq: "below p k m = below q k n" "below p k' m' = below q k' n'"
    using ok below [OF mem(1)] below [OF mem(2)] below [OF mem(3)] below [OF mem(4)] unfolding pair_ok_def by meson+
  show ?thesis
  proof (cases "below p k m = leaf_empty \<and> below p k' m' = leaf_empty")
    case True
    with eq pair_node_below [of p k k' m m'] pair_node_below [of q k k' n n'] keys len no_content_nodes [of p q]
    show ?thesis by (simp add: pair_no_content)
  next
    case False
    then have "take (length p) k = p \<and> take (length q) k = q \<or> take (length p) k' = p \<and> take (length q) k' = q"
      using eq unfolding below_def by metis
    then have "p = q" using len(1) by metis
    with eq pair_node_below [of p k k' m m'] pair_node_below [of q k k' n n'] keys len show ?thesis by simp
  qed
qed

text \<open>Everything that the trees hash on the way to the two leaves.\<close>

definition pair_contents :: "path \<Rightarrow> LeafNode \<Rightarrow> path \<Rightarrow> LeafNode \<Rightarrow> content set" where
  "pair_contents k l k' l' = {pair_content k m k' m' | m m'. m \<in> {leaf_empty, l} \<and> m' \<in> {leaf_empty, l'}}"

definition pair_preimages :: "path \<Rightarrow> LeafNode \<Rightarrow> path \<Rightarrow> LeafNode \<Rightarrow> bytes set" where
  "pair_preimages k l k' l' = (\<Union>g \<in> pair_contents k l k' l'. tree_preimages pair_hash g)"

lemma pair_contents_sized:
  assumes "pair_ok l l'" "g \<in> pair_contents k l k' l'"
  shows "leaf_sized g"
proof -
  have e: "length (leaf_value leaf_empty) \<noteq> 64" by (simp add: leaf_empty_def leaf_new_def)
  obtain m m' where g: "g = pair_content k m k' m'" "m = leaf_empty \<or> m = l" "m' = leaf_empty \<or> m' = l'"
    using assms(2) unfolding pair_contents_def by blast
  have "length (leaf_value l) \<noteq> 64" "length (leaf_value l') \<noteq> 64" using assms(1) unfolding pair_ok_def by simp_all
  with g(2,3) e have "length (leaf_value m) \<noteq> 64" "length (leaf_value m') \<noteq> 64" by metis+
  with e show ?thesis by (simp add: leaf_sized_def g(1) pair_content_def no_content_def)
qed

lemma pair_hash_inj:
  assumes ok: "pair_ok l l'" and keys: "length k = 256" "length k' = 256" "k \<noteq> k'"
  shows "inj_on pair_hash (pair_preimages k l k' l')"
proof (rule inj_onI)
  fix x y assume "x \<in> pair_preimages k l k' l'" "y \<in> pair_preimages k l k' l'" and eq: "pair_hash x = pair_hash y"
  then obtain g h where g: "g \<in> pair_contents k l k' l'" "x \<in> tree_preimages pair_hash g"
    and h: "h \<in> pair_contents k l k' l'" "y \<in> tree_preimages pair_hash h" by (auto simp: pair_preimages_def)
  obtain p where p: "length p \<le> 256" "x = own_preimage pair_hash (node_at g p)" using tree_preimages_cover [OF g(2)] by blast
  obtain q where q: "length q \<le> 256" "y = own_preimage pair_hash (node_at h q)" using tree_preimages_cover [OF h(2)] by blast
  have "pair_digest (256 - length p) (node_sum (node_at g p)) = pair_digest (256 - length q) (node_sum (node_at h q))"
    using eq p q pair_hash_node [OF pair_contents_sized [OF ok g(1)] p(1)] pair_hash_node [OF pair_contents_sized [OF ok h(1)] q(1)]
    by (simp add: sha_own_preimage)
  then have "256 - length p = 256 - length q" and sum: "node_sum (node_at g p) = node_sum (node_at h q)"
    by (simp_all add: pair_digest_inject)
  then have len: "length p = length q" using p(1) q(1) by linarith
  obtain m m' where m: "g = pair_content k m k' m'" "m \<in> {leaf_empty, l}" "m' \<in> {leaf_empty, l'}"
    using g(1) unfolding pair_contents_def by blast
  obtain n n' where n: "h = pair_content k n k' n'" "n \<in> {leaf_empty, l}" "n' \<in> {leaf_empty, l'}"
    using h(1) unfolding pair_contents_def by blast
  have "node_at g p = node_at h q"
    using pair_node_eq [OF ok keys m(2,3) n(2,3) len p(1)] sum by (simp add: m(1) n(1))
  with p(2) q(2) show "x = y" by simp
qed

lemma pair_separated:
  assumes "pair_ok l l'" "length k = 256" "length k' = 256" "k \<noteq> k'" "f \<in> pair_contents k l k' l'"
  shows "separated pair_hash (pair_preimages k l k' l') f"
proof -
  have "no_content \<in> pair_contents k l k' l'" unfolding pair_contents_def
    by (intro CollectI exI [of _ leaf_empty]) (simp add: pair_no_content)
  with assms(5) have "tree_preimages pair_hash f \<subseteq> pair_preimages k l k' l'"
    "tree_preimages pair_hash no_content \<subseteq> pair_preimages k l k' l'" unfolding pair_preimages_def by blast+
  then show ?thesis
    using pair_hash_inj [OF assms(1-4)] sha_32_pair_hash pair_contents_sized [OF assms(1,5)] unfolding separated_def by blast
qed

text \<open>Trees with one leaf and with two leaves can be built with \<open>pair_hash\<close>.\<close>

lemma pair_inserts:
  assumes "pair_ok l l'" "l \<noteq> leaf_empty" "l' \<noteq> leaf_empty" "l \<noteq> l'" "key_bits key \<noteq> key_bits key'"
    and "unat (leaf_sum l) + unat (leaf_sum l') < 2 ^ 64"
  defines "S \<equiv> pair_preimages (key_bits key) l (key_bits key') l'"
  shows "separated pair_hash S no_content" "admissible pair_hash S no_content key l"
    "admissible pair_hash S (no_content(key_bits key := l)) key' l'"
    "\<exists>s s'. tree_insert pair_hash key l full_tree_new = Ok s \<and> tree_insert pair_hash key' l' s = Ok s'
       \<and> full_inv pair_hash S s' (no_content(key_bits key := l, key_bits key' := l'))"
proof -
  let ?k = "key_bits key" and ?k' = "key_bits key'"
  have content: "pair_content ?k m ?k' m' \<in> pair_contents ?k l ?k' l'" if "m \<in> {leaf_empty, l}" "m' \<in> {leaf_empty, l'}" for m m'
    using that unfolding pair_contents_def by blast
  have "separated pair_hash S (pair_content ?k m ?k' m')" if "m \<in> {leaf_empty, l}" "m' \<in> {leaf_empty, l'}" for m m'
    unfolding S_def using pair_separated [OF assms(1) _ _ assms(5) content [OF that]] by simp
  moreover have "pair_content ?k l ?k' leaf_empty = no_content(?k := l)"
    using assms(5) by (simp add: pair_content_def no_content_def fun_eq_iff)
  ultimately have sep: "separated pair_hash S no_content" "separated pair_hash S (no_content(?k := l))"
    "separated pair_hash S (no_content(?k := l, ?k' := l'))"
    by (metis insertCI pair_no_content, metis insertCI, metis insertCI pair_content_def)
  show "separated pair_hash S no_content" by (rule sep(1))
  have "distinct_leaves (no_content(?k := l))" by (simp add: distinct_leaves_def) (simp add: no_content_def)
  with sep(2) assms(2) show adm: "admissible pair_hash S no_content key l" unfolding admissible_def by blast
  have "distinct_leaves (no_content(?k := l, ?k' := l'))"
    using assms(4) by (simp add: distinct_leaves_def) (simp add: no_content_def)
  with sep(3) assms(3) show adm': "admissible pair_hash S (no_content(?k := l)) key' l'" unfolding admissible_def by blast
  obtain s where s: "tree_insert pair_hash key l full_tree_new = Ok s" "full_inv pair_hash S s (no_content(?k := l))"
    using tree_insert_at [OF full_inv_new [OF sep(1)] adm] content_total_no_content assms(6) by auto
  have "content_total (no_content(?k := l)) = unat (leaf_sum l)"
    using content_total_upd [of ?k no_content l] content_total_no_content by (simp add: no_content_def)
  with tree_insert_at [OF s(2) adm'] assms(6) s(1)
  show "\<exists>s s'. tree_insert pair_hash key l full_tree_new = Ok s \<and> tree_insert pair_hash key' l' s = Ok s'
       \<and> full_inv pair_hash S s' (no_content(?k := l, ?k' := l'))" by auto
qed

lemma pair_single_leaf:
  fixes l :: LeafNode and key :: bytes
  assumes "length (leaf_value l) \<noteq> 64" "leaf_sum l \<noteq> 0"
  defines "S \<equiv> pair_preimages (key_bits key) l (map Not (key_bits key)) leaf_empty"
  shows "separated pair_hash S no_content" "admissible pair_hash S no_content key l"
    "\<exists>s. tree_insert pair_hash key l full_tree_new = Ok s \<and> branch_sum (tree_root pair_hash s) = leaf_sum l"
proof -
  let ?k = "key_bits key" and ?k' = "map Not (key_bits key)"
  have len: "length ?k = 256" by simp
  have ne: "?k \<noteq> ?k'" using len by (cases ?k) auto
  have l: "l \<noteq> leaf_empty" using assms(2) by auto
  have ok: "pair_ok l leaf_empty" using assms(1,2) by (simp add: pair_ok_def)
  have c: "no_content = pair_content ?k leaf_empty ?k' leaf_empty" "no_content(?k := l) = pair_content ?k l ?k' leaf_empty"
    using ne by (simp_all add: pair_content_def no_content_def fun_eq_iff)
  have "no_content \<in> pair_contents ?k l ?k' leaf_empty" "no_content(?k := l) \<in> pair_contents ?k l ?k' leaf_empty"
    unfolding pair_contents_def c(2) by (subst c(1)) blast+
  from this [THEN pair_separated [OF ok len _ ne, rotated]]
  have sep: "separated pair_hash S no_content" "separated pair_hash S (no_content(?k := l))" by (simp_all add: S_def del: fun_upd_apply)
  show "separated pair_hash S no_content" by (rule sep(1))
  have "distinct_leaves (no_content(?k := l))" by (simp add: distinct_leaves_def) (simp add: no_content_def)
  with sep(2) l show adm: "admissible pair_hash S no_content key l" unfolding admissible_def by blast
  have "content_total no_content + unat (leaf_sum l) < 2 ^ 64"
    using unat_lt2p [of "leaf_sum l"] by (simp add: content_total_no_content del: unat_u64_less)
  from tree_insert_at [OF full_inv_new [OF sep(1)] adm this] obtain s where
    s: "tree_insert pair_hash key l full_tree_new = Ok s" "full_inv pair_hash S s (no_content(?k := l))" by blast
  have "content_total (no_content(?k := l)) = unat (leaf_sum l)"
    using content_total_upd [of ?k no_content l] content_total_no_content by (simp add: no_content_def)
  with tree_root_sum [OF s(2)] s(1) show "\<exists>s. tree_insert pair_hash key l full_tree_new = Ok s
      \<and> branch_sum (tree_root pair_hash s) = leaf_sum l" by (auto simp: word_unat_eq_iff)
qed

end
