(* ===== verification/Send_Accept.thy ===== *)
theory Send_Accept
  imports Send Proof_Properties Pair_Hash
begin

text \<open>
  What the send pipeline (\<^verbatim>\<open>tap-onchain/src/send/\<close>) achieves: the signatures it makes validate, the split tree proves every
  split, and the engine accepts an executed transfer. At the end, a transfer of a whole input, one with change, and what merging
  passive assets does to the change.
\<close>

section \<open>Signing\<close>

lemma sign_inputs_Ok:
  "sign_inputs lib sign tx prevs root idx ws = Ok sigs \<longleftrightarrow> length sigs = length ws
     \<and> (\<forall>i < length ws. sign_input lib sign tx prevs root (idx + i) (ws ! i) = Ok (sigs ! i))"
proof (induction ws arbitrary: idx sigs)
  case (Cons w ws)
  show ?case
  proof (cases sigs)
    case (Cons s ss)
    with Cons.IH [of "Suc idx" ss] show ?thesis by (auto simp: res_simps All_less_Suc2)
  qed (auto simp: res_simps)
qed auto

text \<open>A signer: the signatures it makes have 64 bytes and verify under the key it was asked for.\<close>

definition signer_ok :: "Secp \<Rightarrow> VirtualSigner \<Rightarrow> bool" where
  "signer_ok lib sign \<longleftrightarrow> (\<forall>m k s. sign m k = Ok s \<longrightarrow> length s = 64 \<and> schnorr_verifies lib s m (schnorr_bytes (sk_pub_key k)))"

text \<open>The input set holds the selected inputs, each as the code describes it.\<close>

definition selected_inputs :: "hash_fun \<Rightarrow> SelectedInput list \<Rightarrow> InputSet \<Rightarrow> Genesis \<Rightarrow> bool" where
  "selected_inputs sha inputs prevs g \<longleftrightarrow>
     distinct (map fst prevs) \<and> distinct (map si_prev_id inputs) \<and> fst ` set prevs = si_prev_id ` set inputs
     \<and> (\<forall>i \<in> set inputs. si_amount i \<noteq> 0 \<and> si_prev_id i \<noteq> PREV_ID_ZERO \<and> (\<exists>a. map_of prevs (si_prev_id i) = Some a
          \<and> amount a = si_amount i \<and> prev_script_key (si_prev_id i) = sk_pub_key (script_key a)
          \<and> prev_asset_id (si_prev_id i) = genesis_id sha (genesis a)
          \<and> g_asset_type (genesis a) = g_asset_type g \<and> script_version a = 0))"

lemma signed_input_checked:
  assumes "sign_input (btc lib) sign tx prevs root idx w = Ok sig" "signer_ok lib sign"
    and "w_prev_id w = Some p" "map_of prevs p = Some a" "prev_script_key p = sk_pub_key (script_key a)"
    "prev_asset_id p = genesis_id sha (genesis a)" "g_asset_type (genesis root) = g_asset_type (genesis a)" "script_version a = 0"
  shows "input_checked sha (btc lib) (schnorr_validator lib) (root\<lparr>prev_witnesses := ws\<rparr>) prevs tx idx (w\<lparr>tx_witness := [sig]\<rparr>)"
proof -
  from assms(1,3,4) obtain m where m: "input_key_spend_sighash (btc lib) tx a root (of_nat idx) 0 = Ok m" "sign m (script_key a) = Ok sig"
    by (auto simp: sign_input_def res_simps)
  from assms(2) m(2) have sig: "length sig = 64" "schnorr_verifies lib sig m (schnorr_bytes (sk_pub_key (script_key a)))"
    unfolding signer_ok_def by blast+
  have "x_only_valid (btc lib) (schnorr_bytes (sk_pub_key (script_key a)))"
    using m(1) by (auto simp: input_key_spend_sighash_def input_prev_out_def Let_def res_simps split: if_splits)
  then have "validate_witness (schnorr_validator lib) m (w\<lparr>tx_witness := [sig]\<rparr>) a = Ok ()"
    using sig assms(8) by (simp add: schnorr_validator_def schnorr_validate_witness_def taproot_witness_sig_hash_type_def)
  moreover have "input_key_spend_sighash (btc lib) tx a (root\<lparr>prev_witnesses := ws\<rparr>) (of_nat idx) 0 = Ok m"
    using m(1) by (simp add: input_key_spend_sighash_def)
  ultimately show ?thesis
    using assms(3-8) sig(1) by (simp add: input_checked_def matches_prev_genesis_def is_script_path_witness_def
        witness_sig_hash_type_def taproot_witness_sig_hash_type_def)
qed

lemma is_genesis_witnesses:
  "ws = [] \<or> (\<exists>p. w_prev_id (hd ws) = Some p \<and> p \<noteq> PREV_ID_ZERO) \<Longrightarrow> \<not> is_genesis_asset (a\<lparr>prev_witnesses := ws\<rparr>)"
  by (cases ws) (auto simp: is_genesis_asset_def has_genesis_witness_def has_genesis_witness_for_group_def
      is_genesis_def is_genesis_for_group_def witness_zero_prev_def prev_id_is_zero_def)

text \<open>What signing does to a root asset whose witnesses name the selected inputs.\<close>

lemma sign_transfer_Ok:
  assumes "sign_transfer sha (btc lib) sign prevs pt = Ok pt'" "signer_ok lib sign" "selected_inputs sha inputs prevs g"
    and "prev_witnesses (pt_root_asset pt) = map unsigned_witness inputs" "inputs \<noteq> []"
    and "g_asset_type (genesis (pt_root_asset pt)) = g_asset_type g"
  obtains sigs tx h v where "pt' = pt\<lparr>pt_root_asset := (pt_root_asset pt)\<lparr>prev_witnesses :=
        map2 (\<lambda>i sig. (unsigned_witness i)\<lparr>tx_witness := [sig]\<rparr>) inputs sigs\<rparr>\<rparr>"
    "length sigs = length inputs" "\<not> is_genesis_asset (pt_root_asset pt')"
    "virtual_tx sha (pt_root_asset pt') prevs = Ok (tx, h, v)"
    "\<And>i. i < length inputs \<Longrightarrow> input_checked sha (btc lib) (schnorr_validator lib) (pt_root_asset pt') prevs tx i
       (prev_witnesses (pt_root_asset pt') ! i)"
proof -
  let ?root = "pt_root_asset pt"
  from assms(1) obtain tx h v sigs where tx: "virtual_tx sha ?root prevs = Ok (tx, h, v)"
    and sigs: "sign_inputs (btc lib) sign tx prevs ?root 0 (prev_witnesses ?root) = Ok sigs"
    and pt': "pt' = pt\<lparr>pt_root_asset := ?root\<lparr>prev_witnesses := map2 (\<lambda>w sig. w\<lparr>tx_witness := [sig]\<rparr>) (prev_witnesses ?root) sigs\<rparr>\<rparr>"
    by (auto simp: sign_transfer_def res_simps)
  define ws where "ws = map2 (\<lambda>i sig. (unsigned_witness i)\<lparr>tx_witness := [sig]\<rparr>) inputs sigs"
  have ws: "map2 (\<lambda>w sig. w\<lparr>tx_witness := [sig]\<rparr>) (prev_witnesses ?root) sigs = ws"
    by (simp add: ws_def assms(4) zip_map1 comp_def split_def)
  have len: "length sigs = length inputs" using sigs assms(4) by (simp add: sign_inputs_Ok)
  have root': "pt_root_asset pt' = ?root\<lparr>prev_witnesses := ws\<rparr>" by (simp add: pt' ws)
  obtain i0 rest where inputs: "inputs = i0 # rest" using assms(5) by (cases inputs) auto
  obtain s0 ss where "sigs = s0 # ss" using len inputs by (cases sigs) auto
  then have ne: "w_prev_id (hd ws) = Some (si_prev_id i0)" by (simp add: ws_def inputs unsigned_witness_def)
  have i0: "si_prev_id i0 \<noteq> PREV_ID_ZERO" using assms(3) inputs by (simp add: selected_inputs_def)
  have gen: "\<not> is_genesis_asset (?root\<lparr>prev_witnesses := ws\<rparr>)" using ne i0 by (intro is_genesis_witnesses) blast
  have gen0: "\<not> is_genesis_asset (?root\<lparr>prev_witnesses := prev_witnesses ?root\<rparr>)"
    using i0 by (intro is_genesis_witnesses) (simp add: assms(4) inputs unsigned_witness_def)
  have "map (\<lambda>w. w\<lparr>tx_witness := []\<rparr>) ws = map (\<lambda>w. w\<lparr>tx_witness := []\<rparr>) (prev_witnesses ?root)"
    using len by (simp add: ws_def assms(4) unsigned_witness_def list_eq_iff_nth_eq)
  from virtual_tx_stacks [OF this gen gen0] tx have tx': "virtual_tx sha (pt_root_asset pt') prevs = Ok (tx, h, v)"
    by (simp add: root')
  have "input_checked sha (btc lib) (schnorr_validator lib) (pt_root_asset pt') prevs tx i (prev_witnesses (pt_root_asset pt') ! i)"
    if i: "i < length inputs" for i
  proof -
    from assms(3) i obtain a where a: "map_of prevs (si_prev_id (inputs ! i)) = Some a"
      "prev_script_key (si_prev_id (inputs ! i)) = sk_pub_key (script_key a)"
      "prev_asset_id (si_prev_id (inputs ! i)) = genesis_id sha (genesis a)"
      "g_asset_type (genesis a) = g_asset_type g" "script_version a = 0"
      unfolding selected_inputs_def by (meson nth_mem)
    have "sign_input (btc lib) sign tx prevs ?root i (unsigned_witness (inputs ! i)) = Ok (sigs ! i)"
      using sigs i by (simp add: sign_inputs_Ok assms(4))
    from signed_input_checked [OF this assms(2) _ a(1-3) _ a(5), of ws] a(4) assms(6) i len
    show ?thesis by (simp add: root' ws_def unsigned_witness_def)
  qed
  with pt' ws len gen tx' root' show ?thesis by (intro that [of sigs]) (simp_all add: ws_def)
qed

section \<open>The split tree\<close>

text \<open>The entries of the split tree: the template of the root under output index 0, then the splits.\<close>

definition split_entries :: "Asset \<Rightarrow> SplitAsset list \<Rightarrow> SplitAsset list" where
  "split_entries root splits = \<lparr>sa_asset = root_spend_template root, sa_output_index = 0\<rparr> # splits"

definition split_ops :: "hash_fun \<Rightarrow> AssetId \<Rightarrow> SplitAsset list \<Rightarrow> tree_op list" where
  "split_ops sha aid = map (\<lambda>s. OpInsert (locator_hash sha (locator_of aid s)) (leaf_or_none sha (sa_asset s)))"

text \<open>No collision among the preimages of the split tree, and different locators for different outputs.\<close>

definition splits_separated :: "hash_fun \<Rightarrow> bytes set \<Rightarrow> AssetId \<Rightarrow> SplitAsset list \<Rightarrow> bool" where
  "splits_separated sha S aid entries \<longleftrightarrow> separated sha S no_content
     \<and> steps_admissible (admissible sha S) (split_ops sha aid entries) no_content
     \<and> distinct (map (\<lambda>s. locator_hash sha (locator_of aid s)) entries)"

lemma insert_splits_ops:
  assumes "\<forall>s \<in> set splits. leaf_of (sa_asset s) = sa_asset s"
  shows "insert_splits sha aid leaf_of splits tree = Ok tree' \<Longrightarrow>
    run_ops (tree_insert sha) (tree_delete sha) (split_ops sha aid splits) tree = Ok tree'
    \<and> (\<forall>s \<in> set splits. \<exists>l. asset_leaf sha (sa_asset s) = Ok l)"
  using assms
proof (induction splits arbitrary: tree)
  case (Cons s splits)
  then obtain l mid where "asset_leaf sha (sa_asset s) = Ok l" "tree_insert sha (locator_hash sha (locator_of aid s)) l tree = Ok mid"
    "insert_splits sha aid leaf_of splits mid = Ok tree'" by (auto simp: res_simps)
  with Cons.IH [of mid] Cons.prems(2) show ?case by (simp add: split_ops_def)
qed (simp add: split_ops_def)

lemma asset_leaf_sum: "asset_leaf sha a = Ok l \<Longrightarrow> leaf_sum l = amount a"
  by (auto simp: asset_leaf_def res_simps dest: asset_to_leaf_sum)

lemma split_tree_Ok:
  assumes "split_tree sha aid leaf_of root splits = Ok tree" "\<forall>s \<in> set splits. leaf_of (sa_asset s) = sa_asset s"
    and "splits_separated sha S aid (split_entries root splits)"
  shows "unat (branch_sum (tree_root sha tree)) = unat (amount root) + (\<Sum>s \<leftarrow> splits. unat (amount (sa_asset s)))"
    "s \<in> set splits \<Longrightarrow> \<exists>l p. asset_leaf sha (sa_asset s) = Ok l
      \<and> tree_merkle_proof sha (locator_hash sha (locator_of aid s)) tree = Ok p
      \<and> verify_merkle_proof sha (locator_hash sha (locator_of aid s)) l p
          (computed (branch_hash sha (tree_root sha tree)) (branch_sum (tree_root sha tree)))"
proof -
  let ?es = "split_entries root splits" and ?key = "\<lambda>s. locator_hash sha (locator_of aid s)"
  let ?lf = "\<lambda>s. leaf_or_none sha (sa_asset s)"
  have sepn: "separated sha S no_content" and adm: "steps_admissible (admissible sha S) (split_ops sha aid ?es) no_content"
    and dist: "distinct (map ?key ?es)" using assms(3) by (auto simp: splits_separated_def)
  have sha: "sha_32 sha" using sepn by (rule separated_sha_32)
  have loc: "root_locator aid root = locator_of aid \<lparr>sa_asset = root_spend_template root, sa_output_index = 0\<rparr>"
    by (simp add: root_locator_def locator_of_def root_spend_template_def)
  from assms(1) obtain l0 mid where l0: "asset_leaf sha (root_spend_template root) = Ok l0"
    "tree_insert sha (locator_hash sha (root_locator aid root)) l0 full_tree_new = Ok mid"
    and rest: "insert_splits sha aid leaf_of splits mid = Ok tree" by (auto simp: split_tree_def res_simps)
  note ins = insert_splits_ops [OF assms(2) rest]
  have leaves: "\<forall>s \<in> set ?es. \<exists>l. asset_leaf sha (sa_asset s) = Ok l" using ins l0(1) by (simp add: split_entries_def)
  have run: "run_ops (tree_insert sha) (tree_delete sha) (split_ops sha aid ?es) full_tree_new = Ok tree"
    using ins l0 by (simp add: split_entries_def split_ops_def loc)
  define f where "f = apply_ops (split_ops sha aid ?es) no_content"
  have inv: "full_inv sha S tree f" unfolding f_def by (rule full.run_ops_success [OF full_inv_new [OF sepn] adm run])
  have len: "length (?key s) = 32" for s using sha by (simp add: locator_hash_def)
  have "inj_on (\<lambda>s. key_bits (?key s)) (set ?es)"
  proof (rule inj_onI)
    fix s u assume "s \<in> set ?es" "u \<in> set ?es" "key_bits (?key s) = key_bits (?key u)"
    moreover from this(3) have "?key s = ?key u" by (intro key_bits_inject) (simp_all add: len)
    ultimately show "s = u" using dist by (simp add: distinct_map inj_on_def)
  qed
  from insert_all_content [OF this subset_refl, of ?key ?lf] have content: "\<forall>s \<in> set ?es. f (key_bits (?key s)) = ?lf s"
    "content_total f = (\<Sum>s \<in> set ?es. unat (leaf_sum (?lf s)))" by (simp_all add: f_def split_ops_def len)
  have "(\<Sum>s \<in> set ?es. unat (leaf_sum (?lf s))) = (\<Sum>s \<in> set ?es. unat (amount (sa_asset s)))"
    using leaves asset_leaf_sum by (intro sum.cong) fastforce+
  also have "\<dots> = (\<Sum>s \<leftarrow> ?es. unat (amount (sa_asset s)))"
    using dist by (simp add: sum_list_distinct_conv_sum_set distinct_map)
  finally show "unat (branch_sum (tree_root sha tree)) = unat (amount root) + (\<Sum>s \<leftarrow> splits. unat (amount (sa_asset s)))"
    using tree_root_sum [OF inv] content(2) by (simp add: split_entries_def root_spend_template_def)
  show "\<exists>l p. asset_leaf sha (sa_asset s) = Ok l \<and> tree_merkle_proof sha (?key s) tree = Ok p
      \<and> verify_merkle_proof sha (?key s) l p (computed (branch_hash sha (tree_root sha tree)) (branch_sum (tree_root sha tree)))"
    if s: "s \<in> set splits"
  proof -
    obtain l where l: "asset_leaf sha (sa_asset s) = Ok l" using ins s by blast
    have "f (key_bits (?key s)) = l" using content(1) s l by (simp add: split_entries_def)
    with full.prove_law [OF inv, of "?key s"] obtain p where "tree_merkle_proof sha (?key s) tree = Ok p"
      "verify_merkle_proof sha (?key s) l p (Branch (fst (tree_root sha tree)) (snd (tree_root sha tree)))" by blast
    with l show ?thesis
      by (auto simp: verify_merkle_proof_def is_equal_node_def branch_hash_def branch_sum_def split_def)
  qed
qed

section \<open>Preparation\<close>

lemma unat_sum_list:
  fixes f :: "'a \<Rightarrow> u64"
  shows "(\<Sum>x \<leftarrow> xs. unat (f x)) < 2 ^ 64 \<Longrightarrow> unat (sum_list (map f xs)) = (\<Sum>x \<leftarrow> xs. unat (f x))"
proof (induction xs)
  case (Cons x xs)
  then have "unat (sum_list (map f xs)) = (\<Sum>x \<leftarrow> xs. unat (f x))" "unat (f x) + (\<Sum>x \<leftarrow> xs. unat (f x)) < 2 ^ 64" by simp_all
  then show ?case by (simp add: unat_word_ariths)
qed simp

text \<open>What the preparation hands to the signer.\<close>

definition prepared ::
  "hash_fun \<Rightarrow> SelectedInput list \<Rightarrow> TransferOutput list \<Rightarrow> Genesis \<Rightarrow> PreparedTransfer \<Rightarrow> bool" where
  "prepared sha inputs outputs g pt \<longleftrightarrow>
     inputs \<noteq> [] \<and> output_total outputs \<le> input_total inputs
     \<and> prev_witnesses (pt_root_asset pt) = map unsigned_witness inputs \<and> genesis (pt_root_asset pt) = g
     \<and> group_key (pt_root_asset pt) = None \<and> a_lock_time (pt_root_asset pt) = 0 \<and> relative_lock_time (pt_root_asset pt) = 0
     \<and> amount (pt_root_asset pt) = (if is_split pt then input_total inputs - output_total outputs else output_total outputs)
     \<and> (if is_split pt
        then recipient_assets pt = map (split_of g) outputs
          \<and> (amount (pt_root_asset pt) = 0 \<longrightarrow> is_nums (script_key (pt_root_asset pt)))
          \<and> (\<exists>tree. split_tree sha (genesis_id sha g) (\<lambda>a. a) (pt_root_asset pt) (recipient_assets pt) = Ok tree
               \<and> split_commitment_root (pt_root_asset pt) = Some (branch_hash sha (tree_root sha tree), branch_sum (tree_root sha tree)))
        else split_commitment_root (pt_root_asset pt) = None \<and> recipient_assets pt = []
          \<and> output_total outputs = input_total inputs
          \<and> (\<exists>out. outputs = [out] \<and> script_key (pt_root_asset pt) = to_script_key out \<and> amount (pt_root_asset pt) = to_amount out))"

lemma root_template_fields [simp]:
  "root_spend_template (a\<lparr>split_commitment_root := r\<rparr>) = root_spend_template a"
  "root_spend_template (a\<lparr>prev_witnesses := ws\<rparr>) = root_spend_template a"
  by (simp_all add: root_spend_template_def)

lemma split_tree_fields [simp]:
  "split_tree sha aid f (a\<lparr>split_commitment_root := r\<rparr>) splits = split_tree sha aid f a splits"
  "split_tree sha aid f (a\<lparr>prev_witnesses := ws\<rparr>) splits = split_tree sha aid f a splits"
  by (simp_all add: split_tree_def root_locator_def)

lemma prepare_outputs_prepared:
  assumes "prepare_outputs_inner sha inputs outputs g ver force_split = Ok pt"
  shows "prepared sha inputs outputs g pt"
proof -
  have ne: "inputs \<noteq> []" "outputs \<noteq> []" "output_total outputs \<le> input_total inputs"
    using assms by (auto simp: prepare_outputs_inner_def Let_def not_less split: if_splits)
  show ?thesis
  proof (cases "0 < input_total inputs - output_total outputs \<or> 1 < length outputs \<or> force_split")
    case True
    with assms ne have "prepare_split_outputs sha inputs outputs g (input_total inputs - output_total outputs) ver = Ok pt"
      by (auto simp: prepare_outputs_inner_def Let_def split: if_splits)
    moreover define root where "root = transfer_asset AssetV0 g (input_total inputs - output_total outputs) (map unsigned_witness inputs)
      (if input_total inputs - output_total outputs = 0 then script_key_from_pub_key NUMS_KEY else si_script_key (inputs ! 0))"
    ultimately obtain tree tc tcs where tree: "split_tree sha (genesis_id sha g) (\<lambda>a. a) root (map (split_of g) outputs) = Ok tree"
      and pt: "pt = \<lparr>pt_root_asset = root\<lparr>split_commitment_root := Some (branch_hash sha (tree_root sha tree), branch_sum (tree_root sha tree))\<rparr>,
        recipient_assets = map (split_of g) outputs, change_commitment = tc, output_commitments = tcs, is_split = True, passive_assets = []\<rparr>"
      unfolding prepare_split_outputs_def Let_def res_simps by blast
    have "prev_witnesses root = map unsigned_witness inputs" "genesis root = g" "group_key root = None" "a_lock_time root = 0"
      "relative_lock_time root = 0" "amount root = input_total inputs - output_total outputs" "amount root = 0 \<longrightarrow> is_nums (script_key root)"
      by (simp_all add: root_def transfer_asset_def is_nums_def script_key_from_pub_key_def)
    with ne tree show ?thesis by (simp add: prepared_def pt)
  next
    case False
    with ne obtain out where out: "outputs = [out]" by (cases outputs; cases "tl outputs") auto
    from False ne(3) have "output_total outputs = input_total inputs"
      by (simp add: word_neq_0_conv [symmetric] del: word_neq_0_conv)
    moreover from False assms ne have "prepare_full_send sha inputs outputs g ver = Ok pt"
      by (auto simp: prepare_outputs_inner_def Let_def split: if_splits)
    ultimately show ?thesis using ne out
      by (auto simp: prepare_full_send_def prepared_def Let_def res_simps transfer_asset_def output_total_def)
  qed
qed

section \<open>Acceptance of executed transfers\<close>

lemma populate_split_proofs_Ok:
  assumes "populate_split_proofs sha pt = Ok pt'" "is_split pt" "genesis (pt_root_asset pt) = g"
    and "split_tree sha (genesis_id sha g) drop_split_witness (pt_root_asset pt) (recipient_assets pt) = Ok tree"
  shows "\<exists>splits. pt' = pt\<lparr>recipient_assets := splits\<rparr>
    \<and> list_all2 (\<lambda>s s'. \<exists>p. tree_merkle_proof sha (locator_hash sha (locator_of (genesis_id sha g) s)) tree = Ok p
        \<and> s' = s\<lparr>sa_asset := set_split_witness \<lparr>sc_proof = p, sc_root_asset = encode_asset sha (pt_root_asset pt) EncodeNormal\<rparr>
            (sa_asset s)\<rparr>) (recipient_assets pt) splits"
proof -
  from assms obtain splits where "map_res (populate_split sha tree (genesis_id sha g)
      (encode_asset sha (pt_root_asset pt) EncodeNormal)) (recipient_assets pt) = Ok splits" "pt' = pt\<lparr>recipient_assets := splits\<rparr>"
    by (auto simp: populate_split_proofs_def Let_def res_simps split: option.splits if_splits)
  then show ?thesis by (auto simp: map_res_Ok populate_split_def res_simps elim!: list_all2_mono)
qed

lemma populate_if [simp]: "(if is_split pt then populate_split_proofs sha pt else Ok pt) = populate_split_proofs sha pt"
  by (simp add: populate_split_proofs_def)

lemma populate_root:
  assumes "populate_split_proofs sha pt = Ok pt'"
  shows "pt_root_asset pt' = pt_root_asset pt"
proof (cases "split_commitment_root (pt_root_asset pt)")
  case (Some hs)
  with assms show ?thesis by (cases hs) (auto simp: populate_split_proofs_def Let_def res_simps split: if_splits)
qed (use assms in \<open>auto simp: populate_split_proofs_def Let_def res_simps split: if_splits\<close>)

lemma populate_recipients:
  assumes "populate_split_proofs sha pt = Ok pt'"
  shows "is_split pt' = is_split pt" "map (\<lambda>s. (sa_output_index s, amount (sa_asset s), script_key (sa_asset s), group_key (sa_asset s))) (recipient_assets pt')
    = map (\<lambda>s. (sa_output_index s, amount (sa_asset s), script_key (sa_asset s), group_key (sa_asset s))) (recipient_assets pt)"
proof -
  have set: "amount (set_split_witness sc a) = amount a" "script_key (set_split_witness sc a) = script_key a"
    "group_key (set_split_witness sc a) = group_key a" for sc a
    by (cases "prev_witnesses a"; simp add: set_split_witness_def)+
  have "map_res (populate_split sha tree aid bs) xs = Ok ys \<Longrightarrow>
      map (\<lambda>s. (sa_output_index s, amount (sa_asset s), script_key (sa_asset s), group_key (sa_asset s))) ys
      = map (\<lambda>s. (sa_output_index s, amount (sa_asset s), script_key (sa_asset s), group_key (sa_asset s))) xs" for tree aid bs xs ys
    by (induction xs arbitrary: ys) (auto simp: res_simps populate_split_def set)
  moreover have "pt' = pt \<or> (\<exists>tree aid bs splits. map_res (populate_split sha tree aid bs) (recipient_assets pt) = Ok splits
      \<and> pt' = pt\<lparr>recipient_assets := splits\<rparr>)"
  proof (cases "split_commitment_root (pt_root_asset pt)")
    case (Some hs)
    with assms show ?thesis by (cases hs) (auto simp: populate_split_proofs_def Let_def res_simps split: if_splits)
  qed (use assms in \<open>auto simp: populate_split_proofs_def Let_def res_simps split: if_splits\<close>)
  ultimately show "is_split pt' = is_split pt" "map (\<lambda>s. (sa_output_index s, amount (sa_asset s), script_key (sa_asset s), group_key (sa_asset s))) (recipient_assets pt')
    = map (\<lambda>s. (sa_output_index s, amount (sa_asset s), script_key (sa_asset s), group_key (sa_asset s))) (recipient_assets pt)" by auto
qed

lemma split_tree_cong:
  assumes "\<forall>s \<in> set splits. f (sa_asset s) = f' (sa_asset s)"
  shows "split_tree sha aid f root splits = split_tree sha aid f' root splits"
proof -
  have "insert_splits sha aid f splits tree = insert_splits sha aid f' splits tree" for tree
    using assms by (induction splits arbitrary: tree) (auto intro!: res_bind_cong)
  then have "insert_splits sha aid f splits = insert_splits sha aid f' splits" by blast
  then show ?thesis by (simp add: split_tree_def)
qed

lemma split_of_simps [simp]:
  "drop_split_witness (sa_asset (split_of g out)) = sa_asset (split_of g out)"
  "genesis (sa_asset (split_of g out)) = g" "amount (sa_asset (split_of g out)) = to_amount out"
  by (simp_all add: drop_split_witness_def split_of_def transfer_asset_def)

lemma populated_split_accepted:
  assumes "s = split_of g out" "s' = s\<lparr>sa_asset := set_split_witness sc (sa_asset s)\<rparr>" "asset_leaf sha (sa_asset s) = Ok l"
    and "verify_merkle_proof sha (locator_hash sha (locator_of (genesis_id sha g) s)) l (sc_proof sc) (computed h v)"
    and "genesis root = g" "split_commitment_root root = Some (h, v)" "primary_prev_id root = Some p" "map_of prevs p = Some a"
    and "prev_script_key p = sk_pub_key (script_key a)" "prev_asset_id p = genesis_id sha (genesis a)"
    "g_asset_type (genesis a) = g_asset_type g" "amount root = 0 \<longrightarrow> is_nums (script_key root)" "to_amount out \<noteq> 0"
    and "a_lock_time root = 0" "relative_lock_time root = 0"
  shows "validate_split sha root prevs s' = Ok ()"
proof -
  have leaf: "asset_to_leaf sha (sa_asset s) = Ok l" using assms(3) by (auto simp: asset_leaf_def res_simps)
  have s': "split_leaf_asset root (sa_asset s') = sa_asset s" "split_locator sha s' = locator_of (genesis_id sha g) s"
    "genesis (sa_asset s') = g" "has_split_commitment_witness (sa_asset s')" "amount (sa_asset s') = to_amount out"
    "split_commitment (prev_witnesses (sa_asset s') ! 0) = Some sc" "group_key (sa_asset s') = None"
    using assms(1,2,14,15)
    by (simp_all add: split_leaf_asset_def split_locator_def locator_of_def split_of_def transfer_asset_def set_split_witness_def
        has_split_commitment_witness_def is_split_commitment_def witness_zero_prev_def prev_id_is_zero_def)
  have "matches_asset_params sha (sa_asset s') a p = Ok ()"
    using assms(9-11) s'(3) by (simp add: matches_asset_params_Ok matches_prev_genesis_def)
  with assms leaf s' show ?thesis
    by (auto simp: validate_split_def is_unspendable_def)
qed

lemma rebuild_fields:
  assumes "rebuild_root_commitment_with_options sha lib no_stxo pt = Ok pt'"
  shows "pt_root_asset pt' = pt_root_asset pt" "recipient_assets pt' = recipient_assets pt" "is_split pt' = is_split pt"
proof -
  have "\<exists>tc tcs. pt' = pt\<lparr>change_commitment := tc\<rparr> \<or> pt' = pt\<lparr>output_commitments := tcs, change_commitment := tc\<rparr>"
    using assms unfolding rebuild_root_commitment_with_options_def Let_def res_simps
    by (elim exE conjE) (auto simp: res_simps split: if_splits)
  then show "pt_root_asset pt' = pt_root_asset pt" "recipient_assets pt' = recipient_assets pt" "is_split pt' = is_split pt" by auto
qed

lemma selected_sum:
  assumes "selected_inputs sha inputs prevs g"
  shows "(\<Sum>(p, a) \<leftarrow> prevs. unat (amount a)) = (\<Sum>i \<leftarrow> inputs. unat (si_amount i))"
proof -
  note sel = assms [unfolded selected_inputs_def]
  have "(\<Sum>(p, a) \<leftarrow> prevs. unat (amount a)) = (\<Sum>x \<in> set prevs. unat (amount (snd x)))"
    using sel by (simp add: sum_list_distinct_conv_sum_set distinct_map split_def)
  also have "\<dots> = (\<Sum>p \<in> fst ` set prevs. unat (amount (the (map_of prevs p))))"
    using sel by (subst sum.reindex) (auto simp: distinct_map intro!: sum.cong)
  also have "\<dots> = (\<Sum>i \<in> set inputs. unat (amount (the (map_of prevs (si_prev_id i)))))"
    using sel by (simp add: sum.reindex distinct_map)
  also have "\<dots> = (\<Sum>i \<in> set inputs. unat (si_amount i))" using sel by (intro sum.cong) force+
  also have "\<dots> = (\<Sum>i \<leftarrow> inputs. unat (si_amount i))" using sel by (simp add: sum_list_distinct_conv_sum_set distinct_map)
  finally show ?thesis .
qed

lemma single_collectible:
  assumes "validate_allocations inputs outputs Collectible = Ok ()" "\<forall>i \<in> set inputs. si_amount i \<noteq> 0"
    and "(\<Sum>i \<leftarrow> inputs. unat (si_amount i)) < 2 ^ 64"
  shows "length inputs = 1"
proof -
  have "input_total inputs = 1" using assms(1) by (auto simp: validate_allocations_def Let_def split: if_splits)
  then have "(\<Sum>i \<leftarrow> inputs. unat (si_amount i)) = 1"
    using unat_sum_list [of si_amount inputs] assms(3) by (simp add: input_total_def)
  moreover have "\<forall>i \<in> set inputs. 1 \<le> unat (si_amount i)" using assms(2) by (simp add: Suc_leI unat_gt_0)
  then have "length inputs \<le> (\<Sum>i \<leftarrow> inputs. unat (si_amount i))" by (induction inputs) auto
  ultimately show ?thesis by (cases inputs) auto
qed

text \<open>The engine accepts the signed root of a prepared transfer, with its populated splits.\<close>

lemma signed_transfer_accepted:
  assumes prep: "prepared sha inputs outputs g pt" and sign: "sign_transfer sha (btc lib) sign prevs pt = Ok pt1"
    and pop: "populate_split_proofs sha pt1 = Ok pt2"
    and alloc: "validate_allocations inputs outputs (g_asset_type g) = Ok ()"
    and sel: "selected_inputs sha inputs prevs g" and signer: "signer_ok lib sign"
    and fits: "(\<Sum>i \<leftarrow> inputs. unat (si_amount i)) < 2 ^ 64" "(\<Sum>out \<leftarrow> outputs. unat (to_amount out)) < 2 ^ 64"
    and sep: "inputs_separated sha S (pt_root_asset pt2) prevs"
    and splits: "is_split pt \<longrightarrow> splits_separated sha S' (genesis_id sha g) (split_entries (pt_root_asset pt) (recipient_assets pt))"
  shows "vm_execute sha (btc lib) (schnorr_validator lib) (pt_root_asset pt2) (recipient_assets pt2) prevs = Ok ()"
proof -
  note P = prep [unfolded prepared_def]
  let ?root = "pt_root_asset pt"
  obtain sigs tx h v where pt1: "pt1 = pt\<lparr>pt_root_asset := ?root\<lparr>prev_witnesses :=
        map2 (\<lambda>i sig. (unsigned_witness i)\<lparr>tx_witness := [sig]\<rparr>) inputs sigs\<rparr>\<rparr>" and len: "length sigs = length inputs"
    and gen: "\<not> is_genesis_asset (pt_root_asset pt1)" and tx: "virtual_tx sha (pt_root_asset pt1) prevs = Ok (tx, h, v)"
    and checked: "\<And>i. i < length inputs \<Longrightarrow> input_checked sha (btc lib) (schnorr_validator lib) (pt_root_asset pt1) prevs tx i
       (prev_witnesses (pt_root_asset pt1) ! i)"
    by (rule sign_transfer_Ok [OF sign signer sel]) (use P in auto)
  define root where "root = pt_root_asset pt1"
  have root: "genesis root = g" "split_commitment_root root = split_commitment_root ?root" "amount root = amount ?root"
    "script_key root = script_key ?root" "a_lock_time root = 0" "relative_lock_time root = 0" "length (prev_witnesses root) = length inputs"
    using P len by (simp_all add: root_def pt1)
  have root2: "pt_root_asset pt2 = root"
    using populate_root [OF pop] by (simp add: root_def)
  from tx obtain txin where tin: "virtual_tx_in sha root prevs = Ok (txin, h, v)" and out: "virtual_tx_out sha root = Ok (vtx_output tx)"
    unfolding virtual_tx_transfer [OF gen] root_def by blast
  have v: "unat v = (\<Sum>i \<leftarrow> inputs. unat (si_amount i))"
    using input_root_sum [OF sep [unfolded root2] _ tin] sel selected_sum [OF sel] by (simp add: selected_inputs_def)
  then have v': "v = input_total inputs" using unat_sum_list [OF fits(1)] by (simp add: input_total_def word_unat_eq_iff)
  have outs: "unat (output_total outputs) = (\<Sum>out \<leftarrow> outputs. unat (to_amount out))"
    using unat_sum_list [OF fits(2)] by (simp add: output_total_def)
  have "out_value (vtx_output tx) = v \<and> (\<forall>s \<in> set (recipient_assets pt2). validate_split sha root prevs s = Ok ())"
  proof (cases "is_split pt")
    case False
    then have "pt2 = pt1" "out_value (vtx_output tx) = amount root"
      using pop P virtual_tx_out_value [OF out] root by (simp_all add: pt1 populate_split_proofs_def)
    with False P root v' show ?thesis by (simp add: pt1)
  next
    case True
    with P obtain tree where tree: "split_tree sha (genesis_id sha g) (\<lambda>a. a) ?root (recipient_assets pt) = Ok tree"
      and scr: "split_commitment_root root = Some (branch_hash sha (tree_root sha tree), branch_sum (tree_root sha tree))"
      and rec: "recipient_assets pt = map (split_of g) outputs" by (auto simp: root)
    note st = split_tree_Ok [OF tree _ splits [rule_format, OF True]]
    have "unat (branch_sum (tree_root sha tree)) = unat (input_total inputs - output_total outputs)
        + (\<Sum>out \<leftarrow> outputs. unat (to_amount out))"
      using st(1) P True rec by (simp add: comp_def)
    also have "\<dots> = unat (input_total inputs)"
    proof -
      have "output_total outputs \<le> input_total inputs" using P by simp
      then show ?thesis using outs unat_sub [of "output_total outputs" "input_total inputs"] by (simp add: word_le_nat_alt)
    qed
    finally have "out_value (vtx_output tx) = v"
      using virtual_tx_out_value [OF out] scr v' by (simp add: word_unat_eq_iff)
    moreover have "validate_split sha root prevs s' = Ok ()" if s': "s' \<in> set (recipient_assets pt2)" for s'
    proof -
      have "split_tree sha (genesis_id sha g) drop_split_witness (pt_root_asset pt1) (recipient_assets pt1) = Ok tree"
        using tree split_tree_cong [of "recipient_assets pt" drop_split_witness "\<lambda>a. a"] rec by (simp add: pt1)
      from populate_split_proofs_Ok [OF _ _ _ this, of pt2] pop True P obtain splits2 where "recipient_assets pt2 = splits2"
        "list_all2 (\<lambda>s s'. \<exists>p. tree_merkle_proof sha (locator_hash sha (locator_of (genesis_id sha g) s)) tree = Ok p
          \<and> s' = s\<lparr>sa_asset := set_split_witness \<lparr>sc_proof = p, sc_root_asset = encode_asset sha (pt_root_asset pt1) EncodeNormal\<rparr>
            (sa_asset s)\<rparr>) (recipient_assets pt) splits2"
        by (auto simp: pt1)
      with s' obtain s p where s: "s \<in> set (recipient_assets pt)"
        "tree_merkle_proof sha (locator_hash sha (locator_of (genesis_id sha g) s)) tree = Ok p"
        "s' = s\<lparr>sa_asset := set_split_witness \<lparr>sc_proof = p, sc_root_asset = encode_asset sha (pt_root_asset pt1) EncodeNormal\<rparr> (sa_asset s)\<rparr>"
        by (auto dest: list_all2_right)
      from s(1) rec obtain out where o: "s = split_of g out" "out \<in> set outputs" by auto
      have "to_amount out \<noteq> 0" using alloc o(2) by (auto simp: validate_allocations_def Let_def split: if_splits)
      from st(2) [OF _ s(1)] s(2) obtain l where l: "asset_leaf sha (sa_asset s) = Ok l"
        "verify_merkle_proof sha (locator_hash sha (locator_of (genesis_id sha g) s)) l p
          (computed (branch_hash sha (tree_root sha tree)) (branch_sum (tree_root sha tree)))" by auto
      obtain i0 rest where i0: "inputs = i0 # rest" using P by (cases inputs) auto
      have pp: "primary_prev_id root = Some (si_prev_id i0)"
        using len by (cases sigs) (auto simp: primary_prev_id_def root_def pt1 i0 unsigned_witness_def)
      obtain a where a: "map_of prevs (si_prev_id i0) = Some a" "prev_script_key (si_prev_id i0) = sk_pub_key (script_key a)"
        "prev_asset_id (si_prev_id i0) = genesis_id sha (genesis a)" "g_asset_type (genesis a) = g_asset_type g"
        using sel i0 by (auto simp: selected_inputs_def)
      show ?thesis
        by (rule populated_split_accepted [OF o(1) s(3) l(1) _ root(1) scr pp a])
          (use l(2) P True root \<open>to_amount out \<noteq> 0\<close> in simp_all)
    qed
    ultimately show ?thesis by blast
  qed
  moreover have "g_asset_type (genesis root) = Collectible \<longrightarrow> length (prev_witnesses root) = 1"
    using single_collectible [of inputs outputs] alloc sel fits(1) root by (auto simp: selected_inputs_def)
  ultimately show ?thesis
    unfolding root2 using gen tx checked root P
    by (auto simp: execute_transfer_Ok state_transition_Ok root_def [symmetric])
qed

text \<open>The stages of an execution: the preparation, the signed root, the recipients with their proofs.\<close>

lemma executed_stages:
  assumes "execute_transfer_with_options sha lib inputs outputs g prevs sign internal_keys opts = Ok r"
  obtains pt ws pt2 where "prepared sha inputs outputs g pt"
    "sign_transfer sha (btc lib) sign prevs pt = Ok (pt\<lparr>pt_root_asset := (pt_root_asset pt)\<lparr>prev_witnesses := ws\<rparr>\<rparr>)"
    "populate_split_proofs sha (pt\<lparr>pt_root_asset := (pt_root_asset pt)\<lparr>prev_witnesses := ws\<rparr>\<rparr>) = Ok pt2"
    "pt_root_asset (tr_prepared r) = (pt_root_asset pt)\<lparr>prev_witnesses := ws\<rparr>" "pt_root_asset pt2 = (pt_root_asset pt)\<lparr>prev_witnesses := ws\<rparr>"
    "recipient_assets (tr_prepared r) = recipient_assets pt2" "is_split (tr_prepared r) = is_split pt"
proof -
  from assms obtain pt0 pt1 pt2 where
    pt: "prepare_outputs_inner sha inputs outputs g (opt_commitment_version opts) (opt_passive_assets opts \<noteq> []) = Ok pt0"
    and sign: "sign_transfer sha (btc lib) sign prevs (pt0\<lparr>passive_assets := opt_passive_assets opts\<rparr>) = Ok pt1"
    and pop: "populate_split_proofs sha pt1 = Ok pt2"
    and reb: "rebuild_root_commitment_with_options sha lib (opt_no_stxo_proofs opts) pt2 = Ok (tr_prepared r)"
    unfolding execute_transfer_with_options_def prepare_outputs_forced_def Let_def by (auto simp: res_simps split: if_splits)
  define pt where "pt = pt0\<lparr>passive_assets := opt_passive_assets opts\<rparr>"
  have prep: "prepared sha inputs outputs g pt"
    using prepare_outputs_prepared [OF pt] by (auto simp: prepared_def pt_def split: if_splits)
  from sign obtain ws where pt1: "pt1 = pt\<lparr>pt_root_asset := (pt_root_asset pt)\<lparr>prev_witnesses := ws\<rparr>\<rparr>"
    by (auto simp: sign_transfer_def res_simps pt_def)
  note reb' = rebuild_fields [OF reb] and pop' = populate_recipients(1) [OF pop] populate_root [OF pop]
  show ?thesis
    by (rule that [OF prep, of ws pt2]) (use sign pop reb' pop' in \<open>simp_all add: pt1 pt_def\<close>)
qed

lemma executed_vm:
  assumes "execute_transfer_with_options sha lib inputs outputs g prevs sign internal_keys opts = Ok r"
    and "validate_allocations inputs outputs (g_asset_type g) = Ok ()"
    and "selected_inputs sha inputs prevs g" "signer_ok lib sign"
    and "(\<Sum>i \<leftarrow> inputs. unat (si_amount i)) < 2 ^ 64" "(\<Sum>out \<leftarrow> outputs. unat (to_amount out)) < 2 ^ 64"
    and "inputs_separated sha S (pt_root_asset (tr_prepared r)) prevs"
    and "is_split (tr_prepared r) \<longrightarrow> splits_separated sha S' (genesis_id sha g)
           (split_entries (pt_root_asset (tr_prepared r)) (map (split_of g) outputs))"
  shows "vm_execute sha (btc lib) (schnorr_validator lib) (pt_root_asset (tr_prepared r)) (recipient_assets (tr_prepared r)) prevs = Ok ()"
proof -
  obtain pt ws pt2 where prep: "prepared sha inputs outputs g pt"
    and sign: "sign_transfer sha (btc lib) sign prevs pt = Ok (pt\<lparr>pt_root_asset := (pt_root_asset pt)\<lparr>prev_witnesses := ws\<rparr>\<rparr>)"
    and pop: "populate_split_proofs sha (pt\<lparr>pt_root_asset := (pt_root_asset pt)\<lparr>prev_witnesses := ws\<rparr>\<rparr>) = Ok pt2"
    and r: "pt_root_asset (tr_prepared r) = (pt_root_asset pt)\<lparr>prev_witnesses := ws\<rparr>" "pt_root_asset pt2 = (pt_root_asset pt)\<lparr>prev_witnesses := ws\<rparr>"
    "recipient_assets (tr_prepared r) = recipient_assets pt2" "is_split (tr_prepared r) = is_split pt"
    by (rule executed_stages [OF assms(1)])
  have "is_split pt \<longrightarrow> recipient_assets pt = map (split_of g) outputs" using prep by (simp add: prepared_def)
  moreover have "split_entries (a\<lparr>prev_witnesses := ws\<rparr>) xs = split_entries a xs" for a xs by (simp add: split_entries_def)
  ultimately have "is_split pt \<longrightarrow> splits_separated sha S' (genesis_id sha g) (split_entries (pt_root_asset pt) (recipient_assets pt))"
    using assms(8) by (simp add: r)
  moreover have "inputs_separated sha S (pt_root_asset pt2) prevs" using assms(7) by (simp add: r)
  ultimately show ?thesis
    using signed_transfer_accepted [OF prep sign pop assms(2-6)] by (simp add: r)
qed

text \<open>The assets of an executed transfer: the root and the recipients.\<close>

lemma executed_root:
  assumes "execute_transfer_with_options sha lib inputs outputs g prevs sign internal_keys opts = Ok r"
  defines "root \<equiv> pt_root_asset (tr_prepared r)"
  shows "genesis root = g" "group_key root = None" "a_lock_time root = 0" "relative_lock_time root = 0"
    and "output_total outputs \<le> input_total inputs"
    and "amount root = (if is_split (tr_prepared r) then input_total inputs - output_total outputs else output_total outputs)"
    and "\<not> is_split (tr_prepared r) \<Longrightarrow> output_total outputs = input_total inputs \<and> split_commitment_root root = None
       \<and> recipient_assets (tr_prepared r) = []
       \<and> (\<exists>out. outputs = [out] \<and> script_key root = to_script_key out \<and> amount root = to_amount out)"
    and "is_split (tr_prepared r) \<Longrightarrow> list_all2 (\<lambda>out s. \<exists>p. s = (split_of g out)\<lparr>sa_asset := set_split_witness
       \<lparr>sc_proof = p, sc_root_asset = encode_asset sha root EncodeNormal\<rparr> (sa_asset (split_of g out))\<rparr>)
       outputs (recipient_assets (tr_prepared r))"
    and "\<forall>w \<in> set (prev_witnesses root). split_commitment w = None"
proof -
  obtain pt ws pt2 where prep: "prepared sha inputs outputs g pt"
    and sign: "sign_transfer sha (btc lib) sign prevs pt = Ok (pt\<lparr>pt_root_asset := (pt_root_asset pt)\<lparr>prev_witnesses := ws\<rparr>\<rparr>)"
    and pop: "populate_split_proofs sha (pt\<lparr>pt_root_asset := (pt_root_asset pt)\<lparr>prev_witnesses := ws\<rparr>\<rparr>) = Ok pt2"
    and r: "pt_root_asset (tr_prepared r) = (pt_root_asset pt)\<lparr>prev_witnesses := ws\<rparr>"
    "recipient_assets (tr_prepared r) = recipient_assets pt2" "is_split (tr_prepared r) = is_split pt"
    by (rule executed_stages [OF assms(1)])
  note P = prep [unfolded prepared_def]
  from P show "genesis root = g" "group_key root = None" "a_lock_time root = 0" "relative_lock_time root = 0"
    "output_total outputs \<le> input_total inputs"
    "amount root = (if is_split (tr_prepared r) then input_total inputs - output_total outputs else output_total outputs)"
    by (simp_all add: root_def r)
  from sign obtain sigs where "pt\<lparr>pt_root_asset := (pt_root_asset pt)\<lparr>prev_witnesses :=
      map2 (\<lambda>w sig. w\<lparr>tx_witness := [sig]\<rparr>) (prev_witnesses (pt_root_asset pt)) sigs\<rparr>\<rparr>
      = pt\<lparr>pt_root_asset := (pt_root_asset pt)\<lparr>prev_witnesses := ws\<rparr>\<rparr>"
    by (auto simp: sign_transfer_def res_simps)
  from arg_cong [OF this [symmetric], of "\<lambda>pt. prev_witnesses (pt_root_asset pt)"] P
  show "\<forall>w \<in> set (prev_witnesses root). split_commitment w = None"
    by (auto simp: root_def r unsigned_witness_def dest!: set_zip_leftD)
  show "output_total outputs = input_total inputs \<and> split_commitment_root root = None \<and> recipient_assets (tr_prepared r) = []
       \<and> (\<exists>out. outputs = [out] \<and> script_key root = to_script_key out \<and> amount root = to_amount out)" if "\<not> is_split (tr_prepared r)"
    using P pop that by (auto simp: root_def r populate_split_proofs_def)
  show "list_all2 (\<lambda>out s. \<exists>p. s = (split_of g out)\<lparr>sa_asset := set_split_witness
       \<lparr>sc_proof = p, sc_root_asset = encode_asset sha root EncodeNormal\<rparr> (sa_asset (split_of g out))\<rparr>)
       outputs (recipient_assets (tr_prepared r))" if "is_split (tr_prepared r)"
  proof -
    from P that r(3) obtain tree where tree: "split_tree sha (genesis_id sha g) (\<lambda>a. a) (pt_root_asset pt) (recipient_assets pt) = Ok tree"
      and rec: "recipient_assets pt = map (split_of g) outputs" by auto
    have "split_tree sha (genesis_id sha g) drop_split_witness (pt_root_asset pt) (recipient_assets pt) = Ok tree"
      using tree split_tree_cong [of "recipient_assets pt" drop_split_witness "\<lambda>a. a"] rec by simp
    from populate_split_proofs_Ok [OF pop, of g tree] this that P r(3) rec show ?thesis
      by (auto simp: r(1,2) root_def list.rel_map elim!: list_all2_mono)
  qed
qed

section \<open>A transfer\<close>

definition demo_input :: SelectedInput where
  "demo_input = \<lparr>si_prev_id = demo_prev, si_anchor_point = prev_out_point demo_prev, si_amount = 1000, si_asset_type = Normal,
     si_script_key = script_key demo_coin\<rparr>"

definition demo_output :: TransferOutput where
  "demo_output = \<lparr>to_output_index = 0, to_amount = 1000, to_script_key = script_key_from_pub_key (replicate 33 2),
     to_asset_version = AssetV0, to_interactive = True\<rparr>"

definition demo_options :: TransferOptions where
  "demo_options = \<lparr>opt_commitment_version = Some TapV2, opt_no_stxo_proofs = True, opt_passive_assets = []\<rparr>"

lemma demo_selected: "selected_inputs demo_hash [demo_input] [(demo_prev, demo_coin)] demo_genesis"
  by (simp add: selected_inputs_def demo_input_def demo_prev_def demo_coin_def new_genesis_def script_key_from_pub_key_def
      PREV_ID_ZERO_def zeros_def)

lemma demo_signer: "signer_ok demo_secp (\<lambda>_ _. Ok (zeros 64))"
  by (simp add: signer_ok_def demo_secp_def)

lemma demo_single_commitment:
  assumes "genesis a = demo_genesis" "asset_leaf demo_hash a = Ok leaf"
  obtains ac t where "act_new demo_hash [a] = Ok ac" "tct_new demo_hash TapV2 [ac] = Ok t"
    "tc_version (tct_commitment t) = TapV2"
proof -
  have "wf_genesis (genesis a)"
    by (simp add: assms(1) wf_genesis_def demo_genesis_def genesis_empty_def wf_asset_type_def asset_type_from_u8_def)
  then obtain ac t where t: "act_new demo_hash [a] = Ok ac" "tct_new demo_hash TapV2 [ac] = Ok t"
    using one_asset_commitment [OF assms(2)] by metis
  moreover from t(2) have "tc_version (tct_commitment t) = TapV2"
    by (auto simp: tct_new_def Let_def res_simps tap_commitment_from_root_def)
  ultimately show ?thesis by (rule that)
qed

lemma demo_no_burn: "check_no_burn demo_hash demo_secp [demo_input] [demo_output] = Ok ()"
  by (simp add: derive_burn_key_def demo_secp_def Let_def schnorr_bytes_def demo_output_def script_key_from_pub_key_def
      demo_hash_def demo_digest_def zeros_def numeral_eq_Suc)

lemma demo_executed:
  obtains r where "execute_transfer_with_options demo_hash demo_secp [demo_input] [demo_output] demo_genesis
      [(demo_prev, demo_coin)] (\<lambda>_ _. Ok (zeros 64)) [replicate 32 2] demo_options = Ok r"
    "\<not> is_split (tr_prepared r)" "referenced (prev_witnesses (pt_root_asset (tr_prepared r))) = [demo_prev]"
    "recipient_assets (tr_prepared r) = []" "a_version (pt_root_asset (tr_prepared r)) = a_version demo_coin"
proof -
  define new where "new = transfer_asset AssetV0 demo_genesis 1000 [unsigned_witness demo_input] (to_script_key demo_output)"
  let ?new = "new\<lparr>prev_witnesses := [(unsigned_witness demo_input)\<lparr>tx_witness := [zeros 64]\<rparr>]\<rparr>"
  have new: "genesis new = demo_genesis" "amount new = 1000" "a_version new = a_version demo_coin" "split_commitment_root new = None"
    "prev_witnesses new = [unsigned_witness demo_input]"
    by (simp_all add: new_def transfer_asset_def demo_coin_def new_genesis_def)
  obtain l where l: "asset_to_leaf demo_hash new = Ok l"
    using asset_to_leaf_Ok [OF _ demo_coin_facts(1)] new(3) by blast
  obtain l' where l': "asset_to_leaf demo_hash ?new = Ok l'"
    using asset_to_leaf_Ok [OF _ demo_coin_facts(1), of ?new] new(3) by auto
  obtain ac t where t: "act_new demo_hash [new] = Ok ac" "tct_new demo_hash TapV2 [ac] = Ok t" "tc_version (tct_commitment t) = TapV2"
    by (rule demo_single_commitment [OF new(1)]) (use l in \<open>auto simp: asset_leaf_def\<close>)
  obtain ac' t' where t': "act_new demo_hash [?new] = Ok ac'" "tct_new demo_hash TapV2 [ac'] = Ok t'"
    by (rule demo_single_commitment [of ?new]) (use new(1) l' in \<open>auto simp: asset_leaf_def\<close>)
  have "\<exists>s. tree_insert demo_hash k l full_tree_new = Ok s" for k
    using demo_single_leaf(4) demo_leaf_sized [OF new(1,2) l] by blast
  moreover have "new\<lparr>prev_witnesses := map (tx_witness_update (\<lambda>_. [])) (prev_witnesses new)\<rparr> = new"
    by (simp add: new_def transfer_asset_def unsigned_witness_def)
  ultimately have out: "\<exists>out. virtual_tx_out demo_hash new = Ok out"
    using l new(4) by (auto simp: virtual_tx_out_def Let_def res_simps)
  have id: "demo_prev \<noteq> PREV_ID_ZERO" by (simp add: demo_prev_def PREV_ID_ZERO_def zeros_def)
  then have gen: "\<not> is_genesis_asset new"
    using is_genesis_witnesses [of "[unsigned_witness demo_input]" new]
    by (simp add: new_def transfer_asset_def unsigned_witness_def demo_input_def)
  obtain tx h v where tx: "virtual_tx demo_hash new [(demo_prev, demo_coin)] = Ok (tx, h, v)"
    using single_input_tree [OF demo_coin_facts(4,5) _ _ demo_coin_facts(1), of new "unsigned_witness demo_input"] out gen new(5)
    by (auto simp: virtual_tx_def is_genesis_asset_def needs_genesis_witness_for_group_def unsigned_witness_def demo_input_def)
  let ?pt = "\<lambda>a t. \<lparr>pt_root_asset = a, recipient_assets = [], change_commitment = t, output_commitments = [t], is_split = False,
    passive_assets = []\<rparr>"
  have "prepare_full_send demo_hash [demo_input] [demo_output] demo_genesis (Some TapV2) = Ok (?pt new t)"
    using t(1,2) by (simp add: prepare_full_send_def new_def [symmetric] from_asset_commitment_trees_def tap_version_for_def
        demo_output_def [THEN arg_cong, of to_asset_version] demo_output_def [THEN arg_cong, of to_amount])
  moreover have "input_total [demo_input] = 1000" "output_total [demo_output] = 1000"
    by (simp_all add: input_total_def output_total_def demo_input_def demo_output_def)
  ultimately have prep: "prepare_outputs_forced demo_hash demo_secp [demo_input] [demo_output] demo_genesis (Some TapV2) False = Ok (?pt new t)"
    using demo_no_burn by (simp add: prepare_outputs_forced_def prepare_outputs_inner_def del: check_no_burn.simps)
  have "w_prev_id (unsigned_witness demo_input) = Some demo_prev" by (simp add: unsigned_witness_def demo_input_def)
  then have sign: "sign_transfer demo_hash (btc demo_secp) (\<lambda>_ _. Ok (zeros 64)) [(demo_prev, demo_coin)] (?pt new t) = Ok (?pt ?new t)"
    using tx new(5) by (simp add: sign_transfer_def sign_input_def input_key_spend_sighash_def input_prev_out_def demo_secp_def demo_lib_def)
  have reb: "rebuild_root_commitment_with_options demo_hash demo_secp True (?pt ?new t) = Ok (?pt ?new t')"
    using t(3) t' by (simp add: rebuild_root_commitment_with_options_def single_commitment_def)
  obtain key where "taproot_output_key demo_hash demo_secp (0x02 # replicate 32 2) (tapscript_root demo_hash (tct_commitment t') None) = Ok key"
    using demo_output_key by blast
  then have "\<exists>tmpl. create_transfer_template demo_hash demo_secp [si_anchor_point demo_input]
      (output_descriptors [replicate 32 2] (?pt ?new t')) = Ok tmpl"
    by (simp add: create_transfer_template_def output_descriptors_def psbt_tap_output_script_def create_tap_output_script_def
        demo_secp_def demo_lib_def)
  then obtain tmpl where tmpl: "create_transfer_template demo_hash demo_secp [si_anchor_point demo_input]
      (output_descriptors [replicate 32 2] (?pt ?new t')) = Ok tmpl" by blast
  show ?thesis
    by (rule that [of "\<lparr>tr_prepared = ?pt ?new t', tr_template = tmpl\<rparr>"])
      (use prep sign reb tmpl new(3) in \<open>simp_all add: execute_transfer_with_options_def demo_options_def populate_split_proofs_def
        referenced_def unsigned_witness_def demo_input_def\<close>)
qed

lemma demo_inputs_separated:
  assumes "referenced (prev_witnesses a) = [demo_prev]"
  shows "inputs_separated demo_hash demo_coin_set a [(demo_prev, demo_coin)]"
proof -
  have "input_leaf demo_hash [(demo_prev, demo_coin)] demo_prev = demo_coin_leaf"
    using demo_coin_facts(1) by (simp add: input_leaf_def)
  then show ?thesis using demo_coin_facts(4,5) assms by (simp add: inputs_separated_def input_ops_def del: fun_upd_apply)
qed

lemma demo_allocations:
  "validate_allocations [demo_input] [demo_output] (g_asset_type demo_genesis) = Ok ()"
  "(\<Sum>i \<leftarrow> [demo_input]. unat (si_amount i)) < 2 ^ 64" "(\<Sum>out \<leftarrow> [demo_output]. unat (to_amount out)) < 2 ^ 64"
  by (simp_all add: validate_allocations_def input_total_def output_total_def demo_input_def demo_output_def demo_genesis_def genesis_empty_def)

section \<open>A transfer with change\<close>

text \<open>Of the 1000 units of the input, 400 go to another key and 600 come back as change. The hash function records the sums of the
  tree nodes, so that it separates the split tree with its two leaves.\<close>

definition split_prev :: PrevId where
  "split_prev = demo_prev\<lparr>prev_asset_id := genesis_id pair_hash demo_genesis\<rparr>"

definition split_input :: SelectedInput where
  "split_input = demo_input\<lparr>si_prev_id := split_prev\<rparr>"

definition split_output :: TransferOutput where
  "split_output = \<lparr>to_output_index = 1, to_amount = 400, to_script_key = script_key_from_pub_key (replicate 33 3),
     to_asset_version = AssetV0, to_interactive = True\<rparr>"

definition split_root :: Asset where
  "split_root = transfer_asset AssetV0 demo_genesis 600 [unsigned_witness split_input] (script_key demo_coin)"

lemma pair_asset_leaf:
  assumes "genesis a = demo_genesis" "amount a \<noteq> 0" "a_version a = AssetV0"
  obtains l where "asset_to_leaf pair_hash a = Ok l" "asset_leaf pair_hash a = Ok l" "length (leaf_value l) \<noteq> 64" "leaf_sum l = amount a"
proof -
  have "wf_genesis (genesis a)"
    by (simp add: assms(1) wf_genesis_def demo_genesis_def genesis_empty_def wf_asset_type_def asset_type_from_u8_def)
  moreover obtain l where l: "asset_to_leaf pair_hash a = Ok l" using assms(3) by (simp add: asset_to_leaf_def encode_asset_leaf_def)
  ultimately show ?thesis using asset_leaf_sized [OF _ l] asset_to_leaf_sum [OF l] by (intro that [of l]) (simp_all add: asset_leaf_def)
qed

lemma pair_commitment:
  assumes "genesis a = demo_genesis" "amount a \<noteq> 0" "a_version a = AssetV0"
  obtains ac t where "act_new pair_hash [a] = Ok ac" "tct_new pair_hash TapV2 [ac] = Ok t" "tc_version (tct_commitment t) = TapV2"
proof -
  obtain l where l: "asset_leaf pair_hash a = Ok l" "length (leaf_value l) \<noteq> 64" "leaf_sum l = amount a"
    by (rule pair_asset_leaf [OF assms])
  let ?k = "leaf_key_of pair_hash a"
  obtain s where s: "tree_insert pair_hash ?k l full_tree_new = Ok s" "branch_sum (tree_root pair_hash s) = leaf_sum l"
    using pair_single_leaf(3) [of l ?k] l assms(2) by auto
  define ac where "ac = \<lparr>act_commitment = asset_commitment_from_root (max_asset_version (a_version a) (a_version a))
      (tap_key_of pair_hash a) (g_asset_type (genesis a)) (tree_root pair_hash s), act_tree = s, act_assets = [(?k, a)]\<rparr>"
  have ac: "act_new pair_hash [a] = Ok ac" by (simp add: act_new_def l(1) s(1) ac_def)
  let ?l = "tap_commitment_leaf pair_hash (act_commitment ac)"
  have "leaf_sum ?l \<noteq> 0"
    using s(2) l(3) assms(2)
    by (simp add: tap_commitment_leaf_def ac_def asset_commitment_from_root_def asset_commitment_root_def leaf_new_def Let_def)
  moreover have "length (leaf_value ?l) \<noteq> 64" by (simp add: tap_commitment_leaf_sized [OF sha_32_pair_hash])
  ultimately obtain t where t: "tree_insert pair_hash (tap_key_of pair_hash a) ?l full_tree_new = Ok t"
    using pair_single_leaf(3) [of ?l "tap_key_of pair_hash a"] by auto
  have "ac_tap_key (act_commitment ac) = tap_key_of pair_hash a" by (simp add: ac_def asset_commitment_from_root_def)
  with t obtain tct where tct: "tct_new pair_hash TapV2 [ac] = Ok tct" by (simp add: tct_new_def Let_def)
  moreover from tct have "tc_version (tct_commitment tct) = TapV2"
    by (auto simp: tct_new_def Let_def res_simps tap_commitment_from_root_def)
  ultimately show ?thesis by (rule that [OF ac])
qed

lemma split_keys:
  assumes "length aid = 32"
  shows "locator_hash pair_hash (root_locator aid split_root) \<noteq> locator_hash pair_hash (locator_of aid (split_of demo_genesis split_output))"
proof -
  have hash: "locator_hash pair_hash loc = pair_digest 0 (be_u64 (drop 24 (schnorr_bytes (loc_script_key loc))))"
    if "loc_asset_id loc = aid" "length (schnorr_bytes (loc_script_key loc)) = 32" for loc
    using that assms by (simp add: locator_hash_def pair_hash_def)
  have key: "length (schnorr_bytes (replicate 33 b)) = 32" "drop 24 (schnorr_bytes (replicate 33 b)) = replicate 8 b" for b
    by (simp_all add: schnorr_bytes_def)
  have "u64_be (be_u64 (replicate 8 2)) \<noteq> u64_be (be_u64 (replicate 8 3))" by (simp add: u64_be_be)
  then have "be_u64 (replicate 8 2) \<noteq> be_u64 (replicate 8 3)" by (rule contrapos_nn) (rule arg_cong)
  moreover have "loc_script_key (root_locator aid split_root) = replicate 33 2" "loc_asset_id (root_locator aid split_root) = aid"
    by (simp_all add: root_locator_def split_root_def transfer_asset_def demo_coin_def new_genesis_def script_key_from_pub_key_def)
  moreover have "loc_script_key (locator_of aid (split_of demo_genesis split_output)) = replicate 33 3"
    "loc_asset_id (locator_of aid (split_of demo_genesis split_output)) = aid"
    by (simp_all add: locator_of_def split_of_def split_output_def transfer_asset_def script_key_from_pub_key_def)
  ultimately show ?thesis by (simp only: hash key pair_digest_inject) simp
qed

text \<open>The split tree: the template of the change and the paid output.\<close>

lemma split_demo_tree:
  obtains tree S where
    "split_tree pair_hash (genesis_id pair_hash demo_genesis) (\<lambda>a. a) split_root [split_of demo_genesis split_output] = Ok tree"
    "splits_separated pair_hash S (genesis_id pair_hash demo_genesis) (split_entries split_root [split_of demo_genesis split_output])"
proof -
  let ?aid = "genesis_id pair_hash demo_genesis" and ?out = "split_of demo_genesis split_output"
  let ?k = "locator_hash pair_hash (root_locator ?aid split_root)" and ?k' = "locator_hash pair_hash (locator_of ?aid ?out)"
  have aid: "length ?aid = 32" using sha_32_pair_hash by (simp add: genesis_id_def sha_32_def)
  have loc: "locator_of ?aid \<lparr>sa_asset = root_spend_template split_root, sa_output_index = 0\<rparr> = root_locator ?aid split_root"
    by (simp add: root_locator_def locator_of_def root_spend_template_def)
  obtain l where l: "asset_leaf pair_hash (root_spend_template split_root) = Ok l" "length (leaf_value l) \<noteq> 64"
    "leaf_sum l = amount (root_spend_template split_root)"
    by (rule pair_asset_leaf [of "root_spend_template split_root"]) (simp_all add: root_spend_template_def split_root_def transfer_asset_def)
  obtain l' where l': "asset_leaf pair_hash (sa_asset ?out) = Ok l'" "length (leaf_value l') \<noteq> 64" "leaf_sum l' = amount (sa_asset ?out)"
    by (rule pair_asset_leaf [of "sa_asset ?out"]) (simp_all add: split_of_def split_output_def transfer_asset_def)
  have sums: "leaf_sum l = 600" "leaf_sum l' = 400"
    using l(3) l'(3) by (simp_all add: root_spend_template_def split_root_def split_output_def transfer_asset_def)
  have ne: "l \<noteq> leaf_empty" "l' \<noteq> leaf_empty" "l \<noteq> l'" using sums by auto
  have ok: "pair_ok l l'" using l(2) l'(2) sums ne by (simp add: pair_ok_def)
  have len: "length ?k = 32" "length ?k' = 32" using sha_32_pair_hash by (simp_all add: locator_hash_def sha_32_def)
  have keys: "?k \<noteq> ?k'" by (rule split_keys [OF aid])
  then have "key_bits ?k \<noteq> key_bits ?k'" using len key_bits_inject by blast
  note ins = pair_inserts [OF ok ne this]
  let ?S = "pair_preimages (key_bits ?k) l (key_bits ?k') l'"
  obtain s tree where "tree_insert pair_hash ?k l full_tree_new = Ok s" "tree_insert pair_hash ?k' l' s = Ok tree"
    using ins(4) sums by auto
  then have "split_tree pair_hash ?aid (\<lambda>a. a) split_root [?out] = Ok tree" using l(1) l'(1) by (simp add: split_tree_def)
  moreover have "splits_separated pair_hash ?S ?aid (split_entries split_root [?out])"
    using ins(1-3) sums keys l(1) l'(1)
    by (simp add: splits_separated_def split_entries_def split_ops_def loc leaf_or_none_def del: fun_upd_apply)
  ultimately show ?thesis by (rule that)
qed

lemma pair_hash_ends: "pair_hash x ! 31 = 0"
  by (simp add: pair_hash_def pair_digest_def nth_append zeros_def)

lemma split_no_burn: "check_no_burn pair_hash demo_secp [split_input] [split_output] = Ok ()"
proof -
  have "pair_hash x \<noteq> replicate 32 3" for x using pair_hash_ends [of x] by auto
  then show ?thesis
    by (auto simp: derive_burn_key_def demo_secp_def Let_def schnorr_bytes_def split_output_def script_key_from_pub_key_def
        dest!: sym [of "replicate 32 3"])
qed

lemma split_totals: "input_total [split_input] = 1000" "output_total [split_output] = 400"
  by (simp_all add: input_total_def output_total_def split_input_def demo_input_def split_output_def)

text \<open>The input tree of the transfer.\<close>

lemma split_coin_leaf:
  obtains l S where "asset_to_leaf pair_hash demo_coin = Ok l" "separated pair_hash S no_content"
    "admissible pair_hash S no_content (prev_id_hash pair_hash split_prev) l"
proof -
  obtain l where l: "asset_to_leaf pair_hash demo_coin = Ok l" "length (leaf_value l) \<noteq> 64" "leaf_sum l = amount demo_coin"
    by (rule pair_asset_leaf [of demo_coin]) (simp_all add: demo_coin_def new_genesis_def)
  have "leaf_sum l \<noteq> 0" using l(3) by (simp add: demo_coin_def new_genesis_def)
  from pair_single_leaf(1,2) [OF l(2) this, of "prev_id_hash pair_hash split_prev"] show ?thesis by (rule that [OF l(1)])
qed

lemma split_input_tree:
  assumes "referenced (prev_witnesses a) = [split_prev]"
  obtains S where "inputs_separated pair_hash S a [(split_prev, demo_coin)]"
proof -
  obtain l S where l: "asset_to_leaf pair_hash demo_coin = Ok l" and single: "separated pair_hash S no_content"
    "admissible pair_hash S no_content (prev_id_hash pair_hash split_prev) l" by (rule split_coin_leaf)
  have "input_leaf pair_hash [(split_prev, demo_coin)] split_prev = l" using l by (simp add: input_leaf_def)
  with single assms show ?thesis
    by (intro that) (simp add: inputs_separated_def input_ops_def del: fun_upd_apply)
qed

lemma split_virtual_tx:
  assumes "prev_witnesses a = [unsigned_witness split_input]" "split_commitment_root a = Some hs"
  obtains tx h v where "virtual_tx pair_hash a [(split_prev, demo_coin)] = Ok (tx, h, v)"
proof -
  obtain l S where l: "asset_to_leaf pair_hash demo_coin = Ok l" and single: "separated pair_hash S no_content"
    "admissible pair_hash S no_content (prev_id_hash pair_hash split_prev) l" by (rule split_coin_leaf)
  have w: "w_prev_id (unsigned_witness split_input) = Some split_prev" by (simp add: unsigned_witness_def split_input_def)
  have "split_prev \<noteq> PREV_ID_ZERO" by (simp add: split_prev_def demo_prev_def PREV_ID_ZERO_def zeros_def)
  then have "\<not> is_genesis_asset (a\<lparr>prev_witnesses := prev_witnesses a\<rparr>)"
    using w by (intro is_genesis_witnesses) (simp add: assms(1))
  then have "\<not> is_genesis_asset a" by simp
  with assms(2) show ?thesis
    using single_input_tree [OF single assms(1) w l] that
    by (cases hs) (auto simp: virtual_tx_def virtual_tx_out_def is_genesis_asset_def needs_genesis_witness_for_group_def)
qed

text \<open>The change with the root of the split tree in it, and what the preparation makes of it.\<close>

definition committed_root :: "DefaultStore \<Rightarrow> Asset" where
  "committed_root tree = split_root\<lparr>split_commitment_root :=
     Some (branch_hash pair_hash (tree_root pair_hash tree), branch_sum (tree_root pair_hash tree))\<rparr>"

lemma committed_root_fields:
  "genesis (committed_root tree) = demo_genesis" "amount (committed_root tree) = 600" "a_version (committed_root tree) = AssetV0"
  "prev_witnesses (committed_root tree) = [unsigned_witness split_input]"
  by (simp_all add: committed_root_def split_root_def transfer_asset_def)

lemma split_prepared:
  assumes "split_tree pair_hash (genesis_id pair_hash demo_genesis) (\<lambda>a. a) split_root [split_of demo_genesis split_output] = Ok tree"
  obtains t t1 where "prepare_outputs_forced pair_hash demo_secp [split_input] [split_output] demo_genesis (Some TapV2) False
      = Ok \<lparr>pt_root_asset = committed_root tree, recipient_assets = [split_of demo_genesis split_output], change_commitment = t,
            output_commitments = [t1], is_split = True, passive_assets = []\<rparr>"
    "tc_version (tct_commitment t) = TapV2"
proof -
  let ?out = "split_of demo_genesis split_output"
  obtain ac t where t: "act_new pair_hash [committed_root tree] = Ok ac" "tct_new pair_hash TapV2 [ac] = Ok t"
    "tc_version (tct_commitment t) = TapV2"
    by (rule pair_commitment [of "committed_root tree"]) (simp_all add: committed_root_fields)
  obtain ac1 t1 where t1: "act_new pair_hash [sa_asset ?out] = Ok ac1" "tct_new pair_hash TapV2 [ac1] = Ok t1"
    by (rule pair_commitment [of "sa_asset ?out"]) (simp_all add: split_of_def split_output_def transfer_asset_def)
  have key: "si_script_key split_input = script_key demo_coin" by (simp add: split_input_def demo_input_def)
  have "prepare_split_outputs pair_hash [split_input] [split_output] demo_genesis 600 (Some TapV2)
      = Ok \<lparr>pt_root_asset = committed_root tree, recipient_assets = [?out], change_commitment = t, output_commitments = [t1],
            is_split = True, passive_assets = []\<rparr>"
    using assms t(1,2) t1 by (simp add: prepare_split_outputs_def key split_root_def [symmetric] committed_root_def [symmetric]
        output_commitment_def from_asset_commitment_trees_def tap_version_for_def)
  then show ?thesis
    using split_no_burn t(3) by (intro that [of t t1])
      (simp_all add: prepare_outputs_forced_def prepare_outputs_inner_def split_totals del: check_no_burn.simps)
qed

lemma split_executed:
  obtains r S where "execute_transfer_with_options pair_hash demo_secp [split_input] [split_output] demo_genesis
      [(split_prev, demo_coin)] (\<lambda>_ _. Ok (zeros 64)) [replicate 32 2] demo_options = Ok r"
    "is_split (tr_prepared r)" "referenced (prev_witnesses (pt_root_asset (tr_prepared r))) = [split_prev]"
    "splits_separated pair_hash S (genesis_id pair_hash demo_genesis)
       (split_entries (pt_root_asset (tr_prepared r)) (map (split_of demo_genesis) [split_output]))"
proof -
  let ?aid = "genesis_id pair_hash demo_genesis" and ?out = "split_of demo_genesis split_output"
  obtain tree S where tree: "split_tree pair_hash ?aid (\<lambda>a. a) split_root [?out] = Ok tree"
    and sep: "splits_separated pair_hash S ?aid (split_entries split_root [?out])" by (rule split_demo_tree)
  define root where "root = committed_root tree"
  define signed where "signed = root\<lparr>prev_witnesses := [(unsigned_witness split_input)\<lparr>tx_witness := [zeros 64]\<rparr>]\<rparr>"
  note root = committed_root_fields [of tree, folded root_def]
  have signed: "genesis signed = demo_genesis" "amount signed = 600" "a_version signed = AssetV0" using root by (simp_all add: signed_def)
  obtain ac' t' where t': "act_new pair_hash [signed] = Ok ac'" "tct_new pair_hash TapV2 [ac'] = Ok t'"
    by (rule pair_commitment [of signed]) (simp_all add: signed)
  obtain t t1 where prep: "prepare_outputs_forced pair_hash demo_secp [split_input] [split_output] demo_genesis (Some TapV2) False
      = Ok \<lparr>pt_root_asset = root, recipient_assets = [?out], change_commitment = t, output_commitments = [t1], is_split = True,
            passive_assets = []\<rparr>" and t: "tc_version (tct_commitment t) = TapV2"
    by (rule split_prepared [OF tree, folded root_def])
  let ?pt = "\<lambda>a recs t. \<lparr>pt_root_asset = a, recipient_assets = recs, change_commitment = t, output_commitments = [t1], is_split = True,
    passive_assets = []\<rparr>"
  have w: "w_prev_id (unsigned_witness split_input) = Some split_prev" by (simp add: unsigned_witness_def split_input_def)
  obtain tx h v where "virtual_tx pair_hash root [(split_prev, demo_coin)] = Ok (tx, h, v)"
    by (rule split_virtual_tx [OF root(4)]) (simp add: root_def committed_root_def)
  then have sign: "sign_transfer pair_hash (btc demo_secp) (\<lambda>_ _. Ok (zeros 64)) [(split_prev, demo_coin)] (?pt root [?out] t)
      = Ok (?pt signed [?out] t)"
    using root(4) w by (simp add: sign_transfer_def sign_input_def input_key_spend_sighash_def input_prev_out_def demo_secp_def demo_lib_def
        signed_def)
  have "split_tree pair_hash ?aid drop_split_witness signed [?out] = Ok tree"
    using tree split_tree_cong [of "[?out]" drop_split_witness "\<lambda>a. a"] by (simp add: signed_def root_def committed_root_def)
  moreover obtain p where "tree_merkle_proof pair_hash (locator_hash pair_hash (locator_of ?aid ?out)) tree = Ok p"
    using split_tree_Ok(2) [OF tree _ sep] by auto
  moreover have "split_commitment_root signed
      = Some (branch_hash pair_hash (tree_root pair_hash tree), branch_sum (tree_root pair_hash tree))"
    by (simp add: signed_def root_def committed_root_def)
  ultimately obtain out where pop: "populate_split_proofs pair_hash (?pt signed [?out] t) = Ok (?pt signed [out] t)"
    using signed(1) by (simp add: populate_split_proofs_def populate_split_def)
  have reb: "rebuild_root_commitment_with_options pair_hash demo_secp True (?pt signed [out] t) = Ok (?pt signed [out] t')"
    using t t' by (simp add: rebuild_root_commitment_with_options_def single_commitment_def)
  have "\<exists>tmpl. create_transfer_template pair_hash demo_secp [si_anchor_point split_input]
      (output_descriptors [replicate 32 2] (?pt signed [out] t')) = Ok tmpl"
    by (simp add: create_transfer_template_def output_descriptors_def psbt_tap_output_script_def create_tap_output_script_def
        taproot_output_key_def Let_def demo_secp_def demo_lib_def)
  then obtain tmpl where tmpl: "create_transfer_template pair_hash demo_secp [si_anchor_point split_input]
      (output_descriptors [replicate 32 2] (?pt signed [out] t')) = Ok tmpl" by blast
  have "split_entries signed [?out] = split_entries split_root [?out]" by (simp add: split_entries_def signed_def root_def committed_root_def)
  with prep sign pop reb tmpl sep w show ?thesis
    by (intro that [of "\<lparr>tr_prepared = ?pt signed [out] t', tr_template = tmpl\<rparr>" S])
      (simp_all add: execute_transfer_with_options_def demo_options_def referenced_def signed_def)
qed

lemma split_allocations:
  "validate_allocations [split_input] [split_output] (g_asset_type demo_genesis) = Ok ()"
  "(\<Sum>i \<leftarrow> [split_input]. unat (si_amount i)) < 2 ^ 64" "(\<Sum>out \<leftarrow> [split_output]. unat (to_amount out)) < 2 ^ 64"
  by (simp_all add: validate_allocations_def input_total_def output_total_def split_input_def demo_input_def split_output_def
      demo_genesis_def genesis_empty_def)

lemma split_selected: "selected_inputs pair_hash [split_input] [(split_prev, demo_coin)] demo_genesis"
  by (simp add: selected_inputs_def split_input_def demo_input_def split_prev_def demo_prev_def demo_coin_def new_genesis_def
      script_key_from_pub_key_def PREV_ID_ZERO_def zeros_def)

section \<open>Passive assets\<close>

lemma map_of_insert_any: "map_of (btree_insert k v kvs) k' = (if k' = k then Some v else map_of kvs k')"
  by (induction k v kvs rule: btree_insert.induct) auto

lemma tct_upsert_lookup:
  assumes "fst (tct_upsert sha ac t) = Ok ()"
  shows "map_of (asset_commitments (snd (tct_upsert sha ac t))) k =
    (if k = ac_tap_key (act_commitment ac)
     then (if branch_hash sha (ac_tree_root (act_commitment ac)) = empty_tree_root_hash sha then None else Some ac)
     else map_of (asset_commitments t) k)"
proof (cases "branch_hash sha (ac_tree_root (act_commitment ac)) = empty_tree_root_hash sha")
  case True
  with assms show ?thesis by (auto simp: tct_upsert_def Let_def split: result.splits)
next
  case False
  with assms show ?thesis by (auto simp: tct_upsert_def Let_def map_of_insert_any split: result.splits)
qed

lemma merge_passive_lookup:
  assumes "merge_passive sha as t = Ok t'" "map_of (asset_commitments t') k = Some ac"
  shows "(\<exists>a \<in> set as. tap_key_of sha a = k \<and> act_assets ac = [(leaf_key_of sha a, a)])
    \<or> (\<forall>a \<in> set as. tap_key_of sha a \<noteq> k) \<and> map_of (asset_commitments t) k = Some ac"
  using assms
proof (induction as arbitrary: t)
  case (Cons a as)
  from Cons.prems(1) obtain pac mid where pac: "act_new sha [a] = Ok pac" and mid: "fst (tct_upsert sha pac t) = Ok ()"
    "mid = snd (tct_upsert sha pac t)" "merge_passive sha as mid = Ok t'" by (auto simp: run_tree_def res_simps)
  from Cons.IH [OF mid(3) Cons.prems(2)] tct_upsert_lookup [OF mid(1), of k] act_new_single [OF pac] mid(2)
  show ?case by (auto split: if_splits)
qed simp

text \<open>A second asset commitment under the same tap key. The second script key has 73 bytes: the demonstration hash maps
  all strings of the usual lengths to one digest, and the two leaf keys have to differ.\<close>

lemma demo_second_insert:
  assumes "length (leaf_value l) \<noteq> 64" "l \<noteq> leaf_empty" "unat (leaf_sum l) = 1000" "tree_insert demo_hash k l full_tree_new = Ok s"
  shows "\<exists>s'. tree_insert demo_hash k l s = Ok s'" "\<exists>s'. tree_delete demo_hash k s = Ok s'"
proof -
  note single = demo_single_leaf [OF assms(1,2), of k]
  let ?f = "no_content(key_bits k := l)"
  have inv: "full_inv demo_hash (single_set k l) s ?f"
    by (rule tree_insert_success [OF full_inv_new [OF single(2)] single(3) assms(4)])
  have "content_total ?f = 1000"
    using content_total_upd [of "key_bits k" no_content l] content_total_no_content assms(3) by (simp add: no_content_def)
  moreover have adm: "admissible demo_hash (single_set k l) ?f k l"
    using single(3) assms(2) by (simp add: admissible_def del: fun_upd_apply)
  ultimately show "\<exists>s'. tree_insert demo_hash k l s = Ok s'" using tree_insert_at [OF inv adm] assms(3) by auto
  have "?f(key_bits k := leaf_empty) = no_content" by (simp add: fun_eq_iff) (simp add: no_content_def)
  then have "admissible demo_hash (single_set k l) ?f k leaf_empty"
    using single(2) by (auto simp: admissible_def distinct_leaves_def) (simp_all add: no_content_def)
  from tree_delete_at [OF inv this] show "\<exists>s'. tree_delete demo_hash k s = Ok s'" by blast
qed

lemma demo_tap_leaf:
  assumes "act_new demo_hash [a] = Ok ac" "genesis a = demo_genesis" "amount a = 1000" "a_version a = AssetV0" "group_key a = None"
  shows "tap_commitment_leaf demo_hash (act_commitment ac) = leaf_new (0 # demo_digest 0 True @ u64_be 1000) 1000"
proof -
  obtain leaf s where leaf: "asset_to_leaf demo_hash a = Ok leaf" and s: "tree_insert demo_hash (leaf_key_of demo_hash a) leaf full_tree_new = Ok s"
    and ac: "act_commitment ac = asset_commitment_from_root AssetV0 (tap_key_of demo_hash a) (g_asset_type (genesis a)) (tree_root demo_hash s)"
    using assms(1,4) by (auto simp: act_new_def Let_def res_simps asset_leaf_def max_asset_version_def)
  note single = demo_single_leaf [OF demo_leaf_sized [OF assms(2,3) leaf], of "leaf_key_of demo_hash a"]
  have inv: "full_inv demo_hash (single_set (leaf_key_of demo_hash a) leaf) s (no_content(key_bits (leaf_key_of demo_hash a) := leaf))"
    by (rule tree_insert_success [OF full_inv_new [OF single(2)] single(3) s])
  have "content_total (no_content(key_bits (leaf_key_of demo_hash a) := leaf)) = 1000"
    using content_total_upd [of "key_bits (leaf_key_of demo_hash a)" no_content leaf] content_total_no_content
      asset_to_leaf_sum [OF leaf] assms(3) by (simp add: no_content_def)
  with tree_root_sum [OF inv] have sum: "branch_sum (tree_root demo_hash s) = 1000" by (simp add: word_unat_eq_iff)
  have "leaf_sized (no_content(key_bits (leaf_key_of demo_hash a) := leaf))" using single(1) by (simp add: separated_def)
  from demo_hash_node [OF this, of "[False]"] demo_hash_node [OF this, of "[True]"] tree_root_kids [OF inv]
  have "length (commitment_preimage demo_hash (tap_key_of demo_hash a) (tree_root demo_hash s)) \<ge> 104"
    using sha_32_demo_hash by (simp add: commitment_preimage_def kids_equal_def is_equal_node_def demo_digest_def)
  then have "commitment_preimage demo_hash (tap_key_of demo_hash a) (tree_root demo_hash s) \<noteq> leaf_preimage leaf_empty"
    "length (commitment_preimage demo_hash (tap_key_of demo_hash a) (tree_root demo_hash s)) \<noteq> 72"
    by (auto simp: leaf_preimage_def leaf_empty_def leaf_new_def)
  then have "demo_hash (commitment_preimage demo_hash (tap_key_of demo_hash a) (tree_root demo_hash s)) = demo_digest 0 True"
    by (simp add: demo_hash_def)
  then show ?thesis
    by (simp add: tap_commitment_leaf_def ac asset_commitment_from_root_def asset_commitment_root_def sum)
qed

section \<open>Properties\<close>

text \<open>C6: an executed transfer is accepted and pays what it was asked to. When \<^verbatim>\<open>execute_transfer\<close> succeeds on allocations that
  \<^verbatim>\<open>validate_allocations\<close> accepts, with inputs described as they are and a signer whose signatures verify, the
  virtual machine accepts the signed root asset with all its split outputs, each carrying its proof in the split commitment. A
  split transfer has one recipient asset per output, with its amount, index and script key; a transfer of the full value to one output has no
  recipient assets, and its root asset has the script key and the amount of that output. The root and the recipients
  together hold exactly the units of the inputs. None of them has a group key, whatever group the inputs belong to. (Assumed: the two
  totals fit 64 bits, and no collision of SHA-256 among the preimages of the input tree and of the split tree.)\<close>

theorem executed_transfer_accepted:
  assumes "execute_transfer_with_options sha lib inputs outputs g prevs sign internal_keys opts = Ok r"
    and "validate_allocations inputs outputs (g_asset_type g) = Ok ()"
    and "selected_inputs sha inputs prevs g" "signer_ok lib sign"
    and "(\<Sum>i \<leftarrow> inputs. unat (si_amount i)) < 2 ^ 64" "(\<Sum>out \<leftarrow> outputs. unat (to_amount out)) < 2 ^ 64"
    and "inputs_separated sha S (pt_root_asset (tr_prepared r)) prevs"
    and "is_split (tr_prepared r) \<longrightarrow> splits_separated sha S' (genesis_id sha g)
           (split_entries (pt_root_asset (tr_prepared r)) (map (split_of g) outputs))"
  shows "vm_execute sha (btc lib) (schnorr_validator lib) (pt_root_asset (tr_prepared r)) (recipient_assets (tr_prepared r)) prevs = Ok ()
    \<and> map (\<lambda>s. (sa_output_index s, amount (sa_asset s), script_key (sa_asset s), group_key (sa_asset s))) (recipient_assets (tr_prepared r))
        = (if is_split (tr_prepared r) then map (\<lambda>out. (to_output_index out, to_amount out, to_script_key out, None)) outputs else [])
    \<and> (\<not> is_split (tr_prepared r) \<longrightarrow> (\<exists>out. outputs = [out] \<and> script_key (pt_root_asset (tr_prepared r)) = to_script_key out
          \<and> amount (pt_root_asset (tr_prepared r)) = to_amount out))
    \<and> genesis (pt_root_asset (tr_prepared r)) = g \<and> group_key (pt_root_asset (tr_prepared r)) = None
    \<and> unat (amount (pt_root_asset (tr_prepared r))) + (\<Sum>s \<leftarrow> recipient_assets (tr_prepared r). unat (amount (sa_asset s)))
        = (\<Sum>i \<leftarrow> inputs. unat (si_amount i))"
proof -
  let ?root = "pt_root_asset (tr_prepared r)" and ?recs = "recipient_assets (tr_prepared r)" and ?split = "is_split (tr_prepared r)"
  note root = executed_root [OF assms(1)]
  have rec: "map (\<lambda>s. (sa_output_index s, amount (sa_asset s), script_key (sa_asset s), group_key (sa_asset s))) ?recs
      = (if ?split then map (\<lambda>out. (to_output_index out, to_amount out, to_script_key out, None)) outputs else [])"
  proof (cases ?split)
    case True
    from root(8) [OF True] have "map (\<lambda>s. (sa_output_index s, amount (sa_asset s), script_key (sa_asset s), group_key (sa_asset s))) ?recs
        = map (\<lambda>out. (to_output_index out, to_amount out, to_script_key out, None)) outputs"
      by (induction rule: list_all2_induct) (auto simp: split_of_def transfer_asset_def set_split_witness_def)
    with True show ?thesis by simp
  next
    case False
    then have "?recs = []" using root(7) by blast
    with False show ?thesis by simp
  qed
  then have amounts: "(\<Sum>s \<leftarrow> ?recs. unat (amount (sa_asset s))) = (if ?split then \<Sum>out \<leftarrow> outputs. unat (to_amount out) else 0)"
    by (drule_tac arg_cong [where f = "map (unat \<circ> fst \<circ> snd)"]) (simp add: comp_def)
  have full: "\<not> ?split \<longrightarrow> (\<exists>out. outputs = [out] \<and> script_key ?root = to_script_key out \<and> amount ?root = to_amount out)"
    using root(7) by blast
  have "\<not> ?split \<longrightarrow> output_total outputs = input_total inputs" using root(7) by blast
  then have "unat (amount ?root) + (\<Sum>s \<leftarrow> ?recs. unat (amount (sa_asset s))) = (\<Sum>i \<leftarrow> inputs. unat (si_amount i))"
    using root(5,6) amounts unat_sum_list [OF assms(5)] unat_sum_list [OF assms(6)]
      unat_sub [of "output_total outputs" "input_total inputs"]
    by (cases ?split) (simp_all add: input_total_def output_total_def word_le_nat_alt)
  with executed_vm [OF assms] rec full root(1,2) show ?thesis by (intro conjI)
qed

theorem executed_transfer_accepted_witness:
  "(\<exists>r. execute_transfer_with_options demo_hash demo_secp [demo_input] [demo_output] demo_genesis
      [(demo_prev, demo_coin)] (\<lambda>_ _. Ok (zeros 64)) [replicate 32 2] demo_options = Ok r
    \<and> vm_execute demo_hash demo_lib (schnorr_validator demo_secp) (pt_root_asset (tr_prepared r)) [] [(demo_prev, demo_coin)] = Ok ()
    \<and> script_key (pt_root_asset (tr_prepared r)) = to_script_key demo_output
    \<and> unat (amount (pt_root_asset (tr_prepared r))) = 1000)
  \<and> (\<exists>r. execute_transfer_with_options pair_hash demo_secp [split_input] [split_output] demo_genesis
      [(split_prev, demo_coin)] (\<lambda>_ _. Ok (zeros 64)) [replicate 32 2] demo_options = Ok r \<and> is_split (tr_prepared r)
    \<and> vm_execute pair_hash demo_lib (schnorr_validator demo_secp) (pt_root_asset (tr_prepared r)) (recipient_assets (tr_prepared r))
        [(split_prev, demo_coin)] = Ok ()
    \<and> map (\<lambda>s. (sa_output_index s, amount (sa_asset s), script_key (sa_asset s), group_key (sa_asset s))) (recipient_assets (tr_prepared r))
        = [(1, 400, script_key_from_pub_key (replicate 33 3), None)]
    \<and> unat (amount (pt_root_asset (tr_prepared r))) = 600)"
proof (rule conjI, goal_cases)
  case 1
  obtain r where r: "execute_transfer_with_options demo_hash demo_secp [demo_input] [demo_output] demo_genesis
      [(demo_prev, demo_coin)] (\<lambda>_ _. Ok (zeros 64)) [replicate 32 2] demo_options = Ok r"
    "\<not> is_split (tr_prepared r)" "referenced (prev_witnesses (pt_root_asset (tr_prepared r))) = [demo_prev]"
    "recipient_assets (tr_prepared r) = []" by (rule demo_executed)
  have "btc demo_secp = demo_lib" by (simp add: demo_secp_def)
  with executed_transfer_accepted [OF r(1) demo_allocations(1) demo_selected demo_signer demo_allocations(2,3) demo_inputs_separated [OF r(3)]] r
  show ?case by (intro exI [of _ r]) (simp add: demo_input_def demo_output_def [THEN arg_cong, of to_amount])
next
  case 2
  obtain r S' where r: "execute_transfer_with_options pair_hash demo_secp [split_input] [split_output] demo_genesis
      [(split_prev, demo_coin)] (\<lambda>_ _. Ok (zeros 64)) [replicate 32 2] demo_options = Ok r"
    "is_split (tr_prepared r)" "referenced (prev_witnesses (pt_root_asset (tr_prepared r))) = [split_prev]"
    and sep: "splits_separated pair_hash S' (genesis_id pair_hash demo_genesis)
       (split_entries (pt_root_asset (tr_prepared r)) (map (split_of demo_genesis) [split_output]))" by (rule split_executed)
  obtain S where S: "inputs_separated pair_hash S (pt_root_asset (tr_prepared r)) [(split_prev, demo_coin)]"
    by (rule split_input_tree [OF r(3)])
  note accepted = executed_transfer_accepted [OF r(1) split_allocations(1) split_selected demo_signer split_allocations(2,3) S impI, OF sep]
  have "btc demo_secp = demo_lib" by (simp add: demo_secp_def)
  moreover have recs: "map (\<lambda>s. (sa_output_index s, amount (sa_asset s), script_key (sa_asset s), group_key (sa_asset s)))
      (recipient_assets (tr_prepared r)) = [(1, 400, script_key_from_pub_key (replicate 33 3), None)]"
    using accepted r(2) by (simp add: split_output_def)
  moreover have "(\<Sum>s \<leftarrow> recipient_assets (tr_prepared r). unat (amount (sa_asset s))) = 400"
    using arg_cong [OF recs, of "\<lambda>xs. \<Sum>x \<leftarrow> xs. unat (fst (snd x))"] by (simp add: comp_def)
  ultimately show ?case
    using accepted r(1,2) by (intro exI [of _ r]) (simp add: split_input_def demo_input_def)
qed

text \<open>C40: a passive asset of the same asset replaces the change. If one of the passive assets that move along with a transfer has
  the tap key of the root asset (the same asset ID under another script key), then the commitment built for the change output
  does not contain the root asset: merging the passive asset overwrites the whole asset commitment of that tap key. The units
  of the change are then in no output, and no inclusion proof can be made for them.\<close>

theorem passive_replaces_root:
  assumes "rebuild_root_commitment_with_options sha lib no_stxo_proofs pt = Ok pt'"
    and "a \<in> set (passive_assets pt)" "tap_key_of sha a = tap_key_of sha (pt_root_asset pt)"
    and "\<forall>b \<in> set (passive_assets pt). leaf_key_of sha b \<noteq> leaf_key_of sha (pt_root_asset pt)"
  shows "\<nexists>ac. map_of (asset_commitments (change_commitment pt')) (tap_key_of sha (pt_root_asset pt')) = Some ac
    \<and> leaf_key_of sha (pt_root_asset pt') \<in> fst ` set (act_assets ac)"
proof -
  from assms(1) obtain t where "merge_passive sha (passive_assets pt) t = Ok (change_commitment pt')"
    unfolding rebuild_root_commitment_with_options_def Let_def res_simps
    by (elim exE conjE) (auto simp: res_simps split: if_splits)
  from merge_passive_lookup [OF this] assms(2-4) show ?thesis
    unfolding rebuild_fields(1) [OF assms(1)] by force
qed

theorem passive_replaces_root_witness:
  "\<exists>pt pt'. rebuild_root_commitment_with_options demo_hash demo_secp True pt = Ok pt' \<and> pt_root_asset pt' = demo_coin
    \<and> (\<nexists>ac. map_of (asset_commitments (change_commitment pt')) (tap_key_of demo_hash demo_coin) = Some ac
         \<and> leaf_key_of demo_hash demo_coin \<in> fst ` set (act_assets ac))"
proof -
  define a where "a = demo_coin\<lparr>script_key := script_key_from_pub_key (replicate 73 2)\<rparr>"
  have a: "genesis a = demo_genesis" "amount a = 1000" "a_version a = AssetV0" "group_key a = None"
    and coin: "genesis demo_coin = demo_genesis" "amount demo_coin = 1000" "a_version demo_coin = AssetV0" "group_key demo_coin = None"
    by (simp_all add: a_def demo_coin_def new_genesis_def)
  have keys: "tap_key_of demo_hash a = tap_key_of demo_hash demo_coin" by (simp add: tap_key_of_def a coin)
  have "be_u16 (replicate 2 2) = 514" by code_simp
  then have "leaf_key_of demo_hash a \<noteq> leaf_key_of demo_hash demo_coin"
    by (simp add: leaf_key_of_def asset_commitment_key_of_def a(4) coin(4))
      (simp add: a_def demo_coin_def new_genesis_def script_key_from_pub_key_def schnorr_bytes_def demo_hash_def
        demo_digest_def leaf_preimage_def leaf_empty_def leaf_new_def)
  obtain leaf where "asset_leaf demo_hash a = Ok leaf"
    using asset_to_leaf_Ok [OF _ demo_coin_facts(1), of a] by (auto simp: asset_leaf_def a_def)
  then obtain ac t where ac: "act_new demo_hash [a] = Ok ac" by (rule demo_single_commitment [OF a(1)])
  have "asset_leaf demo_hash demo_coin = Ok demo_coin_leaf" using demo_coin_facts(1) by (simp add: asset_leaf_def)
  then obtain rc t where rc: "act_new demo_hash [demo_coin] = Ok rc" and t: "tct_new demo_hash TapV2 [rc] = Ok t"
    "tc_version (tct_commitment t) = TapV2"
    by (rule demo_single_commitment [OF coin(1)])
  let ?k = "tap_key_of demo_hash demo_coin" and ?l = "leaf_new (0 # demo_digest 0 True @ u64_be 1000) 1000"
  have l: "length (leaf_value ?l) \<noteq> 64" "?l \<noteq> leaf_empty" "unat (leaf_sum ?l) = 1000"
    by (simp_all add: leaf_new_def leaf_empty_def demo_digest_def)
  have "tree_insert demo_hash ?k ?l full_tree_new = Ok (tct_tree t)"
    using t(1) act_new_single [OF rc] demo_tap_leaf [OF rc coin] by (auto simp: tct_new_def Let_def res_simps)
  from demo_second_insert [OF l this]
  have up: "fst (tct_upsert demo_hash ac t) = Ok ()"
    using act_new_single [OF ac] demo_tap_leaf [OF ac a] keys t(2) by (auto simp: tct_upsert_def Let_def)
  let ?pt = "\<lparr>pt_root_asset = demo_coin, recipient_assets = [], change_commitment = t, output_commitments = [], is_split = True,
    passive_assets = [a]\<rparr>"
  have "rebuild_root_commitment_with_options demo_hash demo_secp True ?pt
      = Ok (?pt\<lparr>change_commitment := snd (tct_upsert demo_hash ac t)\<rparr>)"
    using rc t ac up by (simp add: rebuild_root_commitment_with_options_def single_commitment_def run_tree_def)
  with passive_replaces_root [OF this, of a] keys \<open>leaf_key_of demo_hash a \<noteq> leaf_key_of demo_hash demo_coin\<close>
  show ?thesis by (intro exI [of _ ?pt] exI conjI) auto
qed

end
