(* ===== verification/Suffix_Verify.thy ===== *)
theory Suffix_Verify
  imports Suffix Send_Accept
begin

text \<open>
  A created proof suffix passes the checks of the verifier: its inclusion proof, the split root proof, the exclusion proofs of
  the other outputs and the proofs of the spent-asset markers.
\<close>

section \<open>Proofs from the tree of an output\<close>

text \<open>The output \<open>idx\<close> of the anchor transaction was made for the commitment tree \<open>t\<close>.\<close>

definition anchors :: "Env \<Rightarrow> AnchorTx \<Rightarrow> u32 \<Rightarrow> SerializedKey \<Rightarrow> TapCommitmentTree \<Rightarrow> TapscriptPreimage option \<Rightarrow> bool" where
  "anchors env anchor idx ik t preimage \<longleftrightarrow> tweakable (sha256 env) (secp env) ik \<and> unat idx < length (atx_output anchor)
     \<and> (\<exists>S g sibling_script script key. tct_reach (sha256 env) S t g
        \<and> create_tap_output_script (sha256 env) (secp env) ik (tct_commitment t) sibling_script = Ok (script, key)
        \<and> sibling_hash (sha256 env) preimage = Ok (map_option (tap_leaf_hash (sha256 env) 0xc0) sibling_script)
        \<and> script_pubkey (atx_output anchor ! unat idx) = script \<and> length key = 32
        \<and> version_readable env ik (map_option (tap_leaf_hash (sha256 env) 0xc0) sibling_script) key (tct_commitment t))"

text \<open>The tree holds the asset in the form it is committed to.\<close>

definition holds :: "hash_fun \<Rightarrow> TapCommitmentTree \<Rightarrow> Asset \<Rightarrow> bool" where
  "holds sha t a \<longleftrightarrow> (\<exists>cp. tct_proof sha (tap_key_of sha a) (leaf_key_of sha a) t = Ok (Some (without_split_commitment a), cp))"

lemma similar_versions: "is_similar_tap_commitment_version (Some a) (Some b) \<longleftrightarrow> (a = TapV2 \<longleftrightarrow> b = TapV2)"
  by (cases a; cases b) (simp_all add: is_similar_tap_commitment_version_def)

lemma anchored_proof_verifies:
  assumes "anchors env anchor idx ik t preimage"
    and "tct_proof (sha256 env) (tap_key_of (sha256 env) a) (leaf_key_of (sha256 env) a) t = Ok (stored, cp)"
    and "inclusion \<longleftrightarrow> stored \<noteq> None" "stored \<noteq> None \<longrightarrow> holds (sha256 env) t a"
  shows "\<exists>c. verify_taproot_proof env anchor (output_proof idx ik preimage cp) a inclusion = Ok (Some c)
    \<and> (tc_version c = TapV2 \<longleftrightarrow> tc_version (tct_commitment t) = TapV2)"
proof -
  from assms(1) obtain S g sibling_script script key where "tct_reach (sha256 env) S t g" "tweakable (sha256 env) (secp env) ik"
    "create_tap_output_script (sha256 env) (secp env) ik (tct_commitment t) sibling_script = Ok (script, key)"
    "sibling_hash (sha256 env) preimage = Ok (map_option (tap_leaf_hash (sha256 env) 0xc0) sibling_script)"
    "unat idx < length (atx_output anchor)" "script_pubkey (atx_output anchor ! unat idx) = script" "length key = 32"
    and ver: "version_readable env ik (map_option (tap_leaf_hash (sha256 env) 0xc0) sibling_script) key (tct_commitment t)"
    unfolding anchors_def by blast
  from anchored_proofs_read [OF this(1-7), of a] ver assms(2-4) show ?thesis
    by (auto simp: holds_def similar_versions split: option.splits)
qed

text \<open>Markers of spent inputs and sibling preimages do not enter the verification of a taproot proof.\<close>

lemma sibling_proof:
  assumes "tct_proof sha tk ak t = Ok (stored, cp)"
  shows "set_sibling s cp = CommitmentProof (cp_asset_proof cp) (cp_taproot_asset_proof cp) s [] []"
  by (subst (1) tct_proof_shape [OF assms, symmetric]) (simp add: set_sibling_def)

lemma verify_set_stxo:
  assumes "tr_commitment_proof tp = Some cp"
  shows "verify_taproot_proof env anchor (tp\<lparr>tr_commitment_proof := Some (set_stxo stxo cp)\<rparr>) a inclusion
    = verify_taproot_proof env anchor tp a inclusion"
proof -
  let ?tp = "tp\<lparr>tr_commitment_proof := Some (set_stxo stxo cp)\<rparr>"
  have "keys_by_asset_inclusion env ?tp a = keys_by_asset_inclusion env tp a"
    using assms by (cases "tr_tapscript_proof tp")
      (simp_all add: keys_by_asset_inclusion_def commitment_proof_of_def set_stxo_def derive_same_proof)
  moreover have "keys_by_asset_exclusion env ?tp ack tck = keys_by_asset_exclusion env tp ack tck" for ack tck
    unfolding keys_by_asset_exclusion_def commitment_proof_of_def set_stxo_def using assms
    by (cases "tr_tapscript_proof tp") (simp_all, unfold derive_same_proof, simp)
  ultimately show ?thesis using assms by (cases inclusion) (simp_all add: verify_taproot_proof_def)
qed

section \<open>Spent-asset markers\<close>

definition marker :: "SerializedKey \<Rightarrow> Asset" where
  "marker k = new_alt_leaf (script_key_from_pub_key k) 0"

lemma marker_simps [simp]:
  "sk_pub_key (script_key (marker k)) = k" "without_split_commitment (marker k) = marker k"
  "tap_key_of sha (marker k) = EMPTY_GENESIS_ID sha" "asset_commitment_key sha (marker k) = leaf_key_of sha (marker k)"
  by (simp_all add: marker_def new_alt_leaf_def script_key_from_pub_key_def without_split_commitment_def
      has_split_commitment_witness_def is_split_commitment_def tap_key_of_def tap_commitment_key_def EMPTY_GENESIS_ID_def
      asset_commitment_key_def leaf_key_of_def asset_commitment_key_of_def)

lemma collect_stxo_markers:
  assumes "collect_stxo sha lib a = Ok ms" "is_transfer_root a"
  shows "ms = map (\<lambda>m. marker (sk_pub_key (script_key m))) ms" "ms \<noteq> []"
proof -
  from assms have ne: "prev_witnesses a \<noteq> []" and ms: "list_all2 (\<lambda>w m. make_spent_asset sha lib w = Ok m) (prev_witnesses a) ms"
    by (auto simp: collect_stxo_def map_res_Ok split: if_splits)
  from ms have "\<forall>m \<in> set ms. m = marker (sk_pub_key (script_key m))"
    by (auto simp: make_spent_asset_def res_simps marker_def new_alt_leaf_def script_key_from_pub_key_def dest: list_all2_right)
  then show "ms = map (\<lambda>m. marker (sk_pub_key (script_key m))) ms" by (simp add: map_idI)
  show "ms \<noteq> []" using ms ne by auto
qed

text \<open>What the two loops collect.\<close>

lemma btree_insert_subset: "set (btree_insert k v kvs) \<subseteq> insert (k, v) (set kvs)"
  by (induction k v kvs rule: btree_insert.induct) auto

lemma btree_insert_member:
  "x \<in> set (btree_insert k v kvs) \<Longrightarrow> x = (k, v) \<or> x \<in> set kvs"
  using btree_insert_subset [of k v kvs] by auto

definition marker_proven :: "hash_fun \<Rightarrow> TapCommitmentTree \<Rightarrow> bool \<Rightarrow> Asset list \<Rightarrow> SerializedKey \<times> CommitmentProof \<Rightarrow> bool" where
  "marker_proven sha t present ms x \<longleftrightarrow> (\<exists>m stored. m \<in> set ms \<and> sk_pub_key (script_key m) = fst x \<and> (present \<longleftrightarrow> stored \<noteq> None)
     \<and> tct_proof sha (EMPTY_GENESIS_ID sha) (asset_commitment_key sha m) t = Ok (stored, snd x))"

lemma marker_proven_Cons:
  "marker_proven sha t present ms x \<Longrightarrow> marker_proven sha t present (m # ms) x"
  by (auto simp: marker_proven_def)

lemma stxo_inclusions_collected:
  assumes "stxo_inclusion_proofs sha t ms acc = Ok res"
  shows "fst ` set res = fst ` set acc \<union> (\<lambda>m. sk_pub_key (script_key m)) ` set ms
    \<and> (\<forall>x \<in> set res. x \<in> set acc \<or> marker_proven sha t True ms x)"
  using assms
proof (induction ms arbitrary: acc)
  case (Cons m ms)
  from Cons.prems obtain found cp where b: "tct_proof sha (EMPTY_GENESIS_ID sha) (asset_commitment_key sha m) t = Ok (found, cp)"
    "found \<noteq> None" and rest: "stxo_inclusion_proofs sha t ms (btree_insert (sk_pub_key (script_key m)) cp acc) = Ok res"
    unfolding stxo_inclusion_proofs.simps res_simps by (auto split: if_splits)
  have "marker_proven sha t True (m # ms) (sk_pub_key (script_key m), cp)" using b by (auto simp: marker_proven_def)
  with Cons.IH [OF rest] show ?case
    by (auto simp: btree_insert_keys dest: btree_insert_member marker_proven_Cons)
qed simp

lemma stxo_exclusions_collected:
  assumes "stxo_exclusion_proofs sha t ms acc = Ok res"
  shows "fst ` set res = fst ` set acc \<union> (\<lambda>m. sk_pub_key (script_key m)) ` set ms
    \<and> (\<forall>x \<in> set res. x \<in> set acc \<or> marker_proven sha t False ms x)"
  using assms
proof (induction ms arbitrary: acc)
  case (Cons m ms)
  from Cons.prems obtain cp where b: "tct_proof sha (EMPTY_GENESIS_ID sha) (asset_commitment_key sha m) t = Ok (None, cp)"
    and rest: "stxo_exclusion_proofs sha t ms (btree_insert (sk_pub_key (script_key m)) cp acc) = Ok res"
    unfolding stxo_exclusion_proofs.simps res_simps by (auto split: if_splits)
  have "marker_proven sha t False (m # ms) (sk_pub_key (script_key m), cp)" using b by (auto simp: marker_proven_def)
  with Cons.IH [OF rest] show ?case
    by (auto simp: btree_insert_keys dest: btree_insert_member marker_proven_Cons)
qed simp

section \<open>Verification of markers\<close>

lemma fold_mark_verified:
  assumes "\<forall>ks. map_of outputs idx = Some ks \<longrightarrow> ks \<noteq> [] \<and> set ks \<subseteq> fst ` set xs"
  shows "fold (\<lambda>(k, _). mark_verified idx k) xs outputs = filter (\<lambda>(i, _). i \<noteq> idx) outputs"
  using assms
proof (induction xs arbitrary: outputs)
  case Nil
  then have "map_of outputs idx = None" by (cases "map_of outputs idx") auto
  then have "\<forall>x \<in> set outputs. fst x \<noteq> idx" by (auto simp: map_of_eq_None_iff)
  then show ?case by (simp add: filter_True split_def)
next
  case (Cons x xs)
  obtain k v where x: "x = (k, v)" by (cases x)
  show ?case
  proof (cases "map_of outputs idx")
    case None
    with Cons.IH [of outputs] show ?thesis by (simp add: x mark_verified_def)
  next
    case (Some ks)
    let ?out = "mark_verified idx k outputs" and ?ks = "removeAll k ks"
    have upd: "map_of (map (\<lambda>(i, ks). if i = idx then (i, ?ks) else (i, ks)) outputs) idx = Some ?ks"
      using Some by (induction outputs) (auto split: if_splits)
    have flt: "filter (\<lambda>(i, _). i \<noteq> idx) (map (\<lambda>(i, ks). if i = idx then (i, ?ks) else (i, ks)) outputs)
        = filter (\<lambda>(i, _). i \<noteq> idx) outputs"
      by (induction outputs) auto
    have none: "map_of (filter (\<lambda>(i, _). i \<noteq> idx) outputs) idx = None" by (auto simp: map_of_eq_None_iff)
    have "set ks \<subseteq> insert k (fst ` set xs)" using Cons.prems Some x by simp
    then have "fold (\<lambda>(k, _). mark_verified idx k) xs ?out = filter (\<lambda>(i, _). i \<noteq> idx) ?out"
      using Some upd none by (intro Cons.IH) (auto simp: mark_verified_def Let_def)
    moreover have "filter (\<lambda>(i, _). i \<noteq> idx) ?out = filter (\<lambda>(i, _). i \<noteq> idx) outputs"
      using Some flt by (simp add: mark_verified_def Let_def)
    ultimately show ?thesis by (simp add: x)
  qed
qed

lemma map_of_function: "\<forall>x \<in> set xs. snd x = f (fst x) \<Longrightarrow> k \<in> fst ` set xs \<Longrightarrow> map_of xs k = Some (f k)"
  by (induction xs) auto

text \<open>A taproot proof for the output \<open>idx\<close>, with whatever markers.\<close>

definition proof_for :: "u32 \<Rightarrow> SerializedKey \<Rightarrow> TapscriptPreimage option \<Rightarrow> TaprootProof \<Rightarrow> bool" where
  "proof_for idx ik preimage tp \<longleftrightarrow> tr_output_index tp = idx \<and> tr_internal_key tp = ik \<and> tr_tapscript_proof tp = None
     \<and> tr_unknown_odd_types tp = [] \<and> (\<exists>cp. tr_commitment_proof tp = Some cp \<and> cp_tap_sibling_preimage cp = preimage)"

lemma make_stxo_output_proof:
  assumes "proof_for idx ik preimage base" "tct_proof sha tk ak t = Ok (stored, cp)"
  shows "make_stxo_proof base cp = Ok (output_proof idx ik preimage cp)"
proof -
  have "cp_unknown_odd_types cp = []" by (subst tct_proof_shape [OF assms(2), symmetric]) simp
  with assms(1) show ?thesis by (cases base) (auto simp: make_stxo_proof_def proof_for_def output_proof_def)
qed

lemma verify_markers:
  assumes "anchors env anchor idx ik t preimage" "proof_for idx ik preimage base"
    and "\<forall>m \<in> set ms. m = marker (sk_pub_key (script_key m)) \<and> (present \<longrightarrow> holds (sha256 env) t m)"
    and "\<forall>m \<in> set ms. asset_map (sk_pub_key (script_key m)) = Some m"
    and "\<forall>x \<in> set xs. marker_proven (sha256 env) t present ms x"
  shows "verify_stxo_loop env anchor base asset_map present xs outputs = Ok (fold (\<lambda>(k, _). mark_verified idx k) xs outputs)"
  using assms(5)
proof (induction xs arbitrary: outputs)
  case (Cons x xs)
  then obtain m stored where m: "m \<in> set ms" "sk_pub_key (script_key m) = fst x" "present \<longleftrightarrow> stored \<noteq> None"
    "tct_proof (sha256 env) (EMPTY_GENESIS_ID (sha256 env)) (asset_commitment_key (sha256 env) m) t = Ok (stored, snd x)"
    by (auto simp: marker_proven_def)
  have mk: "m = marker (fst x)" using assms(3) m(1,2) by metis
  then have "tct_proof (sha256 env) (tap_key_of (sha256 env) m) (leaf_key_of (sha256 env) m) t = Ok (stored, snd x)"
    using m(4) by simp
  from anchored_proof_verifies [OF assms(1) this m(3)] assms(3) m(1,3) obtain c where
    "verify_taproot_proof env anchor (output_proof idx ik preimage (snd x)) m present = Ok (Some c)" by blast
  moreover have "asset_map (fst x) = Some m" using assms(4) m(1,2) by metis
  moreover have "make_stxo_proof base (snd x) = Ok (output_proof idx ik preimage (snd x))"
    by (rule make_stxo_output_proof [OF assms(2) m(4)])
  ultimately show ?case using Cons.IH [of "mark_verified idx (fst x) outputs"] Cons.prems by (cases x) simp
qed simp

section \<open>Verification of exclusion proofs\<close>

text \<open>An output besides the one of the asset: made for a commitment of the version class \<open>v2\<close>, or for no commitment at all.\<close>

definition other_ok :: "Env \<Rightarrow> AnchorTx \<Rightarrow> bool \<Rightarrow> AnchorOutputInfo \<Rightarrow> bool" where
  "other_ok env anchor v2 out \<longleftrightarrow>
     (case ao_commitment out of
        Some t \<Rightarrow> anchors env anchor (ao_output_index out) (ao_internal_key out) t (ao_tapscript_sibling out)
          \<and> (tc_version (tct_commitment t) = TapV2 \<longleftrightarrow> v2)
      | None \<Rightarrow> \<exists>key. taproot_output_key (sha256 env) (secp env) (ao_internal_key out) [] = Ok key
          \<and> pays_to anchor (ao_output_index out) key)"

text \<open>A verifying exclusion proof, with the class of the version it shows.\<close>

definition excludes :: "Env \<Rightarrow> AnchorTx \<Rightarrow> Asset \<Rightarrow> bool \<Rightarrow> TaprootProof \<Rightarrow> bool" where
  "excludes env anchor a v2 ep \<longleftrightarrow> (\<exists>r. verify_taproot_proof env anchor ep a False = Ok r
     \<and> (r \<noteq> None \<longleftrightarrow> tr_commitment_proof ep \<noteq> None) \<and> (\<forall>c. r = Some c \<longrightarrow> (tc_version c = TapV2 \<longleftrightarrow> v2)))"

lemma exclusion_verifies:
  assumes "other_ok env anchor v2 out"
    and "exclusion_proof (sha256 env) (tap_key_of (sha256 env) a) (leaf_key_of (sha256 env) a) out = Ok ep"
  shows "excludes env anchor a v2 ep" "tr_output_index ep = ao_output_index out"
    "ao_commitment out = None \<longrightarrow> tr_commitment_proof ep = None \<and> tr_tapscript_proof ep \<noteq> None"
    "ao_commitment out \<noteq> None \<longrightarrow> proof_for (ao_output_index out) (ao_internal_key out) (ao_tapscript_sibling out) ep"
proof (atomize (full), cases "ao_commitment out")
  case None
  with assms(1) obtain key where "taproot_output_key (sha256 env) (secp env) (ao_internal_key out) [] = Ok key"
    "pays_to anchor (ao_output_index out) key" by (auto simp: other_ok_def)
  with None assms(2) show "(excludes env anchor a v2 ep \<and> tr_output_index ep = ao_output_index out)
      \<and> (ao_commitment out = None \<longrightarrow> tr_commitment_proof ep = None \<and> tr_tapscript_proof ep \<noteq> None)
      \<and> (ao_commitment out \<noteq> None \<longrightarrow> proof_for (ao_output_index out) (ao_internal_key out) (ao_tapscript_sibling out) ep)"
    by (auto simp: exclusion_proof_def excludes_def verify_taproot_proof_def pays_to_extract key_by_tapscript_proof_def
        opt_preimage_is_empty_def)
next
  case (Some t)
  with assms(2) obtain cp where cp: "tct_proof (sha256 env) (tap_key_of (sha256 env) a) (leaf_key_of (sha256 env) a) t = Ok (None, cp)"
    "ep = \<lparr>tr_output_index = ao_output_index out, tr_internal_key = ao_internal_key out,
       tr_commitment_proof = Some (set_sibling (ao_tapscript_sibling out) cp), tr_tapscript_proof = None, tr_unknown_odd_types = []\<rparr>"
    by (auto simp: exclusion_proof_def res_simps split: if_splits)
  then have "ep = output_proof (ao_output_index out) (ao_internal_key out) (ao_tapscript_sibling out) cp"
    using sibling_proof [OF cp(1)] by (simp add: output_proof_def)
  with anchored_proof_verifies [OF _ cp(1), of anchor "ao_output_index out" "ao_internal_key out" "ao_tapscript_sibling out" False]
    assms(1) Some show "(excludes env anchor a v2 ep \<and> tr_output_index ep = ao_output_index out)
      \<and> (ao_commitment out = None \<longrightarrow> tr_commitment_proof ep = None \<and> tr_tapscript_proof ep \<noteq> None)
      \<and> (ao_commitment out \<noteq> None \<longrightarrow> proof_for (ao_output_index out) (ao_internal_key out) (ao_tapscript_sibling out) ep)"
    by (auto simp: other_ok_def excludes_def proof_for_def output_proof_def)
qed

lemma v0_loop_verifies:
  assumes "\<forall>ep \<in> set eps. excludes env (anchor_tx p) (asset p) v2 ep"
  shows "\<exists>vs. verify_v0_loop env p eps outputs versions = Ok (filter (\<lambda>i. i \<notin> tr_output_index ` set eps) outputs, versions @ vs)
    \<and> (\<forall>x \<in> set vs. snd x = TapV2 \<longleftrightarrow> v2) \<and> (vs \<noteq> [] \<longrightarrow> (\<exists>ep \<in> set eps. tr_commitment_proof ep \<noteq> None))"
  using assms
proof (induction eps arbitrary: outputs versions)
  case (Cons ep eps)
  from Cons.prems obtain r where r: "verify_taproot_proof env (anchor_tx p) ep (asset p) False = Ok r"
    "r \<noteq> None \<longleftrightarrow> tr_commitment_proof ep \<noteq> None" "\<forall>c. r = Some c \<longrightarrow> (tc_version c = TapV2 \<longleftrightarrow> v2)" by (auto simp: excludes_def)
  have "filter (\<lambda>i. i \<notin> tr_output_index ` set eps) (removeAll (tr_output_index ep) outputs)
      = filter (\<lambda>i. i \<notin> tr_output_index ` set (ep # eps)) outputs" by (induction outputs) auto
  with Cons.IH [of "removeAll (tr_output_index ep) outputs"] Cons.prems r show ?case
    by (cases r) (force simp: removeAll_filter_not_eq)+
qed simp

text \<open>An exclusion proof that shows the markers absent.\<close>

definition excludes_markers :: "Env \<Rightarrow> AnchorTx \<Rightarrow> (SerializedKey \<rightharpoonup> Asset) \<Rightarrow> SerializedKey set \<Rightarrow> TaprootProof \<Rightarrow> bool" where
  "excludes_markers env anchor amap keys ep \<longleftrightarrow>
     (case tr_commitment_proof ep of
        None \<Rightarrow> tr_tapscript_proof ep \<noteq> None
      | Some cp \<Rightarrow> tr_tapscript_proof ep = None \<and> cp_stxo_proofs cp \<noteq> [] \<and>
          (\<forall>outputs. (\<forall>x \<in> set outputs. snd x \<noteq> [] \<and> set (snd x) \<subseteq> keys) \<longrightarrow>
             verify_stxo_proof_set env anchor ep amap False outputs = Ok (filter (\<lambda>(i, _). i \<noteq> tr_output_index ep) outputs)))"

lemma v1_loop_verifies:
  assumes "\<forall>ep \<in> set eps. excludes_markers env (anchor_tx p) amap keys ep" "\<forall>x \<in> set outputs. snd x \<noteq> [] \<and> set (snd x) \<subseteq> keys"
  shows "verify_v1_loop env p amap eps outputs = Ok (filter (\<lambda>(i, _). i \<notin> tr_output_index ` set eps) outputs)"
  using assms
proof (induction eps arbitrary: outputs)
  case (Cons ep eps)
  let ?out = "filter (\<lambda>(i, _). i \<noteq> tr_output_index ep) outputs"
  have "verify_v1_loop env p amap (ep # eps) outputs = verify_v1_loop env p amap eps ?out"
    using Cons.prems by (cases "tr_commitment_proof ep") (auto simp: excludes_markers_def)
  also have "\<dots> = Ok (filter (\<lambda>(i, _). i \<notin> tr_output_index ` set eps) ?out)"
    using Cons.prems by (intro Cons.IH) auto
  also have "filter (\<lambda>(i, _). i \<notin> tr_output_index ` set eps) ?out = filter (\<lambda>(i, _). i \<notin> tr_output_index ` set (ep # eps)) outputs"
    by (simp add: conj_commute split_def)
  finally show ?case .
qed simp

lemma consistent_versions:
  assumes "versions \<noteq> []" "\<forall>x \<in> set versions. snd x = TapV2 \<longleftrightarrow> v2"
  shows "\<exists>v. assert_version_consistency versions = Ok (Some v) \<and> (v = TapV2 \<longleftrightarrow> v2)"
  using assms by (cases versions) (force simp: assert_version_consistency_def similar_versions list_all_iff)+

lemma exclusions_verify:
  assumes "\<forall>ep \<in> set (exclusion_proofs p). excludes env (anchor_tx p) (asset p) v2 ep"
    and "set (other_p2tr_outputs p) \<subseteq> tr_output_index ` set (exclusion_proofs p)"
    and "is_transfer_root (asset p) \<longrightarrow>
      \<not> is_version_v1 p \<and> (\<forall>ep \<in> set (exclusion_proofs p). \<not> has_stxo_proofs ep)
      \<or> (\<exists>amap. stxo_asset_map env (asset p) = Ok amap \<and> amap \<noteq> []
          \<and> (\<forall>ep \<in> set (exclusion_proofs p). excludes_markers env (anchor_tx p) (map_of amap) (fst ` set amap) ep)
          \<and> ((\<exists>ep \<in> set (exclusion_proofs p). tr_commitment_proof ep \<noteq> None) \<longrightarrow> tr_commitment_proof (hd (exclusion_proofs p)) \<noteq> None))"
  shows "\<exists>r. verify_exclusion_proofs env p = Ok r \<and> (\<forall>v. r = Some v \<longrightarrow> (v = TapV2 \<longleftrightarrow> v2))"
proof -
  let ?eps = "exclusion_proofs p" and ?outs = "other_p2tr_outputs p"
  from v0_loop_verifies [OF assms(1), of ?outs "[]"] obtain vs where
    loop: "verify_v0_loop env p ?eps ?outs [] = Ok (filter (\<lambda>i. i \<notin> tr_output_index ` set ?eps) ?outs, vs)"
    and v0: "\<forall>x \<in> set vs. snd x = TapV2 \<longleftrightarrow> v2"
    and some: "vs \<noteq> [] \<longrightarrow> (\<exists>ep \<in> set ?eps. tr_commitment_proof ep \<noteq> None)"
    unfolding append_Nil by blast
  have "filter (\<lambda>i. i \<notin> tr_output_index ` set ?eps) ?outs = []" using assms(2) by (auto simp: filter_empty_conv)
  with loop v0 have v0: "verify_v0_exclusion_proofs env p ?outs = Ok vs" "\<forall>x \<in> set vs. snd x = TapV2 \<longleftrightarrow> v2"
    by (simp_all add: verify_v0_exclusion_proofs_def)
  show ?thesis
  proof (cases "?outs = [] \<or> vs = []")
    case True
    then have "verify_exclusion_proofs env p = Ok None" using v0(1) by (cases "?outs = []") (simp_all add: verify_exclusion_proofs_def)
    then show ?thesis by simp
  next
    case False
    let ?has = "case ?eps of ep # _ \<Rightarrow> has_stxo_proofs ep | [] \<Rightarrow> False"
    obtain v where v: "assert_version_consistency vs = Ok (Some v)" "v = TapV2 \<longleftrightarrow> v2" using consistent_versions False v0(2) by blast
    obtain ep eps where eps: "?eps = ep # eps" using some False by (cases ?eps) auto
    consider "\<not> is_transfer_root (asset p) \<or> \<not> is_version_v1 p \<and> \<not> ?has"
      | amap where "is_transfer_root (asset p)" "stxo_asset_map env (asset p) = Ok amap" "amap \<noteq> []"
          "\<forall>ep \<in> set ?eps. excludes_markers env (anchor_tx p) (map_of amap) (fst ` set amap) ep" "tr_commitment_proof (hd ?eps) \<noteq> None"
      using assms(3) some False eps by auto
    then show ?thesis
    proof cases
      case 1
      with False v0 v show ?thesis by (auto simp: verify_exclusion_proofs_def Let_def)
    next
      case 2
      then have has: "?has" by (auto simp: eps has_stxo_proofs_def excludes_markers_def split: option.splits)
      have "verify_v1_loop env p (map_of amap) ?eps (map (\<lambda>i. (i, remdups (map fst amap))) ?outs)
          = Ok (filter (\<lambda>(i, _). i \<notin> tr_output_index ` set ?eps) (map (\<lambda>i. (i, remdups (map fst amap))) ?outs))"
        using 2(3,4) by (intro v1_loop_verifies) auto
      also have "filter (\<lambda>(i, _). i \<notin> tr_output_index ` set ?eps) (map (\<lambda>i. (i, remdups (map fst amap))) ?outs) = []"
        using assms(2) by (auto simp: filter_empty_conv)
      finally have "verify_v1_exclusion_proofs env p ?outs = Ok ()" using 2(2) by (simp add: verify_v1_exclusion_proofs_def)
      with False v0 v has 2(1) show ?thesis by (auto simp: verify_exclusion_proofs_def Let_def)
    qed
  qed
qed

section \<open>Proof suffixes\<close>

lemma markers_of:
  assumes "is_transfer_root a" "collect_stxo (sha256 env) (secp env) a = Ok ms"
  defines "amap \<equiv> rev (map (\<lambda>m. (sk_pub_key (script_key m), m)) ms)"
  shows "stxo_asset_map env a = Ok amap" "amap \<noteq> []" "fst ` set amap = (\<lambda>m. sk_pub_key (script_key m)) ` set ms"
    "\<forall>m \<in> set ms. m = marker (sk_pub_key (script_key m)) \<and> map_of amap (sk_pub_key (script_key m)) = Some m"
proof -
  note mk = collect_stxo_markers [OF assms(2,1)]
  have m: "m = marker (sk_pub_key (script_key m))" if "m \<in> set ms" for m
    using mk(1) that by (metis (no_types, lifting) in_set_conv_nth length_map nth_map)
  show "stxo_asset_map env a = Ok amap" "amap \<noteq> []" "fst ` set amap = (\<lambda>m. sk_pub_key (script_key m)) ` set ms"
    using assms(2) mk(2) by (simp_all add: amap_def stxo_asset_map_def image_image)
  have "map_of amap (sk_pub_key (script_key m)) = Some (marker (sk_pub_key (script_key m)))" if "m \<in> set ms" for m
    using that m by (intro map_of_function) (auto simp: amap_def image_image)
  with m show "\<forall>m \<in> set ms. m = marker (sk_pub_key (script_key m)) \<and> map_of amap (sk_pub_key (script_key m)) = Some m" by metis
qed

lemma marker_set_verifies:
  assumes "anchors env anchor idx ik t preimage" "proof_for idx ik preimage base" "tr_commitment_proof base = Some cp"
    and "\<forall>m \<in> set ms. m = marker (sk_pub_key (script_key m)) \<and> amap (sk_pub_key (script_key m)) = Some m"
    and "present \<longrightarrow> (\<forall>m \<in> set ms. holds (sha256 env) t m)"
    and "fst ` set (cp_stxo_proofs cp) = (\<lambda>m. sk_pub_key (script_key m)) ` set ms"
    and "\<forall>x \<in> set (cp_stxo_proofs cp). marker_proven (sha256 env) t present ms x"
    and "\<forall>x \<in> set outputs. snd x \<noteq> [] \<and> set (snd x) \<subseteq> (\<lambda>m. sk_pub_key (script_key m)) ` set ms"
  shows "verify_stxo_proof_set env anchor base amap present outputs = Ok (filter (\<lambda>(i, _). i \<noteq> idx) outputs)"
proof -
  have "verify_stxo_loop env anchor base amap present (cp_stxo_proofs cp) outputs
      = Ok (fold (\<lambda>(k, _). mark_verified idx k) (cp_stxo_proofs cp) outputs)"
    using assms(4,5,7) by (intro verify_markers [OF assms(1,2), of ms]) auto
  also have "fold (\<lambda>(k, _). mark_verified idx k) (cp_stxo_proofs cp) outputs = filter (\<lambda>(i, _). i \<noteq> idx) outputs"
    using assms(6,8) by (intro fold_mark_verified) (force dest: map_of_SomeD)
  finally show ?thesis using assms(3) by (simp add: verify_stxo_proof_set_def)
qed

lemma inclusion_verifies:
  assumes "verify_taproot_proof env (anchor_tx p) (inclusion_proof p) (asset p) True = Ok (Some c)"
    and "is_transfer_root (asset p) \<longrightarrow> \<not> is_version_v1 p \<and> \<not> has_stxo_proofs (inclusion_proof p)
      \<or> has_stxo_proofs (inclusion_proof p) \<and> (\<exists>amap. stxo_asset_map env (asset p) = Ok amap
          \<and> verify_stxo_proof_set env (anchor_tx p) (inclusion_proof p) (map_of amap) True
              [(tr_output_index (inclusion_proof p), remdups (map fst amap))] = Ok [])"
  shows "verify_inclusion_proof env p = Ok c"
  using assms by (auto simp: verify_inclusion_proof_def Let_def)

text \<open>A transfer whose asset outputs \<open>outs\<close> and plain outputs \<open>bips\<close> are anchored in \<open>tx\<close>; all commitments have versions
  of the same class, outputs with the same index are the same output, and no other taproot output exists.\<close>

definition transfer_anchored :: "Env \<Rightarrow> AnchorTx \<Rightarrow> OutputProofInfo list \<Rightarrow> Bip86Output list \<Rightarrow> bool \<Rightarrow> bool" where
  "transfer_anchored env tx outs bips v2 \<longleftrightarrow>
     (\<forall>out \<in> set outs. anchors env tx (oi_anchor_output_index out) (oi_internal_key out) (oi_commitment out) (oi_tapscript_sibling out)
        \<and> (tc_version (tct_commitment (oi_commitment out)) = TapV2 \<longleftrightarrow> v2) \<and> holds (sha256 env) (oi_commitment out) (oi_asset out)
        \<and> (\<forall>out' \<in> set outs. oi_anchor_output_index out' = oi_anchor_output_index out \<longrightarrow> other_asset_output out' = other_asset_output out))
     \<and> (\<forall>b \<in> set bips. \<exists>key. taproot_output_key (sha256 env) (secp env) (bo_internal_key b) [] = Ok key
        \<and> pays_to tx (bo_output_index b) key)
     \<and> (\<forall>j < length (atx_output tx). is_pay_to_taproot (script_pubkey (atx_output tx ! j)) \<longrightarrow>
        of_nat j \<in> oi_anchor_output_index ` set outs \<union> bo_output_index ` set bips)"

lemma others_ok:
  assumes "transfer_anchored env tx outs bips v2" "out \<in> set (other_outputs outs i bips)"
  shows "other_ok env tx v2 out"
  using assms by (auto simp: transfer_anchored_def other_outputs_def other_ok_def other_asset_output_def other_bip86_output_def
      in_set_enumerate_eq)

lemma other_outputs_members:
  "j < length outs \<Longrightarrow> j \<noteq> i \<Longrightarrow> other_asset_output (outs ! j) \<in> set (other_outputs outs i bips)"
  "b \<in> set bips \<Longrightarrow> other_bip86_output b \<in> set (other_outputs outs i bips)"
  by (force simp: other_outputs_def in_set_enumerate_eq) (simp add: other_outputs_def)

lemma other_outputs_indices:
  assumes "x \<in> oi_anchor_output_index ` set outs \<union> bo_output_index ` set bips" "x \<noteq> oi_anchor_output_index (outs ! i)"
  shows "x \<in> ao_output_index ` set (other_outputs outs i bips)"
  using assms(1)
proof
  assume "x \<in> oi_anchor_output_index ` set outs"
  then obtain j where "j < length outs" "x = oi_anchor_output_index (outs ! j)" by (auto simp: in_set_conv_nth)
  moreover from this assms(2) have "other_asset_output (outs ! j) \<in> set (other_outputs outs i bips)" by (metis other_outputs_members(1))
  ultimately show ?thesis by (metis AnchorOutputInfo.select_convs(1) image_eqI other_asset_output_def)
next
  assume "x \<in> bo_output_index ` set bips"
  then obtain b where "b \<in> set bips" "x = bo_output_index b" by auto
  then show ?thesis by (metis AnchorOutputInfo.select_convs(1) image_eqI other_bip86_output_def other_outputs_members(2))
qed

definition set_tweak :: "TweakedScriptKey option \<Rightarrow> Asset \<Rightarrow> Asset" where
  "set_tweak tw a = a\<lparr>script_key := (script_key a)\<lparr>sk_tweaked := tw\<rparr>\<rparr>"

lemma set_tweak_irrelevant:
  "keys_by_asset_inclusion env tp (set_tweak tw a) = keys_by_asset_inclusion env tp a"
proof -
  have "without_split_commitment (set_tweak tw a) = set_tweak tw (without_split_commitment a)"
    by (simp add: without_split_commitment_def set_tweak_def has_split_commitment_witness_def)
  moreover have "encode_asset sha (set_tweak tw a) ty = encode_asset sha a ty" for sha a ty
    by (simp add: set_tweak_def encode_asset_def)
  then have "asset_leaf sha (set_tweak tw a) = asset_leaf sha a" for sha a
    by (cases "a_version a") (simp_all add: asset_leaf_def asset_to_leaf_def encode_asset_leaf_def set_tweak_def)
  moreover have "leaf_key_of sha (set_tweak tw a) = leaf_key_of sha a" for sha a by (simp add: set_tweak_def leaf_key_of_def)
  ultimately show ?thesis by (simp add: keys_by_asset_inclusion_def)
qed

text \<open>The split root proof verifies, for the root asset as it is read from the wire.\<close>

definition root_on_wire :: "Env \<Rightarrow> Asset \<Rightarrow> bool" where
  "root_on_wire env b \<longleftrightarrow> (\<exists>tw. decode_asset (sha256 env) (pub_key_valid (secp env)) (encode_asset (sha256 env) b EncodeNormal)
     = Ok (set_tweak tw b))"

lemma split_root_verifies:
  assumes "transfer_anchored env tx outs bips v2" "create_split_root_proof (sha256 env) target outs = Ok srp"
    and "\<forall>out \<in> set outs. split_commitment_root (oi_asset out) \<noteq> None \<longrightarrow> root_on_wire env (without_split_commitment (oi_asset out))"
    and "anchor_tx p = tx" "asset p = oi_asset target" "split_root_proof p = Some srp"
  shows "verify_split_root_proof env p = Ok ()"
proof -
  let ?sha = "sha256 env"
  from assms(2) obtain out root cp w ws sc where out: "out \<in> set outs" "split_commitment_root (oi_asset out) \<noteq> None"
    and cp: "tct_proof ?sha (tap_key_of ?sha (oi_asset out)) (leaf_key_of ?sha (oi_asset out)) (oi_commitment out) = Ok (Some root, cp)"
    and w: "prev_witnesses (oi_asset target) = w # ws" "split_commitment w = Some sc" "sc_root_asset sc = encode_asset ?sha root EncodeNormal"
    and srp: "srp = \<lparr>tr_output_index = oi_anchor_output_index out, tr_internal_key = oi_internal_key out,
       tr_commitment_proof = Some (set_sibling (oi_tapscript_sibling out) cp), tr_tapscript_proof = None, tr_unknown_odd_types = []\<rparr>"
    by (auto simp: create_split_root_proof_def Let_def res_simps split: if_splits list.splits dest!: find_SomeD)
  note tr = assms(1) [unfolded transfer_anchored_def] 
  have "holds ?sha (oi_commitment out) (oi_asset out)" using tr out(1) by blast
  with cp have root: "root = without_split_commitment (oi_asset out)" by (auto simp: holds_def)
  have idem: "without_split_commitment root = root"
    by (auto simp: root without_split_commitment_def has_split_commitment_witness_def is_split_commitment_def)
  have cp': "tct_proof ?sha (tap_key_of ?sha root) (leaf_key_of ?sha root) (oi_commitment out) = Ok (Some root, cp)"
    using cp by (simp add: root)
  have "srp = output_proof (oi_anchor_output_index out) (oi_internal_key out) (oi_tapscript_sibling out) cp"
    using sibling_proof [OF cp] by (simp add: srp output_proof_def)
  moreover have "anchors env tx (oi_anchor_output_index out) (oi_internal_key out) (oi_commitment out) (oi_tapscript_sibling out)"
    using tr out(1) by blast
  note anchored_proof_verifies [OF this cp', of True]
  ultimately have ver: "\<exists>c. verify_taproot_proof env tx srp root True = Ok (Some c)" using cp' idem by (auto simp: holds_def)
  from assms(3) out root obtain tw where "decode_asset ?sha (pub_key_valid (secp env)) (encode_asset ?sha root EncodeNormal) = Ok (set_tweak tw root)"
    by (auto simp: root_on_wire_def)
  then have "split_root_asset env p = Ok (set_tweak tw root)" using w assms(5) by (simp add: split_root_asset_def)
  moreover have "verify_taproot_proof env tx srp (set_tweak tw root) True = verify_taproot_proof env tx srp root True"
    by (simp add: verify_taproot_proof_def set_tweak_irrelevant)
  ultimately show ?thesis using ver assms(4,6) by (auto simp: verify_split_root_proof_def)
qed

text \<open>The exclusion proofs of a suffix, before and after the markers are added.\<close>

lemma suffix_exclusions:
  assumes "transfer_anchored env tx outs bips v2" "generate_exclusion_proofs (sha256 env) a (oi_anchor_output_index (outs ! i))
      (other_outputs outs i bips) = Ok eps"
  shows "\<forall>ep \<in> set eps. excludes env tx a v2 ep \<and> \<not> has_stxo_proofs ep"
    "\<And>x. x \<in> oi_anchor_output_index ` set outs \<union> bo_output_index ` set bips \<Longrightarrow> x \<noteq> oi_anchor_output_index (outs ! i) \<Longrightarrow>
      x \<in> tr_output_index ` set eps"
    "\<exists>as bs. eps = as @ bs \<and> (\<forall>ep \<in> set bs. tr_commitment_proof ep = None \<and> tr_tapscript_proof ep \<noteq> None)
      \<and> (\<forall>ep \<in> set as. \<exists>out \<in> set outs. proof_for (oi_anchor_output_index out) (oi_internal_key out) (oi_tapscript_sibling out) ep
           \<and> other_asset_output out \<in> set (other_outputs outs i bips))"
proof -
  let ?others = "filter (\<lambda>out. ao_output_index out \<noteq> oi_anchor_output_index (outs ! i)) (other_outputs outs i bips)"
  let ?excl = "exclusion_proof (sha256 env) (tap_key_of (sha256 env) a) (leaf_key_of (sha256 env) a)"
  have all: "list_all2 (\<lambda>out ep. ?excl out = Ok ep) ?others eps"
    using assms(2) by (simp add: generate_exclusion_proofs_def map_res_Ok)
  have ok: "other_ok env tx v2 out" if "out \<in> set ?others" for out using others_ok [OF assms(1)] that by auto
  have fresh: "?excl out = Ok ep \<Longrightarrow> \<not> has_stxo_proofs ep" for out ep
    by (auto simp: exclusion_proof_def has_stxo_proofs_def res_simps sibling_proof split: option.splits if_splits)
  show "\<forall>ep \<in> set eps. excludes env tx a v2 ep \<and> \<not> has_stxo_proofs ep"
  proof
    fix ep assume "ep \<in> set eps"
    from list_all2_right [OF all this] obtain out where "out \<in> set ?others" "?excl out = Ok ep" by blast
    then show "excludes env tx a v2 ep \<and> \<not> has_stxo_proofs ep" using exclusion_verifies(1) [OF ok] fresh by blast
  qed
  show "x \<in> tr_output_index ` set eps" if "x \<in> oi_anchor_output_index ` set outs \<union> bo_output_index ` set bips"
    "x \<noteq> oi_anchor_output_index (outs ! i)" for x
  proof -
    from other_outputs_indices [OF that] that(2) obtain out where "out \<in> set ?others" "ao_output_index out = x" by auto
    moreover from list_all2_left [OF all this(1)] obtain ep where "ep \<in> set eps" "?excl out = Ok ep" by blast
    ultimately show ?thesis using exclusion_verifies(2) [OF ok] by (intro image_eqI [of _ _ ep]) auto
  qed
  let ?A = "filter (\<lambda>out. ao_output_index out \<noteq> oi_anchor_output_index (outs ! i))
      (map (other_asset_output \<circ> snd) (filter (\<lambda>(j, _). j \<noteq> i) (enumerate 0 outs)))"
  let ?B = "filter (\<lambda>out. ao_output_index out \<noteq> oi_anchor_output_index (outs ! i)) (map other_bip86_output bips)"
  have AB: "?others = ?A @ ?B" by (simp add: other_outputs_def)
  with all obtain as bs where split: "eps = as @ bs" "list_all2 (\<lambda>out ep. ?excl out = Ok ep) ?A as" "list_all2 (\<lambda>out ep. ?excl out = Ok ep) ?B bs"
    by (auto simp: list_all2_append1)
  have "tr_commitment_proof ep = None \<and> tr_tapscript_proof ep \<noteq> None" if "ep \<in> set bs" for ep
  proof -
    from list_all2_right [OF split(3) that] obtain out where "out \<in> set ?B" "?excl out = Ok ep" by blast
    moreover from this(1) have "ao_commitment out = None" by (auto simp: other_bip86_output_def)
    ultimately show ?thesis using exclusion_verifies(3) [OF ok, of out] AB by auto
  qed
  moreover have "\<exists>out \<in> set outs. proof_for (oi_anchor_output_index out) (oi_internal_key out) (oi_tapscript_sibling out) ep
      \<and> other_asset_output out \<in> set (other_outputs outs i bips)" if "ep \<in> set as" for ep
  proof -
    from list_all2_right [OF split(2) that] obtain o' where o': "o' \<in> set ?A" "?excl o' = Ok ep" by blast
    then obtain out where out: "out \<in> set outs" "o' = other_asset_output out"
      by (clarsimp simp: in_set_enumerate_eq) (metis nth_mem)
    with o' exclusion_verifies(4) [OF ok, of o'] AB show ?thesis
      by (intro bexI [of _ out]) (auto simp: other_asset_output_def other_outputs_def)
  qed
  ultimately show "\<exists>as bs. eps = as @ bs \<and> (\<forall>ep \<in> set bs. tr_commitment_proof ep = None \<and> tr_tapscript_proof ep \<noteq> None)
      \<and> (\<forall>ep \<in> set as. \<exists>out \<in> set outs. proof_for (oi_anchor_output_index out) (oi_internal_key out) (oi_tapscript_sibling out) ep
           \<and> other_asset_output out \<in> set (other_outputs outs i bips))" using split(1) by blast
qed

lemma set_stxo_simps [simp]:
  "cp_stxo_proofs (set_stxo stxo cp) = stxo" "cp_tap_sibling_preimage (set_stxo stxo cp) = cp_tap_sibling_preimage cp"
  by (simp_all add: set_stxo_def)

lemma other_outputs_assets:
  assumes "other \<in> set (other_outputs outs i bips)" "ao_commitment other \<noteq> None"
  shows "\<exists>out \<in> set outs. other = other_asset_output out"
  using assms by (auto simp: other_outputs_def in_set_enumerate_eq other_bip86_output_def) (blast intro: nth_mem)

lemma same_output:
  "transfer_anchored env tx outs bips v2 \<Longrightarrow> out \<in> set outs \<Longrightarrow> out' \<in> set outs \<Longrightarrow>
    oi_anchor_output_index out' = oi_anchor_output_index out \<Longrightarrow> other_asset_output out' = other_asset_output out"
  unfolding transfer_anchored_def by blast

lemma add_stxo_exclusion_verifies:
  assumes "transfer_anchored env tx outs bips v2" "excludes env tx a v2 ep"
    and "add_stxo_exclusion (sha256 env) ms (other_outputs outs i bips) ep = Ok ep'"
    and "tr_commitment_proof ep \<noteq> None \<longrightarrow> (\<exists>out \<in> set outs.
       proof_for (oi_anchor_output_index out) (oi_internal_key out) (oi_tapscript_sibling out) ep)"
    and "tr_commitment_proof ep = None \<longrightarrow> tr_tapscript_proof ep \<noteq> None"
    and "\<forall>m \<in> set ms. m = marker (sk_pub_key (script_key m)) \<and> amap (sk_pub_key (script_key m)) = Some m" "ms \<noteq> []"
  shows "excludes env tx a v2 ep' \<and> excludes_markers env tx amap ((\<lambda>m. sk_pub_key (script_key m)) ` set ms) ep'
    \<and> tr_output_index ep' = tr_output_index ep \<and> (tr_commitment_proof ep' = None \<longleftrightarrow> tr_commitment_proof ep = None)"
proof (cases "tr_commitment_proof ep")
  case None
  with assms show ?thesis by (auto simp: add_stxo_exclusion_def excludes_markers_def)
next
  case (Some cp)
  from assms(4) Some obtain out where out: "out \<in> set outs"
    "proof_for (oi_anchor_output_index out) (oi_internal_key out) (oi_tapscript_sibling out) ep" by auto
  from assms(3) Some obtain other t stxo where other: "find (\<lambda>out. ao_output_index out = tr_output_index ep) (other_outputs outs i bips) = Some other"
    "ao_commitment other = Some t" and stxo: "stxo_exclusion_proofs (sha256 env) t ms [] = Ok stxo"
    and ep': "ep' = ep\<lparr>tr_commitment_proof := Some (set_stxo stxo cp)\<rparr>"
    by (auto simp: add_stxo_exclusion_def res_simps bind_eq_Some_conv)
  from other_outputs_assets [of other outs i bips] find_SomeD [OF other(1)] other(2)
  obtain out' where out': "out' \<in> set outs" "other = other_asset_output out'" by blast
  have "ao_output_index other = tr_output_index ep" using find_SomeD [OF other(1)] by blast
  moreover have "tr_output_index ep = oi_anchor_output_index out" using out(2) by (simp add: proof_for_def)
  ultimately have "oi_anchor_output_index out' = oi_anchor_output_index out" by (simp add: out'(2) other_asset_output_def)
  from same_output [OF assms(1) out(1) out'(1) this] have "other = other_asset_output out" by (simp add: out'(2))
  with other(2) have t: "t = oi_commitment out" by (simp add: other_asset_output_def)
  have anc: "anchors env tx (oi_anchor_output_index out) (oi_internal_key out) t (oi_tapscript_sibling out)"
    using assms(1) out(1) by (auto simp: transfer_anchored_def t)
  note col = stxo_exclusions_collected [OF stxo]
  have pf: "proof_for (oi_anchor_output_index out) (oi_internal_key out) (oi_tapscript_sibling out) ep'"
    using out(2) Some by (auto simp: ep' proof_for_def)
  have "verify_stxo_proof_set env tx ep' amap False outputs = Ok (filter (\<lambda>(i, _). i \<noteq> tr_output_index ep') outputs)"
    if "\<forall>x \<in> set outputs. snd x \<noteq> [] \<and> set (snd x) \<subseteq> (\<lambda>m. sk_pub_key (script_key m)) ` set ms" for outputs
  proof -
    have "tr_output_index ep' = oi_anchor_output_index out" using pf by (simp add: proof_for_def)
    moreover have "verify_stxo_proof_set env tx ep' amap False outputs = Ok (filter (\<lambda>(i, _). i \<noteq> oi_anchor_output_index out) outputs)"
      by (rule marker_set_verifies [OF anc pf, where cp = "set_stxo stxo cp" and ms = ms]) (use col that assms(6) in \<open>simp_all add: ep'\<close>)
    ultimately show ?thesis by simp
  qed
  moreover have "stxo \<noteq> []" using col assms(7) by auto
  moreover have "tr_tapscript_proof ep = None" using out(2) by (simp add: proof_for_def)
  ultimately have "excludes_markers env tx amap ((\<lambda>m. sk_pub_key (script_key m)) ` set ms) ep'"
    by (simp add: excludes_markers_def ep')
  moreover have "excludes env tx a v2 ep'" using assms(2) Some verify_set_stxo [OF Some] by (simp add: excludes_def ep')
  ultimately show ?thesis by (simp add: ep' Some)
qed

text \<open>What the options have to agree with: the markers of the spent inputs are in the commitment unless they are opted out of, and a
  version 1 proof of a transfer root is not created without them.\<close>

definition markers_committed :: "Env \<Rightarrow> OutputProofInfo \<Rightarrow> ProofSuffixOptions \<Rightarrow> bool" where
  "markers_committed env target opts \<longleftrightarrow> is_transfer_root (oi_asset target) \<longrightarrow>
     (if pso_no_stxo_proofs opts then pso_transition_version opts \<noteq> TransitionV1
      else \<forall>ms. collect_stxo (sha256 env) (secp env) (oi_asset target) = Ok ms \<longrightarrow>
        (\<forall>m \<in> set ms. holds (sha256 env) (oi_commitment target) m))"

lemma if_err_Ok: "(if c then Err e else r) = Ok x \<longleftrightarrow> \<not> c \<and> r = Ok x"
  by simp

lemma suffix_with_markers:
  assumes "transfer_anchored env tx outs bips v2" "i < length outs" "is_transfer_root (oi_asset (outs ! i))"
    and "generate_exclusion_proofs (sha256 env) (oi_asset (outs ! i)) (oi_anchor_output_index (outs ! i)) (other_outputs outs i bips) = Ok eps"
    and "add_stxo_proofs (sha256 env) (secp env) (outs ! i) (other_outputs outs i bips) cp eps = Ok (cp', eps')"
    and "cp_tap_sibling_preimage cp = oi_tapscript_sibling (outs ! i)"
    and "\<forall>ms. collect_stxo (sha256 env) (secp env) (oi_asset (outs ! i)) = Ok ms \<longrightarrow> (\<forall>m \<in> set ms. holds (sha256 env) (oi_commitment (outs ! i)) m)"
    and "tp = \<lparr>tr_output_index = oi_anchor_output_index (outs ! i), tr_internal_key = oi_internal_key (outs ! i),
      tr_commitment_proof = Some cp', tr_tapscript_proof = None, tr_unknown_odd_types = []\<rparr>"
  shows "\<exists>amap stxo. stxo_asset_map env (oi_asset (outs ! i)) = Ok amap \<and> amap \<noteq> [] \<and> cp' = set_stxo stxo cp \<and> has_stxo_proofs tp
    \<and> verify_stxo_proof_set env tx tp (map_of amap) True [(tr_output_index tp, remdups (map fst amap))] = Ok []
    \<and> (\<forall>ep \<in> set eps'. excludes env tx (oi_asset (outs ! i)) v2 ep \<and> excludes_markers env tx (map_of amap) (fst ` set amap) ep)
    \<and> tr_output_index ` set eps' = tr_output_index ` set eps
    \<and> ((\<exists>ep \<in> set eps'. tr_commitment_proof ep \<noteq> None) \<longrightarrow> tr_commitment_proof (hd eps') \<noteq> None)"
proof -
  let ?t = "outs ! i" and ?sha = "sha256 env"
  from assms(5) obtain ms stxo where ms: "collect_stxo ?sha (secp env) (oi_asset ?t) = Ok ms"
    and stxo: "stxo_inclusion_proofs ?sha (oi_commitment ?t) ms [] = Ok stxo" and cp': "cp' = set_stxo stxo cp"
    and eps': "list_all2 (\<lambda>ep ep'. add_stxo_exclusion ?sha ms (other_outputs outs i bips) ep = Ok ep') eps eps'"
    unfolding add_stxo_proofs_def map_res_Ok [symmetric] by (auto simp: res_simps split: if_splits)
  define amap where "amap = rev (map (\<lambda>m. (sk_pub_key (script_key m), m)) ms)"
  note mk = markers_of [OF assms(3) ms, folded amap_def] and col = stxo_inclusions_collected [OF stxo]
  have ne: "ms \<noteq> []" using mk(2,3) by auto
  have anc: "anchors env tx (oi_anchor_output_index ?t) (oi_internal_key ?t) (oi_commitment ?t) (oi_tapscript_sibling ?t)"
    using assms(1,2) by (simp add: transfer_anchored_def)
  have "verify_stxo_proof_set env tx tp (map_of amap) True [(tr_output_index tp, remdups (map fst amap))]
      = Ok (filter (\<lambda>(j, _). j \<noteq> oi_anchor_output_index ?t) [(tr_output_index tp, remdups (map fst amap))])"
    by (rule marker_set_verifies [OF anc, where cp = "set_stxo stxo cp" and ms = ms])
      (use assms(6,7) ms mk col in \<open>auto simp: assms(8) cp' proof_for_def\<close>)
  then have incl: "verify_stxo_proof_set env tx tp (map_of amap) True [(tr_output_index tp, remdups (map fst amap))] = Ok []"
    by (simp add: assms(8))
  obtain as bs where ab: "eps = as @ bs" "\<forall>ep \<in> set bs. tr_commitment_proof ep = None \<and> tr_tapscript_proof ep \<noteq> None"
    "\<forall>ep \<in> set as. \<exists>out \<in> set outs. proof_for (oi_anchor_output_index out) (oi_internal_key out) (oi_tapscript_sibling out) ep"
    using suffix_exclusions(3) [OF assms(1,4)] by blast
  have as: "\<forall>ep \<in> set as. tr_commitment_proof ep \<noteq> None" using ab(3) by (auto simp: proof_for_def)
  have each: "excludes env tx (oi_asset ?t) v2 ep' \<and> excludes_markers env tx (map_of amap) ((\<lambda>m. sk_pub_key (script_key m)) ` set ms) ep'
      \<and> tr_output_index ep' = tr_output_index ep \<and> (tr_commitment_proof ep' = None \<longleftrightarrow> tr_commitment_proof ep = None)"
    if "ep \<in> set eps" "add_stxo_exclusion ?sha ms (other_outputs outs i bips) ep = Ok ep'" for ep ep'
    by (rule add_stxo_exclusion_verifies [OF assms(1) _ that(2) _ _ mk(4) ne])
      (use suffix_exclusions(1) [OF assms(1,4)] that(1) ab as in auto)
  have all: "list_all2 (\<lambda>ep ep'. ep \<in> set eps \<and> add_stxo_exclusion ?sha ms (other_outputs outs i bips) ep = Ok ep') eps eps'"
    using eps' by (simp add: list_all2_conv_all_nth)
  have "tr_output_index ` set eps' = tr_output_index ` set eps"
    using each list_all2_left [OF all] list_all2_right [OF all] by (intro equalityI subsetI; elim imageE) (metis image_eqI)+
  moreover have "tr_commitment_proof (hd eps') \<noteq> None" if "ep' \<in> set eps'" "tr_commitment_proof ep' \<noteq> None" for ep'
  proof -
    from list_all2_right [OF all that(1)] obtain ep where ep: "ep \<in> set eps" "add_stxo_exclusion ?sha ms (other_outputs outs i bips) ep = Ok ep'"
      by blast
    with each [OF ep] that(2) ab(1,2) have "ep \<in> set as" by auto
    then obtain e es where e: "eps = e # es" "e \<in> set as" using ab(1) by (cases as) auto
    then obtain e' es' where "eps' = e' # es'" "add_stxo_exclusion ?sha ms (other_outputs outs i bips) e = Ok e'"
      using eps' by (auto simp: list_all2_Cons1)
    with each [of e e'] as e show ?thesis by auto
  qed
  moreover have "\<forall>ep' \<in> set eps'. excludes env tx (oi_asset ?t) v2 ep' \<and> excludes_markers env tx (map_of amap) (fst ` set amap) ep'"
    using each list_all2_right [OF all] unfolding mk(3) by blast
  moreover have "has_stxo_proofs tp" using col ne by (auto simp: has_stxo_proofs_def assms(8) cp')
  ultimately show ?thesis using mk(1,2) cp' incl by blast
qed

lemma suffix_shape:
  assumes "create_proof_suffix_with_options env tx prev outs i bips opts = Ok p"
  obtains stored cp srp eps cp' eps' merkle where "i < length outs"
    "tct_proof (sha256 env) (tap_key_of (sha256 env) (oi_asset (outs ! i))) (leaf_key_of (sha256 env) (oi_asset (outs ! i)))
       (oi_commitment (outs ! i)) = Ok (stored, cp)" "stored \<noteq> None"
    "(if has_split_commitment_witness (oi_asset (outs ! i))
      then map_ok Some (create_split_root_proof (sha256 env) (outs ! i) outs) else Ok None) = Ok srp"
    "generate_exclusion_proofs (sha256 env) (oi_asset (outs ! i)) (oi_anchor_output_index (outs ! i)) (other_outputs outs i bips) = Ok eps"
    "(if is_transfer_root (oi_asset (outs ! i)) \<and> \<not> pso_no_stxo_proofs opts
      then add_stxo_proofs (sha256 env) (secp env) (outs ! i) (other_outputs outs i bips)
        (set_sibling (oi_tapscript_sibling (outs ! i)) cp) eps
      else Ok (set_sibling (oi_tapscript_sibling (outs ! i)) cp, eps)) = Ok (cp', eps')"
    "p = \<lparr>version = pso_transition_version opts, prev_out = prev, block_header = zeros 80, block_height = 0,
      anchor_tx = tx, tx_merkle_proof = merkle, asset = oi_asset (outs ! i),
      inclusion_proof = \<lparr>tr_output_index = oi_anchor_output_index (outs ! i), tr_internal_key = oi_internal_key (outs ! i),
        tr_commitment_proof = Some cp', tr_tapscript_proof = None, tr_unknown_odd_types = []\<rparr>,
      exclusion_proofs = eps', split_root_proof = srp, meta_reveal = None,
      additional_inputs = [], challenge_witness = None, genesis_reveal = None, group_key_reveal = None,
      alt_leaves = fetch_alt_leaves (sha256 env) (oi_commitment (outs ! i)), pr_unknown_odd_types = []\<rparr>"
  using assms unfolding create_proof_suffix_with_options_def Let_def
  by (clarsimp simp: res_simps if_err_Ok not_le)

text \<open>The verifier accepts the proofs in a suffix whose outputs are anchored in the transaction.\<close>

lemma suffix_proofs_verify:
  assumes "create_proof_suffix_with_options env tx prev outs i bips opts = Ok p" "transfer_anchored env tx outs bips v2"
    and "markers_committed env (outs ! i) opts"
    and "\<forall>out \<in> set outs. split_commitment_root (oi_asset out) \<noteq> None \<longrightarrow> root_on_wire env (without_split_commitment (oi_asset out))"
  shows "\<exists>c. verify_proofs env p = Ok c"
proof -
  let ?sha = "sha256 env" and ?t = "outs ! i" and ?a = "oi_asset (outs ! i)" and ?others = "other_outputs outs i bips"
  obtain stored cp srp eps cp' eps' merkle where i: "i < length outs"
    and cp: "tct_proof ?sha (tap_key_of ?sha ?a) (leaf_key_of ?sha ?a) (oi_commitment ?t) = Ok (stored, cp)" "stored \<noteq> None"
    and srp: "(if has_split_commitment_witness ?a then map_ok Some (create_split_root_proof ?sha ?t outs) else Ok None) = Ok srp"
    and eps: "generate_exclusion_proofs ?sha ?a (oi_anchor_output_index ?t) ?others = Ok eps"
    and add: "(if is_transfer_root ?a \<and> \<not> pso_no_stxo_proofs opts
      then add_stxo_proofs ?sha (secp env) ?t ?others (set_sibling (oi_tapscript_sibling ?t) cp) eps
      else Ok (set_sibling (oi_tapscript_sibling ?t) cp, eps)) = Ok (cp', eps')"
    and p: "p = \<lparr>version = pso_transition_version opts, prev_out = prev, block_header = zeros 80, block_height = 0,
      anchor_tx = tx, tx_merkle_proof = merkle, asset = ?a,
      inclusion_proof = \<lparr>tr_output_index = oi_anchor_output_index ?t, tr_internal_key = oi_internal_key ?t,
        tr_commitment_proof = Some cp', tr_tapscript_proof = None, tr_unknown_odd_types = []\<rparr>,
      exclusion_proofs = eps', split_root_proof = srp, meta_reveal = None,
      additional_inputs = [], challenge_witness = None, genesis_reveal = None, group_key_reveal = None,
      alt_leaves = fetch_alt_leaves ?sha (oi_commitment ?t), pr_unknown_odd_types = []\<rparr>"
    by (rule suffix_shape [OF assms(1)])
  let ?tp = "\<lparr>tr_output_index = oi_anchor_output_index ?t, tr_internal_key = oi_internal_key ?t,
    tr_commitment_proof = Some cp', tr_tapscript_proof = None, tr_unknown_odd_types = []\<rparr>"
  have tr: "anchors env tx (oi_anchor_output_index ?t) (oi_internal_key ?t) (oi_commitment ?t) (oi_tapscript_sibling ?t)"
    "tc_version (tct_commitment (oi_commitment ?t)) = TapV2 \<longleftrightarrow> v2" "holds ?sha (oi_commitment ?t) ?a"
    using assms(2) i by (simp_all add: transfer_anchored_def)
  from anchored_proof_verifies [OF tr(1) cp(1), of True] cp(2) tr(2,3) obtain c where
    c: "verify_taproot_proof env tx (output_proof (oi_anchor_output_index ?t) (oi_internal_key ?t) (oi_tapscript_sibling ?t) cp) ?a True
      = Ok (Some c)" "tc_version c = TapV2 \<longleftrightarrow> v2" by auto
  have same: "verify_taproot_proof env tx ?tp ?a True
      = verify_taproot_proof env tx (output_proof (oi_anchor_output_index ?t) (oi_internal_key ?t) (oi_tapscript_sibling ?t) cp) ?a True"
    if "cp' = set_sibling (oi_tapscript_sibling ?t) cp \<or> (\<exists>stxo. cp' = set_stxo stxo (set_sibling (oi_tapscript_sibling ?t) cp))"
    using that verify_set_stxo [of "output_proof (oi_anchor_output_index ?t) (oi_internal_key ?t) (oi_tapscript_sibling ?t) cp"]
      sibling_proof [OF cp(1)] by (auto simp: output_proof_def)
  have excl: "\<forall>ep \<in> set eps. excludes env tx ?a v2 ep \<and> \<not> has_stxo_proofs ep" by (rule suffix_exclusions(1) [OF assms(2) eps])
  have cover: "set (other_p2tr_outputs p) \<subseteq> tr_output_index ` set eps"
    using suffix_exclusions(2) [OF assms(2) eps] assms(2) by (auto simp: other_p2tr_outputs_def p transfer_anchored_def)
  consider (plain) "cp' = set_sibling (oi_tapscript_sibling ?t) cp" "eps' = eps"
      "is_transfer_root ?a \<longrightarrow> pso_transition_version opts \<noteq> TransitionV1"
    | (markers) "is_transfer_root ?a"
      "add_stxo_proofs ?sha (secp env) ?t ?others (set_sibling (oi_tapscript_sibling ?t) cp) eps = Ok (cp', eps')"
      "\<forall>ms. collect_stxo ?sha (secp env) ?a = Ok ms \<longrightarrow> (\<forall>m \<in> set ms. holds ?sha (oi_commitment ?t) m)"
    using add assms(3) by (auto simp: markers_committed_def split: if_splits)
  then have parts: "(\<exists>c. verify_inclusion_proof env p = Ok c \<and> (tc_version c = TapV2 \<longleftrightarrow> v2))
      \<and> (\<exists>r. verify_exclusion_proofs env p = Ok r \<and> (\<forall>v. r = Some v \<longrightarrow> (v = TapV2 \<longleftrightarrow> v2)))"
  proof cases
    case plain
    have "verify_taproot_proof env tx ?tp ?a True = Ok (Some c)" unfolding same [OF disjI1, OF plain(1)] by (rule c(1))
    moreover have "\<not> has_stxo_proofs ?tp" using sibling_proof [OF cp(1)] plain(1) by (simp add: has_stxo_proofs_def)
    ultimately have "verify_inclusion_proof env p = Ok c" using plain(3) by (intro inclusion_verifies) (auto simp: p is_version_v1_def)
    moreover have "\<exists>r. verify_exclusion_proofs env p = Ok r \<and> (\<forall>v. r = Some v \<longrightarrow> (v = TapV2 \<longleftrightarrow> v2))"
      using excl cover plain(2,3) by (intro exclusions_verify) (auto simp: p is_version_v1_def)
    ultimately show ?thesis using c(2) by blast
  next
    case markers
    have "cp_tap_sibling_preimage (set_sibling (oi_tapscript_sibling ?t) cp) = oi_tapscript_sibling ?t" by (simp add: set_sibling_def)
    from suffix_with_markers [OF assms(2) i markers(1) eps markers(2) this markers(3) refl] obtain amap stxo where
      mk: "stxo_asset_map env ?a = Ok amap" "amap \<noteq> []" "cp' = set_stxo stxo (set_sibling (oi_tapscript_sibling ?t) cp)" "has_stxo_proofs ?tp"
      "verify_stxo_proof_set env tx ?tp (map_of amap) True [(tr_output_index ?tp, remdups (map fst amap))] = Ok []"
      "\<forall>ep \<in> set eps'. excludes env tx ?a v2 ep \<and> excludes_markers env tx (map_of amap) (fst ` set amap) ep"
      "tr_output_index ` set eps' = tr_output_index ` set eps"
      "(\<exists>ep \<in> set eps'. tr_commitment_proof ep \<noteq> None) \<longrightarrow> tr_commitment_proof (hd eps') \<noteq> None" by blast
    have "verify_taproot_proof env tx ?tp ?a True = Ok (Some c)" unfolding same [OF disjI2, OF exI, OF mk(3)] by (rule c(1))
    then have "verify_inclusion_proof env p = Ok c" using mk(1,4,5) by (intro inclusion_verifies) (auto simp: p)
    moreover have "\<exists>r. verify_exclusion_proofs env p = Ok r \<and> (\<forall>v. r = Some v \<longrightarrow> (v = TapV2 \<longleftrightarrow> v2))"
      using mk cover by (intro exclusions_verify) (auto simp: p)
    ultimately show ?thesis using c(2) by blast
  qed
  moreover have "has_split_commitment_witness (asset p) \<longrightarrow> split_root_proof p \<noteq> None \<and> verify_split_root_proof env p = Ok ()"
    using srp split_root_verifies [OF assms(2) _ assms(4), of ?t _ p] by (auto simp: p res_simps split: if_splits)
  ultimately show ?thesis by (auto simp: verify_proofs_def similar_versions split: option.splits)
qed

section \<open>The state transition of an executed transfer\<close>

text \<open>The tweak of a script key is not on the wire and does not enter the engine.\<close>

lemma set_tweak_fields [simp]:
  "prev_witnesses (set_tweak tw a) = prev_witnesses a" "genesis (set_tweak tw a) = genesis a" "amount (set_tweak tw a) = amount a"
  "group_key (set_tweak tw a) = group_key a" "split_commitment_root (set_tweak tw a) = split_commitment_root a"
  "a_lock_time (set_tweak tw a) = a_lock_time a" "relative_lock_time (set_tweak tw a) = relative_lock_time a"
  "sk_pub_key (script_key (set_tweak tw a)) = sk_pub_key (script_key a)" "is_genesis_asset (set_tweak tw a) = is_genesis_asset a"
  by (simp_all add: set_tweak_def is_genesis_asset_def has_genesis_witness_def has_genesis_witness_for_group_def
      is_genesis_def is_genesis_for_group_def)

lemma asset_to_leaf_tweak: "asset_to_leaf sha (set_tweak tw a) = asset_to_leaf sha a"
proof -
  have "encode_asset sha (set_tweak tw a) ty = encode_asset sha a ty" for sha a ty
    by (simp add: set_tweak_def encode_asset_def)
  then show ?thesis by (cases "a_version a") (simp_all add: asset_to_leaf_def encode_asset_leaf_def set_tweak_def)
qed

lemma virtual_tx_tweak:
  assumes "\<not> is_genesis_asset a"
  shows "virtual_tx sha (set_tweak tw a) prevs = Ok x \<longleftrightarrow> virtual_tx sha a prevs = Ok x"
proof -
  have "(set_tweak tw a)\<lparr>prev_witnesses := ws\<rparr> = set_tweak tw (a\<lparr>prev_witnesses := ws\<rparr>)" for ws by (simp add: set_tweak_def)
  then have "virtual_tx_out sha (set_tweak tw a) = virtual_tx_out sha a"
    by (cases "split_commitment_root a") (simp_all add: virtual_tx_out_def asset_to_leaf_tweak asset_id_def Let_def split_def)
  with assms show ?thesis by (cases x) (simp add: virtual_tx_transfer virtual_tx_in_def)
qed

lemma vm_execute_tweak:
  assumes "vm_execute sha lib val a splits prevs = Ok ()" "\<not> is_genesis_asset a"
  shows "vm_execute sha lib val (set_tweak tw a) splits prevs = Ok ()"
proof -
  have "split_leaf_asset (set_tweak tw a) s = split_leaf_asset a s" for s by (simp add: split_leaf_asset_def)
  moreover have "primary_prev_id (set_tweak tw a) = primary_prev_id a" "is_unspendable (set_tweak tw a) = is_unspendable a"
    by (simp_all add: primary_prev_id_def is_unspendable_def is_nums_def)
  ultimately have "validate_split sha (set_tweak tw a) prevs s = validate_split sha a prevs s" for s
    by (cases "split_commitment_root a") (simp_all add: validate_split_def Let_def split_def)
  moreover have "input_checked sha lib val (set_tweak tw a) prevs tx i w = input_checked sha lib val a prevs tx i w" for tx i w
    by (simp add: input_checked_def input_key_spend_sighash_def matches_prev_genesis_def)
  ultimately show ?thesis
    using assms by (simp add: execute_transfer_Ok state_transition_Ok virtual_tx_tweak)
qed

text \<open>The outputs \<open>outs\<close> carry the assets of a prepared transfer, the recipients at their own indices.\<close>

definition carries :: "PreparedTransfer \<Rightarrow> OutputProofInfo list \<Rightarrow> bool" where
  "carries pt outs \<longleftrightarrow> (\<forall>out \<in> set outs. oi_asset out = pt_root_asset pt
     \<or> (\<exists>s \<in> set (recipient_assets pt). oi_asset out = sa_asset s \<and> oi_anchor_output_index out = sa_output_index s))"

lemma executed_recipient:
  assumes "execute_transfer_with_options sha lib inputs outputs g prevs sign internal_keys opts = Ok r"
    and "s \<in> set (recipient_assets (tr_prepared r))"
  shows "is_split (tr_prepared r)" "has_split_commitment_witness (sa_asset s)" "\<not> is_genesis_asset (sa_asset s)"
    "group_key (sa_asset s) = None" "genesis (sa_asset s) = g" "split_commitment_root (sa_asset s) = None"
    "\<exists>w sc. prev_witnesses (sa_asset s) = [w] \<and> split_commitment w = Some sc
       \<and> sc_root_asset sc = encode_asset sha (pt_root_asset (tr_prepared r)) EncodeNormal"
proof -
  note root = executed_root [OF assms(1)]
  show split: "is_split (tr_prepared r)" using root(7) assms(2) by (cases "is_split (tr_prepared r)") auto
  from list_all2_right [OF root(8) [OF split] assms(2)] obtain out p where "s = (split_of g out)\<lparr>sa_asset := set_split_witness
      \<lparr>sc_proof = p, sc_root_asset = encode_asset sha (pt_root_asset (tr_prepared r)) EncodeNormal\<rparr> (sa_asset (split_of g out))\<rparr>"
    by blast
  then show "has_split_commitment_witness (sa_asset s)" "\<not> is_genesis_asset (sa_asset s)"
    "group_key (sa_asset s) = None" "genesis (sa_asset s) = g" "split_commitment_root (sa_asset s) = None"
    "\<exists>w sc. prev_witnesses (sa_asset s) = [w] \<and> split_commitment w = Some sc
       \<and> sc_root_asset sc = encode_asset sha (pt_root_asset (tr_prepared r)) EncodeNormal"
    by (simp_all add: split_of_def transfer_asset_def set_split_witness_def has_split_commitment_witness_def is_split_commitment_def
        witness_zero_prev_def prev_id_is_zero_def is_genesis_asset_def has_genesis_witness_def has_genesis_witness_for_group_def
        is_genesis_def is_genesis_for_group_def)
qed

section \<open>The whole way\<close>

text \<open>The transaction lies in a block that the verifier accepts, and the chain data are those of the block.\<close>

definition confirmed :: "Env \<Rightarrow> VerifierCtx \<Rightarrow> AnchorTx \<Rightarrow> BaseProofParams \<Rightarrow> bool" where
  "confirmed env ctx tx base \<longleftrightarrow>
     tx_deserialize (txlib env) (bp_anchor_tx_bytes base) = Some tx
     \<and> bp_tx_index base < length (bp_block_tx_hashes base) \<and> bp_block_tx_hashes base ! bp_tx_index base = compute_txid (txlib env) tx
     \<and> header_merkle_root (bp_block_header base) = compute_merkle_root (\<lambda>x. sha256 env (sha256 env x)) (bp_block_tx_hashes base)
     \<and> verify_header ctx (bp_block_header base) (bp_block_height base) = Ok ()
     \<and> verify_tx_merkle ctx = default_merkle_verifier (sha256 env) \<and> ignore_checker ctx = None"

lemma verify_proofs_chain_data:
  "verify_proofs env (p\<lparr>block_header := h, block_height := n, anchor_tx := anchor_tx p, tx_merkle_proof := m\<rparr>) = verify_proofs env p"
proof -
  let ?q = "p\<lparr>block_header := h, block_height := n, anchor_tx := anchor_tx p, tx_merkle_proof := m\<rparr>"
  have f: "asset ?q = asset p" "anchor_tx ?q = anchor_tx p" "inclusion_proof ?q = inclusion_proof p" "version ?q = version p"
    "exclusion_proofs ?q = exclusion_proofs p" "split_root_proof ?q = split_root_proof p" by simp_all
  have v0: "verify_v0_loop env ?q eps os vs = verify_v0_loop env p eps os vs" for eps os vs
    by (induction eps arbitrary: os vs) simp_all
  have v1: "verify_v1_loop env ?q am eps = verify_v1_loop env p am eps" for am eps
    by (induction eps; rule ext) (simp_all cong: if_cong)
  show ?thesis
    unfolding verify_proofs_def verify_inclusion_proof_def verify_exclusion_proofs_def verify_split_root_proof_def split_root_asset_def
      verify_v0_exclusion_proofs_def verify_v1_exclusion_proofs_def other_p2tr_outputs_def is_version_v1_def f v0 v1 ..
qed

lemma chain_data_confirmed:
  assumes "confirmed env ctx tx base" "anchor_tx p = tx" "tx_spends_prev_out tx (prev_out p)" "verify_proofs env p = Ok c"
    and "\<not> is_genesis_asset (asset p)" "group_key (asset p) = None" "genesis_reveal p = None" "meta_reveal p = None"
    and "group_key_reveal p = None" "validate_asset_name (txlib env) (tag (genesis (asset p))) = Ok ()"
  obtains m where "update_proof_chain_data env base p = (Ok (),
      p\<lparr>block_header := bp_block_header base, block_height := bp_block_height base, anchor_tx := tx, tx_merkle_proof := m\<rparr>)"
    "verify_integrity env ctx opts
      (p\<lparr>block_header := bp_block_header base, block_height := bp_block_height base, anchor_tx := tx, tx_merkle_proof := m\<rparr>) = Ok c"
proof -
  note conf = assms(1) [unfolded confirmed_def]
  obtain m where m: "build_tx_merkle_proof (\<lambda>x. sha256 env (sha256 env x)) (bp_block_tx_hashes base) (bp_tx_index base) = Some m"
    "tx_merkle_verify (\<lambda>x. sha256 env (sha256 env x)) m (compute_txid (txlib env) tx) (header_merkle_root (bp_block_header base))"
    using built_proof_verifies [of "bp_tx_index base" "bp_block_tx_hashes base" "\<lambda>x. sha256 env (sha256 env x)"] conf by auto
  let ?q = "p\<lparr>block_header := bp_block_header base, block_height := bp_block_height base, anchor_tx := tx, tx_merkle_proof := m\<rparr>"
  have "verify_proofs env ?q = Ok c" using verify_proofs_chain_data [where p = p] assms(2,4) by simp
  moreover have "verify_reveals env ctx ?q = Ok ()" using assms(5-9) by (simp add: verify_reveals_def)
  ultimately have "verify_integrity env ctx opts ?q = Ok c"
    using assms(3,10) conf m(2) by (simp add: verify_integrity_def default_merkle_verifier_def)
  moreover have "update_proof_chain_data env base p = (Ok (), ?q)"
    using m(1) conf by (simp add: update_proof_chain_data_def anchor_tx_from_bytes_def)
  ultimately show ?thesis by (rule that [rotated])
qed

lemma transfer_transition:
  assumes "snapshot_prev_id env (prev_out p) s = q" "additional_inputs p = []" "\<not> asset_uses_time_lock root"
    and "if has_split_commitment_witness (asset p)
      then split_root_asset env p = Ok root \<and> splits = [\<lparr>sa_asset = asset p, sa_output_index = tr_output_index (inclusion_proof p)\<rparr>]
      else root = asset p \<and> splits = []"
    and "vm_execute (sha256 env) (btc (secp env)) (schnorr_validator (secp env)) root splits [(q, snap_asset s)] = Ok ()"
  shows "verify_asset_state_transition env ctx opts rec (Some s) p = Ok (splits \<noteq> [])"
  using assms by (simp add: verify_asset_state_transition_def input_insert_def split: if_splits)

text \<open>The input named by a transfer is the asset of the snapshot.\<close>

lemma selected_snapshot:
  assumes "selected_inputs (sha256 env) [input] [(si_prev_id input, snap_asset s)] g" "prev_out_point (si_prev_id input) = op"
  shows "snapshot_prev_id env op s = si_prev_id input"
  using assms by (simp add: selected_inputs_def snapshot_prev_id_def)

lemma executed_transition:
  assumes exec: "execute_transfer_with_options (sha256 env) (secp env) [input] outputs g [(si_prev_id input, snap_asset s)] sign keys topts = Ok r"
    and vm: "vm_execute (sha256 env) (btc (secp env)) (schnorr_validator (secp env)) (pt_root_asset (tr_prepared r))
      (recipient_assets (tr_prepared r)) [(si_prev_id input, snap_asset s)] = Ok ()"
    and id: "snapshot_prev_id env (prev_out p) s = si_prev_id input" and add: "additional_inputs p = []"
    and wire: "is_split (tr_prepared r) \<longrightarrow> root_on_wire env (pt_root_asset (tr_prepared r))"
    and "asset p = pt_root_asset (tr_prepared r) \<or> (\<exists>s \<in> set (recipient_assets (tr_prepared r)). asset p = sa_asset s
      \<and> tr_output_index (inclusion_proof p) = sa_output_index s)"
  shows "\<exists>split. verify_asset_state_transition env ctx opts rec (Some s) p = Ok split"
    and "\<not> is_genesis_asset (asset p)" "group_key (asset p) = None" "genesis (asset p) = g"
proof -
  let ?root = "pt_root_asset (tr_prepared r)" and ?prevs = "[(si_prev_id input, snap_asset s)]"
  let ?vm = "vm_execute (sha256 env) (btc (secp env)) (schnorr_validator (secp env))"
  note root = executed_root [OF exec]
  have gen: "\<not> is_genesis_asset ?root" by (rule execute_with_inputs [OF vm]) simp
  have lock: "\<not> asset_uses_time_lock (set_tweak tw ?root)" "\<not> asset_uses_time_lock ?root" for tw
    using root(3,4) by (simp_all add: asset_uses_time_lock_def)
  from assms(6) consider (root) "asset p = ?root" | (recipient) u where "u \<in> set (recipient_assets (tr_prepared r))" "asset p = sa_asset u"
    "tr_output_index (inclusion_proof p) = sa_output_index u" by blast
  then have "(\<exists>split. verify_asset_state_transition env ctx opts rec (Some s) p = Ok split)
    \<and> \<not> is_genesis_asset (asset p) \<and> group_key (asset p) = None \<and> genesis (asset p) = g"
  proof cases
    case root
    have "\<not> has_split_commitment_witness (asset p)"
      using executed_root(9) [OF exec] by (auto simp: root has_split_commitment_witness_def is_split_commitment_def)
    moreover have "?vm ?root [] ?prevs = Ok ()" using vm gen by (simp add: execute_transfer_Ok)
    ultimately show ?thesis
      using transfer_transition [OF id add lock(2), of "[]" ctx opts rec] gen executed_root(1,2) [OF exec] by (auto simp: root)
  next
    case recipient
    note rec = executed_recipient [OF exec recipient(1)]
    obtain tw where tw: "decode_asset (sha256 env) (pub_key_valid (secp env)) (encode_asset (sha256 env) ?root EncodeNormal)
        = Ok (set_tweak tw ?root)" using wire rec(1) by (auto simp: root_on_wire_def)
    then have "split_root_asset env p = Ok (set_tweak tw ?root)" using rec(7) recipient(2) by (auto simp: split_root_asset_def)
    moreover have "\<lparr>sa_asset = asset p, sa_output_index = tr_output_index (inclusion_proof p)\<rparr> = u" using recipient(2,3) by simp
    moreover have "?vm ?root [u] ?prevs = Ok ()" using vm gen recipient(1) by (simp add: execute_transfer_Ok)
    then have "?vm (set_tweak tw ?root) [u] ?prevs = Ok ()" using gen by (rule vm_execute_tweak)
    ultimately have "verify_asset_state_transition env ctx opts rec (Some s) p = Ok True"
      using transfer_transition [OF id add lock(1) [of tw], of "[u]" ctx opts rec] rec(2) recipient(2) by simp
    with rec(3-5) recipient(2) show ?thesis by auto
  qed
  then show "\<exists>split. verify_asset_state_transition env ctx opts rec (Some s) p = Ok split"
    "\<not> is_genesis_asset (asset p)" "group_key (asset p) = None" "genesis (asset p) = g" by blast+
qed

section \<open>Property\<close>

text \<open>C7: the proof of an executed transfer verifies. Let a transfer of one verified asset be executed as in the acceptance of
  transfers (allocations accepted, the input described as it is, signatures that verify, no collision in the input and split
  trees), let its assets be anchored in the outputs of a transaction that spends the outpoint of the input, and let
  \<^verbatim>\<open>create_proof_suffix\<close> succeed for one of the outputs. Once the transaction is in a block that the verifier accepts, the chain
  data can be filled in, and the resulting proof, after the verified snapshot of the input, passes the whole verification, state
  transition included, for the root of the transfer and for every recipient of a split; the new snapshot holds the asset of the output. (Anchored: each
  asset output was made for a commitment tree that holds its asset, commitments have versions of one class and no other taproot output
  exists. Also assumed: the markers of spent assets are committed or not asked for, a split root survives its encoding, the name of
  the asset is printable, no ignore checker.)\<close>

theorem suffix_verifies:
  assumes exec: "execute_transfer_with_options (sha256 env) (secp env) [input] outputs g [(si_prev_id input, snap_asset s)] sign keys topts = Ok r"
    and "validate_allocations [input] outputs (g_asset_type g) = Ok ()"
    and sel: "selected_inputs (sha256 env) [input] [(si_prev_id input, snap_asset s)] g" and "signer_ok (secp env) sign"
    and "(\<Sum>out \<leftarrow> outputs. unat (to_amount out)) < 2 ^ 64"
    and "inputs_separated (sha256 env) S (pt_root_asset (tr_prepared r)) [(si_prev_id input, snap_asset s)]"
    and "is_split (tr_prepared r) \<longrightarrow> splits_separated (sha256 env) S' (genesis_id (sha256 env) g)
           (split_entries (pt_root_asset (tr_prepared r)) (map (split_of g) outputs))"
    and point: "prev_out_point (si_prev_id input) = snap_out_point s"
    and wire: "is_split (tr_prepared r) \<longrightarrow> root_on_wire env (pt_root_asset (tr_prepared r))"
    and outs: "carries (tr_prepared r) outs"
    and suffix: "create_proof_suffix_with_options env tx (snap_out_point s) outs i bips opts = Ok p"
    and anch: "transfer_anchored env tx outs bips v2" and marks: "markers_committed env (outs ! i) opts"
    and spends: "tx_spends_prev_out tx (snap_out_point s)" and conf: "confirmed env ctx tx base"
    and name: "validate_asset_name (txlib env) (tag g) = Ok ()"
  shows "\<exists>q s'. update_proof_chain_data env base p = (Ok (), q) \<and> verify_proof env ctx vopts (Some s) q = Ok s'
    \<and> snap_asset s' = oi_asset (outs ! i) \<and> snap_output_index s' = oi_anchor_output_index (outs ! i)"
proof -
  let ?root = "pt_root_asset (tr_prepared r)"
  have vm: "vm_execute (sha256 env) (btc (secp env)) (schnorr_validator (secp env)) ?root
      (recipient_assets (tr_prepared r)) [(si_prev_id input, snap_asset s)] = Ok ()"
    by (rule executed_vm [OF exec assms(2-4) _ assms(5-7)]) simp
  have id: "snapshot_prev_id env (snap_out_point s) s = si_prev_id input" by (rule selected_snapshot [OF sel point])
  have plain: "without_split_commitment ?root = ?root"
    using executed_root(9) [OF exec] by (auto simp: without_split_commitment_def has_split_commitment_witness_def is_split_commitment_def)
  have "root_on_wire env (without_split_commitment (oi_asset out))"
    if out: "out \<in> set outs" "split_commitment_root (oi_asset out) \<noteq> None" for out
  proof -
    from outs out have "oi_asset out = ?root" using executed_recipient(6) [OF exec] by (auto simp: carries_def)
    with out(2) executed_root(7) [OF exec] wire plain show ?thesis by (cases "is_split (tr_prepared r)") auto
  qed
  then obtain c where c: "verify_proofs env p = Ok c" using suffix_proofs_verify [OF suffix anch marks] by blast
  have i: "i < length outs" and p: "prev_out p = snap_out_point s" "anchor_tx p = tx" "asset p = oi_asset (outs ! i)"
    "additional_inputs p = []" "genesis_reveal p = None" "meta_reveal p = None" "group_key_reveal p = None"
    "tr_output_index (inclusion_proof p) = oi_anchor_output_index (outs ! i)"
    by (rule suffix_shape [OF suffix], simp)+
  note tr = executed_transition [OF exec vm _ _ wire]
  have f: "\<not> is_genesis_asset (asset p)" "group_key (asset p) = None" "genesis (asset p) = g"
    using tr(2-4) [of p] id p outs i by (simp_all add: carries_def)
  obtain m where upd: "update_proof_chain_data env base p = (Ok (),
      p\<lparr>block_header := bp_block_header base, block_height := bp_block_height base, anchor_tx := tx, tx_merkle_proof := m\<rparr>)"
    and int: "verify_integrity env ctx vopts
      (p\<lparr>block_header := bp_block_header base, block_height := bp_block_height base, anchor_tx := tx, tx_merkle_proof := m\<rparr>) = Ok c"
    by (rule chain_data_confirmed [OF conf p(2) _ c, where opts = vopts]) (use spends p f name in simp_all)
  define q where "q = p\<lparr>block_header := bp_block_header base, block_height := bp_block_height base, anchor_tx := tx, tx_merkle_proof := m\<rparr>"
  obtain split where "verify_asset_state_transition env ctx vopts (verify_file env ctx options_default) (Some s) q = Ok split"
    using tr(1) [where p = q and ctx = ctx and opts = vopts and rec = "verify_file env ctx options_default"] id p outs i by (auto simp: q_def carries_def)
  with int have "verify_proof env ctx vopts (Some s) q = Ok (snapshot_of env q c split)"
    using p(1) by (simp add: verify_proof_def verify_proof_with_def q_def)
  moreover have "snap_asset (snapshot_of env q c split) = oi_asset (outs ! i)"
    "snap_output_index (snapshot_of env q c split) = oi_anchor_output_index (outs ! i)" using p by (simp_all add: snapshot_of_def q_def)
  ultimately show ?thesis using upd unfolding q_def by blast
qed

theorem suffix_verifies_witness:
  "\<exists>tx r ctx base outs p q s'. execute_transfer_with_options demo_hash demo_secp [demo_input] [demo_output] demo_genesis
      [(demo_prev, demo_coin)] (\<lambda>_ _. Ok (zeros 64)) [replicate 32 2] demo_options = Ok r
    \<and> create_proof_suffix_with_options (demo_env tx) tx (prev_out_point demo_prev) outs 0 []
        \<lparr>pso_transition_version = TransitionV0, pso_no_stxo_proofs = True\<rparr> = Ok p
    \<and> update_proof_chain_data (demo_env tx) base p = (Ok (), q)
    \<and> verify_proof (demo_env tx) ctx options_default (Some demo_snapshot) q = Ok s' \<and> snap_asset s' = pt_root_asset (tr_prepared r)"
proof -
  obtain r where r: "execute_transfer_with_options demo_hash demo_secp [demo_input] [demo_output] demo_genesis
      [(demo_prev, demo_coin)] (\<lambda>_ _. Ok (zeros 64)) [replicate 32 2] demo_options = Ok r"
    "\<not> is_split (tr_prepared r)" "referenced (prev_witnesses (pt_root_asset (tr_prepared r))) = [demo_prev]"
    "a_version (pt_root_asset (tr_prepared r)) = a_version demo_coin" by (rule demo_executed)
  define a where "a = pt_root_asset (tr_prepared r)"
  have a: "genesis a = demo_genesis" "without_split_commitment a = a" "\<not> has_split_commitment_witness a"
    using executed_root(1,9) [OF r(1)]
    by (auto simp: a_def without_split_commitment_def has_split_commitment_witness_def is_split_commitment_def)
  obtain l where "asset_leaf demo_hash a = Ok l"
    using asset_to_leaf_Ok [OF r(4) demo_coin_facts(1)] by (auto simp: asset_leaf_def a_def)
  moreover have "wf_genesis (genesis a)"
    by (simp add: a(1) wf_genesis_def demo_genesis_def genesis_empty_def wf_asset_type_def asset_type_from_u8_def)
  ultimately obtain ac t S g where t: "tct_new demo_hash TapV0 [ac] = Ok t" "tct_reach demo_hash S t g"
    "asset_commitments t = [(tap_key_of demo_hash a, ac)]" "act_assets ac = [(leaf_key_of demo_hash a, a)]"
    by (rule one_asset_commitment)
  have ver: "tc_version (tct_commitment t) = TapV0" using t(1) by (auto simp: tct_new_def Let_def res_simps tap_commitment_from_root_def)
  obtain key where key: "taproot_output_key demo_hash demo_secp NUMS_KEY (tapscript_root demo_hash (tct_commitment t) None) = Ok key"
    "length key = 32" using demo_output_key by blast
  define tx where "tx = anchor_tx_default\<lparr>atx_input := [unsigned_input (prev_out_point demo_prev)],
    atx_output := [\<lparr>out_value = 1000, script_pubkey = [0x51, 0x20] @ key\<rparr>]\<rparr>"
  define out where "out = \<lparr>oi_asset = a, oi_anchor_output_index = 0, oi_internal_key = NUMS_KEY, oi_commitment = t, oi_tapscript_sibling = None\<rparr>"
  let ?opts = "\<lparr>pso_transition_version = TransitionV0, pso_no_stxo_proofs = True\<rparr>"
  let ?ctx = "ctx_new (\<lambda>_ _. Ok ()) (default_merkle_verifier demo_hash) (\<lambda>_. Ok ()) 1"
  define base where "base = \<lparr>bp_block_header = zeros 36 @ replicate 32 1 @ zeros 12, bp_block_height = 7, bp_anchor_tx_bytes = [],
    bp_tx_index = 0, bp_block_tx_hashes = [replicate 32 1], bp_output_index = 0, bp_internal_key = NUMS_KEY\<rparr>"
  obtain cp where cp: "tct_proof demo_hash (tap_key_of demo_hash a) (leaf_key_of demo_hash a) t = Ok (Some a, cp)"
    using tct_proof_derives [OF t(2), of "tap_key_of demo_hash a" "leaf_key_of demo_hash a"] t(3,4) sha_32_demo_hash by auto
  have "anchors (demo_env tx) tx 0 NUMS_KEY t None"
    using demo_tweakable t(2) key unfolding anchors_def tx_def
    by (auto simp: create_tap_output_script_def sibling_hash_def version_readable_def ver intro!: exI)
  then have tr: "transfer_anchored (demo_env tx) tx [out] [] False"
    using ver cp a(2) by (simp add: transfer_anchored_def holds_def out_def tx_def)
  obtain m where "build_tx_merkle_proof (\<lambda>x. demo_hash (demo_hash x)) [compute_txid (demo_txlib tx) tx] 0 = Some m"
    by (simp add: build_tx_merkle_proof_def)
  then obtain p where p: "create_proof_suffix_with_options (demo_env tx) tx (prev_out_point demo_prev) [out] 0 [] ?opts = Ok p"
    using cp a(3) by (auto simp: create_proof_suffix_with_options_def other_outputs_def generate_exclusion_proofs_def Let_def out_def)
  have conf: "confirmed (demo_env tx) ?ctx tx base"
    by (simp add: confirmed_def base_def demo_txlib_def ctx_new_def header_merkle_root_def compute_merkle_root_def root_loop.simps)
  have spends: "tx_spends_prev_out tx (prev_out_point demo_prev)" by (simp add: tx_spends_prev_out_def tx_def unsigned_input_def)
  have "validate_asset_name (demo_txlib tx) (tag demo_genesis) = Ok ()"
    by (simp add: validate_asset_name_def MAX_ASSET_NAME_LENGTH_def is_go_print_def demo_txlib_def is_whitespace_def demo_genesis_def)
  moreover have "si_prev_id demo_input = demo_prev" by (simp add: demo_input_def)
  ultimately obtain q s' where "update_proof_chain_data (demo_env tx) base p = (Ok (), q)"
    "verify_proof (demo_env tx) ?ctx options_default (Some demo_snapshot) q = Ok s'" "snap_asset s' = a"
    using suffix_verifies [where env = "demo_env tx" and input = demo_input and outputs = "[demo_output]" and g = demo_genesis
        and s = demo_snapshot and r = r and S = demo_coin_set and outs = "[out]" and i = 0 and bips = "[]" and opts = ?opts and p = p
        and tx = tx and ctx = ?ctx and base = base and ?v2.0 = False and vopts = options_default
        and sign = "\<lambda>_ _. Ok (zeros 64)" and keys = "[replicate 32 2]" and topts = demo_options]
      r demo_allocations demo_selected demo_signer demo_inputs_separated [OF r(3)] p tr conf spends
    by (auto simp: carries_def out_def a_def markers_committed_def)
  with r(1) p show ?thesis unfolding a_def by blast
qed

end
