(* ===== verification/Mssmt_Compacted.thy ===== *)
theory Mssmt_Compacted
  imports Mssmt_Refine
begin

text \<open>
  The compacted tree: \<^verbatim>\<open>tap-primitives/src/mssmt/compacted_tree.rs\<close>. A subtree with a single leaf
  is stored as one compacted leaf, which the walks expand in memory. As for the full tree, a
  \<^verbatim>\<open>CompactedTree\<close> is its store, and the closure of the walk down becomes the trace of its
  arguments. The development relates a store to a shape (which subtrees are
  branches, compacted leaves or empty) and shows that the compacted tree is a second
  implementation of the interface \<open>sum_tree\<close>, with the roots of the full tree.
\<close>

section \<open>The operations\<close>

definition c_root :: "hash_fun \<Rightarrow> DefaultStore \<Rightarrow> BranchNode" where
  "c_root sha s =
     (case root_node sha s of
        Branch l r \<Rightarrow> (l, r)
      | _ \<Rightarrow> the (as_branch (empty_tree sha 0)))"

definition in_memory_children :: "hash_fun \<Rightarrow> nat \<Rightarrow> Node \<Rightarrow> Node \<times> Node" where
  "in_memory_children sha level node =
     (case node of
        Branch l r \<Rightarrow> (l, r)
      | _ \<Rightarrow> (empty_tree sha (level + 1), empty_tree sha (level + 1)))"

text \<open>The inner loop of the walk: \<open>n\<close> levels from level \<open>j\<close>, in memory.\<close>

fun memory_walk :: "hash_fun \<Rightarrow> bytes \<Rightarrow> nat \<Rightarrow> nat \<Rightarrow> Node \<Rightarrow> Node \<times> trace" where
  "memory_walk sha key j 0 current = (current, [])"
| "memory_walk sha key j (Suc n) current =
     (let (left, right) = in_memory_children sha j current;
          (nxt, sibling) = step_order j key left right;
          (final, trace) = memory_walk sha key (j + 1) n nxt
      in (final, (nxt, sibling, current) # trace))"

fun c_walk_down_from ::
  "hash_fun \<Rightarrow> DefaultStore \<Rightarrow> bytes \<Rightarrow> nat \<Rightarrow> nat \<Rightarrow> Node \<Rightarrow> (Node \<times> trace, TreeError) result" where
  "c_walk_down_from sha s key i 0 current = Ok (current, [])"
| "c_walk_down_from sha s key i (Suc n) current =
     res_bind (map_err TreeStore (get_children sha s i (node_hash sha current))) (\<lambda>(left, right).
       let (nxt, sibling) = step_order i key left right in
       case nxt of
         Compacted c \<Rightarrow>
           (let nxt = cl_extract sha c (i + 1);
                sibling = (case sibling of Compacted cs \<Rightarrow> cl_extract sha cs (i + 1) | _ \<Rightarrow> sibling);
                (final, trace) = memory_walk sha key (i + 1) n nxt
            in Ok (final, (nxt, sibling, current) # trace))
       | _ \<Rightarrow>
           res_bind (c_walk_down_from sha s key (i + 1) n nxt) (\<lambda>(final, trace).
             Ok (final, (nxt, sibling, current) # trace)))"

definition c_walk_down ::
  "hash_fun \<Rightarrow> DefaultStore \<Rightarrow> bytes \<Rightarrow> (LeafNode \<times> trace, TreeError) result" where
  "c_walk_down sha s key =
     res_bind (c_walk_down_from sha s key 0 MAX_TREE_LEVELS (root_node sha s)) (\<lambda>(final, trace).
       Ok (leaf_or_empty final, trace))"

text \<open>\<open>common_prefix key1 key2 i n\<close> is the loop that extends the common prefix from level \<open>i\<close> over at most \<open>n\<close>
  levels.\<close>

fun common_prefix :: "bytes \<Rightarrow> bytes \<Rightarrow> nat \<Rightarrow> nat \<Rightarrow> nat" where
  "common_prefix key1 key2 i 0 = i"
| "common_prefix key1 key2 i (Suc n) =
     (if bit_index i key1 = bit_index i key2 then common_prefix key1 key2 (i + 1) n else i)"

text \<open>The walk back up of \<^verbatim>\<open>merge\<close> over the \<open>n\<close> levels \<open>i + n - 1, \<dots>, i\<close>.\<close>

fun merge_up :: "hash_fun \<Rightarrow> bytes \<Rightarrow> nat \<Rightarrow> nat \<Rightarrow> BranchNode \<Rightarrow> DefaultStore \<Rightarrow> BranchNode \<times> DefaultStore" where
  "merge_up sha key i 0 parent s = (parent, s)"
| "merge_up sha key i (Suc n) parent s =
     (let level = i + n;
          node = Branch (fst parent) (snd parent);
          parent = (if \<not> bit_index level key then (node, empty_tree sha (level + 1))
                    else (empty_tree sha (level + 1), node))
      in merge_up sha key i n parent (insert_branch sha parent s))"

definition merge ::
  "hash_fun \<Rightarrow> nat \<Rightarrow> bytes \<Rightarrow> LeafNode \<Rightarrow> bytes \<Rightarrow> LeafNode \<Rightarrow> DefaultStore \<Rightarrow> BranchNode \<times> DefaultStore" where
  "merge sha height key1 leaf1 key2 leaf2 s =
     (let len = common_prefix key1 key2 height (MAX_TREE_LEVELS - height);
          cl1 = compacted_new sha (len + 1) key1 leaf1;
          cl2 = compacted_new sha (len + 1) key2 leaf2;
          s = insert_compacted_leaf cl2 (insert_compacted_leaf cl1 s);
          parent = (if \<not> bit_index len key1 then (Compacted cl1, Compacted cl2)
                    else (Compacted cl2, Compacted cl1))
      in merge_up sha key1 height (len - height) parent (insert_branch sha parent s))"

text \<open>Storing a compacted leaf, and storing nothing for an empty leaf.\<close>

definition store_compacted ::
  "hash_fun \<Rightarrow> nat \<Rightarrow> bytes \<Rightarrow> LeafNode \<Rightarrow> DefaultStore \<Rightarrow> Node \<times> DefaultStore" where
  "store_compacted sha height key leaf s =
     (let cl = compacted_new sha height key leaf in (Compacted cl, insert_compacted_leaf cl s))"

definition place_leaf ::
  "hash_fun \<Rightarrow> nat \<Rightarrow> bytes \<Rightarrow> LeafNode \<Rightarrow> DefaultStore \<Rightarrow> Node \<times> DefaultStore" where
  "place_leaf sha height key leaf s =
     (if leaf_is_empty leaf then (empty_tree sha height, s) else store_compacted sha height key leaf s)"

text \<open>The end of \<^verbatim>\<open>insert_at\<close>: the old branch is deleted, the new one is built and stored.\<close>

definition rebuild_branch ::
  "hash_fun \<Rightarrow> bytes \<Rightarrow> nat \<Rightarrow> BranchNode \<Rightarrow> Node \<Rightarrow> Node \<Rightarrow> DefaultStore \<Rightarrow> BranchNode \<times> DefaultStore" where
  "rebuild_branch sha key height root new_node sibling s =
     (let s = (if \<not> is_equal_node sha (Branch (fst root) (snd root)) (empty_tree sha height)
               then delete_branch (branch_hash sha root) s else s);
          branch = step_order height key new_node sibling;
          s = (if \<not> is_equal_node sha (Branch (fst branch) (snd branch)) (empty_tree sha height)
               then insert_branch sha branch s else s)
      in (branch, s))"

lemma get_children_OkD: "get_children sha s height h = Ok kids \<Longrightarrow> height < 256"
  by (auto simp: get_children_def Let_def split: if_splits Node.splits)

function insert_at ::
  "hash_fun \<Rightarrow> bytes \<Rightarrow> nat \<Rightarrow> BranchNode \<Rightarrow> LeafNode \<Rightarrow> DefaultStore \<Rightarrow>
     (BranchNode \<times> DefaultStore, TreeError) result" where
  "insert_at sha key height root leaf s =
     res_bind (map_err TreeStore (get_children sha s height (branch_hash sha root))) (\<lambda>kids.
       let (nxt, sibling) = step_order height key (fst kids) (snd kids);
           next_height = height + 1 in
       res_bind
         (case nxt of
            Branch bl br \<Rightarrow>
              if is_equal_node sha nxt (empty_tree sha next_height)
              then Ok (place_leaf sha next_height key leaf s)
              else res_bind (insert_at sha key next_height (bl, br) leaf s) (\<lambda>(b, s).
                Ok (Branch (fst b) (snd b), s))
          | Compacted c \<Rightarrow>
              (let s = delete_compacted_leaf (cl_hash c) s in
               if key = cl_key c then Ok (place_leaf sha next_height key leaf s)
               else if leaf_is_empty leaf
               then Ok (store_compacted sha next_height (cl_key c) (cl_leaf c) s)
               else let (b, s) = merge sha next_height key leaf (cl_key c) (cl_leaf c) s
                    in Ok (Branch (fst b) (snd b), s))
          | _ \<Rightarrow> Ok (place_leaf sha next_height key leaf s))
         (\<lambda>(new_node, s). Ok (rebuild_branch sha key height root new_node sibling s)))"
  by pat_completeness auto
termination
proof (relation "measure (\<lambda>(sha, key, height, root, leaf, s). 256 - height)", goal_cases)
  case (2 sha key height root leaf s kids)
  then show ?case by (auto simp: res_simps dest!: get_children_OkD)
qed simp

declare insert_at.simps [simp del]

definition c_insert ::
  "hash_fun \<Rightarrow> bytes \<Rightarrow> LeafNode \<Rightarrow> DefaultStore \<Rightarrow> (DefaultStore, TreeError) result" where
  "c_insert sha key leaf s =
     (let current_root = c_root sha s in
      res_bind (check_sum_overflow_u64 (branch_sum current_root) (leaf_sum leaf)) (\<lambda>_.
      res_bind (insert_at sha key 0 current_root leaf s) (\<lambda>(new_root, s).
      Ok (update_root sha new_root s))))"

definition c_delete :: "hash_fun \<Rightarrow> bytes \<Rightarrow> DefaultStore \<Rightarrow> (DefaultStore, TreeError) result" where
  "c_delete sha key s =
     (let current_root = c_root sha s in
      res_bind (insert_at sha key 0 current_root leaf_empty s) (\<lambda>(new_root, s).
      Ok (update_root sha new_root s)))"

definition c_get :: "hash_fun \<Rightarrow> bytes \<Rightarrow> DefaultStore \<Rightarrow> (LeafNode, TreeError) result" where
  "c_get sha key s = res_bind (c_walk_down sha s key) (\<lambda>(leaf, _). Ok leaf)"

text \<open>The trace has an entry for every level, so the initial empty leaves of the proof are all
  overwritten.\<close>

definition c_merkle_proof :: "hash_fun \<Rightarrow> bytes \<Rightarrow> DefaultStore \<Rightarrow> (MerkleProof, TreeError) result" where
  "c_merkle_proof sha key s =
     res_bind (c_walk_down sha s key) (\<lambda>(_, trace). Ok (map trace_sibling (rev trace)))"

end
