(* ===== verification/Mssmt_Compacted_Refine.thy ===== *)
theory Mssmt_Compacted_Refine
  imports Mssmt_Compacted
begin

text \<open>
  The compacted tree implements the specification of \<open>Mssmt_Spec\<close>. A \<open>shape\<close> says, prefix by prefix,
  whether the store keeps a branch, a compacted leaf or nothing. The store holds exactly the branches and
  compacted leaves of a shape of the content.
\<close>

section \<open>Shapes\<close>

datatype shape = SE | SC bytes LeafNode | SB shape shape

text \<open>\<open>alone f p key leaf\<close>: the only leaf below the prefix \<open>p\<close> is \<open>leaf\<close>, under \<open>key\<close>.\<close>

definition alone :: "content \<Rightarrow> path \<Rightarrow> bytes \<Rightarrow> LeafNode \<Rightarrow> bool" where
  "alone f p key leaf \<longleftrightarrow> leaf \<noteq> leaf_empty \<and> length key = 32 \<and> length p \<le> 256
     \<and> p = take (length p) (key_bits key)
     \<and> (\<forall>r. length r = 256 - length p \<longrightarrow> f (p @ r) = (if p @ r = key_bits key then leaf else leaf_empty))"

fun shape_of :: "content \<Rightarrow> path \<Rightarrow> shape \<Rightarrow> bool" where
  "shape_of f p SE \<longleftrightarrow> \<not> occupied f p"
| "shape_of f p (SC key leaf) \<longleftrightarrow> alone f p key leaf"
| "shape_of f p (SB l r) \<longleftrightarrow> length p < 256 \<and> occupied f p
     \<and> shape_of f (p @ [False]) l \<and> shape_of f (p @ [True]) r"

fun branch_places :: "path \<Rightarrow> shape \<Rightarrow> path set" where
  "branch_places p (SB l r) = insert p (branch_places (p @ [False]) l \<union> branch_places (p @ [True]) r)"
| "branch_places p _ = {}"

fun leaf_places :: "path \<Rightarrow> shape \<Rightarrow> (path \<times> bytes \<times> LeafNode) set" where
  "leaf_places p SE = {}"
| "leaf_places p (SC key leaf) = {(p, key, leaf)}"
| "leaf_places p (SB l r) = leaf_places (p @ [False]) l \<union> leaf_places (p @ [True]) r"

definition compacted_at :: "hash_fun \<Rightarrow> path \<times> bytes \<times> LeafNode \<Rightarrow> CompactedLeafNode" where
  "compacted_at sha e = (case e of (p, key, leaf) \<Rightarrow> compacted_new sha (length p) key leaf)"

lemma alone_step:
  assumes "alone f p key leaf" "length p < 256"
  shows "alone f (p @ [bit_index (length p) key]) key leaf" "\<not> occupied f (p @ [\<not> bit_index (length p) key])"
proof -
  let ?i = "length p"
  have p: "p = take ?i (key_bits key)" using assms(1) by (simp add: alone_def)
  then have step: "take (Suc ?i) (key_bits key) = p @ [bit_index ?i key]"
    using take_Suc_key_bits [OF assms(2), of key] by simp
  have all: "f (p @ b # r) = (if p @ b # r = key_bits key then leaf else leaf_empty)"
    if "length r = 255 - ?i" for b r
    using assms that by (simp add: alone_def)
  show "alone f (p @ [bit_index ?i key]) key leaf"
    using assms step all by (simp add: alone_def)
  have "p @ (\<not> bit_index ?i key) # r \<noteq> key_bits key" for r
  proof
    assume "p @ (\<not> bit_index ?i key) # r = key_bits key"
    then have "key_bits key ! ?i = (\<not> bit_index ?i key)" by (metis nth_append_length)
    then show False using assms(2) by simp
  qed
  then show "\<not> occupied f (p @ [\<not> bit_index ?i key])"
    using all by (auto simp: occupied_def)
qed

lemma alone_occupied: "alone f p key leaf \<Longrightarrow> occupied f p"
proof -
  assume a: "alone f p key leaf"
  let ?r = "drop (length p) (key_bits key)"
  have k: "p @ ?r = key_bits key" using a unfolding alone_def by (metis append_take_drop_id)
  have "length ?r = 256 - length p" by simp
  with a k have "f (p @ ?r) = leaf" "leaf \<noteq> leaf_empty" unfolding alone_def by metis+
  then show ?thesis unfolding occupied_def by (intro exI [of _ ?r]) simp
qed

lemma alone_leaf: "alone f p key leaf \<Longrightarrow> length p = 256 \<Longrightarrow> p = key_bits key \<and> f p = leaf"
  by (auto simp: alone_def)

lemma extract_up_Suc:
  "extract_up sha key i (Suc n) cur =
    (if \<not> bit_index i key then Branch (extract_up sha key (Suc i) n cur) (empty_tree sha (Suc i))
     else Branch (empty_tree sha (Suc i)) (extract_up sha key (Suc i) n cur))"
proof (induction n arbitrary: cur)
  case (Suc n)
  have "extract_up sha key i (Suc (Suc n)) cur = extract_up sha key i (Suc n)
      (if \<not> bit_index (i + Suc n) key then Branch cur (empty_tree sha (Suc (i + Suc n)))
       else Branch (empty_tree sha (Suc (i + Suc n))) cur)"
    by (simp add: Let_def)
  also have "\<dots> = (if \<not> bit_index i key then Branch (extract_up sha key (Suc i) (Suc n) cur) (empty_tree sha (Suc i))
     else Branch (empty_tree sha (Suc i)) (extract_up sha key (Suc i) (Suc n) cur))"
    unfolding Suc.IH by (simp add: Let_def)
  finally show ?case .
qed (simp add: Let_def)

lemma empty_node_at:
  "\<not> occupied f p \<Longrightarrow> is_equal_node sha (empty_tree sha (length p)) (node_at f p)"
  by (simp add: not_occupied_node_at is_equal_node_def node_hash_empty_tree)
    (simp add: node_at_def spec_node_no_content)

lemma extract_alone:
  "alone f p key leaf \<Longrightarrow> n = 256 - length p \<Longrightarrow>
    is_equal_node sha (extract_up sha key (length p) n (Leaf leaf)) (node_at f p)"
proof (induction n arbitrary: p)
  case 0
  then have "length p = 256" by (simp add: alone_def)
  moreover from alone_leaf [OF 0(1) this] have "f p = leaf" by auto
  ultimately show ?case by (simp add: node_at_Leaf is_equal_node_def)
next
  case (Suc n)
  then have lt: "length p < 256" by simp
  let ?b = "bit_index (length p) key"
  have "n = 256 - length (p @ [?b])" using Suc.prems(2) by simp
  from Suc.IH [OF alone_step(1) [OF Suc.prems(1) lt] this]
  have "is_equal_node sha (extract_up sha key (Suc (length p)) n (Leaf leaf)) (node_at f (p @ [?b]))" by simp
  moreover have "is_equal_node sha (empty_tree sha (Suc (length p))) (node_at f (p @ [\<not> ?b]))"
    using empty_node_at [OF alone_step(2) [OF Suc.prems(1) lt], of sha] by simp
  ultimately show ?case
    unfolding extract_up_Suc node_at_Branch [OF lt] by (cases ?b) (simp_all add: is_equal_node_def)
qed

lemma node_sum_extract_up: "node_sum (extract_up sha key i n cur) = node_sum cur"
  by (induction n arbitrary: cur) (simp_all add: Let_def)

lemma compacted_alone:
  assumes "alone f p key leaf"
  shows "is_equal_node sha (Compacted (compacted_at sha (p, key, leaf))) (node_at f p)"
    and "is_equal_node sha (cl_extract sha (compacted_at sha (p, key, leaf)) (length p)) (node_at f p)"
proof -
  have ex: "cl_extract sha (compacted_at sha (p, key, leaf)) (length p)
      = extract_up sha key (length p) (256 - length p) (Leaf leaf)"
    by (simp add: cl_extract_def compacted_at_def compacted_new_def)
  show "is_equal_node sha (cl_extract sha (compacted_at sha (p, key, leaf)) (length p)) (node_at f p)"
    unfolding ex by (rule extract_alone [OF assms refl])
  then show "is_equal_node sha (Compacted (compacted_at sha (p, key, leaf))) (node_at f p)"
    using node_hash_cl_extract [of sha "length p" key leaf] ex
    by (simp add: is_equal_node_def node_sum_extract_up compacted_at_def) (simp add: compacted_new_def)
qed

lemma branch_place_occupied: "shape_of f p t \<Longrightarrow> q \<in> branch_places p t \<Longrightarrow> length q < 256 \<and> occupied f q"
  by (induction t arbitrary: p) auto

lemma leaf_place_alone: "shape_of f p t \<Longrightarrow> (q, key, leaf) \<in> leaf_places p t \<Longrightarrow> alone f q key leaf"
  by (induction t arbitrary: p) auto

lemma branch_place_prefix: "q \<in> branch_places p t \<Longrightarrow> \<exists>r. q = p @ r"
proof (induction t arbitrary: p)
  case (SB l r)
  then show ?case by fastforce
qed auto

lemma leaf_place_prefix: "(q, key, leaf) \<in> leaf_places p t \<Longrightarrow> \<exists>r. q = p @ r"
proof (induction t arbitrary: p)
  case (SB l r)
  then show ?case by fastforce
qed auto

lemma places_disjoint: "(q, key, leaf) \<in> leaf_places p t \<Longrightarrow> q \<notin> branch_places p t"
proof (induction t arbitrary: p)
  case (SB l r)
  have off: "q \<notin> branch_places (p @ [\<not> b]) t'" if "(q, key, leaf) \<in> leaf_places (p @ [b]) t''" for b t' t''
    using leaf_place_prefix [OF that] branch_place_prefix [of q "p @ [\<not> b]" t'] by auto
  have "q \<noteq> p" if "(q, key, leaf) \<in> leaf_places (p @ [b]) t''" for b t''
    using leaf_place_prefix [OF that] by auto
  with SB off [of False] off [of True] show ?case by auto
qed auto

section \<open>Stores\<close>

text \<open>\<open>stored m X k\<close>: the map holds exactly the objects of \<open>X\<close>, under their keys.\<close>

definition stored :: "(NodeHash \<rightharpoonup> 'a) \<Rightarrow> 'a set \<Rightarrow> ('a \<Rightarrow> NodeHash) \<Rightarrow> bool" where
  "stored m X k \<longleftrightarrow> (\<forall>h x. m h = Some x \<longleftrightarrow> x \<in> X \<and> k x = h)"

lemma stored_get: "stored m X k \<Longrightarrow> x \<in> X \<Longrightarrow> m (k x) = Some x"
  by (simp add: stored_def)

lemma stored_none: "stored m X k \<Longrightarrow> (\<And>x. x \<in> X \<Longrightarrow> k x \<noteq> h) \<Longrightarrow> m h = None"
  unfolding stored_def by (metis not_Some_eq)

lemma stored_delete: "stored m X k \<Longrightarrow> stored (m(h := None)) {x \<in> X. k x \<noteq> h} k"
  by (auto simp: stored_def)

lemma stored_insert:
  "stored m X k \<Longrightarrow> (\<And>y. y \<in> X \<Longrightarrow> k y = k x \<Longrightarrow> y = x) \<Longrightarrow> stored (m(k x \<mapsto> x)) (insert x X) k"
  by (auto simp: stored_def)

definition c_holds ::
  "hash_fun \<Rightarrow> DefaultStore \<Rightarrow> BranchNode set \<Rightarrow> (path \<times> bytes \<times> LeafNode) set \<Rightarrow> bool" where
  "c_holds sha s Y E \<longleftrightarrow> stored (branches s) Y (branch_hash sha)
     \<and> stored (compacted_leaves s) (compacted_at sha ` E) cl_hash \<and> leaves s = Map.empty"

section \<open>Reading\<close>

text \<open>\<open>tree_holds sha s f ta tb\<close>: the store holds the tree of \<open>f\<close>, with shapes \<open>ta\<close> and \<open>tb\<close> below the root.\<close>

definition root_place :: "content \<Rightarrow> path \<Rightarrow> path set" where
  "root_place f p = (if occupied f p then {p} else {})"

text \<open>The places of a subtree with a branch at the top.\<close>

definition node_places :: "content \<Rightarrow> path \<Rightarrow> shape \<Rightarrow> shape \<Rightarrow> path set" where
  "node_places f p ta tb = root_place f p \<union> branch_places (p @ [False]) ta \<union> branch_places (p @ [True]) tb"

definition kid_leaves :: "path \<Rightarrow> shape \<Rightarrow> shape \<Rightarrow> (path \<times> bytes \<times> LeafNode) set" where
  "kid_leaves p ta tb = leaf_places (p @ [False]) ta \<union> leaf_places (p @ [True]) tb"

definition valid_places :: "content \<Rightarrow> path set \<Rightarrow> (path \<times> bytes \<times> LeafNode) set \<Rightarrow> bool" where
  "valid_places f Q E \<longleftrightarrow> (\<forall>q \<in> Q. length q < 256 \<and> occupied f q)
     \<and> (\<forall>(q, key, leaf) \<in> E. alone f q key leaf \<and> q \<notin> Q)"

lemma same_place:
  assumes "separated sha S f" "distinct_leaves f" "occupied f p" "length p \<le> 256" "length q \<le> 256"
    and "node_hash sha (node_at f p) = node_hash sha (node_at f q)"
  shows "p = q"
proof -
  have eq: "node_at f q = node_at f p" using node_at_hash_inject [OF assms(1,1,4,5,6)] by simp
  then have "length q = length p" using node_at_eqD [OF _ assms(5,4)] by blast
  with eq assms(5) show ?thesis using distinct_subtrees [OF assms(2,3)] by blast
qed

lemma branch_at_hash: "length p < 256 \<Longrightarrow> branch_hash sha (branch_at sha f p) = node_hash sha (node_at f p)"
  by (simp add: node_at_Branch [of p])

lemma compacted_at_hash: "alone f p key leaf \<Longrightarrow> cl_hash (compacted_at sha (p, key, leaf)) = node_hash sha (node_at f p)"
  using compacted_alone(1) [of f p key leaf sha] by (simp add: is_equal_node_def)

lemma c_get_branch:
  assumes "c_holds sha s (branch_at sha f ` Q) E" "valid_places f Q E" "separated sha S f" "p \<in> Q"
  shows "get_node sha s (length p) (node_hash sha (node_at f p))
    = Branch (fst (branch_at sha f p)) (snd (branch_at sha f p))"
proof -
  have p: "length p < 256" "occupied f p" using assms(2,4) by (auto simp: valid_places_def)
  then have "node_hash sha (node_at f p) \<noteq> empty_hash sha (256 - length p)"
    using occupied_iff_hash [OF assms(3), of p] by simp
  moreover have "branches s (node_hash sha (node_at f p)) = Some (branch_at sha f p)"
    using assms(1,4) stored_get [of "branches s" "branch_at sha f ` Q" "branch_hash sha" "branch_at sha f p"] p
    by (simp add: c_holds_def branch_at_hash del: branch_at_node)
  ultimately show ?thesis by (simp add: get_node_def node_hash_empty_tree)
qed

lemma c_get_compacted:
  assumes "c_holds sha s (branch_at sha f ` Q) E" "valid_places f Q E" "separated sha S f" "distinct_leaves f"
    and "(p, key, leaf) \<in> E"
  shows "get_node sha s (length p) (node_hash sha (node_at f p)) = Compacted (compacted_at sha (p, key, leaf))"
proof -
  have p: "alone f p key leaf" "p \<notin> Q" using assms(2,5) by (auto simp: valid_places_def)
  have len: "length p \<le> 256" and occ: "occupied f p" using p(1) alone_occupied by (simp_all add: alone_def)
  then have "node_hash sha (node_at f p) \<noteq> empty_hash sha (256 - length p)"
    using occupied_iff_hash [OF assms(3), of p] by simp
  moreover have "branches s (node_hash sha (node_at f p)) = None"
  proof (rule stored_none)
    show "stored (branches s) (branch_at sha f ` Q) (branch_hash sha)" using assms(1) by (simp add: c_holds_def)
    fix y assume "y \<in> branch_at sha f ` Q"
    then obtain q where q: "q \<in> Q" "y = branch_at sha f q" by blast
    then have "length q < 256" using assms(2) by (simp add: valid_places_def)
    with q p(2) same_place [OF assms(3,4) occ len, of q]
    show "branch_hash sha y \<noteq> node_hash sha (node_at f p)" by (auto simp: branch_at_hash simp del: branch_at_node)
  qed
  moreover have "compacted_leaves s (node_hash sha (node_at f p)) = Some (compacted_at sha (p, key, leaf))"
    using assms(1,5) stored_get [of "compacted_leaves s" "compacted_at sha ` E" cl_hash "compacted_at sha (p, key, leaf)"]
      compacted_at_hash [OF p(1), of sha] by (simp add: c_holds_def)
  ultimately show ?thesis by (simp add: get_node_def node_hash_empty_tree)
qed

text \<open>What the store returns for a subtree of a given shape.\<close>

fun shape_node :: "hash_fun \<Rightarrow> content \<Rightarrow> path \<Rightarrow> shape \<Rightarrow> Node" where
  "shape_node sha f p SE = empty_tree sha (length p)"
| "shape_node sha f p (SC key leaf) = Compacted (compacted_at sha (p, key, leaf))"
| "shape_node sha f p (SB l r) = Branch (fst (branch_at sha f p)) (snd (branch_at sha f p))"

lemma c_get_shape:
  assumes "c_holds sha s (branch_at sha f ` Q) E" "valid_places f Q E" "separated sha S f" "distinct_leaves f"
    and "shape_of f p t" "branch_places p t \<subseteq> Q" "leaf_places p t \<subseteq> E" "length p \<le> 256"
  shows "get_node sha s (length p) (node_hash sha (node_at f p)) = shape_node sha f p t"
proof (cases t)
  case SE
  with assms show ?thesis using unoccupied_node [of sha S f p s] by simp
next
  case (SC key leaf)
  with assms(7) c_get_compacted [OF assms(1-4)] show ?thesis by auto
next
  case (SB l r)
  with assms(6) c_get_branch [OF assms(1-3)] show ?thesis by auto
qed

lemma shape_node_equal:
  "shape_of f p t \<Longrightarrow> length p \<le> 256 \<Longrightarrow> is_equal_node sha (shape_node sha f p t) (node_at f p)"
proof (cases t)
  case SE
  moreover assume "shape_of f p t"
  ultimately show ?thesis using empty_node_at by simp
next
  case (SC key leaf)
  moreover assume "shape_of f p t"
  ultimately show ?thesis using compacted_alone(1) by simp
next
  case (SB l r)
  moreover assume "shape_of f p t"
  ultimately show ?thesis by (simp add: node_at_Branch [of p] is_equal_node_def)
qed

lemma c_get_children:
  assumes "c_holds sha s (branch_at sha f ` Q) E" "valid_places f Q E" "separated sha S f" "distinct_leaves f"
    and "length p < 256" "shape_of f (p @ [False]) ta" "shape_of f (p @ [True]) tb"
    and "node_places f p ta tb \<subseteq> Q" "kid_leaves p ta tb \<subseteq> E"
  shows "get_children sha s (length p) (node_hash sha (node_at f p))
    = Ok (shape_node sha f (p @ [False]) ta, shape_node sha f (p @ [True]) tb)"
proof (cases "occupied f p")
  case True
  have ne: "node_hash sha (node_at f p) \<noteq> empty_hash sha (256 - length p)"
    using occupied_iff_hash [OF assms(3), of p] assms(5) True by simp
  have "p \<in> Q" using assms(8) True by (simp add: node_places_def root_place_def)
  note b = c_get_branch [OF assms(1-3) this]
  have "get_node sha s (length (p @ [c])) (node_hash sha (node_at f (p @ [c]))) = shape_node sha f (p @ [c]) t"
    if "(c, t) \<in> {(False, ta), (True, tb)}" for c t
    using that assms(5-9) by (intro c_get_shape [OF assms(1-4)]) (auto simp: node_places_def kid_leaves_def)
  from this [of False ta] this [of True tb] ne b assms(5) show ?thesis
    by (simp add: get_children_def node_hash_empty_tree node_at_Branch [of p])
next
  case False
  have kid: "\<not> occupied f (p @ [b])" for b using occupied_snoc [of f p b] assms(5) False by blast
  have se: "t = SE" if "shape_of f (p @ [b]) t" for t b
    using that kid [of b] alone_occupied by (cases t) auto
  have "node_hash sha (node_at f p) = empty_hash sha (256 - length p)"
    using occupied_iff_hash [OF assms(3), of p] assms(5) False by simp
  with se [OF assms(6)] se [OF assms(7)] assms(5) show ?thesis
    by (simp add: get_children_def node_hash_empty_tree)
qed

section \<open>Walking down\<close>

text \<open>The nodes met in an expanded compacted leaf: its own path, and empty nodes off it.\<close>

definition memory_node :: "hash_fun \<Rightarrow> content \<Rightarrow> path \<Rightarrow> Node \<Rightarrow> bool" where
  "memory_node sha f p cur \<longleftrightarrow>
     (\<not> occupied f p \<and> (cur = empty_tree sha (length p) \<or> cur = computed (empty_hash sha (256 - length p)) 0))
     \<or> (\<exists>key leaf. alone f p key leaf \<and> cur = extract_up sha key (length p) (256 - length p) (Leaf leaf))"

lemma memory_node_equal:
  "memory_node sha f p cur \<Longrightarrow> is_equal_node sha cur (node_at f p)"
proof -
  assume "memory_node sha f p cur"
  then consider "\<not> occupied f p" "cur = empty_tree sha (length p)"
    | "\<not> occupied f p" "cur = computed (empty_hash sha (256 - length p)) 0"
    | key leaf where "alone f p key leaf" "cur = extract_up sha key (length p) (256 - length p) (Leaf leaf)"
    unfolding memory_node_def by blast
  then show ?thesis
  proof cases
    case 2
    then show ?thesis using empty_node_at [of f p sha] by (simp add: is_equal_node_def node_hash_empty_tree)
  qed (use empty_node_at extract_alone in auto)
qed

lemma empty_tree_Branch:
  "i < 256 \<Longrightarrow> empty_tree sha i = Branch (computed (empty_hash sha (255 - i)) 0) (computed (empty_hash sha (255 - i)) 0)"
proof -
  assume "i < 256"
  then have "256 - i = Suc (255 - i)" by simp
  then show ?thesis by (simp add: empty_tree_def Let_def)
qed

lemma empty_up_not_compacted [simp]: "empty_up sha d \<noteq> Compacted c"
  by (cases d) (simp_all add: Let_def)

lemma memory_children:
  assumes "memory_node sha f p cur" "length p < 256"
  obtains a b where "in_memory_children sha (length p) cur = (a, b)"
    and "memory_node sha f (p @ [False]) a" "memory_node sha f (p @ [True]) b"
proof -
  have n: "256 - length p = Suc (255 - length p)" using assms(2) by simp
  consider "\<not> occupied f p" "cur = empty_tree sha (length p)"
    | "\<not> occupied f p" "cur = computed (empty_hash sha (256 - length p)) 0"
    | key leaf where "alone f p key leaf" "cur = extract_up sha key (length p) (256 - length p) (Leaf leaf)"
    using assms(1) unfolding memory_node_def by blast
  then show thesis
  proof cases
    case 1
    then have "\<not> occupied f (p @ [b])" for b using occupied_snoc assms(2) by blast
    with that 1 assms(2) show thesis
      by (simp add: in_memory_children_def empty_tree_Branch memory_node_def)
  next
    case 2
    then have "\<not> occupied f (p @ [b])" for b using occupied_snoc assms(2) by blast
    with that 2 show thesis by (simp add: in_memory_children_def computed_def memory_node_def)
  next
    case (3 key leaf)
    let ?b = "bit_index (length p) key"
    let ?sub = "extract_up sha key (Suc (length p)) (255 - length p) (Leaf leaf)"
    have on: "memory_node sha f (p @ [?b]) ?sub"
      using alone_step(1) [OF 3(1) assms(2)] unfolding memory_node_def by auto
    have off: "memory_node sha f (p @ [\<not> ?b]) (empty_tree sha (Suc (length p)))"
      using alone_step(2) [OF 3(1) assms(2)] unfolding memory_node_def by simp
    show thesis
    proof (cases ?b)
      case True
      with that [of "empty_tree sha (Suc (length p))" ?sub] on off show thesis
        unfolding 3(2) n extract_up_Suc by (simp add: in_memory_children_def)
    next
      case False
      with that [of ?sub "empty_tree sha (Suc (length p))"] on off show thesis
        unfolding 3(2) n extract_up_Suc by (simp add: in_memory_children_def)
    qed
  qed
qed

lemma memory_leaf:
  assumes "memory_node sha f p cur" "length p = 256"
  shows "leaf_or_empty cur = f p"
proof -
  have e: "f p = leaf_empty" if "\<not> occupied f p" using that assms(2) by (simp add: occupied_def)
  consider "\<not> occupied f p" "cur = empty_tree sha (length p)"
    | "\<not> occupied f p" "cur = computed (empty_hash sha (256 - length p)) 0"
    | key leaf where "alone f p key leaf" "cur = extract_up sha key (length p) (256 - length p) (Leaf leaf)"
    using assms(1) unfolding memory_node_def by blast
  then show ?thesis
  proof cases
    case 3
    with alone_leaf [OF 3(1) assms(2)] assms(2) show ?thesis by auto
  qed (use e assms(2) in \<open>auto simp: empty_tree_def computed_def\<close>)
qed

definition off_path :: "content \<Rightarrow> bytes \<Rightarrow> nat \<Rightarrow> Node" where
  "off_path f key j = node_at f (take j (key_bits key) @ [\<not> bit_index j key])"

definition siblings_ok :: "hash_fun \<Rightarrow> content \<Rightarrow> bytes \<Rightarrow> nat \<Rightarrow> trace \<Rightarrow> bool" where
  "siblings_ok sha f key i trace \<longleftrightarrow>
     list_all2 (is_equal_node sha) (map trace_sibling trace) (map (off_path f key) [i..<256])"

lemma siblings_ok_Cons:
  "i < 256 \<Longrightarrow> siblings_ok sha f key i ((n, sib, cur) # trace) \<longleftrightarrow>
     is_equal_node sha sib (off_path f key i) \<and> siblings_ok sha f key (Suc i) trace"
  by (simp add: siblings_ok_def upt_rec [of i])

lemma memory_walk_at:
  "i + n = 256 \<Longrightarrow> memory_node sha f (take i (key_bits key)) cur \<Longrightarrow>
    \<exists>final trace. memory_walk sha key i n cur = (final, trace) \<and> leaf_or_empty final = f (key_bits key)
      \<and> siblings_ok sha f key i trace"
proof (induction n arbitrary: i cur)
  case 0
  then show ?case using memory_leaf [of sha f "key_bits key" cur] by (simp add: siblings_ok_def)
next
  case (Suc n)
  let ?p = "take i (key_bits key)"
  have i: "i < 256" "length ?p = i" using Suc.prems(1) by simp_all
  obtain a b where ab: "in_memory_children sha i cur = (a, b)"
    "memory_node sha f (?p @ [False]) a" "memory_node sha f (?p @ [True]) b"
    using memory_children [OF Suc.prems(2)] i by auto
  obtain nx sib where ord: "step_order i key a b = (nx, sib)" by fastforce
  have nx: "memory_node sha f (take (Suc i) (key_bits key)) nx"
    and sib: "memory_node sha f (?p @ [\<not> bit_index i key]) sib"
    using ord ab i by (auto simp: step_order_def take_Suc_key_bits split: if_splits)
  from Suc.IH [OF _ nx] Suc.prems(1) obtain final trace where
    "memory_walk sha key (Suc i) n nx = (final, trace)" "leaf_or_empty final = f (key_bits key)"
    "siblings_ok sha f key (Suc i) trace" by auto
  with ab(1) ord i memory_node_equal [OF sib] show ?case
    by (simp add: siblings_ok_Cons off_path_def)
qed

text \<open>The nodes at which the walk goes on in the store.\<close>

definition kids_held ::
  "content \<Rightarrow> path set \<Rightarrow> (path \<times> bytes \<times> LeafNode) set \<Rightarrow> path \<Rightarrow> shape \<Rightarrow> shape \<Rightarrow> bool" where
  "kids_held f Q E p ta tb \<longleftrightarrow> shape_of f (p @ [False]) ta \<and> shape_of f (p @ [True]) tb
     \<and> node_places f p ta tb \<subseteq> Q \<and> kid_leaves p ta tb \<subseteq> E"

definition walkable ::
  "hash_fun \<Rightarrow> content \<Rightarrow> path set \<Rightarrow> (path \<times> bytes \<times> LeafNode) set \<Rightarrow> path \<Rightarrow> Node \<Rightarrow> bool" where
  "walkable sha f Q E p cur \<longleftrightarrow>
     (if length p = 256 then leaf_or_empty cur = f p
      else node_hash sha cur = node_hash sha (node_at f p) \<and> (\<exists>ta tb. kids_held f Q E p ta tb))"

lemma kids_held_near:
  "kids_held f Q E p ta tb \<Longrightarrow> \<exists>t. t = (if b then tb else ta) \<and> shape_of f (p @ [b]) t
     \<and> branch_places (p @ [b]) t \<subseteq> Q \<and> leaf_places (p @ [b]) t \<subseteq> E"
  by (cases b) (auto simp: kids_held_def node_places_def kid_leaves_def)

lemma kids_held_empty: "\<not> occupied f p \<Longrightarrow> length p < 256 \<Longrightarrow> kids_held f Q E p SE SE"
  using occupied_snoc [of f p] by (auto simp: kids_held_def node_places_def kid_leaves_def root_place_def)

lemma walkable_shape:
  assumes "shape_of f p t" "branch_places p t \<subseteq> Q" "leaf_places p t \<subseteq> E" "length p \<le> 256"
    and "\<And>key leaf. t \<noteq> SC key leaf"
  shows "walkable sha f Q E p (shape_node sha f p t)"
proof (cases t)
  case SE
  then have occ: "\<not> occupied f p" using assms(1) by simp
  show ?thesis
  proof (cases "length p = 256")
    case True
    then have "f p = leaf_empty" using occ by (simp add: occupied_def)
    with True SE show ?thesis by (simp add: walkable_def empty_tree_def)
  next
    case False
    with assms(4) occ SE kids_held_empty [OF occ, of Q E] empty_node_at [OF occ, of sha] show ?thesis
      by (auto simp: walkable_def is_equal_node_def)
  qed
next
  case (SB l r)
  then have "kids_held f Q E p l r" "length p < 256"
    using assms(1-3) by (auto simp: kids_held_def node_places_def kid_leaves_def root_place_def)
  with SB show ?thesis by (auto simp: walkable_def node_at_Branch [of p])
qed (use assms(5) in simp)

lemma c_walk_down_from_at:
  assumes holds: "c_holds sha s (branch_at sha f ` Q) E" "valid_places f Q E" "separated sha S f" "distinct_leaves f"
  shows "i + n = 256 \<Longrightarrow> walkable sha f Q E (take i (key_bits key)) cur \<Longrightarrow>
    \<exists>final trace. c_walk_down_from sha s key i n cur = Ok (final, trace) \<and> leaf_or_empty final = f (key_bits key)
      \<and> siblings_ok sha f key i trace"
proof (induction n arbitrary: i cur)
  case 0
  then show ?case by (simp add: walkable_def siblings_ok_def)
next
  case (Suc n)
  let ?p = "take i (key_bits key)" and ?b = "bit_index i key"
  have i: "i < 256" "length ?p = i" using Suc.prems(1) by simp_all
  then obtain ta tb where cur: "node_hash sha cur = node_hash sha (node_at f ?p)" and kids: "kids_held f Q E ?p ta tb"
    using Suc.prems(2) by (auto simp: walkable_def)
  obtain near where near: "near = (if ?b then tb else ta)" "shape_of f (?p @ [?b]) near"
    "branch_places (?p @ [?b]) near \<subseteq> Q" "leaf_places (?p @ [?b]) near \<subseteq> E"
    using kids_held_near [OF kids, of ?b] by blast
  obtain far where far: "far = (if \<not> ?b then tb else ta)" "shape_of f (?p @ [\<not> ?b]) far"
    using kids_held_near [OF kids, of "\<not> ?b"] by blast
  let ?nx = "shape_node sha f (?p @ [?b]) near" and ?sib = "shape_node sha f (?p @ [\<not> ?b]) far"
  have "get_children sha s i (node_hash sha cur) = Ok (shape_node sha f (?p @ [False]) ta, shape_node sha f (?p @ [True]) tb)"
    using c_get_children [OF holds, of ?p ta tb] kids i cur by (simp add: kids_held_def)
  moreover have "step_order i key (shape_node sha f (?p @ [False]) ta) (shape_node sha f (?p @ [True]) tb) = (?nx, ?sib)"
    using near(1) far(1) by (simp add: step_order_def)
  ultimately have step: "c_walk_down_from sha s key i (Suc n) cur =
      (case ?nx of
         Compacted c \<Rightarrow>
           (let nxt = cl_extract sha c (i + 1);
                sibling = (case ?sib of Compacted cs \<Rightarrow> cl_extract sha cs (i + 1) | _ \<Rightarrow> ?sib);
                (final, trace) = memory_walk sha key (i + 1) n nxt
            in Ok (final, (nxt, sibling, cur) # trace))
       | _ \<Rightarrow>
           res_bind (c_walk_down_from sha s key (i + 1) n ?nx) (\<lambda>(final, trace).
             Ok (final, (?nx, ?sib, cur) # trace)))"
    by simp
  have sib: "is_equal_node sha ?sib (off_path f key i)"
    unfolding off_path_def using shape_node_equal [OF far(2), of sha] i by simp
  show ?case
  proof (cases "\<exists>k l. near = SC k l")
    case True
    then obtain k l where sc: "near = SC k l" by blast
    have sib': "is_equal_node sha (case ?sib of Compacted cs \<Rightarrow> cl_extract sha cs (i + 1) | _ \<Rightarrow> ?sib) (off_path f key i)"
      using sib far(2) i compacted_alone(2) [of f "?p @ [\<not> ?b]" _ _ sha]
      by (cases far) (auto simp: off_path_def empty_tree_def split: Node.splits dest: sym)
    let ?ex = "cl_extract sha (compacted_at sha (?p @ [?b], k, l)) (Suc i)"
    have "memory_node sha f (take (Suc i) (key_bits key)) ?ex"
      using near(2) sc i unfolding memory_node_def
      by (auto simp: take_Suc_key_bits cl_extract_def compacted_at_def compacted_new_def)
    from memory_walk_at [OF _ this, of n] Suc.prems(1) obtain final trace where
      "memory_walk sha key (Suc i) n ?ex = (final, trace)" "leaf_or_empty final = f (key_bits key)"
      "siblings_ok sha f key (Suc i) trace" by auto
    with sib' i show ?thesis unfolding step sc by (simp add: siblings_ok_Cons)
  next
    case False
    then have "walkable sha f Q E (take (Suc i) (key_bits key)) ?nx"
      using walkable_shape [OF near(2-4)] i by (simp add: take_Suc_key_bits)
    from Suc.IH [OF _ this] Suc.prems(1) obtain final trace where
      rec: "c_walk_down_from sha s key (Suc i) n ?nx = Ok (final, trace)" "leaf_or_empty final = f (key_bits key)"
      "siblings_ok sha f key (Suc i) trace" by auto
    have "\<nexists>c. ?nx = Compacted c"
      using False by (cases near) (auto simp: empty_tree_def)
    then have "c_walk_down_from sha s key i (Suc n) cur = res_bind (c_walk_down_from sha s key (i + 1) n ?nx)
        (\<lambda>(final, trace). Ok (final, (?nx, ?sib, cur) # trace))"
      unfolding step by (auto split: Node.splits)
    with rec sib i show ?thesis by (simp add: siblings_ok_Cons)
  qed
qed

section \<open>Writing\<close>

text \<open>A prefix off the path of the updated key keeps its subtree.\<close>

definition off :: "path \<Rightarrow> path \<Rightarrow> bool" where
  "off k q \<longleftrightarrow> q \<noteq> take (length q) k"

lemma alone_unique: "alone f p k1 l1 \<Longrightarrow> alone f p k2 l2 \<Longrightarrow> k1 = k2 \<and> l1 = l2"
proof -
  assume a: "alone f p k1 l1" and b: "alone f p k2 l2"
  let ?r = "drop (length p) (key_bits k1)"
  have k: "p @ ?r = key_bits k1" "length ?r = 256 - length p"
    using a unfolding alone_def by (metis append_take_drop_id, simp)
  then have l1: "f (key_bits k1) = l1" "l1 \<noteq> leaf_empty" using a unfolding alone_def by metis+
  moreover have "f (key_bits k1) = (if key_bits k1 = key_bits k2 then l2 else leaf_empty)"
    using b k unfolding alone_def by metis
  ultimately have "key_bits k1 = key_bits k2" "l1 = l2" by (auto split: if_splits)
  moreover have "length k1 = 32" "length k2 = 32" using a b unfolding alone_def by blast+
  ultimately show ?thesis using key_bits_inject by blast
qed

lemma alone_off: "off k p \<Longrightarrow> alone f p key leaf \<Longrightarrow> alone (f(k := l)) p key leaf"
proof -
  assume o: "off k p" and a: "alone f p key leaf"
  have "p @ r \<noteq> k" for r using o by (auto simp: off_def)
  then have "(f(k := l)) (p @ r) = f (p @ r)" for r by simp
  with a show ?thesis unfolding alone_def by metis
qed

lemma branch_at_off: "off k p \<Longrightarrow> length p < 256 \<Longrightarrow> branch_at sha (f(k := l)) p = branch_at sha f p"
  by (rule branch_at_cong [OF node_at_upd_off]) (simp_all add: off_def)

lemma off_append: "off k p \<Longrightarrow> off k (p @ r)"
  unfolding off_def
proof (rule notI)
  assume "p \<noteq> take (length p) k" "p @ r = take (length (p @ r)) k"
  from arg_cong [OF this(2), of "take (length p)"] have "p = take (length p) k" by simp
  with \<open>p \<noteq> take (length p) k\<close> show False by simp
qed

lemma off_sibling: "i < 256 \<Longrightarrow> off (key_bits key) (take i (key_bits key) @ [\<not> bit_index i key])"
  by (simp add: off_def take_Suc_key_bits)

lemma shape_of_off: "off k p \<Longrightarrow> shape_of f p t \<Longrightarrow> shape_of (f(k := l)) p t"
proof (induction t arbitrary: p)
  case SE
  have "p @ r \<noteq> k" for r using SE.prems(1) by (auto simp: off_def)
  then have "(f(k := l)) (p @ r) = f (p @ r)" for r by simp
  with SE.prems(2) show ?case unfolding shape_of.simps occupied_def by metis
next
  case (SC key leaf)
  then show ?case using alone_off [of k p f key leaf l] by (simp del: fun_upd_apply)
next
  case (SB a b)
  have "occupied (f(k := l)) p" if "length p < 256"
    using that SB.prems occupied_upd_off [of p k f l] unfolding off_def by simp
  with SB off_append [OF SB.prems(1)] show ?case unfolding shape_of.simps by blast
qed

lemma branch_places_off:
  "off k p \<Longrightarrow> shape_of f p t \<Longrightarrow> branch_at sha (f(k := l)) ` branch_places p t = branch_at sha f ` branch_places p t"
  using branch_place_prefix branch_place_occupied off_append
  by (intro image_cong refl branch_at_off) blast+

text \<open>The compacted leaves that an update leaves alone.\<close>

definition frame_leaves :: "content \<Rightarrow> path \<Rightarrow> (path \<times> bytes \<times> LeafNode) set \<Rightarrow> bool" where
  "frame_leaves f k E \<longleftrightarrow> (\<forall>(q, key, leaf) \<in> E. alone f q key leaf \<and> off k q)"

definition frame_places :: "content \<Rightarrow> path set \<Rightarrow> bool" where
  "frame_places f F \<longleftrightarrow> (\<forall>q \<in> F. length q < 256 \<and> occupied f q)"

definition all_alone :: "content \<Rightarrow> (path \<times> bytes \<times> LeafNode) set \<Rightarrow> bool" where
  "all_alone f E \<longleftrightarrow> (\<forall>(q, key, leaf) \<in> E. alone f q key leaf)"

lemma frame_leaves_alone:
  "frame_leaves f k E \<Longrightarrow> all_alone f E" "frame_leaves f k E \<Longrightarrow> all_alone (f(k := l)) E"
  using alone_off by (fastforce simp: frame_leaves_def all_alone_def)+

lemma hold_compacted:
  assumes "c_holds sha s Y E" "all_alone f E" "alone f p key leaf" "separated sha S f" "distinct_leaves f"
  shows "c_holds sha (insert_compacted_leaf (compacted_at sha (p, key, leaf)) s) Y (insert (p, key, leaf) E)"
proof -
  let ?x = "compacted_at sha (p, key, leaf)"
  have "y = ?x" if y: "y \<in> compacted_at sha ` E" "cl_hash y = cl_hash ?x" for y
  proof -
    from y(1) obtain q k l where q: "(q, k, l) \<in> E" "y = compacted_at sha (q, k, l)" by auto
    then have a: "alone f q k l" using assms(2) by (auto simp: all_alone_def)
    have "node_hash sha (node_at f p) = node_hash sha (node_at f q)"
      using y(2) q compacted_at_hash [OF a, of sha] compacted_at_hash [OF assms(3), of sha] by simp
    then have "p = q"
      using assms(3) a by (intro same_place [OF assms(4,5) alone_occupied [OF assms(3)]]) (auto simp: alone_def)
    with alone_unique [OF assms(3)] a q show ?thesis by auto
  qed
  then have "stored ((compacted_leaves s)(cl_hash ?x \<mapsto> ?x)) (insert ?x (compacted_at sha ` E)) cl_hash"
    using assms(1) by (intro stored_insert) (auto simp: c_holds_def)
  with assms(1) show ?thesis by (simp add: c_holds_def insert_compacted_leaf_def)
qed

lemma drop_compacted:
  assumes "c_holds sha s Y (insert (p, key, leaf) E)" "frame_leaves f k E" "alone f p key leaf" "\<not> off k p"
    and "separated sha S f" "distinct_leaves f"
  shows "c_holds sha (delete_compacted_leaf (cl_hash (compacted_at sha (p, key, leaf))) s) Y E"
proof -
  let ?x = "compacted_at sha (p, key, leaf)"
  have "cl_hash (compacted_at sha e) \<noteq> cl_hash ?x" if "e \<in> E" for e
  proof
    obtain q k' l' where e: "e = (q, k', l')" by (cases e)
    then have a: "alone f q k' l'" "off k q" using that assms(2) by (auto simp: frame_leaves_def)
    assume "cl_hash (compacted_at sha e) = cl_hash ?x"
    then have "node_hash sha (node_at f p) = node_hash sha (node_at f q)"
      using e compacted_at_hash [OF a(1), of sha] compacted_at_hash [OF assms(3), of sha] by simp
    then have "p = q"
      using assms(3) a by (intro same_place [OF assms(5,6) alone_occupied [OF assms(3)]]) (auto simp: alone_def)
    with a(2) assms(4) show False by simp
  qed
  then have "{x \<in> insert ?x (compacted_at sha ` E). cl_hash x \<noteq> cl_hash ?x} = compacted_at sha ` E" by auto
  with assms(1) stored_delete [of "compacted_leaves s" "insert ?x (compacted_at sha ` E)" cl_hash "cl_hash ?x"]
  show ?thesis by (simp add: c_holds_def delete_compacted_leaf_def)
qed

lemma hold_branch:
  assumes "c_holds sha s (branch_at sha g ` N \<union> branch_at sha f ` F) E"
    and "\<forall>q \<in> N. length q < 256" "\<forall>q \<in> F. length q < 256" "length p < 256"
    and "separated sha S f" "separated sha S g"
    and "is_equal_node sha a (node_at g (p @ [False]))" "is_equal_node sha b (node_at g (p @ [True]))"
  shows "c_holds sha (insert_branch sha (a, b) s) (branch_at sha g ` insert p N \<union> branch_at sha f ` F) E"
proof -
  let ?x = "branch_at sha g p"
  have x: "shallow_branch sha (a, b) = ?x" using assms(7,8) by (simp add: branch_at_def shallow_branch_def is_equal_node_def)
  have h: "branch_hash sha (a, b) = branch_hash sha ?x" using shallow_branch_hash [of sha "(a, b)"] x by simp
  have "y = ?x" if y: "y \<in> branch_at sha g ` N \<union> branch_at sha f ` F" "branch_hash sha y = branch_hash sha ?x" for y
  proof -
    from y(1) obtain c q where q: "y = branch_at sha c q" "length q < 256" "separated sha S c"
      using assms(2,3,5,6) by blast
    then have "node_at c q = node_at g p"
      using y(2) assms(4,6) by (intro node_at_hash_inject [of sha S]) (simp_all add: branch_at_hash del: branch_at_node)
    then show ?thesis unfolding q(1) using q(2) assms(4) by (rule branch_at_cong)
  qed
  then have "stored ((branches s)(branch_hash sha ?x \<mapsto> ?x)) (insert ?x (branch_at sha g ` N \<union> branch_at sha f ` F)) (branch_hash sha)"
    using assms(1) by (intro stored_insert) (auto simp: c_holds_def)
  with assms(1) show ?thesis by (simp add: c_holds_def insert_branch_def x h del: branch_hash_Pair branch_at_node)
qed

lemma drop_branch:
  assumes "c_holds sha s (branch_at sha g ` N \<union> branch_at sha f ` insert p F) E"
    and "\<forall>q \<in> N. length p < length q \<and> length q < 256" "frame_places f F" "p \<notin> F" "length p < 256" "occupied f p"
    and "separated sha S f" "separated sha S g" "distinct_leaves f"
  shows "c_holds sha (delete_branch (node_hash sha (node_at f p)) s) (branch_at sha g ` N \<union> branch_at sha f ` F) E"
proof -
  let ?h = "node_hash sha (node_at f p)"
  have new: "branch_hash sha (branch_at sha g q) \<noteq> ?h" if "q \<in> N" for q
  proof
    have q: "length p < length q" "length q < 256" using that assms(2) by auto
    assume "branch_hash sha (branch_at sha g q) = ?h"
    then have "node_at g q = node_at f p"
      using q assms(5) by (intro node_at_hash_inject [OF assms(8,7)]) (simp_all add: branch_at_hash del: branch_at_node)
    from node_at_eqD [OF this] q assms(5) show False by simp
  qed
  have old: "branch_hash sha (branch_at sha f q) \<noteq> ?h" if "q \<in> F" for q
  proof
    have q: "length q < 256" using that assms(3) by (simp add: frame_places_def)
    assume "branch_hash sha (branch_at sha f q) = ?h"
    then have "p = q"
      using q assms(5) by (intro same_place [OF assms(7,9,6)]) (simp_all add: branch_at_hash del: branch_at_node)
    with that assms(4) show False by simp
  qed
  have "{y \<in> branch_at sha g ` N \<union> branch_at sha f ` insert p F. branch_hash sha y \<noteq> ?h}
      = branch_at sha g ` N \<union> branch_at sha f ` F"
    using new old branch_at_hash [OF assms(5), of sha f] by (auto simp del: branch_at_node)
  with assms(1) stored_delete [of "branches s" "branch_at sha g ` N \<union> branch_at sha f ` insert p F" "branch_hash sha" ?h]
  show ?thesis by (simp add: c_holds_def delete_branch_def)
qed

lemma rebuild_at:
  assumes sep: "separated sha S f" "separated sha S g" and dist: "distinct_leaves f"
    and p: "p = take h (key_bits key)" "h < 256" and g: "g = f(key_bits key := leaf)"
    and root: "is_equal_node sha (Branch (fst root) (snd root)) (node_at f p)"
    and new: "is_equal_node sha new (node_at g (p @ [bit_index h key]))"
    and sib: "is_equal_node sha sib (node_at f (p @ [\<not> bit_index h key]))"
    and holds: "c_holds sha s (branch_at sha g ` N \<union> branch_at sha f ` (root_place f p \<union> F)) E"
    and N: "\<forall>q \<in> N. h < length q \<and> length q < 256" and F: "frame_places f F" "p \<notin> F"
  shows "\<exists>b s'. rebuild_branch sha key h root new sib s = (b, s')
    \<and> is_equal_node sha (Branch (fst b) (snd b)) (node_at g p)
    \<and> c_holds sha s' (branch_at sha g ` (root_place g p \<union> N) \<union> branch_at sha f ` F) E
    \<and> store_root s' = store_root s"
proof -
  have len: "length p = h" "length p < 256" using p by simp_all
  obtain l r where lr: "step_order h key new sib = (l, r)" by fastforce
  have "is_equal_node sha sib (node_at g (p @ [\<not> bit_index h key]))"
    using sib node_at_sibling [of h "key_bits key" f leaf] p g by simp
  note kids = step_order_children [OF p(2) new [unfolded p(1)] this [unfolded p(1)] lr, folded p(1)]
  have empty_iff: "is_equal_node sha n (empty_tree sha h) \<longleftrightarrow> \<not> occupied c p"
    if "is_equal_node sha n (node_at c p)" "separated sha S c" for n c
  proof (cases "occupied c p")
    case True
    then show ?thesis
      using that occupied_iff_hash [OF that(2), of p] len by (auto simp: is_equal_node_def node_hash_empty_tree)
  next
    case False
    then show ?thesis using that empty_node_at [OF False, of sha] len by (simp add: is_equal_node_def)
  qed
  define s1 where "s1 = (if occupied f p then delete_branch (node_hash sha (node_at f p)) s else s)"
  have s1: "c_holds sha s1 (branch_at sha g ` N \<union> branch_at sha f ` F) E" "store_root s1 = store_root s"
    using holds drop_branch [OF _ _ F len(2) _ sep dist, of s N E] N len
    by (auto simp: s1_def root_place_def delete_branch_def)
  define s2 where "s2 = (if occupied g p then insert_branch sha (l, r) s1 else s1)"
  have "branch_hash sha root = node_hash sha (node_at f p)"
    using root unfolding branch_hash_def is_equal_node_def by (rule conjunct1)
  then have "rebuild_branch sha key h root new sib s = ((l, r), s2)"
    using empty_iff [OF root sep(1)] empty_iff [OF kids(3) sep(2)]
    by (simp add: rebuild_branch_def lr Let_def s1_def s2_def)
  moreover have "c_holds sha s2 (branch_at sha g ` (root_place g p \<union> N) \<union> branch_at sha f ` F) E"
    using s1(1) hold_branch [OF s1(1) _ _ len(2) sep kids(1,2)] N F(1)
    by (auto simp: s2_def root_place_def frame_places_def)
  moreover have "store_root s2 = store_root s" using s1(2) by (simp add: s2_def insert_branch_def)
  ultimately show ?thesis using kids(3) by auto
qed

section \<open>Merging two leaves\<close>

lemma common_prefix_at:
  "\<exists>j. i \<le> j \<and> j < i + n \<and> bit_index j key1 \<noteq> bit_index j key2 \<Longrightarrow>
    i \<le> common_prefix key1 key2 i n \<and> common_prefix key1 key2 i n < i + n
    \<and> bit_index (common_prefix key1 key2 i n) key1 \<noteq> bit_index (common_prefix key1 key2 i n) key2
    \<and> (\<forall>j. i \<le> j \<longrightarrow> j < common_prefix key1 key2 i n \<longrightarrow> bit_index j key1 = bit_index j key2)"
proof (induction n arbitrary: i)
  case (Suc n)
  show ?case
  proof (cases "bit_index i key1 = bit_index i key2")
    case True
    with Suc.prems have "\<exists>j. Suc i \<le> j \<and> j < Suc i + n \<and> bit_index j key1 \<noteq> bit_index j key2"
      by (metis Suc_leI add_Suc_shift le_neq_implies_less)
    note ih = Suc.IH [OF this]
    have "bit_index j key1 = bit_index j key2" if "i \<le> j" "j < common_prefix key1 key2 (Suc i) n" for j
      using ih that True by (cases "j = i") auto
    with ih True show ?thesis by simp
  qed auto
qed auto

lemma merge_up_at:
  assumes sep: "separated sha S f" "separated sha S g" and F: "frame_places f F"
  shows "i + n < 256 \<Longrightarrow> is_equal_node sha (Branch (fst parent) (snd parent)) (node_at g (take (i + n) (key_bits key))) \<Longrightarrow>
    shape_of g (take (i + n) (key_bits key)) t \<Longrightarrow> occupied g (take (i + n) (key_bits key)) \<Longrightarrow>
    c_holds sha s (branch_at sha g ` branch_places (take (i + n) (key_bits key)) t \<union> branch_at sha f ` F) E \<Longrightarrow>
    (\<And>j. i \<le> j \<Longrightarrow> j < i + n \<Longrightarrow> \<not> occupied g (take j (key_bits key) @ [\<not> bit_index j key])) \<Longrightarrow>
    \<exists>b s' t'. merge_up sha key i n parent s = (b, s') \<and> shape_of g (take i (key_bits key)) t'
      \<and> is_equal_node sha (Branch (fst b) (snd b)) (node_at g (take i (key_bits key)))
      \<and> leaf_places (take i (key_bits key)) t' = leaf_places (take (i + n) (key_bits key)) t
      \<and> c_holds sha s' (branch_at sha g ` branch_places (take i (key_bits key)) t' \<union> branch_at sha f ` F) E
      \<and> store_root s' = store_root s"
proof (induction n arbitrary: parent s t)
  case 0
  then show ?case by auto
next
  case (Suc n)
  let ?q = "take (i + n) (key_bits key)" and ?b = "bit_index (i + n) key"
  let ?node = "Branch (fst parent) (snd parent)" and ?e = "empty_tree sha (Suc (i + n))"
  have lt: "i + n < 256" "length ?q = i + n" using Suc.prems(1) by simp_all
  have step: "take (i + Suc n) (key_bits key) = ?q @ [?b]" using take_Suc_key_bits [OF lt(1), of key] by simp
  define up where "up = (if \<not> ?b then (?node, ?e) else (?e, ?node))"
  define t1 where "t1 = (if \<not> ?b then SB t SE else SB SE t)"
  have off: "\<not> occupied g (?q @ [\<not> ?b])" using Suc.prems(6) [of "i + n"] by simp
  have node: "is_equal_node sha ?node (node_at g (?q @ [?b]))" using Suc.prems(2) step by simp
  have e: "is_equal_node sha ?e (node_at g (?q @ [\<not> ?b]))" using empty_node_at [OF off, of sha] lt by simp
  have kids: "is_equal_node sha (fst up) (node_at g (?q @ [False]))" "is_equal_node sha (snd up) (node_at g (?q @ [True]))"
    using node e by (auto simp: up_def)
  then have up: "is_equal_node sha (Branch (fst up) (snd up)) (node_at g ?q)"
    using lt by (simp add: node_at_Branch [of ?q] is_equal_node_def)
  have occ: "occupied g ?q" using Suc.prems(4) occupied_snoc [of g ?q ?b] step lt by simp
  have t1: "shape_of g ?q t1" "leaf_places ?q t1 = leaf_places (?q @ [?b]) t"
    "branch_places ?q t1 = insert ?q (branch_places (?q @ [?b]) t)"
    using Suc.prems(3) step off occ lt by (auto simp: t1_def)
  have "\<forall>q \<in> branch_places (?q @ [?b]) t. length q < 256"
    using branch_place_occupied [OF Suc.prems(3)] step by simp
  then have "c_holds sha (insert_branch sha up s) (branch_at sha g ` branch_places ?q t1 \<union> branch_at sha f ` F) E"
    using hold_branch [OF Suc.prems(5) _ _ _ sep kids] step F lt unfolding t1(3)
    by (simp add: frame_places_def)
  from Suc.IH [OF lt(1) up t1(1) occ this] Suc.prems(6) obtain b s' t' where
    "merge_up sha key i n up (insert_branch sha up s) = (b, s')" "shape_of g (take i (key_bits key)) t'"
    "is_equal_node sha (Branch (fst b) (snd b)) (node_at g (take i (key_bits key)))"
    "leaf_places (take i (key_bits key)) t' = leaf_places (?q @ [?b]) t"
    "c_holds sha s' (branch_at sha g ` branch_places (take i (key_bits key)) t' \<union> branch_at sha f ` F) E"
    "store_root s' = store_root (insert_branch sha up s)"
    unfolding t1(2) by auto
  moreover have "merge_up sha key i (Suc n) parent s = merge_up sha key i n up (insert_branch sha up s)"
    by (simp add: up_def Let_def)
  moreover have "store_root (insert_branch sha up s) = store_root s" by (simp add: insert_branch_def)
  ultimately show ?case
    unfolding step by (intro exI [of _ b] exI [of _ s'] exI [of _ t'] conjI) (simp_all only:)
qed

text \<open>A leaf stored below a compacted leaf of another key: where the two keys part, and what is below each.\<close>

lemma alone_split:
  assumes a: "alone f (take h (key_bits key)) key' leaf'" and g: "g = f(key_bits key := leaf)"
    and new: "leaf \<noteq> leaf_empty" "length key = 32" "key \<noteq> key'" "h \<le> 256"
  defines "len \<equiv> common_prefix key key' h (256 - h)"
  shows "h \<le> len" "len < 256" "take len (key_bits key') = take len (key_bits key)"
    "bit_index len key' = (\<not> bit_index len key)"
    "alone g (take (Suc len) (key_bits key)) key leaf" "alone g (take (Suc len) (key_bits key')) key' leaf'"
    "\<And>j. h \<le> j \<Longrightarrow> j < len \<Longrightarrow> \<not> occupied g (take j (key_bits key) @ [\<not> bit_index j key])"
proof -
  let ?k = "key_bits key" and ?k' = "key_bits key'"
  have a': "leaf' \<noteq> leaf_empty" "length key' = 32" "take h ?k = take h ?k'"
    and below: "\<And>q. length q = 256 \<Longrightarrow> take h q = take h ?k \<Longrightarrow> f q = (if q = ?k' then leaf' else leaf_empty)"
  proof -
    show "leaf' \<noteq> leaf_empty" "length key' = 32" "take h ?k = take h ?k'" using a new(4) by (simp_all add: alone_def)
    fix q :: path assume q: "length q = 256" "take h q = take h ?k"
    then have "take h ?k @ drop h q = q" by (metis append_take_drop_id)
    moreover have "length (drop h q) = 256 - length (take h ?k)" using q new(4) by simp
    ultimately show "f q = (if q = ?k' then leaf' else leaf_empty)" using a unfolding alone_def by metis
  qed
  have ne: "?k \<noteq> ?k'" using key_bits_inject [OF new(2) a'(2)] new(3) by blast
  have "\<exists>j. h \<le> j \<and> j < h + (256 - h) \<and> bit_index j key \<noteq> bit_index j key'"
  proof (rule ccontr)
    assume "\<not> ?thesis"
    then have "?k ! j = ?k' ! j" if "h \<le> j" "j < 256" for j using that by auto
    moreover have "?k ! j = ?k' ! j" if "j < h" for j using that a'(3) by (metis nth_take)
    ultimately have "?k ! j = ?k' ! j" if "j < 256" for j using that by (metis not_le)
    then have "?k = ?k'" by (intro nth_equalityI) (simp_all only: length_key_bits)
    with ne show False by simp
  qed
  note cp = common_prefix_at [OF this, folded len_def]
  show len: "h \<le> len" "len < 256" and bit: "bit_index len key' = (\<not> bit_index len key)" using cp new(4) by auto
  show pre: "take len ?k' = take len ?k"
  proof (rule nth_equalityI)
    fix j assume "j < length (take len ?k')"
    then show "take len ?k' ! j = take len ?k ! j"
      using cp len a'(3) by (cases "j < h") (auto simp: not_less dest: arg_cong [where f = "\<lambda>x. x ! j"])
  qed simp
  have at: "g q = (if q = ?k then leaf else if q = ?k' then leaf' else leaf_empty)"
    if "length q = 256" "take h q = take h ?k" for q
    using below [OF that] by (simp add: g)
  have hd: "take h (take m q @ r) = take h q" if "h \<le> m" "m \<le> 256" "length q = 256" for m q and r :: path
    using that by simp
  show "alone g (take (Suc len) ?k) key leaf"
    unfolding alone_def
  proof (intro conjI allI impI)
    fix r :: path assume r: "length r = 256 - length (take (Suc len) ?k)"
    let ?q = "take (Suc len) ?k @ r"
    have "?q ! len = bit_index len key" using len by (simp add: nth_append)
    then have "?q \<noteq> ?k'" using bit len by auto
    then show "g ?q = (if ?q = ?k then leaf else leaf_empty)"
      using at [of ?q] hd [of "Suc len" ?k r] r len by simp
  qed (use new len in simp_all)
  show "alone g (take (Suc len) ?k') key' leaf'"
    unfolding alone_def
  proof (intro conjI allI impI)
    fix r :: path assume r: "length r = 256 - length (take (Suc len) ?k')"
    let ?q = "take (Suc len) ?k' @ r"
    have "?q ! len = bit_index len key'" using len by (simp add: nth_append)
    then have "?q \<noteq> ?k" using bit len by auto
    then show "g ?q = (if ?q = ?k' then leaf' else leaf_empty)"
      using at [of ?q] hd [of "Suc len" ?k' r] r len a'(3) by simp
  qed (use a' len in simp_all)
  fix j assume j: "h \<le> j" "j < len"
  have "g (take j ?k @ [\<not> bit_index j key] @ r) = leaf_empty" if "length r = 255 - j" for r
  proof -
    let ?q = "take j ?k @ [\<not> bit_index j key] @ r"
    have "?q ! j = (\<not> bit_index j key)" using j len by (simp add: nth_append)
    then have "?q \<noteq> ?k" "?q \<noteq> ?k'" using j len cp by auto
    then show ?thesis using at [of ?q] hd [of j ?k] that j len by simp
  qed
  then show "\<not> occupied g (take j ?k @ [\<not> bit_index j key])"
    using j len by (simp add: occupied_def)
qed

lemma merge_at:
  assumes sep: "separated sha S f" "separated sha S g" and dist: "distinct_leaves g" and F: "frame_places f F"
    and a: "alone f (take h (key_bits key)) key' leaf'" and g: "g = f(key_bits key := leaf)"
    and new: "leaf \<noteq> leaf_empty" "length key = 32" "key \<noteq> key'" "h \<le> 256"
    and holds: "c_holds sha s (branch_at sha f ` F) E" and E: "all_alone g E"
  shows "\<exists>b s' t. merge sha h key leaf key' leaf' s = (b, s') \<and> shape_of g (take h (key_bits key)) t
    \<and> is_equal_node sha (Branch (fst b) (snd b)) (node_at g (take h (key_bits key)))
    \<and> c_holds sha s' (branch_at sha g ` branch_places (take h (key_bits key)) t \<union> branch_at sha f ` F)
        (leaf_places (take h (key_bits key)) t \<union> E)
    \<and> store_root s' = store_root s"
proof -
  let ?k = "key_bits key" and ?k' = "key_bits key'"
  define len where "len = common_prefix key key' h (256 - h)"
  note sp = alone_split [OF a g new, folded len_def]
  let ?p = "take len ?k" and ?b = "bit_index len key"
  let ?e1 = "(?p @ [?b], key, leaf)" and ?e2 = "(?p @ [\<not> ?b], key', leaf')"
  have lenp: "length ?p = len" "length ?p < 256" using sp(2) by simp_all
  have a1: "alone g (?p @ [?b]) key leaf" using sp(5) sp(2) by (simp add: take_Suc_key_bits)
  have a2: "alone g (?p @ [\<not> ?b]) key' leaf'" using sp(6) sp(2-4) by (simp add: take_Suc_key_bits)
  have cl: "compacted_new sha (len + 1) key leaf = compacted_at sha ?e1"
    "compacted_new sha (len + 1) key' leaf' = compacted_at sha ?e2" using lenp by (simp_all add: compacted_at_def)
  define s1 where "s1 = insert_compacted_leaf (compacted_at sha ?e2) (insert_compacted_leaf (compacted_at sha ?e1) s)"
  have "c_holds sha s (branch_at sha f ` F) E" by (rule holds)
  from hold_compacted [OF this E a1 sep(2) dist]
  have "c_holds sha (insert_compacted_leaf (compacted_at sha ?e1) s) (branch_at sha f ` F) (insert ?e1 E)" .
  from hold_compacted [OF this _ a2 sep(2) dist] E a1
  have s1: "c_holds sha s1 (branch_at sha f ` F) (insert ?e2 (insert ?e1 E))"
    by (auto simp: s1_def all_alone_def)
  define parent where "parent = (if \<not> ?b then (Compacted (compacted_at sha ?e1), Compacted (compacted_at sha ?e2))
      else (Compacted (compacted_at sha ?e2), Compacted (compacted_at sha ?e1)))"
  define t where "t = (if \<not> ?b then SB (SC key leaf) (SC key' leaf') else SB (SC key' leaf') (SC key leaf))"
  have kids: "is_equal_node sha (fst parent) (node_at g (?p @ [False]))" "is_equal_node sha (snd parent) (node_at g (?p @ [True]))"
    using compacted_alone(1) [OF a1, of sha] compacted_alone(1) [OF a2, of sha] by (auto simp: parent_def)
  then have par: "is_equal_node sha (Branch (fst parent) (snd parent)) (node_at g ?p)"
    using lenp by (simp add: node_at_Branch [of ?p] is_equal_node_def)
  have occ: "occupied g ?p" using alone_occupied [OF a1] occupied_snoc lenp(2) by blast
  have t: "shape_of g ?p t" "branch_places ?p t = {?p}" "leaf_places ?p t = {?e1, ?e2}"
    using a1 a2 occ lenp by (auto simp: t_def)
  have s2: "c_holds sha (insert_branch sha parent s1) (branch_at sha g ` branch_places ?p t \<union> branch_at sha f ` F)
      (leaf_places ?p t \<union> E)"
    using hold_branch [of sha s1 g "{}" f F "insert ?e2 (insert ?e1 E)" ?p S "fst parent" "snd parent"] s1 sep kids F lenp t
    by (simp add: frame_places_def insert_commute)
  have h: "h + (len - h) = len" using sp(1) by simp
  from merge_up_at [OF sep F, of h "len - h" parent key t "insert_branch sha parent s1" "leaf_places ?p t \<union> E",
      unfolded h, OF sp(2) par t(1) occ s2 sp(7)]
  obtain b s' t' where "merge_up sha key h (len - h) parent (insert_branch sha parent s1) = (b, s')"
    "shape_of g (take h ?k) t'" "is_equal_node sha (Branch (fst b) (snd b)) (node_at g (take h ?k))"
    "leaf_places (take h ?k) t' = leaf_places ?p t"
    "c_holds sha s' (branch_at sha g ` branch_places (take h ?k) t' \<union> branch_at sha f ` F) (leaf_places ?p t \<union> E)"
    "store_root s' = store_root (insert_branch sha parent s1)" by auto
  moreover have len': "common_prefix key key' h (MAX_TREE_LEVELS - h) = len" by (simp add: len_def)
  have "merge sha h key leaf key' leaf' s = merge_up sha key h (len - h) parent (insert_branch sha parent s1)"
    unfolding merge_def Let_def len' by (simp only: cl parent_def s1_def)
  moreover have "store_root (insert_branch sha parent s1) = store_root s"
    by (simp add: insert_branch_def s1_def insert_compacted_leaf_def)
  ultimately show ?thesis by (intro exI [of _ b] exI [of _ s'] exI [of _ t'] conjI) (simp_all only:)
qed

section \<open>Insertion\<close>

text \<open>What happens to the child on the path of the key: \<open>child_done\<close> says that its new node and the store
  after its update fit a shape of the new content.\<close>

definition child_done ::
  "hash_fun \<Rightarrow> content \<Rightarrow> content \<Rightarrow> path \<Rightarrow> path set \<Rightarrow> (path \<times> bytes \<times> LeafNode) set \<Rightarrow> DefaultStore \<Rightarrow>
     Node \<times> DefaultStore \<Rightarrow> bool" where
  "child_done sha f g p F E s res \<longleftrightarrow>
     (\<exists>t. shape_of g p t \<and> is_equal_node sha (fst res) (node_at g p)
        \<and> c_holds sha (snd res) (branch_at sha g ` branch_places p t \<union> branch_at sha f ` F) (leaf_places p t \<union> E)
        \<and> store_root (snd res) = store_root s)"

lemma child_doneI:
  assumes "shape_of g p t" "is_equal_node sha n (node_at g p)"
    "c_holds sha s' (branch_at sha g ` branch_places p t \<union> branch_at sha f ` F) (leaf_places p t \<union> E)"
    "store_root s' = store_root s"
  shows "child_done sha f g p F E s (n, s')"
  using assms unfolding child_done_def by auto

lemma store_compacted_done:
  assumes "c_holds sha s (branch_at sha f ` F) E" "all_alone g E" "alone g p key leaf"
    and "separated sha S g" "distinct_leaves g"
  shows "child_done sha f g p F E s (store_compacted sha (length p) key leaf s)"
proof -
  have "store_compacted sha (length p) key leaf s
      = (Compacted (compacted_at sha (p, key, leaf)), insert_compacted_leaf (compacted_at sha (p, key, leaf)) s)"
    by (simp add: store_compacted_def compacted_at_def Let_def)
  moreover have "child_done sha f g p F E s
      (Compacted (compacted_at sha (p, key, leaf)), insert_compacted_leaf (compacted_at sha (p, key, leaf)) s)"
    using hold_compacted [OF assms(1-5)] compacted_alone(1) [OF assms(3), of sha] assms(3)
    by (intro child_doneI [where t = "SC key leaf"]) (simp_all add: insert_compacted_leaf_def)
  ultimately show ?thesis by simp
qed

lemma place_leaf_done:
  assumes "c_holds sha s (branch_at sha f ` F) E" "all_alone g E" "separated sha S g" "distinct_leaves g"
    and "if leaf = leaf_empty then \<not> occupied g p else alone g p key leaf"
  shows "child_done sha f g p F E s (place_leaf sha (length p) key leaf s)"
proof (cases "leaf = leaf_empty")
  case True
  then have occ: "\<not> occupied g p" using assms(5) by simp
  have "child_done sha f g p F E s (empty_tree sha (length p), s)"
    using assms(1) occ empty_node_at [OF occ, of sha] by (intro child_doneI [where t = SE]) simp_all
  with True show ?thesis by (simp add: place_leaf_def)
next
  case False
  with assms store_compacted_done [OF assms(1,2) _ assms(3,4)] show ?thesis
    by (simp add: place_leaf_def leaf_is_empty_iff)
qed

lemma alone_update:
  assumes "p = take (length p) (key_bits key)" "length p \<le> 256" "length key = 32"
    and "\<And>r. length r = 256 - length p \<Longrightarrow> p @ r \<noteq> key_bits key \<Longrightarrow> f (p @ r) = leaf_empty"
  shows "if leaf = leaf_empty then \<not> occupied (f(key_bits key := leaf)) p else alone (f(key_bits key := leaf)) p key leaf"
  using assms by (auto simp: occupied_def alone_def)

text \<open>The child is empty, or is the compacted leaf of some key.\<close>

lemma empty_child_done:
  assumes "c_holds sha s (branch_at sha f ` F) E" "frame_leaves f (key_bits key) E"
    and "separated sha S g" "distinct_leaves g" "g = f(key_bits key := leaf)"
    and "p = take (length p) (key_bits key)" "length p \<le> 256" "length key = 32" "\<not> occupied f p"
  shows "child_done sha f g p F E s (place_leaf sha (length p) key leaf s)"
proof (rule place_leaf_done [OF assms(1) _ assms(3,4)])
  show "all_alone g E" using frame_leaves_alone(2) [OF assms(2)] assms(5) by simp
  show "if leaf = leaf_empty then \<not> occupied g p else alone g p key leaf"
    unfolding assms(5) using assms(9) by (intro alone_update assms(6-8)) (auto simp: occupied_def)
qed

lemma same_child_done:
  assumes "c_holds sha s (branch_at sha f ` F) E" "frame_leaves f (key_bits key) E"
    and "separated sha S g" "distinct_leaves g" "g = f(key_bits key := leaf)" "alone f p key leaf'"
  shows "child_done sha f g p F E s (place_leaf sha (length p) key leaf s)"
proof (rule place_leaf_done [OF assms(1) _ assms(3,4)])
  have a: "p = take (length p) (key_bits key)" "length p \<le> 256" "length key = 32"
    and r: "\<And>r. length r = 256 - length p \<Longrightarrow> f (p @ r) = (if p @ r = key_bits key then leaf' else leaf_empty)"
    using assms(6) unfolding alone_def by blast+
  show "all_alone g E" using frame_leaves_alone(2) [OF assms(2)] assms(5) by simp
  show "if leaf = leaf_empty then \<not> occupied g p else alone g p key leaf"
    unfolding assms(5) by (intro alone_update a) (simp add: r)
qed

lemma other_child_kept:
  assumes "alone f p key' leaf'" "p = take (length p) (key_bits key)" "length p \<le> 256" "length key = 32" "key \<noteq> key'"
  shows "f(key_bits key := leaf_empty) = f"
proof -
  have "p @ drop (length p) (key_bits key) = key_bits key" using assms(2) by (metis append_take_drop_id)
  moreover have "key_bits key \<noteq> key_bits key'"
    using assms(1,4,5) key_bits_inject [of key key'] by (auto simp: alone_def)
  moreover have "length (drop (length p) (key_bits key)) = 256 - length p" by simp
  ultimately have "f (key_bits key) = leaf_empty" using assms(1) unfolding alone_def by metis
  then show ?thesis by (simp add: fun_upd_idem_iff)
qed

text \<open>The middle part of \<^verbatim>\<open>insert_at\<close>, on the child \<open>nx\<close>.\<close>

definition update_child ::
  "hash_fun \<Rightarrow> bytes \<Rightarrow> nat \<Rightarrow> Node \<Rightarrow> LeafNode \<Rightarrow> DefaultStore \<Rightarrow> (Node \<times> DefaultStore, TreeError) result" where
  "update_child sha key h nx leaf s =
     (case nx of
        Branch bl br \<Rightarrow>
          if is_equal_node sha nx (empty_tree sha h) then Ok (place_leaf sha h key leaf s)
          else res_bind (insert_at sha key h (bl, br) leaf s) (\<lambda>(b, s). Ok (Branch (fst b) (snd b), s))
      | Compacted c \<Rightarrow>
          (let s = delete_compacted_leaf (cl_hash c) s in
           if key = cl_key c then Ok (place_leaf sha h key leaf s)
           else if leaf_is_empty leaf then Ok (store_compacted sha h (cl_key c) (cl_leaf c) s)
           else let (b, s) = merge sha h key leaf (cl_key c) (cl_leaf c) s in Ok (Branch (fst b) (snd b), s))
      | _ \<Rightarrow> Ok (place_leaf sha h key leaf s))"

lemma insert_at_update_child:
  assumes "get_children sha s h (branch_hash sha root) = Ok kids"
    and "step_order h key (fst kids) (snd kids) = (nx, sib)" "update_child sha key (Suc h) nx leaf s = Ok res"
  shows "insert_at sha key h root leaf s = Ok (rebuild_branch sha key h root (fst res) sib (snd res))"
  using assms by (subst insert_at.simps) (simp add: update_child_def split_beta Let_def cong: Node.case_cong)

lemma empty_child:
  assumes "c_holds sha s (branch_at sha f ` F) E" "frame_leaves f (key_bits key) E"
    and "separated sha S g" "distinct_leaves g" "g = f(key_bits key := leaf)"
    and "p = take (length p) (key_bits key)" "length p \<le> 256" "length key = 32" "\<not> occupied f p"
  shows "\<exists>res. update_child sha key (length p) (empty_tree sha (length p)) leaf s = Ok res
    \<and> child_done sha f g p F E s res"
proof -
  have "update_child sha key (length p) (empty_tree sha (length p)) leaf s = Ok (place_leaf sha (length p) key leaf s)"
  proof (cases "length p = 256")
    case True
    then show ?thesis by (simp add: update_child_def empty_tree_def)
  next
    case False
    with assms(7) obtain a b where "empty_tree sha (length p) = Branch a b" using empty_tree_Branch by fastforce
    then show ?thesis by (simp add: update_child_def is_equal_node_def)
  qed
  with empty_child_done [OF assms] show ?thesis by blast
qed

lemma compacted_child:
  assumes holds: "c_holds sha s (branch_at sha f ` F) (insert (p, key', leaf') E)" and E: "frame_leaves f (key_bits key) E"
    and sep: "separated sha S f" "separated sha S g" and dist: "distinct_leaves f" "distinct_leaves g"
    and g: "g = f(key_bits key := leaf)" and F: "frame_places f F"
    and p: "p = take (length p) (key_bits key)" "length p \<le> 256" "length key = 32" and a: "alone f p key' leaf'"
  shows "\<exists>res. update_child sha key (length p) (Compacted (compacted_at sha (p, key', leaf'))) leaf s = Ok res
    \<and> child_done sha f g p F E s res"
proof -
  let ?c = "compacted_at sha (p, key', leaf')"
  define s1 where "s1 = delete_compacted_leaf (cl_hash ?c) s"
  have c: "cl_key ?c = key'" "cl_leaf ?c = leaf'" by (simp_all add: compacted_at_def compacted_new_def)
  have "\<not> off (key_bits key) p" using p(1) by (simp add: off_def)
  from drop_compacted [OF holds E a this sep(1) dist(1)]
  have s1: "c_holds sha s1 (branch_at sha f ` F) E" "store_root s1 = store_root s"
    by (simp_all add: s1_def delete_compacted_leaf_def)
  have done_s: "child_done sha f g p F E s res" if "child_done sha f g p F E s1 res" for res
    using that s1(2) by (simp add: child_done_def)
  have aloneE: "all_alone g E" using frame_leaves_alone(2) [OF E] g by simp
  consider "key = key'" | "key \<noteq> key'" "leaf = leaf_empty" | "key \<noteq> key'" "leaf \<noteq> leaf_empty" by blast
  then show ?thesis
  proof cases
    case 1
    then have "child_done sha f g p F E s1 (place_leaf sha (length p) key leaf s1)"
      using same_child_done [OF s1(1) E sep(2) dist(2) g] a by blast
    with 1 done_s show ?thesis by (auto simp: update_child_def c s1_def Let_def)
  next
    case 2
    have "g = f" using other_child_kept [OF a p 2(1)] g 2(2) by simp
    with store_compacted_done [OF s1(1) aloneE _ sep(2) dist(2)] a
    have "child_done sha f g p F E s1 (store_compacted sha (length p) key' leaf' s1)" by simp
    with 2 done_s show ?thesis by (auto simp: update_child_def c s1_def Let_def)
  next
    case 3
    have "alone f (take (length p) (key_bits key)) key' leaf'" using a by (simp only: p(1) [symmetric])
    from merge_at [OF sep dist(2) F this g 3(2) p(3) 3(1) p(2) s1(1) aloneE]
    obtain b s' t where m: "merge sha (length p) key leaf key' leaf' s1 = (b, s')"
      and t: "shape_of g p t" "is_equal_node sha (Branch (fst b) (snd b)) (node_at g p)"
      "c_holds sha s' (branch_at sha g ` branch_places p t \<union> branch_at sha f ` F) (leaf_places p t \<union> E)"
      "store_root s' = store_root s1"
      unfolding p(1) [symmetric] by (elim exE conjE)
    from child_doneI [OF t] have "child_done sha f g p F E s1 (Branch (fst b) (snd b), s')" .
    with m 3 done_s show ?thesis by (auto simp: update_child_def c s1_def Let_def leaf_is_empty_iff)
  qed
qed

lemma root_place_valid: "length p < 256 \<Longrightarrow> frame_places f F \<Longrightarrow> frame_places f (root_place f p \<union> F)"
  by (auto simp: frame_places_def root_place_def)

text \<open>The state of the store when \<^verbatim>\<open>insert_at\<close> reaches the prefix \<open>p\<close>: \<open>near\<close> and \<open>far\<close> are the shapes of
  the children on and off the path, \<open>F\<close> and \<open>E\<close> what is stored outside of the child on the path and \<open>p\<close> itself.\<close>

definition at_node ::
  "hash_fun \<Rightarrow> content \<Rightarrow> bytes \<Rightarrow> nat \<Rightarrow> shape \<Rightarrow> shape \<Rightarrow> path set \<Rightarrow> (path \<times> bytes \<times> LeafNode) set \<Rightarrow>
     DefaultStore \<Rightarrow> bool" where
  "at_node sha f key h near far F E s \<longleftrightarrow>
     (let p = take h (key_bits key); b = bit_index h key;
          Q = root_place f p \<union> branch_places (p @ [b]) near \<union> F; L = leaf_places (p @ [b]) near \<union> E in
      h < 256 \<and> shape_of f (p @ [b]) near \<and> shape_of f (p @ [\<not> b]) far
      \<and> c_holds sha s (branch_at sha f ` Q) L \<and> valid_places f Q L
      \<and> branch_places (p @ [\<not> b]) far \<subseteq> F \<and> leaf_places (p @ [\<not> b]) far \<subseteq> E
      \<and> frame_places f F \<and> frame_leaves f (key_bits key) E
      \<and> (\<forall>q \<in> F. off (key_bits key) q \<or> length q < h))"

text \<open>Its state when \<^verbatim>\<open>insert_at\<close> returns.\<close>

definition node_done ::
  "hash_fun \<Rightarrow> content \<Rightarrow> content \<Rightarrow> bytes \<Rightarrow> nat \<Rightarrow> path set \<Rightarrow> (path \<times> bytes \<times> LeafNode) set \<Rightarrow> DefaultStore \<Rightarrow>
     BranchNode \<times> DefaultStore \<Rightarrow> bool" where
  "node_done sha f g key h F E s res \<longleftrightarrow>
     (let p = take h (key_bits key); p1 = p @ [bit_index h key] in
      \<exists>t. shape_of g p1 t \<and> is_equal_node sha (Branch (fst (fst res)) (snd (fst res))) (node_at g p)
        \<and> c_holds sha (snd res) (branch_at sha g ` (root_place g p \<union> branch_places p1 t) \<union> branch_at sha f ` F)
            (leaf_places p1 t \<union> E)
        \<and> store_root (snd res) = store_root s)"

lemma node_doneI:
  assumes "shape_of g (take h (key_bits key) @ [bit_index h key]) t"
    "is_equal_node sha (Branch (fst b) (snd b)) (node_at g (take h (key_bits key)))"
    "c_holds sha s' (branch_at sha g ` (root_place g (take h (key_bits key))
        \<union> branch_places (take h (key_bits key) @ [bit_index h key]) t) \<union> branch_at sha f ` F)
      (leaf_places (take h (key_bits key) @ [bit_index h key]) t \<union> E)"
    "store_root s' = store_root s"
  shows "node_done sha f g key h F E s (b, s')"
  unfolding node_done_def Let_def by (rule exI [of _ t]) (simp add: assms)

lemma at_node_children:
  assumes "at_node sha f key h near far F E s" "separated sha S f" "distinct_leaves f"
    and "branch_hash sha root = node_hash sha (node_at f (take h (key_bits key)))"
  shows "\<exists>kids. get_children sha s h (branch_hash sha root) = Ok kids \<and> step_order h key (fst kids) (snd kids)
    = (shape_node sha f (take h (key_bits key) @ [bit_index h key]) near,
       shape_node sha f (take h (key_bits key) @ [\<not> bit_index h key]) far)"
proof -
  let ?p = "take h (key_bits key)" and ?b = "bit_index h key"
  let ?ta = "if ?b then far else near" and ?tb = "if ?b then near else far"
  have h: "h < 256" "length ?p = h" using assms(1) by (simp_all add: at_node_def Let_def)
  have "get_children sha s (length ?p) (node_hash sha (node_at f ?p))
      = Ok (shape_node sha f (?p @ [False]) ?ta, shape_node sha f (?p @ [True]) ?tb)"
    using assms(1) h
    by (intro c_get_children [where S = S and Q = "root_place f ?p \<union> branch_places (?p @ [?b]) near \<union> F"
          and E = "leaf_places (?p @ [?b]) near \<union> E"] assms(2,3))
      (auto simp: at_node_def Let_def node_places_def kid_leaves_def split: if_splits)
  with assms(4) h show ?thesis by (auto simp: step_order_def)
qed

lemma child_to_node:
  assumes at: "at_node sha f key h near far F E s" and sep: "separated sha S f" "separated sha S g"
    and dist: "distinct_leaves f" and g: "g = f(key_bits key := leaf)"
    and root: "is_equal_node sha (Branch (fst root) (snd root)) (node_at f (take h (key_bits key)))"
    and upd: "update_child sha key (Suc h) (shape_node sha f (take h (key_bits key) @ [bit_index h key]) near) leaf s = Ok res"
    and cd: "child_done sha f g (take h (key_bits key) @ [bit_index h key]) (root_place f (take h (key_bits key)) \<union> F) E s res"
  shows "\<exists>res. insert_at sha key h root leaf s = Ok res \<and> node_done sha f g key h F E s res"
proof -
  let ?p = "take h (key_bits key)" and ?b = "bit_index h key"
  have h: "h < 256" "length ?p = h" using at by (simp_all add: at_node_def Let_def)
  have hash: "branch_hash sha root = node_hash sha (node_at f ?p)"
    using root unfolding branch_hash_def is_equal_node_def by (rule conjunct1)
  obtain kids where kids: "get_children sha s h (branch_hash sha root) = Ok kids"
    "step_order h key (fst kids) (snd kids) = (shape_node sha f (?p @ [?b]) near, shape_node sha f (?p @ [\<not> ?b]) far)"
    using at_node_children [OF at sep(1) dist hash] by blast
  obtain t where t: "shape_of g (?p @ [?b]) t" "is_equal_node sha (fst res) (node_at g (?p @ [?b]))"
    "c_holds sha (snd res) (branch_at sha g ` branch_places (?p @ [?b]) t \<union> branch_at sha f ` (root_place f ?p \<union> F))
       (leaf_places (?p @ [?b]) t \<union> E)" "store_root (snd res) = store_root s"
    using cd unfolding child_done_def by blast
  have far: "is_equal_node sha (shape_node sha f (?p @ [\<not> ?b]) far) (node_at f (?p @ [\<not> ?b]))"
    using at h by (intro shape_node_equal) (simp_all add: at_node_def Let_def)
  have N: "\<forall>q \<in> branch_places (?p @ [?b]) t. h < length q \<and> length q < 256"
    using branch_place_prefix [of _ "?p @ [?b]" t] branch_place_occupied [OF t(1)] h by fastforce
  have F: "frame_places f F" "?p \<notin> F"
    using at h by (auto simp: at_node_def Let_def off_def)
  from rebuild_at [OF sep dist refl h(1) g root t(2) far t(3) N F]
  obtain b s' where b: "rebuild_branch sha key h root (fst res) (shape_node sha f (?p @ [\<not> ?b]) far) (snd res) = (b, s')"
    "is_equal_node sha (Branch (fst b) (snd b)) (node_at g ?p)"
    "c_holds sha s' (branch_at sha g ` (root_place g ?p \<union> branch_places (?p @ [?b]) t) \<union> branch_at sha f ` F)
       (leaf_places (?p @ [?b]) t \<union> E)" "store_root s' = store_root (snd res)"
    by (elim exE conjE)
  from node_doneI [OF t(1) b(2,3)] b(4) t(4) have "node_done sha f g key h F E s (b, s')" by simp
  with insert_at_update_child [OF kids upd] b(1) show ?thesis by auto
qed

text \<open>From a finished subtree with a branch on top to the finished child.\<close>

lemma node_to_child:
  assumes done_n: "node_done sha f g key h (F \<union> branch_places (take h (key_bits key) @ [\<not> bit_index h key]) far)
      (E \<union> leaf_places (take h (key_bits key) @ [\<not> bit_index h key]) far) s res"
    and far: "shape_of f (take h (key_bits key) @ [\<not> bit_index h key]) far"
    and g: "g = f(key_bits key := leaf)" and h: "h < 256"
  shows "child_done sha f g (take h (key_bits key)) F E s (Branch (fst (fst res)) (snd (fst res)), snd res)"
proof -
  let ?p = "take h (key_bits key)" and ?b = "bit_index h key"
  obtain t where t: "shape_of g (?p @ [?b]) t" "is_equal_node sha (Branch (fst (fst res)) (snd (fst res))) (node_at g ?p)"
    "c_holds sha (snd res) (branch_at sha g ` (root_place g ?p \<union> branch_places (?p @ [?b]) t)
        \<union> branch_at sha f ` (F \<union> branch_places (?p @ [\<not> ?b]) far))
      (leaf_places (?p @ [?b]) t \<union> (E \<union> leaf_places (?p @ [\<not> ?b]) far))" "store_root (snd res) = store_root s"
    using done_n unfolding node_done_def Let_def by (elim exE conjE)
  have off: "off (key_bits key) (?p @ [\<not> ?b])" by (rule off_sibling [OF h])
  have farg: "shape_of g (?p @ [\<not> ?b]) far" unfolding g by (rule shape_of_off [OF off far])
  have same: "branch_at sha f ` branch_places (?p @ [\<not> ?b]) far = branch_at sha g ` branch_places (?p @ [\<not> ?b]) far"
    unfolding g by (rule branch_places_off [OF off far, symmetric])
  define t' where "t' = (if occupied g ?p then (if ?b then SB far t else SB t far) else SE)"
  have kid_se: "u = SE" if "\<not> occupied g ?p" "shape_of g (?p @ [c]) u" for c u
  proof -
    have "\<not> occupied g (?p @ [c])" using that(1) occupied_snoc [of g ?p c] h by auto
    with that(2) alone_occupied show ?thesis by (cases u) auto
  qed
  have places: "branch_places ?p t' = root_place g ?p \<union> branch_places (?p @ [?b]) t \<union> branch_places (?p @ [\<not> ?b]) far"
    "leaf_places ?p t' = leaf_places (?p @ [?b]) t \<union> leaf_places (?p @ [\<not> ?b]) far" "shape_of g ?p t'"
    using kid_se [OF _ t(1)] kid_se [OF _ farg] t(1) farg h by (auto simp: t'_def root_place_def)
  have "c_holds sha (snd res) (branch_at sha g ` branch_places ?p t' \<union> branch_at sha f ` F) (leaf_places ?p t' \<union> E)"
    using t(3) unfolding places(1,2) image_Un same by (simp add: Un_ac)
  then show ?thesis by (intro child_doneI [OF places(3) t(2) _ t(4)])
qed

lemma at_node_near:
  assumes "at_node sha f key h near far F E s"
  shows "shape_of f (take (Suc h) (key_bits key)) near"
proof -
  have "h < 256" "shape_of f (take h (key_bits key) @ [bit_index h key]) near"
    using assms unfolding at_node_def Let_def by blast+
  then show ?thesis by (simp only: take_Suc_key_bits)
qed

lemma at_node_down:
  assumes "at_node sha f key h (SB l r) far F E s"
  defines "p \<equiv> take h (key_bits key)" and "p1 \<equiv> take (Suc h) (key_bits key)" and "b1 \<equiv> bit_index (Suc h) key"
  shows "at_node sha f key (Suc h) (if b1 then r else l) (if b1 then l else r)
    (root_place f p \<union> F \<union> branch_places (p1 @ [\<not> b1]) (if b1 then l else r))
    (E \<union> leaf_places (p1 @ [\<not> b1]) (if b1 then l else r)) s"
proof -
  let ?far = "if b1 then l else r"
  have h: "h < 256" using assms(1) by (simp add: at_node_def Let_def)
  have p1: "p1 = p @ [bit_index h key]" using take_Suc_key_bits [OF h] by (simp add: p_def p1_def)
  have sh: "length p1 < 256" "occupied f p1" "shape_of f (p1 @ [False]) l" "shape_of f (p1 @ [True]) r"
    using at_node_near [OF assms(1)] unfolding p1_def shape_of.simps by blast+
  have len: "length p1 = Suc h" using h by (simp add: p1_def)
  then have h1: "Suc h < 256" using sh(1) by simp
  have far: "shape_of f (p1 @ [\<not> b1]) ?far" using sh by (cases b1) auto
  have Q: "root_place f p1 \<union> branch_places (p1 @ [b1]) (if b1 then r else l)
      \<union> (root_place f p \<union> F \<union> branch_places (p1 @ [\<not> b1]) ?far)
      = root_place f p \<union> branch_places p1 (SB l r) \<union> F"
    using sh(2) by (cases b1) (auto simp: root_place_def)
  have L: "leaf_places (p1 @ [b1]) (if b1 then r else l) \<union> (E \<union> leaf_places (p1 @ [\<not> b1]) ?far)
      = leaf_places p1 (SB l r) \<union> E"
    by (cases b1) auto
  have off: "off (key_bits key) (p1 @ [\<not> b1])" using off_sibling [OF h1] by (simp add: p1_def b1_def)
  have "frame_places f (branch_places (p1 @ [\<not> b1]) ?far)"
    using branch_place_occupied [OF far] by (simp add: frame_places_def)
  then have F: "frame_places f (root_place f p \<union> F \<union> branch_places (p1 @ [\<not> b1]) ?far)"
    using assms(1) h by (auto simp: at_node_def Let_def frame_places_def root_place_def p_def)
  have "alone f q k l \<and> off (key_bits key) q" if "(q, k, l) \<in> leaf_places (p1 @ [\<not> b1]) ?far" for q k l
    using leaf_place_alone [OF far that] leaf_place_prefix [OF that] off_append [OF off] by auto
  then have E: "frame_leaves f (key_bits key) (E \<union> leaf_places (p1 @ [\<not> b1]) ?far)"
    using assms(1) by (auto simp: at_node_def Let_def frame_leaves_def)
  have "off (key_bits key) q" if "q \<in> branch_places (p1 @ [\<not> b1]) ?far" for q
    using branch_place_prefix [OF that] off_append [OF off] by auto
  then have O: "\<forall>q \<in> root_place f p \<union> F \<union> branch_places (p1 @ [\<not> b1]) ?far. off (key_bits key) q \<or> length q < Suc h"
    using assms(1) h by (auto simp: at_node_def Let_def root_place_def p_def split: if_splits)
  have "c_holds sha s (branch_at sha f ` (root_place f p \<union> branch_places p1 (SB l r) \<union> F)) (leaf_places p1 (SB l r) \<union> E)
      \<and> valid_places f (root_place f p \<union> branch_places p1 (SB l r) \<union> F) (leaf_places p1 (SB l r) \<union> E)"
    using assms(1) by (simp add: at_node_def Let_def p1 p_def)
  with h1 sh far F E O show ?thesis
    unfolding at_node_def Let_def p1_def [symmetric] b1_def [symmetric] Q L by auto
qed

lemma insert_at_done:
  assumes sep: "separated sha S f" "separated sha S g" and dist: "distinct_leaves f" "distinct_leaves g"
    and g: "g = f(key_bits key := leaf)" and key: "length key = 32"
  shows "at_node sha f key h near far F E s \<Longrightarrow>
    is_equal_node sha (Branch (fst root) (snd root)) (node_at f (take h (key_bits key))) \<Longrightarrow>
    \<exists>res. insert_at sha key h root leaf s = Ok res \<and> node_done sha f g key h F E s res"
proof (induction near arbitrary: h root far F E s)
  case SE
  let ?p1 = "take (Suc h) (key_bits key)"
  note at = SE.prems(1)
  have h: "h < 256" using at by (simp add: at_node_def Let_def)
  have p1: "take h (key_bits key) @ [bit_index h key] = ?p1" using take_Suc_key_bits [OF h] by simp
  have "\<exists>res. update_child sha key (length ?p1) (empty_tree sha (length ?p1)) leaf s = Ok res
      \<and> child_done sha f g ?p1 (root_place f (take h (key_bits key)) \<union> F) E s res"
    using at h by (intro empty_child [OF _ _ sep(2) dist(2) g]) (simp_all add: at_node_def Let_def p1 key)
  with h have "\<exists>res. update_child sha key (Suc h) (shape_node sha f ?p1 SE) leaf s = Ok res
      \<and> child_done sha f g ?p1 (root_place f (take h (key_bits key)) \<union> F) E s res" by simp
  with child_to_node [OF at sep dist(1) g SE.prems(2)] show ?case unfolding p1 by blast
next
  case (SC key' leaf')
  let ?p1 = "take (Suc h) (key_bits key)"
  note at = SC.prems(1)
  have h: "h < 256" using at by (simp add: at_node_def Let_def)
  have p1: "take h (key_bits key) @ [bit_index h key] = ?p1" using take_Suc_key_bits [OF h] by simp
  have F: "frame_places f (root_place f (take h (key_bits key)) \<union> F)"
    using at h by (intro root_place_valid) (simp_all add: at_node_def Let_def)
  have "\<exists>res. update_child sha key (length ?p1) (Compacted (compacted_at sha (?p1, key', leaf'))) leaf s = Ok res
      \<and> child_done sha f g ?p1 (root_place f (take h (key_bits key)) \<union> F) E s res"
    using at h by (intro compacted_child [OF _ _ sep dist g F]) (simp_all add: at_node_def Let_def p1 key)
  with h have "\<exists>res. update_child sha key (Suc h) (shape_node sha f ?p1 (SC key' leaf')) leaf s = Ok res
      \<and> child_done sha f g ?p1 (root_place f (take h (key_bits key)) \<union> F) E s res" by simp
  with child_to_node [OF at sep dist(1) g SC.prems(2)] show ?case unfolding p1 by blast
next
  case (SB l r)
  let ?p = "take h (key_bits key)" and ?p1 = "take (Suc h) (key_bits key)" and ?b1 = "bit_index (Suc h) key"
  let ?far = "if ?b1 then l else r"
  note at = SB.prems(1)
  have h: "h < 256" using at by (simp add: at_node_def Let_def)
  have p1: "?p @ [bit_index h key] = ?p1" using take_Suc_key_bits [OF h] by simp
  have len: "length ?p1 = Suc h" using h by simp
  have sh: "shape_of f ?p1 (SB l r)" by (rule at_node_near [OF at])
  then have h1: "Suc h < 256" "occupied f ?p1" using len by simp_all
  have far: "shape_of f (?p1 @ [\<not> ?b1]) ?far" using sh by auto
  let ?nx = "shape_node sha f ?p1 (SB l r)"
  have nx: "is_equal_node sha ?nx (node_at f ?p1)" using shape_node_equal [OF sh] h by simp
  then have "node_hash sha ?nx = node_hash sha (node_at f ?p1)" unfolding is_equal_node_def by (rule conjunct1)
  then have "node_hash sha ?nx \<noteq> node_hash sha (empty_tree sha (Suc h))"
    using occupied_iff_hash [OF sep(1), of ?p1] h1 len unfolding node_hash_empty_tree by simp
  then have ne: "\<not> is_equal_node sha ?nx (empty_tree sha (Suc h))" unfolding is_equal_node_def by blast
  have "\<exists>res. insert_at sha key (Suc h) (branch_at sha f ?p1) leaf s = Ok res
      \<and> node_done sha f g key (Suc h) (root_place f ?p \<union> F \<union> branch_places (?p1 @ [\<not> ?b1]) ?far)
          (E \<union> leaf_places (?p1 @ [\<not> ?b1]) ?far) s res"
  proof (cases ?b1)
    case True
    with at_node_down [OF at] have "at_node sha f key (Suc h) r l (root_place f ?p \<union> F \<union> branch_places (?p1 @ [False]) l)
        (E \<union> leaf_places (?p1 @ [False]) l) s" by simp
    from SB.IH(2) [OF this nx [unfolded shape_node.simps]] True show ?thesis by simp
  next
    case False
    with at_node_down [OF at] have "at_node sha f key (Suc h) l r (root_place f ?p \<union> F \<union> branch_places (?p1 @ [True]) r)
        (E \<union> leaf_places (?p1 @ [True]) r) s" by simp
    from SB.IH(1) [OF this nx [unfolded shape_node.simps]] False show ?thesis by simp
  qed
  then obtain res where res: "insert_at sha key (Suc h) (branch_at sha f ?p1) leaf s = Ok res"
    "child_done sha f g ?p1 (root_place f ?p \<union> F) E s (Branch (fst (fst res)) (snd (fst res)), snd res)"
    using node_to_child [OF _ far g h1(1)] by blast
  then have "update_child sha key (Suc h) ?nx leaf s = Ok (Branch (fst (fst res)) (snd (fst res)), snd res)"
    using ne by (simp add: update_child_def split_beta)
  with res(2) child_to_node [OF at sep dist(1) g SB.prems(2)] show ?case unfolding p1 by blast
qed

section \<open>The interface\<close>

definition c_represents :: "hash_fun \<Rightarrow> DefaultStore \<Rightarrow> content \<Rightarrow> bool" where
  "c_represents sha s f \<longleftrightarrow> root_holds sha (store_root s) f
     \<and> (\<exists>ta tb. shape_of f [False] ta \<and> shape_of f [True] tb
          \<and> c_holds sha s (branch_at sha f ` node_places f [] ta tb) (kid_leaves [] ta tb))"

definition c_inv :: "hash_fun \<Rightarrow> bytes set \<Rightarrow> DefaultStore \<Rightarrow> content \<Rightarrow> bool" where
  "c_inv sha S s f \<longleftrightarrow>
     c_represents sha s f \<and> separated sha S f \<and> distinct_leaves f \<and> content_total f < 2 ^ 64"

text \<open>Unlike the full tree, the compacted tree never deletes a leaf by its key.\<close>

definition c_admissible :: "hash_fun \<Rightarrow> bytes set \<Rightarrow> content \<Rightarrow> bytes \<Rightarrow> LeafNode \<Rightarrow> bool" where
  "c_admissible sha S f key leaf \<longleftrightarrow> length key = 32
     \<and> separated sha S (f(key_bits key := leaf)) \<and> distinct_leaves (f(key_bits key := leaf))"

lemma kids_valid:
  assumes "shape_of f [False] ta" "shape_of f [True] tb"
  shows "valid_places f (node_places f [] ta tb) (kid_leaves [] ta tb)"
proof -
  have pl: "q \<noteq> [] \<and> q \<notin> branch_places [c] u \<and> alone f q key leaf"
    if "(q, key, leaf) \<in> leaf_places [b] t" "shape_of f [b] t" "b = c \<longrightarrow> t = u" for q key leaf b c t u
    using leaf_place_prefix [OF that(1)] leaf_place_alone [OF that(2,1)] places_disjoint [OF that(1)]
      branch_place_prefix [of q "[c]" u] that(3) by fastforce
  have "length q < 256 \<and> occupied f q" if "q \<in> node_places f [] ta tb" for q
    using that branch_place_occupied [OF assms(1)] branch_place_occupied [OF assms(2)]
    by (auto simp: node_places_def root_place_def split: if_splits)
  moreover have "alone f q key leaf \<and> q \<notin> node_places f [] ta tb" if "(q, key, leaf) \<in> kid_leaves [] ta tb" for q key leaf
    using that pl [of q key leaf False ta False ta] pl [of q key leaf False ta True tb]
      pl [of q key leaf True tb False ta] pl [of q key leaf True tb True tb] assms
    by (auto simp: node_places_def root_place_def kid_leaves_def)
  ultimately show ?thesis by (auto simp: valid_places_def)
qed

lemma c_root_tree_root: "c_root sha s = tree_root sha s"
  using root_node_branch [of sha s] by (auto simp: c_root_def tree_root_def)

lemma root_holds_equal:
  "root_holds sha (store_root s) f \<Longrightarrow>
    is_equal_node sha (Branch (fst (tree_root sha s)) (snd (tree_root sha s))) (node_at f [])"
  unfolding tree_root_node
  by (cases "store_root s") (auto simp: root_holds_def root_node_def empty_node_at [of f "[]", simplified])

lemma c_root_at:
  "c_inv sha S s f \<Longrightarrow> is_equal_node sha (Branch (fst (c_root sha s)) (snd (c_root sha s))) (node_at f [])"
  unfolding c_root_tree_root by (rule root_holds_equal) (simp add: c_inv_def c_represents_def)

lemma c_root_sum: "c_inv sha S s f \<Longrightarrow> unat (branch_sum (c_root sha s)) = content_total f"
  using c_root_at [of sha S s f]
  by (simp add: c_inv_def branch_sum_def is_equal_node_def node_sum_root unat_of_nat)

lemma c_walk_down_at:
  assumes "c_inv sha S s f"
  shows "\<exists>trace. c_walk_down sha s key = Ok (f (key_bits key), trace) \<and> siblings_ok sha f key 0 trace"
proof -
  obtain ta tb where sh: "shape_of f [False] ta" "shape_of f [True] tb"
    and holds: "c_holds sha s (branch_at sha f ` node_places f [] ta tb) (kid_leaves [] ta tb)"
    using assms by (auto simp: c_inv_def c_represents_def)
  have "node_hash sha (root_node sha s) = node_hash sha (node_at f [])"
    using c_root_at [OF assms] unfolding c_root_tree_root tree_root_node is_equal_node_def by (rule conjunct1)
  moreover have "kids_held f (node_places f [] ta tb) (kid_leaves [] ta tb) [] ta tb"
    using sh by (simp add: kids_held_def)
  ultimately have "walkable sha f (node_places f [] ta tb) (kid_leaves [] ta tb) (take 0 (key_bits key)) (root_node sha s)"
    by (auto simp: walkable_def)
  from c_walk_down_from_at [OF holds kids_valid [OF sh] _ _ _ this, of S 256] assms show ?thesis
    by (auto simp: c_walk_down_def c_inv_def)
qed

lemma c_get_at: "c_inv sha S s f \<Longrightarrow> c_get sha key s = Ok (f (key_bits key))"
  using c_walk_down_at [of sha S s f key] by (auto simp: c_get_def)

lemma c_merkle_proof_at:
  assumes "c_inv sha S s f"
  shows "\<exists>p. c_merkle_proof sha key s = Ok p \<and> length p = 256
    \<and> verify_merkle_proof sha key (f (key_bits key)) p (Branch (fst (c_root sha s)) (snd (c_root sha s)))"
proof -
  obtain trace where trace: "c_walk_down sha s key = Ok (f (key_bits key), trace)" "siblings_ok sha f key 0 trace"
    using c_walk_down_at [OF assms] by blast
  then have len: "length trace = 256" by (auto simp: siblings_ok_def dest!: list_all2_lengthD)
  define sib where "sib j = trace_sibling (trace ! j)" for j
  have sibs: "map trace_sibling trace = map sib [0..<256]"
    by (rule nth_equalityI) (simp_all add: len sib_def)
  have "is_equal_node sha (sib j) (node_at f (take j (key_bits key) @ [\<not> bit_index j key]))" if "j < 256" for j
    using trace(2) that len by (simp add: siblings_ok_def list_all2_conv_all_nth sib_def off_path_def)
  then have "is_equal_node sha (proof_up key 256 (Leaf (f (key_bits key))) (map sib (rev [0..<256]))) (node_at f [])"
    by (intro proof_up_at) (simp_all add: is_equal_node_def node_at_Leaf)
  moreover have "map trace_sibling (rev trace) = map sib (rev [0..<256])" using sibs by (metis rev_map)
  ultimately show ?thesis
    using trace(1) c_root_at [OF assms]
    by (simp add: c_merkle_proof_def verify_merkle_proof_iff is_equal_node_def del: node_hash.simps node_sum.simps)
qed

lemma at_root:
  fixes key :: bytes
  assumes "shape_of f [False] ta" "shape_of f [True] tb"
    and "c_holds sha s (branch_at sha f ` node_places f [] ta tb) (kid_leaves [] ta tb)"
  defines "b \<equiv> bit_index 0 key"
  defines "near \<equiv> if b then tb else ta" and "far \<equiv> if b then ta else tb"
  shows "at_node sha f key 0 near far (branch_places [\<not> b] far) (leaf_places [\<not> b] far) s"
    and "shape_of f [\<not> b] far"
proof -
  show far: "shape_of f [\<not> b] far" using assms by (cases b) auto
  have near: "shape_of f [b] near" using assms by (cases b) auto
  have Q: "root_place f [] \<union> branch_places [b] near \<union> branch_places [\<not> b] far = node_places f [] ta tb"
    "leaf_places [b] near \<union> leaf_places [\<not> b] far = kid_leaves [] ta tb"
    by (cases b; auto simp: node_places_def kid_leaves_def near_def far_def)+
  have "off (key_bits key) [\<not> b]" using off_sibling [of 0 key] by (simp add: b_def)
  note off = off_append [OF this]
  have "frame_places f (branch_places [\<not> b] far)" using branch_place_occupied [OF far] by (simp add: frame_places_def)
  moreover have "alone f q k l \<and> off (key_bits key) q" if "(q, k, l) \<in> leaf_places [\<not> b] far" for q k l
    using leaf_place_alone [OF far that] leaf_place_prefix [OF that] off by auto
  then have "frame_leaves f (key_bits key) (leaf_places [\<not> b] far)" by (auto simp: frame_leaves_def)
  moreover have "off (key_bits key) q" if "q \<in> branch_places [\<not> b] far" for q
    using branch_place_prefix [OF that] off by auto
  ultimately show "at_node sha f key 0 near far (branch_places [\<not> b] far) (leaf_places [\<not> b] far) s"
    using near far kids_valid [OF assms(1,2)] assms(3) Q
    unfolding at_node_def Let_def b_def [symmetric] by simp
qed

lemma c_holds_update_root: "c_holds sha (update_root sha b s) Y E = c_holds sha s Y E"
  by (simp add: c_holds_def update_root_def)

lemma done_represents:
  assumes d: "node_done sha f g key 0 (branch_places [\<not> bit_index 0 key] far) (leaf_places [\<not> bit_index 0 key] far) s res"
    and far: "shape_of f [\<not> bit_index 0 key] far" and g: "g = f(key_bits key := leaf)"
  shows "c_represents sha (update_root sha (fst res) (snd res)) g"
proof -
  let ?b = "bit_index 0 key"
  obtain t where t: "shape_of g [?b] t" "is_equal_node sha (Branch (fst (fst res)) (snd (fst res))) (node_at g [])"
    "c_holds sha (snd res) (branch_at sha g ` (root_place g [] \<union> branch_places [?b] t)
        \<union> branch_at sha f ` branch_places [\<not> ?b] far) (leaf_places [?b] t \<union> leaf_places [\<not> ?b] far)"
    using d unfolding node_done_def Let_def take_0 append_Nil by (elim exE conjE)
  have off: "off (key_bits key) [\<not> ?b]" using off_sibling [of 0 key] by simp
  have same: "branch_at sha f ` branch_places [\<not> ?b] far = branch_at sha g ` branch_places [\<not> ?b] far"
    and farg: "shape_of g [\<not> ?b] far"
    unfolding g by (rule branch_places_off [OF off far, symmetric], rule shape_of_off [OF off far])
  define ta tb where "ta = (if ?b then far else t)" and "tb = (if ?b then t else far)"
  have sh: "shape_of g [False] ta" "shape_of g [True] tb" using t(1) farg by (cases ?b; simp add: ta_def tb_def)+
  have Q: "branch_at sha g ` node_places g [] ta tb = branch_at sha g ` (root_place g [] \<union> branch_places [?b] t)
      \<union> branch_at sha f ` branch_places [\<not> ?b] far"
    "kid_leaves [] ta tb = leaf_places [?b] t \<union> leaf_places [\<not> ?b] far"
    unfolding same by (cases ?b; auto simp: node_places_def kid_leaves_def ta_def tb_def)+
  show ?thesis
    using root_holds_update_root [OF t(2), of "snd res"] sh t(3)
    unfolding c_represents_def c_holds_update_root Q [symmetric] by blast
qed

lemma c_update_at:
  assumes inv: "c_inv sha S s f" and adm: "c_admissible sha S f key leaf"
    and fits: "content_total (f(key_bits key := leaf)) < 2 ^ 64"
  shows "\<exists>b s'. insert_at sha key 0 (c_root sha s) leaf s = Ok (b, s')
    \<and> c_inv sha S (update_root sha b s') (f(key_bits key := leaf))"
proof -
  let ?g = "f(key_bits key := leaf)" and ?b = "bit_index 0 key"
  obtain ta tb where sh: "shape_of f [False] ta" "shape_of f [True] tb"
    and holds: "c_holds sha s (branch_at sha f ` node_places f [] ta tb) (kid_leaves [] ta tb)"
    using inv by (auto simp: c_inv_def c_represents_def)
  let ?near = "if ?b then tb else ta" and ?far = "if ?b then ta else tb"
  note at = at_root [OF sh holds, of key]
  have sep: "separated sha S f" "separated sha S ?g" "distinct_leaves f" "distinct_leaves ?g" "length key = 32"
    using inv adm by (simp_all only: c_inv_def c_admissible_def)
  have "is_equal_node sha (Branch (fst (c_root sha s)) (snd (c_root sha s))) (node_at f (take 0 (key_bits key)))"
    using c_root_at [OF inv] by simp
  from insert_at_done [OF sep(1-4) refl sep(5) at(1) this] obtain b s' where
    "insert_at sha key 0 (c_root sha s) leaf s = Ok (b, s')" "c_represents sha (update_root sha b s') ?g"
    using done_represents [OF _ at(2) refl] by fastforce
  with sep fits show ?thesis unfolding c_inv_def by blast
qed

lemma c_insert_at:
  assumes "c_inv sha S s f" "c_admissible sha S f key leaf" "content_total f + unat (leaf_sum leaf) < 2 ^ 64"
  shows "\<exists>s'. c_insert sha key leaf s = Ok s' \<and> c_inv sha S s' (f(key_bits key := leaf))"
proof -
  have "content_total (f(key_bits key := leaf)) < 2 ^ 64"
    using content_total_upd [of "key_bits key" f leaf] assms(3) by simp
  from c_update_at [OF assms(1,2) this] obtain b s' where
    "insert_at sha key 0 (c_root sha s) leaf s = Ok (b, s')" "c_inv sha S (update_root sha b s') (f(key_bits key := leaf))"
    by blast
  moreover have "check_sum_overflow_u64 (branch_sum (c_root sha s)) (leaf_sum leaf) = Ok ()"
    using c_root_sum [OF assms(1)] assms(3)
    by (cases "checked_add (branch_sum (c_root sha s)) (leaf_sum leaf)")
      (auto simp: check_sum_overflow_u64_def checked_add_eq_None_iff)
  ultimately show ?thesis by (simp add: c_insert_def Let_def del: fun_upd_apply)
qed

lemma c_insert_overflow:
  assumes "c_inv sha S s f" "2 ^ 64 \<le> content_total f + unat (leaf_sum leaf)"
  shows "c_insert sha key leaf s = Err (IntegerOverflow (branch_sum (c_root sha s)) (leaf_sum leaf))"
  using c_root_sum [OF assms(1)] assms(2)
  by (simp add: c_insert_def Let_def check_sum_overflow_u64_def checked_add_eq_None_iff)

lemma c_delete_at:
  assumes "c_inv sha S s f" "c_admissible sha S f key leaf_empty"
  shows "\<exists>s'. c_delete sha key s = Ok s' \<and> c_inv sha S s' (f(key_bits key := leaf_empty))"
proof -
  have "content_total (f(key_bits key := leaf_empty)) < 2 ^ 64"
    using content_total_upd [of "key_bits key" f leaf_empty] assms(1) by (simp add: c_inv_def)
  from c_update_at [OF assms this] show ?thesis by (auto simp: c_delete_def Let_def simp del: fun_upd_apply)
qed

interpretation compacted: sum_tree "c_inv sha S" "c_admissible sha S" sha "c_get sha" "c_insert sha" "c_delete sha"
  "c_merkle_proof sha" "c_root sha" for sha S
  by unfold_locales
    (fact c_get_at c_insert_at c_insert_overflow c_delete_at c_merkle_proof_at c_root_at |
      simp add: c_inv_def)+

lemma c_inv_new: "separated sha S no_content \<Longrightarrow> c_inv sha S store_new no_content"
proof -
  assume sep: "separated sha S no_content"
  have "\<not> occupied no_content p" for p by (simp add: occupied_def no_content_def)
  then have "c_represents sha store_new no_content" unfolding c_represents_def
    by (intro conjI exI [of _ SE])
      (simp_all add: root_holds_def store_new_def node_places_def root_place_def kid_leaves_def c_holds_def stored_def)
  with sep show ?thesis
    by (simp add: c_inv_def content_total_no_content) (simp add: distinct_leaves_def no_content_def)
qed

section \<open>Properties\<close>

text \<open>The compacted tree implements the same map specification as the full tree. From an empty store, any sequence of
  insertions and deletions under 32-byte keys whose trees the hash function separates, that never stores one leaf under two
  keys and never overflows the sum, runs without error; afterwards every lookup returns the leaf last stored, every
  Merkle proof, of presence or absence, verifies against the root, and the root carries the exact sum.\<close>

theorem compacted_tree_refines:
  assumes "separated sha S no_content" "admissible_ops (c_admissible sha S) ops no_content"
  shows "\<exists>s. run_ops (c_insert sha) (c_delete sha) ops store_new = Ok s
    \<and> (\<forall>key. c_get sha key s = Ok (apply_ops ops no_content (key_bits key)))
    \<and> (\<forall>key. \<exists>p. c_merkle_proof sha key s = Ok p \<and> length p = 256 \<and>
         verify_merkle_proof sha key (apply_ops ops no_content (key_bits key)) p
           (Branch (fst (c_root sha s)) (snd (c_root sha s))))
    \<and> unat (branch_sum (c_root sha s)) = content_total (apply_ops ops no_content)"
  by (rule compacted.run_ops_correct [OF c_inv_new [OF assms(1)] assms(2)])

lemma admissible_compacted: "length key = 32 \<and> admissible sha S f key leaf \<Longrightarrow> c_admissible sha S f key leaf"
  unfolding c_admissible_def admissible_def by blast

lemma demo_key_ops:
  "admissible_ops (\<lambda>f key leaf. length key = 32 \<and> admissible demo_hash demo_set f key leaf)
     [OpInsert demo_key demo_leaf, OpDelete demo_key] no_content"
  using demo_ops(2) by (simp add: demo_key_def del: fun_upd_apply)

theorem compacted_tree_refines_witness:
  "\<exists>s. run_ops (c_insert demo_hash) (c_delete demo_hash) [OpInsert demo_key demo_leaf, OpDelete demo_key] store_new = Ok s
    \<and> c_get demo_hash demo_key s = Ok leaf_empty"
proof -
  from compacted_tree_refines [OF separated_no_content [OF demo_separated]
      admissible_ops_mono [OF demo_key_ops admissible_compacted]]
  show ?thesis by auto
qed

text \<open>C18: compaction is invisible. The same sequence of insertions and deletions leaves the full and the compacted tree
  with the same root hash and root sum and the same leaf under every key, and a proof made by the compacted tree verifies
  against the root of the full tree.\<close>

theorem compacted_equals_full:
  assumes "separated sha S no_content"
    and "admissible_ops (\<lambda>f key leaf. length key = 32 \<and> admissible sha S f key leaf) ops no_content"
  shows "\<exists>a b. run_ops (tree_insert sha) (tree_delete sha) ops full_tree_new = Ok a
    \<and> run_ops (c_insert sha) (c_delete sha) ops store_new = Ok b
    \<and> branch_hash sha (c_root sha b) = branch_hash sha (tree_root sha a)
    \<and> branch_sum (c_root sha b) = branch_sum (tree_root sha a)
    \<and> (\<forall>key. c_get sha key b = tree_get sha key a)
    \<and> (\<forall>key. \<exists>p l. c_merkle_proof sha key b = Ok p \<and> tree_get sha key a = Ok l
         \<and> verify_merkle_proof sha key l p (Branch (fst (tree_root sha a)) (snd (tree_root sha a))))"
proof -
  let ?f = "apply_ops ops no_content"
  from full.run_ops_inv [OF full_inv_new [OF assms(1)] admissible_ops_mono [OF assms(2)]]
  obtain a where a: "run_ops (tree_insert sha) (tree_delete sha) ops full_tree_new = Ok a" "full_inv sha S a ?f" by blast
  from compacted.run_ops_inv [OF c_inv_new [OF assms(1)] admissible_ops_mono [OF assms(2) admissible_compacted]]
  obtain b where b: "run_ops (c_insert sha) (c_delete sha) ops store_new = Ok b" "c_inv sha S b ?f" by blast
  have root: "is_equal_node sha (Branch (fst (c_root sha b)) (snd (c_root sha b)))
      (Branch (fst (tree_root sha a)) (snd (tree_root sha a)))"
    using c_root_at [OF b(2)] tree_root_at [OF a(2)] unfolding is_equal_node_def by metis
  then have "branch_hash sha (c_root sha b) = branch_hash sha (tree_root sha a)"
    "branch_sum (c_root sha b) = branch_sum (tree_root sha a)"
    unfolding branch_hash_def branch_sum_def is_equal_node_def by blast+
  moreover have "verify_merkle_proof sha key l p (Branch (fst (tree_root sha a)) (snd (tree_root sha a)))
      = verify_merkle_proof sha key l p (Branch (fst (c_root sha b)) (snd (c_root sha b)))" for key l p
    using root unfolding verify_merkle_proof_def is_equal_node_def by (simp add: split_beta del: node_hash.simps node_sum.simps)
  moreover have "\<exists>p. c_merkle_proof sha key b = Ok p
      \<and> verify_merkle_proof sha key (?f (key_bits key)) p (Branch (fst (c_root sha b)) (snd (c_root sha b)))" for key
    using c_merkle_proof_at [OF b(2)] by blast
  ultimately show ?thesis
    using a(1) b(1) c_get_at [OF b(2)] tree_get_at [OF a(2)] by simp
qed

theorem compacted_equals_full_witness:
  "\<exists>a b. run_ops (tree_insert demo_hash) (tree_delete demo_hash) [OpInsert demo_key demo_leaf, OpDelete demo_key] full_tree_new = Ok a
    \<and> run_ops (c_insert demo_hash) (c_delete demo_hash) [OpInsert demo_key demo_leaf, OpDelete demo_key] store_new = Ok b
    \<and> branch_hash demo_hash (c_root demo_hash b) = branch_hash demo_hash (tree_root demo_hash a)"
  using compacted_equals_full [OF separated_no_content [OF demo_separated] demo_key_ops] by blast

end
