(* ===== verification/Blobs.thy ===== *)
theory Blobs
  imports Proof_Properties
begin

text \<open>
  The asset state stored beside a Lightning channel: \<^verbatim>\<open>tap-ldk/src/channel/blobs.rs\<close>. Funded and committed outputs carry their
  last transition proof; lists and maps are counted, and the whole state is a TLV stream.
\<close>

section \<open>Readers\<close>

datatype BlobError = TooShort | BlobInvalidFormat string | MissingProof

definition MAX_NUM_OUTPUTS :: u64 where "MAX_NUM_OUTPUTS = 2048"
definition MAX_NUM_HTLCS :: u64 where "MAX_NUM_HTLCS = 966"

definition write_inline_var_bytes :: "bytes \<Rightarrow> bytes \<Rightarrow> bytes" where
  "write_inline_var_bytes buf data = buf @ encode_bigsize (of_nat (length data)) @ data"

text \<open>The readers of a count and of a byte string at an offset, over the errors of the module that has them.\<close>

definition inline_bytes_at :: "'e \<Rightarrow> 'e \<Rightarrow> bytes \<Rightarrow> nat \<Rightarrow> (bytes \<times> nat, 'e) result" where
  "inline_bytes_at bad_len too_short data offset =
     res_bind (map_err (\<lambda>_. bad_len) (decode_bigsize (drop offset data))) (\<lambda>(len, len_size).
       let start = offset + len_size; end = start + unat len in
       if end < 2 ^ 64 \<and> end \<le> length data then Ok (take (end - start) (drop start data), end) else Err too_short)"

definition varint_at :: "'e \<Rightarrow> bytes \<Rightarrow> nat \<Rightarrow> (u64 \<times> nat, 'e) result" where
  "varint_at bad data offset =
     map_ok (\<lambda>(val, size). (val, offset + size)) (map_err (\<lambda>_. bad) (decode_bigsize (drop offset data)))"

definition read_inline_var_bytes :: "bytes \<Rightarrow> nat \<Rightarrow> (bytes \<times> nat, BlobError) result" where
  "read_inline_var_bytes = inline_bytes_at (BlobInvalidFormat ''var bytes length'') TooShort"

definition read_varint :: "bytes \<Rightarrow> nat \<Rightarrow> (u64 \<times> nat, BlobError) result" where
  "read_varint = varint_at (BlobInvalidFormat ''varint'')"

text \<open>The loops over the items of a list and the entries of a map, and the decoders around them. Three modules have their own
  copy of the readers \<open>rc\<close> of a count and \<open>rd\<close> of a byte string, which differ in their errors.\<close>

fun read_items ::
  "(bytes \<Rightarrow> nat \<Rightarrow> (bytes \<times> nat, 'e) result) \<Rightarrow> (bytes \<Rightarrow> ('a, 'e) result) \<Rightarrow> nat \<Rightarrow> bytes \<Rightarrow> nat \<Rightarrow> 'a list \<Rightarrow>
     ('a list \<times> nat, 'e) result" where
  "read_items rd dec 0 data offset acc = Ok (acc, offset)"
| "read_items rd dec (Suc n) data offset acc =
     res_bind (rd data offset) (\<lambda>(bs, offset).
       res_bind (dec bs) (\<lambda>x. read_items rd dec n data offset (acc @ [x])))"

fun read_entries ::
  "(bytes \<Rightarrow> nat \<Rightarrow> (u64 \<times> nat, 'e) result) \<Rightarrow> (bytes \<Rightarrow> nat \<Rightarrow> (bytes \<times> nat, 'e) result) \<Rightarrow>
     (bytes \<Rightarrow> ('a, 'e) result) \<Rightarrow> nat \<Rightarrow> bytes \<Rightarrow> nat \<Rightarrow> (u64 \<times> 'a) list \<Rightarrow> ((u64 \<times> 'a) list \<times> nat, 'e) result" where
  "read_entries rc rd dec 0 data offset acc = Ok (acc, offset)"
| "read_entries rc rd dec (Suc n) data offset acc =
     res_bind (rc data offset) (\<lambda>(key, offset).
       res_bind (rd data offset) (\<lambda>(bs, offset).
         res_bind (dec bs) (\<lambda>x. read_entries rc rd dec n data offset (btree_insert key x acc))))"

definition decode_item_list ::
  "(bytes \<Rightarrow> nat \<Rightarrow> (u64 \<times> nat, 'e) result) \<Rightarrow> (bytes \<Rightarrow> nat \<Rightarrow> (bytes \<times> nat, 'e) result) \<Rightarrow> 'e \<Rightarrow> 'e \<Rightarrow>
     (bytes \<Rightarrow> ('a, 'e) result) \<Rightarrow> u64 \<Rightarrow> bytes \<Rightarrow> ('a list, 'e) result" where
  "decode_item_list rc rd too_many trailing dec limit data =
     res_bind (rc data 0) (\<lambda>(count, offset).
       if limit < count then Err too_many
       else res_bind (read_items rd dec (unat count) data offset []) (\<lambda>(xs, offset).
         if offset \<noteq> length data then Err trailing else Ok xs))"

definition decode_entry_map ::
  "(bytes \<Rightarrow> nat \<Rightarrow> (u64 \<times> nat, 'e) result) \<Rightarrow> (bytes \<Rightarrow> nat \<Rightarrow> (bytes \<times> nat, 'e) result) \<Rightarrow> 'e \<Rightarrow> 'e \<Rightarrow>
     (bytes \<Rightarrow> ('a, 'e) result) \<Rightarrow> u64 \<Rightarrow> bytes \<Rightarrow> ((u64 \<times> 'a) list, 'e) result" where
  "decode_entry_map rc rd too_many trailing dec limit data =
     res_bind (rc data 0) (\<lambda>(count, offset).
       if limit < count then Err too_many
       else res_bind (read_entries rc rd dec (unat count) data offset []) (\<lambda>(m, offset).
         if offset \<noteq> length data then Err trailing else Ok m))"

text \<open>Their writers, over the encodings of the items.\<close>

definition encode_items :: "bytes list \<Rightarrow> bytes" where
  "encode_items items = encode_bigsize (of_nat (length items)) @ concat (map (write_inline_var_bytes []) items)"

definition encode_entries :: "(u64 \<times> bytes) list \<Rightarrow> bytes" where
  "encode_entries es =
     encode_bigsize (of_nat (length es)) @ concat (map (\<lambda>(k, bs). write_inline_var_bytes (encode_bigsize k) bs) es)"

section \<open>Asset outputs\<close>

record AssetBalance =
  ab_asset_id :: AssetId
  ab_amount :: u64

record AssetOutput =
  ao_asset_id :: AssetId
  ao_amount :: u64
  ao_script_key :: SerializedKey
  ao_proof :: "TransitionProof option"

definition asset_output_encode :: "hash_fun \<Rightarrow> TxLib \<Rightarrow> AssetOutput \<Rightarrow> (bytes, BlobError) result" where
  "asset_output_encode sha txl out =
     (case ao_proof out of None \<Rightarrow> Err MissingProof
      | Some p \<Rightarrow>
          let s = tlv_push [] (tlv_bytes 0 (ao_asset_id out));
              s = tlv_push s (tlv_u64 1 (ao_amount out));
              s = tlv_push s (tlv_bytes 2 (encode_proof sha txl p))
          in Ok (tlv_encode s))"

definition asset_output_decode ::
  "hash_fun \<Rightarrow> (SerializedKey \<Rightarrow> bool) \<Rightarrow> TxLib \<Rightarrow> bytes \<Rightarrow> (AssetOutput, BlobError) result" where
  "asset_output_decode sha on_curve txl data =
     res_bind (map_err (\<lambda>_. BlobInvalidFormat ''asset output'') (tlv_decode data)) (\<lambda>s.
     res_bind (ok_or (tlv_get s 0) (BlobInvalidFormat ''asset output missing asset id'')) (\<lambda>id_record.
       if length (tlv_value id_record) \<noteq> 32 then Err (BlobInvalidFormat ''asset id must be 32 bytes'')
       else
         res_bind (ok_or (tlv_get s 1) (BlobInvalidFormat ''asset output missing amount'')) (\<lambda>r.
         res_bind (map_err (\<lambda>_. BlobInvalidFormat ''asset output amount'') (as_u64 r)) (\<lambda>amt.
         res_bind (ok_or (tlv_get s 2) MissingProof) (\<lambda>proof_record.
         res_bind (map_err (\<lambda>_. BlobInvalidFormat ''asset output proof'')
             (decode_proof sha on_curve txl (tlv_value proof_record))) (\<lambda>p.
           Ok \<lparr>ao_asset_id = tlv_value id_record, ao_amount = amt,
             ao_script_key = sk_pub_key (script_key (asset p)), ao_proof = Some p\<rparr>))))))"

definition encode_asset_output_list :: "hash_fun \<Rightarrow> TxLib \<Rightarrow> AssetOutput list \<Rightarrow> (bytes, BlobError) result" where
  "encode_asset_output_list sha txl outputs = map_ok encode_items (map_res (asset_output_encode sha txl) outputs)"

definition decode_asset_output_list ::
  "hash_fun \<Rightarrow> (SerializedKey \<Rightarrow> bool) \<Rightarrow> TxLib \<Rightarrow> bytes \<Rightarrow> (AssetOutput list, BlobError) result" where
  "decode_asset_output_list sha on_curve txl data =
     decode_item_list read_varint read_inline_var_bytes (BlobInvalidFormat ''too many outputs'')
       (BlobInvalidFormat ''trailing bytes after output list'') (asset_output_decode sha on_curve txl) MAX_NUM_OUTPUTS data"

type_synonym HtlcAssetOutputs = "(u64 \<times> AssetOutput list) list"

definition htlc_list_encode :: "hash_fun \<Rightarrow> TxLib \<Rightarrow> AssetOutput list \<Rightarrow> (bytes, BlobError) result" where
  "htlc_list_encode sha txl outputs =
     map_ok (\<lambda>bs. tlv_encode (tlv_push [] (tlv_new 0 bs))) (encode_asset_output_list sha txl outputs)"

definition htlc_list_decode ::
  "hash_fun \<Rightarrow> (SerializedKey \<Rightarrow> bool) \<Rightarrow> TxLib \<Rightarrow> bytes \<Rightarrow> (AssetOutput list, BlobError) result" where
  "htlc_list_decode sha on_curve txl bs =
     res_bind (map_err (\<lambda>_. BlobInvalidFormat ''htlc output list'') (tlv_decode bs)) (\<lambda>s.
     res_bind (ok_or (tlv_get s 0) (BlobInvalidFormat ''htlc output list missing record'')) (\<lambda>r.
       decode_asset_output_list sha on_curve txl (tlv_value r)))"

definition encode_htlc_asset_outputs :: "hash_fun \<Rightarrow> TxLib \<Rightarrow> HtlcAssetOutputs \<Rightarrow> (bytes, BlobError) result" where
  "encode_htlc_asset_outputs sha txl htlcs =
     map_ok encode_entries (map_res (\<lambda>(k, outputs). map_ok (\<lambda>bs. (k, bs)) (htlc_list_encode sha txl outputs)) htlcs)"

definition decode_htlc_asset_outputs ::
  "hash_fun \<Rightarrow> (SerializedKey \<Rightarrow> bool) \<Rightarrow> TxLib \<Rightarrow> bytes \<Rightarrow> (HtlcAssetOutputs, BlobError) result" where
  "decode_htlc_asset_outputs sha on_curve txl data =
     decode_entry_map read_varint read_inline_var_bytes (BlobInvalidFormat ''too many HTLCs'')
       (BlobInvalidFormat ''trailing bytes after htlc output map'') (htlc_list_decode sha on_curve txl) MAX_NUM_HTLCS data"

section \<open>Channel blobs\<close>

text \<open>\<^verbatim>\<open>match stream.get(t)\<close>: the value of an absent record is the default.\<close>

definition get_or :: "TlvStream \<Rightarrow> u64 \<Rightarrow> 'a \<Rightarrow> (TlvRecord \<Rightarrow> ('a, BlobError) result) \<Rightarrow> ('a, BlobError) result" where
  "get_or s t d f = (case tlv_get s t of Some r \<Rightarrow> f r | None \<Rightarrow> Ok d)"

record ChannelBlob =
  funded_assets :: "AssetOutput list"
  decimal_display :: u8
  cb_group_key :: "SerializedKey option"

definition channel_blob_encode :: "hash_fun \<Rightarrow> TxLib \<Rightarrow> ChannelBlob \<Rightarrow> (bytes, BlobError) result" where
  "channel_blob_encode sha txl b =
     res_bind (encode_asset_output_list sha txl (funded_assets b)) (\<lambda>funded.
       let s = tlv_push [] (tlv_new 0 funded);
           s = tlv_push s (tlv_u8 1 (decimal_display b));
           s = push_opt s 2 (cb_group_key b)
       in Ok (tlv_encode s))"

definition channel_blob_decode ::
  "hash_fun \<Rightarrow> (SerializedKey \<Rightarrow> bool) \<Rightarrow> TxLib \<Rightarrow> bytes \<Rightarrow> (ChannelBlob, BlobError) result" where
  "channel_blob_decode sha on_curve txl data =
     res_bind (map_err (\<lambda>_. BlobInvalidFormat ''open channel'') (tlv_decode data)) (\<lambda>s.
     res_bind (get_or s 0 [] (\<lambda>r. decode_asset_output_list sha on_curve txl (tlv_value r))) (\<lambda>funded.
     res_bind (get_or s 1 0 (\<lambda>r. map_err (\<lambda>_. BlobInvalidFormat ''decimal display'') (as_u8 r))) (\<lambda>display.
     res_bind (get_or s 2 None (\<lambda>r.
         if length (tlv_value r) \<noteq> 33 then Err (BlobInvalidFormat ''group key must be 33 bytes'')
         else Ok (Some (tlv_value r)))) (\<lambda>gk.
       Ok \<lparr>funded_assets = funded, decimal_display = display, cb_group_key = gk\<rparr>))))"

section \<open>Auxiliary leaves\<close>

record TapLeaf =
  tl_version :: u8
  tl_script :: bytes

definition tap_leaf_encode :: "TapLeaf \<Rightarrow> bytes" where
  "tap_leaf_encode l = write_inline_var_bytes ([tl_version l] @ encode_bigsize (of_nat (length (tl_script l)))) (tl_script l)"

definition tap_leaf_decode_from :: "bytes \<Rightarrow> nat \<Rightarrow> (TapLeaf \<times> nat, BlobError) result" where
  "tap_leaf_decode_from data offset =
     (if length data \<le> offset then Err TooShort
      else res_bind (read_varint data (offset + 1)) (\<lambda>(declared_len, off).
        res_bind (read_inline_var_bytes data off) (\<lambda>(script, off).
          if unat declared_len \<noteq> length script then Err (BlobInvalidFormat ''tap leaf script length mismatch'')
          else Ok (\<lparr>tl_version = data ! offset, tl_script = script\<rparr>, off))))"

definition tap_leaf_decode :: "bytes \<Rightarrow> (TapLeaf, BlobError) result" where
  "tap_leaf_decode data =
     res_bind (tap_leaf_decode_from data 0) (\<lambda>(leaf, offset).
       if offset \<noteq> length data then Err (BlobInvalidFormat ''trailing bytes after tap leaf'') else Ok leaf)"

definition leaf_or_none :: "TlvStream \<Rightarrow> u64 \<Rightarrow> (TapLeaf option, BlobError) result" where
  "leaf_or_none s t = get_or s t None (\<lambda>r. map_ok Some (tap_leaf_decode (tlv_value r)))"

record HtlcAuxLeaf =
  hal_aux_leaf :: "TapLeaf option"
  second_level_leaf :: "TapLeaf option"

definition htlc_aux_leaf_encode :: "HtlcAuxLeaf \<Rightarrow> bytes" where
  "htlc_aux_leaf_encode l =
     tlv_encode (push_opt (push_opt [] 0 (map_option tap_leaf_encode (hal_aux_leaf l)))
       1 (map_option tap_leaf_encode (second_level_leaf l)))"

definition htlc_aux_leaf_decode :: "bytes \<Rightarrow> (HtlcAuxLeaf, BlobError) result" where
  "htlc_aux_leaf_decode data =
     res_bind (map_err (\<lambda>_. BlobInvalidFormat ''htlc aux leaf'') (tlv_decode data)) (\<lambda>s.
     res_bind (leaf_or_none s 0) (\<lambda>aux.
     res_bind (leaf_or_none s 1) (\<lambda>second. Ok \<lparr>hal_aux_leaf = aux, second_level_leaf = second\<rparr>)))"

definition encode_htlc_aux_leaf_map :: "(u64 \<times> HtlcAuxLeaf) list \<Rightarrow> bytes" where
  "encode_htlc_aux_leaf_map m = encode_entries (map (\<lambda>(k, leaf). (k, htlc_aux_leaf_encode leaf)) m)"

definition decode_htlc_aux_leaf_map :: "bytes \<Rightarrow> ((u64 \<times> HtlcAuxLeaf) list, BlobError) result" where
  "decode_htlc_aux_leaf_map data =
     decode_entry_map read_varint read_inline_var_bytes (BlobInvalidFormat ''too many HTLC leaves'')
       (BlobInvalidFormat ''trailing bytes after leaf map'') htlc_aux_leaf_decode MAX_NUM_HTLCS data"

record AuxLeaves =
  local_aux_leaf :: "TapLeaf option"
  remote_aux_leaf :: "TapLeaf option"
  outgoing_htlc_leaves :: "(u64 \<times> HtlcAuxLeaf) list"
  incoming_htlc_leaves :: "(u64 \<times> HtlcAuxLeaf) list"

definition aux_leaves_default :: AuxLeaves where
  "aux_leaves_default = \<lparr>local_aux_leaf = None, remote_aux_leaf = None, outgoing_htlc_leaves = [], incoming_htlc_leaves = []\<rparr>"

definition aux_leaves_encode :: "AuxLeaves \<Rightarrow> bytes" where
  "aux_leaves_encode l =
     (let s = push_opt [] 0 (map_option tap_leaf_encode (local_aux_leaf l));
          s = push_opt s 1 (map_option tap_leaf_encode (remote_aux_leaf l));
          s = tlv_push s (tlv_new 2 (encode_htlc_aux_leaf_map (outgoing_htlc_leaves l)));
          s = tlv_push s (tlv_new 3 (encode_htlc_aux_leaf_map (incoming_htlc_leaves l)))
      in tlv_encode s)"

definition aux_leaves_decode :: "bytes \<Rightarrow> (AuxLeaves, BlobError) result" where
  "aux_leaves_decode data =
     res_bind (map_err (\<lambda>_. BlobInvalidFormat ''aux leaves'') (tlv_decode data)) (\<lambda>s.
     res_bind (leaf_or_none s 0) (\<lambda>loc.
     res_bind (leaf_or_none s 1) (\<lambda>rem.
     res_bind (get_or s 2 [] (\<lambda>r. decode_htlc_aux_leaf_map (tlv_value r))) (\<lambda>outgoing.
     res_bind (get_or s 3 [] (\<lambda>r. decode_htlc_aux_leaf_map (tlv_value r))) (\<lambda>incoming.
       Ok \<lparr>local_aux_leaf = loc, remote_aux_leaf = rem, outgoing_htlc_leaves = outgoing,
         incoming_htlc_leaves = incoming\<rparr>)))))"

section \<open>Commitment blobs\<close>

record CommitmentBlob =
  local_assets :: "AssetOutput list"
  remote_assets :: "AssetOutput list"
  outgoing_htlc_assets :: HtlcAssetOutputs
  incoming_htlc_assets :: HtlcAssetOutputs
  aux_leaves :: AuxLeaves
  stxo :: bool

definition commitment_blob_default :: CommitmentBlob where
  "commitment_blob_default = \<lparr>local_assets = [], remote_assets = [], outgoing_htlc_assets = [], incoming_htlc_assets = [],
     aux_leaves = aux_leaves_default, stxo = False\<rparr>"

text \<open>\<^verbatim>\<open>Iterator::sum\<close> wraps in a release build.\<close>

definition sum_amounts :: "AssetOutput list \<Rightarrow> u64" where
  "sum_amounts outs = (\<Sum>o1\<leftarrow>outs. ao_amount o1)"

definition local_balance :: "CommitmentBlob \<Rightarrow> u64" where
  "local_balance b = sum_amounts (local_assets b)"

definition remote_balance :: "CommitmentBlob \<Rightarrow> u64" where
  "remote_balance b = sum_amounts (remote_assets b)"

definition commitment_blob_encode :: "hash_fun \<Rightarrow> TxLib \<Rightarrow> CommitmentBlob \<Rightarrow> (bytes, BlobError) result" where
  "commitment_blob_encode sha txl b =
     res_bind (encode_asset_output_list sha txl (local_assets b)) (\<lambda>loc.
     res_bind (encode_asset_output_list sha txl (remote_assets b)) (\<lambda>rem.
     res_bind (encode_htlc_asset_outputs sha txl (outgoing_htlc_assets b)) (\<lambda>outgoing.
     res_bind (encode_htlc_asset_outputs sha txl (incoming_htlc_assets b)) (\<lambda>incoming.
       let s = tlv_push [] (tlv_new 0 loc);
           s = tlv_push s (tlv_new 1 rem);
           s = tlv_push s (tlv_new 2 outgoing);
           s = tlv_push s (tlv_new 3 incoming);
           s = tlv_push s (tlv_new 4 (write_inline_var_bytes [] (aux_leaves_encode (aux_leaves b))));
           s = tlv_push s (tlv_u8 5 (if stxo b then 1 else 0))
       in Ok (tlv_encode s)))))"

definition commitment_blob_decode ::
  "hash_fun \<Rightarrow> (SerializedKey \<Rightarrow> bool) \<Rightarrow> TxLib \<Rightarrow> bytes \<Rightarrow> (CommitmentBlob, BlobError) result" where
  "commitment_blob_decode sha on_curve txl data =
     res_bind (map_err (\<lambda>_. BlobInvalidFormat ''commitment'') (tlv_decode data)) (\<lambda>s.
     res_bind (get_or s 0 [] (\<lambda>r. decode_asset_output_list sha on_curve txl (tlv_value r))) (\<lambda>loc.
     res_bind (get_or s 1 [] (\<lambda>r. decode_asset_output_list sha on_curve txl (tlv_value r))) (\<lambda>rem.
     res_bind (get_or s 2 [] (\<lambda>r. decode_htlc_asset_outputs sha on_curve txl (tlv_value r))) (\<lambda>outgoing.
     res_bind (get_or s 3 [] (\<lambda>r. decode_htlc_asset_outputs sha on_curve txl (tlv_value r))) (\<lambda>incoming.
     res_bind (get_or s 4 aux_leaves_default (\<lambda>r.
         res_bind (read_inline_var_bytes (tlv_value r) 0) (\<lambda>(leaves_bytes, _). aux_leaves_decode leaves_bytes))) (\<lambda>leaves.
     res_bind (get_or s 5 False (\<lambda>r. map_ok (\<lambda>x. x \<noteq> 0) (map_err (\<lambda>_. BlobInvalidFormat ''stxo'') (as_u8 r)))) (\<lambda>stxo.
       Ok \<lparr>local_assets = loc, remote_assets = rem, outgoing_htlc_assets = outgoing, incoming_htlc_assets = incoming,
         aux_leaves = leaves, stxo = stxo\<rparr>)))))))"

record HtlcBlob =
  hb_amounts :: "AssetBalance list"
  hb_rfq_id :: "bytes option"


section \<open>Reading back\<close>

lemma write_inline_prefix: "write_inline_var_bytes buf x = buf @ write_inline_var_bytes [] x"
  by (simp add: write_inline_var_bytes_def)

lemma inline_bytes_at_read:
  assumes "length (pre @ write_inline_var_bytes [] x @ rest) < 2 ^ 64"
  shows "inline_bytes_at e1 e2 (pre @ write_inline_var_bytes [] x @ rest) (length pre)
    = Ok (x, length (pre @ write_inline_var_bytes [] x))"
proof -
  let ?n = "of_nat (length x) :: u64"
  have n: "unat ?n = length x" using assms by (simp add: write_inline_var_bytes_def unat_of_nat)
  have "decode_bigsize (drop (length pre) (pre @ write_inline_var_bytes [] x @ rest)) = Ok (?n, bigsize_len ?n)"
    using decode_encode_bigsize [of ?n "x @ rest"] by (simp add: write_inline_var_bytes_def)
  then show ?thesis
    using assms n by (simp add: inline_bytes_at_def write_inline_var_bytes_def Let_def)
qed

lemma varint_at_read: "varint_at e (pre @ encode_bigsize n @ rest) (length pre) = Ok (n, length (pre @ encode_bigsize n))"
  using decode_encode_bigsize [of n rest] by (simp add: varint_at_def)

lemma count_fits:
  assumes "length xs \<le> unat limit"
  shows "unat (of_nat (length xs) :: u64) = length xs \<and> \<not> limit < (of_nat (length xs) :: u64)"
proof -
  have "length xs < 2 ^ 64" using assms unat_lt2p [of limit] by (simp del: unat_u64_less)
  then have "unat (of_nat (length xs) :: u64) = length xs" by (simp add: unat_of_nat)
  with assms show ?thesis by (simp add: word_less_nat_alt)
qed

text \<open>What a module needs of its readers: they read back what the writers write, at any offset.\<close>

locale inline_reader =
  fixes rc :: "bytes \<Rightarrow> nat \<Rightarrow> (u64 \<times> nat, 'e) result"
    and rd :: "bytes \<Rightarrow> nat \<Rightarrow> (bytes \<times> nat, 'e) result"
  assumes count_at: "\<And>pre n rest. rc (pre @ encode_bigsize n @ rest) (length pre) = Ok (n, length (pre @ encode_bigsize n))"
    and read_at: "\<And>pre x rest. length (pre @ write_inline_var_bytes [] x @ rest) < 2 ^ 64 \<Longrightarrow>
      rd (pre @ write_inline_var_bytes [] x @ rest) (length pre) = Ok (x, length (pre @ write_inline_var_bytes [] x))"
begin

lemma read_items_encode:
  assumes "list_all2 (\<lambda>x bs. dec bs = Ok x) xs bss"
    and "length (pre @ concat (map (write_inline_var_bytes []) bss)) < 2 ^ 64"
  shows "read_items rd dec (length xs) (pre @ concat (map (write_inline_var_bytes []) bss)) (length pre) acc
    = Ok (acc @ xs, length (pre @ concat (map (write_inline_var_bytes []) bss)))"
  using assms
proof (induction xs bss arbitrary: pre acc rule: list_all2_induct)
  case (Cons x xs bs bss)
  let ?w = "write_inline_var_bytes [] bs" and ?r = "concat (map (write_inline_var_bytes []) bss)"
  have "rd (pre @ ?w @ ?r) (length pre) = Ok (bs, length (pre @ ?w))"
    using Cons.prems by (intro read_at) simp
  moreover have "read_items rd dec (length xs) ((pre @ ?w) @ ?r) (length (pre @ ?w)) (acc @ [x])
      = Ok ((acc @ [x]) @ xs, length ((pre @ ?w) @ ?r))"
    using Cons.prems by (intro Cons.IH) simp
  ultimately show ?case using Cons.hyps by simp
qed simp

lemma read_entries_encode:
  assumes "list_all2 (\<lambda>(k, x) (k', bs). k = k' \<and> dec bs = Ok x) m es"
    and "length (pre @ concat (map (\<lambda>(k, bs). write_inline_var_bytes (encode_bigsize k) bs) es)) < 2 ^ 64"
  shows "read_entries rc rd dec (length m) (pre @ concat (map (\<lambda>(k, bs). write_inline_var_bytes (encode_bigsize k) bs) es)) (length pre) acc
    = Ok (fold (\<lambda>(k, x) m. btree_insert k x m) m acc,
        length (pre @ concat (map (\<lambda>(k, bs). write_inline_var_bytes (encode_bigsize k) bs) es)))"
  using assms
proof (induction m es arbitrary: pre acc rule: list_all2_induct)
  case (Cons e m f es)
  obtain k x bs where e: "e = (k, x)" "f = (k, bs)" "dec bs = Ok x" using Cons.hyps(1) by (cases e; cases f) auto
  let ?k = "encode_bigsize k" and ?w = "write_inline_var_bytes [] bs"
  let ?r = "concat (map (\<lambda>(k, bs). write_inline_var_bytes (encode_bigsize k) bs) es)"
  have split: "pre @ concat (map (\<lambda>(k, bs). write_inline_var_bytes (encode_bigsize k) bs) (f # es)) = pre @ ?k @ ?w @ ?r"
    using e by (simp add: write_inline_prefix [of ?k bs])
  have "rc (pre @ ?k @ ?w @ ?r) (length pre) = Ok (k, length (pre @ ?k))" by (rule count_at)
  moreover have "rd ((pre @ ?k) @ ?w @ ?r) (length (pre @ ?k)) = Ok (bs, length ((pre @ ?k) @ ?w))"
    using Cons.prems unfolding split by (intro read_at) simp
  moreover have "read_entries rc rd dec (length m) ((pre @ ?k @ ?w) @ ?r) (length (pre @ ?k @ ?w)) (btree_insert k x acc)
      = Ok (fold (\<lambda>(k, x) m. btree_insert k x m) m (btree_insert k x acc), length ((pre @ ?k @ ?w) @ ?r))"
    using Cons.prems unfolding split by (intro Cons.IH) simp
  ultimately show ?case using e(1,3) unfolding split by simp
qed simp

lemma decode_items_list:
  assumes "list_all2 (\<lambda>x bs. dec bs = Ok x) xs bss" "length xs \<le> unat limit" "length (encode_items bss) < 2 ^ 64"
  shows "decode_item_list rc rd too_many trailing dec limit (encode_items bss) = Ok xs"
proof -
  have len: "length bss = length xs" using list_all2_lengthD [OF assms(1)] by simp
  let ?n = "of_nat (length bss) :: u64"
  have "rc (encode_items bss) 0 = Ok (?n, length (encode_bigsize ?n))"
    using count_at [of "[]" ?n] by (simp add: encode_items_def)
  moreover have "read_items rd dec (length xs) (encode_items bss) (length (encode_bigsize ?n)) [] = Ok (xs, length (encode_items bss))"
    using read_items_encode [OF assms(1), of "encode_bigsize ?n" "[]"] assms(3) by (simp add: encode_items_def)
  ultimately show ?thesis
    using count_fits [OF assms(2)] len by (simp add: decode_item_list_def)
qed

lemma decode_entries_map:
  assumes "list_all2 (\<lambda>(k, x) (k', bs). k = k' \<and> dec bs = Ok x) m es" "length m \<le> unat limit" "length (encode_entries es) < 2 ^ 64"
    and "btree_sorted m"
  shows "decode_entry_map rc rd too_many trailing dec limit (encode_entries es) = Ok m"
proof -
  have len: "length es = length m" using list_all2_lengthD [OF assms(1)] by simp
  let ?n = "of_nat (length es) :: u64"
  have "rc (encode_entries es) 0 = Ok (?n, length (encode_bigsize ?n))"
    using count_at [of "[]" ?n] by (simp add: encode_entries_def)
  moreover have "read_entries rc rd dec (length m) (encode_entries es) (length (encode_bigsize ?n)) [] = Ok (m, length (encode_entries es))"
    using read_entries_encode [OF assms(1), of "encode_bigsize ?n" "[]"] assms(3) fold_btree_insert [of "[]" m] assms(4)
    by (simp add: encode_entries_def)
  ultimately show ?thesis
    using count_fits [OF assms(2)] len by (simp add: decode_entry_map_def)
qed

end

interpretation blob_reader: inline_reader read_varint read_inline_var_bytes
  unfolding read_varint_def read_inline_var_bytes_def by unfold_locales (simp_all only: varint_at_read inline_bytes_at_read)

lemmas read_inline_at = blob_reader.read_at
lemmas read_varint_at = blob_reader.count_at

lemma tlv_decode_slots:
  assumes "sorted_wrt (<) (map fst xs)" "length (tlv_encode (of_slots xs)) \<le> 4000000"
  shows "tlv_decode (tlv_encode (of_slots xs)) = Ok (of_slots xs)"
  using tlv_decode_ascending [OF ascending_of_slots [OF assms(1)]] assms(2)
  by (simp add: tlv_decode_def MAX_TLV_VALUE_LENGTH_def)


section \<open>Round trips\<close>

lemma item_le: "bs \<in> set bss \<Longrightarrow> length bs \<le> length (encode_items bss)"
proof -
  assume "bs \<in> set bss"
  then have "length (write_inline_var_bytes [] bs) \<le> length (concat (map (write_inline_var_bytes []) bss))"
    unfolding length_concat map_map by (intro member_le_sum_list) auto
  then show ?thesis by (simp add: encode_items_def write_inline_var_bytes_def)
qed

lemma entry_le: "(k, bs) \<in> set es \<Longrightarrow> length bs \<le> length (encode_entries es)"
proof -
  assume e: "(k, bs) \<in> set es"
  have "length (write_inline_var_bytes (encode_bigsize k) bs)
      \<le> length (concat (map (\<lambda>(k, bs). write_inline_var_bytes (encode_bigsize k) bs) es))"
    unfolding length_concat map_map
  proof (rule member_le_sum_list)
    show "length (write_inline_var_bytes (encode_bigsize k) bs)
        \<in> set (map (length \<circ> (\<lambda>(k, bs). write_inline_var_bytes (encode_bigsize k) bs)) es)"
      using e by force
  qed simp
  then show ?thesis by (simp add: encode_entries_def write_inline_var_bytes_def)
qed

definition wf_output :: "hash_fun \<Rightarrow> (SerializedKey \<Rightarrow> bool) \<Rightarrow> TxLib \<Rightarrow> AssetOutput \<Rightarrow> bool" where
  "wf_output sha on_curve txl out \<longleftrightarrow> length (ao_asset_id out) = 32
     \<and> pred_option (\<lambda>p. wf_proof sha on_curve txl p \<and> ao_script_key out = sk_pub_key (script_key (asset p))) (ao_proof out)"

lemma asset_output_codec:
  assumes "sha_32 sha" "wf_output sha on_curve txl out" "asset_output_encode sha txl out = Ok bs" "length bs \<le> 4000000"
  shows "asset_output_decode sha on_curve txl bs = Ok out"
proof -
  obtain p where p: "ao_proof out = Some p" using assms(3) by (auto simp: asset_output_encode_def split: option.splits)
  let ?xs = "[(0, Some (ao_asset_id out)), (1, Some (u64_be (ao_amount out))), (2, Some (encode_proof sha txl p))]"
  have bs: "bs = tlv_encode (of_slots ?xs)"
    using assms(3) p by (simp add: asset_output_encode_def Let_def tlv_push_def tlv_record_defs)
  have "length (encode_proof sha txl p) \<le> 4000000"
    using slot_length [of 2 _ ?xs "[]"] assms(4) bs by simp
  then have "decode_proof sha on_curve txl (encode_proof sha txl p) = Ok p"
    using assms(1,2) p by (intro proof_codec) (simp_all add: wf_output_def)
  moreover have "tlv_decode bs = Ok (of_slots ?xs)" unfolding bs by (rule tlv_decode_slots) (use assms(4) bs in simp_all)
  ultimately show ?thesis
    using assms(2) p by (cases out) (simp add: asset_output_decode_def wf_output_def ok_or_def as_u64_def)
qed

lemma asset_output_list_codec:
  assumes "sha_32 sha" "\<forall>out \<in> set outs. wf_output sha on_curve txl out" "length outs \<le> 2048"
    and "encode_asset_output_list sha txl outs = Ok bs" "length bs \<le> 4000000"
  shows "decode_asset_output_list sha on_curve txl bs = Ok outs"
proof -
  obtain bss where bss: "map_res (asset_output_encode sha txl) outs = Ok bss" "bs = encode_items bss"
    using assms(4) by (cases "map_res (asset_output_encode sha txl) outs") (auto simp: encode_asset_output_list_def)
  have "list_all2 (\<lambda>out bs. asset_output_decode sha on_curve txl bs = Ok out) outs bss"
  proof (rule list.rel_mono_strong [OF map_res_Ok [THEN iffD1, OF bss(1)]])
    fix out b assume "out \<in> set outs" "b \<in> set bss" "asset_output_encode sha txl out = Ok b"
    moreover from this(2) have "length b \<le> 4000000" using item_le [of b bss] assms(5) bss(2) by simp
    ultimately show "asset_output_decode sha on_curve txl b = Ok out" using assms(1,2) by (intro asset_output_codec) auto
  qed
  then show ?thesis
    using blob_reader.decode_items_list [of "asset_output_decode sha on_curve txl" outs bss MAX_NUM_OUTPUTS] assms(3,5) bss(2)
    by (simp add: decode_asset_output_list_def MAX_NUM_OUTPUTS_def)
qed

lemma htlc_list_codec:
  assumes "sha_32 sha" "\<forall>out \<in> set outs. wf_output sha on_curve txl out" "length outs \<le> 2048"
    and "htlc_list_encode sha txl outs = Ok bs" "length bs \<le> 4000000"
  shows "htlc_list_decode sha on_curve txl bs = Ok outs"
proof -
  obtain v where v: "encode_asset_output_list sha txl outs = Ok v" "bs = tlv_encode (of_slots [(0, Some v)])"
    using assms(4) by (cases "encode_asset_output_list sha txl outs") (auto simp: htlc_list_encode_def tlv_push_def)
  have "length v \<le> 4000000" using slot_length [of 0 v "[(0, Some v)]" "[]"] assms(5) v(2) by simp
  moreover have "tlv_decode bs = Ok (of_slots [(0, Some v)])" unfolding v(2) by (rule tlv_decode_slots) (use assms(5) v(2) in simp_all)
  ultimately show ?thesis
    using asset_output_list_codec [OF assms(1-3) v(1)] by (simp add: htlc_list_decode_def ok_or_def)
qed

definition wf_htlc_assets :: "hash_fun \<Rightarrow> (SerializedKey \<Rightarrow> bool) \<Rightarrow> TxLib \<Rightarrow> HtlcAssetOutputs \<Rightarrow> bool" where
  "wf_htlc_assets sha on_curve txl m \<longleftrightarrow> btree_sorted m \<and> length m \<le> 966
     \<and> (\<forall>(k, outs) \<in> set m. length outs \<le> 2048 \<and> (\<forall>out \<in> set outs. wf_output sha on_curve txl out))"

lemma htlc_assets_codec:
  assumes "sha_32 sha" "wf_htlc_assets sha on_curve txl m"
    and "encode_htlc_asset_outputs sha txl m = Ok bs" "length bs \<le> 4000000"
  shows "decode_htlc_asset_outputs sha on_curve txl bs = Ok m"
proof -
  let ?enc = "\<lambda>(k, outputs). map_ok (\<lambda>bs. (k :: u64, bs)) (htlc_list_encode sha txl outputs)"
  obtain es where es: "map_res ?enc m = Ok es" "bs = encode_entries es"
    using assms(3) by (cases "map_res ?enc m") (auto simp: encode_htlc_asset_outputs_def)
  have "list_all2 (\<lambda>(k, x) (k', bs). k = k' \<and> htlc_list_decode sha on_curve txl bs = Ok x) m es"
  proof (rule list.rel_mono_strong [OF map_res_Ok [THEN iffD1, OF es(1)]])
    fix e f assume ef: "e \<in> set m" "f \<in> set es" "?enc e = Ok f"
    obtain k outs where e: "e = (k, outs)" by (cases e)
    then obtain b where b: "htlc_list_encode sha txl outs = Ok b" "f = (k, b)"
      using ef(3) by (cases "htlc_list_encode sha txl outs") auto
    have "length b \<le> 4000000" using entry_le [of k b es] ef(2) b(2) assms(4) es(2) by simp
    then have "htlc_list_decode sha on_curve txl b = Ok outs"
      using assms(1,2) ef(1) e b(1) by (intro htlc_list_codec) (auto simp: wf_htlc_assets_def)
    then show "(case e of (k, x) \<Rightarrow> \<lambda>(k', bs). k = k' \<and> htlc_list_decode sha on_curve txl bs = Ok x) f"
      using e b by simp
  qed
  then show ?thesis
    using blob_reader.decode_entries_map [of "htlc_list_decode sha on_curve txl" m es MAX_NUM_HTLCS] assms(2,4) es(2)
    by (simp add: decode_htlc_asset_outputs_def MAX_NUM_HTLCS_def wf_htlc_assets_def)
qed


lemma tap_leaf_codec:
  assumes "length (tap_leaf_encode l) < 2 ^ 64"
  shows "tap_leaf_decode (tap_leaf_encode l) = Ok l"
proof -
  let ?n = "of_nat (length (tl_script l)) :: u64"
  have n: "unat ?n = length (tl_script l)"
    using assms by (simp add: tap_leaf_encode_def write_inline_var_bytes_def unat_of_nat)
  have enc: "tap_leaf_encode l = [tl_version l] @ encode_bigsize ?n @ write_inline_var_bytes [] (tl_script l)"
    unfolding tap_leaf_encode_def by (simp add: write_inline_prefix [of "tl_version l # encode_bigsize ?n"])
  have v: "read_varint (tap_leaf_encode l) 1 = Ok (?n, 1 + length (encode_bigsize ?n))"
    using read_varint_at [of "[tl_version l]" ?n "write_inline_var_bytes [] (tl_script l)"] by (simp add: enc)
  have "read_inline_var_bytes (([tl_version l] @ encode_bigsize ?n) @ write_inline_var_bytes [] (tl_script l) @ [])
      (length ([tl_version l] @ encode_bigsize ?n))
    = Ok (tl_script l, length (([tl_version l] @ encode_bigsize ?n) @ write_inline_var_bytes [] (tl_script l)))"
    by (rule read_inline_at) (use assms enc in simp)
  then have i: "read_inline_var_bytes (tap_leaf_encode l) (1 + length (encode_bigsize ?n)) = Ok (tl_script l, length (tap_leaf_encode l))"
    by (simp add: enc)
  have "tap_leaf_encode l \<noteq> []" "tap_leaf_encode l ! 0 = tl_version l" by (simp_all add: enc)
  with v i n show ?thesis
    by (cases l) (simp add: tap_leaf_decode_def tap_leaf_decode_from_def)
qed

lemma leaf_slot:
  assumes "distinct (map fst xs)" "slot_get xs t = map_option tap_leaf_encode leaf"
    and "\<And>l. leaf = Some l \<Longrightarrow> length (tap_leaf_encode l) < 2 ^ 64"
  shows "leaf_or_none (of_slots xs) t = Ok leaf"
  using assms by (cases leaf) (simp_all add: leaf_or_none_def get_or_def tlv_get_of_slots tap_leaf_codec)

lemma htlc_aux_leaf_codec:
  assumes "length (htlc_aux_leaf_encode l) \<le> 4000000"
  shows "htlc_aux_leaf_decode (htlc_aux_leaf_encode l) = Ok l"
proof -
  let ?xs = "[(0, map_option tap_leaf_encode (hal_aux_leaf l)), (1, map_option tap_leaf_encode (second_level_leaf l))]"
  have enc: "htlc_aux_leaf_encode l = tlv_encode (of_slots ?xs)"
    by (simp add: htlc_aux_leaf_encode_def push_opt_def tlv_push_def tlv_record_defs split: option.splits)
  have small: "length x \<le> 4000000" if "(t, Some x) \<in> set ?xs" for t :: u64 and x
    using slot_length [OF that, of "[]"] assms enc by simp
  have "tlv_decode (htlc_aux_leaf_encode l) = Ok (of_slots ?xs)"
    unfolding enc by (rule tlv_decode_slots) (use assms enc in simp_all)
  moreover have "leaf_or_none (of_slots ?xs) 0 = Ok (hal_aux_leaf l)"
    by (rule leaf_slot) (use small [of 0] in \<open>fastforce simp: slot_get_def\<close>)+
  moreover have "leaf_or_none (of_slots ?xs) 1 = Ok (second_level_leaf l)"
    by (rule leaf_slot) (use small [of 1] in \<open>fastforce simp: slot_get_def\<close>)+
  ultimately show ?thesis unfolding htlc_aux_leaf_decode_def by (cases l) simp
qed

lemma htlc_aux_leaf_map_codec:
  assumes "btree_sorted m" "length m \<le> 966" "length (encode_htlc_aux_leaf_map m) \<le> 4000000"
  shows "decode_htlc_aux_leaf_map (encode_htlc_aux_leaf_map m) = Ok m"
proof -
  let ?es = "map (\<lambda>(k, leaf). (k, htlc_aux_leaf_encode leaf)) m"
  have "list_all2 (\<lambda>(k, x) (k', bs). k = k' \<and> htlc_aux_leaf_decode bs = Ok x) m ?es"
  proof (clarsimp simp: list_all2_map2 list_all2_same)
    fix k leaf assume "(k, leaf) \<in> set m"
    then have "(k, htlc_aux_leaf_encode leaf) \<in> set ?es" by force
    then have "length (htlc_aux_leaf_encode leaf) \<le> 4000000"
      using entry_le assms(3) unfolding encode_htlc_aux_leaf_map_def by fastforce
    then show "htlc_aux_leaf_decode (htlc_aux_leaf_encode leaf) = Ok leaf" by (rule htlc_aux_leaf_codec)
  qed
  from blob_reader.decode_entries_map [OF this, of MAX_NUM_HTLCS] assms show ?thesis
    by (simp add: decode_htlc_aux_leaf_map_def encode_htlc_aux_leaf_map_def MAX_NUM_HTLCS_def)
qed

definition wf_aux_leaves :: "AuxLeaves \<Rightarrow> bool" where
  "wf_aux_leaves l \<longleftrightarrow> (\<forall>m \<in> {outgoing_htlc_leaves l, incoming_htlc_leaves l}. btree_sorted m \<and> length m \<le> 966)"

lemma aux_leaves_codec:
  assumes "wf_aux_leaves l" "length (aux_leaves_encode l) \<le> 4000000"
  shows "aux_leaves_decode (aux_leaves_encode l) = Ok l"
proof -
  let ?xs = "[(0, map_option tap_leaf_encode (local_aux_leaf l)), (1, map_option tap_leaf_encode (remote_aux_leaf l)),
    (2, Some (encode_htlc_aux_leaf_map (outgoing_htlc_leaves l))), (3, Some (encode_htlc_aux_leaf_map (incoming_htlc_leaves l)))]"
  have enc: "aux_leaves_encode l = tlv_encode (of_slots ?xs)"
    by (simp add: aux_leaves_encode_def push_opt_def tlv_push_def tlv_record_defs Let_def split: option.splits)
  have small: "length x \<le> 4000000" if "(t, Some x) \<in> set ?xs" for t :: u64 and x
    using slot_length [OF that, of "[]"] assms(2) enc by simp
  have d: "tlv_decode (aux_leaves_encode l) = Ok (of_slots ?xs)"
    unfolding enc by (rule tlv_decode_slots) (use assms(2) enc in simp_all)
  have l0: "leaf_or_none (of_slots ?xs) 0 = Ok (local_aux_leaf l)"
    by (rule leaf_slot) (use small [of 0] in \<open>fastforce simp: slot_get_def\<close>)+
  have l1: "leaf_or_none (of_slots ?xs) 1 = Ok (remote_aux_leaf l)"
    by (rule leaf_slot) (use small [of 1] in \<open>fastforce simp: slot_get_def\<close>)+
  have get: "get_or (of_slots ?xs) 2 [] f = f (tlv_new 2 (encode_htlc_aux_leaf_map (outgoing_htlc_leaves l)))"
    "get_or (of_slots ?xs) 3 [] f = f (tlv_new 3 (encode_htlc_aux_leaf_map (incoming_htlc_leaves l)))" 
    for f :: "TlvRecord \<Rightarrow> ((u64 \<times> HtlcAuxLeaf) list, BlobError) result"
    unfolding get_or_def by (subst tlv_get_of_slots; simp add: slot_get_def)+
  have m: "decode_htlc_aux_leaf_map (encode_htlc_aux_leaf_map (outgoing_htlc_leaves l)) = Ok (outgoing_htlc_leaves l)"
    "decode_htlc_aux_leaf_map (encode_htlc_aux_leaf_map (incoming_htlc_leaves l)) = Ok (incoming_htlc_leaves l)"
    using small [of 2] small [of 3] assms(1) by (auto simp: wf_aux_leaves_def intro!: htlc_aux_leaf_map_codec)
  show ?thesis
    unfolding aux_leaves_decode_def d map_err.simps res_bind.simps l0 l1 get tlv_new_fields m by simp
qed


definition wf_outputs :: "hash_fun \<Rightarrow> (SerializedKey \<Rightarrow> bool) \<Rightarrow> TxLib \<Rightarrow> AssetOutput list \<Rightarrow> bool" where
  "wf_outputs sha on_curve txl outs \<longleftrightarrow> length outs \<le> 2048 \<and> (\<forall>out \<in> set outs. wf_output sha on_curve txl out)"

definition wf_commitment_blob :: "hash_fun \<Rightarrow> (SerializedKey \<Rightarrow> bool) \<Rightarrow> TxLib \<Rightarrow> CommitmentBlob \<Rightarrow> bool" where
  "wf_commitment_blob sha on_curve txl b \<longleftrightarrow>
     wf_outputs sha on_curve txl (local_assets b) \<and> wf_outputs sha on_curve txl (remote_assets b)
     \<and> wf_htlc_assets sha on_curve txl (outgoing_htlc_assets b) \<and> wf_htlc_assets sha on_curve txl (incoming_htlc_assets b)
     \<and> wf_aux_leaves (aux_leaves b)"

lemma commitment_blob_codec:
  assumes "sha_32 sha" "wf_commitment_blob sha on_curve txl b" "commitment_blob_encode sha txl b = Ok bs" "length bs \<le> 4000000"
  shows "commitment_blob_decode sha on_curve txl bs = Ok b"
proof -
  obtain loc rem outg inc where e: "encode_asset_output_list sha txl (local_assets b) = Ok loc"
    "encode_asset_output_list sha txl (remote_assets b) = Ok rem"
    "encode_htlc_asset_outputs sha txl (outgoing_htlc_assets b) = Ok outg"
    "encode_htlc_asset_outputs sha txl (incoming_htlc_assets b) = Ok inc"
    using assms(3) by (auto simp: commitment_blob_encode_def res_simps)
  let ?w = "write_inline_var_bytes [] (aux_leaves_encode (aux_leaves b))"
  let ?xs = "[(0, Some loc), (1, Some rem), (2, Some outg), (3, Some inc), (4, Some ?w), (5, Some [if stxo b then 1 else 0])]"
  have bs: "bs = tlv_encode (of_slots ?xs)"
    using assms(3) e by (simp add: commitment_blob_encode_def tlv_push_def tlv_record_defs Let_def)
  have small: "length x \<le> 4000000" if "(t, Some x) \<in> set ?xs" for t :: u64 and x
    using slot_length [OF that, of "[]"] assms(4) bs by simp
  have d: "tlv_decode bs = Ok (of_slots ?xs)"
    unfolding bs by (rule tlv_decode_slots) (use assms(4) bs in simp_all)
  have get: "get_or (of_slots ?xs) t df f = f (tlv_new t x)" if "(t, Some x) \<in> set ?xs"
    for t x df and f :: "TlvRecord \<Rightarrow> ('a, BlobError) result"
    unfolding get_or_def using that by (subst tlv_get_of_slots) (auto simp: slot_get_def)
  have outs: "decode_asset_output_list sha on_curve txl loc = Ok (local_assets b)"
    "decode_asset_output_list sha on_curve txl rem = Ok (remote_assets b)"
    using asset_output_list_codec [OF assms(1)] e(1,2) small [of 0 loc] small [of 1 rem] assms(2)
    by (auto simp: wf_commitment_blob_def wf_outputs_def)
  have htlcs: "decode_htlc_asset_outputs sha on_curve txl outg = Ok (outgoing_htlc_assets b)"
    "decode_htlc_asset_outputs sha on_curve txl inc = Ok (incoming_htlc_assets b)"
    using htlc_assets_codec [OF assms(1)] e(3,4) small [of 2 outg] small [of 3 inc] assms(2)
    by (auto simp: wf_commitment_blob_def)
  have w: "length ?w \<le> 4000000" using small [of 4 ?w] by simp
  then have r: "read_inline_var_bytes ?w 0 = Ok (aux_leaves_encode (aux_leaves b), length ?w)"
    using read_inline_at [of "[]" "aux_leaves_encode (aux_leaves b)" "[]"] by simp
  have "length (aux_leaves_encode (aux_leaves b)) \<le> 4000000" using w by (simp add: write_inline_var_bytes_def)
  then have leaves: "aux_leaves_decode (aux_leaves_encode (aux_leaves b)) = Ok (aux_leaves b)"
    using assms(2) by (intro aux_leaves_codec) (simp_all add: wf_commitment_blob_def)
  show ?thesis
    unfolding commitment_blob_decode_def d map_err.simps res_bind.simps
    by (simp add: get [of 0 loc] get [of 1 rem] get [of 2 outg] get [of 3 inc] get [of 4 ?w]
        get [of 5 "[if stxo b then 1 else 0]"] outs htlcs r leaves as_u8_def del: of_slots.simps)
qed

lemma channel_blob_codec:
  assumes "sha_32 sha" "wf_outputs sha on_curve txl (funded_assets b)" "pred_option (\<lambda>k. length k = 33) (cb_group_key b)"
    and "channel_blob_encode sha txl b = Ok bs" "length bs \<le> 4000000"
  shows "channel_blob_decode sha on_curve txl bs = Ok b"
proof -
  obtain fs where e: "encode_asset_output_list sha txl (funded_assets b) = Ok fs"
    using assms(4) by (auto simp: channel_blob_encode_def res_simps)
  let ?xs = "[(0, Some fs), (1, Some [decimal_display b]), (2, cb_group_key b)]"
  have bs: "bs = tlv_encode (of_slots ?xs)"
    using assms(4) e by (simp add: channel_blob_encode_def push_opt_def tlv_push_def tlv_record_defs Let_def split: option.splits)
  have "length fs \<le> 4000000" using slot_length [of 0 fs ?xs "[]"] assms(5) bs by simp
  then have "decode_asset_output_list sha on_curve txl fs = Ok (funded_assets b)"
    using asset_output_list_codec [OF assms(1) _ _ e] assms(2) by (simp add: wf_outputs_def)
  moreover have "tlv_decode bs = Ok (of_slots ?xs)"
    unfolding bs by (rule tlv_decode_slots) (use assms(5) bs in simp_all)
  ultimately show ?thesis
    using assms(3)
    by (cases b; cases "cb_group_key b") (simp_all add: channel_blob_decode_def get_or_def as_u8_def)
qed

section \<open>The state of a commitment survives storage\<close>

lemma outputs_encode:
  assumes "\<forall>out \<in> set outs. ao_proof out \<noteq> None"
  shows "\<exists>bs. encode_asset_output_list sha txl outs = Ok bs"
proof -
  have "\<exists>y. asset_output_encode sha txl out = Ok y" if "out \<in> set outs" for out
    using assms that by (auto simp: asset_output_encode_def Let_def)
  then show ?thesis using map_res_total [of outs "asset_output_encode sha txl"] by (auto simp: encode_asset_output_list_def)
qed

lemma htlc_outputs_encode:
  assumes "\<forall>outs \<in> snd ` set m. \<forall>out \<in> set outs. ao_proof out \<noteq> None"
  shows "\<exists>bs. encode_htlc_asset_outputs sha txl m = Ok bs"
proof -
  have "\<exists>e. (case x of (k, outputs) \<Rightarrow> map_ok (\<lambda>bs. (k, bs)) (htlc_list_encode sha txl outputs)) = Ok e" if "x \<in> set m" for x
    using outputs_encode [of "snd x" sha txl] assms that by (cases x) (fastforce simp: htlc_list_encode_def)
  then show ?thesis
    using map_res_total [of m "\<lambda>(k, outputs). map_ok (\<lambda>bs. (k, bs)) (htlc_list_encode sha txl outputs)"]
    by (auto simp: encode_htlc_asset_outputs_def)
qed

lemma commitment_blob_encodes:
  assumes "\<forall>outs \<in> {local_assets b, remote_assets b} \<union> snd ` set (outgoing_htlc_assets b @ incoming_htlc_assets b).
      \<forall>out \<in> set outs. ao_proof out \<noteq> None"
  shows "\<exists>bs. commitment_blob_encode sha txl b = Ok bs"
proof -
  obtain loc rem outg inc where "encode_asset_output_list sha txl (local_assets b) = Ok loc"
    "encode_asset_output_list sha txl (remote_assets b) = Ok rem"
    "encode_htlc_asset_outputs sha txl (outgoing_htlc_assets b) = Ok outg"
    "encode_htlc_asset_outputs sha txl (incoming_htlc_assets b) = Ok inc"
    using outputs_encode [of "local_assets b" sha txl] outputs_encode [of "remote_assets b" sha txl]
      htlc_outputs_encode [of "outgoing_htlc_assets b" sha txl] htlc_outputs_encode [of "incoming_htlc_assets b" sha txl] assms
    by (auto simp: ball_Un image_Un)
  then show ?thesis by (simp add: commitment_blob_encode_def Let_def)
qed

definition demo_leaf :: TapLeaf where
  "demo_leaf = \<lparr>tl_version = 192, tl_script = [1, 2, 3]\<rparr>"

lemma sum_list_insort: "(\<Sum>y\<leftarrow>insort_key g x xs. f y) = f x + (\<Sum>y\<leftarrow>xs. f y :: nat)"
  by (induction xs) simp_all

lemma sum_list_sort: "(\<Sum>y\<leftarrow>sort_key g xs. f y) = (\<Sum>y\<leftarrow>xs. f y :: nat)"
  by (induction xs) (simp_all add: sum_list_insort)

lemma tlv_encode_le: "length (tlv_encode s) \<le> (\<Sum>r\<leftarrow>s. 18 + length (tlv_value r))"
proof -
  have "length (encode_record r) \<le> 18 + length (tlv_value r)" for r
    using bigsize_len_le [of "type_num r"] bigsize_len_le [of "of_nat (length (tlv_value r))"] by (simp add: encode_record_def del: bigsize_len_le_9)
  then have "length (tlv_encode s) \<le> (\<Sum>r\<leftarrow>sort_key type_num s. 18 + length (tlv_value r))"
    unfolding tlv_encode_def length_concat map_map by (intro sum_list_mono) simp
  also have "\<dots> = (\<Sum>r\<leftarrow>s. 18 + length (tlv_value r))"
    by (rule sum_list_sort)
  finally show ?thesis .
qed

lemma write_inline_le: "length (write_inline_var_bytes buf bs) \<le> length buf + 9 + length bs"
  using bigsize_len_le [of "of_nat (length bs)"] by (simp add: write_inline_var_bytes_def)

lemma encode_item_le: "length (encode_items [bs]) \<le> 18 + length bs"
  using write_inline_le [of "[]" bs] bigsize_len_le [of 1] by (simp add: encode_items_def del: bigsize_len_le_9)

lemma encode_entry_le: "length (encode_entries [(k, bs)]) \<le> 27 + length bs"
  using write_inline_le [of "encode_bigsize k" bs] bigsize_len_le [of 1] bigsize_len_le [of k] by (simp add: encode_entries_def del: bigsize_len_le_9)

lemma tap_leaf_le: "length (tap_leaf_encode l) \<le> 19 + length (tl_script l)"
  using write_inline_le [of "tl_version l # encode_bigsize (of_nat (length (tl_script l)))" "tl_script l"]
    bigsize_len_le [of "of_nat (length (tl_script l))"] by (simp add: tap_leaf_encode_def del: bigsize_len_le_9)

lemma demo_blob_small:
  assumes "length (encode_proof sha txl p) \<le> 10000"
    and "commitment_blob_encode sha txl (commitment_blob_default\<lparr>
      local_assets := [\<lparr>ao_asset_id = replicate 32 1, ao_amount = 5, ao_script_key = k, ao_proof = Some p\<rparr>],
      aux_leaves := aux_leaves_default\<lparr>local_aux_leaf := Some demo_leaf,
        incoming_htlc_leaves := [(7, \<lparr>hal_aux_leaf = Some demo_leaf, second_level_leaf = None\<rparr>)]\<rparr>\<rparr>) = Ok bs"
  shows "length bs \<le> 4000000"
proof -
  let ?out = "tlv_encode [tlv_new 0 (replicate 32 1), tlv_new 1 (u64_be 5), tlv_new 2 (encode_proof sha txl p)]"
  let ?leaf = "tap_leaf_encode demo_leaf"
  let ?htlc = "tlv_encode [tlv_new 0 ?leaf]"
  let ?leaves = "tlv_encode [tlv_new 0 ?leaf, tlv_new 2 (encode_entries []), tlv_new 3 (encode_entries [(7, ?htlc)])]"
  have bs: "bs = tlv_encode [tlv_new 0 (encode_items [?out]), tlv_new 1 (encode_items []), tlv_new 2 (encode_entries []),
      tlv_new 3 (encode_entries []), tlv_new 4 (write_inline_var_bytes [] ?leaves), tlv_new 5 [0]]"
    using assms(2) by (simp add: commitment_blob_encode_def commitment_blob_default_def encode_asset_output_list_def
        asset_output_encode_def encode_htlc_asset_outputs_def Let_def tlv_push_def tlv_record_defs aux_leaves_encode_def
        encode_htlc_aux_leaf_map_def htlc_aux_leaf_encode_def push_opt_def aux_leaves_default_def)
  have empty: "length (encode_items []) \<le> 9" "length (encode_entries []) \<le> 9"
    using bigsize_len_le [of 0] by (simp_all add: encode_items_def encode_entries_def)
  have leaf: "length ?leaf \<le> 22" using tap_leaf_le [of demo_leaf] by (simp add: demo_leaf_def)
  have "length ?out \<le> 10094"
    using tlv_encode_le [of "[tlv_new 0 (replicate 32 1), tlv_new 1 (u64_be 5), tlv_new 2 (encode_proof sha txl p)]"] assms(1) by simp
  moreover have "length ?htlc \<le> 40" using tlv_encode_le [of "[tlv_new 0 ?leaf]"] leaf by simp
  then have "length (encode_entries [(7, ?htlc)]) \<le> 67" using encode_entry_le [of 7 ?htlc] by simp
  then have "length ?leaves \<le> 152"
    using tlv_encode_le [of "[tlv_new 0 ?leaf, tlv_new 2 (encode_entries []), tlv_new 3 (encode_entries [(7, ?htlc)])]"] leaf empty
    by simp
  ultimately show ?thesis
    unfolding bs using tlv_encode_le [of "[tlv_new 0 (encode_items [?out]), tlv_new 1 (encode_items []), tlv_new 2 (encode_entries []),
      tlv_new 3 (encode_entries []), tlv_new 4 (write_inline_var_bytes [] ?leaves), tlv_new 5 [0]]"]
      encode_item_le [of ?out] write_inline_le [of "[]" ?leaves] empty by simp
qed

text \<open>C34: the asset state of a channel commitment survives its storage. A commitment blob whose outputs carry well-formed
  proofs for their script keys, whose HTLC maps are ordered and within the limits and whose encoding is not larger than 4 MB decodes
  to itself: the local and remote outputs with their proofs, the outputs of every HTLC, the auxiliary leaves with the second-level
  leaves of the HTLCs and the STXO flag. Only a blob with an output without a proof has no encoding.\<close>

theorem commitment_blob_roundtrip:
  assumes "sha_32 sha" "wf_commitment_blob sha on_curve txl b"
    and "\<forall>outs \<in> {local_assets b, remote_assets b} \<union> snd ` set (outgoing_htlc_assets b @ incoming_htlc_assets b).
      \<forall>out \<in> set outs. ao_proof out \<noteq> None"
  shows "\<exists>bs. commitment_blob_encode sha txl b = Ok bs
    \<and> (length bs \<le> 4000000 \<longrightarrow> commitment_blob_decode sha on_curve txl bs = Ok b)"
proof -
  from commitment_blob_encodes [OF assms(3)] obtain bs where bs: "commitment_blob_encode sha txl b = Ok bs" by blast
  with commitment_blob_codec [OF assms(1,2) bs] show ?thesis by blast
qed

theorem commitment_blob_roundtrip_witness:
  "\<exists>tx out bs. ao_proof out \<noteq> None
    \<and> commitment_blob_decode demo_hash (\<lambda>_. True) (demo_txlib tx) bs
      = Ok (commitment_blob_default\<lparr>local_assets := [out],
          aux_leaves := aux_leaves_default\<lparr>local_aux_leaf := Some demo_leaf,
            incoming_htlc_leaves := [(7, \<lparr>hal_aux_leaf = Some demo_leaf, second_level_leaf = None\<rparr>)]\<rparr>\<rparr>)"
proof -
  obtain tx p s where "verify_file (demo_env tx) demo_ctx options_default
      (append_proof demo_hash (encode_proof demo_hash (demo_txlib tx) p) file_new) = Ok s"
    and p: "wf_proof demo_hash (\<lambda>_. True) (demo_txlib tx) p" "length (encode_proof demo_hash (demo_txlib tx) p) \<le> 10000"
      "asset p = demo_coin" by (rule demo_file)
  let ?out = "\<lparr>ao_asset_id = replicate 32 1, ao_amount = 5, ao_script_key = sk_pub_key (script_key (asset p)), ao_proof = Some p\<rparr>"
  let ?b = "commitment_blob_default\<lparr>local_assets := [?out],
    aux_leaves := aux_leaves_default\<lparr>local_aux_leaf := Some demo_leaf,
      incoming_htlc_leaves := [(7, \<lparr>hal_aux_leaf = Some demo_leaf, second_level_leaf = None\<rparr>)]\<rparr>\<rparr>"
  have "wf_commitment_blob demo_hash (\<lambda>_. True) (demo_txlib tx) ?b"
    using p(1) by (simp add: wf_commitment_blob_def wf_outputs_def wf_output_def wf_htlc_assets_def wf_aux_leaves_def
        commitment_blob_default_def aux_leaves_default_def btree_sorted_def)
  from commitment_blob_roundtrip [OF sha_32_demo_hash this] obtain bs where
    bs: "commitment_blob_encode demo_hash (demo_txlib tx) ?b = Ok bs"
      "length bs \<le> 4000000 \<longrightarrow> commitment_blob_decode demo_hash (\<lambda>_. True) (demo_txlib tx) bs = Ok ?b"
    by (auto simp: commitment_blob_default_def)
  have "length bs \<le> 4000000" using bs(1) demo_blob_small [OF p(2)] by auto
  with bs(2) show ?thesis by (intro exI [of _ tx] exI [of _ ?out] exI [of _ bs]) simp
qed

end
