(* ===== verification/Address.thy ===== *)
theory Address
  imports Asset_Codec Group_Key Commitment
begin

text \<open>
  Taproot Asset addresses: \<^verbatim>\<open>tap-primitives/src/address/mod.rs\<close>. An address is a TLV payload inside a
  Bech32m string whose human-readable part names the network. The Bech32 codec of the bech32 crate is a parameter, with the law
  that it reads what it has written. A Rust string is its UTF-8 bytes; human-readable parts and encoded addresses
  are ASCII strings.
\<close>

section \<open>Types\<close>

definition AUTH_MAILBOX_UNI_RPC_COURIER_TYPE :: bytes where
  "AUTH_MAILBOX_UNI_RPC_COURIER_TYPE = ascii ''authmailbox+universerpc''"

datatype AddressError =
    UnknownHrp string
  | InvalidPayload string
  | MissingField string
  | InvalidFieldLength string nat nat
  | Bech32Error
  | UnknownAddressVersion u8
  | InvalidAmountCollectible
  | InvalidAmountNormal
  | UnsupportedAssetType
  | InvalidProofCourierAddr string

datatype AddressVersion = AddressV0 | AddressV1 | AddressV2

definition address_version_from_u8 :: "u8 \<Rightarrow> (AddressVersion, AddressError) result" where
  "address_version_from_u8 v =
     (if v = 0 then Ok AddressV0 else if v = 1 then Ok AddressV1 else if v = 2 then Ok AddressV2
      else Err (UnknownAddressVersion v))"

fun address_version_to_u8 :: "AddressVersion \<Rightarrow> u8" where
  "address_version_to_u8 AddressV0 = 0"
| "address_version_to_u8 AddressV1 = 1"
| "address_version_to_u8 AddressV2 = 2"

datatype TapNetwork = Mainnet | Testnet | Regtest | Simnet | Testnet4 | Signet

fun network_hrp :: "TapNetwork \<Rightarrow> string" where
  "network_hrp Mainnet = ''tapbc''"
| "network_hrp Testnet = ''taptb''"
| "network_hrp Regtest = ''taprt''"
| "network_hrp Simnet = ''tapsb''"
| "network_hrp Testnet4 = ''taptb''"
| "network_hrp Signet = ''taptb''"

definition network_from_hrp :: "string \<Rightarrow> (TapNetwork, AddressError) result" where
  "network_from_hrp hrp =
     (if hrp = ''tapbc'' then Ok Mainnet
      else if hrp = ''taptb'' then Ok Testnet
      else if hrp = ''taprt'' then Ok Regtest
      else if hrp = ''tapsb'' then Ok Simnet
      else Err (UnknownHrp hrp))"

record TapAddress =
  ad_version :: AddressVersion
  ad_asset_version :: u8
  ad_asset_id :: "AssetId option"
  ad_script_key :: SerializedKey
  ad_internal_key :: SerializedKey
  ad_amount :: u64
  ad_network :: TapNetwork
  ad_proof_courier_addr :: "bytes option"
  ad_group_key :: "SerializedKey option"
  ad_tapscript_sibling :: "bytes option"
  ad_unknown_odd_types :: "(u64 \<times> bytes) list"

record NewAddressParams =
  np_version :: AddressVersion
  np_asset_id :: "AssetId option"
  np_group_key :: "SerializedKey option"
  np_script_key :: SerializedKey
  np_internal_key :: SerializedKey
  np_amount :: u64
  np_asset_type :: AssetType
  np_network :: TapNetwork
  np_proof_courier_addr :: "bytes option"
  np_tapscript_sibling :: "bytes option"

text \<open>The bech32 crate: parsing of a human-readable part, encoding with the Bech32m checksum, decoding.\<close>

record Bech32Lib =
  hrp_parse :: "string \<Rightarrow> bool"
  bech32m_encode :: "string \<Rightarrow> bytes \<Rightarrow> string option"
  bech32_decode :: "string \<Rightarrow> (string \<times> bytes) option"

definition bech32_reads_back :: "Bech32Lib \<Rightarrow> bool" where
  "bech32_reads_back lib \<longleftrightarrow>
     (\<forall>hrp payload s. bech32m_encode lib hrp payload = Some s \<longrightarrow> bech32_decode lib s = Some (hrp, payload))"

section \<open>Creation\<close>

text \<open>\<^verbatim>\<open>str::split_once("://")\<close>, its first half.\<close>

fun split_scheme :: "bytes \<Rightarrow> bytes option" where
  "split_scheme s =
     (if take 3 s = ascii ''://'' then Some []
      else case s of [] \<Rightarrow> None | c # cs \<Rightarrow> map_option (\<lambda>scheme. c # scheme) (split_scheme cs))"

definition check_asset_type :: "NewAddressParams \<Rightarrow> (unit, AddressError) result" where
  "check_asset_type params =
     (case np_asset_type params of
        Collectible \<Rightarrow> if np_amount params \<noteq> 1 then Err InvalidAmountCollectible else Ok ()
      | Normal \<Rightarrow>
          if np_amount params = 0 \<and> np_version params \<noteq> AddressV2 then Err InvalidAmountNormal else Ok ()
      | UnknownType _ \<Rightarrow> Err UnsupportedAssetType)"

definition check_courier :: "NewAddressParams \<Rightarrow> (AssetId option, AddressError) result" where
  "check_courier params =
     (if np_version params = AddressV2 then
        (case np_proof_courier_addr params of
           None \<Rightarrow> Err (InvalidProofCourierAddr ''address version 2 must use the proof courier type'')
         | Some courier \<Rightarrow>
             if split_scheme courier \<noteq> Some AUTH_MAILBOX_UNI_RPC_COURIER_TYPE then
               Err (InvalidProofCourierAddr ''address version 2 must use the proof courier type'')
             else Ok (if np_group_key params \<noteq> None then None else np_asset_id params))
      else Ok (np_asset_id params))"

definition address_new :: "NewAddressParams \<Rightarrow> (TapAddress, AddressError) result" where
  "address_new params =
     res_bind (check_asset_type params) (\<lambda>_.
     res_bind (check_courier params) (\<lambda>aid.
       if aid = None \<and> \<not> (np_version params = AddressV2 \<and> np_group_key params \<noteq> None) then
         Err (MissingField ''asset_id'')
       else Ok \<lparr>ad_version = np_version params, ad_asset_version = 0, ad_asset_id = aid,
         ad_script_key = np_script_key params, ad_internal_key = np_internal_key params,
         ad_amount = np_amount params, ad_network = np_network params,
         ad_proof_courier_addr = np_proof_courier_addr params, ad_group_key = np_group_key params,
         ad_tapscript_sibling = np_tapscript_sibling params, ad_unknown_odd_types = []\<rparr>))"

section \<open>Encoding\<close>

definition push_tlv :: "bytes \<Rightarrow> u8 \<Rightarrow> bytes \<Rightarrow> bytes" where
  "push_tlv buf typ val = buf @ encode_bigsize (ucast typ) @ encode_bigsize (of_nat (length val)) @ val"

definition push_tlv_opt :: "bytes \<Rightarrow> u8 \<Rightarrow> bytes option \<Rightarrow> bytes" where
  "push_tlv_opt buf typ v = (case v of Some val \<Rightarrow> push_tlv buf typ val | None \<Rightarrow> buf)"

definition address_payload :: "TapAddress \<Rightarrow> bytes" where
  "address_payload a =
     (let payload = push_tlv [] 0 [address_version_to_u8 (ad_version a)];
          payload = push_tlv payload 2 [ad_asset_version a];
          payload = push_tlv_opt payload 4 (ad_asset_id a);
          payload = push_tlv_opt payload 5 (ad_group_key a);
          payload = push_tlv payload 6 (ad_script_key a);
          payload = push_tlv payload 8 (ad_internal_key a);
          payload = push_tlv_opt payload 9 (ad_tapscript_sibling a);
          payload = push_tlv payload 10 (encode_bigsize (ad_amount a));
          payload = push_tlv_opt payload 12 (ad_proof_courier_addr a)
      in foldl (\<lambda>buf (type_num, val).
           buf @ encode_bigsize type_num @ encode_bigsize (of_nat (length val)) @ val) payload (ad_unknown_odd_types a))"

definition address_encode :: "Bech32Lib \<Rightarrow> TapAddress \<Rightarrow> (string, AddressError) result" where
  "address_encode lib a =
     (let payload = address_payload a; hrp = network_hrp (ad_network a)
      in if \<not> hrp_parse lib hrp then Err Bech32Error
         else case bech32m_encode lib hrp payload of Some s \<Rightarrow> Ok s | None \<Rightarrow> Err Bech32Error)"

section \<open>Decoding\<close>

text \<open>The variables of the decoding loop.\<close>

record AddressAcc =
  aa_version :: "AddressVersion option"
  aa_asset_version :: u8
  aa_asset_id :: "AssetId option"
  aa_script_key :: "SerializedKey option"
  aa_internal_key :: "SerializedKey option"
  aa_amount :: u64
  aa_proof_courier_addr :: "bytes option"
  aa_group_key :: "SerializedKey option"
  aa_tapscript_sibling :: "bytes option"
  aa_unknown_odd_types :: "(u64 \<times> bytes) list"

definition address_acc_default :: AddressAcc where
  "address_acc_default = \<lparr>aa_version = None, aa_asset_version = 0, aa_asset_id = None, aa_script_key = None,
     aa_internal_key = None, aa_amount = 0, aa_proof_courier_addr = None, aa_group_key = None,
     aa_tapscript_sibling = None, aa_unknown_odd_types = []\<rparr>"

text \<open>One record, from the offset on: its type and value, and the offset behind it.\<close>

definition next_record :: "bytes \<Rightarrow> nat \<Rightarrow> (TlvRecord \<times> nat, AddressError) result" where
  "next_record payload offset =
     res_bind (map_err (\<lambda>_. InvalidPayload ''bigsize'') (decode_bigsize (drop offset payload))) (\<lambda>(typ, typ_bytes).
       let offset = offset + typ_bytes in
       if length payload \<le> offset then Err (InvalidPayload ''truncated TLV record'')
       else res_bind (map_err (\<lambda>_. InvalidPayload ''bigsize'') (decode_bigsize (drop offset payload)))
         (\<lambda>(len, len_bytes).
           let offset = offset + len_bytes; end = usize_add offset (unat len) in
           if length payload < end then Err (InvalidPayload ''TLV length exceeds payload'')
           else res_bind (slice_of payload offset end) (\<lambda>val. Ok (tlv_new typ val, end))))"

definition check_field_len :: "string \<Rightarrow> nat \<Rightarrow> bytes \<Rightarrow> (unit, AddressError) result" where
  "check_field_len name n val = (if length val \<noteq> n then Err (InvalidFieldLength name n (length val)) else Ok ())"

definition check_key :: "(SerializedKey \<Rightarrow> bool) \<Rightarrow> string \<Rightarrow> bytes \<Rightarrow> (SerializedKey, AddressError) result" where
  "check_key on_curve name val =
     res_bind (check_field_len name 33 val) (\<lambda>_.
       if \<not> validate_on_curve on_curve val then Err (InvalidPayload name) else Ok val)"

definition address_field ::
  "(SerializedKey \<Rightarrow> bool) \<Rightarrow> TlvRecord \<Rightarrow> AddressAcc \<Rightarrow> (AddressAcc, AddressError) result" where
  "address_field on_curve r a =
     (let typ = type_num r; val = tlv_value r in
      if 255 < typ then
        (if typ mod 2 = 0 then Err (InvalidPayload ''unknown even TLV type'')
         else Ok (a\<lparr>aa_unknown_odd_types := btree_insert typ val (aa_unknown_odd_types a)\<rparr>))
      else if typ = 0 then
        res_bind (check_field_len ''version'' 1 val) (\<lambda>_.
          map_ok (\<lambda>v. a\<lparr>aa_version := Some v\<rparr>) (address_version_from_u8 (val ! 0)))
      else if typ = 2 then
        res_bind (check_field_len ''asset_version'' 1 val) (\<lambda>_. Ok (a\<lparr>aa_asset_version := val ! 0\<rparr>))
      else if typ = 4 then
        res_bind (check_field_len ''asset_id'' 32 val) (\<lambda>_. Ok (a\<lparr>aa_asset_id := Some val\<rparr>))
      else if typ = 6 then map_ok (\<lambda>key. a\<lparr>aa_script_key := Some key\<rparr>) (check_key on_curve ''script_key'' val)
      else if typ = 8 then map_ok (\<lambda>key. a\<lparr>aa_internal_key := Some key\<rparr>) (check_key on_curve ''internal_key'' val)
      else if typ = 10 then
        map_ok (\<lambda>(x, _). a\<lparr>aa_amount := x\<rparr>) (map_err (\<lambda>_. InvalidPayload ''bigsize'') (decode_bigsize val))
      else if typ = 12 then
        (if utf8_valid val then Ok (a\<lparr>aa_proof_courier_addr := Some val\<rparr>) else Err (InvalidPayload ''utf8''))
      else if typ = 5 then map_ok (\<lambda>key. a\<lparr>aa_group_key := Some key\<rparr>) (check_key on_curve ''group_key'' val)
      else if typ = 9 then Ok (a\<lparr>aa_tapscript_sibling := Some val\<rparr>)
      else if typ mod 2 = 0 then Err (InvalidPayload ''unknown even TLV type'')
      else Ok (a\<lparr>aa_unknown_odd_types := btree_insert typ val (aa_unknown_odd_types a)\<rparr>))"

lemma next_record_Ok:
  assumes "next_record payload offset = Ok (r, off)" "offset < length payload"
  shows "offset < off \<and> off \<le> length payload"
proof -
  obtain t n1 len n2 where d: "decode_bigsize (drop offset payload) = Ok (t, n1)"
    "decode_bigsize (drop (offset + n1) payload) = Ok (len, n2)"
    and off: "off = usize_add (offset + n1 + n2) (unat len)" "offset + n1 + n2 \<le> off" "off \<le> length payload"
    using assms(1) by (auto simp: next_record_def Let_def res_simps slice_of_eq_Ok_iff split: if_splits)
  have "0 < n1" using bigsize.enc_dec [OF d(1)] by simp
  with off show ?thesis by linarith
qed

function address_loop ::
  "(SerializedKey \<Rightarrow> bool) \<Rightarrow> bytes \<Rightarrow> nat \<Rightarrow> AddressAcc \<Rightarrow> (AddressAcc, AddressError) result" where
  "address_loop on_curve payload offset a =
     (if offset < length payload then
        (case next_record payload offset of
           Ok (r, off) \<Rightarrow> (case address_field on_curve r a of
               Ok a' \<Rightarrow> address_loop on_curve payload off a' | Err e \<Rightarrow> Err e | Panic \<Rightarrow> Panic)
         | Err e \<Rightarrow> Err e | Panic \<Rightarrow> Panic)
      else Ok a)"
  by pat_completeness auto
termination
  by (relation "measure (\<lambda>(on_curve, payload, offset, a). length payload - offset)")
    (auto dest: next_record_Ok simp: diff_less_mono2)

definition address_validate :: "TapAddress \<Rightarrow> (unit, AddressError) result" where
  "address_validate a =
     (if ad_version a \<noteq> AddressV2 then
        (if ad_asset_id a = None then Err (MissingField ''asset_id'')
         else if ad_amount a = 0 then Err InvalidAmountNormal else Ok ())
      else if ad_proof_courier_addr a = None then Err (MissingField ''proof_courier_addr'') else Ok ())"

definition address_decode ::
  "(SerializedKey \<Rightarrow> bool) \<Rightarrow> Bech32Lib \<Rightarrow> string \<Rightarrow> (TapAddress, AddressError) result" where
  "address_decode on_curve lib s =
     (case bech32_decode lib s of None \<Rightarrow> Err Bech32Error
      | Some (hrp, payload) \<Rightarrow>
          res_bind (network_from_hrp hrp) (\<lambda>network.
          res_bind (address_loop on_curve payload 0 address_acc_default) (\<lambda>a.
          res_bind (ok_or (aa_version a) (MissingField ''version'')) (\<lambda>version.
          res_bind (ok_or (aa_script_key a) (MissingField ''script_key'')) (\<lambda>script_key.
          res_bind (ok_or (aa_internal_key a) (MissingField ''internal_key'')) (\<lambda>internal_key.
            let address = \<lparr>ad_version = version, ad_asset_version = aa_asset_version a, ad_asset_id = aa_asset_id a,
              ad_script_key = script_key, ad_internal_key = internal_key, ad_amount = aa_amount a, ad_network = network,
              ad_proof_courier_addr = aa_proof_courier_addr a, ad_group_key = aa_group_key a,
              ad_tapscript_sibling = aa_tapscript_sibling a, ad_unknown_odd_types = aa_unknown_odd_types a\<rparr>
            in res_bind (address_validate address) (\<lambda>_. Ok address)))))))"

section \<open>Use of an address\<close>

definition address_commitment_version :: "TapAddress \<Rightarrow> TapCommitmentVersion option" where
  "address_commitment_version a =
     (case ad_version a of AddressV0 \<Rightarrow> None | AddressV1 \<Rightarrow> Some TapV2 | AddressV2 \<Rightarrow> Some TapV2)"

definition supports_grouped_assets :: "TapAddress \<Rightarrow> bool" where
  "supports_grouped_assets a \<longleftrightarrow> ad_version a = AddressV2"

definition uses_send_manifests :: "TapAddress \<Rightarrow> bool" where
  "uses_send_manifests a \<longleftrightarrow> ad_version a = AddressV2"

definition script_key_for_asset_id ::
  "hash_fun \<Rightarrow> Secp \<Rightarrow> TapAddress \<Rightarrow> AssetId \<Rightarrow> (SerializedKey, AddressError) result" where
  "script_key_for_asset_id sha lib a aid =
     (if ad_version a \<noteq> AddressV2 then Ok (ad_script_key a)
      else res_bind (map_err (\<lambda>_. InvalidPayload ''unable to derive unique script key'')
          (derive_unique_script_key sha lib (ad_script_key a) aid DeriveUniquePedersen))
        (\<lambda>script_key. Ok (sk_pub_key script_key)))"


section \<open>Reading back a payload\<close>

declare split_scheme.simps [simp del] address_loop.simps [simp del]

lemma next_record_at:
  assumes "length (pre @ encode_record r @ rest) < 2 ^ 64"
  shows "next_record (pre @ encode_record r @ rest) (length pre) = Ok (r, length (pre @ encode_record r))"
proof -
  let ?t = "encode_bigsize (type_num r)" and ?n = "encode_bigsize (of_nat (length (tlv_value r)))"
  let ?p = "pre @ encode_record r @ rest"
  have len: "unat (of_nat (length (tlv_value r)) :: u64) = length (tlv_value r)"
    using assms by (simp add: encode_record_def unat_of_nat)
  have t: "decode_bigsize (drop (length pre) ?p) = Ok (type_num r, length ?t)"
    using decode_encode_bigsize [of "type_num r" "?n @ tlv_value r @ rest"] by (simp add: encode_record_def)
  have n: "decode_bigsize (drop (length pre + length ?t) ?p) = Ok (of_nat (length (tlv_value r)), length ?n)"
    using decode_encode_bigsize [of "of_nat (length (tlv_value r))" "tlv_value r @ rest"] by (simp add: encode_record_def)
  have e: "usize_add (length pre + length ?t + length ?n) (length (tlv_value r)) = length (pre @ encode_record r)"
    using assms by (subst usize_add_exact) (simp_all add: encode_record_def)
  have s: "slice_of ?p (length pre + length ?t + length ?n) (length (pre @ encode_record r)) = Ok (tlv_value r)"
    by (simp add: slice_of_def encode_record_def)
  have l: "length pre + length ?t < length ?p"
    using bigsize_len_pos [of "of_nat (length (tlv_value r))"] by (simp add: encode_record_def)
  show ?thesis
    unfolding next_record_def t map_err.simps res_bind.simps Let_def prod.case n len e s
    using l by (simp add: tlv_new_def len e s del: length_append) simp
qed

lemma address_loop_records:
  assumes "length (pre @ concat (map encode_record rs)) < 2 ^ 64"
  shows "address_loop on_curve (pre @ concat (map encode_record rs)) (length pre) a = fold_records (address_field on_curve) rs a"
  using assms
proof (induction rs arbitrary: pre a)
  case Nil
  then show ?case by (simp add: address_loop.simps)
next
  case (Cons r rs)
  have "address_loop on_curve ((pre @ encode_record r) @ concat (map encode_record rs)) (length (pre @ encode_record r)) b
      = fold_records (address_field on_curve) rs b" for b
    using Cons.prems by (intro Cons.IH) simp
  moreover have "encode_record r \<noteq> []" by (simp add: encode_record_def)
  ultimately show ?case
    using next_record_at [of pre r "concat (map encode_record rs)"] Cons.prems
    by (subst address_loop.simps) (cases "address_field on_curve r a", simp_all)
qed

definition address_known :: "u64 \<Rightarrow> bool" where
  "address_known t \<longleftrightarrow> t \<in> {0, 2, 4, 5, 6, 8, 9, 10, 12}"

interpretation address_dec: record_decoder "address_field on_curve" aa_unknown_odd_types
  "\<lambda>us a. a\<lparr>aa_unknown_odd_types := us\<rparr>" address_known for on_curve
proof unfold_locales
  fix r :: TlvRecord and us and a :: AddressAcc
  assume "address_known (type_num r)"
  then consider "type_num r = 0" | "type_num r = 2" | "type_num r = 4" | "type_num r = 5" | "type_num r = 6"
    | "type_num r = 8" | "type_num r = 9" | "type_num r = 10" | "type_num r = 12"
    unfolding address_known_def by blast
  then show "address_field on_curve r (a\<lparr>aa_unknown_odd_types := us\<rparr>)
      = map_ok (\<lambda>a. a\<lparr>aa_unknown_odd_types := us\<rparr>) (address_field on_curve r a)"
    by cases (auto simp: address_field_def check_field_len_def Let_def intro!: map_ok_swap)
qed (auto simp: address_field_def address_known_def Let_def)

definition address_slots :: "TapAddress \<Rightarrow> (u64 \<times> bytes option) list" where
  "address_slots a =
     [(0, Some [address_version_to_u8 (ad_version a)]), (2, Some [ad_asset_version a]), (4, ad_asset_id a),
      (5, ad_group_key a), (6, Some (ad_script_key a)), (8, Some (ad_internal_key a)), (9, ad_tapscript_sibling a),
      (10, Some (encode_bigsize (ad_amount a))), (12, ad_proof_courier_addr a)]"

lemma push_odd_bytes:
  "foldl (\<lambda>buf (t, val). buf @ encode_bigsize t @ encode_bigsize (of_nat (length val)) @ val) buf us
    = buf @ concat (map encode_record (odd_records us))"
  by (induction us arbitrary: buf) (auto simp: odd_records_def encode_record_def tlv_bytes_def tlv_new_def)

lemma push_tlv_slot:
  "push_tlv (concat (map encode_record rs)) t v = concat (map encode_record (rs @ of_slots [(ucast t, Some v)]))"
  "push_tlv_opt (concat (map encode_record rs)) t w = concat (map encode_record (rs @ of_slots [(ucast t, w)]))"
  by (simp_all add: push_tlv_def push_tlv_opt_def encode_record_def tlv_new_def split: option.splits)

lemma address_payload_slots:
  "address_payload a = concat (map encode_record (of_slots (address_slots a) @ odd_records (ad_unknown_odd_types a)))"
proof -
  have nil: "([] :: bytes) = concat (map encode_record [])" by simp
  show ?thesis
    unfolding address_payload_def Let_def push_odd_bytes
    by (subst nil, simp only: push_tlv_slot) (simp add: address_slots_def split: option.splits)
qed

definition wf_address :: "(SerializedKey \<Rightarrow> bool) \<Rightarrow> TapAddress \<Rightarrow> bool" where
  "wf_address on_curve a \<longleftrightarrow>
     pred_option (\<lambda>x. length x = 32) (ad_asset_id a)
     \<and> (\<forall>key \<in> {ad_script_key a, ad_internal_key a} \<union> set_option (ad_group_key a).
          length key = 33 \<and> validate_on_curve on_curve key)
     \<and> pred_option utf8_valid (ad_proof_courier_addr a)
     \<and> wf_odd_types address_known (ad_unknown_odd_types a)"

text \<open>Testnet, testnet4 and signet share their human-readable part.\<close>

definition shared_network :: "TapNetwork \<Rightarrow> TapNetwork" where
  "shared_network n = (if n \<in> {Testnet4, Signet} then Testnet else n)"

lemma network_round: "network_from_hrp (network_hrp n) = Ok (shared_network n)"
  by (cases n) (simp_all add: network_from_hrp_def shared_network_def)

lemma fold_address_slots:
  assumes "wf_address on_curve a"
  shows "fold_records (address_field on_curve) (of_slots (address_slots a)) address_acc_default
    = Ok \<lparr>aa_version = Some (ad_version a), aa_asset_version = ad_asset_version a, aa_asset_id = ad_asset_id a,
        aa_script_key = Some (ad_script_key a), aa_internal_key = Some (ad_internal_key a), aa_amount = ad_amount a,
        aa_proof_courier_addr = ad_proof_courier_addr a, aa_group_key = ad_group_key a,
        aa_tapscript_sibling = ad_tapscript_sibling a, aa_unknown_odd_types = []\<rparr>"
proof -
  let ?f = "fold_records (address_field on_curve)"
  note defs = address_field_def check_field_len_def check_key_def
  have keys: "check_key on_curve name key = Ok key"
    if "key \<in> {ad_script_key a, ad_internal_key a} \<union> set_option (ad_group_key a)" for key name
    using assms that by (auto simp: wf_address_def check_key_def check_field_len_def)
  have options: "aa_asset_id b = None \<Longrightarrow> ?f (of_slots ((4, ad_asset_id a) # xs)) b
      = ?f (of_slots xs) (b\<lparr>aa_asset_id := ad_asset_id a\<rparr>)"
    "aa_group_key b = None \<Longrightarrow> ?f (of_slots ((5, ad_group_key a) # xs)) b = ?f (of_slots xs) (b\<lparr>aa_group_key := ad_group_key a\<rparr>)"
    "aa_tapscript_sibling b = None \<Longrightarrow> ?f (of_slots ((9, ad_tapscript_sibling a) # xs)) b
      = ?f (of_slots xs) (b\<lparr>aa_tapscript_sibling := ad_tapscript_sibling a\<rparr>)"
    "aa_proof_courier_addr b = None \<Longrightarrow> ?f (of_slots ((12, ad_proof_courier_addr a) # xs)) b
      = ?f (of_slots xs) (b\<lparr>aa_proof_courier_addr := ad_proof_courier_addr a\<rparr>)" for b xs
    by (rule fold_slot; use assms keys in \<open>auto simp: defs wf_address_def split: option.splits\<close>)+
  have some: "?f (of_slots ((t, Some x) # xs)) b = res_bind (address_field on_curve (tlv_new t x) b) (?f (of_slots xs))" for t x xs b
    by simp
  have "address_version_from_u8 (address_version_to_u8 (ad_version a)) = Ok (ad_version a)"
    by (cases "ad_version a") (simp_all add: address_version_from_u8_def)
  then have required: "address_field on_curve (tlv_new 0 [address_version_to_u8 (ad_version a)]) b = Ok (b\<lparr>aa_version := Some (ad_version a)\<rparr>)"
    "address_field on_curve (tlv_new 2 [ad_asset_version a]) b = Ok (b\<lparr>aa_asset_version := ad_asset_version a\<rparr>)"
    "address_field on_curve (tlv_new 6 (ad_script_key a)) b = Ok (b\<lparr>aa_script_key := Some (ad_script_key a)\<rparr>)"
    "address_field on_curve (tlv_new 8 (ad_internal_key a)) b = Ok (b\<lparr>aa_internal_key := Some (ad_internal_key a)\<rparr>)"
    "address_field on_curve (tlv_new 10 (encode_bigsize (ad_amount a))) b = Ok (b\<lparr>aa_amount := ad_amount a\<rparr>)" for b
    using decode_encode_bigsize [of "ad_amount a" "[]"] keys by (simp_all add: address_field_def check_field_len_def)
  show ?thesis
    unfolding address_slots_def
    by (simp add: some options required address_acc_default_def del: of_slots.simps(2)) 
qed

lemma address_loop_payload:
  assumes "wf_address on_curve a" "length (address_payload a) < 2 ^ 64"
  shows "address_loop on_curve (address_payload a) 0 address_acc_default
    = Ok \<lparr>aa_version = Some (ad_version a), aa_asset_version = ad_asset_version a, aa_asset_id = ad_asset_id a,
        aa_script_key = Some (ad_script_key a), aa_internal_key = Some (ad_internal_key a), aa_amount = ad_amount a,
        aa_proof_courier_addr = ad_proof_courier_addr a, aa_group_key = ad_group_key a,
        aa_tapscript_sibling = ad_tapscript_sibling a, aa_unknown_odd_types = ad_unknown_odd_types a\<rparr>"
proof -
  have us: "wf_odd_types address_known (ad_unknown_odd_types a)" using assms by (simp add: wf_address_def)
  then have "fold (\<lambda>(t, v) m. btree_insert t v m) (ad_unknown_odd_types a) [] = ad_unknown_odd_types a"
    using fold_btree_insert [of "[]" "ad_unknown_odd_types a"] by (simp add: wf_odd_types_def)
  then show ?thesis
    using address_loop_records [of "[]" "of_slots (address_slots a) @ odd_records (ad_unknown_odd_types a)" on_curve] assms us
    by (simp add: address_payload_slots wf_address_def fold_records_append fold_address_slots [OF assms(1)]
        address_dec.fold_odd wf_odd_types_def address_dec.fold_put)
qed


lemma decode_encode_address:
  assumes "bech32_reads_back lib" "wf_address on_curve a" "length (address_payload a) < 2 ^ 64"
    and "address_validate a = Ok ()" "address_encode lib a = Ok s"
  shows "address_decode on_curve lib s = Ok (a\<lparr>ad_network := shared_network (ad_network a)\<rparr>)"
proof -
  have "bech32m_encode lib (network_hrp (ad_network a)) (address_payload a) = Some s"
    using assms(5) by (simp add: address_encode_def Let_def split: if_splits option.splits)
  then have s: "bech32_decode lib s = Some (network_hrp (ad_network a), address_payload a)"
    using assms(1) by (simp add: bech32_reads_back_def)
  have "address_validate (a\<lparr>ad_network := n\<rparr>) = address_validate a" for n
    by (simp add: address_validate_def)
  with assms(4) have "address_validate (a\<lparr>ad_network := n\<rparr>) = Ok ()" for n by simp
  then show ?thesis
    using address_loop_payload [OF assms(2,3)]
    by (cases a) (simp add: address_decode_def s network_round ok_or_def)
qed

section \<open>What creation and decoding produce\<close>

lemma new_address_valid:
  "address_new params = Ok a \<Longrightarrow> address_validate a = Ok ()"
  by (auto simp: address_new_def check_asset_type_def check_courier_def address_validate_def res_simps
      split: if_splits option.splits AssetType.splits)

definition wf_params :: "(SerializedKey \<Rightarrow> bool) \<Rightarrow> NewAddressParams \<Rightarrow> bool" where
  "wf_params on_curve p \<longleftrightarrow>
     pred_option (\<lambda>x. length x = 32) (np_asset_id p)
     \<and> (\<forall>key \<in> {np_script_key p, np_internal_key p} \<union> set_option (np_group_key p).
          length key = 33 \<and> validate_on_curve on_curve key)
     \<and> pred_option utf8_valid (np_proof_courier_addr p)"

lemma new_address_wf:
  "address_new params = Ok a \<Longrightarrow> wf_params on_curve params \<Longrightarrow> wf_address on_curve a"
  by (auto simp: address_new_def check_courier_def wf_params_def wf_address_def wf_odd_types_def res_simps
      split: if_splits option.splits)

definition wf_acc :: "(SerializedKey \<Rightarrow> bool) \<Rightarrow> AddressAcc \<Rightarrow> bool" where
  "wf_acc on_curve a \<longleftrightarrow>
     pred_option (\<lambda>x. length x = 32) (aa_asset_id a)
     \<and> (\<forall>key \<in> set_option (aa_script_key a) \<union> set_option (aa_internal_key a) \<union> set_option (aa_group_key a).
          length key = 33 \<and> validate_on_curve on_curve key)
     \<and> pred_option utf8_valid (aa_proof_courier_addr a)
     \<and> wf_odd_types address_known (aa_unknown_odd_types a)"

lemma btree_insert_set: "set (btree_insert k v kvs) \<subseteq> insert (k, v) (set kvs)"
  by (induction k v kvs rule: btree_insert.induct) auto

lemma wf_odd_types_insert:
  "wf_odd_types known us \<Longrightarrow> t mod 2 \<noteq> 0 \<Longrightarrow> \<not> known t \<Longrightarrow> wf_odd_types known (btree_insert t v us)"
  using btree_insert_set [of t v us] by (auto simp: wf_odd_types_def btree_sorted_insert)

lemma map_ok_Ok: "map_ok f m = Ok y \<longleftrightarrow> (\<exists>x. m = Ok x \<and> y = f x)"
  by (cases m) auto

lemma wf_acc_field:
  assumes "wf_acc on_curve a" "address_field on_curve r a = Ok b"
  shows "wf_acc on_curve b"
proof (cases "address_known (type_num r)")
  case True
  then consider "type_num r = 0" | "type_num r = 2" | "type_num r = 4" | "type_num r = 5" | "type_num r = 6"
    | "type_num r = 8" | "type_num r = 9" | "type_num r = 10" | "type_num r = 12"
    unfolding address_known_def by blast
  then show ?thesis
    using assms by cases (auto simp: address_field_def check_field_len_def check_key_def wf_acc_def map_ok_Ok res_simps
        Let_def split: if_splits)
next
  case False
  then have "type_num r mod 2 \<noteq> 0" using address_dec.unknown_even [of r on_curve a] assms(2) by (metis result.distinct(1))
  with False have "b = a\<lparr>aa_unknown_odd_types := btree_insert (type_num r) (tlv_value r) (aa_unknown_odd_types a)\<rparr>"
    using address_dec.unknown_odd assms(2) by simp
  with assms(1) False \<open>type_num r mod 2 \<noteq> 0\<close> show ?thesis by (simp add: wf_acc_def wf_odd_types_insert)
qed

lemma wf_acc_loop:
  "wf_acc on_curve a \<Longrightarrow> address_loop on_curve payload offset a = Ok b \<Longrightarrow> wf_acc on_curve b"
proof (induction on_curve payload offset a rule: address_loop.induct)
  case (1 on_curve payload offset a)
  show ?case
    using 1(3) wf_acc_field [OF 1(2)] 1(1) [OF _ _ refl] 1(2)
    by (subst (asm) address_loop.simps) (auto split: if_splits result.splits)
qed

lemma decoded_address_wf:
  assumes "address_decode on_curve lib s = Ok a"
  shows "wf_address on_curve a \<and> address_validate a = Ok () \<and> shared_network (ad_network a) = ad_network a"
proof -
  obtain hrp payload n acc where s: "bech32_decode lib s = Some (hrp, payload)" "network_from_hrp hrp = Ok n"
    "address_loop on_curve payload 0 address_acc_default = Ok acc"
    and a: "aa_version acc = Some (ad_version a)" "ad_asset_id a = aa_asset_id acc" "aa_script_key acc = Some (ad_script_key a)"
      "aa_internal_key acc = Some (ad_internal_key a)" "ad_network a = n" "ad_proof_courier_addr a = aa_proof_courier_addr acc"
      "ad_group_key a = aa_group_key acc" "ad_unknown_odd_types a = aa_unknown_odd_types acc" "address_validate a = Ok ()"
    using assms by (auto simp: address_decode_def ok_or_def res_simps Let_def split: option.splits)
  have "wf_acc on_curve acc"
    by (rule wf_acc_loop [OF _ s(3)]) (simp add: wf_acc_def address_acc_default_def wf_odd_types_def)
  moreover have "shared_network n = n"
    using s(2) by (auto simp: network_from_hrp_def shared_network_def split: if_splits)
  ultimately show ?thesis using a by (simp add: wf_acc_def wf_address_def)
qed

text \<open>C32: address round trip. An address made by \<^verbatim>\<open>address::new\<close> from well-formed keys, or read from a string, encodes to
  a string that decodes to the same address, every field and every unknown odd record included; only the test networks that share
  a human-readable part are read as testnet. The bech32 crate is assumed to read back what it writes.\<close>

theorem address_roundtrip:
  assumes "bech32_reads_back lib"
    and "(\<exists>params. address_new params = Ok a \<and> wf_params on_curve params) \<or> (\<exists>s0. address_decode on_curve lib s0 = Ok a)"
    and "length (address_payload a) < 2 ^ 64" "address_encode lib a = Ok s"
  shows "address_decode on_curve lib s = Ok (a\<lparr>ad_network := shared_network (ad_network a)\<rparr>)"
proof -
  have "wf_address on_curve a \<and> address_validate a = Ok ()"
    using assms(2) new_address_valid new_address_wf decoded_address_wf by blast
  then show ?thesis using decode_encode_address assms by blast
qed

text \<open>A codec that reads back what it writes, and the parameters of an address for a whole group.\<close>

definition demo_bech32 :: Bech32Lib where
  "demo_bech32 = \<lparr>hrp_parse = (\<lambda>_. True),
     bech32m_encode = (\<lambda>hrp payload. if length hrp = 5 then Some (hrp @ map (\<lambda>b. char_of (unat b)) payload) else None),
     bech32_decode = (\<lambda>s. Some (take 5 s, map (\<lambda>c. of_nat (of_char c)) (drop 5 s)))\<rparr>"

lemma demo_bech32_reads_back: "bech32_reads_back demo_bech32"
proof -
  have "unat b mod 256 = unat b" for b :: u8
    using unat_lt2p [of b] by simp
  then show ?thesis by (auto simp: bech32_reads_back_def demo_bech32_def comp_def split: if_splits)
qed

definition demo_address_params :: NewAddressParams where
  "demo_address_params = \<lparr>np_version = AddressV2, np_asset_id = Some (zeros 32), np_group_key = Some (zeros 33),
     np_script_key = zeros 33, np_internal_key = zeros 33, np_amount = 1, np_asset_type = Collectible, np_network = Signet,
     np_proof_courier_addr = Some (ascii ''authmailbox+universerpc://host''), np_tapscript_sibling = None\<rparr>"

definition demo_address :: TapAddress where
  "demo_address = \<lparr>ad_version = AddressV2, ad_asset_version = 0, ad_asset_id = None, ad_script_key = zeros 33,
     ad_internal_key = zeros 33, ad_amount = 1, ad_network = Signet,
     ad_proof_courier_addr = Some (ascii ''authmailbox+universerpc://host''), ad_group_key = Some (zeros 33),
     ad_tapscript_sibling = None, ad_unknown_odd_types = []\<rparr>"

lemma demo_address_new: "address_new demo_address_params = Ok demo_address"
proof -
  have "split_scheme (ascii ''authmailbox+universerpc://host'') = Some AUTH_MAILBOX_UNI_RPC_COURIER_TYPE"
    by code_simp
  then show ?thesis
    by (simp add: address_new_def check_asset_type_def check_courier_def demo_address_params_def demo_address_def)
qed

theorem address_roundtrip_witness:
  "address_new demo_address_params = Ok demo_address
   \<and> (\<exists>s. address_encode demo_bech32 demo_address = Ok s
        \<and> address_decode (\<lambda>_. True) demo_bech32 s = Ok (demo_address\<lparr>ad_network := Testnet\<rparr>))"
proof -
  have "utf8_valid (ascii ''authmailbox+universerpc://host'')" by code_simp
  then have "wf_params (\<lambda>_. True) demo_address_params"
    by (simp add: wf_params_def demo_address_params_def validate_on_curve_def)
  moreover have "length (address_payload demo_address) < 2 ^ 64"
    by (simp add: address_payload_def push_tlv_def push_tlv_opt_def demo_address_def bigsize_len_def ascii_def)
  moreover obtain s where s: "address_encode demo_bech32 demo_address = Ok s"
    by (simp add: address_encode_def demo_bech32_def demo_address_def)
  ultimately have "address_decode (\<lambda>_. True) demo_bech32 s
      = Ok (demo_address\<lparr>ad_network := shared_network (ad_network demo_address)\<rparr>)"
    using address_roundtrip [OF demo_bech32_reads_back _ _ s] demo_address_new by blast
  then show ?thesis
    using s demo_address_new by (auto simp: demo_address_def shared_network_def)
qed

section \<open>Hostile payloads\<close>

text \<open>A record that announces a length near \<open>2 ^ 64\<close> wraps the end offset below its start.\<close>

lemma address_decode_panics:
  assumes "bech32_decode lib s = Some (''tapbc'', encode_bigsize 1 @ encode_bigsize (- 1))"
  shows "address_decode on_curve lib s = Panic"
proof -
  let ?p = "encode_bigsize 1 @ encode_bigsize (- 1)"
  have len: "bigsize_len 1 = 1" "bigsize_len (- 1) = 9" by (simp_all add: bigsize_len_def word_le_nat_alt unat_minus_one)
  have "decode_bigsize ?p = Ok (1, 1)" "decode_bigsize (drop 1 ?p) = Ok (- 1, 9)"
    using decode_encode_bigsize [of 1 "encode_bigsize (- 1)"] decode_encode_bigsize [of "- 1" "[]"] len by simp_all
  moreover have "slice_of ?p 10 (usize_add 10 (unat (- 1 :: u64))) = (Panic :: (bytes, AddressError) result)"
    by (simp add: slice_of_def usize_add_def unat_minus_one)
  moreover have "\<not> length ?p < usize_add 10 (unat (- 1 :: u64))"
    by (simp add: usize_add_def unat_minus_one len)
  ultimately have "next_record ?p 0 = Panic"
    by (simp add: next_record_def Let_def len)
  then have "address_loop on_curve ?p 0 address_acc_default = Panic"
    by (simp add: address_loop.simps len)
  then show ?thesis by (simp add: address_decode_def assms network_from_hrp_def)
qed

text \<open>Before version 2 the script key of an address is used as it is; from version 2 on a key of its own is derived for every asset.\<close>

lemma script_key_before_v2:
  "ad_version a \<noteq> AddressV2 \<Longrightarrow> script_key_for_asset_id sha lib a aid = Ok (ad_script_key a)"
  by (simp add: script_key_for_asset_id_def)

end
