(* ===== verification/Vpsbt.thy ===== *)
theory Vpsbt
  imports Address Proof_Types
begin

text \<open>
  The data of virtual transactions (vPSBTs): \<^verbatim>\<open>tap-primitives/src/vpsbt/types.rs\<close>. A packet has inputs, outputs, the
  network and a version; the type of an output is an open byte.
\<close>

datatype VPsbtError =
    VInvalidFormat string
  | NotVirtualTx
  | InvalidChainParamsHrp string
  | InvalidVPacketVersion u8
  | VEncodeError string
  | VDecodeError string

datatype VPacketVersion = VPacketV0 | VPacketV1

definition vpacket_version_from_u8 :: "u8 \<Rightarrow> (VPacketVersion, VPsbtError) result" where
  "vpacket_version_from_u8 v =
     (if v = 0 then Ok VPacketV0 else if v = 1 then Ok VPacketV1 else Err (InvalidVPacketVersion v))"

fun vpacket_version_to_u8 :: "VPacketVersion \<Rightarrow> u8" where
  "vpacket_version_to_u8 VPacketV0 = 0"
| "vpacket_version_to_u8 VPacketV1 = 1"

fun vpacket_commitment_version :: "VPacketVersion \<Rightarrow> (TapCommitmentVersion option, VPsbtError) result" where
  "vpacket_commitment_version VPacketV0 = Ok None"
| "vpacket_commitment_version VPacketV1 = Ok (Some TapV2)"

type_synonym VOutputType = u8

definition SIMPLE :: VOutputType where "SIMPLE = 0"
definition SPLIT_ROOT :: VOutputType where "SPLIT_ROOT = 1"

record Bip32Derivation =
  bd_pub_key :: bytes
  bd_fingerprint :: u32
  bd_path :: "u32 list"

record TaprootBip32Derivation =
  tbd_x_only_pub_key :: bytes
  tbd_leaf_hashes :: "bytes list"
  tbd_fingerprint :: u32
  tbd_path :: "u32 list"

record KeyDescriptor =
  kd_pub_key :: SerializedKey
  kd_family :: u32
  kd_index :: u32

record TweakedScriptKeyDesc =
  td_raw_key :: KeyDescriptor
  td_tweak :: bytes

record OutputScriptKey =
  osk_pub_key :: SerializedKey
  osk_tweaked :: "TweakedScriptKeyDesc option"

record VAnchor =
  va_value :: u64
  va_pk_script :: bytes
  va_sig_hash_type :: u32
  va_internal_key :: "SerializedKey option"
  va_merkle_root :: bytes
  va_tapscript_sibling :: bytes
  va_bip32_derivation :: "Bip32Derivation list"
  va_taproot_bip32_derivation :: "TaprootBip32Derivation list"

definition v_anchor_default :: VAnchor where
  "v_anchor_default = \<lparr>va_value = 0, va_pk_script = [], va_sig_hash_type = 0, va_internal_key = None, va_merkle_root = [],
     va_tapscript_sibling = [], va_bip32_derivation = [], va_taproot_bip32_derivation = []\<rparr>"

record VInput =
  vi_bip32_derivation :: "Bip32Derivation list"
  vi_taproot_bip32_derivation :: "TaprootBip32Derivation list"
  vi_taproot_internal_key :: bytes
  vi_taproot_merkle_root :: bytes
  vi_sighash_type :: u32
  vi_prev_id :: PrevId
  vi_anchor :: VAnchor
  vi_asset :: "Asset option"
  vi_proof :: "TransitionProof option"

definition v_input_default :: VInput where
  "v_input_default = \<lparr>vi_bip32_derivation = [], vi_taproot_bip32_derivation = [], vi_taproot_internal_key = [],
     vi_taproot_merkle_root = [], vi_sighash_type = 0, vi_prev_id = PREV_ID_ZERO, vi_anchor = v_anchor_default,
     vi_asset = None, vi_proof = None\<rparr>"

record VOutput =
  vo_amount :: u64
  vo_asset_version :: u8
  vo_output_type :: VOutputType
  vo_interactive :: bool
  vo_anchor_output_index :: u32
  vo_anchor_output_internal_key :: "SerializedKey option"
  vo_anchor_output_bip32_derivation :: "Bip32Derivation list"
  vo_anchor_output_taproot_bip32_derivation :: "TaprootBip32Derivation list"
  vo_anchor_output_tapscript_sibling :: "TapscriptPreimage option"
  vo_asset :: "Asset option"
  vo_split_asset :: "Asset option"
  vo_script_key :: OutputScriptKey
  vo_relative_lock_time :: u64
  vo_lock_time :: u64
  vo_proof_delivery_address :: "bytes option"
  vo_proof_suffix :: "TransitionProof option"
  vo_alt_leaves :: "Asset list"
  vo_address :: "TapAddress option"

definition vo_is_split_root :: "VOutput \<Rightarrow> bool" where
  "vo_is_split_root o1 \<longleftrightarrow> vo_output_type o1 = SPLIT_ROOT"

record VPacket =
  vp_inputs :: "VInput list"
  vp_outputs :: "VOutput list"
  vp_chain_params :: TapNetwork
  vp_version :: VPacketVersion

definition has_split_root_output :: "VPacket \<Rightarrow> bool" where
  "has_split_root_output p \<longleftrightarrow> list_ex vo_is_split_root (vp_outputs p)"

definition has_interactive_output :: "VPacket \<Rightarrow> bool" where
  "has_interactive_output p \<longleftrightarrow> list_ex vo_interactive (vp_outputs p)"

fun hd_coin_type :: "TapNetwork \<Rightarrow> u32" where
  "hd_coin_type Mainnet = 0"
| "hd_coin_type Testnet = 1"
| "hd_coin_type Testnet4 = 1"
| "hd_coin_type Regtest = 1"
| "hd_coin_type Signet = 1"
| "hd_coin_type Simnet = 115"

lemma vpacket_version_round: "vpacket_version_from_u8 (vpacket_version_to_u8 v) = Ok v"
  by (cases v) (simp_all add: vpacket_version_from_u8_def)

end
