(* ===== verification/Allocation.thy ===== *)
theory Allocation
  imports Vpsbt "HOL-Library.Product_Lexorder"
begin

text \<open>
  The allocation of asset units to the outputs of a channel transaction: \<^verbatim>\<open>tap-ldk/src/channel/allocation.rs\<close>.
  \<open>distribute_coins\<close> divides input assets of several asset IDs over the allocations and builds one virtual packet per
  asset ID. The sorts of the code are stable; \<open>sort_by\<close> is such a sort for a comparator.
\<close>

section \<open>Errors and allocations\<close>

datatype AllocationError =
    MissingInputs
  | MissingAllocations
  | InputTypesNotEqual
  | InputGroupMismatch
  | InputOutputSumMismatch u64 u64
  | CommitmentNotSet
  | InvalidSibling
  | ScriptKeyGenMissing
  | NoSplitRoot
  | MissingInternalKey
  | AlInvalidKey string
  | AlInvalidPreimage string
  | MissingOutputCommitment u32
  | AmountOverflow
  | MismatchedVPacketVersions

datatype AllocationType =
    NoAssets | CommitAllocationToLocal | CommitAllocationToRemote | HtlcIncoming | HtlcOutgoing | SecondLevelHtlc

fun allocation_type_to_u8 :: "AllocationType \<Rightarrow> u8" where
  "allocation_type_to_u8 NoAssets = 0"
| "allocation_type_to_u8 CommitAllocationToLocal = 1"
| "allocation_type_to_u8 CommitAllocationToRemote = 2"
| "allocation_type_to_u8 HtlcIncoming = 3"
| "allocation_type_to_u8 HtlcOutgoing = 4"
| "allocation_type_to_u8 SecondLevelHtlc = 5"

record Allocation =
  al_type :: AllocationType
  al_output_index :: u32
  al_split_root :: bool
  al_internal_key :: "SerializedKey option"
  al_bip32_derivation :: "Bip32Derivation list"
  al_taproot_bip32_derivation :: "TaprootBip32Derivation list"
  al_non_asset_leaves :: "bytes list"
  al_sibling_preimage :: "TapscriptPreimage option"
  al_script_key :: "ScriptKey option"
  al_amount :: u64
  al_asset_version :: u8
  al_btc_amount :: u64
  al_sort_taproot_key_bytes :: bytes
  al_sort_cltv :: u32
  al_sequence :: u32
  al_lock_time :: u64
  al_htlc_index :: u64
  al_output_commitment :: "TapCommitment option"
  al_proof_delivery_address :: "bytes option"
  al_alt_leaves :: "Asset list"

definition allocation_default :: Allocation where
  "allocation_default = \<lparr>al_type = NoAssets, al_output_index = 0, al_split_root = False, al_internal_key = None,
     al_bip32_derivation = [], al_taproot_bip32_derivation = [], al_non_asset_leaves = [], al_sibling_preimage = None,
     al_script_key = None, al_amount = 0, al_asset_version = 0, al_btc_amount = 0, al_sort_taproot_key_bytes = [],
     al_sort_cltv = 0, al_sequence = 0, al_lock_time = 0, al_htlc_index = 0, al_output_commitment = None,
     al_proof_delivery_address = None, al_alt_leaves = []\<rparr>"

definition BASE_LEAF_VERSION :: u8 where "BASE_LEAF_VERSION = 0xc0"

definition allocation_validate :: "Allocation \<Rightarrow> (unit, AllocationError) result" where
  "allocation_validate a =
     (if al_non_asset_leaves a \<noteq> [] \<and> al_sibling_preimage a \<noteq> None then Err InvalidSibling
      else if al_type a \<noteq> NoAssets \<and> al_script_key a = None then Err ScriptKeyGenMissing
      else Ok ())"

definition write_var_bytes :: "bytes \<Rightarrow> bytes \<Rightarrow> bytes" where
  "write_var_bytes buf bs =
     (let len = of_nat (length bs) :: u64 in
      buf @ (if len < 0xfd then [ucast len]
             else if len \<le> 0xffff then 0xfd # u16_le (ucast len)
             else if len \<le> 0xffffffff then 0xfe # u32_le (ucast len)
             else 0xff # u64_le len) @ bs)"

definition al_tapscript_sibling :: "hash_fun \<Rightarrow> Allocation \<Rightarrow> (TapscriptPreimage option, AllocationError) result" where
  "al_tapscript_sibling sha a =
     (if al_non_asset_leaves a = [] \<and> al_sibling_preimage a = None then Ok None
      else case al_sibling_preimage a of
        Some preimage \<Rightarrow> Ok (Some preimage)
      | None \<Rightarrow>
          (case al_non_asset_leaves a of
             [script] \<Rightarrow> Ok (Some \<lparr>sibling_type = 0, sibling_preimage = write_var_bytes [BASE_LEAF_VERSION] script\<rparr>)
           | [script1, script2] \<Rightarrow>
               Ok (Some \<lparr>sibling_type = 1, sibling_preimage =
                 tap_leaf_hash sha BASE_LEAF_VERSION script1 @ tap_leaf_hash sha BASE_LEAF_VERSION script2\<rparr>)
           | _ \<Rightarrow> Err (AlInvalidPreimage ''unsupported number of non-asset leaves'')))"

definition pay_to_taproot_script :: "bytes \<Rightarrow> bytes" where
  "pay_to_taproot_script output_key = [0x51, 0x20] @ output_key"

definition final_pk_script :: "hash_fun \<Rightarrow> Secp \<Rightarrow> Allocation \<Rightarrow> (bytes, AllocationError) result" where
  "final_pk_script sha lib a =
     (if al_type a = NoAssets then
        (if length (al_sort_taproot_key_bytes a) \<noteq> 32 then Err (AlInvalidKey ''sort taproot key must be 32 bytes'')
         else if \<not> pub_key_valid lib (0x02 # al_sort_taproot_key_bytes a) then Err (AlInvalidKey ''key'')
         else Ok (pay_to_taproot_script (al_sort_taproot_key_bytes a)))
      else
        res_bind (ok_or (al_output_commitment a) CommitmentNotSet) (\<lambda>commitment.
        res_bind (al_tapscript_sibling sha a) (\<lambda>sibling.
        res_bind (case sibling of
            Some preimage \<Rightarrow> map_ok Some (map_err (\<lambda>_. AlInvalidPreimage ''tap hash'') (tap_hash sha preimage))
          | None \<Rightarrow> Ok None) (\<lambda>sibling_hash.
        res_bind (ok_or (al_internal_key a) MissingInternalKey) (\<lambda>internal_key.
          if \<not> pub_key_valid lib internal_key then Err (AlInvalidKey ''key'')
          else res_bind (map_err (\<lambda>_. AlInvalidKey ''tweak'')
              (compute_taproot_output_key sha lib (drop 1 internal_key) (Some (tapscript_root sha commitment sibling_hash))))
            (\<lambda>output_key. Ok (pay_to_taproot_script output_key)))))))"

definition aux_leaf :: "hash_fun \<Rightarrow> Allocation \<Rightarrow> (bytes, AllocationError) result" where
  "aux_leaf sha a = res_bind (ok_or (al_output_commitment a) CommitmentNotSet) (\<lambda>commitment. Ok (tap_leaf sha commitment))"

text \<open>The cast of the amount to \<^verbatim>\<open>i64\<close> keeps the bits.\<close>

definition matches_output ::
  "hash_fun \<Rightarrow> Secp \<Rightarrow> Allocation \<Rightarrow> bytes \<Rightarrow> int \<Rightarrow> u32 \<Rightarrow> u64 \<Rightarrow> (bool, AllocationError) result" where
  "matches_output sha lib a pk_script val cltv htlc_index =
     res_bind (final_pk_script sha lib a) (\<lambda>script.
       Ok (pk_script = script \<and> val = sint (al_btc_amount a) \<and> cltv = al_sort_cltv a \<and> htlc_index = al_htlc_index a))"

section \<open>Sorting\<close>

datatype Ordering = Less | Equal | Greater

definition cmp :: "'a::linorder \<Rightarrow> 'a \<Rightarrow> Ordering" where
  "cmp x y = (if x < y then Less else if x = y then Equal else Greater)"

definition then_with :: "Ordering \<Rightarrow> Ordering \<Rightarrow> Ordering" where
  "then_with c d = (case c of Equal \<Rightarrow> d | _ \<Rightarrow> c)"

fun insert_by :: "('a \<Rightarrow> 'a \<Rightarrow> Ordering) \<Rightarrow> 'a \<Rightarrow> 'a list \<Rightarrow> 'a list" where
  "insert_by c x [] = [x]"
| "insert_by c x (y # ys) = (if c x y = Greater then y # insert_by c x ys else x # y # ys)"

definition sort_by :: "('a \<Rightarrow> 'a \<Rightarrow> Ordering) \<Rightarrow> 'a list \<Rightarrow> 'a list" where
  "sort_by c xs = foldr (insert_by c) xs []"

definition in_place_allocation_sort :: "Allocation list \<Rightarrow> Allocation list" where
  "in_place_allocation_sort allocations =
     sort_by (\<lambda>i j.
       then_with (cmp (al_btc_amount i) (al_btc_amount j))
       (then_with (cmp (al_sort_taproot_key_bytes i) (al_sort_taproot_key_bytes j))
       (then_with (cmp (al_sort_cltv i) (al_sort_cltv j))
                  (cmp (al_htlc_index i) (al_htlc_index j))))) allocations"

definition asset_sort_for_inputs :: "Asset \<Rightarrow> Asset \<Rightarrow> Ordering" where
  "asset_sort_for_inputs i j =
     then_with (cmp (amount j) (amount i)) (cmp (sk_pub_key (script_key i)) (sk_pub_key (script_key j)))"

section \<open>Pieces\<close>

record Piece =
  pc_asset_id :: AssetId
  total_available :: u64
  allocated :: u64
  pc_inputs :: "Asset list"
  packet :: VPacket

definition available :: "Piece \<Rightarrow> u64" where
  "available p = total_available p - allocated p"

definition sort_pieces_with_inputs :: "Piece list \<Rightarrow> Piece list" where
  "sort_pieces_with_inputs pieces =
     map (\<lambda>p. p\<lparr>pc_inputs := sort_by asset_sort_for_inputs (pc_inputs p)\<rparr>)
       (sort_by (\<lambda>i j. cmp (pc_asset_id i) (pc_asset_id j)) pieces)"

definition asset_tap_commitment_key :: "hash_fun \<Rightarrow> Asset \<Rightarrow> bytes" where
  "asset_tap_commitment_key sha a = tap_commitment_key sha (asset_id sha a) (map_option group_pub_key (group_key a))"

definition v_input_from_asset :: "AssetId \<Rightarrow> Asset \<Rightarrow> VInput" where
  "v_input_from_asset aid a = v_input_default\<lparr>
     vi_prev_id := PREV_ID_ZERO\<lparr>prev_asset_id := aid, prev_script_key := sk_pub_key (script_key a)\<rparr>, vi_asset := Some a\<rparr>"

definition effective_asset_type :: "Asset \<Rightarrow> AssetType" where
  "effective_asset_type a = g_asset_type (genesis a)"

definition validate_vpacket_versions :: "VPacket list \<Rightarrow> (unit, AllocationError) result" where
  "validate_vpacket_versions packets =
     (case packets of [] \<Rightarrow> Ok ()
      | first # _ \<Rightarrow> if list_ex (\<lambda>p. vp_version p \<noteq> vp_version first) packets then Err MismatchedVPacketVersions else Ok ())"

definition v_out_of :: "Allocation \<Rightarrow> bool \<Rightarrow> TapscriptPreimage option \<Rightarrow> ScriptKey \<Rightarrow> VOutput" where
  "v_out_of allocation interactive sibling key = \<lparr>vo_amount = 0, vo_asset_version = al_asset_version allocation,
     vo_output_type = SIMPLE, vo_interactive = interactive, vo_anchor_output_index = al_output_index allocation,
     vo_anchor_output_internal_key = al_internal_key allocation,
     vo_anchor_output_bip32_derivation = al_bip32_derivation allocation,
     vo_anchor_output_taproot_bip32_derivation = al_taproot_bip32_derivation allocation,
     vo_anchor_output_tapscript_sibling = sibling, vo_asset = None, vo_split_asset = None,
     vo_script_key = \<lparr>osk_pub_key = sk_pub_key key, osk_tweaked = map_option (\<lambda>t.
       \<lparr>td_raw_key = \<lparr>kd_pub_key = tsk_raw_key t, kd_family = 0, kd_index = 0\<rparr>, td_tweak = tsk_tweak t\<rparr>) (sk_tweaked key)\<rparr>,
     vo_relative_lock_time = ucast (al_sequence allocation), vo_lock_time = al_lock_time allocation,
     vo_proof_delivery_address = al_proof_delivery_address allocation, vo_proof_suffix = None,
     vo_alt_leaves = al_alt_leaves allocation, vo_address = None\<rparr>"

definition push_output :: "Piece \<Rightarrow> VOutput \<Rightarrow> Piece" where
  "push_output p v_out = p\<lparr>packet := (packet p)\<lparr>vp_outputs := vp_outputs (packet p) @ [v_out]\<rparr>\<rparr>"

definition allocate_piece ::
  "hash_fun \<Rightarrow> Piece \<Rightarrow> Allocation \<Rightarrow> u64 \<Rightarrow> bool \<Rightarrow> (Piece \<times> u64, AllocationError) result" where
  "allocate_piece sha piece allocation to_fill interactive =
     res_bind (al_tapscript_sibling sha allocation) (\<lambda>sibling.
     res_bind (ok_or (al_script_key allocation) ScriptKeyGenMissing) (\<lambda>key.
       let v_out = v_out_of allocation interactive sibling key in
       if available piece = 0 \<or> to_fill = 0 then
         (if interactive \<or> \<not> al_split_root allocation then Ok (piece, 0)
          else Ok (push_output piece (v_out\<lparr>vo_output_type := SPLIT_ROOT\<rparr>), 0))
       else
         let allocating = (if available piece < to_fill then available piece else to_fill);
             consume_fully = (allocated piece = 0 \<and> available piece \<le> to_fill);
             need_split_root = (al_split_root allocation \<and> (\<not> interactive \<or> \<not> consume_fully));
             split_root_is_only_output = (al_split_root allocation \<and> consume_fully);
             out_type = (if need_split_root \<and> \<not> split_root_is_only_output then SPLIT_ROOT else SIMPLE);
             piece' = push_output piece (v_out\<lparr>vo_output_type := out_type, vo_amount := allocating\<rparr>)
         in Ok (piece'\<lparr>allocated := allocated piece + allocating\<rparr>, allocating)))"

section \<open>Distribution\<close>

fun sum_inputs ::
  "hash_fun \<Rightarrow> AssetType \<Rightarrow> bytes \<Rightarrow> Asset list \<Rightarrow> u64 \<Rightarrow> (u64, AllocationError) result" where
  "sum_inputs sha first_type first_tap_key [] input_sum = Ok input_sum"
| "sum_inputs sha first_type first_tap_key (input # inputs) input_sum =
     (if first_type \<noteq> effective_asset_type input then Err InputTypesNotEqual
      else if first_tap_key \<noteq> asset_tap_commitment_key sha input then Err InputGroupMismatch
      else res_bind (ok_or (checked_add input_sum (amount input)) AmountOverflow)
        (sum_inputs sha first_type first_tap_key inputs))"

fun sum_allocations :: "Allocation list \<Rightarrow> u64 \<Rightarrow> bool \<Rightarrow> (u64 \<times> bool, AllocationError) result" where
  "sum_allocations [] output_sum have_split_root = Ok (output_sum, have_split_root)"
| "sum_allocations (a # as) output_sum have_split_root =
     res_bind (allocation_validate a) (\<lambda>_.
     res_bind (ok_or (checked_add output_sum (al_amount a)) AmountOverflow) (\<lambda>output_sum.
       sum_allocations as output_sum (have_split_root \<or> al_split_root a)))"

definition group_by_id :: "hash_fun \<Rightarrow> Asset list \<Rightarrow> (AssetId \<times> Asset list) list" where
  "group_by_id sha inputs =
     foldl (\<lambda>grouped input. let aid = asset_id sha input in
       btree_insert aid ((case map_of grouped aid of Some as \<Rightarrow> as | None \<Rightarrow> []) @ [input]) grouped) [] inputs"

fun sum_by_id :: "Asset list \<Rightarrow> u64 \<Rightarrow> (u64, AllocationError) result" where
  "sum_by_id [] acc = Ok acc"
| "sum_by_id (a # as) acc = res_bind (ok_or (checked_add acc (amount a)) AmountOverflow) (sum_by_id as)"

definition new_piece ::
  "TapNetwork \<Rightarrow> VPacketVersion \<Rightarrow> AssetId \<times> Asset list \<Rightarrow> (Piece, AllocationError) result" where
  "new_piece chain_params vpkt_version grp =
     (case grp of (aid, assets_by_id) \<Rightarrow>
        res_bind (sum_by_id assets_by_id 0) (\<lambda>total.
          let assets_by_id = sort_by asset_sort_for_inputs assets_by_id in
          Ok \<lparr>pc_asset_id = aid, total_available = total, allocated = 0, pc_inputs = assets_by_id,
            packet = \<lparr>vp_inputs = map (v_input_from_asset aid) assets_by_id, vp_outputs = [],
              vp_chain_params = chain_params, vp_version = vpkt_version\<rparr>\<rparr>))"

fun fill_pieces ::
  "hash_fun \<Rightarrow> Piece list \<Rightarrow> Allocation \<Rightarrow> u64 \<Rightarrow> bool \<Rightarrow> (Piece list, AllocationError) result" where
  "fill_pieces sha [] allocation to_fill interactive = Ok []"
| "fill_pieces sha (piece # pieces) allocation to_fill interactive =
     res_bind (allocate_piece sha piece allocation to_fill interactive) (\<lambda>(piece, fill_delta).
       let to_fill = to_fill - fill_delta in
       if to_fill = 0 \<and> interactive then Ok (piece # pieces)
       else res_bind (fill_pieces sha pieces allocation to_fill interactive) (\<lambda>pieces. Ok (piece # pieces)))"

fun fill_allocations ::
  "hash_fun \<Rightarrow> Allocation list \<Rightarrow> bool \<Rightarrow> Piece list \<Rightarrow> (Piece list, AllocationError) result" where
  "fill_allocations sha [] interactive pieces = Ok pieces"
| "fill_allocations sha (allocation # allocations) interactive pieces =
     (if al_type allocation = NoAssets then fill_allocations sha allocations interactive pieces
      else res_bind (fill_pieces sha pieces allocation (al_amount allocation) interactive)
        (fill_allocations sha allocations interactive))"

definition assign_split_root :: "VPacket \<Rightarrow> VPacket" where
  "assign_split_root p =
     (if 1 < length (vp_outputs p) \<and> \<not> has_split_root_output p
      then p\<lparr>vp_outputs := (vp_outputs p)[0 := (vp_outputs p ! 0)\<lparr>vo_output_type := SPLIT_ROOT\<rparr>]\<rparr> else p)"

definition distribute_coins ::
  "hash_fun \<Rightarrow> Asset list \<Rightarrow> Allocation list \<Rightarrow> TapNetwork \<Rightarrow> bool \<Rightarrow> VPacketVersion \<Rightarrow> (VPacket list, AllocationError) result" where
  "distribute_coins sha inputs allocations chain_params interactive vpkt_version =
     (if inputs = [] then Err MissingInputs
      else if allocations = [] then Err MissingAllocations
      else
        res_bind (sum_inputs sha (effective_asset_type (inputs ! 0)) (asset_tap_commitment_key sha (inputs ! 0)) inputs 0)
          (\<lambda>input_sum.
        res_bind (sum_allocations allocations 0 False) (\<lambda>(output_sum, have_split_root).
          if \<not> interactive \<and> \<not> have_split_root then Err NoSplitRoot
          else if input_sum \<noteq> output_sum then Err (InputOutputSumMismatch input_sum output_sum)
          else
            res_bind (map_res (new_piece chain_params vpkt_version) (group_by_id sha inputs)) (\<lambda>pieces.
            res_bind (fill_allocations sha allocations interactive (sort_pieces_with_inputs pieces)) (\<lambda>pieces.
              let packets = map packet pieces in
              res_bind (validate_vpacket_versions packets) (\<lambda>_.
                if \<not> interactive then Ok packets else Ok (map assign_split_root packets)))))))"

text \<open>The allocations before the failing one keep their new commitment, as the caller's slice does.\<close>

fun assign_output_commitments ::
  "(u32 \<times> TapCommitment) list \<Rightarrow> Allocation list \<Rightarrow> Allocation list \<times> (unit, AllocationError) result" where
  "assign_output_commitments out_commitments [] = ([], Ok ())"
| "assign_output_commitments out_commitments (a # as) =
     (if al_type a = NoAssets then
        (case assign_output_commitments out_commitments as of (as', r) \<Rightarrow> (a # as', r))
      else case map_of out_commitments (al_output_index a) of
        None \<Rightarrow> (a # as, Err (MissingOutputCommitment (al_output_index a)))
      | Some c \<Rightarrow> (case assign_output_commitments out_commitments as of
          (as', r) \<Rightarrow> (a\<lparr>al_output_commitment := Some c\<rparr> # as', r)))"

end
