(* ===== verification/Distribute.thy ===== *)
theory Distribute
  imports Allocation Proof_Complete "HOL-Library.Multiset"
begin

text \<open>
  The distribution of coins is exact: every virtual packet spends what its inputs hold and every output index receives
  what its allocations ask for.
\<close>

section \<open>Sorting by a key\<close>

lemma cmp_Greater: "cmp x y = Greater \<longleftrightarrow> y < x"
  by (auto simp: cmp_def)

lemma then_with_cmp: "then_with (cmp a b) (cmp c d) = cmp (a, c) (b, d)"
  by (auto simp: cmp_def then_with_def)

lemma insert_by_key: "(\<And>x y. c x y = cmp (k x) (k y)) \<Longrightarrow> insert_by c x ys = insort_key k x ys"
  by (induction ys) (auto simp: cmp_Greater not_le)

lemma sort_by_key: "(\<And>x y. c x y = cmp (k x) (k y)) \<Longrightarrow> sort_by c xs = sort_key k xs"
  by (induction xs) (simp_all add: sort_by_def insert_by_key)

lemma mset_insert_by [simp]: "mset (insert_by c x ys) = add_mset x (mset ys)"
  by (induction ys) auto

lemma mset_sort_by [simp]: "mset (sort_by c xs) = mset xs"
  by (induction xs) (simp_all add: sort_by_def)

lemma set_sort_by [simp]: "set (sort_by c xs) = set xs"
  using mset_sort_by [of c xs] by (metis set_mset_mset)

lemma sum_sort_by: "(\<Sum>x\<leftarrow>sort_by c xs. (f x :: nat)) = (\<Sum>x\<leftarrow>xs. f x)"
  by (metis mset_map mset_sort_by sum_mset_sum_list)

text \<open>Allocations are ordered by amount, key, lock time and HTLC index; equal ones keep their order.\<close>

lemma in_place_allocation_sort_key:
  "in_place_allocation_sort as
    = sort_key (\<lambda>a. (al_btc_amount a, al_sort_taproot_key_bytes a, al_sort_cltv a, al_htlc_index a)) as"
  unfolding in_place_allocation_sort_def by (rule sort_by_key) (simp add: then_with_cmp)

lemma asset_sort_key:
  "sort_by asset_sort_for_inputs as = sort_key (\<lambda>a. (2 ^ 64 - unat (amount a), sk_pub_key (script_key a))) as"
proof (rule sort_by_key)
  fix i j :: Asset
  have "cmp (amount j) (amount i) = cmp (2 ^ 64 - unat (amount i)) (2 ^ 64 - unat (amount j))"
    by (auto simp: cmp_def word_less_nat_alt word_unat_eq_iff)
      (use unat_u64_less [of "amount i"] unat_u64_less [of "amount j"] in linarith)+
  then show "asset_sort_for_inputs i j = cmp (2 ^ 64 - unat (amount i), sk_pub_key (script_key i))
      (2 ^ 64 - unat (amount j), sk_pub_key (script_key j))"
    by (simp add: asset_sort_for_inputs_def then_with_cmp)
qed

section \<open>Amounts of packets\<close>

definition packet_assets :: "VPacket \<Rightarrow> Asset list" where
  "packet_assets p = List.map_filter vi_asset (vp_inputs p)"

definition packet_in :: "VPacket \<Rightarrow> nat" where
  "packet_in p = (\<Sum>a\<leftarrow>packet_assets p. unat (amount a))"

definition packet_out :: "VPacket \<Rightarrow> nat" where
  "packet_out p = (\<Sum>v\<leftarrow>vp_outputs p. unat (vo_amount v))"

definition packet_out_at :: "u32 \<Rightarrow> VPacket \<Rightarrow> nat" where
  "packet_out_at idx p = (\<Sum>v\<leftarrow>vp_outputs p. if vo_anchor_output_index v = idx then unat (vo_amount v) else 0)"

definition piece_ok :: "Piece \<Rightarrow> bool" where
  "piece_ok p \<longleftrightarrow> unat (allocated p) \<le> unat (total_available p)
     \<and> packet_out (packet p) = unat (allocated p)
     \<and> packet_in (packet p) = unat (total_available p)
     \<and> (allocated p = 0 \<longrightarrow> list_all vo_is_split_root (vp_outputs (packet p)))"

definition same_piece :: "Piece \<Rightarrow> Piece \<Rightarrow> bool" where
  "same_piece p q \<longleftrightarrow> total_available p = total_available q
     \<and> vp_inputs (packet p) = vp_inputs (packet q) \<and> vp_version (packet p) = vp_version (packet q)"

definition avail :: "Piece \<Rightarrow> nat" where
  "avail p = unat (total_available p) - unat (allocated p)"

definition allocatable :: "hash_fun \<Rightarrow> Allocation \<Rightarrow> bool" where
  "allocatable sha a \<longleftrightarrow> al_script_key a \<noteq> None \<and> (\<exists>s. al_tapscript_sibling sha a = Ok s)"

lemma unat_available: "piece_ok p \<Longrightarrow> unat (available p) = avail p"
  by (simp add: piece_ok_def available_def avail_def unat_sub word_le_nat_alt)

lemma packet_push [simp]:
  "packet_out (packet (push_output p v)) = packet_out (packet p) + unat (vo_amount v)"
  "packet_out_at idx (packet (push_output p v))
    = packet_out_at idx (packet p) + (if vo_anchor_output_index v = idx then unat (vo_amount v) else 0)"
  "packet_in (packet (push_output p v)) = packet_in (packet p)"
  "vp_outputs (packet (push_output p v)) = vp_outputs (packet p) @ [v]"
  "vp_inputs (packet (push_output p v)) = vp_inputs (packet p)"
  "vp_version (packet (push_output p v)) = vp_version (packet p)"
  "total_available (push_output p v) = total_available p" "allocated (push_output p v) = allocated p"
  by (simp_all add: push_output_def packet_out_def packet_out_at_def packet_in_def packet_assets_def)

section \<open>One piece\<close>

lemma v_out_of_simps [simp]:
  "vo_amount (v_out_of a i s k) = 0" "vo_anchor_output_index (v_out_of a i s k) = al_output_index a"
  by (simp_all add: v_out_of_def)

lemma allocate_piece_spec:
  assumes "allocatable sha a" "piece_ok p"
  obtains p' d where "allocate_piece sha p a t i = Ok (p', d)" "unat d = min (avail p) (unat t)"
    "piece_ok p'" "same_piece p p'" "avail p' = avail p - unat d"
    "\<And>idx. packet_out_at idx (packet p') = packet_out_at idx (packet p) + (if al_output_index a = idx then unat d else 0)"
proof -
  obtain s k where sk: "al_tapscript_sibling sha a = Ok s" "al_script_key a = Some k"
    using assms(1) by (auto simp: allocatable_def)
  note av = unat_available [OF assms(2)]
  show thesis
  proof (cases "available p = 0 \<or> t = 0")
    case True
    have none: "min (avail p) (unat t) = 0" using True av by auto
    show thesis
    proof (cases "i \<or> \<not> al_split_root a")
      case True
      with \<open>available p = 0 \<or> t = 0\<close> sk have "allocate_piece sha p a t i = Ok (p, 0)"
        by (simp add: allocate_piece_def ok_or_def)
      then show thesis by (rule that) (use none assms in \<open>auto simp: same_piece_def\<close>)
    next
      case False
      with \<open>available p = 0 \<or> t = 0\<close> sk have "allocate_piece sha p a t i
          = Ok (push_output p (v_out_of a i s k\<lparr>vo_output_type := SPLIT_ROOT\<rparr>), 0)"
        by (simp add: allocate_piece_def ok_or_def)
      then show thesis
        by (rule that) (use none assms in \<open>auto simp: same_piece_def piece_ok_def avail_def vo_is_split_root_def\<close>)
    qed
  next
    case False
    define d where "d = (if available p < t then available p else t)"
    have d: "unat d = min (avail p) (unat t)" using av by (auto simp: d_def word_less_nat_alt)
    obtain ty where out: "allocate_piece sha p a t i
        = Ok ((push_output p (v_out_of a i s k\<lparr>vo_output_type := ty, vo_amount := d\<rparr>))\<lparr>allocated := allocated p + d\<rparr>, d)"
      (is "_ = Ok (?q, d)")
      using False sk by (simp add: allocate_piece_def ok_or_def Let_def d_def)
    have le: "unat (allocated p) + unat d \<le> unat (total_available p)"
      using assms(2) d by (auto simp: piece_ok_def avail_def)
    have plus: "unat (allocated p + d) = unat (allocated p) + unat d"
    proof (rule unat_add_no_overflow)
      show "unat (allocated p) + unat d < 2 ^ LENGTH(64)"
        using le unat_lt2p [of "total_available p"] by (rule le_less_trans)
    qed
    have "d \<noteq> 0" using False by (simp add: d_def)
    then have "allocated p + d \<noteq> 0" using plus by (metis add_eq_0_iff_both_eq_0 unat_eq_zero)
    then have ok: "piece_ok ?q" using assms(2) le plus by (simp add: piece_ok_def)
    show thesis
      by (rule that [OF out d ok]) (simp_all add: same_piece_def avail_def plus)
  qed
qed

text \<open>A piece that has seen the split root of a non-interactive transfer has a split root output, or was spent by one output.\<close>

definition rooted :: "Piece \<Rightarrow> bool" where
  "rooted p \<longleftrightarrow> has_split_root_output (packet p) \<or> available p = 0 \<and> length (vp_outputs (packet p)) \<le> 1"

lemma allocate_piece_rooted:
  assumes "piece_ok p" "allocate_piece sha p a t False = Ok (p', d)" "al_split_root a \<or> rooted p"
  shows "rooted p'"
proof -
  obtain s k where sk: "al_tapscript_sibling sha a = Ok s" "al_script_key a = Some k"
    using assms(2) by (auto simp: allocate_piece_def res_simps)
  let ?v = "v_out_of a False s k"
  have only: "(r \<and> (\<not> False \<or> \<not> c)) \<and> \<not> (r \<and> c) \<longleftrightarrow> r \<and> \<not> c" for r c by blast
  have step: "allocate_piece sha p a t False =
      (if available p = 0 \<or> t = 0 then
         (if \<not> al_split_root a then Ok (p, 0) else Ok (push_output p (?v\<lparr>vo_output_type := SPLIT_ROOT\<rparr>), 0))
       else let dd = (if available p < t then available p else t);
              ty = (if al_split_root a \<and> \<not> (allocated p = 0 \<and> available p \<le> t) then SPLIT_ROOT else SIMPLE)
            in Ok ((push_output p (?v\<lparr>vo_output_type := ty, vo_amount := dd\<rparr>))\<lparr>allocated := allocated p + dd\<rparr>, dd))"
    unfolding allocate_piece_def sk res_bind.simps ok_or_def option.case Let_def only by simp
  consider (skip) "available p = 0 \<or> t = 0" "\<not> al_split_root a" | (tomb) "available p = 0 \<or> t = 0" "al_split_root a"
    | (fill) "\<not> (available p = 0 \<or> t = 0)" by blast
  then show ?thesis
  proof cases
    case skip
    then show ?thesis using assms(2,3) by (simp add: step)
  next
    case tomb
    then have "p' = push_output p (?v\<lparr>vo_output_type := SPLIT_ROOT\<rparr>)" using assms(2) by (simp add: step)
    then show ?thesis by (simp add: rooted_def has_split_root_output_def vo_is_split_root_def)
  next
    case fill
    define dd where "dd = (if available p < t then available p else t)"
    define ty where "ty = (if al_split_root a \<and> \<not> (allocated p = 0 \<and> available p \<le> t) then SPLIT_ROOT else SIMPLE)"
    have p': "p' = (push_output p (?v\<lparr>vo_output_type := ty, vo_amount := dd\<rparr>))\<lparr>allocated := allocated p + dd\<rparr>"
      using fill assms(2) unfolding step Let_def dd_def [symmetric] ty_def [symmetric] by auto
    show ?thesis
    proof (cases "has_split_root_output (packet p) \<or> ty = SPLIT_ROOT")
      case True
      with p' show ?thesis
        by (auto simp: rooted_def has_split_root_output_def vo_is_split_root_def push_output_def)
    next
      case False
      then have split: "al_split_root a" and all: "allocated p = 0" "available p \<le> t"
        using assms(3) fill by (auto simp: rooted_def ty_def split: if_splits)
      then have "vp_outputs (packet p) = []"
        using assms(1) False by (cases "vp_outputs (packet p)") (auto simp: piece_ok_def has_split_root_output_def)
      moreover have "dd = available p" using all by (auto simp: dd_def)
      ultimately show ?thesis
        using p' all by (simp add: rooted_def available_def push_output_def)
    qed
  qed
qed


section \<open>All pieces\<close>

definition piece_step :: "Piece \<Rightarrow> Piece \<Rightarrow> bool" where
  "piece_step p q \<longleftrightarrow> same_piece p q \<and> piece_ok q"

lemma fill_pieces_spec:
  assumes "allocatable sha a" "\<forall>p \<in> set ps. piece_ok p" "unat t \<le> (\<Sum>p\<leftarrow>ps. avail p)"
  shows "\<exists>qs. fill_pieces sha ps a t i = Ok qs \<and> list_all2 piece_step ps qs
    \<and> (\<Sum>q\<leftarrow>qs. avail q) = (\<Sum>p\<leftarrow>ps. avail p) - unat t
    \<and> (\<forall>idx. (\<Sum>q\<leftarrow>qs. packet_out_at idx (packet q))
        = (\<Sum>p\<leftarrow>ps. packet_out_at idx (packet p)) + (if al_output_index a = idx then unat t else 0))"
  using assms(2,3)
proof (induction ps arbitrary: t)
  case (Cons p ps)
  obtain p' d where alloc: "allocate_piece sha p a t i = Ok (p', d)" and d: "unat d = min (avail p) (unat t)"
    and p': "piece_ok p'" "same_piece p p'" "avail p' = avail p - unat d"
    and at: "\<And>idx. packet_out_at idx (packet p')
      = packet_out_at idx (packet p) + (if al_output_index a = idx then unat d else 0)"
    using allocate_piece_spec [OF assms(1), of p t i] Cons.prems(1) by auto
  have rest: "unat (t - d) = unat t - unat d" using d by (simp add: unat_sub word_le_nat_alt)
  show ?case
  proof (cases "t - d = 0 \<and> i")
    case True
    have "list_all2 piece_step ps ps" using Cons.prems(1) by (auto simp: list_all2_same piece_step_def same_piece_def)
    moreover have "unat d = unat t" using True by simp
    moreover have "piece_step p p'" "fill_pieces sha (p # ps) a t i = Ok (p' # ps)"
      using alloc True p' by (simp_all add: piece_step_def)
    moreover have "unat d \<le> avail p" using d by simp
    ultimately show ?thesis
      using p'(3) at by (intro exI [of _ "p' # ps"]) simp
  next
    case False
    have "unat (t - d) \<le> (\<Sum>p\<leftarrow>ps. avail p)" using Cons.prems(2) rest d by auto
    then obtain qs where "fill_pieces sha ps a (t - d) i = Ok qs" "list_all2 piece_step ps qs"
      "(\<Sum>q\<leftarrow>qs. avail q) = (\<Sum>p\<leftarrow>ps. avail p) - unat (t - d)"
      "\<forall>idx. (\<Sum>q\<leftarrow>qs. packet_out_at idx (packet q))
        = (\<Sum>p\<leftarrow>ps. packet_out_at idx (packet p)) + (if al_output_index a = idx then unat (t - d) else 0)"
      using Cons.IH [of "t - d"] Cons.prems(1) by auto
    moreover from this have "fill_pieces sha (p # ps) a t i = Ok (p' # qs)"
      using alloc False by (auto simp: Let_def)
    moreover have "piece_step p p'" using p' by (simp add: piece_step_def)
    moreover have "unat d \<le> avail p" "unat d \<le> unat t" using d by simp_all
    ultimately show ?thesis
      using p'(3) at rest \<open>unat (t - d) \<le> _\<close> by (intro exI [of _ "p' # qs"]) simp
  qed
qed simp

lemma fill_pieces_visits:
  "fill_pieces sha ps a t False = Ok qs \<Longrightarrow> list_all2 (\<lambda>p q. \<exists>t d. allocate_piece sha p a t False = Ok (q, d)) ps qs"
  by (induction ps arbitrary: t qs) (auto simp: res_simps Let_def)

lemma fill_pieces_rooted:
  assumes "fill_pieces sha ps a t False = Ok qs" "\<forall>p \<in> set ps. piece_ok p" "al_split_root a \<or> (\<forall>p \<in> set ps. rooted p)"
  shows "\<forall>q \<in> set qs. rooted q"
proof
  fix q assume "q \<in> set qs"
  then obtain p t d where "p \<in> set ps" "allocate_piece sha p a t False = Ok (q, d)"
    using list_all2_right [OF fill_pieces_visits [OF assms(1)]] by blast
  then show "rooted q" using allocate_piece_rooted assms(2,3) by blast
qed

section \<open>All allocations\<close>

definition carries :: "Allocation \<Rightarrow> bool" where
  "carries a \<longleftrightarrow> al_type a \<noteq> NoAssets"

lemma piece_step_trans: "list_all2 piece_step ps qs \<Longrightarrow> list_all2 piece_step qs rs \<Longrightarrow> list_all2 piece_step ps rs"
  by (rule list_all2_trans [of piece_step piece_step piece_step]) (auto simp: piece_step_def same_piece_def)

lemma piece_step_ok: "list_all2 piece_step ps qs \<Longrightarrow> \<forall>q \<in> set qs. piece_ok q"
  by (auto simp: list_all2_conv_all_nth in_set_conv_nth piece_step_def)

lemma fill_allocations_spec:
  assumes "\<forall>a \<in> set as. carries a \<longrightarrow> allocatable sha a" "\<forall>p \<in> set ps. piece_ok p"
    and "(\<Sum>a\<leftarrow>filter carries as. unat (al_amount a)) \<le> (\<Sum>p\<leftarrow>ps. avail p)"
  shows "\<exists>qs. fill_allocations sha as i ps = Ok qs \<and> list_all2 piece_step ps qs
    \<and> (\<Sum>q\<leftarrow>qs. avail q) = (\<Sum>p\<leftarrow>ps. avail p) - (\<Sum>a\<leftarrow>filter carries as. unat (al_amount a))
    \<and> (\<forall>idx. (\<Sum>q\<leftarrow>qs. packet_out_at idx (packet q)) = (\<Sum>p\<leftarrow>ps. packet_out_at idx (packet p))
        + (\<Sum>a\<leftarrow>filter carries as. if al_output_index a = idx then unat (al_amount a) else 0))
    \<and> (\<not> i \<and> (\<exists>a \<in> set as. carries a \<and> al_split_root a) \<or> (\<not> i \<and> (\<forall>p \<in> set ps. rooted p)) \<longrightarrow> (\<forall>q \<in> set qs. rooted q))"
  using assms
proof (induction as arbitrary: ps)
  case Nil
  then show ?case by (auto simp: list_all2_same piece_step_def same_piece_def)
next
  case (Cons a as)
  show ?case
  proof (cases "carries a")
    case False
    then show ?thesis using Cons.IH [of ps] Cons.prems by (auto simp: carries_def)
  next
    case True
    obtain qs where qs: "fill_pieces sha ps a (al_amount a) i = Ok qs" "list_all2 piece_step ps qs"
      "(\<Sum>q\<leftarrow>qs. avail q) = (\<Sum>p\<leftarrow>ps. avail p) - unat (al_amount a)"
      "\<forall>idx. (\<Sum>q\<leftarrow>qs. packet_out_at idx (packet q))
        = (\<Sum>p\<leftarrow>ps. packet_out_at idx (packet p)) + (if al_output_index a = idx then unat (al_amount a) else 0)"
      using fill_pieces_spec [of sha a ps "al_amount a" i] Cons.prems True by auto
    have "(\<Sum>a\<leftarrow>filter carries as. unat (al_amount a)) \<le> (\<Sum>q\<leftarrow>qs. avail q)" using qs(3) Cons.prems(3) True by simp
    then obtain rs where rs: "fill_allocations sha as i qs = Ok rs" "list_all2 piece_step qs rs"
      "(\<Sum>q\<leftarrow>rs. avail q) = (\<Sum>p\<leftarrow>qs. avail p) - (\<Sum>a\<leftarrow>filter carries as. unat (al_amount a))"
      "\<forall>idx. (\<Sum>q\<leftarrow>rs. packet_out_at idx (packet q)) = (\<Sum>p\<leftarrow>qs. packet_out_at idx (packet p))
        + (\<Sum>a\<leftarrow>filter carries as. if al_output_index a = idx then unat (al_amount a) else 0)"
      "\<not> i \<and> (\<exists>a \<in> set as. carries a \<and> al_split_root a) \<or> (\<not> i \<and> (\<forall>p \<in> set qs. rooted p)) \<longrightarrow> (\<forall>q \<in> set rs. rooted q)"
      using Cons.IH [of qs] Cons.prems(1) piece_step_ok [OF qs(2)] by auto
    have "\<forall>q \<in> set qs. rooted q" if "\<not> i" "al_split_root a \<or> (\<forall>p \<in> set ps. rooted p)"
      using fill_pieces_rooted [of sha ps a _ qs] qs(1) Cons.prems(2) that by auto
    moreover have "fill_allocations sha (a # as) i ps = Ok rs" using qs(1) rs(1) True by (simp add: carries_def)
    ultimately show ?thesis
      using True qs(3,4) rs piece_step_trans [OF qs(2) rs(2)] by (intro exI [of _ rs]) auto
  qed
qed


section \<open>The pieces at the start\<close>

lemma btree_push:
  "btree_sorted m \<Longrightarrow>
    mset (concat (map snd (btree_insert k ((case map_of m k of Some xs \<Rightarrow> xs | None \<Rightarrow> []) @ [x]) m)))
      = add_mset x (mset (concat (map snd m)))"
proof (induction m)
  case (Cons e m)
  obtain k' v' where e: "e = (k', v')" by (cases e)
  have "map_of m k = None" if "k < k'"
    using Cons.prems that e by (auto simp: btree_sorted_def map_of_eq_None_iff)
  moreover have "btree_sorted m" using Cons.prems by (simp add: btree_sorted_def)
  ultimately show ?case using Cons.IH e by auto
qed simp

definition grouped_ok :: "hash_fun \<Rightarrow> (AssetId \<times> Asset list) list \<Rightarrow> bool" where
  "grouped_ok sha gs \<longleftrightarrow> btree_sorted gs \<and> (\<forall>(aid, as) \<in> set gs. \<forall>a \<in> set as. asset_id sha a = aid)"

lemma group_by_id_snoc:
  "group_by_id sha (inputs @ [a]) = (let gs = group_by_id sha inputs; aid = asset_id sha a in
     btree_insert aid ((case map_of gs aid of Some as \<Rightarrow> as | None \<Rightarrow> []) @ [a]) gs)"
  by (simp add: group_by_id_def Let_def)

lemma group_by_id_ok: "grouped_ok sha (group_by_id sha inputs)"
proof (induction inputs rule: rev_induct)
  case Nil
  then show ?case by (simp add: grouped_ok_def group_by_id_def)
next
  case (snoc a inputs)
  let ?gs = "group_by_id sha inputs" and ?aid = "asset_id sha a"
  let ?new = "(case map_of ?gs ?aid of Some as \<Rightarrow> as | None \<Rightarrow> []) @ [a]"
  have gs: "btree_sorted ?gs" "\<forall>(aid, as) \<in> set ?gs. \<forall>a \<in> set as. asset_id sha a = aid"
    using snoc by (auto simp: grouped_ok_def)
  have "asset_id sha b = ?aid" if "b \<in> set ?new" for b
  proof (cases "map_of ?gs ?aid")
    case (Some xs)
    then have "(?aid, xs) \<in> set ?gs" by (rule map_of_SomeD)
    then show ?thesis using gs(2) that Some by auto
  qed (use that in simp)
  moreover have "e = (?aid, ?new) \<or> e \<in> set ?gs" if "e \<in> set (btree_insert ?aid ?new ?gs)" for e
    using that btree_insert_set [of ?aid ?new ?gs] by blast
  ultimately have "\<forall>(aid, as) \<in> set (btree_insert ?aid ?new ?gs). \<forall>a \<in> set as. asset_id sha a = aid"
    using gs(2) by blast
  then show ?case
    unfolding grouped_ok_def group_by_id_snoc Let_def using btree_sorted_insert [OF gs(1)] by simp
qed

lemma mset_group_by_id: "mset (concat (map snd (group_by_id sha inputs))) = mset inputs"
proof (induction inputs rule: rev_induct)
  case (snoc a inputs)
  have "btree_sorted (group_by_id sha inputs)" using group_by_id_ok by (auto simp: grouped_ok_def)
  from btree_push [OF this, of "asset_id sha a" a] snoc show ?case
    by (simp add: group_by_id_snoc Let_def)
qed (simp add: group_by_id_def)

definition total_of :: "Asset list \<Rightarrow> nat" where
  "total_of as = (\<Sum>a\<leftarrow>as. unat (amount a))"

lemma total_of_cong: "mset as = mset bs \<Longrightarrow> total_of as = total_of bs"
  unfolding total_of_def by (metis mset_map sum_mset_sum_list)

lemma total_of_concat: "total_of (concat ass) = (\<Sum>as\<leftarrow>ass. total_of as)"
  by (induction ass) (simp_all add: total_of_def)

lemma checked_add_fits: "unat x + unat y < 2 ^ 64 \<Longrightarrow> checked_add x y = Some (x + y) \<and> unat (x + y) = unat x + unat y"
  for x y :: u64
  by (simp add: checked_add_def unat_word_ariths)

lemma sum_by_id_ok: "unat acc + total_of as < 2 ^ 64 \<Longrightarrow> \<exists>s. sum_by_id as acc = Ok s \<and> unat s = unat acc + total_of as"
proof (induction as arbitrary: acc)
  case (Cons a as)
  then have "unat acc + unat (amount a) < 2 ^ 64" by (simp add: total_of_def)
  note f = checked_add_fits [OF this]
  from Cons.IH [of "acc + amount a"] Cons.prems f show ?case by (auto simp: total_of_def ok_or_def)
qed (simp add: total_of_def)

lemma sum_inputs_ok:
  assumes "\<forall>a \<in> set as. effective_asset_type a = ty \<and> asset_tap_commitment_key sha a = tk" "unat acc + total_of as < 2 ^ 64"
  shows "\<exists>s. sum_inputs sha ty tk as acc = Ok s \<and> unat s = unat acc + total_of as"
  using assms
proof (induction as arbitrary: acc)
  case (Cons a as)
  then have "unat acc + unat (amount a) < 2 ^ 64" by (simp add: total_of_def)
  note f = checked_add_fits [OF this]
  from Cons.IH [of "acc + amount a"] Cons.prems f show ?case by (auto simp: total_of_def ok_or_def)
qed (simp add: total_of_def)

lemma sum_allocations_ok:
  assumes "\<forall>a \<in> set as. allocation_validate a = Ok ()" "unat acc + (\<Sum>a\<leftarrow>as. unat (al_amount a)) < 2 ^ 64"
  shows "\<exists>s. sum_allocations as acc h = Ok (s, h \<or> list_ex al_split_root as) \<and> unat s = unat acc + (\<Sum>a\<leftarrow>as. unat (al_amount a))"
  using assms
proof (induction as arbitrary: acc h)
  case (Cons a as)
  then have "unat acc + unat (al_amount a) < 2 ^ 64" by simp
  note f = checked_add_fits [OF this]
  from Cons.IH [of "acc + al_amount a" "h \<or> al_split_root a"] Cons.prems f show ?case by (auto simp: ok_or_def)
qed simp

definition start_piece :: "VPacketVersion \<Rightarrow> AssetId \<times> Asset list \<Rightarrow> Piece \<Rightarrow> bool" where
  "start_piece ver g p \<longleftrightarrow> pc_asset_id p = fst g \<and> piece_ok p \<and> avail p = total_of (snd g)
     \<and> mset (packet_assets (packet p)) = mset (snd g) \<and> vp_outputs (packet p) = [] \<and> vp_version (packet p) = ver"

lemma packet_assets_from: "List.map_filter vi_asset (map (v_input_from_asset aid) as) = as"
  by (induction as) (simp_all add: List.map_filter_def v_input_from_asset_def)

lemma new_piece_ok:
  assumes "total_of (snd g) < 2 ^ 64"
  shows "\<exists>p. new_piece net ver g = Ok p \<and> start_piece ver g p"
proof -
  obtain aid as where g: "g = (aid, as)" by (cases g)
  obtain s where s: "sum_by_id as 0 = Ok s" "unat s = total_of as"
    using sum_by_id_ok [of 0 as] assms g by auto
  have "total_of (sort_by asset_sort_for_inputs as) = total_of as" by (rule total_of_cong) simp
  then show ?thesis
    using s g by (simp add: new_piece_def start_piece_def piece_ok_def avail_def packet_in_def packet_out_def
        packet_assets_def packet_assets_from Let_def flip: total_of_def)
qed

lemma map_res_exists:
  "\<forall>x \<in> set xs. \<exists>y. f x = Ok y \<and> P x y \<Longrightarrow> \<exists>ys. map_res f xs = Ok ys \<and> list_all2 P xs ys"
  by (induction xs) auto

lemma start_pieces:
  assumes "total_of inputs < 2 ^ 64"
  shows "\<exists>ps. map_res (new_piece net ver) (group_by_id sha inputs) = Ok ps
    \<and> list_all2 (start_piece ver) (group_by_id sha inputs) (sort_pieces_with_inputs ps)"
proof -
  let ?gs = "group_by_id sha inputs"
  have "total_of (snd g) < 2 ^ 64" if "g \<in> set ?gs" for g
  proof -
    have "total_of (snd g) \<le> (\<Sum>as\<leftarrow>map snd ?gs. total_of as)"
      using that by (intro member_le_sum_list) auto
    also have "\<dots> = total_of inputs"
      using total_of_cong [OF mset_group_by_id [of sha inputs]] by (simp only: total_of_concat)
    finally show ?thesis using assms by simp
  qed
  then obtain ps where ps: "map_res (new_piece net ver) ?gs = Ok ps" "list_all2 (start_piece ver) ?gs ps"
    using map_res_exists [of ?gs "new_piece net ver" "start_piece ver"] new_piece_ok by blast
  have ids: "map pc_asset_id ps = map fst ?gs"
    using ps(2) by (induction rule: list_all2_induct) (auto simp: start_piece_def)
  moreover have "btree_sorted ?gs" using group_by_id_ok by (auto simp: grouped_ok_def)
  ultimately have "sorted (map pc_asset_id ps)" by (simp add: btree_sorted_def strict_sorted_iff)
  then have "sort_pieces_with_inputs ps = map (\<lambda>p. p\<lparr>pc_inputs := sort_by asset_sort_for_inputs (pc_inputs p)\<rparr>) ps"
    unfolding sort_pieces_with_inputs_def by (subst sort_by_key [of _ pc_asset_id]) (simp_all add: sort_key_id_if_sorted)
  moreover have "start_piece ver g (p\<lparr>pc_inputs := xs\<rparr>) = start_piece ver g p" for g p xs
    by (simp add: start_piece_def piece_ok_def avail_def)
  ultimately show ?thesis using ps by (simp add: list_all2_map2)
qed


section \<open>The distribution\<close>

lemma assign_split_root_simps [simp]:
  "packet_out_at idx (assign_split_root p) = packet_out_at idx p"
  "packet_out (assign_split_root p) = packet_out p"
  "packet_in (assign_split_root p) = packet_in p" "packet_assets (assign_split_root p) = packet_assets p"
  "length (vp_outputs (assign_split_root p)) = length (vp_outputs p)"
  by (cases "vp_outputs p"; simp add: assign_split_root_def packet_out_at_def packet_out_def packet_in_def packet_assets_def)+

lemma assign_split_root_has: "1 < length (vp_outputs p) \<Longrightarrow> has_split_root_output (assign_split_root p)"
  by (cases "vp_outputs p") (auto simp: assign_split_root_def has_split_root_output_def vo_is_split_root_def)

lemma same_versions_valid: "\<forall>p \<in> set ps. vp_version p = ver \<Longrightarrow> validate_vpacket_versions ps = Ok ()"
  by (cases ps) (auto simp: validate_vpacket_versions_def list_ex_iff)

lemma avail_0_balanced: "piece_ok p \<Longrightarrow> avail p = 0 \<Longrightarrow> packet_out (packet p) = packet_in (packet p)"
  by (simp add: piece_ok_def avail_def)

definition of_groups :: "hash_fun \<Rightarrow> AssetId list \<Rightarrow> VPacket list \<Rightarrow> bool" where
  "of_groups sha ids packets \<longleftrightarrow> sorted_wrt (<) ids
     \<and> list_all2 (\<lambda>aid p. \<forall>a \<in> set (packet_assets p). asset_id sha a = aid) ids packets"

lemma fill_start_pieces:
  assumes "total_of inputs < 2 ^ 64" "total_of inputs = (\<Sum>a\<leftarrow>filter carries as. unat (al_amount a))"
    and "\<forall>a \<in> set as. carries a \<longrightarrow> allocatable sha a"
  obtains ps qs where "map_res (new_piece net ver) (group_by_id sha inputs) = Ok ps"
    "fill_allocations sha as i (sort_pieces_with_inputs ps) = Ok qs"
    "mset (concat (map (packet_assets \<circ> packet) qs)) = mset inputs"
    "of_groups sha (map fst (group_by_id sha inputs)) (map packet qs)"
    "\<forall>q \<in> set qs. packet_out (packet q) = packet_in (packet q) \<and> vp_version (packet q) = ver"
    "\<forall>idx. (\<Sum>q\<leftarrow>qs. packet_out_at idx (packet q))
      = (\<Sum>a\<leftarrow>filter carries as. if al_output_index a = idx then unat (al_amount a) else 0)"
    "\<not> i \<and> (\<exists>a \<in> set as. carries a \<and> al_split_root a) \<longrightarrow> (\<forall>q \<in> set qs. rooted q)"
proof -
  let ?gs = "group_by_id sha inputs"
  obtain ps where ps: "map_res (new_piece net ver) ?gs = Ok ps" "list_all2 (start_piece ver) ?gs (sort_pieces_with_inputs ps)"
    using start_pieces [OF assms(1)] by blast
  define ps' where "ps' = sort_pieces_with_inputs ps"
  have start: "list_all2 (start_piece ver) ?gs ps'" using ps(2) by (simp add: ps'_def)
  have sums: "(\<Sum>p\<leftarrow>ps'. avail p) = total_of inputs" "(\<Sum>p\<leftarrow>ps'. packet_out_at idx (packet p)) = 0" for idx
  proof -
    have "(\<Sum>p\<leftarrow>ps'. avail p) = (\<Sum>as\<leftarrow>map snd ?gs. total_of as)"
      using start by (induction rule: list_all2_induct) (simp_all add: start_piece_def)
    then show "(\<Sum>p\<leftarrow>ps'. avail p) = total_of inputs"
      using total_of_cong [OF mset_group_by_id [of sha inputs]] by (simp only: total_of_concat)
    show "(\<Sum>p\<leftarrow>ps'. packet_out_at idx (packet p)) = 0"
      using start by (induction rule: list_all2_induct) (simp_all add: start_piece_def packet_out_at_def)
  qed
  have ok: "\<forall>p \<in> set ps'. piece_ok p"
    using list_all2_right [OF start] by (auto simp: start_piece_def)
  have le: "(\<Sum>a\<leftarrow>filter carries as. unat (al_amount a)) \<le> (\<Sum>p\<leftarrow>ps'. avail p)" using sums(1) assms(2) by simp
  from fill_allocations_spec [OF assms(3) ok le, of i]
  obtain qs where fill: "fill_allocations sha as i ps' = Ok qs" and steps: "list_all2 piece_step ps' qs"
    and left: "(\<Sum>q\<leftarrow>qs. avail q) = (\<Sum>p\<leftarrow>ps'. avail p) - (\<Sum>a\<leftarrow>filter carries as. unat (al_amount a))"
    and at: "\<And>idx. (\<Sum>q\<leftarrow>qs. packet_out_at idx (packet q)) = (\<Sum>p\<leftarrow>ps'. packet_out_at idx (packet p))
        + (\<Sum>a\<leftarrow>filter carries as. if al_output_index a = idx then unat (al_amount a) else 0)"
    and root: "\<not> i \<Longrightarrow> \<exists>a \<in> set as. carries a \<and> al_split_root a \<Longrightarrow> \<forall>q \<in> set qs. rooted q"
    by blast
  have zero: "(\<Sum>q\<leftarrow>qs. avail q) = 0" using left sums(1) assms(2) by simp
  have rel: "list_all2 (\<lambda>g q. mset (packet_assets (packet q)) = mset (snd g) \<and> piece_ok q \<and> vp_version (packet q) = ver) ?gs qs"
    by (rule list_all2_trans [OF _ start steps]) (simp add: start_piece_def piece_step_def same_piece_def packet_assets_def)
  have "mset (concat (map (packet_assets \<circ> packet) qs)) = mset (concat (map snd ?gs))"
    using rel by (induction rule: list_all2_induct) simp_all
  moreover have "of_groups sha (map fst ?gs) (map packet qs)"
  proof -
    have "\<forall>g \<in> set ?gs. \<forall>a \<in> set (snd g). asset_id sha a = fst g" "btree_sorted ?gs"
      using group_by_id_ok [of sha inputs] by (auto simp: grouped_ok_def)
    moreover have "list_all2 (\<lambda>g q. \<forall>a \<in> set (packet_assets (packet q)). asset_id sha a = fst g) ?gs qs"
      by (rule list.rel_mono_strong [OF rel]) (use calculation(1) in \<open>auto dest: mset_eq_setD\<close>)
    ultimately show ?thesis by (simp add: of_groups_def btree_sorted_def list_all2_map1 list_all2_map2)
  qed
  moreover have "packet_out (packet q) = packet_in (packet q) \<and> vp_version (packet q) = ver" if "q \<in> set qs" for q
  proof -
    have "avail q = 0" using zero that by (simp add: sum_list_eq_0_iff)
    moreover have "piece_ok q \<and> vp_version (packet q) = ver"
      using list_all2_right [OF rel that] by blast
    ultimately show ?thesis using avail_0_balanced by simp
  qed
  ultimately show thesis
    using that [OF ps(1) fill [unfolded ps'_def]] at sums(2) root by (simp add: mset_group_by_id)
qed


text \<open>C9: the distribution of coins is exact. For input assets of one type and one group and valid allocations that ask in sum for what the
  inputs hold (and for nothing where they carry no assets), \<^verbatim>\<open>distribute_coins\<close> succeeds. The inputs of the packets are the
  given assets, one packet per asset ID; the outputs of every packet add up to its inputs, every output index receives the units its
  allocations ask for, and every packet with more than one output has a split root.\<close>

theorem distribute_coins_conserves:
  assumes "inputs \<noteq> []" "allocations \<noteq> []"
    and "\<forall>a \<in> set inputs. effective_asset_type a = effective_asset_type (inputs ! 0)
        \<and> asset_tap_commitment_key sha a = asset_tap_commitment_key sha (inputs ! 0)"
    and "\<forall>a \<in> set allocations. allocation_validate a = Ok ()"
    and "\<forall>a \<in> set allocations. if al_type a = NoAssets then al_amount a = 0 else \<exists>s. al_tapscript_sibling sha a = Ok s"
    and "total_of inputs = (\<Sum>a\<leftarrow>allocations. unat (al_amount a))" "total_of inputs < 2 ^ 64"
    and "interactive \<or> (\<exists>a \<in> set allocations. al_type a \<noteq> NoAssets \<and> al_split_root a)"
  shows "\<exists>packets ids. distribute_coins sha inputs allocations net interactive ver = Ok packets
    \<and> mset (concat (map packet_assets packets)) = mset inputs
    \<and> of_groups sha ids packets
    \<and> (\<forall>p \<in> set packets. packet_out p = packet_in p
        \<and> (1 < length (vp_outputs p) \<longrightarrow> has_split_root_output p))
    \<and> (\<forall>idx. (\<Sum>p\<leftarrow>packets. packet_out_at idx p)
        = (\<Sum>a\<leftarrow>filter (\<lambda>a. al_output_index a = idx) allocations. unat (al_amount a)))"
proof -
  have carried: "(\<Sum>a\<leftarrow>filter carries allocations. f a) = (\<Sum>a\<leftarrow>allocations. f a)"
    if "\<And>a. al_amount a = 0 \<Longrightarrow> f a = 0" for f :: "Allocation \<Rightarrow> nat"
    using assms(5) that by (induction allocations) (auto simp: carries_def split: if_splits)
  have able: "\<forall>a \<in> set allocations. carries a \<longrightarrow> allocatable sha a"
    using assms(4,5) by (auto simp: carries_def allocatable_def allocation_validate_def split: if_splits)
  have asked: "total_of inputs = (\<Sum>a\<leftarrow>filter carries allocations. unat (al_amount a))"
    using carried assms(6) by simp
  obtain ps qs where ps: "map_res (new_piece net ver) (group_by_id sha inputs) = Ok ps"
    and qs: "fill_allocations sha allocations interactive (sort_pieces_with_inputs ps) = Ok qs"
    and parts: "mset (concat (map (packet_assets \<circ> packet) qs)) = mset inputs"
      "of_groups sha (map fst (group_by_id sha inputs)) (map packet qs)"
    and bal: "\<forall>q \<in> set qs. packet_out (packet q) = packet_in (packet q) \<and> vp_version (packet q) = ver"
    and at: "\<forall>idx. (\<Sum>q\<leftarrow>qs. packet_out_at idx (packet q))
      = (\<Sum>a\<leftarrow>filter carries allocations. if al_output_index a = idx then unat (al_amount a) else 0)"
    and root: "\<not> interactive \<and> (\<exists>a \<in> set allocations. carries a \<and> al_split_root a) \<longrightarrow> (\<forall>q \<in> set qs. rooted q)"
    by (rule fill_start_pieces [OF assms(7) asked able, where net = net and ver = ver and i = interactive])
  obtain s t where sums: "sum_inputs sha (effective_asset_type (inputs ! 0)) (asset_tap_commitment_key sha (inputs ! 0)) inputs 0 = Ok s"
      "sum_allocations allocations 0 False = Ok (t, list_ex al_split_root allocations)" "s = t"
    using sum_inputs_ok [OF assms(3), of 0] sum_allocations_ok [OF assms(4), of 0 False] assms(6,7)
    by (simp del: word_unat_eq_iff) (metis word_unat_eq_iff)
  have "interactive \<or> list_ex al_split_root allocations" using assms(8) by (auto simp: list_ex_iff)
  then have run: "distribute_coins sha inputs allocations net interactive ver
      = Ok (if interactive then map (assign_split_root \<circ> packet) qs else map packet qs)"
    using assms(1,2) sums ps qs bal same_versions_valid [of "map packet qs" ver]
    by (simp add: distribute_coins_def Let_def)
  have "(\<Sum>a\<leftarrow>filter carries allocations. if al_output_index a = idx then unat (al_amount a) else 0)
      = (\<Sum>a\<leftarrow>filter (\<lambda>a. al_output_index a = idx) allocations. unat (al_amount a))" for idx
    by (subst carried) (simp_all add: sum_list_map_filter')
  moreover have "has_split_root_output (packet q)" if "\<not> interactive" "q \<in> set qs" "1 < length (vp_outputs (packet q))" for q
    using root that assms(8) by (auto simp: carries_def rooted_def)
  moreover have "of_groups sha ids (map (assign_split_root \<circ> packet) qs) = of_groups sha ids (map packet qs)" for ids
    by (simp add: of_groups_def list_all2_map2)
  ultimately show ?thesis
    using parts bal at unfolding run
    by (intro exI [of _ "if interactive then map (assign_split_root \<circ> packet) qs else map packet qs"]
        exI [of _ "map fst (group_by_id sha inputs)"] conjI; cases interactive)
      (auto simp: comp_def assign_split_root_has)
qed

section \<open>A distribution over two packets\<close>

definition demo_tranche :: "u32 \<Rightarrow> u64 \<Rightarrow> Asset" where
  "demo_tranche idx n = asset_default\<lparr>genesis := genesis_empty\<lparr>g_output_index := idx\<rparr>, amount := n,
     group_key := Some (bare_group_key (zeros 33))\<rparr>"

definition demo_allocation :: "AllocationType \<Rightarrow> u32 \<Rightarrow> u64 \<Rightarrow> Allocation" where
  "demo_allocation ty idx n = allocation_default\<lparr>al_type := ty, al_output_index := idx, al_amount := n,
     al_script_key := Some (script_key_from_pub_key (zeros 33)), al_split_root := ty = CommitAllocationToLocal\<rparr>"

theorem distribute_coins_conserves_witness:
  "\<exists>packets ids. distribute_coins (\<lambda>bs. take 32 (rev bs @ zeros 32)) [demo_tranche 0 7, demo_tranche 1 5]
      [demo_allocation CommitAllocationToLocal 0 4, demo_allocation CommitAllocationToRemote 1 8] Regtest False VPacketV1
      = Ok packets
    \<and> of_groups (\<lambda>bs. take 32 (rev bs @ zeros 32)) ids packets
    \<and> (\<forall>p \<in> set packets. packet_out p = packet_in p) \<and> (\<Sum>p\<leftarrow>packets. packet_out_at 1 p) = 8"
proof -
  let ?sha = "\<lambda>bs :: bytes. take 32 (rev bs @ zeros 32)"
  let ?in = "[demo_tranche 0 7, demo_tranche 1 5]"
  let ?as = "[demo_allocation CommitAllocationToLocal 0 4, demo_allocation CommitAllocationToRemote 1 8]"
  have kind: "\<forall>a \<in> set ?in. effective_asset_type a = effective_asset_type (?in ! 0)
      \<and> asset_tap_commitment_key ?sha a = asset_tap_commitment_key ?sha (?in ! 0)"
    by (simp add: demo_tranche_def effective_asset_type_def asset_tap_commitment_key_def tap_commitment_key_def bare_group_key_def)
  have valid: "\<forall>a \<in> set ?as. allocation_validate a = Ok ()"
    by (simp add: demo_allocation_def allocation_default_def allocation_validate_def)
  have able: "\<forall>a \<in> set ?as. if al_type a = NoAssets then al_amount a = 0 else \<exists>s. al_tapscript_sibling ?sha a = Ok s"
    by (simp add: demo_allocation_def allocation_default_def al_tapscript_sibling_def)
  have sums: "total_of ?in = (\<Sum>a\<leftarrow>?as. unat (al_amount a))" "total_of ?in < 2 ^ 64"
    by (simp_all add: total_of_def demo_tranche_def demo_allocation_def)
  have root: "False \<or> (\<exists>a \<in> set ?as. al_type a \<noteq> NoAssets \<and> al_split_root a)" by (simp add: demo_allocation_def)
  have one: "(\<Sum>a\<leftarrow>filter (\<lambda>a. al_output_index a = 1) ?as. unat (al_amount a)) = 8" by (simp add: demo_allocation_def)
  obtain packets ids where "distribute_coins ?sha ?in ?as Regtest False VPacketV1 = Ok packets" "of_groups ?sha ids packets"
    "\<forall>p \<in> set packets. packet_out p = packet_in p \<and> (1 < length (vp_outputs p) \<longrightarrow> has_split_root_output p)"
    "\<forall>idx. (\<Sum>p\<leftarrow>packets. packet_out_at idx p) = (\<Sum>a\<leftarrow>filter (\<lambda>a. al_output_index a = idx) ?as. unat (al_amount a))"
    using distribute_coins_conserves [OF list.distinct(2) list.distinct(2) kind valid able sums root, of Regtest VPacketV1] by blast
  moreover from this(4) one have "(\<Sum>p\<leftarrow>packets. packet_out_at 1 p) = 8" by simp
  ultimately show ?thesis by blast
qed


section \<open>The scripts of channel outputs\<close>

lemma be_decode_le:
  fixes n :: u64
  shows "unat n \<le> 0xffff \<Longrightarrow> be_decode (rev (u16_le (ucast n))) = unat n"
    and "unat n \<le> 0xffffffff \<Longrightarrow> be_decode (rev (u32_le (ucast n))) = unat n"
    and "be_decode (rev (u64_le n)) = unat n"
  by (simp_all add: u16_le_def u32_le_def u64_le_def u16_be_def u32_be_def u64_be_def be_decode_encode_mod unat_ucast_mod)

lemma length_u64_le [simp]: "length (u64_le w) = 8"
  by (simp add: u64_le_def)

lemma read_write_var_bytes:
  assumes "length script < 2 ^ 63"
  shows "read_var_bytes (write_var_bytes [] script) = Ok (script, length (write_var_bytes [] script))"
proof -
  let ?n = "of_nat (length script) :: u64"
  have n: "unat ?n = length script" using assms by (simp add: unat_of_nat)
  note defs = read_var_bytes_def write_var_bytes_def Let_def word_less_nat_alt word_le_nat_alt unat_ucast_mod
    usize_add_exact slice_of_def be_decode_le n
  consider "?n < 0xfd" | "\<not> ?n < 0xfd" "?n \<le> 0xffff" | "\<not> ?n < 0xfd" "\<not> ?n \<le> 0xffff" "?n \<le> 0xffffffff"
    | "\<not> ?n < 0xfd" "\<not> ?n \<le> 0xffff" "\<not> ?n \<le> 0xffffffff" by blast
  then show ?thesis by cases (use assms in \<open>simp_all add: defs\<close>)
qed

lemma one_leaf_tap_hash:
  assumes "length script < 2 ^ 63" "\<not> is_tap_commitment_script sha script"
  shows "tap_hash sha \<lparr>sibling_type = 0, sibling_preimage = write_var_bytes [v] script\<rparr> = Ok (tap_leaf_hash sha v script)"
proof -
  have w: "write_var_bytes [v] script = v # write_var_bytes [] script" by (simp add: write_var_bytes_def Let_def)
  have "write_var_bytes [] script \<noteq> []" by (simp add: write_var_bytes_def Let_def)
  then have "\<not> length (v # write_var_bytes [] script) < 2" by (cases "write_var_bytes [] script") simp_all
  then show ?thesis
    using read_write_var_bytes [OF assms(1)] assms(2)
    by (simp add: tap_hash_def preimage_is_empty_def w)
qed

lemma final_pk_script_eq_builder:
  assumes "al_type a \<noteq> NoAssets" "al_output_commitment a = Some c" "al_internal_key a = Some key" "pub_key_valid lib key"
    and "\<forall>k. pub_key_valid lib k \<longrightarrow> x_only_valid (btc lib) (drop 1 k)"
    and "al_sibling_preimage a = None" "al_non_asset_leaves a = (case leaf of Some script \<Rightarrow> [script] | None \<Rightarrow> [])"
    and "pred_option (\<lambda>script. length script < 2 ^ 63 \<and> \<not> is_tap_commitment_script sha script) leaf"
  shows "final_pk_script sha lib a = Ok script \<longleftrightarrow> (\<exists>out. create_tap_output_script sha lib key c leaf = Ok (script, out))"
proof -
  have "\<exists>sib. al_tapscript_sibling sha a = Ok sib
      \<and> (case sib of Some preimage \<Rightarrow> map_ok Some (map_err (\<lambda>_. AlInvalidPreimage ''tap hash'') (tap_hash sha preimage))
          | None \<Rightarrow> Ok None) = Ok (map_option (tap_leaf_hash sha 0xc0) leaf)"
    using assms(6-8) by (cases leaf) (simp_all add: al_tapscript_sibling_def one_leaf_tap_hash BASE_LEAF_VERSION_def)
  then obtain sib where sib: "al_tapscript_sibling sha a = Ok sib"
    "(case sib of Some preimage \<Rightarrow> map_ok Some (map_err (\<lambda>_. AlInvalidPreimage ''tap hash'') (tap_hash sha preimage))
      | None \<Rightarrow> Ok None) = Ok (map_option (tap_leaf_hash sha 0xc0) leaf)" by blast
  let ?root = "tapscript_root sha c (map_option (tap_leaf_hash sha 0xc0) leaf)"
  have "taproot_output_key sha lib key ?root = Ok k \<longleftrightarrow> compute_taproot_output_key sha lib (drop 1 key) (Some ?root) = Ok k" for k
    using assms(4,5)
    by (simp add: taproot_output_key_def compute_taproot_output_key_def tweak_pub_key_def compute_tap_tweak_def
        schnorr_bytes_def Let_def ok_or_def split: option.splits)
  then show ?thesis
    using assms(1-4) sib
    by (auto simp: final_pk_script_def ok_or_def create_tap_output_script_def pay_to_taproot_script_def Let_def res_simps)
qed

text \<open>C10: the output script of an asset-carrying allocation is the one that the on-chain builder creates. With the same internal key,
  commitment and (at most one) other tapscript leaf, \<^verbatim>\<open>Allocation::final_pk_script\<close> and \<^verbatim>\<open>create_tap_output_script\<close> return the
  same script, and one fails exactly when the other does. A valid compressed key is assumed to have a valid x coordinate.\<close>

theorem final_pk_script_matches_builder:
  assumes "al_type a \<noteq> NoAssets" "al_output_commitment a = Some c" "al_internal_key a = Some key" "pub_key_valid lib key"
    and "\<forall>k. pub_key_valid lib k \<longrightarrow> x_only_valid (btc lib) (drop 1 k)"
    and "al_sibling_preimage a = None" "al_non_asset_leaves a = (case leaf of Some script \<Rightarrow> [script] | None \<Rightarrow> [])"
    and "pred_option (\<lambda>script. length script < 2 ^ 63 \<and> \<not> is_tap_commitment_script sha script) leaf"
  shows "final_pk_script sha lib a = Ok script \<longleftrightarrow> (\<exists>out. create_tap_output_script sha lib key c leaf = Ok (script, out))"
  using assms by (rule final_pk_script_eq_builder)

theorem final_pk_script_matches_builder_witness:
  "\<exists>script. final_pk_script demo_hash demo_secp ((demo_allocation HtlcOutgoing 0 1)\<lparr>al_internal_key := Some NUMS_KEY,
       al_non_asset_leaves := [[0x51]], al_output_commitment := Some \<lparr>tc_version = TapV2, tc_tree_root = (Leaf leaf_empty, Leaf leaf_empty)\<rparr>\<rparr>) = Ok script
     \<and> (\<exists>out. create_tap_output_script demo_hash demo_secp NUMS_KEY \<lparr>tc_version = TapV2, tc_tree_root = (Leaf leaf_empty, Leaf leaf_empty)\<rparr> (Some [0x51])
         = Ok (script, out))"
proof -
  let ?c = "\<lparr>tc_version = TapV2, tc_tree_root = (Leaf leaf_empty, Leaf leaf_empty)\<rparr>"
  let ?a = "(demo_allocation HtlcOutgoing 0 1)\<lparr>al_internal_key := Some NUMS_KEY, al_non_asset_leaves := [[0x51]],
    al_output_commitment := Some ?c\<rparr>"
  obtain script out where out: "create_tap_output_script demo_hash demo_secp NUMS_KEY ?c (Some [0x51]) = Ok (script, out)"
    by (simp add: create_tap_output_script_def taproot_output_key_def demo_secp_def demo_lib_def Let_def ok_or_def)
  have "final_pk_script demo_hash demo_secp ?a = Ok script
      \<longleftrightarrow> (\<exists>out. create_tap_output_script demo_hash demo_secp NUMS_KEY ?c (Some [0x51]) = Ok (script, out))"
    by (rule final_pk_script_matches_builder)
      (simp_all add: demo_allocation_def allocation_default_def demo_secp_def demo_lib_def is_tap_commitment_script_def)
  with out show ?thesis by blast
qed

section \<open>Output commitments\<close>

lemma assign_output_commitments_all:
  assumes "\<forall>a \<in> set as. al_type a \<noteq> NoAssets \<longrightarrow> map_of cs (al_output_index a) \<noteq> None"
  shows "assign_output_commitments cs as = (map (\<lambda>a. if al_type a = NoAssets then a
      else a\<lparr>al_output_commitment := map_of cs (al_output_index a)\<rparr>) as, Ok ())"
  using assms by (induction as) auto

lemma no_assets_amount_dropped:
  "\<exists>p. distribute_coins sha [demo_tranche 0 7]
     [demo_allocation CommitAllocationToLocal 0 4, demo_allocation NoAssets 1 3] net True ver = Ok [p]
     \<and> packet_in p = 7 \<and> packet_out p = 4"
  by (simp add: distribute_coins_def demo_tranche_def demo_allocation_def allocation_default_def allocation_validate_def
      checked_add_def ok_or_def group_by_id_def new_piece_def sort_by_def sort_pieces_with_inputs_def allocate_piece_def
      al_tapscript_sibling_def available_def push_output_def v_out_of_def validate_vpacket_versions_def assign_split_root_def
      packet_in_def packet_out_def packet_assets_def v_input_from_asset_def List.map_filter_def Let_def)

end
