(* ===== verification/Rfq_Math.thy ===== *)
theory Rfq_Math
  imports Prelude
begin

text \<open>
  Fixed-point exchange rates: \<^verbatim>\<open>tap-ldk/src/rfq/math.rs\<close>. A rate is
  \<open>coefficient * 10 ^ (- scale)\<close> asset units per bitcoin; all arithmetic is checked
  \<open>u128\<close> arithmetic. The lemmas give the exact rational meaning of the two conversions and show that
  neither conversion rounds in favour of its caller.
\<close>

datatype FixedPointError = FpOverflow | DivisionByZero | CoefficientTooLarge nat | MissingScale

record FixedPoint =
  coefficient :: u128
  scale :: u8

definition MSAT_PER_BTC :: u128 where "MSAT_PER_BTC = 100000000000"
definition DEFAULT_ARITHMETIC_SCALE :: u8 where "DEFAULT_ARITHMETIC_SCALE = 11"
definition MAX_COEFFICIENT_BYTES :: nat where "MAX_COEFFICIENT_BYTES = 16"

definition pow10 :: "u8 \<Rightarrow> (u128, FixedPointError) result" where
  "pow10 e = (if 10 ^ unat e < (2 :: nat) ^ 128 then Ok (of_nat (10 ^ unat e)) else Err FpOverflow)"

definition mul_u128 :: "u128 \<Rightarrow> u128 \<Rightarrow> (u128, FixedPointError) result" where
  "mul_u128 a b = ok_or (checked_mul a b) FpOverflow"

definition to_u64 :: "u128 \<Rightarrow> (u64, FixedPointError) result" where
  "to_u64 v = (if unat v < 2 ^ 64 then Ok (ucast v) else Err FpOverflow)"

definition fixed_point_new :: "u128 \<Rightarrow> u8 \<Rightarrow> FixedPoint" where
  "fixed_point_new c s = \<lparr>coefficient = c, scale = s\<rparr>"

definition from_scaled_value :: "u64 \<Rightarrow> u8 \<Rightarrow> (FixedPoint, FixedPointError) result" where
  "from_scaled_value v s =
     res_bind (pow10 s) (\<lambda>p.
       res_bind (mul_u128 (ucast v) p) (\<lambda>c. Ok \<lparr>coefficient = c, scale = s\<rparr>))"

definition from_integer :: "u64 \<Rightarrow> FixedPoint" where
  "from_integer v = \<lparr>coefficient = ucast v, scale = 0\<rparr>"

definition fp_is_zero :: "FixedPoint \<Rightarrow> bool" where
  "fp_is_zero r \<longleftrightarrow> coefficient r = 0"

definition to_u64_floor :: "FixedPoint \<Rightarrow> (u64, FixedPointError) result" where
  "to_u64_floor r = res_bind (pow10 (scale r)) (\<lambda>d. to_u64 (coefficient r div d))"

definition scale_to :: "FixedPoint \<Rightarrow> u8 \<Rightarrow> (FixedPoint, FixedPointError) result" where
  "scale_to r new_scale =
     res_bind
       (if new_scale = scale r then Ok (coefficient r)
        else if scale r < new_scale then
          res_bind (pow10 (new_scale - scale r)) (\<lambda>p. mul_u128 (coefficient r) p)
        else res_bind (pow10 (scale r - new_scale)) (\<lambda>p. Ok (coefficient r div p)))
       (\<lambda>c. Ok \<lparr>coefficient = c, scale = new_scale\<rparr>)"

definition fp_encode_tlv :: "FixedPoint \<Rightarrow> bytes" where
  "fp_encode_tlv r = scale r # dropWhile (\<lambda>b. b = 0) (be_encode 16 (unat (coefficient r)))"

definition fp_decode_tlv :: "bytes \<Rightarrow> (FixedPoint, FixedPointError) result" where
  "fp_decode_tlv data =
     (case data of
        [] \<Rightarrow> Err MissingScale
      | sc # coeff_bytes \<Rightarrow>
          if MAX_COEFFICIENT_BYTES < length coeff_bytes
          then Err (CoefficientTooLarge (length coeff_bytes))
          else Ok \<lparr>coefficient = of_nat (be_decode (zeros (16 - length coeff_bytes) @ coeff_bytes)),
                   scale = sc\<rparr>)"

definition units_to_milli_satoshi :: "u64 \<Rightarrow> FixedPoint \<Rightarrow> (u64, FixedPointError) result" where
  "units_to_milli_satoshi asset_units rate =
     (if coefficient rate = 0 then Err DivisionByZero
      else let s = max DEFAULT_ARITHMETIC_SCALE (scale rate) in
        res_bind (pow10 s) (\<lambda>ten_s.
        res_bind (mul_u128 (ucast asset_units) ten_s) (\<lambda>units_scaled.
        res_bind (pow10 (s - scale rate)) (\<lambda>p.
        res_bind (mul_u128 (coefficient rate) p) (\<lambda>rate_scaled.
        res_bind (mul_u128 units_scaled ten_s) (\<lambda>num.
        let amt_btc = num div rate_scaled in
        res_bind (mul_u128 amt_btc MSAT_PER_BTC) (\<lambda>amt_msat.
        to_u64 (amt_msat div ten_s))))))))"

definition milli_satoshi_to_units :: "u64 \<Rightarrow> FixedPoint \<Rightarrow> (u64, FixedPointError) result" where
  "milli_satoshi_to_units milli_sat rate =
     (let s = max DEFAULT_ARITHMETIC_SCALE (scale rate) in
      res_bind (pow10 s) (\<lambda>ten_s.
      res_bind (mul_u128 (ucast milli_sat) ten_s) (\<lambda>num.
      let amt_btc = num div MSAT_PER_BTC in
      res_bind (mul_u128 amt_btc (coefficient rate)) (\<lambda>prod.
      res_bind (pow10 (scale rate)) (\<lambda>p.
      let amt_units = prod div p in
      res_bind (pow10 (s - scale rate)) (\<lambda>q.
      let units_at_rate_scale = amt_units div q in
      to_u64 (units_at_rate_scale div p)))))))"

section \<open>Checked arithmetic as arithmetic of naturals\<close>

lemma pow10_Ok_iff: "pow10 e = Ok p \<longleftrightarrow> unat p = 10 ^ unat e"
proof
  assume "pow10 e = Ok p"
  then show "unat p = 10 ^ unat e"
    by (auto simp: pow10_def unat_of_nat simp del: of_nat_power split: if_splits)
next
  assume eq: "unat p = 10 ^ unat e"
  then have "(10 :: nat) ^ unat e < 2 ^ 128" using unat_lt2p [of p] by simp
  moreover have "of_nat (unat p) = p" by simp
  ultimately show "pow10 e = Ok p" using eq by (simp add: pow10_def del: of_nat_power of_nat_unat)
qed

lemma mul_u128_Ok_iff: "mul_u128 a b = Ok c \<longleftrightarrow> unat c = unat a * unat b"
  by (simp add: mul_u128_def res_simps checked_mul_eq_Some_iff)

lemma to_u64_Ok_iff: "to_u64 v = Ok w \<longleftrightarrow> unat w = unat v"
proof
  assume "to_u64 v = Ok w"
  then show "unat w = unat v"
    by (auto simp: to_u64_def unsigned_ucast_eq take_bit_eq_mod split: if_splits)
next
  assume eq: "unat w = unat v"
  then have "unat v < 2 ^ 64" using unat_lt2p [of w] by simp
  moreover from this have "ucast v = w"
    using eq by (simp add: word_unat_eq_iff unsigned_ucast_eq take_bit_eq_mod)
  ultimately show "to_u64 v = Ok w" by (simp add: to_u64_def)
qed

lemma checked_no_panic [simp]: "pow10 e \<noteq> Panic" "mul_u128 a b \<noteq> Panic" "to_u64 v \<noteq> Panic"
  by (simp_all add: pow10_def mul_u128_def to_u64_def)

lemma unat_ucast_up [simp]: "unat (ucast (x :: u64) :: u128) = unat x"
proof -
  have "unat x < 2 ^ 128" using unat_u64_less [of x] by (rule less_trans) simp
  then show ?thesis by (simp add: unsigned_ucast_eq take_bit_eq_mod)
qed

lemma unat_div_word: "unat (a div b) = unat a div unat b"
  for a b :: u128
  by (rule unat_div)

lemma unat_max_scale:
  "unat (max DEFAULT_ARITHMETIC_SCALE sc) = max 11 (unat sc)"
  "unat (max DEFAULT_ARITHMETIC_SCALE sc - sc) = max 11 (unat sc) - unat sc"
  by (auto simp: DEFAULT_ARITHMETIC_SCALE_def max_def word_le_nat_alt unat_sub)

lemma units_to_msat_Ok:
  assumes "units_to_milli_satoshi u r = Ok m"
  defines "sc \<equiv> unat (scale r)" and "s \<equiv> max 11 (unat (scale r))" and "c \<equiv> unat (coefficient r)"
  shows "0 < c" "unat m = (unat u * 10 ^ s * 10 ^ s div (c * 10 ^ (s - sc))) * 10 ^ 11 div 10 ^ s"
proof -
  from assms(1) show "0 < c"
    by (auto simp: units_to_milli_satoshi_def c_def word_neq_0_conv unat_gt_0 split: if_splits)
  from assms(1) show "unat m = (unat u * 10 ^ s * 10 ^ s div (c * 10 ^ (s - sc))) * 10 ^ 11 div 10 ^ s"
    by (auto simp: units_to_milli_satoshi_def Let_def res_simps pow10_Ok_iff mul_u128_Ok_iff to_u64_Ok_iff
        unat_div_word unat_max_scale sc_def s_def c_def MSAT_PER_BTC_def split: if_splits)
qed

lemma msat_to_units_Ok:
  assumes "milli_satoshi_to_units m r = Ok u"
  defines "sc \<equiv> unat (scale r)" and "s \<equiv> max 11 (unat (scale r))" and "c \<equiv> unat (coefficient r)"
  shows "unat u = (unat m * 10 ^ s div 10 ^ 11) * c div 10 ^ sc div 10 ^ (s - sc) div 10 ^ sc"
  using assms(1)
  by (auto simp: milli_satoshi_to_units_def Let_def res_simps pow10_Ok_iff mul_u128_Ok_iff to_u64_Ok_iff
      unat_div_word unat_max_scale sc_def s_def c_def MSAT_PER_BTC_def)

text \<open>The three truncations of \<^verbatim>\<open>milli_satoshi_to_units\<close> amount to a single one.\<close>

lemma msat_to_units_floor:
  assumes "milli_satoshi_to_units m r = Ok u"
  shows "unat u = unat m * unat (coefficient r) div 10 ^ (11 + unat (scale r))"
proof -
  let ?sc = "unat (scale r)" and ?c = "unat (coefficient r)"
  define s where "s = max 11 ?sc"
  have s: "11 \<le> s" "?sc \<le> s" by (simp_all add: s_def)
  define k where "k = (10 :: nat) ^ (s - 11)"
  have k: "0 < k" by (simp add: k_def)
  have p: "(10 :: nat) ^ s = 10 ^ 11 * k" "(10 :: nat) ^ s = 10 ^ ?sc * 10 ^ (s - ?sc)"
    unfolding k_def by (metis le_add_diff_inverse power_add s(1), metis le_add_diff_inverse power_add s(2))
  have "unat m * 10 ^ s div 10 ^ 11 = unat m * k"
    unfolding p(1) by simp
  then have "unat u = (unat m * k) * ?c div 10 ^ ?sc div 10 ^ (s - ?sc) div 10 ^ ?sc"
    using msat_to_units_Ok [OF assms] by (simp add: s_def del: power_numeral)
  also have "\<dots> = (unat m * k) * ?c div (10 ^ s * 10 ^ ?sc)"
    unfolding p(2) by (simp only: div_mult2_eq)
  also have "(10 :: nat) ^ s * 10 ^ ?sc = k * 10 ^ (11 + ?sc)"
    unfolding p(1) power_add by (simp only: ac_simps)
  also have "unat m * k * ?c div (k * 10 ^ (11 + ?sc)) = k * (unat m * ?c) div (k * 10 ^ (11 + ?sc))"
    by (simp only: ac_simps)
  also have "\<dots> = unat m * ?c div 10 ^ (11 + ?sc)"
    using k by (intro div_mult_mult1) simp
  finally show ?thesis .
qed

text \<open>So do those of \<^verbatim>\<open>units_to_milli_satoshi\<close>, the working scale being at least 11.\<close>

lemma units_to_msat_floor:
  assumes "units_to_milli_satoshi u r = Ok m"
  shows "unat m = unat u * 10 ^ (11 + unat (scale r)) div unat (coefficient r)"
proof -
  let ?sc = "unat (scale r)" and ?c = "unat (coefficient r)"
  define s where "s = max 11 ?sc"
  define a where "a = unat u * 10 ^ s * 10 ^ ?sc div ?c"
  have s: "11 \<le> s" "?sc \<le> s" by (simp_all add: s_def)
  have c: "0 < ?c" by (rule units_to_msat_Ok(1) [OF assms])
  have split: "(10 :: nat) ^ s = 10 ^ ?sc * 10 ^ (s - ?sc)" using s by (simp flip: power_add)
  have "unat u * 10 ^ s * 10 ^ s div (?c * 10 ^ (s - ?sc))
      = (unat u * 10 ^ s * 10 ^ ?sc) * 10 ^ (s - ?sc) div (?c * 10 ^ (s - ?sc))"
    by (subst (2) split) (simp add: mult.assoc)
  also have "\<dots> = a" unfolding a_def by (rule div_mult_mult2) simp
  finally have m: "unat m = a * 10 ^ 11 div 10 ^ s"
    using units_to_msat_Ok(2) [OF assms] by (simp add: s_def)
  have p: "(10 :: nat) ^ s = 10 ^ 11 * 10 ^ (s - 11)"
    by (metis le_add_diff_inverse power_add s(1))
  then have m': "unat m = a div 10 ^ (s - 11)"
    using m by (simp add: mult.commute [of a] del: power_numeral)
  define t where "t = (10 :: nat) ^ (s - 11)"
  have t: "0 < t" by (simp add: t_def)
  have lo: "unat m * t \<le> a" and hi: "a < (unat m + 1) * t"
    using m' dividend_less_div_times [OF t, of a] by (simp_all add: t_def)
  have alo: "a * ?c \<le> unat u * 10 ^ s * 10 ^ ?sc" and ahi: "unat u * 10 ^ s * 10 ^ ?sc < (a + 1) * ?c"
    using c by (simp_all add: a_def dividend_less_div_times)
  have e: "unat u * 10 ^ s * 10 ^ ?sc = (unat u * 10 ^ (11 + ?sc)) * t"
    by (simp add: t_def p power_add)
  have "(unat m * ?c) * t = (unat m * t) * ?c" by (simp only: ac_simps)
  also have "\<dots> \<le> a * ?c" using lo by (rule mult_le_mono1)
  also have "\<dots> \<le> (unat u * 10 ^ (11 + ?sc)) * t" using alo unfolding e .
  finally have "(unat m * ?c) * t \<le> (unat u * 10 ^ (11 + ?sc)) * t" .
  then have le: "unat m * ?c \<le> unat u * 10 ^ (11 + ?sc)" using t by simp
  have "a + 1 \<le> (unat m + 1) * t" using hi by simp
  then have "(a + 1) * ?c \<le> (unat m + 1) * t * ?c" by (rule mult_le_mono1)
  also have "\<dots> = ((unat m + 1) * ?c) * t" by (simp only: ac_simps)
  finally have "(unat u * 10 ^ (11 + ?sc)) * t < ((unat m + 1) * ?c) * t"
    using ahi unfolding e by (rule less_le_trans [rotated])
  then have "unat u * 10 ^ (11 + ?sc) < (unat m + 1) * ?c" using mult_less_cancel2 by blast
  with le show ?thesis
    by (intro div_nat_eqI [symmetric]) (simp_all add: ac_simps)
qed

section \<open>When the conversions succeed\<close>

lemma pow10_ex: "10 ^ unat e < (2 :: nat) ^ 128 \<Longrightarrow> \<exists>p. pow10 e = Ok p \<and> unat p = 10 ^ unat e"
  by (rule exI [of _ "of_nat (10 ^ unat e)"], simp only: pow10_Ok_iff)
    (simp add: unat_of_nat del: of_nat_power)

lemma mul_u128_ex: "unat a * unat b < 2 ^ 128 \<Longrightarrow> \<exists>c. mul_u128 a b = Ok c \<and> unat c = unat a * unat b"
  by (rule exI [of _ "a * b"], simp only: mul_u128_Ok_iff) (simp add: unat_word_ariths)

lemma to_u64_ex: "unat v < 2 ^ 64 \<Longrightarrow> \<exists>w. to_u64 v = Ok w \<and> unat w = unat v"
  by (rule exI [of _ "ucast v"], simp only: to_u64_Ok_iff) (simp add: unsigned_ucast_eq take_bit_eq_mod)

lemma pow10_small: "e \<le> 11 \<Longrightarrow> (10 :: nat) ^ e < 2 ^ 128"
  using power_increasing [of e 11 "10 :: nat"] by simp

text \<open>For rates of scale at most 11, the scale Go computes with, the conversion of milli-satoshis fails
  only where the product with the coefficient leaves 128 bits or the result 64 bits.\<close>

lemma msat_to_units_succeeds:
  assumes "unat (scale r) \<le> 11" "unat m * unat (coefficient r) < 2 ^ 128"
    and "unat m * unat (coefficient r) div 10 ^ (11 + unat (scale r)) < 2 ^ 64"
  shows "\<exists>u. milli_satoshi_to_units m r = Ok u"
proof -
  let ?s = "max DEFAULT_ARITHMETIC_SCALE (scale r)"
  have s: "unat ?s = 11" "unat (?s - scale r) = 11 - unat (scale r)"
    using assms(1) unfolding unat_max_scale by simp_all
  obtain ten_s where ten_s: "pow10 ?s = Ok ten_s" "unat ten_s = 10 ^ 11"
    using pow10_ex [of ?s] s by auto
  have "unat m * 10 ^ 11 < 2 ^ 64 * 10 ^ 11" using unat_lt2p [of m] by simp
  also have "\<dots> < (2 :: nat) ^ 128" by simp
  finally obtain num where num: "mul_u128 (ucast m) ten_s = Ok num" "unat num = unat m * 10 ^ 11"
    using mul_u128_ex [of "ucast m" ten_s] ten_s(2) by auto
  then have btc: "unat (num div MSAT_PER_BTC) = unat m"
    by (simp add: unat_div_word MSAT_PER_BTC_def)
  with assms(2) obtain prod where prod: "mul_u128 (num div MSAT_PER_BTC) (coefficient r) = Ok prod"
      "unat prod = unat m * unat (coefficient r)"
    using mul_u128_ex [of "num div MSAT_PER_BTC" "coefficient r"] by auto
  obtain p where p: "pow10 (scale r) = Ok p" "unat p = 10 ^ unat (scale r)"
    using pow10_ex [of "scale r"] pow10_small assms(1) by auto
  obtain q where q: "pow10 (?s - scale r) = Ok q" "unat q = 10 ^ (11 - unat (scale r))"
    using pow10_ex [of "?s - scale r"] pow10_small [of "11 - unat (scale r)"] s by auto
  have "(10 :: nat) ^ unat (scale r) * 10 ^ (11 - unat (scale r)) = 10 ^ 11"
    by (metis assms(1) le_add_diff_inverse power_add)
  then have "unat (prod div p div q div p) = unat m * unat (coefficient r) div 10 ^ (11 + unat (scale r))"
    unfolding power_add by (simp only: unat_div_word prod(2) p(2) q(2) flip: div_mult2_eq)
  with assms(3) obtain u where "to_u64 (prod div p div q div p) = Ok u"
    using to_u64_ex by metis
  then have "milli_satoshi_to_units m r = Ok u"
    by (simp add: milli_satoshi_to_units_def Let_def ten_s(1) num(1) prod(1) p(1) q(1))
  then show ?thesis ..
qed

section \<open>The wire form of a rate\<close>

lemma zeros_dropWhile: "zeros (length bs - length (dropWhile (\<lambda>b. b = 0) bs)) @ dropWhile (\<lambda>b. b = 0) bs = bs"
  by (induction bs) (auto simp: zeros_def Suc_diff_le length_dropWhile_le)

lemma fp_decode_encode: "fp_decode_tlv (fp_encode_tlv r) = Ok r"
proof -
  let ?bs = "be_encode 16 (unat (coefficient r))"
  have "length (dropWhile (\<lambda>b. b = 0) ?bs) \<le> 16" using length_dropWhile_le [of _ ?bs] by simp
  moreover have "be_decode (zeros (16 - length (dropWhile (\<lambda>b. b = 0) ?bs)) @ dropWhile (\<lambda>b. b = 0) ?bs)
      = unat (coefficient r)"
    using zeros_dropWhile [of ?bs] unat_lt2p [of "coefficient r"] by (simp add: be_decode_encode)
  ultimately show ?thesis
    by (simp add: fp_decode_tlv_def fp_encode_tlv_def MAX_COEFFICIENT_BYTES_def)
qed

lemma length_fp_encode: "length (fp_encode_tlv r) \<le> 17"
  using length_dropWhile_le [of _ "be_encode 16 (unat (coefficient r))"] by (simp add: fp_encode_tlv_def)

section \<open>Properties\<close>

text \<open>The chain of scalings, divisions and rescalings by which asset units are converted to
  milli-satoshis loses nothing beyond one final truncation: whenever the conversion returns, the result is
  the exact quotient \<open>units * 10^11 / (coefficient * 10^-scale)\<close> rounded down. The rate is then not zero.\<close>

theorem units_to_msat_exact:
  assumes "units_to_milli_satoshi u r = Ok m"
  shows "0 < unat (coefficient r) \<and> unat m = unat u * 10 ^ (11 + unat (scale r)) div unat (coefficient r)"
  using units_to_msat_Ok(1) [OF assms] units_to_msat_floor [OF assms] by blast

lemma sample_conversions:
  "units_to_milli_satoshi 7 (fixed_point_new 300 2) = Ok 233333333333"
  "milli_satoshi_to_units 233333333333 (fixed_point_new 300 2) = Ok 6"
proof -
  have p: "pow10 11 = Ok 100000000000" "pow10 9 = Ok 1000000000" "pow10 2 = Ok 100"
    by (simp_all add: pow10_Ok_iff)
  have m: "mul_u128 7 100000000000 = Ok 700000000000" "mul_u128 300 1000000000 = Ok 300000000000"
    "mul_u128 700000000000 100000000000 = Ok 70000000000000000000000"
    "mul_u128 233333333333 100000000000 = Ok 23333333333300000000000"
    "mul_u128 233333333333 300 = Ok 69999999999900"
    by (simp_all add: mul_u128_Ok_iff)
  have d: "(70000000000000000000000 :: u128) div 300000000000 = 233333333333"
    "(23333333333300000000000 :: u128) div 100000000000 = 233333333333"
    "(69999999999900 :: u128) div 100 div 1000000000 div 100 = 6"
    by (simp_all add: word_unat_eq_iff unat_div_word)
  have c: "to_u64 233333333333 = Ok 233333333333" "to_u64 6 = Ok 6"
    by (simp_all add: to_u64_Ok_iff)
  show "units_to_milli_satoshi 7 (fixed_point_new 300 2) = Ok 233333333333"
    by (simp add: units_to_milli_satoshi_def fixed_point_new_def DEFAULT_ARITHMETIC_SCALE_def
        MSAT_PER_BTC_def max_def p m d c)
  show "milli_satoshi_to_units 233333333333 (fixed_point_new 300 2) = Ok 6"
    by (simp add: milli_satoshi_to_units_def fixed_point_new_def DEFAULT_ARITHMETIC_SCALE_def
        MSAT_PER_BTC_def max_def p m d c)
qed

theorem units_to_msat_exact_witness:
  "\<exists>m. units_to_milli_satoshi 7 (fixed_point_new 300 2) = Ok m
    \<and> unat m = 7 * 10 ^ 13 div 300"
  using units_to_msat_exact [OF sample_conversions(1)] sample_conversions(1)
  by (simp add: fixed_point_new_def)

text \<open>The conversion of milli-satoshis to units, for rates of scale at most 11 (the arithmetic scale),
  returns exactly the quotient rounded down, and it fails only if the product of amount and
  coefficient exceeds 128 bits or the result 64 bits.\<close>

theorem msat_to_units_exact:
  assumes "unat (scale r) \<le> 11" "unat m * unat (coefficient r) < 2 ^ 128"
    and "unat m * unat (coefficient r) div 10 ^ (11 + unat (scale r)) < 2 ^ 64"
  shows "\<exists>u. milli_satoshi_to_units m r = Ok u
    \<and> unat u = unat m * unat (coefficient r) div 10 ^ (11 + unat (scale r))"
  using msat_to_units_succeeds [OF assms] msat_to_units_floor by blast

theorem msat_to_units_exact_witness:
  "\<exists>u. milli_satoshi_to_units 250000000000 (fixed_point_new 300 2) = Ok u \<and> unat u = 7"
  using msat_to_units_exact [of "fixed_point_new 300 2" 250000000000]
  by (simp add: fixed_point_new_def)

text \<open>No units are created by converting back and forth: turning units into milli-satoshis at a
  rate and those back into units at the same rate never yields more than one started with.\<close>

theorem units_msat_round_trip:
  assumes "units_to_milli_satoshi u r = Ok m" "milli_satoshi_to_units m r = Ok u'"
  shows "u' \<le> u"
proof -
  let ?c = "unat (coefficient r)" and ?e = "10 ^ (11 + unat (scale r)) :: nat"
  have "unat m * ?c \<le> unat u * ?e"
    unfolding units_to_msat_floor [OF assms(1)] by (rule div_times_less_eq_dividend)
  then have "unat m * ?c div ?e \<le> unat u * ?e div ?e" by (rule div_le_mono)
  then show ?thesis
    using msat_to_units_floor [OF assms(2)] by (simp add: word_le_nat_alt)
qed

theorem units_msat_round_trip_witness:
  "milli_satoshi_to_units 233333333333 (fixed_point_new 300 2) = Ok 6 \<and> (6 :: u64) \<le> 7"
  using units_msat_round_trip [OF sample_conversions] sample_conversions(2) by blast

end
