(* ===== verification/Rfq_Wire.thy ===== *)
theory Rfq_Wire
  imports Tlv Rfq_Math
begin

text \<open>
  The request-for-quote messages: \<^verbatim>\<open>tap-ldk/src/wire/compat.rs\<close> (TLV layout of request,
  accept and reject) and the RFQ part of \<^verbatim>\<open>tap-ldk/src/wire/messages.rs\<close> (typed
  messages and their conversion). Identifiers, asset IDs and group keys are byte lists, whose
  fixed lengths are hypotheses of the round trips. A Rust string is its UTF-8 bytes. Where the
  code turns an error into its text, the model keeps the error.
\<close>

type_synonym RfqId = bytes
type_synonym AssetIdBytes = bytes

section \<open>Errors and helpers\<close>

datatype WireError =
    WireTlv TlvError
  | MissingRecord u64
  | InvalidRecord u64 string
  | UnsupportedVersion u8
  | UnknownTransferType u8
  | MessageTooLarge nat
  | UnknownSession RfqId
  | UnknownMessageType u16

definition MAX_WIRE_MSG_SIZE :: nat where "MAX_WIRE_MSG_SIZE = 1024 * 1024"
definition MAX_ORACLE_METADATA_LENGTH :: nat where "MAX_ORACLE_METADATA_LENGTH = 32768"
definition MAX_ERROR_MESSAGE_LENGTH :: nat where "MAX_ERROR_MESSAGE_LENGTH = 1024"
definition WIRE_MSG_VERSION_V1 :: u8 where "WIRE_MSG_VERSION_V1 = 1"
definition TRANSFER_TYPE_PAY_INVOICE :: u8 where "TRANSFER_TYPE_PAY_INVOICE = 1"
definition TRANSFER_TYPE_RECV_PAYMENT :: u8 where "TRANSFER_TYPE_RECV_PAYMENT = 2"

lemmas wire_consts = MAX_WIRE_MSG_SIZE_def MAX_ORACLE_METADATA_LENGTH_def
  MAX_ERROR_MESSAGE_LENGTH_def WIRE_MSG_VERSION_V1_def TRANSFER_TYPE_PAY_INVOICE_def
  TRANSFER_TYPE_RECV_PAYMENT_def

datatype RejectCode =
    PriceOracleUnspecified
  | PriceOracleUnavailable
  | MinFillNotMet
  | PriceBoundMiss
  | FokNotViable
  | FillExceedsMax
  | UnknownCode u8

fun reject_code_to_u8 :: "RejectCode \<Rightarrow> u8" where
  "reject_code_to_u8 PriceOracleUnspecified = 0"
| "reject_code_to_u8 PriceOracleUnavailable = 1"
| "reject_code_to_u8 MinFillNotMet = 2"
| "reject_code_to_u8 PriceBoundMiss = 3"
| "reject_code_to_u8 FokNotViable = 4"
| "reject_code_to_u8 FillExceedsMax = 5"
| "reject_code_to_u8 (UnknownCode c) = c"

definition reject_code_from_u8 :: "u8 \<Rightarrow> RejectCode" where
  "reject_code_from_u8 c =
     (if c = 0 then PriceOracleUnspecified
      else if c = 1 then PriceOracleUnavailable
      else if c = 2 then MinFillNotMet
      else if c = 3 then PriceBoundMiss
      else if c = 4 then FokNotViable
      else if c = 5 then FillExceedsMax
      else UnknownCode c)"

definition get_bytes_n :: "nat \<Rightarrow> string \<Rightarrow> TlvStream \<Rightarrow> u64 \<Rightarrow> (bytes option, WireError) result" where
  "get_bytes_n n msg stream t =
     (case tlv_get stream t of
        None \<Rightarrow> Ok None
      | Some r \<Rightarrow> if length (tlv_value r) \<noteq> n then Err (InvalidRecord t msg)
                  else Ok (Some (tlv_value r)))"

definition get_bytes32 :: "TlvStream \<Rightarrow> u64 \<Rightarrow> (bytes option, WireError) result" where
  "get_bytes32 = get_bytes_n 32 ''expected 32 bytes''"

definition get_bytes33 :: "TlvStream \<Rightarrow> u64 \<Rightarrow> (bytes option, WireError) result" where
  "get_bytes33 = get_bytes_n 33 ''expected 33 bytes''"

definition get_u64 :: "TlvStream \<Rightarrow> u64 \<Rightarrow> (u64 option, WireError) result" where
  "get_u64 stream t =
     (case tlv_get stream t of
        None \<Rightarrow> Ok None
      | Some r \<Rightarrow> res_bind (map_err (\<lambda>_. InvalidRecord t ''u64'') (as_u64 r)) (\<lambda>v. Ok (Some v)))"

definition get_fixed_point :: "TlvStream \<Rightarrow> u64 \<Rightarrow> (FixedPoint option, WireError) result" where
  "get_fixed_point stream t =
     (case tlv_get stream t of
        None \<Rightarrow> Ok None
      | Some r \<Rightarrow> res_bind (map_err (\<lambda>_. InvalidRecord t ''fixed point'') (fp_decode_tlv (tlv_value r)))
                    (\<lambda>v. Ok (Some v)))"

definition get_u8 :: "TlvStream \<Rightarrow> u64 \<Rightarrow> (u8 option, WireError) result" where
  "get_u8 stream t =
     (case tlv_get stream t of
        None \<Rightarrow> Ok None
      | Some r \<Rightarrow> res_bind (map_err (\<lambda>_. InvalidRecord t ''u8'') (as_u8 r)) (\<lambda>v. Ok (Some v)))"

definition require :: "'a option \<Rightarrow> u64 \<Rightarrow> ('a, WireError) result" where
  "require v t = ok_or v (MissingRecord t)"

definition decode_stream :: "bytes \<Rightarrow> (TlvStream, WireError) result" where
  "decode_stream data =
     (if MAX_WIRE_MSG_SIZE < length data then Err (MessageTooLarge (length data))
      else map_err WireTlv (tlv_decode data))"

section \<open>Requests\<close>

record RequestWireMsg =
  rq_version :: u8
  rq_id :: RfqId
  rq_transfer_type :: u8
  rq_expiry :: u64
  rq_in_asset_id :: "bytes option"
  rq_in_asset_group_key :: "bytes option"
  rq_out_asset_id :: "bytes option"
  rq_out_asset_group_key :: "bytes option"
  rq_max_in_asset :: u64
  rq_in_asset_rate_hint :: "FixedPoint option"
  rq_out_asset_rate_hint :: "FixedPoint option"
  rq_min_in_asset :: "u64 option"
  rq_min_out_asset :: "u64 option"
  rq_price_oracle_metadata :: "bytes option"
  rq_asset_rate_limit :: "FixedPoint option"
  rq_execution_policy :: "u8 option"

definition request_encode :: "RequestWireMsg \<Rightarrow> (bytes, WireError) result" where
  "request_encode m =
     (if (case rq_price_oracle_metadata m of Some meta \<Rightarrow> MAX_ORACLE_METADATA_LENGTH < length meta
          | None \<Rightarrow> False)
      then Err (InvalidRecord 27 ''oracle metadata too long'')
      else
        let s = tlv_push [] (tlv_u8 0 (rq_version m));
            s = tlv_push s (tlv_bytes 2 (rq_id m));
            s = tlv_push s (tlv_u8 4 (rq_transfer_type m));
            s = tlv_push s (tlv_u64 6 (rq_expiry m));
            s = push_opt s 9 (rq_in_asset_id m);
            s = push_opt s 11 (rq_in_asset_group_key m);
            s = push_opt s 13 (rq_out_asset_id m);
            s = push_opt s 15 (rq_out_asset_group_key m);
            s = tlv_push s (tlv_u64 16 (rq_max_in_asset m));
            s = push_opt s 19 (map_option fp_encode_tlv (rq_in_asset_rate_hint m));
            s = push_opt s 21 (map_option fp_encode_tlv (rq_out_asset_rate_hint m));
            s = push_opt s 23 (map_option u64_be (rq_min_in_asset m));
            s = push_opt s 25 (map_option u64_be (rq_min_out_asset m));
            s = push_opt s 27 (rq_price_oracle_metadata m);
            s = push_opt s 29 (map_option fp_encode_tlv (rq_asset_rate_limit m));
            s = push_opt s 31 (map_option (\<lambda>p. [p]) (rq_execution_policy m))
        in Ok (tlv_encode s))"

definition request_decode :: "bytes \<Rightarrow> (RequestWireMsg, WireError) result" where
  "request_decode data =
     res_bind (decode_stream data) (\<lambda>s.
     res_bind (get_u8 s 0) (\<lambda>version. res_bind (require version 0) (\<lambda>version.
     res_bind (get_bytes32 s 2) (\<lambda>i. res_bind (require i 2) (\<lambda>i.
     res_bind (get_u8 s 4) (\<lambda>transfer. res_bind (require transfer 4) (\<lambda>transfer.
     res_bind (get_u64 s 6) (\<lambda>expiry. res_bind (require expiry 6) (\<lambda>expiry.
     res_bind (get_u64 s 16) (\<lambda>max_in. res_bind (require max_in 16) (\<lambda>max_in.
     res_bind (get_bytes32 s 9) (\<lambda>in_id.
     res_bind (get_bytes33 s 11) (\<lambda>in_gk.
     res_bind (get_bytes32 s 13) (\<lambda>out_id.
     res_bind (get_bytes33 s 15) (\<lambda>out_gk.
     res_bind (get_fixed_point s 19) (\<lambda>in_hint.
     res_bind (get_fixed_point s 21) (\<lambda>out_hint.
     res_bind (get_u64 s 23) (\<lambda>min_in.
     res_bind (get_u64 s 25) (\<lambda>min_out.
     res_bind (get_fixed_point s 29) (\<lambda>limit.
     res_bind (get_u8 s 31) (\<lambda>policy.
     Ok \<lparr>rq_version = version, rq_id = i, rq_transfer_type = transfer, rq_expiry = expiry,
         rq_in_asset_id = in_id, rq_in_asset_group_key = in_gk,
         rq_out_asset_id = out_id, rq_out_asset_group_key = out_gk,
         rq_max_in_asset = max_in, rq_in_asset_rate_hint = in_hint,
         rq_out_asset_rate_hint = out_hint, rq_min_in_asset = min_in, rq_min_out_asset = min_out,
         rq_price_oracle_metadata = map_option tlv_value (tlv_get s 27),
         rq_asset_rate_limit = limit, rq_execution_policy = policy\<rparr>)))))))))))))))))))))"

section \<open>Accepts and rejects\<close>

record AcceptWireMsg =
  ac_version :: u8
  ac_id :: RfqId
  ac_expiry :: u64
  ac_sig :: bytes
  ac_in_asset_rate :: FixedPoint
  ac_out_asset_rate :: FixedPoint
  ac_max_in_asset :: "u64 option"

definition accept_encode :: "AcceptWireMsg \<Rightarrow> (bytes, WireError) result" where
  "accept_encode m =
     (let s = tlv_push [] (tlv_u8 0 (ac_version m));
          s = tlv_push s (tlv_bytes 2 (ac_id m));
          s = tlv_push s (tlv_u64 4 (ac_expiry m));
          s = tlv_push s (tlv_bytes 6 (ac_sig m));
          s = tlv_push s (tlv_bytes 8 (fp_encode_tlv (ac_in_asset_rate m)));
          s = tlv_push s (tlv_bytes 10 (fp_encode_tlv (ac_out_asset_rate m)));
          s = push_opt s 11 (map_option u64_be (ac_max_in_asset m))
      in Ok (tlv_encode s))"

definition nonzero_opt :: "u64 option \<Rightarrow> u64 option" where
  "nonzero_opt v = (case v of Some x \<Rightarrow> if 0 < x then Some x else None | None \<Rightarrow> None)"

definition accept_decode :: "bytes \<Rightarrow> (AcceptWireMsg, WireError) result" where
  "accept_decode data =
     res_bind (decode_stream data) (\<lambda>s.
     res_bind (get_u8 s 0) (\<lambda>version. res_bind (require version 0) (\<lambda>version.
     res_bind (get_bytes32 s 2) (\<lambda>i. res_bind (require i 2) (\<lambda>i.
     res_bind (get_u64 s 4) (\<lambda>expiry. res_bind (require expiry 4) (\<lambda>expiry.
     res_bind (ok_or (tlv_get s 6) (MissingRecord 6)) (\<lambda>sig_record.
     if length (tlv_value sig_record) \<noteq> 64 then Err (InvalidRecord 6 ''expected 64 bytes'')
     else
       res_bind (get_fixed_point s 8) (\<lambda>in_rate. res_bind (require in_rate 8) (\<lambda>in_rate.
       res_bind (get_fixed_point s 10) (\<lambda>out_rate. res_bind (require out_rate 10) (\<lambda>out_rate.
       res_bind (get_u64 s 11) (\<lambda>max_in.
       Ok \<lparr>ac_version = version, ac_id = i, ac_expiry = expiry, ac_sig = tlv_value sig_record,
           ac_in_asset_rate = in_rate, ac_out_asset_rate = out_rate,
           ac_max_in_asset = nonzero_opt max_in\<rparr>)))))))))))))"

record RejectWireMsg =
  rj_version :: u8
  rj_id :: RfqId
  rj_code :: RejectCode
  rj_message :: bytes

definition reject_encode :: "RejectWireMsg \<Rightarrow> (bytes, WireError) result" where
  "reject_encode m =
     (let s = tlv_push [] (tlv_u8 0 (rj_version m));
          s = tlv_push s (tlv_bytes 2 (rj_id m));
          s = tlv_push s (tlv_bytes 5 (reject_code_to_u8 (rj_code m) # rj_message m))
      in Ok (tlv_encode s))"

text \<open>\<^verbatim>\<open>String::truncate\<close> panics when the cut is inside a character, that is,
  when the byte at the cut is a UTF-8 continuation byte.\<close>

definition is_char_boundary :: "bytes \<Rightarrow> nat \<Rightarrow> bool" where
  "is_char_boundary s n \<longleftrightarrow>
     n = 0 \<or> n = length s \<or> (n < length s \<and> \<not> (0x80 \<le> s ! n \<and> s ! n < 0xC0))"

definition string_truncate :: "bytes \<Rightarrow> nat \<Rightarrow> (bytes, 'e) result" where
  "string_truncate s n =
     (if length s < n then Ok s else if is_char_boundary s n then Ok (take n s) else Panic)"

section \<open>Typed messages\<close>

datatype DecodedRequest = DecodedBuy RequestWireMsg | DecodedSell RequestWireMsg

definition decode_request :: "bytes \<Rightarrow> (DecodedRequest, WireError) result" where
  "decode_request data =
     res_bind (request_decode data) (\<lambda>m.
       if rq_version m \<noteq> WIRE_MSG_VERSION_V1 then Err (UnsupportedVersion (rq_version m))
       else if rq_transfer_type m = TRANSFER_TYPE_PAY_INVOICE then Ok (DecodedSell m)
       else if rq_transfer_type m = TRANSFER_TYPE_RECV_PAYMENT then Ok (DecodedBuy m)
       else Err (UnknownTransferType (rq_transfer_type m)))"

definition decode_accept :: "bytes \<Rightarrow> (AcceptWireMsg, WireError) result" where
  "decode_accept data =
     res_bind (accept_decode data) (\<lambda>m.
       if ac_version m \<noteq> WIRE_MSG_VERSION_V1 then Err (UnsupportedVersion (ac_version m)) else Ok m)"

definition new_buy_request ::
  "RfqId \<Rightarrow> AssetIdBytes option \<Rightarrow> bytes option \<Rightarrow> u64 \<Rightarrow> u64 \<Rightarrow> FixedPoint option \<Rightarrow> RequestWireMsg" where
  "new_buy_request i asset_id group_key max_amount expiry rate_hint =
     \<lparr>rq_version = WIRE_MSG_VERSION_V1, rq_id = i, rq_transfer_type = TRANSFER_TYPE_RECV_PAYMENT,
      rq_expiry = expiry, rq_in_asset_id = asset_id, rq_in_asset_group_key = group_key,
      rq_out_asset_id = Some (zeros 32), rq_out_asset_group_key = None, rq_max_in_asset = max_amount,
      rq_in_asset_rate_hint = rate_hint, rq_out_asset_rate_hint = None, rq_min_in_asset = None,
      rq_min_out_asset = None, rq_price_oracle_metadata = None, rq_asset_rate_limit = None,
      rq_execution_policy = None\<rparr>"

definition new_sell_request ::
  "RfqId \<Rightarrow> AssetIdBytes option \<Rightarrow> bytes option \<Rightarrow> u64 \<Rightarrow> u64 \<Rightarrow> FixedPoint option \<Rightarrow> RequestWireMsg" where
  "new_sell_request i asset_id group_key max_msat expiry rate_hint =
     \<lparr>rq_version = WIRE_MSG_VERSION_V1, rq_id = i, rq_transfer_type = TRANSFER_TYPE_PAY_INVOICE,
      rq_expiry = expiry, rq_in_asset_id = Some (zeros 32), rq_in_asset_group_key = None,
      rq_out_asset_id = asset_id, rq_out_asset_group_key = group_key, rq_max_in_asset = max_msat,
      rq_in_asset_rate_hint = None, rq_out_asset_rate_hint = rate_hint, rq_min_in_asset = None,
      rq_min_out_asset = None, rq_price_oracle_metadata = None, rq_asset_rate_limit = None,
      rq_execution_policy = None\<rparr>"

record RfqBuyRequest =
  br_id :: RfqId
  br_asset_id :: AssetIdBytes
  br_asset_max_amount :: u64
  br_asset_group_key :: "bytes option"
  br_expiry :: u64
  br_rate_hint :: "FixedPoint option"

definition buy_request_to_wire :: "RfqBuyRequest \<Rightarrow> RequestWireMsg" where
  "buy_request_to_wire r = new_buy_request (br_id r) (Some (br_asset_id r)) (br_asset_group_key r)
     (br_asset_max_amount r) (br_expiry r) (br_rate_hint r)"

definition buy_request_from_wire :: "RequestWireMsg \<Rightarrow> (RfqBuyRequest, WireError) result" where
  "buy_request_from_wire m =
     res_bind (ok_or (rq_in_asset_id m) (MissingRecord 9)) (\<lambda>asset_id.
       Ok \<lparr>br_id = rq_id m, br_asset_id = asset_id, br_asset_max_amount = rq_max_in_asset m,
           br_asset_group_key = rq_in_asset_group_key m, br_expiry = rq_expiry m,
           br_rate_hint = rq_in_asset_rate_hint m\<rparr>)"

record RfqSellRequest =
  sr_id :: RfqId
  sr_asset_id :: AssetIdBytes
  sr_payment_max_amt_msat :: u64
  sr_asset_group_key :: "bytes option"
  sr_expiry :: u64
  sr_rate_hint :: "FixedPoint option"

definition sell_request_to_wire :: "RfqSellRequest \<Rightarrow> RequestWireMsg" where
  "sell_request_to_wire r = new_sell_request (sr_id r) (Some (sr_asset_id r)) (sr_asset_group_key r)
     (sr_payment_max_amt_msat r) (sr_expiry r) (sr_rate_hint r)"

definition sell_request_from_wire :: "RequestWireMsg \<Rightarrow> (RfqSellRequest, WireError) result" where
  "sell_request_from_wire m =
     res_bind (ok_or (rq_out_asset_id m) (MissingRecord 13)) (\<lambda>asset_id.
       Ok \<lparr>sr_id = rq_id m, sr_asset_id = asset_id, sr_payment_max_amt_msat = rq_max_in_asset m,
           sr_asset_group_key = rq_out_asset_group_key m, sr_expiry = rq_expiry m,
           sr_rate_hint = rq_out_asset_rate_hint m\<rparr>)"

text \<open>\<^verbatim>\<open>RfqBuyAccept\<close> and \<^verbatim>\<open>RfqSellAccept\<close> have the same fields.\<close>

record RfqAccept =
  ra_id :: RfqId
  ra_asset_rate :: FixedPoint
  ra_expiry :: u64
  ra_sig :: bytes
  ra_max_in_asset :: "u64 option"

definition msat_per_btc_rate :: FixedPoint where
  "msat_per_btc_rate = fixed_point_new 100000000000 9"

definition buy_accept_to_wire :: "RfqAccept \<Rightarrow> AcceptWireMsg" where
  "buy_accept_to_wire a =
     \<lparr>ac_version = WIRE_MSG_VERSION_V1, ac_id = ra_id a, ac_expiry = ra_expiry a, ac_sig = ra_sig a,
      ac_in_asset_rate = ra_asset_rate a, ac_out_asset_rate = msat_per_btc_rate,
      ac_max_in_asset = ra_max_in_asset a\<rparr>"

definition buy_accept_from_wire :: "AcceptWireMsg \<Rightarrow> RfqAccept" where
  "buy_accept_from_wire m =
     \<lparr>ra_id = ac_id m, ra_asset_rate = ac_in_asset_rate m, ra_expiry = ac_expiry m,
      ra_sig = ac_sig m, ra_max_in_asset = ac_max_in_asset m\<rparr>"

definition sell_accept_to_wire :: "RfqAccept \<Rightarrow> AcceptWireMsg" where
  "sell_accept_to_wire a =
     \<lparr>ac_version = WIRE_MSG_VERSION_V1, ac_id = ra_id a, ac_expiry = ra_expiry a, ac_sig = ra_sig a,
      ac_in_asset_rate = msat_per_btc_rate, ac_out_asset_rate = ra_asset_rate a,
      ac_max_in_asset = ra_max_in_asset a\<rparr>"

definition sell_accept_from_wire :: "AcceptWireMsg \<Rightarrow> RfqAccept" where
  "sell_accept_from_wire m =
     \<lparr>ra_id = ac_id m, ra_asset_rate = ac_out_asset_rate m, ra_expiry = ac_expiry m,
      ra_sig = ac_sig m, ra_max_in_asset = ac_max_in_asset m\<rparr>"

record RfqReject =
  rr_id :: RfqId
  rr_code :: RejectCode
  rr_message :: bytes

definition reject_to_wire :: "RfqReject \<Rightarrow> (RejectWireMsg, WireError) result" where
  "reject_to_wire r =
     res_bind (string_truncate (rr_message r) MAX_ERROR_MESSAGE_LENGTH) (\<lambda>message.
       Ok \<lparr>rj_version = WIRE_MSG_VERSION_V1, rj_id = rr_id r, rj_code = rr_code r,
           rj_message = message\<rparr>)"

section \<open>Round trips\<close>

definition opt_length :: "nat \<Rightarrow> bytes option \<Rightarrow> bool" where
  "opt_length n v \<longleftrightarrow> (case v of Some x \<Rightarrow> length x = n | None \<Rightarrow> True)"

definition wf_request :: "RequestWireMsg \<Rightarrow> bool" where
  "wf_request m \<longleftrightarrow> length (rq_id m) = 32
     \<and> opt_length 32 (rq_in_asset_id m) \<and> opt_length 33 (rq_in_asset_group_key m)
     \<and> opt_length 32 (rq_out_asset_id m) \<and> opt_length 33 (rq_out_asset_group_key m)
     \<and> (case rq_price_oracle_metadata m of Some meta \<Rightarrow> length meta \<le> 32768 | None \<Rightarrow> True)"

definition request_slots :: "RequestWireMsg \<Rightarrow> (u64 \<times> bytes option) list" where
  "request_slots m =
     [(0, Some [rq_version m]), (2, Some (rq_id m)), (4, Some [rq_transfer_type m]),
      (6, Some (u64_be (rq_expiry m))), (9, rq_in_asset_id m), (11, rq_in_asset_group_key m),
      (13, rq_out_asset_id m), (15, rq_out_asset_group_key m), (16, Some (u64_be (rq_max_in_asset m))),
      (19, map_option fp_encode_tlv (rq_in_asset_rate_hint m)),
      (21, map_option fp_encode_tlv (rq_out_asset_rate_hint m)),
      (23, map_option u64_be (rq_min_in_asset m)), (25, map_option u64_be (rq_min_out_asset m)),
      (27, rq_price_oracle_metadata m), (29, map_option fp_encode_tlv (rq_asset_rate_limit m)),
      (31, map_option (\<lambda>p. [p]) (rq_execution_policy m))]"

lemma request_encode_slots:
  "wf_request m \<Longrightarrow> request_encode m = Ok (tlv_encode (of_slots (request_slots m)))"
  unfolding request_encode_def Let_def push_Nil push_of_slots append.simps
  by (auto simp: wf_request_def wire_consts request_slots_def split: option.splits)

lemma sorted_request_slots: "sorted_wrt (<) (map fst (request_slots m))"
  by (simp add: request_slots_def)

lemma slot_sizes:
  "opt_length n v \<Longrightarrow> slot_size v \<le> 18 + n"
  "slot_size (map_option fp_encode_tlv r) \<le> 35"
  "slot_size (map_option u64_be w) \<le> 26"
  "slot_size (map_option (\<lambda>p. [p]) b) \<le> 19"
proof -
  show "opt_length n v \<Longrightarrow> slot_size v \<le> 18 + n" by (cases v) (simp_all add: opt_length_def)
  show "slot_size (map_option fp_encode_tlv r) \<le> 35"
    using length_fp_encode [of "the r"] by (cases r) simp_all
  show "slot_size (map_option u64_be w) \<le> 26" by (cases w) simp_all
  show "slot_size (map_option (\<lambda>p. [p]) b) \<le> 19" by (cases b) simp_all
qed

lemma decode_stream_slots:
  assumes "sorted_wrt (<) (map fst xs)" "slot_bytes xs \<le> 1048576"
  shows "decode_stream (tlv_encode (of_slots xs)) = Ok (of_slots xs)"
  using tlv_decode_of_slots [OF assms(1)] length_encode_of_slots [OF assms(1)] assms(2)
  by (simp add: decode_stream_def wire_consts)

lemma sorted_slots_get:
  "sorted_wrt (<) (map fst xs) \<Longrightarrow> tlv_get (of_slots xs) t = map_option (tlv_new t) (slot_get xs t)"
  by (rule tlv_get_of_slots) (simp add: strict_sorted_iff)

text \<open>What the readers return on a stream of slots.\<close>

lemma slot_readers:
  assumes "sorted_wrt (<) (map fst xs)"
  shows "slot_get xs t = map_option (\<lambda>p. [p]) b \<Longrightarrow> get_u8 (of_slots xs) t = Ok b"
    and "slot_get xs t = map_option u64_be w \<Longrightarrow> get_u64 (of_slots xs) t = Ok w"
    and "slot_get xs t = map_option fp_encode_tlv r \<Longrightarrow> get_fixed_point (of_slots xs) t = Ok r"
    and "slot_get xs t = v \<Longrightarrow> opt_length 32 v \<Longrightarrow> get_bytes32 (of_slots xs) t = Ok v"
    and "slot_get xs t = v \<Longrightarrow> opt_length 33 v \<Longrightarrow> get_bytes33 (of_slots xs) t = Ok v"
proof -
  note defs = get_u8_def get_u64_def get_fixed_point_def get_bytes32_def get_bytes33_def get_bytes_n_def
    sorted_slots_get [OF assms]
  show "slot_get xs t = map_option (\<lambda>p. [p]) b \<Longrightarrow> get_u8 (of_slots xs) t = Ok b"
    by (cases b) (simp_all add: defs as_u8_def)
  show "slot_get xs t = map_option u64_be w \<Longrightarrow> get_u64 (of_slots xs) t = Ok w"
    by (cases w) (simp_all add: defs as_u64_def)
  show "slot_get xs t = map_option fp_encode_tlv r \<Longrightarrow> get_fixed_point (of_slots xs) t = Ok r"
    by (cases r) (simp_all add: defs fp_decode_encode)
  show "slot_get xs t = v \<Longrightarrow> opt_length 32 v \<Longrightarrow> get_bytes32 (of_slots xs) t = Ok v"
    "slot_get xs t = v \<Longrightarrow> opt_length 33 v \<Longrightarrow> get_bytes33 (of_slots xs) t = Ok v"
    by (cases v; simp add: defs opt_length_def)+
qed

lemma request_slot_bytes:
  assumes "wf_request m"
  shows "slot_bytes (request_slots m) \<le> 33500"
proof -
  have "slot_size (rq_price_oracle_metadata m) \<le> 18 + 32768"
    using assms by (intro slot_size_le) (auto simp: wf_request_def)
  moreover have "slot_size (rq_in_asset_id m) \<le> 50" "slot_size (rq_in_asset_group_key m) \<le> 51"
    "slot_size (rq_out_asset_id m) \<le> 50" "slot_size (rq_out_asset_group_key m) \<le> 51" "length (rq_id m) = 32"
    using assms slot_sizes(1) by (fastforce simp: wf_request_def)+
  ultimately show ?thesis
    using slot_sizes(2) [of "rq_in_asset_rate_hint m"] slot_sizes(2) [of "rq_out_asset_rate_hint m"]
      slot_sizes(2) [of "rq_asset_rate_limit m"] slot_sizes(3) [of "rq_min_in_asset m"]
      slot_sizes(3) [of "rq_min_out_asset m"] slot_sizes(4) [of "rq_execution_policy m"]
    by (simp add: request_slots_def slot_bytes_def)
qed

text \<open>Every field of a request is found again under its type.\<close>

lemma request_decode_encode:
  assumes "wf_request m" "request_encode m = Ok data"
  shows "request_decode data = Ok m"
proof -
  let ?s = "of_slots (request_slots m)"
  note wf = assms(1) [unfolded wf_request_def]
  have id: "opt_length 32 (Some (rq_id m))" using wf by (simp add: opt_length_def)
  have stream: "decode_stream data = Ok ?s"
    using assms request_encode_slots [OF assms(1)] request_slot_bytes [OF assms(1)]
      decode_stream_slots [OF sorted_request_slots, of m] by simp
  note rd = slot_readers [OF sorted_request_slots [of m]]
  have g: "slot_get (request_slots m) 0 = map_option (\<lambda>p. [p]) (Some (rq_version m))"
    "slot_get (request_slots m) 2 = Some (rq_id m)"
    "slot_get (request_slots m) 4 = map_option (\<lambda>p. [p]) (Some (rq_transfer_type m))"
    "slot_get (request_slots m) 6 = map_option u64_be (Some (rq_expiry m))"
    "slot_get (request_slots m) 16 = map_option u64_be (Some (rq_max_in_asset m))"
    "slot_get (request_slots m) 9 = rq_in_asset_id m"
    "slot_get (request_slots m) 11 = rq_in_asset_group_key m"
    "slot_get (request_slots m) 13 = rq_out_asset_id m"
    "slot_get (request_slots m) 15 = rq_out_asset_group_key m"
    "slot_get (request_slots m) 19 = map_option fp_encode_tlv (rq_in_asset_rate_hint m)"
    "slot_get (request_slots m) 21 = map_option fp_encode_tlv (rq_out_asset_rate_hint m)"
    "slot_get (request_slots m) 23 = map_option u64_be (rq_min_in_asset m)"
    "slot_get (request_slots m) 25 = map_option u64_be (rq_min_out_asset m)"
    "slot_get (request_slots m) 27 = rq_price_oracle_metadata m"
    "slot_get (request_slots m) 29 = map_option fp_encode_tlv (rq_asset_rate_limit m)"
    "slot_get (request_slots m) 31 = map_option (\<lambda>p. [p]) (rq_execution_policy m)"
    by (simp_all add: slot_get_def request_slots_def)
  have "map_option tlv_value (tlv_get ?s 27) = rq_price_oracle_metadata m"
    using sorted_slots_get [OF sorted_request_slots, of m 27] g(14)
    by (cases "rq_price_oracle_metadata m") simp_all
  then show ?thesis
    using wf
    by (simp add: request_decode_def stream require_def rd(1) [OF g(1)] rd(4) [OF g(2) id]
        rd(1) [OF g(3)] rd(2) [OF g(4)] rd(2) [OF g(5)] rd(4) [OF g(6)] rd(5) [OF g(7)] rd(4) [OF g(8)]
        rd(5) [OF g(9)] rd(3) [OF g(10)] rd(3) [OF g(11)] rd(2) [OF g(12)] rd(2) [OF g(13)]
        rd(3) [OF g(15)] rd(1) [OF g(16)])
qed

definition accept_slots :: "AcceptWireMsg \<Rightarrow> (u64 \<times> bytes option) list" where
  "accept_slots m =
     [(0, Some [ac_version m]), (2, Some (ac_id m)), (4, Some (u64_be (ac_expiry m))),
      (6, Some (ac_sig m)), (8, Some (fp_encode_tlv (ac_in_asset_rate m))),
      (10, Some (fp_encode_tlv (ac_out_asset_rate m))), (11, map_option u64_be (ac_max_in_asset m))]"

lemma accept_encode_slots: "accept_encode m = Ok (tlv_encode (of_slots (accept_slots m)))"
  unfolding accept_encode_def Let_def push_Nil push_of_slots append.simps accept_slots_def by (rule refl)

lemma sorted_accept_slots: "sorted_wrt (<) (map fst (accept_slots m))"
  by (simp add: accept_slots_def)

text \<open>Decoding reads back an encoded accept, except that a zero fill amount becomes absent.\<close>

lemma accept_decode_encode:
  assumes "length (ac_id m) = 32" "length (ac_sig m) = 64" "accept_encode m = Ok data"
  shows "accept_decode data = Ok (m\<lparr>ac_max_in_asset := nonzero_opt (ac_max_in_asset m)\<rparr>)"
proof -
  let ?s = "of_slots (accept_slots m)"
  have "slot_bytes (accept_slots m) \<le> 1048576"
    using assms(1,2) length_fp_encode [of "ac_in_asset_rate m"] length_fp_encode [of "ac_out_asset_rate m"]
      slot_sizes(3) [of "ac_max_in_asset m"]
    by (simp add: accept_slots_def slot_bytes_def)
  then have stream: "decode_stream data = Ok ?s"
    using assms(3) accept_encode_slots [of m] decode_stream_slots [OF sorted_accept_slots, of m] by simp
  have id: "opt_length 32 (Some (ac_id m))" using assms(1) by (simp add: opt_length_def)
  note rd = slot_readers [OF sorted_accept_slots [of m]]
  have g: "slot_get (accept_slots m) 0 = map_option (\<lambda>p. [p]) (Some (ac_version m))"
    "slot_get (accept_slots m) 2 = Some (ac_id m)"
    "slot_get (accept_slots m) 4 = map_option u64_be (Some (ac_expiry m))"
    "slot_get (accept_slots m) 6 = Some (ac_sig m)"
    "slot_get (accept_slots m) 8 = map_option fp_encode_tlv (Some (ac_in_asset_rate m))"
    "slot_get (accept_slots m) 10 = map_option fp_encode_tlv (Some (ac_out_asset_rate m))"
    "slot_get (accept_slots m) 11 = map_option u64_be (ac_max_in_asset m)"
    by (simp_all add: slot_get_def accept_slots_def)
  have "tlv_get ?s 6 = Some (tlv_new 6 (ac_sig m))"
    using sorted_slots_get [OF sorted_accept_slots, of m 6] g(4) by simp
  then show ?thesis
    using assms(2)
    by (simp add: accept_decode_def stream require_def rd(1) [OF g(1)] rd(4) [OF g(2) id]
        rd(2) [OF g(3)] rd(3) [OF g(5)] rd(3) [OF g(6)] rd(2) [OF g(7)])
qed

section \<open>Properties\<close>

text \<open>A buy request sent to a peer arrives as the same buy request. Its conversion to the wire message,
  the TLV encoding, the peer's decoding with version and transfer-type check, and the conversion
  back never fail and keep every field, for identifiers of the right length.\<close>

theorem buy_request_roundtrip:
  assumes "length (br_id r) = 32" "length (br_asset_id r) = 32"
    and "case br_asset_group_key r of Some gk \<Rightarrow> length gk = 33 | None \<Rightarrow> True"
  shows "\<exists>data m. request_encode (buy_request_to_wire r) = Ok data
    \<and> decode_request data = Ok (DecodedBuy m) \<and> buy_request_from_wire m = Ok r"
proof -
  let ?m = "buy_request_to_wire r"
  have wf: "wf_request ?m"
    using assms by (simp add: wf_request_def buy_request_to_wire_def new_buy_request_def opt_length_def)
  then obtain data where data: "request_encode ?m = Ok data" using request_encode_slots by blast
  have "decode_request data = Ok (DecodedBuy ?m)"
    using request_decode_encode [OF wf data]
    by (simp add: decode_request_def buy_request_to_wire_def new_buy_request_def wire_consts)
  moreover have "buy_request_from_wire ?m = Ok r"
    by (simp add: buy_request_from_wire_def buy_request_to_wire_def new_buy_request_def)
  ultimately show ?thesis using data by blast
qed

theorem buy_request_roundtrip_witness:
  "\<exists>data m. request_encode (buy_request_to_wire \<lparr>br_id = zeros 32, br_asset_id = zeros 32,
      br_asset_max_amount = 5, br_asset_group_key = Some (zeros 33), br_expiry = 9,
      br_rate_hint = Some (fixed_point_new 7 2)\<rparr>) = Ok data
    \<and> decode_request data = Ok (DecodedBuy m)"
  using buy_request_roundtrip [of "\<lparr>br_id = zeros 32, br_asset_id = zeros 32,
      br_asset_max_amount = 5, br_asset_group_key = Some (zeros 33), br_expiry = 9,
      br_rate_hint = Some (fixed_point_new 7 2)\<rparr>"] by auto

text \<open>An accept sent in answer to a request arrives as the same accept, as a buy accept and as a sell
  accept, with one exception: a fill amount of zero is dropped by the decoder.\<close>

theorem accept_roundtrip:
  assumes "length (ra_id a) = 32" "length (ra_sig a) = 64"
  shows "(\<exists>data. accept_encode (buy_accept_to_wire a) = Ok data
      \<and> res_bind (decode_accept data) (\<lambda>m. Ok (buy_accept_from_wire m))
        = Ok (a\<lparr>ra_max_in_asset := nonzero_opt (ra_max_in_asset a)\<rparr>))
    \<and> (\<exists>data. accept_encode (sell_accept_to_wire a) = Ok data
      \<and> res_bind (decode_accept data) (\<lambda>m. Ok (sell_accept_from_wire m))
        = Ok (a\<lparr>ra_max_in_asset := nonzero_opt (ra_max_in_asset a)\<rparr>))"
proof -
  have buy: "length (ac_id (buy_accept_to_wire a)) = 32" "length (ac_sig (buy_accept_to_wire a)) = 64"
    and sell: "length (ac_id (sell_accept_to_wire a)) = 32" "length (ac_sig (sell_accept_to_wire a)) = 64"
    using assms by (simp_all add: buy_accept_to_wire_def sell_accept_to_wire_def)
  have "\<exists>data. accept_encode (buy_accept_to_wire a) = Ok data
      \<and> res_bind (decode_accept data) (\<lambda>m. Ok (buy_accept_from_wire m))
        = Ok (a\<lparr>ra_max_in_asset := nonzero_opt (ra_max_in_asset a)\<rparr>)"
    using accept_decode_encode [OF buy accept_encode_slots] accept_encode_slots [of "buy_accept_to_wire a"]
    by (simp add: decode_accept_def buy_accept_to_wire_def buy_accept_from_wire_def wire_consts)
  moreover have "\<exists>data. accept_encode (sell_accept_to_wire a) = Ok data
      \<and> res_bind (decode_accept data) (\<lambda>m. Ok (sell_accept_from_wire m))
        = Ok (a\<lparr>ra_max_in_asset := nonzero_opt (ra_max_in_asset a)\<rparr>)"
    using accept_decode_encode [OF sell accept_encode_slots] accept_encode_slots [of "sell_accept_to_wire a"]
    by (simp add: decode_accept_def sell_accept_to_wire_def sell_accept_from_wire_def wire_consts)
  ultimately show ?thesis by blast
qed

theorem accept_roundtrip_witness:
  "\<exists>data. accept_encode (buy_accept_to_wire \<lparr>ra_id = zeros 32, ra_asset_rate = fixed_point_new 7 2,
      ra_expiry = 9, ra_sig = zeros 64, ra_max_in_asset = Some 0\<rparr>) = Ok data
    \<and> res_bind (decode_accept data) (\<lambda>m. Ok (buy_accept_from_wire m))
      = Ok \<lparr>ra_id = zeros 32, ra_asset_rate = fixed_point_new 7 2, ra_expiry = 9, ra_sig = zeros 64,
          ra_max_in_asset = None\<rparr>"
  using accept_roundtrip [of "\<lparr>ra_id = zeros 32, ra_asset_rate = fixed_point_new 7 2,
      ra_expiry = 9, ra_sig = zeros 64, ra_max_in_asset = Some 0\<rparr>"]
  by (simp add: nonzero_opt_def)

text \<open>Converting a reject to its wire form panics exactly when its message is longer than 1024 bytes and the
  cut at byte 1024 falls inside a UTF-8 character; the limit was meant to shorten the message.\<close>

theorem reject_to_wire_panic_iff:
  "reject_to_wire r = Panic \<longleftrightarrow>
    1024 < length (rr_message r) \<and> 0x80 \<le> rr_message r ! 1024 \<and> rr_message r ! 1024 < 0xC0"
  by (auto simp: reject_to_wire_def string_truncate_def is_char_boundary_def wire_consts res_simps not_less)

end
