(* ===== verification/Messages.thy ===== *)
theory Messages
  imports Rfq_Wire Codec Asset
begin

text \<open>
  The messages between channel peers: the enum \<^verbatim>\<open>TapMessage\<close> of \<^verbatim>\<open>tap-ldk/src/wire/messages.rs\<close> with the funding messages,
  its type numbers, encoder and decoder, and the reject decoder of \<^verbatim>\<open>compat.rs\<close>. \<open>utf8_lossy\<close> is
  \<^verbatim>\<open>String::from_utf8_lossy\<close>: every maximal invalid sequence becomes one replacement character.
\<close>

section \<open>Lossy strings\<close>

text \<open>Whether the first character is valid, and how many bytes after the first belong to it (or to the invalid sequence).\<close>

definition utf8_step :: "u8 \<Rightarrow> bytes \<Rightarrow> bool \<times> nat" where
  "utf8_step a bs =
     (let cont = (\<lambda>i. i < length bs \<and> utf8_cont (bs ! i));
          within = (\<lambda>lo hi. 0 < length bs \<and> lo \<le> bs ! 0 \<and> bs ! 0 \<le> hi) in
      if a \<le> 0x7F then (True, 0)
      else if 0xC2 \<le> a \<and> a \<le> 0xDF then (cont 0, if cont 0 then 1 else 0)
      else if 0xE0 \<le> a \<and> a \<le> 0xEF then
        (if (if a = 0xE0 then within 0xA0 0xBF else if a = 0xED then within 0x80 0x9F else cont 0)
         then (if cont 1 then (True, 2) else (False, 1)) else (False, 0))
      else if 0xF0 \<le> a \<and> a \<le> 0xF4 then
        (if (if a = 0xF0 then within 0x90 0xBF else if a = 0xF4 then within 0x80 0x8F else cont 0)
         then (if cont 1 then (if cont 2 then (True, 3) else (False, 2)) else (False, 1)) else (False, 0))
      else (False, 0))"

fun utf8_lossy :: "bytes \<Rightarrow> bytes" where
  "utf8_lossy [] = []"
| "utf8_lossy (a # bs) =
     (case utf8_step a bs of (ok, n) \<Rightarrow>
        (if ok then a # take n bs else [0xEF, 0xBF, 0xBD]) @ utf8_lossy (drop n bs))"

lemma utf8_lossy_valid: "utf8_valid s \<Longrightarrow> utf8_lossy s = s"
proof (induction s rule: utf8_lossy.induct)
  case (2 a bs)
  obtain ok n where step: "utf8_step a bs = (ok, n)" by (cases "utf8_step a bs")
  have "ok \<and> utf8_valid (drop n bs)"
    using 2(2) step
    by (auto simp: utf8_step_def Let_def numeral_2_eq_2 numeral_3_eq_3 split: if_splits list.splits)
  then show ?case using 2(1) [OF step [symmetric]] step by simp
qed simp

section \<open>Reject messages\<close>

definition reject_decode :: "bytes \<Rightarrow> (RejectWireMsg, WireError) result" where
  "reject_decode data =
     res_bind (decode_stream data) (\<lambda>s.
     res_bind (get_u8 s 0) (\<lambda>v.
     res_bind (require v 0) (\<lambda>version.
     res_bind (get_bytes32 s 2) (\<lambda>i.
     res_bind (require i 2) (\<lambda>rfq_id.
     res_bind (ok_or (tlv_get s 5) (MissingRecord 5)) (\<lambda>r.
       case tlv_value r of
         [] \<Rightarrow> Err (InvalidRecord 5 ''empty error record'')
       | c # message \<Rightarrow> Ok \<lparr>rj_version = version, rj_id = rfq_id, rj_code = reject_code_from_u8 c,
           rj_message = utf8_lossy message\<rparr>))))))"

definition decode_reject :: "bytes \<Rightarrow> (RejectWireMsg, WireError) result" where
  "decode_reject data =
     res_bind (reject_decode data) (\<lambda>m.
       if rj_version m \<noteq> WIRE_MSG_VERSION_V1 then Err (UnsupportedVersion (rj_version m)) else Ok m)"

section \<open>Messages\<close>

definition MAX_PROOF_DATA_SIZE :: nat where "MAX_PROOF_DATA_SIZE = 1024 * 1024"

definition MSG_TYPE_REQUEST :: u16 where "MSG_TYPE_REQUEST = 52884"
definition MSG_TYPE_ACCEPT :: u16 where "MSG_TYPE_ACCEPT = MSG_TYPE_REQUEST + 1"
definition MSG_TYPE_REJECT :: u16 where "MSG_TYPE_REJECT = MSG_TYPE_REQUEST + 2"
definition ASSET_FUNDING_CREATED :: u16 where "ASSET_FUNDING_CREATED = 32768 + 1"
definition ASSET_FUNDING_ACK :: u16 where "ASSET_FUNDING_ACK = 32768 + 3"
definition ASSET_FUNDING_PROOF :: u16 where "ASSET_FUNDING_PROOF = 32768 + 5"

lemmas msg_types = MSG_TYPE_REQUEST_def MSG_TYPE_ACCEPT_def MSG_TYPE_REJECT_def ASSET_FUNDING_CREATED_def
  ASSET_FUNDING_ACK_def ASSET_FUNDING_PROOF_def

record AssetFundingCreated =
  fc_pending_channel_id :: bytes
  fc_asset_id :: AssetId
  fc_amount :: u64
  fc_proof_data :: bytes
  fc_group_key :: "SerializedKey option"

record AssetFundingAck =
  fa_pending_channel_id :: bytes
  fa_accepted :: bool
  fa_reject_reason :: "bytes option"

record AssetFundingProof =
  fp_pending_channel_id :: bytes
  fp_proof_data :: bytes

datatype TapMessage =
    FundingCreated AssetFundingCreated
  | FundingAck AssetFundingAck
  | FundingProof AssetFundingProof
  | BuyRequest RfqBuyRequest
  | BuyAccept RfqAccept
  | BuyReject RfqReject
  | SellRequest RfqSellRequest
  | SellAccept RfqAccept
  | SellReject RfqReject

fun msg_type :: "TapMessage \<Rightarrow> u16" where
  "msg_type (FundingCreated _) = ASSET_FUNDING_CREATED"
| "msg_type (FundingAck _) = ASSET_FUNDING_ACK"
| "msg_type (FundingProof _) = ASSET_FUNDING_PROOF"
| "msg_type (BuyRequest _) = MSG_TYPE_REQUEST"
| "msg_type (BuyAccept _) = MSG_TYPE_ACCEPT"
| "msg_type (BuyReject _) = MSG_TYPE_REJECT"
| "msg_type (SellRequest _) = MSG_TYPE_REQUEST"
| "msg_type (SellAccept _) = MSG_TYPE_ACCEPT"
| "msg_type (SellReject _) = MSG_TYPE_REJECT"

definition created_payload :: "AssetFundingCreated \<Rightarrow> bytes" where
  "created_payload m =
     (let s = tlv_push [] (tlv_bytes 0 (fc_pending_channel_id m));
          s = tlv_push s (tlv_bytes 2 (fc_asset_id m));
          s = tlv_push s (tlv_varint 4 (fc_amount m));
          s = push_opt s 6 (if fc_proof_data m = [] then None else Some (fc_proof_data m));
          s = push_opt s 8 (fc_group_key m)
      in tlv_encode s)"

definition ack_payload :: "AssetFundingAck \<Rightarrow> bytes" where
  "ack_payload m =
     (let s = tlv_push [] (tlv_bytes 0 (fa_pending_channel_id m));
          s = tlv_push s (tlv_u8 2 (if fa_accepted m then 1 else 0));
          s = push_opt s 4 (fa_reject_reason m)
      in tlv_encode s)"

definition funding_proof_payload :: "AssetFundingProof \<Rightarrow> bytes" where
  "funding_proof_payload m =
     (let s = tlv_push [] (tlv_bytes 0 (fp_pending_channel_id m));
          s = tlv_push s (tlv_bytes 2 (fp_proof_data m))
      in tlv_encode s)"

fun encode_payload :: "TapMessage \<Rightarrow> (bytes, WireError) result" where
  "encode_payload (FundingCreated m) = Ok (created_payload m)"
| "encode_payload (FundingAck m) = Ok (ack_payload m)"
| "encode_payload (FundingProof m) = Ok (funding_proof_payload m)"
| "encode_payload (BuyRequest m) = request_encode (buy_request_to_wire m)"
| "encode_payload (SellRequest m) = request_encode (sell_request_to_wire m)"
| "encode_payload (BuyAccept m) = accept_encode (buy_accept_to_wire m)"
| "encode_payload (SellAccept m) = accept_encode (sell_accept_to_wire m)"
| "encode_payload (BuyReject m) = res_bind (reject_to_wire m) reject_encode"
| "encode_payload (SellReject m) = res_bind (reject_to_wire m) reject_encode"

definition tap_message_encode :: "TapMessage \<Rightarrow> (bytes, WireError) result" where
  "tap_message_encode m = map_ok (\<lambda>payload. u16_be (msg_type m) @ payload) (encode_payload m)"

definition read_bytes32 :: "TlvStream \<Rightarrow> u64 \<Rightarrow> (bytes, WireError) result" where
  "read_bytes32 s t =
     res_bind (ok_or (tlv_get s t) (MissingRecord t)) (\<lambda>r.
       if length (tlv_value r) \<noteq> 32 then Err (InvalidRecord t ''expected 32 bytes'') else Ok (tlv_value r))"

definition decode_created :: "bytes \<Rightarrow> (TapMessage, WireError) result" where
  "decode_created payload =
     res_bind (map_err WireTlv (tlv_decode payload)) (\<lambda>s.
     res_bind (read_bytes32 s 0) (\<lambda>chan.
     res_bind (read_bytes32 s 2) (\<lambda>aid.
     res_bind (ok_or (tlv_get s 4) (MissingRecord 4)) (\<lambda>r.
     res_bind (map_err (\<lambda>_. InvalidRecord 4 ''varint'') (as_varint r)) (\<lambda>amt.
       let proof_data = (case tlv_get s 6 of Some r \<Rightarrow> tlv_value r | None \<Rightarrow> []) in
       if MAX_PROOF_DATA_SIZE < length proof_data then Err (MessageTooLarge (length proof_data))
       else res_bind (case tlv_get s 8 of None \<Rightarrow> Ok None
           | Some r \<Rightarrow> if length (tlv_value r) \<noteq> 33 then Err (InvalidRecord 8 ''group key must be 33 bytes'')
                      else Ok (Some (tlv_value r))) (\<lambda>gk.
         Ok (FundingCreated \<lparr>fc_pending_channel_id = chan, fc_asset_id = aid, fc_amount = amt,
           fc_proof_data = proof_data, fc_group_key = gk\<rparr>)))))))"

definition decode_ack :: "bytes \<Rightarrow> (TapMessage, WireError) result" where
  "decode_ack payload =
     res_bind (map_err WireTlv (tlv_decode payload)) (\<lambda>s.
     res_bind (read_bytes32 s 0) (\<lambda>chan.
     res_bind (ok_or (tlv_get s 2) (MissingRecord 2)) (\<lambda>r.
     res_bind (map_err (\<lambda>_. InvalidRecord 2 ''u8'') (as_u8 r)) (\<lambda>accepted.
       Ok (FundingAck \<lparr>fa_pending_channel_id = chan, fa_accepted = (accepted = 1),
         fa_reject_reason = map_option (\<lambda>r. utf8_lossy (tlv_value r)) (tlv_get s 4)\<rparr>)))))"

definition decode_funding_proof :: "bytes \<Rightarrow> (TapMessage, WireError) result" where
  "decode_funding_proof payload =
     res_bind (map_err WireTlv (tlv_decode payload)) (\<lambda>s.
     res_bind (read_bytes32 s 0) (\<lambda>chan.
     res_bind (ok_or (tlv_get s 2) (MissingRecord 2)) (\<lambda>r.
       if MAX_PROOF_DATA_SIZE < length (tlv_value r) then Err (MessageTooLarge (length (tlv_value r)))
       else Ok (FundingProof \<lparr>fp_pending_channel_id = chan, fp_proof_data = tlv_value r\<rparr>))))"

definition tap_message_decode ::
  "u16 \<Rightarrow> bytes \<Rightarrow> (RfqId \<Rightarrow> bool option) \<Rightarrow> (TapMessage, WireError) result" where
  "tap_message_decode ty payload session_lookup =
     (if ty = MSG_TYPE_REQUEST then
        res_bind (decode_request payload) (\<lambda>d. case d of
            DecodedBuy m \<Rightarrow> map_ok BuyRequest (buy_request_from_wire m)
          | DecodedSell m \<Rightarrow> map_ok SellRequest (sell_request_from_wire m))
      else if ty = MSG_TYPE_ACCEPT then
        res_bind (decode_accept payload) (\<lambda>m. case session_lookup (ac_id m) of
            Some True \<Rightarrow> Ok (BuyAccept (buy_accept_from_wire m))
          | Some False \<Rightarrow> Ok (SellAccept (sell_accept_from_wire m))
          | None \<Rightarrow> Err (UnknownSession (ac_id m)))
      else if ty = MSG_TYPE_REJECT then
        res_bind (decode_reject payload) (\<lambda>m.
          let reject = \<lparr>rr_id = rj_id m, rr_code = rj_code m, rr_message = rj_message m\<rparr> in
          case session_lookup (rr_id reject) of
            Some True \<Rightarrow> Ok (BuyReject reject)
          | Some False \<Rightarrow> Ok (SellReject reject)
          | None \<Rightarrow> Err (UnknownSession (rr_id reject)))
      else if ty = ASSET_FUNDING_CREATED then decode_created payload
      else if ty = ASSET_FUNDING_ACK then decode_ack payload
      else if ty = ASSET_FUNDING_PROOF then decode_funding_proof payload
      else Err (UnknownMessageType ty))"


section \<open>Round trips\<close>

lemma created_roundtrip:
  assumes "length (fc_pending_channel_id m) = 32" "length (fc_asset_id m) = 32" "length (fc_proof_data m) \<le> MAX_PROOF_DATA_SIZE"
    and "opt_length 33 (fc_group_key m)"
  shows "decode_created (created_payload m) = Ok (FundingCreated m)"
proof -
  let ?xs = "[(0, Some (fc_pending_channel_id m)), (2, Some (fc_asset_id m)), (4, Some (encode_bigsize (fc_amount m))),
    (6, if fc_proof_data m = [] then None else Some (fc_proof_data m)), (8, fc_group_key m)]"
  have enc: "created_payload m = tlv_encode (of_slots ?xs)"
    unfolding created_payload_def Let_def push_Nil push_of_slots append.simps by (rule refl)
  have "slot_size (fc_group_key m) \<le> 51" using assms(4) slot_sizes(1) by fastforce
  then have "slot_bytes ?xs \<le> 4000000"
    using assms by (auto simp: slot_bytes_def MAX_PROOF_DATA_SIZE_def) (use bigsize_len_le [of "fc_amount m"] in linarith)+
  then have "tlv_decode (created_payload m) = Ok (of_slots ?xs)" unfolding enc by (intro tlv_decode_of_slots) simp_all
  moreover have "as_varint (tlv_new 4 (encode_bigsize (fc_amount m))) = Ok (fc_amount m)"
    using as_tlv(5) [of 4 "fc_amount m"] by (simp add: tlv_varint_def)
  ultimately show ?thesis
    using assms by (cases m; cases "fc_group_key m")
      (simp_all add: decode_created_def read_bytes32_def ok_or_def opt_length_def Let_def)
qed

lemma ack_roundtrip:
  assumes "length (fa_pending_channel_id m) = 32" "pred_option (\<lambda>r. utf8_valid r \<and> length r \<le> 1000000) (fa_reject_reason m)"
  shows "decode_ack (ack_payload m) = Ok (FundingAck m)"
proof -
  let ?xs = "[(0, Some (fa_pending_channel_id m)), (2, Some [if fa_accepted m then 1 else 0]), (4, fa_reject_reason m)]"
  have enc: "ack_payload m = tlv_encode (of_slots ?xs)"
    unfolding ack_payload_def Let_def push_Nil push_of_slots append.simps by (rule refl)
  have "slot_size (fa_reject_reason m) \<le> 18 + 1000000" using assms(2) by (intro slot_size_le) auto
  then have "slot_bytes ?xs \<le> 4000000" using assms by (simp add: slot_bytes_def)
  then have "tlv_decode (ack_payload m) = Ok (of_slots ?xs)" unfolding enc by (intro tlv_decode_of_slots) simp_all
  then show ?thesis
    using assms by (cases m; cases "fa_reject_reason m")
      (simp_all add: decode_ack_def read_bytes32_def ok_or_def as_u8_def utf8_lossy_valid)
qed

lemma funding_proof_roundtrip:
  assumes "length (fp_pending_channel_id m) = 32" "length (fp_proof_data m) \<le> MAX_PROOF_DATA_SIZE"
  shows "decode_funding_proof (funding_proof_payload m) = Ok (FundingProof m)"
proof -
  let ?xs = "[(0, Some (fp_pending_channel_id m)), (2, Some (fp_proof_data m))]"
  have enc: "funding_proof_payload m = tlv_encode (of_slots ?xs)"
    unfolding funding_proof_payload_def Let_def push_Nil push_of_slots append.simps by (rule refl)
  have "slot_bytes ?xs \<le> 4000000" using assms by (simp add: slot_bytes_def MAX_PROOF_DATA_SIZE_def)
  then have "tlv_decode (funding_proof_payload m) = Ok (of_slots ?xs)" unfolding enc by (intro tlv_decode_of_slots) simp_all
  then show ?thesis
    using assms by (cases m) (simp add: decode_funding_proof_def read_bytes32_def ok_or_def)
qed

definition wf_reject :: "RfqReject \<Rightarrow> bool" where
  "wf_reject r \<longleftrightarrow> length (rr_id r) = 32 \<and> length (rr_message r) \<le> MAX_ERROR_MESSAGE_LENGTH \<and> utf8_valid (rr_message r)
     \<and> reject_code_from_u8 (reject_code_to_u8 (rr_code r)) = rr_code r"

lemma reject_roundtrip:
  assumes "wf_reject r"
  shows "\<exists>w data. reject_to_wire r = Ok w \<and> reject_encode w = Ok data
    \<and> decode_reject data = Ok \<lparr>rj_version = WIRE_MSG_VERSION_V1, rj_id = rr_id r, rj_code = rr_code r, rj_message = rr_message r\<rparr>"
proof -
  let ?w = "\<lparr>rj_version = WIRE_MSG_VERSION_V1, rj_id = rr_id r, rj_code = rr_code r, rj_message = rr_message r\<rparr>"
  let ?xs = "[(0, Some [WIRE_MSG_VERSION_V1]), (2, Some (rr_id r)), (5, Some (reject_code_to_u8 (rr_code r) # rr_message r))]"
  have "reject_to_wire r = Ok ?w"
    using assms by (auto simp: reject_to_wire_def string_truncate_def is_char_boundary_def wf_reject_def)
  moreover have enc: "reject_encode ?w = Ok (tlv_encode (of_slots ?xs))"
    unfolding reject_encode_def Let_def push_Nil push_of_slots append.simps by simp
  moreover have "slot_bytes ?xs \<le> 1048576" using assms by (simp add: slot_bytes_def wf_reject_def wire_consts)
  then have "decode_stream (tlv_encode (of_slots ?xs)) = Ok (of_slots ?xs)" by (intro decode_stream_slots) simp_all
  then have "decode_reject (tlv_encode (of_slots ?xs)) = Ok ?w"
    using assms by (simp add: decode_reject_def reject_decode_def get_u8_def get_bytes32_def get_bytes_n_def require_def ok_or_def
        as_u8_def wf_reject_def utf8_lossy_valid)
  ultimately show ?thesis by blast
qed

definition wf_request_fields :: "bytes \<Rightarrow> bytes \<Rightarrow> bytes option \<Rightarrow> bool" where
  "wf_request_fields rfq_id aid gk \<longleftrightarrow> length rfq_id = 32 \<and> length aid = 32 \<and> opt_length 33 gk"

definition wf_accept :: "RfqAccept \<Rightarrow> bool" where
  "wf_accept a \<longleftrightarrow> length (ra_id a) = 32 \<and> length (ra_sig a) = 64 \<and> ra_max_in_asset a \<noteq> Some 0"

fun wf_message :: "TapMessage \<Rightarrow> bool" where
  "wf_message (FundingCreated m) \<longleftrightarrow> length (fc_pending_channel_id m) = 32 \<and> length (fc_asset_id m) = 32
     \<and> length (fc_proof_data m) \<le> MAX_PROOF_DATA_SIZE \<and> opt_length 33 (fc_group_key m)"
| "wf_message (FundingAck m) \<longleftrightarrow> length (fa_pending_channel_id m) = 32
     \<and> pred_option (\<lambda>r. utf8_valid r \<and> length r \<le> 1000000) (fa_reject_reason m)"
| "wf_message (FundingProof m) \<longleftrightarrow> length (fp_pending_channel_id m) = 32 \<and> length (fp_proof_data m) \<le> MAX_PROOF_DATA_SIZE"
| "wf_message (BuyRequest m) \<longleftrightarrow> wf_request_fields (br_id m) (br_asset_id m) (br_asset_group_key m)"
| "wf_message (SellRequest m) \<longleftrightarrow> wf_request_fields (sr_id m) (sr_asset_id m) (sr_asset_group_key m)"
| "wf_message (BuyAccept m) \<longleftrightarrow> wf_accept m"
| "wf_message (SellAccept m) \<longleftrightarrow> wf_accept m"
| "wf_message (BuyReject m) \<longleftrightarrow> wf_reject m"
| "wf_message (SellReject m) \<longleftrightarrow> wf_reject m"

text \<open>The session that an answer belongs to, as the receiver finds it.\<close>

fun session_known :: "(RfqId \<Rightarrow> bool option) \<Rightarrow> TapMessage \<Rightarrow> bool" where
  "session_known sessions (BuyAccept m) \<longleftrightarrow> sessions (ra_id m) = Some True"
| "session_known sessions (SellAccept m) \<longleftrightarrow> sessions (ra_id m) = Some False"
| "session_known sessions (BuyReject m) \<longleftrightarrow> sessions (rr_id m) = Some True"
| "session_known sessions (SellReject m) \<longleftrightarrow> sessions (rr_id m) = Some False"
| "session_known sessions _ \<longleftrightarrow> True"

lemma request_roundtrip:
  assumes "wf_request w" "rq_version w = WIRE_MSG_VERSION_V1"
  shows "\<exists>data. request_encode w = Ok data \<and> decode_request data =
    (if rq_transfer_type w = TRANSFER_TYPE_PAY_INVOICE then Ok (DecodedSell w)
     else if rq_transfer_type w = TRANSFER_TYPE_RECV_PAYMENT then Ok (DecodedBuy w)
     else Err (UnknownTransferType (rq_transfer_type w)))"
  using request_encode_slots [OF assms(1)] request_decode_encode [OF assms(1)] assms(2) by (simp add: decode_request_def)

lemma tap_accept_roundtrip:
  assumes "length (ac_id w) = 32" "length (ac_sig w) = 64" "ac_max_in_asset w \<noteq> Some 0" "ac_version w = WIRE_MSG_VERSION_V1"
  shows "\<exists>data. accept_encode w = Ok data \<and> decode_accept data = Ok w"
proof -
  have "nonzero_opt (ac_max_in_asset w) = ac_max_in_asset w" using assms(3) by (cases "ac_max_in_asset w") (auto simp: nonzero_opt_def word_neq_0_conv)
  then show ?thesis
    using accept_encode_slots [of w] accept_decode_encode [OF assms(1,2)] assms(4) by (cases w) (simp add: decode_accept_def)
qed

text \<open>C33: message round trip. Every well-formed message between channel peers, of all nine kinds, encodes, and the receiver
  decodes the payload under its type number to the same message, given that it finds the session an answer belongs to.\<close>

theorem tap_message_roundtrip:
  assumes "wf_message m" "session_known sessions m"
  shows "\<exists>payload. tap_message_encode m = Ok (u16_be (msg_type m) @ payload)
    \<and> tap_message_decode (msg_type m) payload sessions = Ok m"
proof (cases m)
  case (FundingCreated c)
  with assms show ?thesis by (simp add: tap_message_encode_def tap_message_decode_def msg_types created_roundtrip)
next
  case (FundingAck a)
  with assms show ?thesis by (simp add: tap_message_encode_def tap_message_decode_def msg_types ack_roundtrip)
next
  case (FundingProof p)
  with assms show ?thesis by (simp add: tap_message_encode_def tap_message_decode_def msg_types funding_proof_roundtrip)
next
  case (BuyRequest r)
  with assms have "wf_request (buy_request_to_wire r)"
    by (simp add: wf_request_def wf_request_fields_def buy_request_to_wire_def new_buy_request_def opt_length_def)
  from request_roundtrip [OF this] BuyRequest show ?thesis
    by (auto simp: tap_message_encode_def tap_message_decode_def buy_request_to_wire_def new_buy_request_def
        buy_request_from_wire_def wire_consts ok_or_def)
next
  case (SellRequest r)
  with assms have "wf_request (sell_request_to_wire r)"
    by (simp add: wf_request_def wf_request_fields_def sell_request_to_wire_def new_sell_request_def opt_length_def)
  from request_roundtrip [OF this] SellRequest show ?thesis
    by (auto simp: tap_message_encode_def tap_message_decode_def sell_request_to_wire_def new_sell_request_def
        sell_request_from_wire_def wire_consts ok_or_def)
next
  case (BuyAccept a)
  with assms tap_accept_roundtrip [of "buy_accept_to_wire a"] show ?thesis
    by (auto simp: tap_message_encode_def tap_message_decode_def msg_types wf_accept_def buy_accept_to_wire_def buy_accept_from_wire_def)
next
  case (SellAccept a)
  with assms tap_accept_roundtrip [of "sell_accept_to_wire a"] show ?thesis
    by (auto simp: tap_message_encode_def tap_message_decode_def msg_types wf_accept_def sell_accept_to_wire_def sell_accept_from_wire_def)
next
  case (BuyReject r)
  with assms reject_roundtrip [of r] show ?thesis
    by (auto simp: tap_message_encode_def tap_message_decode_def msg_types)
next
  case (SellReject r)
  with assms reject_roundtrip [of r] show ?thesis
    by (auto simp: tap_message_encode_def tap_message_decode_def msg_types)
qed


theorem tap_message_roundtrip_witness:
  "\<exists>payload. tap_message_encode (SellReject \<lparr>rr_id = zeros 32, rr_code = FokNotViable, rr_message = []\<rparr>)
      = Ok (u16_be MSG_TYPE_REJECT @ payload)
    \<and> tap_message_decode MSG_TYPE_REJECT payload (\<lambda>_. Some False)
      = Ok (SellReject \<lparr>rr_id = zeros 32, rr_code = FokNotViable, rr_message = []\<rparr>)"
  using tap_message_roundtrip [of "SellReject \<lparr>rr_id = zeros 32, rr_code = FokNotViable, rr_message = []\<rparr>" "\<lambda>_. Some False"]
  by (simp add: wf_reject_def reject_code_from_u8_def)

end
