(* ===== verification/Channel.thy ===== *)
theory Channel
  imports Blobs Distribute Messages
begin

text \<open>
  The life of an asset channel: the auxiliary leaves of its commitment transactions (\<^verbatim>\<open>leaf_creator.rs\<close>,
  \<^verbatim>\<open>tap_tx_builder.rs\<close>), the outputs of its closing (\<^verbatim>\<open>closer.rs\<close>) and the negotiation of its funding (\<^verbatim>\<open>funding.rs\<close>) in
  \<^verbatim>\<open>tap-ldk/src/channel/\<close>, with the types of \<^verbatim>\<open>traits.rs\<close>. The mutex-protected maps of the controllers are
  returned updated; the text of an error, also where it is sent to the peer as a reason, is its literal part.
\<close>

section \<open>Types\<close>

datatype ChannelParty = Local | Remote

datatype AssetChannelError = AssetChannelError string

record CoopCloseParams =
  local_internal_key :: SerializedKey
  remote_internal_key :: SerializedKey
  local_btc_balance_sat :: u64
  remote_btc_balance_sat :: u64
  close_fee_sat :: u64
  local_is_funder :: bool

record CloseOutput =
  co_value_sat :: u64
  co_script :: bytes
  co_asset_data :: bytes

record SweepDescriptor =
  sd_outpoint :: OutPoint
  sd_asset_data :: bytes
  sd_csv_delay :: "u16 option"

record TapConfig =
  rfq_quote_lifetime_secs :: u64
  csv_delay_blocks :: u16
  dust_limit_sat :: u64

definition tap_config_default :: TapConfig where
  "tap_config_default = \<lparr>rfq_quote_lifetime_secs = 3600, csv_delay_blocks = 144, dust_limit_sat = 330\<rparr>"

section \<open>Auxiliary leaves\<close>

text \<open>The asset built for a balance, the search for the funded asset of an asset ID, and the script key both modules choose.\<close>

definition balance_asset :: "Genesis \<Rightarrow> u64 \<Rightarrow> SerializedKey \<Rightarrow> Asset" where
  "balance_asset g amt key =
     \<lparr>a_version = AssetV0, genesis = g, amount = amt, a_lock_time = 0, relative_lock_time = 0, prev_witnesses = [],
      split_commitment_root = None, script_version = 0, script_key = script_key_from_pub_key key, group_key = None,
      unknown_odd_types = []\<rparr>"

definition funded_asset :: "ChannelBlob \<Rightarrow> AssetId \<Rightarrow> AssetOutput option" where
  "funded_asset channel_blob aid = List.find (\<lambda>f. ao_asset_id f = aid) (funded_assets channel_blob)"

definition balance_script_key :: "ChannelBlob \<Rightarrow> AssetOutput \<Rightarrow> SerializedKey" where
  "balance_script_key channel_blob out =
     (case funded_asset channel_blob (ao_asset_id out) of Some f \<Rightarrow> ao_script_key f | None \<Rightarrow> ao_script_key out)"

text \<open>The commitment of version 2 that both modules build over a list of assets, with the text of the second error.\<close>

definition balance_commitment :: "hash_fun \<Rightarrow> string \<Rightarrow> Asset list \<Rightarrow> (TapCommitment, AssetChannelError) result" where
  "balance_commitment sha label assets =
     res_bind (map_err (\<lambda>_. AssetChannelError ''commitment'') (asset_commitment_new sha assets)) (\<lambda>ac.
       map_err (\<lambda>_. AssetChannelError label) (tap_commitment_new sha TapV2 [ac]))"

definition create_balance_leaf ::
  "hash_fun \<Rightarrow> ChannelBlob \<Rightarrow> AssetOutput list \<Rightarrow> u32 \<Rightarrow> ((u32 \<times> bytes) option, AssetChannelError) result" where
  "create_balance_leaf sha channel_blob balances output_index =
     (let non_zero = filter (\<lambda>b. ao_amount b > 0) balances in
      if non_zero = [] then Ok None
      else
        let assets = map (\<lambda>b. balance_asset genesis_empty (ao_amount b) (balance_script_key channel_blob b)) non_zero in
        res_bind (balance_commitment sha ''tap commitment'' assets) (\<lambda>c. Ok (Some (output_index, tap_leaf sha c))))"

text \<open>The loop over the HTLCs of one direction; the index is cut to 32 bits and the addition wraps.\<close>

definition push_leaf :: "(u32 \<times> bytes) list \<Rightarrow> (u32 \<times> bytes) option \<Rightarrow> (u32 \<times> bytes) list" where
  "push_leaf leafs leaf = (case leaf of Some l \<Rightarrow> leafs @ [l] | None \<Rightarrow> leafs)"

fun htlc_balance_leaves ::
  "hash_fun \<Rightarrow> ChannelBlob \<Rightarrow> HtlcAssetOutputs \<Rightarrow> (u32 \<times> bytes) list \<Rightarrow> ((u32 \<times> bytes) list, AssetChannelError) result" where
  "htlc_balance_leaves sha channel_blob [] leafs = Ok leafs"
| "htlc_balance_leaves sha channel_blob ((htlc_index, outputs) # htlcs) leafs =
     res_bind (create_balance_leaf sha channel_blob outputs (ucast htlc_index + 2)) (\<lambda>leaf.
       htlc_balance_leaves sha channel_blob htlcs (push_leaf leafs leaf))"

definition create_aux_leaves ::
  "hash_fun \<Rightarrow> ChannelBlob \<Rightarrow> CommitmentBlob \<Rightarrow> ChannelParty \<Rightarrow> ((u32 \<times> bytes) list, AssetChannelError) result" where
  "create_aux_leaves sha channel_blob commitment_blob whose_commit =
     (let (local_balances, remote_balances) =
        (case whose_commit of
           Local \<Rightarrow> (local_assets commitment_blob, remote_assets commitment_blob)
         | Remote \<Rightarrow> (remote_assets commitment_blob, local_assets commitment_blob)) in
      res_bind (create_balance_leaf sha channel_blob local_balances 0) (\<lambda>leaf0.
      res_bind (create_balance_leaf sha channel_blob remote_balances 1) (\<lambda>leaf1.
      res_bind (htlc_balance_leaves sha channel_blob (outgoing_htlc_assets commitment_blob) (push_leaf (push_leaf [] leaf0) leaf1))
        (\<lambda>leafs. htlc_balance_leaves sha channel_blob (incoming_htlc_assets commitment_blob) leafs))))"

text \<open>The builder that hands the leaves to LDK; an error in their creation gives no leaves.\<close>

record TapTxBuilder =
  tb_channel_blob :: "ChannelBlob option"
  tb_commitment_blob :: "CommitmentBlob option"

definition tap_tx_builder_new :: TapTxBuilder where
  "tap_tx_builder_new = \<lparr>tb_channel_blob = None, tb_commitment_blob = None\<rparr>"

definition set_channel_blob :: "ChannelBlob \<Rightarrow> TapTxBuilder \<Rightarrow> TapTxBuilder" where
  "set_channel_blob blob b = b\<lparr>tb_channel_blob := Some blob\<rparr>"

definition set_commitment_blob :: "CommitmentBlob \<Rightarrow> TapTxBuilder \<Rightarrow> TapTxBuilder" where
  "set_commitment_blob blob b = b\<lparr>tb_commitment_blob := Some blob\<rparr>"

definition get_aux_commitment_data :: "hash_fun \<Rightarrow> bool \<Rightarrow> TapTxBuilder \<Rightarrow> ((u32 \<times> bytes) list, unit) result" where
  "get_aux_commitment_data sha is_local b =
     (case (tb_channel_blob b, tb_commitment_blob b) of
        (Some cb, Some cmb) \<Rightarrow>
          (case create_aux_leaves sha cb cmb (if is_local then Local else Remote) of
             Ok leafs \<Rightarrow> Ok leafs | Err _ \<Rightarrow> Ok [] | Panic \<Rightarrow> Panic)
      | _ \<Rightarrow> Ok [])"

section \<open>Closing\<close>

definition close_asset :: "ChannelBlob \<Rightarrow> AssetOutput \<Rightarrow> Asset" where
  "close_asset channel_blob out =
     (case ao_proof out of
        Some p \<Rightarrow> (asset p)\<lparr>amount := ao_amount out\<rparr>
      | None \<Rightarrow>
          let g = (case Option.bind (funded_asset channel_blob (ao_asset_id out)) ao_proof of
                     Some p \<Rightarrow> genesis (asset p) | None \<Rightarrow> genesis_empty)
          in balance_asset g (ao_amount out) (balance_script_key channel_blob out))"

definition build_output_commitment ::
  "hash_fun \<Rightarrow> ChannelBlob \<Rightarrow> AssetOutput list \<Rightarrow> (TapCommitment, AssetChannelError) result" where
  "build_output_commitment sha channel_blob outputs =
     balance_commitment sha ''tap'' (map (close_asset channel_blob) (filter (\<lambda>out. ao_amount out > 0) outputs))"

definition build_close_output ::
  "hash_fun \<Rightarrow> Secp \<Rightarrow> ChannelBlob \<Rightarrow> AssetOutput list \<Rightarrow> SerializedKey \<Rightarrow> u64 \<Rightarrow> bool
    \<Rightarrow> (CloseOutput option, AssetChannelError) result" where
  "build_close_output sha lib channel_blob outputs internal_key value_sat is_local =
     (let asset_sum = sum_amounts outputs in
      if asset_sum = 0 then Ok None
      else
        res_bind (build_output_commitment sha channel_blob outputs) (\<lambda>commitment.
          let allocation = allocation_default\<lparr>
                al_type := if is_local then CommitAllocationToLocal else CommitAllocationToRemote,
                al_amount := asset_sum, al_internal_key := Some internal_key,
                al_script_key := (case outputs of o1 # _ \<Rightarrow> Some (script_key_from_pub_key (ao_script_key o1)) | [] \<Rightarrow> None),
                al_output_commitment := Some commitment\<rparr> in
          res_bind (map_err (\<lambda>_. AssetChannelError ''final pk script'') (final_pk_script sha lib allocation)) (\<lambda>script.
            Ok (Some \<lparr>co_value_sat = value_sat, co_script = script, co_asset_data = tap_leaf sha commitment\<rparr>))))"

definition cooperative_close_outputs ::
  "TapConfig \<Rightarrow> hash_fun \<Rightarrow> Secp \<Rightarrow> ChannelBlob \<Rightarrow> CommitmentBlob \<Rightarrow> CoopCloseParams
    \<Rightarrow> (CloseOutput list, AssetChannelError) result" where
  "cooperative_close_outputs config sha lib channel_blob commitment_blob params =
     (let (local_fee, remote_fee) = (if local_is_funder params then (close_fee_sat params, 0) else (0, close_fee_sat params));
          local_value = saturating_sub (local_btc_balance_sat params) local_fee;
          remote_value = saturating_sub (remote_btc_balance_sat params) remote_fee in
      if local_value < dust_limit_sat config \<and> local_balance commitment_blob > 0
      then Err (AssetChannelError ''local close output below dust limit'')
      else if remote_value < dust_limit_sat config \<and> remote_balance commitment_blob > 0
      then Err (AssetChannelError ''remote close output below dust limit'')
      else
        res_bind (build_close_output sha lib channel_blob (local_assets commitment_blob) (local_internal_key params) local_value True)
          (\<lambda>out1.
        res_bind (build_close_output sha lib channel_blob (remote_assets commitment_blob) (remote_internal_key params) remote_value False)
          (\<lambda>out2. Ok (case_option [] (\<lambda>x. [x]) out1 @ case_option [] (\<lambda>x. [x]) out2))))"

definition sweep_output_index :: "AssetOutput \<Rightarrow> u32 \<Rightarrow> u32" where
  "sweep_output_index out fallback = (case ao_proof out of Some p \<Rightarrow> tr_output_index (inclusion_proof p) | None \<Rightarrow> fallback)"

definition encode_balance_data :: "AssetOutput list \<Rightarrow> bytes" where
  "encode_balance_data outs = concat (map (\<lambda>out. ao_asset_id out @ u64_be (ao_amount out)) outs)"

text \<open>One output of the commitment transaction, if it carries units, and the loop over the HTLCs of one direction.\<close>

definition sweep_one ::
  "bytes \<Rightarrow> u16 option \<Rightarrow> AssetOutput list \<Rightarrow> SweepDescriptor list \<times> u32 \<Rightarrow> SweepDescriptor list \<times> u32" where
  "sweep_one commitment_txid csv outs = (\<lambda>(descriptors, fallback_idx).
     if sum_amounts outs > 0 then
       (let vout = (case outs of o1 # _ \<Rightarrow> sweep_output_index o1 fallback_idx | [] \<Rightarrow> fallback_idx)
        in (descriptors @ [\<lparr>sd_outpoint = \<lparr>op_txid = commitment_txid, op_vout = vout\<rparr>,
              sd_asset_data = encode_balance_data outs, sd_csv_delay = csv\<rparr>], fallback_idx + 1))
     else (descriptors, fallback_idx))"

definition force_close_outputs ::
  "TapConfig \<Rightarrow> CommitmentBlob \<Rightarrow> bool \<Rightarrow> bytes \<Rightarrow> SweepDescriptor list" where
  "force_close_outputs config commitment_blob is_local_commitment commitment_txid =
     (let balances = (if is_local_commitment then local_assets commitment_blob else remote_assets commitment_blob);
          s = sweep_one commitment_txid (if is_local_commitment then Some (csv_delay_blocks config) else None) balances ([], 0);
          s = foldl (\<lambda>s (_, outs). sweep_one commitment_txid None outs s) s (outgoing_htlc_assets commitment_blob);
          s = foldl (\<lambda>s (_, outs). sweep_one commitment_txid None outs s) s (incoming_htlc_assets commitment_blob)
      in fst s)"

section \<open>Funding\<close>

record PendingFunding =
  pf_asset_id :: AssetId
  pf_amount :: u64
  pf_group_key :: "SerializedKey option"
  pf_proof :: "TransitionProof option"

type_synonym FundingController = "bytes \<rightharpoonup> PendingFunding"

definition decode_last_proof ::
  "hash_fun \<Rightarrow> (SerializedKey \<Rightarrow> bool) \<Rightarrow> TxLib \<Rightarrow> bytes \<Rightarrow> (TransitionProof, AssetChannelError) result" where
  "decode_last_proof sha on_curve txl proof_data =
     res_bind (map_err (\<lambda>_. AssetChannelError ''proof file'') (file_decode sha proof_data)) (\<lambda>file.
     res_bind (ok_or (last_proof file) (AssetChannelError ''proof file contains no proofs'')) (\<lambda>hp.
       if \<not> verify_hash_chain sha file then Err (AssetChannelError ''proof file hash chain invalid'')
       else map_err (\<lambda>_. AssetChannelError ''final proof'') (decode_proof sha on_curve txl (proof_bytes hp))))"

definition initiate_funding ::
  "hash_fun \<Rightarrow> (SerializedKey \<Rightarrow> bool) \<Rightarrow> TxLib \<Rightarrow> bytes \<Rightarrow> AssetId \<Rightarrow> u64 \<Rightarrow> SerializedKey option \<Rightarrow> bytes
    \<Rightarrow> FundingController \<Rightarrow> (TapMessage, AssetChannelError) result \<times> FundingController" where
  "initiate_funding sha on_curve txl pending_channel_id aid amt gk proof_data pending =
     (case decode_last_proof sha on_curve txl proof_data of
        Panic \<Rightarrow> (Panic, pending)
      | r \<Rightarrow>
          (Ok (FundingCreated \<lparr>fc_pending_channel_id = pending_channel_id, fc_asset_id = aid, fc_amount = amt,
             fc_proof_data = proof_data, fc_group_key = gk\<rparr>),
           pending(pending_channel_id \<mapsto> \<lparr>pf_asset_id = aid, pf_amount = amt, pf_group_key = gk,
             pf_proof = (case r of Ok p \<Rightarrow> Some p | _ \<Rightarrow> None)\<rparr>)))"

definition validate_funding_proposal ::
  "hash_fun \<Rightarrow> (SerializedKey \<Rightarrow> bool) \<Rightarrow> TxLib \<Rightarrow> AssetFundingCreated \<Rightarrow> (TransitionProof, string) result" where
  "validate_funding_proposal sha on_curve txl created =
     (if fc_proof_data created = [] then Err ''funding proposal missing proof data''
      else
        res_bind (map_err (\<lambda>_. ''invalid proof data'') (decode_last_proof sha on_curve txl (fc_proof_data created))) (\<lambda>p.
          if genesis_id sha (genesis (asset p)) \<noteq> fc_asset_id created then Err ''proof asset id mismatch''
          else if amount (asset p) < fc_amount created then Err ''proof amount below proposed channel amount''
          else Ok p))"

text \<open>The hash computations of \<^verbatim>\<open>derive_funding_script_key\<close> are those of the tapscript module, written out there
  with one-byte lengths.\<close>

definition funding_leaf_hash :: "hash_fun \<Rightarrow> bytes \<Rightarrow> bytes" where
  "funding_leaf_hash sha script =
     (let tapleaf_tag = sha (ascii ''TapLeaf'')
      in sha (tapleaf_tag @ tapleaf_tag @ [0xC0] @ [of_nat (length script)] @ script))"

definition derive_funding_script_key ::
  "hash_fun \<Rightarrow> Secp \<Rightarrow> AssetId option \<Rightarrow> (SerializedKey, AssetChannelError) result" where
  "derive_funding_script_key sha lib aid =
     (let leaf_hash = funding_leaf_hash sha [0x51];
          root = (case aid of
              Some aid \<Rightarrow>
                let leaf2_hash = funding_leaf_hash sha ([0x6a] @ [0x20] @ aid);
                    tapbranch_tag = sha (ascii ''TapBranch'');
                    (first, second) = (if leaf_hash \<le> leaf2_hash then (leaf_hash, leaf2_hash) else (leaf2_hash, leaf_hash))
                in sha (tapbranch_tag @ tapbranch_tag @ first @ second)
            | None \<Rightarrow> leaf_hash) in
      if \<not> pub_key_valid lib TAPROOT_NUMS_BYTES then Err (AssetChannelError ''invalid NUMS key'')
      else res_bind (map_err (\<lambda>_. AssetChannelError ''tweak failed'')
          (tweak_pub_key sha lib (drop 1 TAPROOT_NUMS_BYTES) (Some root))) (\<lambda>(tweaked_key, parity).
        Ok ((if parity then 0x03 else 0x02) # tweaked_key)))"

definition handle_funding_created ::
  "hash_fun \<Rightarrow> (SerializedKey \<Rightarrow> bool) \<Rightarrow> TxLib \<Rightarrow> AssetFundingCreated
    \<Rightarrow> FundingController \<Rightarrow> (TapMessage option, AssetChannelError) result \<times> FundingController" where
  "handle_funding_created sha on_curve txl created pending =
     (case validate_funding_proposal sha on_curve txl created of
        Ok p \<Rightarrow>
          (Ok (Some (FundingAck \<lparr>fa_pending_channel_id = fc_pending_channel_id created, fa_accepted = True, fa_reject_reason = None\<rparr>)),
           pending(fc_pending_channel_id created \<mapsto> \<lparr>pf_asset_id = fc_asset_id created, pf_amount = fc_amount created,
             pf_group_key = fc_group_key created, pf_proof = Some p\<rparr>))
      | Err reason \<Rightarrow>
          (Ok (Some (FundingAck \<lparr>fa_pending_channel_id = fc_pending_channel_id created, fa_accepted = False,
             fa_reject_reason = Some (ascii reason)\<rparr>)), pending)
      | Panic \<Rightarrow> (Panic, pending))"

definition handle_funding_proof ::
  "hash_fun \<Rightarrow> (SerializedKey \<Rightarrow> bool) \<Rightarrow> TxLib \<Rightarrow> AssetFundingProof
    \<Rightarrow> FundingController \<Rightarrow> (TapMessage option, AssetChannelError) result \<times> FundingController" where
  "handle_funding_proof sha on_curve txl proof_msg pending =
     (case decode_last_proof sha on_curve txl (fp_proof_data proof_msg) of
        Ok p \<Rightarrow>
          (Ok None, case pending (fp_pending_channel_id proof_msg) of
             Some s \<Rightarrow> pending(fp_pending_channel_id proof_msg \<mapsto> s\<lparr>pf_proof := Some p\<rparr>)
           | None \<Rightarrow> pending)
      | Err _ \<Rightarrow> (Ok None, pending)
      | Panic \<Rightarrow> (Panic, pending))"

fun handle_funding_msg ::
  "hash_fun \<Rightarrow> (SerializedKey \<Rightarrow> bool) \<Rightarrow> TxLib \<Rightarrow> bytes \<Rightarrow> TapMessage
    \<Rightarrow> FundingController \<Rightarrow> (TapMessage option, AssetChannelError) result \<times> FundingController" where
  "handle_funding_msg sha on_curve txl _ (FundingCreated created) pending = handle_funding_created sha on_curve txl created pending"
| "handle_funding_msg sha on_curve txl pending_channel_id (FundingAck ack) pending =
     (if \<not> fa_accepted ack then (Err (AssetChannelError ''funding rejected''), pending(pending_channel_id := None))
      else (Ok None, pending))"
| "handle_funding_msg sha on_curve txl _ (FundingProof proof_msg) pending = handle_funding_proof sha on_curve txl proof_msg pending"
| "handle_funding_msg sha on_curve txl _ _ pending = (Ok None, pending)"

definition finalize_funding ::
  "hash_fun \<Rightarrow> Secp \<Rightarrow> bytes \<Rightarrow> FundingController \<Rightarrow> (ChannelBlob, AssetChannelError) result" where
  "finalize_funding sha lib pending_channel_id pending_map =
     res_bind (ok_or (pending_map pending_channel_id) (AssetChannelError ''no pending funding'')) (\<lambda>pending.
     res_bind (derive_funding_script_key sha lib (Some (pf_asset_id pending))) (\<lambda>key.
       Ok \<lparr>funded_assets = [\<lparr>ao_asset_id = pf_asset_id pending, ao_amount = pf_amount pending, ao_script_key = key,
             ao_proof = pf_proof pending\<rparr>], decimal_display = 0, cb_group_key = pf_group_key pending\<rparr>))"

definition initial_commitment_blob :: "ChannelBlob \<Rightarrow> bool \<Rightarrow> CommitmentBlob" where
  "initial_commitment_blob channel_blob initiator_is_local =
     (let outputs = funded_assets channel_blob in
      if initiator_is_local then commitment_blob_default\<lparr>local_assets := outputs, remote_assets := []\<rparr>
      else commitment_blob_default\<lparr>local_assets := [], remote_assets := outputs\<rparr>)"

definition output_balances :: "AssetOutput list \<Rightarrow> AssetBalance list" where
  "output_balances outputs = map (\<lambda>out. \<lparr>ab_asset_id = ao_asset_id out, ab_amount = ao_amount out\<rparr>) outputs"

section \<open>Auxiliary leaves and asset IDs\<close>

text \<open>Every asset ID of a channel is renamed by \<open>f\<close>, and every proof, with the genesis in it, replaced by \<open>g\<close>.\<close>

definition relabel_output :: "(AssetId \<Rightarrow> AssetId) \<Rightarrow> (TransitionProof option \<Rightarrow> TransitionProof option) \<Rightarrow> AssetOutput \<Rightarrow> AssetOutput" where
  "relabel_output f g out = out\<lparr>ao_asset_id := f (ao_asset_id out), ao_proof := g (ao_proof out)\<rparr>"

definition relabel_htlcs ::
  "(AssetId \<Rightarrow> AssetId) \<Rightarrow> (TransitionProof option \<Rightarrow> TransitionProof option) \<Rightarrow> HtlcAssetOutputs \<Rightarrow> HtlcAssetOutputs" where
  "relabel_htlcs f g = map (\<lambda>(k, outs). (k, map (relabel_output f g) outs))"

definition relabel_commitment ::
  "(AssetId \<Rightarrow> AssetId) \<Rightarrow> (TransitionProof option \<Rightarrow> TransitionProof option) \<Rightarrow> CommitmentBlob \<Rightarrow> CommitmentBlob" where
  "relabel_commitment f g b = b\<lparr>local_assets := map (relabel_output f g) (local_assets b), remote_assets := map (relabel_output f g) (remote_assets b),
     outgoing_htlc_assets := relabel_htlcs f g (outgoing_htlc_assets b), incoming_htlc_assets := relabel_htlcs f g (incoming_htlc_assets b)\<rparr>"

definition relabel_channel ::
  "(AssetId \<Rightarrow> AssetId) \<Rightarrow> (TransitionProof option \<Rightarrow> TransitionProof option) \<Rightarrow> ChannelBlob \<Rightarrow> ChannelBlob" where
  "relabel_channel f g b = b\<lparr>funded_assets := map (relabel_output f g) (funded_assets b)\<rparr>"

lemma relabel_output_simps [simp]:
  "ao_asset_id (relabel_output f g out) = f (ao_asset_id out)" "ao_amount (relabel_output f g out) = ao_amount out"
  "ao_script_key (relabel_output f g out) = ao_script_key out" "ao_proof (relabel_output f g out) = g (ao_proof out)"
  by (simp_all add: relabel_output_def)

lemma balance_script_key_relabel:
  assumes "inj f"
  shows "balance_script_key (relabel_channel f g cb) (relabel_output f g out) = balance_script_key cb out"
proof -
  have "List.find (\<lambda>o1. ao_asset_id o1 = f aid) (map (relabel_output f g) outs)
    = map_option (relabel_output f g) (List.find (\<lambda>o1. ao_asset_id o1 = aid) outs)" for aid outs
    using assms by (induction outs) (auto simp: inj_eq)
  then show ?thesis by (simp add: balance_script_key_def funded_asset_def relabel_channel_def split: option.splits)
qed

lemma create_balance_leaf_relabel:
  assumes "inj f"
  shows "create_balance_leaf sha (relabel_channel f g cb) (map (relabel_output f g) outs) i = create_balance_leaf sha cb outs i"
  by (simp add: create_balance_leaf_def Let_def filter_map comp_def balance_script_key_relabel [OF assms])

lemma htlc_balance_leaves_relabel:
  assumes "inj f"
  shows "htlc_balance_leaves sha (relabel_channel f g cb) (relabel_htlcs f g htlcs) ls = htlc_balance_leaves sha cb htlcs ls"
proof (induction htlcs arbitrary: ls)
  case (Cons e htlcs)
  then show ?case by (cases e) (simp add: relabel_htlcs_def create_balance_leaf_relabel [OF assms])
qed (simp add: relabel_htlcs_def)

section \<open>A commitment that is built\<close>

definition demo_channel :: ChannelBlob where
  "demo_channel = \<lparr>funded_assets = [], decimal_display = 0, cb_group_key = None\<rparr>"

definition demo_balance :: AssetOutput where
  "demo_balance = \<lparr>ao_asset_id = zeros 32, ao_amount = 5, ao_script_key = NUMS_KEY, ao_proof = None\<rparr>"

lemma demo_balance_commitment: "\<exists>c. balance_commitment demo_hash label [balance_asset genesis_empty 5 NUMS_KEY] = Ok c"
proof -
  let ?a = "balance_asset genesis_empty 5 NUMS_KEY"
  obtain leaf where leaf: "asset_to_leaf demo_hash ?a = Ok leaf"
    by (simp add: asset_to_leaf_def encode_asset_leaf_def balance_asset_def)
  have "wf_genesis (genesis ?a)"
    by (simp add: balance_asset_def wf_genesis_def genesis_empty_def wf_asset_type_def asset_type_from_u8_def)
  from asset_leaf_sized [OF this leaf] have "length (leaf_value leaf) \<noteq> 64" "leaf \<noteq> leaf_empty"
    by (auto simp: leaf_empty_def leaf_new_def)
  then obtain s where s: "tree_insert demo_hash (leaf_key_of demo_hash ?a) leaf full_tree_new = Ok s"
    using demo_single_leaf(4) by blast
  have "length (leaf_value (tap_commitment_leaf demo_hash ac)) \<noteq> 64" "tap_commitment_leaf demo_hash ac \<noteq> leaf_empty" for ac
    using tap_commitment_leaf_sized [OF sha_32_demo_hash, of ac] by auto
  then have "\<exists>t. tree_insert demo_hash k (tap_commitment_leaf demo_hash ac) full_tree_new = Ok t" for k ac
    using demo_single_leaf(4) by blast
  then show ?thesis
    using leaf s by (force simp: balance_commitment_def asset_commitment_new_def asset_leaf_def tap_commitment_new_def res_simps)
qed

text \<open>C39: the leaves of a commitment transaction do not depend on the asset. Rename every asset ID of a channel, in its funded assets and
  in all balances, distinct IDs staying distinct, and replace every proof in it by any other proof or none, so that the genesis of the assets that the
  proofs show is another one too: the auxiliary leaves of the commitment transaction are the same, byte for byte. They commit to amounts and script
  keys of no particular asset, since neither the asset IDs nor the genesis in the proofs enter them.\<close>

theorem aux_leaves_ignore_asset_ids:
  assumes "inj f"
  shows "create_aux_leaves sha (relabel_channel f g channel) (relabel_commitment f g blob) party = create_aux_leaves sha channel blob party"
  by (cases party)
    (simp_all add: create_aux_leaves_def relabel_commitment_def create_balance_leaf_relabel [OF assms]
      htlc_balance_leaves_relabel [OF assms])

theorem aux_leaves_ignore_asset_ids_witness:
  "\<exists>leaf. create_aux_leaves demo_hash demo_channel (commitment_blob_default\<lparr>local_assets := [demo_balance]\<rparr>) Local = Ok [(0, leaf)]
    \<and> create_aux_leaves demo_hash (relabel_channel (map not) (\<lambda>_. Some (proof_default\<lparr>asset := demo_coin\<rparr>)) demo_channel)
        (relabel_commitment (map not) (\<lambda>_. Some (proof_default\<lparr>asset := demo_coin\<rparr>)) (commitment_blob_default\<lparr>local_assets := [demo_balance]\<rparr>)) Local
      = Ok [(0, leaf)]"
proof -
  let ?g = "\<lambda>_ :: TransitionProof option. Some (proof_default\<lparr>asset := demo_coin\<rparr>)"
  have "inj (map (not :: u8 \<Rightarrow> u8))" by (intro inj_mapI injI) (metis bit.double_compl)
  note eq = aux_leaves_ignore_asset_ids [OF this, of demo_hash ?g demo_channel "commitment_blob_default\<lparr>local_assets := [demo_balance]\<rparr>" Local]
  obtain c where "balance_commitment demo_hash ''tap commitment'' [balance_asset genesis_empty 5 NUMS_KEY] = Ok c"
    using demo_balance_commitment by blast
  then show ?thesis
    unfolding eq by (simp add: create_aux_leaves_def create_balance_leaf_def commitment_blob_default_def demo_channel_def demo_balance_def
        balance_script_key_def funded_asset_def push_leaf_def)
qed

section \<open>What a cooperative close pays\<close>

lemma build_close_output_Ok:
  assumes "build_close_output sha lib channel outs key val is_local = Ok r"
    and "\<forall>k. pub_key_valid lib k \<longrightarrow> x_only_valid (btc lib) (drop 1 k)"
  shows "if sum_amounts outs = 0 then r = None
    else \<exists>c co k. build_output_commitment sha channel outs = Ok c \<and> r = Some co \<and> co_value_sat co = val
      \<and> co_asset_data co = tap_leaf sha c \<and> create_tap_output_script sha lib key c None = Ok (co_script co, k)"
proof (cases "sum_amounts outs = 0")
  case False
  with assms(1) obtain c script a where c: "build_output_commitment sha channel outs = Ok c"
    and a: "a = allocation_default\<lparr>al_type := if is_local then CommitAllocationToLocal else CommitAllocationToRemote,
      al_amount := sum_amounts outs, al_internal_key := Some key,
      al_script_key := (case outs of o1 # _ \<Rightarrow> Some (script_key_from_pub_key (ao_script_key o1)) | [] \<Rightarrow> None),
      al_output_commitment := Some c\<rparr>"
    and script: "final_pk_script sha lib a = Ok script"
    and r: "r = Some \<lparr>co_value_sat = val, co_script = script, co_asset_data = tap_leaf sha c\<rparr>"
    by (auto simp: build_close_output_def Let_def res_simps)
  have valid: "pub_key_valid lib key"
    using script by (auto simp: a final_pk_script_def allocation_default_def al_tapscript_sibling_def ok_or_def split: if_splits)
  have "final_pk_script sha lib a = Ok script \<longleftrightarrow> (\<exists>out. create_tap_output_script sha lib key c None = Ok (script, out))"
    by (rule final_pk_script_eq_builder [OF _ _ _ valid assms(2)]) (simp_all add: a allocation_default_def)
  with False c script r show ?thesis by auto
qed (use assms(1) in \<open>simp add: build_close_output_def\<close>)

text \<open>One party of the close: no output without units, otherwise one output above the dust limit that pays the whole Bitcoin
  balance of the party less its fee, to the taproot script of its shutdown key and the commitment to its assets.\<close>

definition pays_party ::
  "TapConfig \<Rightarrow> hash_fun \<Rightarrow> Secp \<Rightarrow> ChannelBlob \<Rightarrow> AssetOutput list \<Rightarrow> SerializedKey \<Rightarrow> u64 \<Rightarrow> u64 \<Rightarrow> CloseOutput list \<Rightarrow> bool" where
  "pays_party config sha lib channel outs key balance fee cos \<longleftrightarrow>
     (if sum_amounts outs = 0 then cos = []
      else \<exists>c co k. cos = [co] \<and> build_output_commitment sha channel outs = Ok c
        \<and> create_tap_output_script sha lib key c None = Ok (co_script co, k) \<and> co_asset_data co = tap_leaf sha c
        \<and> dust_limit_sat config \<le> co_value_sat co \<and> unat (co_value_sat co) + unat fee = unat balance)"

lemma pays_partyI:
  assumes "build_close_output sha lib channel outs key (saturating_sub balance fee) is_local = Ok r"
    and "\<forall>k. pub_key_valid lib k \<longrightarrow> x_only_valid (btc lib) (drop 1 k)"
    and "0 < dust_limit_sat config" "sum_amounts outs = 0 \<or> dust_limit_sat config \<le> saturating_sub balance fee"
  shows "pays_party config sha lib channel outs key balance fee (case_option [] (\<lambda>x. [x]) r)"
proof (cases "sum_amounts outs = 0")
  case False
  then have dust: "dust_limit_sat config \<le> saturating_sub balance fee" using assms(4) by simp
  then have "0 < unat (saturating_sub balance fee)"
    using assms(3) by (metis order_less_le_trans unat_gt_0 word_gt_0)
  then have "unat (saturating_sub balance fee) + unat fee = unat balance" by (simp add: unat_saturating_sub)
  with build_close_output_Ok [OF assms(1,2)] False dust show ?thesis by (auto simp: pays_party_def)
qed (use build_close_output_Ok [OF assms(1,2)] in \<open>simp add: pays_party_def\<close>)

text \<open>C13: a cooperative close pays what was agreed. When the closing outputs are computed, a party without units has none, and every
  other party exactly one: to the script that the on-chain builder makes of its shutdown key and the commitment to its assets,
  holding exactly its Bitcoin balance, less the fee for the funder and for nobody else, and not below the dust limit. A valid
  compressed key is assumed to have a valid x coordinate.\<close>

theorem cooperative_close_pays:
  assumes "cooperative_close_outputs config sha lib channel blob params = Ok outs"
    and "0 < dust_limit_sat config" "\<forall>k. pub_key_valid lib k \<longrightarrow> x_only_valid (btc lib) (drop 1 k)"
  shows "\<exists>loc rem. outs = loc @ rem
    \<and> pays_party config sha lib channel (local_assets blob) (local_internal_key params) (local_btc_balance_sat params)
        (if local_is_funder params then close_fee_sat params else 0) loc
    \<and> pays_party config sha lib channel (remote_assets blob) (remote_internal_key params) (remote_btc_balance_sat params)
        (if local_is_funder params then 0 else close_fee_sat params) rem"
proof -
  let ?lf = "if local_is_funder params then close_fee_sat params else 0"
  let ?rf = "if local_is_funder params then 0 else close_fee_sat params"
  let ?lv = "saturating_sub (local_btc_balance_sat params) ?lf"
  let ?rv = "saturating_sub (remote_btc_balance_sat params) ?rf"
  have "cooperative_close_outputs config sha lib channel blob params =
    (if ?lv < dust_limit_sat config \<and> local_balance blob > 0 then Err (AssetChannelError ''local close output below dust limit'')
     else if ?rv < dust_limit_sat config \<and> remote_balance blob > 0 then Err (AssetChannelError ''remote close output below dust limit'')
     else res_bind (build_close_output sha lib channel (local_assets blob) (local_internal_key params) ?lv True) (\<lambda>out1.
       res_bind (build_close_output sha lib channel (remote_assets blob) (remote_internal_key params) ?rv False) (\<lambda>out2.
         Ok (case_option [] (\<lambda>x. [x]) out1 @ case_option [] (\<lambda>x. [x]) out2))))"
    by (cases "local_is_funder params") (simp_all add: cooperative_close_outputs_def Let_def)
  with assms(1) obtain r1 r2 where
    r1: "build_close_output sha lib channel (local_assets blob) (local_internal_key params) ?lv True = Ok r1"
    and r2: "build_close_output sha lib channel (remote_assets blob) (remote_internal_key params) ?rv False = Ok r2"
    and outs: "outs = case_option [] (\<lambda>x. [x]) r1 @ case_option [] (\<lambda>x. [x]) r2"
    and dust: "\<not> (?lv < dust_limit_sat config \<and> local_balance blob > 0)" "\<not> (?rv < dust_limit_sat config \<and> remote_balance blob > 0)"
    by (auto simp: res_simps split: if_splits)
  have "sum_amounts (local_assets blob) = 0 \<or> dust_limit_sat config \<le> ?lv"
    "sum_amounts (remote_assets blob) = 0 \<or> dust_limit_sat config \<le> ?rv"
    using dust unfolding local_balance_def remote_balance_def by (auto simp: word_gt_0 not_less)
  with outs pays_partyI [OF r1 assms(3,2)] pays_partyI [OF r2 assms(3,2)] show ?thesis by blast
qed

theorem cooperative_close_pays_witness:
  "\<exists>co. pays_party tap_config_default demo_hash demo_secp demo_channel [demo_balance] NUMS_KEY 10000 300 [co] \<and> co_value_sat co = 9700"
proof -
  let ?params = "\<lparr>local_internal_key = NUMS_KEY, remote_internal_key = NUMS_KEY, local_btc_balance_sat = 10000,
    remote_btc_balance_sat = 0, close_fee_sat = 300, local_is_funder = True\<rparr>"
  let ?blob = "commitment_blob_default\<lparr>local_assets := [demo_balance]\<rparr>"
  obtain c where "balance_commitment demo_hash ''tap'' [balance_asset genesis_empty 5 NUMS_KEY] = Ok c"
    using demo_balance_commitment by blast
  then have c: "build_output_commitment demo_hash demo_channel [demo_balance] = Ok c"
    by (simp add: build_output_commitment_def close_asset_def demo_balance_def demo_channel_def balance_script_key_def funded_asset_def)
  then obtain co where co: "cooperative_close_outputs tap_config_default demo_hash demo_secp demo_channel ?blob ?params = Ok [co]"
    "co_value_sat co = 9700"
    by (simp add: cooperative_close_outputs_def build_close_output_def commitment_blob_default_def sum_amounts_def
        local_balance_def remote_balance_def demo_balance_def saturating_sub_def tap_config_default_def Let_def final_pk_script_def
        allocation_default_def al_tapscript_sibling_def ok_or_def demo_secp_def compute_taproot_output_key_def tweak_pub_key_def)
  have x: "\<forall>k. pub_key_valid demo_secp k \<longrightarrow> x_only_valid (btc demo_secp) (drop 1 k)" by (simp add: demo_secp_def demo_lib_def)
  obtain loc rem where "[co] = loc @ rem" "pays_party tap_config_default demo_hash demo_secp demo_channel [demo_balance] NUMS_KEY 10000 300 loc"
    "pays_party tap_config_default demo_hash demo_secp demo_channel [] NUMS_KEY 0 0 rem"
    using cooperative_close_pays [OF co(1) _ x] by (auto simp: tap_config_default_def commitment_blob_default_def)
  moreover from this(3) have "rem = []" by (simp add: pays_party_def sum_amounts_def)
  ultimately show ?thesis using co(2) by auto
qed

section \<open>Funding\<close>

text \<open>C12: a valid proposal leads both peers to the same channel. The initiator proposes to fund a channel with a proof file whose last
  proof is for the asset and at least the amount. The message survives the wire, the responder accepts it, the acknowledgement survives
  the wire and is accepted by the initiator, and then both sides finalise to the same channel blob, which holds the amount with that
  proof, and to mirrored initial commitments in which the initiator owns all of it.\<close>

theorem funding_agreement:
  assumes "initiate_funding sha on_curve txl cid aid amt gk data ini = (Ok m, ini')"
    and "decode_last_proof sha on_curve txl data = Ok p" "genesis_id sha (genesis (asset p)) = aid" "amt \<le> amount (asset p)"
    and "length cid = 32" "length aid = 32" "length data \<le> MAX_PROOF_DATA_SIZE" "opt_length 33 gk"
    and "derive_funding_script_key sha lib (Some aid) = Ok key"
  shows "\<exists>payload ack payload' resp' blob. tap_message_encode m = Ok (u16_be ASSET_FUNDING_CREATED @ payload)
    \<and> tap_message_decode ASSET_FUNDING_CREATED payload sessions = Ok m
    \<and> handle_funding_msg sha on_curve txl cid m resp = (Ok (Some ack), resp')
    \<and> tap_message_encode ack = Ok (u16_be ASSET_FUNDING_ACK @ payload')
    \<and> tap_message_decode ASSET_FUNDING_ACK payload' sessions' = Ok ack
    \<and> handle_funding_msg sha on_curve txl cid ack ini' = (Ok None, ini')
    \<and> finalize_funding sha lib cid ini' = Ok blob \<and> finalize_funding sha lib cid resp' = Ok blob
    \<and> funded_assets blob = [\<lparr>ao_asset_id = aid, ao_amount = amt, ao_script_key = key, ao_proof = Some p\<rparr>]
    \<and> local_balance (initial_commitment_blob blob True) = amt \<and> remote_balance (initial_commitment_blob blob True) = 0
    \<and> local_assets (initial_commitment_blob blob True) = remote_assets (initial_commitment_blob blob False)
    \<and> remote_assets (initial_commitment_blob blob True) = local_assets (initial_commitment_blob blob False)"
proof -
  let ?created = "\<lparr>fc_pending_channel_id = cid, fc_asset_id = aid, fc_amount = amt, fc_proof_data = data, fc_group_key = gk\<rparr>"
  let ?ack = "\<lparr>fa_pending_channel_id = cid, fa_accepted = True, fa_reject_reason = None\<rparr>"
  let ?pf = "\<lparr>pf_asset_id = aid, pf_amount = amt, pf_group_key = gk, pf_proof = Some p\<rparr>"
  let ?blob = "\<lparr>funded_assets = [\<lparr>ao_asset_id = aid, ao_amount = amt, ao_script_key = key, ao_proof = Some p\<rparr>],
    decimal_display = 0, cb_group_key = gk\<rparr>"
  have m: "m = FundingCreated ?created" "ini' = ini(cid \<mapsto> ?pf)"
    using assms(1,2) by (simp_all add: initiate_funding_def)
  have "data \<noteq> []" using assms(2) by (auto simp: decode_last_proof_def file_decode_def)
  then have "validate_funding_proposal sha on_curve txl ?created = Ok p"
    using assms(2-4) by (simp add: validate_funding_proposal_def not_less)
  then have h: "handle_funding_created sha on_curve txl ?created resp = (Ok (Some (FundingAck ?ack)), resp(cid \<mapsto> ?pf))"
    by (simp add: handle_funding_created_def)
  have wire: "decode_created (created_payload ?created) = Ok (FundingCreated ?created)" "decode_ack (ack_payload ?ack) = Ok (FundingAck ?ack)"
    using assms(5-8) by (simp_all add: created_roundtrip ack_roundtrip)
  have fin: "finalize_funding sha lib cid (f(cid \<mapsto> ?pf)) = Ok ?blob" for f
    using assms(9) by (simp add: finalize_funding_def ok_or_def)
  show ?thesis
    by (rule exI [of _ "created_payload ?created"], rule exI [of _ "FundingAck ?ack"], rule exI [of _ "ack_payload ?ack"],
        rule exI [of _ "resp(cid \<mapsto> ?pf)"], rule exI [of _ ?blob])
      (simp add: h fin wire m tap_message_encode_def tap_message_decode_def msg_types initial_commitment_blob_def local_balance_def
        remote_balance_def sum_amounts_def commitment_blob_default_def Let_def)
qed

lemma demo_proof_data:
  obtains tx p data where "decode_last_proof demo_hash (\<lambda>_. True) (demo_txlib tx) data = Ok p" "asset p = demo_coin"
    "length data \<le> 20000"
proof -
  obtain tx p s where "verify_file (demo_env tx) demo_ctx options_default
      (append_proof demo_hash (encode_proof demo_hash (demo_txlib tx) p) file_new) = Ok s"
    and p: "wf_proof demo_hash (\<lambda>_. True) (demo_txlib tx) p" "length (encode_proof demo_hash (demo_txlib tx) p) \<le> 10000"
      "asset p = demo_coin" by (rule demo_file)
  let ?bs = "encode_proof demo_hash (demo_txlib tx) p"
  let ?f = "append_proof demo_hash ?bs file_new"
  have f: "proofs ?f = [\<lparr>proof_bytes = ?bs, proof_hash = compute_proof_hash demo_hash (zeros 32) ?bs\<rparr>]"
    by (simp add: append_proof_def file_new_def last_proof_def)
  then have chain: "verify_hash_chain demo_hash ?f" by (simp add: verify_hash_chain_def)
  have "file_decode demo_hash (file_encode ?f @ []) = Ok ?f"
    by (rule file_decode_encode [OF sha_32_demo_hash chain])
      (use f p(2) in \<open>simp_all add: num_proofs_def FILE_MAX_NUM_PROOFS_def FILE_MAX_PROOF_SIZE_BYTES_def\<close>)
  moreover have "decode_proof demo_hash (\<lambda>_. True) (demo_txlib tx) ?bs = Ok p"
    using proof_codec [OF p(1) sha_32_demo_hash] p(2) by simp
  ultimately have "decode_last_proof demo_hash (\<lambda>_. True) (demo_txlib tx) (file_encode ?f) = Ok p"
    using f chain by (simp add: decode_last_proof_def last_proof_def ok_or_def)
  moreover have "length (file_encode ?f) \<le> 20000"
    using p(2) sha_32_demo_hash bigsize_len_le [of 1] bigsize_len_le [of "of_nat (length ?bs)"]
    by (simp add: file_encode_def f encode_hashed_proof_def FILE_MAGIC_BYTES_def compute_proof_hash_def encode_var_bytes_def
        del: bigsize_len_le_9)
  ultimately show ?thesis using p(3) that by blast
qed

theorem funding_agreement_witness:
  "\<exists>tx p key data m ini payload resp' ack blob. asset p = demo_coin
    \<and> initiate_funding demo_hash (\<lambda>_. True) (demo_txlib tx) (zeros 32) (genesis_id demo_hash demo_genesis) 400 None data Map.empty = (Ok m, ini)
    \<and> tap_message_decode ASSET_FUNDING_CREATED payload (\<lambda>_. None) = Ok m
    \<and> handle_funding_msg demo_hash (\<lambda>_. True) (demo_txlib tx) (zeros 32) m Map.empty = (Ok (Some ack), resp')
    \<and> finalize_funding demo_hash demo_secp (zeros 32) ini = Ok blob \<and> finalize_funding demo_hash demo_secp (zeros 32) resp' = Ok blob
    \<and> funded_assets blob = [\<lparr>ao_asset_id = genesis_id demo_hash demo_genesis, ao_amount = 400, ao_script_key = key, ao_proof = Some p\<rparr>]"
proof -
  let ?aid = "genesis_id demo_hash demo_genesis"
  obtain tx p data where data: "decode_last_proof demo_hash (\<lambda>_. True) (demo_txlib tx) data = Ok p" "asset p = demo_coin" "length data \<le> 20000"
    by (rule demo_proof_data)
  obtain m ini where i: "initiate_funding demo_hash (\<lambda>_. True) (demo_txlib tx) (zeros 32) ?aid 400 None data Map.empty = (Ok m, ini)"
    by (simp add: initiate_funding_def data(1))
  obtain key where key: "derive_funding_script_key demo_hash demo_secp (Some ?aid) = Ok key"
    by (simp add: derive_funding_script_key_def demo_secp_def tweak_pub_key_def ok_or_def Let_def)
  have coin: "genesis_id demo_hash (genesis (asset p)) = ?aid" "400 \<le> amount (asset p)"
    by (simp_all add: data(2) demo_coin_def new_genesis_def)
  have len: "length (zeros 32) = 32" "length ?aid = 32" "length data \<le> MAX_PROOF_DATA_SIZE" "opt_length 33 None"
    using data(3) sha_32_demo_hash by (simp_all add: genesis_id_def MAX_PROOF_DATA_SIZE_def opt_length_def)
  from funding_agreement [OF i data(1) coin len key, of "\<lambda>_. None" Map.empty "\<lambda>_. None"] i data(2) show ?thesis by metis
qed

text \<open>C38: the proof of a pending channel can be replaced without any check. After the responder has accepted a proposal, a message
  with any proof file that decodes puts the last proof of that file in the place of the validated one, also when it is for another asset or
  a smaller amount; the channel is then finalised with the proposed asset ID and amount beside the foreign proof.\<close>

theorem funding_proof_unchecked:
  assumes "handle_funding_msg sha on_curve txl cid (FundingCreated created) pending = (Ok (Some (FundingAck ack)), pending')"
    and "fa_accepted ack" "decode_last_proof sha on_curve txl data = Ok q"
    and "derive_funding_script_key sha lib (Some (fc_asset_id created)) = Ok key"
  shows "\<exists>pending'' blob. handle_funding_msg sha on_curve txl cid'
        (FundingProof \<lparr>fp_pending_channel_id = fc_pending_channel_id created, fp_proof_data = data\<rparr>) pending' = (Ok None, pending'')
    \<and> finalize_funding sha lib (fc_pending_channel_id created) pending'' = Ok blob
    \<and> funded_assets blob = [\<lparr>ao_asset_id = fc_asset_id created, ao_amount = fc_amount created, ao_script_key = key, ao_proof = Some q\<rparr>]"
  using assms
  by (auto simp: handle_funding_created_def handle_funding_proof_def finalize_funding_def ok_or_def split: result.splits)

theorem funding_proof_unchecked_witness:
  "\<exists>tx p key data pending' pending'' ack blob.
    handle_funding_msg demo_hash (\<lambda>_. True) (demo_txlib tx) (zeros 32) (FundingCreated \<lparr>fc_pending_channel_id = zeros 32,
        fc_asset_id = genesis_id demo_hash demo_genesis, fc_amount = 400, fc_proof_data = data, fc_group_key = None\<rparr>) Map.empty
      = (Ok (Some (FundingAck ack)), pending')
    \<and> handle_funding_msg demo_hash (\<lambda>_. True) (demo_txlib tx) (zeros 32)
        (FundingProof \<lparr>fp_pending_channel_id = zeros 32, fp_proof_data = data\<rparr>) pending' = (Ok None, pending'')
    \<and> finalize_funding demo_hash demo_secp (zeros 32) pending'' = Ok blob
    \<and> funded_assets blob = [\<lparr>ao_asset_id = genesis_id demo_hash demo_genesis, ao_amount = 400, ao_script_key = key, ao_proof = Some p\<rparr>]"
proof -
  let ?aid = "genesis_id demo_hash demo_genesis"
  obtain tx p data where data: "decode_last_proof demo_hash (\<lambda>_. True) (demo_txlib tx) data = Ok p" "asset p = demo_coin" "length data \<le> 20000"
    by (rule demo_proof_data)
  let ?c = "\<lparr>fc_pending_channel_id = zeros 32, fc_asset_id = ?aid, fc_amount = 400, fc_proof_data = data, fc_group_key = None\<rparr>"
  let ?ack = "\<lparr>fa_pending_channel_id = zeros 32, fa_accepted = True, fa_reject_reason = None\<rparr>"
  obtain key where key: "derive_funding_script_key demo_hash demo_secp (Some ?aid) = Ok key"
    by (simp add: derive_funding_script_key_def demo_secp_def tweak_pub_key_def ok_or_def Let_def)
  have "data \<noteq> []" using data(1) by (auto simp: decode_last_proof_def file_decode_def)
  then have "validate_funding_proposal demo_hash (\<lambda>_. True) (demo_txlib tx) ?c = Ok p"
    using data by (simp add: validate_funding_proposal_def demo_coin_def new_genesis_def)
  then obtain pending' where h: "handle_funding_msg demo_hash (\<lambda>_. True) (demo_txlib tx) (zeros 32) (FundingCreated ?c) Map.empty
      = (Ok (Some (FundingAck ?ack)), pending')"
    by (simp add: handle_funding_created_def)
  from funding_proof_unchecked [OF h _ data(1), of demo_secp key "zeros 32"] key
  obtain pending'' blob where "handle_funding_msg demo_hash (\<lambda>_. True) (demo_txlib tx) (zeros 32)
        (FundingProof \<lparr>fp_pending_channel_id = zeros 32, fp_proof_data = data\<rparr>) pending' = (Ok None, pending'')"
    "finalize_funding demo_hash demo_secp (zeros 32) pending'' = Ok blob"
    "funded_assets blob = [\<lparr>ao_asset_id = ?aid, ao_amount = 400, ao_script_key = key, ao_proof = Some p\<rparr>]"
    by auto
  with h show ?thesis by blast
qed

end
