(* ===== verification/Leaf_Signer.thy ===== *)
theory Leaf_Signer
  imports Channel
begin

text \<open>
  The signatures for second-level HTLC transactions: \<^verbatim>\<open>tap-ldk/src/channel/leaf_signer.rs\<close>. The Schnorr signer of the secp256k1
  crate, with the channel's secret key, is a function \<open>sign\<close> from a message to a signature.
\<close>

section \<open>Signatures on the wire\<close>

definition HTLC_SIGS_RECORD_TYPE :: u64 where "HTLC_SIGS_RECORD_TYPE = 65537"
definition MAX_NUM_HTLC_SIGS :: u64 where "MAX_NUM_HTLC_SIGS = 966"

record AssetSig =
  as_asset_id :: AssetId
  as_sig :: bytes
  as_sighash_type :: u32

definition asset_sig_encode :: "AssetSig \<Rightarrow> bytes" where
  "asset_sig_encode sig =
     (let s = tlv_push [] (tlv_bytes 0 (as_asset_id sig));
          s = tlv_push s (tlv_bytes 1 (as_sig sig));
          s = tlv_push s (tlv_u32 2 (as_sighash_type sig))
      in tlv_encode s)"

definition asset_sig_decode :: "bytes \<Rightarrow> (AssetSig, AssetChannelError) result" where
  "asset_sig_decode data =
     res_bind (map_err (\<lambda>_. AssetChannelError ''asset sig'') (tlv_decode data)) (\<lambda>s.
     res_bind (ok_or (tlv_get s 0) (AssetChannelError ''asset sig missing asset id'')) (\<lambda>id_record.
       if length (tlv_value id_record) \<noteq> 32 then Err (AssetChannelError ''asset sig asset id must be 32 bytes'')
       else res_bind (ok_or (tlv_get s 1) (AssetChannelError ''asset sig missing signature'')) (\<lambda>sig_record.
         if length (tlv_value sig_record) \<noteq> 64 then Err (AssetChannelError ''asset sig must be 64 bytes'')
         else res_bind (ok_or (tlv_get s 2) (AssetChannelError ''asset sig missing sighash type'')) (\<lambda>r.
           res_bind (map_err (\<lambda>_. AssetChannelError ''asset sig sighash'') (as_u32 r)) (\<lambda>ty.
             Ok \<lparr>as_asset_id = tlv_value id_record, as_sig = tlv_value sig_record, as_sighash_type = ty\<rparr>)))))"

definition sig_read_inline_var_bytes :: "bytes \<Rightarrow> nat \<Rightarrow> (bytes \<times> nat, AssetChannelError) result" where
  "sig_read_inline_var_bytes = inline_bytes_at (AssetChannelError ''var bytes'') (AssetChannelError ''aux signatures truncated'')"

definition encode_asset_sig_list :: "AssetSig list \<Rightarrow> bytes" where
  "encode_asset_sig_list sigs = tlv_encode (tlv_push [] (tlv_new 0 (encode_items (map asset_sig_encode sigs))))"

definition decode_asset_sig_list :: "bytes \<Rightarrow> (AssetSig list, AssetChannelError) result" where
  "decode_asset_sig_list data =
     res_bind (map_err (\<lambda>_. AssetChannelError ''sig list'') (tlv_decode data)) (\<lambda>s.
     res_bind (ok_or (tlv_get s 0) (AssetChannelError ''sig list missing record'')) (\<lambda>r.
       decode_item_list (varint_at (AssetChannelError ''sig count'')) sig_read_inline_var_bytes
         (AssetChannelError ''too many signatures'') (AssetChannelError ''trailing bytes after sig list'')
         asset_sig_decode MAX_NUM_HTLC_SIGS (tlv_value r)))"

definition pack_aux_signatures :: "AssetSig list list \<Rightarrow> bytes" where
  "pack_aux_signatures htlc_sigs =
     tlv_encode (tlv_push [] (tlv_new HTLC_SIGS_RECORD_TYPE (encode_items (map encode_asset_sig_list htlc_sigs))))"

definition unpack_aux_signatures :: "bytes \<Rightarrow> (AssetSig list list, AssetChannelError) result" where
  "unpack_aux_signatures data =
     res_bind (map_err (\<lambda>_. AssetChannelError ''commit sig'') (tlv_decode data)) (\<lambda>s.
     res_bind (ok_or (tlv_get s HTLC_SIGS_RECORD_TYPE) (AssetChannelError ''commit sig missing HTLC sigs record'')) (\<lambda>r.
       decode_item_list (varint_at (AssetChannelError ''htlc count'')) sig_read_inline_var_bytes
         (AssetChannelError ''too many HTLC sig lists'') (AssetChannelError ''trailing bytes after commit sig'')
         decode_asset_sig_list MAX_NUM_HTLC_SIGS (tlv_value r)))"

section \<open>Signing\<close>








section \<open>Round trip\<close>

interpretation sig_reader: inline_reader "varint_at e" sig_read_inline_var_bytes for e
  unfolding sig_read_inline_var_bytes_def by unfold_locales (simp_all only: varint_at_read inline_bytes_at_read)

definition wf_sig :: "AssetSig \<Rightarrow> bool" where
  "wf_sig s \<longleftrightarrow> length (as_asset_id s) = 32 \<and> length (as_sig s) = 64"

lemma asset_sig_codec:
  assumes "wf_sig sig" "length (asset_sig_encode sig) \<le> 4000000"
  shows "asset_sig_decode (asset_sig_encode sig) = Ok sig"
proof -
  let ?xs = "[(0, Some (as_asset_id sig)), (1, Some (as_sig sig)), (2, Some (u32_be (as_sighash_type sig)))]"
  have enc: "asset_sig_encode sig = tlv_encode (of_slots ?xs)"
    by (simp add: asset_sig_encode_def Let_def tlv_push_def tlv_record_defs)
  have "tlv_decode (asset_sig_encode sig) = Ok (of_slots ?xs)" unfolding enc by (rule tlv_decode_slots) (use assms(2) enc in simp_all)
  then show ?thesis using assms(1) by (cases sig) (simp add: asset_sig_decode_def wf_sig_def ok_or_def as_u32_def)
qed

lemma single_record_codec:
  assumes "length (tlv_encode (tlv_push [] (tlv_new t v))) \<le> 4000000"
  shows "tlv_decode (tlv_encode (tlv_push [] (tlv_new t v))) = Ok (of_slots [(t, Some v)])" "length v \<le> 4000000"
  using assms tlv_decode_slots [of "[(t, Some v)]"] slot_length [of t v "[(t, Some v)]" "[]"] by (simp_all add: tlv_push_def)

lemma asset_sig_list_codec:
  assumes "\<forall>sig \<in> set sigs. wf_sig sig" "length sigs \<le> 966" "length (encode_asset_sig_list sigs) \<le> 4000000"
  shows "decode_asset_sig_list (encode_asset_sig_list sigs) = Ok sigs"
proof -
  let ?v = "encode_items (map asset_sig_encode sigs)"
  note rec = single_record_codec [of 0 ?v, folded encode_asset_sig_list_def, OF assms(3)]
  have "list_all2 (\<lambda>x bs. asset_sig_decode bs = Ok x) sigs (map asset_sig_encode sigs)"
    using assms(1) item_le [of _ "map asset_sig_encode sigs"] rec(2)
    by (fastforce simp: list_all2_map2 list_all2_same intro!: asset_sig_codec)
  then have "decode_item_list (varint_at (AssetChannelError ''sig count'')) sig_read_inline_var_bytes e1 e2 asset_sig_decode
      MAX_NUM_HTLC_SIGS ?v = Ok sigs" for e1 e2
    by (rule sig_reader.decode_items_list) (use assms(2) rec(2) in \<open>simp_all add: MAX_NUM_HTLC_SIGS_def\<close>)
  with rec(1) show ?thesis by (simp add: decode_asset_sig_list_def ok_or_def)
qed

text \<open>The signatures of a commitment survive the wire. Up to 966 lists of up to 966 well-formed asset signatures each, packed
  into at most 4 MB for the commitment message, are unpacked to the same lists: every signature at its HTLC, with its asset ID and its
  sighash type, and an empty list for an HTLC without assets.\<close>

theorem aux_signatures_roundtrip:
  assumes "\<forall>sigs \<in> set htlc_sigs. length sigs \<le> 966 \<and> (\<forall>sig \<in> set sigs. wf_sig sig)" "length htlc_sigs \<le> 966"
    and "length (pack_aux_signatures htlc_sigs) \<le> 4000000"
  shows "unpack_aux_signatures (pack_aux_signatures htlc_sigs) = Ok htlc_sigs"
proof -
  let ?v = "encode_items (map encode_asset_sig_list htlc_sigs)"
  note rec = single_record_codec [of HTLC_SIGS_RECORD_TYPE ?v, folded pack_aux_signatures_def, OF assms(3)]
  have "list_all2 (\<lambda>x bs. decode_asset_sig_list bs = Ok x) htlc_sigs (map encode_asset_sig_list htlc_sigs)"
    using assms(1) item_le [of _ "map encode_asset_sig_list htlc_sigs"] rec(2)
    by (fastforce simp: list_all2_map2 list_all2_same intro!: asset_sig_list_codec)
  then have "decode_item_list (varint_at (AssetChannelError ''htlc count'')) sig_read_inline_var_bytes e1 e2 decode_asset_sig_list
      MAX_NUM_HTLC_SIGS ?v = Ok htlc_sigs" for e1 e2
    by (rule sig_reader.decode_items_list) (use assms(2) rec(2) in \<open>simp_all add: MAX_NUM_HTLC_SIGS_def\<close>)
  with rec(1) show ?thesis by (simp add: unpack_aux_signatures_def ok_or_def)
qed

theorem aux_signatures_roundtrip_witness:
  "unpack_aux_signatures (pack_aux_signatures [[], [\<lparr>as_asset_id = zeros 32, as_sig = zeros 64, as_sighash_type = 0\<rparr>]])
    = Ok [[], [\<lparr>as_asset_id = zeros 32, as_sig = zeros 64, as_sighash_type = 0\<rparr>]]"
proof (rule aux_signatures_roundtrip)
  let ?sig = "\<lparr>as_asset_id = zeros 32, as_sig = zeros 64, as_sighash_type = 0\<rparr>"
  show "\<forall>sigs \<in> set [[], [?sig]]. length sigs \<le> 966 \<and> (\<forall>sig \<in> set sigs. wf_sig sig)" "length [[], [?sig]] \<le> 966"
    by (simp_all add: wf_sig_def)
  have sig: "length (asset_sig_encode ?sig) \<le> 154"
    using tlv_encode_le [of "[tlv_new 0 (zeros 32), tlv_new 1 (zeros 64), tlv_new 2 (u32_be 0)]"]
    by (simp add: asset_sig_encode_def tlv_push_def tlv_record_defs Let_def)
  have l1: "length (encode_asset_sig_list [?sig]) \<le> 190"
    using tlv_encode_le [of "[tlv_new 0 (encode_items [asset_sig_encode ?sig])]"] encode_item_le [of "asset_sig_encode ?sig"] sig
    by (simp add: encode_asset_sig_list_def tlv_push_def)
  have "length (encode_items []) \<le> 9" using bigsize_len_le [of 0] by (simp add: encode_items_def)
  then have l0: "length (encode_asset_sig_list []) \<le> 27"
    using tlv_encode_le [of "[tlv_new 0 (encode_items [])]"] by (simp add: encode_asset_sig_list_def tlv_push_def)
  have "length (encode_items [encode_asset_sig_list [], encode_asset_sig_list [?sig]]) \<le> 244"
    using write_inline_le [of "[]" "encode_asset_sig_list []"] write_inline_le [of "[]" "encode_asset_sig_list [?sig]"] l0 l1
      bigsize_len_le [of 2] by (simp add: encode_items_def del: bigsize_len_le_9)
  then show "length (pack_aux_signatures [[], [?sig]]) \<le> 4000000"
    using tlv_encode_le [of "[tlv_new HTLC_SIGS_RECORD_TYPE (encode_items [encode_asset_sig_list [], encode_asset_sig_list [?sig]])]"]
    by (simp add: pack_aux_signatures_def tlv_push_def)
qed

section \<open>What the signatures authorise\<close>









end
