(* ===== verification/Rfq_Manager.thy ===== *)
theory Rfq_Manager
  imports Rfq_Wire "HOL-Library.AList"
begin

text \<open>
  The quote manager: \<^verbatim>\<open>tap-ldk/src/rfq/manager.rs\<close>. A \<^verbatim>\<open>HashMap\<close> is an
  association list with distinct keys (the invariant \<open>wf_manager\<close>), because the code counts and filters the
  values. The price oracle and the accept signer are traits implemented by the application: they
  are functions in the state. The operating system's random numbers are the list of draws
  that \<open>next_quote_id\<close> consumes.
\<close>

type_synonym peer_key = bytes
type_synonym HtlcId = bytes

datatype RfqError =
    QuoteNotFound RfqId
  | QuoteExpired RfqId u64 u64
  | QuoteAmountExceeded RfqId u64 u64 u64
  | RequestNotFound RfqId
  | PeerMismatch RfqId peer_key peer_key
  | RequestTypeMismatch RfqId
  | OracleError bytes
  | UnsupportedAsset AssetIdBytes
  | PeerQuoteLimitExceeded peer_key nat
  | SigningError bytes

definition text_bytes :: "string \<Rightarrow> bytes" where
  "text_bytes s = map of_char s"

text \<open>The text of an error; interpolated identifiers and numbers are left out.\<close>

fun rfq_error_text :: "RfqError \<Rightarrow> bytes" where
  "rfq_error_text (QuoteNotFound _) = text_bytes ''quote not found''"
| "rfq_error_text (QuoteExpired _ _ _) = text_bytes ''quote expired''"
| "rfq_error_text (QuoteAmountExceeded _ _ _ _) = text_bytes ''quote max amount exceeded''"
| "rfq_error_text (RequestNotFound _) = text_bytes ''no pending request for id''"
| "rfq_error_text (PeerMismatch _ _ _) = text_bytes ''response peer mismatch for id''"
| "rfq_error_text (RequestTypeMismatch _) = text_bytes ''buy/sell type mismatch for id''"
| "rfq_error_text (OracleError msg) = text_bytes ''oracle error: '' @ msg"
| "rfq_error_text (UnsupportedAsset _) = text_bytes ''unsupported asset''"
| "rfq_error_text (PeerQuoteLimitExceeded _ _) = text_bytes ''peer quote limit exceeded''"
| "rfq_error_text (SigningError msg) = text_bytes ''accept signing error: '' @ msg"

definition DEFAULT_QUOTE_LIFETIME_SECS :: u64 where "DEFAULT_QUOTE_LIFETIME_SECS = 600"
definition MAX_PENDING_QUOTES_PER_PEER :: nat where "MAX_PENDING_QUOTES_PER_PEER = 100"

record PriceOracle =
  ask_price :: "AssetIdBytes \<Rightarrow> u64 \<Rightarrow> (FixedPoint, RfqError) result"
  bid_price :: "AssetIdBytes \<Rightarrow> u64 \<Rightarrow> (FixedPoint, RfqError) result"

type_synonym AcceptSigner = "bytes \<Rightarrow> (bytes, RfqError) result"

record AcceptedQuote =
  aq_id :: RfqId
  aq_asset_id :: AssetIdBytes
  aq_rate :: FixedPoint
  aq_expiry :: u64
  aq_peer :: peer_key
  aq_is_buy :: bool
  aq_max_amount_msat :: u64

definition quote_is_valid :: "AcceptedQuote \<Rightarrow> u64 \<Rightarrow> bool" where
  "quote_is_valid q now \<longleftrightarrow> now < aq_expiry q"

record PendingRequest =
  pr_id :: RfqId
  pr_asset_id :: AssetIdBytes
  pr_peer :: peer_key
  pr_is_buy :: bool
  pr_max_amount :: u64
  pr_created_at :: u64

record QuoteManager =
  price_oracle :: PriceOracle
  buy_quotes :: "(RfqId \<times> AcceptedQuote) list"
  sell_quotes :: "(RfqId \<times> AcceptedQuote) list"
  pending_requests :: "(RfqId \<times> PendingRequest) list"
  max_quotes_per_peer :: nat
  signer :: "AcceptSigner option"
  tracked_htlcs :: "(HtlcId \<times> RfqId \<times> u64) list"
  quote_used :: "(RfqId \<times> u64) list"

definition unit_max_to_msat_cap :: "u64 \<Rightarrow> FixedPoint \<Rightarrow> u64" where
  "unit_max_to_msat_cap max_units rate =
     (case units_to_milli_satoshi max_units rate of Ok m \<Rightarrow> m | _ \<Rightarrow> 0)"

definition effective_max :: "u64 \<Rightarrow> u64 option \<Rightarrow> u64" where
  "effective_max requested_max accepted_fill =
     (case accepted_fill of Some fill \<Rightarrow> min fill requested_max | None \<Rightarrow> requested_max)"

definition manager_new :: "PriceOracle \<Rightarrow> QuoteManager" where
  "manager_new orc =
     \<lparr>price_oracle = orc, buy_quotes = [], sell_quotes = [], pending_requests = [],
      max_quotes_per_peer = MAX_PENDING_QUOTES_PER_PEER, signer = None, tracked_htlcs = [],
      quote_used = []\<rparr>"

definition with_max_quotes_per_peer :: "PriceOracle \<Rightarrow> nat \<Rightarrow> QuoteManager" where
  "with_max_quotes_per_peer orc n = (manager_new orc)\<lparr>max_quotes_per_peer := n\<rparr>"

definition set_accept_signer :: "AcceptSigner \<Rightarrow> QuoteManager \<Rightarrow> QuoteManager" where
  "set_accept_signer sg m = m\<lparr>signer := Some sg\<rparr>"

section \<open>Outgoing requests\<close>

text \<open>The loop draws identifiers until one is unused; \<open>None\<close> when the given draws do not contain one.\<close>

fun next_quote_id :: "RfqId list \<Rightarrow> QuoteManager \<Rightarrow> RfqId option" where
  "next_quote_id [] m = None"
| "next_quote_id (i # draws) m =
     (if map_of (buy_quotes m) i = None \<and> map_of (sell_quotes m) i = None
         \<and> map_of (pending_requests m) i = None
      then Some i else next_quote_id draws m)"

definition peer_quote_count :: "QuoteManager \<Rightarrow> peer_key \<Rightarrow> nat" where
  "peer_quote_count m peer =
     length (filter (\<lambda>(_, q). aq_peer q = peer) (buy_quotes m))
     + length (filter (\<lambda>(_, q). aq_peer q = peer) (sell_quotes m))"

definition sign_accept_payload :: "QuoteManager \<Rightarrow> bytes \<Rightarrow> (bytes, RfqError) result" where
  "sign_accept_payload m payload =
     (case signer m of Some sg \<Rightarrow> sg payload | None \<Rightarrow> Ok (zeros 64))"

definition create_buy_request ::
  "RfqId list \<Rightarrow> AssetIdBytes \<Rightarrow> u64 \<Rightarrow> peer_key \<Rightarrow> u64 \<Rightarrow> QuoteManager \<Rightarrow>
     (RfqBuyRequest \<times> QuoteManager) option" where
  "create_buy_request draws asset_id max_amount peer now m =
     (case next_quote_id draws m of
        None \<Rightarrow> None
      | Some i \<Rightarrow> Some
          (\<lparr>br_id = i, br_asset_id = asset_id, br_asset_max_amount = max_amount,
            br_asset_group_key = None, br_expiry = now + DEFAULT_QUOTE_LIFETIME_SECS,
            br_rate_hint = None\<rparr>,
           m\<lparr>pending_requests := AList.update i
              \<lparr>pr_id = i, pr_asset_id = asset_id, pr_peer = peer, pr_is_buy = True,
               pr_max_amount = max_amount, pr_created_at = now\<rparr> (pending_requests m)\<rparr>))"

definition create_sell_request ::
  "RfqId list \<Rightarrow> AssetIdBytes \<Rightarrow> u64 \<Rightarrow> peer_key \<Rightarrow> u64 \<Rightarrow> QuoteManager \<Rightarrow>
     (RfqSellRequest \<times> QuoteManager) option" where
  "create_sell_request draws asset_id max_msat peer now m =
     (case next_quote_id draws m of
        None \<Rightarrow> None
      | Some i \<Rightarrow> Some
          (\<lparr>sr_id = i, sr_asset_id = asset_id, sr_payment_max_amt_msat = max_msat,
            sr_asset_group_key = None, sr_expiry = now + DEFAULT_QUOTE_LIFETIME_SECS,
            sr_rate_hint = None\<rparr>,
           m\<lparr>pending_requests := AList.update i
              \<lparr>pr_id = i, pr_asset_id = asset_id, pr_peer = peer, pr_is_buy = False,
               pr_max_amount = max_msat, pr_created_at = now\<rparr> (pending_requests m)\<rparr>))"

definition get_pending_request :: "QuoteManager \<Rightarrow> RfqId \<Rightarrow> PendingRequest option" where
  "get_pending_request m i = map_of (pending_requests m) i"

definition pending_request_is_buy :: "QuoteManager \<Rightarrow> RfqId \<Rightarrow> bool option" where
  "pending_request_is_buy m i = map_option pr_is_buy (map_of (pending_requests m) i)"

section \<open>Incoming requests\<close>

text \<open>The accept without signature, then with the signature if encoding and signing succeed.\<close>

definition signed_accept ::
  "QuoteManager \<Rightarrow> (RfqAccept \<Rightarrow> AcceptWireMsg) \<Rightarrow> RfqAccept \<Rightarrow> RfqAccept" where
  "signed_accept m to_wire accept =
     (case accept_encode (to_wire accept) of
        Ok payload \<Rightarrow>
          (case sign_accept_payload m payload of Ok sg \<Rightarrow> accept\<lparr>ra_sig := sg\<rparr> | _ \<Rightarrow> accept)
      | _ \<Rightarrow> accept)"

definition handle_buy_request ::
  "RfqBuyRequest \<Rightarrow> peer_key \<Rightarrow> u64 \<Rightarrow> u64 \<Rightarrow> QuoteManager \<Rightarrow>
     (RfqAccept, RfqReject) result \<times> QuoteManager" where
  "handle_buy_request request peer now quote_lifetime_secs m =
     (if max_quotes_per_peer m \<le> peer_quote_count m peer then
        (Err \<lparr>rr_id = br_id request, rr_code = PriceOracleUnspecified,
              rr_message = text_bytes ''peer quote limit exceeded: pending''\<rparr>, m)
      else case ask_price (price_oracle m) (br_asset_id request) (br_asset_max_amount request) of
        Ok rate \<Rightarrow>
          (let expiry = now + quote_lifetime_secs;
               accept = signed_accept m buy_accept_to_wire
                 \<lparr>ra_id = br_id request, ra_asset_rate = rate, ra_expiry = expiry, ra_sig = zeros 64,
                  ra_max_in_asset = None\<rparr>;
               max_units = effective_max (br_asset_max_amount request) (ra_max_in_asset accept)
           in (Ok accept,
               m\<lparr>sell_quotes := AList.update (br_id request)
                  \<lparr>aq_id = br_id request, aq_asset_id = br_asset_id request, aq_rate = rate,
                   aq_expiry = expiry, aq_peer = peer, aq_is_buy = False,
                   aq_max_amount_msat = unit_max_to_msat_cap max_units rate\<rparr> (sell_quotes m)\<rparr>))
      | Err e \<Rightarrow>
          (Err \<lparr>rr_id = br_id request, rr_code = PriceOracleUnavailable,
                rr_message = rfq_error_text e\<rparr>, m)
      | Panic \<Rightarrow> (Panic, m))"

definition handle_sell_request ::
  "RfqSellRequest \<Rightarrow> peer_key \<Rightarrow> u64 \<Rightarrow> u64 \<Rightarrow> QuoteManager \<Rightarrow>
     (RfqAccept, RfqReject) result \<times> QuoteManager" where
  "handle_sell_request request peer now quote_lifetime_secs m =
     (if max_quotes_per_peer m \<le> peer_quote_count m peer then
        (Err \<lparr>rr_id = sr_id request, rr_code = PriceOracleUnspecified,
              rr_message = text_bytes ''peer quote limit exceeded: pending''\<rparr>, m)
      else case bid_price (price_oracle m) (sr_asset_id request) (sr_payment_max_amt_msat request) of
        Ok rate \<Rightarrow>
          (let expiry = now + quote_lifetime_secs;
               accept = signed_accept m sell_accept_to_wire
                 \<lparr>ra_id = sr_id request, ra_asset_rate = rate, ra_expiry = expiry, ra_sig = zeros 64,
                  ra_max_in_asset = None\<rparr>
           in (Ok accept,
               m\<lparr>buy_quotes := AList.update (sr_id request)
                  \<lparr>aq_id = sr_id request, aq_asset_id = sr_asset_id request, aq_rate = rate,
                   aq_expiry = expiry, aq_peer = peer, aq_is_buy = True,
                   aq_max_amount_msat =
                     effective_max (sr_payment_max_amt_msat request) (ra_max_in_asset accept)\<rparr>
                  (buy_quotes m)\<rparr>))
      | Err e \<Rightarrow>
          (Err \<lparr>rr_id = sr_id request, rr_code = PriceOracleUnavailable,
                rr_message = rfq_error_text e\<rparr>, m)
      | Panic \<Rightarrow> (Panic, m))"

section \<open>Incoming accepts and rejects\<close>

definition handle_buy_accept ::
  "RfqAccept \<Rightarrow> peer_key \<Rightarrow> u64 \<Rightarrow> QuoteManager \<Rightarrow> (AcceptedQuote, RfqError) result \<times> QuoteManager" where
  "handle_buy_accept accept peer now m =
     (case map_of (pending_requests m) (ra_id accept) of
        None \<Rightarrow> (Err (RequestNotFound (ra_id accept)), m)
      | Some pending \<Rightarrow>
          if \<not> pr_is_buy pending then (Err (RequestTypeMismatch (ra_id accept)), m)
          else if pr_peer pending \<noteq> peer then
            (Err (PeerMismatch (ra_id accept) (pr_peer pending) peer), m)
          else if ra_expiry accept \<le> now then
            (Err (QuoteExpired (ra_id accept) (ra_expiry accept) now), m)
          else
            (let max_units = effective_max (pr_max_amount pending) (ra_max_in_asset accept);
                 quote = \<lparr>aq_id = ra_id accept, aq_asset_id = pr_asset_id pending,
                   aq_rate = ra_asset_rate accept, aq_expiry = ra_expiry accept, aq_peer = peer,
                   aq_is_buy = True,
                   aq_max_amount_msat = unit_max_to_msat_cap max_units (ra_asset_rate accept)\<rparr>
             in (Ok quote,
                 m\<lparr>pending_requests := AList.delete (ra_id accept) (pending_requests m),
                   buy_quotes := AList.update (ra_id accept) quote (buy_quotes m)\<rparr>)))"

definition handle_sell_accept ::
  "RfqAccept \<Rightarrow> peer_key \<Rightarrow> u64 \<Rightarrow> QuoteManager \<Rightarrow> (AcceptedQuote, RfqError) result \<times> QuoteManager" where
  "handle_sell_accept accept peer now m =
     (case map_of (pending_requests m) (ra_id accept) of
        None \<Rightarrow> (Err (RequestNotFound (ra_id accept)), m)
      | Some pending \<Rightarrow>
          if pr_is_buy pending then (Err (RequestTypeMismatch (ra_id accept)), m)
          else if pr_peer pending \<noteq> peer then
            (Err (PeerMismatch (ra_id accept) (pr_peer pending) peer), m)
          else if ra_expiry accept \<le> now then
            (Err (QuoteExpired (ra_id accept) (ra_expiry accept) now), m)
          else
            (let quote = \<lparr>aq_id = ra_id accept, aq_asset_id = pr_asset_id pending,
                   aq_rate = ra_asset_rate accept, aq_expiry = ra_expiry accept, aq_peer = peer,
                   aq_is_buy = False,
                   aq_max_amount_msat = effective_max (pr_max_amount pending) (ra_max_in_asset accept)\<rparr>
             in (Ok quote,
                 m\<lparr>pending_requests := AList.delete (ra_id accept) (pending_requests m),
                   sell_quotes := AList.update (ra_id accept) quote (sell_quotes m)\<rparr>)))"

definition handle_reject ::
  "RfqReject \<Rightarrow> peer_key \<Rightarrow> QuoteManager \<Rightarrow> (unit, RfqError) result \<times> QuoteManager" where
  "handle_reject reject peer m =
     (case map_of (pending_requests m) (rr_id reject) of
        None \<Rightarrow> (Err (RequestNotFound (rr_id reject)), m)
      | Some pending \<Rightarrow>
          if pr_peer pending \<noteq> peer then
            (Err (PeerMismatch (rr_id reject) (pr_peer pending) peer), m)
          else (Ok (), m\<lparr>pending_requests := AList.delete (rr_id reject) (pending_requests m)\<rparr>))"

section \<open>Quotes and in-flight HTLCs\<close>

definition get_quote :: "QuoteManager \<Rightarrow> RfqId \<Rightarrow> AcceptedQuote option" where
  "get_quote m i =
     (case map_of (buy_quotes m) i of Some q \<Rightarrow> Some q | None \<Rightarrow> map_of (sell_quotes m) i)"

definition quote_used_msat :: "QuoteManager \<Rightarrow> RfqId \<Rightarrow> u64" where
  "quote_used_msat m i = (case map_of (quote_used m) i of Some v \<Rightarrow> v | None \<Rightarrow> 0)"

definition check_htlc_amount :: "QuoteManager \<Rightarrow> RfqId \<Rightarrow> u64 \<Rightarrow> (unit, RfqError) result" where
  "check_htlc_amount m i amt_msat =
     res_bind (ok_or (get_quote m i) (QuoteNotFound i)) (\<lambda>quote.
       let current = quote_used_msat m i in
       if aq_max_amount_msat quote < saturating_add current amt_msat
       then Err (QuoteAmountExceeded i current amt_msat (aq_max_amount_msat quote))
       else Ok ())"

definition untrack_htlc :: "HtlcId \<Rightarrow> QuoteManager \<Rightarrow> QuoteManager" where
  "untrack_htlc htlc_id m =
     (case map_of (tracked_htlcs m) htlc_id of
        None \<Rightarrow> m
      | Some (quote_id, amt_msat) \<Rightarrow>
          (let m = m\<lparr>tracked_htlcs := AList.delete htlc_id (tracked_htlcs m)\<rparr> in
           case map_of (quote_used m) quote_id of
             None \<Rightarrow> m
           | Some used \<Rightarrow>
               (let used = saturating_sub used amt_msat in
                m\<lparr>quote_used := (if used = 0 then AList.delete quote_id (quote_used m)
                                else AList.update quote_id used (quote_used m))\<rparr>)))"

definition track_accepted_htlc :: "RfqId \<Rightarrow> HtlcId \<Rightarrow> u64 \<Rightarrow> QuoteManager \<Rightarrow> QuoteManager" where
  "track_accepted_htlc quote_id htlc_id amt_msat m =
     (let m = untrack_htlc htlc_id m;
          m = m\<lparr>tracked_htlcs := AList.update htlc_id (quote_id, amt_msat) (tracked_htlcs m)\<rparr>;
          used = (case map_of (quote_used m) quote_id of Some v \<Rightarrow> v | None \<Rightarrow> 0)
      in m\<lparr>quote_used := AList.update quote_id (saturating_add used amt_msat) (quote_used m)\<rparr>)"

definition has_quote :: "QuoteManager \<Rightarrow> RfqId \<Rightarrow> bool" where
  "has_quote m i \<longleftrightarrow> map_of (buy_quotes m) i \<noteq> None \<or> map_of (sell_quotes m) i \<noteq> None"

definition prune_expired :: "u64 \<Rightarrow> QuoteManager \<Rightarrow> QuoteManager" where
  "prune_expired now m =
     (let m = m\<lparr>buy_quotes := filter (\<lambda>(_, q). quote_is_valid q now) (buy_quotes m),
               sell_quotes := filter (\<lambda>(_, q). quote_is_valid q now) (sell_quotes m),
               pending_requests :=
                 filter (\<lambda>(_, p). now < pr_created_at p + DEFAULT_QUOTE_LIFETIME_SECS) (pending_requests m)\<rparr>
      in m\<lparr>tracked_htlcs := filter (\<lambda>(_, quote_id, _). has_quote m quote_id) (tracked_htlcs m),
           quote_used := filter (\<lambda>(quote_id, _). has_quote m quote_id) (quote_used m)\<rparr>)"

section \<open>Sums over association lists\<close>

lemma alist_delete_sum:
  "distinct (map fst al) \<Longrightarrow>
    sum_list (map f al) = (case map_of al k of Some v \<Rightarrow> f (k, v) | None \<Rightarrow> 0) + sum_list (map f (AList.delete k al))"
  for f :: "'k \<times> 'v \<Rightarrow> nat"
proof (induction al)
  case (Cons x al)
  obtain a b where x: "x = (a, b)" by fastforce
  show ?case
  proof (cases "a = k")
    case True
    then have "k \<notin> fst ` set al" using Cons.prems x by auto
    with True x show ?thesis by simp
  next
    case False
    have "sum_list (map f (x # al)) = f x + sum_list (map f al)" by simp
    also have "sum_list (map f al) = (case map_of al k of Some v \<Rightarrow> f (k, v) | None \<Rightarrow> 0)
        + sum_list (map f (AList.delete k al))"
      by (rule Cons.IH) (use Cons.prems in simp)
    finally show ?thesis using False x by simp
  qed
qed simp

lemma alist_update_absent: "map_of al k = None \<Longrightarrow> AList.update k v al = al @ [(k, v)]"
  by (induction al) (auto split: if_splits)

lemma map_of_filter_snd:
  "distinct (map fst al) \<Longrightarrow>
    map_of (filter (\<lambda>(_, v). P v) al) k = (case map_of al k of Some v \<Rightarrow> if P v then Some v else None | None \<Rightarrow> None)"
  by (induction al) (auto split: option.splits simp: map_of_eq_None_iff)

lemma map_of_filter_key:
  "map_of (filter (\<lambda>(k, _). P k) al) k = (if P k then map_of al k else None)"
  by (induction al) auto

section \<open>Invariant\<close>

text \<open>The amount held in accepted HTLCs against a quote, computed from the HTLC table.\<close>

definition tracked_total :: "QuoteManager \<Rightarrow> RfqId \<Rightarrow> nat" where
  "tracked_total m i = sum_list (map (\<lambda>(_, q, a). if q = i then unat a else 0) (tracked_htlcs m))"

definition wf_manager :: "QuoteManager \<Rightarrow> bool" where
  "wf_manager m \<longleftrightarrow> distinct (map fst (buy_quotes m)) \<and> distinct (map fst (sell_quotes m))
     \<and> distinct (map fst (pending_requests m)) \<and> distinct (map fst (tracked_htlcs m))
     \<and> distinct (map fst (quote_used m)) \<and> (\<forall>i. unat (quote_used_msat m i) = tracked_total m i)"

lemma wf_manager_new: "wf_manager (manager_new orc)"
  by (simp add: wf_manager_def manager_new_def quote_used_msat_def tracked_total_def)

lemma quote_used_msat_upd:
  "quote_used_msat (m\<lparr>quote_used := AList.update i v (quote_used m')\<rparr>) j
    = (if j = i then v else quote_used_msat (m\<lparr>quote_used := quote_used m'\<rparr>) j)"
  "quote_used_msat (m\<lparr>quote_used := AList.delete i (quote_used m')\<rparr>) j
    = (if j = i then 0 else quote_used_msat (m\<lparr>quote_used := quote_used m'\<rparr>) j)"
  by (simp_all add: quote_used_msat_def update_conv' delete_conv')

lemma tracked_total_delete:
  assumes "distinct (map fst (tracked_htlcs m))"
  shows "tracked_total m i =
    (case map_of (tracked_htlcs m) h of Some (q, a) \<Rightarrow> if q = i then unat a else 0 | None \<Rightarrow> 0)
    + tracked_total (m\<lparr>tracked_htlcs := AList.delete h (tracked_htlcs m)\<rparr>) i"
  unfolding tracked_total_def using alist_delete_sum [OF assms, of _ h]
  by (simp split: option.splits prod.splits)

lemma untrack_tracked:
  "tracked_htlcs (untrack_htlc h m) = AList.delete h (tracked_htlcs m)"
proof (cases "map_of (tracked_htlcs m) h")
  case None
  then have "AList.delete h (tracked_htlcs m) = tracked_htlcs m"
    by (intro delete_id) (simp add: map_of_eq_None_iff)
  with None show ?thesis by (simp add: untrack_htlc_def)
qed (auto simp: untrack_htlc_def Let_def split: option.splits prod.splits)

lemma untrack_other [simp]:
  "buy_quotes (untrack_htlc h m) = buy_quotes m" "sell_quotes (untrack_htlc h m) = sell_quotes m"
  "pending_requests (untrack_htlc h m) = pending_requests m"
  by (simp_all add: untrack_htlc_def Let_def split: option.splits prod.splits)

lemma untrack_used:
  assumes "wf_manager m"
  shows "quote_used_msat (untrack_htlc h m) i =
    (case map_of (tracked_htlcs m) h of
       Some (q, a) \<Rightarrow> if q = i then saturating_sub (quote_used_msat m i) a else quote_used_msat m i
     | None \<Rightarrow> quote_used_msat m i)"
proof (cases "map_of (tracked_htlcs m) h")
  case (Some qa)
  obtain q a where qa: "qa = (q, a)" by fastforce
  show ?thesis
  proof (cases "map_of (quote_used m) q")
    case None
    with Some qa show ?thesis
      by (auto simp: untrack_htlc_def Let_def quote_used_msat_def saturating_sub_def)
  next
    case used: (Some u)
    with Some qa show ?thesis
      by (auto simp: untrack_htlc_def Let_def quote_used_msat_def update_conv' delete_conv')
  qed
qed (simp add: untrack_htlc_def)

lemma wf_untrack: "wf_manager m \<Longrightarrow> wf_manager (untrack_htlc h m)"
proof -
  assume wf: "wf_manager m"
  have "distinct (map fst (quote_used (untrack_htlc h m)))"
    using wf by (auto simp: wf_manager_def untrack_htlc_def Let_def distinct_update distinct_delete
        split: option.splits prod.splits)
  moreover have "unat (quote_used_msat (untrack_htlc h m) i) = tracked_total (untrack_htlc h m) i" for i
  proof -
    have "tracked_total (untrack_htlc h m) i = tracked_total (m\<lparr>tracked_htlcs := AList.delete h (tracked_htlcs m)\<rparr>) i"
      by (simp add: tracked_total_def untrack_tracked)
    moreover have "unat (quote_used_msat m i) = tracked_total m i" using wf by (simp add: wf_manager_def)
    ultimately show ?thesis
      using tracked_total_delete [of m i h] wf
      by (auto simp: untrack_used unat_saturating_sub wf_manager_def split: option.splits prod.splits)
  qed
  ultimately show ?thesis
    using wf by (simp add: wf_manager_def untrack_tracked distinct_delete)
qed

lemma wf_track:
  assumes wf: "wf_manager m" and fits: "unat (quote_used_msat m q) + unat amt < 2 ^ 64"
  shows "wf_manager (track_accepted_htlc q h amt m)"
    and "tracked_total (track_accepted_htlc q h amt m) q \<le> tracked_total m q + unat amt"
proof -
  let ?u = "untrack_htlc h m"
  have u: "wf_manager ?u" using wf by (rule wf_untrack)
  have le: "tracked_total ?u i \<le> tracked_total m i" for i
    using tracked_total_delete [of m i h] wf
    by (simp add: tracked_total_def untrack_tracked wf_manager_def)
  have used_u: "unat (quote_used_msat ?u i) = tracked_total ?u i" for i
    using u by (simp add: wf_manager_def)
  have "map_of (tracked_htlcs ?u) h = None" by (simp add: untrack_tracked delete_conv')
  then have tr: "tracked_htlcs (track_accepted_htlc q h amt m) = tracked_htlcs ?u @ [(h, q, amt)]"
    by (simp add: track_accepted_htlc_def Let_def alist_update_absent)
  then have total: "tracked_total (track_accepted_htlc q h amt m) i
      = tracked_total ?u i + (if i = q then unat amt else 0)" for i
    by (simp add: tracked_total_def)
  show "tracked_total (track_accepted_htlc q h amt m) q \<le> tracked_total m q + unat amt"
    using total le [of q] by simp
  have "unat (quote_used_msat ?u q) + unat amt < 2 ^ 64"
    using fits le [of q] used_u [of q] wf by (simp add: wf_manager_def)
  moreover have "quote_used_msat (track_accepted_htlc q h amt m) i
      = (if i = q then saturating_add (quote_used_msat ?u q) amt else quote_used_msat ?u i)" for i
    by (simp add: track_accepted_htlc_def Let_def quote_used_msat_def update_conv')
  ultimately have "unat (quote_used_msat (track_accepted_htlc q h amt m) i)
      = tracked_total (track_accepted_htlc q h amt m) i" for i
    using total [of i] used_u [of i] by (cases "i = q") (simp_all add: unat_saturating_add)
  moreover have "distinct (map fst (tracked_htlcs ?u @ [(h, q, amt)]))"
    using u \<open>map_of (tracked_htlcs ?u) h = None\<close> by (simp add: wf_manager_def map_of_eq_None_iff)
  ultimately show "wf_manager (track_accepted_htlc q h amt m)"
    using u tr by (simp add: wf_manager_def)
      (simp add: track_accepted_htlc_def Let_def distinct_update)
qed

section \<open>The manager as a state machine\<close>

text \<open>Each public operation is a step. An HTLC is tracked only after \<^verbatim>\<open>check_htlc_amount\<close> allowed it; the
  side condition that the amounts held against one quote stay below 2^64 msat holds for
  all amounts of bitcoin that exist.\<close>

inductive manager_step :: "QuoteManager \<Rightarrow> QuoteManager \<Rightarrow> bool" where
  step_signer: "manager_step m (set_accept_signer sg m)"
| step_create_buy: "create_buy_request draws asset n peer now m = Some (r, m') \<Longrightarrow> manager_step m m'"
| step_create_sell: "create_sell_request draws asset n peer now m = Some (r', m') \<Longrightarrow> manager_step m m'"
| step_buy_request: "handle_buy_request rq peer now life m = (res, m') \<Longrightarrow> manager_step m m'"
| step_sell_request: "handle_sell_request srq peer now life m = (res, m') \<Longrightarrow> manager_step m m'"
| step_buy_accept: "handle_buy_accept a peer now m = (qres, m') \<Longrightarrow> manager_step m m'"
| step_sell_accept: "handle_sell_accept a peer now m = (qres, m') \<Longrightarrow> manager_step m m'"
| step_reject: "handle_reject rj peer m = (ures, m') \<Longrightarrow> manager_step m m'"
| step_track: "check_htlc_amount m q amt = Ok () \<Longrightarrow> unat (quote_used_msat m q) + unat amt < 2 ^ 64 \<Longrightarrow>
    manager_step m (track_accepted_htlc q h amt m)"
| step_untrack: "manager_step m (untrack_htlc h m)"
| step_prune: "manager_step m (prune_expired now m)"

inductive manager_reachable :: "QuoteManager \<Rightarrow> bool" where
  reach_new: "manager_reachable (with_max_quotes_per_peer orc n)"
| reach_step: "manager_reachable m \<Longrightarrow> manager_step m m' \<Longrightarrow> manager_reachable m'"

text \<open>Operations that leave the HTLC tables alone keep the invariant if keys stay distinct.\<close>

lemma wf_manager_frame:
  assumes "wf_manager m" "tracked_htlcs m' = tracked_htlcs m" "quote_used m' = quote_used m"
    and "distinct (map fst (buy_quotes m'))" "distinct (map fst (sell_quotes m'))"
    and "distinct (map fst (pending_requests m'))"
  shows "wf_manager m'"
  using assms by (simp add: wf_manager_def quote_used_msat_def tracked_total_def)

lemma distinct_filter_fst: "distinct (map fst al) \<Longrightarrow> distinct (map fst (filter P al))"
  by (induction al) auto

lemma prune_used:
  "quote_used_msat (prune_expired now m) i = (if has_quote (prune_expired now m) i then quote_used_msat m i else 0)"
proof -
  have "has_quote (prune_expired now m) j \<longleftrightarrow>
      has_quote (m\<lparr>buy_quotes := filter (\<lambda>(_, q). quote_is_valid q now) (buy_quotes m),
        sell_quotes := filter (\<lambda>(_, q). quote_is_valid q now) (sell_quotes m)\<rparr>) j" for j
    by (simp add: prune_expired_def Let_def has_quote_def)
  then show ?thesis
    by (simp add: quote_used_msat_def prune_expired_def Let_def map_of_filter_key has_quote_def)
qed

lemma prune_tracked:
  "tracked_total (prune_expired now m) i = (if has_quote (prune_expired now m) i then tracked_total m i else 0)"
proof -
  have "sum_list (map (\<lambda>(_, q, a). if q = i then unat (a :: u64) else 0) (filter (\<lambda>(_, q, _). P q) xs))
      = (if P i then sum_list (map (\<lambda>(_, q, a). if q = i then unat a else 0) xs) else 0)"
    for P and xs :: "(HtlcId \<times> RfqId \<times> u64) list"
    by (induction xs) auto
  from this [of "has_quote (prune_expired now m)" "tracked_htlcs m"] show ?thesis
    by (simp add: tracked_total_def prune_expired_def Let_def has_quote_def)
qed

lemma wf_prune: "wf_manager m \<Longrightarrow> wf_manager (prune_expired now m)"
  using prune_used [of now m] prune_tracked [of now m]
  by (simp add: wf_manager_def) (simp add: prune_expired_def Let_def distinct_filter_fst)

lemma wf_step:
  assumes "manager_step m m'" "wf_manager m"
  shows "wf_manager m'"
  using assms
proof (cases rule: manager_step.cases)
  case (step_buy_request rq peer now life res)
  then show ?thesis
    using assms(2) by (intro wf_manager_frame [OF assms(2)])
      (auto simp: handle_buy_request_def Let_def wf_manager_def distinct_update split: if_splits result.splits)
next
  case (step_sell_request rq peer now life res)
  then show ?thesis
    using assms(2) by (intro wf_manager_frame [OF assms(2)])
      (auto simp: handle_sell_request_def Let_def wf_manager_def distinct_update split: if_splits result.splits)
next
  case (step_buy_accept a peer now qres)
  then show ?thesis
    using assms(2) by (intro wf_manager_frame [OF assms(2)])
      (auto simp: handle_buy_accept_def Let_def wf_manager_def distinct_update distinct_delete
        split: if_splits option.splits)
next
  case (step_sell_accept a peer now qres)
  then show ?thesis
    using assms(2) by (intro wf_manager_frame [OF assms(2)])
      (auto simp: handle_sell_accept_def Let_def wf_manager_def distinct_update distinct_delete
        split: if_splits option.splits)
next
  case (step_reject rj peer ures)
  then show ?thesis
    using assms(2) by (intro wf_manager_frame [OF assms(2)])
      (auto simp: handle_reject_def wf_manager_def distinct_delete split: if_splits option.splits)
next
  case (step_create_buy draws asset n peer now r)
  then show ?thesis
    using assms(2) by (intro wf_manager_frame [OF assms(2)])
      (auto simp: create_buy_request_def wf_manager_def distinct_update split: option.splits)
next
  case (step_create_sell draws asset n peer now r)
  then show ?thesis
    using assms(2) by (intro wf_manager_frame [OF assms(2)])
      (auto simp: create_sell_request_def wf_manager_def distinct_update split: option.splits)
next
  case (step_signer sg)
  then show ?thesis
    using assms(2) by (intro wf_manager_frame [OF assms(2)]) (auto simp: set_accept_signer_def wf_manager_def)
qed (simp_all add: wf_track wf_untrack wf_prune)

lemma reachable_wf: "manager_reachable m \<Longrightarrow> wf_manager m"
proof (induction rule: manager_reachable.induct)
  case (reach_new orc n)
  then show ?case
    using wf_manager_new [of orc]
    by (rule wf_manager_frame) (simp_all add: with_max_quotes_per_peer_def manager_new_def)
qed (rule wf_step)

section \<open>Per-peer limit\<close>

lemma count_update:
  "length (filter P (AList.update k v al)) \<le> length (filter P al) + (if P (k, v) then 1 else 0)"
  by (induction al) auto

lemma peer_count_sell:
  "peer_quote_count (m\<lparr>sell_quotes := AList.update i q (sell_quotes m)\<rparr>) p
    \<le> peer_quote_count m p + (if aq_peer q = p then 1 else 0)"
  using count_update [of "\<lambda>(_, q). aq_peer q = p" i q "sell_quotes m"] by (simp add: peer_quote_count_def)

lemma peer_count_buy:
  "peer_quote_count (m\<lparr>buy_quotes := AList.update i q (buy_quotes m)\<rparr>) p
    \<le> peer_quote_count m p + (if aq_peer q = p then 1 else 0)"
  using count_update [of "\<lambda>(_, q). aq_peer q = p" i q "buy_quotes m"] by (simp add: peer_quote_count_def)

lemma signed_accept_fill [simp]: "ra_max_in_asset (signed_accept m w a) = ra_max_in_asset a"
  by (simp add: signed_accept_def split: result.splits)

lemma tracked_within_cap:
  assumes wf: "wf_manager m" and "get_quote m q = Some quote" "aq_max_amount_msat quote < - 1" "check_htlc_amount m q amt = Ok ()"
  shows "wf_manager (track_accepted_htlc q h amt m)"
    and "tracked_total (track_accepted_htlc q h amt m) q \<le> unat (aq_max_amount_msat quote)"
proof -
  have "saturating_add (quote_used_msat m q) amt \<le> aq_max_amount_msat quote"
    using assms(2,4) by (auto simp: check_htlc_amount_def Let_def not_less split: if_splits)
  then have "min (unat (quote_used_msat m q) + unat amt) (2 ^ 64 - 1) \<le> unat (aq_max_amount_msat quote)"
    by (simp add: word_le_nat_alt unat_saturating_add)
  moreover have "unat (aq_max_amount_msat quote) < 2 ^ 64 - 1"
    using assms(3) by (simp add: word_less_nat_alt unat_minus_one)
  ultimately have le: "unat (quote_used_msat m q) + unat amt \<le> unat (aq_max_amount_msat quote)"
    by (simp add: min_def split: if_splits)
  then have fits: "unat (quote_used_msat m q) + unat amt < 2 ^ 64"
    using unat_lt2p [of "aq_max_amount_msat quote"] by (simp del: unat_u64_less)
  show "wf_manager (track_accepted_htlc q h amt m)" by (rule wf_track(1) [OF wf fits])
  from wf_track(2) [OF wf fits] le wf show "tracked_total (track_accepted_htlc q h amt m) q \<le> unat (aq_max_amount_msat quote)"
    by (simp add: wf_manager_def) (meson le_trans)
qed

section \<open>Properties\<close>

text \<open>A fixed oracle, a request and the state after it, for the instances below.\<close>

definition demo_oracle :: PriceOracle where
  "demo_oracle = \<lparr>ask_price = (\<lambda>_ _. Ok (fixed_point_new 300 2)), bid_price = (\<lambda>_ _. Ok (fixed_point_new 300 2))\<rparr>"

definition demo_request :: RfqSellRequest where
  "demo_request = \<lparr>sr_id = zeros 32, sr_asset_id = zeros 32, sr_payment_max_amt_msat = 5000,
     sr_asset_group_key = None, sr_expiry = 600, sr_rate_hint = None\<rparr>"

definition demo_manager :: QuoteManager where
  "demo_manager = snd (handle_sell_request demo_request [7] 0 600 (with_max_quotes_per_peer demo_oracle 2))"

lemma demo_manager_fields:
  "map_of (buy_quotes demo_manager) (zeros 32) = Some \<lparr>aq_id = zeros 32, aq_asset_id = zeros 32,
     aq_rate = fixed_point_new 300 2, aq_expiry = 600, aq_peer = [7], aq_is_buy = True,
     aq_max_amount_msat = 5000\<rparr>"
  "tracked_htlcs demo_manager = []" "quote_used demo_manager = []" "sell_quotes demo_manager = []"
  "length (buy_quotes demo_manager) = 1"
  by (simp_all add: demo_manager_def handle_sell_request_def with_max_quotes_per_peer_def manager_new_def
      peer_quote_count_def demo_oracle_def demo_request_def effective_max_def Let_def)

lemma demo_reachable: "manager_reachable demo_manager"
  unfolding demo_manager_def
  by (rule reach_step [OF reach_new step_sell_request]) (rule prod.collapse [symmetric])

text \<open>C21: the accounting of in-flight HTLCs is exact. In every state the manager can reach, for every quote,
  the running total it keeps equals the sum of the amounts of the HTLCs tracked against
  that quote: no HTLC is counted twice when it is re-tracked, none is forgotten, and pruning expired
  quotes drops both sides together.\<close>

theorem htlc_accounting_exact:
  assumes "manager_reachable m"
  shows "unat (quote_used_msat m i) = tracked_total m i"
  using reachable_wf [OF assms] by (simp add: wf_manager_def)

theorem htlc_accounting_exact_witness:
  "unat (quote_used_msat (track_accepted_htlc (zeros 32) [1] 40 demo_manager) (zeros 32)) = 40"
proof -
  have "check_htlc_amount demo_manager (zeros 32) 40 = Ok ()" "unat (quote_used_msat demo_manager (zeros 32)) = 0"
    by (simp_all add: check_htlc_amount_def get_quote_def demo_manager_fields quote_used_msat_def
        saturating_add_def checked_add_def)
  then have "manager_reachable (track_accepted_htlc (zeros 32) [1] 40 demo_manager)"
    by (intro reach_step [OF demo_reachable step_track]) simp_all
  from htlc_accounting_exact [OF this] show ?thesis
    by (simp add: tracked_total_def track_accepted_htlc_def untrack_htlc_def demo_manager_fields Let_def)
qed

text \<open>The negotiated maximum of a quote is a hard limit on what is held against it. If a reachable manager
  finds an HTLC compliant and then tracks it, the amounts tracked against the quote, the new one
  included, sum to at most the quote's maximum (for a maximum below the largest 64-bit number, where the
  saturating addition of the check would hide an overflow).\<close>

theorem htlc_cap_respected:
  assumes "manager_reachable m" "get_quote m q = Some quote" "aq_max_amount_msat quote < - 1"
    and "check_htlc_amount m q amt = Ok ()"
  shows "tracked_total (track_accepted_htlc q h amt m) q \<le> unat (aq_max_amount_msat quote)"
  by (rule tracked_within_cap(2) [OF reachable_wf [OF assms(1)] assms(2-4)])

theorem htlc_cap_respected_witness:
  "tracked_total (track_accepted_htlc (zeros 32) [1] 5000 demo_manager) (zeros 32) \<le> 5000"
  using htlc_cap_respected [OF demo_reachable, of "zeros 32" _ 5000 "[1]"]
  by (simp add: get_quote_def demo_manager_fields check_htlc_amount_def quote_used_msat_def
      saturating_add_def checked_add_def)

text \<open>Incoming requests never take a peer past the limit. Handling a buy or a sell request leaves
  every peer with at most as many quotes as it had before or as the limit allows, whichever is larger;
  a peer at its limit gets a reject and the state is unchanged.\<close>

theorem request_peer_limit:
  "peer_quote_count (snd (handle_buy_request rq peer now life m)) p
     \<le> max (peer_quote_count m p) (max_quotes_per_peer m)
   \<and> peer_quote_count (snd (handle_sell_request srq peer now life m)) p
     \<le> max (peer_quote_count m p) (max_quotes_per_peer m)"
proof (cases "max_quotes_per_peer m \<le> peer_quote_count m peer")
  case True
  then show ?thesis by (simp add: handle_buy_request_def handle_sell_request_def)
next
  case False
  have grow: "n \<le> max (peer_quote_count m p) (max_quotes_per_peer m)"
    if "n \<le> peer_quote_count m p + (if peer = p then 1 else 0)" for n
    using that False by (auto split: if_splits)
  have "peer_quote_count (snd (handle_buy_request rq peer now life m)) p
      \<le> peer_quote_count m p + (if peer = p then 1 else 0)"
    unfolding handle_buy_request_def Let_def
    by (auto split: result.splits intro: order_trans [OF peer_count_sell])
  moreover have "peer_quote_count (snd (handle_sell_request srq peer now life m)) p
      \<le> peer_quote_count m p + (if peer = p then 1 else 0)"
    unfolding handle_sell_request_def Let_def
    by (auto split: result.splits intro: order_trans [OF peer_count_buy])
  ultimately show ?thesis using grow by blast
qed

text \<open>An accept is honoured only for the request it answers. If handling a buy accept returns a quote, there was a
  pending buy request with that identifier sent to that very peer, the accept had not expired, the quote carries the
  asset of the request, is stored under the identifier, and its cap is that of an amount no larger than requested;
  and the request is used up: any further accept with the identifier is answered with an error.\<close>

theorem buy_accept_bound_to_request:
  assumes "handle_buy_accept a peer now m = (Ok quote, m')"
  shows "\<exists>pending fill. map_of (pending_requests m) (ra_id a) = Some pending \<and> pr_is_buy pending
      \<and> pr_peer pending = peer \<and> now < ra_expiry a \<and> aq_asset_id quote = pr_asset_id pending
      \<and> aq_peer quote = peer \<and> get_quote m' (ra_id a) = Some quote
      \<and> fill \<le> pr_max_amount pending \<and> aq_max_amount_msat quote = unit_max_to_msat_cap fill (ra_asset_rate a)
      \<and> (\<forall>b peer' now'. ra_id b = ra_id a \<longrightarrow>
            handle_buy_accept b peer' now' m' = (Err (RequestNotFound (ra_id a)), m'))"
proof -
  let ?fill = "\<lambda>p. effective_max (pr_max_amount p) (ra_max_in_asset a)"
  from assms obtain pending where p: "map_of (pending_requests m) (ra_id a) = Some pending" "pr_is_buy pending"
      "pr_peer pending = peer" "now < ra_expiry a"
    and q: "quote = \<lparr>aq_id = ra_id a, aq_asset_id = pr_asset_id pending, aq_rate = ra_asset_rate a,
        aq_expiry = ra_expiry a, aq_peer = peer, aq_is_buy = True,
        aq_max_amount_msat = unit_max_to_msat_cap (?fill pending) (ra_asset_rate a)\<rparr>"
    and m': "m' = m\<lparr>pending_requests := AList.delete (ra_id a) (pending_requests m),
        buy_quotes := AList.update (ra_id a) quote (buy_quotes m)\<rparr>"
    by (auto simp: handle_buy_accept_def Let_def not_le split: option.splits if_splits)
  have "?fill pending \<le> pr_max_amount pending" by (simp add: effective_max_def split: option.splits)
  moreover have "get_quote m' (ra_id a) = Some quote"
    by (simp add: m' get_quote_def update_conv')
  moreover have "handle_buy_accept b peer' now' m' = (Err (RequestNotFound (ra_id a)), m')"
    if "ra_id b = ra_id a" for b peer' now'
    using that by (simp add: handle_buy_accept_def m' delete_conv')
  ultimately show ?thesis using p q by (intro exI [of _ pending] exI [of _ "?fill pending"]) simp
qed

definition demo_accept :: RfqAccept where
  "demo_accept = \<lparr>ra_id = [3], ra_asset_rate = fixed_point_new 300 2, ra_expiry = 50, ra_sig = zeros 64,
     ra_max_in_asset = None\<rparr>"

definition demo_pending :: QuoteManager where
  "demo_pending = (manager_new demo_oracle)\<lparr>pending_requests :=
     [([3], \<lparr>pr_id = [3], pr_asset_id = zeros 32, pr_peer = [7], pr_is_buy = True, pr_max_amount = 9,
       pr_created_at = 1\<rparr>)]\<rparr>"

theorem buy_accept_bound_to_request_witness:
  "\<exists>quote m'. handle_buy_accept demo_accept [7] 2 demo_pending = (Ok quote, m')
    \<and> fst (handle_buy_accept demo_accept [7] 2 m') = Err (RequestNotFound [3])"
proof -
  obtain quote m' where h: "handle_buy_accept demo_accept [7] 2 demo_pending = (Ok quote, m')"
    by (simp add: handle_buy_accept_def demo_accept_def demo_pending_def Let_def)
  from buy_accept_bound_to_request [OF this]
  have "handle_buy_accept demo_accept [7] 2 m' = (Err (RequestNotFound (ra_id demo_accept)), m')" by blast
  with h show ?thesis by (simp add: demo_accept_def)
qed

text \<open>The requester chooses the identifier of a quote, and the manager does not check that it is free. A buy request
  from one peer that reuses the identifier of a quote held for another peer replaces that quote, with the
  new peer, cap and expiry.\<close>

theorem buy_request_replaces_quote:
  assumes "map_of (sell_quotes m) (br_id rq) = Some old" "aq_peer old \<noteq> peer"
    and "peer_quote_count m peer < max_quotes_per_peer m"
    and "ask_price (price_oracle m) (br_asset_id rq) (br_asset_max_amount rq) = Ok rate"
  shows "\<exists>accept m' new. handle_buy_request rq peer now life m = (Ok accept, m')
    \<and> map_of (sell_quotes m') (br_id rq) = Some new \<and> aq_peer new = peer \<and> aq_expiry new = now + life"
  using assms by (simp add: handle_buy_request_def Let_def update_conv')

theorem buy_request_replaces_quote_witness:
  "\<exists>accept m' new. handle_buy_request \<lparr>br_id = [3], br_asset_id = zeros 32, br_asset_max_amount = 1,
        br_asset_group_key = None, br_expiry = 9, br_rate_hint = None\<rparr> [8] 10 600
      ((manager_new demo_oracle)\<lparr>sell_quotes := [([3], \<lparr>aq_id = [3], aq_asset_id = zeros 32,
        aq_rate = fixed_point_new 300 2, aq_expiry = 600, aq_peer = [7], aq_is_buy = False,
        aq_max_amount_msat = 5000\<rparr>)]\<rparr>) = (Ok accept, m')
    \<and> map_of (sell_quotes m') [3] = Some new \<and> aq_peer new = [8]"
  using buy_request_replaces_quote [of "(manager_new demo_oracle)\<lparr>sell_quotes := [([3], \<lparr>aq_id = [3],
        aq_asset_id = zeros 32, aq_rate = fixed_point_new 300 2, aq_expiry = 600, aq_peer = [7],
        aq_is_buy = False, aq_max_amount_msat = 5000\<rparr>)]\<rparr>"
      "\<lparr>br_id = [3], br_asset_id = zeros 32, br_asset_max_amount = 1,
        br_asset_group_key = None, br_expiry = 9, br_rate_hint = None\<rparr>" _ "[8]" "fixed_point_new 300 2" 10 600]
  by (auto simp: manager_new_def demo_oracle_def peer_quote_count_def MAX_PENDING_QUOTES_PER_PEER_def)

end
