(* ===== verification/Routing.thy ===== *)
theory Routing
  imports Channel Rfq_Manager
begin

text \<open>
  Asset payments over channels: \<^verbatim>\<open>tap-ldk/src/routing/mod.rs\<close>. The custom records of an HTLC, the amounts computed from a quote, and
  the traffic shaper. The shaper searches the values of a hash map; their order is a function \<open>iter\<close>, which permutes its entries.
\<close>

section \<open>Records of an HTLC\<close>

definition HTLC_AMOUNT_RECORD_TYPE :: u64 where "HTLC_AMOUNT_RECORD_TYPE = 65536"
definition HTLC_RFQ_ID_TYPE :: u64 where "HTLC_RFQ_ID_TYPE = 65538"
definition AVAILABLE_RFQ_IDS_TYPE :: u64 where "AVAILABLE_RFQ_IDS_TYPE = 65540"
definition MAX_NUM_BALANCES :: u64 where "MAX_NUM_BALANCES = 2048"
definition DEFAULT_ON_CHAIN_HTLC_MSAT :: u64 where "DEFAULT_ON_CHAIN_HTLC_MSAT = 354000"

definition balance_encode :: "AssetBalance \<Rightarrow> bytes" where
  "balance_encode b =
     (let s = tlv_push [] (tlv_bytes 0 (ab_asset_id b)); s = tlv_push s (tlv_u64 1 (ab_amount b)) in tlv_encode s)"

definition encode_asset_balance_list :: "AssetBalance list \<Rightarrow> bytes" where
  "encode_asset_balance_list balances = encode_items (map balance_encode balances)"

definition balance_decode :: "bytes \<Rightarrow> (AssetBalance, AssetChannelError) result" where
  "balance_decode bs =
     res_bind (map_err (\<lambda>_. AssetChannelError ''balance tlv'') (tlv_decode bs)) (\<lambda>inner.
     res_bind (ok_or (tlv_get inner 0) (AssetChannelError ''balance missing asset id'')) (\<lambda>id_record.
       if length (tlv_value id_record) \<noteq> 32 then Err (AssetChannelError ''balance asset id must be 32 bytes'')
       else res_bind (ok_or (tlv_get inner 1) (AssetChannelError ''balance missing amount'')) (\<lambda>r.
         res_bind (map_err (\<lambda>_. AssetChannelError ''balance amount'') (as_u64 r)) (\<lambda>amt.
           Ok \<lparr>ab_asset_id = tlv_value id_record, ab_amount = amt\<rparr>))))"

definition decode_asset_balance_list :: "bytes \<Rightarrow> (AssetBalance list, AssetChannelError) result" where
  "decode_asset_balance_list data =
     decode_item_list (varint_at (AssetChannelError ''balance count''))
       (inline_bytes_at (AssetChannelError ''balance len'') (AssetChannelError ''balance entry truncated''))
       (AssetChannelError ''too many balances'') (AssetChannelError ''trailing bytes after balance list'')
       balance_decode MAX_NUM_BALANCES data"

record AssetHtlcData =
  hd_balances :: "AssetBalance list"
  hd_rfq_id :: "RfqId option"

definition sum_balances :: "AssetHtlcData \<Rightarrow> u64" where
  "sum_balances d = (\<Sum>b\<leftarrow>hd_balances d. ab_amount b)"

definition to_custom_tlvs :: "AssetHtlcData \<Rightarrow> (u64 \<times> bytes) list" where
  "to_custom_tlvs d =
     (if hd_balances d \<noteq> [] then [(HTLC_AMOUNT_RECORD_TYPE, encode_asset_balance_list (hd_balances d))] else [])
     @ (case hd_rfq_id d of Some rfq_id \<Rightarrow> [(HTLC_RFQ_ID_TYPE, rfq_id)] | None \<Rightarrow> [])"

definition htlc_data_encode :: "AssetHtlcData \<Rightarrow> bytes" where
  "htlc_data_encode d = tlv_encode (foldl (\<lambda>s (ty, v). tlv_push s (tlv_new ty v)) [] (to_custom_tlvs d))"

text \<open>The loop of \<^verbatim>\<open>from_custom_tlvs\<close> with its three variables; a list that does not decode ends it with \<^verbatim>\<open>None\<close>.\<close>

fun custom_tlvs_loop ::
  "(u64 \<times> bytes) list \<Rightarrow> bool \<Rightarrow> AssetBalance list \<Rightarrow> RfqId option \<Rightarrow> (AssetHtlcData option, AssetChannelError) result" where
  "custom_tlvs_loop [] present balances rfq_id =
     Ok (if \<not> present then None else Some \<lparr>hd_balances = balances, hd_rfq_id = rfq_id\<rparr>)"
| "custom_tlvs_loop ((ty, val) # tlvs) present balances rfq_id =
     (if ty = HTLC_AMOUNT_RECORD_TYPE then
        (case decode_asset_balance_list val of
           Ok bs \<Rightarrow> custom_tlvs_loop tlvs True bs rfq_id | Err _ \<Rightarrow> Ok None | Panic \<Rightarrow> Panic)
      else if ty = HTLC_RFQ_ID_TYPE \<and> length val = 32 then custom_tlvs_loop tlvs True balances (Some val)
      else if ty = AVAILABLE_RFQ_IDS_TYPE then custom_tlvs_loop tlvs True balances rfq_id
      else custom_tlvs_loop tlvs present balances rfq_id)"

definition from_custom_tlvs :: "(u64 \<times> bytes) list \<Rightarrow> (AssetHtlcData option, AssetChannelError) result" where
  "from_custom_tlvs tlvs = custom_tlvs_loop tlvs False [] None"

definition htlc_data_decode :: "bytes \<Rightarrow> (AssetHtlcData, AssetChannelError) result" where
  "htlc_data_decode data =
     res_bind (map_err (\<lambda>_. AssetChannelError ''htlc tlv'') (tlv_decode data)) (\<lambda>s.
     res_bind (from_custom_tlvs (map (\<lambda>r. (type_num r, tlv_value r)) s)) (\<lambda>d.
       ok_or d (AssetChannelError ''no asset HTLC records present'')))"

section \<open>Amounts\<close>

definition compute_htlc_btc_amount :: "u64 \<Rightarrow> AcceptedQuote \<Rightarrow> (u64, FixedPointError) result" where
  "compute_htlc_btc_amount asset_amount quote =
     res_bind (units_to_milli_satoshi asset_amount (aq_rate quote)) (\<lambda>msat. Ok (max msat DEFAULT_ON_CHAIN_HTLC_MSAT))"

definition compute_asset_amount :: "u64 \<Rightarrow> AcceptedQuote \<Rightarrow> (u64, FixedPointError) result" where
  "compute_asset_amount btc_msat quote = milli_satoshi_to_units btc_msat (aq_rate quote)"

section \<open>The traffic shaper\<close>

record TrafficShaper =
  channel_balances :: "u64 \<rightharpoonup> AssetBalance list"
  ts_quotes :: "(RfqId \<times> AcceptedQuote) list"

type_synonym quote_order = "(RfqId \<times> AcceptedQuote) list \<Rightarrow> (RfqId \<times> AcceptedQuote) list"

definition shaper_new :: TrafficShaper where
  "shaper_new = \<lparr>channel_balances = Map.empty, ts_quotes = []\<rparr>"

definition register_channel :: "u64 \<Rightarrow> AssetBalance list \<Rightarrow> TrafficShaper \<Rightarrow> TrafficShaper" where
  "register_channel scid balances s = s\<lparr>channel_balances := (channel_balances s)(scid \<mapsto> balances)\<rparr>"

definition update_balances :: "u64 \<Rightarrow> AssetBalance list \<Rightarrow> TrafficShaper \<Rightarrow> TrafficShaper" where
  "update_balances scid balances s = s\<lparr>channel_balances := (channel_balances s)(scid \<mapsto> balances)\<rparr>"

definition register_quote :: "AcceptedQuote \<Rightarrow> TrafficShaper \<Rightarrow> TrafficShaper" where
  "register_quote quote s = s\<lparr>ts_quotes := AList.update (aq_id quote) quote (ts_quotes s)\<rparr>"

definition is_asset_channel :: "TrafficShaper \<Rightarrow> u64 \<Rightarrow> bool" where
  "is_asset_channel s scid \<longleftrightarrow> channel_balances s scid \<noteq> None"

definition quote_for :: "quote_order \<Rightarrow> TrafficShaper \<Rightarrow> AssetId \<Rightarrow> AcceptedQuote option" where
  "quote_for iter s aid = List.find (\<lambda>q. aq_asset_id q = aid) (map snd (iter (ts_quotes s)))"

fun bandwidth_loop :: "quote_order \<Rightarrow> TrafficShaper \<Rightarrow> AssetBalance list \<Rightarrow> u64 \<Rightarrow> (u64, AssetChannelError) result" where
  "bandwidth_loop iter s [] total_msat = Ok total_msat"
| "bandwidth_loop iter s (balance # balances) total_msat =
     (case quote_for iter s (ab_asset_id balance) of
        Some quote \<Rightarrow>
          res_bind (map_err (\<lambda>_. AssetChannelError ''bandwidth conversion'') (units_to_milli_satoshi (ab_amount balance) (aq_rate quote)))
            (\<lambda>msat. bandwidth_loop iter s balances (saturating_add total_msat msat))
      | None \<Rightarrow> bandwidth_loop iter s balances total_msat)"

definition payment_bandwidth :: "quote_order \<Rightarrow> TrafficShaper \<Rightarrow> u64 \<Rightarrow> (u64, AssetChannelError) result" where
  "payment_bandwidth iter s scid =
     res_bind (ok_or (channel_balances s scid) (AssetChannelError ''no asset channel for scid'')) (\<lambda>balances.
       bandwidth_loop iter s balances 0)"

definition shape_outgoing_htlc ::
  "quote_order \<Rightarrow> TrafficShaper \<Rightarrow> u64 \<Rightarrow> u64 \<Rightarrow> (u64 \<times> bytes) list \<Rightarrow> (u64 \<times> (u64 \<times> bytes) list, AssetChannelError) result" where
  "shape_outgoing_htlc iter s scid original_amt_msat custom_records =
     res_bind (from_custom_tlvs custom_records) (\<lambda>existing.
       if (case existing of Some d \<Rightarrow> sum_balances d > 0 | None \<Rightarrow> False) then Ok (original_amt_msat, custom_records)
       else res_bind (ok_or (channel_balances s scid) (AssetChannelError ''no asset channel for scid'')) (\<lambda>balances.
         case balances of
           [] \<Rightarrow> Ok (original_amt_msat, custom_records)
         | primary # _ \<Rightarrow>
             res_bind (ok_or (quote_for iter s (ab_asset_id primary)) (AssetChannelError ''no quote available for asset'')) (\<lambda>quote.
             res_bind (map_err (\<lambda>_. AssetChannelError ''asset conversion'') (compute_asset_amount original_amt_msat quote)) (\<lambda>asset_amount.
               if asset_amount = 0 then Err (AssetChannelError ''asset rate too high to represent'')
               else Ok (DEFAULT_ON_CHAIN_HTLC_MSAT, to_custom_tlvs
                 \<lparr>hd_balances = [\<lparr>ab_asset_id = ab_asset_id primary, ab_amount = asset_amount\<rparr>], hd_rfq_id = Some (aq_id quote)\<rparr>)))))"

section \<open>Records are read back\<close>

interpretation balance_reader: inline_reader "varint_at e" "inline_bytes_at e1 e2" for e e1 e2
  by unfold_locales (simp_all only: varint_at_read inline_bytes_at_read)

lemma balance_encode_le:
  assumes "length (ab_asset_id b) = 32"
  shows "length (balance_encode b) \<le> 76"
  using tlv_encode_le [of "[tlv_new 0 (ab_asset_id b), tlv_new 1 (u64_be (ab_amount b))]"] assms
  by (simp add: balance_encode_def tlv_push_def tlv_record_defs)

lemma balance_codec:
  assumes "length (ab_asset_id b) = 32"
  shows "balance_decode (balance_encode b) = Ok b"
proof -
  let ?xs = "[(0, Some (ab_asset_id b)), (1, Some (u64_be (ab_amount b)))]"
  have enc: "balance_encode b = tlv_encode (of_slots ?xs)" by (simp add: balance_encode_def tlv_push_def tlv_record_defs)
  have "tlv_decode (balance_encode b) = Ok (of_slots ?xs)"
    unfolding enc by (rule tlv_decode_slots) (use balance_encode_le [OF assms] enc in simp_all)
  then show ?thesis using assms by (cases b) (simp add: balance_decode_def ok_or_def as_u64_def)
qed

lemma encode_items_le:
  assumes "\<forall>bs \<in> set bss. length bs \<le> n"
  shows "length (encode_items bss) \<le> 9 + length bss * (9 + n)"
proof -
  have "length (concat (map (write_inline_var_bytes []) bss)) \<le> length bss * (9 + n)"
    using assms
  proof (induction bss)
    case (Cons bs bss)
    then show ?case using write_inline_le [of "[]" bs] by force
  qed simp
  then show ?thesis
    using bigsize_len_le [of "of_nat (length bss)"] by (simp add: encode_items_def del: bigsize_len_le_9)
qed

definition wf_htlc_data :: "AssetHtlcData \<Rightarrow> bool" where
  "wf_htlc_data d \<longleftrightarrow> length (hd_balances d) \<le> 2048 \<and> (\<forall>b \<in> set (hd_balances d). length (ab_asset_id b) = 32)
     \<and> opt_length 32 (hd_rfq_id d)"

lemma balance_list_codec:
  assumes "length bs \<le> 2048" "\<forall>b \<in> set bs. length (ab_asset_id b) = 32"
  shows "decode_asset_balance_list (encode_asset_balance_list bs) = Ok bs" "length (encode_asset_balance_list bs) \<le> 200000"
proof -
  have "\<forall>x \<in> set (map balance_encode bs). length x \<le> 76" using assms(2) balance_encode_le by auto
  from encode_items_le [OF this] assms(1) show le: "length (encode_asset_balance_list bs) \<le> 200000"
    by (simp add: encode_asset_balance_list_def)
  have "list_all2 (\<lambda>b x. balance_decode x = Ok b) bs (map balance_encode bs)"
    using assms(2) balance_codec by (simp add: list_all2_map2 list_all2_same)
  then show "decode_asset_balance_list (encode_asset_balance_list bs) = Ok bs"
    unfolding decode_asset_balance_list_def encode_asset_balance_list_def
    by (rule balance_reader.decode_items_list)
      (use assms(1) le in \<open>simp_all add: MAX_NUM_BALANCES_def encode_asset_balance_list_def\<close>)
qed

lemma custom_tlvs_codec:
  assumes "wf_htlc_data d"
  shows "from_custom_tlvs (to_custom_tlvs d) = Ok (if hd_balances d = [] \<and> hd_rfq_id d = None then None else Some d)"
  using balance_list_codec(1) [of "hd_balances d"] assms
  by (cases d; cases "hd_rfq_id d")
    (auto simp: wf_htlc_data_def from_custom_tlvs_def to_custom_tlvs_def HTLC_AMOUNT_RECORD_TYPE_def HTLC_RFQ_ID_TYPE_def opt_length_def)

lemma htlc_data_slots:
  assumes "wf_htlc_data d"
  shows "tlv_decode (htlc_data_encode d) = Ok (map (\<lambda>(ty, v). tlv_new ty v) (to_custom_tlvs d))"
proof -
  let ?xs = "[(HTLC_AMOUNT_RECORD_TYPE, if hd_balances d = [] then None else Some (encode_asset_balance_list (hd_balances d))),
    (HTLC_RFQ_ID_TYPE, hd_rfq_id d)]"
  have slots: "of_slots ?xs = map (\<lambda>(ty, v). tlv_new ty v) (to_custom_tlvs d)"
    by (simp add: to_custom_tlvs_def split: option.splits)
  have enc: "htlc_data_encode d = tlv_encode (of_slots ?xs)"
    by (simp add: htlc_data_encode_def to_custom_tlvs_def tlv_push_def split: option.splits)
  have "length (htlc_data_encode d) \<le> 200068"
    using tlv_encode_le [of "of_slots ?xs"] balance_list_codec(2) [of "hd_balances d"] assms
    unfolding enc by (auto simp: wf_htlc_data_def opt_length_def split: option.splits if_splits)
  then have "tlv_decode (htlc_data_encode d) = Ok (of_slots ?xs)"
    unfolding enc by (intro tlv_decode_slots) (simp_all add: HTLC_AMOUNT_RECORD_TYPE_def HTLC_RFQ_ID_TYPE_def)
  then show ?thesis unfolding slots .
qed

text \<open>What the sender of an asset payment attaches, the receiver reads. The custom records of up to 2048 balances and the quote
  identifier give the same data back, both as a list of records and as one blob, and an HTLC without assets is recognised as one: no
  records, and an error for the blob.\<close>

theorem htlc_records_roundtrip:
  assumes "wf_htlc_data d"
  shows "if hd_balances d = [] \<and> hd_rfq_id d = None
    then to_custom_tlvs d = [] \<and> from_custom_tlvs (to_custom_tlvs d) = Ok None
      \<and> htlc_data_decode (htlc_data_encode d) = Err (AssetChannelError ''no asset HTLC records present'')
    else from_custom_tlvs (to_custom_tlvs d) = Ok (Some d) \<and> htlc_data_decode (htlc_data_encode d) = Ok d"
proof -
  have "map (\<lambda>r. (type_num r, tlv_value r)) (map (\<lambda>(ty, v). tlv_new ty v) (to_custom_tlvs d)) = to_custom_tlvs d"
    by (simp add: comp_def case_prod_unfold)
  then have "htlc_data_decode (htlc_data_encode d) = res_bind (from_custom_tlvs (to_custom_tlvs d))
      (\<lambda>d. ok_or d (AssetChannelError ''no asset HTLC records present''))"
    by (simp only: htlc_data_decode_def htlc_data_slots [OF assms] map_err.simps res_bind.simps)
  then show ?thesis
    unfolding custom_tlvs_codec [OF assms] by (auto simp: ok_or_def to_custom_tlvs_def)
qed

theorem htlc_records_roundtrip_witness:
  "htlc_data_decode (htlc_data_encode \<lparr>hd_balances = [\<lparr>ab_asset_id = zeros 32, ab_amount = 7\<rparr>], hd_rfq_id = Some (replicate 32 1)\<rparr>)
    = Ok \<lparr>hd_balances = [\<lparr>ab_asset_id = zeros 32, ab_amount = 7\<rparr>], hd_rfq_id = Some (replicate 32 1)\<rparr>"
  using htlc_records_roundtrip [of "\<lparr>hd_balances = [\<lparr>ab_asset_id = zeros 32, ab_amount = 7\<rparr>], hd_rfq_id = Some (replicate 32 1)\<rparr>"]
  by (simp add: wf_htlc_data_def opt_length_def)

section \<open>What the shaper does\<close>

text \<open>What a shaped payment carries. When the shaper turns a payment without asset records into an asset payment over a
  channel, the HTLC holds the minimal Bitcoin amount and records that the next peer reads as: a non-zero number of units of the first asset of the
  channel, namely the exact conversion of the payment at the rate of a registered quote for that asset, and the identifier of this quote. A channel
  without assets leaves the payment as it is; a payment that already carries units is not changed.\<close>

theorem shaped_htlc_carries_payment:
  assumes "shape_outgoing_htlc iter s scid amt recs = Ok (amt', recs')" "from_custom_tlvs recs = Ok existing"
    and "set (iter (ts_quotes s)) = set (ts_quotes s)"
    and "\<forall>(k, q) \<in> set (ts_quotes s). length (aq_id q) = 32" "\<forall>bs \<in> ran (channel_balances s). \<forall>b \<in> set bs. length (ab_asset_id b) = 32"
  shows "if (\<exists>d. existing = Some d \<and> sum_balances d > 0) \<or> channel_balances s scid = Some [] then amt' = amt \<and> recs' = recs
    else \<exists>primary rest k q units. channel_balances s scid = Some (primary # rest) \<and> (k, q) \<in> set (ts_quotes s)
      \<and> aq_asset_id q = ab_asset_id primary \<and> milli_satoshi_to_units amt (aq_rate q) = Ok units \<and> units \<noteq> 0
      \<and> amt' = DEFAULT_ON_CHAIN_HTLC_MSAT
      \<and> from_custom_tlvs recs' = Ok (Some \<lparr>hd_balances = [\<lparr>ab_asset_id = ab_asset_id primary, ab_amount = units\<rparr>],
          hd_rfq_id = Some (aq_id q)\<rparr>)"
proof (cases "(\<exists>d. existing = Some d \<and> sum_balances d > 0) \<or> channel_balances s scid = Some []")
  case True
  then show ?thesis using assms(1,2) by (auto simp: shape_outgoing_htlc_def ok_or_def split: option.splits if_splits)
next
  case False
  then have "\<not> (case existing of Some d \<Rightarrow> sum_balances d > 0 | None \<Rightarrow> False)" by (auto split: option.splits)
  with assms(1,2) False obtain primary rest q units where chan: "channel_balances s scid = Some (primary # rest)"
    and q: "quote_for iter s (ab_asset_id primary) = Some q" and u: "compute_asset_amount amt q = Ok units" "units \<noteq> 0"
    and out: "amt' = DEFAULT_ON_CHAIN_HTLC_MSAT" "recs' = to_custom_tlvs
        \<lparr>hd_balances = [\<lparr>ab_asset_id = ab_asset_id primary, ab_amount = units\<rparr>], hd_rfq_id = Some (aq_id q)\<rparr>"
    by (auto simp: shape_outgoing_htlc_def ok_or_def res_simps split: option.splits list.splits if_splits)
  from q have "q \<in> snd ` set (iter (ts_quotes s)) \<and> aq_asset_id q = ab_asset_id primary"
    unfolding quote_for_def find_Some_iff by (metis length_map nth_mem set_map)
  then obtain k where k: "(k, q) \<in> set (iter (ts_quotes s))" "aq_asset_id q = ab_asset_id primary" by auto
  then have kq: "(k, q) \<in> set (ts_quotes s)" using assms(3) by blast
  have "length (ab_asset_id primary) = 32" using assms(5) chan by (force simp: ran_def)
  moreover have "length (aq_id q) = 32" using assms(4) kq by auto
  ultimately have "from_custom_tlvs recs' = Ok (Some \<lparr>hd_balances = [\<lparr>ab_asset_id = ab_asset_id primary, ab_amount = units\<rparr>],
      hd_rfq_id = Some (aq_id q)\<rparr>)"
    unfolding out(2) by (subst custom_tlvs_codec) (simp_all add: wf_htlc_data_def opt_length_def)
  with False chan kq k(2) u out(1) show ?thesis unfolding compute_asset_amount_def by auto
qed

text \<open>The shaper does not look at what the channel holds. The units of a channel can be replaced by any others, none included,
  without changing the payment that the shaper makes: a channel is given an HTLC for more units than it has.\<close>

theorem shaping_ignores_channel_units:
  assumes "channel_balances s scid = Some balances" "map ab_asset_id balances' = map ab_asset_id balances"
  shows "shape_outgoing_htlc iter (update_balances scid balances' s) scid amt recs = shape_outgoing_htlc iter s scid amt recs"
proof -
  have "quote_for iter (update_balances scid balances' s) = quote_for iter s"
    "channel_balances (update_balances scid balances' s) scid = Some balances'"
    by (simp_all add: fun_eq_iff quote_for_def update_balances_def)
  with assms show ?thesis
    by (cases "from_custom_tlvs recs"; cases balances; cases balances')
      (auto simp: shape_outgoing_htlc_def ok_or_def cong: if_cong)
qed

definition demo_quote :: AcceptedQuote where
  "demo_quote = \<lparr>aq_id = replicate 32 1, aq_asset_id = zeros 32, aq_rate = fixed_point_new 300 2, aq_expiry = 0,
     aq_peer = zeros 33, aq_is_buy = True, aq_max_amount_msat = 0\<rparr>"

definition demo_shaper :: TrafficShaper where
  "demo_shaper = register_quote demo_quote (register_channel 7 [\<lparr>ab_asset_id = zeros 32, ab_amount = 7\<rparr>] shaper_new)"

lemma demo_shaped:
  "shape_outgoing_htlc (\<lambda>qs. qs) demo_shaper 7 233333333333 [] = Ok (DEFAULT_ON_CHAIN_HTLC_MSAT, to_custom_tlvs
     \<lparr>hd_balances = [\<lparr>ab_asset_id = zeros 32, ab_amount = 6\<rparr>], hd_rfq_id = Some (replicate 32 1)\<rparr>)"
  using sample_conversions(2)
  by (simp add: shape_outgoing_htlc_def from_custom_tlvs_def demo_shaper_def demo_quote_def register_quote_def register_channel_def
      shaper_new_def quote_for_def ok_or_def compute_asset_amount_def)

theorem shaped_htlc_carries_payment_witness:
  "\<exists>recs. shape_outgoing_htlc (\<lambda>qs. qs) demo_shaper 7 233333333333 [] = Ok (DEFAULT_ON_CHAIN_HTLC_MSAT, recs)
    \<and> (\<exists>units. milli_satoshi_to_units 233333333333 (fixed_point_new 300 2) = Ok units \<and> units \<noteq> 0
      \<and> from_custom_tlvs recs = Ok (Some \<lparr>hd_balances = [\<lparr>ab_asset_id = zeros 32, ab_amount = units\<rparr>], hd_rfq_id = Some (replicate 32 1)\<rparr>))"
proof -
  have s: "channel_balances demo_shaper 7 = Some [\<lparr>ab_asset_id = zeros 32, ab_amount = 7\<rparr>]" "ts_quotes demo_shaper = [(replicate 32 1, demo_quote)]"
    "ran (channel_balances demo_shaper) = {[\<lparr>ab_asset_id = zeros 32, ab_amount = 7\<rparr>]}"
    by (simp_all add: demo_shaper_def register_quote_def register_channel_def shaper_new_def demo_quote_def)
  show ?thesis
    using shaped_htlc_carries_payment [OF demo_shaped, of None] demo_shaped
    by (auto simp: s from_custom_tlvs_def demo_quote_def)
qed

theorem shaping_ignores_channel_units_witness:
  "shape_outgoing_htlc (\<lambda>qs. qs) (update_balances 7 [\<lparr>ab_asset_id = zeros 32, ab_amount = 0\<rparr>] demo_shaper) 7 233333333333 []
    = Ok (DEFAULT_ON_CHAIN_HTLC_MSAT, to_custom_tlvs
        \<lparr>hd_balances = [\<lparr>ab_asset_id = zeros 32, ab_amount = 6\<rparr>], hd_rfq_id = Some (replicate 32 1)\<rparr>)"
  unfolding demo_shaped [symmetric]
  by (rule shaping_ignores_channel_units [where balances = "[\<lparr>ab_asset_id = zeros 32, ab_amount = 7\<rparr>]"])
    (simp_all add: demo_shaper_def register_quote_def register_channel_def shaper_new_def)

text \<open>The documentation says the best quote of an asset is used; it is whichever the hash map yields first, expired or not.\<close>

lemma bandwidth_depends_on_order:
  "payment_bandwidth (\<lambda>qs. qs) (register_quote (demo_quote\<lparr>aq_id := replicate 32 2, aq_rate := fixed_point_new 0 0\<rparr>) demo_shaper) 7
     \<noteq> payment_bandwidth rev (register_quote (demo_quote\<lparr>aq_id := replicate 32 2, aq_rate := fixed_point_new 0 0\<rparr>) demo_shaper) 7"
proof -
  have "units_to_milli_satoshi 7 (fixed_point_new 0 0) = Err DivisionByZero" by (simp add: units_to_milli_satoshi_def fixed_point_new_def)
  then show ?thesis
    using sample_conversions(1)
    by (simp add: payment_bandwidth_def demo_shaper_def demo_quote_def register_quote_def register_channel_def
        shaper_new_def quote_for_def ok_or_def)
qed

end
