(* ===== verification/Channel_Manager.thy ===== *)
theory Channel_Manager
  imports Routing
begin

text \<open>
  The manager of asset channels around LDK: \<^verbatim>\<open>tap-ldk/src/ldk/mod.rs\<close>. It dispatches messages to the quote manager, decides about
  intercepted HTLCs and shapes payments. The two operations of LDK are functions that give their result; the state keeps the
  list of the calls made to them.
\<close>

section \<open>State\<close>

record LdkOps =
  ldk_forward :: "bytes \<Rightarrow> u64 \<Rightarrow> bytes \<Rightarrow> u64 \<Rightarrow> (unit, string) result"
  ldk_fail :: "bytes \<Rightarrow> (unit, string) result"

datatype LdkCall = Forward bytes u64 bytes u64 | FailBack bytes

record AssetChannelState =
  cs_channel_blob :: ChannelBlob
  cs_commitment_blob :: "CommitmentBlob option"
  cs_scid :: "u64 option"

record ChannelManager =
  cm_config :: TapConfig
  cm_rfq :: QuoteManager
  cm_channels :: "bytes \<rightharpoonup> AssetChannelState"
  scid_to_channel :: "u64 \<rightharpoonup> bytes"
  cm_calls :: "LdkCall list"

definition with_config :: "PriceOracle \<Rightarrow> TapConfig \<Rightarrow> ChannelManager" where
  "with_config orc config = \<lparr>cm_config = config, cm_rfq = manager_new orc, cm_channels = Map.empty,
     scid_to_channel = Map.empty, cm_calls = []\<rparr>"

definition cm_new :: "PriceOracle \<Rightarrow> ChannelManager" where
  "cm_new orc = with_config orc tap_config_default"

section \<open>Channels\<close>

definition register_asset_channel :: "bytes \<Rightarrow> ChannelBlob \<Rightarrow> ChannelManager \<Rightarrow> ChannelManager" where
  "register_asset_channel channel_id blob s = s\<lparr>cm_channels := (cm_channels s)(channel_id \<mapsto>
     \<lparr>cs_channel_blob = blob, cs_commitment_blob = None, cs_scid = None\<rparr>)\<rparr>"

definition update_commitment_blob ::
  "bytes \<Rightarrow> CommitmentBlob \<Rightarrow> ChannelManager \<Rightarrow> (unit, AssetChannelError) result \<times> ChannelManager" where
  "update_commitment_blob channel_id blob s =
     (case cm_channels s channel_id of
        None \<Rightarrow> (Err (AssetChannelError ''unknown asset channel''), s)
      | Some st \<Rightarrow> (Ok (), s\<lparr>cm_channels := (cm_channels s)(channel_id \<mapsto> st\<lparr>cs_commitment_blob := Some blob\<rparr>)\<rparr>))"

definition cm_is_asset_channel :: "ChannelManager \<Rightarrow> u64 \<Rightarrow> bool" where
  "cm_is_asset_channel s scid \<longleftrightarrow> scid_to_channel s scid \<noteq> None"

definition set_channel_scid :: "bytes \<Rightarrow> u64 \<Rightarrow> ChannelManager \<Rightarrow> ChannelManager" where
  "set_channel_scid channel_id scid s =
     (case cm_channels s channel_id of
        None \<Rightarrow> s
      | Some st \<Rightarrow> s\<lparr>cm_channels := (cm_channels s)(channel_id \<mapsto> st\<lparr>cs_scid := Some scid\<rparr>),
          scid_to_channel := (scid_to_channel s)(scid \<mapsto> channel_id)\<rparr>)"

definition channel_state_by_scid :: "ChannelManager \<Rightarrow> u64 \<Rightarrow> AssetChannelState option" where
  "channel_state_by_scid s scid = Option.bind (scid_to_channel s scid) (cm_channels s)"

section \<open>Quotes and messages\<close>

definition request_buy_quote ::
  "RfqId list \<Rightarrow> AssetIdBytes \<Rightarrow> u64 \<Rightarrow> peer_key \<Rightarrow> u64 \<Rightarrow> ChannelManager \<Rightarrow> (TapMessage \<times> ChannelManager) option" where
  "request_buy_quote draws aid max_amount peer now s =
     map_option (\<lambda>(r, m). (BuyRequest r, s\<lparr>cm_rfq := m\<rparr>)) (create_buy_request draws aid max_amount peer now (cm_rfq s))"

definition request_sell_quote ::
  "RfqId list \<Rightarrow> AssetIdBytes \<Rightarrow> u64 \<Rightarrow> peer_key \<Rightarrow> u64 \<Rightarrow> ChannelManager \<Rightarrow> (TapMessage \<times> ChannelManager) option" where
  "request_sell_quote draws aid max_msat peer now s =
     map_option (\<lambda>(r, m). (SellRequest r, s\<lparr>cm_rfq := m\<rparr>)) (create_sell_request draws aid max_msat peer now (cm_rfq s))"

fun handle_tap_message ::
  "peer_key \<Rightarrow> TapMessage \<Rightarrow> u64 \<Rightarrow> ChannelManager \<Rightarrow> (TapMessage option, unit) result \<times> ChannelManager" where
  "handle_tap_message peer (BuyRequest req) now s =
     (let (r, m) = handle_buy_request req peer now (rfq_quote_lifetime_secs (cm_config s)) (cm_rfq s) in
      (case r of Ok accept \<Rightarrow> Ok (Some (BuyAccept accept)) | Err reject \<Rightarrow> Ok (Some (BuyReject reject)) | Panic \<Rightarrow> Panic,
       s\<lparr>cm_rfq := m\<rparr>))"
| "handle_tap_message peer (SellRequest req) now s =
     (let (r, m) = handle_sell_request req peer now (rfq_quote_lifetime_secs (cm_config s)) (cm_rfq s) in
      (case r of Ok accept \<Rightarrow> Ok (Some (SellAccept accept)) | Err reject \<Rightarrow> Ok (Some (SellReject reject)) | Panic \<Rightarrow> Panic,
       s\<lparr>cm_rfq := m\<rparr>))"
| "handle_tap_message peer (BuyAccept accept) now s = (Ok None, s\<lparr>cm_rfq := snd (handle_buy_accept accept peer now (cm_rfq s))\<rparr>)"
| "handle_tap_message peer (SellAccept accept) now s = (Ok None, s\<lparr>cm_rfq := snd (handle_sell_accept accept peer now (cm_rfq s))\<rparr>)"
| "handle_tap_message peer (BuyReject reject) now s = (Ok None, s\<lparr>cm_rfq := snd (handle_reject reject peer (cm_rfq s))\<rparr>)"
| "handle_tap_message peer (SellReject reject) now s = (Ok None, s\<lparr>cm_rfq := snd (handle_reject reject peer (cm_rfq s))\<rparr>)"
| "handle_tap_message peer _ now s = (Ok None, s)"

definition valid_quote :: "ChannelManager \<Rightarrow> RfqId \<Rightarrow> u64 \<Rightarrow> (AcceptedQuote, RfqError) result" where
  "valid_quote s i now =
     res_bind (ok_or (get_quote (cm_rfq s) i) (QuoteNotFound i)) (\<lambda>quote.
       if \<not> quote_is_valid quote now then Err (QuoteExpired i (aq_expiry quote) now) else Ok quote)"

section \<open>Intercepted HTLCs\<close>

text \<open>The HTLC is failed back; the error is that of LDK or the given one.\<close>

definition fail_back :: "LdkOps \<Rightarrow> bytes \<Rightarrow> string \<Rightarrow> ChannelManager \<Rightarrow> (unit, string) result \<times> ChannelManager" where
  "fail_back ldk intercept_id msg s =
     (res_bind (ldk_fail ldk intercept_id) (\<lambda>_. Err msg), s\<lparr>cm_calls := cm_calls s @ [FailBack intercept_id]\<rparr>)"

definition htlc_value_msat :: "AssetHtlcData \<Rightarrow> AcceptedQuote \<Rightarrow> (u64, FixedPointError) result" where
  "htlc_value_msat asset_data quote =
     (if sum_balances asset_data = 0 then Ok 0 else units_to_milli_satoshi (sum_balances asset_data) (aq_rate quote))"

definition forward_asset_htlc ::
  "LdkOps \<Rightarrow> bytes \<Rightarrow> u64 \<Rightarrow> bytes \<Rightarrow> RfqId \<Rightarrow> u64 \<Rightarrow> ChannelManager \<Rightarrow> (unit, string) result \<times> ChannelManager" where
  "forward_asset_htlc ldk intercept_id next_hop_scid next_node_id rfq_id value_msat s =
     (let adjusted_amt = max value_msat DEFAULT_ON_CHAIN_HTLC_MSAT in
      case check_htlc_amount (cm_rfq s) rfq_id value_msat of
        Err _ \<Rightarrow> fail_back ldk intercept_id ''asset HTLC exceeds quote max amount'' s
      | Panic \<Rightarrow> (Panic, s)
      | Ok _ \<Rightarrow>
          (let m = track_accepted_htlc rfq_id intercept_id value_msat (cm_rfq s);
               r = ldk_forward ldk intercept_id next_hop_scid next_node_id adjusted_amt;
               s = s\<lparr>cm_calls := cm_calls s @ [Forward intercept_id next_hop_scid next_node_id adjusted_amt]\<rparr>
           in (r, s\<lparr>cm_rfq := (case r of Err _ \<Rightarrow> untrack_htlc intercept_id m | _ \<Rightarrow> m)\<rparr>)))"

definition handle_intercepted_htlc ::
  "LdkOps \<Rightarrow> bytes \<Rightarrow> u64 \<Rightarrow> bytes \<Rightarrow> u64 \<Rightarrow> (u64 \<times> bytes) list \<Rightarrow> u64 \<Rightarrow> ChannelManager
    \<Rightarrow> (unit, string) result \<times> ChannelManager" where
  "handle_intercepted_htlc ldk intercept_id next_hop_scid next_node_id amt_msat custom_records now s =
     (case from_custom_tlvs custom_records of
        Ok None \<Rightarrow>
          (ldk_forward ldk intercept_id next_hop_scid next_node_id amt_msat,
           s\<lparr>cm_calls := cm_calls s @ [Forward intercept_id next_hop_scid next_node_id amt_msat]\<rparr>)
      | Ok (Some asset_data) \<Rightarrow>
          (case hd_rfq_id asset_data of
             None \<Rightarrow> fail_back ldk intercept_id ''asset HTLC missing RFQ ID'' s
           | Some rfq_id \<Rightarrow>
               (case valid_quote s rfq_id now of
                  Ok quote \<Rightarrow>
                    (case htlc_value_msat asset_data quote of
                       Ok value_msat \<Rightarrow> forward_asset_htlc ldk intercept_id next_hop_scid next_node_id rfq_id value_msat s
                     | Err _ \<Rightarrow> fail_back ldk intercept_id ''asset HTLC amount conversion failed'' s
                     | Panic \<Rightarrow> (Panic, s))
                | Err _ \<Rightarrow> fail_back ldk intercept_id ''asset HTLC quote invalid'' s
                | Panic \<Rightarrow> (Panic, s)))
      | _ \<Rightarrow> (Panic, s))"

definition handle_htlc_resolved :: "bytes \<Rightarrow> ChannelManager \<Rightarrow> ChannelManager" where
  "handle_htlc_resolved intercept_id s = s\<lparr>cm_rfq := untrack_htlc intercept_id (cm_rfq s)\<rparr>"

definition prune_expired_quotes :: "u64 \<Rightarrow> ChannelManager \<Rightarrow> ChannelManager" where
  "prune_expired_quotes now s = s\<lparr>cm_rfq := prune_expired now (cm_rfq s)\<rparr>"

section \<open>Shaping payments\<close>

text \<open>The first quote for an asset among two maps of quotes, each in its iteration order.\<close>

definition first_quote ::
  "quote_order \<Rightarrow> (RfqId \<times> AcceptedQuote) list \<Rightarrow> (RfqId \<times> AcceptedQuote) list \<Rightarrow> AssetId \<Rightarrow> AcceptedQuote option" where
  "first_quote iter qs qs' aid = List.find (\<lambda>q. aq_asset_id q = aid) (map snd (iter qs) @ map snd (iter qs'))"

fun cm_bandwidth_loop :: "quote_order \<Rightarrow> QuoteManager \<Rightarrow> AssetOutput list \<Rightarrow> u64 \<Rightarrow> (u64, AssetChannelError) result" where
  "cm_bandwidth_loop iter m [] total_msat = Ok total_msat"
| "cm_bandwidth_loop iter m (out # outs) total_msat =
     (case first_quote iter (buy_quotes m) (sell_quotes m) (ao_asset_id out) of
        Some quote \<Rightarrow>
          res_bind (map_err (\<lambda>_. AssetChannelError ''bandwidth'') (units_to_milli_satoshi (ao_amount out) (aq_rate quote)))
            (\<lambda>msat. cm_bandwidth_loop iter m outs (saturating_add total_msat msat))
      | None \<Rightarrow> cm_bandwidth_loop iter m outs total_msat)"

definition cm_payment_bandwidth :: "quote_order \<Rightarrow> ChannelManager \<Rightarrow> u64 \<Rightarrow> (u64, AssetChannelError) result" where
  "cm_payment_bandwidth iter s scid =
     res_bind (ok_or (channel_state_by_scid s scid) (AssetChannelError ''no asset channel for scid'')) (\<lambda>st.
       case cs_commitment_blob st of
         None \<Rightarrow> Ok 0
       | Some commitment \<Rightarrow> cm_bandwidth_loop iter (cm_rfq s) (local_assets commitment) 0)"

definition cm_shape_outgoing_htlc ::
  "quote_order \<Rightarrow> ChannelManager \<Rightarrow> u64 \<Rightarrow> u64 \<Rightarrow> (u64 \<times> bytes) list \<Rightarrow> (u64 \<times> (u64 \<times> bytes) list, AssetChannelError) result" where
  "cm_shape_outgoing_htlc iter s scid original_amt_msat custom_records =
     res_bind (from_custom_tlvs custom_records) (\<lambda>existing.
       if (case existing of Some d \<Rightarrow> sum_balances d > 0 | None \<Rightarrow> False) then Ok (original_amt_msat, custom_records)
       else res_bind (ok_or (channel_state_by_scid s scid) (AssetChannelError ''no asset channel for scid'')) (\<lambda>st.
         case funded_assets (cs_channel_blob st) of
           [] \<Rightarrow> Err (AssetChannelError ''channel has no funded assets'')
         | f # _ \<Rightarrow>
             res_bind (ok_or (first_quote iter (sell_quotes (cm_rfq s)) (buy_quotes (cm_rfq s)) (ao_asset_id f))
               (AssetChannelError ''no quote available for asset'')) (\<lambda>quote.
             res_bind (map_err (\<lambda>_. AssetChannelError ''conversion'') (milli_satoshi_to_units original_amt_msat (aq_rate quote))) (\<lambda>asset_amount.
               if asset_amount = 0 then Err (AssetChannelError ''asset rate too high to represent'')
               else Ok (DEFAULT_ON_CHAIN_HTLC_MSAT, to_custom_tlvs
                 \<lparr>hd_balances = [\<lparr>ab_asset_id = ao_asset_id f, ab_amount = asset_amount\<rparr>], hd_rfq_id = Some (aq_id quote)\<rparr>)))))"

section \<open>What is forwarded\<close>

lemma tracked_of_track: "map_of (tracked_htlcs (track_accepted_htlc q h amt m)) h = Some (q, amt)"
  by (simp add: track_accepted_htlc_def Let_def update_conv')

lemma tracked_of_untrack: "map_of (tracked_htlcs (untrack_htlc h m)) h = None"
  by (simp add: untrack_tracked delete_conv')

lemma valid_quote_Ok: "valid_quote s i now = Ok quote \<longleftrightarrow> get_quote (cm_rfq s) i = Some quote \<and> now < aq_expiry quote"
  by (auto simp: valid_quote_def quote_is_valid_def ok_or_def split: option.splits)

lemma valid_quote_no_panic: "valid_quote s i now \<noteq> Panic"
  by (simp add: valid_quote_def ok_or_def split: option.splits)

lemma htlc_value_no_panic: "htlc_value_msat d quote \<noteq> Panic"
  by (auto simp: htlc_value_msat_def units_to_milli_satoshi_def pow10_def mul_u128_def to_u64_def Let_def res_simps
      split: if_splits)

lemma check_htlc_no_panic: "check_htlc_amount m i amt \<noteq> Panic"
  by (simp add: check_htlc_amount_def ok_or_def Let_def split: option.splits)

text \<open>The answer to an intercepted HTLC: a forward under a quote, or a failure.\<close>

definition answers_htlc ::
  "bytes \<Rightarrow> u64 \<Rightarrow> bytes \<Rightarrow> u64 \<Rightarrow> AssetHtlcData option \<Rightarrow> u64 \<Rightarrow> ChannelManager \<Rightarrow> (unit, string) result \<Rightarrow> ChannelManager
    \<Rightarrow> LdkCall \<Rightarrow> bool" where
  "answers_htlc hid scid node amt data now s res s' c \<longleftrightarrow>
     (case c of
        FailBack i \<Rightarrow> i = hid \<and> res \<noteq> Ok () \<and> data \<noteq> None \<and> cm_rfq s' = cm_rfq s
      | Forward i hop n fwd \<Rightarrow> i = hid \<and> hop = scid \<and> n = node \<and>
          (case data of
             None \<Rightarrow> fwd = amt \<and> cm_rfq s' = cm_rfq s
           | Some d \<Rightarrow> \<exists>q quote v. hd_rfq_id d = Some q \<and> get_quote (cm_rfq s) q = Some quote \<and> now < aq_expiry quote
               \<and> htlc_value_msat d quote = Ok v \<and> fwd = max v DEFAULT_ON_CHAIN_HTLC_MSAT
               \<and> (if \<exists>e. res = Err e then map_of (tracked_htlcs (cm_rfq s')) hid = None
                  else map_of (tracked_htlcs (cm_rfq s')) hid = Some (q, v)
                    \<and> tracked_total (cm_rfq s') q \<le> unat (aq_max_amount_msat quote))))"

lemma fail_back_answers:
  assumes "fail_back ldk hid msg s = (res, s')"
  shows "cm_calls s' = cm_calls s @ [FailBack hid]" "cm_rfq s' = cm_rfq s" "res \<noteq> Ok ()"
  using assms by (auto simp: fail_back_def res_simps)

lemma forward_answers:
  assumes "forward_asset_htlc ldk hid scid node q v s = (res, s')" "wf_manager (cm_rfq s)"
    and "get_quote (cm_rfq s) q = Some quote" "aq_max_amount_msat quote < - 1" "now < aq_expiry quote"
    and "hd_rfq_id d = Some q" "htlc_value_msat d quote = Ok v"
  shows "wf_manager (cm_rfq s') \<and> (\<exists>c. cm_calls s' = cm_calls s @ [c] \<and> answers_htlc hid scid node amt (Some d) now s res s' c)"
proof (cases "check_htlc_amount (cm_rfq s) q v")
  case (Ok u)
  then have ok: "check_htlc_amount (cm_rfq s) q v = Ok ()" by simp
  note track = tracked_within_cap [OF assms(2-4) ok, of hid]
  let ?m = "track_accepted_htlc q hid v (cm_rfq s)" and ?fwd = "max v DEFAULT_ON_CHAIN_HTLC_MSAT"
  have s': "cm_calls s' = cm_calls s @ [Forward hid scid node ?fwd]" "cm_rfq s' = (case res of Err _ \<Rightarrow> untrack_htlc hid ?m | _ \<Rightarrow> ?m)"
    using assms(1) ok by (auto simp: forward_asset_htlc_def Let_def)
  have "wf_manager (cm_rfq s')" using s'(2) track(1) wf_untrack by (auto split: result.splits)
  moreover have "answers_htlc hid scid node amt (Some d) now s res s' (Forward hid scid node ?fwd)"
    using assms(3,5-7) s'(2) track(2) tracked_of_track tracked_of_untrack
    by (cases res) (auto simp: answers_htlc_def)
  ultimately show ?thesis using s'(1) by blast
next
  case (Err e)
  then have "fail_back ldk hid ''asset HTLC exceeds quote max amount'' s = (res, s')"
    using assms(1) by (simp add: forward_asset_htlc_def Let_def)
  from fail_back_answers [OF this] assms(2) show ?thesis by (auto simp: answers_htlc_def)
qed (simp add: check_htlc_no_panic)

section \<open>Concrete HTLCs\<close>

definition demo_ldk :: LdkOps where
  "demo_ldk = \<lparr>ldk_forward = (\<lambda>_ _ _ _. Ok ()), ldk_fail = (\<lambda>_. Ok ())\<rparr>"

definition demo_cm :: ChannelManager where
  "demo_cm = (cm_new demo_oracle)\<lparr>cm_rfq := (manager_new demo_oracle)\<lparr>buy_quotes := [(zeros 32,
     \<lparr>aq_id = zeros 32, aq_asset_id = zeros 32, aq_rate = fixed_point_new 1000000000 0, aq_expiry = 600, aq_peer = [7],
       aq_is_buy = True, aq_max_amount_msat = 5000\<rparr>)]\<rparr>\<rparr>"

definition demo_htlc :: "AssetId \<Rightarrow> AssetHtlcData" where
  "demo_htlc aid = \<lparr>hd_balances = [\<lparr>ab_asset_id = aid, ab_amount = 40\<rparr>], hd_rfq_id = Some (zeros 32)\<rparr>"

lemma demo_cm_facts:
  "wf_manager (cm_rfq demo_cm)" "cm_calls demo_cm = []"
  "get_quote (cm_rfq demo_cm) q = (if q = zeros 32 then Some \<lparr>aq_id = zeros 32, aq_asset_id = zeros 32,
     aq_rate = fixed_point_new 1000000000 0, aq_expiry = 600, aq_peer = [7], aq_is_buy = True, aq_max_amount_msat = 5000\<rparr> else None)"
  "check_htlc_amount (cm_rfq demo_cm) (zeros 32) 4000 = Ok ()"
  by (simp_all add: demo_cm_def cm_new_def with_config_def manager_new_def get_quote_def wf_manager_def tracked_total_def
      quote_used_msat_def check_htlc_amount_def saturating_add_def checked_add_def)

lemma demo_htlc_facts:
  "length aid = 32 \<Longrightarrow> wf_htlc_data (demo_htlc aid)" "htlc_value_msat (demo_htlc aid) \<lparr>aq_id = zeros 32, aq_asset_id = zeros 32,
     aq_rate = fixed_point_new 1000000000 0, aq_expiry = 600, aq_peer = [7], aq_is_buy = True, aq_max_amount_msat = 5000\<rparr> = Ok 4000"
proof -
  have p: "pow10 11 = Ok 100000000000" "pow10 0 = Ok 1" by (simp_all add: pow10_Ok_iff)
  have m: "mul_u128 40 100000000000 = Ok 4000000000000" "mul_u128 1000000000 100000000000 = Ok 100000000000000000000"
    "mul_u128 4000000000000 100000000000 = Ok 400000000000000000000000" "mul_u128 4000 100000000000 = Ok 400000000000000"
    by (simp_all add: mul_u128_Ok_iff)
  have d: "(400000000000000000000000 :: u128) div 100000000000000000000 = 4000" "(400000000000000 :: u128) div 100000000000 = 4000"
    by (simp_all add: word_unat_eq_iff unat_div_word)
  have c: "to_u64 4000 = Ok 4000" by (simp add: to_u64_Ok_iff)
  show "htlc_value_msat (demo_htlc aid) \<lparr>aq_id = zeros 32, aq_asset_id = zeros 32,
     aq_rate = fixed_point_new 1000000000 0, aq_expiry = 600, aq_peer = [7], aq_is_buy = True, aq_max_amount_msat = 5000\<rparr> = Ok 4000"
    by (simp add: demo_htlc_def htlc_value_msat_def sum_balances_def units_to_milli_satoshi_def fixed_point_new_def
        DEFAULT_ARITHMETIC_SCALE_def MSAT_PER_BTC_def max_def p m d c)
qed (simp add: demo_htlc_def wf_htlc_data_def opt_length_def)

lemma demo_htlc_rfq: "hd_rfq_id (demo_htlc aid) = Some (zeros 32)"
  by (simp add: demo_htlc_def)

lemma demo_valid_quote: "valid_quote demo_cm (zeros 32) 10 = Ok \<lparr>aq_id = zeros 32, aq_asset_id = zeros 32,
   aq_rate = fixed_point_new 1000000000 0, aq_expiry = 600, aq_peer = [7], aq_is_buy = True, aq_max_amount_msat = 5000\<rparr>"
  by (simp add: valid_quote_Ok demo_cm_facts(3))

section \<open>Properties\<close>

text \<open>C11: an intercepted HTLC is answered exactly once and never beyond its quote. Whatever the records of the HTLC, exactly one call to LDK
  is made for it. An HTLC without asset records is forwarded unchanged. An asset HTLC is forwarded only if it names a quote that the manager knows and that
  has not expired, with the value of its units at the rate of the quote, raised to the on-chain minimum; its value is then held against the quote until
  it is resolved, all HTLCs held against the quote together within its negotiated maximum, and if LDK refuses the forward nothing is held for it.
  In every other case the HTLC is failed back, an error is returned, and the accounting is untouched. The exact accounting of the quote manager is
  kept throughout. (Assumed: quotes have a maximum below the largest 64-bit number.)\<close>

theorem intercepted_htlc_within_quote:
  assumes "handle_intercepted_htlc ldk hid scid node amt recs now s = (res, s')" "from_custom_tlvs recs = Ok data"
    and "wf_manager (cm_rfq s)" "\<forall>q quote. get_quote (cm_rfq s) q = Some quote \<longrightarrow> aq_max_amount_msat quote < - 1"
  shows "wf_manager (cm_rfq s') \<and> (\<exists>c. cm_calls s' = cm_calls s @ [c] \<and> answers_htlc hid scid node amt data now s res s' c)"
proof -
  have failed: "wf_manager (cm_rfq s') \<and> (\<exists>c. cm_calls s' = cm_calls s @ [c] \<and> answers_htlc hid scid node amt data now s res s' c)"
    if "fail_back ldk hid msg s = (res, s')" "data \<noteq> None" for msg
    using fail_back_answers [OF that(1)] that(2) assms(3) by (auto simp: answers_htlc_def)
  show ?thesis
  proof (cases data)
    case None
    with assms show ?thesis by (auto simp: handle_intercepted_htlc_def answers_htlc_def)
  next
    case d: (Some d)
    show ?thesis
    proof (cases "hd_rfq_id d")
      case None
      with assms(1,2) d failed show ?thesis by (simp add: handle_intercepted_htlc_def)
    next
      case q: (Some q)
      show ?thesis
      proof (cases "valid_quote s q now")
        case (Ok quote)
        then have quote: "get_quote (cm_rfq s) q = Some quote" "now < aq_expiry quote" by (simp_all add: valid_quote_Ok)
        show ?thesis
        proof (cases "htlc_value_msat d quote")
          case v: (Ok v)
          then have "forward_asset_htlc ldk hid scid node q v s = (res, s')"
            using assms(1,2) d q Ok by (simp add: handle_intercepted_htlc_def)
          from forward_answers [OF this assms(3) quote(1) _ quote(2) q v] assms(4) quote(1) d show ?thesis by simp
        next
          case (Err e)
          with assms(1,2) d q Ok failed show ?thesis by (simp add: handle_intercepted_htlc_def)
        qed (simp add: htlc_value_no_panic)
      next
        case (Err e)
        with assms(1,2) d q failed show ?thesis by (simp add: handle_intercepted_htlc_def)
      qed (simp add: valid_quote_no_panic)
    qed
  qed
qed

theorem intercepted_htlc_within_quote_witness:
  "\<exists>s'. handle_intercepted_htlc demo_ldk (zeros 32) 5 [2] 9 (to_custom_tlvs (demo_htlc (zeros 32))) 10 demo_cm = (Ok (), s')
    \<and> wf_manager (cm_rfq s') \<and> cm_calls s' = [Forward (zeros 32) 5 [2] 354000]
    \<and> map_of (tracked_htlcs (cm_rfq s')) (zeros 32) = Some (zeros 32, 4000) \<and> tracked_total (cm_rfq s') (zeros 32) \<le> 5000"
proof -
  have ok: "from_custom_tlvs (to_custom_tlvs (demo_htlc (zeros 32))) = Ok (Some (demo_htlc (zeros 32)))"
    using custom_tlvs_codec [OF demo_htlc_facts(1), of "zeros 32"] by (simp add: demo_htlc_def)
  obtain res s' where step: "handle_intercepted_htlc demo_ldk (zeros 32) 5 [2] 9 (to_custom_tlvs (demo_htlc (zeros 32))) 10 demo_cm = (res, s')"
    by fastforce
  then have "res = Ok ()" by (auto simp: handle_intercepted_htlc_def ok demo_htlc_rfq demo_valid_quote demo_htlc_facts(2) forward_asset_htlc_def
        demo_cm_facts demo_ldk_def Let_def)
  have "\<forall>q quote. get_quote (cm_rfq demo_cm) q = Some quote \<longrightarrow> aq_max_amount_msat quote < - 1" by (simp add: demo_cm_facts)
  from intercepted_htlc_within_quote [OF step ok demo_cm_facts(1) this] obtain c where c: "wf_manager (cm_rfq s')" "cm_calls s' = [c]"
    "answers_htlc (zeros 32) 5 [2] 9 (Some (demo_htlc (zeros 32))) 10 demo_cm res s' c" by (auto simp: demo_cm_facts)
  then show ?thesis using step \<open>res = Ok ()\<close>
    by (cases c) (auto simp: answers_htlc_def demo_cm_facts demo_htlc_rfq demo_htlc_facts(2) DEFAULT_ON_CHAIN_HTLC_MSAT_def max_def)
qed

text \<open>C37: an intercepted HTLC is valued at the rate of its quote whatever asset it carries. Replace the asset IDs of its
  balances by any others: the manager takes the same decision, forwards the same amount and holds the same value against the same quote. The asset
  of the quote, its direction and its peer are not compared with the HTLC.\<close>

theorem htlc_asset_unchecked:
  assumes "wf_htlc_data d" "wf_htlc_data d'" "hd_rfq_id d = hd_rfq_id d'" "map ab_amount (hd_balances d) = map ab_amount (hd_balances d')"
  shows "handle_intercepted_htlc ldk hid scid node amt (to_custom_tlvs d) now s
    = handle_intercepted_htlc ldk hid scid node amt (to_custom_tlvs d') now s"
proof -
  have "sum_balances d = sum_balances d'" using assms(4) by (simp add: sum_balances_def)
  then have val_eq: "htlc_value_msat d = htlc_value_msat d'" by (simp add: fun_eq_iff htlc_value_msat_def)
  have nil: "hd_balances d = [] \<longleftrightarrow> hd_balances d' = []" using assms(4) by (metis Nil_is_map_conv)
  show ?thesis
    unfolding handle_intercepted_htlc_def custom_tlvs_codec [OF assms(1)] custom_tlvs_codec [OF assms(2)] nil assms(3)
    by (simp add: assms(3) fun_cong [OF val_eq] split: option.split result.split)
qed

theorem htlc_asset_unchecked_witness:
  "handle_intercepted_htlc demo_ldk (zeros 32) 5 [2] 9 (to_custom_tlvs (demo_htlc (replicate 32 1))) 10 demo_cm
    = handle_intercepted_htlc demo_ldk (zeros 32) 5 [2] 9 (to_custom_tlvs (demo_htlc (zeros 32))) 10 demo_cm"
  by (rule htlc_asset_unchecked [OF demo_htlc_facts(1) demo_htlc_facts(1)]) (simp_all add: demo_htlc_def)

end
