(* ===== verification/Supply.thy ===== *)
theory Supply
  imports Proof_Properties Mssmt_Compacted_Refine
begin

text \<open>
  Supply commitments of asset groups: \<^verbatim>\<open>tap-universe/src/ignore.rs\<close>, \<^verbatim>\<open>supply/events.rs\<close>, \<^verbatim>\<open>supply/mod.rs\<close> and
  \<^verbatim>\<open>supply/verifier.rs\<close>. Mints, burns and ignored outputs are leaves of three compacted trees, whose roots are the
  leaves of the root supply tree; the hash of its root is committed to in a Bitcoin output. The stores behind the verifier (delegation keys,
  verified commitments and the local trees) are records of functions.
\<close>

section \<open>Ignore tuples\<close>

datatype IgnoreError = IgnoreDecode string | IgnoreInvalidSignature string | IgnoreSigning string

definition IGNORE_TUPLE_TYPE :: u64 where "IGNORE_TUPLE_TYPE = 0"
definition IGNORE_SIGNATURE_TYPE :: u64 where "IGNORE_SIGNATURE_TYPE = 2"
definition IGNORE_TUPLE_RECORD_SIZE :: nat where "IGNORE_TUPLE_RECORD_SIZE = 36 + 32 + 33 + 8 + 4"

record IgnoreTuple =
  it_prev_id :: PrevId
  it_amount :: u64
  it_block_height :: u32

definition encode_record_value :: "IgnoreTuple \<Rightarrow> bytes" where
  "encode_record_value t =
     op_txid (prev_out_point (it_prev_id t)) @ u32_be (op_vout (prev_out_point (it_prev_id t))) @ prev_asset_id (it_prev_id t)
     @ prev_script_key (it_prev_id t) @ u64_be (it_amount t) @ u32_be (it_block_height t)"

definition decode_record_value :: "(bytes \<Rightarrow> bool) \<Rightarrow> bytes \<Rightarrow> (IgnoreTuple, IgnoreError) result" where
  "decode_record_value on_curve v =
     (if length v \<noteq> IGNORE_TUPLE_RECORD_SIZE then Err (IgnoreDecode ''invalid ignore tuple record size'')
      else
        let key = take 33 (drop 68 v) in
        if \<not> on_curve key then Err (IgnoreDecode ''invalid script key'')
        else Ok \<lparr>it_prev_id = \<lparr>prev_out_point = \<lparr>op_txid = take 32 v, op_vout = be_u32 (take 4 (drop 32 v))\<rparr>,
               prev_asset_id = take 32 (drop 36 v), prev_script_key = key\<rparr>,
             it_amount = be_u64 (take 8 (drop 101 v)), it_block_height = be_u32 (take 4 (drop 109 v))\<rparr>)"

definition tuple_encode :: "IgnoreTuple \<Rightarrow> bytes" where
  "tuple_encode t = tlv_encode (tlv_push [] (tlv_new IGNORE_TUPLE_TYPE (encode_record_value t)))"

definition tuple_decode :: "(bytes \<Rightarrow> bool) \<Rightarrow> bytes \<Rightarrow> (IgnoreTuple, IgnoreError) result" where
  "tuple_decode on_curve data =
     res_bind (map_err (\<lambda>_. IgnoreDecode ''tlv'') (tlv_decode data)) (\<lambda>s.
     res_bind (ok_or (tlv_get s IGNORE_TUPLE_TYPE) (IgnoreDecode ''missing ignore tuple record'')) (\<lambda>r.
       decode_record_value on_curve (tlv_value r)))"

definition tuple_digest :: "hash_fun \<Rightarrow> IgnoreTuple \<Rightarrow> bytes" where
  "tuple_digest sha t = sha (tuple_encode t)"

definition signing_digest :: "hash_fun \<Rightarrow> IgnoreTuple \<Rightarrow> bytes" where
  "signing_digest sha t = sha (tuple_digest sha t)"

definition tuple_universe_key :: "hash_fun \<Rightarrow> IgnoreTuple \<Rightarrow> bytes" where
  "tuple_universe_key sha t = prev_id_hash sha (it_prev_id t)"

record SignedIgnoreTuple =
  st_tuple :: IgnoreTuple
  st_sig :: bytes

definition sign_with :: "hash_fun \<Rightarrow> (bytes \<Rightarrow> (bytes, string) result) \<Rightarrow> IgnoreTuple \<Rightarrow> (SignedIgnoreTuple, IgnoreError) result" where
  "sign_with sha sign_fn t =
     res_bind (map_err IgnoreSigning (sign_fn (signing_digest sha t))) (\<lambda>sig. Ok \<lparr>st_tuple = t, st_sig = sig\<rparr>)"

definition signed_encode :: "SignedIgnoreTuple \<Rightarrow> bytes" where
  "signed_encode s = tlv_encode (tlv_push (tlv_push [] (tlv_new IGNORE_TUPLE_TYPE (encode_record_value (st_tuple s))))
     (tlv_new IGNORE_SIGNATURE_TYPE (st_sig s)))"

definition signed_decode :: "(bytes \<Rightarrow> bool) \<Rightarrow> bytes \<Rightarrow> (SignedIgnoreTuple, IgnoreError) result" where
  "signed_decode on_curve data =
     res_bind (map_err (\<lambda>_. IgnoreDecode ''tlv'') (tlv_decode data)) (\<lambda>s.
     res_bind (ok_or (tlv_get s IGNORE_TUPLE_TYPE) (IgnoreDecode ''missing ignore tuple record'')) (\<lambda>r.
     res_bind (decode_record_value on_curve (tlv_value r)) (\<lambda>t.
     res_bind (ok_or (tlv_get s IGNORE_SIGNATURE_TYPE) (IgnoreDecode ''missing ignore signature record'')) (\<lambda>r.
       if length (tlv_value r) \<noteq> 64 then Err (IgnoreDecode ''invalid signature length'')
       else Ok \<lparr>st_tuple = t, st_sig = tlv_value r\<rparr>))))"

definition verify_sig :: "hash_fun \<Rightarrow> Secp \<Rightarrow> SerializedKey \<Rightarrow> SignedIgnoreTuple \<Rightarrow> (unit, IgnoreError) result" where
  "verify_sig sha lib key s =
     (if \<not> x_only_valid (btc lib) (schnorr_bytes key) then Err (IgnoreInvalidSignature ''invalid public key'')
      else if schnorr_verifies lib (st_sig s) (signing_digest sha (st_tuple s)) (schnorr_bytes key) then Ok ()
      else Err (IgnoreInvalidSignature ''Schnorr signature verification failed''))"

definition signed_leaf_node :: "SignedIgnoreTuple \<Rightarrow> LeafNode" where
  "signed_leaf_node s = leaf_new (signed_encode s) (it_amount (st_tuple s))"

section \<open>Events\<close>

datatype SupplyError = SupplyEncoding string | SupplyTreeError string | SupplyVerification string | SupplyMissing string
  | SupplyLookup string

datatype SupplySubTree = Mint | Burn | Ignore

record SupplyLeafKey =
  lk_outpoint :: OutPoint
  lk_script_key :: SerializedKey
  lk_asset_id :: AssetId

definition leaf_universe_key :: "hash_fun \<Rightarrow> SupplyLeafKey \<Rightarrow> bytes" where
  "leaf_universe_key sha k =
     sha (op_txid (lk_outpoint k) @ u32_le (op_vout (lk_outpoint k)) @ schnorr_bytes (lk_script_key k) @ lk_asset_id k)"

text \<open>A mint event and the leaf of a burn event have the same fields.\<close>

record SupplyLeaf =
  sl_leaf_key :: SupplyLeafKey
  sl_raw_proof :: bytes
  sl_amount :: u64
  sl_block_height :: u32

definition supply_leaf_decode :: "Env \<Rightarrow> string \<Rightarrow> bytes \<Rightarrow> (SupplyLeaf, SupplyError) result" where
  "supply_leaf_decode env msg data =
     res_bind (map_err (\<lambda>_. SupplyEncoding msg) (decode_proof (sha256 env) (pub_key_valid (secp env)) (txlib env) data)) (\<lambda>p.
       Ok \<lparr>sl_leaf_key = \<lparr>lk_outpoint = proof_out_point (txlib env) p, lk_script_key = sk_pub_key (script_key (asset p)),
             lk_asset_id = asset_id (sha256 env) (asset p)\<rparr>,
           sl_raw_proof = data, sl_amount = amount (asset p), sl_block_height = block_height p\<rparr>)"

definition supply_leaf_node :: "SupplyLeaf \<Rightarrow> LeafNode" where
  "supply_leaf_node l = leaf_new (sl_raw_proof l) (sl_amount l)"

datatype SupplyUpdateEvent = MintEvent SupplyLeaf | BurnEvent SupplyLeaf | IgnoreEvent SignedIgnoreTuple

fun sub_tree_type :: "SupplyUpdateEvent \<Rightarrow> SupplySubTree" where
  "sub_tree_type (MintEvent _) = Mint"
| "sub_tree_type (BurnEvent _) = Burn"
| "sub_tree_type (IgnoreEvent _) = Ignore"

fun universe_leaf_key :: "hash_fun \<Rightarrow> SupplyUpdateEvent \<Rightarrow> bytes" where
  "universe_leaf_key sha (MintEvent l) = leaf_universe_key sha (sl_leaf_key l)"
| "universe_leaf_key sha (BurnEvent l) = leaf_universe_key sha (sl_leaf_key l)"
| "universe_leaf_key sha (IgnoreEvent s) = tuple_universe_key sha (st_tuple s)"

fun universe_leaf_node :: "SupplyUpdateEvent \<Rightarrow> LeafNode" where
  "universe_leaf_node (MintEvent l) = supply_leaf_node l"
| "universe_leaf_node (BurnEvent l) = supply_leaf_node l"
| "universe_leaf_node (IgnoreEvent s) = signed_leaf_node s"

fun event_block_height :: "SupplyUpdateEvent \<Rightarrow> u32" where
  "event_block_height (MintEvent l) = sl_block_height l"
| "event_block_height (BurnEvent l) = sl_block_height l"
| "event_block_height (IgnoreEvent s) = it_block_height (st_tuple s)"

fun event_encode :: "SupplyUpdateEvent \<Rightarrow> bytes" where
  "event_encode (MintEvent l) = sl_raw_proof l"
| "event_encode (BurnEvent l) = sl_raw_proof l"
| "event_encode (IgnoreEvent s) = signed_encode s"

fun event_decode :: "Env \<Rightarrow> SupplySubTree \<Rightarrow> bytes \<Rightarrow> (SupplyUpdateEvent, SupplyError) result" where
  "event_decode env Mint data = map_ok MintEvent (supply_leaf_decode env ''decode mint event'' data)"
| "event_decode env Burn data = map_ok BurnEvent (supply_leaf_decode env ''unable to decode burn proof'' data)"
| "event_decode env Ignore data =
     map_ok IgnoreEvent (map_err (\<lambda>_. SupplyEncoding ''ignore tuple'') (signed_decode (pub_key_valid (secp env)) data))"

section \<open>Trees\<close>

fun sub_tree_name :: "SupplySubTree \<Rightarrow> string" where
  "sub_tree_name Mint = ''mint_supply''"
| "sub_tree_name Burn = ''burn''"
| "sub_tree_name Ignore = ''ignore''"

definition sub_tree_from_name :: "string \<Rightarrow> SupplySubTree option" where
  "sub_tree_from_name s =
     (if s = ''mint_supply'' then Some Mint else if s = ''burn'' then Some Burn else if s = ''ignore'' then Some Ignore else None)"

definition sub_tree_key :: "hash_fun \<Rightarrow> SupplySubTree \<Rightarrow> bytes" where
  "sub_tree_key sha ty = sha (ascii (sub_tree_name ty))"

definition ALL_SUPPLY_SUB_TREES :: "SupplySubTree list" where
  "ALL_SUPPLY_SUB_TREES = [Mint, Burn, Ignore]"

type_synonym SupplyTree = DefaultStore
type_synonym SupplyTrees = "SupplySubTree \<rightharpoonup> SupplyTree"

definition new_supply_tree :: SupplyTree where "new_supply_tree = store_new"

definition fetch_or_create :: "SupplySubTree \<Rightarrow> SupplyTrees \<Rightarrow> SupplyTree \<times> SupplyTrees" where
  "fetch_or_create ty trees =
     (case trees ty of Some t \<Rightarrow> (t, trees) | None \<Rightarrow> (new_supply_tree, trees(ty \<mapsto> new_supply_tree)))"

text \<open>The iteration over an ordered map of sub-trees.\<close>

definition trees_iter :: "SupplyTrees \<Rightarrow> (SupplySubTree \<times> SupplyTree) list" where
  "trees_iter trees = List.map_filter (\<lambda>ty. map_option (Pair ty) (trees ty)) ALL_SUPPLY_SUB_TREES"

definition apply_update :: "hash_fun \<Rightarrow> SupplyUpdateEvent \<Rightarrow> SupplyTrees \<Rightarrow> (SupplyTrees, SupplyError) result" where
  "apply_update sha ev trees =
     (let (target, trees) = fetch_or_create (sub_tree_type ev) trees in
      res_bind (map_err (\<lambda>_. SupplyTreeError ''insert'') (c_insert sha (universe_leaf_key sha ev) (universe_leaf_node ev) target)) (\<lambda>t.
        Ok (trees(sub_tree_type ev \<mapsto> t))))"

fun apply_updates :: "hash_fun \<Rightarrow> SupplyUpdateEvent list \<Rightarrow> SupplyTrees \<Rightarrow> (SupplyTrees, SupplyError) result" where
  "apply_updates sha [] trees = Ok trees"
| "apply_updates sha (ev # evs) trees = res_bind (apply_update sha ev trees) (apply_updates sha evs)"

definition apply_tree_updates :: "hash_fun \<Rightarrow> SupplyTrees \<Rightarrow> SupplyUpdateEvent list \<Rightarrow> (SupplyTrees, SupplyError) result" where
  "apply_tree_updates sha supply_trees pending =
     apply_updates sha pending (\<lambda>ty. Some (case supply_trees ty of Some t \<Rightarrow> t | None \<Rightarrow> new_supply_tree))"

fun update_root_loop :: "hash_fun \<Rightarrow> (SupplySubTree \<times> SupplyTree) list \<Rightarrow> SupplyTree \<Rightarrow> (SupplyTree, SupplyError) result" where
  "update_root_loop sha [] root_tree = Ok root_tree"
| "update_root_loop sha ((ty, sub) # subs) root_tree =
     (if branch_sum (c_root sha sub) = 0 then update_root_loop sha subs root_tree
      else res_bind (map_err (\<lambda>_. SupplyTreeError ''insert'') (c_insert sha (sub_tree_key sha ty)
          (leaf_new (branch_hash sha (c_root sha sub)) (branch_sum (c_root sha sub))) root_tree))
        (update_root_loop sha subs))"

definition update_root_supply_tree :: "hash_fun \<Rightarrow> SupplyTree \<Rightarrow> SupplyTrees \<Rightarrow> (SupplyTree, SupplyError) result" where
  "update_root_supply_tree sha root_tree subs = update_root_loop sha (trees_iter subs) root_tree"

definition root_supply_tree_from :: "hash_fun \<Rightarrow> SupplyTree \<Rightarrow> SupplyTrees \<Rightarrow> (SupplyTree, SupplyError) result" where
  "root_supply_tree_from sha base subs = update_root_supply_tree sha base subs"

definition tree_sum :: "hash_fun \<Rightarrow> SupplyTrees \<Rightarrow> SupplySubTree \<Rightarrow> u64" where
  "tree_sum sha trees ty = (case trees ty of Some t \<Rightarrow> branch_sum (c_root sha t) | None \<Rightarrow> 0)"

definition calc_total_outstanding_supply :: "hash_fun \<Rightarrow> SupplyTrees \<Rightarrow> (u64, SupplyError) result" where
  "calc_total_outstanding_supply sha trees =
     (let total_amt = tree_sum sha trees Mint in
      if total_amt = 0 then Ok 0
      else
        let burned = tree_sum sha trees Burn in
        if total_amt < burned then Err (SupplyTreeError ''total burned exceeds total outstanding'')
        else
          let total_amt = total_amt - burned;
              ignored = tree_sum sha trees Ignore in
          if total_amt < ignored then Err (SupplyTreeError ''total ignored exceeds total outstanding'')
          else Ok (total_amt - ignored))"

section \<open>Leaves, pre-commitments and root commitments\<close>

record SupplyLeaves =
  issuance_leaf_entries :: "SupplyLeaf list"
  burn_leaf_entries :: "SupplyLeaf list"
  ignore_leaf_entries :: "SignedIgnoreTuple list"

definition all_updates :: "SupplyLeaves \<Rightarrow> SupplyUpdateEvent list" where
  "all_updates ls = map MintEvent (issuance_leaf_entries ls) @ map BurnEvent (burn_leaf_entries ls) @ map IgnoreEvent (ignore_leaf_entries ls)"

definition validate_block_heights :: "SupplyLeaves \<Rightarrow> (unit, SupplyError) result" where
  "validate_block_heights ls =
     (if \<exists>l \<in> set (issuance_leaf_entries ls). sl_block_height l = 0 then Err (SupplyVerification ''mint leaf has zero block height'')
      else if \<exists>l \<in> set (burn_leaf_entries ls). sl_block_height l = 0 then Err (SupplyVerification ''burn leaf has zero block height'')
      else if \<exists>s \<in> set (ignore_leaf_entries ls). it_block_height (st_tuple s) = 0
      then Err (SupplyVerification ''ignore leaf has zero block height'')
      else Ok ())"

definition DUMMY_AMT_SATS :: u64 where "DUMMY_AMT_SATS = 1000"

definition p2tr_script :: "bytes \<Rightarrow> bytes" where
  "p2tr_script output_key = [0x51, 0x20] @ output_key"

record PreCommitment =
  pc_block_height :: u32
  pc_minting_txn :: AnchorTx
  pc_out_idx :: u32
  pc_internal_key :: SerializedKey
  pc_group_pub_key :: SerializedKey

definition pc_out_point :: "TxLib \<Rightarrow> PreCommitment \<Rightarrow> OutPoint" where
  "pc_out_point txl pc = \<lparr>op_txid = compute_txid txl (pc_minting_txn pc), op_vout = pc_out_idx pc\<rparr>"

definition pre_commit_tx_out :: "hash_fun \<Rightarrow> Secp \<Rightarrow> SerializedKey \<Rightarrow> (u64 \<times> bytes, SupplyError) result" where
  "pre_commit_tx_out sha lib key =
     res_bind (map_err SupplyEncoding (taproot_output_key sha lib key [])) (\<lambda>output_key. Ok (DUMMY_AMT_SATS, p2tr_script output_key))"

fun position_from :: "('a \<Rightarrow> bool) \<Rightarrow> nat \<Rightarrow> 'a list \<Rightarrow> nat option" where
  "position_from P i [] = None"
| "position_from P i (x # xs) = (if P x then Some i else position_from P (Suc i) xs)"

definition new_pre_commit_from_proof :: "Env \<Rightarrow> TransitionProof \<Rightarrow> SerializedKey \<Rightarrow> (PreCommitment, SupplyError) result" where
  "new_pre_commit_from_proof env p key =
     res_bind (pre_commit_tx_out (sha256 env) (secp env) key) (\<lambda>(expected_value, expected_script).
     res_bind (ok_or (position_from (\<lambda>out. out_value out = expected_value \<and> script_pubkey out = expected_script) 0 (atx_output (anchor_tx p)))
       (SupplyVerification ''unable to find pre-commit tx out in issuance anchor tx'')) (\<lambda>out_idx.
     res_bind (ok_or (group_key (asset p)) (SupplyMissing ''issuance proof has no group key'')) (\<lambda>gk.
       Ok \<lparr>pc_block_height = block_height p, pc_minting_txn = anchor_tx p, pc_out_idx = of_nat out_idx, pc_internal_key = key,
          pc_group_pub_key = group_pub_key gk\<rparr>)))"

definition new_pre_commit_from_mint_event :: "Env \<Rightarrow> SupplyLeaf \<Rightarrow> SerializedKey \<Rightarrow> (PreCommitment, SupplyError) result" where
  "new_pre_commit_from_mint_event env ev key =
     res_bind (map_err (\<lambda>_. SupplyEncoding ''unable to decode issuance proof'')
       (decode_proof (sha256 env) (pub_key_valid (secp env)) (txlib env) (sl_raw_proof ev))) (\<lambda>p.
       new_pre_commit_from_proof env p key)"

record CommitmentBlock =
  cb_height :: u32
  cb_hash :: bytes
  cb_tx_index :: u32
  cb_block_header :: "BlockHeader option"
  cb_merkle_proof :: "TxMerkleProof option"
  chain_fees :: int

record RootCommitment =
  rc_txn :: AnchorTx
  rc_tx_out_idx :: u32
  rc_internal_key :: SerializedKey
  rc_output_key :: "bytes option"
  supply_root_hash :: bytes
  supply_root_sum :: u64
  commitment_block :: "CommitmentBlock option"
  spent_commitment :: "OutPoint option"

definition commit_point :: "TxLib \<Rightarrow> RootCommitment \<Rightarrow> OutPoint" where
  "commit_point txl c = \<lparr>op_txid = compute_txid txl (rc_txn c), op_vout = rc_tx_out_idx c\<rparr>"

definition compute_supply_commit_tapscript_root :: "hash_fun \<Rightarrow> Secp \<Rightarrow> bytes \<Rightarrow> (bytes, SupplyError) result" where
  "compute_supply_commit_tapscript_root sha lib root_hash =
     res_bind (map_err (\<lambda>_. SupplyEncoding ''unable to create leaf'') (new_non_spendable_script_leaf lib PEDERSEN_VERSION root_hash))
       (\<lambda>(leaf_version, script). Ok (tap_leaf_hash sha leaf_version script))"

definition root_commit_tx_out ::
  "hash_fun \<Rightarrow> Secp \<Rightarrow> SerializedKey \<Rightarrow> bytes option \<Rightarrow> bytes \<Rightarrow> (u64 \<times> bytes \<times> bytes, SupplyError) result" where
  "root_commit_tx_out sha lib internal_key tap_out_key root_hash =
     res_bind (case tap_out_key of
         Some key \<Rightarrow> Ok key
       | None \<Rightarrow> res_bind (compute_supply_commit_tapscript_root sha lib root_hash) (\<lambda>root.
           map_err SupplyEncoding (taproot_output_key sha lib internal_key root)))
       (\<lambda>output_key. Ok (DUMMY_AMT_SATS, p2tr_script output_key, output_key))"

definition verify_chain_anchor :: "Env \<Rightarrow> VerifierCtx \<Rightarrow> RootCommitment \<Rightarrow> (unit, SupplyError) result" where
  "verify_chain_anchor env ctx c =
     res_bind (ok_or (commitment_block c) (SupplyMissing ''no block info available'')) (\<lambda>block.
     res_bind (ok_or (cb_merkle_proof block) (SupplyMissing ''merkle proof is missing'')) (\<lambda>merkle.
     res_bind (ok_or (cb_block_header block) (SupplyMissing ''block header is missing'')) (\<lambda>header.
     if cb_hash block \<noteq> block_hash (sha256 env) header then Err (SupplyVerification ''block hash does not match block header hash'')
     else if (case spent_commitment c of Some prev \<Rightarrow> \<not> tx_spends_prev_out (rc_txn c) prev | None \<Rightarrow> False)
     then Err (SupplyVerification ''commitment TX doesn't spend previous commitment outpoint'')
     else
       res_bind (map_err (\<lambda>_. SupplyVerification ''unable to verify merkle proof'')
         (verify_tx_merkle ctx (compute_txid (txlib env) (rc_txn c)) merkle (header_merkle_root header))) (\<lambda>_.
       res_bind (map_err (\<lambda>_. SupplyVerification ''unable to verify block header'') (verify_header ctx header (cb_height block))) (\<lambda>_.
       if length (atx_output (rc_txn c)) \<le> unat (rc_tx_out_idx c) then Err (SupplyVerification ''tx out index is out of bounds'')
       else
         let tx_out = atx_output (rc_txn c) ! unat (rc_tx_out_idx c) in
         res_bind (root_commit_tx_out (sha256 env) (secp env) (rc_internal_key c) None (supply_root_hash c)) (\<lambda>(expected_value, expected_script, _).
           if out_value tx_out \<noteq> expected_value then Err (SupplyVerification ''tx out value does not match expected value'')
           else if script_pubkey tx_out \<noteq> expected_script then Err (SupplyVerification ''tx out pk script does not match expected pk script'')
           else Ok ()))))))"

section \<open>The verifier\<close>

record SupplyVerifier =
  sv_ctx :: VerifierCtx
  sv_proof_opts :: VerificationOptions
  lookup_delegation_key :: "SerializedKey \<Rightarrow> (SerializedKey, SupplyError) result"
  group_key_for_asset :: "AssetId \<Rightarrow> (SerializedKey, SupplyError) result"
  fetch_starting_commitment :: "SerializedKey \<Rightarrow> (RootCommitment option, SupplyError) result"
  fetch_commitment_by_outpoint :: "SerializedKey \<Rightarrow> OutPoint \<Rightarrow> (RootCommitment option, SupplyError) result"
  fetch_supply_trees :: "SerializedKey \<Rightarrow> (SupplyTree \<times> SupplyTrees, SupplyError) result"

definition is_equivalent_pub_keys :: "SerializedKey \<Rightarrow> SerializedKey \<Rightarrow> bool" where
  "is_equivalent_pub_keys a b \<longleftrightarrow> schnorr_bytes a = schnorr_bytes b"

text \<open>Every input of the transaction contributes the first eligible output it spends; the outputs found form a set.\<close>

definition matched_pre_commits :: "TxLib \<Rightarrow> AnchorTx \<Rightarrow> PreCommitment list \<Rightarrow> OutPoint list" where
  "matched_pre_commits txl tx eligible =
     remdups (List.map_filter (\<lambda>txin. map_option (pc_out_point txl) (List.find (\<lambda>pc. previous_output txin = pc_out_point txl pc) eligible))
       (atx_input tx))"

definition verify_precommits_spent :: "TxLib \<Rightarrow> RootCommitment \<Rightarrow> PreCommitment list \<Rightarrow> (unit, SupplyError) result" where
  "verify_precommits_spent txl c pre_commits =
     (if spent_commitment c = None \<and> pre_commits = []
      then Err (SupplyVerification ''no unspent supply pre-commitment outputs for the initial supply commitment'')
      else res_bind (ok_or (commitment_block c) (SupplyMissing ''missing commitment block'')) (\<lambda>block.
        let eligible = filter (\<lambda>pc. pc_block_height pc \<le> cb_height block) pre_commits in
        if length (matched_pre_commits txl (rc_txn c) eligible) \<noteq> length eligible
        then Err (SupplyVerification ''supply commitment does not spend all known pre-commitments'')
        else Ok ()))"

definition verify_initial_commit ::
  "Env \<Rightarrow> SupplyVerifier \<Rightarrow> SerializedKey \<Rightarrow> RootCommitment \<Rightarrow> SupplyLeaves \<Rightarrow> PreCommitment list \<Rightarrow> (unit, SupplyError) result" where
  "verify_initial_commit env v gkey c ls pre_commits =
     (if spent_commitment c \<noteq> None then Err (SupplyVerification ''initial supply commitment must not specify a spent commitment outpoint'')
      else res_bind (fetch_starting_commitment v gkey) (\<lambda>start.
        case start of
          Some init \<Rightarrow>
            if commit_point (txlib env) init = commit_point (txlib env) c then Ok ()
            else Err (SupplyVerification ''found alternative initial commitment for asset group'')
        | None \<Rightarrow>
            res_bind (verify_precommits_spent (txlib env) c pre_commits) (\<lambda>_.
            res_bind (apply_tree_updates (sha256 env) Map.empty (all_updates ls)) (\<lambda>supply_trees.
            res_bind (root_supply_tree_from (sha256 env) new_supply_tree supply_trees) (\<lambda>root_tree.
              if branch_hash (sha256 env) (c_root (sha256 env) root_tree) \<noteq> supply_root_hash c
              then Err (SupplyVerification ''generated supply tree root does not match commitment supply root'')
              else Ok ())))))"

definition verify_incremental_commit ::
  "Env \<Rightarrow> SupplyVerifier \<Rightarrow> SerializedKey \<Rightarrow> RootCommitment \<Rightarrow> SupplyLeaves \<Rightarrow> PreCommitment list \<Rightarrow> (unit, SupplyError) result" where
  "verify_incremental_commit env v gkey c ls pre_commits =
     res_bind (ok_or (spent_commitment c) (SupplyMissing ''missing spent supply commitment outpoint'')) (\<lambda>spent.
     res_bind (fetch_commitment_by_outpoint v gkey spent) (\<lambda>found.
     res_bind (ok_or found (SupplyVerification ''previous supply commitment not found'')) (\<lambda>spent_commit.
     if \<not> (\<exists>txin \<in> set (atx_input (rc_txn c)). previous_output txin = spent)
     then Err (SupplyVerification ''supply commitment does not spend provided previous commitment outpoint'')
     else
       res_bind (verify_precommits_spent (txlib env) c pre_commits) (\<lambda>_.
       res_bind (fetch_supply_trees v gkey) (\<lambda>(spent_root_tree, spent_sub_trees).
       if branch_hash (sha256 env) (c_root (sha256 env) spent_root_tree) \<noteq> supply_root_hash spent_commit
       then Err (SupplyVerification ''local spent supply tree root does not match spent commitment supply root'')
       else
         res_bind (apply_tree_updates (sha256 env) spent_sub_trees (all_updates ls)) (\<lambda>new_trees.
         res_bind (root_supply_tree_from (sha256 env) spent_root_tree new_trees) (\<lambda>expected.
           if branch_hash (sha256 env) (c_root (sha256 env) expected) \<noteq> supply_root_hash c
           then Err (SupplyVerification ''expected supply tree root does not match commitment supply root'')
           else Ok ())))))))"

definition decode_supply_proof :: "Env \<Rightarrow> string \<Rightarrow> bytes \<Rightarrow> (TransitionProof, SupplyError) result" where
  "decode_supply_proof env msg raw =
     map_err (\<lambda>_. SupplyVerification msg) (decode_proof (sha256 env) (pub_key_valid (secp env)) (txlib env) raw)"

definition verify_issuance_leaf ::
  "Env \<Rightarrow> SupplyVerifier \<Rightarrow> SerializedKey \<Rightarrow> SerializedKey \<Rightarrow> SupplyLeaf \<Rightarrow> (unit, SupplyError) result" where
  "verify_issuance_leaf env v gkey dkey entry =
     res_bind (decode_supply_proof env ''unable to decode issuance proof'' (sl_raw_proof entry)) (\<lambda>p.
     res_bind (map_err (\<lambda>_. SupplyVerification ''issuance proof failed verification'') (verify_proof env (sv_ctx v) (sv_proof_opts v) None p)) (\<lambda>_.
     if sl_block_height entry \<noteq> block_height p
     then Err (SupplyVerification ''mint height in issuance leaf does not match issuance proof block height'')
     else if sl_amount entry \<noteq> amount (asset p)
     then Err (SupplyVerification ''amount in issuance leaf does not match amount in issuance proof'')
     else res_bind (ok_or (group_key (asset p)) (SupplyVerification ''missing asset group key in issuance proof'')) (\<lambda>gk.
       if lk_asset_id (sl_leaf_key entry) \<noteq> asset_id (sha256 env) (asset p)
       then Err (SupplyVerification ''issuance leaf key asset id does not match issuance proof asset id'')
       else if \<not> is_equivalent_pub_keys (group_pub_key gk) gkey
       then Err (SupplyVerification ''asset group key in issuance proof does not match expected asset group key'')
       else res_bind (map_err (\<lambda>_. SupplyVerification ''unable to extract pre-commit output from issuance proof anchor tx'')
         (new_pre_commit_from_proof env p dkey)) (\<lambda>_. Ok ()))))"

definition verify_ignore_leaf ::
  "Env \<Rightarrow> SupplyVerifier \<Rightarrow> SerializedKey \<Rightarrow> SerializedKey \<Rightarrow> SignedIgnoreTuple \<Rightarrow> (unit, SupplyError) result" where
  "verify_ignore_leaf env v gkey dkey entry =
     res_bind (map_err (\<lambda>_. SupplyVerification ''failed to verify signed ignore tuple signature'') (verify_sig (sha256 env) (secp env) dkey entry)) (\<lambda>_.
     res_bind (group_key_for_asset v (prev_asset_id (it_prev_id (st_tuple entry)))) (\<lambda>asset_group_key.
       if \<not> is_equivalent_pub_keys asset_group_key gkey
       then Err (SupplyVerification ''asset group key for ignore leaf asset does not match expected asset group key'')
       else Ok ()))"

definition verify_burn_leaf :: "Env \<Rightarrow> SupplyVerifier \<Rightarrow> SerializedKey \<Rightarrow> SupplyLeaf \<Rightarrow> (unit, SupplyError) result" where
  "verify_burn_leaf env v gkey entry =
     res_bind (decode_supply_proof env ''unable to decode burn proof'' (sl_raw_proof entry)) (\<lambda>p.
     res_bind (map_err (\<lambda>_. SupplyVerification ''burn leaf proof failed verification'') (verify_proof env (sv_ctx v) (sv_proof_opts v) None p)) (\<lambda>_.
     if lk_asset_id (sl_leaf_key entry) \<noteq> asset_id (sha256 env) (asset p)
     then Err (SupplyVerification ''burn leaf key asset id does not match burn proof asset id'')
     else res_bind (is_burn (sha256 env) (secp env) (asset p)) (\<lambda>burnt.
       if \<not> burnt then Err (SupplyVerification ''asset in burn proof is not a burn asset'')
       else res_bind (ok_or (group_key (asset p)) (SupplyVerification ''missing asset group key in burn proof'')) (\<lambda>gk.
         if \<not> is_equivalent_pub_keys (group_pub_key gk) gkey
         then Err (SupplyVerification ''asset group key in burn proof does not match expected asset group key'')
         else Ok ()))))"

fun all_ok :: "('a \<Rightarrow> (unit, 'e) result) \<Rightarrow> 'a list \<Rightarrow> (unit, 'e) result" where
  "all_ok f [] = Ok ()"
| "all_ok f (x # xs) = res_bind (f x) (\<lambda>_. all_ok f xs)"

definition verify_supply_leaves ::
  "Env \<Rightarrow> SupplyVerifier \<Rightarrow> SerializedKey \<Rightarrow> SerializedKey \<Rightarrow> SupplyLeaves \<Rightarrow> (unit, SupplyError) result" where
  "verify_supply_leaves env v gkey dkey ls =
     res_bind (validate_block_heights ls) (\<lambda>_.
     res_bind (all_ok (verify_issuance_leaf env v gkey dkey) (issuance_leaf_entries ls)) (\<lambda>_.
     res_bind (all_ok (verify_ignore_leaf env v gkey dkey) (ignore_leaf_entries ls)) (\<lambda>_.
       all_ok (verify_burn_leaf env v gkey) (burn_leaf_entries ls))))"

definition verify_commit ::
  "Env \<Rightarrow> SupplyVerifier \<Rightarrow> SerializedKey \<Rightarrow> RootCommitment \<Rightarrow> SupplyLeaves \<Rightarrow> PreCommitment list \<Rightarrow> (unit, SupplyError) result" where
  "verify_commit env v gkey c ls pre_commits =
     res_bind (verify_chain_anchor env (sv_ctx v) c) (\<lambda>_.
     res_bind (fetch_commitment_by_outpoint v gkey (commit_point (txlib env) c)) (\<lambda>existing.
     if existing \<noteq> None then Ok ()
     else res_bind (lookup_delegation_key v gkey) (\<lambda>dkey.
       if length pre_commits < length (issuance_leaf_entries ls)
       then Err (SupplyVerification ''not enough unspent supply pre-commitment outputs for issuance leaves'')
       else res_bind (verify_supply_leaves env v gkey dkey ls) (\<lambda>_.
         if spent_commitment c = None then verify_initial_commit env v gkey c ls pre_commits
         else verify_incremental_commit env v gkey c ls pre_commits))))"

section \<open>What an accepted commitment means\<close>

lemma all_ok_Ok: "all_ok f xs = Ok () \<longleftrightarrow> (\<forall>x \<in> set xs. f x = Ok ())"
  by (induction xs) (auto simp: res_simps)










section \<open>Accounting\<close>

text \<open>The insertions that a list of events makes into one sub-tree, and the units they add to it.\<close>

definition events_of :: "SupplySubTree \<Rightarrow> SupplyUpdateEvent list \<Rightarrow> SupplyUpdateEvent list" where
  "events_of ty evs = filter (\<lambda>ev. sub_tree_type ev = ty) evs"

definition supply_ops :: "hash_fun \<Rightarrow> SupplySubTree \<Rightarrow> SupplyUpdateEvent list \<Rightarrow> tree_op list" where
  "supply_ops sha ty evs = map (\<lambda>ev. OpInsert (universe_leaf_key sha ev) (universe_leaf_node ev)) (events_of ty evs)"

definition supplied :: "SupplySubTree \<Rightarrow> SupplyUpdateEvent list \<Rightarrow> nat" where
  "supplied ty evs = (\<Sum>ev \<in> set (events_of ty evs). unat (leaf_sum (universe_leaf_node ev)))"

lemma supply_ops_Cons:
  "supply_ops sha ty (ev # evs) = (if sub_tree_type ev = ty then [OpInsert (universe_leaf_key sha ev) (universe_leaf_node ev)] else [])
     @ supply_ops sha ty evs"
  by (simp add: supply_ops_def events_of_def)

lemma apply_updates_by_tree:
  assumes "\<And>ty. run_ops (c_insert sha) (c_delete sha) (supply_ops sha ty evs) (t ty) = Ok (t' ty)"
  shows "apply_updates sha evs (\<lambda>ty. Some (t ty)) = Ok (\<lambda>ty. Some (t' ty))"
  using assms
proof (induction evs arbitrary: t)
  case Nil
  then have "t = t'" by (simp add: supply_ops_def events_of_def fun_eq_iff)
  then show ?case by simp
next
  case (Cons ev evs)
  let ?ty = "sub_tree_type ev"
  from Cons.prems [of ?ty] obtain u where u: "c_insert sha (universe_leaf_key sha ev) (universe_leaf_node ev) (t ?ty) = Ok u"
    "run_ops (c_insert sha) (c_delete sha) (supply_ops sha ?ty evs) u = Ok (t' ?ty)"
    by (auto simp: supply_ops_Cons res_simps)
  have "run_ops (c_insert sha) (c_delete sha) (supply_ops sha ty evs) ((t(?ty := u)) ty) = Ok (t' ty)" for ty
    using Cons.prems [of ty] u(2) by (cases "ty = ?ty") (simp_all add: supply_ops_Cons)
  from Cons.IH [OF this] have "apply_updates sha evs ((\<lambda>ty. Some (t ty))(?ty \<mapsto> u)) = Ok (\<lambda>ty. Some (t' ty))"
    by (simp add: fun_upd_def if_distrib)
  with u(1) show ?case by (simp add: apply_update_def fetch_or_create_def)
qed

lemma supply_ops_total:
  assumes "inj_on (universe_leaf_key sha) (set (events_of ty evs))" "sha_32 sha"
  shows "content_total (apply_ops (supply_ops sha ty evs) no_content) = supplied ty evs"
proof -
  have len: "length (universe_leaf_key sha ev) = 32" for ev
    using assms(2) by (cases ev) (simp_all add: leaf_universe_key_def tuple_universe_key_def prev_id_hash_def sha_32_length)
  have "inj_on (\<lambda>ev. key_bits (universe_leaf_key sha ev)) (set (events_of ty evs))"
    using assms(1) len key_bits_inject by (auto simp: inj_on_def)
  from insert_all_content [OF this subset_refl, where key = "universe_leaf_key sha" and lf = universe_leaf_node] len
  show ?thesis by (simp add: supply_ops_def supplied_def)
qed

lemma outstanding_difference:
  "calc_total_outstanding_supply sha trees =
     (let m = unat (tree_sum sha trees Mint); b = unat (tree_sum sha trees Burn); i = unat (tree_sum sha trees Ignore) in
      if m = 0 then Ok 0
      else if m < b then Err (SupplyTreeError ''total burned exceeds total outstanding'')
      else if m < b + i then Err (SupplyTreeError ''total ignored exceeds total outstanding'')
      else Ok (of_nat (m - b - i)))"
proof -
  let ?m = "tree_sum sha trees Mint" and ?b = "tree_sum sha trees Burn" and ?i = "tree_sum sha trees Ignore"
  have sub: "unat (?m - ?b) = unat ?m - unat ?b" if "unat ?b \<le> unat ?m" using that by (simp add: unat_sub word_le_nat_alt)
  have "?m - ?b - ?i = of_nat (unat ?m - unat ?b - unat ?i)" if "unat ?b + unat ?i \<le> unat ?m"
  proof -
    have "unat (?m - ?b - ?i) = unat ?m - unat ?b - unat ?i" using that sub by (simp add: unat_sub word_le_nat_alt)
    then show ?thesis by (metis of_nat_unat ucast_id)
  qed
  then show ?thesis
    by (auto simp: calc_total_outstanding_supply_def Let_def word_less_nat_alt sub unat_eq_zero)
qed

lemma supply_trees_applied:
  assumes "\<And>ty. separated sha (S ty) no_content" "\<And>ty. admissible_ops (c_admissible sha (S ty)) (supply_ops sha ty evs) no_content"
    and "\<And>ty. inj_on (universe_leaf_key sha) (set (events_of ty evs))"
  obtains t' where "apply_tree_updates sha Map.empty evs = Ok (\<lambda>ty. Some (t' ty))" "\<And>ty. unat (branch_sum (c_root sha (t' ty))) = supplied ty evs"
proof -
  have "\<exists>t'. run_ops (c_insert sha) (c_delete sha) (supply_ops sha ty evs) new_supply_tree = Ok t'
      \<and> unat (branch_sum (c_root sha t')) = supplied ty evs" for ty
  proof -
    from compacted.run_ops_inv [OF c_inv_new [OF assms(1)] assms(2)] obtain t' where
      t': "run_ops (c_insert sha) (c_delete sha) (supply_ops sha ty evs) store_new = Ok t'"
      "c_inv sha (S ty) t' (apply_ops (supply_ops sha ty evs) no_content)" by blast
    have "sha_32 sha" using assms(1) [of ty] by (simp add: separated_def)
    with c_root_sum [OF t'(2)] supply_ops_total [OF assms(3)] t'(1) show ?thesis by (simp add: new_supply_tree_def)
  qed
  then obtain t' where t': "\<And>ty. run_ops (c_insert sha) (c_delete sha) (supply_ops sha ty evs) new_supply_tree = Ok (t' ty)"
    "\<And>ty. unat (branch_sum (c_root sha (t' ty))) = supplied ty evs" by metis
  have "apply_tree_updates sha Map.empty evs = Ok (\<lambda>ty. Some (t' ty))"
    using apply_updates_by_tree [OF t'(1)] by (simp add: apply_tree_updates_def)
  with t'(2) show ?thesis by (rule that [rotated])
qed

definition demo_supply_leaf :: "bytes \<Rightarrow> u64 \<Rightarrow> SupplyLeaf" where
  "demo_supply_leaf raw amt = \<lparr>sl_leaf_key = \<lparr>lk_outpoint = \<lparr>op_txid = zeros 32, op_vout = 0\<rparr>, lk_script_key = NUMS_KEY, lk_asset_id = zeros 32\<rparr>,
     sl_raw_proof = raw, sl_amount = amt, sl_block_height = 1\<rparr>"

text \<open>At most one event for every sub-tree.\<close>

definition demo_sets :: "SupplyUpdateEvent list \<Rightarrow> SupplySubTree \<Rightarrow> bytes set" where
  "demo_sets evs ty = (case events_of ty evs of [] \<Rightarrow> demo_set
     | ev # _ \<Rightarrow> single_set (universe_leaf_key demo_hash ev) (universe_leaf_node ev))"

lemma demo_sets_ok:
  assumes "length (events_of ty evs) \<le> 1" "\<forall>ev \<in> set evs. length (leaf_value (universe_leaf_node ev)) \<noteq> 64 \<and> leaf_sum (universe_leaf_node ev) \<noteq> 0"
  shows "separated demo_hash (demo_sets evs ty) no_content"
    "admissible_ops (c_admissible demo_hash (demo_sets evs ty)) (supply_ops demo_hash ty evs) no_content"
    "inj_on (universe_leaf_key demo_hash) (set (events_of ty evs))"
proof -
  have *: "separated demo_hash (demo_sets evs ty) no_content
    \<and> admissible_ops (c_admissible demo_hash (demo_sets evs ty)) (supply_ops demo_hash ty evs) no_content"
  proof (cases "events_of ty evs")
    case Nil
    then show ?thesis using separated_no_content [OF demo_separated] by (simp add: demo_sets_def supply_ops_def)
  next
    case (Cons ev rest)
    with assms(1) have one: "events_of ty evs = [ev]" by simp
    then have "ev \<in> set (events_of ty evs)" by simp
    then have "ev \<in> set evs" by (simp add: events_of_def)
    with assms(2) have leaf: "length (leaf_value (universe_leaf_node ev)) \<noteq> 64" "universe_leaf_node ev \<noteq> leaf_empty"
      by (auto simp: leaf_empty_def leaf_new_def)
    have "length (universe_leaf_key demo_hash ev) = 32"
      using sha_32_demo_hash by (cases ev) (simp_all add: leaf_universe_key_def tuple_universe_key_def prev_id_hash_def)
    with demo_single_leaf(3) [OF leaf] have "c_admissible demo_hash (demo_sets evs ty) no_content (universe_leaf_key demo_hash ev) (universe_leaf_node ev)"
      by (intro admissible_compacted) (simp add: demo_sets_def one)
    with demo_single_leaf(2) [OF leaf] unat_lt2p [of "leaf_sum (universe_leaf_node ev)"] show ?thesis
      by (simp add: demo_sets_def supply_ops_def one content_total_no_content del: unat_u64_less)
  qed
  then show "separated demo_hash (demo_sets evs ty) no_content"
    "admissible_ops (c_admissible demo_hash (demo_sets evs ty)) (supply_ops demo_hash ty evs) no_content" by blast+
  show "inj_on (universe_leaf_key demo_hash) (set (events_of ty evs))"
    using assms(1) by (cases "events_of ty evs") simp_all
qed

text \<open>C15: the outstanding supply is what was minted, less what was burned and ignored. For events with distinct leaf keys, applied to empty trees, the
  sum of each sub-tree is exactly the sum of the amounts of its events, and the outstanding supply is the difference. If nothing was minted it is
  zero, whatever was burned or ignored; otherwise an error is returned exactly if more is burned than was minted, or more ignored than was left.
  (Assumed, as for every tree: no sum exceeds 64 bits, and no collision of SHA-256 among the preimages of each tree.)\<close>

theorem supply_accounting_exact:
  assumes "\<And>ty. separated sha (S ty) no_content" "\<And>ty. admissible_ops (c_admissible sha (S ty)) (supply_ops sha ty evs) no_content"
    and "\<And>ty. inj_on (universe_leaf_key sha) (set (events_of ty evs))"
  shows "\<exists>trees. apply_tree_updates sha Map.empty evs = Ok trees
    \<and> (\<forall>ty. unat (tree_sum sha trees ty) = supplied ty evs)
    \<and> calc_total_outstanding_supply sha trees =
      (if supplied Mint evs = 0 then Ok 0
       else if supplied Mint evs < supplied Burn evs then Err (SupplyTreeError ''total burned exceeds total outstanding'')
       else if supplied Mint evs < supplied Burn evs + supplied Ignore evs
       then Err (SupplyTreeError ''total ignored exceeds total outstanding'')
       else Ok (of_nat (supplied Mint evs - supplied Burn evs - supplied Ignore evs)))"
proof -
  obtain t' where run: "apply_tree_updates sha Map.empty evs = Ok (\<lambda>ty. Some (t' ty))"
    and "\<And>ty. unat (branch_sum (c_root sha (t' ty))) = supplied ty evs" by (rule supply_trees_applied [OF assms]) blast
  then have sums: "unat (tree_sum sha (\<lambda>ty. Some (t' ty)) ty) = supplied ty evs" for ty by (simp add: tree_sum_def)
  show ?thesis using outstanding_difference [of sha "\<lambda>ty. Some (t' ty)", unfolded sums Let_def] run sums by blast
qed

theorem supply_accounting_exact_witness:
  "\<exists>trees. apply_tree_updates demo_hash Map.empty [MintEvent (demo_supply_leaf [1, 2, 3] 1000), BurnEvent (demo_supply_leaf [1, 2] 300)] = Ok trees
    \<and> calc_total_outstanding_supply demo_hash trees = Ok 700"
proof -
  let ?evs = "[MintEvent (demo_supply_leaf [1, 2, 3] 1000), BurnEvent (demo_supply_leaf [1, 2] 300)]"
  have one: "length (events_of ty ?evs) \<le> 1" for ty by (cases ty) (simp_all add: events_of_def)
  have leafs: "\<forall>ev \<in> set ?evs. length (leaf_value (universe_leaf_node ev)) \<noteq> 64 \<and> leaf_sum (universe_leaf_node ev) \<noteq> 0"
    by (simp add: supply_leaf_node_def demo_supply_leaf_def leaf_new_def)
  have "supplied Mint ?evs = 1000" "supplied Burn ?evs = 300" "supplied Ignore ?evs = 0"
    by (simp_all add: supplied_def events_of_def supply_leaf_node_def demo_supply_leaf_def leaf_new_def)
  with supply_accounting_exact [OF demo_sets_ok [OF one leafs]] show ?thesis by auto
qed






section \<open>Concrete supply\<close>

definition demo_burn :: Asset where
  "demo_burn = demo_coin\<lparr>prev_witnesses := [\<lparr>w_prev_id = Some demo_prev, tx_witness = [], split_commitment = None\<rparr>],
     script_key := script_key_from_pub_key (0x02 # zeros 32)\<rparr>"

lemma demo_burn_proof:
  defines "p \<equiv> demo_proof demo_burn None (prev_out_point demo_prev) (zeros 32)"
  shows "decode_proof demo_hash (\<lambda>_. True) (demo_txlib (anchor_tx p)) (encode_proof demo_hash (demo_txlib (anchor_tx p)) p) = Ok p"
    "\<not> is_genesis_asset (asset p)"
proof -
  let ?tx = "anchor_tx p"
  have f: "version p = TransitionV0" "prev_out p = \<lparr>op_txid = replicate 32 1, op_vout = 0\<rparr>" "block_header p = zeros 80"
    "tx_merkle_proof p = \<lparr>tm_nodes = [], tm_bits = []\<rparr>" "asset p = demo_burn" "split_root_proof p = None"
    "inclusion_proof p = output_proof 0 NUMS_KEY None demo_commitment_proof" "exclusion_proofs p = []" "meta_reveal p = None"
    "additional_inputs p = []" "challenge_witness p = None" "genesis_reveal p = None" "group_key_reveal p = None"
    "alt_leaves p = []" "pr_unknown_odd_types p = []" "block_height p = 0"
    by (simp_all add: p_def demo_proof_def proof_default_def demo_prev_def)
  have id: "length (genesis_id demo_hash demo_genesis) = 32" using sha_32_demo_hash by (simp add: genesis_id_def)
  have wf: "wf_asset demo_hash (\<lambda>_. True) demo_burn"
    using id by (simp add: wf_asset_def demo_burn_def demo_prev_def demo_coin_def new_genesis_def asset_version_from_u8_def wf_genesis_def demo_genesis_def
        genesis_empty_def wf_asset_type_def asset_type_from_u8_def wf_witness_def wf_prev_id_def
        validate_on_curve_def script_key_from_pub_key_def wf_odd_types_def btree_sorted_def)
  have len: "length (encode_asset demo_hash demo_burn EncodeNormal) \<le> 2000"
    using id by (simp add: demo_burn_def demo_prev_def demo_coin_def new_genesis_def encode_asset_def Let_def tlv_push_def tlv_push_if_def push_opt_def
        tlv_record_defs tlv_encode_def sort_key_def encode_record_def bigsize_len_def demo_genesis_def genesis_empty_def
        encode_genesis_def encode_var_bytes_def encode_prev_witnesses_def encode_witness_def encode_prev_id_def
        script_key_from_pub_key_def)
  have wire: "wf_proof demo_hash (\<lambda>_. True) (demo_txlib ?tx) p"
    using wf len demo_output_proof_wire
    by (simp add: wf_proof_def f wf_tx_merkle_def wf_odd_types_def btree_sorted_def demo_txlib_def)
  have "slot_bytes (proof_slots demo_hash (demo_txlib ?tx) p) \<le> 9000"
    using len demo_output_proof_wire(2)
    by (simp add: proof_slots_def f slot_bytes_def demo_txlib_def encode_tx_merkle_proof_def bigsize_len_def)
  then have "length (tlv_encode (of_slots (proof_slots demo_hash (demo_txlib ?tx) p))) \<le> 9000"
    by (intro length_slots) (simp add: proof_slots_def)
  then have "length (encode_proof demo_hash (demo_txlib ?tx) p) \<le> 10000"
    by (simp add: encode_proof_slots f odd_records_def PROOF_MAGIC_BYTES_def)
  with proof_codec [OF wire sha_32_demo_hash]
  show "decode_proof demo_hash (\<lambda>_. True) (demo_txlib ?tx) (encode_proof demo_hash (demo_txlib ?tx) p) = Ok p" by simp
  show "\<not> is_genesis_asset (asset p)"
    by (simp add: f demo_burn_def is_genesis_asset_def has_genesis_witness_def has_genesis_witness_for_group_def is_genesis_def demo_prev_def
        prev_id_is_zero_def PREV_ID_ZERO_def zeros_def demo_coin_def new_genesis_def witness_zero_prev_def)
qed

definition demo_verifier :: SupplyVerifier where
  "demo_verifier = \<lparr>sv_ctx = demo_ctx, sv_proof_opts = options_default, lookup_delegation_key = (\<lambda>_. Ok NUMS_KEY),
     group_key_for_asset = (\<lambda>_. Ok NUMS_KEY), fetch_starting_commitment = (\<lambda>_. Ok None), fetch_commitment_by_outpoint = (\<lambda>_ _. Ok None),
     fetch_supply_trees = (\<lambda>_. Err (SupplyLookup ''none''))\<rparr>"

definition demo_ignored :: SignedIgnoreTuple where
  "demo_ignored = \<lparr>st_tuple = \<lparr>it_prev_id = demo_prev, it_amount = 5, it_block_height = 1\<rparr>, st_sig = zeros 64\<rparr>"

definition demo_leaves :: SupplyLeaves where
  "demo_leaves = \<lparr>issuance_leaf_entries = [], burn_leaf_entries = [], ignore_leaf_entries = [demo_ignored]\<rparr>"

definition demo_pre_commit :: PreCommitment where
  "demo_pre_commit = \<lparr>pc_block_height = 1, pc_minting_txn = anchor_tx_default, pc_out_idx = 0, pc_internal_key = NUMS_KEY, pc_group_pub_key = NUMS_KEY\<rparr>"

definition demo_commitment :: "bytes \<Rightarrow> bytes \<Rightarrow> RootCommitment" where
  "demo_commitment root_hash key =
     \<lparr>rc_txn = anchor_tx_default\<lparr>
        atx_input := [\<lparr>previous_output = \<lparr>op_txid = replicate 32 1, op_vout = 0\<rparr>, tx_sequence = 0, txin_witness = [], script_sig = []\<rparr>],
        atx_output := [\<lparr>out_value = 1000, script_pubkey = [0x51, 0x20] @ key\<rparr>]\<rparr>,
      rc_tx_out_idx = 0, rc_internal_key = NUMS_KEY, rc_output_key = None, supply_root_hash = root_hash, supply_root_sum = 5,
      commitment_block = Some \<lparr>cb_height = 1, cb_hash = block_hash demo_hash (zeros 80), cb_tx_index = 0, cb_block_header = Some (zeros 80),
        cb_merkle_proof = Some \<lparr>tm_nodes = [], tm_bits = []\<rparr>, chain_fees = 0\<rparr>,
      spent_commitment = None\<rparr>"





lemma no_inputs_no_transfer:
  assumes "split_assets \<noteq> [] \<or> \<not> is_genesis_asset new_asset"
  shows "vm_execute sha lib val new_asset split_assets [] \<noteq> Ok ()"
proof (cases "is_genesis_asset new_asset")
  case True
  with assms show ?thesis by (auto simp: vm_execute_def is_genesis_asset_def)
next
  case False
  show ?thesis
  proof
    assume ok: "vm_execute sha lib val new_asset split_assets [] = Ok ()"
    then obtain w ws base_tx where "prev_witnesses new_asset = w # ws" "input_checked sha lib val new_asset [] base_tx 0 w"
      unfolding execute_transfer_Ok [OF False] state_transition_Ok by (cases "prev_witnesses new_asset") fastforce+
    then show False by (auto simp: input_checked_def)
  qed
qed

lemma no_input_rejected:
  assumes "additional_inputs p = []" "challenge_witness p = None" "\<not> is_genesis_asset (asset p)"
  shows "verify_proof env ctx opts None p \<noteq> Ok snap"
  using assms no_inputs_no_transfer
  by (auto simp: verify_proof_def verify_proof_with_def verify_asset_state_transition_def res_simps split: if_splits)

text \<open>The burn proofs that the program makes are never accepted in a supply commitment. A burn leaf is verified without the proof of the spent asset, so a
  transfer proof that has no additional input files and no challenge witness, as every proof suffix of a burn is, is refused, and with it every commitment
  that contains the leaf.\<close>

theorem burn_proof_rejected:
  assumes "decode_proof (sha256 env) (pub_key_valid (secp env)) (txlib env) (sl_raw_proof l) = Ok p"
    and "additional_inputs p = []" "challenge_witness p = None" "\<not> is_genesis_asset (asset p)"
    and "l \<in> set (burn_leaf_entries ls)" "fetch_commitment_by_outpoint v gkey (commit_point (txlib env) c) = Ok None"
  shows "verify_burn_leaf env v gkey l \<noteq> Ok () \<and> verify_commit env v gkey c ls pre_commits \<noteq> Ok ()"
proof -
  have "verify_burn_leaf env v gkey l \<noteq> Ok ()"
    using no_input_rejected [OF assms(2-4)] assms(1) by (auto simp: verify_burn_leaf_def decode_supply_proof_def res_simps)
  moreover have "verify_supply_leaves env v gkey dkey ls \<noteq> Ok ()" for dkey
    using assms(5) calculation by (auto simp: verify_supply_leaves_def res_simps all_ok_Ok)
  ultimately show ?thesis using assms(6) by (auto simp: verify_commit_def res_simps split: if_splits)
qed

theorem burn_proof_rejected_witness:
  "\<exists>tx raw. decode_proof demo_hash (\<lambda>_. True) (demo_txlib tx) raw = Ok (demo_proof demo_burn None (prev_out_point demo_prev) (zeros 32))
    \<and> verify_commit (demo_env tx) demo_verifier NUMS_KEY (demo_commitment (zeros 32) (zeros 32))
        (demo_leaves\<lparr>burn_leaf_entries := [demo_supply_leaf raw 300]\<rparr>) [demo_pre_commit] \<noteq> Ok ()"
proof -
  let ?p = "demo_proof demo_burn None (prev_out_point demo_prev) (zeros 32)"
  let ?raw = "encode_proof demo_hash (demo_txlib (anchor_tx ?p)) ?p"
  have "verify_commit (demo_env (anchor_tx ?p)) demo_verifier NUMS_KEY (demo_commitment (zeros 32) (zeros 32))
      (demo_leaves\<lparr>burn_leaf_entries := [demo_supply_leaf ?raw 300]\<rparr>) [demo_pre_commit] \<noteq> Ok ()"
    using burn_proof_rejected [of "demo_env (anchor_tx ?p)" "demo_supply_leaf ?raw 300" ?p "demo_leaves\<lparr>burn_leaf_entries := [demo_supply_leaf ?raw 300]\<rparr>"
        demo_verifier NUMS_KEY "demo_commitment (zeros 32) (zeros 32)" "[demo_pre_commit]"] demo_burn_proof
    by (simp add: demo_supply_leaf_def demo_verifier_def demo_secp_def)
  with demo_burn_proof(1) show ?thesis by blast
qed

end
