(* ===== verification/Spec2Isabelle.thy ===== *)
theory Spec2Isabelle
  imports Proof_Properties Suffix_Verify Mssmt_Compacted_Refine Leaf_Signer Channel_Manager Supply
begin

text \<open>
  A verification of rust-tap, an implementation of the Taproot Assets protocol in Rust.

  \<^bold>\<open>The program.\<close> Assets are committed to in Bitcoin outputs through Merkle-sum sparse Merkle trees
  (MS-SMTs), whose nodes carry a hash and the sum of the amounts below. Two nested trees form the commitment of an output, which is
  a leaf of the tapscript tree of its key. A virtual machine decides
  which new asset may replace which inputs; the history of an asset is a file of proofs chained by hashes, each of which is
  verified against the Bitcoin transaction that anchors it. A planter mints batches of assets, a
  send pipeline prepares, signs and commits transfers and builds the proofs that a recipient verifies; addresses
  name what a recipient wants. For payments over Lightning, two peers agree on prices by request-for-quote (RFQ) messages,
  a quote manager checks HTLCs against the quotes, and a channel manager around LDK forwards asset payments under them. A channel is
  funded by an exchange of messages with a proof; its asset state is kept in blobs beside the Lightning channel, put in auxiliary leaves of its
  transactions, distributed over their outputs and paid out on closing. The issuer of a group commits to its supply (mints, burns and ignored
  outputs) in trees of the same kind, which others verify. All wire formats are TLV streams of BigSize varints.

  \<^bold>\<open>The theories\<close>, each one part of the code:

  \<^item> \<open>Prelude\<close>: machine words, checked and wrapping arithmetic, the result type (\<open>Ok\<close>, \<open>Err\<close>, and
    \<open>Panic\<close> for an out-of-range slice or a failed unwrap), fixed-width integers on the wire. \<open>Btree\<close>: ordered maps.
  \<^item> \<open>Bigsize\<close>, \<open>Tlv\<close> (\<^verbatim>\<open>tap-primitives/src/encoding/bigsize.rs\<close>, \<^verbatim>\<open>tlv.rs\<close>): varints, records and
    streams; the canonical form, the round trip and the absence of panics. \<open>Codec\<close>: what the decoders of structures share; the
    locales \<open>strict_decoder\<close> and \<open>record_decoder\<close> give the round trip of a structure from that of its fields.
  \<^item> \<open>Mssmt_Node\<close>, \<open>Mssmt_Store\<close>, \<open>Mssmt_Tree\<close>, \<open>Mssmt_Proof\<close>, \<open>Mssmt_Compacted\<close> (\<^verbatim>\<open>tap-primitives/src/mssmt/\<close>): the node types and
    hashes, the hash-keyed store, the full tree with its walks down and up the 256 levels, Merkle
    proofs with their compressed form, and the compacted tree, which stores a lone leaf at the root of its subtree.
  \<^item> \<open>Mssmt_Spec\<close>: what a tree means. A content assigns a leaf to every path of 256 bits; it
    determines the node at every prefix of a path. \<open>Mssmt_Interface\<close> states as the locale \<open>sum_tree\<close> what a
    tree promises about its content, and derives the consequences for sequences of operations;
    \<open>Mssmt_Refine\<close> and \<open>Mssmt_Compacted_Refine\<close> show that the full and the compacted tree fulfil it, and hence agree.
  \<^item> \<open>Asset\<close>, \<open>Asset_Codec\<close> (\<^verbatim>\<open>tap-primitives/src/asset/\<close>, \<^verbatim>\<open>encoding/asset.rs\<close>): the asset data model, asset
    identifiers, witnesses, alternative leaves, the leaf an asset contributes to a tree, and the decoders.
  \<^item> \<open>Tapscript\<close>, \<open>Keys\<close>, \<open>Group_Key\<close> (\<^verbatim>\<open>crypto/tapscript.rs\<close>, \<^verbatim>\<open>keys.rs\<close>, \<^verbatim>\<open>pedersen.rs\<close>, \<^verbatim>\<open>schnorr.rs\<close>,
    \<^verbatim>\<open>asset/group_key.rs\<close>, \<^verbatim>\<open>burn.rs\<close>): tapscript hashes and trees, key tweaks, group key reveals, the witness validator.
  \<^item> \<open>Vm\<close> (\<^verbatim>\<open>tap-primitives/src/vm/mod.rs\<close>, \<^verbatim>\<open>crypto/virtual_tx.rs\<close>, \<^verbatim>\<open>commitment/split.rs\<close>): the
    virtual transaction, built on the full tree, and the engine that accepts or rejects a transition.
  \<^item> \<open>Commitment\<close>, \<open>Commitment_Refine\<close> (\<^verbatim>\<open>tap-primitives/src/commitment/\<close>): asset and tap commitments, their trees and proofs;
    every tree reached by the operations is well-formed, and its proofs are complete and binding.
  \<^item> \<open>Proof_File\<close>, \<open>Proof_Types\<close>, \<open>Proof_Codec\<close>, \<open>Proof_Verify\<close> (\<^verbatim>\<open>tap-primitives/src/proof/\<close>,
    \<^verbatim>\<open>tap-onchain/src/proof/merkle.rs\<close>): the hash chain of proofs, transaction Merkle proofs, transition proofs with their
    codecs, and the verification of proofs and files. \<open>Proof_Sound\<close> shows what an accepted proof implies, \<open>Proof_Roundtrip\<close> that
    encoded proofs decode, \<open>Proof_Complete\<close> that proofs read off an anchored commitment are accepted, \<open>Proof_Properties\<close>
    collects the theorems on verification.
  \<^item> \<open>Mint\<close> (\<^verbatim>\<open>tap-onchain/src/mint/\<close>, \<^verbatim>\<open>psbt/genesis.rs\<close>, \<^verbatim>\<open>proof/generate.rs\<close>): seedlings, batches, the planter as a
    state machine, and genesis proofs.
  \<^item> \<open>Send\<close>, \<open>Send_Accept\<close> (\<^verbatim>\<open>tap-onchain/src/send/\<close>, \<^verbatim>\<open>psbt/transfer.rs\<close>): allocations, split and full sends, burns, signing,
    passive assets and the executor; executed transfers are accepted by the virtual machine. \<open>Suffix\<close>, \<open>Suffix_Verify\<close>
    (\<^verbatim>\<open>tap-onchain/src/proof/exclusion.rs\<close>, \<^verbatim>\<open>suffix.rs\<close>, \<^verbatim>\<open>transition.rs\<close>): the proofs for the outputs of a transfer, which verify.
  \<^item> \<open>Address\<close> (\<^verbatim>\<open>tap-primitives/src/address/mod.rs\<close>), \<open>Vpsbt\<close> (\<^verbatim>\<open>vpsbt/types.rs\<close>): addresses and virtual packets.
  \<^item> \<open>Rfq_Math\<close>, \<open>Rfq_Wire\<close>, \<open>Messages\<close>, \<open>Rfq_Manager\<close> (\<^verbatim>\<open>tap-ldk/src/rfq/\<close>, \<^verbatim>\<open>tap-ldk/src/wire/\<close>): fixed-point prices, the messages of
    both protocols with their dispatch by type, and the quote manager with every operation as a state transformer and the step relation they form.
  \<^item> \<open>Allocation\<close>, \<open>Distribute\<close> (\<^verbatim>\<open>tap-ldk/src/channel/allocation.rs\<close>): the recipes for the outputs of channel transactions and the
    distribution of coins over them.
  \<^item> \<open>Blobs\<close>, \<open>Channel\<close>, \<open>Leaf_Signer\<close> (\<^verbatim>\<open>tap-ldk/src/channel/\<close>, \<^verbatim>\<open>tap-ldk/src/config.rs\<close>): the stored state of a channel with its codec (the
    locale \<open>inline_reader\<close> gives the round trip of length-prefixed lists and maps from that of their items), auxiliary leaves, the funding
    controller, closing, and the signatures of second-level HTLC transactions.
  \<^item> \<open>Routing\<close>, \<open>Channel_Manager\<close> (\<^verbatim>\<open>tap-ldk/src/routing/mod.rs\<close>, \<^verbatim>\<open>ldk/mod.rs\<close>): the records of asset HTLCs, the traffic shaper, and the manager
    that answers messages and intercepted HTLCs.
  \<^item> \<open>Supply\<close> (\<^verbatim>\<open>tap-universe/src/ignore.rs\<close>, \<^verbatim>\<open>supply/\<close>): ignore tuples, supply events, the supply trees on the compacted tree, and the verifier of
    supply commitments.

  \<^bold>\<open>Conventions.\<close> Byte arrays and vectors are lists of 8-bit words, Rust integers are words of their
  width, and \<^verbatim>\<open>+\<close> on them wraps as in a release build unless the code uses a checked or
  saturating operation. Strings are their UTF-8 bytes. Mutated objects are returned updated, also when a method fails after a change.
  Hash maps are partial functions or association
  lists with distinct keys, ordered maps association lists in ascending order. The text of an error is its literal part. Node
  caches (\<^verbatim>\<open>OnceLock\<close>) are not represented.

  \<^bold>\<open>Parameters.\<close> SHA-256 is a function \<open>sha\<close>, of which only the 32-byte output length is assumed
  (\<open>sha_32\<close>). Binding properties name the two colliding inputs (\<open>collision\<close>) instead of assuming
  that there are none. Where the tree refinement needs it, the absence of collisions is assumed
  for the explicit set of preimages of the trees involved (\<open>separated\<close>), together with leaf values that are not
  64 bytes long (such a leaf could be mistaken for a branch; no asset encoding is that short). Other code outside the repository is
  given by records of functions: the signature hashes of the bitcoin crate (\<open>BtcLib\<close>), secp256k1 (\<open>Secp\<close>), the serialisation of
  Bitcoin transactions (\<open>TxLib\<close>), the chain as a verifier sees it (\<open>VerifierCtx\<close>), the bech32 crate (\<open>Bech32Lib\<close>), the signer of a
  transfer (\<open>VirtualSigner\<close>), the key ring and the iteration order of the seedling map, the price oracle and the accept signer, the
  signer of channel transactions, the two operations of LDK (\<open>LdkOps\<close>), the iteration order of the quote maps and the stores behind
  the supply verifier (\<open>SupplyVerifier\<close>).
  Every hypothesis is shown to be satisfiable by a witness theorem on concrete data, with a small
  hash function \<open>demo_hash\<close> that separates the nodes of a one-leaf tree, and for a transfer with change with the one of \<open>Pair_Hash\<close>, which
  separates the nodes of a tree with two leaves.

  \<^bold>\<open>What is shown.\<close> Transitions accepted by the engine conserve value, have every input authorised and every
  split proven. The full tree is a map with exact sums and canonical roots, and the compacted tree is
  interchangeable with it; Merkle proofs bind and survive compression. Commitments stay well-formed, and their proofs are complete and
  binding. A verified file is a chain of anchored proofs, its verification ends, and the last hash commits to its history. Minted
  assets and executed transfers pass the verification that a recipient runs, the transfers with the proof suffixes made for their outputs and their block; the planter keeps its
  batches consistent. Assets, proofs, proof files, addresses, peer messages and channel blobs
  round-trip. Price conversions are exact up to one
  truncation; the quote manager keeps exact HTLC totals within the negotiated limits and its peers within
  theirs. The distribution of channel coins is exact per asset ID and per output, and channel outputs have the scripts of the on-chain
  builder. A valid proposal leads both peers to the same channel, a cooperative close pays what was agreed,
  and an intercepted HTLC is answered once, within its quote. The outstanding supply is exact, and an accepted supply commitment is anchored and backed by verified leaves. Some theorems record behaviour that a reader of the code should know: sums of Merkle proofs wrap, so that the split rules alone admit
  any amount; the root of a transfer may change its asset; an included asset can be proven excluded under another tap key; a passive asset can
  replace the change; a cancelled batch can be revived; the leaves of a channel do not depend on its asset IDs or genesis, its second-level signatures are judged by a key
  nobody holds, its proof can be replaced unchecked, an
  HTLC is valued whatever asset it carries, and burn proofs are refused in supply commitments.

  \<^bold>\<open>Bounds.\<close> No definition uses fuel. The decoding loops terminate since every record and every proof
  consumes input, nested assets and additional input files recurse on shorter byte strings; the walks recurse over the 256 levels;
  the loop building a transaction Merkle proof halves its level.
  Inputs are assumed to be shorter than 2^63 bytes where an offset could otherwise wrap, as every slice in memory is.

  \<^bold>\<open>Not modelled\<close>: the PSBT serialisation of virtual packets; transaction proofs and send fragments; couriers and mailboxes (network
  clients); supply commitment transactions of the wallet and the universe (storage and federation sync); ECIES and key derivation (calls into secp256k1 and bitcoin);
  databases, HTTP and gRPC glue, and the wiring of the node.
\<close>

end
